(* ===== verification/Prelude.thy ===== *)
theory Prelude
  imports Complex_Main "HOL-Library.Word" "HOL-Library.Char_ord" "HOL-Library.List_Lexorder"
begin

text \<open>
  What every theory of the development shares: the machine integer types of the Rust code,
  the error and result types of \<^verbatim>\<open>crates/openwave-core/src/model.rs\<close> with the
  early-return combinator that stands for \<^verbatim>\<open>?\<close>, and the collections of automation
  (\<open>res_simps\<close> for the result combinator, \<open>inv_intros\<close> for invariant preservation).
\<close>

named_theorems res_simps "facts about the result combinator"
named_theorems inv_intros "every operation keeps its invariant"

type_synonym u8 = "8 word"
type_synonym u16 = "16 word"
type_synonym u32 = "32 word"
type_synonym u64 = "64 word"
type_synonym i16 = "16 word"

subsection \<open>Errors and results\<close>

datatype error_code =
    Invalid | Unsupported | Unavailable | Busy | Io | CorruptStore | Cancelled | Identity | Frozen

record operation_error =
  err_code :: error_code
  err_message :: string

type_synonym 'a res = "operation_error + 'a"

definition error_new :: "error_code \<Rightarrow> string \<Rightarrow> operation_error" where
  "error_new code message = \<lparr>err_code = code, err_message = message\<rparr>"

definition error_invalid :: "string \<Rightarrow> operation_error" where
  "error_invalid message = error_new Invalid message"

definition error_unavailable :: "string \<Rightarrow> operation_error" where
  "error_unavailable message = error_new Unavailable message"

lemma err_code_simps [simp]:
  "err_code (error_new c m) = c"
  "err_code (error_invalid m) = Invalid"
  "err_code (error_unavailable m) = Unavailable"
  by (simp_all add: error_new_def error_invalid_def error_unavailable_def)

text \<open>\<open>rbind r k\<close> is \<^verbatim>\<open>let x = r?; k(x)\<close>: an error returns at once.\<close>

definition rbind :: "'a res \<Rightarrow> ('a \<Rightarrow> 'b res) \<Rightarrow> 'b res" where
  "rbind r k = (case r of Inl e \<Rightarrow> Inl e | Inr x \<Rightarrow> k x)"

lemma rbind_simps [simp, res_simps]:
  "rbind (Inl e) k = Inl e"
  "rbind (Inr x) k = k x"
  by (simp_all add: rbind_def)

lemma rbind_Inr_iff [res_simps]:
  "rbind r k = Inr y \<longleftrightarrow> (\<exists>x. r = Inr x \<and> k x = Inr y)"
  by (cases r) simp_all

lemma rbind_Inl_iff [res_simps]:
  "rbind r k = Inl e \<longleftrightarrow> r = Inl e \<or> (\<exists>x. r = Inr x \<and> k x = Inl e)"
  by (cases r) auto

lemma rbind_assoc: "rbind (rbind r f) g = rbind r (\<lambda>x. rbind (f x) g)"
  by (cases r) simp_all

lemma rbind_cong [fundef_cong]:
  "r = r' \<Longrightarrow> (\<And>x. r' = Inr x \<Longrightarrow> f x = g x) \<Longrightarrow> rbind r f = rbind r' g"
  by (cases r') simp_all

text \<open>A congruence that leaves the continuation alone until its argument is a value.\<close>

lemma rbind_weak_cong: "r = r' \<Longrightarrow> rbind r k = rbind r' k"
  by simp

text \<open>\<^verbatim>\<open>Option::ok_or_else\<close>, \<^verbatim>\<open>Result::ok\<close> and the two directions of an early return.\<close>

definition ok_or :: "operation_error \<Rightarrow> 'a option \<Rightarrow> 'a res" where
  "ok_or e r = (case r of None \<Rightarrow> Inl e | Some x \<Rightarrow> Inr x)"

definition res_ok :: "'a res \<Rightarrow> 'a option" where
  "res_ok r = (case r of Inl e \<Rightarrow> None | Inr x \<Rightarrow> Some x)"

definition ensure :: "bool \<Rightarrow> operation_error \<Rightarrow> unit res" where
  "ensure b e = (if b then Inr () else Inl e)"

definition is_ok :: "'a res \<Rightarrow> bool" where
  "is_ok r = (case r of Inl e \<Rightarrow> False | Inr x \<Rightarrow> True)"

lemma ok_or_simps [simp]: "ok_or e None = Inl e" "ok_or e (Some x) = Inr x"
  by (simp_all add: ok_or_def)

lemma ok_or_Inr_iff [res_simps]: "ok_or e r = Inr x \<longleftrightarrow> r = Some x"
  by (cases r) simp_all

lemma res_ok_simps [simp]: "res_ok (Inl e) = None" "res_ok (Inr x) = Some x"
  by (simp_all add: res_ok_def)

lemma res_ok_Some_iff [res_simps]: "res_ok r = Some x \<longleftrightarrow> r = Inr x"
  by (cases r) simp_all

lemma is_ok_simps [simp]: "is_ok (Inl e) = False" "is_ok (Inr x) = True"
  by (simp_all add: is_ok_def)

lemma ensure_Inr_iff [simp, res_simps]: "ensure b e = Inr u \<longleftrightarrow> b"
  by (simp add: ensure_def)

lemma ensure_Inl_iff [simp, res_simps]: "ensure b e = Inl e' \<longleftrightarrow> \<not> b \<and> e' = e"
  by (auto simp: ensure_def)

text \<open>\<^verbatim>\<open>iter().map(f).collect::<Result<_>>()\<close>: the first error wins.\<close>

fun res_mapM :: "('a \<Rightarrow> 'b res) \<Rightarrow> 'a list \<Rightarrow> 'b list res" where
  "res_mapM f [] = Inr []"
| "res_mapM f (x # xs) = rbind (f x) (\<lambda>y. rbind (res_mapM f xs) (\<lambda>ys. Inr (y # ys)))"

lemma res_mapM_Inr_iff:
  "res_mapM f xs = Inr ys \<longleftrightarrow> list_all2 (\<lambda>x y. f x = Inr y) xs ys"
  by (induction xs arbitrary: ys) (auto simp: res_simps list_all2_Cons1)

lemma res_mapM_length: "res_mapM f xs = Inr ys \<Longrightarrow> length ys = length xs"
  by (auto simp: res_mapM_Inr_iff dest: list_all2_lengthD)

text \<open>\<^verbatim>\<open>for x in xs { s = step(s, x)?; }\<close>\<close>

fun res_foldM :: "('s \<Rightarrow> 'a \<Rightarrow> 's res) \<Rightarrow> 's \<Rightarrow> 'a list \<Rightarrow> 's res" where
  "res_foldM f s [] = Inr s"
| "res_foldM f s (x # xs) = rbind (f s x) (\<lambda>s'. res_foldM f s' xs)"

lemma res_foldM_append:
  "res_foldM f s (xs @ ys) = rbind (res_foldM f s xs) (\<lambda>s'. res_foldM f s' ys)"
  by (induction xs arbitrary: s) (simp_all add: rbind_assoc)

lemma res_foldM_Inl: "res_foldM f s xs = Inl e \<Longrightarrow> (\<And>s x. f s x = Inl e \<Longrightarrow> P) \<Longrightarrow> P"
  by (induction xs arbitrary: s) (auto simp: rbind_Inl_iff)

lemma res_foldM_inv:
  "res_foldM f s xs = Inr s' \<Longrightarrow> P s \<Longrightarrow>
   (\<And>s x s'. x \<in> set xs \<Longrightarrow> P s \<Longrightarrow> f s x = Inr s' \<Longrightarrow> P s') \<Longrightarrow> P s'"
proof (induction xs arbitrary: s)
  case Nil
  then show ?case by simp
next
  case (Cons x xs)
  from Cons.prems(1) obtain t where t: "f s x = Inr t" and rest: "res_foldM f t xs = Inr s'"
    by (auto simp: res_simps)
  from Cons.prems(2) t have "P t" by (rule Cons.prems(3) [rotated]) simp
  with rest show ?case by (rule Cons.IH) (auto intro: Cons.prems(3))
qed

subsection \<open>Observations\<close>

text \<open>\<^verbatim>\<open>Observation<T>\<close>: what the graph or a device is known to be, or why it is not.\<close>

datatype 'a observation = Known 'a | Unknown operation_error

definition known :: "'a observation \<Rightarrow> 'a option" where
  "known obs = (case obs of Known v \<Rightarrow> Some v | Unknown e \<Rightarrow> None)"

lemma known_simps [simp]: "known (Known v) = Some v" "known (Unknown e) = None"
  by (simp_all add: known_def)

lemma known_Some_iff: "known obs = Some v \<longleftrightarrow> obs = Known v"
  by (cases obs) simp_all

subsection \<open>Integer operations of the Rust standard library\<close>

definition checked_add :: "'a::len word \<Rightarrow> 'a word \<Rightarrow> 'a word option" where
  "checked_add a b = (if unat a + unat b < 2 ^ LENGTH('a) then Some (a + b) else None)"

definition saturating_add :: "'a::len word \<Rightarrow> 'a word \<Rightarrow> 'a word" where
  "saturating_add a b = (if unat a + unat b < 2 ^ LENGTH('a) then a + b else - 1)"

lemma unat_checked_add: "checked_add a b = Some c \<Longrightarrow> unat c = unat a + unat b"
  by (auto simp: checked_add_def unat_word_ariths split: if_splits)

lemma unat_saturating_add:
  fixes a b :: "'a::len word"
  shows "unat (saturating_add a b) = min (unat a + unat b) (2 ^ LENGTH('a) - 1)"
  by (auto simp: saturating_add_def unat_word_ariths unsigned_minus_1_eq_mask mask_eq_exp_minus_1 min_def)

lemma saturating_add_one_le:
  fixes a :: "'a::len word"
  shows "unat (saturating_add a 1) \<le> Suc (unat a)"
  by (simp add: unat_saturating_add unat_1)

subsection \<open>Lists\<close>

text \<open>\<^verbatim>\<open>slice[a..b]\<close>\<close>

definition slice :: "nat \<Rightarrow> nat \<Rightarrow> 'a list \<Rightarrow> 'a list" where
  "slice a b xs = take (b - a) (drop a xs)"

lemma length_slice: "b \<le> length xs \<Longrightarrow> length (slice a b xs) = b - a"
  by (simp add: slice_def)

text \<open>\<^verbatim>\<open>dst[at..at + src.len()].copy_from_slice(src)\<close>\<close>

definition splice :: "nat \<Rightarrow> 'a list \<Rightarrow> 'a list \<Rightarrow> 'a list" where
  "splice off src dst = take off dst @ src @ drop (off + length src) dst"

lemma length_splice [simp]:
  "off + length src \<le> length dst \<Longrightarrow> length (splice off src dst) = length dst"
  by (simp add: splice_def)

lemma splice_nth:
  assumes "off + length src \<le> length dst" and "i < length dst"
  shows "splice off src dst ! i =
    (if off \<le> i \<and> i < off + length src then src ! (i - off) else dst ! i)"
  using assms by (auto simp: splice_def nth_append min_def not_less add.commute)

text \<open>\<^verbatim>\<open>iter().find_map(f)\<close>\<close>

fun find_map :: "('a \<Rightarrow> 'b option) \<Rightarrow> 'a list \<Rightarrow> 'b option" where
  "find_map f [] = None"
| "find_map f (x # xs) = (case f x of None \<Rightarrow> find_map f xs | Some y \<Rightarrow> Some y)"

lemma find_map_filter_hd:
  "find_map f xs = (case filter (\<lambda>x. f x \<noteq> None) xs of [] \<Rightarrow> None | x # _ \<Rightarrow> f x)"
  by (induction xs) (auto split: option.splits)

lemma foldl_inv:
  "P s \<Longrightarrow> (\<And>s x. x \<in> set xs \<Longrightarrow> P s \<Longrightarrow> P (f s x)) \<Longrightarrow> P (foldl f s xs)"
  by (induction xs arbitrary: s) auto

end
