(* ===== verification/F64.thy ===== *)
theory F64
  imports Prelude "HOL-Library.Log_Nat"
begin

text \<open>
  The double type \<^verbatim>\<open>f64\<close> of Rust, as far as the code uses it: sign and exact rational
  magnitude for a finite value (so \<open>FFin True 0\<close> is \<^verbatim>\<open>-0.0\<close>), the infinities, and one
  NaN. Every arithmetic operation is the exact rational operation followed by
  \<open>f64_round\<close>, IEEE 754 rounding to nearest with ties to even: 53 significant bits, the
  subnormal grid \<open>2 ^ -1074\<close>, overflow to infinity at \<open>2 ^ 1024\<close>. Comparisons, clamping,
  \<^verbatim>\<open>round_ties_even\<close>, the saturating \<^verbatim>\<open>as\<close> casts and \<^verbatim>\<open>total_cmp\<close> are the standard
  library's. All of it computes. \<open>f64_rep\<close> says which magnitudes a double can hold; the
  lemmas show that rounding keeps them, is monotone, and is exact on integers up to
  \<open>2 ^ 53\<close>.
\<close>

datatype f64 = FNaN | FInf bool | FFin bool rat

subsection \<open>Rounding\<close>

definition rat_log2 :: "rat \<Rightarrow> int" where
  "rat_log2 q = (let (n, d) = quotient_of q; e = bitlen n - bitlen d
     in if 2 powi e \<le> q then e else e - 1)"

definition round_half_even :: "rat \<Rightarrow> int" where
  "round_half_even q = (let f = \<lfloor>q\<rfloor>; r = q - of_int f
     in if r < 1 / 2 then f else if r > 1 / 2 then f + 1 else if even f then f else f + 1)"

definition f64_exp :: "rat \<Rightarrow> int" where
  "f64_exp q = max (rat_log2 q - 52) (- 1074)"

definition round_mag :: "rat \<Rightarrow> rat" where
  "round_mag q = (if q = 0 then 0
     else of_int (round_half_even (q / 2 powi f64_exp q)) * 2 powi f64_exp q)"

definition f64_round :: "bool \<Rightarrow> rat \<Rightarrow> f64" where
  "f64_round neg q = (let m = round_mag q in if m \<ge> 2 ^ 1024 then FInf neg else FFin neg m)"

definition f64_of_rat :: "rat \<Rightarrow> f64" where
  "f64_of_rat q = f64_round (q < 0) \<bar>q\<bar>"

definition f64_of_int :: "int \<Rightarrow> f64" where
  "f64_of_int n = f64_of_rat (of_int n)"

definition f64_rep :: "rat \<Rightarrow> bool" where
  "f64_rep m \<longleftrightarrow> 0 \<le> m \<and> m < 2 ^ 1024 \<and>
     (m = 0 \<or> m / 2 powi f64_exp m = of_int \<lfloor>m / 2 powi f64_exp m\<rfloor>)"

fun f64_wf :: "f64 \<Rightarrow> bool" where
  "f64_wf (FFin neg m) = f64_rep m"
| "f64_wf _ = True"

subsection \<open>Sign, value and comparison\<close>

fun f64_finite :: "f64 \<Rightarrow> bool" where
  "f64_finite (FFin _ _) = True"
| "f64_finite _ = False"

fun f64_nan :: "f64 \<Rightarrow> bool" where
  "f64_nan FNaN = True"
| "f64_nan _ = False"

fun f64_val :: "f64 \<Rightarrow> rat" where
  "f64_val (FFin neg m) = (if neg then - m else m)"
| "f64_val _ = 0"

fun f64_lt :: "f64 \<Rightarrow> f64 \<Rightarrow> bool" where
  "f64_lt FNaN _ = False"
| "f64_lt _ FNaN = False"
| "f64_lt (FInf a) (FInf b) = (a \<and> \<not> b)"
| "f64_lt (FInf a) (FFin _ _) = a"
| "f64_lt (FFin _ _) (FInf b) = (\<not> b)"
| "f64_lt (FFin a m) (FFin b n) = (f64_val (FFin a m) < f64_val (FFin b n))"

fun f64_eq :: "f64 \<Rightarrow> f64 \<Rightarrow> bool" where
  "f64_eq (FInf a) (FInf b) = (a = b)"
| "f64_eq (FFin a m) (FFin b n) = (f64_val (FFin a m) = f64_val (FFin b n))"
| "f64_eq _ _ = False"

definition f64_le :: "f64 \<Rightarrow> f64 \<Rightarrow> bool" where
  "f64_le x y \<longleftrightarrow> f64_lt x y \<or> f64_eq x y"

abbreviation f64_gt :: "f64 \<Rightarrow> f64 \<Rightarrow> bool" where
  "f64_gt x y \<equiv> f64_lt y x"

abbreviation f64_ge :: "f64 \<Rightarrow> f64 \<Rightarrow> bool" where
  "f64_ge x y \<equiv> f64_le y x"

text \<open>\<^verbatim>\<open>(lo..=hi).contains(&x)\<close>\<close>

definition f64_within :: "f64 \<Rightarrow> f64 \<Rightarrow> f64 \<Rightarrow> bool" where
  "f64_within lo hi x \<longleftrightarrow> f64_le lo x \<and> f64_le x hi"

fun f64_neg :: "f64 \<Rightarrow> f64" where
  "f64_neg FNaN = FNaN"
| "f64_neg (FInf a) = FInf (\<not> a)"
| "f64_neg (FFin a m) = FFin (\<not> a) m"

fun f64_abs :: "f64 \<Rightarrow> f64" where
  "f64_abs FNaN = FNaN"
| "f64_abs (FInf _) = FInf False"
| "f64_abs (FFin _ m) = FFin False m"

fun f64_sign :: "f64 \<Rightarrow> bool" where
  "f64_sign FNaN = False"
| "f64_sign (FInf a) = a"
| "f64_sign (FFin a _) = a"

fun f64_copysign :: "f64 \<Rightarrow> f64 \<Rightarrow> f64" where
  "f64_copysign FNaN _ = FNaN"
| "f64_copysign (FInf _) y = FInf (f64_sign y)"
| "f64_copysign (FFin _ m) y = FFin (f64_sign y) m"

subsection \<open>Arithmetic\<close>

fun f64_add :: "f64 \<Rightarrow> f64 \<Rightarrow> f64" where
  "f64_add FNaN _ = FNaN"
| "f64_add _ FNaN = FNaN"
| "f64_add (FInf a) (FInf b) = (if a = b then FInf a else FNaN)"
| "f64_add (FInf a) _ = FInf a"
| "f64_add _ (FInf b) = FInf b"
| "f64_add (FFin a m) (FFin b n) = (let s = f64_val (FFin a m) + f64_val (FFin b n)
     in if s = 0 then FFin (a \<and> b) 0 else f64_of_rat s)"

definition f64_sub :: "f64 \<Rightarrow> f64 \<Rightarrow> f64" where
  "f64_sub x y = f64_add x (f64_neg y)"

fun f64_mul :: "f64 \<Rightarrow> f64 \<Rightarrow> f64" where
  "f64_mul FNaN _ = FNaN"
| "f64_mul _ FNaN = FNaN"
| "f64_mul (FInf a) (FInf b) = FInf (a \<noteq> b)"
| "f64_mul (FInf a) (FFin b n) = (if n = 0 then FNaN else FInf (a \<noteq> b))"
| "f64_mul (FFin a m) (FInf b) = (if m = 0 then FNaN else FInf (a \<noteq> b))"
| "f64_mul (FFin a m) (FFin b n) = f64_round (a \<noteq> b) (m * n)"

fun f64_div :: "f64 \<Rightarrow> f64 \<Rightarrow> f64" where
  "f64_div FNaN _ = FNaN"
| "f64_div _ FNaN = FNaN"
| "f64_div (FInf a) (FInf b) = FNaN"
| "f64_div (FInf a) (FFin b n) = FInf (a \<noteq> b)"
| "f64_div (FFin a m) (FInf b) = FFin (a \<noteq> b) 0"
| "f64_div (FFin a m) (FFin b n) =
     (if n = 0 then (if m = 0 then FNaN else FInf (a \<noteq> b)) else f64_round (a \<noteq> b) (m / n))"

text \<open>
  \<^verbatim>\<open>f64::max\<close> and \<^verbatim>\<open>f64::min\<close> return the operand that is a number; \<^verbatim>\<open>clamp\<close> keeps NaN
  (the code's bounds are constants with \<^verbatim>\<open>min <= max\<close>, so its panic is not reached).
\<close>

definition f64_max :: "f64 \<Rightarrow> f64 \<Rightarrow> f64" where
  "f64_max x y = (if f64_nan x then y else if f64_nan y then x else if f64_lt x y then y else x)"

definition f64_min :: "f64 \<Rightarrow> f64 \<Rightarrow> f64" where
  "f64_min x y = (if f64_nan x then y else if f64_nan y then x else if f64_lt y x then y else x)"

definition f64_clamp :: "f64 \<Rightarrow> f64 \<Rightarrow> f64 \<Rightarrow> f64" where
  "f64_clamp lo hi x =
     (let y = (if f64_lt x lo then lo else x) in if f64_gt y hi then hi else y)"

fun f64_round_ties_even :: "f64 \<Rightarrow> f64" where
  "f64_round_ties_even (FFin a m) = FFin a (of_int (round_half_even m))"
| "f64_round_ties_even x = x"

text \<open>\<^verbatim>\<open>x as T\<close> for an integer type of range \<open>lo..hi\<close>: truncate, saturate, NaN is 0.\<close>

fun f64_trunc :: "f64 \<Rightarrow> int" where
  "f64_trunc (FFin a m) = (if a then - \<lfloor>m\<rfloor> else \<lfloor>m\<rfloor>)"
| "f64_trunc _ = 0"

fun f64_to_int :: "int \<Rightarrow> int \<Rightarrow> f64 \<Rightarrow> int" where
  "f64_to_int lo hi FNaN = 0"
| "f64_to_int lo hi (FInf a) = (if a then lo else hi)"
| "f64_to_int lo hi (FFin a m) = max lo (min hi (f64_trunc (FFin a m)))"

definition f64_to_u8 :: "f64 \<Rightarrow> u8" where
  "f64_to_u8 x = word_of_int (f64_to_int 0 255 x)"

definition f64_to_u16 :: "f64 \<Rightarrow> u16" where
  "f64_to_u16 x = word_of_int (f64_to_int 0 65535 x)"

definition f64_to_i16 :: "f64 \<Rightarrow> i16" where
  "f64_to_i16 x = word_of_int (f64_to_int (- 32768) 32767 x)"

text \<open>An \<^verbatim>\<open>i32\<close> is only compared, clamped and printed; it is kept as the integer it denotes.\<close>

definition f64_to_i32 :: "f64 \<Rightarrow> int" where
  "f64_to_i32 x = f64_to_int (- 2147483648) 2147483647 x"

text \<open>\<^verbatim>\<open>f64::total_cmp\<close> as a key: \<open>-0.0\<close> before \<open>0.0\<close>, infinities outside, NaN last.\<close>

fun f64_total_le :: "f64 \<Rightarrow> f64 \<Rightarrow> bool" where
  "f64_total_le x FNaN = True"
| "f64_total_le FNaN _ = False"
| "f64_total_le (FFin a m) (FFin b n) =
     (f64_val (FFin a m) < f64_val (FFin b n) \<or>
      f64_val (FFin a m) = f64_val (FFin b n) \<and> (a \<or> \<not> b))"
| "f64_total_le x y = f64_le x y"

subsection \<open>Binary logarithm and powers of two\<close>

lemma bitlen_powi:
  assumes "0 < n"
  shows "2 powi (bitlen n - 1) \<le> (of_int n :: rat)" and "(of_int n :: rat) < 2 powi bitlen n"
proof -
  have pos: "1 \<le> bitlen n"
    using assms bitlen_nonneg [of n] bitlen_eq_zero_iff [of n] by linarith
  have p: "(2::rat) powi k = of_int (2 ^ nat k)" if "0 \<le> k" for k
    using that by (simp add: power_int_def)
  have lo: "2 ^ nat (bitlen n - 1) \<le> n" and hi: "n < 2 ^ nat (bitlen n)"
    using bitlen_bounds [OF assms] by auto
  show "2 powi (bitlen n - 1) \<le> (of_int n :: rat)"
    using pos lo by (subst p) (simp_all del: of_int_power)
  show "(of_int n :: rat) < 2 powi bitlen n"
    using pos hi by (subst p) (simp_all del: of_int_power)
qed

lemma powi_2_add: "(2::rat) powi (a + b) = 2 powi a * 2 powi b"
  by (simp add: power_int_add)

lemma powi_2_diff: "(2::rat) powi (a - b) = 2 powi a / 2 powi b"
  by (simp add: power_int_diff)

lemma powi_2_less_iff: "(2::rat) powi a < 2 powi b \<longleftrightarrow> a < b"
  by (meson less_le_not_le linorder_not_less one_less_numeral_iff power_int_increasing power_int_strict_increasing semiring_norm(76) order_less_imp_le)

lemma powi_2_le_iff: "(2::rat) powi a \<le> 2 powi b \<longleftrightarrow> a \<le> b"
  using powi_2_less_iff [of b a] by (simp add: not_less [symmetric])

lemma rat_log2_bounds:
  assumes "0 < q"
  shows "2 powi rat_log2 q \<le> q" and "q < 2 powi (rat_log2 q + 1)"
proof -
  obtain n d where nd: "quotient_of q = (n, d)" by fastforce
  then have d: "0 < d" and q: "q = of_int n / of_int d"
    by (auto dest: quotient_of_denom_pos quotient_of_div)
  with assms have n: "0 < n" by (simp add: zero_less_divide_iff)
  define e where "e = bitlen n - bitlen d"
  have "2 powi (e - 1) * (of_int d :: rat) \<le> 2 powi (e - 1) * 2 powi bitlen d"
    using bitlen_powi(2) [OF d] by simp
  also have "\<dots> = 2 powi (bitlen n - 1)"
    by (simp add: e_def flip: powi_2_add)
  also have "\<dots> \<le> of_int n" by (rule bitlen_powi(1) [OF n])
  finally have lo: "2 powi (e - 1) \<le> q" using d by (simp add: q field_simps)
  have "of_int n < (2::rat) powi bitlen n" by (rule bitlen_powi(2) [OF n])
  also have "\<dots> = 2 powi (e + 1) * 2 powi (bitlen d - 1)"
    by (simp add: e_def flip: powi_2_add)
  also have "\<dots> \<le> 2 powi (e + 1) * of_int d"
    using bitlen_powi(1) [OF d] by simp
  finally have hi: "q < 2 powi (e + 1)" using d by (simp add: q field_simps)
  have r: "rat_log2 q = (if 2 powi e \<le> q then e else e - 1)"
    by (simp add: rat_log2_def nd e_def)
  show "2 powi rat_log2 q \<le> q" using lo by (simp add: r)
  show "q < 2 powi (rat_log2 q + 1)" using hi by (simp add: r)
qed

lemma rat_log2_unique:
  assumes "2 powi e \<le> q" and "q < 2 powi (e + 1)"
  shows "rat_log2 q = e"
proof -
  have q: "0 < q" using assms(1) by (rule order_less_le_trans [rotated]) simp
  note b = rat_log2_bounds [OF q]
  have "rat_log2 q < e + 1" using order_le_less_trans [OF b(1) assms(2)] by (simp add: powi_2_less_iff)
  moreover have "e < rat_log2 q + 1" using order_le_less_trans [OF assms(1) b(2)] by (simp add: powi_2_less_iff)
  ultimately show ?thesis by linarith
qed

lemma rat_log2_mono: "0 < p \<Longrightarrow> p \<le> q \<Longrightarrow> rat_log2 p \<le> rat_log2 q"
  using rat_log2_bounds [of p] rat_log2_bounds [of q] powi_2_less_iff [of "rat_log2 p" "rat_log2 q + 1"]
  by linarith

subsection \<open>Rounding to an integer\<close>

lemma round_half_even_of_int [simp]: "round_half_even (of_int k) = k"
  by (simp add: round_half_even_def)

lemma round_half_even_bounds: "\<lfloor>q\<rfloor> \<le> round_half_even q" "round_half_even q \<le> \<lceil>q\<rceil>"
   apply (auto simp: round_half_even_def Let_def)
  by linarith+

lemma round_half_even_err: "\<bar>of_int (round_half_even q) - q\<bar> \<le> 1 / 2"
  using floor_correct [of q] unfolding round_half_even_def Let_def by (auto split: if_splits)

lemma round_half_even_mono:
  assumes "p \<le> q"
  shows "round_half_even p \<le> round_half_even q"
proof (cases "\<lfloor>p\<rfloor> = \<lfloor>q\<rfloor>")
  case True
  with assms show ?thesis by (auto simp: round_half_even_def Let_def)
next
  case False
  with assms have "\<lfloor>p\<rfloor> + 1 \<le> \<lfloor>q\<rfloor>" using floor_mono [OF assms] by linarith
  moreover have "\<lceil>p\<rceil> \<le> \<lfloor>p\<rfloor> + 1" by linarith
  ultimately show ?thesis
    using round_half_even_bounds(2) [of p] round_half_even_bounds(1) [of q] by linarith
qed

subsection \<open>Rounding to a double\<close>

lemma f64_exp_mono: "0 < p \<Longrightarrow> p \<le> q \<Longrightarrow> f64_exp p \<le> f64_exp q"
  using rat_log2_mono [of p q] by (simp add: f64_exp_def)

lemma round_mag_0 [simp]: "round_mag 0 = 0"
  by (simp add: round_mag_def)

lemma round_mag_nonneg:
  assumes "0 \<le> q"
  shows "0 \<le> round_mag q"
proof -
  have "0 \<le> \<lfloor>q / 2 powi f64_exp q\<rfloor>" using assms by (simp add: zero_le_floor)
  then have "0 \<le> round_half_even (q / 2 powi f64_exp q)"
    using round_half_even_bounds(1) order_trans by blast
  then show ?thesis by (simp add: round_mag_def)
qed

lemma round_mag_err:
  assumes "0 < q"
  shows "\<bar>round_mag q - q\<bar> \<le> 2 powi f64_exp q / 2"
proof -
  let ?u = "2 powi f64_exp q :: rat"
  have u: "0 < ?u" by simp
  have "round_mag q - q = (of_int (round_half_even (q / ?u)) - q / ?u) * ?u"
    using assms u by (simp add: round_mag_def algebra_simps)
  then have "\<bar>round_mag q - q\<bar> = \<bar>of_int (round_half_even (q / ?u)) - q / ?u\<bar> * ?u"
    using u by (simp add: abs_mult)
  also have "\<dots> \<le> 1 / 2 * ?u"
    using round_half_even_err [of "q / ?u"] u by (intro mult_right_mono) auto
  finally show ?thesis by simp
qed

lemma f64_repI:
  assumes m: "m = of_int k * 2 powi e" and k: "0 \<le> k" "k \<le> 2 ^ 53" and e: "- 1074 \<le> e"
    and lt: "m < 2 ^ 1024"
  shows "f64_rep m"
proof (cases "k = 2 ^ 53")
  case True
  have pos: "0 < m" by (simp add: m True)
  have m': "m = 2 powi (e + 53)" using True by (simp add: m powi_2_add power_int_def [of _ 53])
  have "rat_log2 m = e + 53"
    by (rule rat_log2_unique) (auto simp: m' powi_2_less_iff)
  then have x: "f64_exp m = e + 1" using e by (simp add: f64_exp_def)
  have "m / 2 powi f64_exp m = 2 powi 52"
    by (simp only: x) (simp add: m' flip: powi_2_diff)
  then have "m / 2 powi f64_exp m = of_int (2 ^ 52)" by (simp add: power_int_def)
  then show ?thesis using pos lt unfolding f64_rep_def by (metis floor_of_int less_imp_le)
next
  case False
  show ?thesis
  proof (cases "m = 0")
    case True
    then show ?thesis by (simp add: f64_rep_def)
  next
    case nz: False
    have pos: "0 < m" using nz k by (simp add: m)
    have "k < 2 ^ 53" using k False by simp
    then have "(of_int k :: rat) < of_int (2 ^ 53)" by (simp only: of_int_less_iff)
    then have "(of_int k :: rat) < 2 powi 53" by (simp add: power_int_def)
    then have "m < 2 powi (53 + e)" by (simp add: m powi_2_add)
    then have "rat_log2 m < 53 + e"
      using rat_log2_bounds(1) [OF pos] powi_2_less_iff [of "rat_log2 m" "53 + e"] by linarith
    then have le: "f64_exp m \<le> e" using e by (simp add: f64_exp_def)
    have "m / 2 powi f64_exp m = of_int k * 2 powi (e - f64_exp m)"
      by (simp add: m powi_2_diff)
    also have "\<dots> = of_int (k * 2 ^ nat (e - f64_exp m))" using le by (simp add: power_int_def)
    finally show ?thesis using pos lt unfolding f64_rep_def by (metis floor_of_int less_imp_le)
  qed
qed

lemma round_mag_rep [simp]: "f64_rep m \<Longrightarrow> round_mag m = m"
  by (auto simp: f64_rep_def round_mag_def)
     (metis nonzero_divide_eq_eq power_int_not_zero round_half_even_of_int zero_neq_numeral)

lemma round_mag_le_pow:
  assumes q: "0 < q" and lt: "q \<le> 2 powi e" and e: "- 1074 \<le> e"
  shows "round_mag q \<le> 2 powi e"
proof -
  let ?x = "f64_exp q"
  have "rat_log2 q \<le> e"
    using rat_log2_bounds(1) [OF q] lt powi_2_le_iff [of "rat_log2 q" e] by linarith
  then have x: "?x \<le> e" using e by (simp add: f64_exp_def)
  have "q / 2 powi ?x \<le> 2 powi (e - ?x)"
    using lt by (simp add: powi_2_diff divide_right_mono)
  also have "\<dots> = of_int (2 ^ nat (e - ?x))" using x by (simp add: power_int_def)
  finally have "round_half_even (q / 2 powi ?x) \<le> 2 ^ nat (e - ?x)"
    using round_half_even_mono round_half_even_of_int by metis
  then have "(of_int (round_half_even (q / 2 powi ?x)) :: rat) \<le> of_int (2 ^ nat (e - ?x))"
    by (simp only: of_int_le_iff)
  also have "\<dots> = 2 powi (e - ?x)" using x by (simp add: power_int_def)
  finally have "of_int (round_half_even (q / 2 powi ?x)) * 2 powi ?x \<le> (2::rat) powi e"
    by (simp add: powi_2_diff field_simps)
  then show ?thesis using q by (simp add: round_mag_def)
qed

lemma round_mag_ge_pow:
  assumes lt: "2 powi e \<le> q" and e: "- 1074 \<le> e"
  shows "2 powi e \<le> round_mag q"
proof -
  let ?x = "f64_exp q"
  have q: "0 < q" using lt by (rule order_less_le_trans [rotated]) simp
  show ?thesis
  proof (cases "?x \<le> e")
    case True
    have "of_int (2 ^ nat (e - ?x)) = (2::rat) powi (e - ?x)" using True by (simp add: power_int_def)
    also have "\<dots> \<le> q / 2 powi ?x" using lt by (simp add: powi_2_diff divide_right_mono)
    finally have "2 ^ nat (e - ?x) \<le> round_half_even (q / 2 powi ?x)"
      using round_half_even_mono round_half_even_of_int by metis
    then have "of_int (2 ^ nat (e - ?x)) \<le> (of_int (round_half_even (q / 2 powi ?x)) :: rat)"
      by (simp only: of_int_le_iff)
    then have "(2::rat) powi (e - ?x) \<le> of_int (round_half_even (q / 2 powi ?x))"
      using True by (simp add: power_int_def)
    then show ?thesis using q by (simp add: round_mag_def powi_2_diff field_simps)
  next
    case False
    then have x: "?x = rat_log2 q - 52" and ge: "e < rat_log2 q" using e by (auto simp: f64_exp_def)
    have "2 powi (rat_log2 q) / 2 powi ?x \<le> q / 2 powi ?x"
      using rat_log2_bounds(1) [OF q] by (simp add: divide_right_mono)
    then have "of_int (2 ^ 52) \<le> q / 2 powi ?x"
      by (simp add: x powi_2_diff power_int_def [of _ 52])
    then have "2 ^ 52 \<le> round_half_even (q / 2 powi ?x)"
      using round_half_even_mono round_half_even_of_int by metis
    then have "(1::int) \<le> round_half_even (q / 2 powi ?x)" by simp
    then have "(of_int 1 :: rat) \<le> of_int (round_half_even (q / 2 powi ?x))" by (simp only: of_int_le_iff)
    then have "2 powi ?x \<le> round_mag q" using q by (simp add: round_mag_def)
    moreover have "(2::rat) powi e \<le> 2 powi ?x" using False by (simp add: powi_2_le_iff)
    ultimately show ?thesis by linarith
  qed
qed

lemma round_mag_mono:
  assumes "0 \<le> p" and "p \<le> q"
  shows "round_mag p \<le> round_mag q"
proof (cases "p = 0")
  case True
  then show ?thesis using assms round_mag_nonneg by simp
next
  case False
  with assms have p: "0 < p" and q: "0 < q" by auto
  show ?thesis
  proof (cases "f64_exp p = f64_exp q")
    case True
    have "round_half_even (p / 2 powi f64_exp q) \<le> round_half_even (q / 2 powi f64_exp q)"
      using assms by (intro round_half_even_mono divide_right_mono) auto
    then show ?thesis using p q by (simp add: round_mag_def True)
  next
    case False
    then have lt: "f64_exp p < f64_exp q" using f64_exp_mono [OF p assms(2)] by simp
    then have e: "rat_log2 p + 1 \<le> rat_log2 q" and ge: "- 1074 \<le> rat_log2 q"
      by (auto simp: f64_exp_def max_def split: if_splits)
    have "p \<le> 2 powi rat_log2 q"
      using rat_log2_bounds(2) [OF p] powi_2_le_iff [of "rat_log2 p + 1" "rat_log2 q"] e by linarith
    then have "round_mag p \<le> 2 powi rat_log2 q" by (rule round_mag_le_pow [OF p _ ge])
    also have "\<dots> \<le> round_mag q"
      by (rule round_mag_ge_pow [OF rat_log2_bounds(1) [OF q] ge])
    finally show ?thesis .
  qed
qed

lemma f64_rep_0 [simp]: "f64_rep 0"
  by (simp add: f64_rep_def)

lemma f64_rep_nonneg: "f64_rep m \<Longrightarrow> 0 \<le> m"
  by (simp add: f64_rep_def)

lemma f64_rep_round_mag:
  assumes q: "0 \<le> q" and lt: "round_mag q < 2 ^ 1024"
  shows "f64_rep (round_mag q)"
proof (cases "q = 0")
  case True
  then show ?thesis by simp
next
  case False
  with q have pos: "0 < q" by simp
  let ?x = "f64_exp q"
  let ?k = "round_half_even (q / 2 powi ?x)"
  have m: "round_mag q = of_int ?k * 2 powi ?x" using pos by (simp add: round_mag_def)
  have x: "- 1074 \<le> ?x" by (simp add: f64_exp_def)
  have "0 \<le> \<lfloor>q / 2 powi ?x\<rfloor>" using pos by (simp add: zero_le_floor)
  then have k0: "0 \<le> ?k" using round_half_even_bounds(1) order_trans by blast
  have "q < 2 powi (rat_log2 q + 1)" by (rule rat_log2_bounds(2) [OF pos])
  also have "\<dots> \<le> 2 powi (53 + ?x)" unfolding powi_2_le_iff by (simp add: f64_exp_def)
  finally have "q / 2 powi ?x \<le> of_int (2 ^ 53)"
    by (simp add: powi_2_add power_int_def [of _ 53] field_simps)
  then have "?k \<le> 2 ^ 53" using round_half_even_mono round_half_even_of_int by metis
  with m k0 x lt show ?thesis by (intro f64_repI [of _ ?k ?x])
qed

lemma f64_rep_int:
  assumes "0 \<le> k" and "k \<le> 2 ^ 53"
  shows "f64_rep (of_int k)"
proof (rule f64_repI [of _ k 0])
  have "(of_int k :: rat) \<le> of_int (2 ^ 53)" using assms(2) by (simp only: of_int_le_iff)
  also have "\<dots> < 2 ^ 1024" by simp
  finally show "(of_int k :: rat) < 2 ^ 1024" .
qed (use assms in auto)

lemma f64_rep_numeral: "(numeral k :: int) \<le> 2 ^ 53 \<Longrightarrow> f64_rep (numeral k)"
  using f64_rep_int [of "numeral k"] by simp

lemma f64_rep_1 [simp]: "f64_rep 1"
  using f64_rep_int [of 1] by simp

lemma f64_rep_lt: "f64_rep m \<Longrightarrow> m < 2 ^ 1024"
  by (simp add: f64_rep_def)

lemma f64_round_rep [simp]: "f64_rep m \<Longrightarrow> f64_round neg m = FFin neg m"
  using f64_rep_lt [of m] by (simp add: f64_round_def Let_def not_le)

lemma f64_round_0 [simp]: "f64_round neg 0 = FFin neg 0"
  by (rule f64_round_rep) simp

lemma f64_round_wf: "0 \<le> q \<Longrightarrow> f64_wf (f64_round neg q)"
  by (simp add: f64_round_def Let_def f64_rep_round_mag)

lemma f64_of_int_small: "\<bar>k\<bar> \<le> 2 ^ 53 \<Longrightarrow> f64_of_int k = FFin (k < 0) (of_int \<bar>k\<bar>)"
  using f64_rep_int [of "\<bar>k\<bar>"] by (simp add: f64_of_int_def f64_of_rat_def)

lemma f64_of_rat_rep: "f64_rep \<bar>q\<bar> \<Longrightarrow> f64_of_rat q = FFin (q < 0) \<bar>q\<bar>"
  by (simp add: f64_of_rat_def)

text \<open>Scaling by a power of two is exact while the result stays in the grid.\<close>

lemma f64_rep_scale:
  assumes m: "f64_rep m" and lt: "m * 2 ^ n < 2 ^ 1024"
  shows "f64_rep (m * 2 ^ n)"
proof (cases "m = 0")
  case True
  then show ?thesis by simp
next
  case False
  with m have pos: "0 < m" by (simp add: f64_rep_def)
  let ?x = "f64_exp m"
  let ?k = "\<lfloor>m / 2 powi ?x\<rfloor>"
  have k: "m = of_int ?k * 2 powi ?x"
    using m False by (simp add: f64_rep_def field_simps)
  have x: "- 1074 \<le> ?x" by (simp add: f64_exp_def)
  have "m < 2 powi (rat_log2 m + 1)" by (rule rat_log2_bounds(2) [OF pos])
  also have "\<dots> \<le> 2 powi (53 + ?x)" unfolding powi_2_le_iff by (simp add: f64_exp_def)
  finally have "m / 2 powi ?x < of_int (2 ^ 53)"
    by (simp add: powi_2_add power_int_def [of _ 53] field_simps)
  then have "?k < 2 ^ 53" by (simp only: floor_less_iff)
  moreover have "0 \<le> ?k" using pos by (simp add: zero_le_floor)
  moreover have "m * 2 ^ n = of_int ?k * 2 powi (?x + int n)"
    by (subst k) (simp add: powi_2_add power_int_def [of _ "int n"])
  ultimately show ?thesis using x lt by (intro f64_repI [of _ ?k "?x + int n"]) auto
qed

lemma f64_rep_scaled_int:
  assumes "0 \<le> k" and "k \<le> 2 ^ 53" and "n \<le> 1074"
  shows "f64_rep (of_int k / 2 ^ n)"
proof (rule f64_repI [of _ k "- int n"])
  show "(of_int k / 2 ^ n :: rat) = of_int k * 2 powi - int n"
    by (simp add: power_int_minus divide_inverse)
  have "(of_int k :: rat) \<le> of_int (2 ^ 53)" using assms(2) by (simp only: of_int_le_iff)
  moreover have "of_int k / 2 ^ n \<le> (of_int k :: rat)"
    using assms(1) by (simp add: divide_le_eq mult_left_le_one_le mult_le_cancel_left1)
  moreover have "(of_int (2 ^ 53) :: rat) < 2 ^ 1024" by simp
  ultimately show "(of_int k / 2 ^ n :: rat) < 2 ^ 1024" by linarith
qed (use assms in auto)

subsection \<open>Order and clamping\<close>

lemma f64_lt_irrefl [simp]: "\<not> f64_lt x x"
  by (cases x) auto

lemma f64_finite_nan: "f64_finite x \<Longrightarrow> \<not> f64_nan x"
  by (cases x) auto

lemma f64_finite_iff: "f64_finite x \<longleftrightarrow> (\<exists>a m. x = FFin a m)"
  by (cases x) auto

lemma f64_lt_val: "f64_finite x \<Longrightarrow> f64_finite y \<Longrightarrow> f64_lt x y \<longleftrightarrow> f64_val x < f64_val y"
  by (cases x; cases y) auto

lemma f64_eq_val: "f64_finite x \<Longrightarrow> f64_finite y \<Longrightarrow> f64_eq x y \<longleftrightarrow> f64_val x = f64_val y"
  by (cases x; cases y) auto

lemma f64_le_val: "f64_finite x \<Longrightarrow> f64_finite y \<Longrightarrow> f64_le x y \<longleftrightarrow> f64_val x \<le> f64_val y"
  by (auto simp: f64_le_def f64_lt_val f64_eq_val)

lemma f64_le_refl [simp]: "\<not> f64_nan x \<Longrightarrow> f64_le x x"
  by (cases x) (auto simp: f64_le_def)

lemma f64_within_finite:
  "f64_finite lo \<Longrightarrow> f64_finite hi \<Longrightarrow> f64_within lo hi x \<Longrightarrow> f64_finite x"
  by (cases lo; cases hi; cases x) (auto simp: f64_within_def f64_le_def split: if_splits)

lemma f64_clamp_finite:
  "f64_finite lo \<Longrightarrow> f64_finite hi \<Longrightarrow> f64_finite x \<Longrightarrow> f64_finite (f64_clamp lo hi x)"
  by (simp add: f64_clamp_def Let_def)

lemma f64_clamp_within:
  assumes "f64_finite lo" and "f64_finite hi" and "f64_val lo \<le> f64_val hi" and "\<not> f64_nan x"
  shows "f64_within lo hi (f64_clamp lo hi x)"
  using assms
  by (cases lo; cases hi; cases x)
     (auto simp: f64_clamp_def Let_def f64_within_def f64_le_def split: if_splits)

lemma f64_clamp_val:
  assumes "f64_finite lo" and "f64_finite hi" and "f64_finite x" and "f64_val lo \<le> f64_val hi"
  shows "f64_val (f64_clamp lo hi x) = max (f64_val lo) (min (f64_val hi) (f64_val x))"
  using assms by (auto simp: f64_clamp_def Let_def f64_lt_val)

lemma f64_clamp_id: "f64_within lo hi x \<Longrightarrow> \<not> f64_nan x \<Longrightarrow> f64_clamp lo hi x = x"
  by (cases lo; cases hi; cases x)
     (auto simp: f64_clamp_def Let_def f64_within_def f64_le_def split: if_splits)

lemma f64_clamp_cases: "f64_clamp lo hi x = lo \<or> f64_clamp lo hi x = hi \<or> f64_clamp lo hi x = x"
  by (auto simp: f64_clamp_def Let_def)

lemma f64_clamp_wf: "f64_wf lo \<Longrightarrow> f64_wf hi \<Longrightarrow> f64_wf x \<Longrightarrow> f64_wf (f64_clamp lo hi x)"
  using f64_clamp_cases [of lo hi x] by auto

subsection \<open>Exact results\<close>

text \<open>
  \<open>f64_is x q\<close>: \<open>x\<close> is a double whose value is exactly \<open>q\<close>. An operation is exact when its
  result lies on the grid, which \<open>f64_rep_dyadic\<close> gives for a small multiple of a power of two.
\<close>

definition f64_is :: "f64 \<Rightarrow> rat \<Rightarrow> bool" where
  "f64_is x q \<longleftrightarrow> f64_finite x \<and> f64_wf x \<and> f64_val x = q"

lemma f64_isE:
  assumes "f64_is x q"
  obtains a m where "x = FFin a m" and "f64_rep m" and "0 \<le> m" and "q = (if a then - m else m)" and "\<bar>q\<bar> = m"
proof -
  obtain a m where x: "x = FFin a m" using assms by (auto simp: f64_is_def f64_finite_iff)
  then have "f64_rep m" and "q = (if a then - m else m)" using assms by (auto simp: f64_is_def)
  with f64_rep_nonneg [of m] that [OF x] show thesis by auto
qed

lemma f64_isI: "f64_rep m \<Longrightarrow> q = (if a then - m else m) \<Longrightarrow> f64_is (FFin a m) q"
  by (simp add: f64_is_def)

lemma f64_is_add:
  assumes "f64_is x p" and "f64_is y q" and "f64_rep \<bar>p + q\<bar>"
  shows "f64_is (f64_add x y) (p + q)"
proof -
  obtain a m where x: "x = FFin a m" and p: "p = f64_val (FFin a m)" using assms(1) by (auto elim: f64_isE)
  obtain b n where y: "y = FFin b n" and q: "q = f64_val (FFin b n)" using assms(2) by (auto elim: f64_isE)
  have "f64_add x y = (if p + q = 0 then FFin (a \<and> b) 0 else f64_of_rat (p + q))"
    unfolding x y p q f64_add.simps Let_def ..
  with assms(3) show ?thesis by (auto simp: f64_of_rat_rep f64_is_def)
qed

lemma f64_is_neg: "f64_is x p \<Longrightarrow> f64_is (f64_neg x) (- p)"
  by (cases x) (auto simp: f64_is_def)

lemma f64_is_sub: "f64_is x p \<Longrightarrow> f64_is y q \<Longrightarrow> f64_rep \<bar>p - q\<bar> \<Longrightarrow> f64_is (f64_sub x y) (p - q)"
  using f64_is_add [of x p "f64_neg y" "- q"] by (simp add: f64_sub_def f64_is_neg)

lemma f64_is_mul:
  assumes "f64_is x p" and "f64_is y q" and "f64_rep \<bar>p * q\<bar>"
  shows "f64_is (f64_mul x y) (p * q)"
proof -
  obtain a m where x: "x = FFin a m" "0 \<le> m" "p = (if a then - m else m)" "\<bar>p\<bar> = m" using assms(1) by (rule f64_isE)
  obtain b n where y: "y = FFin b n" "0 \<le> n" "q = (if b then - n else n)" "\<bar>q\<bar> = n" using assms(2) by (rule f64_isE)
  have "f64_rep (m * n)" using assms(3) x(4) y(4) by (simp add: abs_mult)
  then show ?thesis unfolding x(1) y(1) f64_mul.simps using x(3) y(3) by (auto intro: f64_isI)
qed

lemma f64_is_div:
  assumes "f64_is x p" and "f64_is y q" and "q \<noteq> 0" and "f64_rep \<bar>p / q\<bar>"
  shows "f64_is (f64_div x y) (p / q)"
proof -
  obtain a m where x: "x = FFin a m" "0 \<le> m" "p = (if a then - m else m)" "\<bar>p\<bar> = m" using assms(1) by (rule f64_isE)
  obtain b n where y: "y = FFin b n" "0 \<le> n" "q = (if b then - n else n)" "\<bar>q\<bar> = n" using assms(2) by (rule f64_isE)
  have "f64_rep (m / n)" using assms(4) x(4) y(4) by (simp add: abs_divide)
  moreover have "n \<noteq> 0" using assms(3) y(4) by auto
  ultimately show ?thesis unfolding x(1) y(1) f64_div.simps using x(3) y(3) by (auto intro: f64_isI)
qed

lemma f64_is_clamp:
  assumes "f64_is lo p" and "f64_is hi q" and "f64_is x r" and "p \<le> q"
  shows "f64_is (f64_clamp lo hi x) (max p (min q r))"
  using assms f64_clamp_val [of lo hi x] f64_clamp_wf [of lo hi x] f64_clamp_finite [of lo hi x]
  by (simp add: f64_is_def)

lemma f64_is_of_int: "\<bar>k\<bar> \<le> 2 ^ 53 \<Longrightarrow> f64_is (f64_of_int k) (of_int k)"
  using f64_rep_int [of "\<bar>k\<bar>"] by (auto simp: f64_of_int_small f64_is_def abs_if)

lemma f64_is_const: "\<bar>k\<bar> \<le> 2 ^ 53 \<Longrightarrow> f64_is (FFin (k < 0) (of_int \<bar>k\<bar>)) (of_int k)"
  using f64_is_of_int [of k] by (simp add: f64_of_int_small)

lemma f64_rep_dyadic: "\<bar>k\<bar> \<le> 2 ^ 53 \<Longrightarrow> n \<le> 1074 \<Longrightarrow> f64_rep \<bar>of_int k / 2 ^ n\<bar>"
  using f64_rep_scaled_int [of "\<bar>k\<bar>" n] by (simp add: abs_divide)

lemma f64_is_intE:
  assumes "f64_is x (of_int k)"
  obtains a where "x = FFin a (of_int (if a then - k else k))" and "f64_rep (of_int (if a then - k else k))"
    and "0 \<le> (if a then - k else k)"
proof -
  obtain a m where x: "x = FFin a m" "f64_rep m" "of_int k = (if a then - m else m)" "0 \<le> m"
    using assms by (rule f64_isE)
  then have m: "m = of_int (if a then - k else k)" by (cases a) auto
  have "(0::rat) \<le> of_int (if a then - k else k)" using x(4) unfolding m .
  then have "0 \<le> (if a then - k else k)" by (simp only: of_int_0_le_iff)
  with that [of a] x(1,2) m show thesis by simp
qed

lemma f64_to_int_is:
  assumes "f64_is x (of_int k)"
  shows "f64_to_int lo hi x = max lo (min hi k)"
proof -
  obtain a where "x = FFin a (of_int (if a then - k else k))"
    using assms by (rule f64_is_intE)
  then show ?thesis by (simp del: of_int_minus)
qed

lemma f64_round_is:
  assumes "f64_is x (of_int k)"
  shows "f64_is (f64_round_ties_even x) (of_int k)"
proof -
  obtain a where x: "x = FFin a (of_int (if a then - k else k))"
    using assms by (rule f64_is_intE)
  have "f64_round_ties_even x = x" unfolding x f64_round_ties_even.simps by (simp only: round_half_even_of_int)
  then show ?thesis using assms by simp
qed

subsection \<open>Arithmetic on moderate values\<close>

text \<open>\<open>f64_near x q\<close>: a double within a tiny distance of \<open>q\<close>; arithmetic below 512 loses no more.\<close>

definition f64_near :: "f64 \<Rightarrow> rat \<Rightarrow> bool" where
  "f64_near x q \<longleftrightarrow> f64_finite x \<and> f64_wf x \<and> \<bar>f64_val x - q\<bar> \<le> 1 / 2 ^ 44"

lemma powi_neg_nat: "e \<le> 0 \<Longrightarrow> (2 :: rat) powi e = 1 / 2 ^ nat (- e)"
  using power_int_minus [of "2::rat" "- e"] by (simp add: power_int_def [of _ "- e"] divide_inverse)

lemma f64_round_near:
  assumes "0 \<le> q" "q < 512"
  shows "f64_near (f64_round a q) (if a then - q else q)"
proof (cases "q = 0")
  case True
  then show ?thesis by (simp add: f64_near_def)
next
  case False
  then have q: "0 < q" using assms by simp
  have "(512 :: rat) = 2 powi 9" by (simp add: power_int_def)
  then have "2 powi rat_log2 q < (2 :: rat) powi 9" using rat_log2_bounds(1) [OF q] assms(2) by linarith
  then have "f64_exp q \<le> - 43" unfolding powi_2_less_iff by (simp add: f64_exp_def)
  then have "(2 :: rat) powi f64_exp q \<le> 2 powi (- 43)" unfolding powi_2_le_iff .
  also have "\<dots> = 1 / 2 ^ 43" by (simp add: powi_neg_nat)
  finally have u: "(2 :: rat) powi f64_exp q \<le> 1 / 2 ^ 43" .
  have "2 powi f64_exp q / 2 \<le> (1 :: rat) / 2 ^ 43 / 2" using u by (rule divide_right_mono) simp
  also have "\<dots> = 1 / 2 ^ 44" by simp
  finally have err: "\<bar>round_mag q - q\<bar> \<le> 1 / 2 ^ 44" by (rule order_trans [OF round_mag_err [OF q]])
  moreover have "(1 :: rat) / 2 ^ 44 \<le> 1" by simp
  ultimately have "round_mag q < 513" using assms(2) by linarith
  also have "(513 :: rat) < 2 ^ 1024" by simp
  finally have lt: "round_mag q < 2 ^ 1024" .
  then have "f64_round a q = FFin a (round_mag q)" by (simp add: f64_round_def Let_def)
  then show ?thesis
    using err f64_rep_round_mag [OF assms(1) lt] by (auto simp: f64_near_def abs_minus_commute)
qed

lemma f64_of_rat_near: "\<bar>q\<bar> < 512 \<Longrightarrow> f64_near (f64_of_rat q) q"
  using f64_round_near [of "\<bar>q\<bar>" "q < 0"] by (auto simp: f64_of_rat_def split: if_splits)

lemma f64_add_near:
  assumes "f64_finite x" "f64_finite y" "\<bar>f64_val x + f64_val y\<bar> < 512"
  shows "f64_near (f64_add x y) (f64_val x + f64_val y)"
proof -
  obtain a m b n where xy: "x = FFin a m" "y = FFin b n" using assms(1,2) by (auto simp: f64_finite_iff)
  show ?thesis
  proof (cases "f64_val x + f64_val y = 0")
    case True
    then show ?thesis by (simp add: xy f64_near_def)
  next
    case False
    then show ?thesis using f64_of_rat_near [OF assms(3)] by (simp add: xy Let_def)
  qed
qed

lemma f64_neg_simps [simp]: "f64_val (f64_neg x) = - f64_val x" "f64_finite (f64_neg x) = f64_finite x"
  by (cases x; simp)+

lemma f64_sub_near:
  "f64_finite x \<Longrightarrow> f64_finite y \<Longrightarrow> \<bar>f64_val x - f64_val y\<bar> < 512 \<Longrightarrow> f64_near (f64_sub x y) (f64_val x - f64_val y)"
  using f64_add_near [of x "f64_neg y"] by (simp add: f64_sub_def)

end
