(* ===== verification/Rust_Str.thy ===== *)
theory Rust_Str
  imports Prelude
begin

text \<open>
  The string operations of the Rust standard library that the code calls. A \<^verbatim>\<open>String\<close> is its
  UTF-8 bytes, a \<open>char list\<close>, which is what \<^verbatim>\<open>len\<close>, \<^verbatim>\<open>bytes\<close> and the derived order see.
  White space is Unicode's \<^verbatim>\<open>White_Space\<close>, given by the UTF-8 encodings of its
  characters, so \<open>trim\<close> and \<open>split_whitespace\<close> are exact on every valid string. The parsers
  of integers and doubles follow \<^verbatim>\<open>str::parse\<close>, sign, range and empty input included.
\<close>

subsection \<open>Prefixes, suffixes, characters\<close>

definition starts_with :: "string \<Rightarrow> string \<Rightarrow> bool" where
  "starts_with p s \<longleftrightarrow> take (length p) s = p"

definition ends_with :: "string \<Rightarrow> string \<Rightarrow> bool" where
  "ends_with p s \<longleftrightarrow> starts_with (rev p) (rev s)"

definition strip_prefix :: "string \<Rightarrow> string \<Rightarrow> string option" where
  "strip_prefix p s = (if starts_with p s then Some (drop (length p) s) else None)"

lemma starts_with_append [simp]: "starts_with p (p @ s)"
  by (simp add: starts_with_def)

lemma starts_with_iff: "starts_with p s \<longleftrightarrow> (\<exists>t. s = p @ t)"
  by (auto simp: starts_with_def) (metis append_take_drop_id)

lemma strip_prefix_Some_iff: "strip_prefix p s = Some t \<longleftrightarrow> s = p @ t"
  by (auto simp: strip_prefix_def starts_with_iff)

definition has_char :: "char \<Rightarrow> string \<Rightarrow> bool" where
  "has_char c s \<longleftrightarrow> c \<in> set s"

definition nul :: char where "nul = CHR 0x00"

definition ascii_lower :: "char \<Rightarrow> bool" where
  "ascii_lower c \<longleftrightarrow> CHR ''a'' \<le> c \<and> c \<le> CHR ''z''"

definition ascii_upper :: "char \<Rightarrow> bool" where
  "ascii_upper c \<longleftrightarrow> CHR ''A'' \<le> c \<and> c \<le> CHR ''Z''"

definition ascii_digit :: "char \<Rightarrow> bool" where
  "ascii_digit c \<longleftrightarrow> CHR ''0'' \<le> c \<and> c \<le> CHR ''9''"

definition ascii_hexdigit :: "char \<Rightarrow> bool" where
  "ascii_hexdigit c \<longleftrightarrow> ascii_digit c \<or> (CHR ''a'' \<le> c \<and> c \<le> CHR ''f'') \<or>
     (CHR ''A'' \<le> c \<and> c \<le> CHR ''F'')"

definition ascii_alphanumeric :: "char \<Rightarrow> bool" where
  "ascii_alphanumeric c \<longleftrightarrow> ascii_lower c \<or> ascii_upper c \<or> ascii_digit c"

definition byte_of :: "char \<Rightarrow> nat" where
  "byte_of c = of_char c"

subsection \<open>White space\<close>

definition white_space :: "string list" where
  "white_space =
     [[CHR 0x20], [CHR 0x09], [CHR 0x0A], [CHR 0x0B], [CHR 0x0C], [CHR 0x0D],
      [CHR 0xC2, CHR 0x85], [CHR 0xC2, CHR 0xA0], [CHR 0xE1, CHR 0x9A, CHR 0x80],
      [CHR 0xE2, CHR 0x80, CHR 0x80], [CHR 0xE2, CHR 0x80, CHR 0x81],
      [CHR 0xE2, CHR 0x80, CHR 0x82], [CHR 0xE2, CHR 0x80, CHR 0x83],
      [CHR 0xE2, CHR 0x80, CHR 0x84], [CHR 0xE2, CHR 0x80, CHR 0x85],
      [CHR 0xE2, CHR 0x80, CHR 0x86], [CHR 0xE2, CHR 0x80, CHR 0x87],
      [CHR 0xE2, CHR 0x80, CHR 0x88], [CHR 0xE2, CHR 0x80, CHR 0x89],
      [CHR 0xE2, CHR 0x80, CHR 0x8A], [CHR 0xE2, CHR 0x80, CHR 0xA8],
      [CHR 0xE2, CHR 0x80, CHR 0xA9], [CHR 0xE2, CHR 0x80, CHR 0xAF],
      [CHR 0xE2, CHR 0x81, CHR 0x9F], [CHR 0xE3, CHR 0x80, CHR 0x80]]"

text \<open>The white-space character that \<open>s\<close> starts with, from a list of encodings.\<close>

definition head_of :: "string list \<Rightarrow> string \<Rightarrow> string option" where
  "head_of ws s = find (\<lambda>w. w \<noteq> [] \<and> starts_with w s) ws"

lemma head_of_Some: "head_of ws s = Some w \<Longrightarrow> w \<in> set ws \<and> w \<noteq> [] \<and> (\<exists>t. s = w @ t)"
  by (auto simp: head_of_def find_Some_iff starts_with_iff)

function trim_with :: "string list \<Rightarrow> string \<Rightarrow> string" where
  "trim_with ws s = (case head_of ws s of None \<Rightarrow> s | Some w \<Rightarrow> trim_with ws (drop (length w) s))"
  by pat_completeness auto
termination
  by (relation "measure (\<lambda>(ws, s). length s)") (auto dest: head_of_Some)

declare trim_with.simps [simp del]

definition trim_start :: "string \<Rightarrow> string" where
  "trim_start s = trim_with white_space s"

definition trim_end :: "string \<Rightarrow> string" where
  "trim_end s = rev (trim_with (map rev white_space) (rev s))"

definition trim :: "string \<Rightarrow> string" where
  "trim s = trim_end (trim_start s)"

lemma trim_with_head: "head_of ws (trim_with ws s) = None"
proof (induction ws s rule: trim_with.induct)
  case (1 ws s)
  then show ?case
    by (cases "head_of ws s") (simp_all add: trim_with.simps [of ws s])
qed

lemma trim_with_stop [simp]: "head_of ws s = None \<Longrightarrow> trim_with ws s = s"
  by (simp add: trim_with.simps)

lemma trim_with_suffix: "\<exists>t. s = t @ trim_with ws s"
proof (induction ws s rule: trim_with.induct)
  case (1 ws s)
  show ?case
  proof (cases "head_of ws s")
    case None
    then show ?thesis by simp
  next
    case (Some w)
    then obtain r where s: "s = w @ r" by (auto dest: head_of_Some)
    obtain t where "r = t @ trim_with ws r" using 1 [OF Some] s by auto
    moreover have "trim_with ws s = trim_with ws r" using Some s by (subst trim_with.simps) simp
    ultimately show ?thesis using s by (metis append.assoc)
  qed
qed

text \<open>A string that starts with no white space still does not after its end is trimmed.\<close>

lemma head_of_prefix: "head_of ws (s @ t) = None \<Longrightarrow> head_of ws s = None"
  by (auto simp: head_of_def find_None_iff starts_with_iff)

lemma trim_end_prefix: "\<exists>t. s = trim_end s @ t"
proof -
  obtain t where "rev s = t @ trim_with (map rev white_space) (rev s)"
    using trim_with_suffix by blast
  then have "s = trim_end s @ rev t" unfolding trim_end_def by (metis rev_append rev_rev_ident)
  then show ?thesis by blast
qed

lemma trim_head: "head_of white_space (trim s) = None"
proof -
  obtain t where "trim_start s = trim s @ t" unfolding trim_def using trim_end_prefix by blast
  moreover have "head_of white_space (trim_start s) = None"
    by (simp add: trim_start_def trim_with_head)
  ultimately show ?thesis using head_of_prefix by metis
qed

lemma trim_idem [simp]: "trim (trim s) = trim s"
proof -
  have "trim_start (trim s) = trim s" by (simp add: trim_start_def trim_head)
  then show ?thesis by (simp add: trim_def trim_end_def trim_with_head)
qed

lemma trim_Nil [simp]: "trim [] = []"
  by (simp add: trim_def trim_end_def trim_start_def head_of_def white_space_def starts_with_def)

subsection \<open>Words and lines\<close>

function words_from :: "string \<Rightarrow> string \<Rightarrow> string list" where
  "words_from word s = (case head_of white_space s of
       Some w \<Rightarrow> (if word = [] then [] else [word]) @ words_from [] (drop (length w) s)
     | None \<Rightarrow> (case s of
           [] \<Rightarrow> (if word = [] then [] else [word])
         | c # cs \<Rightarrow> words_from (word @ [c]) cs))"
  by pat_completeness auto
termination
  by (relation "measure (\<lambda>(word, s). length s)") (auto dest: head_of_Some)

declare words_from.simps [simp del]

definition split_whitespace :: "string \<Rightarrow> string list" where
  "split_whitespace s = words_from [] s"

text \<open>\<^verbatim>\<open>split(c)\<close>, \<^verbatim>\<open>split_once(c)\<close>, \<^verbatim>\<open>rsplit_once(c)\<close> for a one-byte pattern.\<close>

fun split_char :: "char \<Rightarrow> string \<Rightarrow> string list" where
  "split_char c [] = [[]]"
| "split_char c (x # xs) =
     (if x = c then [] # split_char c xs
      else (case split_char c xs of [] \<Rightarrow> [[x]] | p # ps \<Rightarrow> (x # p) # ps))"

fun split_once :: "char \<Rightarrow> string \<Rightarrow> (string \<times> string) option" where
  "split_once c [] = None"
| "split_once c (x # xs) =
     (if x = c then Some ([], xs)
      else (case split_once c xs of None \<Rightarrow> None | Some (a, b) \<Rightarrow> Some (x # a, b)))"

definition rsplit_once :: "char \<Rightarrow> string \<Rightarrow> (string \<times> string) option" where
  "rsplit_once c s = (case split_once c (rev s) of
       None \<Rightarrow> None | Some (b, a) \<Rightarrow> Some (rev a, rev b))"

text \<open>\<^verbatim>\<open>split_once(p)\<close> for a string pattern.\<close>

fun split_once_str :: "string \<Rightarrow> string \<Rightarrow> (string \<times> string) option" where
  "split_once_str p s = (if starts_with p s then Some ([], drop (length p) s)
     else (case s of [] \<Rightarrow> None
       | x # xs \<Rightarrow> (case split_once_str p xs of None \<Rightarrow> None | Some (a, b) \<Rightarrow> Some (x # a, b))))"

declare split_once_str.simps [simp del]

lemma split_once_str_sound: "split_once_str p s = Some (a, b) \<Longrightarrow> s = a @ p @ b"
proof (induction p s arbitrary: a rule: split_once_str.induct)
  case (1 p s)
  show ?case
  proof (cases "starts_with p s")
    case True
    then show ?thesis using "1.prems" by (auto simp: split_once_str.simps [of p s] starts_with_iff)
  next
    case False
    then show ?thesis using "1.prems" "1.IH"
      by (auto simp: split_once_str.simps [of p s] split: list.splits option.splits)
  qed
qed

lemma split_once_sound: "split_once c s = Some (a, b) \<Longrightarrow> s = a @ c # b \<and> c \<notin> set a"
proof (induction s arbitrary: a)
  case Nil
  then show ?case by simp
next
  case (Cons x xs)
  then show ?case by (cases "x = c") (fastforce split: option.splits)+
qed

lemma split_once_append: "c \<notin> set a \<Longrightarrow> split_once c (a @ c # b) = Some (a, b)"
  by (induction a) auto

lemma split_once_Some_iff:
  "split_once c s = Some (a, b) \<longleftrightarrow> s = a @ c # b \<and> c \<notin> set a"
  using split_once_sound split_once_append by metis

lemma split_once_None_iff: "split_once c s = None \<longleftrightarrow> c \<notin> set s"
  by (induction c s rule: split_once.induct) (auto split: option.splits)

lemma rsplit_once_Some_iff:
  "rsplit_once c s = Some (a, b) \<longleftrightarrow> s = a @ c # b \<and> c \<notin> set b"
proof -
  have "rsplit_once c s = Some (a, b) \<longleftrightarrow> split_once c (rev s) = Some (rev b, rev a)"
    by (auto simp: rsplit_once_def split: option.splits)
  also have "\<dots> \<longleftrightarrow> s = a @ c # b \<and> c \<notin> set b"
    unfolding split_once_Some_iff by (metis append.assoc append_Cons append_Nil rev.simps(2) rev_append rev_rev_ident set_rev)
  finally show ?thesis .
qed

lemma rsplit_once_None_iff: "rsplit_once c s = None \<longleftrightarrow> c \<notin> set s"
  using split_once_None_iff [of c "rev s"] by (auto simp: rsplit_once_def split: option.splits)

text \<open>
  \<^verbatim>\<open>lines()\<close>: pieces ended by \<^verbatim>\<open>\n\<close> lose it and one \<^verbatim>\<open>\r\<close> before it; a last piece without
  \<^verbatim>\<open>\n\<close> is kept as it is, an empty one is no line.
\<close>

definition drop_cr :: "string \<Rightarrow> string" where
  "drop_cr s = (if s \<noteq> [] \<and> last s = CHR 0x0D then butlast s else s)"

fun lines_of :: "string list \<Rightarrow> string list" where
  "lines_of [] = []"
| "lines_of [p] = (if p = [] then [] else [p])"
| "lines_of (p # q # ps) = drop_cr p # lines_of (q # ps)"

definition str_lines :: "string \<Rightarrow> string list" where
  "str_lines s = lines_of (split_char (CHR 0x0A) s)"

subsection \<open>Numbers\<close>

definition digits_value :: "nat \<Rightarrow> (char \<Rightarrow> nat) \<Rightarrow> string \<Rightarrow> nat" where
  "digits_value radix val s = foldl (\<lambda>n c. radix * n + val c) 0 s"

definition dec_val :: "char \<Rightarrow> nat" where
  "dec_val c = byte_of c - 48"

definition hex_val :: "char \<Rightarrow> nat" where
  "hex_val c = (if ascii_digit c then byte_of c - 48
     else if ascii_lower c then byte_of c - 87 else byte_of c - 55)"

text \<open>\<^verbatim>\<open>str::parse\<close> for an unsigned type with values below \<open>bound\<close>.\<close>

definition parse_unsigned :: "nat \<Rightarrow> string \<Rightarrow> nat option" where
  "parse_unsigned bound s =
     (let d = (case s of [] \<Rightarrow> [] | c # cs \<Rightarrow> if c = CHR ''+'' then cs else s)
      in if d = [] \<or> \<not> list_all ascii_digit d then None
         else let n = digits_value 10 dec_val d in if n < bound then Some n else None)"

text \<open>\<^verbatim>\<open>str::parse\<close> for a signed type with values from \<open>lo\<close> to \<open>hi\<close>.\<close>

definition parse_signed :: "int \<Rightarrow> int \<Rightarrow> string \<Rightarrow> int option" where
  "parse_signed lo hi s =
     (let neg = (s \<noteq> [] \<and> hd s = CHR ''-'');
          d = (if s \<noteq> [] \<and> (hd s = CHR ''+'' \<or> hd s = CHR ''-'') then tl s else s)
      in if d = [] \<or> \<not> list_all ascii_digit d then None
         else let n = (if neg then - int (digits_value 10 dec_val d) else int (digits_value 10 dec_val d))
              in if lo \<le> n \<and> n \<le> hi then Some n else None)"

definition parse_u8 :: "string \<Rightarrow> u8 option" where
  "parse_u8 s = map_option of_nat (parse_unsigned (2 ^ 8) s)"

definition parse_u32 :: "string \<Rightarrow> u32 option" where
  "parse_u32 s = map_option of_nat (parse_unsigned (2 ^ 32) s)"

definition parse_u64 :: "string \<Rightarrow> u64 option" where
  "parse_u64 s = map_option of_nat (parse_unsigned (2 ^ 64) s)"

definition parse_i32 :: "string \<Rightarrow> int option" where
  "parse_i32 s = parse_signed (- (2 ^ 31)) (2 ^ 31 - 1) s"

text \<open>\<^verbatim>\<open>u16::from_str_radix(s, 16)\<close>, called on four hexadecimal digits only.\<close>

definition parse_hex_u16 :: "string \<Rightarrow> u16 option" where
  "parse_hex_u16 s = (if s = [] \<or> \<not> list_all ascii_hexdigit s then None
     else let n = digits_value 16 hex_val s in if n < 2 ^ 16 then Some (of_nat n) else None)"

text \<open>\<^verbatim>\<open>to_string()\<close> of an unsigned integer.\<close>

definition digit_char :: "nat \<Rightarrow> char" where
  "digit_char d = char_of (48 + d)"

function show_nat :: "nat \<Rightarrow> string" where
  "show_nat n = (if n < 10 then [digit_char n] else show_nat (n div 10) @ [digit_char (n mod 10)])"
  by pat_completeness auto
termination
  by (relation "measure id") auto

declare show_nat.simps [simp del]

lemma digit_char_digit: "d < 10 \<Longrightarrow> ascii_digit (digit_char d) \<and> dec_val (digit_char d) = d"
proof -
  assume "d < 10"
  then have "d = 0 \<or> d = 1 \<or> d = 2 \<or> d = 3 \<or> d = 4 \<or> d = 5 \<or> d = 6 \<or> d = 7 \<or> d = 8 \<or> d = 9"
    by arith
  then show ?thesis
    by (elim disjE) (simp_all add: ascii_digit_def digit_char_def dec_val_def byte_of_def char_of_def bit_0)
qed

lemma digits_value_snoc: "digits_value r v (s @ [c]) = r * digits_value r v s + v c"
  by (simp add: digits_value_def)

lemma show_nat_digits: "list_all ascii_digit (show_nat n) \<and> show_nat n \<noteq> []"
proof (induction n rule: show_nat.induct)
  case (1 n)
  then show ?case
    by (cases "n < 10") (simp_all add: show_nat.simps [of n] digit_char_digit)
qed

lemma digits_value_show_nat: "digits_value 10 dec_val (show_nat n) = n"
proof (induction n rule: show_nat.induct)
  case (1 n)
  show ?case
  proof (cases "n < 10")
    case True
    then show ?thesis by (simp add: show_nat.simps [of n] digits_value_def digit_char_digit)
  next
    case False
    with 1 show ?thesis
      by (simp add: show_nat.simps [of n] digits_value_snoc digit_char_digit)
  qed
qed

lemma show_nat_inj: "show_nat m = show_nat n \<Longrightarrow> m = n"
  using digits_value_show_nat by metis

text \<open>\<^verbatim>\<open>parse\<close> reads back what \<^verbatim>\<open>to_string\<close> printed, when it fits.\<close>

lemma parse_show_nat: "n < bound \<Longrightarrow> parse_unsigned bound (show_nat n) = Some n"
proof -
  assume n: "n < bound"
  obtain c cs where s: "show_nat n = c # cs" using show_nat_digits [of n] by (cases "show_nat n") auto
  then have "ascii_digit c" using show_nat_digits [of n] by simp
  then have "c \<noteq> CHR ''+''" by (auto simp: ascii_digit_def)
  then show ?thesis
    using n show_nat_digits [of n] digits_value_show_nat [of n]
    by (simp add: parse_unsigned_def s Let_def)
qed

end
