(* ===== verification/Profiles.thy ===== *)
theory Profiles
  imports F64 Rust_Str
begin

text \<open>
  \<^verbatim>\<open>crates/openwave-core/src/profiles.rs\<close>: the four supported units, their identifiers and
  register layouts, and the exact USB table that authorizes protocol access. \<open>layout_ok\<close>
  states what the decoder relies on: every field of a layout lies inside its block and no two
  fields of the config block overlap.
\<close>

datatype profile_id = WaveXlr | WaveXlrMk2 | Wave3 | XlrDockMk2

definition profile_as_str :: "profile_id \<Rightarrow> string" where
  "profile_as_str p = (case p of
       WaveXlr \<Rightarrow> ''wave_xlr''
     | WaveXlrMk2 \<Rightarrow> ''wave_xlr_mk2''
     | Wave3 \<Rightarrow> ''wave3''
     | XlrDockMk2 \<Rightarrow> ''xlr_dock_mk2'')"

definition profile_from_str :: "string \<Rightarrow> profile_id res" where
  "profile_from_str value =
     (if value = ''wave_xlr'' then Inr WaveXlr
      else if value = ''wave_xlr_mk2'' then Inr WaveXlrMk2
      else if value = ''wave3'' then Inr Wave3
      else if value = ''xlr_dock_mk2'' then Inr XlrDockMk2
      else Inl (error_invalid (''Unknown device profile: '' @ value)))"

record legacy_profile =
  wvalue_config :: u16
  wvalue_meter :: u16
  wvalue_devinfo :: u16
  windex :: u16
  config_len :: nat
  meter_len :: nat
  devinfo_len :: nat
  devinfo_api :: "nat \<times> nat"
  devinfo_fw :: "nat \<times> nat \<times> nat"
  devinfo_serial :: "nat \<times> nat"
  off_gain :: nat
  off_mute :: nat
  off_hp_vol :: nat
  off_vol_select :: nat
  off_low_z :: "nat option"
  off_phantom :: "nat option"
  off_monitor_mix :: "nat option"

record device_profile =
  dp_id :: profile_id
  display_name :: string
  dp_vid :: u16
  dp_pid :: u16
  dp_legacy :: "legacy_profile option"
  gain_max :: u16
  gain_scale :: u16
  hp_scale :: u16
  mix_max :: u16
  capture_serial_prefix :: string
  sync_alsa_mute :: bool
  sync_alsa_hp :: bool
  sync_alsa_gain :: bool

definition has_phantom :: "device_profile \<Rightarrow> bool" where
  "has_phantom p = (case dp_legacy p of Some legacy \<Rightarrow> off_phantom legacy \<noteq> None | None \<Rightarrow> True)"

definition has_low_z :: "device_profile \<Rightarrow> bool" where
  "has_low_z p = (case dp_legacy p of Some legacy \<Rightarrow> off_low_z legacy \<noteq> None | None \<Rightarrow> True)"

definition has_monitor_mix :: "device_profile \<Rightarrow> bool" where
  "has_monitor_mix p = (case dp_legacy p of Some legacy \<Rightarrow> off_monitor_mix legacy \<noteq> None | None \<Rightarrow> True)"

definition hp_min_db :: "device_profile \<Rightarrow> f64" where
  "hp_min_db p = (if dp_legacy p \<noteq> None then FFin True 128 else FFin True 60)"

definition XLR_LEGACY :: legacy_profile where
  "XLR_LEGACY = \<lparr>
     wvalue_config = 0, wvalue_meter = 1, wvalue_devinfo = 0x000a, windex = 0x3303,
     config_len = 34, meter_len = 10, devinfo_len = 51,
     devinfo_api = (0, 1), devinfo_fw = (6, 7, 8), devinfo_serial = (27, 47),
     off_gain = 0, off_mute = 4, off_hp_vol = 9, off_vol_select = 14,
     off_low_z = Some 33, off_phantom = Some 6, off_monitor_mix = None\<rparr>"

definition XLR :: device_profile where
  "XLR = \<lparr>
     dp_id = WaveXlr, display_name = ''Wave XLR'', dp_vid = 0x0fd9, dp_pid = 0x007d,
     dp_legacy = Some XLR_LEGACY,
     gain_max = 0x5000, gain_scale = 256, hp_scale = 256, mix_max = 0,
     capture_serial_prefix = ''Elgato_Systems_Elgato_Wave_XLR_'',
     sync_alsa_mute = True, sync_alsa_hp = True, sync_alsa_gain = False\<rparr>"

definition WAVE3_LEGACY :: legacy_profile where
  "WAVE3_LEGACY = XLR_LEGACY\<lparr>
     config_len := 16, meter_len := 8, devinfo_len := 64,
     devinfo_fw := (21, 22, 23), devinfo_serial := (36, 48),
     off_hp_vol := 7, off_vol_select := 12,
     off_low_z := None, off_phantom := None, off_monitor_mix := Some 10\<rparr>"

definition PROFILES :: "device_profile list" where
  "PROFILES =
     [XLR,
      XLR\<lparr>dp_id := WaveXlrMk2, display_name := ''Wave XLR MK.2 (0fd9:00a6)'', dp_pid := 0x00a6,
          capture_serial_prefix := ''Elgato_Systems_Elgato_XLR_Dock_''\<rparr>,
      XLR\<lparr>dp_id := Wave3, display_name := ''Wave:3'', dp_pid := 0x0070,
          dp_legacy := Some WAVE3_LEGACY, gain_max := 0x2800, mix_max := 0x6400,
          capture_serial_prefix := ''Elgato_Systems_Elgato_Wave_3_'', sync_alsa_gain := True\<rparr>,
      \<lparr>dp_id = XlrDockMk2, display_name = ''XLR Dock MK.2'', dp_vid = 0x0fd9, dp_pid = 0x00c7,
       dp_legacy = None, gain_max = 80, gain_scale = 1, hp_scale = 4, mix_max = 200,
       capture_serial_prefix = ''Elgato_Elgato_Wave_XLR_Dock_MK.2_'',
       sync_alsa_mute = False, sync_alsa_hp = False, sync_alsa_gain = False\<rparr>]"

definition profile :: "profile_id \<Rightarrow> device_profile" where
  "profile p = (case p of
       WaveXlr \<Rightarrow> PROFILES ! 0
     | WaveXlrMk2 \<Rightarrow> PROFILES ! 1
     | Wave3 \<Rightarrow> PROFILES ! 2
     | XlrDockMk2 \<Rightarrow> PROFILES ! 3)"

definition profile_for_usb :: "u16 \<Rightarrow> u16 \<Rightarrow> device_profile option" where
  "profile_for_usb vid pid = find (\<lambda>p. dp_vid p = vid \<and> dp_pid p = pid) PROFILES"

subsection \<open>The tables\<close>

lemma PROFILES_nth:
  "profile WaveXlr = XLR"
  "profile WaveXlrMk2 = XLR\<lparr>dp_id := WaveXlrMk2, display_name := ''Wave XLR MK.2 (0fd9:00a6)'',
     dp_pid := 0x00a6, capture_serial_prefix := ''Elgato_Systems_Elgato_XLR_Dock_''\<rparr>"
  "profile Wave3 = XLR\<lparr>dp_id := Wave3, display_name := ''Wave:3'', dp_pid := 0x0070,
     dp_legacy := Some WAVE3_LEGACY, gain_max := 0x2800, mix_max := 0x6400,
     capture_serial_prefix := ''Elgato_Systems_Elgato_Wave_3_'', sync_alsa_gain := True\<rparr>"
  "dp_legacy (profile XlrDockMk2) = None"
  by (simp_all add: profile_def PROFILES_def numeral_eq_Suc)

lemma dp_id_profile [simp]: "dp_id (profile p) = p"
  by (cases p) (simp_all add: profile_def PROFILES_def XLR_def numeral_eq_Suc)

lemma profile_legacy:
  "dp_legacy (profile WaveXlr) = Some XLR_LEGACY"
  "dp_legacy (profile WaveXlrMk2) = Some XLR_LEGACY"
  "dp_legacy (profile Wave3) = Some WAVE3_LEGACY"
  "dp_legacy (profile XlrDockMk2) = None"
  by (simp_all add: PROFILES_nth XLR_def)

lemma profile_scales:
  "hp_scale (profile WaveXlr) = 256" "hp_scale (profile WaveXlrMk2) = 256"
  "hp_scale (profile Wave3) = 256" "hp_scale (profile XlrDockMk2) = 4"
  "gain_scale (profile WaveXlr) = 256" "gain_scale (profile WaveXlrMk2) = 256"
  "gain_scale (profile Wave3) = 256" "gain_scale (profile XlrDockMk2) = 1"
  "gain_max (profile WaveXlr) = 0x5000" "gain_max (profile WaveXlrMk2) = 0x5000"
  "gain_max (profile Wave3) = 0x2800" "gain_max (profile XlrDockMk2) = 80"
  "mix_max (profile WaveXlr) = 0" "mix_max (profile WaveXlrMk2) = 0"
  "mix_max (profile Wave3) = 0x6400" "mix_max (profile XlrDockMk2) = 200"
  by (simp_all add: profile_def PROFILES_def XLR_def numeral_eq_Suc)

lemma profile_ids:
  "dp_vid (profile p) = 0x0fd9"
  "dp_pid (profile p) = (case p of WaveXlr \<Rightarrow> 0x007d | WaveXlrMk2 \<Rightarrow> 0x00a6 | Wave3 \<Rightarrow> 0x0070 | XlrDockMk2 \<Rightarrow> 0x00c7)"
  by (cases p; simp add: profile_def PROFILES_def XLR_def numeral_eq_Suc)+

lemma legacy_cases:
  "dp_legacy (profile p) = Some l \<Longrightarrow>
     (p = WaveXlr \<or> p = WaveXlrMk2) \<and> l = XLR_LEGACY \<or> p = Wave3 \<and> l = WAVE3_LEGACY"
  by (cases p) (auto simp: profile_legacy)

lemma profile_capabilities:
  "has_phantom (profile p) \<longleftrightarrow> p \<noteq> Wave3"
  "has_low_z (profile p) \<longleftrightarrow> p \<noteq> Wave3"
  "has_monitor_mix (profile p) \<longleftrightarrow> p = Wave3 \<or> p = XlrDockMk2"
  by (cases p; simp add: has_phantom_def has_low_z_def has_monitor_mix_def profile_legacy
      XLR_LEGACY_def WAVE3_LEGACY_def)+

lemma hp_min_db_profile:
  "hp_min_db (profile p) = (if p = XlrDockMk2 then FFin True 60 else FFin True 128)"
  by (cases p) (simp_all add: hp_min_db_def profile_legacy)

text \<open>Bytes \<open>[offset, offset + width)\<close> that each setting occupies in the config block.\<close>

definition config_fields :: "legacy_profile \<Rightarrow> (nat \<times> nat) list" where
  "config_fields l =
     [(off_gain l, 2), (off_mute l, 1), (off_hp_vol l, 2), (off_vol_select l, 1)]
     @ (case off_low_z l of None \<Rightarrow> [] | Some i \<Rightarrow> [(i, 1)])
     @ (case off_phantom l of None \<Rightarrow> [] | Some i \<Rightarrow> [(i, 1)])
     @ (case off_monitor_mix l of None \<Rightarrow> [] | Some i \<Rightarrow> [(i, 2)])"

fun disjoint_fields :: "(nat \<times> nat) list \<Rightarrow> bool" where
  "disjoint_fields [] = True"
| "disjoint_fields ((i, w) # fs) =
     (list_all (\<lambda>(j, v). i + w \<le> j \<or> j + v \<le> i) fs \<and> disjoint_fields fs)"

definition layout_ok :: "legacy_profile \<Rightarrow> bool" where
  "layout_ok l \<longleftrightarrow>
     list_all (\<lambda>(i, w). i + w \<le> config_len l) (config_fields l) \<and> disjoint_fields (config_fields l) \<and>
     config_len l \<le> 38 \<and> 8 \<le> meter_len l \<and>
     fst (devinfo_serial l) \<le> snd (devinfo_serial l) \<and> snd (devinfo_serial l) \<le> devinfo_len l \<and>
     fst (devinfo_api l) < devinfo_len l \<and> snd (devinfo_api l) < devinfo_len l \<and>
     fst (devinfo_fw l) < devinfo_len l \<and> fst (snd (devinfo_fw l)) < devinfo_len l \<and>
     snd (snd (devinfo_fw l)) < devinfo_len l"

lemma layout_ok_tables: "layout_ok XLR_LEGACY" "layout_ok WAVE3_LEGACY"
  by (simp_all add: layout_ok_def config_fields_def XLR_LEGACY_def WAVE3_LEGACY_def)

lemma layout_ok_profile: "dp_legacy (profile p) = Some l \<Longrightarrow> layout_ok l"
  using layout_ok_tables by (auto dest: legacy_cases)

end
