(* ===== verification/Protocol.thy ===== *)
theory Protocol
  imports Profiles
begin

unbundle bit_operations_syntax

text \<open>
  The register part of \<^verbatim>\<open>crates/openwave-core/src/protocol.rs\<close>: the owned copy of a unit's
  config blocks, decoding it to a device state, patching one setting into it, and the
  device-info and meter blocks; with the identities and settings of \<^verbatim>\<open>model.rs\<close> they speak
  of. \<open>apply\<close> returns the buffer beside the result, so that a refused setting is seen to leave
  every byte alone. The refinement is to \<open>put_setting\<close>, which updates one field of the
  decoded state; the frame lemma is about the bytes no setting owns.
\<close>

subsection \<open>Identities and settings\<close>

record unit_id =
  uid_profile :: profile_id
  uid_bus :: u8
  uid_address :: u8
  uid_incarnation :: u64

record node_identity =
  server_cookie :: u32
  object_serial :: string

datatype device_setting =
    GainRaw u16 | Mute bool | HeadphoneDb f64 | PhantomPower bool | LowImpedance bool | MonitorMix u16

datatype knob_mode = KnobGain | KnobHeadphones | KnobMonitorMix | KnobNone

definition knob_mode_display :: "knob_mode \<Rightarrow> string" where
  "knob_mode_display m = (case m of
       KnobGain \<Rightarrow> ''Gain'' | KnobHeadphones \<Rightarrow> ''Headphones''
     | KnobMonitorMix \<Rightarrow> ''Monitor mix'' | KnobNone \<Rightarrow> ''None'')"

record device_info =
  di_api :: string
  di_firmware :: string
  di_serial :: string

record device_state =
  gain_raw :: u16
  ds_muted :: bool
  hp_volume_db :: f64
  ds_phantom :: "bool option"
  ds_low_impedance :: "bool option"
  ds_monitor_mix :: "u16 option"
  ds_knob_mode :: knob_mode

record config_buffer =
  cb_profile :: profile_id
  cb_bytes :: "u8 list"
  cb_headphones :: "u8 list"
  cb_monitor :: "u8 list"

definition MAX_CONFIG_LEN :: nat where "MAX_CONFIG_LEN = 38"

subsection \<open>Little-endian fields\<close>

definition u16_le :: "u8 \<Rightarrow> u8 \<Rightarrow> u16" where
  "u16_le lo hi = ucast lo OR push_bit 8 (ucast hi)"

definition u16_to_le :: "u16 \<Rightarrow> u8 list" where
  "u16_to_le w = [ucast w, ucast (drop_bit 8 w)]"

definition u32_le :: "u8 \<Rightarrow> u8 \<Rightarrow> u8 \<Rightarrow> u8 \<Rightarrow> u32" where
  "u32_le a b c d = ucast a OR push_bit 8 (ucast b) OR push_bit 16 (ucast c) OR push_bit 24 (ucast d)"

definition read_u16 :: "u8 list \<Rightarrow> nat \<Rightarrow> u16" where
  "read_u16 data offset = u16_le (data ! offset) (data ! (offset + 1))"

definition read_i16 :: "u8 list \<Rightarrow> nat \<Rightarrow> i16" where
  "read_i16 data offset = u16_le (data ! offset) (data ! (offset + 1))"

text \<open>\<^verbatim>\<open>u8::from(bool)\<close> and \<^verbatim>\<open>f64::from\<close> of the unsigned and the signed reading.\<close>

definition u8_of_bool :: "bool \<Rightarrow> u8" where
  "u8_of_bool b = (if b then 1 else 0)"

definition f64_of_u16 :: "u16 \<Rightarrow> f64" where
  "f64_of_u16 w = f64_of_int (uint w)"

definition f64_of_i16 :: "i16 \<Rightarrow> f64" where
  "f64_of_i16 w = f64_of_int (sint w)"

subsection \<open>Decoding\<close>

definition exact_length :: "u8 list \<Rightarrow> nat \<Rightarrow> string \<Rightarrow> unit res" where
  "exact_length data expected block =
     (if length data = expected then Inr ()
      else Inl (error_invalid (''Invalid '' @ block @ '' block length: '' @ show_nat (length data)
        @ '' bytes, expected '' @ show_nat expected)))"

definition config_decode :: "profile_id \<Rightarrow> u8 list \<Rightarrow> config_buffer res" where
  "config_decode p data =
     (case dp_legacy (profile p) of
        None \<Rightarrow> Inl (error_new Unsupported ''Dock config requires all three blocks'')
      | Some legacy \<Rightarrow>
          rbind (exact_length data (config_len legacy) ''config'') (\<lambda>_.
            Inr \<lparr>cb_profile = p, cb_bytes = splice 0 data (replicate MAX_CONFIG_LEN 0),
                 cb_headphones = replicate 2 0, cb_monitor = replicate 6 0\<rparr>))"

definition config_decode_dock :: "u8 list \<Rightarrow> u8 list \<Rightarrow> u8 list \<Rightarrow> config_buffer res" where
  "config_decode_dock settings headphones monitor =
     rbind (exact_length settings 38 ''settings'') (\<lambda>_.
     rbind (exact_length headphones 2 ''headphones'') (\<lambda>_.
     rbind (exact_length monitor 6 ''monitor'') (\<lambda>_.
       Inr \<lparr>cb_profile = XlrDockMk2, cb_bytes = settings,
            cb_headphones = headphones, cb_monitor = monitor\<rparr>)))"

definition as_bytes :: "config_buffer \<Rightarrow> u8 list" where
  "as_bytes c = take (case dp_legacy (profile (cb_profile c)) of
       None \<Rightarrow> 38 | Some legacy \<Rightarrow> config_len legacy) (cb_bytes c)"

definition config_blocks :: "config_buffer \<Rightarrow> (u16 \<times> u8 list) list" where
  "config_blocks c = (case dp_legacy (profile (cb_profile c)) of
       Some legacy \<Rightarrow> [(wvalue_config legacy, as_bytes c)]
     | None \<Rightarrow> [(4, as_bytes c), (5, cb_headphones c), (1, cb_monitor c)])"

definition config_state :: "config_buffer \<Rightarrow> device_state" where
  "config_state c =
     (let p = profile (cb_profile c); bytes = cb_bytes c in
      case dp_legacy p of
        None \<Rightarrow>
          \<lparr>gain_raw = ucast (bytes ! 0), ds_muted = (bytes ! 1) AND 1 \<noteq> 0,
           hp_volume_db = f64_div (f64_neg (f64_of_int (uint (cb_headphones c ! 0)))) (FFin False 4),
           ds_phantom = Some ((bytes ! 1) AND 2 \<noteq> 0),
           ds_low_impedance = Some ((cb_headphones c ! 1) AND 2 \<noteq> 0),
           ds_monitor_mix = Some (ucast (cb_monitor c ! 0)),
           ds_knob_mode = KnobNone\<rparr>
      | Some l \<Rightarrow>
          \<lparr>gain_raw = read_u16 bytes (off_gain l), ds_muted = bytes ! off_mute l \<noteq> 0,
           hp_volume_db = f64_div (f64_of_i16 (read_i16 bytes (off_hp_vol l))) (f64_of_u16 (hp_scale p)),
           ds_phantom = map_option (\<lambda>off. bytes ! off \<noteq> 0) (off_phantom l),
           ds_low_impedance = map_option (\<lambda>off. bytes ! off \<noteq> 0) (off_low_z l),
           ds_monitor_mix = map_option (read_u16 bytes) (off_monitor_mix l),
           ds_knob_mode =
             (if bytes ! off_vol_select l = 2 then KnobHeadphones
              else if bytes ! off_vol_select l = 3 \<and> cb_profile c = Wave3 then KnobMonitorMix
              else KnobGain)\<rparr>)"

subsection \<open>Settings\<close>

definition unsupported_feature :: "device_profile \<Rightarrow> string \<Rightarrow> operation_error" where
  "unsupported_feature p feature =
     error_new Unsupported (display_name p @ '' does not support '' @ feature)"

definition validate_setting :: "profile_id \<Rightarrow> device_setting \<Rightarrow> device_setting res" where
  "validate_setting pid setting =
     (let p = profile pid in
      case setting of
        GainRaw v \<Rightarrow> Inr (GainRaw (min v (gain_max p)))
      | HeadphoneDb db \<Rightarrow>
          (if \<not> f64_finite db then Inl (error_invalid ''Headphone volume must be finite'')
          else Inr (HeadphoneDb (f64_clamp (hp_min_db p) (FFin False 0) db)))
      | PhantomPower v \<Rightarrow>
          (if \<not> has_phantom p then Inl (unsupported_feature p ''phantom power'') else Inr (PhantomPower v))
      | LowImpedance v \<Rightarrow>
          (if \<not> has_low_z p then Inl (unsupported_feature p ''low impedance mode'') else Inr (LowImpedance v))
      | MonitorMix v \<Rightarrow>
          (if \<not> has_monitor_mix p then Inl (unsupported_feature p ''monitor mix'')
          else Inr (MonitorMix (min v (mix_max p))))
      | Mute v \<Rightarrow> Inr (Mute v))"

definition put_u16 :: "u8 list \<Rightarrow> nat \<Rightarrow> u16 \<Rightarrow> u8 list" where
  "put_u16 bytes offset v = splice offset (u16_to_le v) bytes"

definition hp_raw :: "u16 \<Rightarrow> f64 \<Rightarrow> i16" where
  "hp_raw scale db = f64_to_i16 (f64_mul db (f64_of_u16 scale))"

definition dock_hp_raw :: "f64 \<Rightarrow> u8" where
  "dock_hp_raw db = f64_to_u8 (f64_round_ties_even (f64_mul (f64_neg db) (FFin False 4)))"

text \<open>\<^verbatim>\<open>(b & !1) | u8::from(v)\<close> and \<^verbatim>\<open>(b & !2) | (u8::from(v) << 1)\<close>\<close>

definition with_bit0 :: "u8 \<Rightarrow> bool \<Rightarrow> u8" where
  "with_bit0 b v = (b AND NOT 1) OR u8_of_bool v"

definition with_bit1 :: "u8 \<Rightarrow> bool \<Rightarrow> u8" where
  "with_bit1 b v = (b AND NOT 2) OR push_bit 1 (u8_of_bool v)"

definition apply_dock :: "config_buffer \<Rightarrow> device_setting \<Rightarrow> config_buffer" where
  "apply_dock c setting = (case setting of
       GainRaw v \<Rightarrow> c\<lparr>cb_bytes := (cb_bytes c)[0 := ucast v]\<rparr>
     | Mute v \<Rightarrow> c\<lparr>cb_bytes := (cb_bytes c)[1 := with_bit0 (cb_bytes c ! 1) v]\<rparr>
     | PhantomPower v \<Rightarrow>
         c\<lparr>cb_bytes := (cb_bytes c)[1 := with_bit1 (cb_bytes c ! 1) v]\<rparr>
     | HeadphoneDb db \<Rightarrow> c\<lparr>cb_headphones := (cb_headphones c)[0 := dock_hp_raw db]\<rparr>
     | LowImpedance v \<Rightarrow>
         c\<lparr>cb_headphones := (cb_headphones c)[1 := with_bit1 (cb_headphones c ! 1) v]\<rparr>
     | MonitorMix v \<Rightarrow> c\<lparr>cb_monitor := (cb_monitor c)[0 := ucast v]\<rparr>)"

text \<open>\<^verbatim>\<open>expect("validated capability")\<close> is \<open>the\<close>; \<open>validate_setting\<close> excludes \<open>None\<close>.\<close>

definition apply_legacy ::
  "device_profile \<Rightarrow> legacy_profile \<Rightarrow> config_buffer \<Rightarrow> device_setting \<Rightarrow> config_buffer" where
  "apply_legacy prof p c setting = c\<lparr>cb_bytes := (case setting of
       GainRaw v \<Rightarrow> put_u16 (cb_bytes c) (off_gain p) v
     | Mute v \<Rightarrow> (cb_bytes c)[off_mute p := u8_of_bool v]
     | HeadphoneDb db \<Rightarrow> put_u16 (cb_bytes c) (off_hp_vol p) (hp_raw (hp_scale prof) db)
     | PhantomPower v \<Rightarrow> (cb_bytes c)[the (off_phantom p) := u8_of_bool v]
     | LowImpedance v \<Rightarrow> (cb_bytes c)[the (off_low_z p) := u8_of_bool v]
     | MonitorMix v \<Rightarrow> put_u16 (cb_bytes c) (the (off_monitor_mix p)) v)\<rparr>"

definition config_apply :: "config_buffer \<Rightarrow> device_setting \<Rightarrow> config_buffer \<times> unit res" where
  "config_apply c setting =
     (case validate_setting (cb_profile c) setting of
        Inl e \<Rightarrow> (c, Inl e)
      | Inr s \<Rightarrow>
          (case dp_legacy (profile (cb_profile c)) of
             None \<Rightarrow> (apply_dock c s, Inr ())
           | Some p \<Rightarrow> (apply_legacy (profile (cb_profile c)) p c s, Inr ())))"

subsection \<open>Device info and meters\<close>

definition trim_nul_end :: "u8 list \<Rightarrow> u8 list" where
  "trim_nul_end bs = rev (dropWhile (\<lambda>b. b = 0) (rev bs))"

text \<open>A byte that is not ASCII becomes U+FFFD, whose UTF-8 form is \<^verbatim>\<open>EF BF BD\<close>.\<close>

definition ascii_or_replacement :: "u8 \<Rightarrow> string" where
  "ascii_or_replacement b =
     (if unat b < 128 then [char_of (unat b)] else [CHR 0xEF, CHR 0xBF, CHR 0xBD])"

definition decode_device_info :: "profile_id \<Rightarrow> u8 list \<Rightarrow> device_info res" where
  "decode_device_info pid data =
     (case dp_legacy (profile pid) of
        None \<Rightarrow> Inl (error_new Unsupported ''Dock has no known device-info block'')
      | Some p \<Rightarrow>
          rbind (exact_length data (devinfo_len p) ''device info'') (\<lambda>_.
            let serial_bytes = slice (fst (devinfo_serial p)) (snd (devinfo_serial p)) data;
                num = (\<lambda>i. show_nat (unat (data ! i)));
                (a0, a1) = devinfo_api p; (f0, f1, f2) = devinfo_fw p
            in Inr \<lparr>di_api = num a0 @ ''.'' @ num a1,
                    di_firmware = num f0 @ ''.'' @ num f1 @ ''.'' @ num f2,
                    di_serial = concat (map ascii_or_replacement (trim_nul_end serial_bytes))\<rparr>))"

record meter_levels =
  meter_left :: u32
  meter_right :: u32

definition decode_meters :: "profile_id \<Rightarrow> u8 list \<Rightarrow> meter_levels res" where
  "decode_meters pid data =
     (case dp_legacy (profile pid) of
        None \<Rightarrow> Inl (error_new Unsupported ''Dock has no known meter block'')
      | Some legacy \<Rightarrow>
          rbind (exact_length data (meter_len legacy) ''meter'') (\<lambda>_.
            Inr \<lparr>meter_left = u32_le (data ! 0) (data ! 1) (data ! 2) (data ! 3),
                 meter_right = u32_le (data ! 4) (data ! 5) (data ! 6) (data ! 7)\<rparr>))"

subsection \<open>Field lemmas\<close>

lemma u16_le_to_le [simp]: "u16_le (ucast w) (ucast (drop_bit 8 w)) = w"
  by (rule bit_word_eqI) (auto simp: u16_le_def bit_simps)

lemma length_u16_to_le [simp]: "length (u16_to_le w) = 2"
  by (simp add: u16_to_le_def)

lemma length_put_u16 [simp]:
  "offset + 2 \<le> length bytes \<Longrightarrow> length (put_u16 bytes offset v) = length bytes"
  by (simp add: put_u16_def)

lemma put_u16_nth:
  "offset + 2 \<le> length bytes \<Longrightarrow> i < length bytes \<Longrightarrow>
   put_u16 bytes offset v ! i =
     (if i = offset then ucast v else if i = offset + 1 then ucast (drop_bit 8 v) else bytes ! i)"
  by (auto simp: put_u16_def splice_nth u16_to_le_def less_Suc_eq_le le_Suc_eq numeral_2_eq_2)

lemma read_u16_put_u16 [simp]:
  "offset + 2 \<le> length bytes \<Longrightarrow> read_u16 (put_u16 bytes offset v) offset = v"
  by (simp add: read_u16_def put_u16_nth)

lemma read_i16_eq: "read_i16 = read_u16"
  by (intro ext) (simp add: read_i16_def read_u16_def)

lemma read_u16_put_u16_other:
  "offset + 2 \<le> length bytes \<Longrightarrow> j + 2 \<le> length bytes \<Longrightarrow> offset + 2 \<le> j \<or> j + 2 \<le> offset \<Longrightarrow>
   read_u16 (put_u16 bytes offset v) j = read_u16 bytes j"
  by (auto simp: read_u16_def put_u16_nth)

lemma read_u16_update:
  "j \<noteq> off \<Longrightarrow> j \<noteq> off + 1 \<Longrightarrow> read_u16 (bytes[j := v]) off = read_u16 bytes off"
  by (simp add: read_u16_def)

lemma u8_of_bool_eq_0 [simp]: "u8_of_bool b = 0 \<longleftrightarrow> \<not> b"
  by (simp add: u8_of_bool_def)

lemma and_1_ne_0: "(x::u8) AND 1 \<noteq> 0 \<longleftrightarrow> bit x 0"
  using and_exp_eq_0_iff_not_bit [of x 0] by simp

lemma and_2_ne_0: "(x::u8) AND 2 \<noteq> 0 \<longleftrightarrow> bit x 1"
  using and_exp_eq_0_iff_not_bit [of x 1] by simp

lemma bit_u8_of_bool: "bit (u8_of_bool b) n \<longleftrightarrow> b \<and> n = 0"
  by (simp add: u8_of_bool_def bit_1_iff)

lemma ucast_u16_u8: "(v::u16) \<le> 255 \<Longrightarrow> ucast (ucast v :: u8) = v"
proof -
  assume "v \<le> 255"
  then have "unat v < 2 ^ 8" by (simp add: word_le_nat_alt)
  then have "unat (ucast (ucast v :: u8) :: u16) = unat v"
    by (simp add: unsigned_ucast_eq unsigned_take_bit_eq take_bit_nat_eq_self)
  then show ?thesis by (rule word_unat_eq_iff [THEN iffD2])
qed

lemma push_bit_bool: "push_bit 1 (u8_of_bool v) = (if v then 2 else 0)"
  by (simp add: u8_of_bool_def)

lemma bit_2_u8: "bit (2::u8) n \<longleftrightarrow> n = 1"
  using bit_exp_iff [where 'a = "8 word", of 1 n] by (auto simp: bit_exp_iff)

lemma bit_with_bit0: "bit (with_bit0 x v) n = (if n = 0 then v else bit x n)"
  unfolding with_bit0_def
  by (auto simp: bit_simps bit_u8_of_bool dest: bit_imp_le_length)

lemma bit_with_bit1: "bit (with_bit1 x v) n = (if n = 1 then v else bit x n)"
  unfolding with_bit1_def push_bit_bool
  by (auto simp: bit_simps bit_2_u8 dest: bit_imp_le_length)

subsection \<open>Well-formed buffers and the abstract effect of a setting\<close>

definition config_wf :: "config_buffer \<Rightarrow> bool" where
  "config_wf c \<longleftrightarrow> length (cb_bytes c) = 38 \<and> length (cb_headphones c) = 2 \<and> length (cb_monitor c) = 6"

definition hp_readback :: "profile_id \<Rightarrow> f64 \<Rightarrow> f64" where
  "hp_readback pid db =
     (if pid = XlrDockMk2 then f64_div (f64_neg (f64_of_int (uint (dock_hp_raw db)))) (FFin False 4)
      else f64_div (f64_of_i16 (hp_raw (hp_scale (profile pid)) db)) (f64_of_u16 (hp_scale (profile pid))))"

fun put_setting :: "profile_id \<Rightarrow> device_setting \<Rightarrow> device_state \<Rightarrow> device_state" where
  "put_setting pid (GainRaw v) st = st\<lparr>gain_raw := v\<rparr>"
| "put_setting pid (Mute b) st = st\<lparr>ds_muted := b\<rparr>"
| "put_setting pid (HeadphoneDb db) st = st\<lparr>hp_volume_db := hp_readback pid db\<rparr>"
| "put_setting pid (PhantomPower b) st = st\<lparr>ds_phantom := Some b\<rparr>"
| "put_setting pid (LowImpedance b) st = st\<lparr>ds_low_impedance := Some b\<rparr>"
| "put_setting pid (MonitorMix v) st = st\<lparr>ds_monitor_mix := Some v\<rparr>"

lemma config_decode_wf [inv_intros]: "config_decode p data = Inr c \<Longrightarrow> config_wf c"
  by (auto simp: config_decode_def exact_length_def config_wf_def MAX_CONFIG_LEN_def res_simps
      XLR_LEGACY_def WAVE3_LEGACY_def dest!: legacy_cases split: option.splits if_splits)

lemma config_decode_dock_wf [inv_intros]: "config_decode_dock a b d = Inr c \<Longrightarrow> config_wf c"
  by (auto simp: config_decode_dock_def exact_length_def config_wf_def res_simps split: if_splits)

lemma validate_setting_bounds:
  "validate_setting pid s = Inr (GainRaw v) \<Longrightarrow> v \<le> gain_max (profile pid)"
  "validate_setting pid s = Inr (MonitorMix v) \<Longrightarrow> v \<le> mix_max (profile pid) \<and> has_monitor_mix (profile pid)"
  "validate_setting pid s = Inr (PhantomPower b) \<Longrightarrow> has_phantom (profile pid)"
  "validate_setting pid s = Inr (LowImpedance b) \<Longrightarrow> has_low_z (profile pid)"
  by (auto simp: validate_setting_def Let_def split: device_setting.splits if_splits)

lemma apply_dock_state:
  assumes "config_wf c" and "cb_profile c = XlrDockMk2" and "validate_setting XlrDockMk2 s0 = Inr s"
  shows "config_wf (apply_dock c s) \<and> cb_profile (apply_dock c s) = XlrDockMk2 \<and>
    config_state (apply_dock c s) = put_setting XlrDockMk2 s (config_state c)"
proof (cases s)
  case (GainRaw v)
  then have "v \<le> 80" using assms validate_setting_bounds(1) [of XlrDockMk2 s0 v] by (simp add: profile_scales)
  then have "ucast (ucast v :: u8) = v" by (intro ucast_u16_u8) (simp add: word_le_nat_alt)
  then show ?thesis using assms GainRaw
    by (simp add: apply_dock_def config_wf_def config_state_def Let_def profile_legacy)
next
  case (MonitorMix v)
  then have "v \<le> 200" using assms validate_setting_bounds(2) [of XlrDockMk2 s0 v] by (simp add: profile_scales)
  then have "ucast (ucast v :: u8) = v" by (intro ucast_u16_u8) (simp add: word_le_nat_alt)
  then show ?thesis using assms MonitorMix
    by (simp add: apply_dock_def config_wf_def config_state_def Let_def profile_legacy)
qed (use assms in \<open>simp_all add: apply_dock_def config_wf_def config_state_def Let_def profile_legacy
       and_1_ne_0 and_2_ne_0 bit_with_bit0 bit_with_bit1 hp_readback_def\<close>)

lemma apply_legacy_state:
  assumes wf: "config_wf c" and l: "dp_legacy (profile (cb_profile c)) = Some l"
    and v: "validate_setting (cb_profile c) s0 = Inr s"
  shows "config_wf (apply_legacy (profile (cb_profile c)) l c s) \<and>
    config_state (apply_legacy (profile (cb_profile c)) l c s) = put_setting (cb_profile c) s (config_state c)"
proof -
  note b = validate_setting_bounds [of "cb_profile c" s0]
  note defs = apply_legacy_def config_wf_def config_state_def Let_def hp_readback_def read_i16_eq
    read_u16_put_u16_other read_u16_update put_u16_nth profile_legacy profile_scales XLR_LEGACY_def WAVE3_LEGACY_def
  consider (xlr) "cb_profile c = WaveXlr \<or> cb_profile c = WaveXlrMk2" "l = XLR_LEGACY"
    | (wave3) "cb_profile c = Wave3" "l = WAVE3_LEGACY"
    using legacy_cases [OF l] by blast
  then show ?thesis
  proof cases
    case xlr
    then show ?thesis using wf b(2) [of _] v
      by (cases s) (auto simp: defs profile_capabilities)
  next
    case wave3
    then show ?thesis using wf b(3,4) [of _] v
      by (cases s) (auto simp: defs profile_capabilities)
  qed
qed

lemma config_apply_cases:
  "config_apply c s0 = (c', r) \<Longrightarrow>
     (\<exists>e. r = Inl e \<and> c' = c \<and> validate_setting (cb_profile c) s0 = Inl e) \<or>
     (\<exists>s. r = Inr () \<and> validate_setting (cb_profile c) s0 = Inr s \<and>
        (cb_profile c = XlrDockMk2 \<and> c' = apply_dock c s \<or>
         (\<exists>l. dp_legacy (profile (cb_profile c)) = Some l \<and>
            c' = apply_legacy (profile (cb_profile c)) l c s)))"
  by (cases "cb_profile c") (auto simp: config_apply_def profile_legacy split: sum.splits option.splits)

lemma config_apply_state:
  assumes "config_wf c" and "config_apply c s0 = (c', Inr ())"
  obtains s where "validate_setting (cb_profile c) s0 = Inr s" and "config_wf c'"
    and "cb_profile c' = cb_profile c"
    and "config_state c' = put_setting (cb_profile c) s (config_state c)"
proof -
  from config_apply_cases [OF assms(2)] obtain s where v: "validate_setting (cb_profile c) s0 = Inr s"
    and d: "cb_profile c = XlrDockMk2 \<and> c' = apply_dock c s \<or>
      (\<exists>l. dp_legacy (profile (cb_profile c)) = Some l \<and> c' = apply_legacy (profile (cb_profile c)) l c s)"
    by auto
  from d have "config_wf c' \<and> cb_profile c' = cb_profile c \<and>
      config_state c' = put_setting (cb_profile c) s (config_state c)"
  proof
    assume "cb_profile c = XlrDockMk2 \<and> c' = apply_dock c s"
    then show ?thesis using apply_dock_state [OF assms(1), of s0 s] v by simp
  next
    assume "\<exists>l. dp_legacy (profile (cb_profile c)) = Some l \<and> c' = apply_legacy (profile (cb_profile c)) l c s"
    then obtain l where l: "dp_legacy (profile (cb_profile c)) = Some l"
      and c': "c' = apply_legacy (profile (cb_profile c)) l c s" by blast
    show ?thesis using apply_legacy_state [OF assms(1) l v] c' by (simp add: apply_legacy_def)
  qed
  with v that show thesis by blast
qed

lemma config_apply_wf [inv_intros]:
  assumes "config_wf c"
  shows "config_wf (fst (config_apply c s))"
proof (cases "config_apply c s")
  case (Pair c' r)
  then show ?thesis
  proof (cases r)
    case Inl
    then show ?thesis using config_apply_cases [OF Pair] assms Pair by auto
  next
    case (Inr u)
    then show ?thesis using config_apply_state [OF assms, of s c'] Pair by auto
  qed
qed

subsection \<open>The bytes a setting owns\<close>

definition block_bytes :: "config_buffer \<Rightarrow> nat \<Rightarrow> u8 list" where
  "block_bytes c k = (if k = 0 then cb_bytes c else if k = 1 then cb_headphones c
     else if k = 2 then cb_monitor c else [])"

definition setting_bytes :: "profile_id \<Rightarrow> device_setting \<Rightarrow> (nat \<times> nat) list" where
  "setting_bytes pid s = (case dp_legacy (profile pid) of
       None \<Rightarrow> (case s of
           GainRaw _ \<Rightarrow> [(0, 0)] | Mute _ \<Rightarrow> [(0, 1)] | PhantomPower _ \<Rightarrow> [(0, 1)]
         | HeadphoneDb _ \<Rightarrow> [(1, 0)] | LowImpedance _ \<Rightarrow> [(1, 1)] | MonitorMix _ \<Rightarrow> [(2, 0)])
     | Some l \<Rightarrow> (case s of
           GainRaw _ \<Rightarrow> [(0, off_gain l), (0, off_gain l + 1)]
         | Mute _ \<Rightarrow> [(0, off_mute l)]
         | HeadphoneDb _ \<Rightarrow> [(0, off_hp_vol l), (0, off_hp_vol l + 1)]
         | PhantomPower _ \<Rightarrow> (case off_phantom l of None \<Rightarrow> [] | Some i \<Rightarrow> [(0, i)])
         | LowImpedance _ \<Rightarrow> (case off_low_z l of None \<Rightarrow> [] | Some i \<Rightarrow> [(0, i)])
         | MonitorMix _ \<Rightarrow> (case off_monitor_mix l of None \<Rightarrow> [] | Some i \<Rightarrow> [(0, i), (0, i + 1)])))"

lemma apply_dock_frame:
  "(k, i) \<notin> set (setting_bytes XlrDockMk2 s) \<Longrightarrow>
   block_bytes (apply_dock c s) k ! i = block_bytes c k ! i"
  by (cases s) (auto simp: setting_bytes_def profile_legacy apply_dock_def block_bytes_def nth_list_update split: if_splits)

lemma apply_legacy_frame:
  assumes wf: "config_wf c" and l: "dp_legacy (profile (cb_profile c)) = Some l"
    and v: "validate_setting (cb_profile c) s0 = Inr s"
    and i: "(k, i) \<notin> set (setting_bytes (cb_profile c) s)" "i < length (block_bytes c k)"
  shows "block_bytes (apply_legacy (profile (cb_profile c)) l c s) k ! i = block_bytes c k ! i"
proof -
  note b = validate_setting_bounds [of "cb_profile c" s0]
  consider (xlr) "cb_profile c = WaveXlr \<or> cb_profile c = WaveXlrMk2" "l = XLR_LEGACY"
    | (wave3) "cb_profile c = Wave3" "l = WAVE3_LEGACY"
    using legacy_cases [OF l] by blast
  then show ?thesis
  proof cases
    case xlr
    then show ?thesis using wf b(2) [of _] v i
      by (cases s) (auto simp: apply_legacy_def block_bytes_def setting_bytes_def config_wf_def
          put_u16_nth nth_list_update profile_legacy XLR_LEGACY_def profile_capabilities split: if_splits)
  next
    case wave3
    then show ?thesis using wf b(3,4) [of _] v i
      by (cases s) (auto simp: apply_legacy_def block_bytes_def setting_bytes_def config_wf_def
          put_u16_nth nth_list_update profile_legacy XLR_LEGACY_def WAVE3_LEGACY_def profile_capabilities
          split: if_splits)
  qed
qed

subsection \<open>Headphone volume steps\<close>

lemma clamped_volume:
  assumes "f64_finite db" and "f64_wf db" and "f64_rep bound" and "0 \<le> bound"
  obtains a m where "f64_clamp (FFin True bound) (FFin False 0) db = FFin a m"
    and "f64_rep m" and "m \<le> bound" and "a \<or> m = 0"
    and "- m = max (- bound) (min 0 (f64_val db))"
proof -
  let ?c = "f64_clamp (FFin True bound) (FFin False 0) db"
  have fin: "f64_finite ?c" using assms(1) by (simp add: f64_clamp_finite)
  then obtain a m where c: "?c = FFin a m" by (auto simp: f64_finite_iff)
  have wf: "f64_rep m" using f64_clamp_wf [of "FFin True bound" "FFin False 0" db] assms(2,3) c by simp
  have v: "f64_val ?c = max (- bound) (min 0 (f64_val db))"
    using f64_clamp_val [of "FFin True bound" "FFin False 0" db] assms by simp
  have m0: "0 \<le> m" using wf by (rule f64_rep_nonneg)
  have le0: "f64_val (FFin a m) \<le> 0" and ge: "- bound \<le> f64_val (FFin a m)" using v c assms(4) by auto
  then have "a \<or> m = 0" using m0 by (cases a) auto
  moreover from this have "f64_val (FFin a m) = - m" by auto
  ultimately show thesis using that [OF c wf] v c ge by auto
qed

lemma hp_raw_256:
  assumes "f64_rep m" and "m \<le> 128" and "a \<or> m = 0"
  shows "sint (hp_raw 256 (FFin a m)) = - \<lfloor>m * 256\<rfloor>"
proof -
  have m0: "0 \<le> m" using assms(1) by (rule f64_rep_nonneg)
  have "f64_of_u16 256 = FFin False 256"
    by (simp add: f64_of_u16_def f64_of_int_small)
  moreover have "f64_rep (m * 2 ^ 8)"
    using assms by (intro f64_rep_scale) (auto intro: order_le_less_trans [of _ "128 * 2 ^ 8"])
  ultimately have mul: "f64_mul (FFin a m) (f64_of_u16 256) = FFin a (m * 256)" by simp
  define k where "k = \<lfloor>m * 256\<rfloor>"
  have fl: "0 \<le> k" using m0 by (simp add: k_def)
  have "m * 256 \<le> of_int 32768" using assms(2) by simp
  then have fu: "k \<le> 32768" unfolding k_def by (metis floor_mono floor_of_int)
  have "f64_to_int (- 32768) 32767 (FFin a (m * 256)) = - k"
  proof (cases a)
    case True
    then show ?thesis using fl fu by (simp add: k_def [symmetric])
  next
    case False
    then show ?thesis using assms(3) by (simp add: k_def)
  qed
  then have "hp_raw 256 (FFin a m) = word_of_int (- k)"
    unfolding hp_raw_def mul f64_to_i16_def by simp
  then have "sint (hp_raw 256 (FFin a m)) = signed_take_bit 15 (- k)"
    by (simp only: signed_of_int) simp
  then have "sint (hp_raw 256 (FFin a m)) = - k"
    using fl fu by (simp add: signed_take_bit_int_eq_self)
  then show ?thesis by (simp add: k_def)
qed

lemma f64_of_i16_div_256:
  "- 32768 \<le> sint w \<Longrightarrow> f64_val (f64_div (f64_of_i16 w) (FFin False 256)) = of_int (sint w) / 256"
proof -
  assume "- 32768 \<le> sint w"
  have hi: "\<bar>sint w\<bar> \<le> 32768"
    using sint_ge [of w] sint_lt [of w] by simp
  then have "f64_rep (of_int \<bar>sint w\<bar> / 256)"
    using f64_rep_scaled_int [of "\<bar>sint w\<bar>" 8] by simp
  then have r: "f64_round b (of_int \<bar>sint w\<bar> / 256) = FFin b (of_int \<bar>sint w\<bar> / 256)" for b by simp
  show ?thesis using hi by (simp add: f64_of_i16_def f64_of_int_small r del: of_int_abs)
qed

lemma hp_readback_legacy:
  assumes "pid \<noteq> XlrDockMk2" and "f64_rep m" and "m \<le> 128" and "a \<or> m = 0"
  shows "f64_val (hp_readback pid (FFin a m)) = - (of_int \<lfloor>m * 256\<rfloor> / 256)"
proof -
  have s: "hp_scale (profile pid) = 256" using assms(1) by (cases pid) (simp_all add: profile_scales)
  have "f64_of_u16 256 = FFin False 256" by (simp add: f64_of_u16_def f64_of_int_small)
  moreover have "- 32768 \<le> sint (hp_raw 256 (FFin a m))"
    using sint_ge [of "hp_raw 256 (FFin a m)"] by simp
  ultimately show ?thesis
    using assms by (simp add: hp_readback_def s f64_of_i16_div_256 hp_raw_256)
qed

lemma hp_readback_dock:
  assumes "f64_rep m" and "m \<le> 60" and "a \<or> m = 0"
  shows "f64_val (hp_readback XlrDockMk2 (FFin a m)) = - (of_int (round_half_even (m * 4)) / 4)"
proof -
  have m0: "0 \<le> m" using assms(1) by (rule f64_rep_nonneg)
  have "f64_rep (m * 2 ^ 2)"
    using assms by (intro f64_rep_scale) (auto intro: order_le_less_trans [of _ "60 * 2 ^ 2"])
  then have mul: "f64_mul (f64_neg (FFin a m)) (FFin False 4) = FFin (\<not> a) (m * 4)" by simp
  let ?k = "round_half_even (m * 4)"
  have k0: "0 \<le> ?k" using m0 round_half_even_mono [of 0 "m * 4"] round_half_even_of_int [of 0] by simp
  have k1: "?k \<le> 240" using assms(2) round_half_even_mono [of "m * 4" "of_int 240"] round_half_even_of_int [of 240] by simp
  have "a \<or> ?k = 0" using assms(3) round_half_even_of_int [of 0] by auto
  then have "f64_to_int 0 255 (FFin (\<not> a) (of_int ?k)) = ?k" using k0 k1 by auto
  then have "dock_hp_raw (FFin a m) = word_of_int ?k"
    unfolding dock_hp_raw_def mul f64_to_u8_def by simp
  then have raw: "uint (dock_hp_raw (FFin a m)) = ?k"
    using k0 k1 by (simp add: unsigned_of_int take_bit_int_eq_self)
  have "f64_rep (of_int ?k / 4)" using f64_rep_scaled_int [of ?k 2] k0 k1 by simp
  then have r: "f64_round b (of_int ?k / 4) = FFin b (of_int ?k / 4)" for b by simp
  show ?thesis using k0 k1 by (simp add: hp_readback_def raw f64_of_int_small r)
qed

text \<open>What the register holds is the clamped request, at most one step of the scale away.\<close>

lemma hp_readback_err:
  assumes "f64_finite db" and "f64_wf db"
    and "validate_setting pid (HeadphoneDb db) = Inr (HeadphoneDb db')"
  defines "target \<equiv> max (f64_val (hp_min_db (profile pid))) (min 0 (f64_val db))"
  shows "f64_val (hp_min_db (profile pid)) \<le> f64_val (hp_readback pid db')"
    and "f64_val (hp_readback pid db') \<le> 0"
    and "\<bar>f64_val (hp_readback pid db') - target\<bar> \<le> (if pid = XlrDockMk2 then 1 / 8 else 1 / 256)"
proof -
  let ?lim = "if pid = XlrDockMk2 then 60 else 128 :: rat"
  have bnd: "f64_rep ?lim" using f64_rep_int [of 60] f64_rep_int [of 128] by auto
  have db': "db' = f64_clamp (FFin True ?lim) (FFin False 0) db"
    using assms(1,3) by (auto simp: validate_setting_def Let_def hp_min_db_profile split: if_splits)
  have "0 \<le> ?lim" by simp
  then obtain a m where "f64_clamp (FFin True ?lim) (FFin False 0) db = FFin a m" and r: "f64_rep m"
    and le: "m \<le> ?lim" and s: "a \<or> m = 0" and t: "- m = max (- ?lim) (min 0 (f64_val db))"
    by (rule clamped_volume [OF assms(1,2) bnd])
  then have c: "db' = FFin a m" using db' by simp
  have min: "f64_val (hp_min_db (profile pid)) = - ?lim" by (simp add: hp_min_db_profile)
  have target: "target = - m" using t by (simp add: target_def min)
  have m0: "0 \<le> m" using r by (rule f64_rep_nonneg)
  have all: "- ?lim \<le> f64_val (hp_readback pid db') \<and> f64_val (hp_readback pid db') \<le> 0 \<and>
      \<bar>f64_val (hp_readback pid db') - - m\<bar> \<le> (if pid = XlrDockMk2 then 1 / 8 else 1 / 256)"
  proof (cases "pid = XlrDockMk2")
    case True
    have "round_half_even (m * 4) \<le> 240" "0 \<le> round_half_even (m * 4)"
      using le True m0 round_half_even_mono [of "m * 4" "of_int 240"] round_half_even_of_int [of 240]
        round_half_even_mono [of 0 "m * 4"] round_half_even_of_int [of 0] by simp_all
    then have "(of_int (round_half_even (m * 4)) :: rat) \<le> of_int 240" "(of_int 0 :: rat) \<le> of_int (round_half_even (m * 4))"
      by (simp_all only: of_int_le_iff)
    then show ?thesis using round_half_even_err [of "m * 4"] True c r le s
      by (simp add: hp_readback_dock abs_if split: if_splits)
  next
    case False
    have "(0::rat) \<le> of_int \<lfloor>m * 256\<rfloor>" using m0 by simp
    moreover have fl: "of_int \<lfloor>m * 256\<rfloor> \<le> m * 256" "m * 256 < of_int \<lfloor>m * 256\<rfloor> + 1"
      using floor_correct [of "m * 256"] by simp_all
    moreover have "\<bar>m * 256 - of_int \<lfloor>m * 256\<rfloor>\<bar> \<le> 1" using fl by linarith
    ultimately show ?thesis using False c r le s
      by (simp add: hp_readback_legacy abs_if split: if_splits; linarith)
  qed
  show "f64_val (hp_min_db (profile pid)) \<le> f64_val (hp_readback pid db')"
    and "f64_val (hp_readback pid db') \<le> 0"
    and "\<bar>f64_val (hp_readback pid db') - target\<bar> \<le> (if pid = XlrDockMk2 then 1 / 8 else 1 / 256)"
    using all unfolding min target by auto
qed

subsection \<open>Properties\<close>

text \<open>
  C30. Writing one setting into the config of any profile refines the update of one field of the
  decoded state: after a successful \<^verbatim>\<open>ConfigBuffer::apply\<close>, \<^verbatim>\<open>state()\<close> is the old state with
  exactly the validated setting changed, and the buffer is still well formed.
\<close>

theorem config_apply_refines:
  assumes "config_wf c" and "config_apply c s0 = (c', Inr ())"
  shows "\<exists>s. validate_setting (cb_profile c) s0 = Inr s \<and> config_wf c' \<and>
    cb_profile c' = cb_profile c \<and> config_state c' = put_setting (cb_profile c) s (config_state c)"
  using config_apply_state [OF assms] by metis

definition sample_config :: config_buffer where
  "sample_config = \<lparr>cb_profile = Wave3, cb_bytes = replicate 38 7, cb_headphones = replicate 2 0,
     cb_monitor = replicate 6 0\<rparr>"

lemma sample_config_wf: "config_wf sample_config"
  by (simp add: sample_config_def config_wf_def)

lemma sample_config_gain:
  "config_apply sample_config (GainRaw 0xffff) =
     (apply_legacy (profile Wave3) WAVE3_LEGACY sample_config (GainRaw 0x2800), Inr ())"
  by (simp add: config_apply_def validate_setting_def Let_def sample_config_def profile_legacy profile_scales)

theorem config_apply_refines_witness:
  "\<exists>s. validate_setting Wave3 (GainRaw 0xffff) = Inr s \<and>
     gain_raw (config_state (fst (config_apply sample_config (GainRaw 0xffff)))) = 0x2800"
proof -
  have p: "cb_profile sample_config = Wave3" by (simp add: sample_config_def)
  obtain s where "validate_setting Wave3 (GainRaw 0xffff) = Inr s"
    and "config_state (fst (config_apply sample_config (GainRaw 0xffff))) = put_setting Wave3 s (config_state sample_config)"
    using config_apply_refines [OF sample_config_wf sample_config_gain]
    unfolding sample_config_gain p by auto
  then show ?thesis by (auto simp: validate_setting_def Let_def profile_scales)
qed

text \<open>
  No setting write touches a byte it does not own, and a refused setting changes nothing: every
  byte of every block outside \<open>setting_bytes\<close> keeps its value, so the reserved bytes of the
  firmware survive each read, patch, write transaction.
\<close>

theorem config_apply_reserved:
  assumes "config_wf c" and "config_apply c s = (c', r)"
    and "is_ok r \<longrightarrow> (k, i) \<notin> set (setting_bytes (cb_profile c) s)" and "i < length (block_bytes c k)"
  shows "block_bytes c' k ! i = block_bytes c k ! i \<and> length (block_bytes c' k) = length (block_bytes c k)"
proof (cases r)
  case (Inl e)
  then show ?thesis using config_apply_cases [OF assms(2)] by auto
next
  case (Inr u)
  then have ap: "config_apply c s = (c', Inr ())" using assms(2) by simp
  then obtain s' where v: "validate_setting (cb_profile c) s = Inr s'" and wf': "config_wf c'"
    using config_apply_state [OF assms(1)] by metis
  have owned: "setting_bytes (cb_profile c) s' = setting_bytes (cb_profile c) s"
    using v by (auto simp: validate_setting_def Let_def setting_bytes_def
        split: device_setting.splits if_splits option.splits)
  then have i: "(k, i) \<notin> set (setting_bytes (cb_profile c) s')" using assms(3) Inr by simp
  have "length (block_bytes c' k) = length (block_bytes c k)"
    using assms(1) wf' by (simp add: config_wf_def block_bytes_def)
  moreover have "block_bytes c' k ! i = block_bytes c k ! i"
    using config_apply_cases [OF ap] v i assms(4) apply_dock_frame [of k i s' c]
      apply_legacy_frame [OF assms(1) _ v i assms(4)] by auto
  ultimately show ?thesis by simp
qed

theorem config_apply_reserved_witness:
  "block_bytes (fst (config_apply sample_config (GainRaw 0xffff))) 0 ! 15 = 7"
proof -
  have "(0, 15) \<notin> set (setting_bytes (cb_profile sample_config) (GainRaw 0xffff))"
    by (simp add: sample_config_def setting_bytes_def profile_legacy WAVE3_LEGACY_def XLR_LEGACY_def)
  then show ?thesis
    using config_apply_reserved [OF sample_config_wf sample_config_gain, of 0 15]
    by (simp add: sample_config_gain) (simp add: sample_config_def block_bytes_def)
qed

text \<open>
  A headphone volume request ends up, read back from the register, within one step of the
  request clamped to the profile's range: \<open>1/256\<close> dB (truncated towards zero) on the legacy
  profiles and \<open>1/8\<close> dB (rounded) on the dock, never outside the range and never louder than
  \<open>0\<close> dB. No 16-bit or 8-bit conversion saturates.
\<close>

theorem headphone_write_error:
  assumes "config_wf c" and "f64_wf db" and "config_apply c (HeadphoneDb db) = (c', Inr ())"
  defines "low \<equiv> f64_val (hp_min_db (profile (cb_profile c)))"
    and "got \<equiv> f64_val (hp_volume_db (config_state c'))"
  shows "low \<le> got \<and> got \<le> 0 \<and>
    \<bar>got - max low (min 0 (f64_val db))\<bar> \<le> (if cb_profile c = XlrDockMk2 then 1 / 8 else 1 / 256)"
proof -
  obtain s where v: "validate_setting (cb_profile c) (HeadphoneDb db) = Inr s"
    and st: "config_state c' = put_setting (cb_profile c) s (config_state c)"
    using config_apply_state [OF assms(1,3)] by metis
  have fin: "f64_finite db" using v by (simp add: validate_setting_def Let_def split: if_splits)
  with v obtain db' where s: "s = HeadphoneDb db'"
    by (auto simp: validate_setting_def Let_def)
  show ?thesis
    unfolding low_def got_def st s
    using hp_readback_err [OF fin assms(2) v [unfolded s]] by simp
qed

theorem headphone_write_error_witness:
  "f64_wf (FFin True 20) \<and>
   (\<exists>c'. config_apply sample_config (HeadphoneDb (FFin True 20)) = (c', Inr ()) \<and>
      \<bar>f64_val (hp_volume_db (config_state c')) + 20\<bar> \<le> 1 / 256)"
proof -
  have wf: "f64_wf (FFin True 20)" using f64_rep_int [of 20] by simp
  obtain c' where c': "config_apply sample_config (HeadphoneDb (FFin True 20)) = (c', Inr ())"
    by (simp add: config_apply_def validate_setting_def Let_def sample_config_def profile_legacy)
  have "cb_profile sample_config = Wave3" by (simp add: sample_config_def)
  then have "\<bar>f64_val (hp_volume_db (config_state c')) + 20\<bar> \<le> 1 / 256"
    using headphone_write_error [OF sample_config_wf wf c'] by (simp add: hp_min_db_profile)
  with wf c' show ?thesis by blast
qed

text \<open>
  Decoding accepts exactly the blocks of the profile's length and keeps every byte: the
  blocks written back by \<^verbatim>\<open>blocks()\<close> are the blocks that were read, for the legacy profiles and for
  the three blocks of the dock; the dock has no single-block form.
\<close>

theorem config_decode_roundtrip:
  "(case config_decode p data of
      Inl e \<Rightarrow> (case dp_legacy (profile p) of
          None \<Rightarrow> err_code e = Unsupported
        | Some l \<Rightarrow> err_code e = Invalid \<and> length data \<noteq> config_len l)
    | Inr c \<Rightarrow> config_wf c \<and> cb_profile c = p \<and> map snd (config_blocks c) = [data]) \<and>
   (case config_decode_dock st hp mon of
      Inl e \<Rightarrow> err_code e = Invalid \<and> (length st, length hp, length mon) \<noteq> (38, 2, 6)
    | Inr c \<Rightarrow> config_wf c \<and> config_blocks c = [(4, st), (5, hp), (1, mon)])"
  by (cases p)
    (auto simp: config_decode_def exact_length_def config_blocks_def as_bytes_def splice_def
      config_wf_def config_decode_dock_def profile_legacy res_simps error_new_def error_invalid_def
      WAVE3_LEGACY_def XLR_LEGACY_def MAX_CONFIG_LEN_def)

end
