(* ===== verification/Index_Map.thy ===== *)
theory Index_Map
  imports Prelude "HOL-Library.Multiset"
begin

text \<open>
  Insertion-ordered maps: \<^verbatim>\<open>IndexMap\<close> and, with the \<^verbatim>\<open>preserve_order\<close> feature the
  workspace enables, \<^verbatim>\<open>serde_json::Map\<close>. A map is the list of its entries in iteration
  order, with distinct keys (\<open>im_wf\<close>). Inserting an existing key keeps its place;
  \<open>im_shift_remove\<close> keeps the order of the rest; \<open>im_swap_remove\<close>, which is what
  \<^verbatim>\<open>serde_json::Map::remove\<close> does under that feature, moves the last entry into the gap.
  The locale \<open>entry_map\<close> is the contract the decoders rely on; both removals satisfy it.
\<close>

type_synonym ('k, 'v) imap = "('k \<times> 'v) list"

definition im_wf :: "('k, 'v) imap \<Rightarrow> bool" where
  "im_wf m \<longleftrightarrow> distinct (map fst m)"

definition im_keys :: "('k, 'v) imap \<Rightarrow> 'k list" where
  "im_keys m = map fst m"

definition im_values :: "('k, 'v) imap \<Rightarrow> 'v list" where
  "im_values m = map snd m"

abbreviation im_get :: "('k, 'v) imap \<Rightarrow> 'k \<Rightarrow> 'v option" where
  "im_get \<equiv> map_of"

definition im_contains :: "('k, 'v) imap \<Rightarrow> 'k \<Rightarrow> bool" where
  "im_contains m k \<longleftrightarrow> im_get m k \<noteq> None"

fun im_insert :: "('k, 'v) imap \<Rightarrow> 'k \<Rightarrow> 'v \<Rightarrow> ('k, 'v) imap" where
  "im_insert [] k v = [(k, v)]"
| "im_insert ((k', v') # m) k v = (if k' = k then (k, v) # m else (k', v') # im_insert m k v)"

definition im_shift_remove :: "('k, 'v) imap \<Rightarrow> 'k \<Rightarrow> ('k, 'v) imap" where
  "im_shift_remove m k = filter (\<lambda>e. fst e \<noteq> k) m"

fun im_index :: "('k, 'v) imap \<Rightarrow> 'k \<Rightarrow> nat" where
  "im_index [] k = 0"
| "im_index ((k', v') # m) k = (if k' = k then 0 else Suc (im_index m k))"

definition im_swap_remove :: "('k, 'v) imap \<Rightarrow> 'k \<Rightarrow> ('k, 'v) imap" where
  "im_swap_remove m k =
     (let i = im_index m k
      in if i < length m then (if Suc i = length m then butlast m else butlast (m[i := last m])) else m)"

text \<open>\<^verbatim>\<open>if let Some(v) = map.get_mut(&k) { *v = f(v) }\<close>, and \<^verbatim>\<open>entry(k).or_insert(v)\<close> then \<open>f\<close>.\<close>

fun im_adjust :: "('k, 'v) imap \<Rightarrow> 'k \<Rightarrow> ('v \<Rightarrow> 'v) \<Rightarrow> ('k, 'v) imap" where
  "im_adjust [] k f = []"
| "im_adjust ((k', v) # m) k f = (if k' = k then (k', f v) # m else (k', v) # im_adjust m k f)"

definition im_upsert :: "('k, 'v) imap \<Rightarrow> 'k \<Rightarrow> 'v \<Rightarrow> ('v \<Rightarrow> 'v) \<Rightarrow> ('k, 'v) imap" where
  "im_upsert m k d f = im_insert m k (f (case im_get m k of None \<Rightarrow> d | Some v \<Rightarrow> v))"

definition im_retain :: "('k \<Rightarrow> 'v \<Rightarrow> bool) \<Rightarrow> ('k, 'v) imap \<Rightarrow> ('k, 'v) imap" where
  "im_retain p m = filter (\<lambda>(k, v). p k v) m"

definition im_collect :: "('k \<times> 'v) list \<Rightarrow> ('k, 'v) imap" where
  "im_collect es = foldl (\<lambda>m (k, v). im_insert m k v) [] es"

text \<open>\<^verbatim>\<open>IndexMap\<close> and \<^verbatim>\<open>Map\<close> compare as maps: the order of the entries does not count.\<close>

definition im_eq :: "('k, 'v) imap \<Rightarrow> ('k, 'v) imap \<Rightarrow> bool" where
  "im_eq m n \<longleftrightarrow> length m = length n \<and> list_all (\<lambda>(k, v). im_get n k = Some v) m"

subsection \<open>Lookup laws\<close>

lemma im_get_insert [simp]: "im_get (im_insert m k v) k' = (if k' = k then Some v else im_get m k')"
  by (induction m) auto

lemma im_keys_insert: "set (map fst (im_insert m k v)) = insert k (set (map fst m))"
  by (induction m k v rule: im_insert.induct) (simp_all add: insert_commute)

lemma im_wf_insert [simp, inv_intros]: "im_wf m \<Longrightarrow> im_wf (im_insert m k v)"
  unfolding im_wf_def
proof (induction m)
  case Nil
  then show ?case by simp
next
  case (Cons e m)
  then show ?case using im_keys_insert [of m k v] by (cases e) auto
qed

lemma im_wf_Nil [simp]: "im_wf []"
  by (simp add: im_wf_def)

lemma im_get_shift_remove [simp]:
  "im_get (im_shift_remove m k) k' = (if k' = k then None else im_get m k')"
  by (induction m) (auto simp: im_shift_remove_def)

lemma im_wf_filter: "im_wf m \<Longrightarrow> im_wf (filter p m)"
  by (simp add: im_wf_def distinct_map_filter)

lemma im_wf_shift_remove [simp, inv_intros]: "im_wf m \<Longrightarrow> im_wf (im_shift_remove m k)"
  by (simp add: im_shift_remove_def im_wf_filter)

lemma im_wf_retain [simp, inv_intros]: "im_wf m \<Longrightarrow> im_wf (im_retain p m)"
  by (simp add: im_retain_def im_wf_filter)

lemma im_index_less: "im_index m k < length m \<longleftrightarrow> k \<in> set (map fst m)"
  by (induction m) auto

lemma im_index_nth: "im_index m k < length m \<Longrightarrow> fst (m ! im_index m k) = k"
  by (induction m) auto

lemma mset_swap_remove:
  assumes "k \<in> set (map fst m)"
  shows "add_mset (m ! im_index m k) (mset (im_swap_remove m k)) = mset m"
proof -
  let ?i = "im_index m k"
  have i: "?i < length m" using assms im_index_less [of m k] by blast
  then have ne: "m \<noteq> []" by auto
  show ?thesis
  proof (cases "Suc ?i = length m")
    case True
    then have "?i = length m - 1" by simp
    then have "m ! ?i = last m" using ne by (simp add: last_conv_nth)
    moreover have "mset m = mset (butlast m @ [last m])" using ne by simp
    ultimately show ?thesis using i True by (simp add: im_swap_remove_def)
  next
    case False
    let ?n = "m[?i := last m]"
    have ne': "?n \<noteq> []" using ne by simp
    have "last ?n = last m" using False i by (simp add: last_list_update ne)
    then have "mset ?n = mset (butlast ?n @ [last m])" using ne' by (metis append_butlast_last_id)
    then have "add_mset (last m) (mset (butlast ?n)) = add_mset (last m) (mset m - {#m ! ?i#})"
      using i by (simp add: mset_update)
    then have "mset (butlast ?n) = mset m - {#m ! ?i#}" by simp
    then have "add_mset (m ! ?i) (mset (butlast ?n)) = mset m" using i by simp
    then show ?thesis using i False by (simp add: im_swap_remove_def)
  qed
qed

lemma im_swap_remove_absent: "k \<notin> set (map fst m) \<Longrightarrow> im_swap_remove m k = m"
  using im_index_less [of m k] by (auto simp: im_swap_remove_def)

lemma im_wf_swap_remove [simp, inv_intros]: "im_wf m \<Longrightarrow> im_wf (im_swap_remove m k)"
proof (cases "k \<in> set (map fst m)")
  case True
  assume "im_wf m"
  have "image_mset fst (mset m) = add_mset (fst (m ! im_index m k)) (mset (map fst (im_swap_remove m k)))"
    using mset_swap_remove [OF True] by (metis image_mset_add_mset mset_map)
  then have "mset (map fst m) = mset (fst (m ! im_index m k) # map fst (im_swap_remove m k))" by simp
  then have "distinct (fst (m ! im_index m k) # map fst (im_swap_remove m k))"
    using \<open>im_wf m\<close> unfolding im_wf_def by (metis mset_eq_imp_distinct_iff)
  then show "im_wf (im_swap_remove m k)" by (simp add: im_wf_def)
next
  case False
  then show "im_wf m \<Longrightarrow> im_wf (im_swap_remove m k)" by (simp add: im_swap_remove_absent)
qed

lemma im_get_mset_eq: "im_wf m \<Longrightarrow> mset m = mset n \<Longrightarrow> im_get m = im_get n"
  by (metis im_wf_def map_of_eqI map_of_inject_set mset_eq_imp_distinct_iff mset_eq_setD mset_map)

lemma im_get_swap_remove [simp]:
  assumes "im_wf m"
  shows "im_get (im_swap_remove m k) k' = (if k' = k then None else im_get m k')"
proof (cases "k \<in> set (map fst m)")
  case True
  let ?e = "m ! im_index m k"
  have "mset m = mset (?e # im_swap_remove m k)" using mset_swap_remove [OF True] by simp
  then have eq: "im_get m = im_get (?e # im_swap_remove m k)" and d: "distinct (map fst (?e # im_swap_remove m k))"
    using assms im_get_mset_eq by (blast, metis im_wf_def mset_eq_imp_distinct_iff mset_map)
  have k: "fst ?e = k" using True im_index_less im_index_nth by metis
  have "im_get (im_swap_remove m k) k = None" using d k by (simp add: map_of_eq_None_iff)
  moreover have "k' \<noteq> k \<Longrightarrow> im_get m k' = im_get (im_swap_remove m k) k'"
    using k by (subst eq) (cases ?e, auto)
  ultimately show ?thesis by auto
next
  case False
  then show ?thesis by (auto simp: im_swap_remove_absent map_of_eq_None_iff)
qed

lemma im_get_adjust [simp]:
  "im_get (im_adjust m k f) k' = (if k' = k then map_option f (im_get m k) else im_get m k')"
  by (induction m) auto

lemma im_keys_adjust [simp]: "map fst (im_adjust m k f) = map fst m"
  by (induction m) auto

lemma im_wf_adjust [simp, inv_intros]: "im_wf m \<Longrightarrow> im_wf (im_adjust m k f)"
  by (simp add: im_wf_def)

lemma im_get_upsert [simp]:
  "im_get (im_upsert m k d f) k' =
     (if k' = k then Some (f (case im_get m k of None \<Rightarrow> d | Some v \<Rightarrow> v)) else im_get m k')"
  by (simp add: im_upsert_def)

lemma im_wf_upsert [simp, inv_intros]: "im_wf m \<Longrightarrow> im_wf (im_upsert m k d f)"
  by (simp add: im_upsert_def)

lemma im_get_retain:
  "im_wf m \<Longrightarrow> im_get (im_retain p m) k = (case im_get m k of None \<Rightarrow> None | Some v \<Rightarrow> if p k v then Some v else None)"
  by (induction m) (auto simp: im_retain_def im_wf_def map_of_eq_None_iff split: option.splits)

lemma im_contains_iff: "im_contains m k \<longleftrightarrow> k \<in> set (map fst m)"
  by (simp add: im_contains_def map_of_eq_None_iff)

lemma im_contains_insert [simp]: "im_contains (im_insert m k v) j \<longleftrightarrow> j = k \<or> im_contains m j"
  by (simp add: im_contains_def)

lemma im_all_insert: "list_all P m \<Longrightarrow> P (k, v) \<Longrightarrow> list_all P (im_insert m k v)"
  by (induction m k v rule: im_insert.induct) auto

lemma im_wf_collect [simp]: "im_wf (im_collect es)"
  unfolding im_collect_def by (rule foldl_inv) auto

lemma im_get_Some_mem: "im_get m k = Some v \<Longrightarrow> (k, v) \<in> set m"
  by (rule map_of_SomeD)

lemma im_get_mem: "im_wf m \<Longrightarrow> (k, v) \<in> set m \<Longrightarrow> im_get m k = Some v"
  by (simp add: im_wf_def)

lemma im_insert_fresh: "k \<notin> set (map fst m) \<Longrightarrow> im_insert m k v = m @ [(k, v)]"
  by (induction m) auto

lemma im_eq_get: "im_wf m \<Longrightarrow> im_get m = im_get n \<Longrightarrow> length m = length n \<Longrightarrow> im_eq m n"
  by (auto simp: im_eq_def list_all_iff im_get_mem dest: sym [of "im_get m"])

lemma im_eq_refl: "im_wf m \<Longrightarrow> im_eq m m"
  by (simp add: im_eq_get)

lemma im_get_iff_mem: "im_wf m \<Longrightarrow> im_get m k = Some v \<longleftrightarrow> (k, v) \<in> set m"
  by (auto simp: im_get_mem dest: im_get_Some_mem)

lemma mset_swap_remove_filter:
  assumes "im_wf m"
  shows "mset (im_swap_remove m k) = mset (filter (\<lambda>e. fst e \<noteq> k) m)"
proof -
  have d: "distinct (im_swap_remove m k)" "distinct (filter (\<lambda>e. fst e \<noteq> k) m)"
    using im_wf_swap_remove [OF assms, of k] assms by (auto simp: im_wf_def distinct_map)
  have "e \<in> set (im_swap_remove m k) \<longleftrightarrow> e \<in> set (filter (\<lambda>e. fst e \<noteq> k) m)" for e
    using im_get_swap_remove [OF assms, of k "fst e"] im_get_iff_mem [OF assms, of "fst e" "snd e"]
      im_get_iff_mem [OF im_wf_swap_remove [OF assms, of k], of "fst e" "snd e"]
    by (cases e) (auto split: if_splits)
  then have "set (im_swap_remove m k) = set (filter (\<lambda>e. fst e \<noteq> k) m)" by blast
  then show ?thesis using set_eq_iff_mset_eq_distinct [OF d] by blast
qed

lemma mset_swap_remove_all:
  "im_wf m \<Longrightarrow> mset (foldl im_swap_remove m ks) = mset (filter (\<lambda>e. fst e \<notin> set ks) m)"
proof (induction ks arbitrary: m)
  case Nil
  then show ?case by simp
next
  case (Cons k ks)
  have "mset (filter (\<lambda>e. fst e \<notin> set ks) (im_swap_remove m k)) =
      filter_mset (\<lambda>e. fst e \<notin> set ks) (mset (im_swap_remove m k))" by simp
  also have "\<dots> = mset (filter (\<lambda>e. fst e \<notin> set (k # ks)) m)"
    using mset_swap_remove_filter [OF Cons.prems, of k]
    by (simp add: filter_filter_mset conj_commute filter_mset_eq_conv flip: mset_filter)
  finally show ?case using Cons by simp
qed

lemma im_collect_distinct: "im_wf es \<Longrightarrow> im_collect es = es"
proof -
  have "foldl (\<lambda>m (k, v). im_insert m k v) m es = m @ es" if "im_wf (m @ es)" for m es
    using that
  proof (induction es arbitrary: m)
    case Nil
    then show ?case by simp
  next
    case (Cons e es)
    then show ?case by (cases e) (simp add: im_insert_fresh im_wf_def)
  qed
  from this [of "[]"] show "im_wf es \<Longrightarrow> im_collect es = es" by (simp add: im_collect_def)
qed

subsection \<open>The contract of a map with entry removal\<close>

locale entry_map =
  fixes get :: "'m \<Rightarrow> 'k \<Rightarrow> 'v option"
    and put :: "'m \<Rightarrow> 'k \<Rightarrow> 'v \<Rightarrow> 'm"
    and del :: "'m \<Rightarrow> 'k \<Rightarrow> 'm"
    and wf :: "'m \<Rightarrow> bool"
  assumes get_put: "wf m \<Longrightarrow> get (put m k v) k' = (if k' = k then Some v else get m k')"
    and get_del: "wf m \<Longrightarrow> get (del m k) k' = (if k' = k then None else get m k')"
    and wf_put: "wf m \<Longrightarrow> wf (put m k v)"
    and wf_del: "wf m \<Longrightarrow> wf (del m k)"
begin

lemma wf_del_all: "wf m \<Longrightarrow> wf (foldl del m ks)"
  by (rule foldl_inv) (auto intro: wf_del)

lemma get_del_all: "wf m \<Longrightarrow> get (foldl del m ks) k = (if k \<in> set ks then None else get m k)"
proof (induction ks arbitrary: m)
  case Nil
  then show ?case by simp
next
  case (Cons a ks)
  then show ?case by (auto simp: get_del wf_del)
qed

lemma put_del_commute:
  "wf m \<Longrightarrow> k \<noteq> k' \<Longrightarrow> get (del (put m k v) k') j = get (put (del m k') k v) j"
  by (simp add: get_put get_del wf_put wf_del)

lemma del_absent: "wf m \<Longrightarrow> get m k = None \<Longrightarrow> get (del m k) j = get m j"
  by (auto simp: get_del)

end

interpretation shift: entry_map im_get im_insert im_shift_remove im_wf
  by unfold_locales auto

interpretation swap: entry_map im_get im_insert im_swap_remove im_wf
  by unfold_locales auto

end
