(* ===== verification/Json.thy ===== *)
theory Json
  imports F64 Rust_Str Index_Map
begin

text \<open>
  The document type of the stores, \<^verbatim>\<open>serde_json::Value\<close>, with the accessors the code calls.
  A number is what \<^verbatim>\<open>serde_json::Number\<close> holds: an unsigned or a negative 64-bit integer,
  or a finite double. An object is an insertion-ordered map. Parsing and printing of the text
  form belong to serde_json and are parameters where the code uses them. The parser of a double
  from a string is \<^verbatim>\<open>str::parse::<f64>\<close>, correctly rounded.
\<close>

datatype jnumber = PosInt u64 | NegInt int | JFloat f64

datatype json =
    JNull
  | JBool bool
  | JNumber jnumber
  | JString string
  | JArray "json list"
  | JObject "(string \<times> json) list"

type_synonym jmap = "(string, json) imap"

subsection \<open>Accessors\<close>

fun number_as_f64 :: "jnumber \<Rightarrow> f64" where
  "number_as_f64 (PosInt n) = f64_of_int (uint n)"
| "number_as_f64 (NegInt i) = f64_of_int i"
| "number_as_f64 (JFloat x) = x"

fun as_f64 :: "json \<Rightarrow> f64 option" where
  "as_f64 (JNumber n) = Some (number_as_f64 n)"
| "as_f64 _ = None"

fun as_u64 :: "json \<Rightarrow> u64 option" where
  "as_u64 (JNumber (PosInt n)) = Some n"
| "as_u64 _ = None"

fun as_i64 :: "json \<Rightarrow> int option" where
  "as_i64 (JNumber (PosInt n)) = (if uint n < 2 ^ 63 then Some (uint n) else None)"
| "as_i64 (JNumber (NegInt i)) = Some i"
| "as_i64 _ = None"

fun as_bool :: "json \<Rightarrow> bool option" where
  "as_bool (JBool b) = Some b"
| "as_bool _ = None"

fun as_str :: "json \<Rightarrow> string option" where
  "as_str (JString s) = Some s"
| "as_str _ = None"

fun as_array :: "json \<Rightarrow> json list option" where
  "as_array (JArray vs) = Some vs"
| "as_array _ = None"

fun as_object :: "json \<Rightarrow> jmap option" where
  "as_object (JObject m) = Some m"
| "as_object _ = None"

text \<open>\<^verbatim>\<open>value.get(key)\<close> on any value\<close>

definition jget :: "json \<Rightarrow> string \<Rightarrow> json option" where
  "jget v k = (case as_object v of None \<Rightarrow> None | Some m \<Rightarrow> im_get m k)"

text \<open>A serialized double: a number when finite, \<^verbatim>\<open>null\<close> otherwise.\<close>

definition json_f64 :: "f64 \<Rightarrow> json" where
  "json_f64 x = (if f64_finite x then JNumber (JFloat x) else JNull)"

definition json_u16 :: "u16 \<Rightarrow> json" where
  "json_u16 w = JNumber (PosInt (ucast w))"

definition json_u32 :: "u32 \<Rightarrow> json" where
  "json_u32 w = JNumber (PosInt (ucast w))"

lemma as_f64_json_f64 [simp]: "f64_finite x \<Longrightarrow> as_f64 (json_f64 x) = Some x"
  by (simp add: json_f64_def)

text \<open>
  What serde_json builds: distinct keys in every object, numbers in their ranges. Documents the
  code receives satisfy it.
\<close>

fun jnumber_wf :: "jnumber \<Rightarrow> bool" where
  "jnumber_wf (PosInt n) = True"
| "jnumber_wf (NegInt i) = (- (2 ^ 63) \<le> i \<and> i < 0)"
| "jnumber_wf (JFloat x) = f64_finite x"

fun json_wf :: "json \<Rightarrow> bool" where
  "json_wf (JNumber n) = jnumber_wf n"
| "json_wf (JArray vs) = list_all json_wf vs"
| "json_wf (JObject m) = (im_wf m \<and> list_all (\<lambda>e. json_wf (snd e)) m)"
| "json_wf _ = True"

subsection \<open>Doubles from text\<close>

definition ascii_lowercase :: "string \<Rightarrow> string" where
  "ascii_lowercase s = map (\<lambda>c. if ascii_upper c then char_of (byte_of c + 32) else c) s"

text \<open>The longest run of digits and what follows it.\<close>

definition span_digits :: "string \<Rightarrow> string \<times> string" where
  "span_digits s = (takeWhile ascii_digit s, dropWhile ascii_digit s)"

definition parse_exponent :: "string \<Rightarrow> int option" where
  "parse_exponent s = (case s of
       [] \<Rightarrow> Some 0
     | c # cs \<Rightarrow>
         if c = CHR ''e'' \<or> c = CHR ''E'' then
           (let neg = (cs \<noteq> [] \<and> hd cs = CHR ''-'');
                d = (if cs \<noteq> [] \<and> (hd cs = CHR ''+'' \<or> hd cs = CHR ''-'') then tl cs else cs)
            in if d = [] \<or> \<not> list_all ascii_digit d then None
               else Some (if neg then - int (digits_value 10 dec_val d) else int (digits_value 10 dec_val d)))
         else None)"

definition parse_decimal :: "bool \<Rightarrow> string \<Rightarrow> f64 option" where
  "parse_decimal neg s =
     (let (whole, rest) = span_digits s;
          (frac, rest') = (case rest of [] \<Rightarrow> ([], [])
             | c # cs \<Rightarrow> if c = CHR ''.'' then span_digits cs else ([], rest))
      in if whole = [] \<and> frac = [] then None
         else map_option (\<lambda>e. f64_round neg
             (of_nat (digits_value 10 dec_val (whole @ frac)) * 10 powi (e - int (length frac))))
           (parse_exponent rest'))"

definition parse_f64 :: "string \<Rightarrow> f64 option" where
  "parse_f64 s =
     (let neg = (s \<noteq> [] \<and> hd s = CHR ''-'');
          d = (if s \<noteq> [] \<and> (hd s = CHR ''+'' \<or> hd s = CHR ''-'') then tl s else s);
          l = ascii_lowercase d
      in if l = ''inf'' \<or> l = ''infinity'' then Some (FInf neg)
         else if l = ''nan'' then Some FNaN
         else parse_decimal neg d)"

end
