(* ===== verification/Effects.thy ===== *)
theory Effects
  imports Json
begin

text \<open>
  The settings of the microphone effects, \<^verbatim>\<open>FxSettings\<close> of
  \<^verbatim>\<open>crates/openwave-core/src/effects.rs\<close>: decoding from JSON, the validation that clamps every
  number into the bounds of its plugin, whether any effect is active, and the toggles. The
  rendering of the filter graph is in \<open>Fx_Graph\<close>, behind the data model.
\<close>

record fx_settings =
  fx_lowcut :: u16
  fx_gate :: bool
  fx_gate_thresh :: f64
  fx_comp :: bool
  fx_comp_thresh :: f64
  fx_comp_ratio :: f64
  fx_eq_low :: f64
  fx_eq_mid :: f64
  fx_eq_high :: f64
  fx_delay_ms :: f64
  fx_mono :: bool

definition fx_default :: fx_settings where
  "fx_default = \<lparr>
     fx_lowcut = 0, fx_gate = False, fx_gate_thresh = FFin True 50, fx_comp = False,
     fx_comp_thresh = FFin True 18, fx_comp_ratio = FFin False 3, fx_eq_low = FFin False 0,
     fx_eq_mid = FFin False 0, fx_eq_high = FFin False 0, fx_delay_ms = FFin False 0,
     fx_mono = False\<rparr>"

definition fx_field :: "string \<Rightarrow> f64 \<Rightarrow> f64 \<Rightarrow> f64 \<Rightarrow> f64 res" where
  "fx_field key lo hi v =
     (if \<not> f64_finite v then Inl (error_invalid (key @ '' must be a finite number''))
      else Inr (f64_clamp lo hi v))"

text \<open>The loop over the seven bounds, unrolled in its order; the first non-finite one returns.\<close>

definition fx_validated :: "fx_settings \<Rightarrow> fx_settings res" where
  "fx_validated s =
     (if fx_lowcut s \<noteq> 0 \<and> fx_lowcut s \<noteq> 80 \<and> fx_lowcut s \<noteq> 120
      then Inl (error_invalid ''lowcut must be 0, 80, or 120 Hz'')
      else
        rbind (fx_field ''gate_thresh'' (FFin True 70) (FFin True 20) (fx_gate_thresh s)) (\<lambda>gate_thresh.
        rbind (fx_field ''comp_thresh'' (FFin True 30) (FFin False 0) (fx_comp_thresh s)) (\<lambda>comp_thresh.
        rbind (fx_field ''comp_ratio'' (FFin False 1) (FFin False 10) (fx_comp_ratio s)) (\<lambda>comp_ratio.
        rbind (fx_field ''eq_low'' (FFin True 12) (FFin False 12) (fx_eq_low s)) (\<lambda>eq_low.
        rbind (fx_field ''eq_mid'' (FFin True 12) (FFin False 12) (fx_eq_mid s)) (\<lambda>eq_mid.
        rbind (fx_field ''eq_high'' (FFin True 12) (FFin False 12) (fx_eq_high s)) (\<lambda>eq_high.
        rbind (fx_field ''delay_ms'' (FFin False 0) (FFin False 500) (fx_delay_ms s)) (\<lambda>delay_ms.
          Inr (s\<lparr>fx_gate_thresh := gate_thresh, fx_comp_thresh := comp_thresh,
                 fx_comp_ratio := comp_ratio, fx_eq_low := eq_low, fx_eq_mid := eq_mid,
                 fx_eq_high := eq_high, fx_delay_ms := delay_ms\<rparr>)))))))))"

definition fx_entry :: "fx_settings \<Rightarrow> string \<times> json \<Rightarrow> fx_settings res" where
  "fx_entry settings e = (case e of (key, v) \<Rightarrow>
     if key \<in> {''gate'', ''comp'', ''mono''} then
       rbind (ok_or (error_invalid (key @ '' must be a boolean'')) (as_bool v)) (\<lambda>b.
         Inr (if key = ''gate'' then settings\<lparr>fx_gate := b\<rparr>
              else if key = ''comp'' then settings\<lparr>fx_comp := b\<rparr>
              else settings\<lparr>fx_mono := b\<rparr>))
     else if key \<in> {''lowcut'', ''gate_thresh'', ''comp_thresh'', ''comp_ratio'', ''eq_low'', ''eq_mid'',
         ''eq_high'', ''delay_ms''} then
       rbind (ok_or (error_invalid (key @ '' must be a finite number''))
           (case as_f64 v of None \<Rightarrow> None | Some n \<Rightarrow> if f64_finite n then Some n else None)) (\<lambda>number.
         if key = ''lowcut'' then
           (if \<not> list_ex (\<lambda>x. f64_eq x number) [FFin False 0, FFin False 80, FFin False 120]
            then Inl (error_invalid ''lowcut must be 0, 80, or 120 Hz'')
            else Inr (settings\<lparr>fx_lowcut := f64_to_u16 number\<rparr>))
         else Inr (if key = ''gate_thresh'' then settings\<lparr>fx_gate_thresh := number\<rparr>
           else if key = ''comp_thresh'' then settings\<lparr>fx_comp_thresh := number\<rparr>
           else if key = ''comp_ratio'' then settings\<lparr>fx_comp_ratio := number\<rparr>
           else if key = ''eq_low'' then settings\<lparr>fx_eq_low := number\<rparr>
           else if key = ''eq_mid'' then settings\<lparr>fx_eq_mid := number\<rparr>
           else if key = ''eq_high'' then settings\<lparr>fx_eq_high := number\<rparr>
           else settings\<lparr>fx_delay_ms := number\<rparr>))
     else Inl (error_invalid (''unknown effect setting: '' @ key)))"

definition fx_from_value :: "json \<Rightarrow> fx_settings res" where
  "fx_from_value v =
     rbind (ok_or (error_invalid ''fx must be an object'') (as_object v)) (\<lambda>obj.
     rbind (res_foldM fx_entry fx_default obj) fx_validated)"

text \<open>\<^verbatim>\<open>derive(Serialize)\<close>: the fields in their order; a double that is not finite is \<^verbatim>\<open>null\<close>.\<close>

definition fx_to_value :: "fx_settings \<Rightarrow> json" where
  "fx_to_value s = JObject
     [(''lowcut'', json_u16 (fx_lowcut s)), (''gate'', JBool (fx_gate s)),
      (''gate_thresh'', json_f64 (fx_gate_thresh s)), (''comp'', JBool (fx_comp s)),
      (''comp_thresh'', json_f64 (fx_comp_thresh s)), (''comp_ratio'', json_f64 (fx_comp_ratio s)),
      (''eq_low'', json_f64 (fx_eq_low s)), (''eq_mid'', json_f64 (fx_eq_mid s)),
      (''eq_high'', json_f64 (fx_eq_high s)), (''delay_ms'', json_f64 (fx_delay_ms s)),
      (''mono'', JBool (fx_mono s))]"

definition fx_active :: "fx_settings \<Rightarrow> bool" where
  "fx_active s \<longleftrightarrow>
     fx_lowcut s \<noteq> 0 \<or> fx_gate s \<or> (fx_comp s \<and> f64_gt (fx_comp_ratio s) (FFin False 1)) \<or>
     \<not> f64_eq (fx_eq_low s) (FFin False 0) \<or> \<not> f64_eq (fx_eq_mid s) (FFin False 0) \<or>
     \<not> f64_eq (fx_eq_high s) (FFin False 0) \<or> \<not> f64_eq (fx_delay_ms s) (FFin False 0) \<or> fx_mono s"

text \<open>\<^verbatim>\<open>toggle(&mut self, key)\<close>: the new settings; an error leaves \<^verbatim>\<open>self\<close> as it was.\<close>

definition fx_toggle :: "fx_settings \<Rightarrow> string \<Rightarrow> fx_settings res" where
  "fx_toggle s key =
     rbind (fx_validated s) (\<lambda>next.
       if key = ''lowcut'' then Inr (next\<lparr>fx_lowcut := if fx_lowcut next = 0 then 80 else 0\<rparr>)
       else if key = ''gate'' then Inr (next\<lparr>fx_gate := \<not> fx_gate next\<rparr>)
       else if key = ''comp'' then Inr (next\<lparr>fx_comp := \<not> fx_comp next\<rparr>)
       else if key = ''mono'' then Inr (next\<lparr>fx_mono := \<not> fx_mono next\<rparr>)
       else Inl (error_invalid ''effect cannot be toggled''))"

subsection \<open>Validation\<close>

text \<open>The well-formed settings: what \<open>fx_validated\<close> returns, and all it changes nothing of.\<close>

definition fx_ok :: "fx_settings \<Rightarrow> bool" where
  "fx_ok s \<longleftrightarrow> fx_lowcut s \<in> {0, 80, 120} \<and>
     f64_within (FFin True 70) (FFin True 20) (fx_gate_thresh s) \<and>
     f64_within (FFin True 30) (FFin False 0) (fx_comp_thresh s) \<and>
     f64_within (FFin False 1) (FFin False 10) (fx_comp_ratio s) \<and>
     f64_within (FFin True 12) (FFin False 12) (fx_eq_low s) \<and>
     f64_within (FFin True 12) (FFin False 12) (fx_eq_mid s) \<and>
     f64_within (FFin True 12) (FFin False 12) (fx_eq_high s) \<and>
     f64_within (FFin False 0) (FFin False 500) (fx_delay_ms s)"

lemma fx_field_Inr_iff: "fx_field key lo hi v = Inr w \<longleftrightarrow> f64_finite v \<and> w = f64_clamp lo hi v"
  by (auto simp: fx_field_def)

lemma fx_field_within:
  "fx_field key lo hi v = Inr w \<Longrightarrow> f64_finite lo \<Longrightarrow> f64_finite hi \<Longrightarrow> f64_val lo \<le> f64_val hi \<Longrightarrow>
   f64_within lo hi w"
  by (auto simp: fx_field_def f64_clamp_within f64_finite_nan split: if_splits)

lemma fx_field_id:
  "f64_within lo hi v \<Longrightarrow> f64_finite lo \<Longrightarrow> f64_finite hi \<Longrightarrow> fx_field key lo hi v = Inr v"
  using f64_within_finite [of lo hi v]
  by (simp add: fx_field_def f64_clamp_id f64_finite_nan)

lemma fx_validated_ok [inv_intros]: "fx_validated s = Inr t \<Longrightarrow> fx_ok t"
  by (auto simp: fx_validated_def fx_ok_def rbind_Inr_iff fx_field_Inr_iff f64_clamp_within f64_finite_nan
      split: if_splits)

lemma fx_validated_id: "fx_ok s \<Longrightarrow> fx_validated s = Inr s"
  by (auto simp: fx_validated_def fx_ok_def fx_field_id)

lemma fx_ok_finite:
  assumes "fx_ok s"
  shows "f64_finite (fx_gate_thresh s)" "f64_finite (fx_comp_thresh s)" "f64_finite (fx_comp_ratio s)"
    "f64_finite (fx_eq_low s)" "f64_finite (fx_eq_mid s)" "f64_finite (fx_eq_high s)" "f64_finite (fx_delay_ms s)"
  using assms by (auto simp: fx_ok_def dest: f64_within_finite [rotated 2])

lemma fx_default_ok: "fx_ok fx_default"
  by (simp add: fx_ok_def fx_default_def f64_within_def f64_le_def)

lemma fx_ok_switches:
  assumes "fx_ok s"
  shows "w = 0 \<or> w = 80 \<or> w = 120 \<Longrightarrow> fx_ok (s\<lparr>fx_lowcut := w\<rparr>)"
    and "fx_ok (s\<lparr>fx_gate := b\<rparr>)" and "fx_ok (s\<lparr>fx_comp := b\<rparr>)" and "fx_ok (s\<lparr>fx_mono := b\<rparr>)"
  using assms by (auto simp: fx_ok_def)

lemma fx_toggle_ok [inv_intros]:
  assumes "fx_toggle s key = Inr t"
  shows "fx_ok t"
proof -
  obtain n where "fx_validated s = Inr n" using assms by (auto simp: fx_toggle_def res_simps)
  moreover from this have "fx_ok n" by (rule fx_validated_ok)
  ultimately show ?thesis using assms by (auto simp: fx_toggle_def fx_ok_switches split: if_splits)
qed

lemma fx_from_value_ok [inv_intros]: "fx_from_value v = Inr s \<Longrightarrow> fx_ok s"
  by (auto simp: fx_from_value_def res_simps dest: fx_validated_ok)

lemma fx_decode_encode:
  assumes "fx_ok s"
  shows "fx_from_value (fx_to_value s) = Inr s"
proof -
  note fin = fx_ok_finite [OF assms]
  have lc: "fx_lowcut s = 0 \<or> fx_lowcut s = 80 \<or> fx_lowcut s = 120" using assms by (simp add: fx_ok_def)
  then have entry: "fx_entry fx_default (''lowcut'', json_u16 (fx_lowcut s)) = Inr (fx_default\<lparr>fx_lowcut := fx_lowcut s\<rparr>)"
    by (auto simp: fx_entry_def json_u16_def f64_of_int_small f64_to_u16_def)
  have "res_foldM fx_entry fx_default (the (as_object (fx_to_value s))) =
      Inr (fx_default\<lparr>fx_lowcut := fx_lowcut s, fx_gate := fx_gate s, fx_gate_thresh := fx_gate_thresh s,
        fx_comp := fx_comp s, fx_comp_thresh := fx_comp_thresh s, fx_comp_ratio := fx_comp_ratio s,
        fx_eq_low := fx_eq_low s, fx_eq_mid := fx_eq_mid s, fx_eq_high := fx_eq_high s,
        fx_delay_ms := fx_delay_ms s, fx_mono := fx_mono s\<rparr>)"
    using fin by (simp add: fx_to_value_def entry) (simp add: fx_entry_def)
  then have "res_foldM fx_entry fx_default (the (as_object (fx_to_value s))) = Inr s"
    by (simp add: fx_default_def)
  then show ?thesis using fx_validated_id [OF assms] by (simp add: fx_from_value_def fx_to_value_def)
qed

subsection \<open>Properties\<close>

text \<open>
  Validating typed or decoded settings accepts exactly the finite ones with a known low-cut
  frequency, and clamps every number into its plugin's bounds and nothing else: the result is in
  bounds, valid settings are unchanged (so validating is idempotent), and the switches are kept.
\<close>

theorem fx_validated_spec:
  "(case fx_validated s of
      Inl e \<Rightarrow> err_code e = Invalid \<and> \<not> (fx_lowcut s \<in> {0, 80, 120} \<and>
        list_all f64_finite [fx_gate_thresh s, fx_comp_thresh s, fx_comp_ratio s, fx_eq_low s, fx_eq_mid s,
          fx_eq_high s, fx_delay_ms s])
    | Inr t \<Rightarrow> fx_ok t \<and> fx_validated t = Inr t \<and> (t = s) = fx_ok s \<and>
        (fx_lowcut t, fx_gate t, fx_comp t, fx_mono t) = (fx_lowcut s, fx_gate s, fx_comp s, fx_mono s) \<and>
        f64_val (fx_delay_ms t) = max 0 (min 500 (f64_val (fx_delay_ms s))) \<and>
        f64_val (fx_comp_ratio t) = max 1 (min 10 (f64_val (fx_comp_ratio s))))"
proof (cases "fx_validated s")
  case (Inl e)
  then show ?thesis by (auto simp: fx_validated_def fx_field_def res_simps split: if_splits)
next
  case (Inr t)
  have "f64_val (fx_delay_ms t) = max 0 (min 500 (f64_val (fx_delay_ms s))) \<and>
      f64_val (fx_comp_ratio t) = max 1 (min 10 (f64_val (fx_comp_ratio s)))"
    using Inr by (auto simp: fx_validated_def fx_field_Inr_iff rbind_Inr_iff f64_clamp_val split: if_splits)
  moreover have "(fx_lowcut t, fx_gate t, fx_comp t, fx_mono t) = (fx_lowcut s, fx_gate s, fx_comp s, fx_mono s)"
    using Inr by (auto simp: fx_validated_def rbind_Inr_iff split: if_splits)
  ultimately show ?thesis
    using Inr fx_validated_ok [OF Inr] fx_validated_id [of s] fx_validated_id [of t] by auto
qed

text \<open>
  Settings survive serialization: decoding the JSON object of valid settings gives the same
  settings, and decoding never yields settings out of bounds.
\<close>

theorem fx_value_roundtrip:
  assumes "fx_ok s"
  shows "fx_from_value (fx_to_value s) = Inr s"
  using assms by (rule fx_decode_encode)

theorem fx_value_roundtrip_witness: "fx_from_value (fx_to_value fx_default) = Inr fx_default"
  by (rule fx_value_roundtrip [OF fx_default_ok])

text \<open>
  Toggling an effect twice restores the validated settings, save that a low cut of \<open>120\<close> Hz
  returns as \<open>80\<close> Hz; an unknown effect is refused.
\<close>

theorem fx_toggle_twice:
  "rbind (fx_toggle s key) (\<lambda>t. fx_toggle t key) =
     rbind (fx_validated s) (\<lambda>t.
       if key \<in> {''lowcut'', ''gate'', ''comp'', ''mono''}
       then Inr (if key = ''lowcut'' \<and> fx_lowcut t = 120 then t\<lparr>fx_lowcut := 80\<rparr> else t)
       else Inl (error_invalid ''effect cannot be toggled''))"
proof (cases "fx_validated s")
  case (Inl e)
  then show ?thesis by (simp add: fx_toggle_def)
next
  case (Inr t)
  have ok: "fx_ok t" by (rule fx_validated_ok [OF Inr])
  note ok' = fx_ok_switches [OF ok, THEN fx_validated_id]
  have lc: "fx_lowcut t = 0 \<or> fx_lowcut t = 80 \<or> fx_lowcut t = 120" using ok by (simp add: fx_ok_def)
  then show ?thesis by (auto simp: fx_toggle_def Inr ok')
qed

end
