(* ===== verification/Model.thy ===== *)
theory Model
  imports Effects Protocol
begin

text \<open>
  The data model of \<^verbatim>\<open>crates/openwave-core/src/model.rs\<close>: stable identifiers, sources, mixes, the
  matrix of sends, preferences, and their decoding from the JSON documents on disk. Every decoder
  takes the fields it knows out of the object with \<^verbatim>\<open>Map::remove\<close> and keeps the rest in
  \<open>extra\<close>; \<^verbatim>\<open>serde_json\<close> is built with \<^verbatim>\<open>preserve_order\<close>, where that is a swap removal.
  The text of an error of \<^verbatim>\<open>serde_json\<close> itself is the parameter \<open>serde\<close>.
\<close>

subsection \<open>Stable identifiers\<close>

type_synonym source_id = string
type_synonym mix_id = string

definition id_char :: "char \<Rightarrow> bool" where
  "id_char c \<longleftrightarrow> ascii_lower c \<or> ascii_digit c \<or> c = CHR ''_''"

definition id_ok :: "string \<Rightarrow> bool" where
  "id_ok s \<longleftrightarrow> s \<noteq> [] \<and> list_all id_char s"

text \<open>
  The \<^verbatim>\<open>Debug\<close> form of a string, for the message of a refused identifier: exact on ASCII;
  other characters are copied.
\<close>

definition hex_digit :: "nat \<Rightarrow> char" where
  "hex_digit d = char_of (if d < 10 then 48 + d else 87 + d)"

definition debug_char :: "char \<Rightarrow> string" where
  "debug_char c =
     (if c = CHR 0x22 then [CHR 0x5C, CHR 0x22] else if c = CHR 0x5C then [CHR 0x5C, CHR 0x5C]
      else if c = CHR 0x0A then [CHR 0x5C, CHR ''n''] else if c = CHR 0x0D then [CHR 0x5C, CHR ''r'']
      else if c = CHR 0x09 then [CHR 0x5C, CHR ''t''] else if c = nul then [CHR 0x5C, CHR ''0'']
      else if byte_of c < 32 \<or> byte_of c = 127 then
        [CHR 0x5C] @ ''u{'' @ (if byte_of c < 16 then [] else [hex_digit (byte_of c div 16)])
          @ [hex_digit (byte_of c mod 16)] @ ''}''
      else [c])"

definition debug_str :: "string \<Rightarrow> string" where
  "debug_str s = [CHR 0x22] @ concat (map debug_char s) @ [CHR 0x22]"

definition stable_id_new :: "string \<Rightarrow> string res" where
  "stable_id_new s = (if s = [] \<or> \<not> list_all id_char s
     then Inl (error_invalid (''Invalid stable id: '' @ debug_str s)) else Inr s)"

text \<open>\<^verbatim>\<open>generate()\<close>, given the 32 hexadecimal digits of the random UUID.\<close>

definition generate_id :: "string \<Rightarrow> string" where
  "generate_id uuid = take 12 uuid"

subsection \<open>Sources and mixes\<close>

datatype source_kind = App | Device

definition kind_str :: "source_kind \<Rightarrow> string" where
  "kind_str k = (case k of App \<Rightarrow> ''app'' | Device \<Rightarrow> ''device'')"

record source =
  src_id :: source_id
  src_kind :: source_kind
  src_name :: string
  src_icon_name :: string
  match_app_names :: "string list"
  src_node_name :: string
  src_level :: f64
  src_muted :: bool
  src_protected :: bool
  src_group :: string
  src_fx :: "fx_settings option"
  src_extra :: jmap

type_synonym sources = "(source_id, source) imap"

definition source_icon :: "source_kind \<Rightarrow> string" where
  "source_icon k = (if k = Device then ''audio-input-microphone-symbolic''
     else ''applications-multimedia-symbolic'')"

definition source_new :: "string \<Rightarrow> string \<Rightarrow> source_kind \<Rightarrow> source" where
  "source_new uuid name kind = \<lparr>
     src_id = generate_id uuid, src_kind = kind, src_name = name, src_icon_name = source_icon kind,
     match_app_names = [], src_node_name = [], src_level = FFin False 1, src_muted = False,
     src_protected = False, src_group = [], src_fx = None, src_extra = []\<rparr>"

definition catch_all :: "source \<Rightarrow> bool" where
  "catch_all s = (case Option.bind (im_get (src_extra s) ''catch_all'') as_bool of
     None \<Rightarrow> False | Some b \<Rightarrow> b)"

record mix =
  mix_id :: mix_id
  mix_name :: string
  mix_description :: string
  mix_subtitle :: string
  mix_icon_name :: string
  mix_sink :: string
  mix_extra :: jmap

type_synonym mixes = "(mix_id, mix) imap"

definition mix_new :: "string \<Rightarrow> string \<Rightarrow> mix" where
  "mix_new uuid name = (let i = generate_id uuid in
     \<lparr>mix_id = i, mix_name = name, mix_description = ''OpenWave '' @ name, mix_subtitle = [],
      mix_icon_name = ''audio-speakers-symbolic'', mix_sink = ''openwave_mix_'' @ i, mix_extra = []\<rparr>)"

record level_state =
  lv_volume :: f64
  lv_muted :: bool
  lv_extra :: jmap

definition level_default :: level_state where
  "level_default = \<lparr>lv_volume = FFin False 0, lv_muted = False, lv_extra = []\<rparr>"

record matrix_state =
  ms_cells :: "(string, level_state) imap"
  ms_outputs :: "(mix_id, string) imap"
  ms_volumes :: "(mix_id, level_state) imap"
  ms_extra :: jmap

definition matrix_default :: matrix_state where
  "matrix_default = \<lparr>ms_cells = [], ms_outputs = [], ms_volumes = [], ms_extra = []\<rparr>"

definition cell_key :: "source_id \<Rightarrow> mix_id \<Rightarrow> string" where
  "cell_key s m = s @ ''.'' @ m"

definition matrix_cell :: "matrix_state \<Rightarrow> source_id \<Rightarrow> mix_id \<Rightarrow> level_state" where
  "matrix_cell st s m = (case im_get (ms_cells st) (cell_key s m) of
     None \<Rightarrow> level_default | Some c \<Rightarrow> c)"

definition matrix_output :: "matrix_state \<Rightarrow> mix_id \<Rightarrow> string" where
  "matrix_output st m = (case im_get (ms_outputs st) m of
     Some v \<Rightarrow> v | None \<Rightarrow> if m = ''personal'' then ''auto'' else ''none'')"

subsection \<open>Levels\<close>

definition unit_level :: "f64 \<Rightarrow> f64 res" where
  "unit_level v = (if \<not> f64_finite v then Inl (error_invalid ''Level must be finite'')
     else Inr (f64_clamp (FFin False 0) (FFin False 1) v))"

definition command_level :: "f64 \<Rightarrow> f64 res" where
  "command_level v =
     (if \<not> f64_finite v \<or> \<not> f64_within (FFin False 0) (FFin False 1) v
      then Inl (error_invalid ''Level must be finite and in 0..1'') else Inr v)"

text \<open>\<open>cent\<close> is the double nearest to \<open>0.01\<close>.\<close>

definition cent :: f64 where
  "cent = f64_of_rat (1 / 100)"

definition send_level :: "f64 \<Rightarrow> f64 res" where
  "send_level v = rbind (command_level v) (\<lambda>v. Inr (if f64_lt v cent then FFin False 0 else v))"

definition numeric_level_error :: operation_error where
  "numeric_level_error = error_invalid ''Invalid numeric level''"

definition legacy_number :: "json \<Rightarrow> f64 res" where
  "legacy_number v = (case v of
       JNumber n \<Rightarrow> unit_level (number_as_f64 n)
     | JBool b \<Rightarrow> Inr (if b then FFin False 1 else FFin False 0)
     | JString s \<Rightarrow> rbind (ok_or numeric_level_error (parse_f64 (trim s))) unit_level
     | _ \<Rightarrow> Inl numeric_level_error)"

subsection \<open>Taking fields out of an object\<close>

definition json_object :: "json \<Rightarrow> string \<Rightarrow> jmap res" where
  "json_object v label = (case v of JObject m \<Rightarrow> Inr m
     | _ \<Rightarrow> Inl (error_invalid (label @ '' must be an object'')))"

definition take_string :: "jmap \<Rightarrow> string \<Rightarrow> string \<Rightarrow> (string \<times> jmap) res" where
  "take_string m key dflt = (case im_get m key of
       None \<Rightarrow> Inr (dflt, im_swap_remove m key)
     | Some (JString v) \<Rightarrow> Inr (v, im_swap_remove m key)
     | _ \<Rightarrow> Inl (error_invalid (key @ '' must be a string'')))"

definition take_bool :: "jmap \<Rightarrow> string \<Rightarrow> bool \<Rightarrow> (bool \<times> jmap) res" where
  "take_bool m key dflt = (case im_get m key of
       None \<Rightarrow> Inr (dflt, im_swap_remove m key)
     | Some (JBool v) \<Rightarrow> Inr (v, im_swap_remove m key)
     | _ \<Rightarrow> Inl (error_invalid (key @ '' must be boolean'')))"

text \<open>\<^verbatim>\<open>serde_json::from_value::<Vec<String>>\<close>\<close>

definition json_strings :: "(json \<Rightarrow> string) \<Rightarrow> json \<Rightarrow> string list res" where
  "json_strings serde v = ok_or (error_invalid (serde v))
     (Option.bind (as_array v) (\<lambda>vs. if list_all (\<lambda>w. as_str w \<noteq> None) vs
        then Some (map (\<lambda>w. the (as_str w)) vs) else None))"

definition decode_level :: "json \<Rightarrow> f64 \<Rightarrow> bool \<Rightarrow> level_state res" where
  "decode_level v dflt required =
     rbind (json_object v ''level'') (\<lambda>extra.
     rbind (case im_get extra ''volume'' of
          Some w \<Rightarrow> legacy_number w
        | None \<Rightarrow> (if required then Inl (error_invalid ''Master requires volume'') else Inr dflt)) (\<lambda>volume.
     rbind (take_bool (im_swap_remove extra ''volume'') ''muted'' False) (\<lambda>(muted, extra).
       Inr \<lparr>lv_volume = volume, lv_muted = muted, lv_extra = extra\<rparr>)))"

definition parse_cell_key :: "string \<Rightarrow> (source_id \<times> mix_id) res" where
  "parse_cell_key key =
     rbind (ok_or (error_invalid ''Cell requires source.mix identity'') (split_once (CHR ''.'') key)) (\<lambda>(s, m).
     rbind (stable_id_new s) (\<lambda>s. rbind (stable_id_new m) (\<lambda>m. Inr (s, m))))"

subsection \<open>The matrix\<close>

definition output_error :: operation_error where
  "output_error = error_invalid ''Output must be a nonempty sink name, auto or none''"

definition decode_output :: "matrix_state \<Rightarrow> string \<times> json \<Rightarrow> matrix_state res" where
  "decode_output st e = (case e of (k, v) \<Rightarrow>
     rbind (stable_id_new k) (\<lambda>i.
     rbind (ok_or output_error (case as_str v of None \<Rightarrow> None | Some s \<Rightarrow> if s \<noteq> [] then Some s else None)) (\<lambda>s.
       Inr (st\<lparr>ms_outputs := im_insert (ms_outputs st) i s\<rparr>))))"

definition decode_volume :: "matrix_state \<Rightarrow> string \<times> json \<Rightarrow> matrix_state res" where
  "decode_volume st e = (case e of (k, v) \<Rightarrow>
     rbind (stable_id_new k) (\<lambda>i.
     rbind (decode_level v (FFin False 1) True) (\<lambda>l.
       Inr (st\<lparr>ms_volumes := im_insert (ms_volumes st) i l\<rparr>))))"

definition decode_cell :: "matrix_state \<Rightarrow> string \<times> json \<Rightarrow> matrix_state res" where
  "decode_cell st e = (case e of (k, v) \<Rightarrow>
     if has_char (CHR ''.'') k then
       rbind (parse_cell_key k) (\<lambda>_.
       rbind (decode_level v (FFin False 0) False) (\<lambda>l.
         Inr (st\<lparr>ms_cells := im_insert (ms_cells st) k l\<rparr>)))
     else Inr (st\<lparr>ms_extra := im_insert (ms_extra st) k v\<rparr>))"

definition jget_object :: "jmap \<Rightarrow> string \<Rightarrow> json" where
  "jget_object m k = (case im_get m k of None \<Rightarrow> JObject [] | Some v \<Rightarrow> v)"

definition legacy_output :: "jmap \<Rightarrow> jmap \<Rightarrow> jmap" where
  "legacy_output obj outputs = (case im_get obj ''output'' of
       Some (JString legacy) \<Rightarrow>
         (if im_contains outputs ''personal'' then outputs
          else im_insert outputs ''personal'' (JString legacy))
     | _ \<Rightarrow> outputs)"

definition matrix_from_value :: "json \<Rightarrow> matrix_state res" where
  "matrix_from_value v =
     rbind (json_object v ''matrix'') (\<lambda>obj.
     rbind (json_object (jget_object obj ''outputs'') ''outputs'') (\<lambda>outputs.
       let obj = im_swap_remove obj ''outputs'';
           outputs = legacy_output obj outputs;
           obj = im_swap_remove obj ''output'';
           volumes = jget_object obj ''volumes'';
           obj = im_swap_remove obj ''volumes''
       in rbind (res_foldM decode_output matrix_default outputs) (\<lambda>st.
          rbind (json_object volumes ''volumes'') (\<lambda>volumes.
          rbind (res_foldM decode_volume st volumes) (\<lambda>st.
            res_foldM decode_cell st obj)))))"

text \<open>Serializing a record with \<^verbatim>\<open>flatten\<close>: its fields, then the entries of \<open>extra\<close>.\<close>

definition level_to_value :: "level_state \<Rightarrow> json" where
  "level_to_value l = JObject (im_collect
     ([(''volume'', json_f64 (lv_volume l)), (''muted'', JBool (lv_muted l))] @ lv_extra l))"

definition matrix_to_value :: "matrix_state \<Rightarrow> json" where
  "matrix_to_value st =
     (let value = foldl (\<lambda>m (k, c). im_insert m k (level_to_value c)) (ms_extra st) (ms_cells st);
          value = im_insert value ''outputs'' (JObject (map (\<lambda>(k, s). (k, JString s)) (ms_outputs st)));
          value = im_insert value ''volumes'' (JObject (map (\<lambda>(k, l). (k, level_to_value l)) (ms_volumes st)))
      in JObject value)"

subsection \<open>Sources and mixes on disk\<close>

fun bindings_from :: "string list \<Rightarrow> string list \<Rightarrow> string list" where
  "bindings_from seen [] = []"
| "bindings_from seen (v # vs) = (let v = trim v in
     if v = [] \<or> v \<in> set seen then bindings_from seen vs else v # bindings_from (v # seen) vs)"

definition normalize_bindings :: "string list \<Rightarrow> string list" where
  "normalize_bindings names = bindings_from [] names"

definition decode_kind :: "string \<Rightarrow> source_kind res" where
  "decode_kind s = (if s = ''app'' then Inr App else if s = ''device'' then Inr Device
     else Inl (error_invalid ''Unknown source kind''))"

text \<open>\<^verbatim>\<open>match_app_names\<close>, or the one \<^verbatim>\<open>match_app_name\<close> of an older document.\<close>

definition decode_bindings :: "(json \<Rightarrow> string) \<Rightarrow> json option \<Rightarrow> json option \<Rightarrow> string list res" where
  "decode_bindings serde names legacy =
     (if names = None \<or> names = Some JNull then
        (case legacy of
           None \<Rightarrow> Inr [[]]
         | Some (JString v) \<Rightarrow> Inr [v]
         | _ \<Rightarrow> Inl (error_invalid ''Legacy binding must be a string''))
      else json_strings serde (the names))"

definition take_opt :: "(json \<Rightarrow> 'a res) \<Rightarrow> jmap \<Rightarrow> string \<Rightarrow> ('a option \<times> jmap) res" where
  "take_opt f m key = (case im_get m key of
       None \<Rightarrow> Inr (None, im_swap_remove m key)
     | Some v \<Rightarrow> rbind (f v) (\<lambda>x. Inr (Some x, im_swap_remove m key)))"

text \<open>One source of the document, before the rule of the groups.\<close>

definition decode_source :: "(json \<Rightarrow> string) \<Rightarrow> string \<Rightarrow> json \<Rightarrow> source res" where
  "decode_source serde key v =
     rbind (stable_id_new key) (\<lambda>i.
     rbind (json_object v ''source'') (\<lambda>extra.
     rbind (take_string extra ''id'' i) (\<lambda>(i', extra).
     rbind (ensure (i' = i) (error_invalid ''Source identity mismatch'')) (\<lambda>_.
     rbind (take_string extra ''kind'' ''app'') (\<lambda>(k, extra).
     rbind (decode_kind k) (\<lambda>kind.
     let legacy = im_get extra ''match_app_name''; extra = im_swap_remove extra ''match_app_name'';
         names = im_get extra ''match_app_names''; extra = im_swap_remove extra ''match_app_names''
     in
     rbind (decode_bindings serde names legacy) (\<lambda>bindings.
     rbind (take_string extra ''name'' i) (\<lambda>(name, extra).
     rbind (take_string extra ''icon_name'' (source_icon kind)) (\<lambda>(icon_name, extra).
     rbind (take_string extra ''node_name'' []) (\<lambda>(node_name, extra).
     rbind (take_string extra ''group'' []) (\<lambda>(group, extra).
     rbind (take_opt legacy_number extra ''level'') (\<lambda>(level, extra).
     rbind (take_bool extra ''muted'' False) (\<lambda>(muted, extra).
     rbind (take_bool extra ''protected'' False) (\<lambda>(protected, extra).
     rbind (take_opt fx_from_value extra ''fx'') (\<lambda>(fx, extra).
       Inr \<lparr>src_id = i, src_kind = kind, src_name = name, src_icon_name = icon_name,
            match_app_names = normalize_bindings bindings, src_node_name = node_name,
            src_level = (case level of None \<Rightarrow> FFin False 1 | Some l \<Rightarrow> l), src_muted = muted,
            src_protected = protected, src_group = trim group, src_fx = fx, src_extra = extra\<rparr>)))))))))))))))"

definition source_step ::
  "(json \<Rightarrow> string) \<Rightarrow> sources \<times> string list \<Rightarrow> string \<times> json \<Rightarrow> (sources \<times> string list) res" where
  "source_step serde st e = (case (st, e) of ((srcs, open_groups), (key, v)) \<Rightarrow>
     rbind (decode_source serde key v) (\<lambda>s.
       let grouped = \<not> src_muted s \<and> src_group s \<noteq> [];
           taken = src_group s \<in> set open_groups;
           s' = (if grouped \<and> taken then s\<lparr>src_muted := True\<rparr> else s)
       in Inr (im_insert srcs (src_id s) s',
               if grouped then List.insert (src_group s) open_groups else open_groups)))"

definition normalize_sources :: "(json \<Rightarrow> string) \<Rightarrow> json \<Rightarrow> sources res" where
  "normalize_sources serde v =
     rbind (json_object v ''sources'') (\<lambda>obj.
     rbind (res_foldM (source_step serde) ([], []) obj) (\<lambda>(srcs, _). Inr srcs))"

definition reserved_sinks :: "string list" where
  "reserved_sinks = [''openwave_src_'', ''openwave_loop_'', ''openwave_capture_'']"

definition decode_mix :: "string \<Rightarrow> json \<Rightarrow> mix res" where
  "decode_mix key v =
     rbind (stable_id_new key) (\<lambda>i.
     rbind (json_object v ''mix'') (\<lambda>extra.
     rbind (take_string extra ''id'' i) (\<lambda>(i', extra).
     rbind (ensure (i' = i) (error_invalid ''Mix identity mismatch'')) (\<lambda>_.
     rbind (take_string extra ''name'' i) (\<lambda>(name, extra).
     rbind (take_string extra ''description'' (''OpenWave '' @ name)) (\<lambda>(description, extra).
     rbind (take_string extra ''subtitle'' []) (\<lambda>(subtitle, extra).
     rbind (take_string extra ''icon_name'' ''audio-speakers-symbolic'') (\<lambda>(icon_name, extra).
     rbind (take_string extra ''sink'' (''openwave_mix_'' @ i)) (\<lambda>(sink, extra).
     rbind (ok_or (error_invalid ''Invalid mix sink'') (strip_prefix ''openwave_'' sink)) (\<lambda>suffix.
     rbind (stable_id_new suffix) (\<lambda>_.
       Inr \<lparr>mix_id = i, mix_name = name, mix_description = description, mix_subtitle = subtitle,
            mix_icon_name = icon_name, mix_sink = sink, mix_extra = extra\<rparr>)))))))))))"

definition mix_step :: "mixes \<times> string list \<Rightarrow> string \<times> json \<Rightarrow> (mixes \<times> string list) res" where
  "mix_step st e = (case (st, e) of ((ms, sinks), (key, v)) \<Rightarrow>
     rbind (decode_mix key v) (\<lambda>m.
       if list_ex (\<lambda>p. starts_with p (mix_sink m)) reserved_sinks \<or> mix_sink m \<in> set sinks
       then Inl (error_invalid ''Reserved or duplicate mix sink'')
       else Inr (im_insert ms (mix_id m) m, mix_sink m # sinks)))"

definition normalize_mixes :: "json \<Rightarrow> mixes res" where
  "normalize_mixes v =
     rbind (json_object v ''mix definitions'') (\<lambda>obj.
     rbind (res_foldM mix_step ([], []) obj) (\<lambda>(ms, _). Inr ms))"

definition default_mix :: "string \<Rightarrow> string \<Rightarrow> string \<Rightarrow> string \<Rightarrow> mix_id \<times> mix" where
  "default_mix key name subtitle icon = (key,
     \<lparr>mix_id = key, mix_name = name, mix_description = ''OpenWave '' @ name, mix_subtitle = subtitle,
      mix_icon_name = icon, mix_sink = ''openwave_'' @ key @ ''_mix'', mix_extra = []\<rparr>)"

definition default_mixes :: mixes where
  "default_mixes = im_collect
     [default_mix ''personal'' ''Personal Mix'' ''What you hear'' ''audio-headphones-symbolic'',
      default_mix ''chat'' ''Chat Mix'' ''Send to voice apps'' ''system-users-symbolic'',
      default_mix ''record'' ''Record Mix'' ''Send to OBS or a recorder'' ''media-record-symbolic'']"

text \<open>The derived serializers.\<close>

definition source_to_value :: "source \<Rightarrow> json" where
  "source_to_value s = JObject (im_collect
     ([(''id'', JString (src_id s)), (''kind'', JString (kind_str (src_kind s))),
       (''name'', JString (src_name s)), (''icon_name'', JString (src_icon_name s)),
       (''match_app_names'', JArray (map JString (match_app_names s))),
       (''node_name'', JString (src_node_name s)), (''level'', json_f64 (src_level s)),
       (''muted'', JBool (src_muted s)), (''protected'', JBool (src_protected s)),
       (''group'', JString (src_group s))] @
      (case src_fx s of None \<Rightarrow> [] | Some fx \<Rightarrow> [(''fx'', fx_to_value fx)]) @ src_extra s))"

definition sources_to_value :: "sources \<Rightarrow> json" where
  "sources_to_value srcs = JObject (map (\<lambda>(k, s). (k, source_to_value s)) srcs)"

definition mix_to_value :: "mix \<Rightarrow> json" where
  "mix_to_value m = JObject (im_collect
     ([(''id'', JString (mix_id m)), (''name'', JString (mix_name m)),
       (''description'', JString (mix_description m)), (''subtitle'', JString (mix_subtitle m)),
       (''icon_name'', JString (mix_icon_name m)), (''sink'', JString (mix_sink m))] @ mix_extra m))"

definition mixes_to_value :: "mixes \<Rightarrow> json" where
  "mixes_to_value ms = JObject (map (\<lambda>(k, m). (k, mix_to_value m)) ms)"

subsection \<open>Preferences\<close>

record preferences =
  pf_width :: int
  pf_height :: int
  pf_maximized :: bool
  pf_offered :: "string list"
  pf_gain_locked :: bool
  pf_tray_icon_color :: string
  pf_extra :: jmap

definition preferences_default :: preferences where
  "preferences_default = \<lparr>pf_width = 1280, pf_height = 720, pf_maximized = False, pf_offered = [],
     pf_gain_locked = False, pf_tray_icon_color = ''white'', pf_extra = []\<rparr>"

definition decode_geometry :: "string \<Rightarrow> int \<Rightarrow> json \<Rightarrow> int res" where
  "decode_geometry key minimum v =
     rbind (ok_or (error_invalid (key @ '' must be an integer'')) (as_i64 v)) (\<lambda>i.
       if - (2 ^ 31) \<le> i \<and> i < 2 ^ 31 then Inr (max i minimum)
       else Inl (error_invalid ''Geometry is out of range''))"

definition preferences_from_value :: "(json \<Rightarrow> string) \<Rightarrow> json \<Rightarrow> preferences res" where
  "preferences_from_value serde v =
     rbind (json_object v ''preferences'') (\<lambda>m.
     rbind (take_opt (decode_geometry ''width'' 820) m ''width'') (\<lambda>(width, m).
     rbind (take_opt (decode_geometry ''height'' 480) m ''height'') (\<lambda>(height, m).
     rbind (take_bool m ''maximized'' False) (\<lambda>(maximized, m).
     rbind (take_bool m ''gain_locked'' False) (\<lambda>(gain_locked, m).
     rbind (take_string m ''tray_icon_color'' ''white'') (\<lambda>(color, m).
     rbind (ensure (color \<in> {''white'', ''black''}) (error_invalid ''Tray icon color must be white or black'')) (\<lambda>_.
     rbind (take_opt (json_strings serde) m ''offered_capture_nodes'') (\<lambda>(offered, m).
       Inr \<lparr>pf_width = (case width of None \<Rightarrow> pf_width preferences_default | Some w \<Rightarrow> w),
            pf_height = (case height of None \<Rightarrow> pf_height preferences_default | Some h \<Rightarrow> h),
            pf_maximized = maximized,
            pf_offered = (case offered of None \<Rightarrow> pf_offered preferences_default | Some ns \<Rightarrow> ns),
            pf_gain_locked = gain_locked, pf_tray_icon_color = color, pf_extra = m\<rparr>))))))))"

definition json_i32 :: "int \<Rightarrow> json" where
  "json_i32 i = JNumber (if 0 \<le> i then PosInt (word_of_int i) else NegInt i)"

definition preferences_to_value :: "preferences \<Rightarrow> json" where
  "preferences_to_value p = JObject (im_collect
     ([(''width'', json_i32 (pf_width p)), (''height'', json_i32 (pf_height p)),
       (''maximized'', JBool (pf_maximized p)),
       (''offered_capture_nodes'', JArray (map JString (pf_offered p))),
       (''gain_locked'', JBool (pf_gain_locked p)),
       (''tray_icon_color'', JString (pf_tray_icon_color p))] @ pf_extra p))"

subsection \<open>Taking fields\<close>

lemma take_string_Inr_iff:
  "take_string m key d = Inr r \<longleftrightarrow>
     snd r = im_swap_remove m key \<and> (case im_get m key of None \<Rightarrow> fst r = d | Some v \<Rightarrow> v = JString (fst r))"
  by (cases r) (auto simp: take_string_def split: option.splits json.splits)

lemma take_bool_Inr_iff:
  "take_bool m key d = Inr r \<longleftrightarrow>
     snd r = im_swap_remove m key \<and> (case im_get m key of None \<Rightarrow> fst r = d | Some v \<Rightarrow> v = JBool (fst r))"
  by (cases r) (auto simp: take_bool_def split: option.splits json.splits)

lemma take_opt_Inr_iff:
  "take_opt f m key = Inr r \<longleftrightarrow> snd r = im_swap_remove m key \<and>
     (case im_get m key of None \<Rightarrow> fst r = None | Some v \<Rightarrow> \<exists>x. f v = Inr x \<and> fst r = Some x)"
  by (cases r) (auto simp: take_opt_def res_simps split: option.splits)

lemma take_string_snd: "take_string m key d = Inr (r, m') \<Longrightarrow> m' = im_swap_remove m key"
  by (simp add: take_string_Inr_iff)

lemma take_bool_snd: "take_bool m key d = Inr (r, m') \<Longrightarrow> m' = im_swap_remove m key"
  by (simp add: take_bool_Inr_iff)

lemma take_opt_snd:
  "take_opt f m key = Inr (r, m') \<Longrightarrow> m' = im_swap_remove m key \<and> pred_option (\<lambda>x. \<exists>v. f v = Inr x) r"
  by (auto simp: take_opt_Inr_iff split: option.splits)

lemma json_object_Inr_iff: "json_object v label = Inr m \<longleftrightarrow> v = JObject m"
  by (cases v) (auto simp: json_object_def)

lemma stable_id_new_Inr_iff: "stable_id_new s = Inr t \<longleftrightarrow> id_ok s \<and> t = s"
  by (auto simp: stable_id_new_def id_ok_def)

lemma unit_level_Inr_iff:
  "unit_level v = Inr w \<longleftrightarrow> f64_finite v \<and> w = f64_clamp (FFin False 0) (FFin False 1) v"
  by (auto simp: unit_level_def)

definition level_ok :: "f64 \<Rightarrow> bool" where
  "level_ok x \<longleftrightarrow> f64_within (FFin False 0) (FFin False 1) x"

lemma level_ok_finite: "level_ok x \<Longrightarrow> f64_finite x"
  using f64_within_finite [of "FFin False 0" "FFin False 1" x] by (simp add: level_ok_def)

lemma unit_level_ok: "unit_level v = Inr w \<Longrightarrow> level_ok w"
  by (auto simp: unit_level_Inr_iff level_ok_def f64_clamp_within f64_finite_nan)

lemma unit_level_id: "level_ok v \<Longrightarrow> unit_level v = Inr v"
  using level_ok_finite [of v]
  by (auto simp: unit_level_Inr_iff level_ok_def f64_clamp_id f64_finite_nan)

lemma level_ok_bounds: "level_ok (FFin False 0)" "level_ok (FFin False 1)"
  by (simp_all add: level_ok_def f64_within_def f64_le_def)

lemma legacy_number_ok: "legacy_number v = Inr w \<Longrightarrow> level_ok w"
  by (auto simp: legacy_number_def unit_level_ok res_simps level_ok_bounds split: json.splits if_splits)

lemma legacy_number_json [simp]: "level_ok x \<Longrightarrow> legacy_number (json_f64 x) = Inr x"
  using level_ok_finite [of x] by (simp add: json_f64_def legacy_number_def unit_level_id)

lemma send_level_ok: "send_level v = Inr w \<Longrightarrow> level_ok w"
  by (auto simp: send_level_def command_level_def level_ok_def res_simps level_ok_bounds [unfolded level_ok_def]
      split: if_splits)

subsection \<open>Bindings\<close>

lemma bindings_from_ok:
  "distinct (bindings_from seen vs) \<and> set (bindings_from seen vs) \<inter> set seen = {} \<and>
   list_all (\<lambda>v. v \<noteq> [] \<and> trim v = v) (bindings_from seen vs)"
  by (induction seen vs rule: bindings_from.induct) (auto simp: Let_def)

lemma bindings_from_id:
  "distinct vs \<Longrightarrow> set vs \<inter> set seen = {} \<Longrightarrow> list_all (\<lambda>v. v \<noteq> [] \<and> trim v = v) vs \<Longrightarrow>
   bindings_from seen vs = vs"
  by (induction vs arbitrary: seen) (auto simp: Let_def)

definition bindings_ok :: "string list \<Rightarrow> bool" where
  "bindings_ok vs \<longleftrightarrow> distinct vs \<and> list_all (\<lambda>v. v \<noteq> [] \<and> trim v = v) vs"

lemma normalize_bindings_ok: "bindings_ok (normalize_bindings vs)"
  using bindings_from_ok [of "[]" vs] by (simp add: normalize_bindings_def bindings_ok_def)

lemma normalize_bindings_id: "bindings_ok vs \<Longrightarrow> normalize_bindings vs = vs"
  by (simp add: normalize_bindings_def bindings_ok_def bindings_from_id)

lemma set_normalize_bindings: "set (normalize_bindings vs) = trim ` set vs - {[]}"
proof -
  have "set (bindings_from seen vs) = trim ` set vs - {[]} - set seen" for seen
    by (induction seen vs rule: bindings_from.induct) (auto simp: Let_def)
  from this [of "[]"] show ?thesis by (simp add: normalize_bindings_def)
qed

lemma json_strings_map [simp]: "json_strings serde (JArray (map JString vs)) = Inr vs"
  by (simp add: json_strings_def list_all_iff comp_def)

subsection \<open>Decoding one source\<close>

definition SOURCE_KEYS :: "string list" where
  "SOURCE_KEYS = [''id'', ''kind'', ''match_app_name'', ''match_app_names'', ''name'', ''icon_name'',
     ''node_name'', ''group'', ''level'', ''muted'', ''protected'', ''fx'']"

definition source_ok :: "source \<Rightarrow> bool" where
  "source_ok s \<longleftrightarrow> id_ok (src_id s) \<and> bindings_ok (match_app_names s) \<and> level_ok (src_level s) \<and>
     trim (src_group s) = src_group s \<and> pred_option fx_ok (src_fx s) \<and>
     im_wf (src_extra s) \<and> list_all (\<lambda>k. k \<notin> set SOURCE_KEYS) (map fst (src_extra s))"

lemma decode_source_ok:
  assumes "decode_source serde key v = Inr s" and "json_wf v"
  shows "source_ok s \<and> src_id s = key \<and>
    (\<exists>obj. v = JObject obj \<and> src_extra s = foldl im_swap_remove obj SOURCE_KEYS)"
proof -
  obtain obj where v: "v = JObject obj"
    using assms(1) by (auto simp: decode_source_def rbind_Inr_iff json_object_Inr_iff)
  then have wf: "im_wf obj" using assms(2) by simp
  have ex: "src_extra s = foldl im_swap_remove obj SOURCE_KEYS"
    and i: "src_id s = key \<and> id_ok key"
    and b: "bindings_ok (match_app_names s)" and g: "trim (src_group s) = src_group s"
    and l: "level_ok (src_level s)" and fx: "pred_option fx_ok (src_fx s)"
    using assms(1) unfolding v SOURCE_KEYS_def foldl.simps
    by (auto simp: decode_source_def rbind_Inr_iff json_object_Inr_iff stable_id_new_Inr_iff
        Let_def normalize_bindings_ok pred_option_def
        level_ok_bounds legacy_number_ok fx_from_value_ok split: prod.splits option.split
        dest!: take_string_snd take_bool_snd take_opt_snd)
  have "im_wf (foldl im_swap_remove obj SOURCE_KEYS)" by (rule swap.wf_del_all [OF wf])
  moreover have "k \<notin> set SOURCE_KEYS" if "k \<in> set (map fst (foldl im_swap_remove obj SOURCE_KEYS))" for k
  proof -
    have "im_get (foldl im_swap_remove obj SOURCE_KEYS) k \<noteq> None" using that by (metis map_of_eq_None_iff set_map)
    then show ?thesis using swap.get_del_all [OF wf, of SOURCE_KEYS k] by auto
  qed
  ultimately show ?thesis using ex i b g l fx v by (simp add: source_ok_def list_all_iff)
qed

text \<open>Reading back what the serializer wrote.\<close>

lemma source_value_wf:
  assumes "source_ok s"
  shows "im_wf ([(''id'', JString (src_id s)), (''kind'', JString (kind_str (src_kind s))),
       (''name'', JString (src_name s)), (''icon_name'', JString (src_icon_name s)),
       (''match_app_names'', JArray (map JString (match_app_names s))),
       (''node_name'', JString (src_node_name s)), (''level'', json_f64 (src_level s)),
       (''muted'', JBool (src_muted s)), (''protected'', JBool (src_protected s)),
       (''group'', JString (src_group s))] @
      (case src_fx s of None \<Rightarrow> [] | Some fx \<Rightarrow> [(''fx'', fx_to_value fx)]) @ src_extra s)"
proof -
  have "k \<notin> set (map fst (src_extra s))" if "k \<in> set SOURCE_KEYS" for k
    using assms that by (auto simp: source_ok_def list_all_iff)
  from this [of "''id''"] this [of "''kind''"] this [of "''name''"] this [of "''icon_name''"]
    this [of "''match_app_names''"] this [of "''node_name''"] this [of "''level''"] this [of "''muted''"]
    this [of "''protected''"] this [of "''group''"] this [of "''fx''"]
  show ?thesis using assms
    by (auto simp: SOURCE_KEYS_def source_ok_def im_wf_def split: option.splits)
qed

definition source_eqv :: "source \<Rightarrow> source \<Rightarrow> bool" where
  "source_eqv s t \<longleftrightarrow> mset (src_extra t) = mset (src_extra s) \<and> t\<lparr>src_extra := []\<rparr> = s\<lparr>src_extra := []\<rparr>"

lemma decode_source_to_value:
  assumes "source_ok s"
  shows "\<exists>t. decode_source serde (src_id s) (source_to_value s) = Inr t \<and> source_eqv s t"
proof -
  let ?fields = "[(''id'', JString (src_id s)), (''kind'', JString (kind_str (src_kind s))),
       (''name'', JString (src_name s)), (''icon_name'', JString (src_icon_name s)),
       (''match_app_names'', JArray (map JString (match_app_names s))),
       (''node_name'', JString (src_node_name s)), (''level'', json_f64 (src_level s)),
       (''muted'', JBool (src_muted s)), (''protected'', JBool (src_protected s)),
       (''group'', JString (src_group s))] @
      (case src_fx s of None \<Rightarrow> [] | Some fx \<Rightarrow> [(''fx'', fx_to_value fx)])"
  define obj where "obj = ?fields @ src_extra s"
  have wf: "im_wf obj" using source_value_wf [OF assms] by (simp add: obj_def)
  have val: "source_to_value s = JObject obj"
    unfolding source_to_value_def using im_collect_distinct [OF wf] by (simp add: obj_def)
  have absent: "im_get (src_extra s) k = None" if "k \<in> set SOURCE_KEYS" for k
    using assms that by (auto simp: source_ok_def list_all_iff map_of_eq_None_iff)
  have get: "im_get obj ''id'' = Some (JString (src_id s))"
    "im_get obj ''kind'' = Some (JString (kind_str (src_kind s)))"
    "im_get obj ''match_app_name'' = None"
    "im_get obj ''match_app_names'' = Some (JArray (map JString (match_app_names s)))"
    "im_get obj ''name'' = Some (JString (src_name s))"
    "im_get obj ''icon_name'' = Some (JString (src_icon_name s))"
    "im_get obj ''node_name'' = Some (JString (src_node_name s))"
    "im_get obj ''group'' = Some (JString (src_group s))"
    "im_get obj ''level'' = Some (json_f64 (src_level s))"
    "im_get obj ''muted'' = Some (JBool (src_muted s))"
    "im_get obj ''protected'' = Some (JBool (src_protected s))"
    "im_get obj ''fx'' = map_option fx_to_value (src_fx s)"
    using absent [of "''fx''"] absent [of "''match_app_name''"]
    by (simp_all add: obj_def SOURCE_KEYS_def split: option.splits)
  have fx: "src_fx s = Some f \<Longrightarrow> fx_from_value (fx_to_value f) = Inr f" for f
    using assms fx_decode_encode [of f] by (simp add: source_ok_def)
  have kind: "decode_kind (kind_str k) = Inr k" for k by (cases k) (simp_all add: kind_str_def decode_kind_def)
  have "decode_source serde (src_id s) (source_to_value s) = Inr (s\<lparr>src_extra := foldl im_swap_remove obj SOURCE_KEYS\<rparr>)"
  proof -
    have i: "stable_id_new (src_id s) = Inr (src_id s)" using assms by (simp add: source_ok_def stable_id_new_Inr_iff)
    have b: "normalize_bindings (match_app_names s) = match_app_names s"
      using assms by (simp add: source_ok_def normalize_bindings_id)
    have l: "legacy_number (json_f64 (src_level s)) = Inr (src_level s)" using assms by (simp add: source_ok_def)
    have g: "trim (src_group s) = src_group s" using assms by (simp add: source_ok_def)
    have n: "decode_bindings serde (Some (JArray (map JString ns))) None = Inr ns" for ns
      by (simp add: decode_bindings_def)
    note base = get wf Let_def kind n b l g fx prod.case
    show ?thesis
      unfolding val decode_source_def i json_object_def json.case rbind_simps SOURCE_KEYS_def foldl.simps
      apply (simp add: take_string_def get wf cong: rbind_weak_cong)
      apply (simp add: ensure_def take_string_def kind get wf Let_def n cong: rbind_weak_cong)
      apply (simp add: take_bool_def take_opt_def get wf l cong: rbind_weak_cong)
      apply (cases "src_fx s")
       apply (simp_all add: fx)
       apply (rule source.equality; simp add: b g)+
      done
  qed
  moreover have "mset (foldl im_swap_remove obj SOURCE_KEYS) = mset (src_extra s)"
  proof -
    have "list_all (\<lambda>e. fst e \<in> set SOURCE_KEYS) ?fields"
      by (cases "src_fx s") (simp_all add: SOURCE_KEYS_def)
    then have "filter (\<lambda>e. fst e \<notin> set SOURCE_KEYS) ?fields = []"
      by (auto simp only: list_all_iff filter_empty_conv)
    moreover have "filter (\<lambda>e. fst e \<notin> set SOURCE_KEYS) (src_extra s) = src_extra s"
      using assms by (simp add: source_ok_def list_all_iff filter_id_conv)
    ultimately have "filter (\<lambda>e. fst e \<notin> set SOURCE_KEYS) obj = src_extra s"
      by (simp only: obj_def filter_append append_Nil)
    then show ?thesis using mset_swap_remove_all [OF wf, of SOURCE_KEYS] by simp
  qed
  ultimately show ?thesis by (auto simp: source_eqv_def)
qed
subsection \<open>All sources: at most one open member per group\<close>

definition grouped_open :: "source \<Rightarrow> bool" where
  "grouped_open s \<longleftrightarrow> \<not> src_muted s \<and> src_group s \<noteq> []"

definition open_groups :: "sources \<Rightarrow> string list" where
  "open_groups srcs = map (\<lambda>e. src_group (snd e)) (filter (\<lambda>e. grouped_open (snd e)) srcs)"

definition sources_ok :: "sources \<Rightarrow> bool" where
  "sources_ok srcs \<longleftrightarrow> im_wf srcs \<and> list_all (\<lambda>(k, s). k = src_id s \<and> source_ok s) srcs \<and>
     distinct (open_groups srcs)"

text \<open>The group rule mutes a source or leaves it as decoded.\<close>

definition closed_as :: "source \<Rightarrow> source \<Rightarrow> bool" where
  "closed_as s0 s \<longleftrightarrow> (src_muted s0 \<longrightarrow> src_muted s) \<and> s\<lparr>src_muted := src_muted s0\<rparr> = s0"

lemma open_groups_append [simp]: "open_groups (xs @ ys) = open_groups xs @ open_groups ys"
  by (simp add: open_groups_def)

lemma source_step_Inr:
  assumes "source_step serde (srcs, og) (k, v) = Inr (srcs', og')" and "json_wf v"
    and "k \<notin> set (map fst srcs)" and "sources_ok srcs" and "set og = set (open_groups srcs)"
  shows "\<exists>s0 s. decode_source serde k v = Inr s0 \<and> closed_as s0 s \<and> srcs' = srcs @ [(k, s)] \<and>
    sources_ok srcs' \<and> set og' = set (open_groups srcs')"
proof -
  obtain s0 where s0: "decode_source serde k v = Inr s0"
    using assms(1) by (auto simp: source_step_def res_simps)
  have ok: "source_ok s0" "src_id s0 = k" using decode_source_ok [OF s0 assms(2)] by auto
  have ok': "source_ok (s0\<lparr>src_muted := b\<rparr>)" for b using ok by (simp add: source_ok_def)
  define s where "s = (if grouped_open s0 \<and> src_group s0 \<in> set og then s0\<lparr>src_muted := True\<rparr> else s0)"
  have new: "srcs' = srcs @ [(k, s)]"
    and og': "og' = (if grouped_open s0 then List.insert (src_group s0) og else og)"
    using assms(1,3) ok by (auto simp: source_step_def s0 Let_def s_def grouped_open_def im_insert_fresh)
  have "closed_as s0 s" by (simp add: s_def closed_as_def)
  moreover have "sources_ok srcs'"
    using assms(3-5) ok ok' unfolding new
    by (auto simp: sources_ok_def im_wf_def open_groups_def grouped_open_def s_def)
  moreover have "set og' = set (open_groups srcs')"
    using assms(5) unfolding new og'
    by (auto simp: open_groups_def grouped_open_def s_def)
  ultimately show ?thesis using s0 new by blast
qed

lemma source_fold:
  assumes "res_foldM (source_step serde) (srcs, og) es = Inr (srcs', og')"
    and "list_all (\<lambda>e. json_wf (snd e)) es" and "distinct (map fst srcs @ map fst es)"
    and "sources_ok srcs" and "set og = set (open_groups srcs)"
  shows "sources_ok srcs' \<and> (\<exists>zs. srcs' = srcs @ zs \<and>
    list_all2 (\<lambda>(k, v) (k', s). k' = k \<and> (\<exists>s0. decode_source serde k v = Inr s0 \<and> closed_as s0 s)) es zs)"
  using assms
proof (induction es arbitrary: srcs og)
  case Nil
  then show ?case by simp
next
  case (Cons e es)
  obtain k v where e: "e = (k, v)" by (cases e)
  obtain t ot where step: "source_step serde (srcs, og) (k, v) = Inr (t, ot)"
    and rest: "res_foldM (source_step serde) (t, ot) es = Inr (srcs', og')"
    using Cons.prems(1) e by (auto simp: res_simps)
  obtain s0 s where s: "decode_source serde k v = Inr s0" "closed_as s0 s" "t = srcs @ [(k, s)]"
    "sources_ok t" "set ot = set (open_groups t)"
    using source_step_Inr [OF step] Cons.prems e by auto
  have "distinct (map fst t @ map fst es)" using Cons.prems(3) e s(3) by auto
  then have "sources_ok srcs' \<and> (\<exists>zs. srcs' = t @ zs \<and>
      list_all2 (\<lambda>(k, v) (k', s). k' = k \<and> (\<exists>s0. decode_source serde k v = Inr s0 \<and> closed_as s0 s)) es zs)"
    using Cons.IH [OF rest _ _ s(4,5)] Cons.prems(2) by simp
  then show ?case using s e by auto
qed

lemma source_fold_value:
  assumes "sources_ok (srcs @ zs)" and "list_all2 (\<lambda>e e'. fst e = fst e' \<and> source_eqv (snd e) (snd e')) srcs srcs'"
    and "set og = set (open_groups srcs)"
  shows "\<exists>zs' og'. res_foldM (source_step serde) (srcs', og) (map (\<lambda>(k, s). (k, source_to_value s)) zs) = Inr (srcs' @ zs', og') \<and>
    list_all2 (\<lambda>e e'. fst e = fst e' \<and> source_eqv (snd e) (snd e')) zs zs'"
  using assms
proof (induction zs arbitrary: srcs srcs' og)
  case Nil
  then show ?case by simp
next
  case (Cons z zs)
  obtain s where z: "z = (src_id s, s)" and ok: "source_ok s"
    using Cons.prems(1) by (cases z) (auto simp: sources_ok_def)
  obtain t where t: "decode_source serde (src_id s) (source_to_value s) = Inr t" "source_eqv s t"
    using decode_source_to_value [OF ok] by blast
  have tf: "src_id t = src_id s" "src_muted t = src_muted s" "src_group t = src_group s"
    using t(2) by (auto simp: source_eqv_def dest: arg_cong [of _ _ src_id] arg_cong [of _ _ src_muted] arg_cong [of _ _ src_group])
  have keys: "map fst srcs' = map fst srcs"
    using Cons.prems(2) by (induction rule: list_all2_induct) auto
  have fresh: "src_id s \<notin> set (map fst srcs')"
    using Cons.prems(1) z unfolding keys by (auto simp: sources_ok_def im_wf_def)
  have free: "grouped_open s \<Longrightarrow> src_group s \<notin> set og"
    using Cons.prems(1,3) z by (auto simp: sources_ok_def open_groups_def)
  define og2 where "og2 = (if grouped_open s then List.insert (src_group s) og else og)"
  have step: "source_step serde (srcs', og) (src_id s, source_to_value s) = Inr (srcs' @ [(src_id s, t)], og2)"
    using free fresh by (auto simp: source_step_def t(1) tf Let_def grouped_open_def og2_def im_insert_fresh)
  have "sources_ok ((srcs @ [z]) @ zs)" using Cons.prems(1) by simp
  moreover have "list_all2 (\<lambda>e e'. fst e = fst e' \<and> source_eqv (snd e) (snd e')) (srcs @ [z]) (srcs' @ [(src_id s, t)])"
    using Cons.prems(2) t(2) z by (simp add: list_all2_appendI)
  moreover have "set og2 = set (open_groups (srcs @ [z]))"
    using Cons.prems(3) z by (auto simp: og2_def open_groups_def)
  ultimately obtain zs' og' where rest: "res_foldM (source_step serde) (srcs' @ [(src_id s, t)], og2)
      (map (\<lambda>(k, s). (k, source_to_value s)) zs) = Inr ((srcs' @ [(src_id s, t)]) @ zs', og')"
    and rel: "list_all2 (\<lambda>e e'. fst e = fst e' \<and> source_eqv (snd e) (snd e')) zs zs'"
    using Cons.IH by blast
  then show ?case using step z t(2)
    by (intro exI [of _ "(src_id s, t) # zs'"] exI [of _ og']) simp
qed

lemma normalize_sources_ok:
  assumes "json_wf v" and "normalize_sources serde v = Inr srcs"
  shows "sources_ok srcs \<and> (\<exists>obj. v = JObject obj \<and>
    list_all2 (\<lambda>(k, v) (k', s). k' = k \<and> (\<exists>s0. decode_source serde k v = Inr s0 \<and> closed_as s0 s)) obj srcs)"
proof -
  obtain obj og where v: "v = JObject obj" and f: "res_foldM (source_step serde) ([], []) obj = Inr (srcs, og)"
    using assms(2) by (auto simp: normalize_sources_def res_simps json_object_Inr_iff)
  have "list_all (\<lambda>e. json_wf (snd e)) obj" "distinct (map fst [] @ map fst obj)"
    using assms(1) v by (simp_all add: im_wf_def)
  then show ?thesis
    using source_fold [OF f] v by (simp add: sources_ok_def open_groups_def)
qed

lemma sources_to_value_roundtrip:
  assumes "sources_ok srcs"
  shows "\<exists>srcs'. normalize_sources serde (sources_to_value srcs) = Inr srcs' \<and>
    list_all2 (\<lambda>e e'. fst e = fst e' \<and> source_eqv (snd e) (snd e')) srcs srcs'"
proof -
  have "set [] = set (open_groups [])" by (simp add: open_groups_def)
  then show ?thesis
    using source_fold_value [of "[]" srcs "[]" "[]" serde] assms
    by (auto simp: normalize_sources_def sources_to_value_def json_object_def)
qed

subsection \<open>Mixes: distinct, unreserved sinks\<close>

definition mix_sink_ok :: "string \<Rightarrow> bool" where
  "mix_sink_ok s \<longleftrightarrow> (\<exists>suffix. s = ''openwave_'' @ suffix \<and> id_ok suffix) \<and>
     list_all (\<lambda>p. \<not> starts_with p s) reserved_sinks"

definition mixes_ok :: "mixes \<Rightarrow> bool" where
  "mixes_ok ms \<longleftrightarrow> im_wf ms \<and> list_all (\<lambda>(k, m). k = mix_id m \<and> id_ok k \<and> mix_sink_ok (mix_sink m)) ms \<and>
     distinct (map (\<lambda>e. mix_sink (snd e)) ms)"

lemma decode_mix_ok:
  "decode_mix key v = Inr m \<Longrightarrow> mix_id m = key \<and> id_ok key \<and>
     (\<exists>suffix. mix_sink m = ''openwave_'' @ suffix \<and> id_ok suffix)"
  by (auto simp: decode_mix_def rbind_Inr_iff stable_id_new_Inr_iff strip_prefix_Some_iff ok_or_Inr_iff
      split: prod.splits)

lemma mix_fold:
  assumes "res_foldM mix_step (ms, sinks) es = Inr (ms', sinks')"
    and "distinct (map fst ms @ map fst es)" and "mixes_ok ms" and "set sinks = set (map (\<lambda>e. mix_sink (snd e)) ms)"
  shows "mixes_ok ms' \<and> map fst ms' = map fst ms @ map fst es"
  using assms
proof (induction es arbitrary: ms sinks)
  case Nil
  then show ?case by simp
next
  case (Cons e es)
  obtain k v where e: "e = (k, v)" by (cases e)
  obtain t ot where step: "mix_step (ms, sinks) (k, v) = Inr (t, ot)"
    and rest: "res_foldM mix_step (t, ot) es = Inr (ms', sinks')"
    using Cons.prems(1) e by (auto simp: res_simps)
  obtain m where m: "decode_mix k v = Inr m" using step by (auto simp: mix_step_def res_simps)
  note ok = decode_mix_ok [OF m]
  have "k \<notin> set (map fst ms)" using Cons.prems(2) e by auto
  then have t: "t = ms @ [(k, m)]" "ot = mix_sink m # sinks" and new: "mix_sink m \<notin> set sinks"
    and nr: "list_all (\<lambda>p. \<not> starts_with p (mix_sink m)) reserved_sinks"
    using step ok by (auto simp: mix_step_def m im_insert_fresh list_all_iff list_ex_iff split: if_splits)
  have "mixes_ok t"
    using Cons.prems(2-4) ok new nr unfolding t(1) e
    by (auto simp: mixes_ok_def im_wf_def mix_sink_ok_def)
  moreover have "set ot = set (map (\<lambda>e. mix_sink (snd e)) t)" using Cons.prems(4) t by auto
  moreover have "distinct (map fst t @ map fst es)" using Cons.prems(2) e t by auto
  ultimately show ?case using Cons.IH [OF rest] e t by simp
qed

lemma normalize_mixes_ok:
  assumes "json_wf v" and "normalize_mixes v = Inr ms"
  shows "mixes_ok ms"
proof -
  obtain obj sinks where v: "v = JObject obj" and f: "res_foldM mix_step ([], []) obj = Inr (ms, sinks)"
    using assms(2) by (auto simp: normalize_mixes_def res_simps json_object_Inr_iff)
  then show ?thesis using mix_fold [OF f] assms(1) by (simp add: mixes_ok_def im_wf_def)
qed

lemma default_mixes_ok: "mixes_ok default_mixes"
  by (simp add: mixes_ok_def default_mixes_def default_mix_def im_collect_def im_wf_def id_ok_def id_char_def
      ascii_lower_def ascii_digit_def mix_sink_ok_def reserved_sinks_def starts_with_def less_eq_char_def)

subsection \<open>The matrix\<close>

definition level_state_ok :: "level_state \<Rightarrow> bool" where
  "level_state_ok l \<longleftrightarrow> level_ok (lv_volume l) \<and> im_wf (lv_extra l) \<and>
     im_get (lv_extra l) ''volume'' = None \<and> im_get (lv_extra l) ''muted'' = None"

definition level_eqv :: "level_state \<Rightarrow> level_state \<Rightarrow> bool" where
  "level_eqv l l' \<longleftrightarrow> lv_volume l' = lv_volume l \<and> lv_muted l' = lv_muted l \<and> mset (lv_extra l') = mset (lv_extra l)"

lemma decode_level_ok:
  assumes "decode_level v d req = Inr l" and "json_wf v" and "level_ok d"
  shows "level_state_ok l"
proof -
  obtain m where v: "v = JObject m" using assms(1) by (auto simp: decode_level_def res_simps json_object_Inr_iff)
  then have wf: "im_wf m" using assms(2) by simp
  have "lv_extra l = im_swap_remove (im_swap_remove m ''volume'') ''muted''" and "level_ok (lv_volume l)"
    using assms(1,3) unfolding v
    by (auto simp: decode_level_def rbind_Inr_iff json_object_Inr_iff legacy_number_ok
        split: prod.splits option.splits if_splits dest!: take_bool_snd)
  then show ?thesis using wf by (simp add: level_state_ok_def)
qed

lemma decode_level_to_value:
  assumes "level_state_ok l"
  shows "\<exists>l'. decode_level (level_to_value l) d req = Inr l' \<and> level_eqv l l'"
proof -
  let ?m = "[(''volume'', json_f64 (lv_volume l)), (''muted'', JBool (lv_muted l))] @ lv_extra l"
  have wf: "im_wf ?m"
    using assms by (simp add: level_state_ok_def im_wf_def map_of_eq_None_iff)
  then have val: "level_to_value l = JObject ?m" unfolding level_to_value_def by (simp only: im_collect_distinct)
  let ?x = "im_swap_remove (im_swap_remove ?m ''volume'') ''muted''"
  have "decode_level (level_to_value l) d req =
      Inr \<lparr>lv_volume = lv_volume l, lv_muted = lv_muted l, lv_extra = ?x\<rparr>"
    using assms im_get_swap_remove [OF wf, of "''volume''" "''muted''"] unfolding val
    by (simp add: decode_level_def json_object_def level_state_ok_def take_bool_def del: append_Cons append_Nil)
  moreover have "mset ?x = mset (lv_extra l)"
  proof -
    have "filter (\<lambda>e. fst e \<noteq> ''volume'' \<and> fst e \<noteq> ''muted'') (lv_extra l) = lv_extra l"
      using assms by (auto simp: level_state_ok_def map_of_eq_None_iff filter_id_conv rev_image_eqI)
    then show ?thesis
      using mset_swap_remove_all [OF wf, of "[''volume'', ''muted'']"] by simp
  qed
  ultimately show ?thesis by (simp add: level_eqv_def)
qed

definition cell_key_ok :: "string \<Rightarrow> bool" where
  "cell_key_ok k \<longleftrightarrow> (\<exists>s m. id_ok s \<and> id_ok m \<and> k = cell_key s m)"

lemma id_ok_no_dot: "id_ok s \<Longrightarrow> CHR ''.'' \<notin> set s"
  by (auto simp: id_ok_def list_all_iff id_char_def ascii_lower_def ascii_digit_def less_eq_char_def)

lemma parse_cell_key_Inr_iff:
  "parse_cell_key k = Inr (s, m) \<longleftrightarrow> id_ok s \<and> id_ok m \<and> k = cell_key s m"
  by (auto simp: parse_cell_key_def res_simps stable_id_new_Inr_iff split_once_Some_iff cell_key_def
      dest: id_ok_no_dot)

lemma cell_key_inj:
  "id_ok s \<Longrightarrow> id_ok t \<Longrightarrow> cell_key s m = cell_key t n \<Longrightarrow> s = t \<and> m = n"
proof -
  assume ids: "id_ok s" "id_ok t" and eq: "cell_key s m = cell_key t n"
  have "split_once (CHR ''.'') (cell_key s m) = Some (s, m)" "split_once (CHR ''.'') (cell_key t n) = Some (t, n)"
    using id_ok_no_dot [OF ids(1)] id_ok_no_dot [OF ids(2)] by (simp_all add: cell_key_def split_once_append)
  then have "Some (s, m) = Some (t, n)" unfolding eq by (rule trans [OF sym])
  then show "s = t \<and> m = n" by simp
qed

lemma cell_key_ok_dot: "cell_key_ok k \<Longrightarrow> has_char (CHR ''.'') k"
  by (auto simp: cell_key_ok_def cell_key_def has_char_def)

definition matrix_ok :: "matrix_state \<Rightarrow> bool" where
  "matrix_ok st \<longleftrightarrow> im_wf (ms_cells st) \<and> im_wf (ms_outputs st) \<and> im_wf (ms_volumes st) \<and> im_wf (ms_extra st) \<and>
     list_all (\<lambda>(k, l). cell_key_ok k \<and> level_state_ok l) (ms_cells st) \<and>
     list_all (\<lambda>(k, s). id_ok k \<and> s \<noteq> []) (ms_outputs st) \<and>
     list_all (\<lambda>(k, l). id_ok k \<and> level_state_ok l) (ms_volumes st) \<and>
     list_all (\<lambda>k. \<not> has_char (CHR ''.'') k \<and> k \<notin> {''outputs'', ''output'', ''volumes''}) (map fst (ms_extra st))"

lemma decode_output_ok: "decode_output st e = Inr st' \<Longrightarrow> matrix_ok st \<Longrightarrow> matrix_ok st'"
  unfolding decode_output_def rbind_Inr_iff stable_id_new_Inr_iff ok_or_Inr_iff prod.case_eq_if
  by (auto simp: matrix_ok_def im_all_insert split: option.splits if_splits)

lemma decode_volume_ok: "decode_volume st e = Inr st' \<Longrightarrow> json_wf (snd e) \<Longrightarrow> matrix_ok st \<Longrightarrow> matrix_ok st'"
  unfolding decode_volume_def rbind_Inr_iff stable_id_new_Inr_iff prod.case_eq_if
  using decode_level_ok [of "snd e" "FFin False 1" True] level_ok_bounds
  by (auto simp: matrix_ok_def im_all_insert)

lemma list_all_keys_insert: "list_all P (map fst m) \<Longrightarrow> P k \<Longrightarrow> list_all P (map fst (im_insert m k v))"
  by (induction m) auto

lemma decode_cell_ok:
  assumes "decode_cell st e = Inr st'" and "json_wf (snd e)" and "matrix_ok st"
    and "fst e \<notin> {''outputs'', ''output'', ''volumes''}"
  shows "matrix_ok st'"
proof (cases "has_char (CHR ''.'') (fst e)")
  case True
  then obtain s m l where "parse_cell_key (fst e) = Inr (s, m)" "decode_level (snd e) (FFin False 0) False = Inr l"
    and st: "st' = st\<lparr>ms_cells := im_insert (ms_cells st) (fst e) l\<rparr>"
    using assms(1) by (auto simp: decode_cell_def rbind_Inr_iff prod.case_eq_if)
  then have "cell_key_ok (fst e)" "level_state_ok l"
    using decode_level_ok assms(2) level_ok_bounds by (auto simp: parse_cell_key_Inr_iff cell_key_ok_def)
  then show ?thesis using assms(3) st by (simp add: matrix_ok_def im_all_insert)
next
  case False
  then have "st' = st\<lparr>ms_extra := im_insert (ms_extra st) (fst e) (snd e)\<rparr>"
    using assms(1) by (auto simp: decode_cell_def prod.case_eq_if)
  then show ?thesis using assms(3,4) False
    by (simp add: matrix_ok_def list_all_keys_insert)
qed

lemma matrix_from_value_ok:
  assumes "matrix_from_value v = Inr st" and "json_wf v"
  shows "matrix_ok st"
proof -
  obtain obj where v: "v = JObject obj" using assms(1) by (auto simp: matrix_from_value_def rbind_Inr_iff json_object_Inr_iff)
  then have wf: "im_wf obj" and jw: "list_all (\<lambda>e. json_wf (snd e)) obj" using assms(2) by simp_all
  define rest where "rest = foldl im_swap_remove obj [''outputs'', ''output'', ''volumes'']"
  obtain outs vols st1 st2 where 1: "res_foldM decode_output matrix_default outs = Inr st1"
    and vols: "jget_object obj ''volumes'' = JObject vols" and 2: "res_foldM decode_volume st1 vols = Inr st2"
    and 3: "res_foldM decode_cell st2 rest = Inr st"
    using assms(1) wf unfolding v
    by (auto simp: matrix_from_value_def rbind_Inr_iff json_object_Inr_iff Let_def rest_def jget_object_def)
  have "matrix_ok matrix_default" by (simp add: matrix_ok_def matrix_default_def)
  with 1 have "matrix_ok st1" by (rule res_foldM_inv) (rule decode_output_ok)
  moreover have "json_wf (JObject vols)"
    using vols jw im_get_Some_mem [of obj "''volumes''" "JObject vols"]
    by (force simp: jget_object_def list_all_iff split: option.splits)
  ultimately have "matrix_ok st2"
    using res_foldM_inv [OF 2, of matrix_ok] by (auto simp: list_all_iff intro: decode_volume_ok)
  moreover have "json_wf (snd e) \<and> fst e \<notin> {''outputs'', ''output'', ''volumes''}" if "e \<in> set rest" for e
  proof -
    have "e \<in># mset rest" using that by simp
    then have "e \<in># mset (filter (\<lambda>e. fst e \<notin> set [''outputs'', ''output'', ''volumes'']) obj)"
      unfolding rest_def mset_swap_remove_all [OF wf] .
    then show ?thesis using jw by (auto simp: list_all_iff)
  qed
  ultimately show ?thesis using res_foldM_inv [OF 3, of matrix_ok] by (auto intro: decode_cell_ok)
qed

lemma output_fold_value:
  assumes "list_all (\<lambda>(k, s). id_ok k \<and> s \<noteq> []) outs" and "distinct (map fst (ms_outputs st @ outs))"
  shows "res_foldM decode_output st (map (\<lambda>(k, s). (k, JString s)) outs) = Inr (st\<lparr>ms_outputs := ms_outputs st @ outs\<rparr>)"
  using assms
proof (induction outs arbitrary: st)
  case Nil
  then show ?case by simp
next
  case (Cons e outs)
  obtain k s where e: "e = (k, s)" by (cases e)
  have "decode_output st (k, JString s) = Inr (st\<lparr>ms_outputs := ms_outputs st @ [(k, s)]\<rparr>)"
    using Cons.prems e by (simp add: decode_output_def stable_id_new_def id_ok_def im_insert_fresh)
  then show ?case using Cons.IH [of "st\<lparr>ms_outputs := ms_outputs st @ [(k, s)]\<rparr>"] Cons.prems e by simp
qed

lemma volume_fold_value:
  assumes "list_all (\<lambda>(k, l). id_ok k \<and> level_state_ok l) vols" and "distinct (map fst (ms_volumes st @ vols))"
  shows "\<exists>vols'. res_foldM decode_volume st (map (\<lambda>(k, l). (k, level_to_value l)) vols) =
      Inr (st\<lparr>ms_volumes := ms_volumes st @ vols'\<rparr>) \<and>
    list_all2 (\<lambda>e e'. fst e = fst e' \<and> level_eqv (snd e) (snd e')) vols vols'"
  using assms
proof (induction vols arbitrary: st)
  case Nil
  then show ?case by simp
next
  case (Cons e vols)
  obtain k l where e: "e = (k, l)" by (cases e)
  obtain l' where l': "decode_level (level_to_value l) (FFin False 1) True = Inr l'" "level_eqv l l'"
    using Cons.prems(1) e decode_level_to_value [of l] by auto
  have "decode_volume st (k, level_to_value l) = Inr (st\<lparr>ms_volumes := ms_volumes st @ [(k, l')]\<rparr>)"
    using Cons.prems e l' by (simp add: decode_volume_def stable_id_new_def id_ok_def im_insert_fresh)
  then show ?case
    using Cons.IH [of "st\<lparr>ms_volumes := ms_volumes st @ [(k, l')]\<rparr>"] Cons.prems e l'(2) by fastforce
qed

lemma cell_fold_value:
  assumes "list_all (\<lambda>(k, v). has_char (CHR ''.'') k \<longrightarrow> cell_key_ok k \<and> is_ok (decode_level v (FFin False 0) False)) es"
    and "im_wf es"
  shows "\<exists>st'. res_foldM decode_cell st es = Inr st' \<and> ms_outputs st' = ms_outputs st \<and> ms_volumes st' = ms_volumes st \<and>
    im_get (ms_cells st') = (\<lambda>k. case im_get es k of
        Some v \<Rightarrow> (if has_char (CHR ''.'') k then res_ok (decode_level v (FFin False 0) False) else im_get (ms_cells st) k)
      | None \<Rightarrow> im_get (ms_cells st) k) \<and>
    im_get (ms_extra st') = (\<lambda>k. case im_get es k of
        Some v \<Rightarrow> (if has_char (CHR ''.'') k then im_get (ms_extra st) k else Some v)
      | None \<Rightarrow> im_get (ms_extra st) k)"
  using assms
proof (induction es arbitrary: st)
  case Nil
  then show ?case by simp
next
  case (Cons e es)
  obtain k v where e: "e = (k, v)" by (cases e)
  have fresh: "im_get es k = None" using Cons.prems(2) e by (simp add: im_wf_def map_of_eq_None_iff)
  have "\<exists>t. decode_cell st e = Inr t \<and> ms_outputs t = ms_outputs st \<and> ms_volumes t = ms_volumes st \<and>
      im_get (ms_cells t) = (if has_char (CHR ''.'') k then (im_get (ms_cells st))(k := res_ok (decode_level v (FFin False 0) False)) else im_get (ms_cells st)) \<and>
      im_get (ms_extra t) = (if has_char (CHR ''.'') k then im_get (ms_extra st) else (im_get (ms_extra st))(k := Some v))"
  proof (cases "has_char (CHR ''.'') k")
    case True
    then obtain a b l where "parse_cell_key k = Inr (a, b)" "decode_level v (FFin False 0) False = Inr l"
      using Cons.prems(1) e by (auto simp: cell_key_ok_def parse_cell_key_Inr_iff is_ok_def split: sum.splits)
    then show ?thesis using True e by (auto simp: decode_cell_def)
  next
    case False
    then show ?thesis using e by (auto simp: decode_cell_def)
  qed
  then obtain t where t: "decode_cell st e = Inr t" "ms_outputs t = ms_outputs st" "ms_volumes t = ms_volumes st"
      "im_get (ms_cells t) = (if has_char (CHR ''.'') k then (im_get (ms_cells st))(k := res_ok (decode_level v (FFin False 0) False)) else im_get (ms_cells st))"
      "im_get (ms_extra t) = (if has_char (CHR ''.'') k then im_get (ms_extra st) else (im_get (ms_extra st))(k := Some v))"
    by blast
  have "im_wf es" using Cons.prems(2) by (simp add: im_wf_def)
  with Cons.IH [of t] Cons.prems(1) obtain st' where "res_foldM decode_cell t es = Inr st'"
    and st': "ms_outputs st' = ms_outputs t" "ms_volumes st' = ms_volumes t"
      "im_get (ms_cells st') = (\<lambda>k. case im_get es k of
        Some v \<Rightarrow> (if has_char (CHR ''.'') k then res_ok (decode_level v (FFin False 0) False) else im_get (ms_cells t) k)
      | None \<Rightarrow> im_get (ms_cells t) k)"
      "im_get (ms_extra st') = (\<lambda>k. case im_get es k of
        Some v \<Rightarrow> (if has_char (CHR ''.'') k then im_get (ms_extra t) k else Some v)
      | None \<Rightarrow> im_get (ms_extra t) k)" by auto
  then show ?case using t fresh e by (intro exI [of _ st']) (auto simp: fun_eq_iff split: option.splits)
qed

definition matrix_eqv :: "matrix_state \<Rightarrow> matrix_state \<Rightarrow> bool" where
  "matrix_eqv st st' \<longleftrightarrow> ms_outputs st' = ms_outputs st \<and>
     (\<forall>k. rel_option level_eqv (im_get (ms_cells st) k) (im_get (ms_cells st') k)) \<and>
     list_all2 (\<lambda>e e'. fst e = fst e' \<and> level_eqv (snd e) (snd e')) (ms_volumes st) (ms_volumes st') \<and>
     im_get (ms_extra st') = im_get (ms_extra st)"

lemma fold_insert_fresh:
  "distinct (map fst m @ map fst es) \<Longrightarrow> foldl (\<lambda>m (k, c). im_insert m k (f c)) m es = m @ map (\<lambda>(k, c). (k, f c)) es"
proof (induction es arbitrary: m)
  case Nil
  then show ?case by simp
next
  case (Cons e es)
  then show ?case by (cases e) (simp add: im_insert_fresh)
qed

lemma matrix_ok_cells:
  "matrix_ok st \<Longrightarrow> k \<in> set (map fst (ms_cells st)) \<Longrightarrow> has_char (CHR ''.'') k"
proof -
  assume ok: "matrix_ok st" and "k \<in> set (map fst (ms_cells st))"
  then obtain l where "(k, l) \<in> set (ms_cells st)" by auto
  then have "cell_key_ok k" using ok by (auto simp: matrix_ok_def list_all_iff)
  then show ?thesis by (rule cell_key_ok_dot)
qed

lemma matrix_ok_extra:
  "matrix_ok st \<Longrightarrow> k \<in> set (map fst (ms_extra st)) \<Longrightarrow>
   \<not> has_char (CHR ''.'') k \<and> k \<noteq> ''outputs'' \<and> k \<noteq> ''output'' \<and> k \<noteq> ''volumes''"
  by (auto simp: matrix_ok_def list_all_iff)

lemma dot_names: "\<not> has_char (CHR ''.'') ''outputs''" "\<not> has_char (CHR ''.'') ''output''" "\<not> has_char (CHR ''.'') ''volumes''"
  by (simp_all add: has_char_def)

lemma matrix_value_object:
  assumes "matrix_ok st"
  defines "obj \<equiv> ms_extra st @ map (\<lambda>(k, c). (k, level_to_value c)) (ms_cells st) @
      [(''outputs'', JObject (map (\<lambda>(k, s). (k, JString s)) (ms_outputs st))),
       (''volumes'', JObject (map (\<lambda>(k, l). (k, level_to_value l)) (ms_volumes st)))]"
  shows "matrix_to_value st = JObject obj" and "im_wf obj"
proof -
  have keys: "map fst (map (\<lambda>(k, c). (k, level_to_value c)) (ms_cells st)) = map fst (ms_cells st)"
    by (simp add: prod.case_eq_if comp_def)
  have dis: "distinct (map fst (ms_extra st) @ map fst (ms_cells st))"
    using assms(1) matrix_ok_cells [OF assms(1)] matrix_ok_extra [OF assms(1)]
    by (auto simp: matrix_ok_def im_wf_def)
  have new: "k \<notin> set (map fst (ms_extra st @ map (\<lambda>(k, c). (k, level_to_value c)) (ms_cells st)))"
    if "k = ''outputs'' \<or> k = ''volumes''" for k
    using that matrix_ok_cells [OF assms(1), of k] matrix_ok_extra [OF assms(1), of k] dot_names keys by auto
  have "foldl (\<lambda>m (k, c). im_insert m k (level_to_value c)) (ms_extra st) (ms_cells st) =
      ms_extra st @ map (\<lambda>(k, c). (k, level_to_value c)) (ms_cells st)"
    using dis by (rule fold_insert_fresh)
  then show "matrix_to_value st = JObject obj"
    using new by (simp add: matrix_to_value_def Let_def obj_def im_insert_fresh del: map_append)
  show "im_wf obj"
    using dis new keys unfolding obj_def im_wf_def by (simp add: keys del: map_map)
qed

lemma matrix_value_roundtrip_lemma:
  assumes ok: "matrix_ok st"
  shows "\<exists>st'. matrix_from_value (matrix_to_value st) = Inr st' \<and> matrix_eqv st st'"
proof -
  define body where "body = ms_extra st @ map (\<lambda>(k, c). (k, level_to_value c)) (ms_cells st)"
  define outs where "outs = map (\<lambda>(k, s). (k, JString s)) (ms_outputs st)"
  define vols where "vols = map (\<lambda>(k, l). (k, level_to_value l)) (ms_volumes st)"
  define obj where "obj = body @ [(''outputs'', JObject outs), (''volumes'', JObject vols)]"
  have val: "matrix_to_value st = JObject obj" and wf: "im_wf obj"
    using matrix_value_object [OF ok] by (simp_all add: obj_def body_def outs_def vols_def)
  have bkeys: "k \<noteq> ''outputs'' \<and> k \<noteq> ''output'' \<and> k \<noteq> ''volumes''" if "k \<in> set (map fst body)" for k
  proof -
    have "map fst body = map fst (ms_extra st) @ map fst (ms_cells st)"
      by (simp add: body_def prod.case_eq_if comp_def)
    then have "k \<in> set (map fst (ms_extra st)) \<or> k \<in> set (map fst (ms_cells st))"
      using that by (simp only: set_append Un_iff)
    then show ?thesis using matrix_ok_cells [OF ok, of k] matrix_ok_extra [OF ok, of k] dot_names by blast
  qed
  have nb: "im_get body k = None" if "k = ''outputs'' \<or> k = ''output'' \<or> k = ''volumes''" for k
    using bkeys [of k] that by (auto simp: map_of_eq_None_iff)
  have get: "im_get obj ''outputs'' = Some (JObject outs)" "im_get obj ''output'' = None"
    "im_get obj ''volumes'' = Some (JObject vols)"
    using nb by (simp_all add: obj_def map_add_def)
  define rest where "rest = foldl im_swap_remove obj [''outputs'', ''output'', ''volumes'']"
  have rest_mset: "mset rest = mset body"
  proof -
    have "filter (\<lambda>e. fst e \<notin> set [''outputs'', ''output'', ''volumes'']) body = body"
      using bkeys by (auto simp: filter_id_conv)
    then show ?thesis unfolding rest_def mset_swap_remove_all [OF wf] by (simp add: obj_def)
  qed
  have rest_wf: "im_wf rest" unfolding rest_def by (rule swap.wf_del_all [OF wf])
  have rest_get: "im_get rest = im_get body" by (rule im_get_mset_eq [OF rest_wf rest_mset])
  obtain st1 where 1: "res_foldM decode_output matrix_default outs = Inr st1"
    and st1: "st1 = matrix_default\<lparr>ms_outputs := ms_outputs st\<rparr>"
    using output_fold_value [of "ms_outputs st" matrix_default] ok
    by (simp add: matrix_ok_def im_wf_def matrix_default_def outs_def)
  obtain vols' where 2: "res_foldM decode_volume st1 vols = Inr (st1\<lparr>ms_volumes := vols'\<rparr>)"
    and vrel: "list_all2 (\<lambda>e e'. fst e = fst e' \<and> level_eqv (snd e) (snd e')) (ms_volumes st) vols'"
    using volume_fold_value [of "ms_volumes st" st1] ok
    by (auto simp: matrix_ok_def im_wf_def matrix_default_def vols_def st1)
  have entries: "list_all (\<lambda>(k, v). has_char (CHR ''.'') k \<longrightarrow> cell_key_ok k \<and> is_ok (decode_level v (FFin False 0) False)) rest"
  proof -
    have "has_char (CHR ''.'') k \<longrightarrow> cell_key_ok k \<and> is_ok (decode_level v (FFin False 0) False)"
      if mem: "(k, v) \<in> set body" for k v
    proof (cases "(k, v) \<in> set (ms_extra st)")
      case True
      then show ?thesis using matrix_ok_extra [OF ok, of k] by force
    next
      case False
      then obtain l where l: "(k, l) \<in> set (ms_cells st)" "v = level_to_value l" using mem by (auto simp: body_def)
      then have "cell_key_ok k" "level_state_ok l" using ok by (auto simp: matrix_ok_def list_all_iff)
      then show ?thesis using decode_level_to_value [of l "FFin False 0" False] l(2) by auto
    qed
    moreover have "set rest = set body" using rest_mset by (rule mset_eq_setD)
    ultimately show ?thesis by (auto simp: list_all_iff)
  qed
  define st2 where "st2 = st1\<lparr>ms_volumes := vols'\<rparr>"
  have st2: "ms_outputs st2 = ms_outputs st" "ms_volumes st2 = vols'" "ms_cells st2 = []" "ms_extra st2 = []"
    by (simp_all add: st2_def st1 matrix_default_def)
  obtain st' where 3: "res_foldM decode_cell st2 rest = Inr st'"
    and st': "ms_outputs st' = ms_outputs st" "ms_volumes st' = vols'"
      "im_get (ms_cells st') = (\<lambda>k. case im_get body k of
        Some v \<Rightarrow> (if has_char (CHR ''.'') k then res_ok (decode_level v (FFin False 0) False) else im_get [] k)
      | None \<Rightarrow> im_get [] k)"
      "im_get (ms_extra st') = (\<lambda>k. case im_get body k of
        Some v \<Rightarrow> (if has_char (CHR ''.'') k then im_get [] k else Some v)
      | None \<Rightarrow> im_get [] k)"
    using cell_fold_value [OF entries rest_wf, of st2] unfolding rest_get st2 by blast
  have run: "matrix_from_value (matrix_to_value st) = Inr st'"
    using 1 2 3 wf unfolding val rest_def foldl.simps st2_def
    by (simp add: matrix_from_value_def json_object_def jget_object_def get Let_def legacy_output_def)
  have cells: "rel_option level_eqv (im_get (ms_cells st) k) (im_get (ms_cells st') k)"
    and extra: "im_get (ms_extra st') k = im_get (ms_extra st) k" for k
  proof -
    have body_get: "im_get body k = (case map_option level_to_value (im_get (ms_cells st) k) of
        Some v \<Rightarrow> Some v | None \<Rightarrow> im_get (ms_extra st) k)"
    proof -
      have "im_get (map (\<lambda>(k, c). (k, level_to_value c)) (ms_cells st)) k = map_option level_to_value (im_get (ms_cells st) k)"
        by (simp add: map_of_map)
      moreover have "im_get (ms_extra st) k \<noteq> None \<Longrightarrow> im_get (ms_cells st) k = None"
        using matrix_ok_cells [OF ok, of k] matrix_ok_extra [OF ok, of k]
        by (metis map_of_eq_None_iff set_map)
      ultimately show ?thesis unfolding body_def map_of_append map_add_def
        by (cases "im_get (ms_extra st) k") (auto split: option.splits)
    qed
    show "rel_option level_eqv (im_get (ms_cells st) k) (im_get (ms_cells st') k)"
    proof (cases "im_get (ms_cells st) k")
      case None
      have "\<not> has_char (CHR ''.'') k" if "im_get (ms_extra st) k = Some v" for v
        using matrix_ok_extra [OF ok, of k] im_get_Some_mem [OF that] by force
      then show ?thesis using None by (cases "im_get (ms_extra st) k") (simp_all add: st'(3) body_get)
    next
      case (Some l)
      then have "(k, l) \<in> set (ms_cells st)" by (rule im_get_Some_mem)
      then have "cell_key_ok k" "level_state_ok l" using ok by (auto simp: matrix_ok_def list_all_iff)
      then show ?thesis
        using Some decode_level_to_value [of l "FFin False 0" False] by (auto simp: st'(3) body_get cell_key_ok_dot)
    qed
    show "im_get (ms_extra st') k = im_get (ms_extra st) k"
    proof (cases "im_get (ms_cells st) k")
      case None
      have "\<not> has_char (CHR ''.'') k" if "im_get (ms_extra st) k = Some v" for v
        using matrix_ok_extra [OF ok, of k] im_get_Some_mem [OF that] by force
      then show ?thesis using None by (cases "im_get (ms_extra st) k") (simp_all add: st'(4) body_get)
    next
      case (Some l)
      then have mem: "(k, l) \<in> set (ms_cells st)" by (rule im_get_Some_mem)
      then have dot: "has_char (CHR ''.'') k" using matrix_ok_cells [OF ok, of k] by force
      then have "im_get (ms_extra st) k = None"
        using matrix_ok_extra [OF ok, of k] by (auto simp: map_of_eq_None_iff)
      then show ?thesis using Some dot by (simp add: st'(4) body_get)
    qed
  qed
  show ?thesis using run st' vrel cells extra by (auto simp: matrix_eqv_def)
qed

subsection \<open>Preferences on disk\<close>

definition PREFERENCE_KEYS :: "string list" where
  "PREFERENCE_KEYS = [''width'', ''height'', ''maximized'', ''gain_locked'', ''tray_icon_color'', ''offered_capture_nodes'']"

definition preferences_ok :: "preferences \<Rightarrow> bool" where
  "preferences_ok p \<longleftrightarrow> 820 \<le> pf_width p \<and> pf_width p < 2 ^ 31 \<and> 480 \<le> pf_height p \<and> pf_height p < 2 ^ 31 \<and>
     pf_tray_icon_color p \<in> {''white'', ''black''} \<and> im_wf (pf_extra p) \<and>
     list_all (\<lambda>k. k \<notin> set PREFERENCE_KEYS) (map fst (pf_extra p))"

lemma decode_geometry_ok:
  "decode_geometry key m v = Inr i \<Longrightarrow> m < 2 ^ 31 \<Longrightarrow> m \<le> i \<and> i < 2 ^ 31"
  by (auto simp: decode_geometry_def rbind_Inr_iff split: if_splits)

lemma decode_geometry_json:
  "m \<le> i \<Longrightarrow> 0 \<le> i \<Longrightarrow> i < 2 ^ 31 \<Longrightarrow> decode_geometry key m (json_i32 i) = Inr i"
  by (simp add: decode_geometry_def json_i32_def unsigned_of_int take_bit_int_eq_self)

lemma preferences_from_value_ok:
  assumes "preferences_from_value serde v = Inr p" and "json_wf v"
  shows "preferences_ok p"
proof -
  obtain m where v: "v = JObject m"
    using assms(1) by (auto simp: preferences_from_value_def rbind_Inr_iff json_object_Inr_iff)
  then have wf: "im_wf m" using assms(2) by simp
  have ex: "pf_extra p = foldl im_swap_remove m PREFERENCE_KEYS"
    and w: "820 \<le> pf_width p \<and> pf_width p < 2 ^ 31" and h: "480 \<le> pf_height p \<and> pf_height p < 2 ^ 31"
    and c: "pf_tray_icon_color p \<in> {''white'', ''black''}"
    using assms(1) unfolding v PREFERENCE_KEYS_def foldl.simps
    by (auto simp: preferences_from_value_def rbind_Inr_iff json_object_Inr_iff pred_option_def preferences_default_def
        split: prod.splits option.split dest!: take_string_snd take_bool_snd take_opt_snd
        decode_geometry_ok)
  have "im_wf (foldl im_swap_remove m PREFERENCE_KEYS)" by (rule swap.wf_del_all [OF wf])
  moreover have "k \<notin> set PREFERENCE_KEYS" if "k \<in> set (map fst (foldl im_swap_remove m PREFERENCE_KEYS))" for k
  proof -
    have "im_get (foldl im_swap_remove m PREFERENCE_KEYS) k \<noteq> None" using that by (metis map_of_eq_None_iff set_map)
    then show ?thesis using swap.get_del_all [OF wf, of PREFERENCE_KEYS k] by auto
  qed
  ultimately show ?thesis using ex w h c by (simp add: preferences_ok_def list_all_iff)
qed

definition preferences_eqv :: "preferences \<Rightarrow> preferences \<Rightarrow> bool" where
  "preferences_eqv p q \<longleftrightarrow> mset (pf_extra q) = mset (pf_extra p) \<and> q\<lparr>pf_extra := []\<rparr> = p\<lparr>pf_extra := []\<rparr>"

lemma preferences_roundtrip_lemma:
  assumes ok: "preferences_ok p"
  shows "\<exists>q. preferences_from_value serde (preferences_to_value p) = Inr q \<and> preferences_eqv p q"
proof -
  let ?fields = "[(''width'', json_i32 (pf_width p)), (''height'', json_i32 (pf_height p)),
       (''maximized'', JBool (pf_maximized p)),
       (''offered_capture_nodes'', JArray (map JString (pf_offered p))),
       (''gain_locked'', JBool (pf_gain_locked p)),
       (''tray_icon_color'', JString (pf_tray_icon_color p))]"
  define obj where "obj = ?fields @ pf_extra p"
  have absent: "im_get (pf_extra p) k = None" if "k \<in> set PREFERENCE_KEYS" for k
    using ok that by (auto simp: preferences_ok_def list_all_iff map_of_eq_None_iff)
  have wf: "im_wf obj"
    using ok absent [of "''width''"] absent [of "''height''"] absent [of "''maximized''"]
      absent [of "''offered_capture_nodes''"] absent [of "''gain_locked''"] absent [of "''tray_icon_color''"]
    by (simp add: obj_def im_wf_def preferences_ok_def PREFERENCE_KEYS_def map_of_eq_None_iff)
  have val: "preferences_to_value p = JObject obj"
    unfolding preferences_to_value_def using im_collect_distinct [OF wf] by (simp add: obj_def)
  have get: "im_get obj ''width'' = Some (json_i32 (pf_width p))" "im_get obj ''height'' = Some (json_i32 (pf_height p))"
    "im_get obj ''maximized'' = Some (JBool (pf_maximized p))"
    "im_get obj ''offered_capture_nodes'' = Some (JArray (map JString (pf_offered p)))"
    "im_get obj ''gain_locked'' = Some (JBool (pf_gain_locked p))"
    "im_get obj ''tray_icon_color'' = Some (JString (pf_tray_icon_color p))"
    by (simp_all add: obj_def)
  have geo: "decode_geometry ''width'' 820 (json_i32 (pf_width p)) = Inr (pf_width p)"
    "decode_geometry ''height'' 480 (json_i32 (pf_height p)) = Inr (pf_height p)"
    using ok by (auto simp: preferences_ok_def intro!: decode_geometry_json)
  have col: "ensure (pf_tray_icon_color p \<in> {''white'', ''black''}) e = Inr ()" for e
    using ok by (simp add: preferences_ok_def)
  let ?q = "p\<lparr>pf_extra := foldl im_swap_remove obj PREFERENCE_KEYS\<rparr>"
  have "preferences_from_value serde (preferences_to_value p) = Inr ?q"
    unfolding val preferences_from_value_def json_object_def json.case rbind_simps PREFERENCE_KEYS_def foldl.simps
    apply (simp add: take_opt_def get geo wf cong: rbind_weak_cong)
    apply (simp add: take_bool_def take_string_def get wf cong: rbind_weak_cong)
    apply (simp only: col [simplified])
    apply (simp add: ensure_def take_opt_def get wf)
    done
  moreover have "mset (foldl im_swap_remove obj PREFERENCE_KEYS) = mset (pf_extra p)"
  proof -
    have "filter (\<lambda>e. fst e \<notin> set PREFERENCE_KEYS) ?fields = []" by (simp add: PREFERENCE_KEYS_def)
    moreover have "filter (\<lambda>e. fst e \<notin> set PREFERENCE_KEYS) (pf_extra p) = pf_extra p"
      using ok by (simp add: preferences_ok_def list_all_iff filter_id_conv)
    ultimately have "filter (\<lambda>e. fst e \<notin> set PREFERENCE_KEYS) obj = pf_extra p"
      by (simp only: obj_def filter_append append_Nil)
    then show ?thesis using mset_swap_remove_all [OF wf, of PREFERENCE_KEYS] by simp
  qed
  ultimately show ?thesis by (auto simp: preferences_eqv_def)
qed

subsection \<open>Properties\<close>

lemma trim_voice: "trim ''voice'' = ''voice''"
  by (simp add: trim_def trim_start_def trim_end_def head_of_def white_space_def starts_with_def)

lemma id_ok_samples: "id_ok ''mic''" "id_ok ''game''" "id_ok ''chat''" "id_ok ''mix_chat''"
  by (simp_all add: id_ok_def id_char_def ascii_lower_def less_eq_char_def)

definition sample_source :: "string \<Rightarrow> bool \<Rightarrow> source" where
  "sample_source i muted = (source_new i i Device)
     \<lparr>src_id := i, src_group := ''voice'', src_muted := muted, src_extra := [(''hue'', JNull)]\<rparr>"

definition sample_sources :: sources where
  "sample_sources = [(''mic'', sample_source ''mic'' False), (''game'', sample_source ''game'' True)]"

lemma sample_sources_ok: "sources_ok sample_sources"
proof -
  have "source_ok (sample_source i m)" if "id_ok i" for i m
    using that by (simp add: source_ok_def sample_source_def source_new_def bindings_ok_def trim_voice level_ok_bounds
        im_wf_def SOURCE_KEYS_def)
  then show ?thesis using id_ok_samples
    by (simp add: sources_ok_def sample_sources_def im_wf_def open_groups_def grouped_open_def sample_source_def)
qed

lemma sample_sources_json: "json_wf (sources_to_value sample_sources)"
  using level_ok_finite [OF level_ok_bounds(2)]
  by (simp add: sources_to_value_def sample_sources_def sample_source_def source_new_def source_to_value_def
      im_collect_def im_wf_def json_f64_def)

text \<open>
  C28. Loading \<^verbatim>\<open>sources.json\<close>: whatever well-formed document is accepted, every source gets a valid
  identifier equal to its key, a level in \<open>0..1\<close>, distinct trimmed bindings and valid effects; every
  nonempty group has at most one unmuted member; the group rule only mutes; and the fields the
  program does not know are kept with their values.
\<close>

theorem sources_load:
  assumes "json_wf v" and "normalize_sources serde v = Inr srcs"
  shows "sources_ok srcs \<and> (\<exists>obj. v = JObject obj \<and>
    list_all2 (\<lambda>(k, v) (k', s). k' = k \<and> (\<exists>s0. decode_source serde k v = Inr s0 \<and> closed_as s0 s) \<and>
      mset (src_extra s) = mset (filter (\<lambda>e. fst e \<notin> set SOURCE_KEYS) (the (as_object v)))) obj srcs)"
proof -
  obtain obj where v: "v = JObject obj" and ok: "sources_ok srcs"
    and rel: "list_all2 (\<lambda>(k, v) (k', s). k' = k \<and> (\<exists>s0. decode_source serde k v = Inr s0 \<and> closed_as s0 s)) obj srcs"
    using normalize_sources_ok [OF assms] by blast
  have "mset (src_extra s) = mset (filter (\<lambda>e. fst e \<notin> set SOURCE_KEYS) (the (as_object w)))"
    if mem: "(k, w) \<in> set obj" and dec: "decode_source serde k w = Inr s0" and cl: "closed_as s0 s" for k w s0 s
  proof -
    have jw: "json_wf w" using assms(1) v mem by (auto simp: list_all_iff)
    obtain m where m: "w = JObject m" "src_extra s0 = foldl im_swap_remove m SOURCE_KEYS"
      using decode_source_ok [OF dec jw] by blast
    have "src_extra s = src_extra s0" using cl unfolding closed_as_def by (metis source.select_convs(12) source.surjective source.update_convs(8))
    then show ?thesis using m mset_swap_remove_all [of m SOURCE_KEYS] jw by simp
  qed
  then have "list_all2 (\<lambda>(k, v) (k', s). k' = k \<and> (\<exists>s0. decode_source serde k v = Inr s0 \<and> closed_as s0 s) \<and>
      mset (src_extra s) = mset (filter (\<lambda>e. fst e \<notin> set SOURCE_KEYS) (the (as_object v)))) obj srcs"
    using rel by (auto simp: list_all2_conv_all_nth prod.case_eq_if) (metis nth_mem prod.collapse)
  then show ?thesis using ok v by blast
qed

theorem sources_load_witness:
  "\<exists>srcs. normalize_sources (\<lambda>_. []) (sources_to_value sample_sources) = Inr srcs \<and> sources_ok srcs"
proof -
  obtain srcs where n: "normalize_sources (\<lambda>_. []) (sources_to_value sample_sources) = Inr srcs"
    using sources_to_value_roundtrip [OF sample_sources_ok] by blast
  show ?thesis using sources_load [OF sample_sources_json n] n by blast
qed

text \<open>
  C27. Saving and loading the sources changes nothing: a valid set of sources, written out and read
  back, is the same set in the same order, source by source equal up to the order of the unknown
  fields.
\<close>

theorem sources_roundtrip:
  assumes "sources_ok srcs"
  shows "\<exists>srcs'. normalize_sources serde (sources_to_value srcs) = Inr srcs' \<and>
    list_all2 (\<lambda>e e'. fst e = fst e' \<and> source_eqv (snd e) (snd e')) srcs srcs'"
  by (rule sources_to_value_roundtrip [OF assms])

theorem sources_roundtrip_witness:
  "\<exists>srcs. normalize_sources (\<lambda>_. []) (sources_to_value sample_sources) = Inr srcs \<and>
     map fst srcs = [''mic'', ''game'']"
proof -
  obtain srcs where n: "normalize_sources (\<lambda>_. []) (sources_to_value sample_sources) = Inr srcs"
    and r: "list_all2 (\<lambda>e e'. fst e = fst e' \<and> source_eqv (snd e) (snd e')) sample_sources srcs"
    using sources_roundtrip [OF sample_sources_ok] by blast
  from r have "map fst srcs = map fst sample_sources" by (induction rule: list_all2_induct) auto
  with n show ?thesis by (simp add: sample_sources_def)
qed

text \<open>
  The mixes that load have distinct sinks, each \<^verbatim>\<open>openwave_\<close> followed by a valid identifier and
  outside the namespaces the program generates for sources, loops and captures; the built-in mixes
  satisfy the same.
\<close>

theorem mixes_load:
  assumes "json_wf v" and "normalize_mixes v = Inr ms"
  shows "mixes_ok ms \<and> mixes_ok default_mixes"
  using default_mixes_ok normalize_mixes_ok [OF assms] by blast

theorem mixes_load_witness:
  "\<exists>ms. normalize_mixes (JObject [(''chat'', JObject [])]) = Inr ms \<and> mixes_ok ms \<and>
     map (\<lambda>e. mix_sink (snd e)) ms = [''openwave_mix_chat'']"
proof -
  have i: "stable_id_new ''chat'' = Inr ''chat''" "stable_id_new ''mix_chat'' = Inr ''mix_chat''"
    using id_ok_samples by (simp_all add: stable_id_new_Inr_iff)
  have "\<exists>m. decode_mix ''chat'' (JObject []) = Inr m \<and> mix_sink m = ''openwave_mix_chat'' \<and> mix_id m = ''chat''"
    unfolding decode_mix_def json_object_def json.case i rbind_simps
    by (simp add: take_string_def im_swap_remove_def ensure_def strip_prefix_def starts_with_def i cong: rbind_weak_cong)
  then obtain m where m: "decode_mix ''chat'' (JObject []) = Inr m" "mix_sink m = ''openwave_mix_chat''" "mix_id m = ''chat''"
    by blast
  then have n: "normalize_mixes (JObject [(''chat'', JObject [])]) = Inr [(''chat'', m)]"
    by (simp add: normalize_mixes_def json_object_def mix_step_def reserved_sinks_def starts_with_def)
  have "json_wf (JObject [(''chat'', JObject [])])" by (simp add: im_wf_def)
  from mixes_load [OF this n] n m show ?thesis by simp
qed

text \<open>
  C40. The matrix: what loads is valid (cell keys are pairs of identifiers, levels in \<open>0..1\<close>, no empty
  output), and a valid matrix written out and read back is the same matrix, cell by cell.
\<close>

theorem matrix_roundtrip:
  assumes "matrix_ok st"
  shows "\<exists>st'. matrix_from_value (matrix_to_value st) = Inr st' \<and> matrix_eqv st st'"
  by (rule matrix_value_roundtrip_lemma [OF assms])


definition sample_matrix :: matrix_state where
  "sample_matrix = \<lparr>ms_cells = [(cell_key ''mic'' ''chat'', level_default\<lparr>lv_volume := FFin False 1\<rparr>)],
     ms_outputs = [(''chat'', ''none'')], ms_volumes = [(''chat'', level_default)], ms_extra = [(''hue'', JNull)]\<rparr>"

theorem matrix_roundtrip_witness:
  "\<exists>st. matrix_from_value (matrix_to_value sample_matrix) = Inr st \<and> ms_outputs st = [(''chat'', ''none'')]"
proof -
  have "matrix_ok sample_matrix"
    using id_ok_samples level_ok_bounds
    by (auto simp: matrix_ok_def sample_matrix_def im_wf_def cell_key_ok_def level_state_ok_def level_default_def has_char_def)
  from matrix_roundtrip [OF this] show ?thesis by (auto simp: matrix_eqv_def sample_matrix_def)
qed

text \<open>
  Preferences: a loaded window is at least \<open>820\<close> by \<open>480\<close> and fits an \<^verbatim>\<open>i32\<close>, the tray icon is white
  or black, and valid preferences written out and read back are the same preferences.
\<close>

theorem preferences_roundtrip:
  assumes "json_wf v" and "preferences_from_value serde v = Inr p"
  shows "preferences_ok p \<and>
    (\<exists>q. preferences_from_value serde (preferences_to_value p) = Inr q \<and> preferences_eqv p q)"
  using preferences_from_value_ok [OF assms(2,1)] preferences_roundtrip_lemma [of p serde] by blast

theorem preferences_roundtrip_witness:
  "\<exists>p. preferences_from_value (\<lambda>_. []) (JObject [(''width'', json_i32 7)]) = Inr p \<and> preferences_ok p \<and> pf_width p = 820"
proof -
  have g: "decode_geometry ''width'' 820 (json_i32 7) = Inr 820"
    by (simp add: decode_geometry_def json_i32_def unsigned_of_int)
  have n: "preferences_from_value (\<lambda>_. []) (JObject [(''width'', json_i32 7)]) = Inr (preferences_default\<lparr>pf_width := 820\<rparr>)"
    unfolding preferences_from_value_def json_object_def json.case rbind_simps
    by (simp add: take_opt_def take_bool_def take_string_def im_swap_remove_def g preferences_default_def ensure_def
        cong: rbind_weak_cong)
  have w: "json_wf (JObject [(''width'', json_i32 7)])" by (simp add: im_wf_def json_i32_def)
  show ?thesis using preferences_roundtrip [OF w n] n by (auto simp: preferences_default_def)
qed


end
