(* ===== verification/Fx_Graph.thy ===== *)
theory Fx_Graph
  imports Model
begin

text \<open>
  The rendering part of \<^verbatim>\<open>crates/openwave-core/src/effects.rs\<close>: the filter-chain configuration
  that applies the effects of a microphone. The graph is built the way the code builds it, stage
  by stage and channel by channel; the document is a JSON value, printed by the parameter
  \<open>pretty\<close> (\<^verbatim>\<open>serde_json::to_string_pretty\<close>).
\<close>

definition FX_NODE_PREFIX :: string where "FX_NODE_PREFIX = ''openwave_fx_''"

definition toggle_fx :: "source \<Rightarrow> string \<Rightarrow> fx_settings res" where
  "toggle_fx s key =
     (if src_kind s \<noteq> Device then Inl (error_invalid ''effects require a device source'')
      else fx_toggle (case src_fx s of None \<Rightarrow> fx_default | Some fx \<Rightarrow> fx) key)"

definition fx_node_name :: "source_id \<Rightarrow> string" where
  "fx_node_name s = FX_NODE_PREFIX @ s"

definition validate_raw_node :: "string \<Rightarrow> unit res" where
  "validate_raw_node node =
     (if node = [] \<or> has_char nul node \<or> node = ''0'' \<or> node = ''-1'' \<or> starts_with FX_NODE_PREFIX node
      then Inl (error_invalid ''select a raw microphone node'') else Inr ())"

definition capture_channels :: "u32 option \<Rightarrow> u32 res" where
  "capture_channels observed =
     (let n = (case observed of None \<Rightarrow> 2 | Some n \<Rightarrow> n)
      in if n = 1 \<or> n = 2 then Inr n
         else Inl (error_invalid ''capture must have one or two channels''))"

subsection \<open>The graph\<close>

definition num :: "int \<Rightarrow> json" where
  "num k = json_f64 (FFin (k < 0) (of_int \<bar>k\<bar>))"

text \<open>The double nearest to \<open>0.70710678\<close>.\<close>

definition q_butterworth :: json where
  "q_butterworth = json_f64 (f64_of_rat (70710678 / 100000000))"

record fx_graph =
  fg_nodes :: "json list"
  fg_links :: "json list"
  fg_inputs :: "string list"
  fg_outputs :: "string list"

type_synonym fx_strip = "(string \<times> string) list"

text \<open>The closure \<^verbatim>\<open>add\<close>: one node and its pair of ports at the end of the strip.\<close>

definition fx_add ::
  "nat \<Rightarrow> string \<Rightarrow> string \<Rightarrow> json \<Rightarrow> string option \<Rightarrow> json option \<Rightarrow> json list \<times> fx_strip \<Rightarrow> json list \<times> fx_strip" where
  "fx_add channel label0 label control plugin config st = (case st of (nodes, strip) \<Rightarrow>
     let name = label0 @ ''_'' @ show_nat channel;
         node = JObject
           ([(''type'', JString (if plugin \<noteq> None then ''ladspa'' else ''builtin'')),
             (''name'', JString name), (''label'', JString label), (''control'', control)] @
            (case plugin of None \<Rightarrow> [] | Some p \<Rightarrow> [(''plugin'', JString p)]) @
            (case config of None \<Rightarrow> [] | Some c \<Rightarrow> [(''config'', c)]))
     in (nodes @ [node],
         strip @ [(name @ (if plugin \<noteq> None then '':Input'' else '':In''),
                   name @ (if plugin \<noteq> None then '':Output'' else '':Out''))]))"

definition fx_lowcut_stage where
  "fx_lowcut_stage s c = fx_add c ''hp'' ''bq_highpass''
     (JObject [(''Freq'', json_u16 (fx_lowcut s)), (''Q'', q_butterworth)]) None None"

definition fx_gate_stage where
  "fx_gate_stage s c = fx_add c ''gate'' ''gate''
     (JObject [(''Threshold (dB)'', json_f64 (fx_gate_thresh s)), (''Attack (ms)'', num 10), (''Hold (ms)'', num 120),
       (''Decay (ms)'', num 150), (''Range (dB)'', num (- 70)), (''LF key filter (Hz)'', num 40),
       (''HF key filter (Hz)'', num 20000),
       (''Output select (-1 = key listen, 0 = gate, 1 = bypass)'', num 0)]) (Some ''gate_1410'') None"

definition fx_comp_stage where
  "fx_comp_stage s c = fx_add c ''comp'' ''sc4m''
     (JObject [(''Threshold level (dB)'', json_f64 (fx_comp_thresh s)), (''Ratio (1:n)'', json_f64 (fx_comp_ratio s)),
       (''RMS/peak'', num 0), (''Attack time (ms)'', num 15), (''Release time (ms)'', num 150),
       (''Knee radius (dB)'', num 3), (''Makeup gain (dB)'', num 0)]) (Some ''sc4m_1916'') None"

definition fx_eq_stage where
  "fx_eq_stage c key label frequency gain = fx_add c key label
     (JObject [(''Freq'', num frequency), (''Gain'', json_f64 gain), (''Q'', q_butterworth)]) None None"

definition fx_delay_stage where
  "fx_delay_stage s c = fx_add c ''delay'' ''delay''
     (JObject [(''Delay (s)'', json_f64 (f64_div (fx_delay_ms s) (FFin False 1000)))]) None
     (Some (JObject [(''max-delay'', num 1)]))"

definition nonzero :: "f64 \<Rightarrow> bool" where
  "nonzero x \<longleftrightarrow> \<not> f64_eq x (FFin False 0)"

definition fx_strip_of :: "fx_settings \<Rightarrow> nat \<Rightarrow> json list \<Rightarrow> json list \<times> fx_strip" where
  "fx_strip_of s c nodes =
     (let st = (nodes, []);
          st = (if fx_lowcut s \<noteq> 0 then fx_lowcut_stage s c st else st);
          st = (if fx_gate s then fx_gate_stage s c st else st);
          st = (if fx_comp s \<and> f64_gt (fx_comp_ratio s) (FFin False 1) then fx_comp_stage s c st else st);
          st = (if nonzero (fx_eq_low s) then fx_eq_stage c ''eq_low'' ''bq_lowshelf'' 100 (fx_eq_low s) st else st);
          st = (if nonzero (fx_eq_mid s) then fx_eq_stage c ''eq_mid'' ''bq_peaking'' 1000 (fx_eq_mid s) st else st);
          st = (if nonzero (fx_eq_high s) then fx_eq_stage c ''eq_high'' ''bq_highshelf'' 8000 (fx_eq_high s) st else st);
          st = (if nonzero (fx_delay_ms s) then fx_delay_stage s c st else st)
      in case st of (nodes, strip) \<Rightarrow>
         if strip = [] then
           (let name = ''thru_'' @ show_nat c in
             (nodes @ [JObject [(''type'', JString ''builtin''), (''name'', JString name), (''label'', JString ''copy'')]],
              [(name @ '':In'', name @ '':Out'')]))
         else (nodes, strip))"

definition fx_link :: "string \<Rightarrow> string \<Rightarrow> json" where
  "fx_link out inp = JObject [(''output'', JString out), (''input'', JString inp)]"

definition fx_channel :: "fx_settings \<Rightarrow> bool \<Rightarrow> fx_graph \<Rightarrow> nat \<Rightarrow> fx_graph" where
  "fx_channel s downmix g c =
     (let (nodes, strip) = fx_strip_of s c (fg_nodes g);
          links = fg_links g @ map (\<lambda>(a, b). fx_link (snd a) (fst b)) (zip strip (tl strip))
      in g\<lparr>fg_nodes := nodes,
           fg_links := (if downmix then links @ [fx_link ''downmix:Out'' (fst (hd strip))] else links),
           fg_inputs := (if downmix then fg_inputs g else fg_inputs g @ [fst (hd strip)]),
           fg_outputs := fg_outputs g @ [snd (last strip)]\<rparr>)"

definition fx_downmix :: json where
  "fx_downmix = JObject [(''type'', JString ''builtin''), (''name'', JString ''downmix''), (''label'', JString ''mixer''),
     (''control'', JObject [(''Gain 1'', json_f64 (FFin False (1 / 2))), (''Gain 2'', json_f64 (FFin False (1 / 2)))])]"

definition output_channels :: "fx_settings \<Rightarrow> u32 \<Rightarrow> u32" where
  "output_channels s channels = (if fx_mono s then 1 else channels)"

definition fx_graph_of :: "fx_settings \<Rightarrow> u32 \<Rightarrow> fx_graph" where
  "fx_graph_of s channels =
     (let downmix = (fx_mono s \<and> channels = 2);
          start = \<lparr>fg_nodes = (if downmix then [fx_downmix] else []), fg_links = [],
            fg_inputs = (if downmix then [''downmix:In 1'', ''downmix:In 2''] else []), fg_outputs = []\<rparr>
      in foldl (fx_channel s downmix) start [0..<unat (output_channels s channels)])"

subsection \<open>The document\<close>

definition jint :: "int \<Rightarrow> json" where
  "jint i = JNumber (if 0 \<le> i then PosInt (word_of_int i) else NegInt i)"

definition positions :: "u32 \<Rightarrow> json" where
  "positions channels = JArray (map JString (if channels = 1 then [''MONO''] else [''FL'', ''FR'']))"

definition fx_args :: "source \<Rightarrow> fx_settings \<Rightarrow> u32 \<Rightarrow> string \<Rightarrow> json" where
  "fx_args src s channels own =
     (let g = fx_graph_of s channels; node_name = fx_node_name (src_id src);
          description = ''OpenWave FX: '' @ src_name src; out = output_channels s channels
      in JObject
        [(''node.description'', JString description), (''media.name'', JString node_name), (''audio.rate'', jint 48000),
         (''filter.graph'', JObject
           [(''nodes'', JArray (fg_nodes g)), (''links'', JArray (fg_links g)),
            (''inputs'', JArray (map JString (fg_inputs g))), (''outputs'', JArray (map JString (fg_outputs g)))]),
         (''capture.props'', JObject
           [(''node.name'', JString (node_name @ ''_cap'')), (''media.name'', JString (node_name @ ''_cap'')),
            (''target.object'', JString (src_node_name src)), (''node.passive'', JBool True),
            (''node.dont-reconnect'', JBool True), (''application.name'', JString ''OpenWave''),
            (''node.dont-fallback'', JBool True), (''node.dont-move'', JBool True),
            (''node.description'', JString (description @ '' (capture)'')), (''audio.channels'', json_u32 channels),
            (''audio.position'', positions channels), (''openwave.owner'', JString own)]),
         (''playback.props'', JObject
           [(''node.name'', JString node_name), (''media.name'', JString node_name),
            (''media.class'', JString ''Audio/Source''), (''application.name'', JString ''OpenWave''),
            (''node.description'', JString description), (''audio.channels'', json_u32 out),
            (''audio.position'', positions out), (''openwave.owner'', JString own)])])"

definition module_named :: "string \<Rightarrow> (string \<times> json) list \<Rightarrow> json" where
  "module_named name rest = JObject ((''name'', JString (''libpipewire-module-'' @ name)) # rest)"

definition fx_config :: "json \<Rightarrow> json" where
  "fx_config args = JObject
     [(''context.properties'', JObject [(''log.level'', jint 2)]),
      (''context.spa-libs'', JObject [(''audio.convert.*'', JString ''audioconvert/libspa-audioconvert''),
         (''support.*'', JString ''support/libspa-support'')]),
      (''context.modules'', JArray
        [module_named ''rt'' [(''args'', JObject [(''nice.level'', jint (- 11))]),
            (''flags'', JArray [JString ''ifexists'', JString ''nofail''])],
         module_named ''protocol-native'' [], module_named ''client-node'' [], module_named ''adapter'' [],
         module_named ''filter-chain'' [(''args'', args)]])]"

definition render_fx_config ::
  "(json \<Rightarrow> string) \<Rightarrow> source \<Rightarrow> u32 \<Rightarrow> string \<Rightarrow> string option res" where
  "render_fx_config pretty src channels own =
     rbind (case src_fx src of None \<Rightarrow> Inr fx_default | Some fx \<Rightarrow> fx_validated fx) (\<lambda>s.
     rbind (capture_channels (Some channels)) (\<lambda>_.
       if \<not> fx_active s then Inr None
       else
         rbind (validate_raw_node (src_node_name src)) (\<lambda>_.
         if has_char nul (src_name src) then Inl (error_invalid ''source name must not contain NUL'')
         else if own = [] \<or> has_char nul own then Inl (error_invalid ''invalid effect owner'')
         else Inr (Some (pretty (fx_config (fx_args src s channels own)) @ [CHR 0x0A])))))"

subsection \<open>Ports\<close>

definition jstr :: "json \<Rightarrow> string \<Rightarrow> string" where
  "jstr j key = (case jget j key of Some (JString s) \<Rightarrow> s | _ \<Rightarrow> [])"

text \<open>The ports of a node, by PipeWire's naming of its built-in, LADSPA and mixer nodes.\<close>

definition in_ports :: "json \<Rightarrow> string list" where
  "in_ports node =
     (if jstr node ''label'' = ''mixer'' then [jstr node ''name'' @ '':In 1'', jstr node ''name'' @ '':In 2'']
      else [jstr node ''name'' @ (if jstr node ''type'' = ''ladspa'' then '':Input'' else '':In'')])"

definition out_ports :: "json \<Rightarrow> string list" where
  "out_ports node = [jstr node ''name'' @ (if jstr node ''type'' = ''ladspa'' then '':Output'' else '':Out'')]"

definition in_port :: "json \<Rightarrow> string" where "in_port z = hd (in_ports z)"
definition out_port :: "json \<Rightarrow> string" where "out_port z = hd (out_ports z)"

text \<open>The stages a strip has, in order.\<close>

definition stage_names :: "fx_settings \<Rightarrow> string list" where
  "stage_names s =
     (let ks = (if fx_lowcut s \<noteq> 0 then [''hp''] else []) @ (if fx_gate s then [''gate''] else []) @
           (if fx_comp s \<and> f64_gt (fx_comp_ratio s) (FFin False 1) then [''comp''] else []) @
           (if nonzero (fx_eq_low s) then [''eq_low''] else []) @ (if nonzero (fx_eq_mid s) then [''eq_mid''] else []) @
           (if nonzero (fx_eq_high s) then [''eq_high''] else []) @ (if nonzero (fx_delay_ms s) then [''delay''] else [])
      in if ks = [] then [''thru''] else ks)"

lemma stage_names_ok: "stage_names s \<noteq> []" "distinct (stage_names s)" "list_all (\<lambda>k. CHR '':'' \<notin> set k) (stage_names s)"
  by (simp_all add: stage_names_def Let_def)

definition stage_node :: "nat \<Rightarrow> string \<Rightarrow> json \<Rightarrow> bool" where
  "stage_node c k z \<longleftrightarrow> jstr z ''name'' = k @ ''_'' @ show_nat c \<and> jstr z ''label'' \<noteq> ''mixer''"

definition strip_inv :: "nat \<Rightarrow> json list \<Rightarrow> string list \<Rightarrow> json list \<times> fx_strip \<Rightarrow> bool" where
  "strip_inv c nodes ks st \<longleftrightarrow> (\<exists>zs. fst st = nodes @ zs \<and> snd st = map (\<lambda>z. (in_port z, out_port z)) zs \<and>
     list_all2 (stage_node c) ks zs)"

lemma fx_add_inv:
  assumes "strip_inv c nodes ks st" and "label \<noteq> ''mixer''"
  shows "strip_inv c nodes (ks @ [k]) (fx_add c k label control plugin config st)"
proof -
  obtain zs where zs: "st = (nodes @ zs, map (\<lambda>z. (in_port z, out_port z)) zs)" "list_all2 (stage_node c) ks zs"
    using assms(1) by (cases st) (auto simp: strip_inv_def)
  let ?z = "JObject
           ([(''type'', JString (if plugin \<noteq> None then ''ladspa'' else ''builtin'')),
             (''name'', JString (k @ ''_'' @ show_nat c)), (''label'', JString label), (''control'', control)] @
            (case plugin of None \<Rightarrow> [] | Some p \<Rightarrow> [(''plugin'', JString p)]) @
            (case config of None \<Rightarrow> [] | Some c \<Rightarrow> [(''config'', c)]))"
  have j: "jstr ?z ''name'' = k @ ''_'' @ show_nat c" "jstr ?z ''label'' = label"
    "jstr ?z ''type'' = (if plugin \<noteq> None then ''ladspa'' else ''builtin'')"
    by (simp_all add: jstr_def jget_def)
  have "in_port ?z = k @ ''_'' @ show_nat c @ (if plugin \<noteq> None then '':Input'' else '':In'')"
    "out_port ?z = k @ ''_'' @ show_nat c @ (if plugin \<noteq> None then '':Output'' else '':Out'')"
    using assms(2) unfolding in_port_def out_port_def in_ports_def out_ports_def j by simp_all
  moreover have "stage_node c k ?z" using assms(2) unfolding stage_node_def j by simp
  ultimately show ?thesis
    unfolding strip_inv_def zs(1) fx_add_def using zs(2)
    by (intro exI [of _ "zs @ [?z]"]) (simp add: Let_def list_all2_appendI)
qed

lemma stage_inv:
  assumes "strip_inv c nodes ks st"
  shows "strip_inv c nodes (ks @ (if b then [''hp''] else [])) (if b then fx_lowcut_stage s c st else st)"
    and "strip_inv c nodes (ks @ (if b then [''gate''] else [])) (if b then fx_gate_stage s c st else st)"
    and "strip_inv c nodes (ks @ (if b then [''comp''] else [])) (if b then fx_comp_stage s c st else st)"
    and "strip_inv c nodes (ks @ (if b then [''delay''] else [])) (if b then fx_delay_stage s c st else st)"
    and "label \<noteq> ''mixer'' \<Longrightarrow>
      strip_inv c nodes (ks @ (if b then [k] else [])) (if b then fx_eq_stage c k label fr gain st else st)"
  using assms by (auto simp: fx_lowcut_stage_def fx_gate_stage_def fx_comp_stage_def fx_delay_stage_def fx_eq_stage_def intro!: fx_add_inv)

lemma fx_strip_of_inv: "strip_inv c nodes (stage_names s) (fx_strip_of s c nodes)"
proof -
  define st0 where "st0 = (nodes, [] :: fx_strip)"
  define st1 where "st1 = (if fx_lowcut s \<noteq> 0 then fx_lowcut_stage s c st0 else st0)"
  define st2 where "st2 = (if fx_gate s then fx_gate_stage s c st1 else st1)"
  define st3 where "st3 = (if fx_comp s \<and> f64_gt (fx_comp_ratio s) (FFin False 1) then fx_comp_stage s c st2 else st2)"
  define st4 where "st4 = (if nonzero (fx_eq_low s) then fx_eq_stage c ''eq_low'' ''bq_lowshelf'' 100 (fx_eq_low s) st3 else st3)"
  define st5 where "st5 = (if nonzero (fx_eq_mid s) then fx_eq_stage c ''eq_mid'' ''bq_peaking'' 1000 (fx_eq_mid s) st4 else st4)"
  define st6 where "st6 = (if nonzero (fx_eq_high s) then fx_eq_stage c ''eq_high'' ''bq_highshelf'' 8000 (fx_eq_high s) st5 else st5)"
  define st7 where "st7 = (if nonzero (fx_delay_ms s) then fx_delay_stage s c st6 else st6)"
  define ks where "ks = (if fx_lowcut s \<noteq> 0 then [''hp''] else []) @ (if fx_gate s then [''gate''] else []) @
           (if fx_comp s \<and> f64_gt (fx_comp_ratio s) (FFin False 1) then [''comp''] else []) @
           (if nonzero (fx_eq_low s) then [''eq_low''] else []) @ (if nonzero (fx_eq_mid s) then [''eq_mid''] else []) @
           (if nonzero (fx_eq_high s) then [''eq_high''] else []) @ (if nonzero (fx_delay_ms s) then [''delay''] else [])"
  have i0: "strip_inv c nodes [] st0" by (simp add: st0_def strip_inv_def)
  have i1: "strip_inv c nodes ([] @ (if fx_lowcut s \<noteq> 0 then [''hp''] else [])) st1"
    unfolding st1_def by (rule stage_inv(1) [OF i0])
  have i2: "strip_inv c nodes (([] @ (if fx_lowcut s \<noteq> 0 then [''hp''] else [])) @ (if fx_gate s then [''gate''] else [])) st2"
    unfolding st2_def by (rule stage_inv(2) [OF i1])
  have i3: "strip_inv c nodes ((([] @ (if fx_lowcut s \<noteq> 0 then [''hp''] else [])) @ (if fx_gate s then [''gate''] else [])) @ (if fx_comp s \<and> f64_gt (fx_comp_ratio s) (FFin False 1) then [''comp''] else [])) st3"
    unfolding st3_def by (rule stage_inv(3) [OF i2])
  have i4: "strip_inv c nodes (((([] @ (if fx_lowcut s \<noteq> 0 then [''hp''] else [])) @ (if fx_gate s then [''gate''] else [])) @ (if fx_comp s \<and> f64_gt (fx_comp_ratio s) (FFin False 1) then [''comp''] else [])) @ (if nonzero (fx_eq_low s) then [''eq_low''] else [])) st4"
    unfolding st4_def by (rule stage_inv(5) [OF i3], simp)
  have i5: "strip_inv c nodes ((((([] @ (if fx_lowcut s \<noteq> 0 then [''hp''] else [])) @ (if fx_gate s then [''gate''] else [])) @ (if fx_comp s \<and> f64_gt (fx_comp_ratio s) (FFin False 1) then [''comp''] else [])) @ (if nonzero (fx_eq_low s) then [''eq_low''] else [])) @ (if nonzero (fx_eq_mid s) then [''eq_mid''] else [])) st5"
    unfolding st5_def by (rule stage_inv(5) [OF i4], simp)
  have i6: "strip_inv c nodes (((((([] @ (if fx_lowcut s \<noteq> 0 then [''hp''] else [])) @ (if fx_gate s then [''gate''] else [])) @ (if fx_comp s \<and> f64_gt (fx_comp_ratio s) (FFin False 1) then [''comp''] else [])) @ (if nonzero (fx_eq_low s) then [''eq_low''] else [])) @ (if nonzero (fx_eq_mid s) then [''eq_mid''] else [])) @ (if nonzero (fx_eq_high s) then [''eq_high''] else [])) st6"
    unfolding st6_def by (rule stage_inv(5) [OF i5], simp)
  have i7: "strip_inv c nodes ((((((([] @ (if fx_lowcut s \<noteq> 0 then [''hp''] else [])) @ (if fx_gate s then [''gate''] else [])) @ (if fx_comp s \<and> f64_gt (fx_comp_ratio s) (FFin False 1) then [''comp''] else [])) @ (if nonzero (fx_eq_low s) then [''eq_low''] else [])) @ (if nonzero (fx_eq_mid s) then [''eq_mid''] else [])) @ (if nonzero (fx_eq_high s) then [''eq_high''] else [])) @ (if nonzero (fx_delay_ms s) then [''delay''] else [])) st7"
    unfolding st7_def by (rule stage_inv(4) [OF i6])
  have inv: "strip_inv c nodes ks st7"
    using i7 by (simp only: ks_def append_assoc append_Nil)
  have run: "fx_strip_of s c nodes = (case st7 of (nodes, strip) \<Rightarrow>
         if strip = [] then
           (let name = ''thru_'' @ show_nat c in
             (nodes @ [JObject [(''type'', JString ''builtin''), (''name'', JString name), (''label'', JString ''copy'')]],
              [(name @ '':In'', name @ '':Out'')]))
         else (nodes, strip))"
    unfolding fx_strip_of_def Let_def st7_def st6_def st5_def st4_def st3_def st2_def st1_def st0_def ..
  obtain zs where zs: "st7 = (nodes @ zs, map (\<lambda>z. (in_port z, out_port z)) zs)" "list_all2 (stage_node c) ks zs"
    using inv by (cases st7) (auto simp: strip_inv_def)
  have names: "stage_names s = (if ks = [] then [''thru''] else ks)"
    by (simp add: stage_names_def ks_def Let_def)
  show ?thesis
  proof (cases "zs = []")
    case True
    let ?z = "JObject [(''type'', JString ''builtin''), (''name'', JString (''thru_'' @ show_nat c)), (''label'', JString ''copy'')]"
    have "stage_node c ''thru'' ?z" "in_port ?z = ''thru_'' @ show_nat c @ '':In''" "out_port ?z = ''thru_'' @ show_nat c @ '':Out''"
      by (simp_all add: stage_node_def in_port_def in_ports_def out_port_def out_ports_def jstr_def jget_def)
    then show ?thesis using True zs(2)
      unfolding run zs(1) names strip_inv_def by (intro exI [of _ "[?z]"]) (simp add: Let_def)
  next
    case False
    then show ?thesis using zs unfolding run zs(1) names strip_inv_def by (intro exI [of _ zs]) auto
  qed
qed

lemma zip_tl_map: "zip (map f zs) (tl (map f zs)) = map (\<lambda>(a, b). (f a, f b)) (zip zs (tl zs))"
  by (induction zs rule: induct_list012) auto

lemma fx_channel_step:
  obtains zs where "list_all2 (stage_node c) (stage_names s) zs" and "zs \<noteq> []"
    and "fg_nodes (fx_channel s dm g c) = fg_nodes g @ zs"
    and "fg_links (fx_channel s dm g c) = fg_links g @ map (\<lambda>(a, b). fx_link (out_port a) (in_port b)) (zip zs (tl zs)) @
      (if dm then [fx_link ''downmix:Out'' (in_port (hd zs))] else [])"
    and "fg_inputs (fx_channel s dm g c) = fg_inputs g @ (if dm then [] else [in_port (hd zs)])"
    and "fg_outputs (fx_channel s dm g c) = fg_outputs g @ [out_port (last zs)]"
proof -
  obtain zs where zs: "fx_strip_of s c (fg_nodes g) = (fg_nodes g @ zs, map (\<lambda>z. (in_port z, out_port z)) zs)"
    "list_all2 (stage_node c) (stage_names s) zs"
    using fx_strip_of_inv [of c "fg_nodes g" s] by (cases "fx_strip_of s c (fg_nodes g)") (auto simp: strip_inv_def)
  have ne: "zs \<noteq> []" using zs(2) stage_names_ok(1) [of s] by auto
  have z: "zip (map f zs) (tl (map f zs)) = map (\<lambda>(a, b). (f a, f b)) (zip zs (tl zs))" for f :: "json \<Rightarrow> string \<times> string"
    by (rule zip_tl_map)
  show thesis
    by (rule that [OF zs(2) ne]) (use ne in \<open>simp_all add: fx_channel_def Let_def zs(1) z hd_map last_map comp_def case_prod_unfold\<close>)
qed

definition link_out :: "json \<Rightarrow> string" where "link_out l = jstr l ''output''"
definition link_in :: "json \<Rightarrow> string" where "link_in l = jstr l ''input''"

lemma link_ends [simp]: "link_out (fx_link a b) = a" "link_in (fx_link a b) = b"
  by (simp_all add: link_out_def link_in_def fx_link_def jstr_def jget_def)

lemma chain_ins: "zs \<noteq> [] \<Longrightarrow> add_mset (f (hd zs)) (mset (map f (tl zs))) = mset (map f zs)"
  by (cases zs) auto

lemma chain_outs: "zs \<noteq> [] \<Longrightarrow> add_mset (f (last zs)) (mset (map (\<lambda>(a, b). f a) (zip zs (tl zs)))) = mset (map f zs)"
  by (induction zs rule: induct_list012) auto

lemma chain_in_map: "map (\<lambda>(a, b). f b) (zip zs (tl zs)) = map f (tl zs)"
  by (induction zs rule: induct_list012) auto

text \<open>The channel of a port: the number behind the last underscore of its node's name.\<close>

definition port_channel :: "string \<Rightarrow> string option" where
  "port_channel p = map_option snd (Option.bind (split_once (CHR '':'') p) (\<lambda>(node, _). rsplit_once (CHR ''_'') node))"

lemma stage_ports:
  assumes "stage_node c k z" and "CHR '':'' \<notin> set k"
  shows "in_ports z = [in_port z]" and "out_ports z = [out_port z]"
    and "port_channel (in_port z) = Some (show_nat c)" and "port_channel (out_port z) = Some (show_nat c)"
proof -
  have nd: "CHR ''_'' \<notin> set (show_nat c)" "CHR '':'' \<notin> set (show_nat c)"
    using show_nat_digits [of c] by (auto simp: list_all_iff ascii_digit_def less_eq_char_def)
  have r: "rsplit_once (CHR ''_'') (k @ CHR ''_'' # show_nat c) = Some (k, show_nat c)"
    using nd by (simp add: rsplit_once_Some_iff)
  have pc: "port_channel (k @ ''_'' @ show_nat c @ CHR '':'' # rest) = Some (show_nat c)" for rest
  proof -
    have "split_once (CHR '':'') ((k @ CHR ''_'' # show_nat c) @ CHR '':'' # rest) = Some (k @ CHR ''_'' # show_nat c, rest)"
      using assms(2) nd by (intro split_once_append) auto
    then show ?thesis using r by (simp add: port_channel_def)
  qed
  show "in_ports z = [in_port z]" and "out_ports z = [out_port z]"
    using assms(1) by (simp_all add: in_port_def in_ports_def out_port_def out_ports_def stage_node_def)
  show "port_channel (in_port z) = Some (show_nat c)" and "port_channel (out_port z) = Some (show_nat c)"
    using assms(1) pc [of "''Input''"] pc [of "''In''"] pc [of "''Output''"] pc [of "''Out''"]
    by (simp_all add: in_port_def in_ports_def out_port_def out_ports_def stage_node_def)
qed

lemma strip_ports:
  assumes "list_all2 (stage_node c) (stage_names s) zs"
  shows "concat (map in_ports zs) = map in_port zs" and "concat (map out_ports zs) = map out_port zs"
    and "list_all (\<lambda>z. port_channel (in_port z) = Some (show_nat c) \<and> port_channel (out_port z) = Some (show_nat c)) zs"
    and "map (\<lambda>z. jstr z ''name'') zs = map (\<lambda>k. k @ ''_'' @ show_nat c) (stage_names s)"
proof -
  have "list_all2 (\<lambda>k z. stage_node c k z \<and> CHR '':'' \<notin> set k) ks zs"
    if "list_all2 (stage_node c) ks zs" "list_all (\<lambda>k. CHR '':'' \<notin> set k) ks" for ks
    using that by (induction rule: list_all2_induct) auto
  from this [OF assms stage_names_ok(3)]
  have "concat (map in_ports zs) = map in_port zs \<and> concat (map out_ports zs) = map out_port zs \<and>
      list_all (\<lambda>z. port_channel (in_port z) = Some (show_nat c) \<and> port_channel (out_port z) = Some (show_nat c)) zs \<and>
      map (\<lambda>z. jstr z ''name'') zs = map (\<lambda>k. k @ ''_'' @ show_nat c) (stage_names s)"
    by (induction rule: list_all2_induct) (auto simp: stage_ports, simp_all add: stage_node_def)
  then show "concat (map in_ports zs) = map in_port zs" and "concat (map out_ports zs) = map out_port zs"
    and "list_all (\<lambda>z. port_channel (in_port z) = Some (show_nat c) \<and> port_channel (out_port z) = Some (show_nat c)) zs"
    and "map (\<lambda>z. jstr z ''name'') zs = map (\<lambda>k. k @ ''_'' @ show_nat c) (stage_names s)" by blast+
qed

text \<open>What one channel adds to the ports and links.\<close>

lemma fx_channel_ports:
  fixes g s dm c
  defines "g' \<equiv> fx_channel s dm g c"
  shows "mset (map link_in (fg_links g)) + mset (fg_inputs g) = mset (concat (map in_ports (fg_nodes g))) \<Longrightarrow>
      mset (map link_in (fg_links g')) + mset (fg_inputs g') = mset (concat (map in_ports (fg_nodes g')))"
    and "mset (map link_out (fg_links g)) + mset (fg_outputs g) + (if dm then {#''downmix:Out''#} else {#}) =
        mset (concat (map out_ports (fg_nodes g))) \<Longrightarrow>
      mset (map link_out (fg_links g')) + mset (fg_outputs g') = mset (concat (map out_ports (fg_nodes g')))"
    and "list_all (\<lambda>l. link_out l = ''downmix:Out'' \<or> port_channel (link_out l) = port_channel (link_in l)) (fg_links g) \<Longrightarrow>
      list_all (\<lambda>l. link_out l = ''downmix:Out'' \<or> port_channel (link_out l) = port_channel (link_in l)) (fg_links g')"
    and "map (\<lambda>z. jstr z ''name'') (fg_nodes g') =
      map (\<lambda>z. jstr z ''name'') (fg_nodes g) @ map (\<lambda>k. k @ ''_'' @ show_nat c) (stage_names s)"
    and "length (fg_inputs g') = length (fg_inputs g) + (if dm then 0 else 1)"
    and "length (fg_outputs g') = length (fg_outputs g) + 1"
proof -
  obtain zs where zs: "list_all2 (stage_node c) (stage_names s) zs" "zs \<noteq> []"
    and n: "fg_nodes g' = fg_nodes g @ zs"
    and l: "fg_links g' = fg_links g @ map (\<lambda>(a, b). fx_link (out_port a) (in_port b)) (zip zs (tl zs)) @
      (if dm then [fx_link ''downmix:Out'' (in_port (hd zs))] else [])"
    and i: "fg_inputs g' = fg_inputs g @ (if dm then [] else [in_port (hd zs)])"
    and o': "fg_outputs g' = fg_outputs g @ [out_port (last zs)]"
    unfolding g'_def by (rule fx_channel_step [of c s dm g]) blast
  note ports = strip_ports [OF zs(1)]
  have li: "map link_in (fg_links g') = map link_in (fg_links g) @ map in_port (tl zs) @ (if dm then [in_port (hd zs)] else [])"
    using chain_in_map [of in_port zs] by (simp add: l comp_def case_prod_unfold)
  have lo: "map link_out (fg_links g') = map link_out (fg_links g) @ map (\<lambda>(a, b). out_port a) (zip zs (tl zs)) @
      (if dm then [''downmix:Out''] else [])"
    by (simp add: l comp_def case_prod_unfold)
  show "mset (map link_in (fg_links g)) + mset (fg_inputs g) = mset (concat (map in_ports (fg_nodes g))) \<Longrightarrow>
      mset (map link_in (fg_links g')) + mset (fg_inputs g') = mset (concat (map in_ports (fg_nodes g')))"
  proof -
    assume h: "mset (map link_in (fg_links g)) + mset (fg_inputs g) = mset (concat (map in_ports (fg_nodes g)))"
    have c: "mset (map in_port zs) = add_mset (in_port (hd zs)) (mset (map in_port (tl zs)))"
      using chain_ins [OF zs(2)] by (rule sym)
    have "mset (map link_in (fg_links g')) + mset (fg_inputs g') =
        (mset (map link_in (fg_links g)) + mset (fg_inputs g)) + mset (map in_port zs)"
      unfolding li i c by (simp add: ac_simps)
    also have "\<dots> = mset (concat (map in_ports (fg_nodes g')))" by (simp only: h n ports(1) map_append concat_append mset_append)
    finally show ?thesis .
  qed
  show "mset (map link_out (fg_links g)) + mset (fg_outputs g) + (if dm then {#''downmix:Out''#} else {#}) =
        mset (concat (map out_ports (fg_nodes g))) \<Longrightarrow>
      mset (map link_out (fg_links g')) + mset (fg_outputs g') = mset (concat (map out_ports (fg_nodes g')))"
  proof -
    assume h: "mset (map link_out (fg_links g)) + mset (fg_outputs g) + (if dm then {#''downmix:Out''#} else {#}) =
        mset (concat (map out_ports (fg_nodes g)))"
    have c: "mset (map out_port zs) = add_mset (out_port (last zs)) (mset (map (\<lambda>(a, b). out_port a) (zip zs (tl zs))))"
      using chain_outs [OF zs(2)] by (rule sym)
    have "mset (map link_out (fg_links g')) + mset (fg_outputs g') =
        (mset (map link_out (fg_links g)) + mset (fg_outputs g) + (if dm then {#''downmix:Out''#} else {#})) + mset (map out_port zs)"
      unfolding lo o' c by (simp add: ac_simps)
    also have "\<dots> = mset (concat (map out_ports (fg_nodes g')))" by (simp only: h n ports(2) map_append concat_append mset_append)
    finally show ?thesis .
  qed
  show "list_all (\<lambda>l. link_out l = ''downmix:Out'' \<or> port_channel (link_out l) = port_channel (link_in l)) (fg_links g) \<Longrightarrow>
      list_all (\<lambda>l. link_out l = ''downmix:Out'' \<or> port_channel (link_out l) = port_channel (link_in l)) (fg_links g')"
  proof -
    assume h: "list_all (\<lambda>l. link_out l = ''downmix:Out'' \<or> port_channel (link_out l) = port_channel (link_in l)) (fg_links g)"
    have "port_channel (out_port a) = port_channel (in_port b)" if "(a, b) \<in> set (zip zs (tl zs))" for a b
    proof -
      have "a \<in> set zs" "b \<in> set zs"
        using that list.set_sel(2) [OF zs(2)] by (auto dest: set_zip_leftD set_zip_rightD)
      then show ?thesis using ports(3) by (simp add: list_all_iff)
    qed
    then have "list_all (\<lambda>l. link_out l = ''downmix:Out'' \<or> port_channel (link_out l) = port_channel (link_in l))
        (map (\<lambda>(a, b). fx_link (out_port a) (in_port b)) (zip zs (tl zs)))"
      by (auto simp: list_all_iff)
    then show ?thesis using h by (simp add: l)
  qed
  show "map (\<lambda>z. jstr z ''name'') (fg_nodes g') =
      map (\<lambda>z. jstr z ''name'') (fg_nodes g) @ map (\<lambda>k. k @ ''_'' @ show_nat c) (stage_names s)"
    using ports(4) by (simp add: n)
  show "length (fg_inputs g') = length (fg_inputs g) + (if dm then 0 else 1)" by (simp add: i)
  show "length (fg_outputs g') = length (fg_outputs g) + 1" by (simp add: o')
qed

lemma stage_name_inj: "inj (\<lambda>k. k @ ''_'' @ show_nat c)"
  by (rule injI) simp

lemma stage_names_disjoint: "k @ ''_'' @ show_nat 0 \<noteq> k' @ ''_'' @ show_nat 1"
  by (simp add: show_nat.simps digit_char_def)

lemma stage_not_downmix: "k @ ''_'' @ show_nat c \<noteq> ''downmix''"
proof
  assume "k @ ''_'' @ show_nat c = ''downmix''"
  then have "CHR ''_'' \<in> set ''downmix''" by (metis in_set_conv_decomp append_Cons append_Nil)
  then show False by simp
qed

lemma output_channels_cases:
  "channels = 1 \<or> channels = 2 \<Longrightarrow>
   [0..<unat (output_channels s channels)] = (if fx_mono s \<or> channels = 1 then [0] else [0, 1])"
  by (auto simp: output_channels_def upt_rec)

text \<open>Every port is connected exactly once, and no link crosses channels.\<close>

definition fx_connected :: "fx_graph \<Rightarrow> bool" where
  "fx_connected g \<longleftrightarrow> distinct (map (\<lambda>z. jstr z ''name'') (fg_nodes g)) \<and>
     mset (map link_in (fg_links g)) + mset (fg_inputs g) = mset (concat (map in_ports (fg_nodes g))) \<and>
     mset (map link_out (fg_links g)) + mset (fg_outputs g) = mset (concat (map out_ports (fg_nodes g))) \<and>
     list_all (\<lambda>l. link_out l = ''downmix:Out'' \<or> port_channel (link_out l) = port_channel (link_in l)) (fg_links g)"

lemma fx_graph_connected_lemma:
  assumes "channels = 1 \<or> channels = 2"
  shows "fx_connected (fx_graph_of s channels) \<and> length (fg_inputs (fx_graph_of s channels)) = unat channels \<and>
    length (fg_outputs (fx_graph_of s channels)) = unat (output_channels s channels)"
proof -
  have names: "distinct (map (\<lambda>k. k @ ''_'' @ show_nat c) (stage_names s))" for c
    using stage_names_ok(2) stage_name_inj by (metis distinct_map inj_on_subset subset_UNIV)
  define none :: fx_graph where "none = \<lparr>fg_nodes = [], fg_links = [], fg_inputs = [], fg_outputs = []\<rparr>"
  define mixed :: fx_graph where
    "mixed = \<lparr>fg_nodes = [fx_downmix], fg_links = [], fg_inputs = [''downmix:In 1'', ''downmix:In 2''], fg_outputs = []\<rparr>"
  have dm: "jstr fx_downmix ''name'' = ''downmix''" "in_ports fx_downmix = [''downmix:In 1'', ''downmix:In 2'']"
    "out_ports fx_downmix = [''downmix:Out'']"
    by (simp_all add: in_ports_def out_ports_def fx_downmix_def jstr_def jget_def)
  have one: "fx_connected (fx_channel s False none 0)" "length (fg_inputs (fx_channel s False none 0)) = 1"
    "length (fg_outputs (fx_channel s False none 0)) = 1"
    using fx_channel_ports [where g = none and s = s and dm = False and c = 0] names [of 0]
    by (simp_all add: fx_connected_def none_def)
  have two: "fx_connected (fx_channel s False (fx_channel s False none 0) 1)"
  proof -
    have "distinct (map (\<lambda>k. k @ ''_'' @ show_nat 0) (stage_names s) @ map (\<lambda>k. k @ ''_'' @ show_nat 1) (stage_names s))"
      using names [of 0] names [of 1] stage_names_disjoint by (auto simp del: append.simps)
    then show ?thesis
      using fx_channel_ports [where g = "fx_channel s False none 0" and s = s and dm = False and c = 1] one
        fx_channel_ports(4) [where g = none and s = s and dm = False and c = 0]
      by (simp add: fx_connected_def none_def)
  qed
  have mono: "fx_connected (fx_channel s True mixed 0)" "length (fg_inputs (fx_channel s True mixed 0)) = 2"
    "length (fg_outputs (fx_channel s True mixed 0)) = 1"
  proof -
    note ports = fx_channel_ports [where g = mixed and s = s and dm = True and c = 0]
    have m: "map (\<lambda>z. jstr z ''name'') (fg_nodes mixed) = [''downmix'']"
      "mset (map link_in (fg_links mixed)) + mset (fg_inputs mixed) = mset (concat (map in_ports (fg_nodes mixed)))"
      "mset (map link_out (fg_links mixed)) + mset (fg_outputs mixed) + (if True then {#''downmix:Out''#} else {#}) =
        mset (concat (map out_ports (fg_nodes mixed)))"
      "fg_links mixed = []" "length (fg_inputs mixed) = 2" "fg_outputs mixed = []"
      by (simp_all add: mixed_def dm)
    have "''downmix'' \<notin> set (map (\<lambda>k. k @ ''_'' @ show_nat 0) (stage_names s))"
      by (metis (no_types, lifting) imageE list.set_map stage_not_downmix)
    with names [of 0] have "distinct (''downmix'' # map (\<lambda>k. k @ ''_'' @ show_nat 0) (stage_names s))"
      by (simp only: distinct.simps simp_thms)
    then show "fx_connected (fx_channel s True mixed 0)"
      unfolding fx_connected_def ports(4) m(1)
      using ports(1) [OF m(2)] ports(2) [OF m(3)] ports(3) m(4) by simp
    show "length (fg_inputs (fx_channel s True mixed 0)) = 2" "length (fg_outputs (fx_channel s True mixed 0)) = 1"
      using ports(5,6) m(5,6) by simp_all
  qed
  have "fx_graph_of s channels = (if fx_mono s \<and> channels = 2 then fx_channel s True mixed 0
      else if fx_mono s \<or> channels = 1 then fx_channel s False none 0
      else fx_channel s False (fx_channel s False none 0) 1)"
    using assms output_channels_cases [OF assms, of s]
    by (auto simp: fx_graph_of_def Let_def none_def mixed_def)
  then show ?thesis
    using assms one two mono
      fx_channel_ports(5,6) [where g = "fx_channel s False none 0" and s = s and dm = False and c = 1]
    by (auto simp: output_channels_def)
qed

text \<open>C36. The filter graph of a microphone is connected: of the one or two channels \<^verbatim>\<open>capture_channels\<close>
  accepts, every port of every node is wired exactly once (by a link, or as a port of the graph), no
  link crosses channels but from the down-mix, the node names are distinct, and the graph takes the
  captured channels and gives the channels of the source (one when it is mono).\<close>

lemma fx_graph_connected:
  "case capture_channels (Some channels) of Inl e \<Rightarrow> channels \<noteq> 1 \<and> channels \<noteq> 2
   | Inr n \<Rightarrow> n = channels \<and> fx_connected (fx_graph_of s n) \<and> length (fg_inputs (fx_graph_of s n)) = unat n \<and>
       length (fg_outputs (fx_graph_of s n)) = unat (output_channels s n)"
  using fx_graph_connected_lemma [of channels s] by (auto simp: capture_channels_def)

lemma fx_args_props:
  "jget (fx_args src s channels own) ''capture.props'' = Some c \<Longrightarrow>
     jstr c ''target.object'' = src_node_name src \<and> jstr c ''node.name'' = FX_NODE_PREFIX @ src_id src @ ''_cap'' \<and>
     jstr c ''openwave.owner'' = own"
  "jget (fx_args src s channels own) ''playback.props'' = Some c \<Longrightarrow>
     jstr c ''node.name'' = FX_NODE_PREFIX @ src_id src \<and> jstr c ''openwave.owner'' = own"
  by (auto simp: fx_args_def Let_def jget_def jstr_def fx_node_name_def)

lemma fx_args_has_props:
  "jget (fx_args src s channels own) ''capture.props'' \<noteq> None" "jget (fx_args src s channels own) ''playback.props'' \<noteq> None"
  by (simp_all add: fx_args_def Let_def jget_def)

lemma fx_validated_error: "fx_validated fx = Inl e \<Longrightarrow> err_code e = Invalid"
  by (auto simp: fx_validated_def rbind_Inl_iff fx_field_def split: if_splits)

lemma fx_prefix: "starts_with FX_NODE_PREFIX (FX_NODE_PREFIX @ x)"
  by (simp add: starts_with_def)

lemma validate_raw_node_Inr: "validate_raw_node node = Inr u \<Longrightarrow> \<not> starts_with FX_NODE_PREFIX node"
  by (simp add: validate_raw_node_def split: if_splits)

lemma validate_raw_node_Inl: "validate_raw_node node = Inl e \<Longrightarrow> err_code e = Invalid"
  by (auto simp: validate_raw_node_def split: if_splits)

text \<open>Rendering an effect never builds a feedback loop: the document is written only for active
  settings that were validated, it captures from the raw node of the source, which is never a node
  of an effect, while its own two nodes are both named as effects and carry the owner; every
  refusal is an invalid-argument error.\<close>

lemma render_fx_config_safe:
  "case render_fx_config pretty src channels own of
     Inl e \<Rightarrow> err_code e = Invalid
   | Inr None \<Rightarrow> (\<exists>s. (case src_fx src of None \<Rightarrow> Inr fx_default | Some fx \<Rightarrow> fx_validated fx) = Inr s \<and> \<not> fx_active s)
   | Inr (Some doc) \<Rightarrow> (\<exists>s c p.
       doc = pretty (fx_config (fx_args src s channels own)) @ [CHR 0x0A] \<and>
       (case src_fx src of None \<Rightarrow> Inr fx_default | Some fx \<Rightarrow> fx_validated fx) = Inr s \<and> fx_active s \<and>
       jget (fx_args src s channels own) ''capture.props'' = Some c \<and>
       jget (fx_args src s channels own) ''playback.props'' = Some p \<and>
       jstr c ''target.object'' = src_node_name src \<and> \<not> starts_with FX_NODE_PREFIX (src_node_name src) \<and>
       starts_with FX_NODE_PREFIX (jstr c ''node.name'') \<and> starts_with FX_NODE_PREFIX (jstr p ''node.name'') \<and>
       jstr c ''openwave.owner'' = own \<and> jstr p ''openwave.owner'' = own \<and> own \<noteq> [])"
proof -
  let ?s = "case src_fx src of None \<Rightarrow> Inr fx_default | Some fx \<Rightarrow> fx_validated fx"
  show ?thesis
  proof (cases ?s)
    case (Inl e)
    then show ?thesis by (auto simp: render_fx_config_def dest: fx_validated_error split: option.splits)
  next
    case (Inr s)
    consider (channels) e where "capture_channels (Some channels) = Inl e" "err_code e = Invalid"
      | (idle) n where "capture_channels (Some channels) = Inr n" "\<not> fx_active s"
      | (raw) n e where "capture_channels (Some channels) = Inr n" "fx_active s" "validate_raw_node (src_node_name src) = Inl e"
      | (go) n u where "capture_channels (Some channels) = Inr n" "fx_active s" "validate_raw_node (src_node_name src) = Inr u"
      by (cases "capture_channels (Some channels)"; cases "validate_raw_node (src_node_name src)")
        (auto simp: capture_channels_def split: if_splits)
    then show ?thesis
    proof cases
      case channels
      with Inr show ?thesis by (simp add: render_fx_config_def)
    next
      case idle
      with Inr show ?thesis by (auto simp: render_fx_config_def split: option.splits)
    next
      case raw
      with Inr show ?thesis by (simp add: render_fx_config_def validate_raw_node_Inl)
    next
      case go
      obtain c p where cp: "jget (fx_args src s channels own) ''capture.props'' = Some c"
        "jget (fx_args src s channels own) ''playback.props'' = Some p"
        using fx_args_has_props by (metis not_None_eq)
      from go Inr show ?thesis
        using cp fx_args_props(1) [OF cp(1)] fx_args_props(2) [OF cp(2)] validate_raw_node_Inr [OF go(3)]
        by (auto simp: render_fx_config_def fx_prefix intro!: exI [of _ s])
    qed
  qed
qed

end
