(* ===== verification/Health.thy ===== *)
theory Health
  imports Protocol Index_Map
begin

text \<open>
  The watches of \<^verbatim>\<open>crates/openwave-core/src/health.rs\<close>: xrun storms of a capture
  (\<open>glitch_watch\<close>), the recovery budget of a capture (\<open>stall_watch\<close>), the two together
  (\<open>capture_watch\<close>), stalled sinks (\<open>sink_stall_watch\<close>) and the watch over both kinds
  of node (\<open>health_watch\<close>). A \<^verbatim>\<open>HashMap\<close> is a map, a \<^verbatim>\<open>HashSet\<close> the list of its
  elements, a \<^verbatim>\<open>Duration\<close> its nanoseconds. The locale \<open>recovery_budget\<close> is the contract the two
  budgets share.
\<close>

type_synonym duration = nat

definition from_secs :: "nat \<Rightarrow> duration" where "from_secs n = n * 1000000000"

definition GLITCH_XRUNS_PER_CHECK :: u64 where "GLITCH_XRUNS_PER_CHECK = 50"
definition GLITCH_CONFIRM_CHECKS :: u32 where "GLITCH_CONFIRM_CHECKS = 2"
definition STALL_SECONDS :: duration where "STALL_SECONDS = from_secs 8"
definition COOLDOWN :: duration where "COOLDOWN = from_secs 60"
definition MAX_ATTEMPTS :: u32 where "MAX_ATTEMPTS = 2"
definition CLEAN_REFILL :: duration where "CLEAN_REFILL = from_secs 300"
definition STALL_CLEAN_REFILL_CHECKS :: u32 where "STALL_CLEAN_REFILL_CHECKS = 6"

subsection \<open>Xruns of a capture\<close>

record glitch_state =
  gs_identity :: node_identity
  gs_previous :: u64
  gs_streak :: u32
  gs_delta :: "u64 option"

record glitch_watch =
  gw_threshold :: u64
  gw_confirm :: u32
  gw_states :: "string \<rightharpoonup> glitch_state"

definition glitch_new :: "u64 \<Rightarrow> u32 \<Rightarrow> glitch_watch" where
  "glitch_new threshold confirm = \<lparr>gw_threshold = threshold, gw_confirm = max confirm 1, gw_states = Map.empty\<rparr>"

definition glitch_default :: glitch_watch where
  "glitch_default = glitch_new GLITCH_XRUNS_PER_CHECK GLITCH_CONFIRM_CHECKS"

definition glitch_pause :: "glitch_watch \<Rightarrow> string \<Rightarrow> glitch_watch" where
  "glitch_pause w name = w\<lparr>gw_states := (gw_states w)(name := None)\<rparr>"

definition glitch_observe :: "glitch_watch \<Rightarrow> string \<Rightarrow> node_identity \<Rightarrow> u64 \<Rightarrow> bool \<times> glitch_watch" where
  "glitch_observe w name ident xruns =
     (let fresh = (False, w\<lparr>gw_states := (gw_states w)(name \<mapsto>
            \<lparr>gs_identity = ident, gs_previous = xruns, gs_streak = 0, gs_delta = None\<rparr>)\<rparr>)
      in case gw_states w name of
           None \<Rightarrow> fresh
         | Some st \<Rightarrow>
             if gs_identity st = ident \<and> gs_previous st \<le> xruns
             then (let delta = xruns - gs_previous st in
               (gw_threshold w \<le> delta, w\<lparr>gw_states := (gw_states w)(name \<mapsto> st\<lparr>gs_previous := xruns, gs_delta := Some delta,
                   gs_streak := (if gw_threshold w \<le> delta then saturating_add (gs_streak st) 1 else 0)\<rparr>)\<rparr>))
             else fresh)"

definition glitching :: "glitch_watch \<Rightarrow> string \<Rightarrow> bool" where
  "glitching w name = (case gw_states w name of None \<Rightarrow> False | Some s \<Rightarrow> gw_confirm w \<le> gs_streak s)"

definition just_confirmed :: "glitch_watch \<Rightarrow> string \<Rightarrow> bool" where
  "just_confirmed w name = (case gw_states w name of None \<Rightarrow> False | Some s \<Rightarrow> gs_streak s = gw_confirm w)"

definition last_delta :: "glitch_watch \<Rightarrow> string \<Rightarrow> u64 option" where
  "last_delta w name = Option.bind (gw_states w name) gs_delta"

subsection \<open>The recovery budget of a capture\<close>

record capture_incident =
  ci_attempts :: u32
  ci_last :: "duration option"
  ci_clean :: "(node_identity \<times> duration) option"

definition capture_incident_default :: capture_incident where
  "capture_incident_default = \<lparr>ci_attempts = 0, ci_last = None, ci_clean = None\<rparr>"

record stall_watch =
  sw_stall_seconds :: duration
  sw_cooldown :: duration
  sw_max_attempts :: u32
  sw_clean_refill :: duration
  sw_incidents :: "string \<rightharpoonup> capture_incident"

definition stall_new :: "duration \<Rightarrow> duration \<Rightarrow> u32 \<Rightarrow> duration \<Rightarrow> stall_watch" where
  "stall_new stall cooldown max_attempts refill =
     \<lparr>sw_stall_seconds = stall, sw_cooldown = cooldown, sw_max_attempts = max_attempts,
      sw_clean_refill = refill, sw_incidents = Map.empty\<rparr>"

definition stall_default :: stall_watch where
  "stall_default = stall_new STALL_SECONDS COOLDOWN MAX_ATTEMPTS CLEAN_REFILL"

definition stall_pause :: "stall_watch \<Rightarrow> string \<Rightarrow> stall_watch" where
  "stall_pause w name = (case sw_incidents w name of
       None \<Rightarrow> w
     | Some st \<Rightarrow> w\<lparr>sw_incidents := (sw_incidents w)(name \<mapsto> st\<lparr>ci_clean := None\<rparr>)\<rparr>)"

definition stall_spent :: "stall_watch \<Rightarrow> string \<Rightarrow> u32" where
  "stall_spent w name = (case sw_incidents w name of None \<Rightarrow> 0 | Some s \<Rightarrow> ci_attempts s)"

text \<open>\<^verbatim>\<open>last.is_none_or(|last| now.checked_sub(last).is_some_and(|elapsed| elapsed >= cooldown))\<close>\<close>

definition cooled :: "duration \<Rightarrow> duration option \<Rightarrow> duration \<Rightarrow> bool" where
  "cooled cooldown prev now = (case prev of None \<Rightarrow> True | Some l \<Rightarrow> l \<le> now \<and> cooldown \<le> now - l)"

definition stall_last :: "stall_watch \<Rightarrow> string \<Rightarrow> duration option" where
  "stall_last w name = Option.bind (sw_incidents w name) ci_last"

definition can_recover :: "stall_watch \<Rightarrow> string \<Rightarrow> duration \<Rightarrow> bool" where
  "can_recover w name now \<longleftrightarrow>
     stall_spent w name < sw_max_attempts w \<and> cooled (sw_cooldown w) (stall_last w name) now"

definition stall_should_recover ::
  "stall_watch \<Rightarrow> string \<Rightarrow> bool \<Rightarrow> duration option \<Rightarrow> duration \<Rightarrow> bool \<times> stall_watch" where
  "stall_should_recover w name present byte_age now =
     (if \<not> present \<or> byte_age = None then (False, stall_pause w name)
      else if (case byte_age of None \<Rightarrow> False | Some age \<Rightarrow> sw_stall_seconds w \<le> age)
      then (can_recover (stall_pause w name) name now, stall_pause w name)
      else (False, w))"

definition capture_entry :: "stall_watch \<Rightarrow> string \<Rightarrow> capture_incident" where
  "capture_entry w name = (case sw_incidents w name of None \<Rightarrow> capture_incident_default | Some s \<Rightarrow> s)"

definition stall_record_attempt :: "stall_watch \<Rightarrow> string \<Rightarrow> duration \<Rightarrow> stall_watch" where
  "stall_record_attempt w name now =
     (let st = capture_entry w name
      in w\<lparr>sw_incidents := (sw_incidents w)(name \<mapsto>
            st\<lparr>ci_attempts := saturating_add (ci_attempts st) 1, ci_last := Some now, ci_clean := None\<rparr>)\<rparr>)"

definition record_recovered :: "stall_watch \<Rightarrow> string \<Rightarrow> node_identity \<Rightarrow> duration \<Rightarrow> stall_watch" where
  "record_recovered w name ident now =
     (let st = capture_entry w name;
          (since, st) = (case ci_clean st of
              Some (generation, since) \<Rightarrow>
                if generation = ident \<and> since \<le> now then (since, st)
                else (now, st\<lparr>ci_clean := Some (ident, now)\<rparr>)
            | None \<Rightarrow> (now, st\<lparr>ci_clean := Some (ident, now)\<rparr>))
      in w\<lparr>sw_incidents := (sw_incidents w)(name \<mapsto>
            (if sw_clean_refill w \<le> now - since then st\<lparr>ci_attempts := 0, ci_last := None\<rparr> else st))\<rparr>)"

subsection \<open>Stalled sinks\<close>

datatype playback_state = PlaybackRunning | PlaybackXrun | PlaybackOther

record playback_status =
  pb_hw_ptr :: u64
  pb_state :: playback_state

record sink_sample =
  ss_identity :: node_identity
  ss_running :: bool
  ss_muted :: "bool observation"
  ss_playback :: "playback_status observation"

record sink_incident =
  si_baseline :: "(node_identity \<times> u64) option"
  si_stalled :: bool
  si_was_stalled :: bool
  si_clean :: u32
  si_attempts :: u32
  si_last :: "duration option"

definition sink_incident_default :: sink_incident where
  "sink_incident_default = \<lparr>si_baseline = None, si_stalled = False, si_was_stalled = False, si_clean = 0,
     si_attempts = 0, si_last = None\<rparr>"

record sink_stall_watch =
  kw_cooldown :: duration
  kw_max_attempts :: u32
  kw_clean_refill :: u32
  kw_incidents :: "string \<rightharpoonup> sink_incident"

definition sink_new :: "duration \<Rightarrow> u32 \<Rightarrow> u32 \<Rightarrow> sink_stall_watch" where
  "sink_new cooldown max_attempts refill =
     \<lparr>kw_cooldown = cooldown, kw_max_attempts = max_attempts, kw_clean_refill = max refill 1, kw_incidents = Map.empty\<rparr>"

definition sink_default :: sink_stall_watch where
  "sink_default = sink_new COOLDOWN MAX_ATTEMPTS STALL_CLEAN_REFILL_CHECKS"

definition sink_pause :: "sink_stall_watch \<Rightarrow> string \<Rightarrow> sink_stall_watch" where
  "sink_pause w name = (case kw_incidents w name of
       None \<Rightarrow> w
     | Some st \<Rightarrow> w\<lparr>kw_incidents := (kw_incidents w)(name \<mapsto>
         st\<lparr>si_baseline := None, si_stalled := False, si_was_stalled := False, si_clean := 0\<rparr>)\<rparr>)"

definition sink_entry :: "sink_stall_watch \<Rightarrow> string \<Rightarrow> sink_incident" where
  "sink_entry w name = (case kw_incidents w name of None \<Rightarrow> sink_incident_default | Some s \<Rightarrow> s)"

text \<open>The two \<^verbatim>\<open>match\<close>es that leave early: what is played by a running, unmuted sink, if it is known.\<close>

definition sink_playing :: "sink_sample observation \<Rightarrow> (node_identity \<times> playback_status) option" where
  "sink_playing obs = (case obs of
       Unknown e \<Rightarrow> None
     | Known s \<Rightarrow>
         if ss_running s \<and> known (ss_muted s) = Some False
         then (case known (ss_playback s) of
             Some p \<Rightarrow> if pb_state p \<noteq> PlaybackOther then Some (ss_identity s, p) else None
           | None \<Rightarrow> None)
         else None)"

text \<open>The update of the incident of a sink that plays.\<close>

definition sink_update :: "u32 \<Rightarrow> node_identity \<Rightarrow> playback_status \<Rightarrow> sink_incident \<Rightarrow> sink_incident" where
  "sink_update refill ident p st0 =
     (let st = st0\<lparr>si_was_stalled := si_stalled st0, si_baseline := Some (ident, pb_hw_ptr p)\<rparr>;
          previous = (case si_baseline st0 of
              None \<Rightarrow> None
            | Some (i, ptr) \<Rightarrow> if i = ident \<and> ptr \<le> pb_hw_ptr p then Some ptr else None);
          st = (if previous = None then st\<lparr>si_clean := 0, si_was_stalled := False\<rparr> else st);
          st = st\<lparr>si_stalled := (pb_state p = PlaybackXrun \<or> previous = Some (pb_hw_ptr p))\<rparr>
      in if si_stalled st then st\<lparr>si_clean := 0\<rparr>
         else if previous \<noteq> None
         then (let st = st\<lparr>si_clean := saturating_add (si_clean st) 1\<rparr>
               in if refill \<le> si_clean st then st\<lparr>si_attempts := 0\<rparr> else st)
         else st)"

definition sink_observe :: "sink_stall_watch \<Rightarrow> string \<Rightarrow> sink_sample observation \<Rightarrow> bool \<times> sink_stall_watch" where
  "sink_observe w name obs = (case sink_playing obs of
       None \<Rightarrow> (False, sink_pause w name)
     | Some (ident, p) \<Rightarrow>
         (let st = sink_update (kw_clean_refill w) ident p (sink_entry w name)
          in (si_stalled st, w\<lparr>kw_incidents := (kw_incidents w)(name \<mapsto> st)\<rparr>)))"

definition just_stalled :: "sink_stall_watch \<Rightarrow> string \<Rightarrow> bool" where
  "just_stalled w name =
     (case kw_incidents w name of None \<Rightarrow> False | Some s \<Rightarrow> si_stalled s \<and> \<not> si_was_stalled s)"

definition sink_spent :: "sink_stall_watch \<Rightarrow> string \<Rightarrow> u32" where
  "sink_spent w name = (case kw_incidents w name of None \<Rightarrow> 0 | Some s \<Rightarrow> si_attempts s)"

definition sink_should_recover :: "sink_stall_watch \<Rightarrow> string \<Rightarrow> duration \<Rightarrow> bool" where
  "sink_should_recover w name now = (case kw_incidents w name of
       None \<Rightarrow> False
     | Some s \<Rightarrow> si_stalled s \<and> si_attempts s < kw_max_attempts w \<and> cooled (kw_cooldown w) (si_last s) now)"

definition sink_record_attempt :: "sink_stall_watch \<Rightarrow> string \<Rightarrow> duration \<Rightarrow> sink_stall_watch" where
  "sink_record_attempt w name now =
     (let st = sink_entry w name
      in w\<lparr>kw_incidents := (kw_incidents w)(name \<mapsto>
            st\<lparr>si_attempts := saturating_add (si_attempts st) 1, si_last := Some now, si_baseline := None, si_clean := 0\<rparr>)\<rparr>)"

subsection \<open>Captures\<close>

record capture_sample =
  cs_identity :: node_identity
  cs_running :: bool
  cs_muted :: "bool observation"
  cs_xruns :: "u64 observation"
  cs_byte_age :: "duration observation"

record capture_decision =
  cd_no_data :: bool
  cd_just_no_data :: bool
  cd_glitching :: bool
  cd_just_glitching :: bool
  cd_healthy :: bool
  cd_recovery_due :: bool

definition capture_decision_default :: capture_decision where
  "capture_decision_default = \<lparr>cd_no_data = False, cd_just_no_data = False, cd_glitching = False,
     cd_just_glitching = False, cd_healthy = False, cd_recovery_due = False\<rparr>"

record capture_watch =
  cw_glitch :: glitch_watch
  cw_budget :: stall_watch
  cw_no_data :: "string list"

definition capture_default :: capture_watch where
  "capture_default = \<lparr>cw_glitch = glitch_default, cw_budget = stall_default, cw_no_data = []\<rparr>"

definition capture_pause :: "capture_watch \<Rightarrow> string \<Rightarrow> capture_watch" where
  "capture_pause w name = w\<lparr>cw_glitch := glitch_pause (cw_glitch w) name, cw_budget := stall_pause (cw_budget w) name,
     cw_no_data := removeAll name (cw_no_data w)\<rparr>"

definition capture_live :: "capture_sample observation \<Rightarrow> capture_sample option" where
  "capture_live obs = (case obs of
       Unknown e \<Rightarrow> None
     | Known s \<Rightarrow> if cs_running s \<and> known (cs_muted s) = Some False then Some s else None)"

definition capture_observe ::
  "capture_watch \<Rightarrow> string \<Rightarrow> capture_sample observation \<Rightarrow> duration \<Rightarrow> capture_decision \<times> capture_watch" where
  "capture_observe w name obs now = (case capture_live obs of
       None \<Rightarrow> (capture_decision_default, capture_pause w name)
     | Some s \<Rightarrow>
         (let glitch = (case known (cs_xruns s) of
                Some n \<Rightarrow> snd (glitch_observe (cw_glitch w) name (cs_identity s) n)
              | None \<Rightarrow> glitch_pause (cw_glitch w) name);
              no_data = (case known (cs_byte_age s) of None \<Rightarrow> False | Some age \<Rightarrow> sw_stall_seconds (cw_budget w) \<le> age);
              just_no_data = (no_data \<and> name \<notin> set (cw_no_data w));
              names = (if no_data then List.insert name (cw_no_data w) else removeAll name (cw_no_data w));
              healthy = ((case last_delta glitch name of None \<Rightarrow> False | Some delta \<Rightarrow> delta < gw_threshold glitch) \<and>
                (case known (cs_byte_age s) of None \<Rightarrow> False | Some age \<Rightarrow> age < sw_stall_seconds (cw_budget w)));
              budget = (if healthy then record_recovered (cw_budget w) name (cs_identity s) now
                else stall_pause (cw_budget w) name);
              glitch_now = glitching glitch name
          in (\<lparr>cd_no_data = no_data, cd_just_no_data = just_no_data, cd_glitching = glitch_now,
               cd_just_glitching = just_confirmed glitch name, cd_healthy = healthy,
               cd_recovery_due = ((no_data \<or> glitch_now) \<and> can_recover budget name now)\<rparr>,
              \<lparr>cw_glitch = glitch, cw_budget = budget, cw_no_data = names\<rparr>)))"

definition capture_record_attempt :: "capture_watch \<Rightarrow> string \<Rightarrow> duration \<Rightarrow> capture_watch" where
  "capture_record_attempt w name now =
     w\<lparr>cw_budget := stall_record_attempt (cw_budget w) name now, cw_glitch := glitch_pause (cw_glitch w) name\<rparr>"

subsection \<open>The watch over all nodes\<close>

record health_samples =
  hs_captures :: "(string, capture_sample observation) imap"
  hs_sinks :: "(string, sink_sample observation) imap"

record sink_decision =
  sd_stalled :: bool
  sd_just_stalled :: bool
  sd_recovery_due :: bool

record health_report =
  rep_captures :: "(string, capture_decision) imap"
  rep_sinks :: "(string, sink_decision) imap"
  rep_error :: "operation_error option"

definition health_report_default :: health_report where
  "health_report_default = \<lparr>rep_captures = [], rep_sinks = [], rep_error = None\<rparr>"

record health_watch =
  hw_capture :: capture_watch
  hw_sink :: sink_stall_watch
  hw_captures :: "string list"
  hw_sinks :: "string list"

definition health_default :: health_watch where
  "health_default = \<lparr>hw_capture = capture_default, hw_sink = sink_default, hw_captures = [], hw_sinks = []\<rparr>"

definition report_capture ::
  "duration \<Rightarrow> capture_watch \<times> (string, capture_decision) imap \<Rightarrow> string \<times> capture_sample observation \<Rightarrow>
   capture_watch \<times> (string, capture_decision) imap" where
  "report_capture now st e = (case (st, e) of ((w, rep), (name, sample)) \<Rightarrow>
     let (d, w) = capture_observe w name sample now in (w, im_insert rep name d))"

definition report_sink ::
  "duration \<Rightarrow> sink_stall_watch \<times> (string, sink_decision) imap \<Rightarrow> string \<times> sink_sample observation \<Rightarrow>
   sink_stall_watch \<times> (string, sink_decision) imap" where
  "report_sink now st e = (case (st, e) of ((w, rep), (name, sample)) \<Rightarrow>
     let (stalled, w) = sink_observe w name sample
     in (w, im_insert rep name \<lparr>sd_stalled = stalled, sd_just_stalled = just_stalled w name,
             sd_recovery_due = sink_should_recover w name now\<rparr>))"

definition health_observe ::
  "health_watch \<Rightarrow> health_samples observation \<Rightarrow> duration \<Rightarrow> health_report \<times> health_watch" where
  "health_observe w obs now = (case obs of
       Unknown e \<Rightarrow>
         (health_report_default\<lparr>rep_error := Some e\<rparr>,
          w\<lparr>hw_capture := foldl capture_pause (hw_capture w) (hw_captures w),
            hw_sink := foldl sink_pause (hw_sink w) (hw_sinks w)\<rparr>)
     | Known samples \<Rightarrow>
         (let capture = foldl capture_pause (hw_capture w) (filter (\<lambda>n. \<not> im_contains (hs_captures samples) n) (hw_captures w));
              sink = foldl sink_pause (hw_sink w) (filter (\<lambda>n. \<not> im_contains (hs_sinks samples) n) (hw_sinks w));
              (capture, rc) = foldl (report_capture now) (capture, []) (hs_captures samples);
              (sink, rs) = foldl (report_sink now) (sink, []) (hs_sinks samples)
          in (\<lparr>rep_captures = rc, rep_sinks = rs, rep_error = None\<rparr>,
              \<lparr>hw_capture = capture, hw_sink = sink, hw_captures = im_keys (hs_captures samples),
               hw_sinks = im_keys (hs_sinks samples)\<rparr>)))"

subsection \<open>The contract of a recovery budget\<close>

text \<open>
  What happens to a budget: a remedy is tried for a node, which the runtime does only when it is
  due, or the nodes are watched (observed or paused).
\<close>

datatype 'e budget_act = Try string duration | Watch 'e

definition trial_times :: "string \<Rightarrow> (string \<times> duration) list \<Rightarrow> duration list" where
  "trial_times k ts = map snd (filter (\<lambda>e. fst e = k) ts)"

lemma trial_times_simps [simp]:
  "trial_times k [] = []"
  "trial_times k ((k', t) # ts) = (if k' = k then t # trial_times k ts else trial_times k ts)"
  by (simp_all add: trial_times_def)

locale recovery_budget =
  fixes spent :: "'s \<Rightarrow> string \<Rightarrow> u32"
    and tried :: "'s \<Rightarrow> string \<Rightarrow> duration option"
    and limit :: "'s \<Rightarrow> u32"
    and gap :: "'s \<Rightarrow> duration"
    and due :: "'s \<Rightarrow> string \<Rightarrow> duration \<Rightarrow> bool"
    and attempt :: "'s \<Rightarrow> string \<Rightarrow> duration \<Rightarrow> 's"
    and watch :: "'s \<Rightarrow> 'e \<Rightarrow> 's"
  assumes due_spent: "due s k t \<Longrightarrow> spent s k < limit s"
    and due_cooled: "due s k t \<Longrightarrow> cooled (gap s) (tried s k) t"
    and attempt_spent: "spent (attempt s k t) k' = (if k' = k then saturating_add (spent s k) 1 else spent s k')"
    and attempt_tried: "tried (attempt s k t) k' = (if k' = k then Some t else tried s k')"
    and attempt_config: "limit (attempt s k t) = limit s" "gap (attempt s k t) = gap s"
    and watch_spent: "spent (watch s e) k = spent s k \<or> spent (watch s e) k = 0"
    and watch_config: "limit (watch s e) = limit s" "gap (watch s e) = gap s"
begin

fun act :: "'s \<Rightarrow> 'e budget_act \<Rightarrow> 's" where
  "act s (Try k t) = (if due s k t then attempt s k t else s)"
| "act s (Watch e) = watch s e"

text \<open>The remedies tried in a run, in order.\<close>

fun trials :: "'s \<Rightarrow> 'e budget_act list \<Rightarrow> (string \<times> duration) list" where
  "trials s [] = []"
| "trials s (Try k t # as) = (if due s k t then (k, t) # trials (attempt s k t) as else trials s as)"
| "trials s (Watch e # as) = trials (watch s e) as"

lemma act_config: "limit (act s a) = limit s" "gap (act s a) = gap s"
  by (cases a; simp add: attempt_config watch_config)+

lemma run_config: "limit (foldl act s as) = limit s" "gap (foldl act s as) = gap s"
  by (induction as arbitrary: s) (simp_all add: act_config)

lemma act_spent_le:
  assumes "spent s k \<le> limit s"
  shows "spent (act s a) k \<le> limit s"
proof (cases a)
  case (Try k' t)
  have "saturating_add (spent s k) 1 \<le> limit s" if "due s k t"
  proof -
    have "unat (saturating_add (spent s k) 1) \<le> Suc (unat (spent s k))" by (rule saturating_add_one_le)
    also have "\<dots> \<le> unat (limit s)" using due_spent [OF that] by (simp add: word_less_nat_alt Suc_le_eq)
    finally show ?thesis by (simp add: word_le_nat_alt)
  qed
  then show ?thesis using Try assms by (cases "k = k'") (auto simp: attempt_spent)
next
  case (Watch e)
  then show ?thesis using watch_spent [of s e k] assms by auto
qed

lemma run_spent_le: "spent s k \<le> limit s \<Longrightarrow> spent (foldl act s as) k \<le> limit s"
proof (induction as arbitrary: s)
  case Nil
  then show ?case by simp
next
  case (Cons a as)
  have "spent (act s a) k \<le> limit (act s a)" using act_spent_le [OF Cons.prems] by (simp add: act_config)
  from Cons.IH [OF this] show ?case by (simp add: act_config)
qed

end

text \<open>A budget whose refunds leave the time of the last trial alone.\<close>

locale spaced_budget = recovery_budget +
  assumes watch_tried: "tried (watch s e) k = tried s k"
begin

lemma trials_after:
  "tried s k = Some l \<Longrightarrow> list_all (\<lambda>t. l + gap s \<le> t) (trial_times k (trials s as))"
proof (induction as arbitrary: s l)
  case Nil
  then show ?case by simp
next
  case (Cons a as)
  show ?case
  proof (cases a)
    case (Watch e)
    then show ?thesis using Cons.IH [of "watch s e" l] Cons.prems by (simp add: watch_tried watch_config)
  next
    case (Try k' t)
    consider "\<not> due s k' t" | "due s k' t" "k' \<noteq> k" | "due s k' t" "k' = k" by blast
    then show ?thesis
    proof cases
      case 1
      then show ?thesis using Try Cons.IH [OF Cons.prems] by simp
    next
      case 2
      then show ?thesis using Try Cons.IH [of "attempt s k' t" l] Cons.prems by (simp add: attempt_tried attempt_config)
    next
      case 3
      then have lt: "l + gap s \<le> t" using due_cooled [of s k t] Cons.prems by (auto simp: cooled_def)
      have "list_all (\<lambda>t'. t + gap s \<le> t') (trial_times k (trials (attempt s k t) as))"
        using Cons.IH [of "attempt s k t" t] by (simp add: attempt_tried attempt_config)
      then have "list_all (\<lambda>t'. l + gap s \<le> t') (trial_times k (trials (attempt s k t) as))"
        using lt by (auto simp: list_all_iff)
      then show ?thesis using Try 3 lt by simp
    qed
  qed
qed

lemma trials_spaced: "sorted_wrt (\<lambda>t t'. t + gap s \<le> t') (trial_times k (trials s as))"
proof (induction as arbitrary: s)
  case Nil
  then show ?case by simp
next
  case (Cons a as)
  show ?case
  proof (cases a)
    case (Watch e)
    then show ?thesis using Cons.IH [of "watch s e"] by (simp add: watch_config)
  next
    case (Try k' t)
    have "k' = k \<Longrightarrow> list_all (\<lambda>t'. t + gap s \<le> t') (trial_times k (trials (attempt s k' t) as))"
      using trials_after [of "attempt s k' t" k t as] by (simp add: attempt_tried attempt_config)
    then show ?thesis
      using Try Cons.IH [of "attempt s k' t"] Cons.IH [of s] by (auto simp: attempt_config list_all_iff)
  qed
qed

end

subsection \<open>Sinks\<close>

datatype sink_event = SinkObserve string "sink_sample observation" | SinkPause string

fun sink_watch :: "sink_stall_watch \<Rightarrow> sink_event \<Rightarrow> sink_stall_watch" where
  "sink_watch w (SinkObserve name obs) = snd (sink_observe w name obs)"
| "sink_watch w (SinkPause name) = sink_pause w name"

definition sink_tried :: "sink_stall_watch \<Rightarrow> string \<Rightarrow> duration option" where
  "sink_tried w name = Option.bind (kw_incidents w name) si_last"

lemma sink_by_entry:
  "sink_spent w k = si_attempts (sink_entry w k)" "sink_tried w k = si_last (sink_entry w k)"
  by (simp_all add: sink_spent_def sink_tried_def sink_entry_def sink_incident_default_def split: option.splits)

lemma sink_entry_upd: "sink_entry (w\<lparr>kw_incidents := (kw_incidents w)(name \<mapsto> st)\<rparr>) k = (if k = name then st else sink_entry w k)"
  by (simp add: sink_entry_def)

lemma sink_pause_entry:
  "sink_entry (sink_pause w name) k = (if k = name
     then (sink_entry w k)\<lparr>si_baseline := None, si_stalled := False, si_was_stalled := False, si_clean := 0\<rparr>
     else sink_entry w k)"
  by (auto simp: sink_pause_def sink_entry_def sink_incident_default_def split: option.splits)

lemma sink_pause_config [simp]:
  "kw_max_attempts (sink_pause w name) = kw_max_attempts w" "kw_cooldown (sink_pause w name) = kw_cooldown w"
  "kw_clean_refill (sink_pause w name) = kw_clean_refill w"
  by (auto simp: sink_pause_def split: option.splits)

lemma sink_update_simps:
  "si_attempts (sink_update n i p st) = si_attempts st \<or> si_attempts (sink_update n i p st) = 0"
  "si_last (sink_update n i p st) = si_last st"
  by (auto simp: sink_update_def Let_def split: option.splits)

lemma sink_observe_entry:
  "sink_entry (snd (sink_observe w name obs)) k = (if k = name
     then (case sink_playing obs of
         None \<Rightarrow> (sink_entry w k)\<lparr>si_baseline := None, si_stalled := False, si_was_stalled := False, si_clean := 0\<rparr>
       | Some (i, p) \<Rightarrow> sink_update (kw_clean_refill w) i p (sink_entry w k))
     else sink_entry w k)"
  by (auto simp: sink_observe_def Let_def sink_entry_upd sink_pause_entry split: option.splits)

lemma sink_observe_config:
  "kw_max_attempts (snd (sink_observe w name obs)) = kw_max_attempts w"
  "kw_cooldown (snd (sink_observe w name obs)) = kw_cooldown w"
  "kw_clean_refill (snd (sink_observe w name obs)) = kw_clean_refill w"
  by (auto simp: sink_observe_def Let_def split: option.splits)

lemma sink_observe_laws:
  "sink_spent (snd (sink_observe w name obs)) k = sink_spent w k \<or> sink_spent (snd (sink_observe w name obs)) k = 0"
  "sink_tried (snd (sink_observe w name obs)) k = sink_tried w k"
  using sink_update_simps
  by (auto simp: sink_by_entry sink_observe_entry split: option.splits)

interpretation sinks: spaced_budget sink_spent sink_tried kw_max_attempts kw_cooldown sink_should_recover
  sink_record_attempt sink_watch
proof unfold_locales
  fix s k t k' and e :: sink_event
  show "sink_should_recover s k t \<Longrightarrow> sink_spent s k < kw_max_attempts s"
    and "sink_should_recover s k t \<Longrightarrow> cooled (kw_cooldown s) (sink_tried s k) t"
    by (auto simp: sink_should_recover_def sink_spent_def sink_tried_def split: option.splits)
  show "sink_spent (sink_record_attempt s k t) k' = (if k' = k then saturating_add (sink_spent s k) 1 else sink_spent s k')"
    and "sink_tried (sink_record_attempt s k t) k' = (if k' = k then Some t else sink_tried s k')"
    by (simp_all add: sink_record_attempt_def Let_def sink_by_entry sink_entry_upd)
  show "kw_max_attempts (sink_record_attempt s k t) = kw_max_attempts s"
    and "kw_cooldown (sink_record_attempt s k t) = kw_cooldown s"
    by (simp_all add: sink_record_attempt_def Let_def)
  show "sink_spent (sink_watch s e) k = sink_spent s k \<or> sink_spent (sink_watch s e) k = 0"
    and "sink_tried (sink_watch s e) k = sink_tried s k"
    and "kw_max_attempts (sink_watch s e) = kw_max_attempts s" and "kw_cooldown (sink_watch s e) = kw_cooldown s"
    using sink_observe_laws by (cases e; simp add: sink_observe_config; simp add: sink_by_entry sink_pause_entry)+
qed

text \<open>
  The recovery of sinks is bounded whatever the sinks do: in every run from a fresh watch in which
  remedies are tried when the watch calls them due, the attempts counted for a sink never exceed the
  maximum, and two trials for the same sink are at least the cool-down apart.
\<close>

lemma sink_recovery_bounded:
  "(let w = sink_new cooldown max_attempts refill
    in sink_spent (foldl sinks.act w acts) name \<le> max_attempts \<and>
       sorted_wrt (\<lambda>t t'. t + cooldown \<le> t') (trial_times name (sinks.trials w acts)))"
proof -
  have "sink_spent (sink_new cooldown max_attempts refill) name \<le> kw_max_attempts (sink_new cooldown max_attempts refill)"
    by (simp add: sink_new_def sink_spent_def)
  from sinks.run_spent_le [OF this, of acts] sinks.trials_spaced [of "sink_new cooldown max_attempts refill" name acts]
  show ?thesis by (simp add: sink_new_def Let_def)
qed

subsection \<open>Captures\<close>

datatype capture_event = CaptureObserve string "capture_sample observation" duration | CapturePause string

fun capture_watching :: "capture_watch \<Rightarrow> capture_event \<Rightarrow> capture_watch" where
  "capture_watching w (CaptureObserve name obs now) = snd (capture_observe w name obs now)"
| "capture_watching w (CapturePause name) = capture_pause w name"

lemma stall_by_entry:
  "stall_spent w k = ci_attempts (capture_entry w k)" "stall_last w k = ci_last (capture_entry w k)"
  by (simp_all add: stall_spent_def stall_last_def capture_entry_def capture_incident_default_def split: option.splits)

lemma stall_pause_entry:
  "capture_entry (stall_pause w name) k =
     (if k = name then (capture_entry w k)\<lparr>ci_clean := None\<rparr> else capture_entry w k)"
  by (auto simp: stall_pause_def capture_entry_def capture_incident_default_def split: option.splits)

lemma stall_config [simp]:
  "sw_max_attempts (stall_pause w name) = sw_max_attempts w" "sw_cooldown (stall_pause w name) = sw_cooldown w"
  "sw_stall_seconds (stall_pause w name) = sw_stall_seconds w" "sw_clean_refill (stall_pause w name) = sw_clean_refill w"
  "sw_max_attempts (record_recovered w name i t) = sw_max_attempts w" "sw_cooldown (record_recovered w name i t) = sw_cooldown w"
  "sw_stall_seconds (record_recovered w name i t) = sw_stall_seconds w"
  "sw_clean_refill (record_recovered w name i t) = sw_clean_refill w"
  "sw_max_attempts (stall_record_attempt w name t) = sw_max_attempts w"
  "sw_cooldown (stall_record_attempt w name t) = sw_cooldown w"
  "sw_stall_seconds (stall_record_attempt w name t) = sw_stall_seconds w"
  "sw_clean_refill (stall_record_attempt w name t) = sw_clean_refill w"
  by (auto simp: stall_pause_def record_recovered_def stall_record_attempt_def Let_def split: option.splits prod.splits)

text \<open>What a healthy observation makes of an incident.\<close>

definition recovered :: "duration \<Rightarrow> node_identity \<Rightarrow> duration \<Rightarrow> capture_incident \<Rightarrow> capture_incident" where
  "recovered refill ident now st =
     (let since = (case ci_clean st of Some (g, s) \<Rightarrow> if g = ident \<and> s \<le> now then s else now | None \<Rightarrow> now);
          st = st\<lparr>ci_clean := Some (ident, since)\<rparr>
      in if refill \<le> now - since then st\<lparr>ci_attempts := 0, ci_last := None\<rparr> else st)"

lemma record_recovered_entry:
  "capture_entry (record_recovered w name ident now) k =
     (if k = name then recovered (sw_clean_refill w) ident now (capture_entry w k) else capture_entry w k)"
proof -
  have eta: "st\<lparr>ci_clean := Some (i, s)\<rparr> = st" if "ci_clean st = Some (i, s)" for st :: capture_incident and i s
    using that by simp
  show ?thesis
    by (auto simp: record_recovered_def recovered_def capture_entry_def Let_def eta split: option.splits prod.splits)
qed

lemma record_attempt_entry:
  "capture_entry (stall_record_attempt w name now) k =
     (if k = name then (capture_entry w k)\<lparr>ci_attempts := saturating_add (ci_attempts (capture_entry w k)) 1,
        ci_last := Some now, ci_clean := None\<rparr> else capture_entry w k)"
  by (auto simp: stall_record_attempt_def capture_entry_def Let_def split: option.splits)

text \<open>
  The data of a capture flows: a running, unmuted node with fresh bytes, whose xrun count has risen by less
  than the threshold since the reading before, which was of the same generation of the node.
\<close>

definition flowing ::
  "duration \<Rightarrow> u64 \<Rightarrow> node_identity \<Rightarrow> (node_identity \<times> u64) option \<Rightarrow> capture_sample observation \<Rightarrow> bool" where
  "flowing stall threshold ident reading obs = (case capture_live obs of
       None \<Rightarrow> False
     | Some s \<Rightarrow> cs_identity s = ident \<and>
         (case (reading, known (cs_xruns s)) of
            (Some (old, before), Some counted) \<Rightarrow> old = ident \<and> before \<le> counted \<and> counted - before < threshold
          | _ \<Rightarrow> False) \<and>
         (case known (cs_byte_age s) of None \<Rightarrow> False | Some age \<Rightarrow> age < stall))"

text \<open>The xrun count that the watch goes on from.\<close>

definition watch_reading :: "glitch_watch \<Rightarrow> string \<Rightarrow> (node_identity \<times> u64) option" where
  "watch_reading w name = map_option (\<lambda>st. (gs_identity st, gs_previous st)) (gw_states w name)"

lemma watch_reading_pause: "watch_reading (glitch_pause w name) k = (if k = name then None else watch_reading w k)"
  by (simp add: watch_reading_def glitch_pause_def)

lemma watch_reading_observe:
  "watch_reading (snd (glitch_observe w name ident counted)) k = (if k = name then Some (ident, counted) else watch_reading w k)"
  by (auto simp: watch_reading_def glitch_observe_def Let_def split: option.split)

lemma glitch_observe_delta:
  "last_delta (snd (glitch_observe w name ident counted)) name = (case watch_reading w name of
       Some (old, before) \<Rightarrow> if old = ident \<and> before \<le> counted then Some (counted - before) else None
     | None \<Rightarrow> None) \<and>
   gw_threshold (snd (glitch_observe w name ident counted)) = gw_threshold w"
  by (auto simp: watch_reading_def glitch_observe_def last_delta_def Let_def split: option.split)

lemma glitch_observe_threshold: "gw_threshold (snd (glitch_observe w name ident counted)) = gw_threshold w"
  by (simp add: glitch_observe_delta)

lemma glitch_pause_frame: "gw_threshold (glitch_pause w name) = gw_threshold w" "last_delta (glitch_pause w name) name = None"
  by (simp_all add: glitch_pause_def last_delta_def)

lemma capture_observe_entry:
  "(\<exists>ident. flowing (sw_stall_seconds (cw_budget w)) (gw_threshold (cw_glitch w)) ident (watch_reading (cw_glitch w) name) obs \<and>
      cw_budget (snd (capture_observe w name obs now)) = record_recovered (cw_budget w) name ident now) \<or>
   cw_budget (snd (capture_observe w name obs now)) = stall_pause (cw_budget w) name"
proof (cases "capture_live obs")
  case None
  then show ?thesis by (simp add: capture_observe_def capture_pause_def)
next
  case (Some s)
  show ?thesis
  proof (cases "known (cs_xruns s)")
    case None
    then show ?thesis using Some by (simp add: capture_observe_def Let_def glitch_pause_frame)
  next
    case (Some n)
    then show ?thesis using \<open>capture_live obs = Some s\<close>
      by (auto simp: capture_observe_def Let_def flowing_def glitch_observe_delta split: option.splits)
  qed
qed

lemma capture_observe_laws:
  "stall_spent (cw_budget (snd (capture_observe w name obs now))) k = stall_spent (cw_budget w) k \<or>
     stall_spent (cw_budget (snd (capture_observe w name obs now))) k = 0"
  "sw_max_attempts (cw_budget (snd (capture_observe w name obs now))) = sw_max_attempts (cw_budget w)"
  "sw_cooldown (cw_budget (snd (capture_observe w name obs now))) = sw_cooldown (cw_budget w)"
  "sw_stall_seconds (cw_budget (snd (capture_observe w name obs now))) = sw_stall_seconds (cw_budget w)"
  "sw_clean_refill (cw_budget (snd (capture_observe w name obs now))) = sw_clean_refill (cw_budget w)"
proof -
  consider ident where "cw_budget (snd (capture_observe w name obs now)) = record_recovered (cw_budget w) name ident now"
    | "cw_budget (snd (capture_observe w name obs now)) = stall_pause (cw_budget w) name"
    using capture_observe_entry by blast
  then show "stall_spent (cw_budget (snd (capture_observe w name obs now))) k = stall_spent (cw_budget w) k \<or>
     stall_spent (cw_budget (snd (capture_observe w name obs now))) k = 0"
    by cases (simp_all add: stall_by_entry record_recovered_entry stall_pause_entry recovered_def Let_def)
qed (use capture_observe_entry [of w name obs now] in auto)

interpretation captures: recovery_budget "\<lambda>w. stall_spent (cw_budget w)" "\<lambda>w. stall_last (cw_budget w)"
  "\<lambda>w. sw_max_attempts (cw_budget w)" "\<lambda>w. sw_cooldown (cw_budget w)" "\<lambda>w. can_recover (cw_budget w)"
  capture_record_attempt capture_watching
proof unfold_locales
  fix s :: capture_watch and k t k' and e :: capture_event
  show "can_recover (cw_budget s) k t \<Longrightarrow> stall_spent (cw_budget s) k < sw_max_attempts (cw_budget s)"
    and "can_recover (cw_budget s) k t \<Longrightarrow> cooled (sw_cooldown (cw_budget s)) (stall_last (cw_budget s) k) t"
    by (simp_all add: can_recover_def)
  show "stall_spent (cw_budget (capture_record_attempt s k t)) k' =
      (if k' = k then saturating_add (stall_spent (cw_budget s) k) 1 else stall_spent (cw_budget s) k')"
    and "stall_last (cw_budget (capture_record_attempt s k t)) k' = (if k' = k then Some t else stall_last (cw_budget s) k')"
    by (simp_all add: stall_by_entry capture_record_attempt_def record_attempt_entry)
  show "sw_max_attempts (cw_budget (capture_record_attempt s k t)) = sw_max_attempts (cw_budget s)"
    and "sw_cooldown (cw_budget (capture_record_attempt s k t)) = sw_cooldown (cw_budget s)"
    by (simp_all add: capture_record_attempt_def)
  show "stall_spent (cw_budget (capture_watching s e)) k = stall_spent (cw_budget s) k \<or>
      stall_spent (cw_budget (capture_watching s e)) k = 0"
    by (cases e; simp add: capture_observe_laws; simp add: stall_by_entry capture_pause_def stall_pause_entry)
  show "sw_max_attempts (cw_budget (capture_watching s e)) = sw_max_attempts (cw_budget s)"
    and "sw_cooldown (cw_budget (capture_watching s e)) = sw_cooldown (cw_budget s)"
    by (cases e; simp add: capture_observe_laws capture_pause_def)+
qed

text \<open>
  The recovery of captures is bounded: in every run from a fresh watch in which remedies are tried
  when the budget allows, the attempts counted for a capture never exceed the maximum; and a watch
  that calls a recovery due has budget left for it.
\<close>

lemma capture_recovery_bounded:
  "(let w = foldl captures.act \<lparr>cw_glitch = glitch_new threshold confirm,
              cw_budget = stall_new stall cooldown max_attempts refill, cw_no_data = []\<rparr> acts;
        (d, w') = capture_observe w name obs now
    in stall_spent (cw_budget w) name \<le> max_attempts \<and>
       (case cd_recovery_due d of False \<Rightarrow> True | True \<Rightarrow> stall_spent (cw_budget w') name < max_attempts \<and>
          cooled cooldown (stall_last (cw_budget w') name) now))"
proof -
  define w0 where "w0 = \<lparr>cw_glitch = glitch_new threshold confirm,
      cw_budget = stall_new stall cooldown max_attempts refill, cw_no_data = []\<rparr>"
  define w where "w = foldl captures.act w0 acts"
  have c: "sw_max_attempts (cw_budget w0) = max_attempts" "sw_cooldown (cw_budget w0) = cooldown"
    "stall_spent (cw_budget w0) name \<le> max_attempts"
    by (simp_all add: w0_def stall_new_def stall_spent_def)
  have wc: "sw_max_attempts (cw_budget w) = max_attempts" "sw_cooldown (cw_budget w) = cooldown"
    "stall_spent (cw_budget w) name \<le> max_attempts"
    using captures.run_config [of w0 acts] captures.run_spent_le [of w0 name acts] c by (simp_all add: w_def)
  obtain d w' where o': "capture_observe w name obs now = (d, w')" by fastforce
  have "cd_recovery_due d \<Longrightarrow> can_recover (cw_budget w') name now"
    using o' by (auto simp: capture_observe_def Let_def capture_decision_default_def split: option.splits)
  moreover have "sw_max_attempts (cw_budget w') = max_attempts" "sw_cooldown (cw_budget w') = cooldown"
    using capture_observe_laws(2,3) [of w name obs now] o' wc by simp_all
  ultimately have "case cd_recovery_due d of False \<Rightarrow> True | True \<Rightarrow> stall_spent (cw_budget w') name < max_attempts \<and>
      cooled cooldown (stall_last (cw_budget w') name) now"
    by (simp add: can_recover_def split: bool.splits)
  then show ?thesis using o' wc(3) unfolding w_def w0_def Let_def by simp
qed

subsection \<open>Refunds of a capture budget\<close>

text \<open>Any operation of the watch, due or not.\<close>

fun perform :: "capture_watch \<Rightarrow> capture_event budget_act \<Rightarrow> capture_watch" where
  "perform w (Try k t) = capture_record_attempt w k t"
| "perform w (Watch e) = capture_watching w e"

fun about :: "capture_event budget_act \<Rightarrow> string" where
  "about (Try k t) = k"
| "about (Watch (CaptureObserve k obs t)) = k"
| "about (Watch (CapturePause k)) = k"

text \<open>
  The last reading of the xrun count of \<open>k\<close>: a pause, an attempt, an absence, a mute or an unknown count
  leaves none.
\<close>

fun next_reading :: "string \<Rightarrow> (node_identity \<times> u64) option \<Rightarrow> capture_event budget_act \<Rightarrow> (node_identity \<times> u64) option" where
  "next_reading k reading (Watch (CaptureObserve name obs t)) =
     (if name \<noteq> k then reading else (case capture_live obs of
          None \<Rightarrow> None | Some s \<Rightarrow> map_option (\<lambda>n. (cs_identity s, n)) (known (cs_xruns s))))"
| "next_reading k reading op = (if about op \<noteq> k then reading else None)"

definition last_reading :: "string \<Rightarrow> capture_event budget_act list \<Rightarrow> (node_identity \<times> u64) option" where
  "last_reading k ops = foldl (next_reading k) None ops"

text \<open>
  The operations end in a clean interval of \<open>k\<close>: since the time \<open>since\<close>, all that happened to \<open>k\<close> is
  that its data was seen flowing without an xrun storm, from the same generation of the node.
\<close>

inductive steady ::
  "string \<Rightarrow> duration \<Rightarrow> u64 \<Rightarrow> node_identity \<Rightarrow> duration \<Rightarrow> capture_event budget_act list \<Rightarrow> bool"
  for k stall threshold ident since where
  start: "flowing stall threshold ident (last_reading k ops) obs \<Longrightarrow>
    steady k stall threshold ident since (ops @ [Watch (CaptureObserve k obs since)])"
| again: "steady k stall threshold ident since ops \<Longrightarrow> flowing stall threshold ident (last_reading k ops) obs \<Longrightarrow>
    steady k stall threshold ident since (ops @ [Watch (CaptureObserve k obs t)])"
| other: "steady k stall threshold ident since ops \<Longrightarrow> about op \<noteq> k \<Longrightarrow> steady k stall threshold ident since (ops @ [op])"

lemma perform_reading:
  "watch_reading (cw_glitch (perform w op)) k = next_reading k (watch_reading (cw_glitch w) k) op \<and>
   gw_threshold (cw_glitch (perform w op)) = gw_threshold (cw_glitch w)"
proof (cases op)
  case (Try name t)
  then show ?thesis by (simp add: capture_record_attempt_def watch_reading_pause glitch_pause_frame)
next
  case (Watch e)
  show ?thesis
  proof (cases e)
    case (CapturePause name)
    then show ?thesis using Watch by (simp add: capture_pause_def watch_reading_pause glitch_pause_frame)
  next
    case (CaptureObserve name obs t)
    then show ?thesis using Watch
      by (auto simp: capture_observe_def capture_pause_def Let_def watch_reading_pause watch_reading_observe
          glitch_pause_frame glitch_observe_threshold split: option.split)
  qed
qed

lemma performed_reading:
  assumes "gw_states (cw_glitch w) = Map.empty"
  shows "watch_reading (cw_glitch (foldl perform w ops)) k = last_reading k ops \<and>
    gw_threshold (cw_glitch (foldl perform w ops)) = gw_threshold (cw_glitch w)"
proof (induction ops rule: rev_induct)
  case Nil
  then show ?case using assms by (simp add: last_reading_def watch_reading_def)
next
  case (snoc op ops)
  then show ?case by (simp add: perform_reading last_reading_def)
qed

lemma perform_config:
  "sw_stall_seconds (cw_budget (perform w op)) = sw_stall_seconds (cw_budget w)"
  "sw_clean_refill (cw_budget (perform w op)) = sw_clean_refill (cw_budget w)"
proof -
  have "sw_stall_seconds (cw_budget (capture_watching w e)) = sw_stall_seconds (cw_budget w) \<and>
      sw_clean_refill (cw_budget (capture_watching w e)) = sw_clean_refill (cw_budget w)" for e
    by (cases e) (simp_all add: capture_observe_laws capture_pause_def)
  then show "sw_stall_seconds (cw_budget (perform w op)) = sw_stall_seconds (cw_budget w)"
    "sw_clean_refill (cw_budget (perform w op)) = sw_clean_refill (cw_budget w)"
    by (cases op; simp add: capture_record_attempt_def)+
qed

lemma performed_config:
  "sw_stall_seconds (cw_budget (foldl perform w ops)) = sw_stall_seconds (cw_budget w)"
  "sw_clean_refill (cw_budget (foldl perform w ops)) = sw_clean_refill (cw_budget w)"
  by (induction ops arbitrary: w) (simp_all add: perform_config)

text \<open>What an operation does to the incident of \<open>k\<close>.\<close>

lemma perform_incident:
  "capture_entry (cw_budget (perform w op)) k = capture_entry (cw_budget w) k \<and> about op \<noteq> k \<or>
   about op = k \<and> ci_clean (capture_entry (cw_budget (perform w op)) k) = None \<and>
     (ci_attempts (capture_entry (cw_budget (perform w op)) k) = 0 \<longrightarrow> ci_attempts (capture_entry (cw_budget w) k) = 0) \<or>
   (\<exists>obs now ident. op = Watch (CaptureObserve k obs now) \<and>
      flowing (sw_stall_seconds (cw_budget w)) (gw_threshold (cw_glitch w)) ident (watch_reading (cw_glitch w) k) obs \<and>
      capture_entry (cw_budget (perform w op)) k =
        recovered (sw_clean_refill (cw_budget w)) ident now (capture_entry (cw_budget w) k))"
proof (cases op)
  case (Try k' t)
  have "saturating_add a 1 \<noteq> 0" for a :: u32
    using unat_saturating_add [of a 1] by (auto simp: unat_1 dest: arg_cong [of _ _ unat])
  then show ?thesis using Try by (auto simp: capture_record_attempt_def record_attempt_entry)
next
  case (Watch e)
  show ?thesis
  proof (cases e)
    case (CapturePause k')
    then show ?thesis using Watch by (auto simp: capture_pause_def stall_pause_entry)
  next
    case (CaptureObserve k' obs now)
    consider ident where "flowing (sw_stall_seconds (cw_budget w)) (gw_threshold (cw_glitch w)) ident
          (watch_reading (cw_glitch w) k') obs"
        "cw_budget (snd (capture_observe w k' obs now)) = record_recovered (cw_budget w) k' ident now"
      | "cw_budget (snd (capture_observe w k' obs now)) = stall_pause (cw_budget w) k'"
      using capture_observe_entry by blast
    then show ?thesis
      by cases (use Watch CaptureObserve in \<open>auto simp: record_recovered_entry stall_pause_entry\<close>)
  qed
qed

lemma clean_steady:
  assumes "sw_incidents (cw_budget w) = Map.empty" and "gw_states (cw_glitch w) = Map.empty"
  shows "ci_clean (capture_entry (cw_budget (foldl perform w ops)) k) = Some (ident, since) \<Longrightarrow>
    steady k (sw_stall_seconds (cw_budget w)) (gw_threshold (cw_glitch w)) ident since ops"
proof (induction ops arbitrary: ident since rule: rev_induct)
  case Nil
  then show ?case using assms(1) by (simp add: capture_entry_def capture_incident_default_def)
next
  case (snoc op ops)
  let ?w = "foldl perform w ops"
  have stall: "sw_stall_seconds (cw_budget ?w) = sw_stall_seconds (cw_budget w)" by (rule performed_config)
  have glitch: "watch_reading (cw_glitch ?w) k = last_reading k ops" "gw_threshold (cw_glitch ?w) = gw_threshold (cw_glitch w)"
    using performed_reading [OF assms(2)] by simp_all
  from perform_incident [of ?w op k] consider
      "capture_entry (cw_budget (perform ?w op)) k = capture_entry (cw_budget ?w) k" "about op \<noteq> k"
    | "ci_clean (capture_entry (cw_budget (perform ?w op)) k) = None"
    | obs now i where "op = Watch (CaptureObserve k obs now)"
        "flowing (sw_stall_seconds (cw_budget w)) (gw_threshold (cw_glitch w)) i (last_reading k ops) obs"
        "capture_entry (cw_budget (perform ?w op)) k = recovered (sw_clean_refill (cw_budget ?w)) i now (capture_entry (cw_budget ?w) k)"
    unfolding stall glitch by (elim disjE exE conjE) blast+
  then show ?case
  proof cases
    case 1
    then show ?thesis using snoc by (auto intro: steady.other)
  next
    case 2
    then show ?thesis using snoc.prems by simp
  next
    case 3
    then have ident: "i = ident" "since = (case ci_clean (capture_entry (cw_budget ?w) k) of
        Some (g, s) \<Rightarrow> if g = i \<and> s \<le> now then s else now | None \<Rightarrow> now)"
      using snoc.prems by (auto simp: recovered_def Let_def split: if_splits)
    then consider "since = now" | "ci_clean (capture_entry (cw_budget ?w) k) = Some (ident, since)"
      by (auto split: option.splits if_splits prod.splits)
    then show ?thesis
      by cases (use 3 ident(1) snoc.IH in \<open>auto intro: steady.start steady.again\<close>)
  qed
qed

text \<open>
  C32. A recovery budget is refunded only by a clean interval: if an operation resets the attempts counted
  for a capture, it is an observation of that capture, and for at least the refill time before it all
  that happened to the capture was that it was observed healthy - running, not muted, with fresh data, and
  with less new xruns than a storm since a reading just before, all from the same generation of the
  node. No pause, absence, mute, unknown reading, xrun storm or recovery attempt refunds anything.
\<close>

lemma refund_needs_clean_interval:
  assumes "sw_incidents (cw_budget w) = Map.empty" and "gw_states (cw_glitch w) = Map.empty"
    and "stall_spent (cw_budget (foldl perform w ops)) k \<noteq> 0"
    and "stall_spent (cw_budget (perform (foldl perform w ops) op)) k = 0"
  shows "\<exists>obs now ident since. op = Watch (CaptureObserve k obs now) \<and>
    steady k (sw_stall_seconds (cw_budget w)) (gw_threshold (cw_glitch w)) ident since (ops @ [op]) \<and>
    sw_clean_refill (cw_budget w) \<le> now - since"
proof -
  let ?w = "foldl perform w ops"
  from perform_incident [of ?w op k] assms(3,4) obtain obs now i where
    op: "op = Watch (CaptureObserve k obs now)"
    and e: "capture_entry (cw_budget (perform ?w op)) k =
      recovered (sw_clean_refill (cw_budget ?w)) i now (capture_entry (cw_budget ?w) k)"
    by (auto simp: stall_by_entry)
  define since where "since = (case ci_clean (capture_entry (cw_budget ?w) k) of
        Some (g, s) \<Rightarrow> if g = i \<and> s \<le> now then s else now | None \<Rightarrow> now)"
  have "sw_clean_refill (cw_budget w) \<le> now - since"
    using assms(3,4) unfolding stall_by_entry e performed_config
    by (auto simp: recovered_def Let_def since_def split: if_splits)
  moreover have "ci_clean (capture_entry (cw_budget (foldl perform w (ops @ [op]))) k) = Some (i, since)"
    using e by (simp add: recovered_def Let_def since_def)
  from clean_steady [OF assms(1,2) this]
  have "steady k (sw_stall_seconds (cw_budget w)) (gw_threshold (cw_glitch w)) i since (ops @ [op])" .
  ultimately show ?thesis using op by blast
qed

definition sample_flow :: "capture_sample observation" where
  "sample_flow = Known \<lparr>cs_identity = \<lparr>server_cookie = 1, object_serial = ''7''\<rparr>, cs_running = True,
     cs_muted = Known False, cs_xruns = Known 4, cs_byte_age = Known 0\<rparr>"

definition sample_watch :: capture_watch where
  "sample_watch = \<lparr>cw_glitch = glitch_default, cw_budget = stall_new 8 60 2 5, cw_no_data = []\<rparr>"

definition sample_ops :: "capture_event budget_act list" where
  "sample_ops = [Try ''mic'' 0, Watch (CaptureObserve ''mic'' sample_flow 1), Watch (CaptureObserve ''mic'' sample_flow 2)]"

lemmas watch_evals = sample_watch_def sample_ops_def sample_flow_def glitch_default_def glitch_new_def stall_new_def
  capture_record_attempt_def stall_record_attempt_def capture_observe_def capture_live_def glitch_observe_def
  GLITCH_XRUNS_PER_CHECK_def GLITCH_CONFIRM_CHECKS_def last_delta_def record_recovered_def stall_pause_def
  capture_entry_def capture_incident_default_def glitch_pause_def saturating_add_def stall_by_entry Let_def unat_1

lemma refund_needs_clean_interval_witness:
  "\<exists>obs now ident since. Watch (CaptureObserve ''mic'' sample_flow 9) = Watch (CaptureObserve ''mic'' obs now) \<and>
    steady ''mic'' 8 50 ident since (sample_ops @ [Watch (CaptureObserve ''mic'' sample_flow 9)]) \<and> 5 \<le> now - since"
proof -
  have c: "sw_stall_seconds (cw_budget sample_watch) = 8" "sw_clean_refill (cw_budget sample_watch) = 5"
    "gw_threshold (cw_glitch sample_watch) = 50"
    by (simp_all add: sample_watch_def stall_new_def glitch_default_def glitch_new_def GLITCH_XRUNS_PER_CHECK_def)
  have "sw_incidents (cw_budget sample_watch) = Map.empty" "gw_states (cw_glitch sample_watch) = Map.empty"
    by (simp_all add: sample_watch_def stall_new_def glitch_default_def glitch_new_def)
  moreover have "stall_spent (cw_budget (foldl perform sample_watch sample_ops)) ''mic'' \<noteq> 0"
    by (simp add: watch_evals)
  moreover have "stall_spent (cw_budget (perform (foldl perform sample_watch sample_ops)
      (Watch (CaptureObserve ''mic'' sample_flow 9)))) ''mic'' = 0"
    by (simp add: watch_evals)
  ultimately show ?thesis using refund_needs_clean_interval [of sample_watch sample_ops "''mic''"
      "Watch (CaptureObserve ''mic'' sample_flow 9)"] unfolding c by blast
qed

subsection \<open>Xrun storms\<close>

text \<open>
  The reference: the readings of a node, oldest first; a storm is a step to a reading of the same
  generation that is at least the threshold higher, and what counts is the run of storms at the end.
\<close>

definition storm :: "u64 \<Rightarrow> (node_identity \<times> u64) \<times> (node_identity \<times> u64) \<Rightarrow> bool" where
  "storm threshold = (\<lambda>((i, x), (j, y)). i = j \<and> x \<le> y \<and> threshold \<le> y - x)"

definition storms :: "u64 \<Rightarrow> (node_identity \<times> u64) list \<Rightarrow> nat" where
  "storms threshold obs = length (takeWhile (storm threshold) (rev (zip obs (tl obs))))"

definition glitch_run :: "glitch_watch \<Rightarrow> string \<Rightarrow> (node_identity \<times> u64) list \<Rightarrow> glitch_watch" where
  "glitch_run w name obs = foldl (\<lambda>w (i, x). snd (glitch_observe w name i x)) w obs"

lemma zip_tl_snoc: "obs \<noteq> [] \<Longrightarrow> zip (obs @ [o']) (tl (obs @ [o'])) = zip obs (tl obs) @ [(last obs, o')]"
proof (induction obs)
  case Nil
  then show ?case by simp
next
  case (Cons a obs)
  then show ?case by (cases obs) simp_all
qed

lemma storms_snoc:
  "obs \<noteq> [] \<Longrightarrow> storms thr (obs @ [o']) = (if storm thr (last obs, o') then Suc (storms thr obs) else 0)"
  unfolding storms_def by (subst zip_tl_snoc) simp_all

lemma glitch_observe_config:
  "gw_threshold (snd (glitch_observe w name i x)) = gw_threshold w" "gw_confirm (snd (glitch_observe w name i x)) = gw_confirm w"
  by (auto simp: glitch_observe_def Let_def split: option.splits)

lemma glitch_run_config:
  "gw_threshold (glitch_run w name obs) = gw_threshold w" "gw_confirm (glitch_run w name obs) = gw_confirm w"
  unfolding glitch_run_def by (induction obs arbitrary: w) (auto simp: glitch_observe_config case_prod_unfold)

lemma glitch_run_state:
  assumes "gw_states w name = None"
  shows "if obs = [] then gw_states (glitch_run w name obs) name = None
    else (\<exists>st. gw_states (glitch_run w name obs) name = Some st \<and> (gs_identity st, gs_previous st) = last obs \<and>
        unat (gs_streak st) = min (storms (gw_threshold w) obs) (2 ^ 32 - 1))"
proof (induction obs rule: rev_induct)
  case Nil
  then show ?case using assms by (simp add: glitch_run_def)
next
  case (snoc o' obs)
  obtain i x where o': "o' = (i, x)" by (cases o')
  have run: "glitch_run w name (obs @ [o']) = snd (glitch_observe (glitch_run w name obs) name i x)"
    by (simp add: glitch_run_def o')
  show ?case
  proof (cases "obs = []")
    case True
    then have "gw_states (glitch_run w name obs) name = None" using snoc.IH by simp
    then show ?thesis using True unfolding run
      by (simp add: glitch_observe_def Let_def o' storms_def)
  next
    case False
    then obtain st where st: "gw_states (glitch_run w name obs) name = Some st"
      "(gs_identity st, gs_previous st) = last obs"
      "unat (gs_streak st) = min (storms (gw_threshold w) obs) (2 ^ 32 - 1)"
      using snoc.IH by auto
    have "unat (saturating_add (gs_streak st) 1) = min (Suc (storms (gw_threshold w) obs)) (2 ^ 32 - 1)"
      unfolding unat_saturating_add by (simp add: st(3) unat_1)
    then have "\<exists>st. gw_states (glitch_run w name (obs @ [o'])) name = Some st \<and> (gs_identity st, gs_previous st) = o' \<and>
        unat (gs_streak st) = min (storms (gw_threshold w) (obs @ [o'])) (2 ^ 32 - 1)"
      unfolding run storms_snoc [OF False] st(2) [symmetric]
      by (auto simp: glitch_observe_def Let_def o' st(1) storm_def glitch_run_config)
    then show ?thesis by simp
  qed
qed

text \<open>
  C35. The watch for xrun storms computes what it means to: after any readings of a capture it is
  glitching exactly if the readings end in at least \<^verbatim>\<open>confirm\<close> storms in a row, where a restarted node
  or counter starts the count again; the saturating counter loses nothing.
\<close>

lemma glitching_iff_storms:
  "glitching (glitch_run (glitch_new threshold confirm) name obs) name \<longleftrightarrow> unat (max confirm 1) \<le> storms threshold obs"
proof (cases "obs = []")
  case True
  then show ?thesis
    by (auto simp: glitching_def glitch_run_def glitch_new_def storms_def max_def unat_1 word_le_nat_alt split: if_splits)
next
  case False
  have e: "gw_states (glitch_new threshold confirm) name = None" by (simp add: glitch_new_def)
  have c: "gw_threshold (glitch_new threshold confirm) = threshold" "gw_confirm (glitch_new threshold confirm) = max confirm 1"
    by (simp_all add: glitch_new_def)
  obtain st where st: "gw_states (glitch_run (glitch_new threshold confirm) name obs) name = Some st"
    "unat (gs_streak st) = min (storms threshold obs) (2 ^ 32 - 1)"
    using glitch_run_state [OF e, of obs] False unfolding c by auto
  have "unat (max confirm 1) < 2 ^ LENGTH(32)" by (rule unsigned_less)
  then have "unat (max confirm 1) \<le> 2 ^ 32 - 1" by simp
  then show ?thesis using st
    by (simp add: glitching_def glitch_run_config c word_le_nat_alt)
qed

subsection \<open>Nodes are watched independently\<close>

text \<open>Two watches agree on a node.\<close>

definition same_capture :: "string \<Rightarrow> capture_watch \<Rightarrow> capture_watch \<Rightarrow> bool" where
  "same_capture k v w \<longleftrightarrow>
     gw_threshold (cw_glitch v) = gw_threshold (cw_glitch w) \<and> gw_confirm (cw_glitch v) = gw_confirm (cw_glitch w) \<and>
     gw_states (cw_glitch v) k = gw_states (cw_glitch w) k \<and>
     sw_stall_seconds (cw_budget v) = sw_stall_seconds (cw_budget w) \<and> sw_cooldown (cw_budget v) = sw_cooldown (cw_budget w) \<and>
     sw_max_attempts (cw_budget v) = sw_max_attempts (cw_budget w) \<and>
     sw_clean_refill (cw_budget v) = sw_clean_refill (cw_budget w) \<and>
     sw_incidents (cw_budget v) k = sw_incidents (cw_budget w) k \<and>
     (k \<in> set (cw_no_data v) \<longleftrightarrow> k \<in> set (cw_no_data w))"

definition same_sink :: "string \<Rightarrow> sink_stall_watch \<Rightarrow> sink_stall_watch \<Rightarrow> bool" where
  "same_sink k v w \<longleftrightarrow> kw_cooldown v = kw_cooldown w \<and> kw_max_attempts v = kw_max_attempts w \<and>
     kw_clean_refill v = kw_clean_refill w \<and> kw_incidents v k = kw_incidents w k"

lemma same_refl [simp]: "same_capture k w w" "same_sink k v v"
  by (simp_all add: same_capture_def same_sink_def)

lemma same_trans:
  "same_capture k u v \<Longrightarrow> same_capture k v w \<Longrightarrow> same_capture k u w"
  "same_sink k a b \<Longrightarrow> same_sink k b c \<Longrightarrow> same_sink k a c"
  by (auto simp: same_capture_def same_sink_def)

lemma glitch_observe_other:
  "name \<noteq> k \<Longrightarrow> gw_states (snd (glitch_observe w name i x)) k = gw_states w k"
  by (auto simp: glitch_observe_def Let_def split: option.splits)

lemma stall_other:
  "name \<noteq> k \<Longrightarrow> sw_incidents (stall_pause w name) k = sw_incidents w k"
  "name \<noteq> k \<Longrightarrow> sw_incidents (record_recovered w name i t) k = sw_incidents w k"
  by (auto simp: stall_pause_def record_recovered_def Let_def split: option.splits prod.splits)

lemma capture_observe_other:
  "name \<noteq> k \<Longrightarrow> same_capture k (snd (capture_observe w name obs now)) w"
  "name \<noteq> k \<Longrightarrow> same_capture k (capture_pause w name) w"
  by (auto simp: same_capture_def capture_observe_def capture_pause_def Let_def glitch_observe_other stall_other
      glitch_observe_config glitch_pause_def split: option.splits)

lemma sink_observe_other:
  "name \<noteq> k \<Longrightarrow> same_sink k (snd (sink_observe w name obs)) w" "name \<noteq> k \<Longrightarrow> same_sink k (sink_pause w name) w"
  by (auto simp: same_sink_def sink_observe_def sink_pause_def Let_def split: option.splits)

lemma capture_observe_same:
  assumes "same_capture k v w"
  shows "fst (capture_observe v k obs now) = fst (capture_observe w k obs now)"
proof -
  have g: "gw_states (snd (glitch_observe (cw_glitch v) k i x)) k = gw_states (snd (glitch_observe (cw_glitch w) k i x)) k" for i x
    using assms by (auto simp: same_capture_def glitch_observe_def Let_def split: option.splits)
  have r: "capture_entry (record_recovered (cw_budget v) k i now) k = capture_entry (record_recovered (cw_budget w) k i now) k"
    "capture_entry (stall_pause (cw_budget v) k) k = capture_entry (stall_pause (cw_budget w) k) k" for i
    using assms unfolding record_recovered_entry stall_pause_entry by (auto simp: same_capture_def capture_entry_def)
  show ?thesis using assms g r
    by (auto simp: capture_observe_def Let_def same_capture_def last_delta_def glitching_def just_confirmed_def
        can_recover_def stall_by_entry glitch_observe_config glitch_pause_def split: option.splits)
qed

lemma sink_observe_same:
  assumes "same_sink k v w"
  shows "fst (sink_observe v k obs) = fst (sink_observe w k obs)"
    and "just_stalled (snd (sink_observe v k obs)) k = just_stalled (snd (sink_observe w k obs)) k"
    and "sink_should_recover (snd (sink_observe v k obs)) k now = sink_should_recover (snd (sink_observe w k obs)) k now"
  using assms
  by (auto simp: sink_observe_def same_sink_def just_stalled_def sink_should_recover_def sink_pause_def sink_entry_def
      Let_def split: option.splits)

lemma pause_others:
  "k \<notin> set names \<Longrightarrow> same_capture k (foldl capture_pause w names) w"
  "k \<notin> set names \<Longrightarrow> same_sink k (foldl sink_pause v names) v"
proof -
  show "k \<notin> set names \<Longrightarrow> same_capture k (foldl capture_pause w names) w"
  proof (induction names arbitrary: w)
    case (Cons a names)
    then show ?case using same_trans(1) capture_observe_other(2) by (metis foldl_Cons list.set_intros(1,2))
  qed simp
  show "k \<notin> set names \<Longrightarrow> same_sink k (foldl sink_pause v names) v"
  proof (induction names arbitrary: v)
    case (Cons a names)
    then show ?case using same_trans(2) sink_observe_other(2) by (metis foldl_Cons list.set_intros(1,2))
  qed simp
qed

text \<open>What is reported on a sink that is observed alone.\<close>

definition sink_report :: "sink_stall_watch \<Rightarrow> string \<Rightarrow> sink_sample observation \<Rightarrow> duration \<Rightarrow> sink_decision" where
  "sink_report w name sample now = snd (hd (snd (report_sink now (w, []) (name, sample))))"

lemma sink_report_same: "same_sink k v w \<Longrightarrow> sink_report v k s now = sink_report w k s now"
  by (simp add: sink_report_def report_sink_def case_prod_unfold Let_def sink_observe_same [of k v w])

lemma report_captures:
  assumes "distinct (map fst es)" and "list_all (\<lambda>e. fst e \<notin> set (map fst rep)) es"
    and "list_all (\<lambda>e. same_capture (fst e) w w0) es"
  shows "snd (foldl (report_capture now) (w, rep) es) = rep @ map (\<lambda>(k, s). (k, fst (capture_observe w0 k s now))) es"
  using assms
proof (induction es arbitrary: w rep)
  case Nil
  then show ?case by simp
next
  case (Cons e es)
  obtain k s where e: "e = (k, s)" by (cases e)
  have d: "fst (capture_observe w k s now) = fst (capture_observe w0 k s now)"
    using Cons.prems(3) e by (simp add: capture_observe_same)
  have step: "report_capture now (w, rep) e =
      (snd (capture_observe w k s now), rep @ [(k, fst (capture_observe w0 k s now))])"
    using Cons.prems(2) e d by (simp add: report_capture_def case_prod_unfold Let_def im_insert_fresh)
  have "list_all (\<lambda>e. same_capture (fst e) (snd (capture_observe w k s now)) w0) es"
    using Cons.prems(1,3) e by (force simp: list_all_iff intro: same_trans capture_observe_other)
  moreover have "list_all (\<lambda>e. fst e \<notin> set (map fst (rep @ [(k, fst (capture_observe w0 k s now))]))) es"
    using Cons.prems(1,2) e by (force simp: list_all_iff)
  ultimately show ?case
    using Cons.IH [of "rep @ [(k, fst (capture_observe w0 k s now))]" "snd (capture_observe w k s now)"] Cons.prems(1) e step
    by simp
qed

lemma report_sinks:
  assumes "distinct (map fst es)" and "list_all (\<lambda>e. fst e \<notin> set (map fst rep)) es"
    and "list_all (\<lambda>e. same_sink (fst e) w w0) es"
  shows "snd (foldl (report_sink now) (w, rep) es) = rep @ map (\<lambda>(k, s). (k, sink_report w0 k s now)) es"
  using assms
proof (induction es arbitrary: w rep)
  case Nil
  then show ?case by simp
next
  case (Cons e es)
  obtain k s where e: "e = (k, s)" by (cases e)
  have d: "sink_report w k s now = sink_report w0 k s now"
    using Cons.prems(3) e by (simp add: sink_report_same)
  have step: "report_sink now (w, rep) e = (snd (sink_observe w k s), rep @ [(k, sink_report w0 k s now)])"
    using Cons.prems(2) e unfolding d [symmetric]
    by (simp add: report_sink_def sink_report_def case_prod_unfold Let_def im_insert_fresh)
  have "list_all (\<lambda>e. same_sink (fst e) (snd (sink_observe w k s)) w0) es"
    using Cons.prems(1,3) e by (force simp: list_all_iff intro: same_trans sink_observe_other)
  moreover have "list_all (\<lambda>e. fst e \<notin> set (map fst (rep @ [(k, sink_report w0 k s now)]))) es"
    using Cons.prems(1,2) e by (force simp: list_all_iff)
  ultimately show ?case
    using Cons.IH [of "rep @ [(k, sink_report w0 k s now)]" "snd (sink_observe w k s)"] Cons.prems(1) e step
    by simp
qed

text \<open>
  The nodes of the graph are judged independently: the report on a complete observation has exactly
  the observed nodes, in their order, and what it says of each is what the watch would say if that node
  were the only one observed. A failed collection reports only its error.
\<close>

lemma health_report_independent:
  "fst (health_observe w (Unknown e) now) = health_report_default\<lparr>rep_error := Some e\<rparr> \<and>
   fst (health_observe w (Known \<lparr>hs_captures = im_collect cs, hs_sinks = im_collect ss\<rparr>) now) =
     \<lparr>rep_captures = map (\<lambda>(k, s). (k, fst (capture_observe (hw_capture w) k s now))) (im_collect cs),
      rep_sinks = map (\<lambda>(k, s). (k, sink_report (hw_sink w) k s now)) (im_collect ss),
      rep_error = None\<rparr>"
proof -
  let ?cs = "im_collect cs" and ?ss = "im_collect ss"
  define c where "c = foldl capture_pause (hw_capture w) (filter (\<lambda>n. \<not> im_contains ?cs n) (hw_captures w))"
  define s where "s = foldl sink_pause (hw_sink w) (filter (\<lambda>n. \<not> im_contains ?ss n) (hw_sinks w))"
  have d: "distinct (map fst ?cs)" "distinct (map fst ?ss)"
    using im_wf_collect [of cs] im_wf_collect [of ss] by (simp_all add: im_wf_def)
  have "list_all (\<lambda>e. same_capture (fst e) c (hw_capture w)) ?cs"
    unfolding c_def by (force simp: list_all_iff im_contains_iff intro!: pause_others)
  from report_captures [OF d(1) _ this, of "[]" now]
  have rc: "snd (foldl (report_capture now) (c, []) ?cs) = map (\<lambda>(k, s). (k, fst (capture_observe (hw_capture w) k s now))) ?cs"
    by (simp add: list_all_iff)
  have "list_all (\<lambda>e. same_sink (fst e) s (hw_sink w)) ?ss"
    unfolding s_def by (force simp: list_all_iff im_contains_iff intro!: pause_others)
  from report_sinks [OF d(2) _ this, of "[]" now]
  have rs: "snd (foldl (report_sink now) (s, []) ?ss) = map (\<lambda>(k, s). (k, sink_report (hw_sink w) k s now)) ?ss"
    by (simp add: list_all_iff)
  show ?thesis
    using rc rs unfolding c_def s_def by (simp add: health_observe_def Let_def case_prod_unfold)
qed

subsection \<open>Unknown and omitted nodes keep their budgets\<close>

lemma capture_pause_entry:
  "capture_entry (cw_budget (foldl capture_pause w names)) k =
     (if k \<in> set names then (capture_entry (cw_budget w) k)\<lparr>ci_clean := None\<rparr> else capture_entry (cw_budget w) k)"
  by (induction names arbitrary: w) (auto simp: capture_pause_def stall_pause_entry)

lemma sink_pauses_entry:
  "sink_entry (foldl sink_pause w names) k = (if k \<in> set names
     then (sink_entry w k)\<lparr>si_baseline := None, si_stalled := False, si_was_stalled := False, si_clean := 0\<rparr>
     else sink_entry w k)"
  by (induction names arbitrary: w) (auto simp: sink_pause_entry)

lemma report_capture_other:
  "k \<notin> set (map fst es) \<Longrightarrow> same_capture k (fst (foldl (report_capture now) (w, rep) es)) w"
proof (induction es arbitrary: w rep)
  case (Cons e es)
  have "same_capture k (fst (report_capture now (w, rep) e)) w"
    using Cons.prems by (cases e) (auto simp: report_capture_def case_prod_unfold Let_def intro: capture_observe_other)
  then show ?case
    using Cons by (cases "report_capture now (w, rep) e") (auto intro: same_trans)
qed simp

lemma report_sink_other:
  "k \<notin> set (map fst es) \<Longrightarrow> same_sink k (fst (foldl (report_sink now) (w, rep) es)) w"
proof (induction es arbitrary: w rep)
  case (Cons e es)
  have "same_sink k (fst (report_sink now (w, rep) e)) w"
    using Cons.prems by (cases e) (auto simp: report_sink_def case_prod_unfold Let_def intro: sink_observe_other)
  then show ?case
    using Cons by (cases "report_sink now (w, rep) e") (auto intro: same_trans)
qed simp

lemma same_entries:
  "same_capture k v w \<Longrightarrow> capture_entry (cw_budget v) k = capture_entry (cw_budget w) k"
  "same_sink k a b \<Longrightarrow> sink_entry a k = sink_entry b k"
  by (simp_all add: same_capture_def same_sink_def capture_entry_def sink_entry_def)

definition observed_capture :: "health_samples observation \<Rightarrow> string \<Rightarrow> bool" where
  "observed_capture obs k = (case obs of Unknown e \<Rightarrow> False | Known s \<Rightarrow> im_contains (hs_captures s) k)"

definition observed_sink :: "health_samples observation \<Rightarrow> string \<Rightarrow> bool" where
  "observed_sink obs k = (case obs of Unknown e \<Rightarrow> False | Known s \<Rightarrow> im_contains (hs_sinks s) k)"

text \<open>
  An unknown or omitted node ends its clean interval, never its budget: whatever is observed, a node
  that is not part of the observation keeps its attempts and the time of its last attempt, and one that
  was watched before loses exactly its clean interval (a sink also its baseline).
\<close>

lemma unobserved_keep_budget:
  "(let w' = snd (health_observe w obs now) in
    (if observed_capture obs k then True
     else capture_entry (cw_budget (hw_capture w')) k =
       (if k \<in> set (hw_captures w) then (capture_entry (cw_budget (hw_capture w)) k)\<lparr>ci_clean := None\<rparr>
        else capture_entry (cw_budget (hw_capture w)) k)) \<and>
    (if observed_sink obs k then True
     else sink_entry (hw_sink w') k =
       (if k \<in> set (hw_sinks w)
        then (sink_entry (hw_sink w) k)\<lparr>si_baseline := None, si_stalled := False, si_was_stalled := False, si_clean := 0\<rparr>
        else sink_entry (hw_sink w) k)))"
proof (cases obs)
  case (Unknown e)
  then show ?thesis
    by (simp add: health_observe_def observed_capture_def observed_sink_def capture_pause_entry sink_pauses_entry)
next
  case (Known s)
  have c: "\<not> im_contains (hs_captures s) k \<Longrightarrow>
      capture_entry (cw_budget (fst (foldl (report_capture now) (v, []) (hs_captures s)))) k = capture_entry (cw_budget v) k" for v
    by (rule same_entries(1), rule report_capture_other) (simp add: im_contains_iff)
  have d: "\<not> im_contains (hs_sinks s) k \<Longrightarrow>
      sink_entry (fst (foldl (report_sink now) (v, []) (hs_sinks s))) k = sink_entry v k" for v
    by (rule same_entries(2), rule report_sink_other) (simp add: im_contains_iff)
  show ?thesis
    using c d unfolding Known
    by (auto simp: health_observe_def observed_capture_def observed_sink_def Let_def case_prod_unfold
        capture_pause_entry sink_pauses_entry)
qed

end
