(* ===== verification/Health_Parse.thy ===== *)
theory Health_Parse
  imports Health Json Profiles
begin

text \<open>
  The parsers of \<^verbatim>\<open>crates/openwave-core/src/health.rs\<close>: the xrun counts of \<^verbatim>\<open>pw-top\<close>, the
  playback status of an ALSA device, the mute listing of the Pulse server, and the graph of
  nodes and links from which the watched captures and sinks are taken. A graph that is malformed or
  ambiguous is refused as a whole.
\<close>

subsection \<open>\<^verbatim>\<open>pw-top\<close>\<close>

record xrun_count =
  xc_node_id :: u32
  xc_node_name :: string
  xc_count :: u64

definition nth_word :: "string list \<Rightarrow> nat \<Rightarrow> string option" where
  "nth_word ws i = (if i < length ws then Some (ws ! i) else None)"

text \<open>The fields of a line: the node after the state, the count six fields later, the name at the end.\<close>

definition pw_top_line :: "string \<Rightarrow> xrun_count option" where
  "pw_top_line line =
     (let ws = split_whitespace line in
      Option.bind (Option.bind (nth_word ws 1) parse_u32) (\<lambda>node_id.
      Option.bind (Option.bind (nth_word ws 8) parse_u64) (\<lambda>n.
        if drop 9 ws = [] then None
        else Some \<lparr>xc_node_id = node_id, xc_node_name = last (drop 9 ws), xc_count = n\<rparr>)))"

definition pw_top_step :: "(u32, xrun_count) imap \<Rightarrow> string \<Rightarrow> (u32, xrun_count) imap" where
  "pw_top_step counts line =
     (case pw_top_line line of None \<Rightarrow> counts | Some x \<Rightarrow> im_insert counts (xc_node_id x) x)"

definition parse_pw_top :: "string \<Rightarrow> (u32, xrun_count) imap" where
  "parse_pw_top tx = foldl pw_top_step [] (str_lines tx)"

subsection \<open>ALSA playback status\<close>

definition playback_state_of :: "string \<Rightarrow> playback_state" where
  "playback_state_of s =
     (if s = ''RUNNING'' then PlaybackRunning else if s = ''XRUN'' then PlaybackXrun else PlaybackOther)"

definition playback_line :: "u64 option \<times> playback_state option \<Rightarrow> string \<Rightarrow> u64 option \<times> playback_state option" where
  "playback_line st line = (case split_once (CHR '':'') line of
       None \<Rightarrow> st
     | Some (key, v) \<Rightarrow>
         if trim key = ''hw_ptr'' then (parse_u64 (trim v), snd st)
         else if trim key = ''state'' then (fst st, Some (playback_state_of (trim v)))
         else st)"

definition parse_playback_status :: "string \<Rightarrow> playback_status res" where
  "parse_playback_status tx =
     (case foldl playback_line (None, None) (str_lines tx) of (pointer, state) \<Rightarrow>
        rbind (ok_or (error_unavailable ''Missing ALSA playback pointer'') pointer) (\<lambda>p.
        rbind (ok_or (error_unavailable ''Missing ALSA playback state'') state) (\<lambda>s.
          Inr \<lparr>pb_hw_ptr = p, pb_state = s\<rparr>)))"

subsection \<open>Mutes\<close>

definition mute_step :: "(string, bool) imap \<Rightarrow> json \<Rightarrow> (string, bool) imap res" where
  "mute_step mutes entry =
     rbind (ok_or (error_unavailable ''Missing Pulse node name'') (Option.bind (jget entry ''name'') as_str)) (\<lambda>name.
     rbind (ok_or (error_unavailable ''Unknown Pulse mute'') (Option.bind (jget entry ''mute'') as_bool)) (\<lambda>mute.
       if name = [] \<or> im_contains mutes name then Inl (error_unavailable ''Ambiguous Pulse node name'')
       else Inr (im_insert mutes name mute)))"

definition parse_mutes :: "json \<Rightarrow> (string, bool) imap res" where
  "parse_mutes v =
     rbind (ok_or (error_unavailable ''Invalid Pulse mute listing'') (as_array v)) (res_foldM mute_step [])"

subsection \<open>The graph\<close>

record alsa_playback =
  ap_card :: u32
  ap_device :: u32
  ap_subdevice :: u32

record watched_node =
  wn_identity :: node_identity
  wn_node_id :: u32
  wn_running :: bool

record watched_sink =
  ws_node :: watched_node
  ws_playback :: alsa_playback

record health_graph =
  hg_captures :: "(string, watched_node) imap"
  hg_sinks :: "(string, watched_sink) imap"

definition u32_of :: "u64 \<Rightarrow> u32 option" where
  "u32_of w = (if unat w < 2 ^ 32 then Some (ucast w) else None)"

definition json_uint :: "json \<Rightarrow> u32 option" where
  "json_uint v = (case Option.bind (as_u64 v) u32_of of
       Some n \<Rightarrow> Some n
     | None \<Rightarrow> Option.bind (as_str v) parse_u32)"

definition graph_error :: operation_error where
  "graph_error = error_unavailable ''Malformed or identity-incomplete health graph''"

definition is_type :: "json \<Rightarrow> string \<Rightarrow> bool" where
  "is_type v t \<longleftrightarrow> Option.bind (jget v ''type'') as_str = Some (''PipeWire:Interface:'' @ t)"

definition cookie_step :: "u32 option \<Rightarrow> json \<Rightarrow> u32 option res" where
  "cookie_step cookie v =
     rbind (ok_or graph_error (as_object v)) (\<lambda>_.
       if is_type v ''Core''
       then rbind (ok_or graph_error (Option.bind (Option.bind (jget v ''info'') (\<lambda>i. jget i ''cookie'')) json_uint)) (\<lambda>observed.
         if cookie \<noteq> None then Inl graph_error else Inr (Some observed))
       else Inr cookie)"

record graph_node =
  gn_name :: string
  gn_class :: string
  gn_node :: watched_node
  gn_props :: jmap

text \<open>\<^verbatim>\<open>object.serial\<close>: a nonempty string, an unsigned number, or, when absent, the node's own number.\<close>

definition node_serial :: "jmap \<Rightarrow> u32 \<Rightarrow> string res" where
  "node_serial props ident = (case im_get props ''object.serial'' of
       Some (JString s) \<Rightarrow> if s \<noteq> [] then Inr s else Inl graph_error
     | Some (JNumber n) \<Rightarrow>
         (case as_u64 (JNumber n) of Some k \<Rightarrow> Inr (show_nat (unat k)) | None \<Rightarrow> Inl graph_error)
     | None \<Rightarrow> Inr (show_nat (unat ident))
     | _ \<Rightarrow> Inl graph_error)"

definition decode_node :: "u32 \<Rightarrow> json \<Rightarrow> graph_node res" where
  "decode_node cookie v =
     rbind (ok_or graph_error (Option.bind (jget v ''id'') json_uint)) (\<lambda>ident.
     rbind (ok_or graph_error (Option.bind (jget v ''info'') as_object)) (\<lambda>info.
     rbind (ok_or graph_error (Option.bind (im_get info ''props'') as_object)) (\<lambda>props.
     rbind (ok_or graph_error (Option.bind (im_get props ''node.name'') as_str)) (\<lambda>name.
     rbind (ok_or graph_error (Option.bind (im_get info ''state'') as_str)) (\<lambda>state.
     rbind (node_serial props ident) (\<lambda>serial.
       Inr \<lparr>gn_name = name,
            gn_class = (case Option.bind (im_get props ''media.class'') as_str of None \<Rightarrow> [] | Some c \<Rightarrow> c),
            gn_node = \<lparr>wn_identity = \<lparr>server_cookie = cookie, object_serial = serial\<rparr>, wn_node_id = ident,
              wn_running = (state = ''running'')\<rparr>,
            gn_props = props\<rparr>))))))"

record node_table =
  nt_nodes :: "(u32, graph_node) imap"
  nt_names :: "string list"
  nt_identities :: "node_identity list"

definition hardware_class :: "string \<Rightarrow> bool" where
  "hardware_class c \<longleftrightarrow> c = ''Audio/Sink'' \<or> c = ''Audio/Source''"

definition node_step :: "u32 \<Rightarrow> node_table \<Rightarrow> json \<Rightarrow> node_table res" where
  "node_step cookie st v =
     (if \<not> is_type v ''Node'' then Inr st
      else rbind (decode_node cookie v) (\<lambda>n.
        let ident = wn_node_id (gn_node n) in
        if wn_identity (gn_node n) \<in> set (nt_identities st) \<or> im_contains (nt_nodes st) ident then Inl graph_error
        else if hardware_class (gn_class n) \<and> gn_name n \<in> set (nt_names st) then Inl graph_error
        else Inr \<lparr>nt_nodes = im_insert (nt_nodes st) ident n,
                  nt_names = (if hardware_class (gn_class n) then gn_name n # nt_names st else nt_names st),
                  nt_identities = wn_identity (gn_node n) # nt_identities st\<rparr>))"

definition wave_capture :: "string \<Rightarrow> bool" where
  "wave_capture name \<longleftrightarrow>
     starts_with ''alsa_input.usb-Elgato_Systems_Elgato_Wave_'' name \<or>
     starts_with ''alsa_input.usb-Elgato_Systems_Elgato_XLR_Dock_'' name \<or>
     (case strip_prefix ''alsa_input.usb-'' name of None \<Rightarrow> False
      | Some rest \<Rightarrow> starts_with (capture_serial_prefix (Profiles.profile XlrDockMk2)) rest)"

definition capture_of :: "(string, watched_node) imap \<Rightarrow> graph_node \<Rightarrow> (string, watched_node) imap" where
  "capture_of m n = (if gn_class n = ''Audio/Source'' \<and> wave_capture (gn_name n) then im_insert m (gn_name n) (gn_node n) else m)"

text \<open>The closure \<^verbatim>\<open>number\<close> and the optional subdevice.\<close>

definition prop_value :: "jmap \<Rightarrow> string \<Rightarrow> string \<Rightarrow> json option" where
  "prop_value props primary fallback =
     (case im_get props primary of Some v \<Rightarrow> Some v | None \<Rightarrow> im_get props fallback)"

definition alsa_playback_of :: "jmap \<Rightarrow> alsa_playback res" where
  "alsa_playback_of props =
     rbind (ok_or graph_error (Option.bind (prop_value props ''api.alsa.pcm.card'' ''alsa.card'') json_uint)) (\<lambda>card0.
     rbind (ok_or graph_error (Option.bind (prop_value props ''api.alsa.pcm.device'' ''alsa.device'') json_uint)) (\<lambda>device.
     rbind (case prop_value props ''api.alsa.pcm.subdevice'' ''alsa.subdevice'' of
         None \<Rightarrow> Inr 0
       | Some v \<Rightarrow> ok_or graph_error (json_uint v)) (\<lambda>subdevice.
       Inr \<lparr>ap_card = card0, ap_device = device, ap_subdevice = subdevice\<rparr>)))"

definition watched_link :: "graph_node \<Rightarrow> graph_node \<Rightarrow> bool" where
  "watched_link s t \<longleftrightarrow> starts_with ''openwave_loop_output_'' (gn_name s) \<and> \<not> ends_with ''_cap'' (gn_name s) \<and>
     starts_with ''alsa_output.'' (gn_name t) \<and> gn_class t = ''Audio/Sink''"

definition link_ends :: "json \<Rightarrow> (u32 \<times> u32) res" where
  "link_ends v =
     rbind (ok_or graph_error (Option.bind (jget v ''info'') as_object)) (\<lambda>info.
     rbind (ok_or graph_error (Option.bind (im_get info ''output-node-id'') json_uint)) (\<lambda>s.
     rbind (ok_or graph_error (Option.bind (im_get info ''input-node-id'') json_uint)) (\<lambda>t. Inr (s, t))))"

definition link_step ::
  "(u32, graph_node) imap \<Rightarrow> (string, watched_sink) imap \<Rightarrow> json \<Rightarrow> (string, watched_sink) imap res" where
  "link_step nodes sinks v =
     (if \<not> is_type v ''Link'' then Inr sinks
      else rbind (link_ends v) (\<lambda>(s, t).
        rbind (ok_or graph_error (im_get nodes s)) (\<lambda>sn.
        rbind (ok_or graph_error (im_get nodes t)) (\<lambda>tn.
          if \<not> watched_link sn tn then Inr sinks
          else rbind (alsa_playback_of (gn_props tn)) (\<lambda>p.
            Inr (im_insert sinks (gn_name tn) \<lparr>ws_node = gn_node tn, ws_playback = p\<rparr>))))))"

definition health_nodes :: "json list \<Rightarrow> (u32, graph_node) imap res" where
  "health_nodes objects =
     rbind (res_foldM cookie_step None objects) (\<lambda>cookie.
     rbind (ok_or graph_error cookie) (\<lambda>cookie.
     rbind (res_foldM (node_step cookie) \<lparr>nt_nodes = [], nt_names = [], nt_identities = []\<rparr> objects) (\<lambda>st.
       Inr (nt_nodes st))))"

definition parse_health_graph :: "json \<Rightarrow> health_graph res" where
  "parse_health_graph v =
     rbind (ok_or graph_error (as_array v)) (\<lambda>objects.
     rbind (health_nodes objects) (\<lambda>nodes.
     rbind (res_foldM (link_step nodes) [] objects) (\<lambda>sinks.
       Inr \<lparr>hg_captures = foldl capture_of [] (im_values nodes), hg_sinks = sinks\<rparr>)))"

subsection \<open>The last reading of a node counts\<close>

text \<open>
  The counts read from \<^verbatim>\<open>pw-top\<close> are the last ones: the entry of a node is what the last line about
  the node says (the tool prints several iterations), and lines that are not readings are ignored.
\<close>

lemma parse_pw_top_last:
  "im_wf (parse_pw_top tx) \<and>
   im_get (parse_pw_top tx) n = find_map (\<lambda>line. case pw_top_line line of
       Some x \<Rightarrow> if xc_node_id x = n then Some x else None | None \<Rightarrow> None) (rev (str_lines tx))"
proof -
  have "im_wf (foldl pw_top_step [] ls) \<and> im_get (foldl pw_top_step [] ls) n = find_map (\<lambda>line. case pw_top_line line of
       Some x \<Rightarrow> if xc_node_id x = n then Some x else None | None \<Rightarrow> None) (rev ls)" for ls
    by (induction ls rule: rev_induct) (auto simp: pw_top_step_def split: option.splits)
  then show ?thesis by (simp add: parse_pw_top_def)
qed

subsection \<open>The graph is unambiguous and its sinks are really linked\<close>

definition table_ok :: "node_table \<Rightarrow> bool" where
  "table_ok st \<longleftrightarrow> im_wf (nt_nodes st) \<and> list_all (\<lambda>(i, n). i = wn_node_id (gn_node n)) (nt_nodes st) \<and>
     distinct (map (\<lambda>n. wn_identity (gn_node n)) (im_values (nt_nodes st))) \<and>
     distinct (map gn_name (filter (\<lambda>n. hardware_class (gn_class n)) (im_values (nt_nodes st)))) \<and>
     set (nt_identities st) = set (map (\<lambda>n. wn_identity (gn_node n)) (im_values (nt_nodes st))) \<and>
     set (nt_names st) = set (map gn_name (filter (\<lambda>n. hardware_class (gn_class n)) (im_values (nt_nodes st))))"

lemma node_step_ok:
  assumes ok: "table_ok st" and step: "node_step cookie st v = Inr st'"
  shows "table_ok st'"
proof (cases "is_type v ''Node''")
  case True
  let ?hw = "\<lambda>n. hardware_class (gn_class n)" and ?id = "\<lambda>n. wn_identity (gn_node n)"
  obtain n where n: "?id n \<notin> set (nt_identities st)" "wn_node_id (gn_node n) \<notin> set (map fst (nt_nodes st))"
    "hardware_class (gn_class n) \<Longrightarrow> gn_name n \<notin> set (nt_names st)"
    and st': "st' = \<lparr>nt_nodes = nt_nodes st @ [(wn_node_id (gn_node n), n)],
       nt_names = (if ?hw n then gn_name n # nt_names st else nt_names st), nt_identities = ?id n # nt_identities st\<rparr>"
    using step True by (auto simp: node_step_def rbind_Inr_iff Let_def im_contains_iff im_insert_fresh split: if_splits)
  have v: "im_values (nt_nodes st') = im_values (nt_nodes st) @ [n]" by (simp add: st' im_values_def)
  show ?thesis
    using ok n unfolding table_ok_def v
    by (cases "?hw n") (simp_all add: st' im_wf_def)
next
  case False
  then show ?thesis using assms by (simp add: node_step_def)
qed

lemma health_nodes_ok:
  assumes "health_nodes objects = Inr nodes"
  shows "im_wf nodes \<and> distinct (map (\<lambda>n. wn_identity (gn_node n)) (im_values nodes)) \<and>
    distinct (map gn_name (filter (\<lambda>n. hardware_class (gn_class n)) (im_values nodes)))"
proof -
  obtain cookie st where f: "res_foldM (node_step cookie) \<lparr>nt_nodes = [], nt_names = [], nt_identities = []\<rparr> objects = Inr st"
    and n: "nodes = nt_nodes st"
    using assms by (auto simp: health_nodes_def rbind_Inr_iff)
  have "table_ok st"
  proof (rule res_foldM_inv [OF f])
    show "table_ok \<lparr>nt_nodes = [], nt_names = [], nt_identities = []\<rparr>" by (simp add: table_ok_def im_values_def)
  qed (rule node_step_ok)
  then show ?thesis by (simp add: table_ok_def n)
qed

text \<open>The sink a watched link leads to, if the object is one.\<close>

definition linked :: "(u32, graph_node) imap \<Rightarrow> json \<Rightarrow> graph_node option" where
  "linked nodes v = (if \<not> is_type v ''Link'' then None else (case link_ends v of
       Inl e \<Rightarrow> None
     | Inr (s, t) \<Rightarrow> (case (im_get nodes s, im_get nodes t) of
         (Some sn, Some tn) \<Rightarrow> if watched_link sn tn then Some tn else None | _ \<Rightarrow> None)))"

lemma link_step_Inr:
  assumes "link_step nodes sinks v = Inr sinks'"
  shows "(case linked nodes v of None \<Rightarrow> sinks' = sinks
    | Some tn \<Rightarrow> (\<exists>p. alsa_playback_of (gn_props tn) = Inr p \<and> sinks' = im_insert sinks (gn_name tn) \<lparr>ws_node = gn_node tn, ws_playback = p\<rparr>))"
  using assms by (auto simp: link_step_def linked_def rbind_Inr_iff ok_or_Inr_iff split: if_splits)

lemma links_complete:
  "res_foldM (link_step nodes) sinks objects = Inr sinks' \<Longrightarrow>
   list_all (\<lambda>v. case linked nodes v of None \<Rightarrow> True | Some tn \<Rightarrow> im_contains sinks' (gn_name tn)) objects \<and>
   (\<forall>k. im_contains sinks k \<longrightarrow> im_contains sinks' k)"
proof (induction objects arbitrary: sinks)
  case Nil
  then show ?case by simp
next
  case (Cons v objects)
  obtain s where s: "link_step nodes sinks v = Inr s" "res_foldM (link_step nodes) s objects = Inr sinks'"
    using Cons.prems by (auto simp: rbind_Inr_iff)
  note l = link_step_Inr [OF s(1)] and IH = Cons.IH [OF s(2)]
  have "\<forall>k. im_contains sinks k \<longrightarrow> im_contains s k"
    using l by (cases "linked nodes v") auto
  moreover have "case linked nodes v of None \<Rightarrow> True | Some tn \<Rightarrow> im_contains s (gn_name tn)"
    using l by (cases "linked nodes v") auto
  ultimately show ?case using IH by (cases "linked nodes v") auto
qed

lemma links_sound:
  assumes "res_foldM (link_step nodes) [] objects = Inr sinks"
  shows "list_all (\<lambda>(k, w). list_ex (\<lambda>v. case linked nodes v of None \<Rightarrow> False
    | Some tn \<Rightarrow> gn_name tn = k \<and> gn_node tn = ws_node w \<and> alsa_playback_of (gn_props tn) = Inr (ws_playback w)) objects) sinks"
proof (rule res_foldM_inv [OF assms])
  fix s v s'
  assume v: "v \<in> set objects" and s: "link_step nodes s v = Inr s'"
    and IH: "list_all (\<lambda>(k, w). list_ex (\<lambda>v. case linked nodes v of None \<Rightarrow> False
      | Some tn \<Rightarrow> gn_name tn = k \<and> gn_node tn = ws_node w \<and> alsa_playback_of (gn_props tn) = Inr (ws_playback w)) objects) s"
  show "list_all (\<lambda>(k, w). list_ex (\<lambda>v. case linked nodes v of None \<Rightarrow> False
      | Some tn \<Rightarrow> gn_name tn = k \<and> gn_node tn = ws_node w \<and> alsa_playback_of (gn_props tn) = Inr (ws_playback w)) objects) s'"
  proof (cases "linked nodes v")
    case None
    then show ?thesis using link_step_Inr [OF s] IH by simp
  next
    case (Some tn)
    obtain p where p: "alsa_playback_of (gn_props tn) = Inr p"
      "s' = im_insert s (gn_name tn) \<lparr>ws_node = gn_node tn, ws_playback = p\<rparr>"
      using link_step_Inr [OF s] Some by auto
    then show ?thesis using IH v Some by (auto simp: list_ex_iff intro!: im_all_insert bexI [of _ v])
  qed
qed simp

lemma graph_errors:
  "cookie_step c v = Inl e \<Longrightarrow> e = graph_error"
  "node_step k st v = Inl e \<Longrightarrow> e = graph_error"
  "link_step nodes s v = Inl e \<Longrightarrow> e = graph_error"
  by (auto simp: cookie_step_def node_step_def decode_node_def node_serial_def link_step_def link_ends_def alsa_playback_of_def
      rbind_Inl_iff ok_or_def Let_def split: if_splits option.splits json.splits)

text \<open>The nodes are the decoded node objects, in their order, all with the one cookie of the server.\<close>

abbreviation node_entry :: "graph_node \<Rightarrow> u32 \<times> graph_node" where
  "node_entry n \<equiv> (wn_node_id (gn_node n), n)"

definition core_cookies :: "json list \<Rightarrow> u32 option list" where
  "core_cookies objects = map (\<lambda>v. Option.bind (Option.bind (jget v ''info'') (\<lambda>i. jget i ''cookie'')) json_uint)
     (filter (\<lambda>v. is_type v ''Core'') objects)"

lemma node_step_decoded:
  assumes "node_step cookie st v = Inr st'"
  shows "if is_type v ''Node''
    then \<exists>n. decode_node cookie v = Inr n \<and> nt_nodes st' = nt_nodes st @ [node_entry n]
    else st' = st"
  using assms
  by (auto simp: node_step_def rbind_Inr_iff Let_def im_contains_iff im_insert_fresh split: if_splits)

lemma nodes_decoded:
  assumes "res_foldM (node_step cookie) st objects = Inr st'"
  shows "\<exists>ns. res_mapM (decode_node cookie) (filter (\<lambda>v. is_type v ''Node'') objects) = Inr ns \<and>
    nt_nodes st' = nt_nodes st @ map node_entry ns"
  using assms
proof (induction objects arbitrary: st)
  case Nil
  then show ?case by simp
next
  case (Cons v objects)
  obtain t where t: "node_step cookie st v = Inr t" "res_foldM (node_step cookie) t objects = Inr st'"
    using Cons.prems by (auto simp: rbind_Inr_iff)
  from Cons.IH [OF t(2)] obtain ns where ns: "nt_nodes st' = nt_nodes t @ map node_entry ns"
    "res_mapM (decode_node cookie) (filter (\<lambda>v. is_type v ''Node'') objects) = Inr ns" by blast
  show ?case
  proof (cases "is_type v ''Node''")
    case True
    then obtain n where "decode_node cookie v = Inr n" "nt_nodes t = nt_nodes st @ [node_entry n]"
      using node_step_decoded [OF t(1)] by auto
    then show ?thesis using True ns by (intro exI [of _ "n # ns"]) simp
  next
    case False
    then show ?thesis using node_step_decoded [OF t(1)] ns by simp
  qed
qed

lemma cookie_found:
  "res_foldM cookie_step c objects = Inr (Some k) \<Longrightarrow> core_cookies objects = (if c = None then [Some k] else []) \<and> (c = None \<or> c = Some k)"
proof (induction objects arbitrary: c)
  case Nil
  then show ?case by (simp add: core_cookies_def)
next
  case (Cons v objects)
  obtain d where d: "cookie_step c v = Inr d" "res_foldM cookie_step d objects = Inr (Some k)"
    using Cons.prems by (auto simp: rbind_Inr_iff)
  then show ?case
    using Cons.IH [OF d(2)]
    by (auto simp: core_cookies_def cookie_step_def rbind_Inr_iff ok_or_Inr_iff split: if_splits)
qed

lemma health_nodes_decoded:
  assumes "health_nodes objects = Inr nodes"
  shows "\<exists>cookie ns. core_cookies objects = [Some cookie] \<and>
    res_mapM (decode_node cookie) (filter (\<lambda>v. is_type v ''Node'') objects) = Inr ns \<and> nodes = map node_entry ns"
proof -
  obtain cookie st where f: "res_foldM cookie_step None objects = Inr (Some cookie)"
    "res_foldM (node_step cookie) \<lparr>nt_nodes = [], nt_names = [], nt_identities = []\<rparr> objects = Inr st" "nodes = nt_nodes st"
    using assms by (auto simp: health_nodes_def rbind_Inr_iff ok_or_Inr_iff)
  show ?thesis using nodes_decoded [OF f(2)] cookie_found [OF f(1)] f(3) by auto
qed

text \<open>The microphones among the nodes, in their order.\<close>

definition microphone :: "graph_node \<Rightarrow> bool" where
  "microphone n \<longleftrightarrow> gn_class n = ''Audio/Source'' \<and> wave_capture (gn_name n)"

lemma captures_exact:
  "distinct (map gn_name (filter microphone ns)) \<Longrightarrow> set (map fst m) \<inter> set (map gn_name (filter microphone ns)) = {} \<Longrightarrow>
   foldl capture_of m ns = m @ map (\<lambda>n. (gn_name n, gn_node n)) (filter microphone ns)"
proof (induction ns arbitrary: m)
  case Nil
  then show ?case by simp
next
  case (Cons n ns)
  show ?case
  proof (cases "microphone n")
    case True
    then have "capture_of m n = m @ [(gn_name n, gn_node n)]"
      using Cons.prems by (simp add: capture_of_def microphone_def im_insert_fresh)
    then show ?thesis using True Cons.prems Cons.IH [of "m @ [(gn_name n, gn_node n)]"] by simp
  next
    case False
    then have "capture_of m n = m" by (auto simp: capture_of_def microphone_def)
    then show ?thesis using False Cons.prems Cons.IH [of m] by simp
  qed
qed

lemma distinct_map_filter_less:
  "distinct (map f (filter P xs)) \<Longrightarrow> (\<And>x. Q x \<Longrightarrow> P x) \<Longrightarrow> distinct (map f (filter Q xs))"
  by (induction xs) (auto split: if_splits)

text \<open>
  C34. The health graph is sound and complete, or refused as a whole with one error: its nodes are all the node
  objects, decoded with the cookie of the one core object, with distinct numbers, distinct identities and,
  for hardware, distinct names; the captures are exactly the microphones among them; every sink is the
  end of an actual link from an output loop, with the ALSA address of that node; and every such link
  has its sink in the graph.
\<close>

lemma parse_health_graph_exact:
  "case parse_health_graph v of
     Inl e \<Rightarrow> e = graph_error
   | Inr g \<Rightarrow> (\<exists>objects cookie ns. v = JArray objects \<and> core_cookies objects = [Some cookie] \<and>
       res_mapM (decode_node cookie) (filter (\<lambda>v. is_type v ''Node'') objects) = Inr ns \<and>
       distinct (map (\<lambda>n. wn_node_id (gn_node n)) ns) \<and>
       distinct (map (\<lambda>n. wn_identity (gn_node n)) ns) \<and>
       distinct (map gn_name (filter (\<lambda>n. hardware_class (gn_class n)) ns)) \<and>
       hg_captures g = map (\<lambda>n. (gn_name n, gn_node n)) (filter microphone ns) \<and>
       list_all (\<lambda>(k, w). list_ex (\<lambda>l. case linked (map node_entry ns) l of None \<Rightarrow> False
         | Some tn \<Rightarrow> gn_name tn = k \<and> gn_node tn = ws_node w \<and> alsa_playback_of (gn_props tn) = Inr (ws_playback w)) objects)
         (hg_sinks g) \<and>
       list_all (\<lambda>l. case linked (map node_entry ns) l of None \<Rightarrow> True | Some tn \<Rightarrow> im_contains (hg_sinks g) (gn_name tn)) objects)"
proof (cases "parse_health_graph v")
  case (Inl e)
  then have "e = graph_error"
    by (auto simp: parse_health_graph_def health_nodes_def rbind_Inl_iff ok_or_def graph_errors
        elim!: res_foldM_Inl split: option.splits)
  with Inl show ?thesis by simp
next
  case (Inr g)
  then obtain objects nodes sinks where o': "as_array v = Some objects" "health_nodes objects = Inr nodes"
    "res_foldM (link_step nodes) [] objects = Inr sinks" "g = \<lparr>hg_captures = foldl capture_of [] (im_values nodes), hg_sinks = sinks\<rparr>"
    by (auto simp: parse_health_graph_def rbind_Inr_iff ok_or_Inr_iff)
  obtain cookie ns where ns: "core_cookies objects = [Some cookie]" "nodes = map node_entry ns"
    "res_mapM (decode_node cookie) (filter (\<lambda>v. is_type v ''Node'') objects) = Inr ns"
    using health_nodes_decoded [OF o'(2)] by blast
  have vals: "im_values nodes = ns" by (simp add: ns(2) im_values_def comp_def)
  have keys: "distinct (map (\<lambda>n. wn_node_id (gn_node n)) ns)"
    using health_nodes_ok [OF o'(2)] by (simp add: ns(2) im_wf_def comp_def)
  have hardware: "distinct (map gn_name (filter (\<lambda>n. hardware_class (gn_class n)) ns))"
    and identities: "distinct (map (\<lambda>n. wn_identity (gn_node n)) ns)"
    using health_nodes_ok [OF o'(2)] by (simp_all add: vals)
  have "distinct (map gn_name (filter microphone ns))"
    by (rule distinct_map_filter_less [OF hardware]) (simp add: microphone_def hardware_class_def)
  then have captures: "hg_captures g = map (\<lambda>n. (gn_name n, gn_node n)) (filter microphone ns)"
    using captures_exact [of ns "[]"] by (simp add: o'(4) vals)
  have "v = JArray objects" using o'(1) by (cases v) auto
  moreover have "hg_sinks g = sinks" using o'(4) by simp
  ultimately show ?thesis
    using ns(1,3) keys identities hardware captures links_sound [OF o'(3)] links_complete [OF o'(3)]
    unfolding Inr sum.case ns(2) by blast
qed

end
