(* ===== verification/Step.thy ===== *)
theory Step
  imports Prelude
begin

text \<open>
  Methods on a mutable receiver: an action takes the state and returns a value and the new state.
  \<open>attempt\<close> is \<^verbatim>\<open>let x = m?; k(x)\<close> for an action that can fail: the state changes made before the
  failure stay. \<open>each\<close> is a \<^verbatim>\<open>for\<close> loop, \<open>each_try\<close> one whose body uses \<^verbatim>\<open>?\<close>;
  \<open>sweep\<close> and \<open>sweep_try\<close> are the same with a value that is carried along.

  The locale \<open>evolution\<close> is the contract by which facts about runs are proved: a preorder on states
  that every step of an action respects. An invariant and a frame condition are such preorders; each
  component shows once that its operations respect any preorder its primitive steps respect.
\<close>

type_synonym ('s, 'a) act = "'s \<Rightarrow> 'a \<times> 's"

definition ret :: "'a \<Rightarrow> ('s, 'a) act" where
  "ret x s = (x, s)"

definition skip :: "('s, unit) act" where
  "skip = ret ()"

definition upd :: "('s \<Rightarrow> 's) \<Rightarrow> ('s, unit) act" where
  "upd f s = ((), f s)"

text \<open>\<open>ask f\<close>: compute the rest of the action from the current state.\<close>

definition ask :: "('s \<Rightarrow> ('s, 'a) act) \<Rightarrow> ('s, 'a) act" where
  "ask f s = f s s"

definition bnd :: "('s, 'a) act \<Rightarrow> ('a \<Rightarrow> ('s, 'b) act) \<Rightarrow> ('s, 'b) act" where
  "bnd m k s = (case m s of (x, s') \<Rightarrow> k x s')"

definition attempt :: "('s, 'a res) act \<Rightarrow> ('a \<Rightarrow> ('s, 'b res) act) \<Rightarrow> ('s, 'b res) act" where
  "attempt m k = bnd m (\<lambda>r. case r of Inl e \<Rightarrow> ret (Inl e) | Inr x \<Rightarrow> k x)"

definition handle :: "('s, 'a res) act \<Rightarrow> (operation_error \<Rightarrow> ('s, unit) act) \<Rightarrow> ('s, unit) act" where
  "handle m h = bnd m (\<lambda>r. case r of Inl e \<Rightarrow> h e | Inr x \<Rightarrow> skip)"

definition seq :: "('s, unit) act list \<Rightarrow> ('s, unit) act" where
  "seq ms = foldr (\<lambda>m k. bnd m (\<lambda>_. k)) ms skip"

text \<open>\<open>seq ms\<close> and then \<^verbatim>\<open>Ok(())\<close>\<close>

definition done_ok :: "('s, unit) act list \<Rightarrow> ('s, unit res) act" where
  "done_ok ms = bnd (seq ms) (\<lambda>_. ret (Inr ()))"

fun each :: "('a \<Rightarrow> ('s, unit) act) \<Rightarrow> 'a list \<Rightarrow> ('s, unit) act" where
  "each f [] = skip"
| "each f (x # xs) = bnd (f x) (\<lambda>_. each f xs)"

fun each_try :: "('a \<Rightarrow> ('s, unit res) act) \<Rightarrow> 'a list \<Rightarrow> ('s, unit res) act" where
  "each_try f [] = ret (Inr ())"
| "each_try f (x # xs) = attempt (f x) (\<lambda>_. each_try f xs)"

text \<open>Loops that carry a value.\<close>

fun sweep :: "('b \<Rightarrow> 'a \<Rightarrow> ('s, 'b) act) \<Rightarrow> 'b \<Rightarrow> 'a list \<Rightarrow> ('s, 'b) act" where
  "sweep f b [] = ret b"
| "sweep f b (x # xs) = bnd (f b x) (\<lambda>c. sweep f c xs)"

fun sweep_try :: "('b \<Rightarrow> 'a \<Rightarrow> ('s, 'b res) act) \<Rightarrow> 'b \<Rightarrow> 'a list \<Rightarrow> ('s, 'b res) act" where
  "sweep_try f b [] = ret (Inr b)"
| "sweep_try f b (x # xs) = attempt (f b x) (\<lambda>c. sweep_try f c xs)"

definition try_pure :: "'a res \<Rightarrow> ('a \<Rightarrow> ('s, 'b res) act) \<Rightarrow> ('s, 'b res) act" where
  "try_pure r k = (case r of Inl e \<Rightarrow> ret (Inl e) | Inr x \<Rightarrow> k x)"

definition fail_with :: "operation_error \<Rightarrow> ('s, 'a res) act" where
  "fail_with e = ret (Inl e)"

definition guard_ok :: "bool \<Rightarrow> operation_error \<Rightarrow> ('s, 'a res) act \<Rightarrow> ('s, 'a res) act" where
  "guard_ok b e m = (if b then m else fail_with e)"

definition only_if :: "bool \<Rightarrow> ('s, unit) act \<Rightarrow> ('s, unit) act" where
  "only_if b m = (if b then m else skip)"

lemma act_simps [simp]:
  "ret x s = (x, s)"
  "skip s = ((), s)"
  "upd f s = ((), f s)"
  "ask g s = g s s"
  "fail_with e s = (Inl e, s)"
  "try_pure (Inl e) k = ret (Inl e)"
  "try_pure (Inr x) k = k x"
  "only_if True m = m"
  "only_if False m = skip"
  "guard_ok True e m' = m'"
  "guard_ok False e m' = fail_with e"
  by (simp_all add: ret_def skip_def upd_def ask_def fail_with_def try_pure_def only_if_def guard_ok_def)

lemma bnd_app: "bnd m k s = k (fst (m s)) (snd (m s))"
  by (simp add: bnd_def case_prod_unfold)

lemma seq_simps [simp]:
  "seq [] = skip"
  "seq (m # ms) = bnd m (\<lambda>_. seq ms)"
  by (simp_all add: seq_def)

lemma attempt_app:
  "attempt m k s = (case fst (m s) of Inl e \<Rightarrow> (Inl e, snd (m s)) | Inr x \<Rightarrow> k x (snd (m s)))"
  by (simp add: attempt_def bnd_app split: sum.splits)

lemma handle_app:
  "handle m h s = (case fst (m s) of Inl e \<Rightarrow> h e (snd (m s)) | Inr x \<Rightarrow> ((), snd (m s)))"
  by (simp add: handle_def bnd_app split: sum.splits)

lemma done_ok_app: "done_ok ms s = (Inr (), snd (seq ms s))"
  by (simp add: done_ok_def bnd_app)

lemmas act_apps = bnd_app attempt_app handle_app done_ok_app

subsection \<open>Preorders along actions\<close>

definition along :: "('s \<Rightarrow> 's \<Rightarrow> bool) \<Rightarrow> ('s, 'a) act \<Rightarrow> bool" where
  "along R m \<longleftrightarrow> (\<forall>s. R s (snd (m s)))"

lemma alongI: "(\<And>s. R s (snd (m s))) \<Longrightarrow> along R m"
  by (simp add: along_def)

lemma alongD: "along R m \<Longrightarrow> R s (snd (m s))"
  by (simp add: along_def)

locale evolution =
  fixes R :: "'s \<Rightarrow> 's \<Rightarrow> bool"
  assumes same: "R s s"
    and step_trans: "R s t \<Longrightarrow> R t u \<Longrightarrow> R s u"
begin

lemma along_ret: "along R (ret x)"
  by (simp add: along_def same)

lemma along_skip: "along R skip"
  by (simp add: along_def same)

lemma along_fail: "along R (fail_with e)"
  by (simp add: along_def same)

lemma along_bnd: "along R m \<Longrightarrow> (\<And>x. along R (k x)) \<Longrightarrow> along R (bnd m k)"
  by (auto simp: along_def bnd_app intro: step_trans)

lemma along_ask: "(\<And>s. along R (f s)) \<Longrightarrow> along R (ask f)"
  by (simp add: along_def)

lemma along_attempt: "along R m \<Longrightarrow> (\<And>x. along R (k x)) \<Longrightarrow> along R (attempt m k)"
  unfolding attempt_def by (intro along_bnd) (auto simp: along_ret split: sum.split)

lemma along_handle: "along R m \<Longrightarrow> (\<And>e. along R (h e)) \<Longrightarrow> along R (handle m h)"
  unfolding handle_def by (intro along_bnd) (auto simp: along_skip split: sum.split)

lemma along_seq_Nil: "along R (seq [])"
  by (simp add: along_skip)

lemma along_seq_Cons: "along R m \<Longrightarrow> along R (seq ms) \<Longrightarrow> along R (seq (m # ms))"
  by (simp add: along_bnd)

lemma along_done_ok: "along R (seq ms) \<Longrightarrow> along R (done_ok ms)"
  unfolding done_ok_def by (intro along_bnd along_ret)

lemma along_each: "(\<And>x. along R (f x)) \<Longrightarrow> along R (each f xs)"
  by (induction xs) (auto simp: along_skip along_bnd)

lemma along_each_try: "(\<And>x. along R (f x)) \<Longrightarrow> along R (each_try f xs)"
  by (induction xs) (auto simp: along_ret along_attempt)

lemma along_sweep: "(\<And>b x. along R (f b x)) \<Longrightarrow> along R (sweep f b xs)"
  by (induction xs arbitrary: b) (auto simp: along_ret along_bnd)

lemma along_sweep_try: "(\<And>b x. along R (f b x)) \<Longrightarrow> along R (sweep_try f b xs)"
  by (induction xs arbitrary: b) (auto simp: along_ret along_attempt)

lemma along_try_pure: "(\<And>x. along R (k x)) \<Longrightarrow> along R (try_pure r k)"
  by (cases r) (simp_all add: along_ret)

lemma along_only_if: "along R m \<Longrightarrow> along R (only_if b m)"
  by (cases b) (simp_all add: along_skip)

lemma along_guard_ok: "along R m \<Longrightarrow> along R (guard_ok b e m)"
  by (cases b) (simp_all add: along_fail)

lemma along_if: "along R m \<Longrightarrow> along R n \<Longrightarrow> along R (if b then m else n)"
  by simp

lemma along_case_option: "along R m \<Longrightarrow> (\<And>x. along R (k x)) \<Longrightarrow> along R (case r of None \<Rightarrow> m | Some x \<Rightarrow> k x)"
  by (cases r) simp_all

lemma along_case_prod: "(\<And>x y. along R (k x y)) \<Longrightarrow> along R (case r of (x, y) \<Rightarrow> k x y)"
  by (cases r) simp

lemma along_case_sum: "(\<And>x. along R (h x)) \<Longrightarrow> (\<And>x. along R (k x)) \<Longrightarrow> along R (case r of Inl x \<Rightarrow> h x | Inr x \<Rightarrow> k x)"
  by (cases r) simp_all

lemmas along_intros = along_ret along_skip along_fail along_bnd along_ask along_attempt along_handle along_seq_Nil
  along_seq_Cons along_done_ok along_each along_each_try along_sweep along_sweep_try along_try_pure along_only_if along_guard_ok along_if along_case_option
  along_case_prod along_case_sum

end

text \<open>Every invariant is a preorder: a step may break it only if it did not hold before.\<close>

lemma invariant_evolution: "evolution (\<lambda>s s'. I s \<longrightarrow> I s')"
  by unfold_locales auto

end
