(* ===== verification/Scenes.thy ===== *)
theory Scenes
  imports Model Protocol
begin

text \<open>
  \<^verbatim>\<open>crates/openwave-core/src/scenes.rs\<close>: scenes, their identifiers, the patches they
  hold, the store document they are read from and written to, and the selection of the hardware
  entries of a scene for the units that are connected.
\<close>

type_synonym scene_id = string

definition scene_id_new :: "string \<Rightarrow> scene_id res" where
  "scene_id_new v = (if v = [] then Inl (error_invalid ''scene ID must not be empty'') else Inr v)"

subsection \<open>Slugs\<close>

text \<open>
  \<^verbatim>\<open>str::to_lowercase\<close> as far as ASCII is concerned: besides the ASCII capitals, the only
  characters whose lower case has an ASCII character are U+212A (the Kelvin sign, \<open>k\<close>) and U+0130
  (\<open>i\<close> and a combining dot). The other characters outside ASCII keep a lower case outside ASCII,
  and stand for themselves.
\<close>

fun lowercase_ascii :: "string \<Rightarrow> string" where
  "lowercase_ascii (a # b # c # s) =
     (if a = CHR 0xE2 \<and> b = CHR 0x84 \<and> c = CHR 0xAA then CHR ''k'' # lowercase_ascii s
      else if a = CHR 0xC4 \<and> b = CHR 0xB0 then CHR ''i'' # CHR 0xCC # CHR 0x87 # lowercase_ascii (c # s)
      else (if ascii_upper a then char_of (byte_of a + 32) else a) # lowercase_ascii (b # c # s))"
| "lowercase_ascii [a, b] =
     (if a = CHR 0xC4 \<and> b = CHR 0xB0 then [CHR ''i'', CHR 0xCC, CHR 0x87]
      else [if ascii_upper a then char_of (byte_of a + 32) else a, if ascii_upper b then char_of (byte_of b + 32) else b])"
| "lowercase_ascii [a] = [if ascii_upper a then char_of (byte_of a + 32) else a]"
| "lowercase_ascii [] = []"

definition slug_char :: "char \<Rightarrow> bool" where
  "slug_char c \<longleftrightarrow> ascii_lower c \<or> ascii_digit c"

definition slug_step :: "string \<times> bool \<Rightarrow> char \<Rightarrow> string \<times> bool" where
  "slug_step st c = (case st of (slug, separator) \<Rightarrow>
     if slug_char c
     then ((if separator \<and> slug \<noteq> [] then slug @ ''-'' else slug) @ [c], False)
     else (slug, True))"

definition scene_id_from_name :: "string \<Rightarrow> scene_id" where
  "scene_id_from_name name =
     (let slug = fst (foldl slug_step ([], False) (lowercase_ascii name))
      in if slug = [] then ''scene'' else slug)"

subsection \<open>Patches\<close>

record source_patch =
  sp_level :: "f64 option"
  sp_muted :: "bool option"

record level_patch =
  lp_volume :: "f64 option"
  lp_muted :: "bool option"

record hardware_patch =
  hwp_gain_raw :: "u16 option"
  hwp_mute :: "bool option"
  hwp_volume_db :: "f64 option"
  hwp_low_impedance :: "bool option"
  hwp_monitor_mix :: "u16 option"

record scene =
  sc_name :: string
  sc_sources :: "(string, source_patch) imap option"
  sc_cells :: "(string, level_patch) imap option"
  sc_outputs :: "(string, string option) imap option"
  sc_volumes :: "(string, level_patch) imap option"
  sc_hardware :: "(string, hardware_patch) imap option"

definition mapping :: "json \<Rightarrow> string \<Rightarrow> jmap res" where
  "mapping v label = (case v of
       JObject m \<Rightarrow> if list_all (\<lambda>k. k \<noteq> []) (map fst m) then Inr m
         else Inl (error_invalid (label @ '' must be a map with nonempty string keys''))
     | _ \<Rightarrow> Inl (error_invalid (label @ '' must be a map with nonempty string keys'')))"

definition unsupported :: "jmap \<Rightarrow> string \<Rightarrow> unit res" where
  "unsupported m label =
     (if m = [] then Inr () else Inl (error_invalid (label @ '' has unsupported fields'')))"

text \<open>\<^verbatim>\<open>Display\<close> of a double that is an integer.\<close>

definition show_integral :: "f64 \<Rightarrow> string" where
  "show_integral x = (if f64_sign x then ''-'' else []) @ show_nat (nat \<bar>\<lfloor>f64_val x\<rfloor>\<bar>)"

definition finite_in :: "f64 \<Rightarrow> f64 \<Rightarrow> f64 \<Rightarrow> string \<Rightarrow> unit res" where
  "finite_in v low high label =
     (if f64_finite v \<and> f64_le low v \<and> f64_le v high then Inr ()
      else Inl (error_invalid (label @ '' must be a finite number in ['' @ show_integral low @ '', '' @
        show_integral high @ '']'')))"

text \<open>\<^verbatim>\<open>number\<close>, \<^verbatim>\<open>integer\<close> and \<^verbatim>\<open>boolean\<close> take a field out of the map.\<close>

definition take_number :: "string \<Rightarrow> f64 \<Rightarrow> f64 \<Rightarrow> jmap \<Rightarrow> (f64 option \<times> jmap) res" where
  "take_number key low high m = (case im_get m key of
       None \<Rightarrow> Inr (None, im_swap_remove m key)
     | Some v \<Rightarrow>
         rbind (ok_or (error_invalid (key @ '' must be a number'')) (as_f64 v)) (\<lambda>x.
         rbind (finite_in x low high key) (\<lambda>_. Inr (Some x, im_swap_remove m key))))"

definition u16_of :: "u64 \<Rightarrow> u16 option" where
  "u16_of w = (if unat w < 2 ^ 16 then Some (ucast w) else None)"

definition take_integer :: "string \<Rightarrow> jmap \<Rightarrow> (u16 option \<times> jmap) res" where
  "take_integer key m = (case im_get m key of
       None \<Rightarrow> Inr (None, im_swap_remove m key)
     | Some v \<Rightarrow>
         rbind (ok_or (error_invalid (key @ '' must be an integer in [0, 65535]'')) (Option.bind (as_u64 v) u16_of)) (\<lambda>x.
           Inr (Some x, im_swap_remove m key)))"

definition take_boolean :: "string \<Rightarrow> jmap \<Rightarrow> (bool option \<times> jmap) res" where
  "take_boolean key m = (case im_get m key of
       None \<Rightarrow> Inr (None, im_swap_remove m key)
     | Some (JBool b) \<Rightarrow> Inr (Some b, im_swap_remove m key)
     | _ \<Rightarrow> Inl (error_invalid (key @ '' must be boolean'')))"

abbreviation zero :: f64 where "zero \<equiv> FFin False 0"
abbreviation one :: f64 where "one \<equiv> FFin False 1"
abbreviation hp_floor :: f64 where "hp_floor \<equiv> FFin True 128"

definition source_patch_from_value :: "json \<Rightarrow> source_patch res" where
  "source_patch_from_value v =
     rbind (mapping v ''source patch'') (\<lambda>m.
     rbind (take_number ''level'' zero one m) (\<lambda>(level, m).
     rbind (take_boolean ''muted'' m) (\<lambda>(muted, m).
     rbind (unsupported m ''source patch'') (\<lambda>_.
       Inr \<lparr>sp_level = level, sp_muted = muted\<rparr>))))"

definition source_patch_validate :: "source_patch \<Rightarrow> unit res" where
  "source_patch_validate p = (case sp_level p of None \<Rightarrow> Inr () | Some x \<Rightarrow> finite_in x zero one ''level'')"

definition level_patch_from_value :: "json \<Rightarrow> level_patch res" where
  "level_patch_from_value v =
     rbind (mapping v ''level patch'') (\<lambda>m.
     rbind (take_number ''volume'' zero one m) (\<lambda>(volume, m).
     rbind (take_boolean ''muted'' m) (\<lambda>(muted, m).
     rbind (unsupported m ''level patch'') (\<lambda>_.
       Inr \<lparr>lp_volume = volume, lp_muted = muted\<rparr>))))"

definition level_patch_validate :: "level_patch \<Rightarrow> unit res" where
  "level_patch_validate p = (case lp_volume p of None \<Rightarrow> Inr () | Some x \<Rightarrow> finite_in x zero one ''volume'')"

definition hardware_patch_from_value :: "json \<Rightarrow> hardware_patch res" where
  "hardware_patch_from_value v =
     rbind (mapping v ''hardware patch'') (\<lambda>m.
     rbind (take_integer ''gain_raw'' m) (\<lambda>(gain, m).
     rbind (take_boolean ''mute'' m) (\<lambda>(mute, m).
     rbind (take_number ''hp_volume_db'' hp_floor zero m) (\<lambda>(volume, m).
     rbind (take_boolean ''low_impedance'' m) (\<lambda>(low, m).
     rbind (take_integer ''monitor_mix'' m) (\<lambda>(monitor, m).
     rbind (unsupported m ''hardware patch'') (\<lambda>_.
       Inr \<lparr>hwp_gain_raw = gain, hwp_mute = mute, hwp_volume_db = volume, hwp_low_impedance = low,
            hwp_monitor_mix = monitor\<rparr>)))))))"

definition hardware_patch_validate :: "hardware_patch \<Rightarrow> unit res" where
  "hardware_patch_validate p =
     (case hwp_volume_db p of None \<Rightarrow> Inr () | Some x \<Rightarrow> finite_in x hp_floor zero ''hp_volume_db'')"

subsection \<open>Scenes\<close>

definition decode_entry :: "(json \<Rightarrow> 'a res) \<Rightarrow> string \<times> json \<Rightarrow> (string \<times> 'a) res" where
  "decode_entry decode e = rbind (decode (snd e)) (\<lambda>x. Inr (fst e, x))"

definition take_section :: "string \<Rightarrow> (json \<Rightarrow> 'a res) \<Rightarrow> jmap \<Rightarrow> ((string, 'a) imap option \<times> jmap) res" where
  "take_section key decode m = (case im_get m key of
       None \<Rightarrow> Inr (None, im_swap_remove m key)
     | Some v \<Rightarrow>
         rbind (mapping v key) (\<lambda>es.
         rbind (res_mapM (decode_entry decode) es) (\<lambda>xs.
           Inr (Some (im_collect xs), im_swap_remove m key))))"

definition cell_key_check :: "string \<Rightarrow> unit res" where
  "cell_key_check key = (case rsplit_once (CHR ''.'') key of
       Some (s, x) \<Rightarrow> if s \<noteq> [] \<and> x \<noteq> [] then Inr ()
         else Inl (error_invalid (''cell '' @ key @ '' needs a source.mix key''))
     | None \<Rightarrow> Inl (error_invalid (''cell '' @ key @ '' needs a source.mix key'')))"

definition check_entry :: "(string \<Rightarrow> 'a \<Rightarrow> unit res) \<Rightarrow> unit \<Rightarrow> string \<times> 'a \<Rightarrow> unit res" where
  "check_entry validate u e =
     (if fst e = [] then Inl (error_invalid ''scene section key must not be empty'')
      else validate (fst e) (snd e))"

definition validate_section :: "(string, 'a) imap option \<Rightarrow> (string \<Rightarrow> 'a \<Rightarrow> unit res) \<Rightarrow> unit res" where
  "validate_section sec validate = (case sec of
       None \<Rightarrow> Inr ()
     | Some entries \<Rightarrow> res_foldM (check_entry validate) () entries)"

definition decode_output_name :: "json \<Rightarrow> string option res" where
  "decode_output_name v = (case v of
       JNull \<Rightarrow> Inr None
     | JString s \<Rightarrow> Inr (Some s)
     | _ \<Rightarrow> Inl (error_invalid ''output must be a sink name or null''))"

definition scene_validate :: "scene \<Rightarrow> unit res" where
  "scene_validate s =
     rbind (validate_section (sc_sources s) (\<lambda>_ p. source_patch_validate p)) (\<lambda>_.
     rbind (validate_section (sc_cells s) (\<lambda>key p. rbind (cell_key_check key) (\<lambda>_. level_patch_validate p))) (\<lambda>_.
     rbind (validate_section (sc_outputs s) (\<lambda>_ _. Inr ())) (\<lambda>_.
     rbind (validate_section (sc_volumes s) (\<lambda>_ p. level_patch_validate p)) (\<lambda>_.
       validate_section (sc_hardware s) (\<lambda>_ p. hardware_patch_validate p)))))"

definition scene_from_value :: "json \<Rightarrow> scene res" where
  "scene_from_value v =
     rbind (mapping v ''scene'') (\<lambda>m.
     rbind (case im_get m ''name'' of Some (JString s) \<Rightarrow> Inr s
          | _ \<Rightarrow> Inl (error_invalid ''scene needs a string name'')) (\<lambda>name.
     rbind (take_section ''sources'' source_patch_from_value (im_swap_remove m ''name'')) (\<lambda>(srcs, m).
     rbind (take_section ''cells'' level_patch_from_value m) (\<lambda>(cells, m).
     rbind (take_section ''outputs'' decode_output_name m) (\<lambda>(outputs, m).
     rbind (take_section ''volumes'' level_patch_from_value m) (\<lambda>(volumes, m).
     rbind (take_section ''hardware'' hardware_patch_from_value m) (\<lambda>(hardware, m).
     rbind (unsupported m ''scene'') (\<lambda>_.
       (let s = \<lparr>sc_name = name, sc_sources = srcs, sc_cells = cells, sc_outputs = outputs,
                 sc_volumes = volumes, sc_hardware = hardware\<rparr>
        in rbind (scene_validate s) (\<lambda>_. Inr s))))))))))"

subsection \<open>The store document\<close>

text \<open>\<^verbatim>\<open>derive(Serialize)\<close> with \<^verbatim>\<open>skip_serializing_if = "Option::is_none"\<close>.\<close>

definition present :: "(string \<times> json option) list \<Rightarrow> jmap" where
  "present fs = List.map_filter (\<lambda>(k, v). map_option (Pair k) v) fs"

definition section_value :: "('a \<Rightarrow> json) \<Rightarrow> (string, 'a) imap \<Rightarrow> json" where
  "section_value f m = JObject (map (\<lambda>(k, x). (k, f x)) m)"

definition source_patch_to_value :: "source_patch \<Rightarrow> json" where
  "source_patch_to_value p = JObject (present
     [(''level'', map_option json_f64 (sp_level p)), (''muted'', map_option JBool (sp_muted p))])"

definition level_patch_to_value :: "level_patch \<Rightarrow> json" where
  "level_patch_to_value p = JObject (present
     [(''volume'', map_option json_f64 (lp_volume p)), (''muted'', map_option JBool (lp_muted p))])"

definition hardware_patch_to_value :: "hardware_patch \<Rightarrow> json" where
  "hardware_patch_to_value p = JObject (present
     [(''gain_raw'', map_option json_u16 (hwp_gain_raw p)), (''mute'', map_option JBool (hwp_mute p)),
      (''hp_volume_db'', map_option json_f64 (hwp_volume_db p)),
      (''low_impedance'', map_option JBool (hwp_low_impedance p)),
      (''monitor_mix'', map_option json_u16 (hwp_monitor_mix p))])"

definition output_value :: "string option \<Rightarrow> json" where
  "output_value v = (case v of None \<Rightarrow> JNull | Some s \<Rightarrow> JString s)"

definition scene_to_value :: "scene \<Rightarrow> json" where
  "scene_to_value s = JObject (present
     [(''name'', Some (JString (sc_name s))),
      (''sources'', map_option (section_value source_patch_to_value) (sc_sources s)),
      (''cells'', map_option (section_value level_patch_to_value) (sc_cells s)),
      (''outputs'', map_option (section_value output_value) (sc_outputs s)),
      (''volumes'', map_option (section_value level_patch_to_value) (sc_volumes s)),
      (''hardware'', map_option (section_value hardware_patch_to_value) (sc_hardware s))])"

type_synonym scene_store = "(scene_id, scene) imap"

definition decode_scene :: "string \<times> json \<Rightarrow> (scene_id \<times> scene) res" where
  "decode_scene e =
     rbind (scene_id_new (fst e)) (\<lambda>k. rbind (scene_from_value (snd e)) (\<lambda>s. Inr (k, s)))"

definition decode_store :: "json \<Rightarrow> scene_store res" where
  "decode_store v =
     rbind (mapping v ''scene store'') (\<lambda>root.
     rbind (ok_or (error_invalid ''scene store needs scenes'') (im_get root ''scenes'')) (\<lambda>scenes.
     rbind (unsupported (im_swap_remove root ''scenes'') ''scene store'') (\<lambda>_.
     rbind (mapping scenes ''scenes'') (\<lambda>es.
     rbind (res_mapM decode_scene es) (\<lambda>xs. Inr (im_collect xs))))))"

definition encode_store :: "scene_store \<Rightarrow> json res" where
  "encode_store scenes =
     rbind (res_foldM (\<lambda>_ s. scene_validate s) () (im_values scenes)) (\<lambda>_.
       Inr (JObject [(''scenes'', section_value scene_to_value scenes)]))"

subsection \<open>Selecting hardware entries\<close>

definition hardware_key :: "profile_id \<Rightarrow> string \<Rightarrow> string" where
  "hardware_key p serial = (if serial = [] then profile_as_str p else profile_as_str p @ '':'' @ serial)"

record hardware_candidate =
  hc_unit :: unit_id
  hc_serial :: string

record operation_issue =
  oi_target :: string
  oi_message :: string

definition same_model :: "unit_id \<Rightarrow> hardware_candidate \<Rightarrow> bool" where
  "same_model u c \<longleftrightarrow> uid_profile (hc_unit c) = uid_profile u"

definition im_get_key_value :: "('k, 'v) imap \<Rightarrow> 'k \<Rightarrow> ('k \<times> 'v) option" where
  "im_get_key_value m k = map_option (\<lambda>v. (k, v)) (im_get m k)"

definition pick_hardware_entry ::
  "(string, hardware_patch) imap \<Rightarrow> unit_id \<Rightarrow> hardware_candidate list \<Rightarrow> (string \<times> hardware_patch) option res" where
  "pick_hardware_entry hardware u candidates =
     (case filter (\<lambda>c. hc_unit c = u) candidates of
        [] \<Rightarrow> Inl (error_new Identity ''scene unit is no longer connected'')
      | c # rest \<Rightarrow>
          if rest \<noteq> [] \<or> length (filter (\<lambda>d. same_model u d \<and> hc_serial d = hc_serial c) candidates) \<noteq> 1
          then Inl (error_new Identity ''scene hardware identity is ambiguous'')
          else (case (if hc_serial c = [] then None
                      else im_get_key_value hardware (hardware_key (uid_profile u) (hc_serial c))) of
              Some e \<Rightarrow> Inr (Some e)
            | None \<Rightarrow>
                if length (filter (same_model u) candidates) = 1
                then Inr (im_get_key_value hardware (profile_as_str (uid_profile u)))
                else Inr None))"

record hardware_selection =
  hs_unit :: unit_id
  hs_key :: string
  hs_patch :: hardware_patch

record hardware_resolution =
  hr_selected :: "hardware_selection list"
  hr_skipped :: "operation_issue list"

definition select_candidate ::
  "(string, hardware_patch) imap \<Rightarrow> hardware_candidate list \<Rightarrow> hardware_candidate \<Rightarrow> hardware_selection option" where
  "select_candidate hardware candidates c =
     map_option (\<lambda>(key, p). \<lparr>hs_unit = hc_unit c, hs_key = key, hs_patch = p\<rparr>)
       (Option.bind (res_ok (pick_hardware_entry hardware (hc_unit c) candidates)) id)"

definition resolve_hardware ::
  "(string, hardware_patch) imap \<Rightarrow> hardware_candidate list \<Rightarrow> hardware_resolution" where
  "resolve_hardware hardware candidates =
     (let selected = List.map_filter (select_candidate hardware candidates) candidates
      in \<lparr>hr_selected = selected,
          hr_skipped = map (\<lambda>key. \<lparr>oi_target = ''hardware '' @ key,
             oi_message = ''No unique connected target selected; entry is missing, ambiguous or superseded by an exact serial entry''\<rparr>)
            (filter (\<lambda>key. \<not> list_ex (\<lambda>e. hs_key e = key) selected) (im_keys hardware))\<rparr>)"

subsection \<open>Slugs are canonical\<close>

text \<open>Words of lower-case letters and digits, joined by single hyphens.\<close>

fun slug_ok :: "string \<Rightarrow> bool" where
  "slug_ok [] = False"
| "slug_ok [c] = slug_char c"
| "slug_ok (c # d # s) = (slug_char c \<and> (if d = CHR ''-'' then slug_ok s else slug_ok (d # s)))"

lemma slug_ok_snoc: "slug_ok s \<Longrightarrow> slug_char c \<Longrightarrow> slug_ok (s @ [c])"
  by (induction s rule: slug_ok.induct) (auto simp: slug_char_def ascii_lower_def ascii_digit_def less_eq_char_def)

lemma slug_ok_word: "slug_ok s \<Longrightarrow> slug_char c \<Longrightarrow> slug_ok (s @ [CHR ''-'', c])"
  by (induction s rule: slug_ok.induct) auto

lemma slug_step_ok:
  "slug = [] \<or> slug_ok slug \<Longrightarrow> fst (slug_step (slug, sep) c) = [] \<or> slug_ok (fst (slug_step (slug, sep) c))"
  by (auto simp: slug_step_def slug_ok_snoc slug_ok_word)

lemma slug_fold_ok:
  "fst st = [] \<or> slug_ok (fst st) \<Longrightarrow> fst (foldl slug_step st s) = [] \<or> slug_ok (fst (foldl slug_step st s))"
proof (induction s arbitrary: st)
  case Nil
  then show ?case by simp
next
  case (Cons c s)
  from slug_step_ok [OF Cons.prems, of "snd st" c] Cons.IH [of "slug_step st c"] show ?case by simp
qed

lemma slug_fold_word:
  "slug_char c \<Longrightarrow> q \<noteq> [] \<Longrightarrow> foldl slug_step (q, True) (c # s) = foldl slug_step (q @ ''-'', False) (c # s)"
  by (simp add: slug_step_def)

lemma slug_fold_id: "slug_ok s \<Longrightarrow> foldl slug_step (p, False) s = (p @ s, False)"
proof (induction s arbitrary: p rule: slug_ok.induct)
  case (3 c d s)
  show ?case
  proof (cases "d = CHR ''-''")
    case True
    then obtain e s' where s: "s = e # s'" "slug_char e"
      using 3(3) by (cases s rule: slug_ok.cases) auto
    have "foldl slug_step (p, False) (c # d # s) = foldl slug_step (p @ [c], True) s"
      using 3(3) True by (simp add: slug_step_def slug_char_def ascii_lower_def ascii_digit_def less_eq_char_def)
    also have "\<dots> = foldl slug_step ((p @ [c]) @ ''-'', False) s" using s slug_fold_word by auto
    finally show ?thesis using 3 True by simp
  next
    case False
    then show ?thesis using 3 by (simp add: slug_step_def)
  qed
qed (simp_all add: slug_step_def)

lemma slug_ok_chars: "slug_ok s \<Longrightarrow> list_all (\<lambda>c. slug_char c \<or> c = CHR ''-'') s"
  by (induction s rule: slug_ok.induct) (auto split: if_splits)

lemma slug_char_plain:
  "slug_char c \<or> c = CHR ''-'' \<Longrightarrow> \<not> ascii_upper c \<and> c \<noteq> CHR 0xE2 \<and> c \<noteq> CHR 0xC4"
  by (auto simp: slug_char_def ascii_lower_def ascii_digit_def ascii_upper_def less_eq_char_def)

lemma lowercase_slug: "list_all (\<lambda>c. slug_char c \<or> c = CHR ''-'') s \<Longrightarrow> lowercase_ascii s = s"
  by (induction s rule: lowercase_ascii.induct) (simp_all add: slug_char_plain)

text \<open>
  Scene identifiers made from a name are canonical: nonempty words of lower-case letters and
  digits joined by single hyphens, whatever the name; making one from an identifier gives it back.
\<close>

lemma scene_slug_canonical:
  "slug_ok (scene_id_from_name name) \<and> scene_id_new (scene_id_from_name name) = Inr (scene_id_from_name name) \<and>
   scene_id_from_name (scene_id_from_name name) = scene_id_from_name name"
proof -
  have ok: "slug_ok (scene_id_from_name name)"
    using slug_fold_ok [of "([], False)" "lowercase_ascii name"]
    by (auto simp: scene_id_from_name_def Let_def slug_char_def ascii_lower_def less_eq_char_def)
  then have "scene_id_from_name (scene_id_from_name name) = scene_id_from_name name"
    using slug_fold_id [OF ok, of "[]"] lowercase_slug [OF slug_ok_chars [OF ok]]
    by (cases "scene_id_from_name name = []") (simp_all add: scene_id_from_name_def [of "scene_id_from_name name"])
  with ok show ?thesis by (cases "scene_id_from_name name") (simp_all add: scene_id_new_def)
qed

subsection \<open>Reading back what was written\<close>

lemma swap_remove_all_Nil:
  "im_wf m \<Longrightarrow> list_all (\<lambda>e. fst e \<in> set ks) m \<Longrightarrow> foldl im_swap_remove m ks = []"
  using mset_swap_remove_all [of m ks] by (simp add: list_all_iff filter_False)

lemma present_simps:
  "present [] = []"
  "present ((k, v) # fs) = (case v of None \<Rightarrow> present fs | Some x \<Rightarrow> (k, x) # present fs)"
  by (simp_all add: present_def map_filter_simps split: option.splits)

lemma present_keys: "e \<in> set (present fs) \<Longrightarrow> fst e \<in> set (map fst fs)"
  by (induction fs) (auto simp: present_simps split: option.splits)

lemma present_laws:
  assumes "distinct (map fst fs)"
  shows "im_wf (present fs)" and "\<And>k v. (k, v) \<in> set fs \<Longrightarrow> im_get (present fs) k = v"
    and "foldl im_swap_remove (present fs) (map fst fs) = []"
    and "list_all (\<lambda>k. k \<noteq> []) (map fst fs) \<Longrightarrow> mapping (JObject (present fs)) label = Inr (present fs)"
proof -
  show wf: "im_wf (present fs)"
    using assms by (induction fs) (force simp: present_simps im_wf_def dest: present_keys split: option.splits)+
  have "im_get (present fs) k = None" if "k \<notin> set (map fst fs)" for k fs
    using that present_keys [of _ fs] by (auto simp: map_of_eq_None_iff)
  then show "\<And>k v. (k, v) \<in> set fs \<Longrightarrow> im_get (present fs) k = v"
    using assms by (induction fs) (force simp: present_simps split: option.splits)+
  show "foldl im_swap_remove (present fs) (map fst fs) = []"
    using wf present_keys by (intro swap_remove_all_Nil) (auto simp: list_all_iff)
  assume "list_all (\<lambda>k. k \<noteq> []) (map fst fs)"
  then have "list_all (\<lambda>k. k \<noteq> []) (map fst (present fs))"
    using present_keys [of _ fs] by (fastforce simp: list_all_iff)
  then show "mapping (JObject (present fs)) label = Inr (present fs)" by (simp add: mapping_def)
qed

lemma mapping_Inr_iff: "mapping v label = Inr m \<longleftrightarrow> v = JObject m \<and> list_all (\<lambda>k. k \<noteq> []) (map fst m)"
  by (cases v) (auto simp: mapping_def)

lemma finite_in_Inr_iff: "finite_in v lo hi label = Inr u \<longleftrightarrow> f64_finite v \<and> f64_le lo v \<and> f64_le v hi"
  by (simp add: finite_in_def)

lemma u16_of_ucast [simp]: "u16_of (ucast (w :: u16)) = Some w"
proof -
  have "ucast (ucast w :: u64) = w" by (rule ucast_up_ucast_id) (simp add: is_up)
  moreover have "unat (ucast w :: u64) = unat w"
    by (simp add: unsigned_ucast_eq take_bit_nat_eq_self less_le_trans [OF unsigned_less])
  ultimately show ?thesis using unsigned_less [of w] by (simp add: u16_of_def)
qed

lemma take_number_value:
  "im_get m key = map_option json_f64 v \<Longrightarrow> pred_option (\<lambda>x. f64_finite x \<and> f64_le lo x \<and> f64_le x hi) v \<Longrightarrow>
   take_number key lo hi m = Inr (v, im_swap_remove m key)"
  by (cases v) (simp_all add: take_number_def finite_in_def)

lemma take_integer_value:
  "im_get m key = map_option json_u16 v \<Longrightarrow> take_integer key m = Inr (v, im_swap_remove m key)"
  by (cases v) (simp_all add: take_integer_def json_u16_def)

lemma take_boolean_value:
  "im_get m key = map_option JBool v \<Longrightarrow> take_boolean key m = Inr (v, im_swap_remove m key)"
  by (cases v) (simp_all add: take_boolean_def)

lemmas field_laws = take_number_value take_integer_value take_boolean_value im_wf_swap_remove

lemma source_patch_roundtrip:
  assumes "source_patch_validate p = Inr ()"
  shows "source_patch_from_value (source_patch_to_value p) = Inr p"
proof -
  define fs where "fs = [(''level'', map_option json_f64 (sp_level p)), (''muted'', map_option JBool (sp_muted p))]"
  have keys: "map fst fs = [''level'', ''muted'']" by (simp add: fs_def)
  note laws = present_laws [of fs, unfolded keys, simplified]
  have get: "im_get (present fs) ''level'' = map_option json_f64 (sp_level p)"
    "im_get (present fs) ''muted'' = map_option JBool (sp_muted p)"
    by (rule laws(2), simp add: fs_def)+
  have "pred_option (\<lambda>x. f64_finite x \<and> f64_le zero x \<and> f64_le x one) (sp_level p)"
    using assms by (auto simp: source_patch_validate_def finite_in_Inr_iff split: option.splits)
  then show ?thesis
    unfolding source_patch_from_value_def source_patch_to_value_def fs_def [symmetric]
    by (simp add: get field_laws laws unsupported_def)
qed

lemma level_patch_roundtrip:
  assumes "level_patch_validate p = Inr ()"
  shows "level_patch_from_value (level_patch_to_value p) = Inr p"
proof -
  define fs where "fs = [(''volume'', map_option json_f64 (lp_volume p)), (''muted'', map_option JBool (lp_muted p))]"
  have keys: "map fst fs = [''volume'', ''muted'']" by (simp add: fs_def)
  note laws = present_laws [of fs, unfolded keys, simplified]
  have get: "im_get (present fs) ''volume'' = map_option json_f64 (lp_volume p)"
    "im_get (present fs) ''muted'' = map_option JBool (lp_muted p)"
    by (rule laws(2), simp add: fs_def)+
  have "pred_option (\<lambda>x. f64_finite x \<and> f64_le zero x \<and> f64_le x one) (lp_volume p)"
    using assms by (auto simp: level_patch_validate_def finite_in_Inr_iff split: option.splits)
  then show ?thesis
    unfolding level_patch_from_value_def level_patch_to_value_def fs_def [symmetric]
    by (simp add: get field_laws laws unsupported_def)
qed

lemma hardware_patch_roundtrip:
  assumes "hardware_patch_validate p = Inr ()"
  shows "hardware_patch_from_value (hardware_patch_to_value p) = Inr p"
proof -
  define fs where "fs = [(''gain_raw'', map_option json_u16 (hwp_gain_raw p)), (''mute'', map_option JBool (hwp_mute p)),
      (''hp_volume_db'', map_option json_f64 (hwp_volume_db p)), (''low_impedance'', map_option JBool (hwp_low_impedance p)),
      (''monitor_mix'', map_option json_u16 (hwp_monitor_mix p))]"
  have keys: "map fst fs = [''gain_raw'', ''mute'', ''hp_volume_db'', ''low_impedance'', ''monitor_mix'']"
    by (simp add: fs_def)
  note laws = present_laws [of fs, unfolded keys, simplified]
  have get: "im_get (present fs) ''gain_raw'' = map_option json_u16 (hwp_gain_raw p)"
    "im_get (present fs) ''mute'' = map_option JBool (hwp_mute p)"
    "im_get (present fs) ''hp_volume_db'' = map_option json_f64 (hwp_volume_db p)"
    "im_get (present fs) ''low_impedance'' = map_option JBool (hwp_low_impedance p)"
    "im_get (present fs) ''monitor_mix'' = map_option json_u16 (hwp_monitor_mix p)"
    by (rule laws(2), simp add: fs_def)+
  have "pred_option (\<lambda>x. f64_finite x \<and> f64_le hp_floor x \<and> f64_le x zero) (hwp_volume_db p)"
    using assms by (auto simp: hardware_patch_validate_def finite_in_Inr_iff split: option.splits)
  then show ?thesis
    unfolding hardware_patch_from_value_def hardware_patch_to_value_def fs_def [symmetric]
    by (simp add: get field_laws laws unsupported_def)
qed

subsection \<open>Sections and scenes\<close>

lemma validate_section_Inr_iff:
  "validate_section sec v = Inr () \<longleftrightarrow> pred_option (list_all (\<lambda>(k, x). k \<noteq> [] \<and> v k x = Inr ())) sec"
proof -
  have "res_foldM (check_entry v) () es = Inr () \<longleftrightarrow> list_all (\<lambda>(k, x). k \<noteq> [] \<and> v k x = Inr ()) es" for es
    by (induction es) (auto simp: check_entry_def rbind_Inr_iff)
  then show ?thesis by (simp add: validate_section_def pred_option_def split: option.splits)
qed

lemma res_mapM_map: "list_all (\<lambda>x. f (g x) = Inr x) xs \<Longrightarrow> res_mapM f (map g xs) = Inr xs"
  by (induction xs) simp_all

lemma take_section_value:
  assumes "im_get m key = map_option (section_value f) sec"
    and "pred_option im_wf sec" and "pred_option (list_all (\<lambda>(k, x). k \<noteq> [] \<and> dec (f x) = Inr x)) sec"
  shows "take_section key dec m = Inr (sec, im_swap_remove m key)"
proof (cases sec)
  case None
  then show ?thesis using assms(1) by (simp add: take_section_def)
next
  case (Some xs)
  have "res_mapM (decode_entry dec) (map (\<lambda>(k, x). (k, f x)) xs) = Inr xs"
    using assms(3) Some by (intro res_mapM_map) (auto simp: decode_entry_def list_all_iff)
  moreover have "list_all (\<lambda>k. k \<noteq> []) (map fst (map (\<lambda>(k, x). (k, f x)) xs))"
    using assms(3) Some by (auto simp: list_all_iff)
  ultimately show ?thesis
    using assms(1,2) Some by (simp add: take_section_def section_value_def mapping_def im_collect_distinct)
qed

text \<open>The maps of a scene are maps: what the type \<^verbatim>\<open>IndexMap\<close> guarantees.\<close>

definition scene_maps :: "scene \<Rightarrow> bool" where
  "scene_maps s \<longleftrightarrow> pred_option im_wf (sc_sources s) \<and> pred_option im_wf (sc_cells s) \<and>
     pred_option im_wf (sc_outputs s) \<and> pred_option im_wf (sc_volumes s) \<and> pred_option im_wf (sc_hardware s)"

lemma pred_option_list_mono:
  "pred_option (list_all P) x \<Longrightarrow> (\<And>e. P e \<Longrightarrow> Q e) \<Longrightarrow> pred_option (list_all Q) x"
  by (auto simp: pred_option_def list_all_iff)

lemma decode_output_value: "decode_output_name (output_value v) = Inr v"
  by (cases v) (simp_all add: decode_output_name_def output_value_def)

lemma scene_roundtrip:
  assumes "scene_maps s" and "scene_validate s = Inr ()"
  shows "scene_from_value (scene_to_value s) = Inr s"
proof -
  define fs where "fs = [(''name'', Some (JString (sc_name s))),
      (''sources'', map_option (section_value source_patch_to_value) (sc_sources s)),
      (''cells'', map_option (section_value level_patch_to_value) (sc_cells s)),
      (''outputs'', map_option (section_value output_value) (sc_outputs s)),
      (''volumes'', map_option (section_value level_patch_to_value) (sc_volumes s)),
      (''hardware'', map_option (section_value hardware_patch_to_value) (sc_hardware s))]"
  have keys: "map fst fs = [''name'', ''sources'', ''cells'', ''outputs'', ''volumes'', ''hardware'']"
    by (simp add: fs_def)
  note laws = present_laws [of fs, unfolded keys, simplified]
  have get: "im_get (present fs) ''name'' = Some (JString (sc_name s))"
    "im_get (present fs) ''sources'' = map_option (section_value source_patch_to_value) (sc_sources s)"
    "im_get (present fs) ''cells'' = map_option (section_value level_patch_to_value) (sc_cells s)"
    "im_get (present fs) ''outputs'' = map_option (section_value output_value) (sc_outputs s)"
    "im_get (present fs) ''volumes'' = map_option (section_value level_patch_to_value) (sc_volumes s)"
    "im_get (present fs) ''hardware'' = map_option (section_value hardware_patch_to_value) (sc_hardware s)"
    by (rule laws(2), simp add: fs_def)+
  have v: "pred_option (list_all (\<lambda>(k, x). k \<noteq> [] \<and> source_patch_validate x = Inr ())) (sc_sources s)"
    "pred_option (list_all (\<lambda>(k, x). k \<noteq> [] \<and> rbind (cell_key_check k) (\<lambda>_. level_patch_validate x) = Inr ())) (sc_cells s)"
    "pred_option (list_all (\<lambda>(k, x). k \<noteq> [] \<and> (Inr () :: unit res) = Inr ())) (sc_outputs s)"
    "pred_option (list_all (\<lambda>(k, x). k \<noteq> [] \<and> level_patch_validate x = Inr ())) (sc_volumes s)"
    "pred_option (list_all (\<lambda>(k, x). k \<noteq> [] \<and> hardware_patch_validate x = Inr ())) (sc_hardware s)"
    using assms(2) by (auto simp: scene_validate_def rbind_Inr_iff validate_section_Inr_iff)
  have d: "pred_option (list_all (\<lambda>(k, x). k \<noteq> [] \<and> source_patch_from_value (source_patch_to_value x) = Inr x)) (sc_sources s)"
    "pred_option (list_all (\<lambda>(k, x). k \<noteq> [] \<and> level_patch_from_value (level_patch_to_value x) = Inr x)) (sc_cells s)"
    "pred_option (list_all (\<lambda>(k, x). k \<noteq> [] \<and> decode_output_name (output_value x) = Inr x)) (sc_outputs s)"
    "pred_option (list_all (\<lambda>(k, x). k \<noteq> [] \<and> level_patch_from_value (level_patch_to_value x) = Inr x)) (sc_volumes s)"
    "pred_option (list_all (\<lambda>(k, x). k \<noteq> [] \<and> hardware_patch_from_value (hardware_patch_to_value x) = Inr x)) (sc_hardware s)"
    by (rule pred_option_list_mono [OF v(1)], auto simp: source_patch_roundtrip)
      (rule pred_option_list_mono [OF v(2)], auto simp: level_patch_roundtrip rbind_Inr_iff,
       rule pred_option_list_mono [OF v(3)], auto simp: decode_output_value,
       rule pred_option_list_mono [OF v(4)], auto simp: level_patch_roundtrip,
       rule pred_option_list_mono [OF v(5)], auto simp: hardware_patch_roundtrip)
  have eta: "\<lparr>sc_name = sc_name s, sc_sources = sc_sources s, sc_cells = sc_cells s, sc_outputs = sc_outputs s,
      sc_volumes = sc_volumes s, sc_hardware = sc_hardware s\<rparr> = s" by simp
  show ?thesis
    unfolding scene_from_value_def scene_to_value_def fs_def [symmetric]
    using assms unfolding scene_maps_def
    by (simp add: laws get take_section_value d im_wf_swap_remove unsupported_def Let_def eta cong: rbind_weak_cong)
qed

lemma take_section_maps: "take_section key dec m = Inr (sec, m') \<Longrightarrow> pred_option im_wf sec"
  by (auto simp: take_section_def rbind_Inr_iff split: option.splits)

lemma scene_from_value_ok:
  "scene_from_value v = Inr s \<Longrightarrow> scene_maps s \<and> scene_validate s = Inr ()"
  by (auto simp: scene_from_value_def scene_maps_def rbind_Inr_iff Let_def dest: take_section_maps)

definition store_ok :: "scene_store \<Rightarrow> bool" where
  "store_ok scenes \<longleftrightarrow> im_wf scenes \<and> list_all (\<lambda>(k, s). k \<noteq> [] \<and> scene_maps s) scenes"

lemma encode_store_Inr_iff:
  "encode_store scenes = Inr v \<longleftrightarrow> list_all (\<lambda>(k, s). scene_validate s = Inr ()) scenes \<and>
     v = JObject [(''scenes'', section_value scene_to_value scenes)]"
proof -
  have "res_foldM (\<lambda>_ s. scene_validate s) () ss = Inr () \<longleftrightarrow> list_all (\<lambda>s. scene_validate s = Inr ()) ss" for ss
    by (induction ss) (auto simp: rbind_Inr_iff)
  then show ?thesis
    by (auto simp: encode_store_def rbind_Inr_iff im_values_def list_all_iff)
qed

lemma decode_store_value:
  assumes "store_ok scenes" and "list_all (\<lambda>(k, s). scene_validate s = Inr ()) scenes"
  shows "decode_store (JObject [(''scenes'', section_value scene_to_value scenes)]) = Inr scenes"
proof -
  have "decode_scene (k, scene_to_value s) = Inr (k, s)" if "(k, s) \<in> set scenes" for k s
  proof -
    have "k \<noteq> []" "scene_maps s" "scene_validate s = Inr ()"
      using assms that by (auto simp: store_ok_def list_all_iff)
    then show ?thesis by (simp add: decode_scene_def scene_id_new_def scene_roundtrip)
  qed
  then have "res_mapM decode_scene (map (\<lambda>(k, s). (k, scene_to_value s)) scenes) = Inr scenes"
    by (intro res_mapM_map) (auto simp: list_all_iff)
  moreover have "list_all (\<lambda>k. k \<noteq> []) (map fst (map (\<lambda>(k, s). (k, scene_to_value s)) scenes))"
    using assms by (auto simp: store_ok_def list_all_iff)
  moreover have "im_wf scenes" using assms(1) by (simp add: store_ok_def)
  ultimately show ?thesis
    by (simp add: decode_store_def section_value_def mapping_def unsupported_def im_swap_remove_def im_collect_distinct)
qed

lemma decode_store_ok:
  assumes "decode_store v = Inr scenes"
  shows "store_ok scenes \<and> list_all (\<lambda>(k, s). scene_validate s = Inr ()) scenes"
proof -
  obtain es xs where xs: "res_mapM decode_scene es = Inr xs" "scenes = im_collect xs"
    using assms by (auto simp: decode_store_def rbind_Inr_iff)
  have step: "decode_scene e = Inr (k, s) \<Longrightarrow> k \<noteq> [] \<and> scene_maps s \<and> scene_validate s = Inr ()" for e k s
    using scene_from_value_ok by (auto simp: decode_scene_def rbind_Inr_iff scene_id_new_def split: if_splits)
  have "list_all2 (\<lambda>e x. decode_scene e = Inr x) es xs" using xs(1) by (simp add: res_mapM_Inr_iff)
  then have all: "list_all (\<lambda>(k, s). k \<noteq> [] \<and> scene_maps s \<and> scene_validate s = Inr ()) xs"
    by (induction rule: list_all2_induct) (auto dest: step)
  have "list_all P (im_collect xs)" if "list_all P xs" for P :: "scene_id \<times> scene \<Rightarrow> bool"
  proof -
    have "list_all P m \<Longrightarrow> list_all P xs \<Longrightarrow> list_all P (foldl (\<lambda>m (k, v). im_insert m k v) m xs)" for m
      by (induction xs arbitrary: m) (auto intro!: im_all_insert)
    then show ?thesis using that by (simp add: im_collect_def)
  qed
  from this [OF all] have "list_all (\<lambda>(k, s). k \<noteq> [] \<and> scene_maps s \<and> scene_validate s = Inr ()) scenes"
    by (simp add: xs(2))
  then show ?thesis using xs(2) by (auto simp: store_ok_def list_all_iff)
qed

text \<open>
  C38. The scene store survives saving: whatever scenes \<^verbatim>\<open>encode_store\<close> accepts, decoding the document
  it wrote gives exactly the same scenes, in the same order, with the same absent sections.
\<close>

lemma scene_store_roundtrip:
  assumes "store_ok scenes" and "encode_store scenes = Inr v"
  shows "decode_store v = Inr scenes"
  using assms decode_store_value by (auto simp: encode_store_Inr_iff)

definition sample_scene :: scene where
  "sample_scene = \<lparr>sc_name = ''Talk'', sc_sources = Some [(''mic'', \<lparr>sp_level = Some one, sp_muted = None\<rparr>)],
     sc_cells = Some [(''mic.stream'', \<lparr>lp_volume = Some zero, lp_muted = Some True\<rparr>)],
     sc_outputs = Some [(''stream'', None), (''monitor'', Some ''hdmi'')], sc_volumes = Some [],
     sc_hardware = Some [(''wave3'', \<lparr>hwp_gain_raw = Some 3, hwp_mute = None, hwp_volume_db = Some hp_floor,
        hwp_low_impedance = Some False, hwp_monitor_mix = None\<rparr>)]\<rparr>"

lemma sample_scene_ok: "store_ok [(''talk'', sample_scene)]" "scene_validate sample_scene = Inr ()"
  by (simp_all add: store_ok_def scene_maps_def sample_scene_def im_wf_def scene_validate_def validate_section_def
      check_entry_def source_patch_validate_def level_patch_validate_def hardware_patch_validate_def finite_in_def
      f64_le_def cell_key_check_def rsplit_once_def)

lemma scene_store_roundtrip_witness:
  "decode_store (JObject [(''scenes'', section_value scene_to_value [(''talk'', sample_scene)])]) =
     Inr [(''talk'', sample_scene)]"
  by (rule scene_store_roundtrip [OF sample_scene_ok(1)]) (simp add: encode_store_Inr_iff sample_scene_ok(2))

text \<open>
  C39. A scene store that loads can always be saved, and the document it is saved as loads to the same
  scenes: loading checks all that saving needs (identifiers and keys, levels in their ranges).
\<close>

lemma scene_store_load:
  "case decode_store v of
     Inl e \<Rightarrow> True
   | Inr scenes \<Rightarrow> store_ok scenes \<and> rbind (encode_store scenes) decode_store = Inr scenes"
proof (cases "decode_store v")
  case (Inr scenes)
  note ok = decode_store_ok [OF Inr]
  then have "encode_store scenes = Inr (JObject [(''scenes'', section_value scene_to_value scenes)])"
    by (simp add: encode_store_Inr_iff)
  with ok Inr show ?thesis by (simp add: decode_store_value)
qed simp

subsection \<open>Hardware entries are given to one unit each\<close>

lemma map_filter_mem: "e \<in> set (List.map_filter f xs) \<longleftrightarrow> (\<exists>x\<in>set xs. f x = Some e)"
  by (induction xs) (auto simp: map_filter_simps split: option.splits)

lemma length_filter_one:
  assumes "length (filter P xs) = 1" and "x \<in> set xs" "y \<in> set xs" "P x" "P y"
  shows "x = y"
proof -
  obtain z where z: "filter P xs = [z]" using assms(1) by (auto simp: length_Suc_conv)
  have "x \<in> set (filter P xs)" "y \<in> set (filter P xs)" using assms by simp_all
  then show ?thesis unfolding z by simp
qed

lemma distinct_map_filter_by:
  assumes "\<And>x e. x \<in> set xs \<Longrightarrow> f x = Some e \<Longrightarrow> length (filter (\<lambda>y. h y = h x) xs) \<le> 1 \<and> g e = h x"
  shows "distinct (map g (List.map_filter f xs))"
  using assms
proof (induction xs)
  case Nil
  then show ?case by (simp add: map_filter_simps)
next
  case (Cons x xs)
  have "length (filter (\<lambda>y. h y = h z) xs) \<le> 1 \<and> g e = h z" if "z \<in> set xs" "f z = Some e" for z e
    using Cons.prems [of z e] that by (auto split: if_splits)
  then have IH: "distinct (map g (List.map_filter f xs))" by (rule Cons.IH)
  show ?case
  proof (cases "f x")
    case None
    then show ?thesis using IH by (simp add: map_filter_simps)
  next
    case (Some e)
    have e: "g e = h x" "filter (\<lambda>y. h y = h x) xs = []" using Cons.prems [of x e] Some by auto
    have "h x \<noteq> g e'" if "e' \<in> set (List.map_filter f xs)" for e'
    proof -
      obtain z where z: "z \<in> set xs" "f z = Some e'" using \<open>e' \<in> _\<close> by (auto simp: map_filter_mem)
      then have "g e' = h z" using Cons.prems [of z e'] by simp
      moreover have "h z \<noteq> h x" using e(2) z(1) by (auto simp: filter_empty_conv)
      ultimately show ?thesis by simp
    qed
    then have "h x \<notin> set (map g (List.map_filter f xs))" by fastforce
    then show ?thesis using IH Some e(1) by (simp only: map_filter_simps option.case list.map distinct.simps simp_thms)
  qed
qed

lemma profile_as_str_no_colon: "CHR '':'' \<notin> set (profile_as_str p)"
  by (cases p) (simp_all add: profile_as_str_def)

lemma profile_as_str_inj: "profile_as_str p = profile_as_str q \<longleftrightarrow> p = q"
  by (cases p; cases q) (simp_all add: profile_as_str_def)

lemma hardware_key_inj:
  assumes "hardware_key p s = hardware_key q t"
  shows "p = q \<and> s = t"
proof (cases "s = [] \<or> t = []")
  case True
  have "hardware_key p s = profile_as_str q \<Longrightarrow> s = []" for p s q
    using profile_as_str_no_colon [of q] by (auto simp: hardware_key_def split: if_splits) (metis in_set_conv_decomp append_Cons)
  with True assms show ?thesis by (metis hardware_key_def profile_as_str_inj)
next
  case False
  then have "profile_as_str p @ CHR '':'' # s = profile_as_str q @ CHR '':'' # t"
    using assms by (simp add: hardware_key_def)
  then show ?thesis
    using append_Cons_eq_iff [of "CHR '':''" "profile_as_str p" s "profile_as_str q" t] profile_as_str_no_colon
    by (metis profile_as_str_inj split_once_append option.inject prod.inject)
qed

lemma pick_hardware_entry_Some:
  assumes "pick_hardware_entry hardware u candidates = Inr (Some (key, p))"
  shows "\<exists>c. filter (\<lambda>c. hc_unit c = u) candidates = [c] \<and> im_get hardware key = Some p \<and>
    length (filter (\<lambda>d. same_model u d \<and> hc_serial d = hc_serial c) candidates) = 1 \<and>
    (key = hardware_key (uid_profile u) (hc_serial c) \<or>
     key = profile_as_str (uid_profile u) \<and> length (filter (same_model u) candidates) = 1)"
  using assms
  by (auto simp: pick_hardware_entry_def im_get_key_value_def split: list.splits if_splits option.splits)

lemma select_candidate_Some:
  assumes "select_candidate hardware candidates c = Some e" and "c \<in> set candidates"
  shows "hs_unit e = hc_unit c \<and> im_get hardware (hs_key e) = Some (hs_patch e) \<and>
    length (filter (\<lambda>d. hc_unit d = hc_unit c) candidates) = 1 \<and>
    (hs_key e = hardware_key (uid_profile (hc_unit c)) (hc_serial c) \<and>
       length (filter (\<lambda>d. same_model (hc_unit c) d \<and> hc_serial d = hc_serial c) candidates) = 1 \<or>
     hs_key e = profile_as_str (uid_profile (hc_unit c)) \<and> length (filter (same_model (hc_unit c)) candidates) = 1)"
proof -
  obtain key p where kp: "pick_hardware_entry hardware (hc_unit c) candidates = Inr (Some (key, p))"
    and e: "e = \<lparr>hs_unit = hc_unit c, hs_key = key, hs_patch = p\<rparr>"
    using assms(1) by (auto simp: select_candidate_def res_ok_def split: sum.splits option.splits)
  obtain d where d: "filter (\<lambda>c'. hc_unit c' = hc_unit c) candidates = [d]" "im_get hardware key = Some p"
    "length (filter (\<lambda>x. same_model (hc_unit c) x \<and> hc_serial x = hc_serial d) candidates) = 1"
    "key = hardware_key (uid_profile (hc_unit c)) (hc_serial d) \<or>
     key = profile_as_str (uid_profile (hc_unit c)) \<and> length (filter (same_model (hc_unit c)) candidates) = 1"
    using pick_hardware_entry_Some [OF kp] by blast
  have "c \<in> set (filter (\<lambda>c'. hc_unit c' = hc_unit c) candidates)" using assms(2) by simp
  then have "d = c" using d(1) by simp
  then show ?thesis using d e by auto
qed

text \<open>
  C31. Recalling the hardware of a scene gives every entry to at most one connected unit and every unit at
  most one entry, its own (by serial, or by model when it is the only unit of the model); all the
  entries that are not given are reported as skipped, in order, and none is dropped.
\<close>

lemma resolve_hardware_partition:
  "(let r = resolve_hardware hardware candidates; taken = map hs_key (hr_selected r)
    in distinct (map hs_unit (hr_selected r)) \<and> distinct taken \<and>
       list_all (\<lambda>e. im_get hardware (hs_key e) = Some (hs_patch e) \<and>
         list_ex (\<lambda>c. hc_unit c = hs_unit e \<and>
           (hs_key e = hardware_key (uid_profile (hc_unit c)) (hc_serial c) \<or>
            hs_key e = profile_as_str (uid_profile (hc_unit c)) \<and> filter (same_model (hc_unit c)) candidates = [c])) candidates)
         (hr_selected r) \<and>
       map oi_target (hr_skipped r) = map (\<lambda>k. ''hardware '' @ k) (filter (\<lambda>k. k \<notin> set taken) (im_keys hardware)))"
proof -
  let ?sel = "hr_selected (resolve_hardware hardware candidates)"
  have sel: "?sel = List.map_filter (select_candidate hardware candidates) candidates"
    by (simp add: resolve_hardware_def Let_def)
  have units: "distinct (map hs_unit ?sel)"
    unfolding sel by (rule distinct_map_filter_by [where h = hc_unit]) (auto dest: select_candidate_Some)
  have from_c: "\<exists>c\<in>set candidates. select_candidate hardware candidates c = Some e" if "e \<in> set ?sel" for e
    using that unfolding sel by (auto simp: map_filter_mem)
  have "e = e'" if es: "e \<in> set ?sel" "e' \<in> set ?sel" "hs_key e = hs_key e'" for e e'
  proof -
    obtain c c' where c: "c \<in> set candidates" "select_candidate hardware candidates c = Some e"
      "c' \<in> set candidates" "select_candidate hardware candidates c' = Some e'"
      using from_c es by meson
    note s = select_candidate_Some [OF c(2,1)] select_candidate_Some [OF c(4,3)]
    have k: "profile_as_str p = hardware_key p []" for p by (simp add: hardware_key_def)
    have model: "uid_profile (hc_unit c) = uid_profile (hc_unit c')"
      using s es(3) unfolding k by (metis hardware_key_inj)
    then have same: "same_model (hc_unit c) c'" "same_model (hc_unit c) c" "same_model (hc_unit c') = same_model (hc_unit c)"
      by (simp_all add: same_model_def fun_eq_iff)
    have "c = c'"
    proof (cases "length (filter (same_model (hc_unit c)) candidates) = 1")
      case True
      then show ?thesis by (rule length_filter_one [OF _ c(1,3) same(2,1)])
    next
      case False
      have exact: "hs_key e = hardware_key (uid_profile (hc_unit c)) (hc_serial c)"
        "length (filter (\<lambda>d. same_model (hc_unit c) d \<and> hc_serial d = hc_serial c) candidates) = 1"
        "hs_key e' = hardware_key (uid_profile (hc_unit c')) (hc_serial c')"
        using s False same(3) by metis+
      have serial: "hc_serial c' = hc_serial c" using es(3) exact(1,3) by (metis hardware_key_inj)
      show ?thesis
        by (rule length_filter_one [OF exact(2) c(1,3)]; intro conjI refl same(1,2) serial)
    qed
    then show ?thesis using c by simp
  qed
  then have "distinct (map hs_key ?sel)"
    using units by (auto simp: distinct_map inj_on_def)
  moreover have "list_ex (\<lambda>c. hc_unit c = hs_unit e \<and>
           (hs_key e = hardware_key (uid_profile (hc_unit c)) (hc_serial c) \<or>
            hs_key e = profile_as_str (uid_profile (hc_unit c)) \<and> filter (same_model (hc_unit c)) candidates = [c])) candidates
      \<and> im_get hardware (hs_key e) = Some (hs_patch e)" if "e \<in> set ?sel" for e
  proof -
    obtain c where c: "c \<in> set candidates" "select_candidate hardware candidates c = Some e"
      using from_c \<open>e \<in> _\<close> by blast
    have "filter (same_model (hc_unit c)) candidates = [c]"
      if one: "length (filter (same_model (hc_unit c)) candidates) = 1"
    proof -
      obtain z where z: "filter (same_model (hc_unit c)) candidates = [z]" using one by (auto simp: length_Suc_conv)
      have "c \<in> set (filter (same_model (hc_unit c)) candidates)" using c(1) by (simp add: same_model_def)
      then show ?thesis unfolding z by simp
    qed
    then show ?thesis
      using select_candidate_Some [OF c(2,1)] unfolding list_ex_iff by (intro conjI bexI [OF _ c(1)]) auto
  qed
  moreover have "map oi_target (hr_skipped (resolve_hardware hardware candidates)) =
      map (\<lambda>k. ''hardware '' @ k) (filter (\<lambda>k. k \<notin> set (map hs_key ?sel)) (im_keys hardware))"
  proof -
    have "list_ex (\<lambda>e. hs_key e = key) es \<longleftrightarrow> key \<in> set (map hs_key es)" for key and es :: "hardware_selection list"
      by (auto simp: list_ex_iff)
    then show ?thesis by (simp add: resolve_hardware_def Let_def comp_def)
  qed
  ultimately show ?thesis
    using units unfolding Let_def list_all_iff by blast
qed

end
