(* ===== verification/Store.thy ===== *)
theory Store
  imports Step Scenes
begin

text \<open>
  \<^verbatim>\<open>crates/openwave-runtime/src/store.rs\<close>: the five documents the program keeps, each decoded once and
  replaced atomically. The file system is part of the state: the contents of the regular files, what
  is not a regular file, and an oracle that may fail any operation with any error, depending on all
  operations before. \<^verbatim>\<open>serde_json\<close>'s parser and printer are parameters of the functions that use them.
\<close>

subsection \<open>Files\<close>

datatype fs_op =
    FsRead string | FsMetadata string | FsCreateDir string | FsTempfile string | FsWrite | FsSync | FsPersist string

record file_system =
  fs_files :: "string \<rightharpoonup> string"
  fs_irregular :: "string \<Rightarrow> bool"
  fs_fault :: "fs_op list \<Rightarrow> operation_error option"
  fs_log :: "fs_op list"

definition fs_do :: "fs_op \<Rightarrow> (file_system, unit res) act" where
  "fs_do op fs = (let log = op # fs_log fs
     in ((case fs_fault fs log of None \<Rightarrow> Inr () | Some e \<Rightarrow> Inl e), fs\<lparr>fs_log := log\<rparr>))"

text \<open>\<^verbatim>\<open>path.parent()\<close> is absent for the root and for the empty path only.\<close>

definition has_parent :: "string \<Rightarrow> bool" where
  "has_parent path \<longleftrightarrow> path \<noteq> [] \<and> path \<noteq> ''/''"

text \<open>The temporary file is its target and its contents; nothing is visible at the target yet.\<close>

definition prepare_atomic :: "string \<Rightarrow> string \<Rightarrow> (file_system, string res) act" where
  "prepare_atomic path bytes =
     attempt (fs_do (FsMetadata path)) (\<lambda>_.
     ask (\<lambda>fs. guard_ok (\<not> fs_irregular fs path) (error_new Io (''Refusing nonregular state file: '' @ path))
       (guard_ok (has_parent path) (error_invalid ''State path has no parent'')
         (attempt (fs_do (FsCreateDir path)) (\<lambda>_.
          attempt (fs_do (FsTempfile path)) (\<lambda>_.
          attempt (fs_do FsWrite) (\<lambda>_.
          attempt (fs_do FsSync) (\<lambda>_. ret (Inr bytes)))))))))"

definition persist :: "string \<Rightarrow> string \<Rightarrow> (file_system, unit res) act" where
  "persist path bytes =
     attempt (fs_do (FsPersist path)) (\<lambda>_.
     done_ok [upd (\<lambda>fs. fs\<lparr>fs_files := (fs_files fs)(path \<mapsto> bytes)\<rparr>)])"

definition atomic_write :: "string \<Rightarrow> string \<Rightarrow> (file_system, unit res) act" where
  "atomic_write path bytes = attempt (prepare_atomic path bytes) (persist path)"

subsection \<open>A stored value\<close>

record 'a prepared =
  pr_temporary :: string
  pr_value :: 'a

record 'a stored =
  sd_path :: string
  sd_value :: 'a
  sd_unreadable :: "operation_error option"
  sd_decode :: "json \<Rightarrow> 'a res"
  sd_encode :: "'a \<Rightarrow> json res"

text \<open>The printed document ends with a line feed.\<close>

definition encoded :: "(json \<Rightarrow> string) \<Rightarrow> json \<Rightarrow> string" where
  "encoded pretty v = pretty v @ [CHR 0x0A]"

definition read_error :: "'a stored \<Rightarrow> operation_error \<Rightarrow> operation_error" where
  "read_error st e = error_new CorruptStore (sd_path st @ '' is read-only: '' @ err_message e)"

definition writable :: "'a stored \<Rightarrow> bool" where
  "writable st \<longleftrightarrow> sd_unreadable st = None"

definition require_writable :: "'a stored \<Rightarrow> unit res" where
  "require_writable st = (case sd_unreadable st of None \<Rightarrow> Inr () | Some e \<Rightarrow> Inl e)"

text \<open>What was read: nothing when the file does not exist.\<close>

definition read_document :: "(string \<Rightarrow> json res) \<Rightarrow> 'a stored \<Rightarrow> (file_system, 'a option res) act" where
  "read_document parse st =
     bnd (fs_do (FsRead (sd_path st))) (\<lambda>r. ask (\<lambda>fs. ret
       (case r of Inl e \<Rightarrow> Inl e
        | Inr _ \<Rightarrow> (case fs_files fs (sd_path st) of
              None \<Rightarrow> Inr None
            | Some bytes \<Rightarrow> rbind (parse bytes) (\<lambda>v. rbind (sd_decode st v) (\<lambda>x. Inr (Some x)))))))"

definition stored_load ::
  "(string \<Rightarrow> json res) \<Rightarrow> (json \<Rightarrow> string) \<Rightarrow> string \<Rightarrow> 'a \<Rightarrow> (json \<Rightarrow> 'a res) \<Rightarrow> ('a \<Rightarrow> json res) \<Rightarrow> bool \<Rightarrow>
   (file_system, 'a stored) act" where
  "stored_load parse pretty path fallback decode encode seed_missing =
     (let st = \<lparr>sd_path = path, sd_value = fallback, sd_unreadable = None, sd_decode = decode, sd_encode = encode\<rparr>
      in bnd (read_document parse st) (\<lambda>loaded. case loaded of
           Inl e \<Rightarrow> ret (st\<lparr>sd_unreadable := Some (read_error st e)\<rparr>)
         | Inr (Some v) \<Rightarrow> ret (st\<lparr>sd_value := v\<rparr>)
         | Inr None \<Rightarrow>
             if seed_missing
             then bnd (try_pure (encode fallback) (\<lambda>v. atomic_write path (encoded pretty v))) (\<lambda>saved. case saved of
                    Inl e \<Rightarrow> ret (st\<lparr>sd_unreadable := Some (read_error st e)\<rparr>)
                  | Inr _ \<Rightarrow> ret st)
             else ret st))"

definition stored_prepare :: "(json \<Rightarrow> string) \<Rightarrow> 'a stored \<Rightarrow> 'a \<Rightarrow> (file_system, 'a prepared res) act" where
  "stored_prepare pretty st v =
     try_pure (require_writable st) (\<lambda>_.
     try_pure (sd_encode st v) (\<lambda>j.
     try_pure (sd_decode st j) (\<lambda>v.
     try_pure (sd_encode st v) (\<lambda>j.
     attempt (prepare_atomic (sd_path st) (encoded pretty j)) (\<lambda>temporary.
       ret (Inr \<lparr>pr_temporary = temporary, pr_value = v\<rparr>))))))"

text \<open>\<^verbatim>\<open>publish\<close> takes \<open>&mut self\<close>: the new value of the store goes with the result.\<close>

definition stored_publish :: "'a stored \<Rightarrow> 'a prepared \<Rightarrow> (file_system, 'a stored res) act" where
  "stored_publish st p =
     attempt (persist (sd_path st) (pr_temporary p)) (\<lambda>_. ret (Inr (st\<lparr>sd_value := pr_value p\<rparr>)))"

definition stored_replace :: "(json \<Rightarrow> string) \<Rightarrow> 'a stored \<Rightarrow> 'a \<Rightarrow> (file_system, 'a stored res) act" where
  "stored_replace pretty st v = attempt (stored_prepare pretty st v) (stored_publish st)"

subsection \<open>The configuration\<close>

record desired_state =
  de_sources :: sources
  de_mixes :: mixes
  de_matrix :: matrix_state
  de_scenes :: scene_store

record config_store =
  cs_sources :: "sources stored"
  cs_mixes :: "mixes stored"
  cs_matrix :: "matrix_state stored"
  cs_preferences :: "preferences stored"
  cs_scenes :: "scene_store stored"

definition config_load ::
  "(json \<Rightarrow> string) \<Rightarrow> (string \<Rightarrow> json res) \<Rightarrow> (json \<Rightarrow> string) \<Rightarrow> string \<Rightarrow> (file_system, config_store) act" where
  "config_load serde parse pretty dir =
     (let path = (\<lambda>name. dir @ ''/'' @ name) in
      bnd (stored_load parse pretty (path ''sources.json'') [] (normalize_sources serde)
        (\<lambda>v. Inr (sources_to_value v)) False) (\<lambda>srcs.
      bnd (stored_load parse pretty (path ''mixdefs.json'') default_mixes normalize_mixes
        (\<lambda>v. Inr (mixes_to_value v)) True) (\<lambda>ms.
      bnd (stored_load parse pretty (path ''mixes.json'') matrix_default matrix_from_value
        (\<lambda>v. Inr (matrix_to_value v)) False) (\<lambda>mat.
      bnd (stored_load parse pretty (path ''ui-state.json'') preferences_default (preferences_from_value serde)
        (\<lambda>v. Inr (preferences_to_value v)) False) (\<lambda>prefs.
      bnd (stored_load parse pretty (path ''scenes.json'') [] decode_store encode_store False) (\<lambda>scs.
        ret \<lparr>cs_sources = srcs, cs_mixes = ms, cs_matrix = mat, cs_preferences = prefs, cs_scenes = scs\<rparr>))))))"

definition routing_available :: "config_store \<Rightarrow> bool" where
  "routing_available cs \<longleftrightarrow> writable (cs_sources cs) \<and> writable (cs_mixes cs) \<and> writable (cs_matrix cs)"

definition config_desired :: "config_store \<Rightarrow> desired_state" where
  "config_desired cs = \<lparr>de_sources = sd_value (cs_sources cs),
     de_mixes = (if writable (cs_mixes cs) then sd_value (cs_mixes cs) else []),
     de_matrix = sd_value (cs_matrix cs), de_scenes = sd_value (cs_scenes cs)\<rparr>"

definition config_issues :: "config_store \<Rightarrow> operation_issue list" where
  "config_issues cs =
     map (\<lambda>e. \<lparr>oi_target = ''store'', oi_message = err_message e\<rparr>)
       (List.map_filter id [sd_unreadable (cs_sources cs), sd_unreadable (cs_mixes cs), sd_unreadable (cs_matrix cs),
          sd_unreadable (cs_preferences cs), sd_unreadable (cs_scenes cs)])"

subsection \<open>Replacing a document\<close>

lemma fs_do_files [simp]: "fs_files (snd (fs_do op fs)) = fs_files fs"
  by (simp add: fs_do_def Let_def)

lemma fs_do_irregular [simp]: "fs_irregular (snd (fs_do op fs)) = fs_irregular fs"
  by (simp add: fs_do_def Let_def)

lemma prepare_atomic_files [simp]: "fs_files (snd (prepare_atomic path bytes fs)) = fs_files fs"
  by (simp add: prepare_atomic_def act_apps guard_ok_def split: sum.split)

lemma prepare_atomic_bytes: "fst (prepare_atomic path bytes fs) = Inr b \<Longrightarrow> b = bytes"
  by (auto simp: prepare_atomic_def act_apps guard_ok_def split: sum.splits if_splits)

lemma persist_files:
  "fs_files (snd (persist path bytes fs)) =
     (case fst (persist path bytes fs) of Inl e \<Rightarrow> fs_files fs | Inr _ \<Rightarrow> (fs_files fs)(path \<mapsto> bytes))"
  by (simp add: persist_def act_apps split: sum.split)

lemma stored_prepare_files [simp]: "fs_files (snd (stored_prepare pretty st v fs)) = fs_files fs"
  by (simp add: stored_prepare_def act_apps try_pure_def split: sum.split)

lemma stored_prepare_Inr:
  assumes "fst (stored_prepare pretty st v fs) = Inr p"
  obtains j j' where "writable st" and "sd_encode st v = Inr j" and "sd_decode st j = Inr (pr_value p)"
    and "sd_encode st (pr_value p) = Inr j'" and "pr_temporary p = encoded pretty j'"
  using assms
  by (auto simp: stored_prepare_def act_apps try_pure_def require_writable_def writable_def
      dest!: prepare_atomic_bytes split: sum.splits option.splits)

lemma stored_publish_files:
  "case fst (stored_publish st p fs) of
     Inl e \<Rightarrow> fs_files (snd (stored_publish st p fs)) = fs_files fs
   | Inr st' \<Rightarrow> st' = st\<lparr>sd_value := pr_value p\<rparr> \<and>
       fs_files (snd (stored_publish st p fs)) = (fs_files fs)(sd_path st \<mapsto> pr_temporary p)"
  by (simp add: stored_publish_def act_apps persist_files split: sum.split)

text \<open>
  C25. Replacing a document is atomic, whatever operation of the file system fails (a crash is the failure
  of all operations from some point on): either the files are untouched and the store keeps its value,
  or the only change is that the document is, completely, the printed form of the new value of the
  store, which is what the decoder accepts of the value that was given. A document that could not
  be read is never replaced.
\<close>

lemma stored_replace_atomic:
  "case stored_replace pretty st v fs of
     (Inl e, fs') \<Rightarrow> fs_files fs' = fs_files fs
   | (Inr st', fs') \<Rightarrow> writable st \<and> st' = st\<lparr>sd_value := sd_value st'\<rparr> \<and>
       rbind (sd_encode st v) (sd_decode st) = Inr (sd_value st') \<and>
       (case sd_encode st (sd_value st') of
          Inl e \<Rightarrow> False
        | Inr j \<Rightarrow> fs_files fs' = (fs_files fs)(sd_path st \<mapsto> encoded pretty j))"
proof (cases "fst (stored_prepare pretty st v fs)")
  case (Inl e)
  then show ?thesis by (simp add: stored_replace_def act_apps split: prod.split)
next
  case (Inr p)
  obtain j j' where j: "writable st" "sd_encode st v = Inr j" "sd_decode st j = Inr (pr_value p)"
    "sd_encode st (pr_value p) = Inr j'" "pr_temporary p = encoded pretty j'"
    by (rule stored_prepare_Inr [OF Inr])
  have run: "stored_replace pretty st v fs = stored_publish st p (snd (stored_prepare pretty st v fs))"
    by (simp add: stored_replace_def act_apps Inr)
  show ?thesis
    using stored_publish_files [of st p "snd (stored_prepare pretty st v fs)"] j
    unfolding run by (auto simp: case_prod_unfold split: sum.splits)
qed

end
