(* ===== verification/Alsa.thy ===== *)
theory Alsa
  imports Protocol "HOL-Library.Product_Lexorder"
begin

text \<open>
  The identity and mixer part of \<^verbatim>\<open>crates/openwave-core/src/protocol.rs\<close>: unit conversions between
  firmware registers and ALSA steps, the enumeration of supported USB devices, the exact match
  of a unit with its ALSA card and of a capture serial with a unit, and the parser of
  \<^verbatim>\<open>amixer contents\<close> that discovers the control roles. An \<^verbatim>\<open>i32\<close> is the integer it denotes.
\<close>

subsection \<open>Unit conversions\<close>

definition gain_raw_to_db :: "profile_id \<Rightarrow> u16 \<Rightarrow> f64" where
  "gain_raw_to_db p raw = f64_div (f64_of_u16 raw) (f64_of_u16 (gain_scale (profile p)))"

definition fw_gain_to_alsa :: "profile_id \<Rightarrow> u16 \<Rightarrow> int" where
  "fw_gain_to_alsa p raw =
     f64_to_i32 (f64_round_ties_even (f64_div (gain_raw_to_db p raw) (FFin False (1 / 2))))"

definition fw_hp_to_alsa :: "profile_id \<Rightarrow> i16 \<Rightarrow> int" where
  "fw_hp_to_alsa p raw =
     (let db = f64_div (f64_of_i16 raw) (f64_of_u16 (hp_scale (profile p)))
      in f64_to_i32 (f64_clamp (FFin False 0) (FFin False 120)
           (f64_round_ties_even (f64_add (f64_div db (FFin False (1 / 2))) (FFin False 120)))))"

definition alsa_hp_to_fw :: "profile_id \<Rightarrow> int \<Rightarrow> i16" where
  "alsa_hp_to_fw p v =
     (let db = f64_clamp (FFin True 128) (FFin False 0)
           (f64_mul (f64_sub (f64_of_int v) (FFin False 120)) (FFin False (1 / 2)))
      in f64_to_i16 (f64_mul db (f64_of_u16 (hp_scale (profile p)))))"

subsection \<open>USB and ALSA identities\<close>

record usb_identity =
  usb_vid :: u16
  usb_pid :: u16
  usb_bus :: u8
  usb_address :: u8

text \<open>\<^verbatim>\<open>sort_by_key\<close> is stable, as is \<open>sort_key\<close>.\<close>

definition supported_devices :: "usb_identity list \<Rightarrow> (profile_id \<times> u8 \<times> u8) list" where
  "supported_devices devices =
     sort_key (\<lambda>(_, bus, address). (bus, address))
       (List.map_filter (\<lambda>d. map_option (\<lambda>p. (dp_id p, usb_bus d, usb_address d))
          (profile_for_usb (usb_vid d) (usb_pid d))) devices)"

record alsa_card_identity =
  ac_card :: u32
  ac_usb :: usb_identity

definition malformed_identity :: operation_error where
  "malformed_identity = error_new Identity ''Malformed ALSA USB identity''"

definition parse_usb_id :: "string \<Rightarrow> (u16 \<times> u16) res" where
  "parse_usb_id usbid =
     rbind (ok_or malformed_identity (split_once (CHR '':'') (trim usbid))) (\<lambda>(vid, pid).
       if length vid \<noteq> 4 \<or> length pid \<noteq> 4 \<or> \<not> list_all ascii_hexdigit (vid @ pid)
       then Inl malformed_identity
       else rbind (ok_or malformed_identity (parse_hex_u16 vid)) (\<lambda>v.
            rbind (ok_or malformed_identity (parse_hex_u16 pid)) (\<lambda>p. Inr (v, p))))"

definition alsa_card_parse :: "u32 \<Rightarrow> string \<Rightarrow> string \<Rightarrow> alsa_card_identity res" where
  "alsa_card_parse number usbid usbbus =
     rbind (parse_usb_id usbid) (\<lambda>(vid, pid).
     rbind (ok_or malformed_identity (split_once (CHR ''/'') (trim usbbus))) (\<lambda>(bus, address).
       if length bus \<noteq> 3 \<or> length address \<noteq> 3 \<or> \<not> list_all ascii_digit (bus @ address)
       then Inl malformed_identity
       else rbind (ok_or malformed_identity (parse_u8 bus)) (\<lambda>b.
            rbind (ok_or malformed_identity (parse_u8 address)) (\<lambda>a.
              Inr \<lparr>ac_card = number,
                   ac_usb = \<lparr>usb_vid = vid, usb_pid = pid, usb_bus = b, usb_address = a\<rparr>\<rparr>))))"

definition wanted_usb :: "unit_id \<Rightarrow> usb_identity" where
  "wanted_usb unit = (let p = profile (uid_profile unit)
     in \<lparr>usb_vid = dp_vid p, usb_pid = dp_pid p, usb_bus = uid_bus unit, usb_address = uid_address unit\<rparr>)"

text \<open>Two calls of \<^verbatim>\<open>next()\<close> on the filtered iterator.\<close>

definition card_for_unit :: "unit_id \<Rightarrow> alsa_card_identity list \<Rightarrow> u32 option" where
  "card_for_unit unit cards =
     (case filter (\<lambda>c. ac_usb c = wanted_usb unit) cards of
        [] \<Rightarrow> None
      | matched # rest \<Rightarrow> (if rest \<noteq> [] then None else Some (ac_card matched)))"

record connected_identity =
  ci_unit :: unit_id
  ci_serial :: string
  ci_connected :: bool

fun capture_loop ::
  "string \<Rightarrow> unit_id option \<Rightarrow> connected_identity list \<Rightarrow> unit_id option" where
  "capture_loop serial matched [] = matched"
| "capture_loop serial matched (d # ds) =
     (if \<not> ci_connected d \<or> ci_serial d = [] then capture_loop serial matched ds
      else if serial \<noteq> ci_serial d \<and>
        strip_prefix (capture_serial_prefix (profile (uid_profile (ci_unit d)))) serial \<noteq> Some (ci_serial d)
      then capture_loop serial matched ds
      else if matched \<noteq> None then None
      else capture_loop serial (Some (ci_unit d)) ds)"

definition device_for_capture :: "string \<Rightarrow> connected_identity list \<Rightarrow> unit_id option" where
  "device_for_capture serial devices =
     (if serial = [] then None else capture_loop serial None devices)"

subsection \<open>ALSA controls\<close>

record alsa_range =
  range_min :: int
  range_max :: int

record alsa_control =
  ctl_numid :: u32
  ctl_range :: "alsa_range option"

definition alsa_clamp :: "alsa_control \<Rightarrow> int \<Rightarrow> int res" where
  "alsa_clamp c v =
     rbind (ok_or (error_unavailable ''ALSA control range unavailable'') (ctl_range c)) (\<lambda>range.
       if range_min range > range_max range then Inl (error_invalid ''Invalid ALSA control range'')
       else Inr (max (range_min range) (min (range_max range) v)))"

record alsa_controls =
  alsa_mute :: "alsa_control option"
  alsa_gain :: "alsa_control option"
  alsa_hp_volume :: "alsa_control option"

definition no_controls :: alsa_controls where
  "no_controls = \<lparr>alsa_mute = None, alsa_gain = None, alsa_hp_volume = None\<rparr>"

definition parse_control_header :: "string \<Rightarrow> (u32 \<times> string) option" where
  "parse_control_header line =
     Option.bind (strip_prefix ''numid='' line) (\<lambda>line.
     Option.bind (split_once_str ('',iface=MIXER,name='' @ [CHR 0x27]) line) (\<lambda>(numid, line).
     Option.bind (case parse_u32 numid of Some n \<Rightarrow> if n \<noteq> 0 then Some n else None | None \<Rightarrow> None) (\<lambda>numid.
     Option.bind (rsplit_once (CHR 0x27) line) (\<lambda>(name, _). Some (numid, name)))))"

definition metadata_number :: "string \<Rightarrow> string \<Rightarrow> int option" where
  "metadata_number metadata key =
     find_map (\<lambda>part. Option.bind (split_once (CHR ''='') part) (\<lambda>(name, v).
         if name = key then parse_i32 v else None))
       (split_char (CHR '','') metadata)"

definition control_range :: "string \<Rightarrow> alsa_range option" where
  "control_range metadata =
     (case (metadata_number metadata ''min'', metadata_number metadata ''max'') of
        (Some lo, Some hi) \<Rightarrow> (if lo \<le> hi then Some \<lparr>range_min = lo, range_max = hi\<rparr> else None)
      | _ \<Rightarrow> None)"

text \<open>The branches that pick \<^verbatim>\<open>target\<close>, each with the \<^verbatim>\<open>target.is_some()\<close> guard.\<close>

definition control_line ::
  "alsa_controls \<Rightarrow> u32 \<Rightarrow> string \<Rightarrow> string \<Rightarrow> alsa_controls" where
  "control_line r numid name metadata =
     (let kind = (case split_char (CHR '','') metadata of [] \<Rightarrow> [] | k # _ \<Rightarrow> k);
          c = \<lparr>ctl_numid = numid, ctl_range = control_range metadata\<rparr>
      in if ends_with ''Capture Switch'' name \<and> kind = ''BOOLEAN'' then
           (if alsa_mute r \<noteq> None then r else r\<lparr>alsa_mute := Some c\<rparr>)
         else if ends_with ''Capture Volume'' name \<and> kind = ''INTEGER'' then
           (if alsa_gain r \<noteq> None then r else r\<lparr>alsa_gain := Some c\<rparr>)
         else if ends_with ''Playback Volume'' name \<and> kind = ''INTEGER'' then
           (if alsa_hp_volume r \<noteq> None then r else r\<lparr>alsa_hp_volume := Some c\<rparr>)
         else r)"

type_synonym control_scan = "alsa_controls \<times> (u32 \<times> string) option"

definition scan_line :: "control_scan \<Rightarrow> string \<Rightarrow> control_scan" where
  "scan_line s line = (case s of (result, current) \<Rightarrow>
     (if starts_with ''numid='' line then (result, parse_control_header line)
      else (case current of
          None \<Rightarrow> (result, current)
        | Some (numid, name) \<Rightarrow>
            (case strip_prefix ''; type='' line of
               None \<Rightarrow> (result, current)
             | Some metadata \<Rightarrow> (control_line result numid name metadata, current)))))"

definition parse_alsa_controls :: "string \<Rightarrow> alsa_controls" where
  "parse_alsa_controls contents =
     fst (foldl scan_line (no_controls, None) (map trim (str_lines contents)))"

definition alsa_value :: "string \<Rightarrow> string option" where
  "alsa_value output = find_map (\<lambda>line. strip_prefix '': values='' (trim line)) (str_lines output)"

definition parse_alsa_mute :: "string \<Rightarrow> bool option" where
  "parse_alsa_mute output = Option.bind (alsa_value output) (\<lambda>v.
     if v = ''off'' then Some True else if v = ''on'' then Some False else None)"

definition parse_alsa_volume :: "string \<Rightarrow> int option" where
  "parse_alsa_volume output = Option.bind (alsa_value output) parse_i32"

subsection \<open>Conversions\<close>

definition hp_scale_int :: "profile_id \<Rightarrow> int" where
  "hp_scale_int p = (if p = XlrDockMk2 then 4 else 256)"

lemma f64_is_hp_scale: "f64_is (f64_of_u16 (hp_scale (profile p))) (of_int (hp_scale_int p))"
  using f64_is_of_int [of 256] f64_is_of_int [of 4]
  by (cases p) (simp_all add: f64_of_u16_def profile_scales hp_scale_int_def)

lemma f64_is_half: "f64_is (FFin False (1 / 2)) (1 / 2)"
  using f64_rep_dyadic [of 1 1] by (intro f64_isI) simp_all

lemma f64_is_nats: "f64_is (FFin False 0) 0" "f64_is (FFin False 120) 120" "f64_is (FFin True 128) (- 128)"
  using f64_is_const [of 0] f64_is_const [of 120] f64_is_const [of "- 128"] by simp_all

lemma sint_word_of_int_i16: "- 32768 \<le> k \<Longrightarrow> k \<le> 32767 \<Longrightarrow> sint (word_of_int k :: i16) = k"
  by (simp only: signed_of_int) (simp add: signed_take_bit_int_eq_self)

lemma sint_alsa_hp_to_fw:
  assumes "\<bar>v\<bar> \<le> 2 ^ 31"
  shows "2 * sint (alsa_hp_to_fw p v) = hp_scale_int p * max (- 256) (min 0 (v - 120))"
proof -
  let ?k = "max (- 256) (min 0 (v - 120))"
  have v: "f64_is (f64_of_int v) (of_int v)" using assms by (intro f64_is_of_int) simp
  have "f64_is (f64_sub (f64_of_int v) (FFin False 120)) (of_int v - 120)"
    using f64_is_sub [OF v f64_is_nats(2)] f64_rep_dyadic [of "v - 120" 0] assms by simp
  then have "f64_is (f64_mul (f64_sub (f64_of_int v) (FFin False 120)) (FFin False (1 / 2))) (of_int (v - 120) / 2)"
    using f64_is_mul [OF _ f64_is_half, of _ "of_int (v - 120)"] f64_rep_dyadic [of "v - 120" 1] assms by simp
  then have "f64_is (f64_clamp (FFin True 128) (FFin False 0)
      (f64_mul (f64_sub (f64_of_int v) (FFin False 120)) (FFin False (1 / 2))))
      (max (- 128) (min 0 (of_int (v - 120) / 2)))"
    by (intro f64_is_clamp f64_is_nats) simp_all
  moreover have "max (- 128) (min 0 (of_int (v - 120) / 2)) = (of_int ?k / 2 :: rat)"
    by (simp add: max_def min_def)
  ultimately have db: "f64_is (f64_clamp (FFin True 128) (FFin False 0)
      (f64_mul (f64_sub (f64_of_int v) (FFin False 120)) (FFin False (1 / 2)))) (of_int ?k / 2)"
    by (simp only:)
  obtain h where h: "hp_scale_int p = 2 * h" "0 \<le> h" "h \<le> 128"
    by (rule that [of "if p = XlrDockMk2 then 2 else 128"]) (simp_all add: hp_scale_int_def)
  have "\<bar>h * ?k\<bar> = h * \<bar>?k\<bar>" using h by (simp add: abs_mult)
  also have "\<dots> \<le> 128 * 256" using h by (intro mult_mono) auto
  finally have hk: "\<bar>h * ?k\<bar> \<le> 2 ^ 53" by simp
  have prod: "of_int ?k / 2 * of_int (hp_scale_int p) = (of_int (h * ?k) :: rat)"
    unfolding h(1) by simp
  have "f64_is (f64_mul (f64_clamp (FFin True 128) (FFin False 0)
      (f64_mul (f64_sub (f64_of_int v) (FFin False 120)) (FFin False (1 / 2)))) (f64_of_u16 (hp_scale (profile p))))
      (of_int ?k / 2 * of_int (hp_scale_int p))"
    by (rule f64_is_mul [OF db f64_is_hp_scale], unfold prod)
      (use f64_rep_dyadic [OF hk, of 0] in simp)
  then have "alsa_hp_to_fw p v = word_of_int (max (- 32768) (min 32767 (h * ?k)))"
    unfolding prod by (simp only: alsa_hp_to_fw_def Let_def f64_to_i16_def f64_to_int_is)
  moreover have lo: "- 32768 \<le> h * ?k" using \<open>\<bar>h * ?k\<bar> = h * \<bar>?k\<bar>\<close> \<open>h * \<bar>?k\<bar> \<le> 128 * 256\<close> by linarith
  moreover have hi: "h * ?k \<le> 0" using h(2) by (intro mult_nonneg_nonpos) auto
  ultimately have "alsa_hp_to_fw p v = word_of_int (h * ?k)" by simp
  then have "sint (alsa_hp_to_fw p v) = h * ?k"
    using sint_word_of_int_i16 [OF lo] hi by (simp del: of_int_mult)
  then show ?thesis using h(1) by simp
qed

lemma fw_hp_to_alsa_exact:
  assumes "2 * sint raw = hp_scale_int p * k"
  shows "fw_hp_to_alsa p raw = max 0 (min 120 (k + 120))"
proof -
  let ?db = "f64_div (f64_of_i16 raw) (f64_of_u16 (hp_scale (profile p)))"
  have r: "\<bar>sint raw\<bar> \<le> 32768" using sint_ge [of raw] sint_lt [of raw] by simp
  have pos: "hp_scale_int p = 4 \<or> hp_scale_int p = 256" by (simp add: hp_scale_int_def)
  then have k: "\<bar>k\<bar> \<le> 32768" using assms r by (auto simp: abs_if split: if_splits)
  have q: "of_int (sint raw) / of_int (hp_scale_int p) = (of_int k / 2 :: rat)"
  proof -
    have "2 * of_int (sint raw) = (of_int (hp_scale_int p) * of_int k :: rat)"
      using arg_cong [OF assms, of "of_int :: int \<Rightarrow> rat"] by simp
    then show ?thesis using pos by (auto simp: field_simps)
  qed
  have "f64_is (f64_of_i16 raw) (of_int (sint raw))"
    unfolding f64_of_i16_def using r by (intro f64_is_of_int) simp
  then have "f64_is ?db (of_int (sint raw) / of_int (hp_scale_int p))"
  proof (rule f64_is_div [OF _ f64_is_hp_scale])
    show "of_int (hp_scale_int p) \<noteq> (0 :: rat)" using pos by auto
    show "f64_rep \<bar>of_int (sint raw) / of_int (hp_scale_int p)\<bar>"
      unfolding q using f64_rep_dyadic [of k 1] k by simp
  qed
  then have "f64_is ?db (of_int k / 2)" unfolding q .
  then have "f64_is (f64_div ?db (FFin False (1 / 2))) (of_int k)"
    using f64_is_div [OF _ f64_is_half, of _ "of_int k / 2"] f64_rep_dyadic [of k 0] k by simp
  then have "f64_is (f64_add (f64_div ?db (FFin False (1 / 2))) (FFin False 120)) (of_int (k + 120))"
    using f64_is_add [OF _ f64_is_nats(2), of _ "of_int k"] f64_rep_dyadic [of "k + 120" 0] k by simp
  then have "f64_is (f64_round_ties_even (f64_add (f64_div ?db (FFin False (1 / 2))) (FFin False 120))) (of_int (k + 120))"
    by (rule f64_round_is)
  then have "f64_is (f64_clamp (FFin False 0) (FFin False 120)
      (f64_round_ties_even (f64_add (f64_div ?db (FFin False (1 / 2))) (FFin False 120))))
      (max 0 (min 120 (of_int (k + 120))))"
    by (intro f64_is_clamp f64_is_nats) simp_all
  moreover have "max 0 (min 120 (of_int (k + 120))) = (of_int (max 0 (min 120 (k + 120))) :: rat)"
    by (simp add: max_def min_def)
  ultimately show ?thesis
    by (simp only: fw_hp_to_alsa_def Let_def f64_to_i32_def f64_to_int_is) simp
qed

subsection \<open>Matching\<close>

definition capture_match :: "string \<Rightarrow> connected_identity \<Rightarrow> bool" where
  "capture_match serial d \<longleftrightarrow> ci_connected d \<and> ci_serial d \<noteq> [] \<and>
     (serial = ci_serial d \<or>
      serial = capture_serial_prefix (profile (uid_profile (ci_unit d))) @ ci_serial d)"

definition sole :: "'a list \<Rightarrow> 'a option" where
  "sole xs = (case xs of [x] \<Rightarrow> Some x | _ \<Rightarrow> None)"

lemma capture_loop_filter:
  "capture_loop serial matched ds =
     (case filter (capture_match serial) ds of
        [] \<Rightarrow> matched
      | d # rest \<Rightarrow> if matched = None \<and> rest = [] then Some (ci_unit d) else None)"
  by (induction serial matched ds rule: capture_loop.induct)
    (auto simp: capture_match_def strip_prefix_Some_iff split: list.splits if_splits)

subsection \<open>Controls\<close>

definition control_ok :: "alsa_control \<Rightarrow> bool" where
  "control_ok c \<longleftrightarrow> ctl_numid c \<noteq> 0 \<and>
     (case ctl_range c of None \<Rightarrow> True | Some r \<Rightarrow> range_min r \<le> range_max r)"

definition found_controls :: "alsa_controls \<Rightarrow> alsa_control list" where
  "found_controls r = List.map_filter id [alsa_mute r, alsa_gain r, alsa_hp_volume r]"

definition controls_ok :: "alsa_controls \<Rightarrow> bool" where
  "controls_ok r \<longleftrightarrow> list_all (pred_option control_ok) [alsa_mute r, alsa_gain r, alsa_hp_volume r]"

lemma control_range_ordered: "control_range m = Some r \<Longrightarrow> range_min r \<le> range_max r"
  by (auto simp: control_range_def split: option.splits if_splits)

lemma control_header_numid: "parse_control_header line = Some (n, name) \<Longrightarrow> n \<noteq> 0"
  by (auto simp: parse_control_header_def bind_eq_Some_conv split: option.splits if_splits)

lemma control_line_ok [inv_intros]:
  "controls_ok r \<Longrightarrow> numid \<noteq> 0 \<Longrightarrow> controls_ok (control_line r numid name metadata)"
  by (auto simp: controls_ok_def control_line_def Let_def control_ok_def
      dest: control_range_ordered split: option.splits)

lemma scan_line_ok:
  "controls_ok (fst s) \<and> pred_option (\<lambda>c. fst c \<noteq> 0) (snd s) \<Longrightarrow>
   controls_ok (fst (scan_line s line)) \<and> pred_option (\<lambda>c. fst c \<noteq> 0) (snd (scan_line s line))"
  by (auto simp: scan_line_def pred_option_def control_line_ok
      dest: control_header_numid split: prod.splits option.splits)

text \<open>The first control of a role is kept: a later line never replaces it.\<close>

lemma control_line_keeps:
  "alsa_mute r = Some c \<Longrightarrow> alsa_mute (control_line r n name md) = Some c"
  "alsa_gain r = Some c \<Longrightarrow> alsa_gain (control_line r n name md) = Some c"
  "alsa_hp_volume r = Some c \<Longrightarrow> alsa_hp_volume (control_line r n name md) = Some c"
  by (simp_all add: control_line_def Let_def)

lemma alsa_clamp_ok:
  "control_ok c \<Longrightarrow> ctl_range c = Some r \<Longrightarrow>
     \<exists>w. alsa_clamp c v = Inr w \<and> range_min r \<le> w \<and> w \<le> range_max r \<and>
       (range_min r \<le> v \<and> v \<le> range_max r \<longrightarrow> w = v)"
  by (auto simp: control_ok_def alsa_clamp_def)

lemma parse_alsa_controls_ok: "controls_ok (parse_alsa_controls contents)"
proof -
  have "controls_ok (fst (foldl scan_line (no_controls, None) ls)) \<and>
      pred_option (\<lambda>c. fst c \<noteq> 0) (snd (foldl scan_line (no_controls, None) ls))" for ls
  proof (rule foldl_inv [where P = "\<lambda>s. controls_ok (fst s) \<and> pred_option (\<lambda>c. fst c \<noteq> 0) (snd s)"])
    show "controls_ok (fst (no_controls, None)) \<and> pred_option (\<lambda>c. fst c \<noteq> 0) (snd (no_controls, None))"
      by (simp add: no_controls_def controls_ok_def)
  qed (rule scan_line_ok)
  then show ?thesis by (simp add: parse_alsa_controls_def)
qed

lemma supported_devices_order:
  "sorted (map snd (supported_devices ds)) \<and>
   filter (\<lambda>d. snd d = k) (supported_devices ds) =
     List.map_filter (\<lambda>d. if (usb_bus d, usb_address d) = k
       then map_option (\<lambda>p. (dp_id p, k)) (profile_for_usb (usb_vid d) (usb_pid d)) else None) ds"
proof
  have *: "(\<lambda>(_, bus, address). (bus, address)) = (snd :: profile_id \<times> u8 \<times> u8 \<Rightarrow> _)" by auto
  show "sorted (map snd (supported_devices ds))"
    unfolding supported_devices_def * by (rule sorted_sort_key)
  have "filter (\<lambda>d. snd d = k) (supported_devices ds) = filter (\<lambda>d. snd d = k)
     (List.map_filter (\<lambda>d. map_option (\<lambda>p. (dp_id p, usb_bus d, usb_address d))
          (profile_for_usb (usb_vid d) (usb_pid d))) ds)"
    unfolding supported_devices_def * by (rule sort_key_stable)
  also have "\<dots> = List.map_filter (\<lambda>d. if (usb_bus d, usb_address d) = k
       then map_option (\<lambda>p. (dp_id p, k)) (profile_for_usb (usb_vid d) (usb_pid d)) else None) ds"
    by (induction ds) (auto simp: map_filter_simps split: option.splits)
  finally show "filter (\<lambda>d. snd d = k) (supported_devices ds) = \<dots>" .
qed
subsection \<open>Properties\<close>

text \<open>
  The headphone volume conversions are inverse on the ALSA scale: for every profile and every
  value of the mixer, converting to the firmware register and back gives the value clamped to
  \<open>0..120\<close>; every floating-point step on the way is exact.
\<close>

theorem alsa_hp_roundtrip:
  assumes "\<bar>v\<bar> \<le> 2 ^ 31"
  shows "fw_hp_to_alsa p (alsa_hp_to_fw p v) = max 0 (min 120 v)"
  using fw_hp_to_alsa_exact [OF sint_alsa_hp_to_fw [OF assms, of p]] by simp

theorem alsa_hp_roundtrip_witness:
  "fw_hp_to_alsa Wave3 (alsa_hp_to_fw Wave3 97) = 97 \<and> fw_hp_to_alsa XlrDockMk2 (alsa_hp_to_fw XlrDockMk2 (- 5)) = 0"
  using alsa_hp_roundtrip [of 97 Wave3] alsa_hp_roundtrip [of "- 5" XlrDockMk2] by simp

text \<open>
  A capture serial names a unit only when exactly one connected device carries it, bare or
  behind the whole prefix of its model: an empty serial, an unknown one and an ambiguous one select
  nothing. The loop with its early return is the sole match of the list.
\<close>

theorem device_for_capture_sole:
  "device_for_capture serial devices =
     (if serial = [] then None else map_option ci_unit (sole (filter (capture_match serial) devices)))"
  by (auto simp: device_for_capture_def capture_loop_filter sole_def split: list.splits)

text \<open>
  Whatever \<^verbatim>\<open>amixer\<close> prints, every control the parser finds has a nonzero numid and a range
  with ordered ends or none, so that clamping a value against it gives a value of the range, or an
  \<open>Unavailable\<close> error exactly when the range is missing.
\<close>

theorem parsed_control_clamps:
  "list_all (\<lambda>c. ctl_numid c \<noteq> 0 \<and>
      (case alsa_clamp c v of
         Inl e \<Rightarrow> ctl_range c = None \<and> err_code e = Unavailable
       | Inr w \<Rightarrow> (\<exists>r. ctl_range c = Some r \<and> range_min r \<le> w \<and> w \<le> range_max r \<and>
           \<bar>w - v\<bar> = max 0 (max (range_min r - v) (v - range_max r)))))
     (found_controls (parse_alsa_controls contents))"
proof -
  have "list_all control_ok (found_controls (parse_alsa_controls contents))"
    using parse_alsa_controls_ok [of contents]
    by (auto simp: controls_ok_def found_controls_def map_filter_simps split: option.splits)
  then show ?thesis
    by (rule list.pred_mono_strong) (auto simp: control_ok_def alsa_clamp_def ok_or_def split: option.splits)
qed

end
