(* ===== verification/Routing.thy ===== *)
theory Routing
  imports Model
begin

text \<open>
  \<^verbatim>\<open>crates/openwave-core/src/routing.rs\<close>: which source owns a stream, the names of the nodes the
  program creates, the property strings it hands to PipeWire and PulseAudio, the choice of the
  monitored output, and the mute rules of groups. Unicode case folding and the JSON printer are
  the parameters \<open>cfold\<close> and \<open>print\<close>. \<open>set_source_muted\<close> returns the new sources beside
  the list of changes, in the order in which the code applies them.
\<close>

record stream_snapshot =
  st_identity :: node_identity
  st_node_id :: u32
  st_node_name :: string
  st_app_name :: string
  st_binary :: string
  st_sink :: "string option"
  st_pulse_index :: "u32 option"

record output_snapshot =
  os_identity :: node_identity
  os_node_id :: u32
  os_node_name :: string
  os_name :: string
  os_priority :: int
  os_is_wave :: bool
  os_properties :: jmap

subsection \<open>Claims\<close>

definition normalize_identity :: "(string \<Rightarrow> string) \<Rightarrow> string \<Rightarrow> string" where
  "normalize_identity cfold v =
     cfold (foldl (\<lambda>spaced word. (if spaced = [] then [] else spaced @ '' '') @ word) [] (split_whitespace v))"

record normalized_stream =
  ns_identity :: node_identity
  ns_identities :: "string list"

definition last_part :: "string \<Rightarrow> string" where
  "last_part s = (case rsplit_once (CHR ''/'') s of None \<Rightarrow> s | Some (_, b) \<Rightarrow> b)"

definition normalized_stream_new :: "(string \<Rightarrow> string) \<Rightarrow> stream_snapshot \<Rightarrow> normalized_stream" where
  "normalized_stream_new cfold s = \<lparr>ns_identity = st_identity s, ns_identities =
     [normalize_identity cfold (st_app_name s), normalize_identity cfold (st_node_name s),
      normalize_identity cfold (st_binary s), normalize_identity cfold (last_part (st_binary s))]\<rparr>"

record matcher =
  mt_sources :: "source_id list"
  mt_bindings :: "(string, source_id) imap"
  mt_fallback :: "source_id option"

definition bind_name :: "source_id \<Rightarrow> (string, source_id) imap \<Rightarrow> string \<Rightarrow> (string, source_id) imap" where
  "bind_name i b name = (if name = [] then b
     else case im_get b name of
         None \<Rightarrow> im_insert b name i
       | Some owner \<Rightarrow> (if i < owner then im_insert b name i else b))"

definition matcher_step :: "(string \<Rightarrow> string) \<Rightarrow> matcher \<Rightarrow> source_id \<times> source \<Rightarrow> matcher" where
  "matcher_step cfold m e = (case e of (i, s) \<Rightarrow>
     if src_kind s \<noteq> App then m
     else m\<lparr>mt_fallback := (if catch_all s \<and> (case mt_fallback m of None \<Rightarrow> True | Some c \<Rightarrow> i < c)
              then Some i else mt_fallback m),
            mt_bindings := foldl (bind_name i) (mt_bindings m) (map (normalize_identity cfold) (match_app_names s))\<rparr>)"

definition matcher_new :: "(string \<Rightarrow> string) \<Rightarrow> sources \<Rightarrow> matcher" where
  "matcher_new cfold srcs =
     (foldl (matcher_step cfold) \<lparr>mt_sources = [], mt_bindings = [], mt_fallback = None\<rparr> srcs)
       \<lparr>mt_sources := im_keys srcs\<rparr>"

definition owner :: "matcher \<Rightarrow> normalized_stream \<Rightarrow> source_id option" where
  "owner m s = (case find_map (im_get (mt_bindings m)) (ns_identities s) of
     Some i \<Rightarrow> Some i | None \<Rightarrow> mt_fallback m)"

type_synonym claims = "(source_id, node_identity list) imap"

text \<open>\<^verbatim>\<open>expect("matcher owns source")\<close> is never reached: the owner is a key, see \<open>owner_key\<close>.\<close>

definition claim_step ::
  "('s \<Rightarrow> node_identity) \<Rightarrow> ('s \<Rightarrow> source_id option) \<Rightarrow> claims \<times> node_identity list \<Rightarrow> 's
    \<Rightarrow> claims \<times> node_identity list" where
  "claim_step ident own st s = (case st of (cl, seen) \<Rightarrow>
     if ident s \<in> set seen then (cl, seen)
     else (case own s of
         None \<Rightarrow> (cl, ident s # seen)
       | Some i \<Rightarrow> (im_adjust cl i (\<lambda>v. v @ [ident s]), ident s # seen)))"

definition no_claims :: "matcher \<Rightarrow> claims" where
  "no_claims m = im_collect (map (\<lambda>i. (i, [])) (mt_sources m))"

definition claim_normalized :: "matcher \<Rightarrow> normalized_stream list \<Rightarrow> claims" where
  "claim_normalized m streams = fst (foldl (claim_step ns_identity (owner m)) (no_claims m, []) streams)"

definition claim :: "(string \<Rightarrow> string) \<Rightarrow> matcher \<Rightarrow> stream_snapshot list \<Rightarrow> claims" where
  "claim cfold m streams =
     fst (foldl (claim_step st_identity (\<lambda>s. owner m (normalized_stream_new cfold s))) (no_claims m, []) streams)"

definition claim_streams :: "(string \<Rightarrow> string) \<Rightarrow> sources \<Rightarrow> stream_snapshot list \<Rightarrow> claims" where
  "claim_streams cfold srcs streams = claim cfold (matcher_new cfold srcs) streams"

subsection \<open>Names and properties\<close>

definition source_sink_name :: "source_id \<Rightarrow> string" where
  "source_sink_name s = ''openwave_src_'' @ s"

definition mix_capture_name :: "mix_id \<Rightarrow> string" where
  "mix_capture_name m = ''openwave_capture_'' @ m"

definition cell_route_name :: "source_id \<Rightarrow> mix_id \<Rightarrow> string" where
  "cell_route_name s m = ''openwave_loop_'' @ show_nat (length s) @ ''_'' @ s @ ''_'' @ m"

definition property_key :: "string \<Rightarrow> unit res" where
  "property_key key = (if key = [] \<or>
       \<not> list_all (\<lambda>c. ascii_alphanumeric c \<or> c = CHR ''.'' \<or> c = CHR ''_'' \<or> c = CHR ''-'') key
     then Inl (error_invalid ''Invalid audio property key'') else Inr ())"

text \<open>The index of the loop is zero exactly when nothing has been written yet.\<close>

fun properties_from :: "(json \<Rightarrow> string) \<Rightarrow> nat \<Rightarrow> string \<Rightarrow> jmap \<Rightarrow> string res" where
  "properties_from print index text [] = Inr text"
| "properties_from print index text ((key, v) # es) =
     rbind (property_key key) (\<lambda>_.
       properties_from print (Suc index)
         (text @ (if index \<noteq> 0 then '' '' else []) @ key @ '' = '' @ print v) es)"

definition properties :: "(json \<Rightarrow> string) \<Rightarrow> jmap \<Rightarrow> string res" where
  "properties print values =
     rbind (properties_from print 0 ''{ '' values) (\<lambda>text. Inr (text @ '' }''))"

definition quote_char :: "char \<Rightarrow> string" where
  "quote_char c = (if c = CHR 0x5C \<or> c = CHR 0x22 then [CHR 0x5C, c] else [c])"

definition pulse_quote :: "string \<Rightarrow> string res" where
  "pulse_quote text =
     (if has_char nul text then Inl (error_invalid ''Audio properties cannot contain NUL'')
      else Inr ([CHR 0x22] @ concat (map quote_char text) @ [CHR 0x22]))"

fun pulse_from :: "(json \<Rightarrow> string) \<Rightarrow> nat \<Rightarrow> string \<Rightarrow> jmap \<Rightarrow> string res" where
  "pulse_from print index pairs [] = Inr pairs"
| "pulse_from print index pairs ((key, v) # es) =
     rbind (property_key key) (\<lambda>_.
     rbind (case v of JString text \<Rightarrow> pulse_quote text | _ \<Rightarrow> pulse_quote (print v)) (\<lambda>text.
       pulse_from print (Suc index)
         (pairs @ (if index \<noteq> 0 then '' '' else []) @ key @ ''='' @ text) es))"

definition pulse_properties :: "(json \<Rightarrow> string) \<Rightarrow> jmap \<Rightarrow> string res" where
  "pulse_properties print values = rbind (pulse_from print 0 [] values) pulse_quote"

subsection \<open>Outputs\<close>

definition eligible_output :: "output_snapshot \<Rightarrow> bool" where
  "eligible_output o' \<longleftrightarrow> os_node_name o' \<noteq> [] \<and> \<not> starts_with ''openwave_'' (os_node_name o')"

definition validate_output_choice :: "string \<Rightarrow> unit res" where
  "validate_output_choice choice =
     (if choice = [] \<or> starts_with ''openwave_'' choice \<or> has_char nul choice
      then Inl (error_invalid ''Output must be auto, none or a non-OpenWave sink name'') else Inr ())"

datatype silent_output = NotMonitored | MissingExplicit | NoEligibleOutput | AmbiguousIdentity

datatype output_decision = Monitor output_snapshot | Silent silent_output

text \<open>\<^verbatim>\<open>min_by\<close> and \<^verbatim>\<open>min_by_key\<close>: the first of the least elements.\<close>

definition first_min :: "('a \<Rightarrow> 'a \<Rightarrow> bool) \<Rightarrow> 'a list \<Rightarrow> 'a option" where
  "first_min lt xs = (case xs of [] \<Rightarrow> None
     | x # ys \<Rightarrow> Some (foldl (\<lambda>m y. if lt y m then y else m) x ys))"

definition exact_output :: "output_snapshot list \<Rightarrow> string \<Rightarrow> silent_output + output_snapshot option" where
  "exact_output outputs name =
     (case filter (\<lambda>o'. eligible_output o' \<and> os_node_name o' = name) outputs of
        [] \<Rightarrow> Inr None
      | first # rest \<Rightarrow> (if rest \<noteq> [] then Inl AmbiguousIdentity else Inr (Some first)))"

definition or_else :: "'a option \<Rightarrow> 'a option \<Rightarrow> 'a option" where
  "or_else a b = (case a of Some x \<Rightarrow> Some x | None \<Rightarrow> b)"

definition better_output :: "output_snapshot \<Rightarrow> output_snapshot \<Rightarrow> bool" where
  "better_output a b \<longleftrightarrow> os_priority b < os_priority a \<or>
     os_priority b = os_priority a \<and> os_node_name a < os_node_name b"

definition auto_output ::
  "output_snapshot list \<Rightarrow> string option \<Rightarrow> string option \<Rightarrow> output_snapshot option" where
  "auto_output outputs dflt preferred =
     or_else
       (or_else
         (Option.bind preferred (\<lambda>name. find (\<lambda>o'. eligible_output o' \<and> os_is_wave o' \<and> os_node_name o' = name) outputs))
         (first_min (\<lambda>a b. os_node_name a < os_node_name b) (filter (\<lambda>o'. eligible_output o' \<and> os_is_wave o') outputs)))
       (or_else
         (Option.bind dflt (\<lambda>name. find (\<lambda>o'. eligible_output o' \<and> os_node_name o' = name) outputs))
         (first_min better_output (filter eligible_output outputs)))"

text \<open>The arm \<^verbatim>\<open>Ok(None) => unreachable!()\<close> is excluded by \<open>auto_output_eligible\<close>.\<close>

definition resolve_output_with_wave ::
  "string \<Rightarrow> output_snapshot list \<Rightarrow> string option \<Rightarrow> string option \<Rightarrow> output_decision res" where
  "resolve_output_with_wave choice outputs dflt preferred =
     rbind (validate_output_choice choice) (\<lambda>_.
       if choice = ''none'' then Inr (Silent NotMonitored)
       else if choice \<noteq> ''auto'' then
         (case exact_output outputs choice of
            Inr (Some o') \<Rightarrow> Inr (Monitor o')
          | Inr None \<Rightarrow> Inr (Silent MissingExplicit)
          | Inl reason \<Rightarrow> Inr (Silent reason))
       else
         (case auto_output outputs dflt preferred of
            None \<Rightarrow> Inr (Silent NoEligibleOutput)
          | Some selected \<Rightarrow>
              (case exact_output outputs (os_node_name selected) of
                 Inr (Some o') \<Rightarrow> Inr (Monitor o')
               | Inl reason \<Rightarrow> Inr (Silent reason)
               | Inr None \<Rightarrow> Inr (Silent NoEligibleOutput))))"

definition resolve_output :: "string \<Rightarrow> output_snapshot list \<Rightarrow> string option \<Rightarrow> output_decision res" where
  "resolve_output choice outputs dflt = resolve_output_with_wave choice outputs dflt None"

subsection \<open>Mutes and groups\<close>

record mute_change =
  mc_source :: source_id
  mc_muted :: bool

definition close_member :: "source_id \<Rightarrow> string \<Rightarrow> source_id \<times> source \<Rightarrow> bool" where
  "close_member target grp e \<longleftrightarrow> fst e \<noteq> target \<and> src_group (snd e) = grp \<and> \<not> src_muted (snd e)"

text \<open>The loop over \<^verbatim>\<open>iter_mut()\<close>: every open member is muted in place and recorded in order.\<close>

fun silence_members :: "source_id \<Rightarrow> string \<Rightarrow> sources \<Rightarrow> sources \<times> mute_change list" where
  "silence_members target grp [] = ([], [])"
| "silence_members target grp (e # es) =
     (let (srcs, changes) = silence_members target grp es
      in if close_member target grp e
         then ((fst e, (snd e)\<lparr>src_muted := True\<rparr>) # srcs, \<lparr>mc_source = fst e, mc_muted = True\<rparr> # changes)
         else (e # srcs, changes))"

definition set_source_muted :: "sources \<Rightarrow> source_id \<Rightarrow> bool \<Rightarrow> (sources \<times> mute_change list) res" where
  "set_source_muted srcs target muted =
     rbind (ok_or (error_invalid ''Unknown source'') (im_get srcs target)) (\<lambda>s.
       let grp = src_group s;
           (srcs, changes) = (if \<not> muted \<and> grp \<noteq> [] then silence_members target grp srcs else (srcs, []))
       in case im_get srcs target of
            None \<Rightarrow> Inr (srcs, changes)
          | Some source \<Rightarrow>
              (if src_muted source \<noteq> muted
               then Inr (im_adjust srcs target (\<lambda>s. s\<lparr>src_muted := muted\<rparr>),
                         changes @ [\<lparr>mc_source = target, mc_muted = muted\<rparr>])
               else Inr (srcs, changes)))"

text \<open>A \<^verbatim>\<open>BTreeMap\<close> from grp to count, listed in ascending order of its keys.\<close>

definition source_groups :: "sources \<Rightarrow> string list" where
  "source_groups srcs =
     (let groups = filter (\<lambda>g. g \<noteq> []) (map src_group (im_values srcs))
      in filter (\<lambda>g. 2 \<le> count_list groups g) (sorted_list_of_set (set groups)))"

record group_switch =
  gs_source :: source_id
  gs_changes :: "mute_change list"

definition group_members :: "sources \<Rightarrow> string \<Rightarrow> (source_id \<times> bool) list" where
  "group_members srcs grp =
     map (\<lambda>(i, s). (i, src_muted s)) (filter (\<lambda>(_, s). src_group s = grp) srcs)"

fun position :: "('a \<Rightarrow> bool) \<Rightarrow> 'a list \<Rightarrow> nat option" where
  "position p [] = None"
| "position p (x # xs) = (if p x then Some 0 else map_option Suc (position p xs))"

definition next_member :: "(source_id \<times> bool) list \<Rightarrow> nat" where
  "next_member members = (case position (\<lambda>(_, muted). \<not> muted) members of
     None \<Rightarrow> 0 | Some index \<Rightarrow> (index + 1) mod length members)"

definition switch_group :: "sources \<Rightarrow> string \<Rightarrow> (sources \<times> group_switch option) res" where
  "switch_group srcs grp =
     (if grp = [] then Inr (srcs, None)
      else let members = group_members srcs grp in
        if length members < 2 then Inr (srcs, None)
        else let source = fst (members ! next_member members) in
          rbind (set_source_muted srcs source False) (\<lambda>(srcs, changes).
            Inr (srcs, Some \<lparr>gs_source = source, gs_changes = changes\<rparr>)))"

subsection \<open>The owner of a stream\<close>

text \<open>The least identifier of a list, and the sources that bind a name.\<close>

definition least :: "source_id list \<Rightarrow> source_id option" where
  "least ids = (if ids = [] then None else Some (Min (set ids)))"

lemma least_snoc: "least (ids @ [i]) = Some (case least ids of None \<Rightarrow> i | Some c \<Rightarrow> min i c)"
  by (simp add: least_def)

definition binders :: "(string \<Rightarrow> string) \<Rightarrow> sources \<Rightarrow> string \<Rightarrow> source_id list" where
  "binders cfold srcs name = map fst (filter (\<lambda>(i, s). src_kind s = App \<and> name \<noteq> [] \<and>
     name \<in> set (map (normalize_identity cfold) (match_app_names s))) srcs)"

definition catchers :: "sources \<Rightarrow> source_id list" where
  "catchers srcs = map fst (filter (\<lambda>(i, s). src_kind s = App \<and> catch_all s) srcs)"

definition stream_owner :: "(string \<Rightarrow> string) \<Rightarrow> sources \<Rightarrow> stream_snapshot \<Rightarrow> source_id option" where
  "stream_owner cfold srcs s =
     or_else (find_map (\<lambda>name. least (binders cfold srcs name)) (ns_identities (normalized_stream_new cfold s)))
       (least (catchers srcs))"

lemma im_get_bind_name:
  "im_get (bind_name i b name) n = (if n = name \<and> n \<noteq> []
     then Some (case im_get b n of None \<Rightarrow> i | Some c \<Rightarrow> min i c) else im_get b n)"
  by (auto simp: bind_name_def min_def split: option.splits)

lemma im_get_bind_names:
  "im_get (foldl (bind_name i) b names) n = (if n \<in> set names \<and> n \<noteq> []
     then Some (case im_get b n of None \<Rightarrow> i | Some c \<Rightarrow> min i c) else im_get b n)"
  by (induction names arbitrary: b) (auto simp: im_get_bind_name min_def split: option.splits)

lemma matcher_fold:
  "let m = foldl (matcher_step cfold) \<lparr>mt_sources = [], mt_bindings = [], mt_fallback = None\<rparr> srcs
   in (\<forall>n. im_get (mt_bindings m) n = least (binders cfold srcs n)) \<and> mt_fallback m = least (catchers srcs)"
proof (induction srcs rule: rev_induct)
  case Nil
  then show ?case by (simp add: least_def binders_def catchers_def)
next
  case (snoc e srcs)
  obtain i s where e: "e = (i, s)" by (cases e)
  have b: "binders cfold (srcs @ [e]) n = (if src_kind s = App \<and> n \<noteq> [] \<and> n \<in> set (map (normalize_identity cfold) (match_app_names s))
      then binders cfold srcs n @ [i] else binders cfold srcs n)" for n
    by (simp add: binders_def e)
  have c: "catchers (srcs @ [e]) = (if src_kind s = App \<and> catch_all s then catchers srcs @ [i] else catchers srcs)"
    by (simp add: catchers_def e)
  show ?case
    using snoc unfolding Let_def foldl_append b c
    by (auto simp: matcher_step_def e im_get_bind_names least_snoc min_def split: option.splits)
qed

lemma owner_matcher:
  "owner (matcher_new cfold srcs) (normalized_stream_new cfold s) = stream_owner cfold srcs s"
proof -
  have "im_get (mt_bindings (matcher_new cfold srcs)) = (\<lambda>n. least (binders cfold srcs n))"
    and "mt_fallback (matcher_new cfold srcs) = least (catchers srcs)"
    using matcher_fold [of cfold srcs] by (simp_all add: Let_def matcher_new_def fun_eq_iff)
  then show ?thesis by (simp add: owner_def stream_owner_def or_else_def split: option.split)
qed

lemma least_mem: "least ids = Some i \<Longrightarrow> i \<in> set ids"
  by (auto simp: least_def intro!: Min_in split: if_splits)

lemma owner_key: "stream_owner cfold srcs s = Some i \<Longrightarrow> i \<in> set (im_keys srcs)"
  by (auto simp: stream_owner_def or_else_def find_map_filter_hd im_keys_def binders_def catchers_def
      dest!: least_mem split: option.splits list.splits)

fun dedup_by :: "('s \<Rightarrow> 'i) \<Rightarrow> 'i list \<Rightarrow> 's list \<Rightarrow> 's list" where
  "dedup_by f seen [] = []"
| "dedup_by f seen (x # xs) = (if f x \<in> set seen then dedup_by f seen xs else x # dedup_by f (f x # seen) xs)"

lemma dedup_by_set: "f ` set (dedup_by f seen xs) = f ` set xs - set seen"
  by (induction f seen xs rule: dedup_by.induct) auto

lemma dedup_by_distinct: "distinct (map f (dedup_by f seen xs))"
proof (induction f seen xs rule: dedup_by.induct)
  case (2 f seen x xs)
  then show ?case using dedup_by_set [of f "f x # seen" xs] by (auto simp: Diff_eq)
qed simp

lemma claim_fold_get:
  "im_get (fst (foldl (claim_step ident own) (cl, seen) streams)) i =
     map_option (\<lambda>v. v @ map ident (filter (\<lambda>s. own s = Some i) (dedup_by ident seen streams))) (im_get cl i)"
proof (induction streams arbitrary: cl seen)
  case Nil
  then show ?case by (simp add: option.map_ident)
next
  case (Cons s streams)
  then show ?case by (cases "own s") (auto simp: claim_step_def option.map_comp comp_def option.map_ident)
qed

lemma claim_fold_keys:
  "map fst (fst (foldl (claim_step ident own) (cl, seen) streams)) = map fst cl"
proof (induction streams arbitrary: cl seen)
  case (Cons s streams)
  then show ?case by (cases "own s") (auto simp: claim_step_def)
qed simp

lemma im_collect_get: "im_get (im_collect (map (\<lambda>i. (i, v)) ks)) i = (if i \<in> set ks then Some v else None)"
proof -
  have "im_get (foldl (\<lambda>m (k, v). im_insert m k v) m (map (\<lambda>i. (i, v)) ks)) i =
      (if i \<in> set ks then Some v else im_get m i)" for m
    by (induction ks arbitrary: m) auto
  then show ?thesis by (simp add: im_collect_def)
qed

lemma claim_normalized_eq: "claim cfold m streams = claim_normalized m (map (normalized_stream_new cfold) streams)"
proof -
  have "foldl (claim_step ns_identity (owner m)) st (map (normalized_stream_new cfold) streams) =
      foldl (claim_step st_identity (\<lambda>s. owner m (normalized_stream_new cfold s))) st streams" for st
    by (induction streams arbitrary: st) (auto simp: claim_step_def normalized_stream_new_def split: prod.splits option.splits)
  then show ?thesis by (simp add: claim_def claim_normalized_def)
qed

subsection \<open>Outputs\<close>

lemma or_else_None: "or_else a b = None \<longleftrightarrow> a = None \<and> b = None"
  by (simp add: or_else_def split: option.split)

lemma first_min_in: "first_min lt xs = Some x \<Longrightarrow> x \<in> set xs"
proof -
  have "foldl (\<lambda>m y. if lt y m then y else m) a ys \<in> set (a # ys)" for a ys
    by (induction ys arbitrary: a) (auto split: if_splits)
  then show "first_min lt xs = Some x \<Longrightarrow> x \<in> set xs"
    unfolding first_min_def by (cases xs) auto
qed

lemma first_min_None: "first_min lt xs = None \<longleftrightarrow> xs = []"
  by (simp add: first_min_def split: list.splits)

lemma auto_output_eligible:
  "auto_output outputs d w = Some o' \<Longrightarrow> o' \<in> set outputs \<and> eligible_output o'"
  by (auto simp: auto_output_def or_else_def bind_eq_Some_conv find_Some_iff dest!: first_min_in split: option.splits)

lemma auto_output_None: "auto_output outputs d w = None \<longleftrightarrow> filter eligible_output outputs = []"
proof
  assume "auto_output outputs d w = None"
  then show "filter eligible_output outputs = []"
    by (simp add: auto_output_def or_else_None first_min_None)
next
  assume "filter eligible_output outputs = []"
  then show "auto_output outputs d w = None"
    using auto_output_eligible [of outputs d w] by (cases "auto_output outputs d w") (auto simp: filter_empty_conv)
qed

lemma exact_output_cases:
  "exact_output outputs name =
     (let ms = filter (\<lambda>o'. eligible_output o' \<and> os_node_name o' = name) outputs
      in if ms = [] then Inr None else if length ms = 1 then Inr (Some (hd ms)) else Inl AmbiguousIdentity)"
  by (auto simp: exact_output_def Let_def length_Suc_conv split: list.splits)

subsection \<open>Mutes\<close>

definition apply_change :: "sources \<Rightarrow> mute_change \<Rightarrow> sources" where
  "apply_change srcs c = im_adjust srcs (mc_source c) (\<lambda>s. s\<lparr>src_muted := mc_muted c\<rparr>)"

lemma silence_members_eq:
  "silence_members target grp srcs =
     (map (\<lambda>e. if close_member target grp e then (fst e, (snd e)\<lparr>src_muted := True\<rparr>) else e) srcs,
      map (\<lambda>e. \<lparr>mc_source = fst e, mc_muted = True\<rparr>) (filter (close_member target grp) srcs))"
  by (induction srcs) (auto simp: Let_def)

lemma im_adjust_absent: "k \<notin> set (map fst m) \<Longrightarrow> im_adjust m k f = m"
  by (induction m) auto

lemma apply_changes_tail:
  "fst e \<notin> set (map mc_source cs) \<Longrightarrow> foldl apply_change (e # es) cs = e # foldl apply_change es cs"
proof (induction cs arbitrary: es)
  case (Cons c cs)
  have "apply_change (e # es) c = e # apply_change es c"
    using Cons.prems by (cases e) (simp add: apply_change_def)
  then show ?case using Cons by simp
qed simp

lemma silence_members_changes:
  "im_wf srcs \<Longrightarrow> foldl apply_change srcs (snd (silence_members target grp srcs)) = fst (silence_members target grp srcs)"
proof (induction srcs)
  case Nil
  then show ?case by simp
next
  case (Cons e es)
  let ?cs = "snd (silence_members target grp es)"
  have fresh: "fst e \<notin> set (map mc_source ?cs)"
    using Cons.prems by (auto simp: silence_members_eq im_wf_def)
  have IH: "foldl apply_change es ?cs = fst (silence_members target grp es)" using Cons by (simp add: im_wf_def)
  show ?case
  proof (cases "close_member target grp e")
    case True
    have h: "apply_change (e # es) \<lparr>mc_source = fst e, mc_muted = True\<rparr> = (fst e, (snd e)\<lparr>src_muted := True\<rparr>) # es"
      by (cases e) (simp add: apply_change_def)
    show ?thesis using True IH fresh apply_changes_tail [of "(fst e, (snd e)\<lparr>src_muted := True\<rparr>)" ?cs es]
      by (simp add: h split: prod.split) (metis fst_conv snd_conv)
  next
    case False
    then show ?thesis using IH fresh apply_changes_tail [of e ?cs es]
      by (simp split: prod.split) (metis fst_conv snd_conv)
  qed
qed

lemma open_groups_Cons: "open_groups ((k, s) # m) = (if grouped_open s then [src_group s] else []) @ open_groups m"
  by (simp add: open_groups_def)

lemma open_groups_Nil: "open_groups [] = []"
  by (simp add: open_groups_def)

lemma grouped_open_group: "grouped_open s \<Longrightarrow> src_group s \<noteq> []"
  by (simp add: grouped_open_def)

lemma grouped_open_mute [simp]:
  "grouped_open (s\<lparr>src_muted := True\<rparr>) = False" "grouped_open (s\<lparr>src_muted := False\<rparr>) = (src_group s \<noteq> [])"
  by (simp_all add: grouped_open_def)

lemma open_groups_close:
  "distinct (open_groups m) \<Longrightarrow>
   distinct (open_groups (im_adjust m k (\<lambda>s. s\<lparr>src_muted := True\<rparr>))) \<and>
   set (open_groups (im_adjust m k (\<lambda>s. s\<lparr>src_muted := True\<rparr>))) \<subseteq> set (open_groups m)"
  by (induction m) (auto simp: open_groups_Cons open_groups_Nil split: if_splits dest: subsetD)

lemma source_ok_mute [simp]: "source_ok (s\<lparr>src_muted := b\<rparr>) = source_ok s"
  by (simp add: source_ok_def)

lemma sources_all_adjust:
  "list_all (\<lambda>(k, s). k = src_id s \<and> source_ok s) m \<Longrightarrow>
   list_all (\<lambda>(k, s). k = src_id s \<and> source_ok s) (im_adjust m k (\<lambda>s. s\<lparr>src_muted := b\<rparr>))"
  by (induction m) auto

lemma sources_ok_close [inv_intros]:
  "sources_ok m \<Longrightarrow> sources_ok (im_adjust m k (\<lambda>s. s\<lparr>src_muted := True\<rparr>))"
  using open_groups_close [of m k] sources_all_adjust [of m, where b = True and k = k]
  by (simp add: sources_ok_def)

lemma sources_ok_open [inv_intros]:
  assumes "sources_ok m" and "im_get m k = Some s" and "src_group s \<noteq> [] \<Longrightarrow> src_group s \<notin> set (open_groups m)"
  shows "sources_ok (im_adjust m k (\<lambda>s. s\<lparr>src_muted := False\<rparr>))"
proof -
  have "distinct (open_groups (im_adjust m k (\<lambda>s. s\<lparr>src_muted := False\<rparr>))) \<and>
      set (open_groups (im_adjust m k (\<lambda>s. s\<lparr>src_muted := False\<rparr>))) \<subseteq> insert (src_group s) (set (open_groups m))"
    if "im_get m k = Some s" "src_group s \<noteq> [] \<longrightarrow> src_group s \<notin> set (open_groups m)" "distinct (open_groups m)" for m
    using that
    apply (induction m)
     apply (auto simp: open_groups_Cons open_groups_Nil split: if_splits)
      apply (metis grouped_open_group insertE subsetD)+
    done
  then show ?thesis using assms sources_all_adjust [of m, where b = False and k = k] by (auto simp: sources_ok_def)
qed

lemma sources_ok_silences:
  "sources_ok m \<Longrightarrow> list_all mc_muted cs \<Longrightarrow> sources_ok (foldl apply_change m cs)"
  by (induction cs arbitrary: m) (auto simp: apply_change_def sources_ok_close)

lemma silence_members_get_target:
  "im_get (fst (silence_members target grp srcs)) target = im_get srcs target"
  by (induction srcs) (auto simp: Let_def close_member_def split: prod.splits)

lemma silence_members_open:
  assumes "im_wf srcs" and "im_get srcs target = Some s" and "src_muted s" and "grp \<noteq> []"
  shows "grp \<notin> set (open_groups (fst (silence_members target grp srcs)))"
proof
  assume "grp \<in> set (open_groups (fst (silence_members target grp srcs)))"
  then obtain k t where m: "(k, t) \<in> set (fst (silence_members target grp srcs))" "grouped_open t" "src_group t = grp"
    by (auto simp: open_groups_def)
  then have "(k, t) \<in> set srcs \<and> \<not> close_member target grp (k, t)"
    by (auto simp: silence_members_eq split: if_splits)
  with m have "k = target" "(target, t) \<in> set srcs" by (auto simp: close_member_def grouped_open_def)
  then have "t = s" using im_get_mem [OF assms(1)] assms(2) by fastforce
  then show False using m(2) assms(3) by (simp add: grouped_open_def)
qed

lemma set_source_muted_changes:
  assumes "im_wf srcs" and "set_source_muted srcs target muted = Inr (srcs', changes)"
  obtains s silences where "im_get srcs target = Some s" and "list_all mc_muted silences"
    and "changes = silences @ (if src_muted s \<noteq> muted then [\<lparr>mc_source = target, mc_muted = muted\<rparr>] else [])"
    and "silences = (if \<not> muted \<and> src_group s \<noteq> [] then snd (silence_members target (src_group s) srcs) else [])"
    and "srcs' = foldl apply_change srcs changes"
proof -
  obtain s where s: "im_get srcs target = Some s"
    using assms(2) by (auto simp: set_source_muted_def res_simps)
  let ?p = "if \<not> muted \<and> src_group s \<noteq> [] then silence_members target (src_group s) srcs else (srcs, [])"
  have t: "im_get (fst ?p) target = Some s" using s by (simp add: silence_members_get_target)
  have f: "foldl apply_change srcs (snd ?p) = fst ?p" using silence_members_changes [OF assms(1)] by simp
  have "changes = snd ?p @ (if src_muted s \<noteq> muted then [\<lparr>mc_source = target, mc_muted = muted\<rparr>] else []) \<and>
      srcs' = (if src_muted s \<noteq> muted then im_adjust (fst ?p) target (\<lambda>s. s\<lparr>src_muted := muted\<rparr>) else fst ?p)"
    using assms(2) s t unfolding set_source_muted_def
    by (cases ?p) (auto simp: Let_def split: if_splits)
  moreover have "list_all mc_muted (snd ?p)" by (simp add: silence_members_eq list_all_iff)
  ultimately show thesis
    using that [OF s, of "snd ?p"] f by (auto simp: apply_change_def split: if_splits)
qed

definition group_silent_but :: "sources \<Rightarrow> source_id \<Rightarrow> string \<Rightarrow> bool" where
  "group_silent_but srcs target grp \<longleftrightarrow> list_all (\<lambda>(k, s). k = target \<or> src_group s \<noteq> grp \<or> src_muted s) srcs"

lemma group_silent_adjust:
  "group_silent_but m target grp \<Longrightarrow> group_silent_but (im_adjust m target (\<lambda>s. s\<lparr>src_muted := b\<rparr>)) target grp"
  by (induction m) (auto simp: group_silent_but_def)

lemma silence_members_silent: "group_silent_but (fst (silence_members target grp srcs)) target grp"
  by (auto simp: silence_members_eq group_silent_but_def list_all_iff close_member_def)

lemma set_source_muted_safe_lemma:
  assumes ok: "sources_ok srcs" and run: "set_source_muted srcs target muted = Inr (srcs', changes)"
  shows "foldl apply_change srcs changes = srcs'"
    and "n \<le> length changes \<Longrightarrow> sources_ok (foldl apply_change srcs (take n changes))"
    and "\<exists>s. im_get srcs' target = Some s \<and> src_muted s = muted \<and> (muted \<or> src_group s = [] \<or> group_silent_but srcs' target (src_group s))"
proof -
  have wf: "im_wf srcs" using ok by (simp add: sources_ok_def)
  obtain s silences where s: "im_get srcs target = Some s" and sil: "list_all mc_muted silences"
    and ch: "changes = silences @ (if src_muted s \<noteq> muted then [\<lparr>mc_source = target, mc_muted = muted\<rparr>] else [])"
    and sd: "silences = (if \<not> muted \<and> src_group s \<noteq> [] then snd (silence_members target (src_group s) srcs) else [])"
    and fin: "srcs' = foldl apply_change srcs changes"
    using set_source_muted_changes [OF wf run] .
  show "foldl apply_change srcs changes = srcs'" using fin by simp
  let ?mid = "foldl apply_change srcs silences"
  have mid: "?mid = (if \<not> muted \<and> src_group s \<noteq> [] then fst (silence_members target (src_group s) srcs) else srcs)"
    using silence_members_changes [OF wf] by (simp add: sd)
  have mid_get: "im_get ?mid target = Some s" using s by (simp add: mid silence_members_get_target)
  have mid_ok: "sources_ok ?mid" using sources_ok_silences [OF ok sil] .
  have srcs': "srcs' = (if src_muted s \<noteq> muted then im_adjust ?mid target (\<lambda>s. s\<lparr>src_muted := muted\<rparr>) else ?mid)"
    by (simp add: fin ch apply_change_def)
  have free: "src_group s \<notin> set (open_groups ?mid)" if "src_muted s" "\<not> muted" "src_group s \<noteq> []"
    using silence_members_open [OF wf s that(1,3)] that by (simp add: mid)
  have ok': "sources_ok srcs'"
    unfolding srcs' using mid_ok sources_ok_close [OF mid_ok, of target] sources_ok_open [OF mid_ok mid_get] free
    by (cases muted) auto
  show "sources_ok (foldl apply_change srcs (take n changes))" if "n \<le> length changes"
  proof (cases "n \<le> length silences")
    case True
    then have "take n changes = take n silences" by (simp add: ch)
    moreover have "list_all mc_muted (take n silences)"
      using sil by (auto simp: list_all_iff dest: in_set_takeD)
    ultimately show ?thesis using sources_ok_silences [OF ok] by simp
  next
    case False
    then have "take n changes = changes" using that by (auto simp: ch split: if_splits)
    then show ?thesis using ok' fin by simp
  qed
  show "\<exists>s. im_get srcs' target = Some s \<and> src_muted s = muted \<and> (muted \<or> src_group s = [] \<or> group_silent_but srcs' target (src_group s))"
  proof -
    have "muted \<or> src_group s = [] \<or> group_silent_but ?mid target (src_group s)"
      using silence_members_silent [of target "src_group s" srcs] by (simp add: mid)
    then show ?thesis using mid_get group_silent_adjust [of ?mid target "src_group s"] unfolding srcs'
      by auto
  qed
qed

subsection \<open>Switching a group\<close>

lemma im_adjust_map: "im_wf m \<Longrightarrow> im_adjust m k f = map (\<lambda>(i, v). (i, if i = k then f v else v)) m"
proof (induction m)
  case Nil
  then show ?case by simp
next
  case (Cons e m)
  obtain i v where e: "e = (i, v)" by (cases e)
  have "map (\<lambda>(i, v). (i, if i = k then f v else v)) m = m" if "k \<notin> set (map fst m)"
    using that by (intro map_idI) (auto simp: rev_image_eqI)
  then show ?case using Cons e by (auto simp: im_wf_def)
qed

lemma group_members_switch:
  assumes wf: "im_wf srcs" and s: "im_get srcs source = Some s" and grp: "src_group s = grp" "grp \<noteq> []"
    and run: "set_source_muted srcs source False = Inr (srcs', changes)"
  shows "group_members srcs' grp = map (\<lambda>(i, _). (i, i \<noteq> source)) (group_members srcs grp)"
proof -
  obtain s2 silences where f: "im_get srcs source = Some s2" "srcs' = foldl apply_change srcs changes"
    "changes = silences @ (if src_muted s2 \<noteq> False then [\<lparr>mc_source = source, mc_muted = False\<rparr>] else [])"
    "silences = (if \<not> False \<and> src_group s2 \<noteq> [] then snd (silence_members source (src_group s2) srcs) else [])"
    by (rule set_source_muted_changes [OF wf run]) blast
  have "s2 = s" using f(1) s by simp
  then have "silences = snd (silence_members source grp srcs)" using f(4) grp by simp
  then have srcs': "srcs' = (if src_muted s then im_adjust (fst (silence_members source grp srcs)) source (\<lambda>s. s\<lparr>src_muted := False\<rparr>)
      else fst (silence_members source grp srcs))"
    unfolding f(2) f(3) \<open>s2 = s\<close> foldl_append
    by (simp add: silence_members_changes [OF wf] apply_change_def)
  let ?mid = "map (\<lambda>e. if close_member source grp e then (fst e, (snd e)\<lparr>src_muted := True\<rparr>) else e) srcs"
  have keys: "map fst ?mid = map fst srcs" by (simp add: comp_def if_distrib)
  have wf': "im_wf ?mid" using wf unfolding im_wf_def keys .
  have src: "(source, t) \<in> set srcs \<Longrightarrow> t = s" for t using im_get_mem [OF wf] s by fastforce
  have fin: "srcs' = map (\<lambda>e. (fst e, if fst e = source then (snd e)\<lparr>src_muted := False\<rparr>
      else if src_group (snd e) = grp then (snd e)\<lparr>src_muted := True\<rparr> else snd e)) srcs"
  proof (cases "src_muted s")
    case True
    then show ?thesis unfolding srcs' silence_members_eq fst_conv im_adjust_map [OF wf']
      by (auto simp: close_member_def comp_def)
  next
    case False
    have "src_muted_update (\<lambda>_. False) s = s" using False by simp
    then show ?thesis using False src unfolding srcs' silence_members_eq fst_conv
      by (auto simp: close_member_def)
  qed
  show ?thesis unfolding fin group_members_def filter_map map_map
    by (rule map_cong) (auto simp: comp_def case_prod_unfold split: if_splits)
qed

lemma position_None: "position p xs = None \<longleftrightarrow> (\<forall>x\<in>set xs. \<not> p x)"
  by (induction xs) auto

lemma position_Some: "position p xs = Some k \<Longrightarrow> k < length xs \<and> p (xs ! k) \<and> (\<forall>j<k. \<not> p (xs ! j))"
proof (induction xs arbitrary: k)
  case (Cons x xs)
  then show ?case by (cases k) (auto simp: nth_Cons less_Suc_eq_0_disj split: if_splits)
qed simp

lemma position_unique:
  "k < length xs \<Longrightarrow> p (xs ! k) \<Longrightarrow> (\<And>j. j < length xs \<Longrightarrow> p (xs ! j) \<Longrightarrow> j = k) \<Longrightarrow> position p xs = Some k"
proof (cases "position p xs")
  case None
  assume "k < length xs" "p (xs ! k)"
  then show ?thesis using None nth_mem [of k xs] by (auto simp: position_None)
next
  case (Some j)
  assume "\<And>j. j < length xs \<Longrightarrow> p (xs ! j) \<Longrightarrow> j = k"
  then show ?thesis using Some position_Some [OF Some] by blast
qed

lemma next_member_less: "ms \<noteq> [] \<Longrightarrow> next_member ms < length ms"
  by (auto simp: next_member_def split: option.splits)

lemma group_members_ids:
  assumes "im_wf srcs"
  shows "distinct (map fst (group_members srcs grp))"
    and "(i, b) \<in> set (group_members srcs grp) \<Longrightarrow> \<exists>s. im_get srcs i = Some s \<and> src_group s = grp \<and> src_muted s = b"
proof -
  have "map fst (group_members srcs grp) = map fst (filter (\<lambda>(_, s). src_group s = grp) srcs)"
    by (simp add: group_members_def case_prod_beta comp_def)
  then show "distinct (map fst (group_members srcs grp))"
    using assms by (simp add: im_wf_def distinct_map_filter)
  show "(i, b) \<in> set (group_members srcs grp) \<Longrightarrow> \<exists>s. im_get srcs i = Some s \<and> src_group s = grp \<and> src_muted s = b"
    using assms by (auto simp: group_members_def im_get_mem)
qed

lemma switch_group_lemma:
  assumes wf: "im_wf srcs" and run: "switch_group srcs grp = Inr (srcs', Some g)"
  defines "ms \<equiv> group_members srcs grp"
  shows "2 \<le> length ms \<and> fst (ms ! next_member ms) = gs_source g \<and>
    group_members srcs' grp = map (\<lambda>(i, _). (i, i \<noteq> gs_source g)) ms \<and>
    next_member (group_members srcs' grp) = (next_member ms + 1) mod length ms \<and>
    set_source_muted srcs (gs_source g) False = Inr (srcs', gs_changes g)"
proof -
  have grp: "grp \<noteq> []" and len: "2 \<le> length ms"
    and src: "gs_source g = fst (ms ! next_member ms)"
    and set: "set_source_muted srcs (gs_source g) False = Inr (srcs', gs_changes g)"
    using run by (auto simp: switch_group_def Let_def ms_def res_simps split: if_splits)
  have k: "next_member ms < length ms" using len by (intro next_member_less) auto
  obtain b where "ms ! next_member ms = (gs_source g, b)" using src by (cases "ms ! next_member ms") simp
  then have "(gs_source g, b) \<in> set (group_members srcs grp)" using k nth_mem [of "next_member ms" ms] by (simp add: ms_def)
  then obtain s where s: "im_get srcs (gs_source g) = Some s" "src_group s = grp"
    using group_members_ids(2) [OF wf] by blast
  have gm: "group_members srcs' grp = map (\<lambda>(i, _). (i, i \<noteq> gs_source g)) ms"
    unfolding ms_def by (rule group_members_switch [OF wf s grp set])
  have "position (\<lambda>(_, muted). \<not> muted) (group_members srcs' grp) = Some (next_member ms)"
  proof (rule position_unique)
    show "next_member ms < length (group_members srcs' grp)" using k by (simp add: gm)
    show "case group_members srcs' grp ! next_member ms of (_, muted) \<Rightarrow> \<not> muted"
      using k src by (simp add: gm case_prod_beta)
  next
    fix j assume j: "j < length (group_members srcs' grp)" "case group_members srcs' grp ! j of (_, muted) \<Rightarrow> \<not> muted"
    then have "map fst ms ! j = map fst ms ! next_member ms" using k src by (simp add: gm case_prod_beta)
    moreover have "distinct (map fst ms)" unfolding ms_def by (rule group_members_ids(1) [OF wf])
    ultimately show "j = next_member ms" using j(1) k by (simp add: gm nth_eq_iff_index_eq del: nth_map)
  qed
  then have "next_member (group_members srcs' grp) = (next_member ms + 1) mod length ms"
    by (simp add: next_member_def [of "group_members srcs' grp"]) (simp add: gm)
  then show ?thesis using len src gm set by simp
qed

subsection \<open>Reading the properties back\<close>

text \<open>The reader of one quoted layer: up to the quote that is not escaped.\<close>

fun read_quoted :: "string \<Rightarrow> (string \<times> string) option" where
  "read_quoted [] = None"
| "read_quoted (c # cs) =
     (if c = CHR 0x22 then Some ([], cs)
      else if c = CHR 0x5C then
        (case cs of [] \<Rightarrow> None | d # ds \<Rightarrow> map_option (\<lambda>(t, r). (d # t, r)) (read_quoted ds))
      else map_option (\<lambda>(t, r). (c # t, r)) (read_quoted cs))"

lemma read_quoted_shorter: "read_quoted s = Some (t, r) \<Longrightarrow> length r < length s"
  by (induction s arbitrary: t r rule: read_quoted.induct) (fastforce split: if_splits list.splits)+

lemma read_quote_chars: "read_quoted (concat (map quote_char t) @ CHR 0x22 # rest) = Some (t, rest)"
  by (induction t) (auto simp: quote_char_def)

function read_pairs :: "string \<Rightarrow> (string \<times> string) list option" where
  "read_pairs s = (case split_once (CHR ''='') s of
       None \<Rightarrow> (if s = [] then Some [] else None)
     | Some (key, r) \<Rightarrow> (case read_quoted (tl r) of
           None \<Rightarrow> None
         | Some (t, rest) \<Rightarrow> (if r = [] \<or> hd r \<noteq> CHR 0x22 then None
             else if rest = [] then Some [(key, t)]
             else if hd rest \<noteq> CHR '' '' then None
             else map_option ((#) (key, t)) (read_pairs (tl rest)))))"
  by pat_completeness auto
termination
  by (relation "measure length") (auto dest!: read_quoted_shorter split_once_sound)

declare read_pairs.simps [simp del]

definition value_text :: "(json \<Rightarrow> string) \<Rightarrow> json \<Rightarrow> string" where
  "value_text print v = (case v of JString text \<Rightarrow> text | _ \<Rightarrow> print v)"

lemma pulse_quote_Inr_iff:
  "pulse_quote t = Inr q \<longleftrightarrow> \<not> has_char nul t \<and> q = CHR 0x22 # concat (map quote_char t) @ [CHR 0x22]"
  by (auto simp: pulse_quote_def)

lemma property_key_Inr: "property_key key = Inr u \<Longrightarrow> CHR ''='' \<notin> set key"
  by (auto simp: property_key_def list_all_iff ascii_alphanumeric_def ascii_lower_def ascii_upper_def ascii_digit_def
      less_eq_char_def split: if_splits)

definition pair_text :: "(json \<Rightarrow> string) \<Rightarrow> string \<times> json \<Rightarrow> string" where
  "pair_text print e = fst e @ ''='' @ [CHR 0x22] @ concat (map quote_char (value_text print (snd e))) @ [CHR 0x22]"

fun joined :: "string list \<Rightarrow> string" where
  "joined [] = []"
| "joined [x] = x"
| "joined (x # y # xs) = x @ '' '' @ joined (y # xs)"

lemma pulse_from_Inr:
  "pulse_from print n acc es = Inr pairs \<Longrightarrow>
     pairs = acc @ (if n \<noteq> 0 \<and> es \<noteq> [] then '' '' else []) @ joined (map (pair_text print) es) \<and>
     list_all (\<lambda>e. CHR ''='' \<notin> set (fst e)) es"
proof (induction print n acc es rule: pulse_from.induct)
  case (1 print n acc)
  then show ?case by simp
next
  case (2 print n acc key v es)
  obtain tx where key: "property_key key = Inr ()" and tx: "tx = CHR 0x22 # concat (map quote_char (value_text print v)) @ [CHR 0x22]"
    and rest: "pulse_from print (Suc n) (acc @ (if n \<noteq> 0 then '' '' else []) @ key @ ''='' @ tx) es = Inr pairs"
    and q: "(case v of JString t \<Rightarrow> pulse_quote t | _ \<Rightarrow> pulse_quote (print v)) = Inr tx"
    using "2.prems" by (auto simp: rbind_Inr_iff value_text_def pulse_quote_Inr_iff split: json.splits)
  have eq: "key @ ''='' @ tx = pair_text print (key, v)" by (simp add: pair_text_def tx)
  have "pairs = (acc @ (if n \<noteq> 0 then '' '' else []) @ pair_text print (key, v)) @ (if es \<noteq> [] then '' '' else [])
        @ joined (map (pair_text print) es)
      \<and> list_all (\<lambda>e. CHR ''='' \<notin> set (fst e)) es"
    using "2.IH" [OF _ _ rest] key q unfolding eq by auto
  then show ?case using property_key_Inr [OF key]
    by (cases es) auto
qed

lemma read_pairs_joined:
  "list_all (\<lambda>e. CHR ''='' \<notin> set (fst e)) es \<Longrightarrow>
   read_pairs (joined (map (pair_text print) es)) = Some (map (\<lambda>(k, v). (k, value_text print v)) es)"
proof (induction es)
  case Nil
  then show ?case by (simp add: read_pairs.simps)
next
  case (Cons e es)
  obtain k v where e: "e = (k, v)" by (cases e)
  let ?body = "concat (map quote_char (value_text print v))"
  let ?tail = "if es = [] then [] else CHR '' '' # joined (map (pair_text print) es)"
  have s: "joined (map (pair_text print) (e # es)) = k @ CHR ''='' # CHR 0x22 # ?body @ CHR 0x22 # ?tail"
    by (cases es) (simp_all add: pair_text_def e)
  have "split_once (CHR ''='') (joined (map (pair_text print) (e # es))) = Some (k, CHR 0x22 # ?body @ CHR 0x22 # ?tail)"
    unfolding s using Cons.prems e by (intro split_once_append) simp
  then show ?case using Cons
    by (subst read_pairs.simps) (simp add: read_quote_chars e)
qed

lemma mset_im_adjust_append:
  "k \<in> set (map fst m) \<Longrightarrow> mset (concat (map snd (im_adjust m k (\<lambda>v. v @ [x])))) = add_mset x (mset (concat (map snd m)))"
proof (induction m)
  case (Cons e m)
  show ?case
  proof (cases "fst e = k")
    case True
    then show ?thesis by (cases e) simp
  next
    case False
    then have "k \<in> set (map fst m)" using Cons.prems by simp
    then show ?thesis using Cons.IH False by (cases e) simp
  qed
qed simp

lemma claim_fold_concat:
  assumes "\<And>s i. own s = Some i \<Longrightarrow> i \<in> set (map fst cl)"
  shows "mset (concat (map snd (fst (foldl (claim_step ident own) (cl, seen) streams)))) =
    mset (concat (map snd cl)) + mset (map ident (filter (\<lambda>s. own s \<noteq> None) (dedup_by ident seen streams)))"
  using assms
proof (induction streams arbitrary: cl seen)
  case Nil
  then show ?case by simp
next
  case (Cons s streams)
  show ?case
  proof (cases "ident s \<in> set seen")
    case True
    then show ?thesis using Cons by (simp add: claim_step_def)
  next
    case False
    show ?thesis
    proof (cases "own s")
      case None
      then show ?thesis using False Cons by (simp add: claim_step_def)
    next
      case (Some i)
      then have "i \<in> set (map fst cl)" using Cons.prems by simp
      then have a: "mset (concat (map snd (im_adjust cl i (\<lambda>v. v @ [ident s])))) = add_mset (ident s) (mset (concat (map snd cl)))"
        by (rule mset_im_adjust_append)
      have "mset (concat (map snd (fst (foldl (claim_step ident own) (im_adjust cl i (\<lambda>v. v @ [ident s]), ident s # seen) streams)))) =
          mset (concat (map snd (im_adjust cl i (\<lambda>v. v @ [ident s])))) +
          mset (map ident (filter (\<lambda>s. own s \<noteq> None) (dedup_by ident (ident s # seen) streams)))"
        by (rule Cons.IH) (use Cons.prems in \<open>simp only: im_keys_adjust\<close>)
      moreover have "claim_step ident own (cl, seen) s = (im_adjust cl i (\<lambda>v. v @ [ident s]), ident s # seen)"
        using False Some by (simp add: claim_step_def)
      ultimately show ?thesis using False Some by (simp add: a)
    qed
  qed
qed

lemma im_collect_nil_values: "concat (map snd (im_collect (map (\<lambda>i. (i, [])) ks))) = []"
proof -
  have "\<forall>e\<in>set (foldl (\<lambda>m (k, v). im_insert m k v) m (map (\<lambda>i. (i, [])) ks)). snd e = []"
    if "\<forall>e\<in>set m. snd e = []" for m
    using that
  proof (induction ks arbitrary: m)
    case (Cons k ks)
    have "\<forall>e\<in>set (im_insert m k []). snd e = []"
      using im_all_insert [of "\<lambda>e. snd e = []" m k "[]"] Cons.prems by (simp add: list_all_iff)
    then show ?case using Cons.IH by simp
  qed simp
  from this [of "[]"] show ?thesis by (simp add: im_collect_def)
qed

lemma im_collect_keys: "set (map fst (im_collect (map (\<lambda>i. (i, v)) ks))) = set ks"
  using im_collect_get [of v ks] by (metis (no_types, lifting) Set.set_eqI im_contains_iff im_contains_def option.distinct(1))

subsection \<open>Properties\<close>

text \<open>
  C37. Every stream has at most one owner and no stream is claimed twice: the claims list, under
  each source, the first occurrence of every stream identity whose owner it is, in the order seen;
  the owner is the least identifier among the app sources that bind the most specific of the
  stream's names, or else the least catch-all source.
\<close>

theorem claim_streams_spec:
  "im_get (claim_streams cfold srcs streams) i =
     (if i \<in> set (im_keys srcs)
      then Some (map st_identity (filter (\<lambda>s. stream_owner cfold srcs s = Some i) (dedup_by st_identity [] streams)))
      else None) \<and>
   distinct (concat (im_values (claim_streams cfold srcs streams))) \<and>
   set (concat (im_values (claim_streams cfold srcs streams))) =
     st_identity ` {s \<in> set (dedup_by st_identity [] streams). stream_owner cfold srcs s \<noteq> None}"
proof -
  let ?own = "stream_owner cfold srcs"
  have cl: "claim_streams cfold srcs streams =
      fst (foldl (claim_step st_identity ?own) (im_collect (map (\<lambda>i. (i, [])) (im_keys srcs)), []) streams)"
    by (simp add: claim_streams_def claim_def owner_matcher no_claims_def) (simp add: matcher_new_def)
  have keys: "?own s = Some i \<Longrightarrow> i \<in> set (map fst (im_collect (map (\<lambda>i. (i, [])) (im_keys srcs))))" for s i
    using owner_key [of cfold srcs s i] im_collect_keys by metis
  have "im_get (claim_streams cfold srcs streams) i =
     (if i \<in> set (im_keys srcs)
      then Some (map st_identity (filter (\<lambda>s. ?own s = Some i) (dedup_by st_identity [] streams)))
      else None)"
    unfolding cl claim_fold_get im_collect_get by simp
  moreover have m: "mset (concat (im_values (claim_streams cfold srcs streams))) =
      mset (map st_identity (filter (\<lambda>s. ?own s \<noteq> None) (dedup_by st_identity [] streams)))"
    using claim_fold_concat [OF keys, where ident = st_identity and seen = "[]" and streams = streams]
    by (simp add: cl im_values_def im_collect_nil_values del: not_None_eq)
  moreover have "distinct (map st_identity (filter (\<lambda>s. ?own s \<noteq> None) (dedup_by st_identity [] streams)))"
    using dedup_by_distinct [of st_identity "[]" streams] by (simp add: distinct_map_filter)
  ultimately show ?thesis
    using mset_eq_imp_distinct_iff [OF m] mset_eq_setD [OF m] by auto
qed

text \<open>
  The monitored output is never one of the program's own sinks and is never ambiguous: a
  decision to monitor names an eligible output that is the only eligible one of its name and, for
  an explicit choice, exactly the chosen one; an explicit choice that is missing stays silent
  instead of falling back; every silent decision and every refusal has the reason it gives.
\<close>

theorem resolve_output_safe:
  "case resolve_output_with_wave choice outputs dflt wave of
     Inl e \<Rightarrow> err_code e = Invalid \<and> (choice = [] \<or> starts_with ''openwave_'' choice \<or> has_char nul choice)
   | Inr (Monitor o') \<Rightarrow>
       filter (\<lambda>p. eligible_output p \<and> os_node_name p = os_node_name o') outputs = [o'] \<and>
       \<not> starts_with ''openwave_'' (os_node_name o') \<and> choice \<noteq> ''none'' \<and>
       os_node_name o' = (if choice = ''auto'' then os_node_name (the (auto_output outputs dflt wave)) else choice)
   | Inr (Silent NotMonitored) \<Rightarrow> choice = ''none''
   | Inr (Silent MissingExplicit) \<Rightarrow> choice \<noteq> ''auto'' \<and>
       filter (\<lambda>p. eligible_output p \<and> os_node_name p = choice) outputs = []
   | Inr (Silent NoEligibleOutput) \<Rightarrow> choice = ''auto'' \<and> filter eligible_output outputs = []
   | Inr (Silent AmbiguousIdentity) \<Rightarrow>
       (\<exists>name. 2 \<le> length (filter (\<lambda>p. eligible_output p \<and> os_node_name p = name) outputs))"
proof -
  have ex: "exact_output outputs name = Inr (Some o') \<Longrightarrow>
      filter (\<lambda>p. eligible_output p \<and> os_node_name p = os_node_name o') outputs = [o'] \<and>
      os_node_name o' = name \<and> \<not> starts_with ''openwave_'' (os_node_name o')" for name o'
  proof -
    assume "exact_output outputs name = Inr (Some o')"
    then have f: "filter (\<lambda>p. eligible_output p \<and> os_node_name p = name) outputs = [o']"
      by (auto simp: exact_output_def split: list.splits if_splits)
    then have "o' \<in> set (filter (\<lambda>p. eligible_output p \<and> os_node_name p = name) outputs)" by simp
    then have "os_node_name o' = name" "eligible_output o'" by auto
    then show ?thesis using f by (simp add: eligible_output_def)
  qed
  have amb: "exact_output outputs name = Inl r \<Longrightarrow> r = AmbiguousIdentity \<and>
      2 \<le> length (filter (\<lambda>p. eligible_output p \<and> os_node_name p = name) outputs)" for name r
    by (auto simp: exact_output_def neq_Nil_conv split: list.splits if_splits)
  have none: "exact_output outputs name = Inr None \<longleftrightarrow>
      filter (\<lambda>p. eligible_output p \<and> os_node_name p = name) outputs = []" for name
    by (auto simp: exact_output_def split: list.splits)
  have sel: "auto_output outputs dflt wave = Some o' \<Longrightarrow> exact_output outputs (os_node_name o') \<noteq> Inr None" for o'
    using auto_output_eligible [of outputs dflt wave o'] by (auto simp: none filter_empty_conv)
  let ?bad = "choice = [] \<or> starts_with ''openwave_'' choice \<or> has_char nul choice"
  let ?r = "resolve_output_with_wave choice outputs dflt wave"
  consider (bad) "?bad" | (none) "\<not> ?bad" "choice = ''none''"
    | (explicit) "\<not> ?bad" "choice \<noteq> ''none''" "choice \<noteq> ''auto''"
    | (auto) "\<not> ?bad" "choice = ''auto''" by blast
  then show ?thesis
  proof cases
    case bad
    then have "\<exists>e. ?r = Inl e \<and> err_code e = Invalid"
      by (auto simp: resolve_output_with_wave_def validate_output_choice_def)
    then show ?thesis using bad by auto
  next
    case none
    then show ?thesis by (simp add: resolve_output_with_wave_def validate_output_choice_def)
  next
    case explicit
    then have r: "?r = (case exact_output outputs choice of
        Inr (Some o') \<Rightarrow> Inr (Monitor o') | Inr None \<Rightarrow> Inr (Silent MissingExplicit) | Inl reason \<Rightarrow> Inr (Silent reason))"
      by (simp add: resolve_output_with_wave_def validate_output_choice_def)
    show ?thesis
    proof (cases "exact_output outputs choice")
      case (Inl reason)
      then show ?thesis using amb [OF Inl] r by auto
    next
      case (Inr m)
      then show ?thesis using ex [of choice] none [of choice] r explicit by (cases m) auto
    qed
  next
    case auto
    then have r: "?r = (case auto_output outputs dflt wave of None \<Rightarrow> Inr (Silent NoEligibleOutput)
        | Some selected \<Rightarrow> (case exact_output outputs (os_node_name selected) of
              Inr (Some o') \<Rightarrow> Inr (Monitor o') | Inl reason \<Rightarrow> Inr (Silent reason)
            | Inr None \<Rightarrow> Inr (Silent NoEligibleOutput)))"
      by (simp add: resolve_output_with_wave_def validate_output_choice_def)
    show ?thesis
    proof (cases "auto_output outputs dflt wave")
      case None
      then show ?thesis using r auto auto_output_None [of outputs dflt wave] by simp
    next
      case (Some sl)
      show ?thesis
      proof (cases "exact_output outputs (os_node_name sl)")
        case (Inl reason)
        then show ?thesis using amb [OF Inl] r Some by auto
      next
        case (Inr m)
        then show ?thesis using ex [of "os_node_name sl"] sel [OF Some] r Some auto by (cases m) auto
      qed
    qed
  qed
qed

text \<open>
  C29. Muting is safe at every moment: a change of one source, executed change by change in the
  order returned, silences before openings, never has two open members of a group at any point; it
  ends with the target as requested and, after opening it, with the rest of its group silent; the
  list of changes is exactly the difference.
\<close>

theorem set_source_muted_safe:
  assumes "sources_ok srcs" and "set_source_muted srcs target muted = Inr (srcs', changes)"
  shows "foldl apply_change srcs changes = srcs' \<and>
    list_all (\<lambda>n. sources_ok (foldl apply_change srcs (take n changes))) [0..<Suc (length changes)] \<and>
    (case im_get srcs' target of None \<Rightarrow> False
     | Some s \<Rightarrow> src_muted s = muted \<and> (muted \<or> src_group s = [] \<or> group_silent_but srcs' target (src_group s)))"
proof -
  note safe = set_source_muted_safe_lemma [OF assms]
  have "sources_ok (foldl apply_change srcs (take n changes))" if "n \<in> set [0..<Suc (length changes)]" for n
    using safe(2) [of n] that by (auto simp: less_Suc_eq_le)
  then have "list_all (\<lambda>n. sources_ok (foldl apply_change srcs (take n changes))) [0..<Suc (length changes)]"
    unfolding list_all_iff by blast
  then show ?thesis using safe(1,3) by (auto split: option.splits)
qed

theorem set_source_muted_safe_witness:
  "\<exists>srcs' changes. set_source_muted sample_sources ''game'' False = Inr (srcs', changes) \<and>
     map mc_source changes = [''mic'', ''game''] \<and> sources_ok srcs'"
proof -
  have run: "set_source_muted sample_sources ''game'' False =
      Inr ([(''mic'', sample_source ''mic'' True), (''game'', sample_source ''game'' False)],
        [\<lparr>mc_source = ''mic'', mc_muted = True\<rparr>, \<lparr>mc_source = ''game'', mc_muted = False\<rparr>])"
    by (simp add: set_source_muted_def sample_sources_def sample_source_def source_new_def close_member_def Let_def)
  have "sources_ok [(''mic'', sample_source ''mic'' True), (''game'', sample_source ''game'' False)]"
    using set_source_muted_safe [OF sample_sources_ok run] by auto
  with run show ?thesis by simp
qed

text \<open>
  Switching a group opens exactly one member, the one after the member that was open (or the
  first when none was), in the cyclic order of the sources; so repeated switches visit every member
  in turn.
\<close>

theorem switch_group_cycles:
  assumes "im_wf srcs" and "switch_group srcs grp = Inr (srcs', Some g)"
  shows "fst (group_members srcs grp ! next_member (group_members srcs grp)) = gs_source g \<and>
    group_members srcs' grp = map (\<lambda>(i, _). (i, i \<noteq> gs_source g)) (group_members srcs grp) \<and>
    next_member (group_members srcs' grp) = (next_member (group_members srcs grp) + 1) mod length (group_members srcs grp)"
  using switch_group_lemma [OF assms] by blast

theorem switch_group_cycles_witness:
  "\<exists>srcs' g. switch_group sample_sources ''voice'' = Inr (srcs', Some g) \<and> gs_source g = ''game'' \<and>
     group_members srcs' ''voice'' = [(''mic'', True), (''game'', False)]"
proof -
  have ms: "group_members sample_sources ''voice'' = [(''mic'', False), (''game'', True)]"
    by (simp add: group_members_def sample_sources_def sample_source_def)
  have "\<exists>srcs' changes. set_source_muted sample_sources ''game'' False = Inr (srcs', changes)"
    by (simp add: set_source_muted_def sample_sources_def sample_source_def source_new_def close_member_def Let_def)
  then obtain srcs' changes where smm: "set_source_muted sample_sources ''game'' False = Inr (srcs', changes)" by blast
  then have run: "switch_group sample_sources ''voice'' =
      Inr (srcs', Some \<lparr>gs_source = ''game'', gs_changes = changes\<rparr>)"
    by (simp add: switch_group_def ms next_member_def Let_def)
  have "im_wf sample_sources" by (simp add: sample_sources_def im_wf_def)
  from switch_group_cycles [OF this run] run show ?thesis by (simp add: ms next_member_def)
qed

text \<open>
  No property value can break out of its quotes: what \<^verbatim>\<open>pulse_properties\<close> prints, read back
  through the module-argument layer and then the property-list layer, is exactly the given keys with
  their values; only an invalid key or a NUL is refused.
\<close>

theorem pulse_properties_roundtrip:
  "case pulse_properties print values of
     Inl e \<Rightarrow> err_code e = Invalid
   | Inr q \<Rightarrow> (\<exists>pairs. q = CHR 0x22 # tl q \<and> read_quoted (tl q) = Some (pairs, []) \<and>
       read_pairs pairs = Some (map (\<lambda>(k, v). (k, value_text print v)) values))"
proof (cases "pulse_properties print values")
  case (Inl e)
  have "pulse_from print n acc es = Inl e \<Longrightarrow> err_code e = Invalid" for n acc es
    by (induction print n acc es rule: pulse_from.induct)
      (auto simp: rbind_Inl_iff property_key_def pulse_quote_def split: json.splits if_splits)
  then show ?thesis using Inl by (auto simp: pulse_properties_def rbind_Inl_iff pulse_quote_def split: if_splits)
next
  case (Inr q)
  then obtain pairs where p: "pulse_from print 0 [] values = Inr pairs"
    and q: "q = CHR 0x22 # concat (map quote_char pairs) @ [CHR 0x22]"
    by (auto simp: pulse_properties_def rbind_Inr_iff pulse_quote_Inr_iff)
  have "read_pairs pairs = Some (map (\<lambda>(k, v). (k, value_text print v)) values)"
    using pulse_from_Inr [OF p] read_pairs_joined [of "values" "print"] by simp
  then show ?thesis using Inr q read_quote_chars [of pairs "[]"] by auto
qed

text \<open>
  Route names are injective: the length prefix keeps the names of two cells apart even where
  identifiers contain underscores.
\<close>

theorem cell_route_name_inj:
  "cell_route_name s m = cell_route_name t n \<longleftrightarrow> s = t \<and> m = n"
proof
  assume eq: "cell_route_name s m = cell_route_name t n"
  have nu: "CHR ''_'' \<notin> set (show_nat k)" for k
    using show_nat_digits [of k] by (auto simp: list_all_iff ascii_digit_def less_eq_char_def)
  have 1: "split_once (CHR ''_'') (show_nat (length s) @ CHR ''_'' # s @ ''_'' @ m) = Some (show_nat (length s), s @ ''_'' @ m)"
    and 2: "split_once (CHR ''_'') (show_nat (length t) @ CHR ''_'' # t @ ''_'' @ n) = Some (show_nat (length t), t @ ''_'' @ n)"
    using nu by (simp_all add: split_once_append)
  have 3: "show_nat (length s) @ CHR ''_'' # s @ ''_'' @ m = show_nat (length t) @ CHR ''_'' # t @ ''_'' @ n"
    using eq by (simp add: cell_route_name_def)
  have "Some (show_nat (length s), s @ ''_'' @ m) = Some (show_nat (length t), t @ ''_'' @ n)"
    using 1 2 unfolding 3 by (rule trans [OF sym])
  then have "show_nat (length s) = show_nat (length t)" "s @ ''_'' @ m = t @ ''_'' @ n" by simp_all
  then show "s = t \<and> m = n" using show_nat_inj by simp
qed simp

end
