(* ===== verification/Calibration.thy ===== *)
theory Calibration
  imports Fx_Graph
begin

text \<open>
  \<^verbatim>\<open>crates/openwave-core/src/calibration.rs\<close>: measuring a recording, and proposing a gate, a
  compressor and a tone from the measurements. The functions \<^verbatim>\<open>exp\<close> and \<^verbatim>\<open>log10\<close> of the
  platform's mathematical library are parameters; all other arithmetic is that of doubles. The
  running sums of the code are wide enough for any recording and are kept as integers.
\<close>

definition RATE :: u32 where "RATE = 48000"
definition WINDOW_FRAMES :: nat where "WINDOW_FRAMES = 800"
definition MIN_WINDOWS :: nat where "MIN_WINDOWS = 30"
definition FLOOR_SECONDS :: u32 where "FLOOR_SECONDS = 3"
definition SPEECH_SECONDS :: u32 where "SPEECH_SECONDS = 5"
definition GRACE_SECONDS :: u32 where "GRACE_SECONDS = 3"

record metrics =
  me_peaks_db :: "f64 list"
  me_balance :: f64
  me_sub_db :: f64
  me_voice_low_db :: f64
  me_tilt_db :: f64

record measured_levels =
  ml_floor_db :: f64
  ml_quiet_voice_db :: f64
  ml_loud_voice_db :: f64

record dynamics_proposal =
  dy_gate :: bool
  dy_gate_thresh :: f64
  dy_comp :: bool
  dy_comp_thresh :: f64
  dy_comp_ratio :: f64

record analysis =
  an_measured :: measured_levels
  an_fx :: dynamics_proposal

record tone_proposal =
  to_lowcut :: u16
  to_eq_high :: f64
  to_mono :: "bool option"

text \<open>A decimal literal of the code: the nearest double.\<close>

abbreviation lit :: "rat \<Rightarrow> f64" where "lit q \<equiv> f64_of_rat q"

subsection \<open>Accepting a proposal\<close>

definition proposed_settings :: "analysis \<Rightarrow> fx_settings \<Rightarrow> tone_proposal option \<Rightarrow> fx_settings res" where
  "proposed_settings a existing tone =
     (let n = existing\<lparr>fx_gate := dy_gate (an_fx a), fx_gate_thresh := dy_gate_thresh (an_fx a),
            fx_comp := dy_comp (an_fx a), fx_comp_thresh := dy_comp_thresh (an_fx a),
            fx_comp_ratio := dy_comp_ratio (an_fx a)\<rparr>;
          n = (case tone of None \<Rightarrow> n
            | Some t \<Rightarrow>
                (let n = n\<lparr>fx_lowcut := to_lowcut t, fx_eq_high := to_eq_high t\<rparr>
                 in case to_mono t of None \<Rightarrow> n | Some m \<Rightarrow> n\<lparr>fx_mono := m\<rparr>))
      in fx_validated n)"

definition clipping :: operation_error where
  "clipping = error_invalid ''The microphone is clipping; lower its hardware gain and try again.''"

subsection \<open>Measuring\<close>

definition chunks_exact :: "nat \<Rightarrow> 'a list \<Rightarrow> 'a list list" where
  "chunks_exact n xs = map (\<lambda>i. take n (drop (i * n) xs)) [0..<length xs div n]"

text \<open>\<^verbatim>\<open>i16::from_le_bytes\<close>\<close>

definition sample_of :: "u8 list \<Rightarrow> int" where
  "sample_of bytes = sint (word_of_int (uint (bytes ! 0) + 256 * uint (bytes ! 1)) :: i16)"

record measuring =
  mg_energies :: "int list"
  mg_clipped :: nat
  mg_window_peak :: int
  mg_peaks_db :: "f64 list"

definition sample_step :: "measuring \<Rightarrow> nat \<times> int \<Rightarrow> measuring" where
  "sample_step st e = (case e of (channel, sample) \<Rightarrow>
     st\<lparr>mg_clipped := mg_clipped st + (if 32760 \<le> \<bar>sample\<bar> then 1 else 0),
        mg_energies := (mg_energies st)[channel := mg_energies st ! channel + sample * sample],
        mg_window_peak := max (mg_window_peak st) \<bar>sample\<bar>\<rparr>)"

definition peak_db :: "(f64 \<Rightarrow> f64) \<Rightarrow> int \<Rightarrow> f64" where
  "peak_db log10 peak = f64_mul (FFin False 20)
     (log10 (f64_max (f64_div (f64_of_int peak) (FFin False 32768)) (lit (1 / 10000000))))"

definition frame_step :: "(f64 \<Rightarrow> f64) \<Rightarrow> measuring \<Rightarrow> nat \<times> int list \<Rightarrow> measuring" where
  "frame_step log10 st e = (case e of (index, samples) \<Rightarrow>
     let st = foldl sample_step st (zip [0..<length samples] samples)
     in if (index + 1) mod WINDOW_FRAMES = 0
        then st\<lparr>mg_peaks_db := mg_peaks_db st @ [peak_db log10 (mg_window_peak st)], mg_window_peak := 0\<rparr>
        else st)"

text \<open>The three one-pole filters and their energies: one coefficient, filter and accumulator each.\<close>

definition filter_step :: "f64 \<Rightarrow> f64 \<times> f64 \<times> f64 \<Rightarrow> f64 \<times> f64 \<times> f64" where
  "filter_step sample e = (case e of (a, filt, acc) \<Rightarrow>
     let filt = f64_add (f64_mul (f64_sub (FFin False 1) a) sample) (f64_mul a filt)
     in (a, filt, f64_add acc (f64_mul filt filt)))"

text \<open>\<^verbatim>\<open>std::f64::consts::PI\<close>\<close>

definition f64_pi :: f64 where "f64_pi = FFin False (884279719003555 / 281474976710656)"

definition coefficient :: "(f64 \<Rightarrow> f64) \<Rightarrow> int \<Rightarrow> f64" where
  "coefficient fexp cutoff =
     fexp (f64_div (f64_mul (f64_mul (FFin True 2) f64_pi) (f64_of_int cutoff)) (f64_of_int (uint RATE)))"

definition tone_energies :: "(f64 \<Rightarrow> f64) \<Rightarrow> int list \<Rightarrow> f64 list" where
  "tone_energies fexp samples =
     map (\<lambda>(a, filt, acc). f64_div acc (f64_of_int (int (length samples))))
       (foldl (\<lambda>st sample. map (filter_step (f64_of_int sample)) st)
          (map (\<lambda>c. (coefficient fexp c, FFin False 0, FFin False 0)) [90, 180, 2000]) samples)"

definition energy_db :: "(f64 \<Rightarrow> f64) \<Rightarrow> f64 \<Rightarrow> f64 \<Rightarrow> f64" where
  "energy_db log10 whole energy = f64_mul (FFin False 10)
     (log10 (f64_div (f64_max energy (lit (1 / 1000000000))) (f64_max whole (lit (1 / 1000000000)))))"

definition metrics_from_raw :: "(f64 \<Rightarrow> f64) \<Rightarrow> (f64 \<Rightarrow> f64) \<Rightarrow> u8 list \<Rightarrow> u32 \<Rightarrow> metrics res" where
  "metrics_from_raw fexp log10 raw channels =
     rbind (capture_channels (Some channels)) (\<lambda>n.
       let nc = unat n; frame_bytes = nc * 2; frames = length raw div frame_bytes;
           samples = map (\<lambda>frame. map sample_of (chunks_exact 2 frame)) (chunks_exact frame_bytes raw);
           st = foldl (frame_step log10) \<lparr>mg_energies = [0, 0], mg_clipped = 0, mg_window_peak = 0, mg_peaks_db = []\<rparr>
             (zip [0..<frames] samples);
           energies = map (\<lambda>e. f64_div (f64_of_int e) (f64_of_int (int frames))) (mg_energies st);
           tone_channel = (if nc = 2 \<and> f64_gt (energies ! 1) (energies ! 0) then 1 else 0 :: nat);
           energy_all = energies ! tone_channel;
           tones = tone_energies fexp (map (\<lambda>frame. frame ! tone_channel) samples)
       in if length raw mod frame_bytes \<noteq> 0
          then Inl (error_invalid ''malformed audio: expected complete signed-16 PCM frames'')
          else if frames < WINDOW_FRAMES * MIN_WINDOWS
          then Inl (error_invalid ''not enough audio was measured; record at least half a second'')
          else if f64_ge (f64_of_int (int (mg_clipped st)))
              (f64_max (FFin False 3) (f64_mul (f64_of_int (int (frames * nc))) (lit (1 / 1000))))
          then Inl clipping
          else Inr \<lparr>me_peaks_db = mg_peaks_db st,
            me_balance = (if f64_eq energy_all (FFin False 0) \<or> nc = 1 then FFin False 1
              else f64_div (f64_min (energies ! 0) (energies ! 1)) energy_all),
            me_sub_db = energy_db log10 energy_all (tones ! 0),
            me_voice_low_db = energy_db log10 energy_all (f64_sub (tones ! 1) (tones ! 0)),
            me_tilt_db = energy_db log10 energy_all (f64_sub energy_all (tones ! 2))\<rparr>)"

subsection \<open>The tone\<close>

definition check_tone :: "unit \<Rightarrow> metrics \<Rightarrow> unit res" where
  "check_tone u m =
     (if list_ex (\<lambda>v. \<not> f64_finite v) [me_balance m, me_sub_db m, me_voice_low_db m, me_tilt_db m]
      then Inl (error_invalid ''malformed tone measurements'')
      else if \<not> f64_within (FFin False 0) (FFin False 1) (me_balance m)
      then Inl (error_invalid ''malformed channel balance'')
      else Inr ())"

definition analyze_tone :: "metrics \<Rightarrow> metrics \<Rightarrow> tone_proposal res" where
  "analyze_tone flo speech =
     rbind (res_foldM check_tone () [flo, speech]) (\<lambda>_.
       let deep_voice = f64_gt (me_voice_low_db speech) (FFin True 12);
           rumbly_floor = f64_gt (me_sub_db flo) (FFin True 6)
       in Inr \<lparr>to_lowcut = (if deep_voice \<or> \<not> rumbly_floor then 80 else 120),
            to_eq_high = f64_clamp (FFin True 4) (FFin False 4)
              (f64_round_ties_even (f64_mul (f64_sub (FFin True 15) (me_tilt_db speech)) (FFin False (1 / 2)))),
            to_mono = (if f64_lt (me_balance speech) (lit (1 / 20)) then Some True else None)\<rparr>)"

subsection \<open>The levels\<close>

definition percentile :: "f64 list \<Rightarrow> nat \<Rightarrow> f64" where
  "percentile ordered pct = ordered ! min (length ordered * pct div 100) (length ordered - 1)"

text \<open>
  The double is \<open>significand * 2 ^ exponent\<close>, as its bits say. The callers' values are smaller than
  \<open>2 ^ 52\<close>, so the exponent is negative.
\<close>

definition round_tenth :: "f64 \<Rightarrow> f64" where
  "round_tenth v = (if f64_eq v (FFin False 0) then v else
     (let m = \<bar>f64_val v\<bar>; exponent = rat_log2 m - 52;
          significand = nat \<lfloor>m / 2 powi exponent\<rfloor>; numerator = significand * 10
      in if exponent < - 127 then f64_copysign (FFin False 0) v
         else
           (let divisor = 2 ^ nat (- exponent) :: nat;
                integer = numerator div divisor; remainder = numerator mod divisor;
                rounded = integer + (if divisor div 2 < remainder \<or> remainder = divisor div 2 \<and> integer mod 2 = 1
                  then 1 else 0)
            in f64_copysign (f64_div (f64_of_int (int rounded)) (FFin False 10)) v)))"

text \<open>\<^verbatim>\<open>sort_unstable_by(f64::total_cmp)\<close>: elements that compare equal are the same.\<close>

fun f64_insort :: "f64 \<Rightarrow> f64 list \<Rightarrow> f64 list" where
  "f64_insort x [] = [x]"
| "f64_insort x (y # ys) = (if f64_total_le x y then x # y # ys else y # f64_insort x ys)"

definition f64_sort :: "f64 list \<Rightarrow> f64 list" where
  "f64_sort xs = foldr f64_insort xs []"

definition check_peaks :: "unit \<Rightarrow> f64 list \<Rightarrow> unit res" where
  "check_peaks u peaks =
     (if length peaks < MIN_WINDOWS
      then Inl (error_invalid ''not enough audio was measured; repeat both recording phases'')
      else if list_ex (\<lambda>p. \<not> f64_finite p \<or> \<not> f64_within (FFin True 140) (FFin False 0) p) peaks
      then Inl (error_invalid ''malformed audio level measurements'')
      else Inr ())"

definition voiced_peaks :: "f64 \<Rightarrow> f64 list \<Rightarrow> f64 list" where
  "voiced_peaks flo speech = filter (\<lambda>p. f64_gt p (f64_add flo (FFin False 10))) speech"

definition gate_threshold :: "f64 \<Rightarrow> f64 \<Rightarrow> f64" where
  "gate_threshold flo quiet = f64_clamp (FFin True 70) (FFin True 20)
     (f64_min (f64_add flo (FFin False 8)) (f64_sub quiet (FFin False 6)))"

text \<open>The end of \<^verbatim>\<open>analyze\<close>, once the three levels are known.\<close>

definition propose :: "f64 \<Rightarrow> f64 \<Rightarrow> f64 \<Rightarrow> analysis res" where
  "propose flo quiet loud =
     (if f64_lt loud (FFin True 45) \<or> f64_lt quiet (FFin True 58)
      then Inl (error_invalid ''Speech is too quiet; move closer or increase hardware gain, then try again.'')
      else if f64_lt (f64_sub quiet flo) (FFin False 18)
      then Inl (error_invalid ''Speech is too close to the noise floor; reduce room noise or move closer.'')
      else rbind (fx_validated (fx_default\<lparr>fx_gate := True, fx_gate_thresh := round_tenth (gate_threshold flo quiet),
             fx_comp := True, fx_comp_thresh := round_tenth (f64_sub loud (FFin False 6)),
             fx_comp_ratio := FFin False 3\<rparr>)) (\<lambda>s.
           Inr \<lparr>an_measured = \<lparr>ml_floor_db = round_tenth flo, ml_quiet_voice_db = round_tenth quiet,
                  ml_loud_voice_db = round_tenth loud\<rparr>,
                an_fx = \<lparr>dy_gate = fx_gate s, dy_gate_thresh = fx_gate_thresh s, dy_comp = fx_comp s,
                  dy_comp_thresh = fx_comp_thresh s, dy_comp_ratio = fx_comp_ratio s\<rparr>\<rparr>))"

definition analyze :: "f64 list \<Rightarrow> f64 list \<Rightarrow> analysis res" where
  "analyze floor_peaks speech_peaks =
     rbind (res_foldM check_peaks () [floor_peaks, speech_peaks]) (\<lambda>_.
       if list_ex (\<lambda>p. f64_ge p (lit (- 1 / 10))) (floor_peaks @ speech_peaks) then Inl clipping
       else
         (let flo = percentile (f64_sort floor_peaks) 50 in
          if f64_gt flo (FFin True 25)
          then Inl (error_invalid ''The noise floor is too high; reduce room noise or hardware gain and try again.'')
          else
            (let voiced = voiced_peaks flo speech_peaks in
             if f64_lt (f64_of_int (int (length voiced)))
                 (f64_max (f64_of_int (int MIN_WINDOWS)) (f64_mul (f64_of_int (int (length speech_peaks))) (lit (1 / 10))))
             then Inl (error_invalid ''Speech was not clearly above the noise floor; speak longer and closer to the microphone.'')
             else propose flo (percentile (f64_sort voiced) 10) (percentile (f64_sort voiced) 90))))"

subsection \<open>Rounding to tenths\<close>

lemma half_even_div:
  fixes n D :: nat
  assumes "even D" "0 < D"
  shows "int (n div D + (if D div 2 < n mod D \<or> n mod D = D div 2 \<and> n div D mod 2 = 1 then 1 else 0)) =
    round_half_even (of_nat n / of_nat D)"
proof -
  have fl: "\<lfloor>of_nat n / of_nat D :: rat\<rfloor> = int (n div D)" by (rule floor_divide_of_nat_eq)
  have n: "(of_nat n :: rat) = of_nat (n div D) * of_nat D + of_nat (n mod D)"
    by (metis of_nat_add of_nat_mult div_mult_mod_eq)
  have r: "(of_nat n / of_nat D :: rat) - of_int (int (n div D)) = of_nat (n mod D) / of_nat D"
    using assms(2) by (subst n) (simp add: field_simps)
  obtain h where h: "D = 2 * h" "0 < h" using assms by auto
  have lt: "of_nat (n mod D) / of_nat D < (1 / 2 :: rat) \<longleftrightarrow> n mod D < h"
    "of_nat (n mod D) / of_nat D > (1 / 2 :: rat) \<longleftrightarrow> h < n mod D"
  proof -
    have D: "(of_nat D :: rat) = 2 * of_nat h" "(0 :: rat) < 2 * of_nat h" using h by simp_all
    have "of_nat (n mod D) / of_nat D < (1 / 2 :: rat) \<longleftrightarrow> (of_nat (n mod D) :: rat) < 1 / 2 * (2 * of_nat h)"
      "of_nat (n mod D) / of_nat D > (1 / 2 :: rat) \<longleftrightarrow> 1 / 2 * (2 * of_nat h) < (of_nat (n mod D) :: rat)"
      unfolding D(1) using D(2) by (rule pos_divide_less_eq, rule pos_less_divide_eq)
    moreover have "(1 / 2 * (2 * of_nat h) :: rat) = of_nat h" by simp
    ultimately show "of_nat (n mod D) / of_nat D < (1 / 2 :: rat) \<longleftrightarrow> n mod D < h"
      "of_nat (n mod D) / of_nat D > (1 / 2 :: rat) \<longleftrightarrow> h < n mod D"
      by (simp_all only: of_nat_less_iff)
  qed
  have eq: "D div 2 = h" using h(1) by simp
  consider "n mod D < h" | "n mod D = h" | "h < n mod D" by linarith
  then show ?thesis
    unfolding round_half_even_def fl Let_def r lt eq
    by cases (simp_all add: mod2_eq_if)
qed

lemma round_tenth_eq:
  assumes "f64_wf v" "f64_finite v" "\<bar>f64_val v\<bar> < 2 ^ 52"
  shows "round_tenth v = f64_copysign (f64_div (f64_of_int (round_half_even (10 * \<bar>f64_val v\<bar>))) (FFin False 10)) v"
proof -
  obtain a m where v: "v = FFin a m" and rep: "f64_rep m"
    using assms(1,2) by (auto simp: f64_finite_iff)
  then have m0: "0 \<le> m" by (simp add: f64_rep_nonneg)
  have val: "\<bar>f64_val v\<bar> = m" using m0 by (simp add: v)
  have zero: "f64_copysign (f64_div (f64_of_int 0) (FFin False 10)) v = FFin a 0"
    by (simp add: v f64_of_int_small)
  show ?thesis
  proof (cases "m = 0")
    case True
    then show ?thesis using zero by (simp add: round_tenth_def v round_half_even_def)
  next
    case False
    then have m: "0 < m" using m0 by simp
    define e where "e = rat_log2 m - 52"
    have ne: "\<not> f64_eq v (FFin False 0)" using m by (simp add: v)
    have m52: "m < 2 ^ 52" using assms(3) val by simp
    show ?thesis
    proof (cases "e < - 127")
      case True
      have "m < 2 powi (rat_log2 m + 1)" by (rule rat_log2_bounds(2) [OF m])
      also have "\<dots> \<le> 2 powi (- 75)" unfolding powi_2_le_iff using True by (simp add: e_def)
      also have "\<dots> = 1 / 2 ^ 75" by (simp add: powi_neg_nat)
      finally have "10 * m < 1 / 2" by simp
      then have "\<lfloor>10 * m\<rfloor> = 0" using m by (simp add: floor_eq_iff)
      then have "round_half_even (10 * m) = 0" using \<open>10 * m < 1 / 2\<close> by (simp add: round_half_even_def)
      moreover have "round_tenth v = f64_copysign (FFin False 0) v"
        using ne True unfolding round_tenth_def val e_def Let_def by simp
      ultimately show ?thesis using zero unfolding val by (simp add: v)
    next
      case False
      have "2 powi rat_log2 m < (2 :: rat) powi 52"
        using rat_log2_bounds(1) [OF m] m52 by (simp add: power_int_def [of _ 52])
      then have e0: "e < 0" unfolding powi_2_less_iff by (simp add: e_def)
      define D where "D = (2 :: nat) ^ nat (- e)"
      have D: "0 < D" "even D" using e0 by (simp_all add: D_def)
      have pe: "(2 :: rat) powi e = 1 / of_nat D" using e0 by (simp add: powi_neg_nat D_def)
      have "f64_exp m = e" using False by (simp add: f64_exp_def e_def)
      then have int: "m * of_nat D = of_int \<lfloor>m * of_nat D\<rfloor>"
        using rep m pe by (auto simp: f64_rep_def)
      define sg where "sg = nat \<lfloor>m / 2 powi e\<rfloor>"
      have "(0 :: rat) \<le> m * of_nat D" using m D(1) by simp
      then have "int sg = \<lfloor>m * of_nat D\<rfloor>" by (simp add: sg_def pe)
      then have "m * of_nat D = of_nat sg" using int by (metis of_int_of_nat_eq)
      then have ten: "10 * m = of_nat (sg * 10) / of_nat D" using D(1) by (simp add: field_simps)
      have "round_tenth v = f64_copysign (f64_div (f64_of_int (int (sg * 10 div D +
          (if D div 2 < sg * 10 mod D \<or> sg * 10 mod D = D div 2 \<and> sg * 10 div D mod 2 = 1 then 1 else 0)))) (FFin False 10)) v"
        using ne False unfolding round_tenth_def val e_def [symmetric] Let_def sg_def [symmetric] D_def [symmetric] by simp
      then show ?thesis unfolding half_even_div [OF D(2,1)] val ten [symmetric] .
    qed
  qed
qed

lemma round_tenth_near:
  assumes "f64_wf v" "f64_finite v" "\<bar>f64_val v\<bar> \<le> 200"
  shows "f64_finite (round_tenth v) \<and> \<bar>f64_val (round_tenth v) - f64_val v\<bar> \<le> 51 / 1000"
proof -
  obtain a m where v: "v = FFin a m" and rep: "f64_rep m"
    using assms(1,2) by (auto simp: f64_finite_iff)
  then have m0: "0 \<le> m" by (simp add: f64_rep_nonneg)
  have val: "\<bar>f64_val v\<bar> = m" using m0 by (simp add: v)
  let ?k = "round_half_even (10 * m)"
  have k: "\<bar>of_int ?k - 10 * m\<bar> \<le> 1 / 2" by (rule round_half_even_err)
  have "\<lfloor>10 * m\<rfloor> \<le> ?k" by (rule round_half_even_bounds)
  then have k0: "0 \<le> ?k" using m0 by (meson order_trans zero_le_floor mult_nonneg_nonneg zero_le_numeral)
  have "(of_int ?k :: rat) \<le> 10 * m + 1 / 2" using k by linarith
  then have kr: "(of_int ?k :: rat) \<le> 2001" using assms(3) val by linarith
  then have "?k \<le> 2001" by linarith
  then have ki: "f64_of_int ?k = FFin False (of_int ?k)" using k0 by (simp add: f64_of_int_small)
  have near: "f64_near (f64_round False (of_int ?k / 10)) (of_int ?k / 10)"
    using f64_round_near [of "of_int ?k / 10" False] k0 kr by simp
  obtain b r where r: "f64_round False (of_int ?k / 10) = FFin b r" using near by (auto simp: f64_near_def f64_finite_iff)
  have b: "b = False" using r by (auto simp: f64_round_def Let_def split: if_splits)
  have "f64_val v \<le> 200 \<and> - 200 \<le> f64_val v" using assms(3) by (simp add: abs_le_iff)
  have "round_tenth v = FFin a r"
    using round_tenth_eq [OF assms(1,2)] assms(3) unfolding val by (simp add: ki r v)
  moreover have "\<bar>r - of_int ?k / 10\<bar> \<le> 1 / 2 ^ 44" using near by (simp add: r b f64_near_def)
  then have "\<bar>r - of_int ?k / 10\<bar> \<le> 1 / 1000" by (rule order_trans) simp
  then have "\<bar>r - m\<bar> \<le> 51 / 1000" using k unfolding abs_le_iff by linarith
  ultimately show ?thesis by (auto simp: v abs_minus_commute)
qed

subsection \<open>The proposal\<close>

lemma f64_insort_set [simp]: "set (f64_insort x xs) = insert x (set xs)" "length (f64_insort x xs) = Suc (length xs)"
  by (induction xs) auto

lemma f64_sort_set [simp]: "set (f64_sort xs) = set xs" "length (f64_sort xs) = length xs"
  unfolding f64_sort_def by (induction xs) simp_all

lemma percentile_mem: "xs \<noteq> [] \<Longrightarrow> percentile (f64_sort xs) pct \<in> set xs"
proof -
  assume "xs \<noteq> []"
  then have "min (length (f64_sort xs) * pct div 100) (length (f64_sort xs) - 1) < length (f64_sort xs)"
    by (cases xs) (simp_all add: le_imp_less_Suc)
  then have "percentile (f64_sort xs) pct \<in> set (f64_sort xs)" unfolding percentile_def by (rule nth_mem)
  then show ?thesis by simp
qed

lemma check_peaks_Inr:
  "check_peaks u peaks = Inr u' \<longleftrightarrow> MIN_WINDOWS \<le> length peaks \<and>
    list_all (\<lambda>p. f64_finite p \<and> f64_within (FFin True 140) (FFin False 0) p) peaks"
  by (auto simp: check_peaks_def list_ex_iff list_all_iff)

definition level_peak :: "f64 \<Rightarrow> bool" where
  "level_peak x \<longleftrightarrow> f64_wf x \<and> f64_finite x \<and> - 140 \<le> f64_val x \<and> f64_val x \<le> 0"

lemma voiced_nonempty:
  assumes "\<not> f64_lt (f64_of_int (int (length xs))) (f64_max (f64_of_int (int MIN_WINDOWS)) y)"
  shows "xs \<noteq> []"
proof
  assume "xs = []"
  moreover have "f64_of_int 30 = FFin False 30" "f64_of_int 0 = FFin False 0" by (simp_all add: f64_of_int_small)
  ultimately have "\<not> f64_lt (FFin False 0) (f64_max (FFin False 30) y)" using assms by (simp add: MIN_WINDOWS_def)
  then show False by (cases y) (auto simp: f64_max_def split: if_splits)
qed

lemma f64_min_val: "f64_finite x \<Longrightarrow> f64_finite y \<Longrightarrow> f64_finite (f64_min x y) \<and> f64_val (f64_min x y) = min (f64_val x) (f64_val y)"
  by (auto simp: f64_min_def f64_finite_nan f64_lt_val)

lemma f64_min_wf: "f64_wf x \<Longrightarrow> f64_wf y \<Longrightarrow> f64_wf (f64_min x y)"
  by (simp add: f64_min_def)

lemma gate_threshold_between:
  assumes f: "level_peak flo" "f64_val flo \<le> - 25" and q: "level_peak quiet" "- 58 \<le> f64_val quiet"
    and gap: "f64_val flo + 179 / 10 \<le> f64_val quiet"
  shows "let g = gate_threshold flo quiet in f64_finite g \<and> f64_wf g \<and> - 70 \<le> f64_val g \<and> f64_val g \<le> - 20 \<and>
    f64_val flo + 49 / 10 \<le> f64_val g \<and> f64_val g + 59 / 10 \<le> f64_val quiet"
proof -
  let ?a = "f64_add flo (FFin False 8)" and ?b = "f64_sub quiet (FFin False 6)"
  have a: "f64_near ?a (f64_val flo + 8)"
    using f64_add_near [of flo "FFin False 8"] f by (simp add: level_peak_def abs_less_iff)
  have b: "f64_near ?b (f64_val quiet - 6)"
    using f64_sub_near [of quiet "FFin False 6"] q by (simp add: level_peak_def abs_less_iff)
  have eps: "(1 :: rat) / 2 ^ 44 \<le> 1 / 100" by simp
  have av: "f64_finite ?a" "f64_wf ?a" "\<bar>f64_val ?a - (f64_val flo + 8)\<bar> \<le> 1 / 100"
    and bv: "f64_finite ?b" "f64_wf ?b" "\<bar>f64_val ?b - (f64_val quiet - 6)\<bar> \<le> 1 / 100"
    using a b order_trans [OF _ eps] unfolding f64_near_def by blast+
  have m: "f64_finite (f64_min ?a ?b)" "f64_val (f64_min ?a ?b) = min (f64_val ?a) (f64_val ?b)" "f64_wf (f64_min ?a ?b)"
    using f64_min_val [OF av(1) bv(1)] f64_min_wf [OF av(2) bv(2)] by auto
  have g: "f64_val (gate_threshold flo quiet) = max (- 70) (min (- 20) (min (f64_val ?a) (f64_val ?b)))"
    unfolding gate_threshold_def using f64_clamp_val [of "FFin True 70" "FFin True 20" "f64_min ?a ?b"] m by simp
  have "f64_finite (gate_threshold flo quiet) \<and> f64_wf (gate_threshold flo quiet)"
    unfolding gate_threshold_def using m by (simp add: f64_clamp_finite f64_clamp_wf f64_rep_numeral)
  moreover have "f64_val flo + 49 / 10 \<le> f64_val (gate_threshold flo quiet)"
    "f64_val (gate_threshold flo quiet) + 59 / 10 \<le> f64_val quiet"
    using av(3) bv(3) gap f q unfolding g abs_le_iff by (auto simp: max_def min_def level_peak_def)
  ultimately show ?thesis unfolding Let_def g by simp
qed

lemma fx_field_clamp: "f64_finite v \<Longrightarrow> fx_field key lo hi v = Inr (f64_clamp lo hi v)"
  by (simp add: fx_field_def)

lemma propose_between:
  assumes p: "propose flo quiet loud = Inr a" and f: "level_peak flo" "f64_val flo \<le> - 25"
    and q: "level_peak quiet" and l: "level_peak loud"
  shows "dy_gate (an_fx a) \<and> dy_comp (an_fx a) \<and> dy_comp_ratio (an_fx a) = FFin False 3 \<and>
    f64_within (FFin True 70) (FFin True 20) (dy_gate_thresh (an_fx a)) \<and>
    f64_within (FFin True 30) (FFin False 0) (dy_comp_thresh (an_fx a)) \<and>
    f64_val flo + 4 < f64_val (dy_gate_thresh (an_fx a)) \<and> f64_val (dy_gate_thresh (an_fx a)) + 5 < f64_val quiet"
proof -
  have fin: "f64_finite flo" "f64_finite quiet" "f64_finite loud" using f q l by (simp_all add: level_peak_def)
  let ?g = "gate_threshold flo quiet" and ?s = "f64_sub quiet flo" and ?c = "f64_sub loud (FFin False 6)"
  have sub: "f64_near ?s (f64_val quiet - f64_val flo)"
    by (rule f64_sub_near) (use f q in \<open>auto simp: level_peak_def abs_less_iff\<close>)
  have eps: "(1 :: rat) / 2 ^ 44 \<le> 1 / 100" by simp
  have sv: "f64_finite ?s" "\<bar>f64_val ?s - (f64_val quiet - f64_val flo)\<bar> \<le> 1 / 100"
    using sub order_trans [OF _ eps] unfolding f64_near_def by blast+
  have np: "\<not> f64_lt quiet (FFin True 58)" "\<not> f64_lt ?s (FFin False 18)"
    using p by (auto simp: propose_def split: if_splits)
  then have q58: "- 58 \<le> f64_val quiet" and "18 \<le> f64_val ?s"
    using f64_lt_val [OF fin(2), of "FFin True 58"] f64_lt_val [OF sv(1), of "FFin False 18"] by auto
  then have gap: "f64_val flo + 179 / 10 \<le> f64_val quiet" using sv(2) unfolding abs_le_iff by linarith
  have g: "f64_finite ?g" "f64_wf ?g" "- 70 \<le> f64_val ?g" "f64_val ?g \<le> - 20"
    "f64_val flo + 49 / 10 \<le> f64_val ?g" "f64_val ?g + 59 / 10 \<le> f64_val quiet"
    using gate_threshold_between [OF f q q58 gap] by (simp_all add: Let_def)
  have "\<bar>f64_val ?g\<bar> \<le> 200" using g(3,4) by (simp add: abs_le_iff)
  from round_tenth_near [OF g(2,1) this] have rg: "f64_finite (round_tenth ?g)"
    "\<bar>f64_val (round_tenth ?g) - f64_val ?g\<bar> \<le> 51 / 1000" by auto
  have cn: "f64_near ?c (f64_val loud - 6)"
    using f64_sub_near [of loud "FFin False 6"] l by (simp add: level_peak_def abs_less_iff)
  then have cv: "f64_finite ?c" "f64_wf ?c" "\<bar>f64_val ?c - (f64_val loud - 6)\<bar> \<le> 1 / 100"
    using order_trans [OF _ eps] unfolding f64_near_def by blast+
  then have "\<bar>f64_val ?c\<bar> \<le> 200" using l unfolding level_peak_def abs_le_iff by linarith
  from round_tenth_near [OF cv(2,1) this] have rc: "f64_finite (round_tenth ?c)" by simp
  obtain s where s: "fx_validated (fx_default\<lparr>fx_gate := True, fx_gate_thresh := round_tenth ?g,
      fx_comp := True, fx_comp_thresh := round_tenth ?c, fx_comp_ratio := FFin False 3\<rparr>) = Inr s"
    and a: "an_fx a = \<lparr>dy_gate = fx_gate s, dy_gate_thresh = fx_gate_thresh s, dy_comp = fx_comp s,
      dy_comp_thresh = fx_comp_thresh s, dy_comp_ratio = fx_comp_ratio s\<rparr>"
    using p by (auto simp: propose_def rbind_Inr_iff split: if_splits)
  have sv': "fx_gate s" "fx_comp s" "fx_gate_thresh s = f64_clamp (FFin True 70) (FFin True 20) (round_tenth ?g)"
    "fx_comp_ratio s = FFin False 3"
    using s by (auto simp: fx_validated_def rbind_Inr_iff fx_field_clamp rg(1) rc f64_clamp_def fx_default_def split: if_splits)
  have gv: "f64_val (fx_gate_thresh s) = max (- 70) (min (- 20) (f64_val (round_tenth ?g)))"
    unfolding sv'(3) using f64_clamp_val [of "FFin True 70" "FFin True 20" "round_tenth ?g"] rg(1) by simp
  have "f64_val flo + 4 < f64_val (fx_gate_thresh s)" "f64_val (fx_gate_thresh s) + 5 < f64_val quiet"
    using rg(2) g(3-6) f(2) q58 unfolding gv abs_le_iff by (auto simp: max_def min_def)
  then show ?thesis using fx_validated_ok [OF s] sv' by (simp add: a fx_ok_def)
qed

text \<open>
  C33. The proposed gate opens for speech and stays shut for noise: of any two recordings that are accepted,
  the gate threshold lies more than 4 dB above the median of the noise peaks and more than 5 dB below
  the quiet voice (the tenth percentile of the voiced peaks), in spite of all roundings; and the
  proposal is within the bounds of the effects.
\<close>

lemma analyze_gate_between:
  assumes "list_all f64_wf floor_peaks" and "list_all f64_wf speech_peaks"
    and "analyze floor_peaks speech_peaks = Inr a"
  shows "let flo = percentile (f64_sort floor_peaks) 50; voiced = voiced_peaks flo speech_peaks;
      quiet = percentile (f64_sort voiced) 10; d = an_fx a
    in flo \<in> set floor_peaks \<and> quiet \<in> set voiced \<and>
       dy_gate d \<and> dy_comp d \<and> dy_comp_ratio d = FFin False 3 \<and>
       f64_within (FFin True 70) (FFin True 20) (dy_gate_thresh d) \<and>
       f64_within (FFin True 30) (FFin False 0) (dy_comp_thresh d) \<and>
       f64_val flo + 4 < f64_val (dy_gate_thresh d) \<and> f64_val (dy_gate_thresh d) + 5 < f64_val quiet"
proof -
  let ?flo = "percentile (f64_sort floor_peaks) 50"
  let ?voiced = "voiced_peaks ?flo speech_peaks"
  have peaks: "check_peaks () floor_peaks = Inr ()" "check_peaks () speech_peaks = Inr ()"
    and low: "\<not> f64_gt ?flo (FFin True 25)"
    and enough: "\<not> f64_lt (f64_of_int (int (length ?voiced)))
        (f64_max (f64_of_int (int MIN_WINDOWS)) (f64_mul (f64_of_int (int (length speech_peaks))) (lit (1 / 10))))"
    and p: "propose ?flo (percentile (f64_sort ?voiced) 10) (percentile (f64_sort ?voiced) 90) = Inr a"
    using assms(3) by (auto simp: analyze_def rbind_Inr_iff Let_def split: if_splits)
  have lv: "level_peak x" if "x \<in> set floor_peaks \<or> x \<in> set speech_peaks" for x
  proof -
    have x: "f64_wf x" "f64_finite x" "f64_within (FFin True 140) (FFin False 0) x"
      using that assms(1,2) peaks by (auto simp: check_peaks_Inr list_all_iff)
    then show ?thesis by (auto simp: level_peak_def f64_within_def f64_le_val)
  qed
  have "floor_peaks \<noteq> []" using peaks(1) by (auto simp: check_peaks_Inr MIN_WINDOWS_def)
  then have flo: "?flo \<in> set floor_peaks" by (rule percentile_mem)
  have ne: "?voiced \<noteq> []" using enough by (rule voiced_nonempty)
  have v: "percentile (f64_sort ?voiced) pct \<in> set ?voiced" for pct using ne by (rule percentile_mem)
  then have sp: "percentile (f64_sort ?voiced) pct \<in> set speech_peaks" for pct by (auto simp: voiced_peaks_def)
  have lf: "level_peak ?flo" using flo lv by blast
  have "f64_val ?flo \<le> - 25" using low lf by (simp add: f64_lt_val level_peak_def)
  from propose_between [OF p lf this] lv sp show ?thesis using flo v unfolding Let_def by blast
qed


lemma f64_sort_replicate: "f64_total_le x x \<Longrightarrow> f64_sort (replicate n x) = replicate n x"
proof -
  assume x: "f64_total_le x x"
  have "f64_insort x (replicate n x) = x # replicate n x" for n using x by (cases n) simp_all
  then show ?thesis unfolding f64_sort_def by (induction n) simp_all
qed

lemma percentile_replicate: "0 < n \<Longrightarrow> f64_total_le x x \<Longrightarrow> percentile (f64_sort (replicate n x)) pct = x"
  by (simp add: percentile_def f64_sort_replicate)

lemma analyze_gate_between_witness:
  "(let flo = percentile (f64_sort (replicate 30 (FFin True 60))) 50;
        voiced = voiced_peaks flo (replicate 30 (FFin True 30));
        quiet = percentile (f64_sort voiced) 10
    in flo = FFin True 60 \<and> quiet = FFin True 30) \<and>
   (case analyze (replicate 30 (FFin True 60)) (replicate 30 (FFin True 30)) of Inl e \<Rightarrow> False
    | Inr a \<Rightarrow> f64_val (dy_gate_thresh (an_fx a)) < - 35 \<and> - 56 < f64_val (dy_gate_thresh (an_fx a)))"
proof -
  let ?n = "FFin True 60" and ?v = "FFin True 30"
  have r: "percentile (f64_sort (replicate 30 ?n)) 50 = ?n" "\<And>pct. percentile (f64_sort (replicate 30 ?v)) pct = ?v"
    by (simp_all add: percentile_replicate)
  have w: "f64_add ?n (FFin False 10) = FFin True 50" "f64_of_int 30 = FFin False 30"
    by (simp_all add: Let_def f64_of_rat_rep f64_rep_numeral f64_of_int_small)
  have voiced: "voiced_peaks ?n (replicate 30 ?v) = replicate 30 ?v"
    by (simp add: voiced_peaks_def filter_replicate f64_of_rat_rep f64_rep_numeral)
  have tiny: "(1 :: rat) / 2 ^ 44 \<le> 1 / 100" by simp
  have tenth: "f64_finite (lit q)" "f64_wf (lit q)" "\<bar>f64_val (lit q) - q\<bar> \<le> 1 / 100" if "\<bar>q\<bar> < 512" for q
    using f64_of_rat_near [OF that] order_trans [OF _ tiny] unfolding f64_near_def by blast+
  obtain b m where t: "lit (1 / 10) = FFin b m" using tenth(1) [of "1 / 10"] by (auto simp: f64_finite_iff)
  have "f64_rep m" using tenth(2) [of "1 / 10"] by (simp add: t)
  then have m0: "0 \<le> m" by (rule f64_rep_nonneg)
  have "\<bar>f64_val (lit (1 / 10)) - 1 / 10\<bar> \<le> 1 / 100" by (rule tenth(3)) simp
  then have bm: "m \<le> 11 / 100" using m0 unfolding t abs_le_iff by (cases b) auto
  have "f64_near (f64_mul (FFin False 30) (lit (1 / 10))) (if b then - (30 * m) else 30 * m)"
    using f64_round_near [of "30 * m" b] m0 bm by (simp add: t)
  then have "f64_finite (f64_mul (FFin False 30) (lit (1 / 10)))" "f64_val (f64_mul (FFin False 30) (lit (1 / 10))) \<le> 30"
    using m0 bm order_trans [OF _ tiny] unfolding f64_near_def abs_le_iff by (auto split: if_splits)
  then have few: "\<not> f64_lt (FFin False 30) (f64_max (FFin False 30) (f64_mul (FFin False 30) (lit (1 / 10))))"
    by (auto simp: f64_max_def f64_lt_val)
  have sub: "f64_sub ?v ?n = FFin False 30" "f64_add ?n (FFin False 8) = FFin True 52" "f64_sub ?v (FFin False 6) = FFin True 36"
    by (simp_all add: f64_sub_def Let_def f64_of_rat_rep f64_rep_numeral)
  have gt: "gate_threshold ?n ?v = FFin True 52"
    unfolding gate_threshold_def sub by (simp add: f64_min_def f64_clamp_def)
  have "f64_finite (round_tenth x)" if "f64_wf x" "f64_finite x" "\<bar>f64_val x\<bar> \<le> 200" for x
    using round_tenth_near [OF that] by simp
  from this [of "FFin True 52"] this [of "FFin True 36"]
  have fin: "f64_finite (round_tenth (FFin True 52))" "f64_finite (round_tenth (FFin True 36))" by (simp_all add: f64_rep_numeral)
  have "propose ?n ?v ?v \<noteq> Inl e" for e
    unfolding propose_def sub gt
    using fin by (auto simp: fx_validated_def rbind_Inl_iff fx_field_def fx_default_def)
  then obtain a where a: "propose ?n ?v ?v = Inr a" by (cases "propose ?n ?v ?v") auto
  have "\<bar>f64_val (lit (- 1 / 10)) - (- 1 / 10)\<bar> \<le> 1 / 100" by (rule tenth(3)) simp
  then have "- 11 / 100 \<le> f64_val (lit (- 1 / 10))" unfolding abs_le_iff by linarith
  moreover have "f64_finite (lit (- 1 / 10))" by (rule tenth(1)) simp
  ultimately have low: "\<not> f64_ge ?n (lit (- 1 / 10))" "\<not> f64_ge ?v (lit (- 1 / 10))"
    by (simp_all add: f64_le_val)
  have peaks: "check_peaks () (replicate 30 ?n) = Inr ()" "check_peaks () (replicate 30 ?v) = Inr ()"
    by (auto simp: check_peaks_def MIN_WINDOWS_def f64_within_def list_ex_iff f64_le_val)
  have an: "analyze (replicate 30 ?n) (replicate 30 ?v) = Inr a"
    unfolding analyze_def r Let_def voiced using peaks low few a by (simp add: list_ex_iff MIN_WINDOWS_def w(2))
  have wf: "list_all f64_wf (replicate 30 ?n)" "list_all f64_wf (replicate 30 ?v)" by (simp_all add: f64_rep_numeral list_all_iff)
  from analyze_gate_between [OF wf an] show ?thesis unfolding Let_def r voiced an by simp
qed

subsection \<open>The measured peaks\<close>

definition rest_of :: "nat \<Rightarrow> 'a list \<Rightarrow> 'a list" where
  "rest_of n xs = drop (length xs div n * n) xs"

lemma chunks_rest_snoc:
  assumes "0 < n"
  shows "chunks_exact n (xs @ [x]) =
      (if (length xs + 1) mod n = 0 then chunks_exact n xs @ [rest_of n xs @ [x]] else chunks_exact n xs)"
    and "rest_of n (xs @ [x]) = (if (length xs + 1) mod n = 0 then [] else rest_of n xs @ [x])"
proof -
  let ?l = "length xs"
  have same: "take n (drop (i * n) (xs @ [x])) = take n (drop (i * n) xs)" if "i < ?l div n" for i
  proof -
    have "Suc i * n \<le> ?l div n * n" using that by (intro mult_le_mono1) simp
    also have "\<dots> \<le> ?l" by simp
    finally show ?thesis by simp
  qed
  have le: "?l div n * n \<le> ?l" by simp
  have "chunks_exact n (xs @ [x]) = chunks_exact n xs @ [rest_of n xs @ [x]] \<and> rest_of n (xs @ [x]) = []"
    if z: "(?l + 1) mod n = 0"
  proof -
    have d: "(?l + 1) div n = Suc (?l div n)" using z assms by (simp add: div_Suc)
    have e: "Suc (?l div n) * n = ?l + 1" using z d by (metis div_mult_mod_eq add_0_right)
    have "take n (drop (?l div n * n) (xs @ [x])) = rest_of n xs @ [x]"
      using e le by (simp add: rest_of_def)
    then have "chunks_exact n (xs @ [x]) = chunks_exact n xs @ [rest_of n xs @ [x]]"
      using d same by (simp add: chunks_exact_def)
    moreover have "rest_of n (xs @ [x]) = []" using d e by (simp add: rest_of_def)
    ultimately show ?thesis by blast
  qed
  moreover have "chunks_exact n (xs @ [x]) = chunks_exact n xs \<and> rest_of n (xs @ [x]) = rest_of n xs @ [x]"
    if z: "(?l + 1) mod n \<noteq> 0"
  proof -
    have d: "(?l + 1) div n = ?l div n" using z by (simp add: div_Suc)
    then show ?thesis using same le by (simp add: chunks_exact_def rest_of_def)
  qed
  ultimately show "chunks_exact n (xs @ [x]) =
      (if (length xs + 1) mod n = 0 then chunks_exact n xs @ [rest_of n xs @ [x]] else chunks_exact n xs)"
    and "rest_of n (xs @ [x]) = (if (length xs + 1) mod n = 0 then [] else rest_of n xs @ [x])"
    by auto
qed

definition peak_of :: "int list \<Rightarrow> int" where
  "peak_of samples = foldl max 0 (map abs samples)"

lemma samples_fold:
  "mg_window_peak (foldl sample_step st es) = foldl max (mg_window_peak st) (map (\<lambda>e. \<bar>snd e\<bar>) es)"
  "mg_clipped (foldl sample_step st es) = mg_clipped st + length (filter (\<lambda>e. 32760 \<le> \<bar>snd e\<bar>) es)"
  "mg_peaks_db (foldl sample_step st es) = mg_peaks_db st"
  by (induction es arbitrary: st) (auto simp: sample_step_def case_prod_unfold)

lemma zip_index_simps:
  "length is = length s \<Longrightarrow> map (\<lambda>e. \<bar>snd e\<bar>) (zip is s) = map abs s"
  "length is = length s \<Longrightarrow> length (filter (\<lambda>e. 32760 \<le> \<bar>snd e\<bar>) (zip is s)) = length (filter (\<lambda>x. 32760 \<le> \<bar>x\<bar>) s)"
  for s :: "int list"
  by (induction rule: list_induct2, simp_all)+

lemma zip_upt_snoc: "zip [0..<Suc (length xs)] (xs @ [x]) = zip [0..<length xs] xs @ [(length xs, x)]"
  by simp

lemma frames_fold:
  assumes "mg_window_peak st0 = 0" "mg_clipped st0 = 0" "mg_peaks_db st0 = []"
  shows "let st = foldl (frame_step log10) st0 (zip [0..<length fs] fs) in
    mg_window_peak st = peak_of (concat (rest_of WINDOW_FRAMES fs)) \<and>
    mg_peaks_db st = map (\<lambda>w. peak_db log10 (peak_of (concat w))) (chunks_exact WINDOW_FRAMES fs) \<and>
    mg_clipped st = length (filter (\<lambda>s. 32760 \<le> \<bar>s\<bar>) (concat fs))"
proof (induction fs rule: rev_induct)
  case Nil
  then show ?case using assms by (simp add: rest_of_def peak_of_def chunks_exact_def Let_def)
next
  case (snoc f fs)
  let ?st = "foldl (frame_step log10) st0 (zip [0..<length fs] fs)"
  let ?f = "foldl sample_step ?st (zip [0..<length f] f)"
  have w: "0 < WINDOW_FRAMES" by (simp add: WINDOW_FRAMES_def)
  have st: "foldl (frame_step log10) st0 (zip [0..<length (fs @ [f])] (fs @ [f])) = frame_step log10 ?st (length fs, f)"
    by (simp add: zip_upt_snoc)
  have peak: "mg_window_peak ?f = peak_of (concat (rest_of WINDOW_FRAMES fs @ [f]))"
    using snoc.IH by (simp add: samples_fold zip_index_simps peak_of_def Let_def)
  have rest: "mg_peaks_db ?f = mg_peaks_db ?st"
    "mg_clipped ?f = mg_clipped ?st + length (filter (\<lambda>s. 32760 \<le> \<bar>s\<bar>) f)"
    by (simp_all add: samples_fold zip_index_simps)
  note ih = snoc.IH [unfolded Let_def]
  show ?case
  proof (cases "(length fs + 1) mod WINDOW_FRAMES = 0")
    case True
    have "frame_step log10 ?st (length fs, f) =
        ?f\<lparr>mg_peaks_db := mg_peaks_db ?f @ [peak_db log10 (mg_window_peak ?f)], mg_window_peak := 0\<rparr>"
      unfolding frame_step_def case_prod_conv Let_def if_P [OF True] ..
    then show ?thesis
      unfolding st chunks_rest_snoc [OF w] Let_def if_P [OF True] peak rest
      using ih by (simp add: peak_of_def peak rest)
  next
    case False
    have "frame_step log10 ?st (length fs, f) = ?f"
      unfolding frame_step_def case_prod_conv Let_def if_not_P [OF False] ..
    then show ?thesis
      unfolding st chunks_rest_snoc [OF w] Let_def if_not_P [OF False]
      using ih by (simp add: peak rest)
  qed
qed

definition raw_samples :: "u8 list \<Rightarrow> u32 \<Rightarrow> int list list" where
  "raw_samples raw channels =
     map (\<lambda>frame. map sample_of (chunks_exact 2 frame)) (chunks_exact (unat channels * 2) raw)"

text \<open>
  What is measured of a recording is what it says: when it is accepted, it is a whole number of frames, at
  least thirty windows; the peaks are, window by window, those of the loudest sample of any channel; and
  fewer than the tolerated number of samples were clipped.
\<close>

lemma metrics_from_raw_exact:
  "case metrics_from_raw fexp log10 raw channels of
     Inl e \<Rightarrow> err_code e = Invalid
   | Inr m \<Rightarrow>
       (channels = 1 \<or> channels = 2) \<and> length raw mod (unat channels * 2) = 0 \<and>
       WINDOW_FRAMES * MIN_WINDOWS \<le> length (raw_samples raw channels) \<and>
       me_peaks_db m = map (\<lambda>w. peak_db log10 (peak_of (concat w))) (chunks_exact WINDOW_FRAMES (raw_samples raw channels)) \<and>
       \<not> f64_ge (f64_of_int (int (length (filter (\<lambda>s. 32760 \<le> \<bar>s\<bar>) (concat (raw_samples raw channels))))))
         (f64_max (FFin False 3) (f64_mul (f64_of_int (int (length (raw_samples raw channels) * unat channels))) (lit (1 / 1000))))"
proof -
  have len: "length (raw_samples raw channels) = length raw div (unat channels * 2)"
    by (simp add: raw_samples_def chunks_exact_def)
  define st where "st = foldl (frame_step log10) \<lparr>mg_energies = [0, 0], mg_clipped = 0, mg_window_peak = 0, mg_peaks_db = []\<rparr>
    (zip [0..<length (raw_samples raw channels)] (raw_samples raw channels))"
  have fold: "mg_peaks_db st = map (\<lambda>w. peak_db log10 (peak_of (concat w))) (chunks_exact WINDOW_FRAMES (raw_samples raw channels))"
    "mg_clipped st = length (filter (\<lambda>s. 32760 \<le> \<bar>s\<bar>) (concat (raw_samples raw channels)))"
    using frames_fold [of "\<lparr>mg_energies = [0, 0], mg_clipped = 0, mg_window_peak = 0, mg_peaks_db = []\<rparr>" log10
      "raw_samples raw channels"] unfolding st_def Let_def by simp_all
  show ?thesis
  proof (cases "channels = 1 \<or> channels = 2")
    case False
    then show ?thesis by (auto simp: metrics_from_raw_def capture_channels_def split: sum.splits)
  next
    case True
    then have c: "capture_channels (Some channels) = Inr channels" by (auto simp: capture_channels_def)
    show ?thesis
      unfolding metrics_from_raw_def c rbind_simps Let_def raw_samples_def [symmetric] len [symmetric] st_def [symmetric]
        fold(2)
      using True fold(1) by (simp add: clipping_def)
  qed
qed

lemma fx_validated_fields:
  assumes "fx_validated s = Inr t"
  shows "fx_gate t = fx_gate s" "fx_comp t = fx_comp s" "fx_mono t = fx_mono s" "fx_lowcut t = fx_lowcut s"
    "fx_eq_low t = f64_clamp (FFin True 12) (FFin False 12) (fx_eq_low s)"
    "fx_eq_mid t = f64_clamp (FFin True 12) (FFin False 12) (fx_eq_mid s)"
    "fx_eq_high t = f64_clamp (FFin True 12) (FFin False 12) (fx_eq_high s)"
    "fx_delay_ms t = f64_clamp (FFin False 0) (FFin False 500) (fx_delay_ms s)"
  using assms by (auto simp: fx_validated_def rbind_Inr_iff fx_field_Inr_iff split: if_splits)

text \<open>
  Accepting a calibration changes only what was proposed: the gate, the compressor, and with a tone the
  low cut, the high band and perhaps the down-mix; every other effect of the microphone stays as its
  validated self, and the result is valid.
\<close>

lemma proposed_settings_frame:
  "case (fx_validated existing, proposed_settings a existing tone) of
     (Inr e, Inr s) \<Rightarrow> fx_ok s \<and> fx_gate s = dy_gate (an_fx a) \<and> fx_comp s = dy_comp (an_fx a) \<and>
       fx_eq_low s = fx_eq_low e \<and> fx_eq_mid s = fx_eq_mid e \<and> fx_delay_ms s = fx_delay_ms e \<and>
       (case tone of
          None \<Rightarrow> (fx_lowcut s, fx_eq_high s, fx_mono s) = (fx_lowcut e, fx_eq_high e, fx_mono e)
        | Some t \<Rightarrow> fx_lowcut s = to_lowcut t \<and>
            fx_mono s = (case to_mono t of None \<Rightarrow> fx_mono e | Some m \<Rightarrow> m))
   | _ \<Rightarrow> True"
proof (cases "fx_validated existing")
  case (Inr e)
  note ex = fx_validated_fields [OF Inr]
  show ?thesis
  proof (cases "proposed_settings a existing tone")
    case P: (Inr s)
    then have "fx_ok s" unfolding proposed_settings_def Let_def by (rule fx_validated_ok)
    with P fx_validated_fields [OF P [unfolded proposed_settings_def Let_def]] Inr ex show ?thesis
      by (cases tone; cases "to_mono (the tone)") auto
  qed (simp add: Inr)
qed simp

end
