(* ===== verification/Snapshot.thy ===== *)
theory Snapshot
  imports Store Alsa Routing Calibration
begin

text \<open>
  What the controller exchanges with its clients and its back end: the snapshot of
  \<^verbatim>\<open>crates/openwave-core/src/model.rs\<close> that it publishes, and the commands, the orders and the events
  of \<^verbatim>\<open>crates/openwave-runtime/src/controller.rs\<close>. What the controller only passes through (the files
  of an installation, the readings of a meter's generation) is left out of the records.
\<close>

subsection \<open>Clients\<close>

type_synonym command_id = u64

datatype command_outcome =
    Applied u64
  | SceneFinished u64 "operation_issue list" "operation_issue list"
  | Rejected operation_error
  | CommandCancelled

datatype origin = UserOrigin | HardwareOrigin unit_id | CaptureOrigin node_identity | SceneOrigin scene_id

record source_edit =
  ed_name :: "string option"
  ed_icon_name :: "string option"
  ed_match_app_names :: "string list option"
  ed_node_name :: "string option"
  ed_catch_all :: "bool option"
  ed_group :: "string option"

record mix_edit =
  me_name :: "string option"
  me_description :: "string option"
  me_subtitle :: "string option"
  me_icon_name :: "string option"

record preferences_edit =
  pe_width :: "int option"
  pe_height :: "int option"
  pe_maximized :: "bool option"
  pe_offered :: "string list option"
  pe_tray_icon_color :: "string option"

record calibration_token =
  tk_session :: u64
  tk_source :: source_id
  tk_node_name :: string
  tk_identity :: node_identity
  tk_channels :: u32

datatype install_method = Manual | Deb | Rpm | Arch | Nix | Flatpak | FromSource | UnknownMethod

record uninstall_plan =
  up_method :: install_method
  up_canonical_identity :: string
  up_blockers :: "string list"

definition can_execute :: "uninstall_plan \<Rightarrow> bool" where
  "can_execute p \<longleftrightarrow> up_blockers p = [] \<and> up_method p \<noteq> Flatpak"

record uninstall_result =
  ur_success :: bool
  ur_removed :: "string list"
  ur_error :: "string option"
  ur_guidance :: string
  ur_app_removed :: bool

datatype edit_timing = Immediate | Debounced

datatype app_command =
    AddSource source
  | EditSource source_id source_edit
  | RemoveSource source_id
  | OrderSources "source_id list"
  | AddMix mix
  | EditMix mix_id mix_edit
  | RemoveMix mix_id
  | OrderMixes "mix_id list"
  | SetSourceLevel source_id f64
  | SetSourceMute source_id bool
  | ToggleSourceMute source_id
  | SetCell source_id mix_id f64 bool edit_timing
  | SetCellLevel source_id mix_id f64
  | ToggleCellMute source_id mix_id
  | SetOutput mix_id string
  | SetMaster mix_id f64 bool
  | SetFx source_id fx_settings edit_timing
  | ToggleFx source_id string
  | JoinGroup source_id source_id
  | LeaveGroup source_id
  | SwitchGroup string
  | SelectUnit "unit_id option"
  | SetDeviceSetting unit_id device_setting edit_timing
  | ToggleDeviceMute unit_id
  | SetGainLock bool
  | SetPreferences preferences_edit
  | SetAutostart bool bool
  | SaveScene string
  | ApplyScene scene_id
  | DeleteScene scene_id
  | StartCalibration source_id
  | RecordNoise calibration_token
  | RecordSpeech calibration_token
  | AcceptCalibration calibration_token
  | CancelCalibration calibration_token
  | Shutdown
  | PrepareUninstall string
  | ConfirmUninstall uninstall_plan bool
  | Reconnect
  | RunSetup
  | ContinueSetup

record shutdown_error =
  se_message :: string
  se_issues :: "operation_issue list"

text \<open>\<^verbatim>\<open>#[error("Shutdown incomplete: {message}")]\<close>\<close>

definition shutdown_text :: "shutdown_error \<Rightarrow> string" where
  "shutdown_text e = ''Shutdown incomplete: '' @ se_message e"

subsection \<open>The snapshot\<close>

record unit_snapshot =
  us_id :: unit_id
  us_info :: device_info
  us_state :: "device_state observation"
  us_desired_mute :: "bool option"
  us_input_peak :: f64
  us_output_peak :: f64
  us_errors :: "operation_issue list"

definition effective_mute :: "unit_snapshot \<Rightarrow> bool option" where
  "effective_mute u = or_else (us_desired_mute u) (map_option ds_muted (known (us_state u)))"

record capture_snapshot =
  cap_identity :: node_identity
  cap_node_id :: u32
  cap_node_name :: string
  cap_name :: string
  cap_muted :: "bool observation"
  cap_channels :: "u32 option"
  cap_properties :: jmap

datatype lifecycle = LifeStarting | LifeRunning | LifeFrozen | LifeDraining | LifeStopped

datatype calibration_phase =
    NoiseReady | RecordingNoise | SpeechReady | RecordingSpeech | Review fx_settings string | Expired string

record calibration_snapshot =
  cal_token :: calibration_token
  cal_phase :: calibration_phase

datatype setup_phase =
    SetupChecking | SetupRequired | SetupUsbUpdate | SetupRunning | SetupReplug string | SetupFailed string
  | SetupStarting | SetupActivationFailed string | SetupReady

record app_snapshot =
  av_revision :: u64
  av_desired :: desired_state
  av_units :: "unit_snapshot list"
  av_captures :: "capture_snapshot list"
  av_streams :: "stream_snapshot list"
  av_outputs :: "output_snapshot list"
  av_meters :: "(string, f64) imap"
  av_errors :: "operation_issue list"
  av_selected_unit :: "unit_id option"
  av_preferences :: preferences
  av_lifecycle :: lifecycle
  av_calibration :: "calibration_snapshot option"
  av_autostart :: bool
  av_hidden_autostart :: bool
  av_service_status :: string
  av_setup_required :: bool
  av_scene_outcome :: "command_outcome option"
  av_unit_intents :: "(unit_id, device_setting list) imap"
  av_default_output :: "string option"
  av_pending_cells :: "(string, level_state) imap"
  av_pending_fx :: "(source_id, fx_settings) imap"
  av_setup_phase :: setup_phase
  av_scene_pending :: bool

definition desired_default :: desired_state where
  "desired_default = \<lparr>de_sources = [], de_mixes = [], de_matrix = matrix_default, de_scenes = []\<rparr>"

definition app_snapshot_default :: app_snapshot where
  "app_snapshot_default = \<lparr>av_revision = 0, av_desired = desired_default, av_units = [], av_captures = [],
     av_streams = [], av_outputs = [], av_meters = [], av_errors = [], av_selected_unit = None,
     av_preferences = preferences_default, av_lifecycle = LifeStarting, av_calibration = None,
     av_autostart = False, av_hidden_autostart = False, av_service_status = [], av_setup_required = False,
     av_scene_outcome = None, av_unit_intents = [], av_default_output = None, av_pending_cells = [],
     av_pending_fx = [], av_setup_phase = SetupChecking, av_scene_pending = False\<rparr>"

subsection \<open>The back end\<close>

record capture_binding =
  bd_epoch :: u64
  bd_owners :: "source_id list"

record meter_target =
  tg_key :: string
  tg_node_name :: string
  tg_identity :: node_identity
  tg_raw :: bool
  tg_channels :: u32

record meter_event =
  mv_key :: string
  mv_identity :: node_identity
  mv_peak :: f64

record mixer_observation =
  mo_observation :: "unit observation"
  mo_captures :: "capture_snapshot list"
  mo_streams :: "stream_snapshot list"
  mo_outputs :: "output_snapshot list"
  mo_default_sink :: "string option"
  mo_meter_targets :: "meter_target list"
  mo_errors :: "operation_issue list"
  mo_mix_identities :: "(mix_id, node_identity) imap"
  mo_silent_sources :: "(source_id, node_identity) imap"
  mo_revision :: u64

record calibration_event =
  ce_token :: calibration_token
  ce_result :: "metrics res"

datatype backend_command =
    Routing u64 desired_state "(string, capture_binding) imap"
  | DeviceWrite u64 unit_id "device_setting list"
  | CaptureMute string capture_binding bool
  | MeterTargets "meter_target list"
  | RecordCalibration calibration_token u32
  | StopCalibration calibration_token
  | Autostart u64 bool bool
  | Setup u64 mixes
  | Rescan
  | Activate

text \<open>The outcome of a setup carries a message; \<^verbatim>\<open>needs_replug\<close> is not read.\<close>

datatype backend_event =
    UnitSeen unit_snapshot
  | UnitRetired unit_id
  | DeviceFinished u64 unit_id "device_state res"
  | Graph mixer_observation
  | Master mix_id f64 bool u64 node_identity
  | Meter meter_event
  | CalibrationDone calibration_event
  | AutostartDone "u64 option" "(bool \<times> bool) res" "operation_error option"
  | SetupDone u64 "string res"
  | Status string bool bool
  | BackendError operation_issue

end
