(* ===== verification/Controller.thy ===== *)
theory Controller
  imports Snapshot
begin

text \<open>
  The controller of \<^verbatim>\<open>crates/openwave-runtime/src/controller/state.rs\<close>: its state and the operations that
  all commands and events are made of. The record has the fields of \<^verbatim>\<open>Controller\<close>, and with them what
  the struct reaches through references: the file system behind the stores, the back end with the
  history of the calls it has received, the snapshot and the admission it shares with its handles,
  the events it has sent, the clock, and the source of fresh identifiers. The back end is an oracle:
  each answer may depend on all calls so far.

  Hash maps are lists of entries in some order, as the index maps are; a hash set is a list of its
  elements. The order in which the code visits them is not determined, and nothing that is proved
  here assumes one: the theorems hold of states with the entries in any order.
\<close>

datatype setting_field =
    FieldGain | FieldMute | FieldHeadphones | FieldPhantom | FieldLowImpedance | FieldMonitor

definition field_of_setting :: "device_setting \<Rightarrow> setting_field" where
  "field_of_setting setting = (case setting of
       GainRaw _ \<Rightarrow> FieldGain
     | Mute _ \<Rightarrow> FieldMute
     | HeadphoneDb _ \<Rightarrow> FieldHeadphones
     | PhantomPower _ \<Rightarrow> FieldPhantom
     | LowImpedance _ \<Rightarrow> FieldLowImpedance
     | MonitorMix _ \<Rightarrow> FieldMonitor)"

datatype pending_key = PendingDevice unit_id setting_field | PendingCell source_id mix_id | PendingFx source_id

record pending_edit =
  pd_due :: nat
  pd_id :: command_id
  pd_command :: app_command

record request_completion =
  rq_scene :: bool
  rq_waiting :: bool
  rq_cancelled :: bool
  rq_remaining :: "u64 list"
  rq_skipped :: "operation_issue list"
  rq_failed :: "operation_issue list"
  rq_first_error :: "operation_error option"

definition request_default :: request_completion where
  "request_default = \<lparr>rq_scene = False, rq_waiting = False, rq_cancelled = False, rq_remaining = [],
     rq_skipped = [], rq_failed = [], rq_first_error = None\<rparr>"

record device_job =
  jb_owner :: "command_id option"
  jb_unit :: unit_id
  jb_settings :: "device_setting list"
  jb_dispatched :: bool
  jb_open_sources :: "(source_id \<times> string \<times> string) list"

datatype mute_target = TargetUnit unit_id | TargetCapture node_identity | TargetAbsent | TargetMissing

record member =
  mb_source :: source_id
  mb_node :: string
  mb_binding :: capture_binding
  mb_target :: mute_target

record handover =
  ho_opening :: source_id
  ho_members :: "member list"
  ho_invalid :: bool
  ho_silence_requested :: bool

record calibration_session =
  cl_token :: calibration_token
  cl_binding :: capture_binding
  cl_recording :: "(command_id \<times> bool) option"
  cl_floor :: "metrics option"
  cl_proposal :: "(analysis \<times> tone_proposal) option"

datatype runtime_event =
    SnapshotChanged
  | CommandFinished command_id command_outcome
  | ShutdownFinished "shutdown_error option"
  | UninstallFinished uninstall_result

record admission =
  ad_next_command :: u64
  ad_accepting :: bool
  ad_stopped :: bool

datatype backend_call =
    Dispatch backend_command | BackendShutdown | PrepareRemoval uninstall_plan bool | Remove uninstall_plan bool

text \<open>
  The answers of the back end, each a function of the calls so far (the newest first, the call itself
  included), and the events it still delivers after its shutdown.
\<close>

record backend =
  be_identity :: string
  be_call :: "backend_call list \<Rightarrow> operation_error option"
  be_shutdown :: "backend_call list \<Rightarrow> shutdown_error option"
  be_remove :: "backend_call list \<Rightarrow> uninstall_result res"
  be_drain :: "backend_call list \<Rightarrow> backend_event list"

record controller =
  c_store :: config_store
  c_fs :: file_system
  c_pretty :: "json \<Rightarrow> string"
  c_backend :: backend
  c_calls :: "backend_call list"
  c_admission :: admission
  c_snapshot :: app_snapshot
  c_events :: "runtime_event list"
  c_now :: nat
  c_uuid :: "nat \<Rightarrow> string"
  c_fresh :: nat
  c_view :: app_snapshot
  c_graph_observation :: "unit observation"
  c_units :: "(unit_id, unit_snapshot) imap"
  c_retired :: "unit_id list"
  c_requests :: "(command_id, request_completion) imap"
  c_accepted :: "command_id list"
  c_pending :: "(pending_key, pending_edit) imap"
  c_jobs :: "(u64, device_job) imap"
  c_next_job :: u64
  c_bindings :: "(string, capture_binding) imap"
  c_capture_intents :: "(string, capture_binding \<times> bool) imap"
  c_capture_baselines :: "(source_id, capture_binding \<times> node_identity \<times> bool) imap"
  c_held_captures :: "(string, capture_binding \<times> command_id option) imap"
  c_handovers :: "(string, handover) imap"
  c_graph_revision :: "u64 option"
  c_silent_sources :: "(source_id, node_identity) imap"
  c_binding_epoch :: u64
  c_intents :: "(unit_id \<times> setting_field, command_id \<times> device_setting) imap"
  c_meter_targets :: "(string, node_identity) imap"
  c_meter_specs :: "meter_target list"
  c_observed_mixes :: "(mix_id, node_identity) imap"
  c_routing_revision :: u64
  c_meters :: "(string, f64) imap"
  c_errors :: "operation_issue list"
  c_errors_dirty :: bool
  c_calibration :: "calibration_session option"
  c_next_session :: u64
  c_frozen :: bool
  c_stopped :: bool
  c_dirty :: bool
  c_meters_dirty :: bool

type_synonym 'a cact = "(controller, 'a) act"

text \<open>The values of the stores.\<close>

abbreviation the_sources :: "controller \<Rightarrow> sources" where "the_sources s \<equiv> sd_value (cs_sources (c_store s))"
abbreviation the_mixes :: "controller \<Rightarrow> mixes" where "the_mixes s \<equiv> sd_value (cs_mixes (c_store s))"
abbreviation the_matrix :: "controller \<Rightarrow> matrix_state" where "the_matrix s \<equiv> sd_value (cs_matrix (c_store s))"
abbreviation the_scenes :: "controller \<Rightarrow> scene_store" where "the_scenes s \<equiv> sd_value (cs_scenes (c_store s))"

text \<open>\<^verbatim>\<open>sources[id].muted\<close>, for keys of the sources.\<close>

definition muted_of :: "sources \<Rightarrow> source_id \<Rightarrow> bool" where
  "muted_of srcs i = (case im_get srcs i of None \<Rightarrow> False | Some s \<Rightarrow> src_muted s)"

definition graph_known :: "controller \<Rightarrow> bool" where
  "graph_known s \<longleftrightarrow> known (c_graph_observation s) \<noteq> None"

subsection \<open>Effects\<close>

definition on_fs :: "(file_system, 'a) act \<Rightarrow> 'a cact" where
  "on_fs m s = (case m (c_fs s) of (x, fs) \<Rightarrow> (x, s\<lparr>c_fs := fs\<rparr>))"

definition call_backend :: "backend_call \<Rightarrow> unit res cact" where
  "call_backend c s = (let calls = c # c_calls s
     in ((case be_call (c_backend s) calls of None \<Rightarrow> Inr () | Some e \<Rightarrow> Inl e), s\<lparr>c_calls := calls\<rparr>))"

definition dispatch :: "backend_command \<Rightarrow> unit res cact" where
  "dispatch command = call_backend (Dispatch command)"

definition send_event :: "runtime_event \<Rightarrow> unit cact" where
  "send_event e = upd (\<lambda>s. s\<lparr>c_events := c_events s @ [e]\<rparr>)"

definition on_view :: "(app_snapshot \<Rightarrow> app_snapshot) \<Rightarrow> unit cact" where
  "on_view f = upd (\<lambda>s. s\<lparr>c_view := f (c_view s)\<rparr>)"

definition touch :: "unit cact" where
  "touch = upd (\<lambda>s. s\<lparr>c_dirty := True\<rparr>)"

definition on_request :: "command_id \<Rightarrow> (request_completion \<Rightarrow> request_completion) \<Rightarrow> unit cact" where
  "on_request i f = upd (\<lambda>s. s\<lparr>c_requests := im_adjust (c_requests s) i f\<rparr>)"

definition publish :: "unit cact" where
  "publish = ask (\<lambda>s. only_if (c_dirty s) (seq [
     only_if (c_meters_dirty s)
       (upd (\<lambda>s. s\<lparr>c_view := (c_view s)\<lparr>av_meters := c_meters s\<rparr>, c_meters_dirty := False\<rparr>)),
     only_if (c_errors_dirty s)
       (upd (\<lambda>s. s\<lparr>c_view := (c_view s)\<lparr>av_errors := c_errors s\<rparr>, c_errors_dirty := False\<rparr>)),
     upd (\<lambda>s. s\<lparr>c_snapshot := c_view s\<rparr>),
     send_event SnapshotChanged,
     upd (\<lambda>s. s\<lparr>c_dirty := False\<rparr>)]))"

fun put_issue :: "operation_issue \<Rightarrow> operation_issue list \<Rightarrow> operation_issue list" where
  "put_issue i [] = [i]"
| "put_issue i (j # js) = (if oi_target j = oi_target i then i # js else j # put_issue i js)"

definition issue :: "string \<Rightarrow> string \<Rightarrow> unit cact" where
  "issue target message = upd (\<lambda>s. s\<lparr>
     c_errors := put_issue \<lparr>oi_target = target, oi_message = message\<rparr> (c_errors s),
     c_errors_dirty := True, c_dirty := True\<rparr>)"

definition clear_issue :: "string \<Rightarrow> unit cact" where
  "clear_issue target = ask (\<lambda>s. let kept = filter (\<lambda>i. oi_target i \<noteq> target) (c_errors s)
     in only_if (length kept \<noteq> length (c_errors s))
          (upd (\<lambda>s. s\<lparr>c_errors := kept, c_errors_dirty := True, c_dirty := True\<rparr>)))"

definition refresh_desired :: "unit cact" where
  "refresh_desired = upd (\<lambda>s. s\<lparr>c_view := (c_view s)\<lparr>
       av_revision := saturating_add (av_revision (c_view s)) 1,
       av_desired := config_desired (c_store s),
       av_preferences := sd_value (cs_preferences (c_store s))\<rparr>, c_dirty := True\<rparr>)"

subsection \<open>Units and their rows\<close>

definition bound_unit :: "controller \<Rightarrow> source \<Rightarrow> unit_id option" where
  "bound_unit s src =
     (if src_kind src \<noteq> Device \<or> \<not> graph_known s then None
      else (case filter (\<lambda>c. cap_node_name c = src_node_name src) (av_captures (c_view s)) of
          [capture] \<Rightarrow>
            (case Option.bind (im_get (cap_properties capture) ''device.serial'') as_str of
               None \<Rightarrow> None
             | Some serial \<Rightarrow> device_for_capture serial
                 (map (\<lambda>u. \<lparr>ci_unit = us_id u, ci_serial = di_serial (us_info u), ci_connected = True\<rparr>)
                    (im_values (c_units s))))
        | _ \<Rightarrow> None))"

definition unit_sources :: "controller \<Rightarrow> unit_id \<Rightarrow> source_id list" where
  "unit_sources s u = map fst (filter (\<lambda>(_, src). bound_unit s src = Some u) (the_sources s))"

definition all_muted :: "controller \<Rightarrow> source_id list \<Rightarrow> bool" where
  "all_muted s ids = list_all (muted_of (the_sources s)) ids"

definition intended_mute :: "controller \<Rightarrow> unit_id \<Rightarrow> bool option" where
  "intended_mute s u = (case im_get (c_intents s) (u, FieldMute) of
       Some (_, Mute muted) \<Rightarrow> Some muted | _ \<Rightarrow> None)"

definition desired_mute :: "controller \<Rightarrow> unit_id \<Rightarrow> bool option" where
  "desired_mute s u = (let ids = unit_sources s u
     in or_else (if ids = [] then None else Some (all_muted s ids)) (intended_mute s u))"

definition unit_place :: "unit_id \<Rightarrow> nat" where
  "unit_place u = unat (uid_bus u) * 256 + unat (uid_address u)"

definition sync_unit_view :: "unit cact" where
  "sync_unit_view = upd (\<lambda>s.
     let units = map (\<lambda>(k, u). (k, u\<lparr>us_desired_mute := desired_mute s (us_id u)\<rparr>)) (c_units s);
         intents = foldl (\<lambda>m ((u, _), (_, setting)). im_upsert m u [] (\<lambda>ss. ss @ [setting])) [] (c_intents s)
     in s\<lparr>c_units := units,
          c_view := (c_view s)\<lparr>av_units := sort_key (\<lambda>u. unit_place (us_id u)) (im_values units),
            av_unit_intents := intents\<rparr>,
          c_dirty := True\<rparr>)"

definition remember_intents :: "command_id \<Rightarrow> unit_id \<Rightarrow> device_setting list \<Rightarrow> unit cact" where
  "remember_intents i u settings = seq [
     upd (\<lambda>s. s\<lparr>c_intents := foldl (\<lambda>m st. im_insert m (u, field_of_setting st) (i, st)) (c_intents s) settings\<rparr>),
     sync_unit_view]"

subsection \<open>Requests\<close>

definition operation_failure :: "command_id option \<Rightarrow> string \<Rightarrow> operation_error \<Rightarrow> unit cact" where
  "operation_failure who target e = seq [
     issue target (err_message e),
     (case who of None \<Rightarrow> skip
      | Some i \<Rightarrow> on_request i (\<lambda>r. r\<lparr>
          rq_cancelled := (rq_cancelled r \<or> err_code e = Cancelled),
          rq_first_error := (case rq_first_error r of None \<Rightarrow> Some e | Some e' \<Rightarrow> Some e'),
          rq_failed := rq_failed r @ [\<lparr>oi_target = target, oi_message = err_message e\<rparr>]\<rparr>))]"

definition is_scene_outcome :: "command_outcome \<Rightarrow> bool" where
  "is_scene_outcome r = (case r of SceneFinished _ _ _ \<Rightarrow> True | _ \<Rightarrow> False)"

definition forget_intents :: "command_id \<Rightarrow> unit cact" where
  "forget_intents i = ask (\<lambda>s.
     let kept = im_retain (\<lambda>_ (who, _). who \<noteq> i) (c_intents s)
     in seq [upd (\<lambda>s. s\<lparr>c_intents := kept\<rparr>), only_if (length kept \<noteq> length (c_intents s)) sync_unit_view])"

definition finish :: "command_id \<Rightarrow> command_outcome \<Rightarrow> unit cact" where
  "finish i outcome = ask (\<lambda>s. only_if (i \<in> set (c_accepted s)) (seq [
     upd (\<lambda>s. let requests = im_shift_remove (c_requests s) i
       in s\<lparr>c_accepted := removeAll i (c_accepted s), c_requests := requests,
            c_view := (c_view s)\<lparr>av_scene_pending := list_ex rq_scene (im_values requests)\<rparr>, c_dirty := True\<rparr>),
     forget_intents i,
     only_if (is_scene_outcome outcome)
       (seq [on_view (\<lambda>v. v\<lparr>av_scene_outcome := Some outcome\<rparr>), touch]),
     publish,
     send_event (CommandFinished i outcome)]))"

definition held_by :: "controller \<Rightarrow> command_id \<Rightarrow> bool" where
  "held_by s i = list_ex (\<lambda>(_, who). who = Some i) (im_values (c_held_captures s))"

fun join_lines :: "string list \<Rightarrow> string" where
  "join_lines [] = []"
| "join_lines [x] = x"
| "join_lines (x # xs) = x @ [CHR 0x0A] @ join_lines xs"

text \<open>What a request whose operations have all ended is answered with.\<close>

definition request_outcome :: "u64 \<Rightarrow> request_completion \<Rightarrow> command_outcome" where
  "request_outcome revision r =
     (if rq_scene r then SceneFinished revision (rq_skipped r) (rq_failed r)
      else if rq_cancelled r then CommandCancelled
      else if rq_failed r \<noteq> []
      then Rejected (error_new (case rq_first_error r of None \<Rightarrow> Unavailable | Some e \<Rightarrow> err_code e)
             (join_lines (map (\<lambda>i. oi_target i @ '': '' @ oi_message i) (rq_failed r))))
      else Applied revision)"

definition finish_if_ready :: "command_id \<Rightarrow> unit cact" where
  "finish_if_ready i = ask (\<lambda>s. case im_get (c_requests s) i of
       None \<Rightarrow> skip
     | Some r \<Rightarrow>
         if rq_waiting r \<or> rq_remaining r \<noteq> [] \<or> held_by s i then skip
         else finish i (request_outcome (av_revision (c_view s)) r))"

subsection \<open>Pending edits\<close>

definition pending_cells :: "(pending_key, pending_edit) imap \<Rightarrow> (string, level_state) imap" where
  "pending_cells pending = foldl (\<lambda>m e. case pd_command e of
       SetCell source mix level muted _ \<Rightarrow>
         im_insert m (cell_key source mix) (level_default\<lparr>lv_volume := level, lv_muted := muted\<rparr>)
     | _ \<Rightarrow> m) [] (im_values pending)"

definition pending_effects :: "(pending_key, pending_edit) imap \<Rightarrow> (source_id, fx_settings) imap" where
  "pending_effects pending = foldl (\<lambda>m e. case pd_command e of
       SetFx source settings _ \<Rightarrow> im_insert m source settings
     | _ \<Rightarrow> m) [] (im_values pending)"

definition refresh_pending_view :: "unit cact" where
  "refresh_pending_view = upd (\<lambda>s. s\<lparr>c_view := (c_view s)\<lparr>
     av_pending_cells := pending_cells (c_pending s), av_pending_fx := pending_effects (c_pending s)\<rparr>,
     c_dirty := True\<rparr>)"

definition cancel_pending :: "(pending_key \<Rightarrow> bool) \<Rightarrow> unit cact" where
  "cancel_pending p = ask (\<lambda>s.
     let cancelled = map (\<lambda>(_, e). pd_id e) (filter (\<lambda>(k, _). p k) (c_pending s))
     in only_if (cancelled \<noteq> []) (seq [
          upd (\<lambda>s. s\<lparr>c_pending := filter (\<lambda>(k, _). \<not> p k) (c_pending s)\<rparr>),
          refresh_pending_view,
          each (\<lambda>i. finish i CommandCancelled) cancelled]))"

definition defer_edit :: "pending_key \<Rightarrow> command_id \<Rightarrow> app_command \<Rightarrow> nat \<Rightarrow> unit cact" where
  "defer_edit key i command delay = seq [
     on_request i (\<lambda>r. r\<lparr>rq_waiting := True\<rparr>),
     (case command of
        SetDeviceSetting u setting _ \<Rightarrow> remember_intents i u [setting]
      | _ \<Rightarrow> skip),
     ask (\<lambda>s. let previous = im_get (c_pending s) key in seq [
       upd (\<lambda>s. s\<lparr>c_pending := im_insert (c_pending s) key
         \<lparr>pd_due = c_now s + delay, pd_id = i, pd_command = command\<rparr>\<rparr>),
       refresh_pending_view,
       (case previous of None \<Rightarrow> skip | Some e \<Rightarrow> finish (pd_id e) CommandCancelled)])]"

definition millis :: "nat \<Rightarrow> nat" where
  "millis n = n * 1000000"

end
