(* ===== verification/Commit.thy ===== *)
theory Commit
  imports Controller
begin

text \<open>
  Committing a change of a store: \<^verbatim>\<open>commit_sources\<close> and \<^verbatim>\<open>commit_matrix\<close> of \<^verbatim>\<open>controller/state.rs\<close> and what
  they bring up to date: the bindings of captures, the targets of the meters, the handovers of
  exclusive groups (\<^verbatim>\<open>controller/state/mutes.rs\<close>), the calibration session (\<^verbatim>\<open>state/calibration.rs\<close>), and the
  routing that is sent to the back end.
\<close>

subsection \<open>Stores\<close>

text \<open>A field of the configuration, read and written.\<close>

record 'a store_field =
  sf_get :: "config_store \<Rightarrow> 'a stored"
  sf_put :: "'a stored \<Rightarrow> config_store \<Rightarrow> config_store"

definition sources_field :: "sources store_field" where
  "sources_field = \<lparr>sf_get = cs_sources, sf_put = (\<lambda>st cs. cs\<lparr>cs_sources := st\<rparr>)\<rparr>"
definition mixes_field :: "mixes store_field" where
  "mixes_field = \<lparr>sf_get = cs_mixes, sf_put = (\<lambda>st cs. cs\<lparr>cs_mixes := st\<rparr>)\<rparr>"
definition matrix_field :: "matrix_state store_field" where
  "matrix_field = \<lparr>sf_get = cs_matrix, sf_put = (\<lambda>st cs. cs\<lparr>cs_matrix := st\<rparr>)\<rparr>"
definition preferences_field :: "preferences store_field" where
  "preferences_field = \<lparr>sf_get = cs_preferences, sf_put = (\<lambda>st cs. cs\<lparr>cs_preferences := st\<rparr>)\<rparr>"
definition scenes_field :: "scene_store store_field" where
  "scenes_field = \<lparr>sf_get = cs_scenes, sf_put = (\<lambda>st cs. cs\<lparr>cs_scenes := st\<rparr>)\<rparr>"

definition store_prepare :: "'a store_field \<Rightarrow> 'a \<Rightarrow> 'a prepared res cact" where
  "store_prepare f v = ask (\<lambda>s. on_fs (stored_prepare (c_pretty s) (sf_get f (c_store s)) v))"

definition store_put :: "'a store_field \<Rightarrow> 'a stored \<Rightarrow> unit cact" where
  "store_put f st = upd (\<lambda>s. s\<lparr>c_store := sf_put f st (c_store s)\<rparr>)"

definition store_publish :: "'a store_field \<Rightarrow> 'a prepared \<Rightarrow> unit res cact" where
  "store_publish f p = ask (\<lambda>s. attempt (on_fs (stored_publish (sf_get f (c_store s)) p)) (\<lambda>st.
     done_ok [store_put f st]))"

definition store_replace :: "'a store_field \<Rightarrow> 'a \<Rightarrow> unit res cact" where
  "store_replace f v = attempt (store_prepare f v) (store_publish f)"

subsection \<open>Bindings of captures\<close>

definition capture_owners :: "sources \<Rightarrow> (string, source_id list) imap" where
  "capture_owners srcs = map (\<lambda>(node, ids). (node, sort ids))
     (foldl (\<lambda>m (i, s). if src_kind s = Device \<and> src_node_name s \<noteq> []
        then im_upsert m (src_node_name s) [] (\<lambda>ids. ids @ [i]) else m) [] srcs)"

definition bind_owners ::
  "(string, capture_binding) imap \<times> u64 \<Rightarrow> string \<times> source_id list \<Rightarrow> (string, capture_binding) imap \<times> u64" where
  "bind_owners st e = (case (st, e) of ((bindings, epoch), (node, owners)) \<Rightarrow>
     if (case im_get bindings node of None \<Rightarrow> False | Some b \<Rightarrow> bd_owners b = owners) then (bindings, epoch)
     else (im_insert bindings node \<lparr>bd_epoch = saturating_add epoch 1, bd_owners = owners\<rparr>, saturating_add epoch 1))"

definition rebind :: "sources \<Rightarrow> (string, capture_binding) imap \<Rightarrow> u64 \<Rightarrow> (string, capture_binding) imap \<times> u64" where
  "rebind srcs bindings epoch =
     (let owners = capture_owners srcs
      in foldl bind_owners (im_retain (\<lambda>node _. im_contains owners node) bindings, epoch) owners)"

definition refresh_bindings :: "unit cact" where
  "refresh_bindings = upd (\<lambda>s.
     case rebind (the_sources s) (c_bindings s) (c_binding_epoch s) of (bindings, epoch) \<Rightarrow>
       s\<lparr>c_bindings := bindings, c_binding_epoch := epoch,
         c_capture_intents := im_retain (\<lambda>node (b, _). im_get bindings node = Some b) (c_capture_intents s),
         c_capture_baselines := im_retain (\<lambda>i (b, _, _). case im_get (the_sources s) i of
             None \<Rightarrow> False | Some src \<Rightarrow> im_get bindings (src_node_name src) = Some b) (c_capture_baselines s)\<rparr>)"

subsection \<open>Meters\<close>

definition set_meter_targets :: "meter_target list \<Rightarrow> unit cact" where
  "set_meter_targets targets = seq [
     upd (\<lambda>s. let keys = im_collect (map (\<lambda>t. (tg_key t, tg_identity t)) targets)
       in s\<lparr>c_meter_targets := keys, c_meters := im_retain (\<lambda>k _. im_contains keys k) (c_meters s),
            c_meters_dirty := True, c_dirty := True, c_meter_specs := targets\<rparr>),
     ask (\<lambda>s. only_if (\<not> c_frozen s)
       (handle (dispatch (MeterTargets targets)) (\<lambda>e. issue ''meters'' (err_message e))))]"

text \<open>\<^verbatim>\<open>PartialEq\<close> of the effects compares doubles as numbers.\<close>

definition fx_equal :: "fx_settings \<Rightarrow> fx_settings \<Rightarrow> bool" where
  "fx_equal a b \<longleftrightarrow> fx_lowcut a = fx_lowcut b \<and> fx_gate a = fx_gate b \<and> f64_eq (fx_gate_thresh a) (fx_gate_thresh b) \<and>
     fx_comp a = fx_comp b \<and> f64_eq (fx_comp_thresh a) (fx_comp_thresh b) \<and>
     f64_eq (fx_comp_ratio a) (fx_comp_ratio b) \<and> f64_eq (fx_eq_low a) (fx_eq_low b) \<and>
     f64_eq (fx_eq_mid a) (fx_eq_mid b) \<and> f64_eq (fx_eq_high a) (fx_eq_high b) \<and>
     f64_eq (fx_delay_ms a) (fx_delay_ms b) \<and> fx_mono a = fx_mono b"

definition option_equal :: "('a \<Rightarrow> 'a \<Rightarrow> bool) \<Rightarrow> 'a option \<Rightarrow> 'a option \<Rightarrow> bool" where
  "option_equal eq a b = (case (a, b) of
     (None, None) \<Rightarrow> True | (Some x, Some y) \<Rightarrow> eq x y | _ \<Rightarrow> False)"

definition meter_retained :: "sources \<Rightarrow> sources \<Rightarrow> mixes \<Rightarrow> meter_target \<Rightarrow> bool" where
  "meter_retained before current ms t = (case strip_prefix ''src:'' (tg_key t) of
       Some i \<Rightarrow>
         (case (im_get before i, im_get current i) of
            (Some old, Some new) \<Rightarrow> src_kind old = src_kind new \<and> src_node_name old = src_node_name new \<and>
              match_app_names old = match_app_names new \<and> option_equal fx_equal (src_fx old) (src_fx new)
          | _ \<Rightarrow> False)
     | None \<Rightarrow>
         (case strip_prefix ''mix:'' (tg_key t) of
            Some i \<Rightarrow> im_contains ms i
          | None \<Rightarrow> True))"

definition invalidate_meters :: "sources \<Rightarrow> unit cact" where
  "invalidate_meters before = ask (\<lambda>s.
     let retained = filter (meter_retained before (the_sources s) (the_mixes s)) (c_meter_specs s)
     in only_if (length retained \<noteq> length (c_meter_specs s)) (set_meter_targets retained))"

subsection \<open>Handovers\<close>

definition mute_target_of :: "controller \<Rightarrow> source \<Rightarrow> mute_target" where
  "mute_target_of s src =
     (if \<not> graph_known s then TargetMissing
      else (case bound_unit s src of
          Some u \<Rightarrow> TargetUnit u
        | None \<Rightarrow>
            (case filter (\<lambda>c. cap_node_name c = src_node_name src) (av_captures (c_view s)) of
               [capture] \<Rightarrow> TargetCapture (cap_identity capture)
             | [] \<Rightarrow> TargetAbsent
             | _ \<Rightarrow> TargetMissing)))"

definition opens_now :: "sources \<Rightarrow> source_id \<times> source \<Rightarrow> bool" where
  "opens_now before e = (case e of (i, src) \<Rightarrow> \<not> src_muted src \<and> src_group src \<noteq> [] \<and>
     \<not> (case im_get before i of None \<Rightarrow> False
        | Some old \<Rightarrow> \<not> src_muted old \<and> src_group old = src_group src \<and> src_node_name old = src_node_name src))"

definition group_captures :: "controller \<Rightarrow> string \<Rightarrow> member list" where
  "group_captures s grp = List.map_filter (\<lambda>(i, peer).
       if src_group peer = grp \<and> src_kind peer = Device
       then map_option (\<lambda>b. \<lparr>mb_source = i, mb_node = src_node_name peer, mb_binding = b, mb_target = mute_target_of s peer\<rparr>)
              (im_get (c_bindings s) (src_node_name peer))
       else None) (the_sources s)"

definition still_opening :: "sources \<Rightarrow> string \<Rightarrow> handover \<Rightarrow> bool" where
  "still_opening srcs grp h = (case im_get srcs (ho_opening h) of None \<Rightarrow> False
     | Some src \<Rightarrow> \<not> src_muted src \<and> src_group src = grp)"

definition update_handovers :: "sources \<Rightarrow> unit cact" where
  "update_handovers before = upd (\<lambda>s. s\<lparr>c_handovers :=
     foldl (\<lambda>m (i, src). im_insert m (src_group src)
         \<lparr>ho_opening = i, ho_members = group_captures s (src_group src), ho_invalid = False, ho_silence_requested = False\<rparr>)
       (im_retain (still_opening (the_sources s)) (c_handovers s))
       (filter (opens_now before) (the_sources s))\<rparr>)"

subsection \<open>Routing\<close>

text \<open>A source that is being opened stays muted in the routing until its handover is over.\<close>

definition routing_desired :: "controller \<Rightarrow> desired_state" where
  "routing_desired s = (av_desired (c_view s))\<lparr>de_sources :=
     foldl (\<lambda>m h. im_adjust m (ho_opening h) (\<lambda>src. src\<lparr>src_muted := True\<rparr>))
       (de_sources (av_desired (c_view s))) (im_values (c_handovers s))\<rparr>"

definition route :: "unit cact" where
  "route = ask (\<lambda>s. only_if (\<not> c_frozen s \<and> routing_available (c_store s)) (seq [
     upd (\<lambda>s. s\<lparr>c_routing_revision := av_revision (c_view s)\<rparr>),
     handle (dispatch (Routing (av_revision (c_view s)) (routing_desired s) (c_bindings s)))
       (\<lambda>e. issue ''routing'' (err_message e))]))"

subsection \<open>The calibration session\<close>

definition identity_error :: "string \<Rightarrow> operation_error" where
  "identity_error message = error_new Identity message"

definition object_serial_of :: "capture_snapshot \<Rightarrow> string option" where
  "object_serial_of c = Option.bind (im_get (cap_properties c) ''object.serial'') (\<lambda>v.
     or_else (as_str v) (map_option (\<lambda>n. show_nat (unat n)) (as_u64 v)))"

definition calibration_capture :: "controller \<Rightarrow> source_id \<Rightarrow> capture_snapshot res" where
  "calibration_capture s source =
     (case c_graph_observation s of
        Unknown e \<Rightarrow> Inl (error_unavailable (''Calibration requires a current audio graph: '' @ err_message e))
      | Known _ \<Rightarrow>
          rbind (require_writable (cs_sources (c_store s))) (\<lambda>_.
          rbind (ok_or (identity_error ''Calibration source was removed'') (im_get (the_sources s) source)) (\<lambda>row.
          rbind (ensure (src_kind row = Device) (error_invalid ''Calibration requires a device source'')) (\<lambda>_.
          rbind (validate_raw_node (src_node_name row)) (\<lambda>_.
          rbind (ensure (\<not> (src_node_name row = ''auto'' \<or> starts_with ''openwave_'' (src_node_name row) \<or>
                   ends_with ''.monitor'' (src_node_name row)))
                (error_invalid ''Select a raw microphone, not a monitor or processed input'')) (\<lambda>_.
          case filter (\<lambda>c. cap_node_name c = src_node_name row) (av_captures (c_view s)) of
            [] \<Rightarrow> Inl (identity_error ''Calibration input is disconnected'')
          | capture # rest \<Rightarrow>
              if rest \<noteq> [] then Inl (identity_error ''Calibration input identity is ambiguous'')
              else if object_serial_of capture \<noteq> Some (object_serial (cap_identity capture)) \<or>
                (case object_serial_of capture of None \<Rightarrow> True | Some serial \<Rightarrow> serial = [])
              then Inl (identity_error ''Calibration needs the current capture object.serial'')
              else rbind (capture_channels (cap_channels capture)) (\<lambda>_. Inr capture)))))))"

definition validate_calibration :: "controller \<Rightarrow> calibration_token \<Rightarrow> unit res" where
  "validate_calibration s token =
     rbind (ok_or (identity_error ''Calibration session expired; repeat the measurements'')
       (case c_calibration s of None \<Rightarrow> None
        | Some session \<Rightarrow> if cl_token session = token then Some session else None)) (\<lambda>session.
     rbind (calibration_capture s (tk_source token)) (\<lambda>capture.
     rbind (ensure (cap_node_name capture = tk_node_name token \<and> cap_identity capture = tk_identity token)
       (identity_error ''Calibration input generation or channels changed; repeat the measurements'')) (\<lambda>_.
     rbind (capture_channels (cap_channels capture)) (\<lambda>channels.
     rbind (ensure (channels = tk_channels token)
       (identity_error ''Calibration input generation or channels changed; repeat the measurements'')) (\<lambda>_.
     rbind (ensure (im_get (c_bindings s) (tk_node_name token) = Some (cl_binding session))
       (identity_error ''Calibration source binding changed; repeat the measurements'')) (\<lambda>_. Inr ()))))))"

definition enter_phase :: "calibration_phase \<Rightarrow> unit cact" where
  "enter_phase phase = seq [
     on_view (\<lambda>v. v\<lparr>av_calibration := map_option (\<lambda>c. c\<lparr>cal_phase := phase\<rparr>) (av_calibration v)\<rparr>), touch]"

text \<open>The session is taken, the recorder told, and a recording that is under way is answered.\<close>

definition drop_session :: "command_outcome \<Rightarrow> unit cact" where
  "drop_session outcome = ask (\<lambda>s. case c_calibration s of
       None \<Rightarrow> skip
     | Some session \<Rightarrow> seq [
         upd (\<lambda>s. s\<lparr>c_calibration := None\<rparr>),
         handle (dispatch (StopCalibration (cl_token session)))
           (\<lambda>e. issue ''calibration cancellation'' (err_message e)),
         (case cl_recording session of None \<Rightarrow> skip | Some (command, _) \<Rightarrow> finish command outcome)])"

definition expire_calibration :: "operation_error \<Rightarrow> unit cact" where
  "expire_calibration e = seq [
     drop_session (Rejected e),
     enter_phase (Expired (err_message e)),
     issue ''calibration'' (err_message e)]"

definition cancel_calibration :: "unit cact" where
  "cancel_calibration = seq [
     drop_session CommandCancelled,
     on_view (\<lambda>v. v\<lparr>av_calibration := None\<rparr>),
     touch]"

definition refresh_calibration_validity :: "unit cact" where
  "refresh_calibration_validity = ask (\<lambda>s. case c_calibration s of
       None \<Rightarrow> skip
     | Some session \<Rightarrow> (case validate_calibration s (cl_token session) of
           Inl e \<Rightarrow> expire_calibration e | Inr _ \<Rightarrow> skip))"

subsection \<open>Committing\<close>

definition commit_sources :: "sources \<Rightarrow> unit res cact" where
  "commit_sources srcs = ask (\<lambda>s. let before = de_sources (av_desired (c_view s)) in
     attempt (store_replace sources_field srcs) (\<lambda>_. done_ok [
       invalidate_meters before,
       clear_issue ''sources'',
       refresh_desired,
       refresh_bindings,
       refresh_calibration_validity,
       sync_unit_view,
       update_handovers before,
       route]))"

definition commit_matrix :: "matrix_state \<Rightarrow> unit res cact" where
  "commit_matrix matrix = attempt (store_replace matrix_field matrix) (\<lambda>_. done_ok [
     clear_issue ''matrix'', refresh_desired, route])"

end
