(* ===== verification/Mutes.thy ===== *)
theory Mutes
  imports Commit
begin

text \<open>
  Mutes of devices and captures: \<^verbatim>\<open>queue_device\<close> and \<^verbatim>\<open>sync_mutes_excluding\<close> of \<^verbatim>\<open>controller/state.rs\<close>, and
  \<^verbatim>\<open>controller/state/mutes.rs\<close>, which holds back the opening of a member of an exclusive group until the
  others are known to be silent.
\<close>

definition debug_profile :: "profile_id \<Rightarrow> string" where
  "debug_profile p = (case p of
     WaveXlr \<Rightarrow> ''WaveXlr'' | WaveXlrMk2 \<Rightarrow> ''WaveXlrMk2'' | Wave3 \<Rightarrow> ''Wave3'' | XlrDockMk2 \<Rightarrow> ''XlrDockMk2'')"

text \<open>\<^verbatim>\<open>format!("device {unit:?}")\<close>\<close>

definition device_text :: "unit_id \<Rightarrow> string" where
  "device_text u = ''device UnitId { profile: '' @ debug_profile (uid_profile u) @ '', bus: '' @ show_nat (unat (uid_bus u)) @
     '', address: '' @ show_nat (unat (uid_address u)) @ '', incarnation: '' @ show_nat (unat (uid_incarnation u)) @ '' }''"

subsection \<open>Members of a handover\<close>

definition unit_mute_pending :: "controller \<Rightarrow> unit_id \<Rightarrow> bool" where
  "unit_mute_pending s u = list_ex (\<lambda>j. jb_unit j = u \<and> list_ex (\<lambda>st. field_of_setting st = FieldMute) (jb_settings j))
     (im_values (c_jobs s))"

definition member_binding_current :: "controller \<Rightarrow> string \<Rightarrow> member \<Rightarrow> bool" where
  "member_binding_current s grp m \<longleftrightarrow> im_get (c_bindings s) (mb_node m) = Some (mb_binding m) \<and>
     (case im_get (the_sources s) (mb_source m) of None \<Rightarrow> False
      | Some src \<Rightarrow> src_node_name src = mb_node m \<and> src_group src = grp \<and> src_kind src = Device)"

definition member_current :: "controller \<Rightarrow> string \<Rightarrow> member \<Rightarrow> bool" where
  "member_current s grp m \<longleftrightarrow> member_binding_current s grp m \<and>
     (case im_get (the_sources s) (mb_source m) of None \<Rightarrow> False | Some src \<Rightarrow> mute_target_of s src = mb_target m)"

definition mute_sources_for_unit :: "controller \<Rightarrow> unit_id \<Rightarrow> source_id list" where
  "mute_sources_for_unit s u =
     foldl (\<lambda>ids (grp, m). if mb_target m = TargetUnit u \<and> member_binding_current s grp m \<and> mb_source m \<notin> set ids
         then ids @ [mb_source m] else ids)
       (unit_sources s u)
       (concat (map (\<lambda>(grp, h). map (\<lambda>m. (grp, m)) (ho_members h)) (c_handovers s)))"

definition member_has_open_owner :: "controller \<Rightarrow> member \<Rightarrow> bool" where
  "member_has_open_owner s m \<longleftrightarrow> mb_target m \<noteq> TargetAbsent \<and> mb_target m \<noteq> TargetMissing \<and>
     list_ex (\<lambda>src. \<not> src_muted src \<and> mute_target_of s src = mb_target m) (im_values (the_sources s))"

definition observed_current :: "controller \<Rightarrow> bool" where
  "observed_current s \<longleftrightarrow> c_graph_revision s = Some (c_routing_revision s)"

definition member_silent :: "controller \<Rightarrow> member \<Rightarrow> bool" where
  "member_silent s m =
     (if member_has_open_owner s m
      then observed_current s \<and> list_ex (\<lambda>c. cap_node_name c = mb_node m \<and>
             im_get (c_silent_sources s) (mb_source m) = Some (cap_identity c)) (av_captures (c_view s))
      else (case mb_target m of
          TargetUnit u \<Rightarrow> \<not> unit_mute_pending s u \<and>
            (case im_get (c_units s) u of None \<Rightarrow> False
             | Some us \<Rightarrow> (case known (us_state us) of None \<Rightarrow> False | Some st \<Rightarrow> ds_muted st))
        | TargetCapture ident \<Rightarrow> observed_current s \<and> \<not> im_contains (c_capture_intents s) (mb_node m) \<and>
            list_ex (\<lambda>c. cap_identity c = ident \<and> cap_node_name c = mb_node m \<and> known (cap_muted c) = Some True)
              (av_captures (c_view s))
        | TargetAbsent \<Rightarrow> graph_known s \<and> observed_current s \<and>
            \<not> list_ex (\<lambda>c. cap_node_name c = mb_node m) (av_captures (c_view s))
        | TargetMissing \<Rightarrow> False))"

definition opening_target :: "handover \<Rightarrow> mute_target option" where
  "opening_target h = map_option mb_target (List.find (\<lambda>m. mb_source m = ho_opening h) (ho_members h))"

subsection \<open>Writing to devices and captures\<close>

definition open_rows :: "controller \<Rightarrow> unit_id \<Rightarrow> device_setting list \<Rightarrow> (source_id \<times> string \<times> string) list" where
  "open_rows s u settings =
     (if Mute False \<in> set settings
      then List.map_filter (\<lambda>i. case im_get (the_sources s) i of None \<Rightarrow> None
             | Some src \<Rightarrow> if src_muted src then None else Some (i, src_node_name src, src_group src))
           (mute_sources_for_unit s u)
      else [])"

definition held_back :: "controller \<Rightarrow> (source_id \<times> string \<times> string) list \<Rightarrow> bool" where
  "held_back s rows = list_ex (\<lambda>(_, _, grp). im_contains (c_handovers s) grp) rows"

definition queue_device :: "command_id option \<Rightarrow> unit_id \<Rightarrow> device_setting list \<Rightarrow> unit res cact" where
  "queue_device who u settings = ask (\<lambda>s.
     guard_ok (im_contains (c_units s) u) (error_unavailable ''Captured device is disconnected'')
     (try_pure (res_mapM (validate_setting (uid_profile u)) settings) (\<lambda>settings.
       if settings = [] then ret (Inr ())
       else try_pure (ok_or (error_unavailable ''Device job space exhausted'') (checked_add (c_next_job s) 1)) (\<lambda>next_job.
         let job = c_next_job s; rows = open_rows s u settings; dispatched = (\<not> held_back s rows)
         in bnd (upd (\<lambda>s. s\<lparr>c_next_job := next_job\<rparr>)) (\<lambda>_.
            attempt (if dispatched then dispatch (DeviceWrite job u settings) else ret (Inr ())) (\<lambda>_.
            done_ok [
              upd (\<lambda>s. s\<lparr>c_jobs := im_insert (c_jobs s) job \<lparr>jb_owner = who, jb_unit = u, jb_settings = settings,
                jb_dispatched = dispatched, jb_open_sources = rows\<rparr>\<rparr>),
              (case who of None \<Rightarrow> skip
               | Some i \<Rightarrow> seq [on_request i (\<lambda>r. r\<lparr>rq_remaining := List.insert job (rq_remaining r)\<rparr>),
                   remember_intents i u settings])]))))))"

definition hold_capture :: "string \<Rightarrow> capture_binding \<Rightarrow> command_id option \<Rightarrow> unit cact" where
  "hold_capture node binding who = ask (\<lambda>s. seq [
     upd (\<lambda>s. s\<lparr>c_held_captures := im_insert (c_held_captures s) node (binding, who)\<rparr>),
     (case im_get (c_held_captures s) node of
        Some (_, Some previous) \<Rightarrow> only_if (Some previous \<noteq> who) (finish previous CommandCancelled)
      | _ \<Rightarrow> skip)])"

definition owners_held :: "controller \<Rightarrow> capture_binding \<Rightarrow> bool" where
  "owners_held s binding = list_ex (\<lambda>i. case im_get (the_sources s) i of None \<Rightarrow> False
     | Some src \<Rightarrow> im_contains (c_handovers s) (src_group src)) (bd_owners binding)"

definition queue_capture :: "string \<Rightarrow> capture_binding \<Rightarrow> bool \<Rightarrow> command_id option \<Rightarrow> unit res cact" where
  "queue_capture node binding muted who = ask (\<lambda>s.
     if \<not> muted \<and> owners_held s binding then done_ok [hold_capture node binding who]
     else guard_ok (length (filter (\<lambda>c. cap_node_name c = node) (av_captures (c_view s))) = 1 \<and> graph_known s)
       (error_unavailable ''Capture mute needs an exact observed identity'')
       (attempt (dispatch (CaptureMute node binding muted)) (\<lambda>_. done_ok [
          upd (\<lambda>s. s\<lparr>c_capture_intents := im_insert (c_capture_intents s) node (binding, muted)\<rparr>)])))"

subsection \<open>Following the sources\<close>

text \<open>The units and the capture nodes whose mute has to follow a change of the sources.\<close>

definition mute_changed :: "sources \<Rightarrow> source_id \<times> source \<Rightarrow> bool" where
  "mute_changed before e = (case im_get before (fst e) of None \<Rightarrow> True | Some old \<Rightarrow> src_muted old \<noteq> src_muted (snd e))"

definition mute_domains :: "controller \<Rightarrow> sources \<Rightarrow> origin \<Rightarrow> unit_id list \<Rightarrow> unit_id list \<times> string list" where
  "mute_domains s before orig excluded =
     foldl (\<lambda>(units, captures) (_, src).
         if src_kind src \<noteq> Device then (units, captures)
         else (case bound_unit s src of
             Some u \<Rightarrow> (if u \<notin> set excluded \<and> orig \<noteq> HardwareOrigin u then List.insert u units else units, captures)
           | None \<Rightarrow> (units, List.insert (src_node_name src) captures)))
       ([], []) (filter (mute_changed before) (the_sources s))"

text \<open>\<^verbatim>\<open>sort_by_key(|(_, muted)| !*muted)\<close>: mutes come before unmutes.\<close>

definition mutes_first :: "('a \<times> bool) list \<Rightarrow> ('a \<times> bool) list" where
  "mutes_first ws = filter snd ws @ filter (\<lambda>w. \<not> snd w) ws"

definition sync_capture :: "origin \<Rightarrow> command_id option \<Rightarrow> string \<Rightarrow> unit cact" where
  "sync_capture orig who node = ask (\<lambda>s. case im_get (c_bindings s) node of
       None \<Rightarrow> skip
     | Some binding \<Rightarrow>
         if (case orig of
               CaptureOrigin ident \<Rightarrow> list_ex (\<lambda>c. cap_node_name c = node \<and> cap_identity c = ident) (av_captures (c_view s))
             | _ \<Rightarrow> False) then skip
         else handle (queue_capture node binding (all_muted s (bd_owners binding)) who)
           (operation_failure who (''capture '' @ node)))"

definition sync_mutes_excluding :: "sources \<Rightarrow> origin \<Rightarrow> command_id option \<Rightarrow> unit_id list \<Rightarrow> unit cact" where
  "sync_mutes_excluding before orig who excluded = ask (\<lambda>s.
     case mute_domains s before orig excluded of (units, captures) \<Rightarrow> seq [
       each (\<lambda>(u, muted). handle (queue_device who u [Mute muted]) (operation_failure who (device_text u)))
         (mutes_first (map (\<lambda>u. (u, all_muted s (unit_sources s u))) units)),
       each (sync_capture orig who) captures])"

definition sync_mutes :: "sources \<Rightarrow> origin \<Rightarrow> command_id option \<Rightarrow> unit cact" where
  "sync_mutes before orig who = sync_mutes_excluding before orig who []"

definition set_source_mute :: "source_id \<Rightarrow> bool \<Rightarrow> origin \<Rightarrow> command_id option \<Rightarrow> unit res cact" where
  "set_source_mute source muted orig who = ask (\<lambda>s. let before = the_sources s in
     try_pure (set_source_muted before source muted) (\<lambda>(candidate, changes).
       if changes = [] then ret (Inr ())
       else attempt (commit_sources candidate) (\<lambda>_. done_ok [sync_mutes before orig who])))"

subsection \<open>Advancing the handovers\<close>

definition silence_needed :: "controller \<Rightarrow> string \<Rightarrow> handover \<Rightarrow> member list \<Rightarrow> member \<Rightarrow> bool" where
  "silence_needed s grp h required m \<longleftrightarrow>
     \<not> (mb_source m = ho_opening h \<or> opening_target h = Some (mb_target m) \<or> \<not> member_current s grp m \<or>
        member_silent s m \<or> member_has_open_owner s m \<or> list_ex (\<lambda>old. mb_target old = mb_target m) required) \<and>
     \<not> (case mb_target m of
          TargetUnit u \<Rightarrow> unit_mute_pending s u
        | TargetCapture _ \<Rightarrow> im_contains (c_capture_intents s) (mb_node m)
        | TargetAbsent \<Rightarrow> True
        | TargetMissing \<Rightarrow> True)"

definition required_silence :: "controller \<Rightarrow> member list" where
  "required_silence s =
     foldl (\<lambda>required (grp, h).
         if ho_invalid h \<or> ho_silence_requested h then required
         else foldl (\<lambda>required m. if silence_needed s grp h required m then required @ [m] else required)
                required (ho_members h))
       [] (c_handovers s)"

definition request_silence :: "member \<Rightarrow> unit cact" where
  "request_silence m =
     handle (case mb_target m of
         TargetUnit u \<Rightarrow> queue_device None u [Mute True]
       | TargetCapture _ \<Rightarrow> queue_capture (mb_node m) (mb_binding m) True None
       | TargetAbsent \<Rightarrow> ret (Inr ())
       | TargetMissing \<Rightarrow> ret (Inr ()))
     (\<lambda>e. issue (''capture '' @ mb_node m) (err_message e))"

definition request_handover_silence :: "unit cact" where
  "request_handover_silence = ask (\<lambda>s. only_if (graph_known s) (seq [
     upd (\<lambda>s. s\<lparr>c_handovers := map (\<lambda>(grp, h). (grp, h\<lparr>ho_silence_requested := True\<rparr>)) (c_handovers s)\<rparr>),
     each request_silence (required_silence s)]))"

datatype handover_verdict = HandoverWaits | HandoverReady | HandoverInvalid

definition judge_handover :: "controller \<Rightarrow> string \<Rightarrow> handover \<Rightarrow> handover_verdict" where
  "judge_handover s grp h =
     (if ho_invalid h \<or> \<not> graph_known s then HandoverWaits
      else if \<not> list_all (member_current s grp) (ho_members h)
      then (if observed_current s then HandoverInvalid else HandoverWaits)
      else if list_all (\<lambda>m. mb_source m = ho_opening h \<or> opening_target h = Some (mb_target m) \<or> member_silent s m)
                (ho_members h) \<and>
              list_all (\<lambda>m. mb_target m \<noteq> TargetMissing \<and> (mb_source m \<noteq> ho_opening h \<or> mb_target m \<noteq> TargetAbsent))
                (ho_members h)
      then HandoverReady
      else HandoverWaits)"

definition groups_with :: "controller \<Rightarrow> handover_verdict \<Rightarrow> string list" where
  "groups_with s verdict = map fst (filter (\<lambda>(grp, h). judge_handover s grp h = verdict) (c_handovers s))"

definition invalidate_handover :: "string \<Rightarrow> unit cact" where
  "invalidate_handover grp = seq [
     upd (\<lambda>s. s\<lparr>c_handovers := im_adjust (c_handovers s) grp (\<lambda>h. h\<lparr>ho_invalid := True\<rparr>)\<rparr>),
     issue (''group '' @ grp) ''Mute handover identity changed; request a new group transition'']"

definition handover_invalid :: "controller \<Rightarrow> string \<Rightarrow> bool" where
  "handover_invalid s grp = (case im_get (c_handovers s) grp of None \<Rightarrow> False | Some h \<Rightarrow> ho_invalid h)"

definition job_cancelled :: "controller \<Rightarrow> device_job \<Rightarrow> bool" where
  "job_cancelled s job \<longleftrightarrow> \<not> im_contains (c_units s) (jb_unit job) \<or>
     list_ex (\<lambda>(i, node, grp).
         (case im_get (the_sources s) i of None \<Rightarrow> True
          | Some src \<Rightarrow> src_muted src \<or> src_node_name src \<noteq> node \<or> src_group src \<noteq> grp \<or>
              graph_known s \<and> bound_unit s src \<noteq> Some (jb_unit job)) \<or>
         handover_invalid s grp) (jb_open_sources job)"

definition superseded :: "string \<Rightarrow> operation_error" where
  "superseded message = error_new Cancelled message"

definition release_job :: "u64 \<Rightarrow> unit cact" where
  "release_job job_id = ask (\<lambda>s. case im_get (c_jobs s) job_id of
       None \<Rightarrow> skip
     | Some job \<Rightarrow>
         let cancelled = job_cancelled s job in
         only_if (cancelled \<or> \<not> held_back s (jb_open_sources job)) (seq [
           upd (\<lambda>s. s\<lparr>c_jobs := im_shift_remove (c_jobs s) job_id\<rparr>),
           bnd (if cancelled then fail_with (superseded ''Mute opening was superseded'')
                else dispatch (DeviceWrite job_id (jb_unit job) (jb_settings job))) (\<lambda>r. case r of
               Inr _ \<Rightarrow> upd (\<lambda>s. s\<lparr>c_jobs := im_insert (c_jobs s) job_id (job\<lparr>jb_dispatched := True\<rparr>)\<rparr>)
             | Inl e \<Rightarrow> seq [
                 operation_failure (jb_owner job) (device_text (jb_unit job)) e,
                 (case jb_owner job of None \<Rightarrow> skip
                  | Some i \<Rightarrow> seq [on_request i (\<lambda>r. r\<lparr>rq_remaining := removeAll job_id (rq_remaining r)\<rparr>),
                      finish_if_ready i])])]))"

definition capture_cancelled :: "controller \<Rightarrow> string \<Rightarrow> capture_binding \<Rightarrow> bool" where
  "capture_cancelled s node binding \<longleftrightarrow> im_get (c_bindings s) node \<noteq> Some binding \<or>
     list_all (\<lambda>i. case im_get (the_sources s) i of None \<Rightarrow> True | Some src \<Rightarrow> src_muted src) (bd_owners binding) \<or>
     list_ex (\<lambda>i. case im_get (the_sources s) i of None \<Rightarrow> False
       | Some src \<Rightarrow> handover_invalid s (src_group src)) (bd_owners binding)"

definition release_capture :: "string \<times> capture_binding \<times> command_id option \<Rightarrow> unit cact" where
  "release_capture e = (case e of (node, binding, who) \<Rightarrow> ask (\<lambda>s.
     handle (if capture_cancelled s node binding then fail_with (superseded ''Capture opening was superseded'')
             else queue_capture node binding False who)
       (operation_failure who (''capture '' @ node))))"

definition release_captures :: "unit cact" where
  "release_captures = ask (\<lambda>s. seq [
     upd (\<lambda>s. s\<lparr>c_held_captures := []\<rparr>),
     each release_capture (c_held_captures s),
     each finish_if_ready (remdups (List.map_filter (\<lambda>(_, _, who). who) (c_held_captures s)))])"

definition advance_handovers :: "unit cact" where
  "advance_handovers = ask (\<lambda>s. only_if (\<not> c_frozen s) (seq [
     request_handover_silence,
     ask (\<lambda>s. let ready = groups_with s HandoverReady in seq [
       each invalidate_handover (groups_with s HandoverInvalid),
       upd (\<lambda>s. s\<lparr>c_handovers := im_retain (\<lambda>grp _. grp \<notin> set ready) (c_handovers s)\<rparr>),
       ask (\<lambda>s. each release_job (map fst (filter (\<lambda>(_, job). \<not> jb_dispatched job) (c_jobs s)))),
       release_captures,
       only_if (ready \<noteq> []) (seq [refresh_desired, route])])]))"

end
