(* ===== verification/Sessions.thy ===== *)
theory Sessions
  imports Mutes
begin

text \<open>
  The calibration session of \<^verbatim>\<open>controller/state/calibration.rs\<close>: room noise is recorded, then speech, then
  a proposal is reviewed and accepted; anything that changes the input on the way expires the session.
\<close>

subsection \<open>Effects of a source\<close>

definition require_fx_source :: "controller \<Rightarrow> source_id \<Rightarrow> unit res" where
  "require_fx_source s source =
     rbind (require_writable (cs_sources (c_store s))) (\<lambda>_.
     ensure (case im_get (the_sources s) source of None \<Rightarrow> False | Some src \<Rightarrow> src_kind src = Device)
       (error_invalid ''Effects require a capture source''))"

definition set_source_fx :: "source_id \<Rightarrow> fx_settings \<Rightarrow> unit res cact" where
  "set_source_fx source settings = ask (\<lambda>s.
     try_pure (require_fx_source s source) (\<lambda>_.
     try_pure (fx_validated settings) (\<lambda>settings.
     guard_ok (im_contains (the_sources s) source) (error_invalid ''Unknown source'')
       (commit_sources (im_adjust (the_sources s) source (\<lambda>src. src\<lparr>src_fx := Some settings\<rparr>))))))"

definition current_fx :: "controller \<Rightarrow> source_id \<Rightarrow> fx_settings" where
  "current_fx s source = (case Option.bind (im_get (the_sources s) source) src_fx of
     None \<Rightarrow> fx_default | Some fx \<Rightarrow> fx)"

subsection \<open>Commands of the session\<close>

definition new_token :: "controller \<Rightarrow> source_id \<Rightarrow> calibration_token res" where
  "new_token s source =
     rbind (calibration_capture s source) (\<lambda>capture.
     rbind (capture_channels (cap_channels capture)) (\<lambda>channels.
       Inr \<lparr>tk_session = c_next_session s, tk_source = source, tk_node_name = cap_node_name capture,
            tk_identity = cap_identity capture, tk_channels = channels\<rparr>))"

definition start_calibration :: "source_id \<Rightarrow> unit res cact" where
  "start_calibration source = bnd cancel_calibration (\<lambda>_. ask (\<lambda>s.
     try_pure (new_token s source) (\<lambda>token.
     try_pure (ok_or (identity_error ''Calibration source has no current capture binding'')
       (im_get (c_bindings s) (tk_node_name token))) (\<lambda>binding.
     try_pure (ok_or (error_unavailable ''Calibration session space exhausted'') (checked_add (c_next_session s) 1)) (\<lambda>n.
     done_ok [
       upd (\<lambda>s. s\<lparr>c_next_session := n,
         c_view := (c_view s)\<lparr>av_calibration := Some \<lparr>cal_token = token, cal_phase = NoiseReady\<rparr>\<rparr>,
         c_calibration := Some \<lparr>cl_token = token, cl_binding = binding, cl_recording = None, cl_floor = None,
           cl_proposal = None\<rparr>\<rparr>),
       clear_issue ''calibration'',
       touch])))))"

definition on_session :: "(calibration_session \<Rightarrow> calibration_session) \<Rightarrow> unit cact" where
  "on_session f = upd (\<lambda>s. s\<lparr>c_calibration := map_option f (c_calibration s)\<rparr>)"

definition out_of_order :: "controller \<Rightarrow> bool \<Rightarrow> bool" where
  "out_of_order s speech = (case c_calibration s of None \<Rightarrow> True
     | Some session \<Rightarrow> cl_recording session \<noteq> None \<or> cl_proposal session \<noteq> None \<or> speech \<noteq> (cl_floor session \<noteq> None))"

definition record_calibration :: "command_id \<Rightarrow> calibration_token \<Rightarrow> bool \<Rightarrow> unit res cact" where
  "record_calibration command token speech = bnd refresh_calibration_validity (\<lambda>_. ask (\<lambda>s.
     try_pure (validate_calibration s token) (\<lambda>_.
     guard_ok (\<not> out_of_order s speech)
       (error_invalid ''Record room noise once, then speech, then review the proposal'')
       (bnd (dispatch (RecordCalibration token (if speech then SPEECH_SECONDS else FLOOR_SECONDS))) (\<lambda>r. case r of
          Inl e \<Rightarrow> bnd (expire_calibration e) (\<lambda>_. fail_with e)
        | Inr _ \<Rightarrow> done_ok [
            on_session (\<lambda>c. c\<lparr>cl_recording := Some (command, speech)\<rparr>),
            on_request command (\<lambda>r. r\<lparr>rq_waiting := True\<rparr>),
            enter_phase (if speech then RecordingSpeech else RecordingNoise)])))))"

definition accept_calibration :: "calibration_token \<Rightarrow> unit res cact" where
  "accept_calibration token = bnd refresh_calibration_validity (\<lambda>_. ask (\<lambda>s.
     try_pure (validate_calibration s token) (\<lambda>_.
     try_pure (ok_or (error_invalid ''Record both calibration phases and review before applying'')
       (Option.bind (c_calibration s) cl_proposal)) (\<lambda>(analysis, tone).
     try_pure (proposed_settings analysis (current_fx s (tk_source token)) (Some tone)) (\<lambda>settings.
     bnd (cancel_pending (\<lambda>key. key = PendingFx (tk_source token))) (\<lambda>_.
     bnd (set_source_fx (tk_source token) settings) (\<lambda>r. case r of
         Inl e \<Rightarrow> bnd (expire_calibration e) (\<lambda>_. fail_with e)
       | Inr _ \<Rightarrow> done_ok [
           upd (\<lambda>s. s\<lparr>c_calibration := None, c_view := (c_view s)\<lparr>av_calibration := None\<rparr>\<rparr>),
           clear_issue ''calibration'',
           touch])))))))"

definition cancel_calibration_token :: "calibration_token \<Rightarrow> unit res cact" where
  "cancel_calibration_token token = ask (\<lambda>s.
     if (case av_calibration (c_view s) of None \<Rightarrow> False | Some c \<Rightarrow> cal_token c = token)
     then done_ok [cancel_calibration]
     else fail_with (identity_error ''Calibration session is no longer current''))"

subsection \<open>The end of a recording\<close>

text \<open>\<^verbatim>\<open>{:.1}\<close> and \<^verbatim>\<open>{:+.0}\<close> of a double: the exact value, rounded half to even.\<close>

definition float_text :: "string \<Rightarrow> nat \<Rightarrow> f64 \<Rightarrow> string" where
  "float_text sign places x = (case x of
       FNaN \<Rightarrow> ''NaN''
     | FInf neg \<Rightarrow> (if neg then ''-inf'' else sign @ ''inf'')
     | FFin neg m \<Rightarrow>
         (let n = nat (round_half_even (m * 10 ^ places)) in
          (if neg then ''-'' else sign) @ show_nat (n div 10 ^ places) @
          (if places = 0 then [] else ''.'' @ show_nat (n mod 10 ^ places))))"

definition fixed1 :: "f64 \<Rightarrow> string" where "fixed1 = float_text [] 1"
definition signed0 :: "f64 \<Rightarrow> string" where "signed0 = float_text ''+'' 0"

definition proposal_summary :: "analysis \<Rightarrow> tone_proposal \<Rightarrow> fx_settings \<Rightarrow> string" where
  "proposal_summary a tone settings =
     ''Noise floor: '' @ fixed1 (ml_floor_db (an_measured a)) @ '' dB'' @ [CHR 0x0A] @
     ''Quiet / loud speech: '' @ fixed1 (ml_quiet_voice_db (an_measured a)) @ '' / '' @
       fixed1 (ml_loud_voice_db (an_measured a)) @ '' dB'' @ [CHR 0x0A, CHR 0x0A] @
     ''Gate: '' @ fixed1 (fx_gate_thresh settings) @ '' dB'' @ [CHR 0x0A] @
     ''Compressor: '' @ fixed1 (fx_comp_thresh settings) @ '' dB, '' @ fixed1 (fx_comp_ratio settings) @ '':1'' @ [CHR 0x0A] @
     ''Low cut: '' @ show_nat (unat (fx_lowcut settings)) @ '' Hz'' @ [CHR 0x0A] @
     ''High shelf: '' @ signed0 (fx_eq_high settings) @ '' dB'' @
     (if to_mono tone = Some True then [CHR 0x0A] @ ''Mono: enabled (one channel is very quiet)'' else [])"

definition speech_proposal ::
  "controller \<Rightarrow> source_id \<Rightarrow> metrics \<Rightarrow> metrics \<Rightarrow> (analysis \<times> tone_proposal \<times> fx_settings) res" where
  "speech_proposal s source flo m =
     rbind (analyze (me_peaks_db flo) (me_peaks_db m)) (\<lambda>a.
     rbind (analyze_tone flo m) (\<lambda>tone.
     rbind (proposed_settings a (current_fx s source) (Some tone)) (\<lambda>settings. Inr (a, tone, settings))))"

definition recording_over :: "command_id \<Rightarrow> unit cact" where
  "recording_over command = seq [
     on_session (\<lambda>c. c\<lparr>cl_recording := None\<rparr>),
     on_request command (\<lambda>r. r\<lparr>rq_waiting := False\<rparr>),
     finish_if_ready command]"

text \<open>A session that records speech has its noise; \<^verbatim>\<open>expect\<close> would panic otherwise.\<close>

definition calibration_complete :: "calibration_event \<Rightarrow> unit cact" where
  "calibration_complete event = ask (\<lambda>s.
     if c_frozen s then skip
     else (case c_calibration s of
         None \<Rightarrow> skip
       | Some session \<Rightarrow>
           if cl_token session \<noteq> ce_token event then skip
           else (case cl_recording session of
               None \<Rightarrow> skip
             | Some (command, speech) \<Rightarrow>
                 (case validate_calibration s (ce_token event) of
                    Inl e \<Rightarrow> expire_calibration e
                  | Inr _ \<Rightarrow>
                      (case ce_result event of
                         Inl e \<Rightarrow> if err_code e = Cancelled then cancel_calibration else expire_calibration e
                       | Inr m \<Rightarrow>
                           if speech
                           then (case cl_floor session of
                               None \<Rightarrow> skip
                             | Some flo \<Rightarrow>
                                 (case speech_proposal s (tk_source (ce_token event)) flo m of
                                    Inl e \<Rightarrow> expire_calibration e
                                  | Inr (a, tone, settings) \<Rightarrow> seq [
                                      on_session (\<lambda>c. c\<lparr>cl_proposal := Some (a, tone)\<rparr>),
                                      enter_phase (Review settings (proposal_summary a tone settings)),
                                      recording_over command]))
                           else seq [
                             on_session (\<lambda>c. c\<lparr>cl_floor := Some m\<rparr>),
                             enter_phase SpeechReady,
                             recording_over command])))))"

end
