(* ===== verification/Recall.thy ===== *)
theory Recall
  imports Sessions
begin

text \<open>
  Saving, deleting and applying scenes: \<^verbatim>\<open>controller/state/scene.rs\<close>.
\<close>

subsection \<open>Equality of what is stored\<close>

text \<open>
  The derived \<^verbatim>\<open>PartialEq\<close>: maps compare as maps and doubles as numbers.
\<close>

definition map_equal :: "('v \<Rightarrow> 'v \<Rightarrow> bool) \<Rightarrow> ('k, 'v) imap \<Rightarrow> ('k, 'v) imap \<Rightarrow> bool" where
  "map_equal eq m n \<longleftrightarrow> length m = length n \<and>
     list_all (\<lambda>(k, v). case im_get n k of None \<Rightarrow> False | Some w \<Rightarrow> eq v w) m"

fun number_equal :: "jnumber \<Rightarrow> jnumber \<Rightarrow> bool" where
  "number_equal (PosInt a) (PosInt b) = (a = b)"
| "number_equal (NegInt a) (NegInt b) = (a = b)"
| "number_equal (JFloat a) (JFloat b) = f64_eq a b"
| "number_equal _ _ = False"

function json_equal :: "json \<Rightarrow> json \<Rightarrow> bool" where
  "json_equal JNull w = (w = JNull)"
| "json_equal (JBool a) w = (w = JBool a)"
| "json_equal (JNumber a) w = (case w of JNumber b \<Rightarrow> number_equal a b | _ \<Rightarrow> False)"
| "json_equal (JString a) w = (w = JString a)"
| "json_equal (JArray xs) w = (case w of JArray ys \<Rightarrow> list_all2 json_equal xs ys | _ \<Rightarrow> False)"
| "json_equal (JObject m) w = (case w of JObject n \<Rightarrow> length m = length n \<and>
     list_all (\<lambda>(k, x). case im_get n k of None \<Rightarrow> False | Some y \<Rightarrow> json_equal x y) m | _ \<Rightarrow> False)"
  by pat_completeness auto
termination
  by (relation "measure (size \<circ> fst)") (auto simp: less_Suc_eq_le intro!: size_list_estimation' dest: size_list_estimation')

definition source_equal :: "source \<Rightarrow> source \<Rightarrow> bool" where
  "source_equal a b \<longleftrightarrow> src_id a = src_id b \<and> src_kind a = src_kind b \<and> src_name a = src_name b \<and>
     src_icon_name a = src_icon_name b \<and> match_app_names a = match_app_names b \<and>
     src_node_name a = src_node_name b \<and> f64_eq (src_level a) (src_level b) \<and> src_muted a = src_muted b \<and>
     src_protected a = src_protected b \<and> src_group a = src_group b \<and>
     option_equal fx_equal (src_fx a) (src_fx b) \<and> map_equal json_equal (src_extra a) (src_extra b)"

definition level_equal :: "level_state \<Rightarrow> level_state \<Rightarrow> bool" where
  "level_equal a b \<longleftrightarrow> f64_eq (lv_volume a) (lv_volume b) \<and> lv_muted a = lv_muted b \<and>
     map_equal json_equal (lv_extra a) (lv_extra b)"

definition matrix_equal :: "matrix_state \<Rightarrow> matrix_state \<Rightarrow> bool" where
  "matrix_equal a b \<longleftrightarrow> map_equal level_equal (ms_cells a) (ms_cells b) \<and>
     map_equal (=) (ms_outputs a) (ms_outputs b) \<and> map_equal level_equal (ms_volumes a) (ms_volumes b) \<and>
     map_equal json_equal (ms_extra a) (ms_extra b)"

subsection \<open>Saving\<close>

definition level_patch_of :: "level_state \<Rightarrow> level_patch" where
  "level_patch_of l = \<lparr>lp_volume = Some (lv_volume l), lp_muted = Some (lv_muted l)\<rparr>"

definition saved_cells :: "sources \<Rightarrow> mixes \<Rightarrow> matrix_state \<Rightarrow> (string, level_patch) imap" where
  "saved_cells srcs ms matrix = im_collect (concat (map (\<lambda>source. map (\<lambda>m.
     (cell_key source m, level_patch_of (matrix_cell matrix source m))) (im_keys ms)) (im_keys srcs)))"

definition hardware_patch_default :: hardware_patch where
  "hardware_patch_default = \<lparr>hwp_gain_raw = None, hwp_mute = None, hwp_volume_db = None, hwp_low_impedance = None,
     hwp_monitor_mix = None\<rparr>"

definition hardware_patch_of :: "unit_snapshot \<Rightarrow> hardware_patch" where
  "hardware_patch_of u = (let p = profile (uid_profile (us_id u)) in case known (us_state u) of
       None \<Rightarrow> hardware_patch_default
     | Some st \<Rightarrow> \<lparr>hwp_gain_raw = Some (gain_raw st), hwp_mute = Some (ds_muted st),
         hwp_volume_db = Some (hp_volume_db st),
         hwp_low_impedance = (if has_low_z p then ds_low_impedance st else None),
         hwp_monitor_mix = (if has_monitor_mix p then ds_monitor_mix st else None)\<rparr>)"

definition unit_identity :: "unit_snapshot \<Rightarrow> profile_id \<times> string" where
  "unit_identity u = (uid_profile (us_id u), di_serial (us_info u))"

definition saved_hardware :: "unit_snapshot list \<Rightarrow> (string, hardware_patch) imap" where
  "saved_hardware units = im_collect (map
     (\<lambda>u. (hardware_key (uid_profile (us_id u)) (di_serial (us_info u)), hardware_patch_of u))
     (filter (\<lambda>u. count_list (map unit_identity units) (unit_identity u) = 1) units))"

definition current_scene :: "controller \<Rightarrow> string \<Rightarrow> scene" where
  "current_scene s name = \<lparr>sc_name = name,
     sc_sources = Some (im_collect (map (\<lambda>(i, src).
       (i, \<lparr>sp_level = Some (src_level src), sp_muted = Some (src_muted src)\<rparr>)) (the_sources s))),
     sc_cells = Some (saved_cells (the_sources s) (the_mixes s) (the_matrix s)),
     sc_outputs = Some (im_collect (map (\<lambda>i. (i, Some (matrix_output (the_matrix s) i))) (im_keys (the_mixes s)))),
     sc_volumes = Some (im_collect (map (\<lambda>(i, l). (i, level_patch_of l))
       (filter (\<lambda>(i, _). im_contains (the_mixes s) i) (ms_volumes (the_matrix s))))),
     sc_hardware = Some (saved_hardware (im_values (c_units s)))\<rparr>"

definition commit_scenes :: "scene_store \<Rightarrow> unit res cact" where
  "commit_scenes saved = attempt (store_replace scenes_field saved) (\<lambda>_. done_ok [refresh_desired, route])"

definition save_scene :: "string \<Rightarrow> unit res cact" where
  "save_scene text_name = ask (\<lambda>s. let name = trim text_name in
     guard_ok (name \<noteq> []) (error_invalid ''A scene needs a name'')
     (try_pure (require_writable (cs_sources (c_store s))) (\<lambda>_.
      try_pure (require_writable (cs_mixes (c_store s))) (\<lambda>_.
      try_pure (require_writable (cs_matrix (c_store s))) (\<lambda>_.
      try_pure (require_writable (cs_scenes (c_store s))) (\<lambda>_.
      try_pure (scene_validate (current_scene s name)) (\<lambda>_.
        commit_scenes (im_insert (the_scenes s) (scene_id_from_name name) (current_scene s name)))))))))"

definition delete_scene :: "scene_id \<Rightarrow> unit res cact" where
  "delete_scene i = ask (\<lambda>s.
     try_pure (require_writable (cs_scenes (c_store s))) (\<lambda>_.
     guard_ok (im_contains (the_scenes s) i) (error_invalid (''Unknown scene: '' @ i))
       (commit_scenes (im_shift_remove (the_scenes s) i))))"

subsection \<open>Patching the sources\<close>

definition section_or_empty :: "(string, 'a) imap option \<Rightarrow> (string, 'a) imap" where
  "section_or_empty m = (case m of None \<Rightarrow> [] | Some m \<Rightarrow> m)"

definition skipped_issue :: "string \<Rightarrow> string \<Rightarrow> operation_issue" where
  "skipped_issue target message = \<lparr>oi_target = target, oi_message = message\<rparr>"

text \<open>A recalled mute of a unit is passed on to the rows bound to it that the scene says nothing about.\<close>

definition mirror_mute :: "controller \<Rightarrow> (string, source_patch) imap \<Rightarrow> hardware_selection \<Rightarrow> (string, source_patch) imap" where
  "mirror_mute s patches entry = (case hwp_mute (hs_patch entry) of
       None \<Rightarrow> patches
     | Some muted \<Rightarrow> foldl (\<lambda>m i. im_upsert m i \<lparr>sp_level = None, sp_muted = None\<rparr>
         (\<lambda>p. p\<lparr>sp_muted := or_else (sp_muted p) (Some muted)\<rparr>)) patches (unit_sources s (hs_unit entry)))"

definition known_source :: "sources \<Rightarrow> string \<Rightarrow> bool" where
  "known_source srcs key \<longleftrightarrow> (case stable_id_new key of Inl _ \<Rightarrow> False | Inr i \<Rightarrow> im_contains srcs i)"

definition patch_source ::
  "operation_issue list \<times> sources res \<Rightarrow> string \<times> source_patch \<Rightarrow> operation_issue list \<times> sources res" where
  "patch_source st e = (case (st, e) of ((skipped, r), (key, patch)) \<Rightarrow> (case r of
       Inl e \<Rightarrow> (skipped, Inl e)
     | Inr srcs \<Rightarrow>
         if \<not> known_source srcs key
         then (skipped @ [skipped_issue (''source '' @ key) ''Source no longer exists''], Inr srcs)
         else
           (let srcs = (case sp_level patch of None \<Rightarrow> srcs
                | Some level \<Rightarrow> im_adjust srcs key (\<lambda>src. src\<lparr>src_level := level\<rparr>))
            in (skipped, case sp_muted patch of None \<Rightarrow> Inr srcs
                | Some muted \<Rightarrow> rbind (set_source_muted srcs key muted) (\<lambda>(srcs, _). Inr srcs)))))"

definition overtaken :: "sources \<Rightarrow> (string, source_patch) imap \<Rightarrow> operation_issue list" where
  "overtaken srcs patches = map (\<lambda>(key, _). skipped_issue (''source '' @ key) ''A later recalled group member is open'')
     (filter (\<lambda>(key, patch). sp_muted patch = Some False \<and> known_source srcs key \<and> muted_of srcs key) patches)"

definition patch_sources :: "sources \<Rightarrow> (string, source_patch) imap \<Rightarrow> operation_issue list \<times> sources res" where
  "patch_sources before patches =
     (case foldl patch_source ([], Inr before) patches of
        (skipped, Inl e) \<Rightarrow> (skipped, Inl e)
      | (skipped, Inr srcs) \<Rightarrow> (skipped @ overtaken srcs patches, Inr srcs))"

text \<open>Everything skipped while the sources were patched; a failure to save them is an issue of the request.\<close>

definition recall_sources :: "command_id \<Rightarrow> (string, source_patch) imap \<Rightarrow> operation_issue list cact" where
  "recall_sources command patches = ask (\<lambda>s.
     if patches = [] then ret []
     else (case require_writable (cs_sources (c_store s)) of
         Inl e \<Rightarrow> bnd (operation_failure (Some command) ''source persistence'' e) (\<lambda>_. ret [])
       | Inr _ \<Rightarrow>
           (case patch_sources (the_sources s) patches of (skipped, r) \<Rightarrow>
              bnd (handle (try_pure r (\<lambda>srcs.
                     if map_equal source_equal srcs (the_sources s) then ret (Inr ()) else commit_sources srcs))
                  (operation_failure (Some command) ''source persistence'')) (\<lambda>_. ret skipped))))"

subsection \<open>Superseded edits\<close>

definition patched_fields :: "hardware_selection \<Rightarrow> pending_key list" where
  "patched_fields entry = (let p = hs_patch entry in map (\<lambda>(_, f). PendingDevice (hs_unit entry) f) (filter fst
     [(hwp_gain_raw p \<noteq> None, FieldGain), (hwp_mute p \<noteq> None, FieldMute), (hwp_volume_db p \<noteq> None, FieldHeadphones),
      (hwp_low_impedance p \<noteq> None, FieldLowImpedance), (hwp_monitor_mix p \<noteq> None, FieldMonitor)]))"

definition bound_mute :: "controller \<Rightarrow> source_id \<Rightarrow> pending_key option" where
  "bound_mute s i = map_option (\<lambda>u. PendingDevice u FieldMute)
     (Option.bind (im_get (the_sources s) i) (bound_unit s))"

definition superseded_keys ::
  "controller \<Rightarrow> sources \<Rightarrow> hardware_selection list \<Rightarrow> (string, source_patch) imap \<Rightarrow> scene \<Rightarrow> pending_key list" where
  "superseded_keys s before selected patches sc =
     concat (map patched_fields selected) @
     List.map_filter (\<lambda>(key, _). Option.bind (res_ok (stable_id_new key)) (bound_mute s))
       (filter (\<lambda>(_, patch). sp_muted patch \<noteq> None) patches) @
     List.map_filter (\<lambda>(i, _). bound_mute s i)
       (filter (\<lambda>(i, src). case im_get before i of None \<Rightarrow> False | Some old \<Rightarrow> src_muted old \<noteq> src_muted src) (the_sources s)) @
     List.map_filter (\<lambda>(key, _). map_option (\<lambda>(source, m). PendingCell source m) (res_ok (parse_cell_key key)))
       (section_or_empty (sc_cells sc))"

subsection \<open>Patching the matrix\<close>

definition patch_level :: "level_patch \<Rightarrow> level_state \<Rightarrow> level_state" where
  "patch_level p l =
     (let l = (case lp_volume p of None \<Rightarrow> l | Some v \<Rightarrow> l\<lparr>lv_volume := v\<rparr>)
      in case lp_muted p of None \<Rightarrow> l | Some m \<Rightarrow> l\<lparr>lv_muted := m\<rparr>)"

definition known_cell :: "sources \<Rightarrow> mixes \<Rightarrow> string \<Rightarrow> bool" where
  "known_cell srcs ms key \<longleftrightarrow> (case parse_cell_key key of Inl _ \<Rightarrow> False
     | Inr (source, m) \<Rightarrow> im_contains srcs source \<and> im_contains ms m)"

definition known_mix :: "mixes \<Rightarrow> string \<Rightarrow> bool" where
  "known_mix ms key \<longleftrightarrow> (case stable_id_new key of Inl _ \<Rightarrow> False | Inr i \<Rightarrow> im_contains ms i)"

definition patch_cell ::
  "sources \<Rightarrow> mixes \<Rightarrow> operation_issue list \<times> matrix_state \<Rightarrow> string \<times> level_patch \<Rightarrow> operation_issue list \<times> matrix_state" where
  "patch_cell srcs ms st e = (case (st, e) of ((skipped, matrix), (key, p)) \<Rightarrow>
     if \<not> known_cell srcs ms key
     then (skipped @ [skipped_issue (''cell '' @ key) ''Source or mix no longer exists''], matrix)
     else (skipped, matrix\<lparr>ms_cells := im_upsert (ms_cells matrix) key level_default (patch_level p)\<rparr>))"

definition recalled_choice :: "string option \<Rightarrow> string" where
  "recalled_choice choice = (case choice of None \<Rightarrow> ''auto'' | Some c \<Rightarrow> if c = [] then ''auto'' else c)"

definition patch_output ::
  "mixes \<Rightarrow> operation_issue list \<times> matrix_state \<Rightarrow> string \<times> string option \<Rightarrow> operation_issue list \<times> matrix_state" where
  "patch_output ms st e = (case (st, e) of ((skipped, matrix), (key, choice)) \<Rightarrow>
     if known_mix ms key \<and> \<not> starts_with ''openwave_'' (recalled_choice choice)
     then (skipped, matrix\<lparr>ms_outputs := im_insert (ms_outputs matrix) key (recalled_choice choice)\<rparr>)
     else (skipped @ [skipped_issue (''output '' @ key) ''Mix is missing or output is an OpenWave virtual node''], matrix))"

definition master_default :: level_state where
  "master_default = level_default\<lparr>lv_volume := FFin False 1\<rparr>"

definition patch_volume ::
  "mixes \<Rightarrow> operation_issue list \<times> matrix_state \<Rightarrow> string \<times> level_patch \<Rightarrow> operation_issue list \<times> matrix_state" where
  "patch_volume ms st e = (case (st, e) of ((skipped, matrix), (key, p)) \<Rightarrow>
     if \<not> known_mix ms key
     then (skipped @ [skipped_issue (''volume '' @ key) ''Mix no longer exists''], matrix)
     else (skipped, matrix\<lparr>ms_volumes := im_upsert (ms_volumes matrix) key master_default (patch_level p)\<rparr>))"

definition patch_matrix :: "sources \<Rightarrow> mixes \<Rightarrow> scene \<Rightarrow> matrix_state \<Rightarrow> operation_issue list \<times> matrix_state" where
  "patch_matrix srcs ms sc matrix =
     foldl (patch_volume ms)
       (foldl (patch_output ms)
         (foldl (patch_cell srcs ms) ([], matrix) (section_or_empty (sc_cells sc)))
         (section_or_empty (sc_outputs sc)))
       (section_or_empty (sc_volumes sc))"

definition matrix_admitted :: "controller \<Rightarrow> scene \<Rightarrow> unit res" where
  "matrix_admitted s sc =
     rbind (require_writable (cs_matrix (c_store s))) (\<lambda>_.
     rbind (require_writable (cs_mixes (c_store s))) (\<lambda>_.
     if section_or_empty (sc_cells sc) = [] then Inr () else require_writable (cs_sources (c_store s))))"

definition recall_matrix :: "command_id \<Rightarrow> scene \<Rightarrow> operation_issue list cact" where
  "recall_matrix command sc = ask (\<lambda>s.
     if section_or_empty (sc_cells sc) = [] \<and> section_or_empty (sc_outputs sc) = [] \<and> section_or_empty (sc_volumes sc) = []
     then ret []
     else (case matrix_admitted s sc of
         Inl e \<Rightarrow> bnd (operation_failure (Some command) ''matrix persistence'' e) (\<lambda>_. ret [])
       | Inr _ \<Rightarrow>
           (case patch_matrix (the_sources s) (the_mixes s) sc (the_matrix s) of (skipped, matrix) \<Rightarrow>
              bnd (handle (if matrix_equal matrix (the_matrix s) then ret (Inr ()) else commit_matrix matrix)
                  (operation_failure (Some command) ''matrix persistence'')) (\<lambda>_. ret skipped))))"

subsection \<open>Hardware\<close>

text \<open>The settings to write to a recalled unit, and what cannot be recalled.\<close>

definition hardware_settings ::
  "controller \<Rightarrow> sources \<Rightarrow> hardware_selection \<Rightarrow> operation_issue list \<times> device_setting list" where
  "hardware_settings s before entry =
     (let u = hs_unit entry; p = profile (uid_profile u); patch = hs_patch entry;
          cannot = (\<lambda>field message. [skipped_issue (''hardware '' @ hs_key entry @ '': '' @ field) message]);
          bound = unit_sources s u;
          changed = list_ex (\<lambda>i. case im_get before i of None \<Rightarrow> False
            | Some old \<Rightarrow> src_muted old \<noteq> muted_of (the_sources s) i) bound;
          gain = (case hwp_gain_raw patch of None \<Rightarrow> ([], [])
            | Some g \<Rightarrow>
                if av_selected_unit (c_view s) = Some u \<and> pf_gain_locked (av_preferences (c_view s))
                then (cannot ''gain'' ''Selected device gain is locked'', [])
                else if gain_max p < g then (cannot ''gain'' ''Gain exceeds profile range'', [])
                else ([], [GainRaw g]));
          mute = (if hwp_mute patch \<noteq> None \<or> changed
            then (case (if bound = [] then hwp_mute patch else Some (all_muted s bound)) of
                None \<Rightarrow> ([], []) | Some m \<Rightarrow> ([], [Mute m]))
            else ([], []));
          phones = (case hwp_volume_db patch of None \<Rightarrow> ([], [])
            | Some db \<Rightarrow> if f64_lt db (hp_min_db p)
                then (cannot ''headphone volume'' ''Headphone level is outside profile range'', [])
                else ([], [HeadphoneDb db]));
          low_z = (case hwp_low_impedance patch of None \<Rightarrow> ([], [])
            | Some z \<Rightarrow> if has_low_z p then ([], [LowImpedance z])
                else (cannot ''low impedance'' ''Unsupported by this profile'', []));
          monitor = (case hwp_monitor_mix patch of None \<Rightarrow> ([], [])
            | Some m \<Rightarrow> if \<not> has_monitor_mix p \<or> mix_max p < m
                then (cannot ''monitor mix'' ''Unsupported or outside profile range'', [])
                else ([], [MonitorMix m]));
          parts = [gain, mute, phones, low_z, monitor]
      in (concat (map fst parts), concat (map snd parts)))"

fun recall_hardware :: "command_id \<Rightarrow> sources \<Rightarrow> hardware_selection list \<Rightarrow> operation_issue list cact" where
  "recall_hardware command before [] = ret []"
| "recall_hardware command before (entry # entries) = ask (\<lambda>s.
     case hardware_settings s before entry of (skipped, settings) \<Rightarrow>
       bnd (handle (queue_device (Some command) (hs_unit entry) settings)
             (operation_failure (Some command) (''hardware '' @ hs_key entry))) (\<lambda>_.
       bnd (recall_hardware command before entries) (\<lambda>rest. ret (skipped @ rest))))"

subsection \<open>Applying\<close>

definition resolved_hardware :: "controller \<Rightarrow> scene \<Rightarrow> hardware_resolution" where
  "resolved_hardware s sc = resolve_hardware (section_or_empty (sc_hardware sc))
     (map (\<lambda>u. \<lparr>hc_unit = us_id u, hc_serial = di_serial (us_info u)\<rparr>) (im_values (c_units s)))"

definition recall :: "command_id \<Rightarrow> scene_id \<Rightarrow> scene \<Rightarrow> unit cact" where
  "recall command i sc = ask (\<lambda>s.
     let resolved = resolved_hardware s sc; selected = hr_selected resolved;
         patches = foldl (mirror_mute s) (section_or_empty (sc_sources sc)) selected;
         before = the_sources s
     in bnd (recall_sources command patches) (\<lambda>skipped_sources.
        bnd (ask (\<lambda>s. let keys = superseded_keys s before selected patches sc in cancel_pending (\<lambda>key. key \<in> set keys))) (\<lambda>_.
        bnd (recall_matrix command sc) (\<lambda>skipped_matrix.
        bnd (sync_mutes_excluding before (SceneOrigin i) (Some command) (map hs_unit selected)) (\<lambda>_.
        bnd (recall_hardware command before selected) (\<lambda>skipped_hardware.
        on_request command (\<lambda>r. r\<lparr>rq_skipped := rq_skipped r @ hr_skipped resolved @ skipped_sources @
          skipped_matrix @ skipped_hardware\<rparr>)))))))"

definition apply_scene :: "command_id \<Rightarrow> scene_id \<Rightarrow> unit res cact" where
  "apply_scene command i = ask (\<lambda>s.
     try_pure (require_writable (cs_scenes (c_store s))) (\<lambda>_.
     try_pure (ok_or (error_invalid (''Unknown scene: '' @ i)) (im_get (the_scenes s) i)) (\<lambda>sc.
     try_pure (scene_validate sc) (\<lambda>_.
     guard_ok (im_contains (c_requests s) command) (error_invalid ''Scene request is not accepted'')
       (done_ok [
          on_request command (\<lambda>r. r\<lparr>rq_scene := True\<rparr>),
          on_view (\<lambda>v. v\<lparr>av_scene_outcome := None, av_scene_pending := True\<rparr>),
          touch,
          recall command i sc])))))"

end
