(* ===== verification/Observe.thy ===== *)
theory Observe
  imports Recall
begin

text \<open>
  The events of the back end: \<^verbatim>\<open>observe\<close> of \<^verbatim>\<open>controller/state.rs\<close>, with \<^verbatim>\<open>follow_capture_mutes\<close> and
  \<^verbatim>\<open>auto_add_captures\<close> of \<^verbatim>\<open>controller/state/mutations.rs\<close>.
\<close>

subsection \<open>Units\<close>

definition follow_unit_mute :: "unit_id \<Rightarrow> bool \<Rightarrow> bool \<Rightarrow> source_id \<Rightarrow> unit cact" where
  "follow_unit_mute u desired muted source = ask (\<lambda>s.
     only_if (desired \<noteq> muted \<and> \<not> unit_mute_pending s u \<and> muted_of (the_sources s) source \<noteq> muted)
       (handle (set_source_mute source muted (HardwareOrigin u) None) (\<lambda>e. issue ''sources'' (err_message e))))"

definition observe_unit :: "unit_snapshot \<Rightarrow> unit cact" where
  "observe_unit u = ask (\<lambda>s. only_if (us_id u \<notin> set (c_retired s)) (seq [
     upd (\<lambda>s. s\<lparr>c_units := im_insert (c_units s) (us_id u) u\<rparr>),
     on_view (\<lambda>v. v\<lparr>av_selected_unit := or_else (av_selected_unit v) (Some (us_id u))\<rparr>),
     ask (\<lambda>s. case (c_frozen s, known (us_state u)) of
         (False, Some st) \<Rightarrow>
           (let targets = unit_sources s (us_id u)
            in each (follow_unit_mute (us_id u) (all_muted s targets) (ds_muted st)) targets)
       | _ \<Rightarrow> skip),
     sync_unit_view]))"

text \<open>\<^verbatim>\<open>min_by_key\<close>: the first unit with the least place.\<close>

definition first_unit :: "unit_id list \<Rightarrow> unit_id option" where
  "first_unit us = (case us of [] \<Rightarrow> None
     | u # us \<Rightarrow> Some (foldl (\<lambda>a b. if unit_place b < unit_place a then b else a) u us))"

definition retire_unit :: "unit_id \<Rightarrow> unit cact" where
  "retire_unit u = seq [
     upd (\<lambda>s. s\<lparr>c_retired := List.insert u (c_retired s), c_units := im_shift_remove (c_units s) u\<rparr>),
     cancel_pending (\<lambda>key. case key of PendingDevice target _ \<Rightarrow> target = u | _ \<Rightarrow> False),
     upd (\<lambda>s. s\<lparr>c_intents := im_retain (\<lambda>(target, _) _. target \<noteq> u) (c_intents s)\<rparr>),
     upd (\<lambda>s. if av_selected_unit (c_view s) = Some u
       then s\<lparr>c_view := (c_view s)\<lparr>av_selected_unit := first_unit (im_keys (c_units s))\<rparr>\<rparr> else s),
     sync_unit_view]"

definition captured_unit_error :: operation_error where
  "captured_unit_error = error_new Identity ''Worker completion changed captured unit''"

definition forget_unit_state :: "unit_id \<Rightarrow> operation_error \<Rightarrow> unit cact" where
  "forget_unit_state u e = upd (\<lambda>s. s\<lparr>c_units := im_adjust (c_units s) u (\<lambda>us. us\<lparr>us_state := Unknown e\<rparr>)\<rparr>)"

text \<open>The completion of a job that is not owned, or not dispatched, is not for this controller.\<close>

definition stray_completion :: "controller \<Rightarrow> u64 \<Rightarrow> bool" where
  "stray_completion s job = (case im_get (c_jobs s) job of None \<Rightarrow> True | Some owned \<Rightarrow> \<not> jb_dispatched owned)"

definition device_finished :: "u64 \<Rightarrow> unit_id \<Rightarrow> device_state res \<Rightarrow> unit cact" where
  "device_finished job u result = ask (\<lambda>s. case im_get (c_jobs s) job of
       None \<Rightarrow> skip
     | Some owned \<Rightarrow> seq [
         upd (\<lambda>s. s\<lparr>c_jobs := im_shift_remove (c_jobs s) job\<rparr>),
         (if jb_unit owned \<noteq> u
          then seq [
            forget_unit_state (jb_unit owned) captured_unit_error,
            operation_failure (jb_owner owned) ''device identity'' captured_unit_error]
          else (case result of
              Inr state \<Rightarrow> ask (\<lambda>s. case im_get (c_units s) u of None \<Rightarrow> skip
                | Some us \<Rightarrow> observe_unit (us\<lparr>us_state := Known state\<rparr>))
            | Inl e \<Rightarrow> seq [
                forget_unit_state u e,
                operation_failure (jb_owner owned) (device_text u) e])),
         (case jb_owner owned of None \<Rightarrow> skip
          | Some i \<Rightarrow> seq [
              on_request i (\<lambda>r. r\<lparr>rq_remaining := removeAll job (rq_remaining r)\<rparr>),
              finish_if_ready i])])"

subsection \<open>The audio graph\<close>

text \<open>A capture whose mute was requested shows it only once the graph of that request confirms it.\<close>

definition settle_capture ::
  "controller \<Rightarrow> u64 \<Rightarrow> (string, capture_binding \<times> bool) imap \<times> capture_snapshot list \<Rightarrow> capture_snapshot \<Rightarrow>
   (string, capture_binding \<times> bool) imap \<times> capture_snapshot list" where
  "settle_capture s revision st c = (case st of (intents, done) \<Rightarrow>
     (case im_get intents (cap_node_name c) of
        None \<Rightarrow> (intents, done @ [c])
      | Some (binding, muted) \<Rightarrow>
          if revision = c_routing_revision s \<and> im_get (c_bindings s) (cap_node_name c) = Some binding \<and>
             known (cap_muted c) = Some muted
          then (im_shift_remove intents (cap_node_name c), done @ [c])
          else (intents, done @ [c\<lparr>cap_muted := Unknown (error_unavailable ''Capture mute intent is not yet confirmed'')\<rparr>])))"

definition adopt_graph :: "mixer_observation \<Rightarrow> unit cact" where
  "adopt_graph g = upd (\<lambda>s.
     let s = s\<lparr>c_graph_observation := mo_observation g,
               c_graph_revision := map_option (\<lambda>_. mo_revision g) (known (mo_observation g))\<rparr>
     in if graph_known s
        then (case foldl (settle_capture s (mo_revision g)) (c_capture_intents s, []) (mo_captures g) of (intents, captures) \<Rightarrow>
          s\<lparr>c_capture_intents := intents,
            c_view := (c_view s)\<lparr>av_captures := captures, av_streams := mo_streams g, av_outputs := mo_outputs g,
              av_default_output := mo_default_sink g\<rparr>,
            c_observed_mixes := mo_mix_identities g, c_silent_sources := mo_silent_sources g\<rparr>)
        else s\<lparr>c_observed_mixes := [], c_silent_sources := []\<rparr>)"

definition baseline_changed ::
  "(capture_binding \<times> node_identity \<times> bool) option \<Rightarrow> capture_binding \<Rightarrow> capture_snapshot \<Rightarrow> bool \<Rightarrow> bool" where
  "baseline_changed previous binding c muted = (case previous of None \<Rightarrow> False
     | Some (old_binding, ident, was) \<Rightarrow> old_binding = binding \<and> ident = cap_identity c \<and> was \<noteq> muted)"

definition follow_capture :: "capture_snapshot list \<Rightarrow> source_id \<times> source \<Rightarrow> unit cact" where
  "follow_capture captures e = (case e of (i, src) \<Rightarrow> ask (\<lambda>s.
     if src_kind src \<noteq> Device \<or> bound_unit s src \<noteq> None then skip
     else (case filter (\<lambda>c. cap_node_name c = src_node_name src) captures of
         [c] \<Rightarrow>
           (case (known (cap_muted c), im_get (c_bindings s) (src_node_name src)) of
              (Some muted, Some binding) \<Rightarrow> seq [
                upd (\<lambda>s. s\<lparr>c_capture_baselines := im_insert (c_capture_baselines s) i (binding, cap_identity c, muted)\<rparr>),
                only_if (baseline_changed (im_get (c_capture_baselines s) i) binding c muted \<and>
                    (case im_get (the_sources s) i of None \<Rightarrow> False | Some src \<Rightarrow> src_muted src \<noteq> muted))
                  (handle (set_source_mute i muted (CaptureOrigin (cap_identity c)) None)
                    (\<lambda>e. issue ''sources'' (err_message e)))]
            | _ \<Rightarrow> skip)
       | _ \<Rightarrow> skip)))"

definition follow_capture_mutes :: "unit cact" where
  "follow_capture_mutes = ask (\<lambda>s. each (follow_capture (av_captures (c_view s))) (the_sources s))"

definition wave_input :: "capture_snapshot \<Rightarrow> bool" where
  "wave_input c \<longleftrightarrow>
     starts_with ''alsa_input.usb-Elgato_Systems_Elgato_Wave_'' (cap_node_name c) \<or>
     starts_with ''alsa_input.usb-Elgato_Systems_Elgato_XLR_Dock_'' (cap_node_name c) \<or>
     (case strip_prefix ''alsa_input.usb-'' (cap_node_name c) of None \<Rightarrow> False
      | Some name \<Rightarrow> starts_with (capture_serial_prefix (profile XlrDockMk2)) name)"

definition capture_source :: "string \<Rightarrow> capture_snapshot \<Rightarrow> source" where
  "capture_source uuid c = (let src = source_new uuid (cap_name c) Device in
     src\<lparr>src_node_name := cap_node_name c, src_protected := True,
       src_extra := (case cap_channels c of None \<Rightarrow> src_extra src
         | Some n \<Rightarrow> im_insert (src_extra src) ''channels'' (json_u32 n))\<rparr>)"

text \<open>The cells of the former row \<open>mic\<close> go to the first microphone that is added.\<close>

definition legacy_cells :: "matrix_state \<Rightarrow> (string \<times> level_state) list" where
  "legacy_cells matrix = List.map_filter (\<lambda>(key, cell). map_option (\<lambda>m. (m, cell)) (strip_prefix ''mic.'' key)) (ms_cells matrix)"

definition adopt_legacy_cells :: "source_id \<Rightarrow> mixes \<Rightarrow> matrix_state \<Rightarrow> matrix_state" where
  "adopt_legacy_cells i ms matrix = matrix\<lparr>ms_cells := im_retain (\<lambda>key _. \<not> starts_with ''mic.'' key)
     (foldl (\<lambda>cells (m, cell). if im_contains ms m then im_insert cells (cell_key i m) cell else cells)
       (ms_cells matrix) (legacy_cells matrix))\<rparr>"

definition offer_capture :: "string \<Rightarrow> unit cact" where
  "offer_capture node = ask (\<lambda>s.
     let prefs = (av_preferences (c_view s))\<lparr>pf_offered := pf_offered (av_preferences (c_view s)) @ [node]\<rparr>
     in seq [
       only_if (writable (cs_preferences (c_store s)))
         (handle (store_replace preferences_field prefs) (\<lambda>e. issue ''preferences'' (err_message e))),
       on_view (\<lambda>v. v\<lparr>av_preferences := prefs\<rparr>),
       touch])"

definition add_capture :: "bool \<Rightarrow> capture_snapshot \<Rightarrow> unit cact" where
  "add_capture alone c = ask (\<lambda>s.
     if list_ex (\<lambda>src. src_node_name src = cap_node_name c) (im_values (the_sources s)) \<or>
        cap_node_name c \<in> set (pf_offered (av_preferences (c_view s))) then skip
     else (let src = capture_source (c_uuid s (c_fresh s)) c; i = src_id src in
       bnd (upd (\<lambda>s. s\<lparr>c_fresh := c_fresh s + 1\<rparr>)) (\<lambda>_.
       bnd (commit_sources (im_insert (the_sources s) i src)) (\<lambda>r. case r of
           Inl e \<Rightarrow> issue ''sources'' (err_message e)
         | Inr _ \<Rightarrow> seq [
             ask (\<lambda>s. only_if (alone \<and> \<not> im_contains (the_sources s) ''mic'' \<and> legacy_cells (the_matrix s) \<noteq> [])
               (handle (commit_matrix (adopt_legacy_cells i (the_mixes s) (the_matrix s)))
                 (\<lambda>e. issue ''matrix'' (err_message e)))),
             offer_capture (cap_node_name c)]))))"

definition auto_add_captures :: "unit cact" where
  "auto_add_captures = ask (\<lambda>s. only_if (routing_available (c_store s))
     (let captures = filter wave_input (av_captures (c_view s))
      in each (add_capture (length captures = 1)) captures))"

definition graph_observed :: "mixer_observation \<Rightarrow> unit cact" where
  "graph_observed g = seq [
     adopt_graph g,
     upd (\<lambda>s. s\<lparr>c_errors := filter (\<lambda>i. \<not> starts_with ''routing'' (oi_target i)) (c_errors s), c_errors_dirty := True\<rparr>),
     each (\<lambda>i. issue (''routing: '' @ oi_target i) (oi_message i)) (mo_errors g),
     ask (\<lambda>s. only_if (graph_known s \<and> mo_revision g = c_routing_revision s) (set_meter_targets (mo_meter_targets g))),
     ask (\<lambda>s. only_if (\<not> c_frozen s) (seq [
       only_if (graph_known s) (seq [
         only_if (mo_revision g = c_routing_revision s) follow_capture_mutes,
         auto_add_captures]),
       refresh_calibration_validity])),
     sync_unit_view]"

subsection \<open>The other events\<close>

text \<open>A master volume that was changed outside is taken over if it differs by more than a thousandth.\<close>

definition master_differs :: "level_state option \<Rightarrow> f64 \<Rightarrow> bool \<Rightarrow> bool" where
  "master_differs current level muted = (case current of None \<Rightarrow> True
     | Some l \<Rightarrow> f64_gt (f64_abs (f64_sub (lv_volume l) level)) (lit (1 / 1000)) \<or> lv_muted l \<noteq> muted)"

definition master_observed :: "mix_id \<Rightarrow> f64 \<Rightarrow> bool \<Rightarrow> u64 \<Rightarrow> node_identity \<Rightarrow> unit cact" where
  "master_observed m level muted revision ident = ask (\<lambda>s.
     only_if (\<not> c_frozen s \<and> graph_known s \<and> revision = c_routing_revision s \<and>
         im_get (c_observed_mixes s) m = Some ident \<and> im_contains (the_mixes s) m \<and>
         master_differs (im_get (ms_volumes (the_matrix s)) m) level muted)
       (handle (commit_matrix ((the_matrix s)\<lparr>ms_volumes :=
            im_upsert (ms_volumes (the_matrix s)) m master_default (\<lambda>l. l\<lparr>lv_volume := level, lv_muted := muted\<rparr>)\<rparr>))
         (\<lambda>e. issue ''matrix'' (err_message e))))"

definition meter_observed :: "meter_event \<Rightarrow> unit cact" where
  "meter_observed e = ask (\<lambda>s.
     only_if (f64_finite (mv_peak e) \<and> im_get (c_meter_targets s) (mv_key e) = Some (mv_identity e) \<and>
         (starts_with ''src:'' (mv_key e) \<or> starts_with ''mix:'' (mv_key e)))
       (upd (\<lambda>s. s\<lparr>c_meters := im_insert (c_meters s) (mv_key e) (mv_peak e), c_meters_dirty := True, c_dirty := True\<rparr>)))"

definition stop_waiting :: "command_id \<Rightarrow> unit cact" where
  "stop_waiting i = seq [on_request i (\<lambda>r. r\<lparr>rq_waiting := False\<rparr>), finish_if_ready i]"

definition autostart_done :: "u64 option \<Rightarrow> (bool \<times> bool) res \<Rightarrow> operation_error option \<Rightarrow> unit cact" where
  "autostart_done job actual err = seq [
     (case actual of
        Inr (enabled, hidden) \<Rightarrow> on_view (\<lambda>v. v\<lparr>av_autostart := enabled, av_hidden_autostart := hidden\<rparr>)
      | Inl e \<Rightarrow> operation_failure job ''autostart'' e),
     (case err of None \<Rightarrow> skip | Some e \<Rightarrow> operation_failure job ''autostart'' e),
     (case job of None \<Rightarrow> skip | Some i \<Rightarrow> stop_waiting i),
     touch]"

definition setup_done :: "u64 \<Rightarrow> string res \<Rightarrow> unit cact" where
  "setup_done i result = seq [
     (case result of
        Inr message \<Rightarrow> on_view (\<lambda>v. v\<lparr>av_setup_required := False, av_setup_phase := SetupReplug message\<rparr>)
      | Inl e \<Rightarrow> seq [on_view (\<lambda>v. v\<lparr>av_setup_phase := SetupFailed (err_message e)\<rparr>), operation_failure (Some i) ''setup'' e]),
     stop_waiting i,
     touch]"

definition status_observed :: "string \<Rightarrow> bool \<Rightarrow> bool \<Rightarrow> unit cact" where
  "status_observed service setup_required usb_update = seq [
     on_view (\<lambda>v. v\<lparr>av_service_status := service, av_setup_required := setup_required,
       av_setup_phase := (if av_setup_phase v = SetupChecking
         then (if setup_required \<and> usb_update then SetupUsbUpdate else if setup_required then SetupRequired else SetupReady)
         else av_setup_phase v)\<rparr>),
     touch]"

definition observe :: "backend_event \<Rightarrow> unit cact" where
  "observe event = ask (\<lambda>s.
     if (case event of DeviceFinished job _ _ \<Rightarrow> stray_completion s job | _ \<Rightarrow> False) then skip
     else seq [
       (case event of
          UnitSeen u \<Rightarrow> observe_unit u
        | UnitRetired u \<Rightarrow> retire_unit u
        | DeviceFinished job u result \<Rightarrow> device_finished job u result
        | Graph g \<Rightarrow> graph_observed g
        | Master m level muted revision ident \<Rightarrow> master_observed m level muted revision ident
        | Meter e \<Rightarrow> meter_observed e
        | CalibrationDone e \<Rightarrow> calibration_complete e
        | AutostartDone job actual err \<Rightarrow> autostart_done job actual err
        | SetupDone i result \<Rightarrow> setup_done i result
        | Status service required update \<Rightarrow> status_observed service required update
        | BackendError i \<Rightarrow> issue (oi_target i) (oi_message i)),
       advance_handovers])"

end
