(* ===== verification/Commands.thy ===== *)
theory Commands
  imports Observe
begin

text \<open>
  The commands: \<^verbatim>\<open>apply\<close> and \<^verbatim>\<open>execute\<close> of \<^verbatim>\<open>controller/state/mutations.rs\<close>, with the removal of sources and
  mixes, the settings of devices, and the shutdown; and the controller's loop of \<^verbatim>\<open>controller/state.rs\<close>.
\<close>

subsection \<open>Sources\<close>

definition unknown_source :: operation_error where "unknown_source = error_invalid ''Unknown source''"
definition unknown_mix :: operation_error where "unknown_mix = error_invalid ''Unknown mix''"

text \<open>The sources are committed, and the mutes of the hardware follow them.\<close>

definition commit_and_sync :: "command_id \<Rightarrow> sources \<Rightarrow> sources \<Rightarrow> unit res cact" where
  "commit_and_sync i before candidate = attempt (commit_sources candidate) (\<lambda>_.
     done_ok [sync_mutes before UserOrigin (Some i)])"

definition add_source :: "command_id \<Rightarrow> source \<Rightarrow> unit res cact" where
  "add_source i source = ask (\<lambda>s.
     try_pure (require_writable (cs_sources (c_store s))) (\<lambda>_.
     guard_ok (\<not> im_contains (the_sources s) (src_id source)) (error_invalid ''Source identity already exists'')
     (guard_ok (trim (src_name source) \<noteq> []) (error_invalid ''Source needs a name'')
       (commit_and_sync i (the_sources s) (im_insert (the_sources s) (src_id source) source)))))"

definition set_optional :: "'a option \<Rightarrow> ('a \<Rightarrow> 'b \<Rightarrow> 'b) \<Rightarrow> 'b \<Rightarrow> 'b" where
  "set_optional v f x = (case v of None \<Rightarrow> x | Some v \<Rightarrow> f v x)"

definition joins_live_group :: "sources \<Rightarrow> source_id \<Rightarrow> source \<Rightarrow> string option \<Rightarrow> bool" where
  "joins_live_group before source old grp = (case grp of None \<Rightarrow> False
     | Some g \<Rightarrow> g \<noteq> [] \<and> g \<noteq> src_group old \<and>
         list_ex (\<lambda>(peer, r). peer \<noteq> source \<and> src_group r = g \<and> \<not> src_muted r) before)"

definition edited_source :: "sources \<Rightarrow> source_id \<Rightarrow> source \<Rightarrow> source_edit \<Rightarrow> source res" where
  "edited_source before source old changes =
     (let grp = map_option trim (ed_group changes) in
      rbind (ensure (case ed_name changes of None \<Rightarrow> True | Some n \<Rightarrow> trim n \<noteq> []) (error_invalid ''Source needs a name'')) (\<lambda>_.
      rbind (ensure (ed_match_app_names changes = None \<or> src_kind old = App)
        (error_invalid ''Capture sources cannot have application bindings'')) (\<lambda>_.
      rbind (ensure (ed_node_name changes = None \<or> src_kind old = Device)
        (error_invalid ''Application sources cannot have capture bindings'')) (\<lambda>_.
      let r = set_optional (ed_name changes) (\<lambda>v r. r\<lparr>src_name := v\<rparr>) old;
          r = set_optional (ed_icon_name changes) (\<lambda>v r. r\<lparr>src_icon_name := v\<rparr>) r;
          r = set_optional (ed_match_app_names changes) (\<lambda>v r. r\<lparr>match_app_names := normalize_bindings v\<rparr>) r;
          r = set_optional (ed_node_name changes) (\<lambda>v r. r\<lparr>src_node_name := v\<rparr>) r;
          r = set_optional (ed_catch_all changes) (\<lambda>v r. r\<lparr>src_extra := im_insert (src_extra r) ''catch_all'' (JBool v)\<rparr>) r;
          r = set_optional grp (\<lambda>v r. r\<lparr>src_group := v\<rparr>) r
      in Inr (if joins_live_group before source old grp then r\<lparr>src_muted := True\<rparr> else r)))))"

definition edit_source :: "command_id \<Rightarrow> source_id \<Rightarrow> source_edit \<Rightarrow> unit res cact" where
  "edit_source i source changes = ask (\<lambda>s. let before = the_sources s in
     try_pure (ok_or unknown_source (im_get before source)) (\<lambda>old.
     try_pure (edited_source before source old changes) (\<lambda>r.
     bnd (cancel_pending (\<lambda>key. key = PendingFx source)) (\<lambda>_.
       commit_and_sync i before (im_adjust before source (\<lambda>_. r))))))"

text \<open>The listed entries first, in the order of the list, then the others.\<close>

definition reordered :: "('k, 'v) imap \<Rightarrow> 'k list \<Rightarrow> ('k, 'v) imap" where
  "reordered m order =
     (case foldl (\<lambda>(remaining, ordered) i. case im_get remaining i of
            None \<Rightarrow> (remaining, ordered)
          | Some v \<Rightarrow> (im_shift_remove remaining i, im_insert ordered i v)) (m, []) order of
        (remaining, ordered) \<Rightarrow> foldl (\<lambda>m (k, v). im_insert m k v) ordered remaining)"

definition adjust_source :: "source_id \<Rightarrow> (source \<Rightarrow> source) \<Rightarrow> unit res cact" where
  "adjust_source source f = ask (\<lambda>s.
     guard_ok (im_contains (the_sources s) source) unknown_source
       (commit_sources (im_adjust (the_sources s) source f)))"

definition group_name :: "source_id \<Rightarrow> source \<Rightarrow> string" where
  "group_name target src = (if src_group src \<noteq> [] then src_group src
     else if trim (src_name src) \<noteq> [] then trim (src_name src) else target)"

definition join_group :: "command_id \<Rightarrow> source_id \<Rightarrow> source_id \<Rightarrow> unit res cact" where
  "join_group i source target = ask (\<lambda>s. let before = the_sources s in
     guard_ok (source \<noteq> target) (error_invalid ''Cannot group a source with itself'')
     (try_pure (ok_or (error_invalid ''Unknown target source'') (im_get before target)) (\<lambda>src.
      guard_ok (im_contains before source) (error_invalid ''Unknown dragged source'')
      (let grp = group_name target src;
           candidate = im_adjust (im_adjust before source (\<lambda>r. r\<lparr>src_group := grp\<rparr>)) target (\<lambda>r. r\<lparr>src_group := grp\<rparr>)
       in try_pure (set_source_muted candidate target False) (\<lambda>(candidate, _).
            commit_and_sync i before candidate)))))"

definition switch_to_next :: "command_id \<Rightarrow> string \<Rightarrow> unit res cact" where
  "switch_to_next i grp = ask (\<lambda>s.
     try_pure (switch_group (the_sources s) grp) (\<lambda>(candidate, switched).
       if switched = None then ret (Inr ()) else commit_and_sync i (the_sources s) candidate))"

text \<open>The cells of a source go with it; its capture may be offered again.\<close>

definition remove_source :: "source_id \<Rightarrow> unit res cact" where
  "remove_source source = ask (\<lambda>s.
     try_pure (ok_or unknown_source (im_get (the_sources s) source)) (\<lambda>row.
     guard_ok (\<not> (src_protected row \<and> \<not> graph_known s))
       (error_unavailable ''Capture availability is unknown; wait for graph discovery before removing a protected input'')
     (guard_ok (\<not> (src_protected row \<and> list_ex (\<lambda>c. cap_node_name c = src_node_name row) (av_captures (c_view s))))
       (error_invalid ''Connected protected inputs cannot be removed'')
     (let before = de_sources (av_desired (c_view s));
          srcs = im_shift_remove (the_sources s) source;
          node = src_node_name row;
          prefs = av_preferences (c_view s);
          offered = (node \<noteq> [] \<and> \<not> list_ex (\<lambda>src. src_node_name src = node) (im_values srcs) \<and> node \<in> set (pf_offered prefs));
          matrix = (the_matrix s)\<lparr>ms_cells := im_retain (\<lambda>key _. case parse_cell_key key of
              Inl _ \<Rightarrow> False | Inr (i, _) \<Rightarrow> i \<noteq> source) (ms_cells (the_matrix s))\<rparr>
      in attempt (if offered
             then attempt (store_prepare preferences_field (prefs\<lparr>pf_offered := filter (\<lambda>n. n \<noteq> node) (pf_offered prefs)\<rparr>))
               (\<lambda>p. ret (Inr (Some p)))
             else ret (Inr None)) (\<lambda>prepared_preferences.
         attempt (store_prepare sources_field srcs) (\<lambda>prepared_sources.
         attempt (store_prepare matrix_field matrix) (\<lambda>prepared_matrix.
         attempt (store_publish sources_field prepared_sources) (\<lambda>_.
         bnd (store_publish matrix_field prepared_matrix) (\<lambda>matrix_result.
         bnd (case prepared_preferences of
                None \<Rightarrow> ret (Inr ())
              | Some p \<Rightarrow> bnd (store_publish preferences_field p) (\<lambda>r.
                  bnd (upd (\<lambda>s. s\<lparr>c_view := (c_view s)\<lparr>av_preferences := sd_value (cs_preferences (c_store s))\<rparr>\<rparr>))
                    (\<lambda>_. ret r))) (\<lambda>preferences_result.
         bnd (seq [
           invalidate_meters before,
           cancel_pending (\<lambda>key. case key of PendingCell i _ \<Rightarrow> i = source | PendingFx i \<Rightarrow> i = source | _ \<Rightarrow> False),
           refresh_desired,
           refresh_bindings,
           refresh_calibration_validity,
           route]) (\<lambda>_.
         ret (rbind matrix_result (\<lambda>_. preferences_result)))))))))))))"

subsection \<open>Mixes and the matrix\<close>

definition require_mix :: "controller \<Rightarrow> mix_id \<Rightarrow> unit res" where
  "require_mix s m =
     rbind (require_writable (cs_mixes (c_store s))) (\<lambda>_.
     rbind (require_writable (cs_matrix (c_store s))) (\<lambda>_.
     ensure (im_contains (the_mixes s) m) unknown_mix))"

definition require_cell :: "controller \<Rightarrow> source_id \<Rightarrow> mix_id \<Rightarrow> unit res" where
  "require_cell s source m =
     rbind (require_writable (cs_sources (c_store s))) (\<lambda>_.
     rbind (require_mix s m) (\<lambda>_.
     ensure (im_contains (the_sources s) source) unknown_source))"

definition commit_mixes :: "mixes \<Rightarrow> unit res cact" where
  "commit_mixes ms = attempt (store_replace mixes_field ms) (\<lambda>_. done_ok [refresh_desired, route])"

definition add_mix :: "mix \<Rightarrow> unit res cact" where
  "add_mix m = ask (\<lambda>s.
     guard_ok (\<not> im_contains (the_mixes s) (mix_id m)) (error_invalid ''Mix identity already exists'')
     (guard_ok (trim (mix_name m) \<noteq> []) (error_invalid ''Mix needs a name'')
       (commit_mixes (im_insert (the_mixes s) (mix_id m) m))))"

definition edited_mix :: "mix_edit \<Rightarrow> mix \<Rightarrow> mix" where
  "edited_mix changes m =
     (let m = set_optional (me_name changes) (\<lambda>v m. m\<lparr>mix_name := v\<rparr>) m;
          m = set_optional (me_description changes) (\<lambda>v m. m\<lparr>mix_description := v\<rparr>) m;
          m = set_optional (me_subtitle changes) (\<lambda>v m. m\<lparr>mix_subtitle := v\<rparr>) m
      in set_optional (me_icon_name changes) (\<lambda>v m. m\<lparr>mix_icon_name := v\<rparr>) m)"

definition edit_mix :: "mix_id \<Rightarrow> mix_edit \<Rightarrow> unit res cact" where
  "edit_mix m changes = ask (\<lambda>s.
     guard_ok (im_contains (the_mixes s) m) unknown_mix
     (guard_ok (case me_name changes of None \<Rightarrow> True | Some n \<Rightarrow> trim n \<noteq> []) (error_invalid ''Mix needs a name'')
       (commit_mixes (im_adjust (the_mixes s) m (edited_mix changes)))))"

definition remove_mix :: "mix_id \<Rightarrow> unit res cact" where
  "remove_mix m = ask (\<lambda>s.
     try_pure (require_mix s m) (\<lambda>_.
     guard_ok (1 < length (the_mixes s)) (error_invalid ''At least one mix must remain'')
     (let before = de_sources (av_desired (c_view s));
          matrix = (the_matrix s)\<lparr>
            ms_cells := im_retain (\<lambda>key _. case parse_cell_key key of Inl _ \<Rightarrow> False | Inr (_, i) \<Rightarrow> i \<noteq> m) (ms_cells (the_matrix s)),
            ms_outputs := im_shift_remove (ms_outputs (the_matrix s)) m,
            ms_volumes := im_shift_remove (ms_volumes (the_matrix s)) m\<rparr>
      in attempt (store_prepare mixes_field (im_shift_remove (the_mixes s) m)) (\<lambda>prepared_mixes.
         attempt (store_prepare matrix_field matrix) (\<lambda>prepared_matrix.
         attempt (store_publish mixes_field prepared_mixes) (\<lambda>_.
         bnd (store_publish matrix_field prepared_matrix) (\<lambda>matrix_result.
         bnd (seq [
           invalidate_meters before,
           cancel_pending (\<lambda>key. case key of PendingCell _ i \<Rightarrow> i = m | _ \<Rightarrow> False),
           refresh_desired,
           route]) (\<lambda>_. ret matrix_result))))))))"

definition change_cell :: "source_id \<Rightarrow> mix_id \<Rightarrow> (level_state \<Rightarrow> level_state) \<Rightarrow> unit res cact" where
  "change_cell source m f = ask (\<lambda>s.
     commit_matrix ((the_matrix s)\<lparr>ms_cells := im_upsert (ms_cells (the_matrix s)) (cell_key source m) level_default f\<rparr>))"

definition set_cell :: "command_id \<Rightarrow> source_id \<Rightarrow> mix_id \<Rightarrow> f64 \<Rightarrow> bool \<Rightarrow> edit_timing \<Rightarrow> unit res cact" where
  "set_cell i source m level muted timing = ask (\<lambda>s.
     try_pure (require_cell s source m) (\<lambda>_.
     try_pure (send_level level) (\<lambda>level.
       if timing = Debounced
       then done_ok [defer_edit (PendingCell source m) i (SetCell source m level muted Immediate) (millis 150)]
       else bnd (cancel_pending (\<lambda>key. key = PendingCell source m)) (\<lambda>_.
         change_cell source m (\<lambda>c. c\<lparr>lv_volume := level, lv_muted := muted\<rparr>)))))"

definition set_cell_level :: "source_id \<Rightarrow> mix_id \<Rightarrow> f64 \<Rightarrow> unit res cact" where
  "set_cell_level source m level = ask (\<lambda>s.
     try_pure (require_cell s source m) (\<lambda>_.
     try_pure (send_level level) (\<lambda>level.
     bnd (cancel_pending (\<lambda>key. key = PendingCell source m)) (\<lambda>_.
       change_cell source m (\<lambda>c. c\<lparr>lv_volume := level\<rparr>)))))"

text \<open>A pending edit of the cell is taken over before its mute is toggled.\<close>

definition toggle_cell :: "source_id \<Rightarrow> mix_id \<Rightarrow> unit res cact" where
  "toggle_cell source m = ask (\<lambda>s.
     try_pure (require_cell s source m) (\<lambda>_.
     let pending = (case im_get (c_pending s) (PendingCell source m) of
           Some e \<Rightarrow> (case pd_command e of SetCell _ _ level muted _ \<Rightarrow> Some (level, muted) | _ \<Rightarrow> None)
         | None \<Rightarrow> None)
     in bnd (cancel_pending (\<lambda>key. key = PendingCell source m)) (\<lambda>_.
       change_cell source m (\<lambda>c. let c = set_optional pending (\<lambda>(level, muted) c. c\<lparr>lv_volume := level, lv_muted := muted\<rparr>) c
         in c\<lparr>lv_muted := \<not> lv_muted c\<rparr>))))"

definition set_output :: "mix_id \<Rightarrow> string \<Rightarrow> unit res cact" where
  "set_output m choice = ask (\<lambda>s.
     try_pure (require_mix s m) (\<lambda>_.
     try_pure (validate_output_choice choice) (\<lambda>_.
       commit_matrix ((the_matrix s)\<lparr>ms_outputs := im_insert (ms_outputs (the_matrix s)) m choice\<rparr>))))"

definition set_master :: "mix_id \<Rightarrow> f64 \<Rightarrow> bool \<Rightarrow> unit res cact" where
  "set_master m level muted = ask (\<lambda>s.
     try_pure (require_mix s m) (\<lambda>_.
     try_pure (command_level level) (\<lambda>level.
       commit_matrix ((the_matrix s)\<lparr>ms_volumes :=
         im_upsert (ms_volumes (the_matrix s)) m master_default (\<lambda>l. l\<lparr>lv_volume := level, lv_muted := muted\<rparr>)\<rparr>))))"

subsection \<open>Effects\<close>

definition set_fx :: "command_id \<Rightarrow> source_id \<Rightarrow> fx_settings \<Rightarrow> edit_timing \<Rightarrow> unit res cact" where
  "set_fx i source settings timing = ask (\<lambda>s.
     try_pure (require_fx_source s source) (\<lambda>_.
     try_pure (fx_validated settings) (\<lambda>settings.
       if timing = Debounced
       then done_ok [defer_edit (PendingFx source) i (SetFx source settings Immediate) (millis 400)]
       else bnd (cancel_pending (\<lambda>key. key = PendingFx source)) (\<lambda>_. set_source_fx source settings))))"

definition toggle_source_fx :: "source_id \<Rightarrow> string \<Rightarrow> unit res cact" where
  "toggle_source_fx source effect = ask (\<lambda>s.
     try_pure (require_fx_source s source) (\<lambda>_.
     try_pure (ok_or unknown_source (im_get (the_sources s) source)) (\<lambda>src.
     try_pure (toggle_fx src effect) (\<lambda>settings.
     bnd (cancel_pending (\<lambda>key. key = PendingFx source)) (\<lambda>_. set_source_fx source settings)))))"

subsection \<open>Devices\<close>

definition debounces :: "device_setting \<Rightarrow> bool" where
  "debounces setting = (case setting of GainRaw _ \<Rightarrow> True | HeadphoneDb _ \<Rightarrow> True | MonitorMix _ \<Rightarrow> True | _ \<Rightarrow> False)"

definition mute_all :: "sources \<Rightarrow> bool \<Rightarrow> source_id list \<Rightarrow> sources res" where
  "mute_all srcs muted ids =
     res_foldM (\<lambda>srcs i. rbind (set_source_muted srcs i muted) (\<lambda>(srcs, _). Inr srcs)) srcs ids"

definition mute_unit_rows :: "command_id \<Rightarrow> unit_id \<Rightarrow> bool \<Rightarrow> source_id list \<Rightarrow> unit res cact" where
  "mute_unit_rows i u muted ids = ask (\<lambda>s. let before = the_sources s in
     try_pure (mute_all before muted ids) (\<lambda>candidate.
     attempt (commit_sources candidate) (\<lambda>_. ask (\<lambda>s.
       let before = foldl (\<lambda>m j. im_adjust m j (\<lambda>src. src\<lparr>src_muted := muted_of (the_sources s) j\<rparr>)) before ids
       in bnd (sync_mutes_excluding before UserOrigin (Some i) [u]) (\<lambda>_. ask (\<lambda>s.
            queue_device (Some i) u [Mute (all_muted s ids)]))))))"

definition device_setting_command :: "command_id \<Rightarrow> unit_id \<Rightarrow> device_setting \<Rightarrow> edit_timing \<Rightarrow> unit res cact" where
  "device_setting_command i u setting timing = ask (\<lambda>s.
     guard_ok (im_contains (c_units s) u) (error_unavailable ''Captured unit is disconnected'')
     (try_pure (validate_setting (uid_profile u) setting) (\<lambda>setting.
      guard_ok (\<not> (field_of_setting setting = FieldGain \<and> pf_gain_locked (av_preferences (c_view s)) \<and>
                   av_selected_unit (c_view s) = Some u))
        (error_invalid ''Selected device gain is locked'')
      (let key = PendingDevice u (field_of_setting setting) in
       if timing = Debounced \<and> debounces setting
       then done_ok [defer_edit key i (SetDeviceSetting u setting Immediate) (millis 200)]
       else bnd (cancel_pending (\<lambda>k. k = key)) (\<lambda>_. ask (\<lambda>s.
         case setting of
           Mute muted \<Rightarrow>
             (let ids = mute_sources_for_unit s u in
              if ids \<noteq> [] then mute_unit_rows i u muted ids else queue_device (Some i) u [setting])
         | _ \<Rightarrow> queue_device (Some i) u [setting]))))))"

definition toggle_device_mute :: "command_id \<Rightarrow> unit_id \<Rightarrow> unit res cact" where
  "toggle_device_mute i u = ask (\<lambda>s.
     try_pure (ok_or (error_unavailable ''Selected unit has disconnected'') (im_get (c_units s) u)) (\<lambda>us.
     let ids = mute_sources_for_unit s u in
     try_pure (if ids = [] then ok_or (error_unavailable ''Device mute is unknown'') (effective_mute us)
               else Inr (all_muted s ids)) (\<lambda>muted.
       device_setting_command i u (Mute (\<not> muted)) Immediate)))"

definition select_unit :: "unit_id option \<Rightarrow> unit res cact" where
  "select_unit u = ask (\<lambda>s.
     guard_ok (case u of None \<Rightarrow> True | Some u \<Rightarrow> im_contains (c_units s) u)
       (error_unavailable ''Selected unit has disconnected'')
       (done_ok [
          cancel_pending (\<lambda>key. case key of PendingDevice _ _ \<Rightarrow> True | _ \<Rightarrow> False),
          on_view (\<lambda>v. v\<lparr>av_selected_unit := u\<rparr>),
          touch]))"

subsection \<open>Preferences\<close>

definition show_preferences :: "unit cact" where
  "show_preferences = seq [
     upd (\<lambda>s. s\<lparr>c_view := (c_view s)\<lparr>av_preferences := sd_value (cs_preferences (c_store s))\<rparr>\<rparr>), touch]"

definition set_gain_lock :: "bool \<Rightarrow> unit res cact" where
  "set_gain_lock locked = ask (\<lambda>s.
     attempt (store_replace preferences_field ((sd_value (cs_preferences (c_store s)))\<lparr>pf_gain_locked := locked\<rparr>)) (\<lambda>_.
     done_ok [
       ask (\<lambda>s. let selected = av_selected_unit (c_view s) in only_if locked
         (cancel_pending (\<lambda>key. case key of PendingDevice u FieldGain \<Rightarrow> Some u = selected | _ \<Rightarrow> False))),
       show_preferences]))"

definition edited_preferences :: "preferences_edit \<Rightarrow> preferences \<Rightarrow> preferences" where
  "edited_preferences changes p =
     (let p = set_optional (pe_width changes) (\<lambda>v p. p\<lparr>pf_width := max v 820\<rparr>) p;
          p = set_optional (pe_height changes) (\<lambda>v p. p\<lparr>pf_height := max v 480\<rparr>) p;
          p = set_optional (pe_maximized changes) (\<lambda>v p. p\<lparr>pf_maximized := v\<rparr>) p;
          p = set_optional (pe_offered changes) (\<lambda>v p. p\<lparr>pf_offered := v\<rparr>) p
      in set_optional (pe_tray_icon_color changes) (\<lambda>v p. p\<lparr>pf_tray_icon_color := v\<rparr>) p)"

definition set_preferences :: "preferences_edit \<Rightarrow> unit res cact" where
  "set_preferences changes = ask (\<lambda>s.
     attempt (store_replace preferences_field (edited_preferences changes (sd_value (cs_preferences (c_store s))))) (\<lambda>_.
     done_ok [show_preferences]))"

subsection \<open>Shutting down\<close>

definition freeze :: "unit cact" where
  "freeze = ask (\<lambda>s. only_if (\<not> c_frozen s) (seq [
     upd (\<lambda>s. s\<lparr>c_admission := (c_admission s)\<lparr>ad_accepting := False\<rparr>, c_frozen := True,
       c_view := (c_view s)\<lparr>av_lifecycle := LifeFrozen\<rparr>, c_held_captures := [], c_handovers := []\<rparr>),
     cancel_pending (\<lambda>_. True),
     cancel_calibration,
     ask (\<lambda>s. only_if (writable (cs_preferences (c_store s)))
       (handle (store_replace preferences_field (av_preferences (c_view s))) (\<lambda>e. issue ''preferences'' (err_message e)))),
     touch,
     publish]))"

text \<open>A request that is still open when the back end has stopped.\<close>

definition close_request :: "command_id \<Rightarrow> unit cact" where
  "close_request i = ask (\<lambda>s.
     if (case im_get (c_requests s) i of None \<Rightarrow> False | Some r \<Rightarrow> rq_scene r)
     then seq [
       on_request i (\<lambda>r. r\<lparr>rq_failed := rq_failed r @ [skipped_issue ''shutdown'' ''Unfinished scene targets were cancelled''],
         rq_remaining := [], rq_waiting := False\<rparr>),
       finish_if_ready i]
     else finish i CommandCancelled)"

definition on_lifecycle :: "lifecycle \<Rightarrow> unit cact" where
  "on_lifecycle l = on_view (\<lambda>v. v\<lparr>av_lifecycle := l\<rparr>)"

definition failed_removal :: "string \<Rightarrow> string \<Rightarrow> uninstall_result" where
  "failed_removal e guidance = \<lparr>ur_success = False, ur_removed = [], ur_error = Some e, ur_guidance = guidance,
     ur_app_removed = False\<rparr>"

definition backend_shutdown :: "shutdown_error option cact" where
  "backend_shutdown s = (let calls = BackendShutdown # c_calls s
     in (be_shutdown (c_backend s) calls, s\<lparr>c_calls := calls\<rparr>))"

definition backend_remove :: "uninstall_plan \<Rightarrow> bool \<Rightarrow> uninstall_result res cact" where
  "backend_remove plan delete_settings s = (let calls = Remove plan delete_settings # c_calls s
     in (be_remove (c_backend s) calls, s\<lparr>c_calls := calls\<rparr>))"

definition stop_controller :: "command_id \<Rightarrow> unit cact" where
  "stop_controller i = seq [
     on_lifecycle LifeStopped,
     upd (\<lambda>s. s\<lparr>c_stopped := True, c_dirty := True\<rparr>),
     ask (\<lambda>s. finish i (Applied (av_revision (c_view s)))),
     publish,
     send_event (ShutdownFinished None)]"

definition removal_failure :: "uninstall_result \<Rightarrow> string" where
  "removal_failure r = (case ur_error r of None \<Rightarrow> ''Removal incomplete'' | Some e \<Rightarrow> e) @ [CHR 0x0A] @ ur_guidance r"

definition remove_application :: "command_id \<Rightarrow> uninstall_plan \<Rightarrow> bool \<Rightarrow> unit cact" where
  "remove_application i plan delete_settings = bnd (backend_remove plan delete_settings) (\<lambda>r.
     let result = (case r of Inr result \<Rightarrow> result | Inl e \<Rightarrow> failed_removal (err_message e)
           ''Removal could not complete; retain the prepared recovery record and inspect its retry command.'')
     in seq [
       send_event (UninstallFinished result),
       (if ur_success result then stop_controller i
        else seq [
          on_lifecycle LifeFrozen,
          issue ''uninstall'' (removal_failure result),
          finish i (Rejected (error_unavailable (removal_failure result)))])])"

definition shut_down :: "command_id \<Rightarrow> (uninstall_plan \<times> bool) option \<Rightarrow> unit cact" where
  "shut_down i removal = seq [
     freeze,
     on_lifecycle LifeDraining,
     touch,
     publish,
     bnd backend_shutdown (\<lambda>stopped. seq [
       ask (\<lambda>s. each observe (be_drain (c_backend s) (c_calls s))),
       ask (\<lambda>s. each close_request (filter (\<lambda>j. j \<noteq> i) (im_keys (c_requests s)))),
       (case (stopped, removal) of
          (Some e, _) \<Rightarrow> seq [
            on_lifecycle LifeFrozen,
            issue ''shutdown'' (shutdown_text e),
            only_if (removal \<noteq> None) (send_event (UninstallFinished (failed_removal (shutdown_text e)
              ''Worker drain failed; no integration, settings or application removal was attempted.''))),
            finish i (Rejected (error_unavailable (shutdown_text e))),
            send_event (ShutdownFinished (Some e))]
        | (None, None) \<Rightarrow> stop_controller i
        | (None, Some (plan, delete_settings)) \<Rightarrow> remove_application i plan delete_settings)])]"

definition confirm_uninstall :: "command_id \<Rightarrow> uninstall_plan \<Rightarrow> bool \<Rightarrow> unit res cact" where
  "confirm_uninstall i plan delete_settings = ask (\<lambda>s.
     guard_ok (up_canonical_identity plan = be_identity (c_backend s))
       (identity_error ''Removal plan targets a different installation'')
     (guard_ok (can_execute plan) (error_invalid (join_lines (up_blockers plan)))
     (bnd (call_backend (PrepareRemoval plan delete_settings)) (\<lambda>r. case r of
         Inl e \<Rightarrow> bnd (send_event (UninstallFinished (failed_removal (err_message e)
             ''Preparation failed before shutdown or removal; the running application was not frozen.''))) (\<lambda>_. fail_with e)
       | Inr _ \<Rightarrow> done_ok [shut_down i (Some (plan, delete_settings))]))))"

subsection \<open>Commands\<close>

definition wait_for_backend :: "command_id \<Rightarrow> backend_command \<Rightarrow> unit cact list \<Rightarrow> unit res cact" where
  "wait_for_backend i command rest = attempt (dispatch command) (\<lambda>_.
     done_ok (on_request i (\<lambda>r. r\<lparr>rq_waiting := True\<rparr>) # rest))"

definition continue_setup :: "unit res cact" where
  "continue_setup = bnd (seq [on_view (\<lambda>v. v\<lparr>av_setup_phase := SetupStarting\<rparr>), touch, publish]) (\<lambda>_.
     bnd (dispatch Activate) (\<lambda>r. case r of
         Inl e \<Rightarrow> bnd (seq [on_view (\<lambda>v. v\<lparr>av_setup_phase := SetupActivationFailed (err_message e)\<rparr>), touch]) (\<lambda>_. fail_with e)
       | Inr _ \<Rightarrow> done_ok [on_view (\<lambda>v. v\<lparr>av_setup_phase := SetupReady, av_setup_required := False\<rparr>), touch]))"

definition execute :: "command_id \<Rightarrow> app_command \<Rightarrow> unit res cact" where
  "execute i command = (case command of
       AddSource source \<Rightarrow> add_source i source
     | EditSource source changes \<Rightarrow> edit_source i source changes
     | RemoveSource source \<Rightarrow> remove_source source
     | OrderSources order \<Rightarrow> ask (\<lambda>s. commit_sources (reordered (the_sources s) order))
     | AddMix m \<Rightarrow> add_mix m
     | EditMix m changes \<Rightarrow> edit_mix m changes
     | RemoveMix m \<Rightarrow> remove_mix m
     | OrderMixes order \<Rightarrow> ask (\<lambda>s. commit_mixes (reordered (the_mixes s) order))
     | SetSourceLevel source level \<Rightarrow>
         try_pure (command_level level) (\<lambda>level. adjust_source source (\<lambda>src. src\<lparr>src_level := level\<rparr>))
     | SetSourceMute source muted \<Rightarrow> set_source_mute source muted UserOrigin (Some i)
     | ToggleSourceMute source \<Rightarrow> ask (\<lambda>s.
         try_pure (ok_or unknown_source (im_get (the_sources s) source)) (\<lambda>src.
           set_source_mute source (\<not> src_muted src) UserOrigin (Some i)))
     | SetCell source m level muted timing \<Rightarrow> set_cell i source m level muted timing
     | SetCellLevel source m level \<Rightarrow> set_cell_level source m level
     | ToggleCellMute source m \<Rightarrow> toggle_cell source m
     | SetOutput m choice \<Rightarrow> set_output m choice
     | SetMaster m level muted \<Rightarrow> set_master m level muted
     | SetFx source settings timing \<Rightarrow> set_fx i source settings timing
     | ToggleFx source effect \<Rightarrow> toggle_source_fx source effect
     | JoinGroup source target \<Rightarrow> join_group i source target
     | LeaveGroup source \<Rightarrow> adjust_source source (\<lambda>src. src\<lparr>src_group := []\<rparr>)
     | SwitchGroup grp \<Rightarrow> switch_to_next i grp
     | SelectUnit u \<Rightarrow> select_unit u
     | SetDeviceSetting u setting timing \<Rightarrow> device_setting_command i u setting timing
     | ToggleDeviceMute u \<Rightarrow> toggle_device_mute i u
     | SetGainLock locked \<Rightarrow> set_gain_lock locked
     | SetPreferences changes \<Rightarrow> set_preferences changes
     | SetAutostart enabled hidden \<Rightarrow> wait_for_backend i (Autostart i enabled hidden) []
     | SaveScene name \<Rightarrow> save_scene name
     | ApplyScene sc \<Rightarrow> apply_scene i sc
     | DeleteScene sc \<Rightarrow> delete_scene sc
     | StartCalibration source \<Rightarrow> start_calibration source
     | RecordNoise token \<Rightarrow> record_calibration i token False
     | RecordSpeech token \<Rightarrow> record_calibration i token True
     | AcceptCalibration token \<Rightarrow> accept_calibration token
     | CancelCalibration token \<Rightarrow> cancel_calibration_token token
     | RunSetup \<Rightarrow> ask (\<lambda>s. try_pure (require_writable (cs_mixes (c_store s))) (\<lambda>_.
         wait_for_backend i (Setup i (the_mixes s)) [on_view (\<lambda>v. v\<lparr>av_setup_phase := SetupRunning\<rparr>), touch]))
     | ContinueSetup \<Rightarrow> continue_setup
     | Reconnect \<Rightarrow> dispatch Rescan
     | Shutdown \<Rightarrow> done_ok [shut_down i None]
     | PrepareUninstall identity \<Rightarrow> ask (\<lambda>s.
         guard_ok (be_identity (c_backend s) = identity)
           (identity_error ''Uninstall request targets a different installation'')
           (done_ok [shut_down i None]))
     | ConfirmUninstall plan delete_settings \<Rightarrow> confirm_uninstall i plan delete_settings)"

definition ends_session :: "app_command \<Rightarrow> bool" where
  "ends_session command = (case command of
     Shutdown \<Rightarrow> True | PrepareUninstall _ \<Rightarrow> True | ConfirmUninstall _ _ \<Rightarrow> True | _ \<Rightarrow> False)"

definition apply_command :: "command_id \<Rightarrow> app_command \<Rightarrow> unit cact" where
  "apply_command i command = ask (\<lambda>s.
     if c_frozen s \<and> \<not> ends_session command then finish i CommandCancelled
     else seq [
       handle (execute i command) (\<lambda>e. seq [
         on_request i (\<lambda>r. r\<lparr>rq_waiting := False\<rparr>),
         operation_failure (Some i) ''command'' e]),
       advance_handovers,
       finish_if_ready i])"

definition accept_command :: "command_id \<times> app_command \<Rightarrow> unit cact" where
  "accept_command e = (case e of (i, command) \<Rightarrow> seq [
     upd (\<lambda>s. s\<lparr>c_accepted := List.insert i (c_accepted s),
       c_requests := im_insert (c_requests s) i request_default\<rparr>),
     apply_command i command])"

definition fire_edit :: "pending_key \<Rightarrow> unit cact" where
  "fire_edit key = ask (\<lambda>s. case im_get (c_pending s) key of
       None \<Rightarrow> skip
     | Some e \<Rightarrow> seq [
         upd (\<lambda>s. s\<lparr>c_pending := im_shift_remove (c_pending s) key\<rparr>),
         on_request (pd_id e) (\<lambda>r. r\<lparr>rq_waiting := False\<rparr>),
         refresh_pending_view,
         apply_command (pd_id e) (pd_command e)])"

definition fire_due :: "unit cact" where
  "fire_due = ask (\<lambda>s. each fire_edit (map fst (filter (\<lambda>(_, e). pd_due e \<le> c_now s) (c_pending s))))"

text \<open>
  One turn of \<^verbatim>\<open>run\<close>: at most 256 events, the due edits, the publication, and one command, if one has come.
\<close>

definition turn :: "backend_event list \<Rightarrow> nat \<Rightarrow> (command_id \<times> app_command) option \<Rightarrow> unit cact" where
  "turn events elapsed request = seq [
     each observe (take 256 events),
     upd (\<lambda>s. s\<lparr>c_now := c_now s + elapsed\<rparr>),
     fire_due,
     publish,
     (case request of None \<Rightarrow> skip | Some r \<Rightarrow> accept_command r)]"

subsection \<open>The beginning and the end\<close>

definition controller_new ::
  "config_store \<Rightarrow> file_system \<Rightarrow> (json \<Rightarrow> string) \<Rightarrow> backend \<Rightarrow> admission \<Rightarrow> (nat \<Rightarrow> string) \<Rightarrow> nat \<Rightarrow> controller" where
  "controller_new store fs pretty backend adm uuid now = snd (seq [refresh_bindings, route]
     \<lparr>c_store = store, c_fs = fs, c_pretty = pretty, c_backend = backend, c_calls = [], c_admission = adm,
      c_snapshot = app_snapshot_default, c_events = [], c_now = now, c_uuid = uuid, c_fresh = 0,
      c_view = app_snapshot_default\<lparr>av_revision := 1, av_desired := config_desired store,
        av_preferences := sd_value (cs_preferences store), av_lifecycle := LifeRunning\<rparr>,
      c_graph_observation = Unknown (error_unavailable ''Graph has not been observed''),
      c_units = [], c_retired = [], c_requests = [], c_accepted = [], c_pending = [], c_jobs = [], c_next_job = 1,
      c_bindings = [], c_capture_intents = [], c_capture_baselines = [], c_held_captures = [], c_handovers = [],
      c_graph_revision = None, c_silent_sources = [], c_binding_epoch = 0, c_intents = [], c_meter_targets = [],
      c_meter_specs = [], c_observed_mixes = [], c_routing_revision = 0, c_meters = [],
      c_errors = config_issues store, c_errors_dirty = True, c_calibration = None, c_next_session = 1,
      c_frozen = False, c_stopped = False, c_dirty = True, c_meters_dirty = False\<rparr>)"

text \<open>What is left in the channel when the loop has ended is cancelled.\<close>

definition close_channel :: "(command_id \<times> app_command) list \<Rightarrow> unit cact" where
  "close_channel requests = seq [
     upd (\<lambda>s. s\<lparr>c_admission := (c_admission s)\<lparr>ad_accepting := False, ad_stopped := True\<rparr>\<rparr>),
     each (\<lambda>(i, _). send_event (CommandFinished i CommandCancelled)) requests]"

text \<open>\<^verbatim>\<open>RuntimeHandle::submit\<close>: the identifier and the new admission.\<close>

datatype submit_error = SubmitFrozen | SubmitUnavailable | SubmitExhausted

definition submit :: "admission \<Rightarrow> app_command \<Rightarrow> (submit_error + command_id) \<times> admission" where
  "submit adm command =
     (if ad_stopped adm then (Inl SubmitUnavailable, adm)
      else if \<not> ad_accepting adm \<and> \<not> ends_session command then (Inl SubmitFrozen, adm)
      else (case checked_add (ad_next_command adm) 1 of
          None \<Rightarrow> (Inl SubmitExhausted, adm)
        | Some n \<Rightarrow> (Inr (ad_next_command adm), adm\<lparr>ad_next_command := n\<rparr>)))"

end
