(* ===== verification/Runs.thy ===== *)
theory Runs
  imports Commands
begin

text \<open>
  How facts about runs of the controller are proved. \<open>core\<close> is what the facts are about: the stores, the
  calls to the back end, the events, the requests, the jobs, the bindings, the handovers, the calibration
  session, the life cycle, and the configuration with its number, in the view and as published. The locale \<open>quiet_run\<close> is the contract of a preorder on states for
  the operations that may also run once the controller is frozen; \<open>active_run\<close> extends it to all commands and
  events, with one law per operation that changes a store; \<open>stepwise_run\<close> gives those laws from the
  single change of a store each makes. A property of runs is an interpretation of one of them.
\<close>

subsection \<open>What operations change\<close>

text \<open>The configuration that a snapshot shows, with its number.\<close>

definition shown :: "app_snapshot \<Rightarrow> u64 \<times> desired_state" where
  "shown v = (av_revision v, av_desired v)"

lemma shown_eq: "shown v = shown v' \<longleftrightarrow> av_revision v = av_revision v' \<and> av_desired v = av_desired v'"
  by (simp add: shown_def)

definition core where
  "core (s :: controller) = (c_store s, c_calls s, c_admission s, c_events s, c_requests s, c_accepted s, c_pending s,
     (c_jobs s, c_next_job s, c_bindings s, c_binding_epoch s, c_held_captures s, c_handovers s),
     (c_calibration s, c_next_session s, c_frozen s, c_stopped s, shown (c_view s), shown (c_snapshot s)))"

text \<open>Nothing of the core changes, and what is still to be published stays so.\<close>

definition calm :: "controller \<Rightarrow> controller \<Rightarrow> bool" where
  "calm s s' \<longleftrightarrow> core s' = core s \<and> (c_dirty s \<longrightarrow> c_dirty s')"

lemmas core_simps = calm_def core_def shown_def

named_theorems cores

definition inert :: "'a cact \<Rightarrow> bool" where
  "inert m \<longleftrightarrow> along calm m"

interpretation core_run: evolution calm
  by unfold_locales (simp_all add: calm_def)

lemma inertI: "(\<And>s. calm s (snd (m s))) \<Longrightarrow> inert m"
  by (simp add: inert_def along_def)

lemma inertD: "inert m \<Longrightarrow> core (snd (m s)) = core s"
  by (simp add: inert_def along_def calm_def)

lemma inert_calm: "inert m \<Longrightarrow> calm s (snd (m s))"
  by (simp add: inert_def along_def)

lemma inert_on_fs [cores]: "inert (on_fs m)"
  by (rule inertI) (simp add: on_fs_def core_simps split: prod.split)

lemma inert_on_view [cores]:
  "(\<And>v. av_revision (f v) = av_revision v) \<Longrightarrow> (\<And>v. av_desired (f v) = av_desired v) \<Longrightarrow> inert (on_view f)"
  by (rule inertI) (simp add: on_view_def core_simps)

lemma inert_touch [cores]: "inert touch"
  by (rule inertI) (simp add: touch_def core_simps)

lemma inert_issue [cores]: "inert (issue target message)"
  by (rule inertI) (simp add: issue_def core_simps)

lemma inert_clear_issue [cores]: "inert (clear_issue target)"
  by (rule inertI) (simp add: clear_issue_def core_simps Let_def only_if_def)

lemma inert_sync_unit_view [cores]: "inert sync_unit_view"
  by (rule inertI) (simp add: sync_unit_view_def core_simps Let_def)

lemma inert_upd: "(\<And>s. calm s (f s)) \<Longrightarrow> inert (upd f)"
  by (rule inertI) simp

lemmas inert_intros = core_run.along_intros [folded inert_def]

lemma inert_remember_intents [cores]: "inert (remember_intents i u settings)"
  unfolding remember_intents_def
  by (intro inert_intros inert_upd cores) (simp add: core_simps)

lemma inert_forget_intents [cores]: "inert (forget_intents i)"
  unfolding forget_intents_def Let_def
  by (intro inert_intros inert_upd cores) (simp add: core_simps)

lemma inert_refresh_pending_view [cores]: "inert refresh_pending_view"
  unfolding refresh_pending_view_def by (rule inert_upd) (simp add: core_simps)

lemma inert_enter_phase [cores]: "inert (enter_phase phase)"
  unfolding enter_phase_def by (intro inert_intros cores) simp_all

lemma inert_adopt_graph [cores]: "inert (adopt_graph g)"
  unfolding adopt_graph_def
  by (rule inert_upd) (simp add: core_simps Let_def split: prod.split)

lemma inert_meter_observed [cores]: "inert (meter_observed e)"
  unfolding meter_observed_def by (intro inert_intros inert_upd) (simp add: core_simps)

lemma inert_status_observed [cores]: "inert (status_observed service required update)"
  unfolding status_observed_def by (intro inert_intros cores) simp_all

lemma inert_show_preferences [cores]: "inert show_preferences"
  unfolding show_preferences_def by (intro inert_intros inert_upd cores) (simp add: core_simps)

text \<open>What a publication does, as one step.\<close>

definition published :: "controller \<Rightarrow> controller" where
  "published s = s\<lparr>c_events := c_events s @ [SnapshotChanged], c_snapshot := c_view s, c_dirty := False\<rparr>"

lemma publish_core: "core (snd (publish s)) = (if c_dirty s then core (published s) else core s) \<and> \<not> c_dirty (snd (publish s))"
  by (simp add: publish_def only_if_def bnd_app send_event_def core_simps published_def shown_def)

lemma send_event_core: "core (snd (send_event e s)) = core (s\<lparr>c_events := c_events s @ [e]\<rparr>)"
  by (simp add: send_event_def core_simps)

text \<open>The answer to a command, as one step.\<close>

definition answered :: "command_id \<Rightarrow> command_outcome \<Rightarrow> controller \<Rightarrow> controller" where
  "answered i outcome s = s\<lparr>c_accepted := removeAll i (c_accepted s), c_requests := im_shift_remove (c_requests s) i,
     c_events := c_events s @ [CommandFinished i outcome]\<rparr>"

lemma finish_core:
  "core (snd (finish i outcome s)) =
     (if i \<in> set (c_accepted s) then core (answered i outcome (published s)) else core s) \<and>
   c_dirty (snd (finish i outcome s)) = (if i \<in> set (c_accepted s) then False else c_dirty s)"
proof (cases "i \<in> set (c_accepted s)")
  case True
  define s1 where "s1 = s\<lparr>c_accepted := removeAll i (c_accepted s), c_requests := im_shift_remove (c_requests s) i,
            c_view := (c_view s)\<lparr>av_scene_pending := list_ex rq_scene (im_values (im_shift_remove (c_requests s) i))\<rparr>,
            c_dirty := True\<rparr>"
  define s2 where "s2 = snd (forget_intents i s1)"
  define s3 where "s3 = snd (only_if (is_scene_outcome outcome)
       (seq [on_view (\<lambda>v. v\<lparr>av_scene_outcome := Some outcome\<rparr>), touch]) s2)"
  have run: "snd (finish i outcome s) = snd (send_event (CommandFinished i outcome) (snd (publish s3)))"
    by (simp add: finish_def True bnd_app Let_def s1_def s2_def s3_def)
  have core3: "core s3 = core s1"
    unfolding s3_def s2_def
    by (simp add: inertD [OF inert_forget_intents] inertD [OF inert_touch]
        inertD [OF inert_on_view] bnd_app only_if_def)
  have "c_dirty s2"
    by (simp add: s2_def forget_intents_def Let_def only_if_def bnd_app s1_def sync_unit_view_def)
  then have dirty: "c_dirty s3"
    by (simp add: s3_def only_if_def bnd_app touch_def)
  have "core (snd (publish s3)) = core (published s1)"
    using core3 dirty publish_core [of s3] by (simp add: core_simps published_def)
  moreover have "\<not> c_dirty (snd (send_event (CommandFinished i outcome) (snd (publish s3))))"
    using publish_core [of s3] by (simp add: send_event_def)
  ultimately show ?thesis
    unfolding run send_event_core using True by (simp add: core_simps s1_def answered_def published_def shown_def)
qed (simp add: finish_def)

subsection \<open>The protocol of a calibration\<close>

text \<open>
  The abstract machine of the calibration: the number of the next session, the session that is open, and the
  orders the recorder has been given, the newest first. A session takes the next number; noise is
  recorded first, then speech, each once and each ordered from the recorder for the time it takes; the
  proposal is the analysis of the two; and the recorder is told when a session ends, unless its
  proposal was accepted.
\<close>

type_synonym session_state = "u64 \<times> calibration_session option \<times> backend_call list"

definition may_record :: "calibration_session \<Rightarrow> bool \<Rightarrow> bool" where
  "may_record c speech \<longleftrightarrow> cl_recording c = None \<and> cl_proposal c = None \<and> speech = (cl_floor c \<noteq> None)"

definition recording_call :: "calibration_session \<Rightarrow> bool \<Rightarrow> backend_call" where
  "recording_call c speech = Dispatch (RecordCalibration (cl_token c) (if speech then SPEECH_SECONDS else FLOOR_SECONDS))"

definition stop_call :: "calibration_session \<Rightarrow> backend_call" where
  "stop_call c = Dispatch (StopCalibration (cl_token c))"

definition fresh_session :: "calibration_token \<Rightarrow> capture_binding \<Rightarrow> calibration_session" where
  "fresh_session token binding = \<lparr>cl_token = token, cl_binding = binding, cl_recording = None, cl_floor = None,
     cl_proposal = None\<rparr>"

inductive session_step :: "session_state \<Rightarrow> session_state \<Rightarrow> bool" where
  session_started: "\<lbrakk>tk_session token = n; checked_add n 1 = Some n'\<rbrakk> \<Longrightarrow>
     session_step (n, None, calls) (n', Some (fresh_session token binding), calls)"
| recording_started: "may_record c speech \<Longrightarrow>
     session_step (n, Some c, calls) (n, Some (c\<lparr>cl_recording := Some (command, speech)\<rparr>), recording_call c speech # calls)"
| recording_refused: "may_record c speech \<Longrightarrow>
     session_step (n, Some c, calls) (n, None, stop_call c # recording_call c speech # calls)"
| noise_measured: "cl_recording c = Some (command, False) \<Longrightarrow>
     session_step (n, Some c, calls) (n, Some (c\<lparr>cl_floor := Some m, cl_recording := None\<rparr>), calls)"
| speech_measured: "\<lbrakk>cl_recording c = Some (command, True); cl_floor c = Some flo;
     analyze (me_peaks_db flo) (me_peaks_db m) = Inr a; analyze_tone flo m = Inr tone\<rbrakk> \<Longrightarrow>
     session_step (n, Some c, calls) (n, Some (c\<lparr>cl_proposal := Some (a, tone), cl_recording := None\<rparr>), calls)"
| session_dropped: "session_step (n, Some c, calls) (n, None, stop_call c # calls)"
| proposal_accepted: "cl_proposal c \<noteq> None \<Longrightarrow> session_step (n, Some c, calls) (n, None, calls)"

text \<open>The orders given before do not matter to a step, and a step gives orders to the recorder only.\<close>

definition recorder_call :: "backend_call \<Rightarrow> bool" where
  "recorder_call call = (case call of Dispatch (RecordCalibration _ _) \<Rightarrow> True | Dispatch (StopCalibration _) \<Rightarrow> True | _ \<Rightarrow> False)"

lemma session_step_calls:
  assumes "session_step (n, cal, []) (n', cal', orders)"
  shows "session_step (n, cal, calls) (n', cal', orders @ calls)"
  using assms
  by (cases "(n, cal, [] :: backend_call list)" "(n', cal', orders)" rule: session_step.cases)
    (auto intro: session_step.intros)

lemma session_step_orders:
  assumes "session_step (n, cal, []) (n', cal', orders)"
  shows "list_all recorder_call orders"
  using assms
  by (cases "(n, cal, [] :: backend_call list)" "(n', cal', orders)" rule: session_step.cases)
    (auto simp: recorder_call_def recording_call_def stop_call_def)

definition session_view :: "controller \<Rightarrow> session_state" where
  "session_view s = (c_next_session s, c_calibration s, filter recorder_call (c_calls s))"

subsection \<open>Operations of a frozen controller\<close>

locale quiet_run = evolution R for R :: "controller \<Rightarrow> controller \<Rightarrow> bool" +
  assumes inert: "calm s s' \<Longrightarrow> R s s'"
    and shows_view: "shown v = shown (c_view s) \<Longrightarrow> R s (s\<lparr>c_snapshot := v, c_dirty := False\<rparr>)"
    and announce: "\<not> (\<exists>i r. e = CommandFinished i r) \<Longrightarrow> R s (s\<lparr>c_events := c_events s @ [e]\<rparr>)"
    and request: "R s (s\<lparr>c_requests := im_adjust (c_requests s) i f\<rparr>)"
    and answer: "i \<in> set (c_accepted s) \<Longrightarrow> R s (answered i outcome s)"
    and pending: "(\<And>e. e \<in> set p \<Longrightarrow> e \<in> set (c_pending s) \<or> \<not> ends_session (pd_command (snd e))) \<Longrightarrow>
       R s (s\<lparr>c_pending := p\<rparr>)"
    and session_over: "c_calibration s = Some c \<Longrightarrow> R s (s\<lparr>c_calibration := None, c_calls := stop_call c # c_calls s\<rparr>)"
begin

lemma quiet: "inert m \<Longrightarrow> along R m"
  by (simp add: inert_def along_def inert)

lemma via_core: "R s t \<Longrightarrow> calm t t' \<Longrightarrow> R s t'"
  using step_trans inert by blast

lemma step_published: "R s (published s)"
proof -
  have "R s (s\<lparr>c_events := c_events s @ [SnapshotChanged]\<rparr>)" (is "R s ?t") by (simp add: announce)
  moreover have "R ?t (?t\<lparr>c_snapshot := c_view s, c_dirty := False\<rparr>)" by (rule shows_view) simp
  ultimately have "R s (?t\<lparr>c_snapshot := c_view s, c_dirty := False\<rparr>)" by (rule step_trans)
  then show ?thesis by (simp add: published_def)
qed

lemma run_publish: "along R publish"
proof (rule alongI)
  fix s
  show "R s (snd (publish s))"
  proof (cases "c_dirty s")
    case True
    then have "calm (published s) (snd (publish s))" by (simp add: calm_def publish_core published_def)
    then show ?thesis by (rule via_core [OF step_published])
  next
    case False
    then show ?thesis by (intro inert) (simp add: calm_def publish_core)
  qed
qed

lemma run_try_at: "(\<And>x. r = Inr x \<Longrightarrow> R s (snd (k x s))) \<Longrightarrow> R s (snd (try_pure r k s))"
  by (cases r) (simp_all add: same)

lemma run_send: "\<not> (\<exists>i r. e = CommandFinished i r) \<Longrightarrow> along R (send_event e)"
  by (simp add: along_def send_event_def announce)

lemma run_on_request: "along R (on_request i f)"
  by (simp add: along_def on_request_def request)

lemma run_finish: "along R (finish i outcome)"
proof (rule alongI)
  fix s
  show "R s (snd (finish i outcome s))"
  proof (cases "i \<in> set (c_accepted s)")
    case True
    have "R s (answered i outcome (published s))"
      by (rule step_trans [OF step_published answer]) (simp add: True published_def)
    moreover have "calm (answered i outcome (published s)) (snd (finish i outcome s))"
      using finish_core [of i outcome s] True by (simp add: calm_def published_def answered_def)
    ultimately show ?thesis by (rule via_core)
  next
    case False
    then show ?thesis by (intro inert) (simp add: calm_def finish_core)
  qed
qed

lemma run_pending:
  "(\<And>s e. e \<in> set (p s) \<Longrightarrow> e \<in> set (c_pending s) \<or> \<not> ends_session (pd_command (snd e))) \<Longrightarrow>
   along R (upd (\<lambda>s. s\<lparr>c_pending := p s\<rparr>))"
  by (simp add: along_def pending)

lemmas run_basic = along_intros run_publish run_on_request run_finish

lemma run_operation_failure: "along R (operation_failure who target e)"
  unfolding operation_failure_def by (intro run_basic quiet [OF inert_issue])

lemma run_finish_if_ready: "along R (finish_if_ready i)"
  unfolding finish_if_ready_def by (intro run_basic)

lemma run_cancel_pending: "along R (cancel_pending p)"
proof -
  have "along R (upd (\<lambda>s. s\<lparr>c_pending := filter (\<lambda>(k, _). \<not> p k) (c_pending s)\<rparr>))"
    by (rule run_pending) simp
  then show ?thesis
    unfolding cancel_pending_def Let_def
    by (intro along_intros run_finish quiet [OF inert_refresh_pending_view])
qed

lemma run_fired: "along R (upd (\<lambda>s. s\<lparr>c_pending := im_shift_remove (c_pending s) key\<rparr>))"
  by (rule run_pending) (simp add: im_shift_remove_def)

lemma run_defer_edit:
  assumes "\<not> ends_session command"
  shows "along R (defer_edit key i command delay)"
proof -
  have "e \<in> set (im_insert m k v) \<Longrightarrow> e \<in> set m \<or> e = (k, v)" for e :: "pending_key \<times> pending_edit" and m k v
    by (induction m k v rule: im_insert.induct) (auto split: if_splits)
  then have insert: "along R (upd (\<lambda>s. s\<lparr>c_pending := im_insert (c_pending s) key
         \<lparr>pd_due = c_now s + delay, pd_id = i, pd_command = command\<rparr>\<rparr>))"
    using assms by (intro run_pending) fastforce
  have intents: "along R (case command of SetDeviceSetting u setting _ \<Rightarrow> remember_intents i u [setting] | _ \<Rightarrow> skip)"
    by (cases command) (simp_all add: along_skip quiet [OF inert_remember_intents])
  show ?thesis
    unfolding defer_edit_def Let_def
    by (intro along_intros run_on_request run_finish insert intents quiet [OF inert_refresh_pending_view])
qed

lemma drop_session_after:
  assumes "c_calibration t = Some c" "R s (t\<lparr>c_calibration := None, c_calls := stop_call c # c_calls t\<rparr>)"
  shows "R s (snd (drop_session outcome t))"
proof -
  let ?h = "\<lambda>e. issue ''calibration cancellation'' (err_message e)"
  let ?d = "handle (dispatch (StopCalibration (cl_token c))) ?h (t\<lparr>c_calibration := None\<rparr>)"
  have "R s (snd ?d)"
    by (rule step_trans [OF assms(2)])
      (auto simp: handle_app dispatch_def call_backend_def Let_def stop_call_def same inert inert_calm [OF inert_issue]
        split: sum.split option.split)
  moreover have "along R (case cl_recording c of None \<Rightarrow> skip | Some (command, _) \<Rightarrow> finish command outcome)"
    by (intro run_basic)
  ultimately show ?thesis
    by (auto simp: drop_session_def assms(1) bnd_app along_def intro: step_trans)
qed

lemma run_drop_session: "along R (drop_session outcome)"
proof (rule alongI)
  fix s
  show "R s (snd (drop_session outcome s))"
  proof (cases "c_calibration s")
    case None
    then show ?thesis by (simp add: drop_session_def same)
  next
    case (Some c)
    then show ?thesis by (rule drop_session_after [OF _ session_over [OF Some]])
  qed
qed

lemma expire_after:
  assumes "c_calibration t = Some c" "R s (t\<lparr>c_calibration := None, c_calls := stop_call c # c_calls t\<rparr>)"
  shows "R s (snd (expire_calibration e t))"
proof -
  have "along R (seq [enter_phase (Expired (err_message e)), issue ''calibration'' (err_message e)])"
    by (intro run_basic quiet [OF inert_issue] quiet [OF inert_enter_phase])
  then show ?thesis
    using drop_session_after [OF assms, of "Rejected e"] by (auto simp: expire_calibration_def bnd_app along_def intro: step_trans)
qed

lemma run_expire: "along R (expire_calibration e)"
  unfolding expire_calibration_def
  by (intro run_basic run_drop_session quiet [OF inert_issue] quiet [OF inert_enter_phase])

lemma run_cancel_calibration: "along R cancel_calibration"
  unfolding cancel_calibration_def
  by (intro run_basic run_drop_session quiet [OF inert_touch] quiet [OF inert_on_view]) simp_all

lemma run_calibration_validity: "along R refresh_calibration_validity"
  unfolding refresh_calibration_validity_def by (intro run_basic run_expire)

lemma run_retire_unit: "along R (retire_unit u)"
  unfolding retire_unit_def
  by (intro run_basic run_cancel_pending quiet [OF inert_sync_unit_view] quiet [OF inert_upd])
    (simp_all add: core_simps)

lemma run_stop_waiting: "along R (stop_waiting i)"
  unfolding stop_waiting_def by (intro run_basic run_finish_if_ready)

lemma run_autostart_done: "along R (autostart_done job actual e)"
  unfolding autostart_done_def
  by (intro run_basic run_operation_failure run_stop_waiting quiet [OF inert_touch] quiet [OF inert_on_view]) simp_all

lemma run_setup_done: "along R (setup_done i result)"
  unfolding setup_done_def
  by (intro run_basic run_operation_failure run_stop_waiting quiet [OF inert_touch] quiet [OF inert_on_view]) simp_all

lemma run_close_request: "along R (close_request i)"
  unfolding close_request_def by (intro run_basic run_finish_if_ready)

lemma run_on_lifecycle: "along R (on_lifecycle l)"
  unfolding on_lifecycle_def by (intro quiet [OF inert_on_view]) simp_all

end

subsection \<open>Operations of a running controller\<close>

text \<open>How the value of a store may change in one step.\<close>

definition stored_step :: "'a stored \<Rightarrow> 'a stored \<Rightarrow> bool" where
  "stored_step st st' \<longleftrightarrow> st' = st \<or>
     st' = st\<lparr>sd_value := sd_value st'\<rparr> \<and> writable st \<and> (\<exists>j. sd_decode st j = Inr (sd_value st'))"

definition config_step :: "config_store \<Rightarrow> config_store \<Rightarrow> bool" where
  "config_step cs cs' \<longleftrightarrow> stored_step (cs_sources cs) (cs_sources cs') \<and> stored_step (cs_mixes cs) (cs_mixes cs') \<and>
     stored_step (cs_matrix cs) (cs_matrix cs') \<and> stored_step (cs_preferences cs) (cs_preferences cs') \<and>
     stored_step (cs_scenes cs) (cs_scenes cs')"

definition plain_call :: "backend_command \<Rightarrow> bool" where
  "plain_call c = (case c of Routing _ _ _ \<Rightarrow> False | DeviceWrite _ _ _ \<Rightarrow> False
     | RecordCalibration _ _ \<Rightarrow> False | StopCalibration _ \<Rightarrow> False | _ \<Rightarrow> True)"

text \<open>A new job takes the next identifier; it is dispatched now, or it is held back.\<close>

definition job_started :: "u64 \<Rightarrow> bool \<Rightarrow> device_job \<Rightarrow> controller \<Rightarrow> controller" where
  "job_started n keep job s = s\<lparr>c_next_job := n,
     c_calls := (if jb_dispatched job then [Dispatch (DeviceWrite (c_next_job s) (jb_unit job) (jb_settings job))] else []) @ c_calls s,
     c_jobs := (if keep then im_insert (c_jobs s) (c_next_job s) job else c_jobs s)\<rparr>"

definition job_released :: "bool \<Rightarrow> u64 \<Rightarrow> device_job \<Rightarrow> controller \<Rightarrow> controller" where
  "job_released keep i job s = s\<lparr>
     c_jobs := (if keep then im_insert (im_shift_remove (c_jobs s) i) i (job\<lparr>jb_dispatched := True\<rparr>)
       else im_shift_remove (c_jobs s) i),
     c_calls := Dispatch (DeviceWrite i (jb_unit job) (jb_settings job)) # c_calls s\<rparr>"

text \<open>What \<open>queue_device\<close> does once it has accepted the settings.\<close>

definition own_job :: "command_id option \<Rightarrow> u64 \<Rightarrow> unit_id \<Rightarrow> device_setting list \<Rightarrow> unit cact" where
  "own_job who job u settings = (case who of None \<Rightarrow> skip
     | Some i \<Rightarrow> seq [on_request i (\<lambda>r. r\<lparr>rq_remaining := List.insert job (rq_remaining r)\<rparr>),
         remember_intents i u settings])"

definition queue_accepted :: "controller \<Rightarrow> unit_id \<Rightarrow> device_setting list \<Rightarrow> (u64 \<times> device_setting list) option" where
  "queue_accepted s u settings = (case res_mapM (validate_setting (uid_profile u)) settings of
       Inl _ \<Rightarrow> None
     | Inr ss \<Rightarrow> if im_contains (c_units s) u \<and> ss \<noteq> []
         then map_option (\<lambda>n. (n, ss)) (checked_add (c_next_job s) 1) else None)"

definition queued_job :: "controller \<Rightarrow> command_id option \<Rightarrow> unit_id \<Rightarrow> device_setting list \<Rightarrow> device_job" where
  "queued_job s who u ss = \<lparr>jb_owner = who, jb_unit = u, jb_settings = ss,
     jb_dispatched = (\<not> held_back s (open_rows s u ss)), jb_open_sources = open_rows s u ss\<rparr>"

lemma queue_device_refused:
  assumes "queue_accepted s u settings = None"
  shows "snd (queue_device who u settings s) = s"
  using assms
  by (auto simp: queue_accepted_def queue_device_def guard_ok_def try_pure_def ok_or_def
      split: sum.splits option.splits if_splits)

lemma queue_device_accepted:
  assumes "queue_accepted s u settings = Some (n, ss)"
  shows "snd (queue_device who u settings s) =
      snd (own_job who (c_next_job s) u ss (job_started n True (queued_job s who u ss) s)) \<or>
    snd (queue_device who u settings s) = job_started n False (queued_job s who u ss) s"
proof -
  have ok: "im_contains (c_units s) u" "res_mapM (validate_setting (uid_profile u)) settings = Inr ss" "ss \<noteq> []"
    "checked_add (c_next_job s) 1 = Some n"
    using assms by (auto simp: queue_accepted_def split: sum.splits if_splits)
  let ?s1 = "s\<lparr>c_next_job := n\<rparr>"
  let ?put = "\<lambda>s'. s'\<lparr>c_jobs := im_insert (c_jobs s') (c_next_job s) (queued_job s who u ss)\<rparr>"
  let ?call = "if jb_dispatched (queued_job s who u ss) then dispatch (DeviceWrite (c_next_job s) u ss) else ret (Inr ())"
  have run: "queue_device who u settings s =
      attempt ?call (\<lambda>_. done_ok [upd ?put, own_job who (c_next_job s) u ss]) ?s1"
    using ok by (simp add: queue_device_def ok_or_def Let_def bnd_app queued_job_def own_job_def)
  have put: "?put (snd (?call ?s1)) = job_started n True (queued_job s who u ss) s"
    by (simp add: job_started_def dispatch_def call_backend_def Let_def queued_job_def)
  have failed: "snd (?call ?s1) = job_started n False (queued_job s who u ss) s" if "fst (?call ?s1) = Inl e" for e
    using that by (simp add: job_started_def dispatch_def call_backend_def Let_def queued_job_def split: if_splits)
  show ?thesis
    unfolding run by (simp only: attempt_app done_ok_app seq_simps bnd_app act_simps put [symmetric])
      (cases "fst (?call ?s1)"; simp add: failed bnd_app)
qed

locale busy_run = quiet_run +
  assumes called: "plain_call c \<Longrightarrow> R s (s\<lparr>c_calls := Dispatch c # c_calls s\<rparr>)"
    and routed: "R s (s\<lparr>c_calls := Dispatch (Routing (av_revision (c_view s)) (routing_desired s) (c_bindings s)) # c_calls s\<rparr>)"
    and job_new: "checked_add (c_next_job s) 1 = Some n \<Longrightarrow> R s (job_started n keep job s)"
    and job_out: "im_get (c_jobs s) i = Some job \<Longrightarrow> \<not> jb_dispatched job \<Longrightarrow> R s (job_released keep i job s)"
    and job_gone: "R s (s\<lparr>c_jobs := im_shift_remove (c_jobs s) i\<rparr>)"
    and untidy: "\<not> im_wf (c_jobs s) \<Longrightarrow> R s s'"
    and held: "R s (s\<lparr>c_held_captures := h\<rparr>)"
    and handovers: "R s (s\<lparr>c_handovers := hs\<rparr>)"
    and refreshed: "R s (s\<lparr>c_view := (c_view s)\<lparr>av_revision := saturating_add (av_revision (c_view s)) 1,
       av_desired := config_desired (c_store s)\<rparr>, c_dirty := True\<rparr>)"
    and preferences: "stored_step (cs_preferences (c_store s)) st \<Longrightarrow>
       R s (s\<lparr>c_store := (c_store s)\<lparr>cs_preferences := st\<rparr>\<rparr>)"
    and rebound: "rebind (the_sources s) (c_bindings s) (c_binding_epoch s) = (bindings, epoch) \<Longrightarrow>
       R s (s\<lparr>c_bindings := bindings, c_binding_epoch := epoch\<rparr>)"
begin

lemma run_called: "plain_call c \<Longrightarrow> along R (dispatch c)"
  by (simp add: along_def dispatch_def call_backend_def Let_def called)

lemma run_set_meter_targets: "along R (set_meter_targets targets)"
  unfolding set_meter_targets_def Let_def
  by (intro run_basic run_called quiet [OF inert_issue] quiet [OF inert_upd])
    (simp_all add: core_simps plain_call_def)

lemma run_invalidate_meters: "along R (invalidate_meters before)"
  unfolding invalidate_meters_def Let_def by (intro run_basic run_set_meter_targets)

lemma run_refresh_desired: "along R refresh_desired"
proof (rule alongI)
  fix s :: controller
  show "R s (snd (refresh_desired s))"
    by (rule via_core [OF refreshed]) (simp add: refresh_desired_def core_simps)
qed

lemma run_handovers: "along R (upd (\<lambda>s. s\<lparr>c_handovers := hs s\<rparr>))"
  by (simp add: along_def handovers)

lemma run_held: "along R (upd (\<lambda>s. s\<lparr>c_held_captures := h s\<rparr>))"
  by (simp add: along_def held)

lemma run_job_gone: "along R (upd (\<lambda>s. s\<lparr>c_jobs := im_shift_remove (c_jobs s) i\<rparr>))"
  by (simp add: along_def job_gone)

lemma run_update_handovers: "along R (update_handovers before)"
  unfolding update_handovers_def by (rule run_handovers)

lemma run_route: "along R route"
proof (rule alongI)
  fix s :: controller
  define s1 where "s1 = s\<lparr>c_calls := Dispatch (Routing (av_revision (c_view s)) (routing_desired s) (c_bindings s)) # c_calls s\<rparr>"
  have "calm s1 (snd (route s))" if "\<not> c_frozen s \<and> routing_available (c_store s)"
    using inert_calm [OF inert_issue]
    by (simp add: route_def that act_apps dispatch_def call_backend_def Let_def s1_def split: sum.split option.split)
      (simp add: core_simps)
  moreover have "R s s1"
    unfolding s1_def by (rule routed)
  ultimately show "R s (snd (route s))"
    by (cases "\<not> c_frozen s \<and> routing_available (c_store s)") (auto intro: via_core simp: route_def same)
qed

lemma run_refresh_bindings: "along R refresh_bindings"
proof (rule alongI)
  fix s :: controller
  obtain bindings epoch where r: "rebind (the_sources s) (c_bindings s) (c_binding_epoch s) = (bindings, epoch)"
    by (cases "rebind (the_sources s) (c_bindings s) (c_binding_epoch s)")
  show "R s (snd (refresh_bindings s))"
    by (rule via_core [OF rebound [OF r]]) (simp add: refresh_bindings_def r core_simps)
qed

lemma run_queue_device: "along R (queue_device who u settings)"
proof (rule alongI)
  fix s :: controller
  show "R s (snd (queue_device who u settings s))"
  proof (cases "queue_accepted s u settings")
    case None
    then show ?thesis by (simp add: queue_device_refused same)
  next
    case (Some p)
    then obtain n ss where p: "queue_accepted s u settings = Some (n, ss)" by (cases p) auto
    then have n: "checked_add (c_next_job s) 1 = Some n"
      by (auto simp: queue_accepted_def split: if_splits sum.splits option.splits)
    have own: "along R (own_job who (c_next_job s) u ss)"
      unfolding own_job_def by (intro run_basic quiet [OF inert_remember_intents])
    show ?thesis
      using queue_device_accepted [OF p, of who] job_new [OF n] alongD [OF own] step_trans by metis
  qed
qed

lemma run_hold_capture: "along R (hold_capture node binding who)"
  unfolding hold_capture_def by (intro run_basic run_held)

lemma run_queue_capture: "along R (queue_capture node binding muted who)"
  unfolding queue_capture_def
  by (intro run_basic run_hold_capture run_called quiet [OF inert_upd]) (simp_all add: core_simps plain_call_def)

lemma run_sync_capture: "along R (sync_capture orig who node)"
  unfolding sync_capture_def by (intro run_basic run_queue_capture run_operation_failure)

lemma run_sync_mutes_excluding: "along R (sync_mutes_excluding before orig who excluded)"
  unfolding sync_mutes_excluding_def
  by (intro run_basic run_queue_device run_sync_capture run_operation_failure)

lemma run_sync_mutes: "along R (sync_mutes before orig who)"
  unfolding sync_mutes_def by (rule run_sync_mutes_excluding)

lemma run_request_silence: "along R (request_silence m)"
  unfolding request_silence_def
  by (cases "mb_target m"; simp only: mute_target.case)
    (intro run_basic run_queue_device run_queue_capture quiet [OF inert_issue])+

lemma run_invalidate_handover: "along R (invalidate_handover grp)"
  unfolding invalidate_handover_def by (intro run_basic run_handovers quiet [OF inert_issue])

lemma run_release_capture: "along R (release_capture e)"
  unfolding release_capture_def by (intro run_basic run_queue_capture run_operation_failure)

lemma run_release_captures: "along R release_captures"
  unfolding release_captures_def by (intro run_basic run_held run_release_capture run_finish_if_ready)

end

text \<open>The quiet operations leave the jobs and the calibration session of a state as they are, or end it.\<close>

interpretation jobs_frame: quiet_run "\<lambda>s s'. c_jobs s' = c_jobs s"
  by unfold_locales (simp_all add: core_simps answered_def)

definition release_failed :: "u64 \<Rightarrow> device_job \<Rightarrow> operation_error \<Rightarrow> unit cact" where
  "release_failed job_id job e = seq [
     operation_failure (jb_owner job) (device_text (jb_unit job)) e,
     (case jb_owner job of None \<Rightarrow> skip
      | Some i \<Rightarrow> seq [on_request i (\<lambda>r. r\<lparr>rq_remaining := removeAll job_id (rq_remaining r)\<rparr>),
          finish_if_ready i])]"

text \<open>The ways in which the release of a job can go.\<close>

lemma release_job_cases:
  assumes "im_get (c_jobs s) i = Some job"
  obtains "snd (release_job i s) = s"
  | e where "snd (release_job i s) = snd (release_failed i job e (s\<lparr>c_jobs := im_shift_remove (c_jobs s) i\<rparr>))"
  | "snd (release_job i s) = job_released True i job s"
  | e where "snd (release_job i s) = snd (release_failed i job e (job_released False i job s))"
proof -
  have "snd (release_job i s) = s" if "\<not> (job_cancelled s job \<or> \<not> held_back s (jb_open_sources job))"
    using that by (simp add: release_job_def assms)
  moreover have "\<exists>e. snd (release_job i s) = snd (release_failed i job e (s\<lparr>c_jobs := im_shift_remove (c_jobs s) i\<rparr>))"
    if "job_cancelled s job"
    using that by (simp add: release_job_def assms bnd_app release_failed_def exI)
  moreover have "snd (release_job i s) = job_released True i job s \<or>
      (\<exists>e. snd (release_job i s) = snd (release_failed i job e (job_released False i job s)))"
    if "\<not> job_cancelled s job" "\<not> held_back s (jb_open_sources job)"
    using that
    by (cases "be_call (c_backend s) (Dispatch (DeviceWrite i (jb_unit job) (jb_settings job)) # c_calls s)")
      (simp_all add: release_job_def assms bnd_app release_failed_def dispatch_def call_backend_def job_released_def exI)
  ultimately show thesis
    using that by blast
qed

lemma release_failed_jobs: "c_jobs (snd (release_failed i job e s)) = c_jobs s"
proof -
  have "along (\<lambda>s s'. c_jobs s' = c_jobs s) (release_failed i job e)"
    unfolding release_failed_def
    by (intro jobs_frame.run_basic jobs_frame.run_operation_failure jobs_frame.run_finish_if_ready)
  then show ?thesis by (simp add: along_def)
qed

lemma release_job_jobs:
  assumes "im_wf (c_jobs s)"
  shows "im_wf (c_jobs (snd (release_job i s)))"
    and "j \<noteq> i \<Longrightarrow> im_get (c_jobs (snd (release_job i s))) j = im_get (c_jobs s) j"
proof -
  have "im_wf (c_jobs (snd (release_job i s))) \<and>
      (j \<noteq> i \<longrightarrow> im_get (c_jobs (snd (release_job i s))) j = im_get (c_jobs s) j)"
  proof (cases "im_get (c_jobs s) i")
    case None
    then show ?thesis using assms by (simp add: release_job_def)
  next
    case (Some job)
    show ?thesis
      by (rule release_job_cases [OF Some])
        (use assms in \<open>simp_all add: release_failed_jobs job_released_def\<close>)
  qed
  then show "im_wf (c_jobs (snd (release_job i s)))"
    and "j \<noteq> i \<Longrightarrow> im_get (c_jobs (snd (release_job i s))) j = im_get (c_jobs s) j"
    by blast+
qed

lemma in_order_session:
  assumes "\<not> out_of_order s speech"
  obtains c where "c_calibration s = Some c" "cl_recording c = None" "cl_proposal c = None" "speech = (cl_floor c \<noteq> None)"
  using assms by (cases "c_calibration s") (simp_all add: out_of_order_def del: not_None_eq)

context busy_run
begin

lemma run_release_failed: "along R (release_failed i job e)"
  unfolding release_failed_def by (intro run_basic run_operation_failure run_finish_if_ready)

lemma run_release_job:
  assumes "case im_get (c_jobs s) i of None \<Rightarrow> True | Some job \<Rightarrow> \<not> jb_dispatched job"
  shows "R s (snd (release_job i s))"
proof (cases "im_get (c_jobs s) i")
  case None
  then show ?thesis by (simp add: release_job_def same)
next
  case (Some job)
  then have held: "\<not> jb_dispatched job" using assms by simp
  show ?thesis
  proof (rule release_job_cases [OF Some])
    assume "snd (release_job i s) = s"
    then show ?thesis by (simp add: same)
  next
    fix e
    assume "snd (release_job i s) = snd (release_failed i job e (s\<lparr>c_jobs := im_shift_remove (c_jobs s) i\<rparr>))"
    then show ?thesis
      using step_trans [OF job_gone alongD [OF run_release_failed]] by simp
  next
    assume "snd (release_job i s) = job_released True i job s"
    then show ?thesis using job_out [OF Some held] by simp
  next
    fix e
    assume "snd (release_job i s) = snd (release_failed i job e (job_released False i job s))"
    then show ?thesis
      using step_trans [OF job_out [OF Some held] alongD [OF run_release_failed]] by simp
  qed
qed

lemma run_release_jobs:
  assumes "distinct ids" "im_wf (c_jobs s)"
    "\<forall>i\<in>set ids. case im_get (c_jobs s) i of None \<Rightarrow> True | Some job \<Rightarrow> \<not> jb_dispatched job"
  shows "R s (snd (each release_job ids s))"
  using assms
proof (induction ids arbitrary: s)
  case Nil
  then show ?case by (simp add: same)
next
  case (Cons i ids)
  let ?t = "snd (release_job i s)"
  have "R s ?t" using Cons.prems(3) by (intro run_release_job) simp
  moreover have "R ?t (snd (each release_job ids ?t))"
  proof (rule Cons.IH)
    show "distinct ids" using Cons.prems(1) by simp
    show "im_wf (c_jobs ?t)" using release_job_jobs(1) [OF Cons.prems(2)] .
    show "\<forall>j\<in>set ids. case im_get (c_jobs ?t) j of None \<Rightarrow> True | Some job \<Rightarrow> \<not> jb_dispatched job"
      using Cons.prems release_job_jobs(2) [OF Cons.prems(2)] by (metis distinct.simps(2) list.set_intros(2))
  qed
  ultimately show ?case by (auto simp: bnd_app intro: step_trans)
qed

lemma run_release_held_jobs:
  "along R (ask (\<lambda>s. each release_job (map fst (filter (\<lambda>(_, job). \<not> jb_dispatched job) (c_jobs s)))))"
proof (rule alongI)
  fix s :: controller
  show "R s (snd (ask (\<lambda>s. each release_job (map fst (filter (\<lambda>(_, job). \<not> jb_dispatched job) (c_jobs s)))) s))"
  proof (cases "im_wf (c_jobs s)")
    case True
    show ?thesis
      unfolding act_simps
      by (rule run_release_jobs [OF _ True])
        (use True im_get_mem [OF True] in \<open>auto simp: im_wf_def intro!: distinct_map_filter dest: eq_key_imp_eq_value split: option.splits\<close>)
  qed (rule untidy)
qed

lemma run_request_handover_silence: "along R request_handover_silence"
  unfolding request_handover_silence_def by (intro run_basic run_handovers run_request_silence)

lemma run_advance_handovers: "along R advance_handovers"
  unfolding advance_handovers_def Let_def
  by (intro run_basic run_request_handover_silence run_invalidate_handover run_handovers run_release_held_jobs
      run_release_captures run_refresh_desired run_route)

end

subsection \<open>The calibration session\<close>

text \<open>No operation but those of the session itself opens or changes one; others may end it.\<close>

definition session_kept :: "controller \<Rightarrow> controller \<Rightarrow> bool" where
  "session_kept s s' \<longleftrightarrow> (im_wf (c_jobs s) \<longrightarrow>
     im_wf (c_jobs s') \<and> (c_calibration s' = c_calibration s \<or> c_calibration s' = None))"

interpretation kept: busy_run session_kept
  by unfold_locales (auto simp: session_kept_def core_simps answered_def job_started_def job_released_def)

text \<open>A validated token is that of the session.\<close>

lemma validated_session:
  "validate_calibration s token = Inr () \<Longrightarrow> \<exists>c. c_calibration s = Some c \<and> cl_token c = token"
  by (auto simp: validate_calibration_def rbind_Inr_iff ok_or_def split: option.splits if_splits)

lemma cancel_ends: "im_wf (c_jobs s) \<Longrightarrow> c_calibration (snd (cancel_calibration s)) = None"
proof -
  assume wf: "im_wf (c_jobs s)"
  have "c_calibration (snd (drop_session outcome s)) = None \<and> im_wf (c_jobs (snd (drop_session outcome s)))" for outcome
  proof (cases "c_calibration s")
    case (Some c)
    let ?rest = "seq [
         handle (dispatch (StopCalibration (cl_token c))) (\<lambda>e. issue ''calibration cancellation'' (err_message e)),
         (case cl_recording c of None \<Rightarrow> skip | Some (command, _) \<Rightarrow> finish command outcome)]"
    have called: "along (\<lambda>s s'. c_calibration s' = c_calibration s \<and> c_jobs s' = c_jobs s)
      (handle (dispatch (StopCalibration (cl_token c))) (\<lambda>e. issue ''calibration cancellation'' (err_message e)))"
      by (auto simp: along_def handle_app dispatch_def call_backend_def Let_def issue_def split: sum.split)
    have fin: "along session_kept (case cl_recording c of None \<Rightarrow> skip | Some (command, _) \<Rightarrow> finish command outcome)"
      by (intro kept.run_basic)
    have "session_kept t (snd (handle (dispatch (StopCalibration (cl_token c)))
        (\<lambda>e. issue ''calibration cancellation'' (err_message e)) t))" for t
      using called by (simp add: along_def session_kept_def)
    from kept.step_trans [OF this alongD [OF fin]]
    have "session_kept (s\<lparr>c_calibration := None\<rparr>) (snd (?rest (s\<lparr>c_calibration := None\<rparr>)))"
      by (simp add: bnd_app)
    then show ?thesis using wf Some by (simp add: drop_session_def bnd_app session_kept_def)
  qed (simp add: drop_session_def wf)
  then show "c_calibration (snd (cancel_calibration s)) = None"
    by (simp add: cancel_calibration_def bnd_app on_view_def touch_def)
qed

text \<open>The operations of the session follow its protocol.\<close>

locale recorder_run = busy_run +
  assumes session: "session_step (c_next_session s, c_calibration s, []) (n, cal, orders) \<Longrightarrow>
    R s (s\<lparr>c_next_session := n, c_calibration := cal, c_calls := orders @ c_calls s\<rparr>)"
begin

lemma session_at:
  assumes "c_calibration s = Some c" "session_step (c_next_session s, Some c, []) (c_next_session s, cal, orders)"
  shows "R s (s\<lparr>c_calibration := cal, c_calls := orders @ c_calls s\<rparr>)"
  using session [of s "c_next_session s" cal orders] assms by simp

lemma run_start_calibration: "along R (start_calibration source)"
proof (rule alongI)
  fix s :: controller
  define t where "t = snd (cancel_calibration s)"
  have start: "R s t" unfolding t_def by (rule alongD [OF run_cancel_calibration])
  show "R s (snd (start_calibration source s))"
  proof (cases "im_wf (c_jobs s)")
    case True
    then have none: "c_calibration t = None" unfolding t_def by (rule cancel_ends)
    have leaf: "R t (snd (done_ok [
       upd (\<lambda>s. s\<lparr>c_next_session := n,
         c_view := (c_view s)\<lparr>av_calibration := Some \<lparr>cal_token = token, cal_phase = NoiseReady\<rparr>\<rparr>,
         c_calibration := Some \<lparr>cl_token = token, cl_binding = binding, cl_recording = None, cl_floor = None,
           cl_proposal = None\<rparr>\<rparr>),
       clear_issue ''calibration'',
       touch] t))"
      if "new_token t source = Inr token" "checked_add (c_next_session t) 1 = Some n" for token binding n
    proof -
      let ?u = "t\<lparr>c_next_session := n, c_calibration := Some (fresh_session token binding), c_calls := [] @ c_calls t\<rparr>"
      let ?v = "t\<lparr>c_next_session := n,
         c_view := (c_view t)\<lparr>av_calibration := Some \<lparr>cal_token = token, cal_phase = NoiseReady\<rparr>\<rparr>,
         c_calibration := Some \<lparr>cl_token = token, cl_binding = binding, cl_recording = None, cl_floor = None,
           cl_proposal = None\<rparr>\<rparr>"
      have "tk_session token = c_next_session t" using that(1) by (auto simp: new_token_def rbind_Inr_iff)
      then have "R t ?u" using that(2) none by (intro session) (simp add: session_started)
      then have "R t ?v" by (rule via_core) (simp add: core_simps fresh_session_def)
      moreover have "along R (seq [clear_issue ''calibration'', touch])"
        by (intro run_basic quiet [OF inert_touch] quiet [OF inert_clear_issue])
      then have "R ?v (snd (seq [clear_issue ''calibration'', touch] ?v))" by (rule alongD)
      ultimately have "R t (snd (seq [clear_issue ''calibration'', touch] ?v))" by (rule step_trans)
      then show ?thesis by (simp add: done_ok_app bnd_app)
    qed
    have "R t (snd (start_calibration source s))"
      unfolding start_calibration_def bnd_app t_def [symmetric] act_simps(4)
      by (intro run_try_at leaf) (auto simp: ok_or_def split: option.splits)
    then show ?thesis using start by (rule step_trans [rotated])
  qed (rule untidy)
qed

lemma run_record_calibration: "along R (record_calibration command token speech)"
proof -
  let ?k = "\<lambda>r. case r of Inl e \<Rightarrow> bnd (expire_calibration e) (\<lambda>_. fail_with e)
    | Inr _ \<Rightarrow> done_ok [
        on_session (\<lambda>c. c\<lparr>cl_recording := Some (command, speech)\<rparr>),
        on_request command (\<lambda>r. r\<lparr>rq_waiting := True\<rparr>),
        enter_phase (if speech then RecordingSpeech else RecordingNoise)]"
  let ?call = "RecordCalibration token (if speech then SPEECH_SECONDS else FLOOR_SECONDS)"
  have step: "R s (snd (bnd (dispatch ?call) ?k s))"
    if valid: "validate_calibration s token = Inr ()" and ordered: "\<not> out_of_order s speech" for s
  proof -
    obtain c where c: "c_calibration s = Some c" "cl_token c = token" "may_record c speech"
    proof -
      from in_order_session [OF ordered] obtain c where "c_calibration s = Some c" "may_record c speech"
        by (auto simp: may_record_def)
      then show thesis using validated_session [OF valid] that by auto
    qed
    define t where "t = s\<lparr>c_calls := recording_call c speech # c_calls s\<rparr>"
    have t: "snd (dispatch ?call s) = t"
      by (simp add: dispatch_def call_backend_def Let_def t_def recording_call_def c(2))
    show ?thesis
    proof (cases "fst (dispatch ?call s)")
      case (Inl e)
      have "R s (t\<lparr>c_calibration := None, c_calls := stop_call c # c_calls t\<rparr>)"
        by (rule via_core [OF session_at [OF c(1) recording_refused [OF c(3)]]]) (simp add: core_simps t_def)
      then have "R s (snd (expire_calibration e t))"
        by (rule expire_after [rotated]) (simp add: t_def c(1))
      then show ?thesis by (simp add: bnd_app t Inl)
    next
      case (Inr u)
      have "R s (snd (on_session (\<lambda>c. c\<lparr>cl_recording := Some (command, speech)\<rparr>) t))"
        by (rule via_core [OF session_at [OF c(1) recording_started [OF c(3), where command = command]]])
          (simp add: core_simps t_def on_session_def c(1))
      moreover have "along R (seq [on_request command (\<lambda>r. r\<lparr>rq_waiting := True\<rparr>),
          enter_phase (if speech then RecordingSpeech else RecordingNoise)])"
        by (intro run_basic quiet [OF inert_enter_phase])
      ultimately show ?thesis by (auto simp: bnd_app t Inr done_ok_app along_def intro: step_trans)
    qed
  qed
  have rest: "along R (ask (\<lambda>s. try_pure (validate_calibration s token) (\<lambda>_. guard_ok (\<not> out_of_order s speech)
        (error_invalid ''Record room noise once, then speech, then review the proposal'') (bnd (dispatch ?call) ?k))))"
  proof (rule alongI)
    fix s :: controller
    show "R s (snd (ask (\<lambda>s. try_pure (validate_calibration s token) (\<lambda>_. guard_ok (\<not> out_of_order s speech)
        (error_invalid ''Record room noise once, then speech, then review the proposal'') (bnd (dispatch ?call) ?k))) s))"
      by (cases "validate_calibration s token"; cases "out_of_order s speech") (simp_all add: same step)
  qed
  then show ?thesis
    unfolding record_calibration_def by (intro along_bnd run_calibration_validity)
qed

lemma run_recording_over:
  assumes "c_calibration s = Some c"
    and "session_step (c_next_session s, Some c, []) (c_next_session s, Some ((f c)\<lparr>cl_recording := None\<rparr>), [])"
  shows "R s (snd (seq [on_session f, enter_phase phase, recording_over command] s))"
proof -
  let ?s1 = "snd (enter_phase phase (snd (on_session f s)))"
  let ?s2 = "snd (on_session (\<lambda>c. c\<lparr>cl_recording := None\<rparr>) ?s1)"
  have "calm (snd (on_session f s)) ?s1"
    by (rule inert_calm [OF inert_enter_phase])
  then have "calm (s\<lparr>c_calibration := Some ((f c)\<lparr>cl_recording := None\<rparr>), c_calls := [] @ c_calls s\<rparr>) ?s2"
    by (simp add: on_session_def core_simps assms(1))
  with session_at [OF assms] have "R s ?s2"
    by (rule via_core)
  moreover have "along R (seq [on_request command (\<lambda>r. r\<lparr>rq_waiting := False\<rparr>), finish_if_ready command])"
    by (intro run_basic run_finish_if_ready)
  ultimately show ?thesis
    by (auto simp: bnd_app recording_over_def along_def intro: step_trans)
qed

lemma run_calibration_complete: "along R (calibration_complete event)"
proof (rule alongI)
  fix s :: controller
  have expire: "R s (snd (expire_calibration e s))" and cancel: "R s (snd (cancel_calibration s))" for e
    using alongD [OF run_expire] alongD [OF run_cancel_calibration] by blast+
  have noise: "R s (snd (seq [on_session (\<lambda>c. c\<lparr>cl_floor := Some m\<rparr>), enter_phase SpeechReady, recording_over command] s))"
    if "c_calibration s = Some c" "cl_recording c = Some (command, False)" for c command m
    by (rule run_recording_over [OF that(1)]) (simp add: noise_measured [OF that(2)])
  have speech: "R s (snd (seq [on_session (\<lambda>c. c\<lparr>cl_proposal := Some (a, tone)\<rparr>), enter_phase phase, recording_over command] s))"
    if "c_calibration s = Some c" "cl_recording c = Some (command, True)" "cl_floor c = Some flo"
      "speech_proposal s source flo m = Inr (a, tone, settings)" for c command flo m a tone settings source phase
  proof (rule run_recording_over [OF that(1)])
    have "analyze (me_peaks_db flo) (me_peaks_db m) = Inr a" "analyze_tone flo m = Inr tone"
      using that(4) by (auto simp: speech_proposal_def rbind_Inr_iff)
    then show "session_step (c_next_session s, Some c, [])
        (c_next_session s, Some (c\<lparr>cl_proposal := Some (a, tone), cl_recording := None\<rparr>), [])"
      by (rule speech_measured [OF that(2,3)])
  qed
  show "R s (snd (calibration_complete event s))"
    by (simp add: calibration_complete_def same expire cancel noise speech del: seq_simps split: option.split sum.split)
qed

end

end
