(* ===== verification/Lifecycle.thy ===== *)
theory Lifecycle
  imports Runs
begin

text \<open>
  The contract of \<open>Runs\<close> carried over to every command, every event, the turns of the loop and the
  shutdown. \<open>stepwise_run\<close> has a law for one change of one store and derives the commits from it;
  \<open>active_run\<close> takes the commits as laws, for facts that a commit keeps only as a whole;
  \<open>session_run\<close> takes the shutdown as a law, and \<open>full_run\<close> derives it from the change of the life cycle.
\<close>

subsection \<open>Changes of a store\<close>

definition prepared_for :: "'a stored \<Rightarrow> 'a prepared \<Rightarrow> bool" where
  "prepared_for st p \<longleftrightarrow> writable st \<and> (\<exists>j. sd_decode st j = Inr (pr_value p))"

lemma stored_prepare_prepared:
  assumes "fst (stored_prepare pretty st v fs) = Inr p"
  shows "prepared_for st p"
  by (rule stored_prepare_Inr [OF assms]) (auto simp: prepared_for_def)

lemma stored_publish_step:
  assumes "prepared_for st p" and "fst (stored_publish st p fs) = Inr st'"
  shows "stored_step st st'"
  using assms stored_publish_files [of st p fs] by (auto simp: prepared_for_def stored_step_def)

text \<open>A field of the configuration whose change is a step of the configuration.\<close>

definition sound_field :: "'a store_field \<Rightarrow> bool" where
  "sound_field f \<longleftrightarrow> (\<forall>cs st. stored_step (sf_get f cs) st \<longrightarrow> config_step cs (sf_put f st cs))"

lemma stored_step_refl [simp]: "stored_step st st"
  by (simp add: stored_step_def)

lemma sound_fields [simp]:
  "sound_field sources_field" "sound_field mixes_field" "sound_field matrix_field"
  "sound_field preferences_field" "sound_field scenes_field"
  by (simp_all add: sound_field_def config_step_def sources_field_def mixes_field_def matrix_field_def
      preferences_field_def scenes_field_def)

lemma store_prepare_app:
  "store_prepare f v s = (fst (stored_prepare (c_pretty s) (sf_get f (c_store s)) v (c_fs s)),
     s\<lparr>c_fs := snd (stored_prepare (c_pretty s) (sf_get f (c_store s)) v (c_fs s))\<rparr>)"
  by (simp add: store_prepare_def on_fs_def split: prod.split)

lemma store_publish_app:
  "store_publish f p s = (let r = stored_publish (sf_get f (c_store s)) p (c_fs s) in case fst r of
       Inl e \<Rightarrow> (Inl e, s\<lparr>c_fs := snd r\<rparr>)
     | Inr st \<Rightarrow> (Inr (), s\<lparr>c_fs := snd r, c_store := sf_put f st (c_store s)\<rparr>))"
  by (simp add: store_publish_def act_apps on_fs_def store_put_def Let_def case_prod_unfold split: sum.split)

lemma inert_store_prepare: "inert (store_prepare f v)"
  by (rule inertI) (simp add: store_prepare_app core_simps)

text \<open>What the publication of a prepared value does to the configuration: nothing, or one step of its field.\<close>

lemma store_publish_store:
  assumes "prepared_for (sf_get f (c_store s)) p"
  shows "\<exists>cs. (cs = c_store s \<or> (\<exists>st. stored_step (sf_get f (c_store s)) st \<and> cs = sf_put f st (c_store s))) \<and>
    calm (s\<lparr>c_store := cs\<rparr>) (snd (store_publish f p s))"
  using stored_publish_step [OF assms, of "c_fs s"]
  by (cases "fst (stored_publish (sf_get f (c_store s)) p (c_fs s))")
    (auto simp: store_publish_app Let_def core_simps)

lemma store_publish_elsewhere:
  "sf_get matrix_field (c_store (snd (store_publish sources_field p s))) = sf_get matrix_field (c_store s)"
  "sf_get preferences_field (c_store (snd (store_publish sources_field p s))) = sf_get preferences_field (c_store s)"
  "sf_get preferences_field (c_store (snd (store_publish matrix_field p' s))) = sf_get preferences_field (c_store s)"
  "sf_get matrix_field (c_store (snd (store_publish mixes_field p'' s))) = sf_get matrix_field (c_store s)"
  by (simp_all add: store_publish_app Let_def sources_field_def matrix_field_def mixes_field_def preferences_field_def
      split: sum.split)

locale store_run = busy_run +
  assumes stored: "config_step (c_store s) cs \<Longrightarrow> R s (s\<lparr>c_store := cs\<rparr>)"
begin

lemma run_publish_prepared:
  assumes "sound_field f" and "prepared_for (sf_get f (c_store s)) p"
  shows "R s (snd (store_publish f p s))"
proof -
  obtain cs where cs: "cs = c_store s \<or> (\<exists>st. stored_step (sf_get f (c_store s)) st \<and> cs = sf_put f st (c_store s))"
    "calm (s\<lparr>c_store := cs\<rparr>) (snd (store_publish f p s))"
    using store_publish_store [OF assms(2)] by blast
  have "R s (s\<lparr>c_store := cs\<rparr>)"
    using cs(1) assms(1) by (auto simp: sound_field_def intro: stored same)
  then show ?thesis using cs(2) by (rule via_core)
qed

lemma run_prepare:
  assumes "\<And>p t. prepared_for (sf_get f (c_store s)) p \<Longrightarrow> c_store t = c_store s \<Longrightarrow> R t (snd (k p t))"
  shows "R s (snd (attempt (store_prepare f v) k s))"
proof (cases "fst (store_prepare f v s)")
  case (Inl e)
  then show ?thesis by (simp add: attempt_app inert [OF inert_calm [OF inert_store_prepare]])
next
  case (Inr p)
  have "R (snd (store_prepare f v s)) (snd (k p (snd (store_prepare f v s))))"
    using Inr by (intro assms) (auto simp: store_prepare_app dest: stored_prepare_prepared)
  then show ?thesis
    using step_trans [OF inert [OF inert_calm [OF inert_store_prepare]]] by (simp add: attempt_app Inr)
qed

lemma run_store_replace: "sound_field f \<Longrightarrow> along R (store_replace f v)"
  unfolding store_replace_def by (intro alongI run_prepare) (simp add: run_publish_prepared)

lemma step_commit_sources: "along R (commit_sources srcs)"
  unfolding commit_sources_def Let_def
  by (intro run_basic run_store_replace sound_fields run_invalidate_meters quiet [OF inert_clear_issue]
      run_refresh_desired run_refresh_bindings run_calibration_validity quiet [OF inert_sync_unit_view]
      run_update_handovers run_route)

lemma step_commit_matrix: "along R (commit_matrix matrix)"
  unfolding commit_matrix_def
  by (intro run_basic run_store_replace sound_fields quiet [OF inert_clear_issue] run_refresh_desired run_route)

lemma step_commit_mixes: "along R (commit_mixes ms)"
  unfolding commit_mixes_def by (intro run_basic run_store_replace sound_fields run_refresh_desired run_route)

lemma step_commit_scenes: "along R (commit_scenes saved)"
  unfolding commit_scenes_def by (intro run_basic run_store_replace sound_fields run_refresh_desired run_route)

lemma run_bnd_at:
  "R s (snd (m s)) \<Longrightarrow> (\<And>x. R (snd (m s)) (snd (k x (snd (m s))))) \<Longrightarrow> R s (snd (bnd m k s))"
  by (auto simp: bnd_app intro: step_trans)

lemma run_attempt_at:
  "R s (snd (m s)) \<Longrightarrow> (\<And>x. fst (m s) = Inr x \<Longrightarrow> R (snd (m s)) (snd (k x (snd (m s))))) \<Longrightarrow>
     R s (snd (attempt m k s))"
  by (auto simp: attempt_app intro: step_trans split: sum.split)

lemma run_show_saved_preferences:
  "along R (upd (\<lambda>s. s\<lparr>c_view := (c_view s)\<lparr>av_preferences := sd_value (cs_preferences (c_store s))\<rparr>\<rparr>))"
  by (intro quiet [OF inert_upd]) (simp add: core_simps)

lemma run_removed_source:
  assumes "prepared_for (sf_get sources_field (c_store s)) srcs"
    and "prepared_for (sf_get matrix_field (c_store s)) matrix"
    and "\<And>p. prefs = Some p \<Longrightarrow> prepared_for (sf_get preferences_field (c_store s)) p"
    and "along R tidy"
  shows "R s (snd (attempt (store_publish sources_field srcs) (\<lambda>_.
         bnd (store_publish matrix_field matrix) (\<lambda>matrix_result.
         bnd (case prefs of
                None \<Rightarrow> ret (Inr ())
              | Some p \<Rightarrow> bnd (store_publish preferences_field p) (\<lambda>r.
                  bnd (upd (\<lambda>s. s\<lparr>c_view := (c_view s)\<lparr>av_preferences := sd_value (cs_preferences (c_store s))\<rparr>\<rparr>))
                    (\<lambda>_. ret r))) (\<lambda>preferences_result.
         bnd tidy (\<lambda>_. ret (rbind matrix_result (\<lambda>_. preferences_result)))))) s))"
proof (intro run_attempt_at run_bnd_at)
  show "R s (snd (store_publish sources_field srcs s))"
    by (simp add: run_publish_prepared assms(1))
next
  fix x :: unit
  let ?t = "snd (store_publish sources_field srcs s)"
  show "R ?t (snd (store_publish matrix_field matrix ?t))"
    by (simp add: run_publish_prepared store_publish_elsewhere assms(2))
  fix y :: "unit res"
  let ?u = "snd (store_publish matrix_field matrix ?t)"
  let ?m = "case prefs of None \<Rightarrow> ret (Inr ())
    | Some p \<Rightarrow> bnd (store_publish preferences_field p) (\<lambda>r.
        bnd (upd (\<lambda>s. s\<lparr>c_view := (c_view s)\<lparr>av_preferences := sd_value (cs_preferences (c_store s))\<rparr>\<rparr>)) (\<lambda>_. ret r))"
  show "R ?u (snd (?m ?u))"
  proof (cases prefs)
    case (Some p)
    have "R ?u (snd (store_publish preferences_field p ?u))"
      by (simp add: run_publish_prepared store_publish_elsewhere assms(3) [OF Some])
    then show ?thesis
      unfolding Some option.case
      by (intro run_bnd_at alongD [OF run_show_saved_preferences]) (simp_all add: same)
  qed (simp add: same)
  fix z :: "unit res"
  show "R (snd (?m ?u)) (snd (tidy (snd (?m ?u))))"
    by (rule alongD [OF assms(4)])
  fix w
  show "R (snd (tidy (snd (?m ?u)))) (snd (ret (rbind y (\<lambda>_. z)) (snd (tidy (snd (?m ?u))))))"
    by (simp add: same)
qed

end

context store_run
begin

lemma run_guard_at: "R s (snd (m s)) \<Longrightarrow> R s (snd (guard_ok b e m s))"
  by (cases b) (simp_all add: same)

lemma run_ask_at: "R s (snd (f s s)) \<Longrightarrow> R s (snd (ask f s))"
  by simp

lemma run_prepare_optional:
  assumes "\<And>q t. (\<And>p. q = Some p \<Longrightarrow> prepared_for (sf_get f (c_store s)) p) \<Longrightarrow> c_store t = c_store s \<Longrightarrow> R t (snd (k q t))"
  shows "R s (snd (attempt (if b then attempt (store_prepare f v) (\<lambda>p. ret (Inr (Some p))) else ret (Inr None)) k s))"
proof (cases b)
  case True
  have "R s (snd (attempt (store_prepare f v) (\<lambda>p. k (Some p)) s))"
    by (rule run_prepare, rule assms) simp_all
  then show ?thesis
    by (simp add: True attempt_app split: sum.splits)
next
  case False
  then show ?thesis using assms [of None s] by (simp add: attempt_app)
qed

lemma step_remove_source: "along R (remove_source source)"
proof (rule alongI)
  fix s :: controller
  show "R s (snd (remove_source source s))"
    unfolding remove_source_def Let_def
    by (intro run_ask_at run_try_at run_guard_at run_prepare_optional run_prepare run_removed_source
        run_basic run_invalidate_meters run_cancel_pending run_refresh_desired run_refresh_bindings
        run_calibration_validity run_route) simp_all
qed

lemma step_remove_mix: "along R (remove_mix m)"
proof (rule alongI)
  fix s :: controller
  have publish: "R t (snd (attempt (store_publish mixes_field ms) (\<lambda>_.
         bnd (store_publish matrix_field matrix) (\<lambda>matrix_result.
         bnd tidy (\<lambda>_. ret matrix_result))) t))"
    if "prepared_for (sf_get mixes_field (c_store t)) ms" "prepared_for (sf_get matrix_field (c_store t)) matrix"
      "along R tidy" for t ms matrix tidy
    by (intro run_attempt_at run_bnd_at alongD [OF that(3)])
      (simp_all add: run_publish_prepared store_publish_elsewhere that(1,2) same)
  show "R s (snd (remove_mix m s))"
    unfolding remove_mix_def Let_def
    by (intro run_ask_at run_try_at run_guard_at run_prepare publish
        run_basic run_invalidate_meters run_cancel_pending run_refresh_desired run_route) simp_all
qed

end

text \<open>Saving the sources does not change the session, it can only end it.\<close>

interpretation kept: store_run session_kept
  by unfold_locales (simp add: session_kept_def)

text \<open>The laws of single changes.\<close>

locale stepwise_run = store_run + recorder_run

text \<open>A controller that is not frozen: everything but the shutdown.\<close>

locale active_run = recorder_run +
  assumes run_commit_sources: "along R (commit_sources srcs)"
    and run_commit_matrix: "along R (commit_matrix matrix)"
    and run_commit_mixes: "along R (commit_mixes ms)"
    and run_commit_scenes: "along R (commit_scenes saved)"
    and run_remove_source: "along R (remove_source source)"
    and run_remove_mix: "along R (remove_mix m)"

sublocale stepwise_run \<subseteq> active_run
  by unfold_locales (rule step_commit_sources step_commit_matrix step_commit_mixes step_commit_scenes
      step_remove_source step_remove_mix)+

context active_run
begin

lemma run_replace_preferences: "along R (store_replace preferences_field prefs)"
proof (rule alongI)
  fix s :: controller
  let ?r = "store_prepare preferences_field prefs s"
  have prepare: "R s (snd ?r)"
    by (rule alongD [OF quiet [OF inert_store_prepare]])
  have publish: "R t (snd (store_publish preferences_field p t))"
    if p: "prepared_for (sf_get preferences_field (c_store t)) p" for t p
  proof -
    obtain cs where cs: "cs = c_store t \<or> (\<exists>st. stored_step (sf_get preferences_field (c_store t)) st \<and>
        cs = sf_put preferences_field st (c_store t))"
      "calm (t\<lparr>c_store := cs\<rparr>) (snd (store_publish preferences_field p t))"
      using store_publish_store [OF p] by blast
    have "R t (t\<lparr>c_store := cs\<rparr>)"
      using cs(1) by (auto simp: preferences_field_def intro: preferences same)
    then show ?thesis using cs(2) by (rule via_core)
  qed
  show "R s (snd (store_replace preferences_field prefs s))"
  proof (cases "fst ?r")
    case (Inl e)
    then show ?thesis using prepare by (simp add: store_replace_def attempt_app)
  next
    case (Inr p)
    have "prepared_for (sf_get preferences_field (c_store (snd ?r))) p"
      using Inr by (auto simp: store_prepare_app dest: stored_prepare_prepared)
    then show ?thesis
      using step_trans [OF prepare publish] Inr by (simp add: store_replace_def attempt_app)
  qed
qed

lemma run_set_source_mute: "along R (set_source_mute source muted orig who)"
  unfolding set_source_mute_def Let_def by (intro run_basic run_commit_sources run_sync_mutes)

lemma run_set_source_fx: "along R (set_source_fx source settings)"
  unfolding set_source_fx_def by (intro run_basic run_commit_sources)

lemma run_accept_calibration: "along R (accept_calibration token)"
proof -
  let ?over = "upd (\<lambda>s. s\<lparr>c_calibration := None, c_view := (c_view s)\<lparr>av_calibration := None\<rparr>\<rparr>)"
  let ?save = "\<lambda>settings. bnd (cancel_pending (\<lambda>key. key = PendingFx (tk_source token))) (\<lambda>_.
     set_source_fx (tk_source token) settings)"
  have save: "along R (?save settings)" for settings
    by (intro run_basic run_cancel_pending run_set_source_fx)
  have saved: "along session_kept (?save settings)" for settings
    unfolding set_source_fx_def by (intro kept.run_basic kept.run_cancel_pending kept.step_commit_sources)
  have over: "R t (snd (?over t))" if "session_kept s t" "im_wf (c_jobs s)" "Option.bind (c_calibration s) cl_proposal = Some p" for s t p
  proof (cases "c_calibration t")
    case None
    then show ?thesis by (intro inert) (simp add: core_simps)
  next
    case (Some c)
    then have "cl_proposal c \<noteq> None" using that by (cases "c_calibration s") (auto simp: session_kept_def)
    from session_at [OF Some proposal_accepted [OF this]] show ?thesis
      by (rule via_core) (simp add: core_simps)
  qed
  have accepted: "R s (snd (bnd (cancel_pending (\<lambda>key. key = PendingFx (tk_source token))) (\<lambda>_.
     bnd (set_source_fx (tk_source token) settings) (\<lambda>r. case r of
         Inl e \<Rightarrow> bnd (expire_calibration e) (\<lambda>_. fail_with e)
       | Inr _ \<Rightarrow> done_ok [?over, clear_issue ''calibration'', touch])) s))"
    if "Option.bind (c_calibration s) cl_proposal = Some p" for s p settings
  proof (cases "im_wf (c_jobs s)")
    case True
    let ?t = "snd (?save settings s)"
    have "along R (seq [clear_issue ''calibration'', touch])"
      by (intro run_basic quiet [OF inert_touch] quiet [OF inert_clear_issue])
    then have "R (snd (?over ?t)) (snd (seq [clear_issue ''calibration'', touch] (snd (?over ?t))))" by (rule alongD)
    with over [OF alongD [OF saved] True that]
    have "R ?t (snd (seq [clear_issue ''calibration'', touch] (snd (?over ?t))))" by (rule step_trans)
    then have "R ?t (snd (seq [?over, clear_issue ''calibration'', touch] ?t))" by (simp add: bnd_app)
    moreover have "R ?t (snd (expire_calibration e ?t))" for e
      by (rule alongD [OF run_expire])
    moreover have "R s ?t" by (rule alongD [OF save])
    ultimately show ?thesis
      by (auto simp: bnd_app done_ok_app intro: step_trans split: sum.split)
  qed (rule untidy)
  have "along R (ask (\<lambda>s.
     try_pure (validate_calibration s token) (\<lambda>_.
     try_pure (ok_or (error_invalid ''Record both calibration phases and review before applying'')
       (Option.bind (c_calibration s) cl_proposal)) (\<lambda>(analysis, tone).
     try_pure (proposed_settings analysis (current_fx s (tk_source token)) (Some tone)) (\<lambda>settings.
     bnd (cancel_pending (\<lambda>key. key = PendingFx (tk_source token))) (\<lambda>_.
     bnd (set_source_fx (tk_source token) settings) (\<lambda>r. case r of
         Inl e \<Rightarrow> bnd (expire_calibration e) (\<lambda>_. fail_with e)
       | Inr _ \<Rightarrow> done_ok [?over, clear_issue ''calibration'', touch])))))))"
  proof (rule alongI, unfold act_simps(4), intro run_try_at, unfold case_prod_beta, intro run_try_at)
  qed (auto simp: ok_or_def intro!: accepted split: option.splits)
  then show ?thesis
    unfolding accept_calibration_def by (intro along_bnd run_calibration_validity)
qed

lemma run_cancel_calibration_token: "along R (cancel_calibration_token token)"
  unfolding cancel_calibration_token_def by (intro run_basic run_cancel_calibration)

subsubsection \<open>Events\<close>

lemma run_follow_unit_mute: "along R (follow_unit_mute u desired muted source)"
  unfolding follow_unit_mute_def by (intro run_basic run_set_source_mute quiet [OF inert_issue])

lemma run_case_bool: "along R m \<Longrightarrow> along R n \<Longrightarrow> along R (case b of True \<Rightarrow> m | False \<Rightarrow> n)"
  by (cases b) simp_all

lemma run_observe_unit: "along R (observe_unit u)"
  unfolding observe_unit_def Let_def
  by (intro run_basic run_case_bool run_follow_unit_mute quiet [OF inert_sync_unit_view] quiet [OF inert_on_view]
      quiet [OF inert_upd]) (simp_all add: core_simps)

lemma run_forget_unit_state: "along R (forget_unit_state u e)"
  unfolding forget_unit_state_def by (intro quiet [OF inert_upd]) (simp add: core_simps)

lemma run_device_finished: "along R (device_finished job u result)"
  unfolding device_finished_def
  by (intro run_basic run_job_gone run_forget_unit_state run_operation_failure run_observe_unit run_finish_if_ready)

lemma run_case_list: "along R m \<Longrightarrow> (\<And>x xs. along R (k x xs)) \<Longrightarrow> along R (case xs of [] \<Rightarrow> m | x # xs \<Rightarrow> k x xs)"
  by (cases xs) simp_all

lemma run_follow_capture: "along R (follow_capture captures e)"
  unfolding follow_capture_def
  by (intro run_basic run_case_list run_set_source_mute quiet [OF inert_issue] quiet [OF inert_upd])
    (simp_all add: core_simps)

lemma run_follow_capture_mutes: "along R follow_capture_mutes"
  unfolding follow_capture_mutes_def by (intro run_basic run_follow_capture)

lemma run_offer_capture: "along R (offer_capture node)"
  unfolding offer_capture_def Let_def
  by (intro run_basic run_replace_preferences quiet [OF inert_issue] quiet [OF inert_touch] quiet [OF inert_on_view])
    simp_all

lemma run_add_capture: "along R (add_capture alone c)"
  unfolding add_capture_def Let_def
  by (intro run_basic run_commit_sources run_commit_matrix run_offer_capture quiet [OF inert_issue] quiet [OF inert_upd])
    (simp_all add: core_simps)

lemma run_auto_add_captures: "along R auto_add_captures"
  unfolding auto_add_captures_def Let_def by (intro run_basic run_add_capture)

lemma run_graph_observed: "along R (graph_observed g)"
  unfolding graph_observed_def
  by (intro run_basic run_set_meter_targets run_follow_capture_mutes run_auto_add_captures run_calibration_validity
      quiet [OF inert_adopt_graph] quiet [OF inert_issue] quiet [OF inert_sync_unit_view] quiet [OF inert_upd])
    (simp_all add: core_simps)

lemma run_master_observed: "along R (master_observed m level muted revision ident)"
  unfolding master_observed_def by (intro run_basic run_commit_matrix quiet [OF inert_issue])

lemma run_observe: "along R (observe event)"
  unfolding observe_def
  by (intro run_basic run_advance_handovers; cases event; simp only: backend_event.case)
    (intro run_observe_unit run_retire_unit run_device_finished run_graph_observed run_master_observed
      quiet [OF inert_meter_observed] run_calibration_complete run_autostart_done run_setup_done
      quiet [OF inert_status_observed] quiet [OF inert_issue])+

subsubsection \<open>Commands\<close>

lemma run_commit_and_sync: "along R (commit_and_sync i before candidate)"
  unfolding commit_and_sync_def by (intro run_basic run_commit_sources run_sync_mutes)

lemma run_add_source: "along R (add_source i source)"
  unfolding add_source_def by (intro run_basic run_commit_and_sync)

lemma run_edit_source: "along R (edit_source i source changes)"
  unfolding edit_source_def Let_def by (intro run_basic run_cancel_pending run_commit_and_sync)

lemma run_adjust_source: "along R (adjust_source source f)"
  unfolding adjust_source_def by (intro run_basic run_commit_sources)

lemma run_join_group: "along R (join_group i source target)"
  unfolding join_group_def Let_def by (intro run_basic run_commit_and_sync)

lemma run_switch_to_next: "along R (switch_to_next i grp)"
  unfolding switch_to_next_def by (intro run_basic run_commit_and_sync)

lemma run_add_mix: "along R (add_mix m)"
  unfolding add_mix_def by (intro run_basic run_commit_mixes)

lemma run_edit_mix: "along R (edit_mix m changes)"
  unfolding edit_mix_def by (intro run_basic run_commit_mixes)

lemma run_change_cell: "along R (change_cell source m f)"
  unfolding change_cell_def by (intro run_basic run_commit_matrix)

lemma run_set_cell: "along R (set_cell i source m level muted timing)"
  unfolding set_cell_def
  by (intro run_basic run_defer_edit run_cancel_pending run_change_cell) (simp add: ends_session_def)

lemma run_set_cell_level: "along R (set_cell_level source m level)"
  unfolding set_cell_level_def by (intro run_basic run_cancel_pending run_change_cell)

lemma run_toggle_cell: "along R (toggle_cell source m)"
  unfolding toggle_cell_def Let_def by (intro run_basic run_cancel_pending run_change_cell)

lemma run_set_output: "along R (set_output m choice)"
  unfolding set_output_def by (intro run_basic run_commit_matrix)

lemma run_set_master: "along R (set_master m level muted)"
  unfolding set_master_def by (intro run_basic run_commit_matrix)

lemma run_set_fx: "along R (set_fx i source settings timing)"
  unfolding set_fx_def
  by (intro run_basic run_defer_edit run_cancel_pending run_set_source_fx) (simp add: ends_session_def)

lemma run_toggle_source_fx: "along R (toggle_source_fx source effect)"
  unfolding toggle_source_fx_def by (intro run_basic run_cancel_pending run_set_source_fx)

lemma run_mute_unit_rows: "along R (mute_unit_rows i u muted ids)"
  unfolding mute_unit_rows_def Let_def
  by (intro run_basic run_commit_sources run_sync_mutes_excluding run_queue_device)

lemma run_case_mute:
  "(\<And>muted. along R (k muted)) \<Longrightarrow> along R m \<Longrightarrow> along R (case setting of Mute muted \<Rightarrow> k muted | _ \<Rightarrow> m)"
  by (cases setting) simp_all

lemma run_device_setting: "along R (device_setting_command i u setting timing)"
  unfolding device_setting_command_def Let_def
  by (intro run_basic run_case_mute run_defer_edit run_cancel_pending run_mute_unit_rows run_queue_device)
    (simp add: ends_session_def)

lemma run_toggle_device_mute: "along R (toggle_device_mute i u)"
  unfolding toggle_device_mute_def Let_def by (intro run_basic run_device_setting)

lemma run_select_unit: "along R (select_unit u)"
  unfolding select_unit_def
  by (intro run_basic run_cancel_pending quiet [OF inert_on_view] quiet [OF inert_touch]) simp_all

lemma run_set_gain_lock: "along R (set_gain_lock locked)"
  unfolding set_gain_lock_def Let_def
  by (intro run_basic run_replace_preferences run_cancel_pending quiet [OF inert_show_preferences])

lemma run_set_preferences: "along R (set_preferences changes)"
  unfolding set_preferences_def by (intro run_basic run_replace_preferences quiet [OF inert_show_preferences])

lemma run_save_scene: "along R (save_scene name)"
  unfolding save_scene_def Let_def by (intro run_basic run_commit_scenes)

lemma run_delete_scene: "along R (delete_scene i)"
  unfolding delete_scene_def by (intro run_basic run_commit_scenes)

lemma run_recall_sources: "along R (recall_sources command patches)"
  unfolding recall_sources_def by (intro run_basic run_operation_failure run_commit_sources)

lemma run_recall_matrix: "along R (recall_matrix command sc)"
  unfolding recall_matrix_def by (intro run_basic run_operation_failure run_commit_matrix)

lemma run_recall_hardware: "along R (recall_hardware command before entries)"
proof (induction entries)
  case (Cons entry entries)
  then show ?case
    unfolding recall_hardware.simps by (intro run_basic run_queue_device run_operation_failure)
qed (simp add: alongI same)

lemma run_recall: "along R (recall command i sc)"
  unfolding recall_def Let_def
  by (intro run_basic run_recall_sources run_cancel_pending run_recall_matrix run_sync_mutes_excluding run_recall_hardware)

lemma run_apply_scene: "along R (apply_scene command i)"
  unfolding apply_scene_def
  by (intro run_basic run_recall quiet [OF inert_on_view] quiet [OF inert_touch]) simp_all

lemma run_wait_for_backend:
  "plain_call c \<Longrightarrow> along R (seq rest) \<Longrightarrow> along R (wait_for_backend i c rest)"
  unfolding wait_for_backend_def by (intro run_basic run_called)

lemma run_setup: "along R (seq [on_view (\<lambda>v. v\<lparr>av_setup_phase := SetupRunning\<rparr>), touch])"
  by (intro run_basic quiet [OF inert_on_view] quiet [OF inert_touch]) simp_all

lemma run_continue_setup: "along R continue_setup"
  unfolding continue_setup_def
  by (intro run_basic run_called quiet [OF inert_on_view] quiet [OF inert_touch]) (simp_all add: plain_call_def)

lemmas run_commands = run_add_source run_edit_source run_remove_source run_commit_sources run_add_mix run_edit_mix
  run_remove_mix run_commit_mixes run_adjust_source run_set_source_mute run_set_cell run_set_cell_level run_toggle_cell
  run_set_output run_set_master run_set_fx run_toggle_source_fx run_join_group run_switch_to_next run_select_unit
  run_device_setting run_toggle_device_mute run_set_gain_lock run_set_preferences run_save_scene run_apply_scene
  run_delete_scene run_start_calibration run_record_calibration run_accept_calibration run_cancel_calibration_token
  run_setup run_continue_setup

text \<open>Every command but those that end the session.\<close>

lemma run_execute_plain: "\<not> ends_session command \<Longrightarrow> along R (execute i command)"
  unfolding execute_def
  by (cases command; simp only: app_command.case ends_session_def not_True_eq_False not_False_eq_True)
    (intro run_basic run_commands run_wait_for_backend run_called; simp add: plain_call_def)+

lemma run_apply_plain: "\<not> ends_session command \<Longrightarrow> along R (apply_command i command)"
  unfolding apply_command_def
  by (intro run_basic run_execute_plain run_operation_failure run_advance_handovers run_finish_if_ready)

end

text \<open>The whole life of a controller.\<close>

locale freezing_run = active_run +
  assumes frozen: "R s (s\<lparr>c_admission := (c_admission s)\<lparr>ad_accepting := False\<rparr>, c_frozen := True,
       c_held_captures := [], c_handovers := []\<rparr>)"
    and last_calls: "\<not> (\<exists>c. call = Dispatch c) \<Longrightarrow> R s (s\<lparr>c_calls := call # c_calls s\<rparr>)"
begin

lemma run_freeze: "along R freeze"
proof -
  have "along R (upd (\<lambda>s. s\<lparr>c_admission := (c_admission s)\<lparr>ad_accepting := False\<rparr>, c_frozen := True,
       c_view := (c_view s)\<lparr>av_lifecycle := LifeFrozen\<rparr>, c_held_captures := [], c_handovers := []\<rparr>))"
    by (rule alongI, rule via_core [OF frozen]) (simp add: core_simps)
  then show ?thesis
    unfolding freeze_def
    by (intro run_basic run_cancel_pending run_cancel_calibration run_replace_preferences quiet [OF inert_issue]
        quiet [OF inert_touch])
qed

lemma run_backend_remove: "along R (backend_remove plan delete_settings)"
  by (simp add: along_def backend_remove_def Let_def last_calls)

lemma run_backend_shutdown: "along R backend_shutdown"
  by (simp add: along_def backend_shutdown_def Let_def last_calls)

end

text \<open>What holds of the shutdown as a whole holds of every command and of every turn.\<close>

locale session_run = freezing_run +
  assumes run_shut_down: "along R (shut_down i removal)"
begin

lemma run_confirm_uninstall: "along R (confirm_uninstall i plan delete_settings)"
proof -
  have "along R (call_backend (PrepareRemoval plan delete_settings))"
    by (simp add: along_def call_backend_def Let_def last_calls)
  then show ?thesis
    unfolding confirm_uninstall_def by (intro run_basic run_send run_shut_down) simp_all
qed

lemma run_ends_session:
  assumes "ends_session command"
  shows "along R (execute i command)"
  using assms unfolding execute_def
  by (cases command; simp only: app_command.case ends_session_def simp_thms)
    (intro run_basic run_shut_down run_confirm_uninstall)+

lemma run_apply_command: "along R (apply_command i command)"
proof (cases "ends_session command")
  case True
  then show ?thesis
    unfolding apply_command_def
    by (intro run_basic run_ends_session run_operation_failure run_advance_handovers run_finish_if_ready)
qed (rule run_apply_plain)

lemma run_fire_due: "along R fire_due"
  unfolding fire_due_def fire_edit_def
  by (intro run_basic run_fired run_apply_command quiet [OF inert_refresh_pending_view])

lemma run_turn_quietly: "along R (turn events elapsed None)"
proof -
  have "along R (upd (\<lambda>s. s\<lparr>c_now := c_now s + elapsed\<rparr>))"
    by (intro quiet [OF inert_upd]) (simp add: core_simps)
  then show ?thesis
    unfolding turn_def option.case by (intro run_basic run_observe run_fire_due)
qed

end

locale full_run = freezing_run +
  assumes stopped: "R s (s\<lparr>c_stopped := True\<rparr>)"
begin

lemma run_stop_controller: "along R (stop_controller i)"
proof -
  have "along R (upd (\<lambda>s. s\<lparr>c_stopped := True, c_dirty := True\<rparr>))"
    by (rule alongI, rule via_core [OF stopped]) (simp add: core_simps)
  then show ?thesis
    unfolding stop_controller_def by (intro run_basic run_on_lifecycle run_send) simp_all
qed

lemma run_remove_application: "along R (remove_application i plan delete_settings)"
  unfolding remove_application_def Let_def
  by (intro run_basic run_backend_remove run_send run_stop_controller run_on_lifecycle quiet [OF inert_issue]) simp

lemma life_shut_down: "along R (shut_down i removal)"
  unfolding shut_down_def
  by (intro run_basic run_freeze run_on_lifecycle run_backend_shutdown run_observe run_close_request run_send
      run_stop_controller run_remove_application quiet [OF inert_issue] quiet [OF inert_touch]) simp_all

end

sublocale full_run \<subseteq> session_run
  by unfold_locales (rule life_shut_down)

end
