(* ===== verification/System.thy ===== *)
theory System
  imports Lifecycle
begin

text \<open>
  The program's core as one system: the controller, started on the documents on disk, the channel of
  commands, and the clients that submit them. An input is one step of one of them: a client submits a
  command, the loop takes a turn (with some events of the back end, some time passing, and perhaps the next
  command of the channel), or the loop has ended and the channel is closed. Every interleaving of
  the threads is a list of inputs, because the clients share nothing with the loop but the admission
  and the channel.
\<close>

subsection \<open>The system\<close>

type_synonym system = "controller \<times> (command_id \<times> app_command) list"

datatype system_input = Submit app_command | LoopTurn "backend_event list" nat bool | CloseChannel

definition loop_turn :: "backend_event list \<Rightarrow> nat \<Rightarrow> bool \<Rightarrow> system \<Rightarrow> system" where
  "loop_turn events elapsed receives sys = (case sys of (s, channel) \<Rightarrow>
     if c_stopped s then (s, channel)
     else (case channel of
         [] \<Rightarrow> (snd (turn events elapsed None s), [])
       | request # rest \<Rightarrow>
           if receives then (snd (turn events elapsed (Some request) s), rest)
           else (snd (turn events elapsed None s), channel)))"

definition system_turn :: "system_input \<Rightarrow> system \<Rightarrow> system" where
  "system_turn input sys = (case input of
       Submit command \<Rightarrow> (case sys of (s, channel) \<Rightarrow> (case submit (c_admission s) command of
           (Inl _, adm) \<Rightarrow> (s\<lparr>c_admission := adm\<rparr>, channel)
         | (Inr i, adm) \<Rightarrow> (s\<lparr>c_admission := adm\<rparr>, channel @ [(i, command)])))
     | LoopTurn events elapsed receives \<Rightarrow> loop_turn events elapsed receives sys
     | CloseChannel \<Rightarrow> (case sys of (s, channel) \<Rightarrow>
         if c_stopped s then (snd (close_channel channel s), []) else (s, channel)))"

record world =
  wd_serde :: "json \<Rightarrow> string"
  wd_parse :: "string \<Rightarrow> json res"
  wd_pretty :: "json \<Rightarrow> string"
  wd_dir :: string
  wd_fs :: file_system
  wd_backend :: backend
  wd_uuid :: "nat \<Rightarrow> string"
  wd_now :: nat

text \<open>\<^verbatim>\<open>start\<close>: the documents are loaded, and the controller is made; the first identifier is 1.\<close>

definition first_admission :: admission where
  "first_admission = \<lparr>ad_next_command = 1, ad_accepting = True, ad_stopped = False\<rparr>"

definition system_start :: "world \<Rightarrow> system" where
  "system_start w = (case config_load (wd_serde w) (wd_parse w) (wd_pretty w) (wd_dir w) (wd_fs w) of
     (store, fs) \<Rightarrow> (controller_new store fs (wd_pretty w) (wd_backend w) first_admission (wd_uuid w) (wd_now w), []))"

definition system_run :: "world \<Rightarrow> system_input list \<Rightarrow> system" where
  "system_run w inputs = fold system_turn inputs (system_start w)"

subsection \<open>Facts about runs\<close>

text \<open>The controller as it is made, before its first bindings and its first routing.\<close>

definition controller_blank ::
  "config_store \<Rightarrow> file_system \<Rightarrow> (json \<Rightarrow> string) \<Rightarrow> backend \<Rightarrow> admission \<Rightarrow> (nat \<Rightarrow> string) \<Rightarrow> nat \<Rightarrow> controller" where
  "controller_blank store fs pretty backend adm uuid now =
     \<lparr>c_store = store, c_fs = fs, c_pretty = pretty, c_backend = backend, c_calls = [], c_admission = adm,
      c_snapshot = app_snapshot_default, c_events = [], c_now = now, c_uuid = uuid, c_fresh = 0,
      c_view = app_snapshot_default\<lparr>av_revision := 1, av_desired := config_desired store,
        av_preferences := sd_value (cs_preferences store), av_lifecycle := LifeRunning\<rparr>,
      c_graph_observation = Unknown (error_unavailable ''Graph has not been observed''),
      c_units = [], c_retired = [], c_requests = [], c_accepted = [], c_pending = [], c_jobs = [], c_next_job = 1,
      c_bindings = [], c_capture_intents = [], c_capture_baselines = [], c_held_captures = [], c_handovers = [],
      c_graph_revision = None, c_silent_sources = [], c_binding_epoch = 0, c_intents = [], c_meter_targets = [],
      c_meter_specs = [], c_observed_mixes = [], c_routing_revision = 0, c_meters = [],
      c_errors = config_issues store, c_errors_dirty = True, c_calibration = None, c_next_session = 1,
      c_frozen = False, c_stopped = False, c_dirty = True, c_meters_dirty = False\<rparr>"

lemma controller_new_blank:
  "controller_new store fs pretty backend adm uuid now =
     snd (seq [refresh_bindings, route] (controller_blank store fs pretty backend adm uuid now))"
  by (simp only: controller_new_def controller_blank_def)

definition start_blank :: "world \<Rightarrow> controller" where
  "start_blank w = (case config_load (wd_serde w) (wd_parse w) (wd_pretty w) (wd_dir w) (wd_fs w) of
     (store, fs) \<Rightarrow> controller_blank store fs (wd_pretty w) (wd_backend w) first_admission (wd_uuid w) (wd_now w))"

lemma system_start_blank: "system_start w = (snd (seq [refresh_bindings, route] (start_blank w)), [])"
  by (simp only: system_start_def start_blank_def controller_new_blank split: prod.split) simp

text \<open>
  A system invariant holds after every run if it holds at the start and each kind of input keeps it.
\<close>

lemma system_invariant:
  assumes "J (system_start w)"
    and "\<And>command s channel. J (s, channel) \<Longrightarrow> J (system_turn (Submit command) (s, channel))"
    and "\<And>events elapsed s channel. J (s, channel) \<Longrightarrow> \<not> c_stopped s \<Longrightarrow> J (snd (turn events elapsed None s), channel)"
    and "\<And>events elapsed s r channel. J (s, r # channel) \<Longrightarrow> \<not> c_stopped s \<Longrightarrow>
      J (snd (turn events elapsed (Some r) s), channel)"
    and "\<And>s channel. J (s, channel) \<Longrightarrow> c_stopped s \<Longrightarrow> J (snd (close_channel channel s), [])"
  shows "J (system_run w inputs)"
proof -
  have step: "J (system_turn input sys)" if "J sys" for input sys
  proof (cases input)
    case (Submit command)
    then show ?thesis using assms(2) that by (cases sys) simp
  next
    case (LoopTurn events elapsed receives)
    then show ?thesis using assms(3,4) that
      by (cases sys) (auto simp: system_turn_def loop_turn_def split: list.split)
  next
    case CloseChannel
    then show ?thesis using assms(5) that by (cases sys) (simp add: system_turn_def)
  qed
  have "J (fold system_turn inputs sys)" if "J sys" for sys
    using that by (induction inputs arbitrary: sys) (simp_all add: step)
  then show ?thesis unfolding system_run_def using assms(1) .
qed

text \<open>A preorder that every turn respects relates every state of the system with the later ones.\<close>

context quiet_run
begin

lemma system_evolves:
  assumes "\<And>s events elapsed request. R s (snd (turn events elapsed request s))"
    and "\<And>s adm. R s (s\<lparr>c_admission := adm\<rparr>)"
    and "\<And>s es. R s (s\<lparr>c_events := es\<rparr>)"
  shows "R (fst sys) (fst (fold system_turn inputs sys))"
proof (induction inputs arbitrary: sys)
  case Nil
  then show ?case by (simp add: same)
next
  case (Cons input inputs)
  have each: "R s (snd (each (\<lambda>(i, _). send_event (CommandFinished i CommandCancelled)) rs s))" for rs s
  proof (induction rs arbitrary: s)
    case (Cons r rs)
    show ?case
      using step_trans [OF assms(3) Cons.IH] by (simp add: bnd_app send_event_def case_prod_unfold)
  qed (simp add: same)
  have "R s (snd (close_channel channel s))" for s channel
    using step_trans [OF assms(2) each] by (simp add: close_channel_def bnd_app)
  then have "R (fst sys) (fst (system_turn input sys))"
    by (cases sys; cases input)
      (auto simp: system_turn_def loop_turn_def assms same split: prod.split sum.split list.split)
  then show ?case
    using step_trans Cons.IH by simp
qed

end

text \<open>A preorder that all operations respect relates every state of the system with the next.\<close>

definition accepts :: "(controller \<Rightarrow> controller \<Rightarrow> bool) \<Rightarrow> bool" where
  "accepts R \<longleftrightarrow> (\<forall>s i. R s (s\<lparr>c_accepted := List.insert i (c_accepted s),
     c_requests := im_insert (c_requests s) i request_default\<rparr>))"

context session_run
begin

lemma run_accept:
  assumes "R s (s\<lparr>c_accepted := List.insert i (c_accepted s), c_requests := im_insert (c_requests s) i request_default\<rparr>)"
  shows "R s (snd (accept_command (i, command) s))"
  using step_trans [OF assms alongD [OF run_apply_command]] by (simp add: accept_command_def bnd_app)

lemma turn_Some: "snd (turn events elapsed (Some r) s) = snd (accept_command r (snd (turn events elapsed None s)))"
  by (simp add: turn_def bnd_app)

lemma run_turn: "accepts R \<Longrightarrow> R s (snd (turn events elapsed request s))"
proof (cases request)
  case None
  then show ?thesis by (simp add: alongD [OF run_turn_quietly])
next
  case (Some r)
  assume "accepts R"
  then have "R t (snd (accept_command (fst r, snd r) t))" for t
    by (intro run_accept) (simp add: accepts_def)
  then show ?thesis
    unfolding Some turn_Some using step_trans [OF alongD [OF run_turn_quietly]] by (metis prod.collapse)
qed

text \<open>The state that the run begins with, and an invariant from there on.\<close>

lemma run_system:
  assumes "accepts R" and "\<And>s adm. R s (s\<lparr>c_admission := adm\<rparr>)" and "\<And>s es. R s (s\<lparr>c_events := es\<rparr>)"
  shows "R (start_blank w) (fst (system_run w inputs))"
proof -
  have "along R (seq [refresh_bindings, route])"
    by (intro run_basic run_refresh_bindings run_route)
  then have "R (start_blank w) (fst (system_start w))"
    by (simp only: system_start_blank fst_conv alongD)
  moreover have "R (fst sys) (fst (fold system_turn inputs sys))" for sys
    using assms by (intro system_evolves run_turn)
  ultimately show ?thesis
    unfolding system_run_def by (rule step_trans)
qed

lemma run_system_invariant:
  assumes "\<And>s s'. R s s' \<Longrightarrow> I s \<Longrightarrow> I s'" and "accepts R" and "I (start_blank w)"
    and "\<And>s adm. R s (s\<lparr>c_admission := adm\<rparr>)" and "\<And>s es. R s (s\<lparr>c_events := es\<rparr>)"
  shows "I (fst (system_run w inputs))"
  using assms(1) [OF run_system [OF assms(2,4,5)] assms(3)] .

end

subsection \<open>Jobs\<close>

definition written_jobs :: "backend_call list \<Rightarrow> u64 list" where
  "written_jobs calls = List.map_filter (\<lambda>c. case c of Dispatch (DeviceWrite i _ _) \<Rightarrow> Some i | _ \<Rightarrow> None) calls"

definition jobs_ok :: "controller \<Rightarrow> bool" where
  "jobs_ok s \<longleftrightarrow> im_wf (c_jobs s) \<and> distinct (written_jobs (c_calls s)) \<and>
     (\<forall>i\<in>set (written_jobs (c_calls s)). i < c_next_job s) \<and>
     (\<forall>(i, job)\<in>set (c_jobs s). i < c_next_job s \<and> (\<not> jb_dispatched job \<longrightarrow> i \<notin> set (written_jobs (c_calls s))))"

lemma written_jobs_simps [simp]:
  "written_jobs [] = []"
  "written_jobs (Dispatch (DeviceWrite i u ss) # calls) = i # written_jobs calls"
  "written_jobs (Dispatch (Routing n d b) # calls) = written_jobs calls"
  "written_jobs (Dispatch (StopCalibration token) # calls) = written_jobs calls"
  by (simp_all add: written_jobs_def List.map_filter_def)

lemma written_jobs_other:
  "plain_call c \<Longrightarrow> written_jobs (Dispatch c # calls) = written_jobs calls"
  "\<not> (\<exists>c. call = Dispatch c) \<Longrightarrow> written_jobs (call # calls) = written_jobs calls"
  by (auto simp: written_jobs_def plain_call_def List.map_filter_def split: backend_command.splits backend_call.splits)

lemma checked_add_less:
  fixes i :: u64
  assumes "checked_add i 1 = Some n"
  shows "i < n" and "j < i \<Longrightarrow> j < n"
  using unat_checked_add [OF assms] by (simp_all add: word_less_nat_alt)

lemma jobs_ok_fresh: "jobs_ok s \<Longrightarrow> c_next_job s \<notin> set (map fst (c_jobs s)) \<and> c_next_job s \<notin> set (written_jobs (c_calls s))"
  by (force simp: jobs_ok_def)

lemma jobs_ok_started:
  assumes ok: "jobs_ok s" and n: "checked_add (c_next_job s) 1 = Some n"
  shows "jobs_ok (job_started n keep job s)"
proof -
  have fresh: "c_next_job s \<notin> set (map fst (c_jobs s))" "c_next_job s \<notin> set (written_jobs (c_calls s))"
    using jobs_ok_fresh [OF ok] by blast+
  have jobs: "c_jobs (job_started n keep job s) = c_jobs s @ (if keep then [(c_next_job s, job)] else [])"
    using fresh(1) by (simp add: job_started_def im_insert_fresh)
  have calls: "written_jobs (c_calls (job_started n keep job s)) =
      (if jb_dispatched job then [c_next_job s] else []) @ written_jobs (c_calls s)"
    by (simp add: job_started_def)
  have "im_wf (c_jobs (job_started n keep job s))"
    using ok fresh(1) unfolding jobs by (auto simp: jobs_ok_def im_wf_def)
  moreover have "c_next_job (job_started n keep job s) = n"
    by (simp add: job_started_def)
  ultimately show ?thesis
    using ok fresh checked_add_less [OF n] unfolding jobs_ok_def calls jobs by (auto split: if_splits)
qed

lemma set_shift_remove: "im_wf m \<Longrightarrow> set (im_shift_remove m k) = {e \<in> set m. fst e \<noteq> k}"
  by (auto simp: im_shift_remove_def)

lemma jobs_ok_released:
  assumes ok: "jobs_ok s" and job: "im_get (c_jobs s) i = Some job" and held: "\<not> jb_dispatched job"
  shows "jobs_ok (job_released keep i job s)"
proof -
  have mem: "(i, job) \<in> set (c_jobs s)" using im_get_Some_mem [OF job] .
  have wf: "im_wf (c_jobs s)" using ok by (simp add: jobs_ok_def)
  have "i \<notin> set (map fst (im_shift_remove (c_jobs s) i))"
    using set_shift_remove [OF wf, of i] by auto
  then have jobs: "c_jobs (job_released keep i job s) =
      im_shift_remove (c_jobs s) i @ (if keep then [(i, job\<lparr>jb_dispatched := True\<rparr>)] else [])"
    by (simp add: job_released_def im_insert_fresh)
  have calls: "written_jobs (c_calls (job_released keep i job s)) = i # written_jobs (c_calls s)"
    and next_job: "c_next_job (job_released keep i job s) = c_next_job s"
    by (simp_all add: job_released_def)
  have "im_wf (c_jobs (job_released keep i job s))"
    using wf by (simp add: job_released_def)
  then show ?thesis
    using ok mem held set_shift_remove [OF wf, of i] unfolding jobs_ok_def calls next_job jobs by (auto split: if_splits)
qed

lemma jobs_ok_core: "calm s s' \<Longrightarrow> jobs_ok s \<Longrightarrow> jobs_ok s'"
  by (simp add: jobs_ok_def core_simps)

lemma jobs_ok_removed: "jobs_ok s \<Longrightarrow> jobs_ok (s\<lparr>c_jobs := im_shift_remove (c_jobs s) i\<rparr>)"
  by (auto simp: jobs_ok_def set_shift_remove)

lemma written_jobs_recorder:
  assumes "list_all recorder_call orders"
  shows "written_jobs (orders @ calls) = written_jobs calls"
  using assms
  by (induction orders) (auto simp: recorder_call_def written_jobs_def List.map_filter_def
      split: backend_call.splits backend_command.splits)

interpretation jobs_step: stepwise_run "\<lambda>s s'. jobs_ok s \<longrightarrow> jobs_ok s'"
proof unfold_locales
  show "jobs_ok s \<longrightarrow> jobs_ok (s\<lparr>c_next_session := n, c_calibration := cal, c_calls := orders @ c_calls s\<rparr>)"
    if "session_step (c_next_session s, c_calibration s, []) (n, cal, orders)" for s n cal orders
    by (simp add: jobs_ok_def written_jobs_recorder [OF session_step_orders [OF that]])
  show "\<not> im_wf (c_jobs s) \<Longrightarrow> jobs_ok s \<longrightarrow> jobs_ok s'" for s s'
    by (simp add: jobs_ok_def)
qed (auto intro: jobs_ok_core jobs_ok_started jobs_ok_released jobs_ok_removed,
    auto simp: jobs_ok_def answered_def written_jobs_other stop_call_def)

interpretation jobs_life: full_run "\<lambda>s s'. jobs_ok s \<longrightarrow> jobs_ok s'"
  by unfold_locales (auto simp: jobs_ok_def written_jobs_other)

text \<open>
  C24. However the threads interleave, whatever the back end answers and whatever fails, no identifier of a
  device job is ever written twice: a job that is held back until a handover allows it is dispatched
  at most once, and the identifiers of new jobs are new.
\<close>

theorem device_jobs_written_once:
  "distinct (written_jobs (c_calls (fst (system_run w inputs)))) \<and>
   list_all (\<lambda>(i, job). if i \<in> set (written_jobs (c_calls (fst (system_run w inputs)))) then jb_dispatched job else True)
     (c_jobs (fst (system_run w inputs)))"
proof -
  have "jobs_ok (fst (system_run w inputs))"
  proof (rule jobs_life.run_system_invariant)
    show "accepts (\<lambda>s s'. jobs_ok s \<longrightarrow> jobs_ok s')" by (simp add: accepts_def jobs_ok_def)
  qed (auto simp: start_blank_def controller_blank_def jobs_ok_def split: prod.split)
  then show ?thesis by (auto simp: jobs_ok_def list_all_iff)
qed

subsection \<open>Exclusive groups\<close>

definition exclusive :: "sources \<Rightarrow> bool" where
  "exclusive srcs \<longleftrightarrow> distinct (open_groups srcs)"

lemma exclusive_Nil [simp]: "exclusive []"
  by (simp add: exclusive_def open_groups_def)

lemma open_groups_insert:
  "set (open_groups (im_insert m k s)) \<subseteq> set (open_groups m) \<union> (if grouped_open s then {src_group s} else {}) \<and>
   (distinct (open_groups m) \<and> (grouped_open s \<longrightarrow> src_group s \<notin> set (open_groups m)) \<longrightarrow>
    distinct (open_groups (im_insert m k s)))"
  by (induction m) (auto simp: open_groups_Cons open_groups_Nil split: if_splits)

text \<open>Whatever document is decoded, at most one source of each group is open.\<close>

lemma source_step_exclusive:
  assumes "source_step serde (srcs, og) e = Inr (srcs', og')"
    and "exclusive srcs \<and> set (open_groups srcs) \<subseteq> set og"
  shows "exclusive srcs' \<and> set (open_groups srcs') \<subseteq> set og'"
proof -
  obtain s where d: "decode_source serde (fst e) (snd e) = Inr s"
    using assms(1) by (cases e) (auto simp: source_step_def res_simps)
  define s' where "s' = (if grouped_open s \<and> src_group s \<in> set og then s\<lparr>src_muted := True\<rparr> else s)"
  have new: "srcs' = im_insert srcs (src_id s) s'" "og' = (if grouped_open s then List.insert (src_group s) og else og)"
    using assms(1) d by (cases e; auto simp: source_step_def Let_def s'_def grouped_open_def)+
  show ?thesis
    using assms(2) open_groups_insert [of srcs "src_id s" s'] unfolding new
    by (auto simp: exclusive_def s'_def split: if_splits)
qed

lemma normalize_sources_exclusive:
  assumes "normalize_sources serde v = Inr srcs"
  shows "exclusive srcs"
proof -
  have fold: "exclusive srcs'" if "res_foldM (source_step serde) (srcs, og) es = Inr (srcs', og')"
    "exclusive srcs \<and> set (open_groups srcs) \<subseteq> set og" for srcs og es srcs' og'
    using that
  proof (induction es arbitrary: srcs og)
    case (Cons e es)
    obtain t ot where step: "source_step serde (srcs, og) e = Inr (t, ot)"
      and rest: "res_foldM (source_step serde) (t, ot) es = Inr (srcs', og')"
      using Cons.prems(1) by (auto simp: res_simps)
    show ?case
      by (rule Cons.IH [OF rest source_step_exclusive [OF step Cons.prems(2)]])
  qed simp
  obtain obj og where "res_foldM (source_step serde) ([], []) obj = Inr (srcs, og)"
    using assms by (auto simp: normalize_sources_def res_simps)
  then show ?thesis
    by (rule fold) (simp add: exclusive_def open_groups_def)
qed

text \<open>Muting the members that are being opened keeps groups exclusive.\<close>

lemma exclusive_held:
  "exclusive m \<Longrightarrow> exclusive (foldl (\<lambda>m h. im_adjust m (ho_opening h) (\<lambda>src. src\<lparr>src_muted := True\<rparr>)) m hs)"
  by (induction hs arbitrary: m) (simp_all add: exclusive_def open_groups_close)

definition routed_exclusively :: "backend_call list \<Rightarrow> bool" where
  "routed_exclusively calls = list_all (\<lambda>c. case c of Dispatch (Routing _ d _) \<Rightarrow> exclusive (de_sources d) | _ \<Rightarrow> True) calls"

definition groups_ok :: "(json \<Rightarrow> string) \<Rightarrow> controller \<Rightarrow> bool" where
  "groups_ok serde s \<longleftrightarrow> im_wf (c_jobs s) \<and> sd_decode (cs_sources (c_store s)) = normalize_sources serde \<and>
     exclusive (the_sources s) \<and> exclusive (de_sources (av_desired (c_view s))) \<and> routed_exclusively (c_calls s)"

lemma routed_exclusively_simps [simp]:
  "routed_exclusively []"
  "routed_exclusively (Dispatch (Routing n d b) # calls) \<longleftrightarrow> exclusive (de_sources d) \<and> routed_exclusively calls"
  "routed_exclusively (Dispatch (DeviceWrite i u ss) # calls) = routed_exclusively calls"
  "routed_exclusively (Dispatch (StopCalibration token) # calls) = routed_exclusively calls"
  by (simp_all add: routed_exclusively_def)

lemma routed_exclusively_other:
  "plain_call c \<Longrightarrow> routed_exclusively (Dispatch c # calls) = routed_exclusively calls"
  "\<not> (\<exists>c. call = Dispatch c) \<Longrightarrow> routed_exclusively (call # calls) = routed_exclusively calls"
  by (cases c; simp add: routed_exclusively_def plain_call_def) (cases call; simp add: routed_exclusively_def)

lemma groups_ok_core: "calm s s' \<Longrightarrow> groups_ok serde s \<Longrightarrow> groups_ok serde s'"
  by (simp add: groups_ok_def core_simps)

lemma groups_ok_routed:
  "groups_ok serde s \<Longrightarrow>
   groups_ok serde (s\<lparr>c_calls := Dispatch (Routing (av_revision (c_view s)) (routing_desired s) (c_bindings s)) # c_calls s\<rparr>)"
  by (simp add: groups_ok_def routing_desired_def exclusive_held)

lemma groups_ok_stored:
  assumes "config_step (c_store s) cs" and "groups_ok serde s"
  shows "groups_ok serde (s\<lparr>c_store := cs\<rparr>)"
proof -
  have step: "stored_step (cs_sources (c_store s)) (cs_sources cs)"
    using assms(1) by (simp add: config_step_def)
  have "sd_decode (cs_sources cs) = sd_decode (cs_sources (c_store s))"
    using step by (auto simp: stored_step_def dest: arg_cong [of _ _ sd_decode])
  moreover have "exclusive (sd_value (cs_sources cs))"
    using step assms(2) by (auto simp: stored_step_def groups_ok_def intro: normalize_sources_exclusive)
  ultimately show ?thesis
    using assms(2) by (simp add: groups_ok_def)
qed

lemma routed_exclusively_recorder:
  assumes "list_all recorder_call orders"
  shows "routed_exclusively (orders @ calls) = routed_exclusively calls"
  using assms
  by (induction orders) (auto simp: recorder_call_def routed_exclusively_def split: backend_call.splits backend_command.splits)

interpretation groups_step: stepwise_run "\<lambda>s s'. groups_ok serde s \<longrightarrow> groups_ok serde s'" for serde
proof unfold_locales
  show "\<not> im_wf (c_jobs s) \<Longrightarrow> groups_ok serde s \<longrightarrow> groups_ok serde s'" for s s'
    by (simp add: groups_ok_def)
  show "stored_step (cs_preferences (c_store s)) st \<Longrightarrow>
      groups_ok serde s \<longrightarrow> groups_ok serde (s\<lparr>c_store := (c_store s)\<lparr>cs_preferences := st\<rparr>\<rparr>)" for s st
    by (simp add: groups_ok_def)
  show "groups_ok serde s \<longrightarrow> groups_ok serde (s\<lparr>c_view := (c_view s)\<lparr>av_revision := saturating_add (av_revision (c_view s)) 1,
       av_desired := config_desired (c_store s)\<rparr>, c_dirty := True\<rparr>)" for s
    by (simp add: groups_ok_def config_desired_def)
  show "groups_ok serde s \<longrightarrow> groups_ok serde (s\<lparr>c_next_session := n, c_calibration := cal, c_calls := orders @ c_calls s\<rparr>)"
    if "session_step (c_next_session s, c_calibration s, []) (n, cal, orders)" for s n cal orders
    by (simp add: groups_ok_def routed_exclusively_recorder [OF session_step_orders [OF that]])
qed (auto intro: groups_ok_core groups_ok_routed groups_ok_stored,
    auto simp: groups_ok_def answered_def job_started_def job_released_def routed_exclusively_other stop_call_def)

interpretation groups_life: full_run "\<lambda>s s'. groups_ok serde s \<longrightarrow> groups_ok serde s'" for serde
  by unfold_locales (auto simp: groups_ok_def routed_exclusively_other)

text \<open>What loads of the sources.\<close>

lemma stored_load_value:
  "sd_decode (fst (stored_load parse pretty path fallback decode encode seed fs)) = decode \<and>
   (sd_value (fst (stored_load parse pretty path fallback decode encode seed fs)) = fallback \<or>
    (\<exists>v. decode v = Inr (sd_value (fst (stored_load parse pretty path fallback decode encode seed fs)))))"
proof -
  have read: "\<exists>v. sd_decode st v = Inr x" if "fst (read_document parse st fs) = Inr (Some x)" for st :: "'a stored" and x fs
    using that by (auto simp: read_document_def act_apps res_simps split: sum.splits option.splits)
  show ?thesis
    by (auto simp: stored_load_def Let_def bnd_app split: sum.split option.split dest: read)
qed

lemma config_load_sources:
  "sd_decode (cs_sources (fst (config_load serde parse pretty dir fs))) = normalize_sources serde \<and>
   exclusive (sd_value (cs_sources (fst (config_load serde parse pretty dir fs))))"
proof -
  define st where "st = fst (stored_load parse pretty (dir @ ''/'' @ ''sources.json'') [] (normalize_sources serde)
        (\<lambda>v. Inr (sources_to_value v)) False fs)"
  have st: "sd_decode st = normalize_sources serde" "sd_value st = [] \<or> (\<exists>v. normalize_sources serde v = Inr (sd_value st))"
    unfolding st_def
    using stored_load_value [of parse pretty "dir @ ''/'' @ ''sources.json''" "[]" "normalize_sources serde"
      "\<lambda>v. Inr (sources_to_value v)" False fs] by (simp_all only: simp_thms)
  then have "exclusive (sd_value st)"
    by (auto intro: normalize_sources_exclusive)
  moreover have "cs_sources (fst (config_load serde parse pretty dir fs)) = st"
    by (simp only: config_load_def Let_def bnd_app st_def act_simps fst_conv config_store.select_convs)
  ultimately show ?thesis using st(1) by simp
qed

lemma start_blank_groups: "groups_ok (wd_serde w) (start_blank w)"
  using config_load_sources [of "wd_serde w" "wd_parse w" "wd_pretty w" "wd_dir w" "wd_fs w"]
  by (simp add: start_blank_def controller_blank_def groups_ok_def config_desired_def case_prod_unfold)

text \<open>
  C2. Whatever is in the files, however clients, events and failures interleave: at any time at most one
  source of each exclusive group is open in the configuration, in the snapshot, and in every routing that was
  ever sent to the sound server, in which moreover the members that are still being opened are muted.
\<close>

theorem routing_always_exclusive:
  "exclusive (the_sources (fst (system_run w inputs))) \<and>
   exclusive (de_sources (av_desired (c_view (fst (system_run w inputs))))) \<and>
   list_all (\<lambda>c. case c of Dispatch (Routing _ d _) \<Rightarrow> exclusive (de_sources d) | _ \<Rightarrow> True)
     (c_calls (fst (system_run w inputs)))"
proof -
  have "groups_ok (wd_serde w) (fst (system_run w inputs))"
  proof (rule groups_life.run_system_invariant [where serde = "wd_serde w"])
    show "accepts (\<lambda>s s'. groups_ok (wd_serde w) s \<longrightarrow> groups_ok (wd_serde w) s')"
      by (simp add: accepts_def groups_ok_def)
  qed (use start_blank_groups in \<open>auto simp: groups_ok_def\<close>)
  then show ?thesis by (simp add: groups_ok_def routed_exclusively_def)
qed

subsection \<open>The calibration session\<close>

text \<open>The controller follows the protocol of a session: \<open>session_step\<close> is its abstract machine.\<close>

definition session_follows :: "controller \<Rightarrow> controller \<Rightarrow> bool" where
  "session_follows s s' \<longleftrightarrow> (im_wf (c_jobs s) \<longrightarrow>
     im_wf (c_jobs s') \<and> session_step\<^sup>*\<^sup>* (session_view s) (session_view s'))"

lemma session_followsI:
  "(im_wf (c_jobs s) \<Longrightarrow> im_wf (c_jobs s')) \<Longrightarrow> session_view s' = session_view s \<Longrightarrow> session_follows s s'"
  by (simp add: session_follows_def)

lemma session_follows_step:
  assumes "session_step (c_next_session s, c_calibration s, []) (n, cal, orders)"
  shows "session_follows s (s\<lparr>c_next_session := n, c_calibration := cal, c_calls := orders @ c_calls s\<rparr>)"
proof -
  have "filter recorder_call (orders @ c_calls s) = orders @ filter recorder_call (c_calls s)"
    using session_step_orders [OF assms] by (simp add: list_all_iff)
  then have "session_step (session_view s) (session_view (s\<lparr>c_next_session := n, c_calibration := cal, c_calls := orders @ c_calls s\<rparr>))"
    using session_step_calls [OF assms, of "filter recorder_call (c_calls s)"] by (simp add: session_view_def)
  then show ?thesis by (auto simp: session_follows_def)
qed

lemma no_recorder_call:
  "plain_call c \<Longrightarrow> \<not> recorder_call (Dispatch c)" "\<not> (\<exists>c. call = Dispatch c) \<Longrightarrow> \<not> recorder_call call"
  "\<not> recorder_call (Dispatch (Routing n d b))" "\<not> recorder_call (Dispatch (DeviceWrite i u settings))"
proof -
  show "plain_call c \<Longrightarrow> \<not> recorder_call (Dispatch c)" by (cases c) (simp_all add: recorder_call_def plain_call_def)
  show "\<not> (\<exists>c. call = Dispatch c) \<Longrightarrow> \<not> recorder_call call" by (cases call) (simp_all add: recorder_call_def)
qed (simp_all add: recorder_call_def)

interpretation session_run_step: stepwise_run session_follows
proof unfold_locales
  show "session_follows s s" for s by (simp add: session_follows_def)
  show "session_follows s t \<Longrightarrow> session_follows t u \<Longrightarrow> session_follows s u" for s t u
    by (auto simp: session_follows_def)
  show "calm s s' \<Longrightarrow> session_follows s s'" for s s'
    by (rule session_followsI) (simp_all add: core_simps session_view_def)
  show "session_follows s (s\<lparr>c_next_session := n, c_calibration := cal, c_calls := orders @ c_calls s\<rparr>)"
    if "session_step (c_next_session s, c_calibration s, []) (n, cal, orders)" for s n cal orders
    using that by (rule session_follows_step)
  show "session_follows s (s\<lparr>c_calibration := None, c_calls := stop_call c # c_calls s\<rparr>)" if "c_calibration s = Some c" for s c
    using session_follows_step [of s "c_next_session s" None "[stop_call c]"] that by (simp add: session_dropped)
  show "\<not> im_wf (c_jobs s) \<Longrightarrow> session_follows s s'" for s s'
    by (simp add: session_follows_def)
qed (rule session_followsI; simp add: session_view_def no_recorder_call answered_def job_started_def job_released_def)+

interpretation session_life: full_run session_follows
  by unfold_locales (rule session_followsI; simp add: session_view_def no_recorder_call)+

text \<open>What the abstract machine guarantees: speech is recorded, and a proposal made, only after the noise was measured.\<close>

definition session_ok :: "calibration_session option \<Rightarrow> bool" where
  "session_ok cal = (case cal of None \<Rightarrow> True | Some c \<Rightarrow>
     (case cl_recording c of None \<Rightarrow> True | Some (_, speech) \<Rightarrow> cl_proposal c = None \<and> speech = (cl_floor c \<noteq> None)) \<and>
     (cl_floor c \<noteq> None \<or> cl_proposal c = None))"

lemma session_ok_step: "session_step st st' \<Longrightarrow> session_ok (fst (snd st)) \<Longrightarrow> session_ok (fst (snd st'))"
  by (induction rule: session_step.induct) (auto simp: session_ok_def fresh_session_def may_record_def)

lemma session_ok_steps: "session_step\<^sup>*\<^sup>* st st' \<Longrightarrow> session_ok (fst (snd st)) \<Longrightarrow> session_ok (fst (snd st'))"
  by (induction rule: rtranclp_induct) (auto intro: session_ok_step)

lemma start_blank_session: "im_wf (c_jobs (start_blank w)) \<and> session_view (start_blank w) = (1, None, [])"
  by (simp add: start_blank_def controller_blank_def session_view_def split: prod.splits)

lemma run_follows_session: "session_follows (start_blank w) (fst (system_run w inputs))"
  by (rule session_life.run_system) (simp_all add: accepts_def session_follows_def session_view_def)


text \<open>
  C26. The measurements come in order: while speech is being recorded the noise has been measured (so the
  \<^verbatim>\<open>expect\<close> of the completion never fails), while noise is being recorded nothing has, and a proposal
  exists only after both, with no recording under way.
\<close>

theorem calibration_in_order:
  "case c_calibration (fst (system_run w inputs)) of None \<Rightarrow> True
   | Some c \<Rightarrow>
       (case cl_recording c of None \<Rightarrow> True | Some (_, speech) \<Rightarrow> cl_proposal c = None \<and> speech = (cl_floor c \<noteq> None)) \<and>
       (if cl_floor c = None then cl_proposal c = None else True)"
proof -
  have "session_step\<^sup>*\<^sup>* (1, None, []) (session_view (fst (system_run w inputs)))"
    using run_follows_session [of w inputs] start_blank_session [of w] by (simp add: session_follows_def)
  from session_ok_steps [OF this] have "session_ok (c_calibration (fst (system_run w inputs)))"
    by (simp add: session_ok_def session_view_def)
  then show ?thesis
    by (cases "c_calibration (fst (system_run w inputs))") (auto simp: session_ok_def)
qed

end
