(* ===== verification/Frozen.thy ===== *)
theory Frozen
  imports System
begin

text \<open>
  A controller that is frozen: what still runs, and what can no longer change.
\<close>

subsection \<open>A frozen controller\<close>

text \<open>
  Once frozen, a controller only answers: of a relation that says nothing about other states, the quiet
  operations and the last calls of the shutdown are enough.
\<close>

locale frozen_run = quiet_run +
  assumes thawed: "\<not> c_frozen s \<Longrightarrow> R s s'"
    and last_step: "R s (s\<lparr>c_stopped := True\<rparr>)" "\<not> (\<exists>c. call = Dispatch c) \<Longrightarrow> R s (s\<lparr>c_calls := call # c_calls s\<rparr>)"
    and job_done: "R s (s\<lparr>c_jobs := im_shift_remove (c_jobs s) i\<rparr>)"
    and enrolled: "R s (s\<lparr>c_accepted := List.insert i (c_accepted s), c_requests := im_insert (c_requests s) i request_default\<rparr>)"
begin

lemma run_frozen: "(\<And>s. c_frozen s \<Longrightarrow> along R (f s)) \<Longrightarrow> along R (ask f)"
  using thawed by (auto simp: along_def)

lemma run_if_thawed: "along R (ask (\<lambda>s. only_if (\<not> c_frozen s \<and> b s) (m s)))"
  by (rule run_frozen) (simp add: along_skip)

lemma frozen_advance: "along R advance_handovers"
  unfolding advance_handovers_def by (rule run_frozen) (simp add: along_skip)

lemma frozen_observe_unit: "along R (observe_unit u)"
proof -
  have follow: "along R (ask (\<lambda>s. case (c_frozen s, known (us_state u)) of
         (False, Some st) \<Rightarrow>
           (let targets = unit_sources s (us_id u)
            in each (follow_unit_mute (us_id u) (all_muted s targets) (ds_muted st)) targets)
       | _ \<Rightarrow> skip))"
    by (rule run_frozen) (simp add: along_skip)
  show ?thesis
    unfolding observe_unit_def
    by (rule along_ask, intro along_only_if along_seq_Cons along_seq_Nil follow quiet [OF inert_sync_unit_view]
        quiet [OF inert_on_view] quiet [OF inert_upd]) (simp_all add: core_simps)
qed

lemma frozen_device_finished: "along R (device_finished job u result)"
proof -
  have "along R (upd (\<lambda>s. s\<lparr>c_jobs := im_shift_remove (c_jobs s) job\<rparr>))"
    by (simp add: along_def job_done)
  moreover have "along R (forget_unit_state v e)" for v e
    unfolding forget_unit_state_def by (intro quiet [OF inert_upd]) (simp add: core_simps)
  ultimately show ?thesis
    unfolding device_finished_def
    by (intro run_basic run_operation_failure frozen_observe_unit run_finish_if_ready)
qed

lemma frozen_set_meter_targets: "along R (set_meter_targets targets)"
proof -
  have "along R (ask (\<lambda>s. only_if (\<not> c_frozen s)
       (handle (dispatch (MeterTargets targets)) (\<lambda>e. issue ''meters'' (err_message e)))))"
    by (rule run_frozen) (simp add: along_skip)
  then show ?thesis
    unfolding set_meter_targets_def Let_def
    by (intro along_seq_Cons along_seq_Nil quiet [OF inert_upd]) (simp_all add: core_simps)
qed

lemma frozen_graph_observed: "along R (graph_observed g)"
proof -
  have thawed: "along R (ask (\<lambda>s. only_if (\<not> c_frozen s) (m s)))" for m
    by (rule run_frozen) (simp add: along_skip)
  have meters: "along R (ask (\<lambda>s. only_if (b s) (set_meter_targets (ts s))))" for b ts
    by (intro run_basic frozen_set_meter_targets)
  show ?thesis
    unfolding graph_observed_def
    by (intro along_seq_Cons along_seq_Nil along_each thawed meters quiet [OF inert_adopt_graph] quiet [OF inert_issue]
        quiet [OF inert_sync_unit_view] quiet [OF inert_upd]) (simp_all add: core_simps)
qed

lemma frozen_master_observed: "along R (master_observed m level muted revision ident)"
  unfolding master_observed_def by (rule run_frozen) (simp add: along_skip)

lemma frozen_calibration_complete: "along R (calibration_complete e)"
  unfolding calibration_complete_def by (rule run_frozen) (simp add: along_skip)

lemma frozen_observe: "along R (observe event)"
  unfolding observe_def
  by (intro run_basic frozen_advance; cases event; simp only: backend_event.case)
    (intro frozen_observe_unit run_retire_unit frozen_device_finished frozen_graph_observed frozen_master_observed
      quiet [OF inert_meter_observed] frozen_calibration_complete run_autostart_done run_setup_done
      quiet [OF inert_status_observed] quiet [OF inert_issue])+

lemma frozen_freeze: "along R freeze"
  unfolding freeze_def by (rule run_frozen) (simp add: along_skip)

lemma frozen_last_call: "\<not> (\<exists>c. call = Dispatch c) \<Longrightarrow> along R (call_backend call)"
  by (simp add: along_def call_backend_def Let_def last_step)

lemma frozen_backend_shutdown: "along R backend_shutdown"
  by (simp add: along_def backend_shutdown_def Let_def last_step)

lemma frozen_backend_remove: "along R (backend_remove plan delete_settings)"
  by (simp add: along_def backend_remove_def Let_def last_step)

lemma frozen_stop_controller: "along R (stop_controller i)"
proof -
  have "along R (upd (\<lambda>s. s\<lparr>c_stopped := True, c_dirty := True\<rparr>))"
    by (rule alongI, rule via_core [OF last_step(1)]) (simp add: core_simps)
  then show ?thesis
    unfolding stop_controller_def by (intro run_basic run_on_lifecycle run_send) simp_all
qed

lemma frozen_remove_application: "along R (remove_application i plan delete_settings)"
  unfolding remove_application_def Let_def
  by (intro run_basic frozen_backend_remove run_send frozen_stop_controller run_on_lifecycle quiet [OF inert_issue]) simp

lemma frozen_end:
  "along R (case (stopped, removal) of
          (Some e, _) \<Rightarrow> seq [
            on_lifecycle LifeFrozen,
            issue ''shutdown'' (shutdown_text e),
            only_if (removal \<noteq> None) (send_event (UninstallFinished (failed_removal (shutdown_text e)
              ''Worker drain failed; no integration, settings or application removal was attempted.''))),
            finish i (Rejected (error_unavailable (shutdown_text e))),
            send_event (ShutdownFinished (Some e))]
        | (None, None) \<Rightarrow> stop_controller i
        | (None, Some (plan, delete_settings)) \<Rightarrow> remove_application i plan delete_settings)"
  by (intro run_basic run_send frozen_stop_controller frozen_remove_application run_on_lifecycle
      quiet [OF inert_issue]) simp_all

lemma frozen_shut_down: "along R (shut_down i removal)"
  unfolding shut_down_def
  by (intro along_seq_Cons along_seq_Nil along_bnd along_ask along_each frozen_freeze run_on_lifecycle run_publish
      frozen_backend_shutdown frozen_observe run_close_request frozen_end quiet [OF inert_touch])

lemma frozen_confirm_uninstall: "along R (confirm_uninstall i plan delete_settings)"
  unfolding confirm_uninstall_def by (intro run_basic frozen_last_call run_send frozen_shut_down) simp_all

lemma frozen_execute: "ends_session command \<Longrightarrow> along R (execute i command)"
  unfolding execute_def
  by (cases command; simp only: app_command.case ends_session_def simp_thms)
    (intro run_basic frozen_shut_down frozen_confirm_uninstall)+

lemma frozen_apply_command: "along R (apply_command i command)"
proof (cases "ends_session command")
  case True
  then show ?thesis
    unfolding apply_command_def
    by (intro run_basic frozen_execute run_operation_failure frozen_advance run_finish_if_ready)
next
  case False
  then show ?thesis
    unfolding apply_command_def by (intro run_frozen) (simp add: run_finish)
qed

lemma frozen_turn_quietly: "along R (turn events elapsed None)"
proof -
  have "along R (upd (\<lambda>s. s\<lparr>c_now := c_now s + elapsed\<rparr>))"
    by (intro quiet [OF inert_upd]) (simp add: core_simps)
  then show ?thesis
    unfolding turn_def option.case fire_due_def fire_edit_def
    by (intro run_basic run_fired frozen_observe frozen_apply_command quiet [OF inert_refresh_pending_view])
qed

lemma frozen_turn: "along R (turn events elapsed request)"
proof (cases request)
  case (Some r)
  have "along R (upd (\<lambda>s. s\<lparr>c_accepted := List.insert (fst r) (c_accepted s),
       c_requests := im_insert (c_requests s) (fst r) request_default\<rparr>))"
    by (simp add: along_def enrolled)
  then have "along R (accept_command r)"
    unfolding accept_command_def by (cases r; simp only: prod.case fst_conv) (intro run_basic frozen_apply_command)
  then have "R (snd (turn events elapsed None s)) (snd (turn events elapsed (Some r) s))" for s
    by (simp add: turn_def bnd_app alongD)
  then show ?thesis
    unfolding Some by (intro alongI) (rule step_trans [OF alongD [OF frozen_turn_quietly]])
qed (simp add: frozen_turn_quietly)

end

definition stays_frozen :: "controller \<Rightarrow> controller \<Rightarrow> bool" where
  "stays_frozen s s' \<longleftrightarrow> (c_frozen s \<longrightarrow> c_frozen s' \<and> c_store s' = c_store s \<and> c_held_captures s' = c_held_captures s \<and>
     (\<exists>more. c_calls s' = more @ c_calls s \<and>
        list_all (\<lambda>c. case c of Dispatch (StopCalibration _) \<Rightarrow> True | Dispatch _ \<Rightarrow> False | _ \<Rightarrow> True) more))"

interpretation frozen_life: frozen_run stays_frozen
proof unfold_locales
  show "stays_frozen s t \<Longrightarrow> stays_frozen t u \<Longrightarrow> stays_frozen s u" for s t u
    by (fastforce simp: stays_frozen_def)
  show "\<not> (\<exists>c. call = Dispatch c) \<Longrightarrow> stays_frozen s (s\<lparr>c_calls := call # c_calls s\<rparr>)" for call s
    by (cases call) (simp_all add: stays_frozen_def)
qed (simp_all add: stays_frozen_def core_simps answered_def stop_call_def)

lemma system_stays_frozen: "stays_frozen (fst sys) (fst (fold system_turn inputs sys))"
  by (rule frozen_life.system_evolves) (simp_all add: stays_frozen_def alongD [OF frozen_life.frozen_turn, unfolded stays_frozen_def])

text \<open>
  C3. Once the controller is frozen nothing it owns changes any more, whatever is still submitted or
  observed: the stores keep their values, and of all orders only the end of a recording and the calls of the
  shutdown itself still reach the back end: no routing, no write to a device, no mute.
\<close>

theorem frozen_changes_nothing:
  "if c_frozen (fst (system_run w inputs))
   then (let s = fst (system_run w inputs); s' = fst (system_run w (inputs @ further)) in
     c_frozen s' \<and> c_store s' = c_store s \<and>
     (\<exists>more. c_calls s' = more @ c_calls s \<and>
        list_all (\<lambda>c. case c of Dispatch (StopCalibration _) \<Rightarrow> True | Dispatch _ \<Rightarrow> False | _ \<Rightarrow> True) more))
   else True"
  using system_stays_frozen [of "system_run w inputs" further]
  by (simp add: stays_frozen_def system_run_def Let_def)

end
