(* ===== verification/Answers.thy ===== *)
theory Answers
  imports Frozen
begin

text \<open>
  The books of the controller: every command that is accepted is answered once, and the shutdown leaves
  none open. The shutdown stops the controller, so its steps are followed one by one; everything else
  keeps the books because it keeps \<open>balanced\<close>, \<open>steady_books\<close> and \<open>stays_frozen\<close>.
\<close>

subsection \<open>Answers to commands\<close>

definition finished :: "controller \<Rightarrow> command_id list" where
  "finished s = List.map_filter (\<lambda>e. case e of CommandFinished i _ \<Rightarrow> Some i | _ \<Rightarrow> None) (c_events s)"

text \<open>A command that was accepted is open or it is answered, once; the open ones have a request each.\<close>

definition books :: "controller \<Rightarrow> bool" where
  "books s \<longleftrightarrow> im_wf (c_jobs s) \<and> distinct (c_accepted s @ finished s) \<and> im_wf (c_requests s) \<and>
     set (im_keys (c_requests s)) = set (c_accepted s)"

definition balanced :: "controller \<Rightarrow> controller \<Rightarrow> bool" where
  "balanced s s' \<longleftrightarrow> (books s \<longrightarrow> books s' \<and> set (c_accepted s' @ finished s') = set (c_accepted s @ finished s) \<and>
     set (c_accepted s') \<subseteq> set (c_accepted s) \<and>
     ad_next_command (c_admission s') = ad_next_command (c_admission s) \<and>
     ad_stopped (c_admission s') = ad_stopped (c_admission s))"

lemma finished_append [simp]:
  "finished (s\<lparr>c_events := c_events s @ [CommandFinished i outcome]\<rparr>) = finished s @ [i]"
  "\<not> (\<exists>i r. e = CommandFinished i r) \<Longrightarrow> finished (s\<lparr>c_events := c_events s @ [e]\<rparr>) = finished s"
  by (auto simp: finished_def List.map_filter_def split: runtime_event.splits)

lemma keys_shift_remove: "im_wf m \<Longrightarrow> set (im_keys (im_shift_remove m k)) = set (im_keys m) - {k}"
  by (auto simp: im_keys_def set_shift_remove)

lemma balanced_answered:
  assumes "i \<in> set (c_accepted s)"
  shows "balanced s (answered i outcome s)"
proof -
  have "finished (answered i outcome s) = finished s @ [i]"
    by (simp add: answered_def finished_def List.map_filter_def)
  then show ?thesis
    using assms by (auto simp: balanced_def books_def answered_def keys_shift_remove distinct_removeAll)
qed

lemma balanced_same:
  "(im_wf (c_jobs s) \<Longrightarrow> im_wf (c_jobs s')) \<Longrightarrow> c_accepted s' = c_accepted s \<Longrightarrow> finished s' = finished s \<Longrightarrow>
   im_keys (c_requests s') = im_keys (c_requests s) \<Longrightarrow>
   ad_next_command (c_admission s') = ad_next_command (c_admission s) \<Longrightarrow>
   ad_stopped (c_admission s') = ad_stopped (c_admission s) \<Longrightarrow> balanced s s'"
  by (auto simp: balanced_def books_def im_wf_def im_keys_def)

interpretation balance_step: stepwise_run balanced
proof unfold_locales
  show "balanced s s" for s by (simp add: balanced_def)
  show "balanced s t \<Longrightarrow> balanced t u \<Longrightarrow> balanced s u" for s t u by (auto simp: balanced_def)
  show "calm s s' \<Longrightarrow> balanced s s'" for s s'
    by (rule balanced_same) (simp_all add: core_simps finished_def)
  show "i \<in> set (c_accepted s) \<Longrightarrow> balanced s (answered i outcome s)" for i s outcome
    by (rule balanced_answered)
  show "\<not> im_wf (c_jobs s) \<Longrightarrow> balanced s s'" for s s' by (simp add: balanced_def books_def)
  show "\<not> (\<exists>i r. e = CommandFinished i r) \<Longrightarrow> balanced s (s\<lparr>c_events := c_events s @ [e]\<rparr>)" for e s
    by (rule balanced_same) simp_all
qed (rule balanced_same; simp add: finished_def job_started_def job_released_def im_keys_def)+

interpretation balance_life: full_run balanced
  by unfold_locales (rule balanced_same; simp add: finished_def)+

text \<open>What only the shutdown changes.\<close>

definition steady_books :: "controller \<Rightarrow> controller \<Rightarrow> bool" where
  "steady_books s s' \<longleftrightarrow> (im_wf (c_jobs s) \<longrightarrow> im_wf (c_jobs s') \<and> c_frozen s' = c_frozen s \<and> c_stopped s' = c_stopped s)"

interpretation steady_step: stepwise_run steady_books
proof unfold_locales
  show "calm s s' \<Longrightarrow> steady_books s s'" for s s' by (simp add: steady_books_def core_simps)
qed (auto simp: steady_books_def answered_def job_started_def job_released_def)

text \<open>
  A controller in order: the books balance, nothing is held back once it is frozen, and nothing is left
  open once it has stopped.
\<close>

definition in_order :: "controller \<Rightarrow> bool" where
  "in_order s \<longleftrightarrow> books s \<and> (c_frozen s \<longrightarrow> c_held_captures s = []) \<and> (c_stopped s \<longrightarrow> c_frozen s \<and> c_accepted s = [])"

definition keeps_order :: "controller \<Rightarrow> controller \<Rightarrow> bool" where
  "keeps_order s s' \<longleftrightarrow> (in_order s \<longrightarrow> in_order s')"

interpretation order: evolution keeps_order
  by unfold_locales (auto simp: keeps_order_def)

lemma keeps_orderI:
  assumes "balanced s s'" and "steady_books s s'" and "c_frozen s \<Longrightarrow> c_held_captures s' = c_held_captures s"
  shows "keeps_order s s'"
  using assms by (auto simp: keeps_order_def in_order_def balanced_def steady_books_def books_def)

lemma order_along:
  "along balanced m \<Longrightarrow> along steady_books m \<Longrightarrow> along stays_frozen m \<Longrightarrow> along keeps_order m"
  by (auto simp: along_def stays_frozen_def intro: keeps_orderI)

lemma order_observe: "along keeps_order (observe event)"
  by (rule order_along) (rule balance_step.run_observe steady_step.run_observe frozen_life.frozen_observe)+

lemma order_advance: "along keeps_order advance_handovers"
  by (rule order_along)
    (rule balance_step.run_advance_handovers steady_step.run_advance_handovers frozen_life.frozen_advance)+

lemma order_finish: "along keeps_order (finish i outcome)"
  by (rule order_along) (rule balance_step.run_finish steady_step.run_finish frozen_life.run_finish)+

lemma order_finish_if_ready: "along keeps_order (finish_if_ready i)"
  by (rule order_along)
    (rule balance_step.run_finish_if_ready steady_step.run_finish_if_ready frozen_life.run_finish_if_ready)+

lemma order_operation_failure: "along keeps_order (operation_failure who target e)"
  by (rule order_along)
    (rule balance_step.run_operation_failure steady_step.run_operation_failure frozen_life.run_operation_failure)+

lemma order_on_request: "along keeps_order (on_request i f)"
  by (rule order_along) (rule balance_step.run_on_request steady_step.run_on_request frozen_life.run_on_request)+

lemma order_publish: "along keeps_order publish"
  by (rule order_along) (rule balance_step.run_publish steady_step.run_publish frozen_life.run_publish)+

lemma order_send: "\<not> (\<exists>i r. e = CommandFinished i r) \<Longrightarrow> along keeps_order (send_event e)"
  by (rule order_along) (rule balance_step.run_send steady_step.run_send frozen_life.run_send, assumption)+

lemma order_close_request: "along keeps_order (close_request i)"
  by (rule order_along)
    (rule balance_step.run_close_request steady_step.run_close_request frozen_life.run_close_request)+

lemma order_quiet: "inert m \<Longrightarrow> along keeps_order m"
  by (rule order_along) (simp_all add: balance_step.quiet steady_step.quiet frozen_life.quiet)

lemma order_last_call:
  assumes "\<not> (\<exists>c. call = Dispatch c)"
  shows "along keeps_order (call_backend call)"
  using assms
  by (simp add: along_def call_backend_def Let_def keeps_order_def in_order_def books_def finished_def)

lemma store_replace_held [simp]: "c_held_captures (snd (store_replace f v s)) = c_held_captures s"
  by (simp add: store_replace_def attempt_app store_prepare_app store_publish_app Let_def split: sum.split)

text \<open>What \<open>freeze\<close> does at once, and what it does then.\<close>

definition frozen_now :: "controller \<Rightarrow> controller" where
  "frozen_now s = s\<lparr>c_admission := (c_admission s)\<lparr>ad_accepting := False\<rparr>, c_frozen := True,
       c_view := (c_view s)\<lparr>av_lifecycle := LifeFrozen\<rparr>, c_held_captures := [], c_handovers := []\<rparr>"

definition freeze_rest :: "unit cact" where
  "freeze_rest = seq [cancel_pending (\<lambda>_. True), cancel_calibration,
     ask (\<lambda>s. only_if (writable (cs_preferences (c_store s)))
       (handle (store_replace preferences_field (av_preferences (c_view s))) (\<lambda>e. issue ''preferences'' (err_message e)))),
     touch, publish]"

lemma freeze_app: "freeze s = (if c_frozen s then ((), s) else freeze_rest (frozen_now s))"
  by (simp add: freeze_def freeze_rest_def frozen_now_def bnd_app)

context active_run
begin

lemma run_freeze_rest: "along R freeze_rest"
  unfolding freeze_rest_def
  by (intro run_basic run_cancel_pending run_cancel_calibration run_replace_preferences quiet [OF inert_issue]
      quiet [OF inert_touch])

end

lemma order_freeze_rest: "along keeps_order freeze_rest"
proof -
  have replace: "along keeps_order (store_replace preferences_field prefs)" for prefs
    using balance_step.run_replace_preferences steady_step.run_replace_preferences
    by (auto simp: along_def intro: keeps_orderI)
  have cancel: "along keeps_order (cancel_pending p)" "along keeps_order cancel_calibration" for p
    by (rule order_along, (rule balance_step.run_cancel_pending steady_step.run_cancel_pending frozen_life.run_cancel_pending
      balance_step.run_cancel_calibration steady_step.run_cancel_calibration frozen_life.run_cancel_calibration)+)+
  show ?thesis
    unfolding freeze_rest_def
    by (intro order.along_intros cancel replace order_publish order_quiet [OF inert_touch] order_quiet [OF inert_issue])
qed

lemma in_order_frozen_now: "in_order s \<Longrightarrow> \<not> c_frozen s \<Longrightarrow> in_order (frozen_now s)"
  by (auto simp: in_order_def books_def finished_def frozen_now_def)

lemma freeze_in_order:
  assumes "in_order s"
  shows "in_order (snd (freeze s))" and "c_frozen (snd (freeze s))"
proof -
  have "in_order (snd (freeze_rest (frozen_now s)))" if "\<not> c_frozen s"
    using alongD [OF order_freeze_rest] in_order_frozen_now [OF assms that] by (simp add: keeps_order_def)
  moreover have "c_frozen (snd (freeze_rest (frozen_now s)))" if "\<not> c_frozen s"
    using alongD [OF steady_step.run_freeze_rest, of "frozen_now s"] in_order_frozen_now [OF assms that]
    by (simp add: steady_books_def in_order_def books_def) (simp add: frozen_now_def)
  ultimately show "in_order (snd (freeze s))" and "c_frozen (snd (freeze s))"
    using assms by (auto simp: freeze_app)
qed

subsection \<open>The shutdown answers everything\<close>

lemma finish_accepted: "c_accepted (snd (finish i outcome s)) = removeAll i (c_accepted s)"
  using arg_cong [OF conjunct1 [OF finish_core [of i outcome s]], of "\<lambda>c. fst (snd (snd (snd (snd (snd c)))))"]
  by (auto simp: core_simps answered_def published_def split: if_splits)

lemma close_request_accepted:
  assumes "in_order s" and "c_frozen s"
  shows "set (c_accepted (snd (close_request i s))) = set (c_accepted s) - {i}"
proof (cases "case im_get (c_requests s) i of None \<Rightarrow> False | Some r \<Rightarrow> rq_scene r")
  case True
  then obtain r where r: "im_get (c_requests s) i = Some r" by (auto split: option.splits)
  let ?f = "\<lambda>r. r\<lparr>rq_failed := rq_failed r @ [skipped_issue ''shutdown'' ''Unfinished scene targets were cancelled''],
         rq_remaining := [], rq_waiting := False\<rparr>"
  let ?t = "snd (on_request i ?f s)"
  have t: "im_get (c_requests ?t) i = Some (?f r)" "c_held_captures ?t = []" "c_accepted ?t = c_accepted s"
    using assms r by (simp_all add: on_request_def in_order_def)
  have "\<not> held_by ?t i" by (simp add: held_by_def t(2) im_values_def)
  then have "finish_if_ready i ?t = finish i (request_outcome (av_revision (c_view ?t)) (?f r)) ?t"
    by (simp add: finish_if_ready_def t)
  then show ?thesis
    using True by (simp add: close_request_def bnd_app finish_accepted t(3))
next
  case False
  then show ?thesis by (auto simp: close_request_def finish_accepted)
qed

lemma close_requests_accepted:
  assumes "in_order s" and "c_frozen s"
  shows "in_order (snd (each close_request js s)) \<and> c_frozen (snd (each close_request js s)) \<and>
    set (c_accepted (snd (each close_request js s))) = set (c_accepted s) - set js"
  using assms
proof (induction js arbitrary: s)
  case (Cons j js)
  let ?t = "snd (close_request j s)"
  have "in_order ?t" "c_frozen ?t"
    using Cons.prems alongD [OF order_close_request, of s j] alongD [OF frozen_life.run_close_request, of s j]
    by (simp_all add: keeps_order_def stays_frozen_def)
  with Cons.IH [of ?t] show ?case
    using close_request_accepted [OF Cons.prems] by (auto simp: bnd_app)
qed simp

lemma order_on_lifecycle: "along keeps_order (on_lifecycle l)"
  unfolding on_lifecycle_def by (rule order_quiet [OF inert_on_view]) simp_all

lemma order_backend_shutdown: "along keeps_order backend_shutdown"
  by (simp add: along_def backend_shutdown_def Let_def keeps_order_def in_order_def books_def finished_def)

lemma order_backend_remove: "along keeps_order (backend_remove plan delete_settings)"
  by (simp add: along_def backend_remove_def Let_def keeps_order_def in_order_def books_def finished_def)

lemma in_order_along: "along keeps_order m \<Longrightarrow> in_order s \<Longrightarrow> in_order (snd (m s))"
  by (simp add: along_def keeps_order_def)

lemma frozen_along: "along stays_frozen m \<Longrightarrow> c_frozen s \<Longrightarrow> c_frozen (snd (m s))"
  by (simp add: along_def stays_frozen_def)

lemma seq_pair: "snd (seq [m, n] s) = snd (n (snd (m s)))"
  by (simp add: bnd_app)

text \<open>The last step: with nothing open but the command that ends the session.\<close>

lemma stop_in_order:
  assumes "in_order s" and "c_frozen s" and "set (c_accepted s) \<subseteq> {i}"
  shows "in_order (snd (stop_controller i s))"
proof -
  let ?t = "snd (seq [on_lifecycle LifeStopped, upd (\<lambda>s. s\<lparr>c_stopped := True, c_dirty := True\<rparr>)] s)"
  let ?u = "snd (finish i (Applied (av_revision (c_view ?t))) ?t)"
  have t: "books ?t" "c_frozen ?t" "c_held_captures ?t = []" "c_accepted ?t = c_accepted s"
    using assms by (simp_all add: bnd_app on_lifecycle_def on_view_def in_order_def books_def finished_def)
  have "books ?u"
    using alongD [OF balance_step.run_finish, of ?t] t(1) by (simp add: balanced_def)
  moreover have "c_frozen ?u \<and> c_held_captures ?u = []"
    using alongD [OF frozen_life.run_finish, of ?t] t by (simp add: stays_frozen_def)
  moreover have "removeAll i (c_accepted s) = []"
    using assms(3) by (auto simp: removeAll_filter_not_eq filter_empty_conv)
  then have "c_accepted ?u = []"
    by (simp only: finish_accepted t(4))
  ultimately have "in_order ?u"
    by (simp add: in_order_def)
  then have "in_order (snd (seq [publish, send_event (ShutdownFinished None)] ?u))"
    by (rule in_order_along [rotated]) (intro order.along_intros order_publish order_send, simp)
  then show ?thesis
    by (simp add: stop_controller_def bnd_app)
qed

lemma remove_application_in_order:
  assumes "in_order s" and "c_frozen s" and "set (c_accepted s) \<subseteq> {i}"
  shows "in_order (snd (remove_application i plan delete_settings s))"
proof -
  have ended: "in_order (snd (seq [send_event (UninstallFinished r),
      (if ur_success r then stop_controller i
       else seq [on_lifecycle LifeFrozen, issue ''uninstall'' (removal_failure r),
          finish i (Rejected (error_unavailable (removal_failure r)))])] t))"
    if "in_order t" "c_frozen t" "set (c_accepted t) \<subseteq> {i}" for r t
  proof -
    let ?u = "snd (send_event (UninstallFinished r) t)"
    have u: "in_order ?u" "c_frozen ?u" "set (c_accepted ?u) \<subseteq> {i}"
      using that in_order_along [OF order_send, of "UninstallFinished r" t] by (simp_all add: send_event_def)
    show ?thesis
    proof (cases "ur_success r")
      case True
      then show ?thesis unfolding seq_pair using stop_in_order [OF u] by (simp only: if_True)
    next
      case False
      have "along keeps_order (seq [on_lifecycle LifeFrozen, issue ''uninstall'' (removal_failure r),
          finish i (Rejected (error_unavailable (removal_failure r)))])"
        by (intro order.along_intros order_on_lifecycle order_finish order_quiet [OF inert_issue])
      then show ?thesis
        unfolding seq_pair using in_order_along [OF _ u(1)] False by (simp only: if_False)
    qed
  qed
  let ?t = "snd (backend_remove plan delete_settings s)"
  have "in_order ?t"
    using in_order_along [OF order_backend_remove assms(1)] .
  moreover have "c_frozen ?t" "set (c_accepted ?t) \<subseteq> {i}"
    using assms by (simp_all add: backend_remove_def Let_def)
  ultimately show ?thesis
    unfolding remove_application_def Let_def bnd_app by (rule ended)
qed

text \<open>The end of the shutdown, after the back end has been drained and the other requests are closed.\<close>

definition shut_down_end :: "command_id \<Rightarrow> (uninstall_plan \<times> bool) option \<Rightarrow> shutdown_error option \<Rightarrow> unit cact" where
  "shut_down_end i removal stopped = (case (stopped, removal) of
          (Some e, _) \<Rightarrow> seq [
            on_lifecycle LifeFrozen,
            issue ''shutdown'' (shutdown_text e),
            only_if (removal \<noteq> None) (send_event (UninstallFinished (failed_removal (shutdown_text e)
              ''Worker drain failed; no integration, settings or application removal was attempted.''))),
            finish i (Rejected (error_unavailable (shutdown_text e))),
            send_event (ShutdownFinished (Some e))]
        | (None, None) \<Rightarrow> stop_controller i
        | (None, Some (plan, delete_settings)) \<Rightarrow> remove_application i plan delete_settings)"

lemma shut_down_end_in_order:
  assumes "in_order s" and "c_frozen s" and "set (c_accepted s) \<subseteq> {i}"
  shows "in_order (snd (shut_down_end i removal stopped s))"
proof (cases stopped)
  case None
  then show ?thesis
    using stop_in_order [OF assms] remove_application_in_order [OF assms]
    by (auto simp: shut_down_end_def split: option.split)
next
  case (Some e)
  have "along keeps_order (shut_down_end i removal stopped)"
    unfolding shut_down_end_def Some prod.case option.case
    by (intro order.along_intros order_on_lifecycle order_finish order_send order_quiet [OF inert_issue]) simp_all
  then show ?thesis by (rule in_order_along [OF _ assms(1)])
qed

lemma order_shut_down: "along keeps_order (shut_down i removal)"
proof (rule alongI)
  fix s
  let ?s1 = "snd (freeze s)"
  let ?m = "seq [on_lifecycle LifeDraining, touch, publish]"
  let ?s2 = "snd (?m ?s1)"
  let ?s3 = "snd (backend_shutdown ?s2)"
  let ?s4 = "snd (each observe (be_drain (c_backend ?s3) (c_calls ?s3)) ?s3)"
  let ?js = "filter (\<lambda>j. j \<noteq> i) (im_keys (c_requests ?s4))"
  let ?s5 = "snd (each close_request ?js ?s4)"
  have run: "snd (shut_down i removal s) = snd (shut_down_end i removal (fst (backend_shutdown ?s2)) ?s5)"
    by (simp add: shut_down_def shut_down_end_def bnd_app)
  have "along keeps_order ?m" "along stays_frozen ?m"
    by (intro order.along_intros order_on_lifecycle order_publish order_quiet [OF inert_touch])
      (intro frozen_life.run_basic frozen_life.run_on_lifecycle frozen_life.quiet [OF inert_touch])
  then have s3: "in_order ?s3" "c_frozen ?s3" if "in_order s"
    using freeze_in_order [OF that] in_order_along [OF order_backend_shutdown] frozen_along [OF frozen_life.frozen_backend_shutdown]
    by (blast dest: in_order_along frozen_along)+
  have drain: "along keeps_order (each observe es)" "along stays_frozen (each observe es)" for es
    by (intro order.along_each order_observe frozen_life.along_each frozen_life.frozen_observe)+
  have s4: "in_order ?s4" "c_frozen ?s4" if "in_order s"
    using in_order_along [OF drain(1) s3(1) [OF that]] frozen_along [OF drain(2) s3(2) [OF that]] .
  have "in_order ?s5" "c_frozen ?s5" "set (c_accepted ?s5) \<subseteq> {i}" if "in_order s"
    using close_requests_accepted [OF s4 [OF that], of ?js] s4(1) [OF that] by (auto simp: in_order_def books_def)
  then show "keeps_order s (snd (shut_down i removal s))"
    unfolding run keeps_order_def using shut_down_end_in_order by blast
qed

lemma order_confirm_uninstall: "along keeps_order (confirm_uninstall i plan delete_settings)"
  unfolding confirm_uninstall_def
  by (intro order.along_intros order_last_call order_send order_shut_down) simp_all

lemma order_apply_command: "along keeps_order (apply_command i command)"
proof (cases "ends_session command")
  case True
  then have "along keeps_order (execute i command)"
    unfolding execute_def
    by (cases command; simp only: app_command.case ends_session_def simp_thms)
      (intro order.along_intros order_shut_down order_confirm_uninstall)+
  then show ?thesis
    unfolding apply_command_def
    by (intro order.along_intros order_finish order_on_request order_operation_failure order_advance order_finish_if_ready)
next
  case False
  then show ?thesis
    by (intro order_along balance_step.run_apply_plain steady_step.run_apply_plain frozen_life.frozen_apply_command)
qed

lemma order_fired: "along keeps_order (upd (\<lambda>s. s\<lparr>c_pending := p s\<rparr>))"
  by (simp add: along_def keeps_order_def in_order_def books_def finished_def)

lemma order_turn_quietly: "along keeps_order (turn events elapsed None)"
proof -
  have "along keeps_order (upd (\<lambda>s. s\<lparr>c_now := c_now s + elapsed\<rparr>))"
    by (intro order_quiet inert_upd) (simp add: core_simps)
  then show ?thesis
    unfolding turn_def option.case fire_due_def fire_edit_def
    by (intro order.along_intros order_fired order_observe order_on_request order_quiet [OF inert_refresh_pending_view]
        order_apply_command order_publish)
qed

subsection \<open>The edits that wait\<close>

text \<open>No command that ends the session is ever delayed, so a turn stops the controller by its request only.\<close>

definition plain_edits :: "controller \<Rightarrow> bool" where
  "plain_edits s \<longleftrightarrow> im_wf (c_jobs s) \<and> list_all (\<lambda>(_, e). \<not> ends_session (pd_command e)) (c_pending s)"

interpretation edits_step: stepwise_run "\<lambda>s s'. plain_edits s \<longrightarrow> plain_edits s'"
proof unfold_locales
  show "calm s s' \<Longrightarrow> plain_edits s \<longrightarrow> plain_edits s'" for s s' by (simp add: plain_edits_def core_simps)
  show "\<not> im_wf (c_jobs s) \<Longrightarrow> plain_edits s \<longrightarrow> plain_edits s'" for s s' by (simp add: plain_edits_def)
  show "plain_edits s \<longrightarrow> plain_edits (s\<lparr>c_pending := p\<rparr>)"
    if "\<And>e. e \<in> set p \<Longrightarrow> e \<in> set (c_pending s) \<or> \<not> ends_session (pd_command (snd e))" for p s
    using that by (fastforce simp: plain_edits_def list_all_iff)
qed (auto simp: plain_edits_def answered_def job_started_def job_released_def)

interpretation edits_life: full_run "\<lambda>s s'. plain_edits s \<longrightarrow> plain_edits s'"
  by unfold_locales (auto simp: plain_edits_def)

lemma plain_edits_along: "along (\<lambda>s s'. plain_edits s \<longrightarrow> plain_edits s') m \<Longrightarrow> plain_edits s \<Longrightarrow> plain_edits (snd (m s))"
  by (simp add: along_def)

text \<open>A turn without a request does not stop the controller.\<close>

definition still_going :: "controller \<Rightarrow> controller \<Rightarrow> bool" where
  "still_going s s' \<longleftrightarrow> (plain_edits s \<longrightarrow> plain_edits s' \<and> c_stopped s' = c_stopped s)"

interpretation going: evolution still_going
  by unfold_locales (auto simp: still_going_def)

lemma going_steady: "along steady_books m \<Longrightarrow> along (\<lambda>s s'. plain_edits s \<longrightarrow> plain_edits s') m \<Longrightarrow> along still_going m"
  by (auto simp: along_def still_going_def steady_books_def plain_edits_def)

lemma going_fire_edit: "along still_going (fire_edit key)"
proof (rule alongI)
  fix s
  show "still_going s (snd (fire_edit key s))"
  proof (cases "im_get (c_pending s) key")
    case None
    then show ?thesis by (simp add: fire_edit_def going.same)
  next
    case (Some e)
    have plain: "plain_edits s \<Longrightarrow> \<not> ends_session (pd_command e)"
      using im_get_Some_mem [OF Some] by (auto simp: plain_edits_def list_all_iff)
    have "along still_going (seq [upd (\<lambda>s. s\<lparr>c_pending := im_shift_remove (c_pending s) key\<rparr>),
         on_request (pd_id e) (\<lambda>r. r\<lparr>rq_waiting := False\<rparr>), refresh_pending_view,
         apply_command (pd_id e) (pd_command e)])" if "\<not> ends_session (pd_command e)"
      using that
      by (intro going_steady steady_step.run_basic steady_step.run_fired steady_step.run_apply_plain
          steady_step.quiet [OF inert_refresh_pending_view]
          edits_step.run_basic edits_step.run_fired edits_step.run_apply_plain
          edits_step.quiet [OF inert_refresh_pending_view])
    then have "plain_edits s \<Longrightarrow> still_going s (snd (fire_edit key s))"
      using plain by (simp add: fire_edit_def Some along_def)
    then show ?thesis by (simp add: still_going_def)
  qed
qed

lemma going_turn: "along still_going (turn events elapsed None)"
proof -
  have "along still_going (observe event)" for event
    by (intro going_steady steady_step.run_observe edits_step.run_observe)
  moreover have "along still_going (upd (\<lambda>s. s\<lparr>c_now := c_now s + elapsed\<rparr>))"
    by (intro going_steady steady_step.quiet edits_step.quiet inert_upd) (simp_all add: core_simps)
  moreover have "along still_going publish"
    by (intro going_steady steady_step.run_publish edits_step.run_publish)
  ultimately show ?thesis
    unfolding turn_def option.case fire_due_def by (intro going.along_intros going_fire_edit)
qed

subsection \<open>Every command is answered once\<close>

text \<open>
  The identifiers that were handed out, from 1 on: each is in the channel, or open, or answered, and in
  one place only.
\<close>

definition system_books :: "system \<Rightarrow> bool" where
  "system_books sys \<longleftrightarrow> (case sys of (s, channel) \<Rightarrow>
     in_order s \<and> plain_edits s \<and> 1 \<le> ad_next_command (c_admission s) \<and>
     distinct (map fst channel @ c_accepted s @ finished s) \<and>
     set (map fst channel @ c_accepted s @ finished s) = {i. 1 \<le> i \<and> i < ad_next_command (c_admission s)} \<and>
     (ad_stopped (c_admission s) \<longrightarrow> c_stopped s \<and> channel = []))"

lemma ids_next:
  fixes n :: u64
  assumes "checked_add n 1 = Some m" and "1 \<le> n"
  shows "{i. 1 \<le> i \<and> i < m} = insert n {i. 1 \<le> i \<and> i < n}" and "1 \<le> m"
proof -
  have "unat m = Suc (unat n)" using unat_checked_add [OF assms(1)] by simp
  then have "i < m \<longleftrightarrow> i < n \<or> i = n" for i
    by (auto simp: word_less_nat_alt less_Suc_eq simp flip: word_unat_eq_iff)
  then show "{i. 1 \<le> i \<and> i < m} = insert n {i. 1 \<le> i \<and> i < n}" using assms(2) by auto
  show "1 \<le> m" using \<open>unat m = Suc (unat n)\<close> by (simp add: word_le_nat_alt)
qed

lemma books_submit:
  assumes "system_books (s, channel)"
  shows "system_books (system_turn (Submit command) (s, channel))"
proof -
  have frame: "in_order (s\<lparr>c_admission := adm\<rparr>) = in_order s" "plain_edits (s\<lparr>c_admission := adm\<rparr>) = plain_edits s"
    "finished (s\<lparr>c_admission := adm\<rparr>) = finished s" for adm
    by (simp_all add: in_order_def books_def finished_def plain_edits_def)
  show ?thesis
  proof (cases "\<exists>i adm. submit (c_admission s) command = (Inr i, adm)")
    case True
    then obtain i adm where sub: "submit (c_admission s) command = (Inr i, adm)" by blast
    then obtain n where n: "checked_add (ad_next_command (c_admission s)) 1 = Some n" and
      i: "i = ad_next_command (c_admission s)" and
      adm: "adm = (c_admission s)\<lparr>ad_next_command := n\<rparr>" and running: "\<not> ad_stopped (c_admission s)"
      by (auto simp: submit_def split: if_splits option.splits)
    have fresh: "i \<notin> set (map fst channel @ c_accepted s @ finished s)"
      using assms unfolding system_books_def prod.case i by auto
    have "1 \<le> ad_next_command (c_admission s)" using assms by (simp add: system_books_def)
    then have "{j. 1 \<le> j \<and> j < n} = insert i {j. 1 \<le> j \<and> j < ad_next_command (c_admission s)}" "1 \<le> n"
      unfolding i by (rule ids_next [OF n])+
    then show ?thesis
      using assms fresh running by (auto simp: system_turn_def sub adm system_books_def frame)
  next
    case False
    then have "snd (submit (c_admission s) command) = c_admission s" "\<exists>e. fst (submit (c_admission s) command) = Inl e"
      by (auto simp: submit_def split: option.splits if_splits)
    then show ?thesis using assms by (auto simp: system_turn_def split: prod.split)
  qed
qed

lemma books_turn:
  assumes "system_books (s, channel)" and "\<not> c_stopped s"
  shows "system_books (snd (turn events elapsed None s), channel)"
    and "\<not> c_stopped (snd (turn events elapsed None s))"
proof -
  let ?t = "snd (turn events elapsed None s)"
  have b: "balanced s ?t" and o: "keeps_order s ?t" and g: "still_going s ?t"
    by (rule alongD, rule balance_life.run_turn_quietly order_turn_quietly going_turn)+
  then show "\<not> c_stopped ?t" using assms by (simp add: still_going_def system_books_def)
  have "distinct (c_accepted ?t @ finished ?t)" "set (c_accepted ?t @ finished ?t) = set (c_accepted s @ finished s)"
    using b assms(1) by (auto simp: balanced_def system_books_def in_order_def books_def)
  then show "system_books (?t, channel)"
    using assms b o g
    by (auto simp: balanced_def keeps_order_def still_going_def system_books_def in_order_def)
qed

lemma books_accept:
  assumes "system_books (s, (i, command) # channel)" and "\<not> c_stopped s"
  shows "system_books (snd (accept_command (i, command) s), channel)"
proof -
  let ?s1 = "s\<lparr>c_accepted := List.insert i (c_accepted s), c_requests := im_insert (c_requests s) i request_default\<rparr>"
  let ?t = "snd (apply_command i command ?s1)"
  have fresh: "i \<notin> set (map fst channel @ c_accepted s @ finished s)"
    using assms(1) by (auto simp: system_books_def)
  have keys: "set (im_keys (im_insert m i v)) = insert i (set (im_keys m))" for m :: "(command_id, request_completion) imap" and v
    by (induction m i v rule: im_insert.induct) (auto simp: im_keys_def)
  have s1: "in_order ?s1" "plain_edits ?s1" "finished ?s1 = finished s" "c_admission ?s1 = c_admission s"
    using assms fresh by (auto simp: system_books_def in_order_def books_def finished_def plain_edits_def keys)
  have b: "balanced ?s1 ?t" and o: "keeps_order ?s1 ?t"
    by (rule alongD, rule balance_life.run_apply_command order_apply_command)+
  have "plain_edits ?t"
    by (rule plain_edits_along [OF edits_life.run_apply_command s1(2)])
  moreover have "in_order ?t" using o s1(1) by (simp add: keeps_order_def)
  moreover have all: "set (c_accepted ?t @ finished ?t) = insert i (set (c_accepted s @ finished s))"
    and adm: "ad_next_command (c_admission ?t) = ad_next_command (c_admission s)"
      "ad_stopped (c_admission ?t) = ad_stopped (c_admission s)"
    using b s1 by (auto simp: balanced_def in_order_def)
  moreover have "distinct (c_accepted ?t @ finished ?t)"
    using \<open>in_order ?t\<close> by (simp add: in_order_def books_def)
  ultimately have "system_books (?t, channel)"
    using assms(1) fresh all unfolding system_books_def prod.case by (auto simp: assms(2))
  then show ?thesis by (simp add: accept_command_def bnd_app)
qed

lemma books_close:
  assumes "system_books (s, channel)" and "c_stopped s"
  shows "system_books (snd (close_channel channel s), [])"
proof -
  have each: "snd (each (\<lambda>(i, _). send_event (CommandFinished i CommandCancelled)) rs t) =
      t\<lparr>c_events := c_events t @ map (\<lambda>(i, _). CommandFinished i CommandCancelled) rs\<rparr>" for rs t
    by (induction rs arbitrary: t) (auto simp: bnd_app send_event_def)
  let ?t = "snd (close_channel channel s)"
  have t: "?t = s\<lparr>c_admission := (c_admission s)\<lparr>ad_accepting := False, ad_stopped := True\<rparr>,
      c_events := c_events s @ map (\<lambda>(i, _). CommandFinished i CommandCancelled) channel\<rparr>"
    by (simp add: close_channel_def bnd_app each)
  have fin: "finished ?t = finished s @ map fst channel"
    by (auto simp: t finished_def List.map_filter_def comp_def case_prod_unfold)
  have none: "c_accepted s = []" using assms by (simp add: system_books_def in_order_def)
  have "in_order ?t" "plain_edits ?t"
    using assms fin none by (auto simp: system_books_def in_order_def books_def plain_edits_def t)
  then show ?thesis
    using assms none unfolding system_books_def prod.case fin by (auto simp: t)
qed

lemma books_thawed:
  assumes "system_books (s, channel)" and "\<not> c_frozen s" and "balanced s t" and "steady_books s t" and "plain_edits t"
  shows "system_books (t, channel)"
proof -
  have "in_order t"
    using assms by (auto simp: system_books_def in_order_def balanced_def steady_books_def books_def)
  then show ?thesis
    using assms by (auto simp: system_books_def in_order_def balanced_def books_def steady_books_def)
qed

lemma books_start: "system_books (system_start w)"
  unfolding system_start_blank
proof (rule books_thawed)
  show "system_books (start_blank w, [])" "\<not> c_frozen (start_blank w)"
    by (auto simp: system_books_def start_blank_def controller_blank_def in_order_def books_def finished_def
        plain_edits_def first_admission_def im_keys_def split: prod.split)
  then have "plain_edits (start_blank w)" by (simp add: system_books_def)
  then show "plain_edits (snd (seq [refresh_bindings, route] (start_blank w)))"
    by (rule plain_edits_along [rotated])
      (intro edits_step.run_basic edits_step.run_refresh_bindings edits_step.run_route)
  show "balanced (start_blank w) (snd (seq [refresh_bindings, route] (start_blank w)))"
    by (rule alongD) (intro balance_step.run_basic balance_step.run_refresh_bindings balance_step.run_route)
  show "steady_books (start_blank w) (snd (seq [refresh_bindings, route] (start_blank w)))"
    by (rule alongD) (intro steady_step.run_basic steady_step.run_refresh_bindings steady_step.run_route)
qed

lemma turn_with: "snd (turn events elapsed (Some r) s) = snd (accept_command r (snd (turn events elapsed None s)))"
  by (simp add: turn_def bnd_app)

lemma system_books_run: "system_books (system_run w inputs)"
proof (rule system_invariant)
  show "system_books (snd (turn events elapsed (Some r) s), channel)"
    if "system_books (s, r # channel)" "\<not> c_stopped s" for events elapsed s r channel
    using books_turn [OF that] books_accept unfolding turn_with by (metis prod.collapse)
qed (auto intro: books_start books_submit books_turn books_close)

text \<open>
  C1. Every identifier that was ever handed to a client is at any time in exactly one of three places: in the
  channel, among the open commands, or among the answers; no command is answered twice. And once the
  system has stopped, every command that was ever submitted has been answered.
\<close>

theorem every_command_answered_once:
  "case system_run w inputs of (s, channel) \<Rightarrow>
     distinct (map fst channel @ c_accepted s @ finished s) \<and>
     set (map fst channel @ c_accepted s @ finished s) = {i. 1 \<le> i \<and> i < ad_next_command (c_admission s)} \<and>
     (if ad_stopped (c_admission s)
      then set (finished s) = {i. 1 \<le> i \<and> i < ad_next_command (c_admission s)}
      else True)"
  using system_books_run [of w inputs]
  by (auto simp: system_books_def in_order_def split: prod.splits)

end
