(* ===== verification/Revisions.thy ===== *)
theory Revisions
  imports System
begin

text \<open>
  The number of a snapshot: a commit changes a store and publishes it under the next number, so the laws
  of \<open>active_run\<close> are shown for each commit as a whole.
\<close>

subsection \<open>Revisions\<close>

text \<open>
  What is shown to the clients is the published snapshot; the view is what the next publication will show.
  \<open>later\<close> orders what is shown: the number grows, and the same number means the same configuration, unless the
  numbers are exhausted.
\<close>

definition later :: "u64 \<times> desired_state \<Rightarrow> u64 \<times> desired_state \<Rightarrow> bool" where
  "later p q \<longleftrightarrow> fst p \<le> fst q \<and> (fst p = fst q \<longrightarrow> fst p = - 1 \<or> snd p = snd q)"

lemma later_refl [simp]: "later p p"
  by (simp add: later_def)

lemma later_trans: "later p q \<Longrightarrow> later q r \<Longrightarrow> later p r"
  by (auto simp: later_def word_order.extremum_unique)

lemma later_cases: "later p q \<Longrightarrow> fst p \<le> fst q \<and> (fst p < fst q \<or> fst p = - 1 \<or> snd q = snd p)"
  by (auto simp: later_def order.order_iff_strict)

definition announced :: "controller \<Rightarrow> bool" where
  "announced s \<longleftrightarrow> later (shown (c_snapshot s)) (shown (c_view s)) \<and>
     (\<not> c_dirty s \<longrightarrow> shown (c_snapshot s) = shown (c_view s))"

definition announces :: "controller \<Rightarrow> controller \<Rightarrow> bool" where
  "announces s s' \<longleftrightarrow> (announced s \<longrightarrow> announced s' \<and> later (shown (c_snapshot s)) (shown (c_snapshot s')))"

text \<open>
  Most operations leave the configuration, its number and the stores alone; a commit changes a store and then
  shows it under the next number.
\<close>

definition same_desk :: "controller \<Rightarrow> controller \<Rightarrow> bool" where
  "same_desk s s' \<longleftrightarrow> config_desired (c_store s') = config_desired (c_store s) \<and>
     shown (c_view s') = shown (c_view s) \<and> announces s s'"

lemma announces_refl [simp]: "announces s s"
  by (simp add: announces_def)

lemma announces_trans: "announces s t \<Longrightarrow> announces t u \<Longrightarrow> announces s u"
  by (auto simp: announces_def intro: later_trans)

text \<open>All that the publication depends on.\<close>

definition shop :: "controller \<Rightarrow> (u64 \<times> desired_state) \<times> (u64 \<times> desired_state) \<times> bool" where
  "shop s = (shown (c_view s), shown (c_snapshot s), c_dirty s)"

lemma announces_shop: "shop s' = shop s \<Longrightarrow> announces s s'"
  by (auto simp: announces_def announced_def shop_def)

lemma announces_calm: "shown (c_view s') = shown (c_view s) \<Longrightarrow> shown (c_snapshot s') = shown (c_snapshot s) \<Longrightarrow>
  (c_dirty s \<longrightarrow> c_dirty s') \<Longrightarrow> announces s s'"
  by (auto simp: announces_def announced_def)

interpretation desk: quiet_run same_desk
proof unfold_locales
  show "same_desk s t \<Longrightarrow> same_desk t u \<Longrightarrow> same_desk s u" for s t u
    by (auto simp: same_desk_def intro: announces_trans)
  show "same_desk s (s\<lparr>c_snapshot := v, c_dirty := False\<rparr>)" if "shown v = shown (c_view s)" for s v
    using that by (simp add: same_desk_def announces_def announced_def)
qed (auto simp: same_desk_def core_simps answered_def intro!: announces_calm)

lemma desk_called: "along same_desk (dispatch c)"
  by (simp add: along_def dispatch_def call_backend_def Let_def same_desk_def announces_shop shop_def)

lemma desk_set_meter_targets: "along same_desk (set_meter_targets targets)"
  unfolding set_meter_targets_def Let_def
  by (intro desk.run_basic desk_called desk.quiet [OF inert_issue] desk.quiet [OF inert_upd]) (simp_all add: core_simps)

lemma desk_invalidate_meters: "along same_desk (invalidate_meters before)"
  unfolding invalidate_meters_def Let_def by (intro desk.run_basic desk_set_meter_targets)

lemma desk_route: "along same_desk route"
  unfolding route_def
  by (intro desk.run_basic desk_called desk.quiet [OF inert_issue] desk.quiet [OF inert_upd]) (simp add: core_simps)

lemma desk_upd: "(\<And>s. c_store (f s) = c_store s \<and> shop (f s) = shop s) \<Longrightarrow> along same_desk (upd f)"
  by (simp add: along_def same_desk_def announces_shop) (simp add: shop_def)

lemma desk_refresh_bindings: "along same_desk refresh_bindings"
  unfolding refresh_bindings_def by (rule desk_upd) (simp add: shop_def split: prod.split)

lemma desk_update_handovers: "along same_desk (update_handovers before)"
  unfolding update_handovers_def by (rule desk_upd) (simp add: shop_def)

text \<open>An operation settles: it leaves the desk as it is, or it ends with the stores published under the next number.\<close>

definition settles :: "controller \<Rightarrow> controller \<Rightarrow> bool" where
  "settles s s' \<longleftrightarrow> same_desk s s' \<or>
     av_revision (c_view s') = saturating_add (av_revision (c_view s)) 1 \<and>
     av_desired (c_view s') = config_desired (c_store s') \<and> announces s s'"

text \<open>The shape of every commit: change a store, some quiet work, publish, some quiet work.\<close>

lemma saturating_add_one_less:
  assumes "(n :: u64) \<noteq> - 1"
  shows "n < saturating_add n 1"
proof -
  have "unat n \<noteq> unat (- 1 :: u64)" using assms by (metis word_unat_eq_iff)
  then have "unat n \<noteq> 2 ^ 64 - 1" by (simp add: unsigned_minus_1_eq_mask mask_eq_exp_minus_1)
  then show ?thesis
    using unsigned_less [of n, where ?'a = nat] by (simp add: word_less_nat_alt unat_saturating_add)
qed

lemma saturating_add_max: "saturating_add (- 1 :: u64) 1 = - 1"
  by (simp add: saturating_add_def unsigned_minus_1_eq_mask mask_eq_exp_minus_1)

lemma later_next: "later p (saturating_add (fst p) 1, d)"
  using saturating_add_one_less [of "fst p"] saturating_add_max
  by (cases "fst p = - 1") (auto simp: later_def)

lemma announces_next:
  assumes "shown (c_view s') = (saturating_add (av_revision (c_view s)) 1, d)" "c_dirty s'"
    "shown (c_snapshot s') = shown (c_snapshot s)"
  shows "announces s s'"
  using assms later_next [of "shown (c_view s)" d]
  by (auto simp: announces_def announced_def shown_def intro: later_trans)

lemma settles_commit:
  assumes "shop t = shop s" and "along same_desk before" and "along same_desk after"
  shows "settles s (snd (seq [before, refresh_desired, after] t))"
proof -
  let ?u = "snd (before t)"
  let ?v = "snd (refresh_desired ?u)"
  have u: "shown (c_view ?u) = shown (c_view s)" "announces s ?u"
    using alongD [OF assms(2), of t] assms(1) announces_shop [OF assms(1)]
    by (auto simp: same_desk_def shop_def intro: announces_trans)
  have v: "shown (c_view ?v) = (saturating_add (av_revision (c_view s)) 1, config_desired (c_store ?v))"
    using u(1) by (simp add: refresh_desired_def shown_def)
  have "announces ?u ?v"
    by (rule announces_next [of _ _ "config_desired (c_store ?v)"])
      (use v u(1) in \<open>simp_all add: refresh_desired_def shown_def\<close>)
  with u(2) have uv: "announces s ?v" by (rule announces_trans)
  have after: "same_desk ?v (snd (after ?v))" by (rule alongD [OF assms(3)])
  then have "announces s (snd (after ?v))" using uv by (auto simp: same_desk_def intro: announces_trans)
  then show ?thesis
    using v after by (simp add: bnd_app settles_def same_desk_def shown_def)
qed

lemma store_publish_shop [simp]: "shop (snd (store_publish f p s)) = shop s"
  by (simp add: store_publish_app Let_def shop_def split: sum.split)

lemma store_publish_failed: "fst (store_publish f p s) = Inl e \<Longrightarrow> c_store (snd (store_publish f p s)) = c_store s"
  by (simp add: store_publish_app Let_def split: sum.splits)

lemma store_prepare_frame [simp]:
  "shop (snd (store_prepare f v s)) = shop s" "c_store (snd (store_prepare f v s)) = c_store s"
  by (simp_all add: store_prepare_app shop_def)

lemma store_replace_shop [simp]: "shop (snd (store_replace f v s)) = shop s"
  by (simp add: store_replace_def attempt_app split: sum.split)

lemma store_replace_failed: "fst (store_replace f v s) = Inl e \<Longrightarrow> c_store (snd (store_replace f v s)) = c_store s"
  by (auto simp: store_replace_def attempt_app store_publish_failed split: sum.splits)

lemma same_desk_frame: "shop t = shop s \<Longrightarrow> c_store t = c_store s \<Longrightarrow> same_desk s t"
  by (simp add: same_desk_def announces_shop) (simp add: shop_def)

lemma settles_same: "same_desk s t \<Longrightarrow> settles s t"
  by (simp add: settles_def)

lemma settles_replace:
  assumes "along same_desk before" and "along same_desk after"
    and "\<And>t. snd (m t) = snd (seq [before, refresh_desired, after] t)"
  shows "settles s (snd (attempt (store_replace f v) (\<lambda>_. m) s))"
proof (cases "fst (store_replace f v s)")
  case (Inl e)
  then show ?thesis by (simp add: attempt_app settles_same same_desk_frame store_replace_failed)
next
  case (Inr u)
  show ?thesis
    using settles_commit [OF store_replace_shop assms(1,2)] by (simp add: attempt_app Inr assms(3))
qed

lemma settles_commit_sources: "settles s (snd (commit_sources srcs s))"
proof -
  let ?before = "de_sources (av_desired (c_view s))"
  have "along same_desk (seq [invalidate_meters ?before, clear_issue ''sources''])"
    by (intro desk.run_basic desk_invalidate_meters desk.quiet [OF inert_clear_issue])
  moreover have "along same_desk (seq [refresh_bindings, refresh_calibration_validity, sync_unit_view,
      update_handovers ?before, route])"
    by (intro desk.run_basic desk_refresh_bindings desk.run_calibration_validity desk.quiet [OF inert_sync_unit_view]
        desk_update_handovers desk_route)
  ultimately show ?thesis
    unfolding commit_sources_def Let_def act_simps
    by (rule settles_replace) (simp add: done_ok_app bnd_app)
qed

lemma settles_commit_matrix: "settles s (snd (commit_matrix matrix s))"
  unfolding commit_matrix_def
  by (rule settles_replace [OF desk.quiet [OF inert_clear_issue] desk_route]) (simp add: done_ok_app bnd_app)

lemma settles_commit_mixes: "settles s (snd (commit_mixes ms s))"
  unfolding commit_mixes_def
  by (rule settles_replace [OF desk.along_skip desk_route]) (simp add: done_ok_app bnd_app)

lemma settles_commit_scenes: "settles s (snd (commit_scenes saved s))"
  unfolding commit_scenes_def
  by (rule settles_replace [OF desk.along_skip desk_route]) (simp add: done_ok_app bnd_app)

lemma settles_try:
  "same_desk s t \<Longrightarrow> (\<And>x. settles s (snd (k x t))) \<Longrightarrow> settles s (snd (try_pure r k t))"
  by (cases r) (simp_all add: settles_same)

lemma settles_guard: "same_desk s t \<Longrightarrow> settles s (snd (m t)) \<Longrightarrow> settles s (snd (guard_ok b e m t))"
  by (cases b) (simp_all add: settles_same)

lemma settles_attempt:
  "(\<And>e. fst (m t) = Inl e \<Longrightarrow> same_desk s (snd (m t))) \<Longrightarrow> (\<And>x. settles s (snd (k x (snd (m t))))) \<Longrightarrow>
   settles s (snd (attempt m k t))"
  by (auto simp: attempt_app settles_same split: sum.split)

lemma settles_ask: "settles s (snd (f t t)) \<Longrightarrow> settles s (snd (ask f t))"
  by simp

lemma settles_publish:
  "(\<And>x. settles s (snd (k x (snd (store_publish f p t))))) \<Longrightarrow> settles s (snd (bnd (store_publish f p) k t))"
  "(\<And>x. settles s (snd (k x (snd ((case prefs of None \<Rightarrow> ret (Inr ()) | Some p \<Rightarrow> m p) t))))) \<Longrightarrow>
   settles s (snd (bnd (case prefs of None \<Rightarrow> ret (Inr ()) | Some p \<Rightarrow> m p) k t))"
  by (simp_all add: bnd_app)

lemma optional_prepare_frame:
  "shop (snd ((if b then attempt (store_prepare f v) (\<lambda>p. ret (Inr (Some p))) else ret (Inr None)) t)) = shop t"
  "c_store (snd ((if b then attempt (store_prepare f v) (\<lambda>p. ret (Inr (Some p))) else ret (Inr None)) t)) = c_store t"
  by (auto simp: attempt_app split: sum.split)

lemma optional_publish_shop:
  "shop (snd ((case prefs of
       None \<Rightarrow> ret (Inr ())
     | Some p \<Rightarrow> bnd (store_publish f p) (\<lambda>r.
         bnd (upd (\<lambda>s. s\<lparr>c_view := (c_view s)\<lparr>av_preferences := sd_value (cs_preferences (c_store s))\<rparr>\<rparr>))
           (\<lambda>_. ret r))) t)) = shop t"
proof -
  have "shop (s\<lparr>c_view := (c_view s)\<lparr>av_preferences := p\<rparr>\<rparr>) = shop s" for s p
    by (simp add: shop_def shown_def)
  then show ?thesis by (cases prefs) (simp_all add: bnd_app)
qed

lemma settles_tidy:
  assumes "shop t = shop s" and "along same_desk before" and "along same_desk after"
    and "\<And>t. snd (m t) = snd (seq [before, refresh_desired, after] t)"
  shows "settles s (snd (bnd m (\<lambda>_. ret x) t))"
  using settles_commit [OF assms(1-3)] by (simp add: bnd_app assms(4))

lemma settles_remove_source: "settles s (snd (remove_source source s))"
proof -
  let ?before = "de_sources (av_desired (c_view s))"
  let ?p = "\<lambda>key. case key of PendingCell i _ \<Rightarrow> i = source | PendingFx i \<Rightarrow> i = source | _ \<Rightarrow> False"
  have before: "along same_desk (seq [invalidate_meters ?before, cancel_pending ?p])"
    by (intro desk.run_basic desk_invalidate_meters desk.run_cancel_pending)
  have after: "along same_desk (seq [refresh_bindings, refresh_calibration_validity, route])"
    by (intro desk.run_basic desk_refresh_bindings desk.run_calibration_validity desk_route)
  have tidy: "settles s (snd (bnd (seq [invalidate_meters ?before, cancel_pending ?p, refresh_desired, refresh_bindings,
      refresh_calibration_validity, route]) (\<lambda>_. ret r) t))"
    if "shop t = shop s" for t and r :: "unit res"
    by (rule settles_tidy [OF that before after]) (simp add: bnd_app)
  show ?thesis
    unfolding remove_source_def Let_def
    by (intro settles_ask settles_try settles_guard settles_attempt tidy settles_publish same_desk_frame)
      (simp_all only: optional_prepare_frame optional_publish_shop store_publish_failed store_publish_shop
        store_prepare_frame)
qed

lemma settles_remove_mix: "settles s (snd (remove_mix m s))"
proof -
  let ?before = "de_sources (av_desired (c_view s))"
  let ?p = "\<lambda>key. case key of PendingCell _ i \<Rightarrow> i = m | _ \<Rightarrow> False"
  have before: "along same_desk (seq [invalidate_meters ?before, cancel_pending ?p])"
    by (intro desk.run_basic desk_invalidate_meters desk.run_cancel_pending)
  have tidy: "settles s (snd (bnd (seq [invalidate_meters ?before, cancel_pending ?p, refresh_desired, route]) (\<lambda>_. ret r) t))"
    if "shop t = shop s" for t and r :: "unit res"
    by (rule settles_tidy [OF that before desk_route]) (simp add: bnd_app)
  show ?thesis
    unfolding remove_mix_def Let_def
    by (intro settles_ask settles_try settles_guard settles_attempt tidy settles_publish same_desk_frame)
      (simp_all only: store_publish_failed store_publish_shop store_prepare_frame)
qed

text \<open>
  The configuration of the view is that of the stores, each of its changes has a number of its own, and the
  same holds of what is published.
\<close>

definition desk_ok :: "controller \<Rightarrow> bool" where
  "desk_ok s \<longleftrightarrow> im_wf (c_jobs s) \<and> av_desired (c_view s) = config_desired (c_store s) \<and> announced s"

definition numbered :: "controller \<Rightarrow> controller \<Rightarrow> bool" where
  "numbered s s' \<longleftrightarrow> (desk_ok s \<longrightarrow> desk_ok s' \<and> later (shown (c_view s)) (shown (c_view s')) \<and>
     later (shown (c_snapshot s)) (shown (c_snapshot s')))"

lemma numbered_settles:
  assumes "settles s s'" "im_wf (c_jobs s) \<Longrightarrow> im_wf (c_jobs s')"
  shows "numbered s s'"
proof -
  have "later (shown (c_view s)) (shown (c_view s'))"
    using assms(1) later_next [of "shown (c_view s)" "av_desired (c_view s')"]
    by (auto simp: settles_def same_desk_def shown_def)
  then show ?thesis
    using assms by (auto simp: numbered_def desk_ok_def settles_def same_desk_def announces_def shown_def)
qed

lemma numbered_same: "same_desk s s' \<Longrightarrow> (im_wf (c_jobs s) \<Longrightarrow> im_wf (c_jobs s')) \<Longrightarrow> numbered s s'"
  by (rule numbered_settles [OF settles_same])

interpretation wf_step: stepwise_run "\<lambda>s s'. im_wf (c_jobs s) \<longrightarrow> im_wf (c_jobs s')"
  by unfold_locales (auto simp: core_simps answered_def job_started_def job_released_def)

lemma wf_along: "along (\<lambda>s s'. im_wf (c_jobs s) \<longrightarrow> im_wf (c_jobs s')) m \<Longrightarrow> im_wf (c_jobs s) \<Longrightarrow> im_wf (c_jobs (snd (m s)))"
  by (simp add: along_def)

interpretation number_step: active_run numbered
proof unfold_locales
  show "numbered s s" for s by (simp add: numbered_def)
  show "numbered s t \<Longrightarrow> numbered t u \<Longrightarrow> numbered s u" for s t u
    unfolding numbered_def by (blast intro: later_trans)
  show "\<not> im_wf (c_jobs s) \<Longrightarrow> numbered s s'" for s s' by (simp add: numbered_def desk_ok_def)
  show "along numbered (commit_sources srcs)" for srcs
    by (intro alongI numbered_settles settles_commit_sources wf_along [OF wf_step.run_commit_sources])
  show "along numbered (commit_matrix matrix)" for matrix
    by (intro alongI numbered_settles settles_commit_matrix wf_along [OF wf_step.run_commit_matrix])
  show "along numbered (commit_mixes ms)" for ms
    by (intro alongI numbered_settles settles_commit_mixes wf_along [OF wf_step.run_commit_mixes])
  show "along numbered (commit_scenes saved)" for saved
    by (intro alongI numbered_settles settles_commit_scenes wf_along [OF wf_step.run_commit_scenes])
  show "along numbered (remove_source source)" for source
    by (intro alongI numbered_settles settles_remove_source wf_along [OF wf_step.run_remove_source])
  show "along numbered (remove_mix m)" for m
    by (intro alongI numbered_settles settles_remove_mix wf_along [OF wf_step.run_remove_mix])
  show "numbered s (s\<lparr>c_view := (c_view s)\<lparr>av_revision := saturating_add (av_revision (c_view s)) 1,
       av_desired := config_desired (c_store s)\<rparr>, c_dirty := True\<rparr>)" for s
    by (rule numbered_settles) (simp_all add: settles_def announces_next shown_def)
  show "numbered s (s\<lparr>c_snapshot := v, c_dirty := False\<rparr>)" if "shown v = shown (c_view s)" for s v
    using that by (simp add: numbered_def desk_ok_def announced_def)
  show "calm s s' \<Longrightarrow> numbered s s'" for s s'
    by (rule numbered_same) (simp_all add: core_simps same_desk_def announces_calm)
qed (rule numbered_same; simp add: same_desk_def announces_calm answered_def job_started_def job_released_def config_desired_def)+

interpretation number_freezing: freezing_run numbered
  by unfold_locales (rule numbered_same; simp add: same_desk_def announces_calm)+

interpretation number_life: full_run numbered
  by unfold_locales (rule numbered_same; simp add: same_desk_def announces_calm)

lemma numbered_frames:
  "accepts numbered" "numbered s (s\<lparr>c_admission := adm\<rparr>)" "numbered s (s\<lparr>c_events := es\<rparr>)"
  by (simp_all add: accepts_def numbered_def desk_ok_def announced_def)

lemma system_numbered: "numbered (start_blank w) (fst (system_run w inputs))"
  by (rule number_life.run_system) (rule numbered_frames)+

lemma start_desk: "desk_ok (start_blank w)"
  by (simp add: start_blank_def controller_blank_def desk_ok_def announced_def later_def shown_def app_snapshot_default_def
      split: prod.split)

lemma system_desk: "desk_ok (fst (system_run w inputs))"
  using system_numbered [of w inputs] start_desk [of w] by (simp add: numbered_def)

lemma system_later: "numbered (fst (system_run w inputs)) (fst (system_run w (inputs @ further)))"
  unfolding system_run_def fold_append comp_apply
  by (rule number_step.system_evolves [OF number_life.run_turn]) (rule numbered_frames)+

text \<open>A turn of the loop that takes no command ends with the publication.\<close>

lemma turn_publishes: "\<not> c_dirty (snd (turn events elapsed None s))"
  by (simp add: turn_def bnd_app publish_core)

lemma quiet_turn_clean:
  assumes "\<not> c_stopped (fst (system_run w inputs))"
  shows "\<not> c_dirty (fst (system_run w (inputs @ [LoopTurn events elapsed False])))"
proof -
  obtain s channel where run: "system_run w inputs = (s, channel)" by (cases "system_run w inputs")
  have "system_run w (inputs @ [LoopTurn events elapsed False]) = loop_turn events elapsed False (system_run w inputs)"
    by (simp add: system_run_def system_turn_def)
  then show ?thesis
    using assms turn_publishes by (simp add: run loop_turn_def split: list.split)
qed

text \<open>
  C23. The snapshot that clients read shows the configuration of the stores, and its number identifies it. After
  every turn of the running loop that takes no command the published snapshot shows what the stores hold;
  between any two moments of a run the published number never decreases, and if it is the same (and
  short of the largest there is) then the published configuration is the same.
\<close>

theorem revisions_identify_configurations:
  "let s = fst (system_run w inputs);
       quiet = fst (system_run w (inputs @ [LoopTurn events elapsed False]));
       s' = fst (system_run w (inputs @ further)) in
   (c_stopped s \<or> av_desired (c_snapshot quiet) = config_desired (c_store quiet) \<and>
      av_revision (c_snapshot quiet) = av_revision (c_view quiet)) \<and>
   av_desired (c_view s') = config_desired (c_store s') \<and>
   av_revision (c_snapshot s) \<le> av_revision (c_snapshot s') \<and>
   (av_revision (c_snapshot s) < av_revision (c_snapshot s') \<or> av_revision (c_snapshot s) = - 1 \<or>
    av_desired (c_snapshot s') = av_desired (c_snapshot s))"
proof -
  let ?s = "fst (system_run w inputs)" and ?s' = "fst (system_run w (inputs @ further))"
  let ?q = "fst (system_run w (inputs @ [LoopTurn events elapsed False]))"
  have "c_stopped ?s \<or> shown (c_snapshot ?q) = shown (c_view ?q)"
    using system_desk [of w "inputs @ [LoopTurn events elapsed False]"] quiet_turn_clean [of w inputs events elapsed]
    by (auto simp: desk_ok_def announced_def)
  moreover have "av_desired (c_view ?q) = config_desired (c_store ?q)" "av_desired (c_view ?s') = config_desired (c_store ?s')"
    using system_desk [of w "inputs @ [LoopTurn events elapsed False]"] system_desk [of w "inputs @ further"]
    by (simp_all add: desk_ok_def)
  moreover have "later (shown (c_snapshot ?s)) (shown (c_snapshot ?s'))"
    using system_later [of w inputs further] system_desk [of w inputs] by (simp add: numbered_def)
  from later_cases [OF this] have "av_revision (c_snapshot ?s) \<le> av_revision (c_snapshot ?s')"
    "av_revision (c_snapshot ?s) < av_revision (c_snapshot ?s') \<or> av_revision (c_snapshot ?s) = - 1 \<or>
     av_desired (c_snapshot ?s') = av_desired (c_snapshot ?s)"
    by (simp_all add: shown_def)
  ultimately show ?thesis
    unfolding Let_def by (simp add: shown_def) blast
qed

end
