(* ===== verification/Equality.thy ===== *)
theory Equality
  imports Store
begin

text \<open>
  \<^verbatim>\<open>PartialEq\<close> as the derives generate it: maps compare without regard to the order of their entries, and
  floating-point numbers as numbers, so that two zeros are equal and a NaN is not equal to itself.
\<close>

definition map_same :: "('v \<Rightarrow> 'v \<Rightarrow> bool) \<Rightarrow> ('k, 'v) imap \<Rightarrow> ('k, 'v) imap \<Rightarrow> bool" where
  "map_same same m n \<longleftrightarrow> length m = length n \<and>
     list_all (\<lambda>(k, v). case im_get n k of None \<Rightarrow> False | Some w \<Rightarrow> same v w) m"

definition option_same :: "('v \<Rightarrow> 'v \<Rightarrow> bool) \<Rightarrow> 'v option \<Rightarrow> 'v option \<Rightarrow> bool" where
  "option_same same a b \<longleftrightarrow> (case (a, b) of (None, None) \<Rightarrow> True | (Some x, Some y) \<Rightarrow> same x y | _ \<Rightarrow> False)"

fun number_same :: "jnumber \<Rightarrow> jnumber \<Rightarrow> bool" where
  "number_same (PosInt a) (PosInt b) = (a = b)"
| "number_same (NegInt a) (NegInt b) = (a = b)"
| "number_same (JFloat a) (JFloat b) = f64_eq a b"
| "number_same _ _ = False"

function json_same :: "json \<Rightarrow> json \<Rightarrow> bool" where
  "json_same JNull w = (w = JNull)"
| "json_same (JBool b) w = (w = JBool b)"
| "json_same (JNumber n) w = (case w of JNumber k \<Rightarrow> number_same n k | _ \<Rightarrow> False)"
| "json_same (JString s) w = (w = JString s)"
| "json_same (JArray vs) w = (case w of
      JArray ws \<Rightarrow> length vs = length ws \<and> list_all (\<lambda>i. json_same (vs ! i) (ws ! i)) [0..<length vs]
    | _ \<Rightarrow> False)"
| "json_same (JObject m) w = (case w of
      JObject n \<Rightarrow> length m = length n \<and>
        list_all (\<lambda>(k, v). case im_get n k of None \<Rightarrow> False | Some x \<Rightarrow> json_same v x) m
    | _ \<Rightarrow> False)"
  by pat_completeness auto

termination
  by (relation "measure (\<lambda>(v, w). size v)") (auto simp: less_Suc_eq_le intro: size_list_estimation' [OF nth_mem] size_list_estimation')

definition extra_same :: "jmap \<Rightarrow> jmap \<Rightarrow> bool" where
  "extra_same m n \<longleftrightarrow> map_same json_same m n"

definition fx_same :: "fx_settings \<Rightarrow> fx_settings \<Rightarrow> bool" where
  "fx_same a b \<longleftrightarrow> fx_lowcut a = fx_lowcut b \<and> fx_gate a = fx_gate b \<and> f64_eq (fx_gate_thresh a) (fx_gate_thresh b) \<and>
     fx_comp a = fx_comp b \<and> f64_eq (fx_comp_thresh a) (fx_comp_thresh b) \<and> f64_eq (fx_comp_ratio a) (fx_comp_ratio b) \<and>
     f64_eq (fx_eq_low a) (fx_eq_low b) \<and> f64_eq (fx_eq_mid a) (fx_eq_mid b) \<and> f64_eq (fx_eq_high a) (fx_eq_high b) \<and>
     f64_eq (fx_delay_ms a) (fx_delay_ms b) \<and> fx_mono a = fx_mono b"

definition source_same :: "source \<Rightarrow> source \<Rightarrow> bool" where
  "source_same a b \<longleftrightarrow> src_id a = src_id b \<and> src_kind a = src_kind b \<and> src_name a = src_name b \<and>
     src_icon_name a = src_icon_name b \<and> match_app_names a = match_app_names b \<and> src_node_name a = src_node_name b \<and>
     f64_eq (src_level a) (src_level b) \<and> src_muted a = src_muted b \<and> src_protected a = src_protected b \<and>
     src_group a = src_group b \<and> option_same fx_same (src_fx a) (src_fx b) \<and> extra_same (src_extra a) (src_extra b)"

definition mix_same :: "mix \<Rightarrow> mix \<Rightarrow> bool" where
  "mix_same a b \<longleftrightarrow> mix_id a = mix_id b \<and> mix_name a = mix_name b \<and> mix_description a = mix_description b \<and>
     mix_subtitle a = mix_subtitle b \<and> mix_icon_name a = mix_icon_name b \<and> mix_sink a = mix_sink b \<and>
     extra_same (mix_extra a) (mix_extra b)"

definition level_same :: "level_state \<Rightarrow> level_state \<Rightarrow> bool" where
  "level_same a b \<longleftrightarrow> f64_eq (lv_volume a) (lv_volume b) \<and> lv_muted a = lv_muted b \<and> extra_same (lv_extra a) (lv_extra b)"

definition level_patch_same :: "level_patch \<Rightarrow> level_patch \<Rightarrow> bool" where
  "level_patch_same a b \<longleftrightarrow> option_same f64_eq (lp_volume a) (lp_volume b) \<and> lp_muted a = lp_muted b"

definition source_patch_same :: "source_patch \<Rightarrow> source_patch \<Rightarrow> bool" where
  "source_patch_same a b \<longleftrightarrow> option_same f64_eq (sp_level a) (sp_level b) \<and> sp_muted a = sp_muted b"

definition hardware_patch_same :: "hardware_patch \<Rightarrow> hardware_patch \<Rightarrow> bool" where
  "hardware_patch_same a b \<longleftrightarrow> hwp_gain_raw a = hwp_gain_raw b \<and> hwp_mute a = hwp_mute b \<and>
     option_same f64_eq (hwp_volume_db a) (hwp_volume_db b) \<and> hwp_low_impedance a = hwp_low_impedance b \<and>
     hwp_monitor_mix a = hwp_monitor_mix b"

definition scene_same :: "scene \<Rightarrow> scene \<Rightarrow> bool" where
  "scene_same a b \<longleftrightarrow> sc_name a = sc_name b \<and>
     option_same (map_same source_patch_same) (sc_sources a) (sc_sources b) \<and>
     option_same (map_same level_patch_same) (sc_cells a) (sc_cells b) \<and>
     option_same (map_same (=)) (sc_outputs a) (sc_outputs b) \<and>
     option_same (map_same level_patch_same) (sc_volumes a) (sc_volumes b) \<and>
     option_same (map_same hardware_patch_same) (sc_hardware a) (sc_hardware b)"

definition mixes_same :: "mixes \<Rightarrow> mixes \<Rightarrow> bool" where
  "mixes_same m n \<longleftrightarrow> map_same mix_same m n"

definition scenes_same :: "scene_store \<Rightarrow> scene_store \<Rightarrow> bool" where
  "scenes_same m n \<longleftrightarrow> map_same scene_same m n"

end
