(* ===== verification/Graph.thy ===== *)
theory Graph
  imports Snapshot Fx_Graph Commit
begin

text \<open>
  The observation of the sound server in \<^verbatim>\<open>crates/openwave-runtime/src/mixer.rs\<close>: \<^verbatim>\<open>GraphSnapshot::parse\<close> reads the
  dump of the PipeWire objects and the four listings of the Pulse server into one graph, or refuses
  the observation as a whole. Names need not be unique, identities are; the two tables of the graph
  are indices into its list of nodes. The text of a floating-point number is serde\_json's printer
  of doubles and the parameter \<open>fl\<close>; everything else of a number's text is written out.
\<close>

definition wave_name :: "string \<Rightarrow> bool" where
  "wave_name name \<longleftrightarrow> split_once_str ''Elgato_Wave_'' name \<noteq> None \<or> split_once_str ''Elgato_XLR_Dock'' name \<noteq> None"

definition number_text :: "(f64 \<Rightarrow> string) \<Rightarrow> jnumber \<Rightarrow> string" where
  "number_text fl n = (case n of
       PosInt w \<Rightarrow> show_nat (unat w)
     | NegInt i \<Rightarrow> (if i < 0 then ''-'' @ show_nat (nat (- i)) else show_nat (nat i))
     | JFloat x \<Rightarrow> fl x)"

definition json_text :: "(f64 \<Rightarrow> string) \<Rightarrow> json option \<Rightarrow> string option" where
  "json_text fl v = (case v of
       Some (JString s) \<Rightarrow> Some s
     | Some (JNumber n) \<Rightarrow> Some (number_text fl n)
     | _ \<Rightarrow> None)"

text \<open>\<^verbatim>\<open>u32::try_from\<close>\<close>

definition u32_of_u64 :: "u64 \<Rightarrow> u32 option" where
  "u32_of_u64 w = (if unat w < 2 ^ 32 then Some (ucast w) else None)"

definition json_number :: "json option \<Rightarrow> u32 option" where
  "json_number v = Option.bind v (\<lambda>v.
     or_else (Option.bind (as_u64 v) u32_of_u64) (Option.bind (as_str v) parse_u32))"

definition required_number :: "json option \<Rightarrow> string \<Rightarrow> u32 res" where
  "required_number v label = ok_or (error_unavailable (''Malformed graph: missing '' @ label)) (json_number v)"

definition required_text :: "(f64 \<Rightarrow> string) \<Rightarrow> json option \<Rightarrow> string \<Rightarrow> string res" where
  "required_text fl v label = ok_or (error_unavailable (''Malformed graph: missing '' @ label))
     (case json_text fl v of None \<Rightarrow> None | Some s \<Rightarrow> if s = [] then None else Some s)"

subsection \<open>The graph\<close>

record mixer_node =
  nd_id :: u32
  nd_identity :: node_identity
  nd_name :: string
  nd_properties :: jmap
  nd_muted :: "bool option"

record mixer_port =
  po_id :: u32
  po_node :: u32
  po_output :: bool
  po_channel :: string

record mixer_sink =
  sk_node :: u32
  sk_pulse_index :: u32
  sk_level :: f64
  sk_muted :: bool

record mixer_graph =
  mg_cookie :: u32
  mg_nodes :: "mixer_node list"
  mg_ports :: "mixer_port list"
  mg_links :: "(u32 \<times> u32) list"
  mg_sinks :: "(string, mixer_sink) imap"
  mg_captures :: "capture_snapshot list"
  mg_streams :: "stream_snapshot list"
  mg_outputs :: "output_snapshot list"
  mg_default_sink :: "string option"
  mg_names :: "(string, nat list) imap"
  mg_identities :: "(node_identity, nat) imap"

definition nth_node :: "mixer_graph \<Rightarrow> nat \<Rightarrow> mixer_node option" where
  "nth_node g i = (if i < length (mg_nodes g) then Some (mg_nodes g ! i) else None)"

definition graph_named :: "mixer_graph \<Rightarrow> string \<Rightarrow> mixer_node option" where
  "graph_named g name = Option.bind (im_get (mg_names g) name) (\<lambda>entries.
     if length entries = 1 then nth_node g (entries ! 0) else None)"

definition graph_identity :: "mixer_graph \<Rightarrow> node_identity \<Rightarrow> mixer_node option" where
  "graph_identity g ident = Option.bind (im_get (mg_identities g) ident) (nth_node g)"

definition str_property :: "mixer_node \<Rightarrow> string \<Rightarrow> string option" where
  "str_property node key = Option.bind (im_get (nd_properties node) key) as_str"

definition graph_owned :: "mixer_graph \<Rightarrow> string \<Rightarrow> string \<Rightarrow> mixer_node option" where
  "graph_owned g name own = (case graph_named g name of None \<Rightarrow> None
     | Some node \<Rightarrow> if str_property node ''openwave.owner'' = Some own then Some node else None)"

subsection \<open>PipeWire objects\<close>

definition array_of :: "json \<Rightarrow> json list res" where
  "array_of v = ok_or (error_unavailable ''Expected Pulse graph array'') (as_array v)"

definition json_type :: "json \<Rightarrow> string option" where
  "json_type v = Option.bind (jget v ''type'') as_str"

definition core_cookie :: "json \<Rightarrow> u32 res" where
  "core_cookie objects =
     rbind (ok_or (error_unavailable ''pw-dump did not return an array'') (as_array objects)) (\<lambda>objects.
     let cores = filter (\<lambda>v. json_type v = Some ''PipeWire:Interface:Core'') objects in
     rbind (required_number (case cores of [] \<Rightarrow> None | v # _ \<Rightarrow> Option.bind (jget v ''info'') (\<lambda>i. jget i ''cookie''))
       ''Core cookie'') (\<lambda>cookie.
     rbind (ensure (length cores \<le> 1) (identity_error ''Multiple PipeWire Core identities'')) (\<lambda>_. Inr cookie)))"

text \<open>What the loop over the objects collects; \<^verbatim>\<open>typ.rsplit(':').next()\<close> is the part after the last colon.\<close>

record object_scan =
  sc_graph :: mixer_graph
  sc_devices :: "(u32, jmap) imap"
  sc_ids :: "u32 list"

definition last_segment :: "string \<Rightarrow> string" where
  "last_segment s = (case rsplit_once (CHR '':'') s of None \<Rightarrow> s | Some (_, b) \<Rightarrow> b)"

definition node_mute :: "jmap \<Rightarrow> bool option" where
  "node_mute info = Option.bind (Option.bind (im_get info ''params'') (\<lambda>p. jget p ''Props'')) (\<lambda>props.
     case as_array props of
       Some [p] \<Rightarrow> Option.bind (jget p ''mute'') as_bool
     | _ \<Rightarrow> None)"

definition add_node :: "(f64 \<Rightarrow> string) \<Rightarrow> u32 \<Rightarrow> jmap \<Rightarrow> jmap \<Rightarrow> mixer_graph \<Rightarrow> mixer_graph res" where
  "add_node fl i info props g =
     rbind (required_text fl (im_get props ''node.name'') ''node.name'') (\<lambda>name.
     let ident = \<lparr>server_cookie = mg_cookie g, object_serial =
           (case json_text fl (im_get props ''object.serial'') of None \<Rightarrow> show_nat (unat i) | Some s \<Rightarrow> s)\<rparr>;
         n = length (mg_nodes g)
     in rbind (ensure (\<not> im_contains (mg_identities g) ident) (identity_error ''Duplicate node runtime identity'')) (\<lambda>_.
        Inr (g\<lparr>mg_identities := im_insert (mg_identities g) ident n,
               mg_names := im_upsert (mg_names g) name [] (\<lambda>entries. entries @ [n]),
               mg_nodes := mg_nodes g @ [\<lparr>nd_id = i, nd_identity = ident, nd_name = name, nd_properties = props,
                 nd_muted = node_mute info\<rparr>]\<rparr>)))"

definition add_port :: "(f64 \<Rightarrow> string) \<Rightarrow> u32 \<Rightarrow> jmap \<Rightarrow> mixer_graph \<Rightarrow> mixer_graph res" where
  "add_port fl i props g =
     rbind (required_text fl (im_get props ''port.direction'') ''port.direction'') (\<lambda>direction.
     rbind (ensure (direction = ''in'' \<or> direction = ''out'') (error_unavailable ''Invalid port direction'')) (\<lambda>_.
     rbind (required_number (im_get props ''node.id'') ''port node'') (\<lambda>node.
       Inr (g\<lparr>mg_ports := mg_ports g @ [\<lparr>po_id = i, po_node = node, po_output = (direction = ''out''),
         po_channel = (case json_text fl (im_get props ''audio.channel'') of None \<Rightarrow> [] | Some s \<Rightarrow> s)\<rparr>]\<rparr>))))"

definition add_link :: "jmap \<Rightarrow> mixer_graph \<Rightarrow> mixer_graph res" where
  "add_link info g =
     rbind (required_number (im_get info ''output-port-id'') ''output port'') (\<lambda>a.
     rbind (required_number (im_get info ''input-port-id'') ''input port'') (\<lambda>b.
       Inr (g\<lparr>mg_links := List.insert (a, b) (mg_links g)\<rparr>)))"

definition scan_relevant :: "(f64 \<Rightarrow> string) \<Rightarrow> u32 \<Rightarrow> string \<Rightarrow> json \<Rightarrow> object_scan \<Rightarrow> object_scan res" where
  "scan_relevant fl i ty v st =
     rbind (ok_or (error_unavailable ''Missing graph object info'') (Option.bind (jget v ''info'') as_object)) (\<lambda>info.
     if ends_with '':Link'' ty then rbind (add_link info (sc_graph st)) (\<lambda>g. Inr (st\<lparr>sc_graph := g\<rparr>))
     else
       rbind (ok_or (error_unavailable ''Missing graph properties'') (Option.bind (im_get info ''props'') as_object)) (\<lambda>props.
       if ends_with '':Device'' ty then Inr (st\<lparr>sc_devices := im_insert (sc_devices st) i props\<rparr>)
       else if ends_with '':Node'' ty then rbind (add_node fl i info props (sc_graph st)) (\<lambda>g. Inr (st\<lparr>sc_graph := g\<rparr>))
       else rbind (add_port fl i props (sc_graph st)) (\<lambda>g. Inr (st\<lparr>sc_graph := g\<rparr>))))"

definition scan_object :: "(f64 \<Rightarrow> string) \<Rightarrow> object_scan \<Rightarrow> json \<Rightarrow> object_scan res" where
  "scan_object fl st v =
     rbind (required_number (jget v ''id'') ''object id'') (\<lambda>i.
     rbind (ensure (i \<notin> set (sc_ids st)) (identity_error ''Duplicate PipeWire object id'')) (\<lambda>_.
     rbind (required_text fl (jget v ''type'') ''object type'') (\<lambda>ty.
     let st = st\<lparr>sc_ids := i # sc_ids st\<rparr> in
     if last_segment ty \<in> {''Node'', ''Port'', ''Link'', ''Device''} then scan_relevant fl i ty v st else Inr st)))"

definition graph_complete :: "mixer_graph \<Rightarrow> unit res" where
  "graph_complete g =
     (let node_ids = map nd_id (mg_nodes g); port_ids = map po_id (mg_ports g) in
      rbind (ensure (list_all (\<lambda>p. po_node p \<in> set node_ids) (mg_ports g)) (error_unavailable ''Partial graph: port has no node'')) (\<lambda>_.
      ensure (list_all (\<lambda>(a, b). a \<in> set port_ids \<and> b \<in> set port_ids) (mg_links g))
        (error_unavailable ''Partial graph: link has no port'')))"

subsection \<open>Pulse sinks\<close>

definition pulse_serial :: "(f64 \<Rightarrow> string) \<Rightarrow> json \<Rightarrow> string option" where
  "pulse_serial fl v = json_text fl (Option.bind (jget v ''properties'') (\<lambda>p. jget p ''object.serial''))"

definition check_pulse_identity :: "(f64 \<Rightarrow> string) \<Rightarrow> json \<Rightarrow> mixer_node \<Rightarrow> unit res" where
  "check_pulse_identity fl v node = ensure
     (case pulse_serial fl v of None \<Rightarrow> True | Some serial \<Rightarrow> serial = object_serial (nd_identity node))
     (identity_error ''Pulse/PipeWire generation mismatch'')"

text \<open>The loudest channel, on the scale of the saved levels.\<close>

definition channel_level :: "f64 \<Rightarrow> json \<Rightarrow> f64 res" where
  "channel_level level entry =
     rbind (required_number (jget entry ''value'') ''channel volume'') (\<lambda>v.
       Inr (f64_max level (f64_div (f64_of_int (uint v)) (f64_of_int 65536))))"

definition sink_level :: "json \<Rightarrow> f64 res" where
  "sink_level sink =
     rbind (ok_or (error_unavailable ''Missing sink volume'')
       (case Option.bind (jget sink ''volume'') as_object of None \<Rightarrow> None | Some m \<Rightarrow> if m = [] then None else Some m)) (\<lambda>volumes.
     rbind (res_foldM channel_level (FFin False 0) (im_values volumes)) (\<lambda>level.
     rbind (ensure (f64_finite level) (error_unavailable ''Invalid sink volume'')) (\<lambda>_. Inr level)))"

definition sink_output :: "(f64 \<Rightarrow> string) \<Rightarrow> json \<Rightarrow> string \<Rightarrow> mixer_node \<Rightarrow> output_snapshot" where
  "sink_output fl sink name node = \<lparr>
     os_identity = nd_identity node, os_node_id = nd_id node, os_node_name = name,
     os_name = (case json_text fl (jget sink ''description'') of None \<Rightarrow> name | Some s \<Rightarrow> s),
     os_priority = (case Option.bind (json_text fl (im_get (nd_properties node) ''priority.session''))
         (parse_signed (- (2 ^ 63)) (2 ^ 63 - 1)) of None \<Rightarrow> 0 | Some p \<Rightarrow> p),
     os_is_wave = wave_name name, os_properties = nd_properties node\<rparr>"

definition add_sink ::
  "(f64 \<Rightarrow> string) \<Rightarrow> (u32, string) imap \<times> mixer_graph \<Rightarrow> json \<Rightarrow> ((u32, string) imap \<times> mixer_graph) res" where
  "add_sink fl st sink = (case st of (indices, g) \<Rightarrow>
     rbind (required_text fl (jget sink ''name'') ''sink name'') (\<lambda>name.
     rbind (ok_or (error_unavailable (''Partial or ambiguous sink '' @ name)) (graph_named g name)) (\<lambda>node.
     rbind (check_pulse_identity fl sink node) (\<lambda>_.
     rbind (required_number (jget sink ''index'') ''sink index'') (\<lambda>index.
     rbind (sink_level sink) (\<lambda>level.
     rbind (ok_or (error_unavailable ''Missing sink mute'') (Option.bind (jget sink ''mute'') as_bool)) (\<lambda>muted.
     rbind (ensure (\<not> im_contains indices index \<and> \<not> im_contains (mg_sinks g) name)
       (identity_error ''Duplicate Pulse sink identity'')) (\<lambda>_.
       Inr (im_insert indices index name,
         g\<lparr>mg_sinks := im_insert (mg_sinks g) name \<lparr>sk_node = nd_id node, sk_pulse_index = index,
             sk_level = f64_clamp (FFin False 0) (FFin False 1) level, sk_muted = muted\<rparr>,
           mg_outputs := (if starts_with ''openwave_'' name then mg_outputs g
             else mg_outputs g @ [sink_output fl sink name node])\<rparr>)))))))))"

subsection \<open>Streams and captures\<close>

definition add_input :: "(f64 \<Rightarrow> string) \<Rightarrow> (string, json) imap \<Rightarrow> json \<Rightarrow> (string, json) imap res" where
  "add_input fl inputs v =
     rbind (required_text fl (Option.bind (jget v ''properties'') (\<lambda>p. jget p ''object.serial'')) ''sink input object.serial'') (\<lambda>serial.
     rbind (ensure (\<not> im_contains inputs serial) (identity_error ''Duplicate Pulse stream serial'')) (\<lambda>_.
       Inr (im_insert inputs serial v)))"

definition add_source_mute ::
  "(f64 \<Rightarrow> string) \<Rightarrow> (string, bool \<times> json) imap \<Rightarrow> json \<Rightarrow> (string, bool \<times> json) imap res" where
  "add_source_mute fl mutes v =
     rbind (required_text fl (jget v ''name'') ''source name'') (\<lambda>name.
     rbind (ok_or (error_unavailable ''Missing capture mute'') (Option.bind (jget v ''mute'') as_bool)) (\<lambda>muted.
     rbind (ensure (\<not> im_contains mutes name) (identity_error ''Duplicate Pulse capture name'')) (\<lambda>_.
       Inr (im_insert mutes name (muted, v)))))"

text \<open>\<^verbatim>\<open>option.map(f).transpose()?\<close>\<close>

definition transposed :: "('a \<Rightarrow> 'b res) \<Rightarrow> 'a option \<Rightarrow> 'b option res" where
  "transposed f v = (case v of None \<Rightarrow> Inr None | Some x \<Rightarrow> rbind (f x) (\<lambda>y. Inr (Some y)))"

definition stream_destination :: "(u32, string) imap \<Rightarrow> json \<Rightarrow> string res" where
  "stream_destination indices pulse =
     rbind (required_number (jget pulse ''sink'') ''stream destination'') (\<lambda>index.
       ok_or (error_unavailable ''Partial graph: stream destination absent'') (im_get indices index))"

definition node_stream ::
  "(f64 \<Rightarrow> string) \<Rightarrow> (u32, string) imap \<Rightarrow> (string, json) imap \<Rightarrow> mixer_node \<Rightarrow> stream_snapshot res" where
  "node_stream fl indices inputs node =
     (let pulse = im_get inputs (object_serial (nd_identity node)); props = nd_properties node in
      rbind (transposed (\<lambda>p. required_number (jget p ''index'') ''sink input index'') pulse) (\<lambda>pulse_index.
      rbind (transposed (stream_destination indices) pulse) (\<lambda>sink.
        Inr \<lparr>st_identity = nd_identity node, st_node_id = nd_id node, st_node_name = nd_name node,
             st_app_name = (case json_text fl (im_get props ''application.name'') of
                None \<Rightarrow> nd_name node | Some s \<Rightarrow> if s = [] then nd_name node else s),
             st_binary = (case json_text fl (im_get props ''application.process.binary'') of None \<Rightarrow> [] | Some s \<Rightarrow> s),
             st_sink = sink, st_pulse_index = pulse_index\<rparr>)))"

text \<open>The properties of the device, except those that describe the node, and over them those of the node.\<close>

definition capture_properties :: "(u32, jmap) imap \<Rightarrow> jmap \<Rightarrow> jmap" where
  "capture_properties devices props =
     (let device = (case Option.bind (json_number (im_get props ''device.id'')) (im_get devices) of None \<Rightarrow> [] | Some m \<Rightarrow> m)
      in foldl (\<lambda>m (k, v). im_insert m k v)
           (foldl im_swap_remove device
             [''object.serial'', ''object.id'', ''node.name'', ''audio.channels'', ''audio.position'', ''media.class''])
           props)"

definition node_capture ::
  "(f64 \<Rightarrow> string) \<Rightarrow> (u32, jmap) imap \<Rightarrow> (string, bool \<times> json) imap \<Rightarrow> mixer_node \<Rightarrow> capture_snapshot res" where
  "node_capture fl devices mutes node =
     (let props = nd_properties node in
      rbind (transposed (\<lambda>v. required_number (Some v) ''capture channels'') (im_get props ''audio.channels'')) (\<lambda>channels.
      rbind (case im_get mutes (nd_name node) of
          None \<Rightarrow> Inr (Unknown (error_unavailable ''Capture mute observation unavailable''))
        | Some (muted, pulse) \<Rightarrow> rbind (check_pulse_identity fl pulse node) (\<lambda>_. Inr (Known muted))) (\<lambda>muted.
        Inr \<lparr>cap_identity = nd_identity node, cap_node_id = nd_id node, cap_node_name = nd_name node,
             cap_name = (case json_text fl (im_get props ''node.description'') of None \<Rightarrow> nd_name node | Some s \<Rightarrow> s),
             cap_muted = muted, cap_channels = channels, cap_properties = capture_properties devices props\<rparr>)))"

definition node_class :: "mixer_node \<Rightarrow> string" where
  "node_class node = (case str_property node ''media.class'' of None \<Rightarrow> [] | Some c \<Rightarrow> c)"

definition classify_node ::
  "(f64 \<Rightarrow> string) \<Rightarrow> (u32, string) imap \<Rightarrow> (string, json) imap \<Rightarrow> (u32, jmap) imap \<Rightarrow> (string, bool \<times> json) imap \<Rightarrow>
   mixer_graph \<Rightarrow> mixer_node \<Rightarrow> mixer_graph res" where
  "classify_node fl indices inputs devices mutes g node =
     (if starts_with ''openwave_'' (nd_name node) then Inr g
      else if node_class node = ''Stream/Output/Audio''
      then rbind (node_stream fl indices inputs node) (\<lambda>s. Inr (g\<lparr>mg_streams := mg_streams g @ [s]\<rparr>))
      else if node_class node = ''Audio/Source'' \<and> \<not> ends_with ''.monitor'' (nd_name node)
      then rbind (node_capture fl devices mutes node) (\<lambda>c. Inr (g\<lparr>mg_captures := mg_captures g @ [c]\<rparr>))
      else Inr g)"

text \<open>\<^verbatim>\<open>sort_by\<close> is stable: sorting by the second key first gives the order by both.\<close>

definition sorted_graph :: "mixer_graph \<Rightarrow> mixer_graph" where
  "sorted_graph g = g\<lparr>mg_ports := sort_key po_id (mg_ports g),
     mg_outputs := sort_key (\<lambda>o'. - os_priority o') (sort_key os_node_name (mg_outputs g)),
     mg_captures := sort_key cap_node_name (sort_key cap_node_id (mg_captures g))\<rparr>"

definition empty_graph :: "u32 \<Rightarrow> string option \<Rightarrow> mixer_graph" where
  "empty_graph cookie default_sink = \<lparr>mg_cookie = cookie, mg_nodes = [], mg_ports = [], mg_links = [], mg_sinks = [],
     mg_captures = [], mg_streams = [], mg_outputs = [], mg_default_sink = default_sink, mg_names = [], mg_identities = []\<rparr>"

definition parse_graph ::
  "(f64 \<Rightarrow> string) \<Rightarrow> json \<Rightarrow> json \<Rightarrow> json \<Rightarrow> json \<Rightarrow> json \<Rightarrow> string option \<Rightarrow> mixer_graph res" where
  "parse_graph fl objects sinks srcs inputs modules default_sink =
     rbind (core_cookie objects) (\<lambda>cookie.
     rbind (array_of sinks) (\<lambda>pulse_sinks.
     rbind (array_of srcs) (\<lambda>pulse_sources.
     rbind (array_of inputs) (\<lambda>pulse_inputs.
     rbind (array_of modules) (\<lambda>_.
     rbind (res_foldM (scan_object fl) \<lparr>sc_graph = empty_graph cookie default_sink, sc_devices = [], sc_ids = []\<rparr>
       (case as_array objects of None \<Rightarrow> [] | Some vs \<Rightarrow> vs)) (\<lambda>scan.
     rbind (graph_complete (sc_graph scan)) (\<lambda>_.
     rbind (res_foldM (add_sink fl) ([], sc_graph scan) pulse_sinks) (\<lambda>(indices, g).
     rbind (res_foldM (add_input fl) [] pulse_inputs) (\<lambda>by_serial.
     rbind (res_foldM (add_source_mute fl) [] pulse_sources) (\<lambda>mutes.
     rbind (res_foldM (classify_node fl indices by_serial (sc_devices scan) mutes) g (mg_nodes g)) (\<lambda>g.
       Inr (sorted_graph g))))))))))))"

subsection \<open>One observation\<close>

text \<open>
  \<^verbatim>\<open>SubprocessPipeWire::snapshot\<close> asks two servers in turn: the objects, four listings, the default sink
  if there are sinks, and the objects again. The graph counts only if no node has changed in between.
\<close>

definition later_nodes :: "(f64 \<Rightarrow> string) \<Rightarrow> json \<Rightarrow> (u32 option, string option) imap" where
  "later_nodes fl after = im_collect (map (\<lambda>v. (json_number (jget v ''id''),
       json_text fl (Option.bind (Option.bind (jget v ''info'') (\<lambda>i. jget i ''props'')) (\<lambda>p. jget p ''object.serial''))))
     (filter (\<lambda>v. json_type v = Some ''PipeWire:Interface:Node'') (case as_array after of None \<Rightarrow> [] | Some vs \<Rightarrow> vs)))"

definition unchanged_nodes :: "(f64 \<Rightarrow> string) \<Rightarrow> json \<Rightarrow> mixer_graph \<Rightarrow> bool" where
  "unchanged_nodes fl after g = list_all (\<lambda>node.
     im_get (later_nodes fl after) (Some (nd_id node)) = Some (json_text fl (im_get (nd_properties node) ''object.serial'')))
     (mg_nodes g)"

definition observed_graph ::
  "(f64 \<Rightarrow> string) \<Rightarrow> json \<Rightarrow> json \<Rightarrow> json \<Rightarrow> json \<Rightarrow> json \<Rightarrow> string option \<Rightarrow> json \<Rightarrow> mixer_graph res" where
  "observed_graph fl objects sinks srcs inputs modules default_sink after =
     rbind (core_cookie objects) (\<lambda>cookie.
     rbind (core_cookie after) (\<lambda>later.
     rbind (ensure (later = cookie) (identity_error ''PipeWire server restarted during discovery'')) (\<lambda>_.
     rbind (parse_graph fl objects sinks srcs inputs modules default_sink) (\<lambda>g.
     rbind (ensure (unchanged_nodes fl after g) (identity_error ''PipeWire nodes changed during discovery'')) (\<lambda>_.
       Inr g)))))"

subsection \<open>The tables are exact\<close>

definition places :: "mixer_node list \<Rightarrow> string \<Rightarrow> nat list" where
  "places nodes name = filter (\<lambda>i. nd_name (nodes ! i) = name) [0..<length nodes]"

definition tables_exact :: "mixer_graph \<Rightarrow> bool" where
  "tables_exact g \<longleftrightarrow>
     (\<forall>name. im_get (mg_names g) name = (if places (mg_nodes g) name = [] then None else Some (places (mg_nodes g) name))) \<and>
     (\<forall>ident i. im_get (mg_identities g) ident = Some i \<longleftrightarrow> i < length (mg_nodes g) \<and> nd_identity (mg_nodes g ! i) = ident)"

lemma places_snoc: "places (nodes @ [n]) name = places nodes name @ (if nd_name n = name then [length nodes] else [])"
proof -
  have "filter (\<lambda>i. nd_name ((nodes @ [n]) ! i) = name) [0..<length nodes] = filter (\<lambda>i. nd_name (nodes ! i) = name) [0..<length nodes]"
    by (rule filter_cong) (simp_all add: nth_append)
  then show ?thesis by (simp add: places_def)
qed

lemma places_less: "i \<in> set (places nodes name) \<Longrightarrow> i < length nodes"
  by (simp add: places_def)

lemma places_filter: "map (\<lambda>i. nodes ! i) (places nodes name) = filter (\<lambda>n. nd_name n = name) nodes"
proof (induction nodes rule: rev_induct)
  case (snoc n nodes)
  have "map (\<lambda>i. (nodes @ [n]) ! i) (places nodes name) = map (\<lambda>i. nodes ! i) (places nodes name)"
    by (rule map_cong) (auto simp: nth_append dest: places_less)
  with snoc show ?case by (simp add: places_snoc)
qed (simp add: places_def)

lemma graph_named_sole:
  assumes "tables_exact g"
  shows "graph_named g name = sole (filter (\<lambda>n. nd_name n = name) (mg_nodes g))"
proof -
  have f: "filter (\<lambda>n. nd_name n = name) (mg_nodes g) = map (\<lambda>i. mg_nodes g ! i) (places (mg_nodes g) name)"
    by (rule places_filter [symmetric])
  show ?thesis
    using assms places_less [of _ "mg_nodes g" name]
    unfolding graph_named_def sole_def f tables_exact_def
    by (auto simp: nth_node_def length_Suc_conv split: list.splits)
qed

lemma tables_exact_unique:
  assumes "tables_exact g" "i < length (mg_nodes g)" "j < length (mg_nodes g)"
    "nd_identity (mg_nodes g ! i) = nd_identity (mg_nodes g ! j)"
  shows "i = j"
  using assms unfolding tables_exact_def by (metis option.inject)

lemma tables_exact_distinct:
  assumes "tables_exact g"
  shows "distinct (map nd_identity (mg_nodes g))"
  unfolding distinct_conv_nth
proof (intro allI impI)
  fix i j
  assume "i < length (map nd_identity (mg_nodes g))" "j < length (map nd_identity (mg_nodes g))" "i \<noteq> j"
  then show "map nd_identity (mg_nodes g) ! i \<noteq> map nd_identity (mg_nodes g) ! j"
    using tables_exact_unique [OF assms, of i j] by (metis length_map nth_map)
qed

lemma graph_identity_find:
  assumes "tables_exact g"
  shows "graph_identity g ident = List.find (\<lambda>n. nd_identity n = ident) (mg_nodes g)"
proof (cases "im_get (mg_identities g) ident")
  case None
  have "nd_identity n \<noteq> ident" if mem: "n \<in> set (mg_nodes g)" for n
  proof -
    obtain i where "i < length (mg_nodes g)" "n = mg_nodes g ! i" using mem by (auto simp: in_set_conv_nth)
    with assms None show ?thesis unfolding tables_exact_def by (metis option.distinct(1))
  qed
  with None show ?thesis by (simp add: graph_identity_def find_None_iff2)
next
  case (Some i)
  then have i: "i < length (mg_nodes g)" "nd_identity (mg_nodes g ! i) = ident"
    using assms by (auto simp: tables_exact_def)
  moreover have "nd_identity (mg_nodes g ! j) \<noteq> ident" if "j < i" for j
    using tables_exact_unique [OF assms, of j i] i that by auto
  ultimately have "List.find (\<lambda>n. nd_identity n = ident) (mg_nodes g) = Some (mg_nodes g ! i)"
    unfolding find_Some_iff by blast
  then show ?thesis using Some i by (simp add: graph_identity_def nth_node_def)
qed

lemma tables_exact_upd [simp]:
  "tables_exact (g\<lparr>mg_links := l\<rparr>) = tables_exact g"
  "tables_exact (g\<lparr>mg_ports := ps\<rparr>) = tables_exact g"
  by (simp_all add: tables_exact_def)

lemma add_node_Inr:
  assumes "add_node fl i info props g = Inr g'"
  shows "\<exists>n names idents. g' = g\<lparr>mg_identities := idents, mg_names := names, mg_nodes := mg_nodes g @ [n]\<rparr>"
  using assms unfolding add_node_def rbind_Inr_iff Let_def by blast

lemma add_node_exact:
  assumes "add_node fl i info props g = Inr g'" "tables_exact g"
  shows "tables_exact g'"
proof -
  define n where "n = last (mg_nodes g')"
  have n: "\<not> im_contains (mg_identities g) (nd_identity n)" "mg_nodes g' = mg_nodes g @ [n]"
    "mg_names g' = im_upsert (mg_names g) (nd_name n) [] (\<lambda>entries. entries @ [length (mg_nodes g)])"
    "mg_identities g' = im_insert (mg_identities g) (nd_identity n) (length (mg_nodes g))"
    unfolding n_def using assms(1) by (auto simp: add_node_def rbind_Inr_iff Let_def)
  have fresh: "nd_identity (mg_nodes g ! j) \<noteq> nd_identity n" if "j < length (mg_nodes g)" for j
    using that n(1) assms(2) unfolding tables_exact_def im_contains_def by (metis option.distinct(1))
  show ?thesis
    unfolding tables_exact_def n
  proof (intro conjI allI)
    fix name
    show "im_get (im_upsert (mg_names g) (nd_name n) [] (\<lambda>entries. entries @ [length (mg_nodes g)])) name =
      (if places (mg_nodes g @ [n]) name = [] then None else Some (places (mg_nodes g @ [n]) name))"
      using assms(2) unfolding tables_exact_def places_snoc im_get_upsert by (auto split: option.splits)
  next
    fix ident j
    show "im_get (im_insert (mg_identities g) (nd_identity n) (length (mg_nodes g))) ident = Some j \<longleftrightarrow>
      j < length (mg_nodes g @ [n]) \<and> nd_identity ((mg_nodes g @ [n]) ! j) = ident"
      using assms(2) fresh unfolding tables_exact_def im_get_insert
      by (auto simp: nth_append less_Suc_eq)
  qed
qed

lemma scan_relevant_graph:
  assumes "scan_relevant fl i ty v st = Inr st'"
  shows "sc_graph st' = sc_graph st \<or> (\<exists>info. add_link info (sc_graph st) = Inr (sc_graph st')) \<or>
    (\<exists>i info props. add_node fl i info props (sc_graph st) = Inr (sc_graph st')) \<or>
    (\<exists>i props. add_port fl i props (sc_graph st) = Inr (sc_graph st'))"
  using assms by (auto simp: scan_relevant_def rbind_Inr_iff split: if_splits)

lemma scan_object_graph:
  assumes "scan_object fl st v = Inr st'"
  shows "sc_graph st' = sc_graph st \<or> (\<exists>info. add_link info (sc_graph st) = Inr (sc_graph st')) \<or>
    (\<exists>i info props. add_node fl i info props (sc_graph st) = Inr (sc_graph st')) \<or>
    (\<exists>i props. add_port fl i props (sc_graph st) = Inr (sc_graph st'))"
proof -
  obtain i ty where "(if last_segment ty \<in> {''Node'', ''Port'', ''Link'', ''Device''}
      then scan_relevant fl i ty v (st\<lparr>sc_ids := i # sc_ids st\<rparr>) else Inr (st\<lparr>sc_ids := i # sc_ids st\<rparr>)) = Inr st'"
    using assms unfolding scan_object_def rbind_Inr_iff Let_def by metis
  then show ?thesis
    using scan_relevant_graph [of fl i ty v "st\<lparr>sc_ids := i # sc_ids st\<rparr>" st'] by (auto split: if_splits)
qed

lemma add_link_Inr: "add_link info g = Inr g' \<Longrightarrow> \<exists>e. g' = g\<lparr>mg_links := List.insert e (mg_links g)\<rparr>"
  by (auto simp: add_link_def rbind_Inr_iff)

lemma add_port_Inr: "add_port fl i props g = Inr g' \<Longrightarrow> \<exists>p. g' = g\<lparr>mg_ports := mg_ports g @ [p]\<rparr>"
  by (auto simp: add_port_def rbind_Inr_iff)

lemma scan_object_invariant:
  assumes "scan_object fl st v = Inr st'" "I (sc_graph st)"
    "\<And>i info props g'. add_node fl i info props (sc_graph st) = Inr g' \<Longrightarrow> I g'"
    "\<And>e. I ((sc_graph st)\<lparr>mg_links := List.insert e (mg_links (sc_graph st))\<rparr>)"
    "\<And>p. I ((sc_graph st)\<lparr>mg_ports := mg_ports (sc_graph st) @ [p]\<rparr>)"
  shows "I (sc_graph st')"
  using scan_object_graph [OF assms(1)] assms(2-5) by (metis add_link_Inr add_port_Inr)

lemma scan_object_exact:
  assumes "scan_object fl st v = Inr st'" "tables_exact (sc_graph st)"
  shows "tables_exact (sc_graph st')"
  using assms(1)
proof (rule scan_object_invariant [where I = tables_exact])
  show "tables_exact g'" if "add_node fl i info props (sc_graph st) = Inr g'" for i info props g'
    using that assms(2) by (rule add_node_exact)
qed (use assms(2) in \<open>simp_all\<close>)

subsection \<open>What the scan leaves for later\<close>

definition unfilled :: "u32 \<Rightarrow> mixer_graph \<Rightarrow> bool" where
  "unfilled cookie g \<longleftrightarrow> mg_sinks g = [] \<and> mg_captures g = [] \<and> mg_streams g = [] \<and> mg_outputs g = [] \<and> mg_cookie g = cookie"

lemma scan_object_unfilled:
  assumes "scan_object fl st v = Inr st'" "unfilled cookie (sc_graph st)"
  shows "unfilled cookie (sc_graph st')"
  using assms(1)
proof (rule scan_object_invariant [where I = "unfilled cookie"])
  show "unfilled cookie g'" if "add_node fl i info props (sc_graph st) = Inr g'" for i info props g'
    using add_node_Inr [OF that] assms(2) by (auto simp: unfilled_def)
qed (use assms(2) in \<open>simp_all add: unfilled_def\<close>)

lemma list_ex_key: "list_ex (\<lambda>n. f n = x) xs \<longleftrightarrow> x \<in> f ` set xs"
  by (auto simp: list_ex_iff)

lemma graph_complete_Inr:
  "graph_complete g = Inr () \<longleftrightarrow>
     list_all (\<lambda>p. list_ex (\<lambda>n. nd_id n = po_node p) (mg_nodes g)) (mg_ports g) \<and>
     list_all (\<lambda>(a, b). list_ex (\<lambda>p. po_id p = a) (mg_ports g) \<and> list_ex (\<lambda>p. po_id p = b) (mg_ports g)) (mg_links g)"
  by (simp add: graph_complete_def Let_def rbind_Inr_iff ensure_Inr_iff list_ex_key)

subsection \<open>Sinks and outputs\<close>

text \<open>The core of the graph, which the Pulse listings do not change.\<close>

definition same_objects :: "mixer_graph \<Rightarrow> mixer_graph \<Rightarrow> bool" where
  "same_objects g g' \<longleftrightarrow> mg_cookie g' = mg_cookie g \<and> mg_nodes g' = mg_nodes g \<and> mg_ports g' = mg_ports g \<and>
     mg_links g' = mg_links g \<and> mg_names g' = mg_names g \<and> mg_identities g' = mg_identities g"

definition sink_ok :: "mixer_graph \<Rightarrow> string \<times> mixer_sink \<Rightarrow> bool" where
  "sink_ok g e \<longleftrightarrow> (case graph_named g (fst e) of None \<Rightarrow> False | Some n \<Rightarrow> nd_id n = sk_node (snd e)) \<and>
     f64_le (FFin False 0) (sk_level (snd e)) \<and> f64_le (sk_level (snd e)) (FFin False 1)"

definition output_ok :: "mixer_graph \<Rightarrow> output_snapshot \<Rightarrow> bool" where
  "output_ok g o' \<longleftrightarrow> \<not> starts_with ''openwave_'' (os_node_name o') \<and>
     (case graph_named g (os_node_name o') of None \<Rightarrow> False
      | Some n \<Rightarrow> nd_identity n = os_identity o' \<and> nd_id n = os_node_id o')"

definition sinks_ok :: "(u32, string) imap \<times> mixer_graph \<Rightarrow> bool" where
  "sinks_ok st \<longleftrightarrow> (case st of (indices, g) \<Rightarrow>
     im_wf (mg_sinks g) \<and> list_all (sink_ok g) (mg_sinks g) \<and> list_all (output_ok g) (mg_outputs g) \<and>
     map os_node_name (mg_outputs g) = filter (\<lambda>n. \<not> starts_with ''openwave_'' n) (map fst (mg_sinks g)) \<and>
     indices = map (\<lambda>(n, s). (sk_pulse_index s, n)) (mg_sinks g) \<and> im_wf indices \<and>
     mg_captures g = [] \<and> mg_streams g = [])"

lemma graph_named_same: "same_objects g g' \<Longrightarrow> graph_named g' name = graph_named g name"
proof -
  assume "same_objects g g'"
  then have "nth_node g' = nth_node g" "mg_names g' = mg_names g"
    by (simp_all add: fun_eq_iff nth_node_def same_objects_def)
  then show ?thesis unfolding graph_named_def by (simp only:)
qed

lemma sink_ok_same: "same_objects g g' \<Longrightarrow> sink_ok g' = sink_ok g"
  by (simp add: sink_ok_def [abs_def] graph_named_same)

lemma output_ok_same: "same_objects g g' \<Longrightarrow> output_ok g' = output_ok g"
  by (simp add: output_ok_def [abs_def] graph_named_same)

lemma f64_clamp_unit:
  assumes "f64_finite x"
  shows "f64_le (FFin False 0) (f64_clamp (FFin False 0) (FFin False 1) x) \<and>
    f64_le (f64_clamp (FFin False 0) (FFin False 1) x) (FFin False 1)"
  using assms f64_clamp_within [of "FFin False 0" "FFin False 1" x]
  by (simp add: f64_within_def f64_finite_nan)

lemma sink_level_finite: "sink_level v = Inr x \<Longrightarrow> f64_finite x"
  by (auto simp: sink_level_def rbind_Inr_iff)

lemma add_sink_objects: "add_sink fl (indices, g) v = Inr (indices', g') \<Longrightarrow> same_objects g g'"
  by (auto simp: add_sink_def rbind_Inr_iff same_objects_def)

lemma add_sink_cases:
  assumes "add_sink fl (indices, g) v = Inr (indices', g')"
  obtains name node index level muted where "graph_named g name = Some node" "f64_finite level"
    "name \<notin> set (map fst (mg_sinks g))" "index \<notin> set (map fst indices)"
    "indices' = indices @ [(index, name)]"
    "g' = g\<lparr>mg_sinks := mg_sinks g @ [(name, \<lparr>sk_node = nd_id node, sk_pulse_index = index,
             sk_level = f64_clamp (FFin False 0) (FFin False 1) level, sk_muted = muted\<rparr>)],
           mg_outputs := (if starts_with ''openwave_'' name then mg_outputs g
             else mg_outputs g @ [sink_output fl v name node])\<rparr>"
  using assms unfolding add_sink_def prod.case rbind_Inr_iff
  by (elim exE conjE) (auto simp: ok_or_Inr_iff im_contains_iff im_insert_fresh intro: that dest!: sink_level_finite)

lemma add_sink_ok:
  assumes "sinks_ok (indices, g)" "add_sink fl (indices, g) v = Inr (indices', g')"
  shows "sinks_ok (indices', g')"
  using assms(2)
proof (rule add_sink_cases)
  fix name node index level muted
  assume node: "graph_named g name = Some node" "f64_finite level"
    and fresh: "name \<notin> set (map fst (mg_sinks g))" "index \<notin> set (map fst indices)"
    and new: "indices' = indices @ [(index, name)]"
      "g' = g\<lparr>mg_sinks := mg_sinks g @ [(name, \<lparr>sk_node = nd_id node, sk_pulse_index = index,
             sk_level = f64_clamp (FFin False 0) (FFin False 1) level, sk_muted = muted\<rparr>)],
           mg_outputs := (if starts_with ''openwave_'' name then mg_outputs g
             else mg_outputs g @ [sink_output fl v name node])\<rparr>"
  note same = add_sink_objects [OF assms(2)]
  show ?thesis
    using assms(1) node fresh f64_clamp_unit [OF node(2)]
    unfolding sinks_ok_def prod.case sink_ok_same [OF same] output_ok_same [OF same]
    by (auto simp: new sink_ok_def output_ok_def sink_output_def im_wf_def)
qed

subsection \<open>Streams and captures\<close>

definition audio_stream :: "mixer_node \<Rightarrow> bool" where
  "audio_stream n \<longleftrightarrow> \<not> starts_with ''openwave_'' (nd_name n) \<and> node_class n = ''Stream/Output/Audio''"

definition microphone :: "mixer_node \<Rightarrow> bool" where
  "microphone n \<longleftrightarrow> \<not> starts_with ''openwave_'' (nd_name n) \<and> node_class n = ''Audio/Source'' \<and>
     \<not> ends_with ''.monitor'' (nd_name n)"

lemma classify_node_Inr:
  assumes "classify_node fl indices inputs devices mutes g n = Inr g'"
  shows "same_objects g g' \<and> mg_sinks g' = mg_sinks g \<and> mg_outputs g' = mg_outputs g \<and>
    (if audio_stream n
     then \<exists>s. node_stream fl indices inputs n = Inr s \<and> mg_streams g' = mg_streams g @ [s] else mg_streams g' = mg_streams g) \<and>
    (if microphone n
     then \<exists>c. node_capture fl devices mutes n = Inr c \<and> mg_captures g' = mg_captures g @ [c] else mg_captures g' = mg_captures g)"
  using assms by (auto simp: classify_node_def audio_stream_def microphone_def same_objects_def rbind_Inr_iff split: if_splits)

lemma classify_nodes:
  assumes "res_foldM (classify_node fl indices inputs devices mutes) g ns = Inr g'"
  shows "same_objects g g' \<and> mg_sinks g' = mg_sinks g \<and> mg_outputs g' = mg_outputs g \<and>
    (\<exists>ss. mg_streams g' = mg_streams g @ ss \<and>
      list_all2 (\<lambda>n s. node_stream fl indices inputs n = Inr s) (filter audio_stream ns) ss) \<and>
    (\<exists>cs. mg_captures g' = mg_captures g @ cs \<and>
      list_all2 (\<lambda>n c. node_capture fl devices mutes n = Inr c) (filter microphone ns) cs)"
  using assms
proof (induction ns arbitrary: g)
  case Nil
  then show ?case by (simp add: same_objects_def)
next
  case (Cons n ns)
  obtain h where h: "classify_node fl indices inputs devices mutes g n = Inr h"
    "res_foldM (classify_node fl indices inputs devices mutes) h ns = Inr g'"
    using Cons.prems by (auto simp: rbind_Inr_iff)
  have "same_objects g g'" if "same_objects g h" "same_objects h g'" using that by (simp add: same_objects_def)
  then show ?case
    using Cons.IH [OF h(2)] classify_node_Inr [OF h(1)] by (cases "audio_stream n"; cases "microphone n") auto
qed

lemma node_stream_Inr:
  "node_stream fl indices inputs n = Inr s \<Longrightarrow>
   st_identity s = nd_identity n \<and> st_node_id s = nd_id n \<and> st_node_name s = nd_name n \<and>
   (case st_sink s of None \<Rightarrow> True | Some k \<Rightarrow> \<exists>i. im_get indices i = Some k)"
  by (auto simp: node_stream_def Let_def rbind_Inr_iff transposed_def stream_destination_def ok_or_Inr_iff split: option.splits)

lemma node_capture_Inr:
  "node_capture fl devices mutes n = Inr c \<Longrightarrow>
   cap_identity c = nd_identity n \<and> cap_node_id c = nd_id n \<and> cap_node_name c = nd_name n"
  by (auto simp: node_capture_def Let_def rbind_Inr_iff split: option.splits)

subsection \<open>An observation is coherent or refused\<close>

definition graph_sound :: "mixer_graph \<Rightarrow> bool" where
  "graph_sound g \<longleftrightarrow>
     distinct (map nd_identity (mg_nodes g)) \<and>
     list_all (\<lambda>p. list_ex (\<lambda>n. nd_id n = po_node p) (mg_nodes g)) (mg_ports g) \<and>
     list_all (\<lambda>(a, b). list_ex (\<lambda>p. po_id p = a) (mg_ports g) \<and> list_ex (\<lambda>p. po_id p = b) (mg_ports g)) (mg_links g) \<and>
     im_wf (mg_sinks g) \<and> distinct (map (\<lambda>(name, s). sk_pulse_index s) (mg_sinks g)) \<and>
     list_all (\<lambda>(name, s). (case sole (filter (\<lambda>n. nd_name n = name) (mg_nodes g)) of None \<Rightarrow> False
         | Some n \<Rightarrow> nd_id n = sk_node s) \<and> f64_within (FFin False 0) (FFin False 1) (sk_level s)) (mg_sinks g) \<and>
     mset (map os_node_name (mg_outputs g)) = mset (filter (\<lambda>name. \<not> starts_with ''openwave_'' name) (map fst (mg_sinks g))) \<and>
     list_all (\<lambda>o'. case sole (filter (\<lambda>n. nd_name n = os_node_name o') (mg_nodes g)) of None \<Rightarrow> False
         | Some n \<Rightarrow> nd_identity n = os_identity o') (mg_outputs g) \<and>
     sorted (map (\<lambda>o'. - os_priority o') (mg_outputs g)) \<and>
     map st_identity (mg_streams g) = map nd_identity (filter audio_stream (mg_nodes g)) \<and>
     list_all (\<lambda>s. case st_sink s of None \<Rightarrow> True | Some name \<Rightarrow> im_contains (mg_sinks g) name) (mg_streams g) \<and>
     mset (map (\<lambda>c. (cap_identity c, cap_node_name c)) (mg_captures g)) =
       mset (map (\<lambda>n. (nd_identity n, nd_name n)) (filter microphone (mg_nodes g))) \<and>
     sorted (map cap_node_name (mg_captures g))"

lemma streams_sound:
  assumes "list_all2 (\<lambda>n s. node_stream fl indices inputs n = Inr s) ns ss"
    "indices = map (\<lambda>(n, s). (sk_pulse_index s, n)) sinks"
  shows "map st_identity ss = map nd_identity ns \<and>
    list_all (\<lambda>s. case st_sink s of None \<Rightarrow> True | Some name \<Rightarrow> im_contains sinks name) ss"
  using assms(1)
proof (induction rule: list_all2_induct)
  case (Cons n ns s ss)
  have "im_contains sinks name" if "im_get indices i = Some name" for i name
    using map_of_SomeD [OF that] by (force simp: assms(2) im_contains_iff)
  then show ?case
    using Cons.IH node_stream_Inr [OF Cons.hyps(1)] by (auto split: option.splits)
qed simp

lemma captures_of_nodes:
  "list_all2 (\<lambda>n c. node_capture fl devices mutes n = Inr c) ns cs \<Longrightarrow>
   map (\<lambda>c. (cap_identity c, cap_node_name c)) cs = map (\<lambda>n. (nd_identity n, nd_name n)) ns"
  by (induction rule: list_all2_induct) (auto dest: node_capture_Inr)

text \<open>The three stages of \<open>parse_graph\<close>: objects, sinks, and the nodes by their class.\<close>

lemma parse_graph_stages:
  assumes "parse_graph fl objects sinks srcs inputs modules d = Inr g"
  obtains cookie vs scan indices h by_serial mutes k sinks' where
    "res_foldM (scan_object fl) \<lparr>sc_graph = empty_graph cookie d, sc_devices = [], sc_ids = []\<rparr> vs = Inr scan"
    "graph_complete (sc_graph scan) = Inr ()"
    "res_foldM (add_sink fl) ([], sc_graph scan) sinks' = Inr (indices, h)"
    "res_foldM (classify_node fl indices by_serial (sc_devices scan) mutes) h (mg_nodes h) = Inr k"
    "g = sorted_graph k"
proof -
  from assms show ?thesis
    unfolding parse_graph_def rbind_Inr_iff by (elim exE conjE) (auto simp: rbind_Inr_iff intro: that split: prod.splits)
qed

lemma scan_objects_state:
  assumes "res_foldM (scan_object fl) st vs = Inr st'" "tables_exact (sc_graph st)" "unfilled cookie (sc_graph st)"
  shows "tables_exact (sc_graph st') \<and> unfilled cookie (sc_graph st')"
  using res_foldM_inv [OF assms(1), where P = "\<lambda>st. tables_exact (sc_graph st) \<and> unfilled cookie (sc_graph st)"]
    assms(2,3) scan_object_exact scan_object_unfilled by blast

lemma add_sinks_state:
  assumes "res_foldM (add_sink fl) st vs = Inr st'" "sinks_ok st"
  shows "sinks_ok st' \<and> same_objects (snd st) (snd st')"
proof (rule res_foldM_inv [OF assms(1), where P = "\<lambda>st'. sinks_ok st' \<and> same_objects (snd st) (snd st')"])
  show "sinks_ok b \<and> same_objects (snd st) (snd b)" 
    if "sinks_ok a \<and> same_objects (snd st) (snd a)" "add_sink fl a v = Inr b" for a v b
    using that add_sink_ok [of "fst a" "snd a" fl v "fst b" "snd b"] add_sink_objects [of fl "fst a" "snd a" v "fst b" "snd b"]
    by (auto simp: same_objects_def)
qed (use assms(2) in \<open>simp add: same_objects_def\<close>)


text \<open>What is read of one graph, before the final sort.\<close>

lemma read_graph_sound:
  assumes exact: "tables_exact h" and complete: "graph_complete h = Inr ()" and sinks: "sinks_ok (indices, h)"
    and nodes: "res_foldM (classify_node fl indices by_serial devices mutes) h (mg_nodes h) = Inr k"
  shows "graph_sound (sorted_graph k)"
proof -
  from classify_nodes [OF nodes] sinks
  have same: "same_objects h k" "mg_sinks k = mg_sinks h" "mg_outputs k = mg_outputs h"
    and streams: "list_all2 (\<lambda>n s. node_stream fl indices by_serial n = Inr s) (filter audio_stream (mg_nodes h)) (mg_streams k)"
    and captures: "list_all2 (\<lambda>n c. node_capture fl devices mutes n = Inr c) (filter microphone (mg_nodes h)) (mg_captures k)"
    by (auto simp: sinks_ok_def)
  note st = streams_sound [OF streams, of "mg_sinks h"]
  note named = graph_named_sole [OF exact]
  have indices: "indices = map (\<lambda>(n, s). (sk_pulse_index s, n)) (mg_sinks h)" "im_wf indices"
    and sink: "im_wf (mg_sinks h)" "list_all (sink_ok h) (mg_sinks h)" "list_all (output_ok h) (mg_outputs h)"
    "map os_node_name (mg_outputs h) = filter (\<lambda>n. \<not> starts_with ''openwave_'' n) (map fst (mg_sinks h))"
    using sinks unfolding sinks_ok_def prod.case by blast+
  have "map fst indices = map (\<lambda>(name, s). sk_pulse_index s) (mg_sinks h)"
    by (auto simp: indices(1))
  then have "distinct (map (\<lambda>(name, s). sk_pulse_index s) (mg_sinks h))"
    using indices(2) by (simp add: im_wf_def)
  moreover have "list_all (\<lambda>(name, s). (case sole (filter (\<lambda>n. nd_name n = name) (mg_nodes h)) of None \<Rightarrow> False
         | Some n \<Rightarrow> nd_id n = sk_node s) \<and> f64_within (FFin False 0) (FFin False 1) (sk_level s)) (mg_sinks h)"
    using sink(2) by (simp add: list_all_iff sink_ok_def named f64_within_def case_prod_beta)
  moreover have "list_all (\<lambda>o'. case sole (filter (\<lambda>n. nd_name n = os_node_name o') (mg_nodes h)) of None \<Rightarrow> False
         | Some n \<Rightarrow> nd_identity n = os_identity o') (mg_outputs h)"
    using sink(3) by (auto simp: list_all_iff output_ok_def named split: option.splits)
  moreover have "mset (map (\<lambda>c. (cap_identity c, cap_node_name c)) (mg_captures k)) =
       mset (map (\<lambda>n. (nd_identity n, nd_name n)) (filter microphone (mg_nodes h)))"
    by (simp add: captures_of_nodes [OF captures])
  moreover have "mset (map os_node_name (mg_outputs h)) =
      mset (filter (\<lambda>n. \<not> starts_with ''openwave_'' n) (map fst (mg_sinks h)))"
    by (simp add: sink(4))
  ultimately show ?thesis
    using tables_exact_distinct [OF exact] complete st indices(1) sink(1) same
    by (simp add: graph_sound_def sorted_graph_def same_objects_def graph_complete_Inr list_all_iff list_ex_iff
      cong: option.case_cong)
qed


subsection \<open>Only two kinds of failure\<close>

definition observation_failure :: "'a res \<Rightarrow> bool" where
  "observation_failure r \<longleftrightarrow> (case r of Inl e \<Rightarrow> err_code e = Unavailable \<or> err_code e = Identity | Inr _ \<Rightarrow> True)"

lemma observation_failure_simps [simp]:
  "observation_failure (Inr x)"
  "observation_failure (ensure b (error_unavailable m))" "observation_failure (ensure b (identity_error m))"
  "observation_failure (ok_or (error_unavailable m) v)" "observation_failure (ok_or (identity_error m) v)"
  by (auto simp: observation_failure_def ensure_def ok_or_def error_unavailable_def identity_error_def split: option.splits)

lemma observation_failure_rbind:
  "observation_failure r \<Longrightarrow> (\<And>x. observation_failure (f x)) \<Longrightarrow> observation_failure (rbind r f)"
  by (cases r) (auto simp: observation_failure_def)

lemma observation_failure_foldM: "(\<And>s x. observation_failure (f s x)) \<Longrightarrow> observation_failure (res_foldM f s xs)"
  by (induction xs arbitrary: s) (auto intro: observation_failure_rbind)

lemma observation_failure_if:
  "observation_failure a \<Longrightarrow> observation_failure b \<Longrightarrow> observation_failure (if c then a else b)"
  by simp

lemma observation_failure_option:
  "observation_failure a \<Longrightarrow> (\<And>x. observation_failure (f x)) \<Longrightarrow> observation_failure (case_option a f v)"
  by (cases v) auto

lemma observation_failure_prod: "(\<And>x y. observation_failure (f x y)) \<Longrightarrow> observation_failure (case_prod f v)"
  by (cases v) auto

lemmas observation_failures = observation_failure_rbind observation_failure_foldM observation_failure_if
  observation_failure_option observation_failure_prod

lemma required_failure [simp]:
  "observation_failure (required_number v l)" "observation_failure (required_text fl v l)"
  by (simp_all add: required_number_def required_text_def)

lemma parse_graph_failure: "observation_failure (parse_graph fl objects sinks srcs inputs modules d)"
proof -
  have "observation_failure (core_cookie v)" "observation_failure (array_of v)" for v
    by (simp_all add: core_cookie_def array_of_def Let_def observation_failure_rbind)
  moreover have "observation_failure (scan_object fl st v)" for st v
    unfolding scan_object_def scan_relevant_def add_node_def add_link_def add_port_def Let_def
    by (intro observation_failures required_failure observation_failure_simps)
  moreover have "observation_failure (graph_complete h)" for h
    by (simp add: graph_complete_def Let_def observation_failure_rbind)
  moreover have "observation_failure (add_sink fl st v)" for st v
    unfolding add_sink_def check_pulse_identity_def sink_level_def channel_level_def
    by (intro observation_failures required_failure observation_failure_simps)
  moreover have "observation_failure (add_input fl i v)" "observation_failure (add_source_mute fl m v)" for i m v
    by (simp_all add: add_input_def add_source_mute_def observation_failure_rbind)
  moreover have "observation_failure (classify_node fl indices by_serial devices mutes h n)" for indices by_serial devices mutes h n
    unfolding classify_node_def node_stream_def node_capture_def transposed_def stream_destination_def check_pulse_identity_def Let_def
    by (intro observation_failures required_failure observation_failure_simps)
  ultimately show ?thesis
    unfolding parse_graph_def by (intro observation_failures observation_failure_simps)
qed

subsection \<open>The observation\<close>

lemma parse_graph_sound:
  "case parse_graph fl objects sinks srcs inputs modules d of
     Inl e \<Rightarrow> err_code e = Unavailable \<or> err_code e = Identity
   | Inr g \<Rightarrow> graph_sound g \<and>
       (\<forall>name. graph_named g name = sole (filter (\<lambda>n. nd_name n = name) (mg_nodes g))) \<and>
       (\<forall>ident. graph_identity g ident = List.find (\<lambda>n. nd_identity n = ident) (mg_nodes g))"
proof (cases "parse_graph fl objects sinks srcs inputs modules d")
  case (Inl e)
  then show ?thesis using parse_graph_failure [of fl objects sinks srcs inputs modules d] by (simp add: observation_failure_def)
next
  case (Inr g)
  then obtain cookie vs scan indices h by_serial mutes k sinks' where stages:
    "res_foldM (scan_object fl) \<lparr>sc_graph = empty_graph cookie d, sc_devices = [], sc_ids = []\<rparr> vs = Inr scan"
    "graph_complete (sc_graph scan) = Inr ()"
    "res_foldM (add_sink fl) ([], sc_graph scan) sinks' = Inr (indices, h)"
    "res_foldM (classify_node fl indices by_serial (sc_devices scan) mutes) h (mg_nodes h) = Inr k" "g = sorted_graph k"
    by (rule parse_graph_stages)
  have scan: "tables_exact (sc_graph scan)" "unfilled cookie (sc_graph scan)"
    using scan_objects_state [OF stages(1), of cookie] by (simp_all add: empty_graph_def unfilled_def tables_exact_def places_def)
  have "sinks_ok ([], sc_graph scan)"
    using scan(2) by (simp add: sinks_ok_def unfilled_def im_wf_def)
  then have sinks: "sinks_ok (indices, h)" "same_objects (sc_graph scan) h"
    using add_sinks_state [OF stages(3)] by simp_all
  have h: "tables_exact h" "graph_complete h = Inr ()"
    using scan(1) stages(2) sinks(2) by (simp_all add: tables_exact_def same_objects_def graph_complete_Inr)
  then have "tables_exact g"
    using classify_nodes [OF stages(4)] by (simp add: stages(5) sorted_graph_def same_objects_def tables_exact_def)
  then show ?thesis
    using read_graph_sound [OF h sinks(1) stages(4)] Inr by (simp add: stages(5) graph_named_sole graph_identity_find)
qed

text \<open>
  C20. An observation of the sound server is coherent or refused: it fails as unavailable or because
  identities are ambiguous or have changed, or it yields a graph whose nodes have different identities
  and are all there with the same serials after the last question, whose ports and
  links refer to observed objects, whose sinks are uniquely named nodes with a level between zero and
  one, whose outputs are exactly the sinks OpenWave does not own, in the order of priority, whose streams
  and captures are exactly the playing applications and the microphones, and in which a lookup by name
  answers exactly when the name is borne by one node.
\<close>

theorem observed_graph_sound:
  "case observed_graph fl objects sinks srcs inputs modules d after of
     Inl e \<Rightarrow> err_code e = Unavailable \<or> err_code e = Identity
   | Inr g \<Rightarrow> graph_sound g \<and> core_cookie after = core_cookie objects \<and> unchanged_nodes fl after g \<and>
       (\<forall>name. graph_named g name = sole (filter (\<lambda>n. nd_name n = name) (mg_nodes g))) \<and>
       (\<forall>ident. graph_identity g ident = List.find (\<lambda>n. nd_identity n = ident) (mg_nodes g))"
proof (cases "observed_graph fl objects sinks srcs inputs modules d after")
  case (Inl e)
  have "observation_failure (core_cookie v)" for v
    by (simp add: core_cookie_def Let_def observation_failure_rbind)
  then have "observation_failure (observed_graph fl objects sinks srcs inputs modules d after)"
    unfolding observed_graph_def by (intro observation_failures observation_failure_simps parse_graph_failure)
  then show ?thesis by (simp add: Inl observation_failure_def)
next
  case (Inr g)
  then have "parse_graph fl objects sinks srcs inputs modules d = Inr g" "core_cookie after = core_cookie objects"
    "unchanged_nodes fl after g"
    by (auto simp: observed_graph_def rbind_Inr_iff ensure_Inr_iff)
  then show ?thesis using parse_graph_sound [of fl objects sinks srcs inputs modules d] by (simp add: Inr)
qed

end
