(* ===== verification/Mixer_State.thy ===== *)
theory Mixer_State
  imports Equality Graph
begin

text \<open>
  The mixer of \<^verbatim>\<open>crates/openwave-runtime/src/mixer.rs\<close>: what its clients share with the worker (\<^verbatim>\<open>Control\<close>), the
  state of the worker (\<^verbatim>\<open>Reconciler\<close>), and its only way to the outside, \<^verbatim>\<open>GraphBackend\<close>. The back end, the
  child processes, the clock, the source of identifiers and the clients that may come between any two
  acquisitions of the lock are an oracle, the record \<open>graph_world\<close>: an answer may depend on all calls so far.

  The graph and the issues of the pass in progress, which the code passes as \<^verbatim>\<open>&mut\<close>, are fields of the state.
  A hash map is a list of its entries in an arbitrary order. A poisoned lock (a panic of a thread that
  held it) is not modelled.
\<close>

definition mixer_issue :: "string \<Rightarrow> operation_error \<Rightarrow> operation_issue" where
  "mixer_issue target e = \<lparr>oi_target = target, oi_message = err_message e\<rparr>"

definition issue_text :: "string \<Rightarrow> string \<Rightarrow> operation_issue" where
  "issue_text target message = \<lparr>oi_target = target, oi_message = message\<rparr>"

definition same_binding :: "capture_binding \<Rightarrow> capture_binding \<Rightarrow> bool" where
  "same_binding left right \<longleftrightarrow> bd_epoch left = bd_epoch right \<and>
     length (bd_owners left) = length (bd_owners right) \<and>
     list_all (\<lambda>own. own \<in> set (bd_owners right)) (bd_owners left)"

subsection \<open>Control\<close>

record mute_request =
  mq_binding :: capture_binding
  mq_muted :: bool
  mq_written :: "node_identity option"

text \<open>An \<^verbatim>\<open>Arc<DesiredState>\<close> is the number of its allocation and the value.\<close>

record control =
  k_revision :: u64
  k_desired :: "(nat \<times> desired_state) option"
  k_bindings :: "(string, capture_binding) imap"
  k_requests :: "(string, mute_request) imap"
  k_wake :: bool
  k_stopped :: bool

definition control_default :: control where
  "control_default = \<lparr>k_revision = 0, k_desired = None, k_bindings = [], k_requests = [], k_wake = False, k_stopped = False\<rparr>"

definition device_owners :: "sources \<Rightarrow> string \<Rightarrow> source_id list" where
  "device_owners srcs name = map fst (filter (\<lambda>(i, s). src_kind s = Device \<and> src_node_name s = name) srcs)"

definition exact_binding :: "sources \<Rightarrow> string \<times> capture_binding \<Rightarrow> bool" where
  "exact_binding srcs e = (case e of (name, binding) \<Rightarrow>
     let owners = device_owners srcs name in
     owners \<noteq> [] \<and> length owners = length (bd_owners binding) \<and>
     list_all (\<lambda>i. i \<in> set (bd_owners binding)) owners)"

definition bound :: "(string, capture_binding) imap \<Rightarrow> string \<Rightarrow> capture_binding \<Rightarrow> bool" where
  "bound bindings name binding = (case im_get bindings name of None \<Rightarrow> False | Some current \<Rightarrow> same_binding current binding)"

definition set_desired ::
  "u64 \<Rightarrow> nat \<times> desired_state \<Rightarrow> (string, capture_binding) imap \<Rightarrow> control \<Rightarrow> unit res \<times> control" where
  "set_desired revision desired bindings k =
     (if k_stopped k then (Inl (error_new Frozen ''Mixer stopped''), k)
      else if k_desired k \<noteq> None \<and> revision < k_revision k then (Inl (error_invalid ''Stale mixer revision''), k)
      else if \<not> list_all (exact_binding (de_sources (snd desired))) bindings
      then (Inl (identity_error ''Capture binding does not match exact source owners''), k)
      else (Inr (), k\<lparr>k_requests := im_retain (\<lambda>name r. bound bindings name (mq_binding r)) (k_requests k),
          k_revision := revision, k_desired := Some desired, k_bindings := bindings, k_wake := True\<rparr>))"

definition set_capture_mute :: "string \<Rightarrow> capture_binding \<Rightarrow> bool \<Rightarrow> control \<Rightarrow> unit res \<times> control" where
  "set_capture_mute name binding muted k =
     (if k_stopped k then (Inl (error_new Frozen ''Mixer stopped''), k)
      else if \<not> bound (k_bindings k) name binding then (Inl (identity_error ''Capture binding expired''), k)
      else (Inr (), k\<lparr>k_requests := im_insert (k_requests k) name \<lparr>mq_binding = binding, mq_muted = muted, mq_written = None\<rparr>,
          k_wake := True\<rparr>))"

text \<open>The first part of \<^verbatim>\<open>Mixer::stop\<close>.\<close>

definition stop_control :: "control \<Rightarrow> control" where
  "stop_control k = k\<lparr>k_stopped := True, k_requests := []\<rparr>"

datatype client_request =
    SetDesired u64 "nat \<times> desired_state" "(string, capture_binding) imap"
  | SetCaptureMute string capture_binding bool
  | StopRequest

definition serve :: "control \<Rightarrow> client_request \<Rightarrow> control" where
  "serve k r = (case r of
       SetDesired revision desired bindings \<Rightarrow> snd (set_desired revision desired bindings k)
     | SetCaptureMute name binding muted \<Rightarrow> snd (set_capture_mute name binding muted k)
     | StopRequest \<Rightarrow> stop_control k)"

subsection \<open>The back end\<close>

text \<open>A child process is known by the handle its spawn returned.\<close>

datatype graph_call =
    GSnapshot
  | GWriteDefinitions mixes
  | GCreateSink string string string
  | GUnloadModule u32
  | GDestroyNode u32
  | GMoveStream stream_snapshot string
  | GLink u32 u32
  | GSetLevel u32 f64 bool
  | GSetVolume u32 f64
  | GSetCaptureMute capture_snapshot bool
  | GSpawnLoopback string string "string option"
  | GWriteFile json
  | GSpawnFilter json
  | GRunning nat
  | GTerminate nat

text \<open>
  The answers, functions of the calls so far, the newest first and the call itself included; the requests
  that arrive before the \<open>n\<close>th acquisition of the lock; the \<open>n\<close>th reading of the clock; the \<open>n\<close>th identifier;
  whether the receiver of events is still there at the \<open>n\<close>th one. The rest are functions of the libraries:
  the case folding of names, the SHA-256 in hexadecimal, the texts of a JSON value and of a
  double, and the parser.
\<close>

record graph_world =
  gw_snapshot :: "graph_call list \<Rightarrow> mixer_graph res"
  gw_unit :: "graph_call list \<Rightarrow> unit res"
  gw_module :: "graph_call list \<Rightarrow> u32 res"
  gw_child :: "graph_call list \<Rightarrow> nat res"
  gw_running :: "graph_call list \<Rightarrow> bool res"
  gw_ready :: "graph_call list \<Rightarrow> node_identity \<Rightarrow> bool"
  gw_requests :: "nat \<Rightarrow> client_request list"
  gw_now :: "nat \<Rightarrow> nat"
  gw_uuid :: "nat \<Rightarrow> string"
  gw_listening :: "nat \<Rightarrow> bool"
  gw_fold :: "string \<Rightarrow> string"
  gw_digest :: "string \<Rightarrow> string"
  gw_compact :: "json \<Rightarrow> string"
  gw_pretty :: "json \<Rightarrow> string"
  gw_parse :: "string \<Rightarrow> json res"
  gw_float :: "f64 \<Rightarrow> string"

subsection \<open>The worker\<close>

record owned_sink =
  ow_cookie :: u32
  ow_module :: u32
  ow_owner :: string
  ow_missing :: u8

record persistent_sink =
  pe_identity :: node_identity
  pe_definition :: mix

datatype route_key = CellRoute source_id mix_id | CaptureRoute mix_id | OutputRoute mix_id

record route_spec =
  rs_source :: node_identity
  rs_target :: "node_identity option"
  rs_description :: "string option"

record mixer_route =
  rt_child :: nat
  rt_spec :: route_spec
  rt_name :: string
  rt_owner :: string
  rt_applied :: "(node_identity \<times> f64 \<times> bool) option"
  rt_node :: "u32 option"
  rt_missing :: u8

record effect_spec =
  ec_raw :: node_identity
  ec_channels :: u32
  ec_source :: source

record mixer_effect =
  ef_child :: nat
  ef_file :: json
  ef_spec :: effect_spec
  ef_owner :: string
  ef_name :: string
  ef_started :: nat

record master =
  ma_identity :: node_identity
  ma_requested :: "f64 \<times> bool"
  ma_confirmed :: bool
  ma_restored :: bool
  ma_emitted :: "(f64 \<times> bool) option"
  ma_emitted_revision :: "u64 option"

datatype mixer_event = Observed mixer_observation | MasterObserved mix_id u64 node_identity f64 bool

record mixer =
  x_world :: graph_world
  x_calls :: "graph_call list"
  x_locks :: nat
  x_clock :: nat
  x_uuids :: nat
  x_sends :: nat
  x_control :: control
  x_events :: "mixer_event list"
  x_graph :: mixer_graph
  x_issues :: "operation_issue list"
  x_desired :: "nat \<times> desired_state"
  x_revision :: "u64 option"
  x_matcher :: matcher
  x_normalized :: "(node_identity, stream_snapshot \<times> normalized_stream) imap"
  x_cookie :: "u32 option"
  x_definitions :: "mixes option"
  x_last :: mixer_observation
  x_discovery_error :: "operation_error option"
  x_sinks :: "(string, owned_sink) imap"
  x_persistent :: "(string, persistent_sink) imap"
  x_removed :: "(string, persistent_sink) imap"
  x_routes :: "(route_key, mixer_route) imap"
  x_effects :: "(source_id, mixer_effect) imap"
  x_effect_retry :: "(source_id, effect_spec \<times> nat) imap"
  x_masters :: "(mix_id, master) imap"
  x_moved :: "(node_identity, string option) imap"
  x_pending_masters :: "(mix_id \<times> node_identity \<times> f64 \<times> bool) list"

type_synonym 'a mact = "(mixer, 'a) act"

end
