(* ===== verification/Mixer_Ops.thy ===== *)
theory Mixer_Ops
  imports Mixer_State Calibration
begin

text \<open>
  The operations of \<^verbatim>\<open>Reconciler\<close> on single objects: owned and persistent sinks, the mutes of captures, the
  masters of mixes, links, routes and effects. Each is the method of that name.
\<close>

subsection \<open>Calls\<close>

definition called :: "graph_call \<Rightarrow> (graph_world \<Rightarrow> graph_call list \<Rightarrow> 'a) \<Rightarrow> 'a mact" where
  "called c answer = ask (\<lambda>s. bnd (upd (\<lambda>s. s\<lparr>x_calls := c # x_calls s\<rparr>)) (\<lambda>_.
     ret (answer (x_world s) (c # x_calls s))))"

text \<open>The lock is taken: what the clients have asked for since it was last free is served first.\<close>

definition locked :: "(control \<Rightarrow> 'a \<times> control) \<Rightarrow> 'a mact" where
  "locked f = ask (\<lambda>s. case f (foldl serve (x_control s) (gw_requests (x_world s) (x_locks s))) of
     (v, k) \<Rightarrow> bnd (upd (\<lambda>s. s\<lparr>x_control := k, x_locks := Suc (x_locks s)\<rparr>)) (\<lambda>_. ret v))"

definition clock :: "nat mact" where
  "clock = ask (\<lambda>s. bnd (upd (\<lambda>s. s\<lparr>x_clock := Suc (x_clock s)\<rparr>)) (\<lambda>_. ret (gw_now (x_world s) (x_clock s))))"

definition fresh_owner :: "string mact" where
  "fresh_owner = ask (\<lambda>s. bnd (upd (\<lambda>s. s\<lparr>x_uuids := Suc (x_uuids s)\<rparr>)) (\<lambda>_. ret (gw_uuid (x_world s) (x_uuids s))))"

definition send :: "mixer_event \<Rightarrow> bool mact" where
  "send event = ask (\<lambda>s. if gw_listening (x_world s) (x_sends s)
     then bnd (upd (\<lambda>s. s\<lparr>x_sends := Suc (x_sends s), x_events := x_events s @ [event]\<rparr>)) (\<lambda>_. ret True)
     else bnd (upd (\<lambda>s. s\<lparr>x_sends := Suc (x_sends s)\<rparr>)) (\<lambda>_. ret False))"

definition push_issue :: "operation_issue \<Rightarrow> unit mact" where
  "push_issue i = upd (\<lambda>s. s\<lparr>x_issues := x_issues s @ [i]\<rparr>)"

fun join_text :: "string \<Rightarrow> string list \<Rightarrow> string" where
  "join_text sep [] = []"
| "join_text sep [x] = x"
| "join_text sep (x # xs) = x @ sep @ join_text sep xs"

subsection \<open>Definitions of persistent sinks\<close>

definition mix_definition_token :: "graph_world \<Rightarrow> mix \<Rightarrow> string" where
  "mix_definition_token w m = gw_digest w (gw_compact w (JArray [JString (mix_id m), JString (mix_sink m), JString (mix_description m)]))"

definition bool_prop :: "mixer_node \<Rightarrow> string \<Rightarrow> bool \<Rightarrow> bool" where
  "bool_prop node key v = (case im_get (nd_properties node) key of None \<Rightarrow> False
     | Some j \<Rightarrow> as_bool j = Some v \<or> as_str j = Some (if v then ''true'' else ''false''))"

definition definition_matches :: "graph_world \<Rightarrow> mixer_node \<Rightarrow> mix \<Rightarrow> bool" where
  "definition_matches w node m =
     (if nd_name node \<noteq> mix_sink m \<or> im_contains (nd_properties node) ''pulse.module.id'' then False
      else if str_property node ''openwave.mix-id'' = Some (mix_id m) \<and>
        str_property node ''openwave.definition'' = Some (mix_definition_token w m) then True
      else str_property node ''factory.name'' = Some ''support.null-audio-sink'' \<and>
        str_property node ''media.name'' = Some (mix_sink m) \<and>
        str_property node ''node.description'' = Some (mix_description m) \<and>
        str_property node ''media.class'' = Some ''Audio/Sink'' \<and>
        option_same json_same (im_get (nd_properties node) ''audio.position'') (Some (JArray [JString ''FL'', JString ''FR''])) \<and>
        bool_prop node ''object.linger'' True \<and> bool_prop node ''monitor.channel-volumes'' True \<and>
        bool_prop node ''state.restore-props'' False \<and>
        json_number (im_get (nd_properties node) ''priority.session'') = Some 0)"

definition persistent_proof :: "graph_world \<Rightarrow> mixer_node \<Rightarrow> persistent_sink \<Rightarrow> bool" where
  "persistent_proof w node p \<longleftrightarrow> pe_identity p = nd_identity node \<and> definition_matches w node (pe_definition p)"

subsection \<open>Sinks\<close>

definition module_id :: "mixer_node \<Rightarrow> u32 option" where
  "module_id node = json_number (im_get (nd_properties node) ''pulse.module.id'')"

text \<open>\<^verbatim>\<open>saturating_add(1)\<close> on a byte\<close>

definition one_more :: "u8 \<Rightarrow> u8" where
  "one_more n = (if n = - 1 then n else n + 1)"

definition create_owned_sink :: "string \<Rightarrow> string \<Rightarrow> bool res mact" where
  "create_owned_sink name description =
     bnd fresh_owner (\<lambda>own.
     attempt (called (GCreateSink name description own) gw_module) (\<lambda>module.
     bnd (upd (\<lambda>s. s\<lparr>x_sinks := im_insert (x_sinks s) name
         \<lparr>ow_cookie = mg_cookie (x_graph s), ow_module = module, ow_owner = own, ow_missing = 0\<rparr>\<rparr>)) (\<lambda>_.
     ret (Inr False))))"

definition owned_sink_present :: "string \<Rightarrow> mixer_node \<Rightarrow> owned_sink \<Rightarrow> bool res mact" where
  "owned_sink_present name node h = ask (\<lambda>s.
     guard_ok (ow_cookie h = mg_cookie (x_graph s) \<and> str_property node ''openwave.owner'' = Some (ow_owner h) \<and>
         module_id node = Some (ow_module h)) (identity_error (''Foreign sink occupies '' @ name))
       (bnd (upd (\<lambda>s. s\<lparr>x_sinks := im_adjust (x_sinks s) name (\<lambda>h. h\<lparr>ow_missing := 0\<rparr>)\<rparr>)) (\<lambda>_. ret (Inr True))))"

definition unproven_sink :: "string \<Rightarrow> operation_error" where
  "unproven_sink name = identity_error (''Unproven existing sink '' @ name @
     ''; generated configuration has been refreshed. Restart the audio session explicitly to load it.'')"

definition persistent_sink_present :: "string \<Rightarrow> mixer_node \<Rightarrow> mix \<Rightarrow> bool res mact" where
  "persistent_sink_present name node m = ask (\<lambda>s.
     if (case im_get (x_persistent s) name of None \<Rightarrow> False | Some p \<Rightarrow> persistent_proof (x_world s) node p) then ret (Inr True)
     else guard_ok (definition_matches (x_world s) node m) (unproven_sink name)
       (bnd (upd (\<lambda>s. s\<lparr>x_persistent := im_insert (x_persistent s) name
           \<lparr>pe_identity = nd_identity node, pe_definition = m\<rparr>\<rparr>)) (\<lambda>_. ret (Inr True))))"

definition sink_present :: "string \<Rightarrow> mixer_node \<Rightarrow> mix option \<Rightarrow> bool res mact" where
  "sink_present name node mx = ask (\<lambda>s.
     guard_ok (im_contains (mg_sinks (x_graph s)) name)
       (error_unavailable (''Sink '' @ name @ '' is not available to Pulse''))
       (case im_get (x_sinks s) name of
          Some h \<Rightarrow> owned_sink_present name node h
        | None \<Rightarrow> (case mx of
            Some m \<Rightarrow> persistent_sink_present name node m
          | None \<Rightarrow> fail_with (unproven_sink name))))"

definition sink_absent :: "string \<Rightarrow> string \<Rightarrow> bool res mact" where
  "sink_absent name description = ask (\<lambda>s. case im_get (x_sinks s) name of
       None \<Rightarrow> create_owned_sink name description
     | Some h \<Rightarrow>
         (let missing = one_more (ow_missing h) in
          bnd (upd (\<lambda>s. s\<lparr>x_sinks := im_adjust (x_sinks s) name (\<lambda>h. h\<lparr>ow_missing := missing\<rparr>)\<rparr>)) (\<lambda>_.
          if missing < 3 then ret (Inr False)
          else bnd (upd (\<lambda>s. s\<lparr>x_sinks := im_shift_remove (x_sinks s) name\<rparr>)) (\<lambda>_. create_owned_sink name description))))"

definition ensure_sink :: "string \<Rightarrow> string \<Rightarrow> mix option \<Rightarrow> bool res mact" where
  "ensure_sink name description mx = ask (\<lambda>s. case graph_named (x_graph s) name of
       Some node \<Rightarrow> sink_present name node mx
     | None \<Rightarrow> guard_ok (\<not> im_contains (mg_names (x_graph s)) name) (identity_error (''Ambiguous sink name '' @ name))
         (sink_absent name description))"

subsection \<open>The mutes of captures\<close>

definition mute_awaited :: "bool observation" where
  "mute_awaited = Unknown (error_unavailable ''Capture mute is awaiting a matching observation'')"

definition hide_capture :: "string \<Rightarrow> mixer_graph \<Rightarrow> mixer_graph" where
  "hide_capture name g = g\<lparr>mg_captures :=
     map (\<lambda>c. if cap_node_name c = name then c\<lparr>cap_muted := mute_awaited\<rparr> else c) (mg_captures g)\<rparr>"

text \<open>The request as the clients have left it, if its binding is still current.\<close>

definition live_request :: "string \<Rightarrow> control \<Rightarrow> mute_request option" where
  "live_request name k = (case im_get (k_requests k) name of None \<Rightarrow> None
     | Some r \<Rightarrow> if bound (k_bindings k) name (mq_binding r) then Some r else None)"

definition request_met :: "string \<Rightarrow> mute_request \<Rightarrow> control \<Rightarrow> control" where
  "request_met name r k = (case im_get (k_requests k) name of None \<Rightarrow> k
     | Some current \<Rightarrow>
         if mq_muted current = mq_muted r \<and> mq_written current = mq_written r \<and> same_binding (mq_binding current) (mq_binding r)
         then k\<lparr>k_requests := im_shift_remove (k_requests k) name\<rparr> else k)"

definition request_written :: "string \<Rightarrow> mute_request \<Rightarrow> node_identity \<Rightarrow> control \<Rightarrow> control" where
  "request_written name r ident k = (case im_get (k_requests k) name of None \<Rightarrow> k
     | Some current \<Rightarrow>
         if mq_muted current = mq_muted r \<and> same_binding (mq_binding current) (mq_binding r)
         then k\<lparr>k_requests := im_adjust (k_requests k) name (\<lambda>c. c\<lparr>mq_written := Some ident\<rparr>)\<rparr> else k)"

definition write_capture_mute :: "string \<Rightarrow> mute_request \<Rightarrow> capture_snapshot \<Rightarrow> unit mact" where
  "write_capture_mute name r capture =
     bnd (called (GSetCaptureMute capture (mq_muted r)) gw_unit) (\<lambda>result. seq [
       upd (\<lambda>s. s\<lparr>x_graph := hide_capture name (x_graph s)\<rparr>),
       (case result of
          Inr _ \<Rightarrow> locked (\<lambda>k. ((), request_written name r (cap_identity capture) k))
        | Inl e \<Rightarrow> push_issue (mixer_issue name e))])"

definition meet_capture_mute :: "string \<Rightarrow> mute_request \<Rightarrow> unit mact" where
  "meet_capture_mute name r = ask (\<lambda>s. case filter (\<lambda>c. cap_node_name c = name) (mg_captures (x_graph s)) of
       [] \<Rightarrow> skip
     | capture # rest \<Rightarrow>
         if rest \<noteq> [] then push_issue (issue_text name ''Ambiguous capture identity'')
         else if mq_written r = Some (cap_identity capture) \<and> known (cap_muted capture) = Some (mq_muted r)
         then locked (\<lambda>k. ((), request_met name r k))
         else write_capture_mute name r capture)"

text \<open>\<open>True\<close> once the mixer has been stopped, which ends the loop.\<close>

definition sync_capture_mute :: "bool \<Rightarrow> string \<Rightarrow> bool mact" where
  "sync_capture_mute stopped name =
     (if stopped then ret True
      else bnd (locked (\<lambda>k. (if k_stopped k then None else Some (live_request name k), k))) (\<lambda>request.
        case request of
          None \<Rightarrow> ret True
        | Some None \<Rightarrow> ret False
        | Some (Some r) \<Rightarrow> bnd (meet_capture_mute name r) (\<lambda>_. ret False)))"

definition sync_capture_mutes :: "unit mact" where
  "sync_capture_mutes = bnd (locked (\<lambda>k. (im_keys (k_requests k), k))) (\<lambda>names.
     bnd (sweep sync_capture_mute False names) (\<lambda>_. skip))"

subsection \<open>The masters of mixes\<close>

definition level_pair_same :: "f64 \<times> bool \<Rightarrow> f64 \<times> bool \<Rightarrow> bool" where
  "level_pair_same a b \<longleftrightarrow> f64_eq (fst a) (fst b) \<and> snd a = snd b"

definition close_to :: "f64 \<times> bool \<Rightarrow> f64 \<times> bool \<Rightarrow> bool" where
  "close_to observed desired \<longleftrightarrow>
     f64_le (f64_abs (f64_sub (fst observed) (fst desired))) (lit (1 / 1000)) \<and> snd observed = snd desired"

definition master_target :: "desired_state \<Rightarrow> mix_id \<Rightarrow> f64 \<times> bool \<Rightarrow> f64 \<times> bool" where
  "master_target d i observed = (case im_get (ms_volumes (de_matrix d)) i of
     None \<Rightarrow> observed | Some l \<Rightarrow> (lv_volume l, lv_muted l))"

definition acknowledged :: "f64 \<times> bool \<Rightarrow> f64 \<times> bool \<Rightarrow> master \<Rightarrow> master" where
  "acknowledged observed desired m =
     (if ma_confirmed m \<and> option_same level_pair_same (ma_emitted m) (Some desired) \<and> close_to observed desired
      then m\<lparr>ma_requested := desired\<rparr> else m)"

definition put_master :: "mix_id \<Rightarrow> master \<Rightarrow> unit mact" where
  "put_master i m = upd (\<lambda>s. s\<lparr>x_masters := im_insert (x_masters s) i m\<rparr>)"

definition report_master :: "mix_id \<Rightarrow> node_identity \<Rightarrow> f64 \<times> bool \<Rightarrow> unit mact" where
  "report_master i ident observed = upd (\<lambda>s. s\<lparr>x_pending_masters := x_pending_masters s @ [(i, ident, observed)]\<rparr>)"

definition write_master :: "mix_id list \<Rightarrow> mix_id \<Rightarrow> mixer_node \<Rightarrow> f64 \<times> bool \<Rightarrow> mix_id list mact" where
  "write_master ready i node desired = ask (\<lambda>s.
     let restored = (case im_get (x_masters s) i of None \<Rightarrow> False
       | Some m \<Rightarrow> ma_identity m = nd_identity node \<and> ma_restored m) in
     bnd (called (GSetLevel (nd_id node) (fst desired) (snd desired)) gw_unit) (\<lambda>r. case r of
       Inr _ \<Rightarrow> bnd (put_master i \<lparr>ma_identity = nd_identity node, ma_requested = desired, ma_confirmed = False,
           ma_restored = restored, ma_emitted = None, ma_emitted_revision = None\<rparr>) (\<lambda>_.
           ret (if restored then i # ready else ready))
     | Inl e \<Rightarrow> bnd (seq [upd (\<lambda>s. s\<lparr>x_masters := im_shift_remove (x_masters s) i\<rparr>),
           push_issue (mixer_issue (''master:'' @ i) e)]) (\<lambda>_. ret ready)))"

definition settled_master ::
  "mix_id list \<Rightarrow> mix_id \<Rightarrow> mixer_node \<Rightarrow> f64 \<times> bool \<Rightarrow> f64 \<times> bool \<Rightarrow> master \<Rightarrow> mix_id list mact" where
  "settled_master ready i node observed desired m = ask (\<lambda>s.
     if \<not> level_pair_same (ma_requested m) desired then write_master ready i node desired
     else if ma_confirmed m
     then bnd (only_if (\<not> option_same level_pair_same (ma_emitted m) (Some observed) \<or> ma_emitted_revision m \<noteq> x_revision s)
         (report_master i (nd_identity node) observed)) (\<lambda>_. ret (i # ready))
     else if close_to observed desired
     then bnd (seq [put_master i (m\<lparr>ma_confirmed := True, ma_restored := True\<rparr>),
         report_master i (nd_identity node) observed]) (\<lambda>_. ret (i # ready))
     else write_master ready i node desired)"

definition sync_master :: "mix_id list \<Rightarrow> mix_id list \<Rightarrow> mix_id \<times> mix \<Rightarrow> mix_id list mact" where
  "sync_master available ready e = (case e of (i, mx) \<Rightarrow> ask (\<lambda>s.
     if i \<notin> set available
     then bnd (upd (\<lambda>s. s\<lparr>x_masters := im_shift_remove (x_masters s) i\<rparr>)) (\<lambda>_. ret ready)
     else case (im_get (mg_sinks (x_graph s)) (mix_sink mx), graph_named (x_graph s) (mix_sink mx)) of
         (Some sink, Some node) \<Rightarrow>
           (let observed = (sk_level sink, sk_muted sink);
                desired = master_target (snd (x_desired s)) i observed
            in case im_get (x_masters s) i of
                Some m \<Rightarrow>
                  if ma_identity m = nd_identity node
                  then (let m = acknowledged observed desired m in
                     bnd (put_master i m) (\<lambda>_. settled_master ready i node observed desired m))
                  else write_master ready i node desired
              | None \<Rightarrow> write_master ready i node desired)
       | _ \<Rightarrow> ret ready))"

definition sync_masters :: "mix_id list \<Rightarrow> mix_id list mact" where
  "sync_masters available = ask (\<lambda>s.
     bnd (sweep (sync_master available) [] (de_mixes (snd (x_desired s)))) (\<lambda>ready.
     bnd (upd (\<lambda>s. s\<lparr>x_masters := im_retain (\<lambda>i _. im_contains (de_mixes (snd (x_desired s))) i) (x_masters s)\<rparr>)) (\<lambda>_.
     ret ready)))"

subsection \<open>Links\<close>

definition node_ports :: "mixer_graph \<Rightarrow> bool \<Rightarrow> mixer_node \<Rightarrow> mixer_port list" where
  "node_ports g output node = filter (\<lambda>p. po_node p = nd_id node \<and> po_output p = output) (mg_ports g)"

definition link_origin :: "mixer_port list \<Rightarrow> nat \<Rightarrow> mixer_port \<Rightarrow> mixer_port" where
  "link_origin outputs index dest = (case List.find (\<lambda>p. po_channel p \<noteq> [] \<and> po_channel p = po_channel dest) outputs of
     Some p \<Rightarrow> p | None \<Rightarrow> outputs ! (index mod length outputs))"

definition link_port :: "mixer_port list \<Rightarrow> nat \<times> mixer_port \<Rightarrow> unit res mact" where
  "link_port outputs e = (case e of (index, dest) \<Rightarrow>
     let edge = (po_id (link_origin outputs index dest), po_id dest) in ask (\<lambda>s.
       if edge \<in> set (mg_links (x_graph s)) then ret (Inr ())
       else attempt (called (GLink (fst edge) (snd edge)) gw_unit) (\<lambda>_.
         done_ok [upd (\<lambda>s. s\<lparr>x_graph := (x_graph s)\<lparr>mg_links := List.insert edge (mg_links (x_graph s))\<rparr>\<rparr>)])))"

definition link_nodes :: "node_identity \<Rightarrow> node_identity \<Rightarrow> bool res mact" where
  "link_nodes source target = ask (\<lambda>s. case (graph_identity (x_graph s) source, graph_identity (x_graph s) target) of
       (Some a, Some b) \<Rightarrow>
         (let outputs = node_ports (x_graph s) True a; inputs = node_ports (x_graph s) False b in
          if outputs = [] \<or> inputs = [] then ret (Inr False)
          else attempt (each_try (link_port outputs) (enumerate 0 inputs)) (\<lambda>_. ret (Inr True)))
     | _ \<Rightarrow> ret (Inr False))"

subsection \<open>Routes\<close>

definition drop_route :: "route_key \<Rightarrow> unit res mact" where
  "drop_route key = ask (\<lambda>s. case im_get (x_routes s) key of
       None \<Rightarrow> ret (Inr ())
     | Some r \<Rightarrow> attempt (called (GTerminate (rt_child r)) gw_unit) (\<lambda>_.
         done_ok [upd (\<lambda>s. s\<lparr>x_routes := im_shift_remove (x_routes s) key\<rparr>)]))"

definition drop_each :: "('k \<Rightarrow> unit res mact) \<Rightarrow> 'k list \<Rightarrow> unit res mact" where
  "drop_each f keys = bnd (sweep (\<lambda>errors key. bnd (f key) (\<lambda>r. ret (case r of
       Inr _ \<Rightarrow> errors | Inl e \<Rightarrow> errors @ [err_message e]))) [] keys) (\<lambda>errors.
     if errors = [] then ret (Inr ()) else fail_with (error_unavailable (join_text ''; '' errors)))"

definition stop_routes :: "unit res mact" where
  "stop_routes = ask (\<lambda>s. drop_each drop_route (im_keys (x_routes s)))"

definition set_route :: "route_key \<Rightarrow> (mixer_route \<Rightarrow> mixer_route) \<Rightarrow> unit mact" where
  "set_route key f = upd (\<lambda>s. s\<lparr>x_routes := im_adjust (x_routes s) key f\<rparr>)"

definition applied_same :: "(node_identity \<times> f64 \<times> bool) option \<Rightarrow> (node_identity \<times> f64 \<times> bool) option \<Rightarrow> bool" where
  "applied_same a b \<longleftrightarrow> option_same (\<lambda>(i, l, m) (j, k, n). i = j \<and> f64_eq l k \<and> m = n) a b"

definition start_route :: "route_key \<Rightarrow> route_spec \<Rightarrow> string \<Rightarrow> bool res mact" where
  "start_route key spec name = ask (\<lambda>s.
     guard_ok (\<not> im_contains (mg_names (x_graph s)) name \<and> \<not> im_contains (mg_names (x_graph s)) (name @ ''_cap''))
       (identity_error (''Existing unowned route '' @ name @ ''; waiting for its exact owner to release it''))
       (bnd fresh_owner (\<lambda>own.
        attempt (called (GSpawnLoopback name own (rs_description spec)) gw_child) (\<lambda>child.
        bnd (upd (\<lambda>s. s\<lparr>x_routes := im_insert (x_routes s) key \<lparr>rt_child = child, rt_spec = spec, rt_name = name,
            rt_owner = own, rt_applied = None, rt_node = None, rt_missing = 0\<rparr>\<rparr>)) (\<lambda>_.
        ret (Inr False))))))"

definition route_missing :: "route_key \<Rightarrow> mixer_route \<Rightarrow> bool res mact" where
  "route_missing key r = (let missing = one_more (rt_missing r) in
     bnd (set_route key (\<lambda>r. r\<lparr>rt_node := None, rt_missing := missing\<rparr>)) (\<lambda>_.
     attempt (if 3 \<le> missing then drop_route key else ret (Inr ())) (\<lambda>_. ret (Inr False))))"

definition apply_route :: "route_key \<Rightarrow> f64 \<Rightarrow> bool \<Rightarrow> mixer_route \<Rightarrow> bool res mact" where
  "apply_route key level muted r = ask (\<lambda>s.
     case (graph_owned (x_graph s) (rt_name r) (rt_owner r), graph_owned (x_graph s) (rt_name r @ ''_cap'') (rt_owner r)) of
       (Some node, Some cap) \<Rightarrow>
         (let applied = (nd_identity node, level, muted) in
          bnd (set_route key (\<lambda>r. r\<lparr>rt_missing := 0, rt_node := Some (nd_id node)\<rparr>)) (\<lambda>_.
          attempt (if applied_same (rt_applied r) (Some applied) then ret (Inr ())
            else attempt (called (GSetLevel (nd_id node) level muted) gw_unit) (\<lambda>_.
              done_ok [set_route key (\<lambda>r. r\<lparr>rt_applied := Some applied\<rparr>)])) (\<lambda>_.
          attempt (case rs_target (rt_spec r) of None \<Rightarrow> ret (Inr True)
             | Some target \<Rightarrow> link_nodes (nd_identity node) target) (\<lambda>linked.
          if linked then link_nodes (rs_source (rt_spec r)) (nd_identity cap) else ret (Inr False)))))
     | _ \<Rightarrow> route_missing key r)"

definition route_replaced :: "route_key \<Rightarrow> route_spec \<Rightarrow> bool res mact" where
  "route_replaced key spec = ask (\<lambda>s. case im_get (x_routes s) key of
       None \<Rightarrow> ret (Inr False)
     | Some r \<Rightarrow> if rt_spec r \<noteq> spec then ret (Inr True)
         else attempt (called (GRunning (rt_child r)) gw_running) (\<lambda>running. ret (Inr (\<not> running))))"

definition reroute :: "route_key \<Rightarrow> route_spec \<Rightarrow> string \<Rightarrow> f64 \<Rightarrow> bool \<Rightarrow> bool res mact" where
  "reroute key spec name level muted =
     attempt (route_replaced key spec) (\<lambda>replace.
     attempt (if replace then drop_route key else ret (Inr ())) (\<lambda>_. ask (\<lambda>s.
     case im_get (x_routes s) key of
       None \<Rightarrow> start_route key spec name
     | Some r \<Rightarrow> apply_route key level muted r)))"

subsection \<open>Effects\<close>

text \<open>Five seconds, in nanoseconds.\<close>

definition FX_RETRY :: nat where "FX_RETRY = 5000000000"

definition drop_effect :: "source_id \<Rightarrow> unit res mact" where
  "drop_effect i = ask (\<lambda>s. case im_get (x_effects s) i of
       None \<Rightarrow> ret (Inr ())
     | Some e \<Rightarrow> attempt (called (GTerminate (ef_child e)) gw_unit) (\<lambda>_.
         done_ok [upd (\<lambda>s. s\<lparr>x_effects := im_shift_remove (x_effects s) i\<rparr>)]))"

definition stop_effects :: "unit res mact" where
  "stop_effects = ask (\<lambda>s. drop_each drop_effect (im_keys (x_effects s)))"

definition effect_spec_same :: "effect_spec \<Rightarrow> effect_spec \<Rightarrow> bool" where
  "effect_spec_same a b \<longleftrightarrow> ec_raw a = ec_raw b \<and> ec_channels a = ec_channels b \<and> source_same (ec_source a) (ec_source b)"

text \<open>Trim, mute, group and persisted channel metadata do not restart a filter.\<close>

definition effect_spec_of :: "capture_snapshot \<Rightarrow> u32 \<Rightarrow> source \<Rightarrow> effect_spec" where
  "effect_spec_of capture channels src = \<lparr>ec_raw = cap_identity capture, ec_channels = channels,
     ec_source = src\<lparr>src_level := FFin False 1, src_muted := False, src_group := [], src_extra := []\<rparr>\<rparr>"

text \<open>
  \<^verbatim>\<open>value["key"] = new\<close>, where \<open>f\<close> makes the new value of the old one: an absent key and a null are filled
  in. Indexing anything else by a key panics in the code; the configuration that is rendered has an
  object at each of the places, and the model leaves other values alone.
\<close>

definition json_set :: "string \<Rightarrow> (json \<Rightarrow> json) \<Rightarrow> json \<Rightarrow> json" where
  "json_set key f v = (case v of
       JObject m \<Rightarrow> JObject (im_upsert m key JNull f)
     | JNull \<Rightarrow> JObject [(key, f JNull)]
     | _ \<Rightarrow> v)"

definition filter_module :: "json \<Rightarrow> bool" where
  "filter_module v \<longleftrightarrow> jget v ''name'' = Some (JString ''libpipewire-module-filter-chain'')"

fun update_first :: "('a \<Rightarrow> bool) \<Rightarrow> ('a \<Rightarrow> 'a) \<Rightarrow> 'a list \<Rightarrow> 'a list option" where
  "update_first p f [] = None"
| "update_first p f (x # xs) = (if p x then Some (f x # xs) else map_option ((#) x) (update_first p f xs))"

definition aimed_props :: "string \<Rightarrow> json \<Rightarrow> json" where
  "aimed_props serial props =
     json_set ''target.object'' (\<lambda>_. JString serial) (json_set ''node.autoconnect'' (\<lambda>_. JBool False) props)"

definition aimed_config :: "string \<Rightarrow> json \<Rightarrow> json res" where
  "aimed_config serial config =
     rbind (ok_or (error_invalid ''Filter modules missing'') (Option.bind (jget config ''context.modules'') as_array)) (\<lambda>modules.
     rbind (ok_or (error_invalid ''Filter module missing'')
       (update_first filter_module (json_set ''args'' (json_set ''capture.props'' (aimed_props serial))) modules)) (\<lambda>modules.
       Inr (json_set ''context.modules'' (\<lambda>_. JArray modules) config)))"

definition effect_config :: "graph_world \<Rightarrow> source \<Rightarrow> effect_spec \<Rightarrow> string \<Rightarrow> json res" where
  "effect_config w src spec own =
     rbind (render_fx_config (gw_pretty w) src (ec_channels spec) own) (\<lambda>rendered.
     rbind (ok_or (error_invalid ''Active effects rendered no filter'') rendered) (\<lambda>text.
     rbind (gw_parse w text) (aimed_config (object_serial (ec_raw spec)))))"

definition start_effect :: "source_id \<Rightarrow> source \<Rightarrow> effect_spec \<Rightarrow> string \<Rightarrow> string \<Rightarrow> unit res mact" where
  "start_effect i src spec own name = ask (\<lambda>s.
     try_pure (effect_config (x_world s) src spec own) (\<lambda>config.
     attempt (called (GWriteFile config) gw_unit) (\<lambda>_.
     attempt (called (GSpawnFilter config) gw_child) (\<lambda>child.
     bnd clock (\<lambda>now.
     done_ok [upd (\<lambda>s. s\<lparr>x_effects := im_insert (x_effects s) i \<lparr>ef_child = child, ef_file = config,
       ef_spec = spec, ef_owner = own, ef_name = name, ef_started = now\<rparr>\<rparr>)])))))"

text \<open>The deadline is only read when the refused specification is the same.\<close>

definition effect_waiting :: "source_id \<Rightarrow> effect_spec \<Rightarrow> bool mact" where
  "effect_waiting i spec = ask (\<lambda>s. case im_get (x_effect_retry s) i of
       None \<Rightarrow> ret False
     | Some (old, deadline) \<Rightarrow>
         if effect_spec_same old spec then bnd clock (\<lambda>now. ret (now < deadline)) else ret False)"

definition fx_target :: "source_id \<Rightarrow> string" where
  "fx_target i = ''fx:'' @ i"

text \<open>\<open>False\<close> where the code goes on to the next source.\<close>

definition launch_effect :: "source_id \<Rightarrow> source \<Rightarrow> effect_spec \<Rightarrow> bool mact" where
  "launch_effect i src spec =
     bnd (effect_waiting i spec) (\<lambda>waiting.
     if waiting then bnd (push_issue (issue_text (fx_target i) ''Effects unavailable; retrying shortly'')) (\<lambda>_. ret False)
     else ask (\<lambda>s. let name = fx_node_name i in
       if im_contains (mg_names (x_graph s)) name \<or> im_contains (mg_names (x_graph s)) (name @ ''_cap'')
       then bnd (push_issue (issue_text (fx_target i) ''Existing unowned filter blocks startup'')) (\<lambda>_. ret False)
       else bnd clock (\<lambda>now.
         bnd (upd (\<lambda>s. s\<lparr>x_effect_retry := im_insert (x_effect_retry s) i (spec, now + FX_RETRY)\<rparr>)) (\<lambda>_.
         bnd fresh_owner (\<lambda>own.
         bnd (start_effect i src spec own name) (\<lambda>r. case r of
           Inr _ \<Rightarrow> ret True
         | Inl e \<Rightarrow> bnd (push_issue (mixer_issue (fx_target i) e)) (\<lambda>_. ret False)))))))"

definition effect_health :: "mixer_effect \<Rightarrow> node_identity option res mact" where
  "effect_health e = ask (\<lambda>s.
     case (graph_owned (x_graph s) (ef_name e) (ef_owner e), graph_owned (x_graph s) (ef_name e @ ''_cap'') (ef_owner e)) of
       (Some output, Some input) \<Rightarrow>
         attempt (link_nodes (ec_raw (ef_spec e)) (nd_identity input)) (\<lambda>linked.
           ret (Inr (if linked then Some (nd_identity output) else None)))
     | _ \<Rightarrow> ret (Inr None))"

text \<open>The sources with active effects: \<open>None\<close> for a filter that is not ready, and the ids that keep a filter.\<close>

type_synonym effect_scan = "(source_id, node_identity option) imap \<times> source_id list"

definition check_effect :: "effect_scan \<Rightarrow> source_id \<Rightarrow> mixer_effect \<Rightarrow> effect_scan res mact" where
  "check_effect scan i e = bnd clock (\<lambda>now.
     let timed_out = FX_RETRY < now - ef_started e in
     bnd (effect_health e) (\<lambda>health. case health of
       Inr (Some output) \<Rightarrow> ret (Inr (im_insert (fst scan) i (Some output), snd scan))
     | other \<Rightarrow>
        bnd (push_issue (issue_text (fx_target i) (case other of
          Inl e \<Rightarrow> err_message e | Inr _ \<Rightarrow> ''Effects starting or raw-input link unavailable''))) (\<lambda>_.
        attempt (if timed_out then drop_effect i else ret (Inr ())) (\<lambda>_. ret (Inr scan)))))"

definition effect_replaced :: "source_id \<Rightarrow> effect_spec \<Rightarrow> bool res mact" where
  "effect_replaced i spec = ask (\<lambda>s. case im_get (x_effects s) i of
       None \<Rightarrow> ret (Inr False)
     | Some e \<Rightarrow> if \<not> effect_spec_same (ef_spec e) spec then ret (Inr True)
         else attempt (called (GRunning (ef_child e)) gw_running) (\<lambda>running. ret (Inr (\<not> running))))"

definition keep_effect :: "effect_scan \<Rightarrow> source_id \<Rightarrow> source \<Rightarrow> effect_spec \<Rightarrow> effect_scan res mact" where
  "keep_effect scan i src spec =
     attempt (effect_replaced i spec) (\<lambda>replace.
     attempt (if replace then drop_effect i else ret (Inr ())) (\<lambda>_. ask (\<lambda>s.
     bnd (if im_contains (x_effects s) i then ret True else launch_effect i src spec) (\<lambda>there. ask (\<lambda>s.
       case im_get (x_effects s) i of
         Some e \<Rightarrow> if there then check_effect scan i e else ret (Inr scan)
       | None \<Rightarrow> ret (Inr scan))))))"

definition effects_wanted :: "source \<Rightarrow> bool" where
  "effects_wanted src \<longleftrightarrow> src_kind src = Device \<and> (case src_fx src of None \<Rightarrow> False | Some fx \<Rightarrow> fx_active fx)"

definition sync_effect :: "effect_scan \<Rightarrow> source_id \<times> source \<Rightarrow> effect_scan res mact" where
  "sync_effect scan e = (case e of (i, src) \<Rightarrow>
     if \<not> effects_wanted src then ret (Inr scan)
     else (let effective = im_insert (fst scan) i None in ask (\<lambda>s.
       case filter (\<lambda>c. cap_node_name c = src_node_name src) (mg_captures (x_graph s)) of
         [capture] \<Rightarrow> (case capture_channels (cap_channels capture) of
             Inl e \<Rightarrow> bnd (push_issue (mixer_issue (fx_target i) e)) (\<lambda>_. ret (Inr (effective, snd scan)))
           | Inr channels \<Rightarrow> keep_effect (effective, List.insert i (snd scan)) i src (effect_spec_of capture channels src))
       | _ \<Rightarrow> ret (Inr (effective, snd scan)))))"

definition sync_effects :: "(source_id, node_identity option) imap res mact" where
  "sync_effects = ask (\<lambda>s.
     attempt (sweep_try sync_effect ([], []) (de_sources (snd (x_desired s)))) (\<lambda>(effective, wanted). ask (\<lambda>s.
     attempt (each_try drop_effect (filter (\<lambda>i. i \<notin> set wanted) (im_keys (x_effects s)))) (\<lambda>_.
     bnd (upd (\<lambda>s. s\<lparr>x_effect_retry := im_retain (\<lambda>i _. i \<in> set wanted) (x_effect_retry s)\<rparr>)) (\<lambda>_.
     ret (Inr effective))))))"

end
