(* ===== verification/Mixer_Pass.thy ===== *)
theory Mixer_Pass
  imports Mixer_Ops
begin

text \<open>
  One pass of the worker of \<^verbatim>\<open>crates/openwave-runtime/src/mixer.rs\<close>: the quick path for edits of levels (\<^verbatim>\<open>retune\<close>),
  the full pass (\<^verbatim>\<open>reconcile\<close>) with its barrier, the restoration of streams, the removal of sinks, what is
  published (\<^verbatim>\<open>cycle\<close>), the loop (\<^verbatim>\<open>run\<close>) and the end (\<^verbatim>\<open>teardown\<close>).
\<close>

subsection \<open>Retuning in place\<close>

definition nonpositive :: "f64 \<Rightarrow> bool" where
  "nonpositive x \<longleftrightarrow> f64_le x (FFin False 0)"

definition same_shape :: "desired_state \<Rightarrow> desired_state \<Rightarrow> bool" where
  "same_shape old new \<longleftrightarrow> mixes_same (de_mixes old) (de_mixes new) \<and> scenes_same (de_scenes old) (de_scenes new) \<and>
     map_same (=) (ms_outputs (de_matrix old)) (ms_outputs (de_matrix new)) \<and>
     map_same level_same (ms_volumes (de_matrix old)) (ms_volumes (de_matrix new)) \<and>
     extra_same (ms_extra (de_matrix old)) (ms_extra (de_matrix new)) \<and>
     im_keys (de_sources old) = im_keys (de_sources new) \<and>
     im_keys (ms_cells (de_matrix old)) = im_keys (ms_cells (de_matrix new))"

text \<open>Nothing if the edit is of another kind, otherwise the cells that move with it.\<close>

definition source_touches :: "mixes \<Rightarrow> source \<Rightarrow> source_id \<times> source \<Rightarrow> (source_id \<times> mix_id) list option" where
  "source_touches ms before e = (case e of (i, src) \<Rightarrow>
     if f64_eq (src_level before) (src_level src) then (if source_same before src then Some [] else None)
     else if \<not> source_same (before\<lparr>src_level := src_level src\<rparr>) src \<or>
       nonpositive (src_level before) \<noteq> nonpositive (src_level src) then None
     else Some (map (\<lambda>m. (i, m)) (im_keys ms)))"

definition cell_of_key :: "desired_state \<Rightarrow> string \<Rightarrow> (source_id \<times> mix_id) option" where
  "cell_of_key d key = find_map (\<lambda>i.
     Option.bind (strip_prefix i key) (\<lambda>rest. Option.bind (strip_prefix ''.'' rest) (\<lambda>m.
       if m \<in> set (im_keys (de_mixes d)) then Some (i, m) else None))) (im_keys (de_sources d))"

definition cell_touches :: "desired_state \<Rightarrow> level_state \<Rightarrow> string \<times> level_state \<Rightarrow> (source_id \<times> mix_id) list option" where
  "cell_touches d before e = (case e of (key, cell) \<Rightarrow>
     if f64_eq (lv_volume before) (lv_volume cell) then (if level_same before cell then Some [] else None)
     else if lv_muted before \<noteq> lv_muted cell \<or> \<not> extra_same (lv_extra before) (lv_extra cell) \<or>
       nonpositive (lv_volume before) \<noteq> nonpositive (lv_volume cell) then None
     else map_option (\<lambda>c. [c]) (cell_of_key d key))"

fun collect_all :: "('a \<Rightarrow> 'b list option) \<Rightarrow> 'a list \<Rightarrow> 'b list option" where
  "collect_all f [] = Some []"
| "collect_all f (x # xs) = Option.bind (f x) (\<lambda>ys. map_option ((@) ys) (collect_all f xs))"

definition touched_cells :: "desired_state \<Rightarrow> desired_state \<Rightarrow> (source_id \<times> mix_id) list option" where
  "touched_cells old new = (if \<not> same_shape old new then None
     else Option.bind (collect_all (\<lambda>e. Option.bind (im_get (de_sources old) (fst e)) (\<lambda>before.
         source_touches (de_mixes new) before e)) (de_sources new)) (\<lambda>a.
       map_option (\<lambda>b. remdups (a @ b)) (collect_all (\<lambda>e. Option.bind (im_get (ms_cells (de_matrix old)) (fst e)) (\<lambda>before.
         cell_touches new before e)) (ms_cells (de_matrix new)))))"

type_synonym level_write = "route_key \<times> u32 \<times> node_identity \<times> f64 \<times> bool"

definition cell_level :: "source \<Rightarrow> level_state \<Rightarrow> f64" where
  "cell_level src cell = f64_mul (lv_volume cell) (src_level src)"

definition cell_muted :: "source \<Rightarrow> level_state \<Rightarrow> bool" where
  "cell_muted src cell \<longleftrightarrow> src_muted src \<or> lv_muted cell \<or> nonpositive (src_level src)"

definition retune_cell ::
  "desired_state \<Rightarrow> level_write list option \<Rightarrow> source_id \<times> mix_id \<Rightarrow> level_write list option mact" where
  "retune_cell d acc c = (case acc of None \<Rightarrow> ret None | Some writes \<Rightarrow> (case c of (i, m) \<Rightarrow> ask (\<lambda>s.
     case im_get (de_sources d) i of None \<Rightarrow> ret None | Some src \<Rightarrow>
       (let cell = matrix_cell (de_matrix d) i m; key = CellRoute i m;
            level = cell_level src cell; muted = cell_muted src cell
        in if nonpositive (lv_volume cell) then ret acc
        else case im_get (x_routes s) key of None \<Rightarrow> ret None
          | Some r \<Rightarrow> bnd (called (GRunning (rt_child r)) gw_running) (\<lambda>running.
              case (rt_applied r, rt_node r, running) of
                (Some (ident, applied, was_muted), Some node, Inr True) \<Rightarrow>
                  if was_muted \<noteq> muted then ret None
                  else if f64_eq applied level then ret acc
                  else ret (Some (writes @ [(key, node, ident, level, muted)]))
              | _ \<Rightarrow> ret None)))))"

definition write_level :: "bool \<Rightarrow> level_write \<Rightarrow> bool mact" where
  "write_level fine w = (case w of (key, node, ident, level, muted) \<Rightarrow>
     if \<not> fine then ret False
     else bnd (called (GSetVolume node level) gw_unit) (\<lambda>r. case r of
       Inl e \<Rightarrow> bnd (set_route key (\<lambda>r. r\<lparr>rt_node := None\<rparr>)) (\<lambda>_. ret False)
     | Inr _ \<Rightarrow> bnd (set_route key (\<lambda>r. r\<lparr>rt_applied := Some (ident, level, muted)\<rparr>)) (\<lambda>_. ret True)))"

definition retune :: "desired_state \<Rightarrow> bool mact" where
  "retune d = ask (\<lambda>s. case touched_cells (snd (x_desired s)) d of
       None \<Rightarrow> ret False
     | Some touched \<Rightarrow> bnd (sweep (retune_cell d) (Some []) touched) (\<lambda>writes. case writes of
           None \<Rightarrow> ret False
         | Some writes \<Rightarrow> if writes = [] then ret False else sweep write_level True writes))"

definition update_desired :: "u64 \<Rightarrow> nat \<times> desired_state \<Rightarrow> unit mact" where
  "update_desired revision desired = ask (\<lambda>s.
     only_if (\<not> (x_revision s = Some revision \<and> fst (x_desired s) = fst desired))
       (upd (\<lambda>s. s\<lparr>
          x_removed := foldl (\<lambda>m (name, evidence).
              if list_ex (\<lambda>mx. mix_sink mx = name) (im_values (de_mixes (snd desired))) then m else im_insert m name evidence)
            (x_removed s) (x_persistent s),
          x_matcher := matcher_new (gw_fold (x_world s)) (de_sources (snd desired)),
          x_desired := desired, x_revision := Some revision\<rparr>)))"

subsection \<open>Wave devices that are ready\<close>

definition name_stem :: "string \<Rightarrow> string \<Rightarrow> string option" where
  "name_stem prefix name = Option.bind (strip_prefix prefix name) (\<lambda>s. map_option fst (rsplit_once (CHR ''.'') s))"

definition wave_ready :: "output_snapshot \<Rightarrow> capture_snapshot list \<Rightarrow> (node_identity \<Rightarrow> bool) \<Rightarrow> bool" where
  "wave_ready output captures ready = (case name_stem ''alsa_output.'' (os_node_name output) of
       None \<Rightarrow> False
     | Some stem \<Rightarrow>
         (case filter (\<lambda>c. name_stem ''alsa_input.'' (cap_node_name c) = Some stem) captures of
            [capture] \<Rightarrow> ready (cap_identity capture)
          | _ \<Rightarrow> False))"

subsection \<open>Restoring streams\<close>

definition observe_again_failed :: "operation_error \<Rightarrow> unit mact" where
  "observe_again_failed e = upd (\<lambda>s. s\<lparr>x_pending_masters := [], x_discovery_error := Some e\<rparr>)"

text \<open>\<open>n\<close> further attempts after this one; between two attempts the code sleeps.\<close>

fun observe_again :: "nat \<Rightarrow> mixer_graph res mact" where
  "observe_again 0 = bnd (called GSnapshot gw_snapshot) (\<lambda>r. case r of
       Inr g \<Rightarrow> ret (Inr g)
     | Inl e \<Rightarrow> bnd (observe_again_failed e) (\<lambda>_. fail_with e))"
| "observe_again (Suc n) = bnd (called GSnapshot gw_snapshot) (\<lambda>r. case r of
       Inr g \<Rightarrow> ret (Inr g)
     | Inl e \<Rightarrow> bnd (observe_again_failed e) (\<lambda>_. observe_again n))"

definition cleanup_identity_error :: operation_error where
  "cleanup_identity_error = identity_error ''Server identity changed before cleanup; all destructive graph cleanup deferred''"

text \<open>\<^verbatim>\<open>attempts\<close> is at least one at every call.\<close>

definition fresh_cleanup_graph :: "nat \<Rightarrow> mixer_graph res mact" where
  "fresh_cleanup_graph attempts = attempt (observe_again (attempts - 1)) (\<lambda>g. ask (\<lambda>s.
     if x_cookie s = Some (mg_cookie g) then ret (Inr g)
     else bnd (observe_again_failed cleanup_identity_error) (\<lambda>_. fail_with cleanup_identity_error)))"

definition is_released :: "mixer \<Rightarrow> string list \<Rightarrow> string \<Rightarrow> bool" where
  "is_released s kept sink \<longleftrightarrow> im_contains (x_sinks s) sink \<and> sink \<notin> set kept"

definition strays :: "mixer \<Rightarrow> mixer_graph \<Rightarrow> string list \<Rightarrow> (node_identity \<times> string option) list" where
  "strays s g kept = map (\<lambda>st. (st_identity st, None)) (filter (\<lambda>st.
     \<not> im_contains (x_moved s) (st_identity st) \<and>
     (case st_sink st of None \<Rightarrow> False | Some sink \<Rightarrow> is_released s kept sink)) (mg_streams g))"

definition not_wave :: "output_snapshot \<Rightarrow> output_snapshot" where
  "not_wave o' = o'\<lparr>os_is_wave := False\<rparr>"

definition restore_target :: "mixer_graph \<Rightarrow> string option \<Rightarrow> string option" where
  "restore_target g original = or_else
     (Option.bind original (\<lambda>sink. if \<not> starts_with ''openwave_'' sink \<and>
        length (filter (\<lambda>o'. os_node_name o' = sink) (mg_outputs g)) = 1 then Some sink else None))
     (case resolve_output_with_wave ''auto'' (map not_wave (mg_outputs g)) (mg_default_sink g) None of
        Inr (Monitor output) \<Rightarrow> Some (os_node_name output) | _ \<Rightarrow> None)"

definition forget_moved :: "node_identity \<Rightarrow> unit mact" where
  "forget_moved ident = upd (\<lambda>s. s\<lparr>x_moved := im_shift_remove (x_moved s) ident\<rparr>)"

definition move_back :: "mixer_graph \<Rightarrow> stream_snapshot \<Rightarrow> string option \<Rightarrow> unit res mact" where
  "move_back g st original =
     try_pure (ok_or (error_unavailable (''No eligible non-OpenWave output for '' @ st_app_name st @ ''; move it to another output, then retry''))
       (restore_target g original)) (\<lambda>target. called (GMoveStream st target) gw_unit)"

definition restore_stream ::
  "mixer_graph \<Rightarrow> node_identity list \<Rightarrow> string list \<Rightarrow> string list \<Rightarrow> node_identity \<times> string option \<Rightarrow> string list mact" where
  "restore_stream g wanted kept retained e = (case e of (ident, original) \<Rightarrow> ask (\<lambda>s.
     if ident \<in> set wanted then ret retained
     else case List.find (\<lambda>st. st_identity st = ident) (mg_streams g) of
       None \<Rightarrow> bnd (forget_moved ident) (\<lambda>_. ret retained)
     | Some st \<Rightarrow> (case st_sink st of
         None \<Rightarrow> bnd (forget_moved ident) (\<lambda>_. ret retained)
       | Some intake \<Rightarrow>
          if \<not> starts_with ''openwave_src_'' intake \<and> \<not> is_released s kept intake
          then bnd (forget_moved ident) (\<lambda>_. ret retained)
          else if \<not> (case im_get (x_sinks s) intake of None \<Rightarrow> False
            | Some h \<Rightarrow> mg_cookie g = ow_cookie h \<and> graph_owned g intake (ow_owner h) \<noteq> None)
          then bnd (push_issue (issue_text intake ''Cannot restore from an unproven intake'')) (\<lambda>_. ret (List.insert intake retained))
          else bnd (move_back g st original) (\<lambda>r. case r of
            Inr _ \<Rightarrow> bnd (forget_moved ident) (\<lambda>_. ret retained)
          | Inl e \<Rightarrow> bnd (push_issue (issue_text (''stream:'' @ object_serial ident)
              (st_app_name st @ '' remains on '' @ intake @ '': '' @ err_message e))) (\<lambda>_. ret (List.insert intake retained))))))"

definition restore_streams :: "mixer_graph \<Rightarrow> node_identity list \<Rightarrow> string list \<Rightarrow> string list mact" where
  "restore_streams g wanted kept = ask (\<lambda>s.
     sweep (restore_stream g wanted kept) [] (x_moved s @ strays s g kept))"

subsection \<open>Removing sinks\<close>

definition forget_removed :: "string \<Rightarrow> unit mact" where
  "forget_removed name = upd (\<lambda>s. s\<lparr>x_removed := im_shift_remove (x_removed s) name\<rparr>)"

definition removal_done :: "string \<Rightarrow> unit res mact" where
  "removal_done name = done_ok [forget_removed name,
     upd (\<lambda>s. s\<lparr>x_persistent := im_shift_remove (x_persistent s) name\<rparr>)]"

definition complain :: "operation_issue \<Rightarrow> unit res mact" where
  "complain i = done_ok [push_issue i]"

definition destroy_persistent :: "string \<Rightarrow> persistent_sink \<Rightarrow> mixer_graph \<Rightarrow> unit res mact" where
  "destroy_persistent name evidence g = ask (\<lambda>s. case graph_named g name of
       Some node \<Rightarrow>
         if \<not> persistent_proof (x_world s) node evidence
         then complain (issue_text name ''Persistent sink identity changed; explicit removal refused'')
         else if list_ex (\<lambda>st. st_sink st = Some name) (mg_streams g)
         then complain (issue_text name ''Persistent sink still has streams'')
         else bnd (called (GDestroyNode (nd_id node)) gw_unit) (\<lambda>r. case r of
             Inl e \<Rightarrow> complain (mixer_issue name e) | Inr _ \<Rightarrow> removal_done name)
     | None \<Rightarrow> if im_contains (mg_names g) name then complain (issue_text name ''Ambiguous sink removal refused'')
         else removal_done name)"

definition remove_persistent :: "string list \<Rightarrow> nat \<Rightarrow> string \<times> persistent_sink \<Rightarrow> unit res mact" where
  "remove_persistent wanted attempts e = (case e of (name, evidence) \<Rightarrow>
     if name \<in> set wanted then done_ok [forget_removed name]
     else attempt (fresh_cleanup_graph attempts) (destroy_persistent name evidence))"

definition forget_sink :: "string \<Rightarrow> unit res mact" where
  "forget_sink name = done_ok [upd (\<lambda>s. s\<lparr>x_sinks := im_shift_remove (x_sinks s) name\<rparr>)]"

definition held_streams :: "string \<Rightarrow> mixer_graph \<Rightarrow> string list" where
  "held_streams name g = map st_app_name (filter (\<lambda>st. st_sink st = Some name) (mg_streams g))"

definition unload_owned :: "string \<Rightarrow> owned_sink \<Rightarrow> mixer_graph \<Rightarrow> unit res mact" where
  "unload_owned name h g = (case graph_named g name of
       Some node \<Rightarrow>
         if mg_cookie g \<noteq> ow_cookie h \<or> graph_owned g name (ow_owner h) = None \<or> module_id node \<noteq> Some (ow_module h)
         then complain (issue_text name ''Sink owner/module changed; unload refused'')
         else if held_streams name g \<noteq> []
         then complain (issue_text name (''Intake retained until all streams are restored; move '' @
           join_text '', '' (held_streams name g) @ '' to another output, then retry''))
         else bnd (called (GUnloadModule (ow_module h)) gw_unit) (\<lambda>r. case r of
             Inl e \<Rightarrow> complain (mixer_issue name e) | Inr _ \<Rightarrow> forget_sink name)
     | None \<Rightarrow> if im_contains (mg_names g) name then complain (issue_text name ''Ambiguous owned sink; unload refused'')
         else forget_sink name)"

definition remove_owned :: "nat \<Rightarrow> string \<times> owned_sink \<Rightarrow> unit res mact" where
  "remove_owned attempts e = (case e of (name, h) \<Rightarrow> attempt (fresh_cleanup_graph attempts) (unload_owned name h))"

definition cleanup_sinks :: "string list \<Rightarrow> nat \<Rightarrow> unit res mact" where
  "cleanup_sinks wanted attempts = ask (\<lambda>s.
     attempt (each_try (remove_persistent wanted attempts) (x_removed s)) (\<lambda>_. ask (\<lambda>s.
     each_try (remove_owned attempts) (filter (\<lambda>(name, h). name \<notin> set wanted) (x_sinks s)))))"

subsection \<open>The full pass\<close>

text \<open>What the loops of the pass collect.\<close>

record pass_plan =
  pl_routes :: "route_key list"
  pl_moves :: "node_identity list"
  pl_sinks :: "string list"
  pl_blocked :: "source_id list"

definition refresh_definitions :: "unit res mact" where
  "refresh_definitions = ask (\<lambda>s. let ms = de_mixes (snd (x_desired s)) in
     if option_same mixes_same (x_definitions s) (Some ms) then ret (Inr ())
     else attempt (called (GWriteDefinitions ms) gw_unit) (\<lambda>_. done_ok [upd (\<lambda>s. s\<lparr>x_definitions := Some ms\<rparr>)]))"

definition ensure_mix :: "mix_id list \<Rightarrow> mix_id \<times> mix \<Rightarrow> mix_id list mact" where
  "ensure_mix available e = (case e of (i, mx) \<Rightarrow>
     bnd (ensure_sink (mix_sink mx) (mix_description mx) (Some mx)) (\<lambda>r. case r of
       Inr there \<Rightarrow> ret (if there then i # available else available)
     | Inl e \<Rightarrow> bnd (push_issue (mixer_issue (''mix:'' @ i) e)) (\<lambda>_. ret available)))"

definition normalize_stream ::
  "(string \<Rightarrow> string) \<Rightarrow> (node_identity, stream_snapshot \<times> normalized_stream) imap \<Rightarrow> stream_snapshot \<Rightarrow>
   (node_identity, stream_snapshot \<times> normalized_stream) imap" where
  "normalize_stream cfold m st =
     (if (case im_get m (st_identity st) of None \<Rightarrow> True
        | Some (old, _) \<Rightarrow> st_app_name old \<noteq> st_app_name st \<or> st_node_name old \<noteq> st_node_name st \<or> st_binary old \<noteq> st_binary st)
      then im_insert m (st_identity st) (st, normalized_stream_new cfold st) else m)"

definition refresh_normalized :: "unit mact" where
  "refresh_normalized = upd (\<lambda>s. s\<lparr>x_normalized := foldl (normalize_stream (gw_fold (x_world s)))
     (im_retain (\<lambda>i _. i \<in> st_identity ` set (mg_streams (x_graph s))) (x_normalized s)) (mg_streams (x_graph s))\<rparr>)"

definition stream_claims :: "mixer \<Rightarrow> claims" where
  "stream_claims s = foldl (\<lambda>cl st. case im_get (x_normalized s) (st_identity st) of
       None \<Rightarrow> cl
     | Some (_, normalized) \<Rightarrow> (case owner (x_matcher s) normalized of
         None \<Rightarrow> cl | Some own \<Rightarrow> im_adjust cl own (\<lambda>v. v @ [st_identity st])))
     (im_collect (map (\<lambda>i. (i, [])) (im_keys (de_sources (snd (x_desired s)))))) (mg_streams (x_graph s))"

definition cell_state :: "desired_state \<Rightarrow> source_id \<Rightarrow> mix_id \<Rightarrow> f64 \<times> bool" where
  "cell_state d i m = (case im_get (ms_cells (de_matrix d)) (cell_key i m) of
     None \<Rightarrow> (FFin False 0, False) | Some c \<Rightarrow> (lv_volume c, lv_muted c))"

text \<open>A route whose source, mix, level, capture or filter is gone.\<close>

definition cell_gone ::
  "desired_state \<Rightarrow> mixer_graph \<Rightarrow> mix_id list \<Rightarrow> (source_id, node_identity option) imap \<Rightarrow> source_id \<Rightarrow> mix_id \<Rightarrow> bool" where
  "cell_gone d g ready effective i m \<longleftrightarrow> (case im_get (de_sources d) i of
       None \<Rightarrow> True
     | Some src \<Rightarrow> m \<notin> set ready \<or> nonpositive (fst (cell_state d i m)) \<or>
         (src_kind src = Device \<and> length (filter (\<lambda>c. cap_node_name c = src_node_name src) (mg_captures g)) \<noteq> 1) \<or>
         im_get effective i = Some None)"

definition must_be_silent :: "desired_state \<Rightarrow> source_id \<Rightarrow> mix_id \<Rightarrow> bool" where
  "must_be_silent d i m \<longleftrightarrow> (case im_get (de_sources d) i of None \<Rightarrow> True
     | Some src \<Rightarrow> src_muted src \<or> snd (cell_state d i m) \<or> nonpositive (src_level src))"

definition silent_level :: "desired_state \<Rightarrow> source_id \<Rightarrow> mix_id \<Rightarrow> f64" where
  "silent_level d i m = (case im_get (de_sources d) i of None \<Rightarrow> FFin False 0
     | Some src \<Rightarrow> f64_mul (fst (cell_state d i m)) (src_level src))"

definition silence_error :: "source_id \<Rightarrow> operation_error \<Rightarrow> operation_error" where
  "silence_error i e = error_unavailable (''Cannot silence '' @ i @ ''; group handover deferred: '' @ err_message e)"

definition silence_node :: "route_key \<Rightarrow> source_id \<Rightarrow> f64 \<Rightarrow> mixer_route \<Rightarrow> mixer_node \<Rightarrow> unit res mact" where
  "silence_node key i level r node =
     attempt
       (if nd_muted node \<noteq> Some True \<or> \<not> applied_same (rt_applied r) (Some (nd_identity node, level, True))
        then bnd (called (GSetLevel (nd_id node) level True) gw_unit) (\<lambda>result. case result of
            Inl e \<Rightarrow> fail_with (silence_error i e)
          | Inr _ \<Rightarrow> done_ok [set_route key (\<lambda>r. r\<lparr>rt_applied := Some (nd_identity node, level, True)\<rparr>)])
        else ret (Inr ()))
       (\<lambda>_. done_ok [set_route key (\<lambda>r. r\<lparr>rt_node := Some (nd_id node)\<rparr>)])"

definition silence_route :: "route_key \<Rightarrow> source_id \<Rightarrow> f64 \<Rightarrow> mixer_route \<Rightarrow> unit res mact" where
  "silence_route key i level r =
     attempt (called (GRunning (rt_child r)) gw_running) (\<lambda>running.
     if \<not> running then drop_route key
     else ask (\<lambda>s. case graph_owned (x_graph s) (rt_name r) (rt_owner r) of
         Some node \<Rightarrow> silence_node key i level r node
       | None \<Rightarrow> drop_route key))"

definition silence_cell :: "mix_id list \<Rightarrow> (source_id, node_identity option) imap \<Rightarrow> route_key \<Rightarrow> unit res mact" where
  "silence_cell ready effective key = (case key of
       CellRoute i m \<Rightarrow> ask (\<lambda>s. let d = snd (x_desired s) in
         if cell_gone d (x_graph s) ready effective i m then drop_route key
         else if must_be_silent d i m
         then (case im_get (x_routes s) key of None \<Rightarrow> ret (Inr ()) | Some r \<Rightarrow> silence_route key i (silent_level d i m) r)
         else ret (Inr ()))
     | _ \<Rightarrow> ret (Inr ()))"

definition is_cell :: "route_key \<Rightarrow> bool" where
  "is_cell key = (case key of CellRoute _ _ \<Rightarrow> True | _ \<Rightarrow> False)"

definition silence_cells :: "mix_id list \<Rightarrow> (source_id, node_identity option) imap \<Rightarrow> unit res mact" where
  "silence_cells ready effective = ask (\<lambda>s.
     each_try (silence_cell ready effective) (filter is_cell (im_keys (x_routes s))))"

subsection \<open>Opening\<close>

definition move_claimed :: "string \<Rightarrow> node_identity \<Rightarrow> unit mact" where
  "move_claimed name ident = ask (\<lambda>s. case List.find (\<lambda>st. st_identity st = ident) (mg_streams (x_graph s)) of
       None \<Rightarrow> skip
     | Some st \<Rightarrow> only_if (st_sink st \<noteq> Some name)
         (bnd (called (GMoveStream st name) gw_unit) (\<lambda>r. case r of
            Inr _ \<Rightarrow> upd (\<lambda>s. s\<lparr>x_moved := (if im_contains (x_moved s) ident then x_moved s
              else im_insert (x_moved s) ident
                (case st_sink st of None \<Rightarrow> None | Some k \<Rightarrow> if starts_with ''openwave_'' k then None else Some k))\<rparr>)
          | Inl e \<Rightarrow> push_issue (mixer_issue (''stream:'' @ object_serial ident) e))))"

definition app_capture ::
  "claims \<Rightarrow> pass_plan \<Rightarrow> source_id \<Rightarrow> source \<Rightarrow> (pass_plan \<times> node_identity option) mact" where
  "app_capture claims plan i src =
     (let name = source_sink_name i; streams = (case im_get claims i of None \<Rightarrow> [] | Some v \<Rightarrow> v);
          plan = plan\<lparr>pl_sinks := List.insert name (pl_sinks plan), pl_moves := streams @ pl_moves plan\<rparr>
      in bnd (ensure_sink name (src_name src) None) (\<lambda>r. case r of
        Inl e \<Rightarrow> bnd (push_issue (mixer_issue (''source:'' @ i) e)) (\<lambda>_. ret (plan, None))
      | Inr there \<Rightarrow> if \<not> there then ret (plan, None)
          else bnd (each (move_claimed name) streams) (\<lambda>_. ask (\<lambda>s.
            ret (plan, map_option nd_identity (graph_named (x_graph s) name))))))"

definition device_capture ::
  "(source_id, node_identity option) imap \<Rightarrow> pass_plan \<Rightarrow> source_id \<Rightarrow> source \<Rightarrow> (pass_plan \<times> node_identity option) mact" where
  "device_capture effective plan i src = ask (\<lambda>s.
     case filter (\<lambda>c. cap_node_name c = src_node_name src) (mg_captures (x_graph s)) of
       _ # _ # _ \<Rightarrow> bnd (push_issue (issue_text (''source:'' @ i) ''Ambiguous selected capture'')) (\<lambda>_. ret (plan, None))
     | raw \<Rightarrow> ret (plan, case im_get effective i of
           Some v \<Rightarrow> v
         | None \<Rightarrow> (case raw of [] \<Rightarrow> None | c # _ \<Rightarrow> Some (cap_identity c))))"

definition open_cell ::
  "mix_id list \<Rightarrow> source_id \<Rightarrow> source \<Rightarrow> node_identity \<Rightarrow> pass_plan \<Rightarrow> mix_id \<times> mix \<Rightarrow> pass_plan mact" where
  "open_cell ready i src capture plan e = (case e of (m, mx) \<Rightarrow> ask (\<lambda>s.
     let cell = cell_state (snd (x_desired s)) i m in
     if m \<notin> set ready \<or> nonpositive (fst cell) then ret plan
     else case graph_named (x_graph s) (mix_sink mx) of
       None \<Rightarrow> ret plan
     | Some node \<Rightarrow>
         (let plan = plan\<lparr>pl_routes := List.insert (CellRoute i m) (pl_routes plan)\<rparr> in
          bnd (reroute (CellRoute i m) \<lparr>rs_source = capture, rs_target = Some (nd_identity node), rs_description = None\<rparr>
            (cell_route_name i m) (f64_mul (fst cell) (src_level src))
            (src_muted src \<or> snd cell \<or> nonpositive (src_level src))) (\<lambda>r. case r of
              Inr _ \<Rightarrow> ret plan
            | Inl e \<Rightarrow> bnd (push_issue (mixer_issue (''cell:'' @ i @ ''.'' @ m) e)) (\<lambda>_.
                ret (plan\<lparr>pl_blocked := List.insert i (pl_blocked plan)\<rparr>))))))"

definition open_source ::
  "mix_id list \<Rightarrow> (source_id, node_identity option) imap \<Rightarrow> claims \<Rightarrow> pass_plan \<Rightarrow> source_id \<times> source \<Rightarrow> pass_plan mact" where
  "open_source ready effective claims plan e = (case e of (i, src) \<Rightarrow>
     bnd (if src_kind src = App then app_capture claims plan i src else device_capture effective plan i src) (\<lambda>(plan, capture).
     case capture of
       None \<Rightarrow> ret plan
     | Some c \<Rightarrow> ask (\<lambda>s. sweep (open_cell ready i src c) plan (de_mixes (snd (x_desired s))))))"

definition preferred_wave :: "mixer \<Rightarrow> string option" where
  "preferred_wave s = map_option os_node_name (first_min (\<lambda>a b. os_node_name a < os_node_name b)
     (filter (\<lambda>o'. eligible_output o' \<and> os_is_wave o' \<and> wave_ready o' (mg_captures (x_graph s)) (gw_ready (x_world s) (x_calls s)))
       (mg_outputs (x_graph s))))"

definition output_route_name :: "mix_id \<Rightarrow> string" where
  "output_route_name m = ''openwave_loop_output_'' @ m"

definition monitor_mix :: "node_identity \<Rightarrow> mix_id \<Rightarrow> pass_plan \<Rightarrow> output_snapshot \<Rightarrow> pass_plan res mact" where
  "monitor_mix source m plan output = ask (\<lambda>s.
     if os_is_wave output \<and> \<not> wave_ready output (mg_captures (x_graph s)) (gw_ready (x_world s) (x_calls s)) then ret (Inr plan)
     else bnd (reroute (OutputRoute m) \<lparr>rs_source = source, rs_target = Some (os_identity output), rs_description = None\<rparr>
         (output_route_name m) (FFin False 1) False) (\<lambda>r.
       bnd (case r of Inr _ \<Rightarrow> skip | Inl e \<Rightarrow> push_issue (mixer_issue (''output:'' @ m) e)) (\<lambda>_.
       ret (Inr (plan\<lparr>pl_routes := List.insert (OutputRoute m) (pl_routes plan)\<rparr>)))))"

definition route_mix :: "mix_id list \<Rightarrow> string option \<Rightarrow> pass_plan \<Rightarrow> mix_id \<times> mix \<Rightarrow> pass_plan res mact" where
  "route_mix ready preferred plan e = (case e of (m, mx) \<Rightarrow> ask (\<lambda>s.
     if m \<notin> set ready then ret (Inr plan)
     else case graph_named (x_graph s) (mix_sink mx) of
       None \<Rightarrow> ret (Inr plan)
     | Some node \<Rightarrow>
         bnd (reroute (CaptureRoute m) \<lparr>rs_source = nd_identity node, rs_target = None, rs_description = Some (mix_description mx)\<rparr>
           (mix_capture_name m) (FFin False 1) False) (\<lambda>r.
         bnd (case r of Inr _ \<Rightarrow> skip | Inl e \<Rightarrow> push_issue (mixer_issue (''capture:'' @ m) e)) (\<lambda>_. ask (\<lambda>s.
         try_pure (resolve_output_with_wave (matrix_output (de_matrix (snd (x_desired s))) m) (mg_outputs (x_graph s))
             (mg_default_sink (x_graph s)) preferred) (\<lambda>decision.
           let plan = plan\<lparr>pl_routes := List.insert (CaptureRoute m) (pl_routes plan)\<rparr> in
           case decision of
             Silent _ \<Rightarrow> ret (Inr plan)
           | Monitor output \<Rightarrow> monitor_mix (nd_identity node) m plan output))))))"

text \<open>The part of the pass after the barrier.\<close>

definition open_routes :: "mix_id list \<Rightarrow> (source_id, node_identity option) imap \<Rightarrow> claims \<Rightarrow> source_id list res mact" where
  "open_routes ready effective claims = ask (\<lambda>s.
     bnd (sweep (open_source ready effective claims)
       \<lparr>pl_routes = [], pl_moves = [], pl_sinks = map mix_sink (im_values (de_mixes (snd (x_desired s)))), pl_blocked = []\<rparr>
       (de_sources (snd (x_desired s)))) (\<lambda>plan. ask (\<lambda>s.
     attempt (sweep_try (route_mix ready (preferred_wave s)) plan (de_mixes (snd (x_desired s)))) (\<lambda>plan. ask (\<lambda>s.
     attempt (each_try drop_route (filter (\<lambda>k. k \<notin> set (pl_routes plan)) (im_keys (x_routes s)))) (\<lambda>_. ask (\<lambda>s.
     bnd (restore_streams (x_graph s) (pl_moves plan) (pl_sinks plan)) (\<lambda>retained.
     attempt (cleanup_sinks (pl_sinks plan @ retained) 1) (\<lambda>_.
     ret (Inr (pl_blocked plan)))))))))))"

definition prepare_pass :: "(mix_id list \<times> claims \<times> (source_id, node_identity option) imap) res mact" where
  "prepare_pass =
     attempt refresh_definitions (\<lambda>_.
     bnd sync_capture_mutes (\<lambda>_. ask (\<lambda>s.
     bnd (sweep ensure_mix [] (de_mixes (snd (x_desired s)))) (\<lambda>available.
     bnd (sync_masters available) (\<lambda>ready.
     bnd refresh_normalized (\<lambda>_. ask (\<lambda>s. let claims = stream_claims s in
     attempt sync_effects (\<lambda>effective. ret (Inr (ready, claims, effective))))))))))"

definition reconcile :: "source_id list res mact" where
  "reconcile =
     attempt prepare_pass (\<lambda>(ready, claims, effective).
     attempt (silence_cells ready effective) (\<lambda>_.
     open_routes ready effective claims))"

subsection \<open>What is published\<close>

definition sink_proof :: "mixer \<Rightarrow> mixer_graph \<Rightarrow> string \<Rightarrow> mixer_node \<Rightarrow> bool" where
  "sink_proof s g name node \<longleftrightarrow>
     (case im_get (x_sinks s) name of None \<Rightarrow> False
      | Some h \<Rightarrow> ow_cookie h = mg_cookie g \<and> graph_owned g name (ow_owner h) \<noteq> None \<and> module_id node = Some (ow_module h)) \<or>
     (case im_get (x_persistent s) name of None \<Rightarrow> False | Some p \<Rightarrow> persistent_proof (x_world s) node p)"

definition mix_node :: "mixer \<Rightarrow> mixer_graph \<Rightarrow> mix \<Rightarrow> mixer_node option" where
  "mix_node s g mx = (case graph_named g (mix_sink mx) of None \<Rightarrow> None
     | Some node \<Rightarrow> if im_contains (mg_sinks g) (mix_sink mx) \<and> sink_proof s g (mix_sink mx) node then Some node else None)"

definition mix_identities :: "mixer \<Rightarrow> mixer_graph \<Rightarrow> (mix_id, node_identity) imap" where
  "mix_identities s g = im_collect (List.map_filter (\<lambda>(i, mx). map_option (\<lambda>n. (i, nd_identity n)) (mix_node s g mx))
     (de_mixes (snd (x_desired s))))"

definition source_silent :: "mixer \<Rightarrow> mixer_graph \<Rightarrow> source_id \<Rightarrow> bool" where
  "source_silent s g i = list_all (\<lambda>(key, r). case key of
       CellRoute own _ \<Rightarrow> if own \<noteq> i then True else (case rt_applied r of
           None \<Rightarrow> False
         | Some (ident, _, muted) \<Rightarrow> muted \<and> (case graph_owned g (rt_name r) (rt_owner r) of
             None \<Rightarrow> False | Some node \<Rightarrow> nd_identity node = ident))
     | _ \<Rightarrow> True) (x_routes s)"

definition silent_source :: "mixer \<Rightarrow> mixer_graph \<Rightarrow> source_id list \<Rightarrow> source_id \<times> source \<Rightarrow> (source_id \<times> node_identity) option" where
  "silent_source s g blocked e = (case e of (i, src) \<Rightarrow>
     if src_kind src = Device \<and> src_muted src \<and> i \<notin> set blocked
     then (case filter (\<lambda>c. cap_node_name c = src_node_name src) (mg_captures g) of
         [capture] \<Rightarrow> if source_silent s g i then Some (i, cap_identity capture) else None
       | _ \<Rightarrow> None)
     else None)"

definition silent_sources :: "mixer \<Rightarrow> mixer_graph \<Rightarrow> source_id list \<Rightarrow> (source_id, node_identity) imap" where
  "silent_sources s g blocked = im_collect (List.map_filter (silent_source s g blocked) (de_sources (snd (x_desired s))))"

definition source_meter :: "meter_target list \<Rightarrow> source_id \<times> source \<Rightarrow> meter_target list mact" where
  "source_meter targets e = (case e of (i, src) \<Rightarrow> ask (\<lambda>s. let g = x_graph s; key = ''src:'' @ i in
     if src_kind src = Device
     then (case filter (\<lambda>c. cap_node_name c = src_node_name src) (mg_captures g) of
         [capture] \<Rightarrow> (case capture_channels (cap_channels capture) of
             Inr channels \<Rightarrow> ret (targets @ [\<lparr>tg_key = key, tg_node_name = cap_node_name capture,
               tg_identity = cap_identity capture, tg_raw = True, tg_channels = channels\<rparr>])
           | Inl e \<Rightarrow> bnd (push_issue (mixer_issue key e)) (\<lambda>_. ret targets))
       | _ \<Rightarrow> ret targets)
     else (let name = source_sink_name i in
       ret (targets @ (case im_get (x_sinks s) name of None \<Rightarrow> []
         | Some h \<Rightarrow> (case graph_owned g name (ow_owner h) of None \<Rightarrow> []
             | Some node \<Rightarrow> [\<lparr>tg_key = key, tg_node_name = name, tg_identity = nd_identity node, tg_raw = False, tg_channels = 2\<rparr>]))))))"

definition wave_meter :: "node_identity list \<Rightarrow> meter_target list \<Rightarrow> capture_snapshot \<Rightarrow> meter_target list mact" where
  "wave_meter raw targets capture = ask (\<lambda>s.
     if wave_name (cap_node_name capture) \<and> cap_identity capture \<notin> set raw \<and>
       graph_named (x_graph s) (cap_node_name capture) \<noteq> None
     then (case capture_channels (cap_channels capture) of
         Inr channels \<Rightarrow> ret (targets @ [\<lparr>tg_key = ''raw:'' @ object_serial (cap_identity capture),
           tg_node_name = cap_node_name capture, tg_identity = cap_identity capture, tg_raw = True, tg_channels = channels\<rparr>])
       | Inl e \<Rightarrow> bnd (push_issue (mixer_issue (cap_node_name capture) e)) (\<lambda>_. ret targets))
     else ret targets)"

definition mix_meters :: "mixer \<Rightarrow> mixer_graph \<Rightarrow> meter_target list" where
  "mix_meters s g = List.map_filter (\<lambda>(i, mx). map_option (\<lambda>node. \<lparr>tg_key = ''mix:'' @ i, tg_node_name = mix_sink mx,
     tg_identity = nd_identity node, tg_raw = False, tg_channels = 2\<rparr>) (mix_node s g mx)) (de_mixes (snd (x_desired s)))"

definition text_property :: "(f64 \<Rightarrow> string) \<Rightarrow> mixer_node \<Rightarrow> string \<Rightarrow> string option" where
  "text_property fl node key = json_text fl (im_get (nd_properties node) key)"

definition meter_proven :: "(f64 \<Rightarrow> string) \<Rightarrow> mixer_graph \<Rightarrow> meter_target \<Rightarrow> bool" where
  "meter_proven fl g t = (case graph_identity g (tg_identity t) of None \<Rightarrow> False
     | Some node \<Rightarrow> text_property fl node ''object.serial'' = Some (object_serial (tg_identity t)))"

definition retain_meter :: "meter_target list \<Rightarrow> meter_target \<Rightarrow> meter_target list mact" where
  "retain_meter kept t = ask (\<lambda>s.
     if meter_proven (gw_float (x_world s)) (x_graph s) t then ret (kept @ [t])
     else bnd (push_issue (issue_text (tg_key t)
       ''Meter unavailable: actual node object.serial missing; node ID cannot authorize a pw-cat target'')) (\<lambda>_. ret kept))"

definition meter_targets :: "meter_target list mact" where
  "meter_targets = ask (\<lambda>s.
     bnd (sweep source_meter [] (de_sources (snd (x_desired s)))) (\<lambda>targets.
     bnd (sweep (wave_meter (map tg_identity (filter tg_raw targets))) targets (mg_captures (x_graph s))) (\<lambda>targets. ask (\<lambda>s.
     sweep retain_meter [] (targets @ mix_meters s (x_graph s))))))"

subsection \<open>A cycle\<close>

definition blind_capture :: "operation_error \<Rightarrow> capture_snapshot \<Rightarrow> capture_snapshot" where
  "blind_capture e c = c\<lparr>cap_muted := Unknown e\<rparr>"

definition blind_observation :: "operation_error \<Rightarrow> operation_issue list \<Rightarrow> mixer_observation \<Rightarrow> mixer_observation" where
  "blind_observation e issues o' = o'\<lparr>mo_observation := Unknown e, mo_silent_sources := [],
     mo_captures := map (blind_capture e) (mo_captures o'), mo_errors := issues\<rparr>"

definition report_blind :: "operation_error \<Rightarrow> operation_issue list \<Rightarrow> unit mact" where
  "report_blind e issues = ask (\<lambda>s. bnd (send (Observed (blind_observation e issues (x_last s)))) (\<lambda>_. skip))"

text \<open>The process handles are ours, the identifiers of a server that is gone are not.\<close>

definition observe_cookie :: "u32 \<Rightarrow> unit res mact" where
  "observe_cookie cookie = ask (\<lambda>s.
     attempt (if x_cookie s \<noteq> None \<and> x_cookie s \<noteq> Some cookie
       then attempt stop_routes (\<lambda>_. attempt stop_effects (\<lambda>_. done_ok [upd (\<lambda>s. s\<lparr>x_sinks := [], x_persistent := [],
          x_removed := [], x_masters := [], x_moved := [], x_normalized := []\<rparr>)]))
       else ret (Inr ())) (\<lambda>_. done_ok [upd (\<lambda>s. s\<lparr>x_cookie := Some cookie\<rparr>)]))"

definition hide_requested :: "string list \<Rightarrow> mixer_graph \<Rightarrow> mixer_graph" where
  "hide_requested names g = g\<lparr>mg_captures :=
     map (\<lambda>c. if cap_node_name c \<in> set names then c\<lparr>cap_muted := mute_awaited\<rparr> else c) (mg_captures g)\<rparr>"

definition observation_of :: "mixer \<Rightarrow> meter_target list \<Rightarrow> (source_id, node_identity) imap \<Rightarrow> mixer_observation" where
  "observation_of s targets silent = (let g = x_graph s in \<lparr>mo_observation = Known (), mo_captures = mg_captures g,
     mo_streams = mg_streams g, mo_outputs = mg_outputs g, mo_default_sink = mg_default_sink g, mo_meter_targets = targets,
     mo_errors = x_issues s, mo_mix_identities = mix_identities s g, mo_silent_sources = silent,
     mo_revision = (case x_revision s of None \<Rightarrow> 0 | Some r \<Rightarrow> r)\<rparr>)"

text \<open>
  Under the lock, which is held until the observation has been sent: the captures that clients have asked
  to change in the meantime are hidden too.
\<close>

definition publish_observation :: "meter_target list \<Rightarrow> (source_id, node_identity) imap \<Rightarrow> unit mact" where
  "publish_observation targets silent =
     bnd (locked (\<lambda>k. (im_keys (k_requests k), k))) (\<lambda>names.
     bnd (upd (\<lambda>s. s\<lparr>x_graph := hide_requested names (x_graph s)\<rparr>)) (\<lambda>_.
     bnd (upd (\<lambda>s. s\<lparr>x_last := observation_of s targets silent\<rparr>)) (\<lambda>_. ask (\<lambda>s.
     bnd (send (Observed (x_last s))) (\<lambda>_. skip)))))"

definition publish_master :: "mix_id \<times> node_identity \<times> f64 \<times> bool \<Rightarrow> unit mact" where
  "publish_master e = (case e of (m, ident, level, muted) \<Rightarrow>
     bnd (locked (\<lambda>k. ((k_stopped k, k_revision k), k))) (\<lambda>(stopped, current). ask (\<lambda>s.
     case x_revision s of None \<Rightarrow> skip
     | Some revision \<Rightarrow>
        if stopped \<or> current \<noteq> revision \<or> im_get (mo_mix_identities (x_last s)) m \<noteq> Some ident then skip
        else bnd (send (MasterObserved m revision ident level muted)) (\<lambda>sent. only_if sent
          (upd (\<lambda>s. s\<lparr>x_masters := im_adjust (x_masters s) m (\<lambda>a. a\<lparr>ma_emitted := Some (level, muted),
             ma_emitted_revision := Some revision\<rparr>)\<rparr>))))))"

definition publish_masters :: "unit mact" where
  "publish_masters = ask (\<lambda>s. let pending = x_pending_masters s in
     bnd (upd (\<lambda>s. s\<lparr>x_pending_masters := []\<rparr>)) (\<lambda>_. each publish_master pending))"

definition reconcile_graph :: "mixer_graph \<Rightarrow> source_id list option mact" where
  "reconcile_graph g =
     bnd (observe_cookie (mg_cookie g)) (\<lambda>r. case r of
       Inl e \<Rightarrow> bnd (push_issue (mixer_issue ''graph'' e)) (\<lambda>_. ret None)
     | Inr _ \<Rightarrow> bnd reconcile (\<lambda>r. case r of
         Inr blocked \<Rightarrow> ret (Some blocked)
       | Inl e \<Rightarrow> bnd (push_issue (mixer_issue ''routing'' e)) (\<lambda>_. ret None)))"

definition cycle_with :: "mixer_graph \<Rightarrow> unit mact" where
  "cycle_with g =
     bnd (upd (\<lambda>s. s\<lparr>x_graph := g, x_issues := []\<rparr>)) (\<lambda>_.
     bnd (reconcile_graph g) (\<lambda>reconciled. ask (\<lambda>s. case x_discovery_error s of
       Some e \<Rightarrow> bnd (upd (\<lambda>s. s\<lparr>x_discovery_error := None\<rparr>)) (\<lambda>_. report_blind e (x_issues s))
     | None \<Rightarrow>
        bnd meter_targets (\<lambda>targets. ask (\<lambda>s.
        let silent = (case reconciled of None \<Rightarrow> [] | Some blocked \<Rightarrow> silent_sources s (x_graph s) blocked) in
        bnd (publish_observation targets silent) (\<lambda>_. publish_masters))))))"

definition mixer_cycle :: "unit mact" where
  "mixer_cycle =
     bnd (upd (\<lambda>s. s\<lparr>x_pending_masters := [], x_discovery_error := None\<rparr>)) (\<lambda>_.
     bnd (called GSnapshot gw_snapshot) (\<lambda>r. case r of
       Inl e \<Rightarrow> report_blind e [mixer_issue ''graph'' e]
     | Inr g \<Rightarrow> cycle_with g))"

subsection \<open>The end\<close>

definition issue_line :: "operation_issue \<Rightarrow> string" where
  "issue_line i = oi_target i @ '': '' @ oi_message i"

definition issues_error :: "operation_issue list \<Rightarrow> operation_error" where
  "issues_error issues = error_unavailable (join_text ''; '' (map issue_line issues))"

definition CLEANUP_ATTEMPTS :: nat where "CLEANUP_ATTEMPTS = 3"

text \<open>
  At most \<open>n\<close> rounds; the issues of the last round stay. The result is the intakes that are still in use.
\<close>

fun restore_rounds :: "nat \<Rightarrow> string list \<Rightarrow> string list res mact" where
  "restore_rounds 0 retained = ret (Inr retained)"
| "restore_rounds (Suc n) retained = attempt (fresh_cleanup_graph CLEANUP_ATTEMPTS) (\<lambda>g.
     bnd (upd (\<lambda>s. s\<lparr>x_issues := []\<rparr>)) (\<lambda>_.
     bnd (restore_streams g [] []) (\<lambda>retained.
     if retained = [] then ret (Inr []) else restore_rounds n retained)))"

text \<open>What the two stops left: an error if a child is still there, and otherwise the clean-up.\<close>

definition teardown_sinks :: "operation_issue list \<Rightarrow> unit res mact" where
  "teardown_sinks issues =
     bnd (upd (\<lambda>s. s\<lparr>x_issues := []\<rparr>)) (\<lambda>_.
     bnd (restore_rounds 3 []) (\<lambda>r. case r of
       Inl e \<Rightarrow> fail_with (issues_error (issues @ [mixer_issue ''cleanup'' e]))
     | Inr retained \<Rightarrow>
        bnd (upd (\<lambda>s. s\<lparr>x_issues := issues @ x_issues s\<rparr>)) (\<lambda>_.
        bnd (upd (\<lambda>s. s\<lparr>x_removed := []\<rparr>)) (\<lambda>_.
        bnd (cleanup_sinks retained CLEANUP_ATTEMPTS) (\<lambda>r.
        bnd (case r of Inr _ \<Rightarrow> skip | Inl e \<Rightarrow> push_issue (mixer_issue ''cleanup'' e)) (\<lambda>_. ask (\<lambda>s.
        guard_ok (x_issues s = []) (issues_error (x_issues s)) (ret (Inr ())))))))))"

definition stop_issue :: "string \<Rightarrow> unit res \<Rightarrow> operation_issue list" where
  "stop_issue target r = (case r of Inr _ \<Rightarrow> [] | Inl e \<Rightarrow> [mixer_issue target e])"

definition teardown :: "unit res mact" where
  "teardown = ask (\<lambda>s.
     if x_cookie s = None \<and> x_sinks s = [] \<and> x_routes s = [] \<and> x_effects s = [] then ret (Inr ())
     else bnd stop_routes (\<lambda>a. bnd stop_effects (\<lambda>b. ask (\<lambda>s.
       let issues = stop_issue ''routes'' a @ stop_issue ''effects'' b in
       guard_ok (x_routes s = [] \<and> x_effects s = []) (issues_error issues) (teardown_sinks issues)))))"

subsection \<open>The loop\<close>

text \<open>
  One turn of \<^verbatim>\<open>run\<close>, with the full pass that is owed after retunes: the time of the first and the time it
  is due. \<open>None\<close> ends the loop. Waiting for the clients to wake the worker changes nothing.
\<close>

definition RETUNE_SETTLE :: nat where "RETUNE_SETTLE = 250000000"

type_synonym owed_pass = "(nat \<times> nat) option"

definition take_wake :: "control \<Rightarrow> (bool \<times> bool \<times> (u64 \<times> nat \<times> desired_state) option) option \<times> control" where
  "take_wake k = (if k_stopped k then (None, k)
     else (Some (k_wake k, list_ex (\<lambda>r. mq_written r = None) (im_values (k_requests k)),
        map_option (\<lambda>d. (k_revision k, d)) (k_desired k)), k\<lparr>k_wake := False\<rparr>))"

definition pass_due :: "nat \<Rightarrow> nat \<Rightarrow> owed_pass \<Rightarrow> bool" where
  "pass_due interval now owed = (case owed of None \<Rightarrow> True | Some (first, quiet) \<Rightarrow> min quiet (first + interval) \<le> now)"

definition work :: "nat \<Rightarrow> owed_pass \<Rightarrow> bool \<Rightarrow> bool \<Rightarrow> nat \<Rightarrow> u64 \<Rightarrow> nat \<times> desired_state \<Rightarrow> owed_pass mact" where
  "work interval owed woken captures_pending now revision desired =
     (let first = (case owed of None \<Rightarrow> now | Some (first, _) \<Rightarrow> first) in
      bnd (if woken \<and> \<not> captures_pending \<and> now - first < interval then retune (snd desired) else ret False) (\<lambda>retuned.
      bnd (update_desired revision desired) (\<lambda>_.
      if retuned then ret (Some (first, now + min RETUNE_SETTLE interval))
      else if woken \<or> pass_due interval now owed then bnd mixer_cycle (\<lambda>_. ret None)
      else ret owed)))"

definition mixer_turn :: "nat \<Rightarrow> owed_pass \<Rightarrow> owed_pass option mact" where
  "mixer_turn interval owed =
     bnd (locked take_wake) (\<lambda>job. case job of
       None \<Rightarrow> ret None
     | Some (woken, captures_pending, update) \<Rightarrow>
        bnd clock (\<lambda>now.
        bnd (case update of None \<Rightarrow> ret owed | Some (revision, desired) \<Rightarrow>
          work interval owed woken captures_pending now revision desired) (\<lambda>owed.
        bnd (locked (\<lambda>k. (k_stopped k, k))) (\<lambda>stopped. ret (if stopped then None else Some owed)))))"

text \<open>\<open>n\<close> turns; if they end the loop, the mixer is torn down.\<close>

fun mixer_run :: "nat \<Rightarrow> nat \<Rightarrow> owed_pass \<Rightarrow> unit res option mact" where
  "mixer_run interval 0 owed = ret None"
| "mixer_run interval (Suc n) owed = bnd (mixer_turn interval owed) (\<lambda>next. case next of
       None \<Rightarrow> bnd teardown (\<lambda>r. ret (Some r))
     | Some owed \<Rightarrow> mixer_run interval n owed)"

definition observation_default :: mixer_observation where
  "observation_default = \<lparr>mo_observation = Unknown (error_unavailable ''Graph has not been observed''), mo_captures = [],
     mo_streams = [], mo_outputs = [], mo_default_sink = None, mo_meter_targets = [], mo_errors = [],
     mo_mix_identities = [], mo_silent_sources = [], mo_revision = 0\<rparr>"

definition mixer_new :: "graph_world \<Rightarrow> mixer" where
  "mixer_new w = \<lparr>x_world = w, x_calls = [], x_locks = 0, x_clock = 0, x_uuids = 0, x_sends = 0,
     x_control = control_default, x_events = [], x_graph = empty_graph 0 None, x_issues = [],
     x_desired = (0, desired_default), x_revision = None, x_matcher = matcher_new (gw_fold w) [],
     x_normalized = [], x_cookie = None, x_definitions = None, x_last = observation_default,
     x_discovery_error = None, x_sinks = [], x_persistent = [], x_removed = [], x_routes = [], x_effects = [],
     x_effect_retry = [], x_masters = [], x_moved = [], x_pending_masters = []\<rparr>"

end
