(* ===== verification/Mixer_Inv.thy ===== *)
theory Mixer_Inv
  imports Mixer_Pass
begin

text \<open>
  Invariants of the mixer. \<open>keeps P m\<close> says that the action keeps the predicate; the locale \<open>mixer_invariant\<close>
  names the steps that an invariant has to survive - calls, updates of fields it does not read, the
  lock, and the few updates of sinks, routes and effects - and carries it through the operations.
\<close>

definition keeps :: "('s \<Rightarrow> bool) \<Rightarrow> ('s, 'a) act \<Rightarrow> bool" where
  "keeps P m \<longleftrightarrow> (\<forall>s. P s \<longrightarrow> P (snd (m s)))"

lemma keepsI: "(\<And>s. P s \<Longrightarrow> P (snd (m s))) \<Longrightarrow> keeps P m"
  by (simp add: keeps_def)

lemma keepsD: "keeps P m \<Longrightarrow> P s \<Longrightarrow> P (snd (m s))"
  by (simp add: keeps_def)

lemma keeps_ret: "keeps P (ret x)"
  by (simp add: keeps_def)

lemma keeps_skip: "keeps P skip"
  by (simp add: keeps_def)

lemma keeps_fail: "keeps P (fail_with e)"
  by (simp add: keeps_def)

lemma keeps_bnd: "keeps P m \<Longrightarrow> (\<And>x. keeps P (k x)) \<Longrightarrow> keeps P (bnd m k)"
  by (simp add: keeps_def bnd_app)

text \<open>What is computed from the state may rely on the invariant.\<close>

lemma keeps_ask: "(\<And>s. P s \<Longrightarrow> keeps P (f s)) \<Longrightarrow> keeps P (ask f)"
  by (simp add: keeps_def)

text \<open>A stronger invariant may be taken for the rest, if it holds now.\<close>

lemma keeps_ask_stronger:
  "(\<And>s. P s \<Longrightarrow> \<exists>Q. Q s \<and> keeps Q (f s) \<and> (\<forall>t. Q t \<longrightarrow> P t)) \<Longrightarrow> keeps P (ask f)"
  by (fastforce simp: keeps_def)

lemma keeps_attempt: "keeps P m \<Longrightarrow> (\<And>x. keeps P (k x)) \<Longrightarrow> keeps P (attempt m k)"
  unfolding attempt_def by (intro keeps_bnd) (auto simp: keeps_ret split: sum.split)

lemma keeps_seq_Nil: "keeps P (seq [])"
  by (simp add: keeps_skip)

lemma keeps_seq_Cons: "keeps P m \<Longrightarrow> keeps P (seq ms) \<Longrightarrow> keeps P (seq (m # ms))"
  by (simp add: keeps_bnd)

lemma keeps_done_ok: "keeps P (seq ms) \<Longrightarrow> keeps P (done_ok ms)"
  unfolding done_ok_def by (intro keeps_bnd keeps_ret)

lemma keeps_each: "(\<And>x. x \<in> set xs \<Longrightarrow> keeps P (f x)) \<Longrightarrow> keeps P (each f xs)"
  by (induction xs) (auto simp: keeps_skip keeps_bnd)

lemma keeps_each_try: "(\<And>x. x \<in> set xs \<Longrightarrow> keeps P (f x)) \<Longrightarrow> keeps P (each_try f xs)"
  by (induction xs) (auto simp: keeps_ret keeps_attempt)

lemma keeps_sweep: "(\<And>b x. x \<in> set xs \<Longrightarrow> keeps P (f b x)) \<Longrightarrow> keeps P (sweep f b xs)"
  by (induction xs arbitrary: b) (auto simp: keeps_ret keeps_bnd)

lemma keeps_sweep_try: "(\<And>b x. x \<in> set xs \<Longrightarrow> keeps P (f b x)) \<Longrightarrow> keeps P (sweep_try f b xs)"
  by (induction xs arbitrary: b) (auto simp: keeps_ret keeps_attempt)

lemma keeps_try_pure: "(\<And>x. keeps P (k x)) \<Longrightarrow> keeps P (try_pure r k)"
  by (cases r) (simp_all add: keeps_ret)

lemma keeps_only_if: "keeps P m \<Longrightarrow> keeps P (only_if b m)"
  by (cases b) (simp_all add: keeps_skip)

lemma keeps_guard_ok: "keeps P m \<Longrightarrow> keeps P (guard_ok b e m)"
  by (cases b) (simp_all add: keeps_fail)

lemma keeps_if: "keeps P m \<Longrightarrow> keeps P n \<Longrightarrow> keeps P (if b then m else n)"
  by simp

lemma keeps_case_option: "keeps P m \<Longrightarrow> (\<And>x. keeps P (k x)) \<Longrightarrow> keeps P (case r of None \<Rightarrow> m | Some x \<Rightarrow> k x)"
  by (cases r) simp_all

lemma keeps_case_prod: "(\<And>x y. keeps P (k x y)) \<Longrightarrow> keeps P (case r of (x, y) \<Rightarrow> k x y)"
  by (cases r) simp

lemma keeps_case_sum: "(\<And>x. keeps P (h x)) \<Longrightarrow> (\<And>x. keeps P (k x)) \<Longrightarrow> keeps P (case r of Inl x \<Rightarrow> h x | Inr x \<Rightarrow> k x)"
  by (cases r) simp_all

lemma keeps_case_list: "keeps P m \<Longrightarrow> (\<And>x xs. keeps P (k x xs)) \<Longrightarrow> keeps P (case r of [] \<Rightarrow> m | x # xs \<Rightarrow> k x xs)"
  by (cases r) simp_all

lemma keeps_case_nat: "keeps P m \<Longrightarrow> (\<And>n. keeps P (k n)) \<Longrightarrow> keeps P (case r of 0 \<Rightarrow> m | Suc n \<Rightarrow> k n)"
  by (cases r) simp_all

lemma keeps_case_bool: "keeps P m \<Longrightarrow> keeps P n \<Longrightarrow> keeps P (case r of True \<Rightarrow> m | False \<Rightarrow> n)"
  by (cases r) simp_all

lemma keeps_case_key:
  "(\<And>i m. keeps P (f i m)) \<Longrightarrow> (\<And>m. keeps P (g m)) \<Longrightarrow> (\<And>m. keeps P (h m)) \<Longrightarrow>
   keeps P (case key of CellRoute i m \<Rightarrow> f i m | CaptureRoute m \<Rightarrow> g m | OutputRoute m \<Rightarrow> h m)"
  by (cases key) simp_all

lemma keeps_case_decision:
  "(\<And>o'. keeps P (f o')) \<Longrightarrow> (\<And>r. keeps P (g r)) \<Longrightarrow> keeps P (case d of Monitor o' \<Rightarrow> f o' | Silent r \<Rightarrow> g r)"
  by (cases d) simp_all

lemmas keeps_intros = keeps_ret keeps_skip keeps_fail keeps_bnd keeps_ask keeps_attempt keeps_seq_Nil keeps_seq_Cons
  keeps_done_ok keeps_each keeps_each_try keeps_sweep keeps_sweep_try keeps_try_pure keeps_only_if keeps_guard_ok
  keeps_if keeps_case_option keeps_case_prod keeps_case_sum keeps_case_list keeps_case_nat keeps_case_bool
  keeps_case_key keeps_case_decision

subsection \<open>The steps of the mixer\<close>

text \<open>Calls that neither make nor destroy anything that the mixer owns.\<close>

definition harmless_call :: "graph_call \<Rightarrow> bool" where
  "harmless_call c \<longleftrightarrow> (case c of
       GCreateSink _ _ _ \<Rightarrow> False | GUnloadModule _ \<Rightarrow> False | GSpawnLoopback _ _ _ \<Rightarrow> False
     | GSpawnFilter _ \<Rightarrow> False | GTerminate _ \<Rightarrow> False | _ \<Rightarrow> True)"

text \<open>The fields that describe neither the control, nor what is owned, nor the history, may change.\<close>

definition quiet :: "mixer \<Rightarrow> mixer \<Rightarrow> bool" where
  "quiet s t \<longleftrightarrow> x_world t = x_world s \<and> x_calls t = x_calls s \<and> x_control t = x_control s \<and>
     x_sinks t = x_sinks s \<and> x_routes t = x_routes s \<and> x_effects t = x_effects s \<and>
     x_desired t = x_desired s \<and> x_cookie t = x_cookie s \<and> x_persistent t = x_persistent s \<and> x_removed t = x_removed s"

text \<open>Updates of a route that neither replace its process nor open it.\<close>

definition tame :: "(mixer_route \<Rightarrow> mixer_route) \<Rightarrow> bool" where
  "tame f \<longleftrightarrow> (\<forall>r. rt_child (f r) = rt_child r \<and>
     (rt_applied (f r) = rt_applied r \<or> (\<exists>i l. rt_applied (f r) = Some (i, l, True))))"

text \<open>What the worker does to the control.\<close>

definition control_step :: "control \<Rightarrow> control \<Rightarrow> bool" where
  "control_step k k' \<longleftrightarrow> k' = k \<or> k' = k\<lparr>k_wake := False\<rparr> \<or>
     (\<exists>name. k' = k\<lparr>k_requests := im_shift_remove (k_requests k) name\<rparr>) \<or>
     (\<exists>name i. k' = k\<lparr>k_requests := im_adjust (k_requests k) name (\<lambda>c. c\<lparr>mq_written := i\<rparr>)\<rparr>)"

lemma control_steps:
  "control_step k (request_met name r k)" "control_step k (request_written name r ident k)"
  "control_step k (snd (take_wake k))" "control_step k k"
  by (auto simp: control_step_def request_met_def request_written_def take_wake_def split: option.split)

locale mixer_invariant =
  fixes P :: "mixer \<Rightarrow> bool"
  assumes plain: "\<And>c s. harmless_call c \<Longrightarrow> P s \<Longrightarrow> P (s\<lparr>x_calls := c # x_calls s\<rparr>)"
    and quietly: "\<And>s t. quiet s t \<Longrightarrow> P s \<Longrightarrow> P t"
    and control: "\<And>s rs k n. control_step (foldl serve (x_control s) rs) k \<Longrightarrow> P s \<Longrightarrow> P (s\<lparr>x_control := k, x_locks := n\<rparr>)"
    and tamely: "\<And>f key. tame f \<Longrightarrow> keeps P (set_route key f)"
    and persist: "\<And>s p. P s \<Longrightarrow> P (s\<lparr>x_persistent := p\<rparr>)"
    and removes: "\<And>s p. P s \<Longrightarrow> P (s\<lparr>x_removed := p\<rparr>)"
    and sink_count: "\<And>name n. keeps P (upd (\<lambda>s. s\<lparr>x_sinks := im_adjust (x_sinks s) name (\<lambda>h. h\<lparr>ow_missing := n\<rparr>)\<rparr>))"
    and sink_gone: "\<And>name. keeps P (upd (\<lambda>s. s\<lparr>x_sinks := im_shift_remove (x_sinks s) name\<rparr>))"
    and sink_made: "\<And>name description. keeps P (create_owned_sink name description)"
    and sink_unload: "\<And>ws n. keeps P (cleanup_sinks ws n)"
    and route_gone: "\<And>key. keeps P (drop_route key)"
    and effect_gone: "\<And>i. keeps P (drop_effect i)"
    and effect_made: "\<And>i src spec own name s. im_get (x_effects s) i = None \<Longrightarrow> P s \<Longrightarrow>
      P (snd (start_effect i src spec own name s))"
begin

lemma quiet_upd: "(\<And>s. quiet s (f s)) \<Longrightarrow> keeps P (upd f)"
  by (auto simp: keeps_def intro: quietly)

lemma plain_called: "harmless_call c \<Longrightarrow> keeps P (called c answer)"
  by (auto simp: keeps_def called_def bnd_app intro: plain)

lemma step_locked:
  assumes "\<And>k. control_step k (snd (f k))"
  shows "keeps P (locked f)"
proof (rule keepsI)
  fix s
  assume "P s"
  let ?rs = "gw_requests (x_world s) (x_locks s)"
  show "P (snd (locked f s))"
    using control [of s ?rs "snd (f (foldl serve (x_control s) ?rs))" "Suc (x_locks s)", OF assms \<open>P s\<close>]
    by (simp add: locked_def bnd_app case_prod_beta)
qed

lemma keeps_clock: "keeps P clock"
  unfolding clock_def by (intro keeps_intros quiet_upd) (simp add: quiet_def)

lemma keeps_owner: "keeps P fresh_owner"
  unfolding fresh_owner_def by (intro keeps_intros quiet_upd) (simp add: quiet_def)

lemma keeps_send: "keeps P (send e)"
  unfolding send_def by (intro keeps_intros quiet_upd) (simp_all add: quiet_def)

lemma keeps_push: "keeps P (push_issue i)"
  unfolding push_issue_def by (intro quiet_upd) (simp add: quiet_def)

lemma keeps_put_master: "keeps P (put_master i m)"
  unfolding put_master_def by (intro quiet_upd) (simp add: quiet_def)

lemma keeps_report_master: "keeps P (report_master i ident observed)"
  unfolding report_master_def by (intro quiet_upd) (simp add: quiet_def)

lemmas small_steps = keeps_clock keeps_owner keeps_send keeps_push keeps_put_master keeps_report_master

lemma keeps_upd_persistent: "keeps P (upd (\<lambda>s. s\<lparr>x_persistent := f s\<rparr>))"
  by (simp add: keeps_def persist)

lemma keeps_upd_removed: "keeps P (upd (\<lambda>s. s\<lparr>x_removed := f s\<rparr>))"
  by (simp add: keeps_def removes)

lemma keeps_ensure_sink: "keeps P (ensure_sink name description mx)"
  unfolding ensure_sink_def sink_present_def sink_absent_def owned_sink_present_def persistent_sink_present_def Let_def
  by (intro keeps_intros sink_count sink_gone sink_made keeps_upd_persistent)

lemma keeps_capture_mutes: "keeps P sync_capture_mutes"
  unfolding sync_capture_mutes_def sync_capture_mute_def meet_capture_mute_def write_capture_mute_def
  by (intro keeps_intros step_locked plain_called small_steps quiet_upd)
     (simp_all add: control_steps harmless_call_def quiet_def)

lemma keeps_masters: "keeps P (sync_masters available)"
  unfolding sync_masters_def sync_master_def settled_master_def write_master_def Let_def
  by (intro keeps_intros plain_called small_steps quiet_upd) (simp_all add: harmless_call_def quiet_def)

lemma keeps_link_nodes: "keeps P (link_nodes a b)"
  unfolding link_nodes_def link_port_def Let_def
  by (intro keeps_intros plain_called quiet_upd) (simp_all add: harmless_call_def quiet_def)

lemma keeps_drop_each: "(\<And>k. keeps P (f k)) \<Longrightarrow> keeps P (drop_each f ks)"
  unfolding drop_each_def by (intro keeps_intros)

lemma keeps_stop_routes: "keeps P stop_routes"
  unfolding stop_routes_def by (intro keeps_intros keeps_drop_each route_gone)

lemma keeps_stop_effects: "keeps P stop_effects"
  unfolding stop_effects_def by (intro keeps_intros keeps_drop_each effect_gone)

text \<open>A filter is only launched for a source that has none.\<close>

lemma keeps_launch:
  assumes "im_get (x_effects s) i = None" "P s"
  shows "P (snd (launch_effect i src spec s))"
proof -
  define es where "es = x_effects s"
  let ?Q = "\<lambda>s. P s \<and> x_effects s = es"
  have quiet: "keeps ?Q (upd f)" if "\<And>s. quiet s (f s)" for f
    using quiet_upd [OF that] that by (simp add: keeps_def quiet_def)
  have small: "keeps ?Q clock" "keeps ?Q fresh_owner" "keeps ?Q (push_issue j)" for j
    unfolding clock_def fresh_owner_def push_issue_def by (intro keeps_intros quiet; simp add: quiet_def)+
  have waiting: "keeps ?Q (effect_waiting i spec)"
    unfolding effect_waiting_def by (intro keeps_intros small)
  have start: "P (snd (bnd (start_effect i src spec own name) k t))" if "?Q t" "\<And>x. keeps P (k x)" for own name k t
    using effect_made [of t i src spec own name] that assms(1) by (simp add: bnd_app keeps_def es_def)
  have into: "P (snd (bnd m k t))" if "keeps ?Q m" "\<And>x t. ?Q t \<Longrightarrow> P (snd (k x t))" "?Q t" for m k t
    using that by (simp add: bnd_app keeps_def)
  have rest: "keeps P (case r of Inr _ \<Rightarrow> ret True
         | Inl e \<Rightarrow> bnd (push_issue (mixer_issue (fx_target i) e)) (\<lambda>_. ret False))" for r :: "unit res"
    by (intro keeps_intros small_steps)
  have go: "P (snd (bnd clock (\<lambda>now.
         bnd (upd (\<lambda>s. s\<lparr>x_effect_retry := im_insert (x_effect_retry s) i (spec, now + FX_RETRY)\<rparr>)) (\<lambda>_.
         bnd fresh_owner (\<lambda>own.
         bnd (start_effect i src spec own name) (\<lambda>r. case r of
           Inr _ \<Rightarrow> ret True
         | Inl e \<Rightarrow> bnd (push_issue (mixer_issue (fx_target i) e)) (\<lambda>_. ret False))))) t))" if "?Q t" for name t
    by (rule into [OF small(1) _ that], rule into [OF quiet _], simp add: quiet_def, rule into [OF small(2)],
        rule start [OF _ rest]) auto
  have pushed: "P (snd (bnd (push_issue j) (\<lambda>_. ret False) t))" if "?Q t" for j t
    using small(3) [of j] that by (simp add: bnd_app keeps_def)
  have "?Q s" using assms(2) by (simp add: es_def)
  then show ?thesis
    unfolding launch_effect_def by (rule into [OF waiting, rotated]) (simp add: pushed go Let_def)
qed

lemma keeps_keep_effect: "keeps P (keep_effect scan i src spec)"
proof -
  have check: "keeps P (check_effect scan i e)" for e
    unfolding check_effect_def effect_health_def Let_def
    by (intro keeps_intros keeps_link_nodes small_steps effect_gone)
  have launch: "keeps P (ask (\<lambda>s. bnd (if im_contains (x_effects s) i then ret True else launch_effect i src spec) k))"
    if "\<And>there. keeps P (k there)" for k :: "bool \<Rightarrow> 'a mact"
  proof (rule keepsI)
    fix s
    assume s: "P s"
    have "P (snd (launch_effect i src spec s))" if "\<not> im_contains (x_effects s) i"
      using keeps_launch [OF _ s] that by (simp add: im_contains_def)
    then show "P (snd (ask (\<lambda>s. bnd (if im_contains (x_effects s) i then ret True else launch_effect i src spec) k) s))"
      using that s by (cases "im_contains (x_effects s) i") (simp_all add: bnd_app keeps_def)
  qed
  show ?thesis
    unfolding keep_effect_def effect_replaced_def
    by (intro keeps_bnd keeps_attempt keeps_ask keeps_if keeps_ret keeps_case_option launch check effect_gone plain_called)
      (simp add: harmless_call_def)
qed

lemma keeps_effects: "keeps P sync_effects"
  unfolding sync_effects_def sync_effect_def Let_def
  by (intro keeps_intros keeps_keep_effect small_steps quiet_upd effect_gone) (simp_all add: quiet_def)

lemma keeps_refresh: "keeps P refresh_definitions" "keeps P refresh_normalized"
  unfolding refresh_definitions_def refresh_normalized_def Let_def
  by (intro keeps_intros plain_called quiet_upd; simp add: harmless_call_def quiet_def)+

lemma keeps_prepare: "keeps P prepare_pass"
  unfolding prepare_pass_def ensure_mix_def Let_def
  by (intro keeps_intros keeps_refresh keeps_capture_mutes keeps_masters keeps_effects keeps_ensure_sink small_steps)

lemma keeps_silence_cell: "keeps P (silence_cell ready effective key)"
  unfolding silence_cell_def silence_route_def silence_node_def Let_def
  by (intro keeps_intros plain_called tamely route_gone) (auto simp: harmless_call_def tame_def)

lemma keeps_silence: "keeps P (silence_cells ready effective)"
  unfolding silence_cells_def by (intro keeps_intros keeps_silence_cell)

lemma keeps_captures:
  "keeps P (app_capture claims plan i src)" "keeps P (device_capture effective plan i src)"
  unfolding app_capture_def device_capture_def move_claimed_def Let_def
  by (intro keeps_intros keeps_ensure_sink plain_called small_steps quiet_upd; simp add: harmless_call_def quiet_def)+

lemma keeps_failed: "keeps P (observe_again_failed e)"
  unfolding observe_again_failed_def by (intro quiet_upd) (simp add: quiet_def)

lemma keeps_observe_again: "keeps P (observe_again n)"
  by (induction n) (simp_all add: keeps_intros keeps_failed plain_called harmless_call_def split: sum.split)

lemma keeps_fresh: "keeps P (fresh_cleanup_graph n)"
  unfolding fresh_cleanup_graph_def by (intro keeps_intros keeps_observe_again keeps_failed)

lemma keeps_restore: "keeps P (restore_streams g wanted kept)"
  unfolding restore_streams_def restore_stream_def move_back_def forget_moved_def
  by (intro keeps_intros plain_called quiet_upd small_steps) (simp_all add: harmless_call_def quiet_def)

lemma keeps_meters: "keeps P meter_targets"
  unfolding meter_targets_def source_meter_def wave_meter_def retain_meter_def Let_def
  by (intro keeps_intros small_steps)

lemma keeps_publish: "keeps P (publish_observation targets silent)" "keeps P publish_masters" "keeps P (report_blind e issues)"
  unfolding publish_observation_def publish_masters_def publish_master_def report_blind_def Let_def
  by (intro keeps_intros step_locked small_steps quiet_upd; simp add: control_steps quiet_def)+

end

end
