(* ===== verification/Mixer_Frame.thy ===== *)
theory Mixer_Frame
  imports Mixer_Inv
begin

text \<open>
  The invariants of \<open>Mixer_Inv\<close> carried through the routines of a full pass, the turn of the worker and its
  end, with what these routines leave unchanged.
\<close>

subsection \<open>Invariants through a full pass\<close>

text \<open>\<open>good key muted\<close> says that the invariant allows a route to be set to that mute.\<close>

definition wanted_mute :: "desired_state \<Rightarrow> source_id \<Rightarrow> source \<Rightarrow> mix_id \<Rightarrow> bool" where
  "wanted_mute d i src m \<longleftrightarrow> src_muted src \<or> snd (cell_state d i m) \<or> nonpositive (src_level src)"

locale mixer_opening = mixer_invariant +
  fixes good :: "route_key \<Rightarrow> bool \<Rightarrow> bool"
  assumes rerouted: "good key muted \<Longrightarrow> keeps P (reroute key spec name level muted)"
    and good_cell: "P s \<Longrightarrow> P t \<Longrightarrow> (i, src) \<in> set (de_sources (snd (x_desired s))) \<Longrightarrow>
      good (CellRoute i m) (wanted_mute (snd (x_desired t)) i src m)"
    and good_mix: "good (CaptureRoute m) False" "good (OutputRoute m) False"
    and server: "P s \<Longrightarrow> P (s\<lparr>x_cookie := Some cookie\<rparr>)"
    and cleared: "P s \<Longrightarrow> P (s\<lparr>x_sinks := [], x_persistent := [], x_removed := [], x_masters := [], x_moved := [], x_normalized := []\<rparr>)"
begin

lemma keeps_open_cell:
  assumes "P s" "(i, src) \<in> set (de_sources (snd (x_desired s)))"
  shows "keeps P (open_cell ready i src capture plan e)"
  unfolding open_cell_def Let_def
  by (intro keeps_intros rerouted small_steps good_cell [OF assms(1) _ assms(2), unfolded wanted_mute_def])

lemma keeps_open_source:
  assumes "P s" "e \<in> set (de_sources (snd (x_desired s)))"
  shows "keeps P (open_source ready effective claims plan e)"
proof -
  obtain i src where e: "e = (i, src)" by (cases e)
  show ?thesis
    unfolding open_source_def e prod.case
    by (intro keeps_intros keeps_captures keeps_open_cell [OF assms(1) assms(2) [unfolded e]])
qed

lemma keeps_route_mix: "keeps P (route_mix ready preferred plan e)"
  unfolding route_mix_def monitor_mix_def Let_def
  by (intro keeps_intros rerouted small_steps good_mix)

lemma keeps_open_routes: "keeps P (open_routes ready effective claims)"
  unfolding open_routes_def
  by (intro keeps_intros keeps_open_source keeps_route_mix route_gone keeps_restore sink_unload)

lemma keeps_reconcile: "keeps P reconcile"
  unfolding reconcile_def by (intro keeps_intros keeps_prepare keeps_silence keeps_open_routes)

lemma keeps_observe_cookie: "keeps P (observe_cookie c)"
  unfolding observe_cookie_def
  by (intro keeps_intros keeps_stop_routes keeps_stop_effects) (simp_all add: keeps_def server cleared)

lemma keeps_cycle: "keeps P mixer_cycle"
  unfolding mixer_cycle_def cycle_with_def reconcile_graph_def Let_def
  by (intro keeps_intros keeps_observe_cookie keeps_reconcile keeps_meters keeps_publish small_steps plain_called quiet_upd)
     (simp_all add: harmless_call_def quiet_def)

end

subsection \<open>Invariants of what neither calls nor sinks matter to\<close>

locale mixer_still =
  fixes P :: "mixer \<Rightarrow> bool"
  assumes calls: "P s \<Longrightarrow> P (s\<lparr>x_calls := c # x_calls s\<rparr>)"
    and still: "quiet s t \<Longrightarrow> P s \<Longrightarrow> P t"
begin

lemma any_called: "keeps P (called c answer)"
  by (auto simp: keeps_def called_def bnd_app intro: calls)

lemma view_quiet: "(\<And>s. quiet s (f s)) \<Longrightarrow> keeps P (upd f)"
  by (auto simp: keeps_def intro: still)

lemma view_push: "keeps P (push_issue i)" "keeps P (complain i)"
  unfolding complain_def push_issue_def by (intro keeps_intros view_quiet; simp add: quiet_def)+

lemma view_failed: "keeps P (observe_again_failed e)"
  unfolding observe_again_failed_def by (intro view_quiet) (simp add: quiet_def)

lemma view_clock: "keeps P clock" "keeps P fresh_owner"
  unfolding clock_def fresh_owner_def by (intro keeps_intros view_quiet; simp add: quiet_def)+

lemma view_observe: "keeps P (observe_again n)"
  by (induction n) (simp_all add: keeps_intros view_failed any_called split: sum.split)

lemma view_fresh: "keeps P (fresh_cleanup_graph n)"
  unfolding fresh_cleanup_graph_def by (intro keeps_intros view_observe view_failed)

lemma view_restore: "keeps P (restore_streams g wanted kept)"
  unfolding restore_streams_def restore_stream_def move_back_def forget_moved_def
  by (intro keeps_intros any_called view_quiet view_push) (simp_all add: quiet_def)

lemma view_restore_rounds: "keeps P (restore_rounds n retained)"
proof (induction n arbitrary: retained)
  case 0
  show ?case unfolding restore_rounds.simps by (rule keeps_ret)
next
  case (Suc n)
  show ?case
    unfolding restore_rounds.simps
    by (intro keeps_intros view_fresh view_restore view_quiet Suc) (simp add: quiet_def)
qed

end

locale mixer_frame = mixer_still +
  assumes sinks: "P s \<Longrightarrow> P (s\<lparr>x_sinks := m\<rparr>)"
    and persists: "P s \<Longrightarrow> P (s\<lparr>x_persistent := p\<rparr>)"
    and removed: "P s \<Longrightarrow> P (s\<lparr>x_removed := p\<rparr>)"
begin

lemma view_forget: "keeps P (forget_removed name)"
  by (simp add: forget_removed_def keeps_def removed)

lemmas view_small = view_push view_failed view_clock view_forget

lemma view_cleanup: "keeps P (cleanup_sinks ws n)"
  unfolding cleanup_sinks_def remove_persistent_def destroy_persistent_def removal_done_def remove_owned_def unload_owned_def
    forget_sink_def
  by (intro keeps_intros view_fresh view_small any_called) (simp_all add: keeps_def persists sinks)

lemma view_issues: "keeps P (upd (\<lambda>s. s\<lparr>x_issues := f s\<rparr>))"
  by (intro view_quiet) (simp add: quiet_def)

lemma view_teardown_sinks: "keeps P (teardown_sinks issues)"
  unfolding teardown_sinks_def
  by (intro keeps_intros view_restore_rounds view_cleanup view_small view_issues) (simp add: keeps_def removed)

end

locale mixer_view = mixer_frame +
  assumes locks: "control_step (foldl serve (x_control s) rs) k \<Longrightarrow> P s \<Longrightarrow> P (s\<lparr>x_control := k, x_locks := n\<rparr>)"
    and routes: "tame f \<Longrightarrow> P s \<Longrightarrow> P (s\<lparr>x_routes := im_adjust (x_routes s) key f\<rparr>)"
    and less_routes: "P s \<Longrightarrow> P (s\<lparr>x_routes := im_shift_remove (x_routes s) key\<rparr>)"
    and effects: "P s \<Longrightarrow> P (s\<lparr>x_effects := es\<rparr>)"

sublocale mixer_view \<subseteq> mixer_invariant
proof
  show "keeps P (cleanup_sinks ws n)" for ws n by (rule view_cleanup)
  show "keeps P (create_owned_sink name description)" for name description
    unfolding create_owned_sink_def by (intro keeps_intros view_small any_called) (simp add: keeps_def sinks)
  show "keeps P (drop_route key)" for key
    unfolding drop_route_def by (intro keeps_intros any_called) (simp add: keeps_def less_routes)
  show "keeps P (drop_effect i)" for i
    unfolding drop_effect_def by (intro keeps_intros any_called) (simp add: keeps_def effects)
  have "keeps P (start_effect i src spec own name)" for i src spec own name
    unfolding start_effect_def by (intro keeps_intros any_called view_small) (simp add: keeps_def effects)
  then show "P (snd (start_effect i src spec own name s))" if "P s" for i src spec own name s
    using that by (simp add: keeps_def)
qed (simp_all add: calls still locks persists removed keeps_def set_route_def routes sinks)

subsection \<open>What a pass opens\<close>

definition route_open :: "mixer_route \<Rightarrow> bool" where
  "route_open r \<longleftrightarrow> (case rt_applied r of None \<Rightarrow> False | Some (_, _, muted) \<Rightarrow> \<not> muted)"

definition cell_open :: "mixer \<Rightarrow> source_id \<Rightarrow> mix_id \<Rightarrow> bool" where
  "cell_open s i m \<longleftrightarrow> (case im_get (x_routes s) (CellRoute i m) of None \<Rightarrow> False | Some r \<Rightarrow> route_open r)"

lemma tame_open:
  assumes "tame f" "route_open (f r)"
  shows "route_open r"
proof -
  have "rt_applied (f r) = rt_applied r \<or> (\<exists>i l. rt_applied (f r) = Some (i, l, True))"
    using assms(1) unfolding tame_def by blast
  then show ?thesis using assms(2) by (elim disjE exE) (simp_all add: route_open_def)
qed

definition opens_within :: "(source_id \<Rightarrow> mix_id \<Rightarrow> bool) \<Rightarrow> desired_state \<Rightarrow> mixer \<Rightarrow> bool" where
  "opens_within A d s \<longleftrightarrow> snd (x_desired s) = d \<and> (\<forall>i m. cell_open s i m \<longrightarrow> A i m)"

lemma cell_open_routes: "x_routes t = x_routes s \<Longrightarrow> cell_open t = cell_open s"
  by (simp add: cell_open_def [abs_def])

interpretation opens: mixer_view "opens_within A d" for A d
proof
  show "opens_within A d t" if "quiet s t" "opens_within A d s" for s t
    using that cell_open_routes [of t s] by (simp add: quiet_def opens_within_def)
  show "opens_within A d (s\<lparr>x_routes := im_adjust (x_routes s) key f\<rparr>)" if "tame f" "opens_within A d s" for f s key
  proof -
    have "cell_open (s\<lparr>x_routes := im_adjust (x_routes s) key f\<rparr>) i m \<Longrightarrow> cell_open s i m" for i m
      using tame_open [OF that(1)] by (auto simp: cell_open_def split: option.splits if_splits)
    then show ?thesis using that(2) by (auto simp: opens_within_def)
  qed
  show "opens_within A d (s\<lparr>x_routes := im_shift_remove (x_routes s) key\<rparr>)" if "opens_within A d s" for s key
    using that by (auto simp: opens_within_def cell_open_def split: if_splits)
qed (auto simp: opens_within_def cell_open_def)

lemma cell_open_adjust:
  "cell_open (s\<lparr>x_routes := im_adjust (x_routes s) key f\<rparr>) i m \<Longrightarrow>
   cell_open s i m \<or> key = CellRoute i m \<and> (\<exists>r. im_get (x_routes s) key = Some r \<and> route_open (f r))"
  by (auto simp: cell_open_def split: option.splits if_splits)

text \<open>A route may be set to a mute if that does not open it, or if it may be open.\<close>

definition may_open :: "(source_id \<Rightarrow> mix_id \<Rightarrow> bool) \<Rightarrow> route_key \<Rightarrow> bool \<Rightarrow> bool" where
  "may_open A key muted \<longleftrightarrow> muted \<or> (case key of CellRoute i m \<Rightarrow> A i m | _ \<Rightarrow> True)"

lemma opens_set_route:
  assumes "may_open A key muted"
  shows "keeps (opens_within A d) (set_route key (\<lambda>r. r\<lparr>rt_applied := Some (ident, level, muted)\<rparr>))"
  using assms cell_open_adjust [of _ key "\<lambda>r. r\<lparr>rt_applied := Some (ident, level, muted)\<rparr>"]
  by (fastforce simp: keeps_def set_route_def opens_within_def may_open_def route_open_def)

lemma opens_start: "keeps (opens_within A d) (start_route key spec name)"
  unfolding start_route_def
  by (intro keeps_intros opens.any_called opens.view_small) (auto simp: keeps_def opens_within_def cell_open_def route_open_def)

lemma opens_reroute:
  assumes "may_open A key muted"
  shows "keeps (opens_within A d) (reroute key spec name level muted)"
  unfolding reroute_def route_replaced_def apply_route_def route_missing_def Let_def
  by (intro keeps_intros opens.any_called opens.view_small opens_start opens_set_route assms opens.route_gone
      opens.keeps_link_nodes opens.tamely) (simp_all add: tame_def)

definition wanted_open :: "desired_state \<Rightarrow> source_id \<Rightarrow> mix_id \<Rightarrow> bool" where
  "wanted_open d i m \<longleftrightarrow> list_ex (\<lambda>(j, src). j = i \<and> \<not> wanted_mute d i src m) (de_sources d)"

interpretation opened: mixer_opening "opens_within (wanted_open d) d" "may_open (wanted_open d)" for d
proof
  show "keeps (opens_within (wanted_open d) d) (reroute key spec name level muted)"
    if "may_open (wanted_open d) key muted" for key muted spec name level
    using that by (rule opens_reroute)
  show "may_open (wanted_open d) (CellRoute i m) (wanted_mute (snd (x_desired t)) i src m)"
    if "opens_within (wanted_open d) d s" "opens_within (wanted_open d) d t" "(i, src) \<in> set (de_sources (snd (x_desired s)))"
    for s t i src m
    using that by (auto simp: opens_within_def may_open_def wanted_open_def list_ex_iff)
qed (auto simp: may_open_def opens_within_def cell_open_def)

end
