(* ===== verification/Mixer_Own.thy ===== *)
theory Mixer_Own
  imports Mixer_Frame
begin

text \<open>
  Invariants of whole runs: the mixer destroys only what it has made.
\<close>

subsection \<open>Invariants through a run\<close>

locale mixer_life = mixer_opening +
  assumes level_written: "keeps P (write_level fine w)"
    and desired_changed: "P s \<Longrightarrow> P (s\<lparr>x_removed := r, x_matcher := mt, x_desired := d, x_revision := v\<rparr>)"
begin

lemma keeps_retune: "keeps P (retune d)"
  unfolding retune_def retune_cell_def Let_def
  by (intro keeps_intros plain_called level_written) (simp add: harmless_call_def)

lemma keeps_update: "keeps P (update_desired revision d)"
  unfolding update_desired_def by (intro keeps_intros) (simp add: keeps_def desired_changed)

lemma keeps_turn: "keeps P (mixer_turn interval owed)"
  unfolding mixer_turn_def work_def Let_def
  by (intro keeps_intros step_locked small_steps keeps_retune keeps_update keeps_cycle) (simp_all add: control_steps)

lemma keeps_restore_rounds: "keeps P (restore_rounds n retained)"
proof (induction n arbitrary: retained)
  case 0
  show ?case unfolding restore_rounds.simps by (rule keeps_ret)
next
  case (Suc n)
  show ?case
    unfolding restore_rounds.simps
    by (intro keeps_intros keeps_fresh keeps_restore quiet_upd Suc) (simp add: quiet_def)
qed

lemma keeps_teardown: "keeps P teardown"
  unfolding teardown_def teardown_sinks_def Let_def
  by (intro keeps_intros keeps_stop_routes keeps_stop_effects keeps_restore_rounds keeps_upd_removed sink_unload
      small_steps quiet_upd) (simp_all add: quiet_def)

lemma keeps_run: "keeps P (mixer_run interval n owed)"
proof (induction n arbitrary: owed)
  case 0
  show ?case unfolding mixer_run.simps by (rule keeps_ret)
next
  case (Suc n)
  show ?case unfolding mixer_run.simps by (intro keeps_intros keeps_turn keeps_teardown Suc)
qed

end

text \<open>Predicates that do not depend on routes and calls either.\<close>

locale mixer_free = mixer_view +
  assumes any_routes: "P s \<Longrightarrow> P (s\<lparr>x_routes := rs\<rparr>)"
    and any_cookie: "P s \<Longrightarrow> P (s\<lparr>x_cookie := Some c\<rparr>)"
    and any_clear: "P s \<Longrightarrow> P (s\<lparr>x_sinks := [], x_persistent := [], x_removed := [], x_masters := [], x_moved := [], x_normalized := []\<rparr>)"
    and any_desired: "P s \<Longrightarrow> P (s\<lparr>x_removed := r, x_matcher := mt, x_desired := d, x_revision := v\<rparr>)"
begin

lemma free_set_route: "keeps P (set_route key f)"
  by (simp add: keeps_def set_route_def any_routes)

lemma free_reroute: "keeps P (reroute key spec name level muted)"
  unfolding reroute_def route_replaced_def apply_route_def route_missing_def start_route_def Let_def
  by (intro keeps_intros any_called view_small free_set_route route_gone keeps_link_nodes) (simp add: keeps_def any_routes)

lemma free_write: "keeps P (write_level fine w)"
  unfolding write_level_def by (intro keeps_intros any_called free_set_route)

end

sublocale mixer_free \<subseteq> mixer_life P "\<lambda>_ _. True"
  by unfold_locales (simp_all add: free_reroute free_write any_cookie any_clear any_desired)

interpretation world: mixer_free "\<lambda>s. x_world s = w" for w
  by unfold_locales (simp_all add: quiet_def)

subsection \<open>Only what is its own\<close>

text \<open>The modules that calls have loaded, and the processes they have started, by the answers they got.\<close>

fun created :: "graph_world \<Rightarrow> graph_call list \<Rightarrow> u32 list" where
  "created w [] = []"
| "created w (c # cs) = (case c of
     GCreateSink _ _ _ \<Rightarrow> (case gw_module w (c # cs) of Inr m \<Rightarrow> [m] | Inl _ \<Rightarrow> []) | _ \<Rightarrow> []) @ created w cs"

fun spawned :: "graph_world \<Rightarrow> graph_call list \<Rightarrow> nat list" where
  "spawned w [] = []"
| "spawned w (c # cs) = (case c of
     GSpawnLoopback _ _ _ \<Rightarrow> (case gw_child w (c # cs) of Inr p \<Rightarrow> [p] | Inl _ \<Rightarrow> [])
   | GSpawnFilter _ \<Rightarrow> (case gw_child w (c # cs) of Inr p \<Rightarrow> [p] | Inl _ \<Rightarrow> [])
   | _ \<Rightarrow> []) @ spawned w cs"

fun own_calls :: "graph_world \<Rightarrow> graph_call list \<Rightarrow> bool" where
  "own_calls w [] = True"
| "own_calls w (c # cs) = ((case c of
     GUnloadModule m \<Rightarrow> m \<in> set (created w cs) | GTerminate p \<Rightarrow> p \<in> set (spawned w cs) | _ \<Rightarrow> True) \<and> own_calls w cs)"

definition own_state :: "u32 set \<Rightarrow> mixer \<Rightarrow> bool" where
  "own_state M s \<longleftrightarrow> own_calls (x_world s) (x_calls s) \<and> M \<subseteq> set (created (x_world s) (x_calls s)) \<and>
     (\<forall>e\<in>set (x_sinks s). ow_module (snd e) \<in> set (created (x_world s) (x_calls s))) \<and>
     (\<forall>e\<in>set (x_routes s). rt_child (snd e) \<in> set (spawned (x_world s) (x_calls s))) \<and>
     (\<forall>e\<in>set (x_effects s). ef_child (snd e) \<in> set (spawned (x_world s) (x_calls s)))"

lemma created_plain: "harmless_call c \<Longrightarrow> created w (c # cs) = created w cs"
  and spawned_plain: "harmless_call c \<Longrightarrow> spawned w (c # cs) = spawned w cs"
  and own_calls_plain: "harmless_call c \<Longrightarrow> own_calls w (c # cs) = own_calls w cs"
  by (cases c; simp add: harmless_call_def)+

lemma im_insert_mem: "e \<in> set (im_insert m k v) \<Longrightarrow> e = (k, v) \<or> e \<in> set m"
  by (induction m k v rule: im_insert.induct) (auto split: if_splits)

lemma im_adjust_mem: "e \<in> set (im_adjust m k f) \<Longrightarrow> e \<in> set m \<or> (\<exists>v. (fst e, v) \<in> set m \<and> snd e = f v)"
  by (induction m k f rule: im_adjust.induct) (auto split: if_splits)

lemma own_plain: "harmless_call c \<Longrightarrow> own_state M s \<Longrightarrow> own_state M (s\<lparr>x_calls := c # x_calls s\<rparr>)"
  by (simp add: own_state_def created_plain spawned_plain own_calls_plain del: created.simps spawned.simps own_calls.simps)

lemma own_called: "harmless_call c \<Longrightarrow> keeps (own_state M) (called c answer)"
  by (auto simp: keeps_def called_def bnd_app intro: own_plain)

lemma own_quiet: "quiet s t \<Longrightarrow> own_state M s \<Longrightarrow> own_state M t"
  by (simp add: quiet_def own_state_def)

lemma own_upd: "(\<And>s. quiet s (f s)) \<Longrightarrow> keeps (own_state M) (upd f)"
  by (auto simp: keeps_def intro: own_quiet)

lemma own_small: "keeps (own_state M) (push_issue i)" "keeps (own_state M) (complain i)" "keeps (own_state M) (observe_again_failed e)"
  unfolding complain_def push_issue_def observe_again_failed_def by (intro keeps_intros own_upd; simp add: quiet_def)+

lemma own_clock: "keeps (own_state M) clock" "keeps (own_state M) fresh_owner"
  unfolding clock_def fresh_owner_def by (intro keeps_intros own_upd; simp add: quiet_def)+

lemma own_observe: "keeps (own_state M) (observe_again n)"
  by (induction n) (simp_all add: keeps_intros own_small own_called harmless_call_def split: sum.split)

lemma own_fresh: "keeps (own_state M) (fresh_cleanup_graph n)"
  unfolding fresh_cleanup_graph_def by (intro keeps_intros own_observe own_small)

lemma own_terminate:
  assumes "own_state M s" "p \<in> set (spawned (x_world s) (x_calls s))"
  shows "own_state M (s\<lparr>x_calls := GTerminate p # x_calls s\<rparr>)"
  using assms by (simp add: own_state_def)

lemma own_drop_route: "keeps (own_state M) (drop_route key)"
proof (rule keepsI)
  fix s
  assume own: "own_state M s"
  show "own_state M (snd (drop_route key s))"
  proof (cases "im_get (x_routes s) key")
    case None
    then show ?thesis using own by (simp add: drop_route_def)
  next
    case (Some r)
    with own have "rt_child r \<in> set (spawned (x_world s) (x_calls s))"
      by (force simp: own_state_def dest: map_of_SomeD)
    with own have "own_state M (s\<lparr>x_calls := GTerminate (rt_child r) # x_calls s\<rparr>)"
      by (rule own_terminate)
    then show ?thesis
      using Some by (auto simp: drop_route_def act_apps called_def own_state_def im_shift_remove_def split: sum.splits)
  qed
qed

lemma own_drop_effect: "keeps (own_state M) (drop_effect i)"
proof (rule keepsI)
  fix s
  assume own: "own_state M s"
  show "own_state M (snd (drop_effect i s))"
  proof (cases "im_get (x_effects s) i")
    case None
    then show ?thesis using own by (simp add: drop_effect_def)
  next
    case (Some r)
    with own have "ef_child r \<in> set (spawned (x_world s) (x_calls s))"
      by (force simp: own_state_def dest: map_of_SomeD)
    with own have "own_state M (s\<lparr>x_calls := GTerminate (ef_child r) # x_calls s\<rparr>)"
      by (rule own_terminate)
    then show ?thesis
      using Some by (auto simp: drop_effect_def act_apps called_def own_state_def im_shift_remove_def split: sum.splits)
  qed
qed

lemma own_create: "keeps (own_state M) (create_owned_sink name description)"
proof -
  have "own_state M (snd (attempt (called (GCreateSink name description own) gw_module) (\<lambda>module.
     bnd (upd (\<lambda>s. s\<lparr>x_sinks := im_insert (x_sinks s) name
         \<lparr>ow_cookie = mg_cookie (x_graph s), ow_module = module, ow_owner = own, ow_missing = 0\<rparr>\<rparr>)) (\<lambda>_.
     ret (Inr False))) s))" if "own_state M s" for s own
    using that
    by (fastforce simp: attempt_app called_def bnd_app own_state_def split: sum.split dest!: im_insert_mem)
  then show ?thesis
    unfolding create_owned_sink_def by (intro keeps_bnd own_clock) (simp add: keeps_def)
qed

lemma own_start_route: "keeps (own_state M) (start_route key spec name)"
proof -
  have "own_state M (snd (attempt (called (GSpawnLoopback name own (rs_description spec)) gw_child) (\<lambda>child.
        bnd (upd (\<lambda>s. s\<lparr>x_routes := im_insert (x_routes s) key \<lparr>rt_child = child, rt_spec = spec, rt_name = name,
            rt_owner = own, rt_applied = None, rt_node = None, rt_missing = 0\<rparr>\<rparr>)) (\<lambda>_.
        ret (Inr False))) s))" if "own_state M s" for s own
    using that
    by (fastforce simp: attempt_app called_def bnd_app own_state_def split: sum.split dest!: im_insert_mem)
  then show ?thesis
    unfolding start_route_def by (intro keeps_ask keeps_guard_ok keeps_bnd own_clock) (simp add: keeps_def)
qed

lemma own_start_effect: "keeps (own_state M) (start_effect i src spec own name)"
proof -
  have spawn: "keeps (own_state M) (attempt (called (GSpawnFilter config) gw_child) (\<lambda>child.
     bnd clock (\<lambda>now.
     done_ok [upd (\<lambda>s. s\<lparr>x_effects := im_insert (x_effects s) i \<lparr>ef_child = child, ef_file = config,
       ef_spec = spec, ef_owner = own, ef_name = name, ef_started = now\<rparr>\<rparr>)])))" for config
    by (fastforce simp: keeps_def act_apps called_def clock_def own_state_def split: sum.split dest!: im_insert_mem)
  show ?thesis
    unfolding start_effect_def
    by (intro keeps_ask keeps_try_pure, rule keeps_attempt, rule own_called) (simp_all add: harmless_call_def spawn)
qed

lemma own_unload:
  assumes "ow_module h \<in> M"
  shows "keeps (own_state M) (unload_owned name h g)"
proof -
  have "keeps (own_state M) (called (GUnloadModule (ow_module h)) gw_unit)"
    using assms by (auto simp: keeps_def called_def bnd_app own_state_def)
  moreover have "keeps (own_state M) (forget_sink name)"
    by (auto simp: forget_sink_def done_ok_def keeps_def bnd_app own_state_def im_shift_remove_def)
  ultimately show ?thesis
    unfolding unload_owned_def by (intro keeps_intros own_small)
qed

lemma own_persistent: "keeps (own_state M) (remove_persistent wanted n e)"
  unfolding remove_persistent_def destroy_persistent_def removal_done_def forget_removed_def
  by (intro keeps_intros own_fresh own_small own_called) (simp_all add: keeps_def own_state_def harmless_call_def)

text \<open>While the sinks are removed, the modules of all that were there at the start remain created.\<close>

lemma own_removed:
  assumes "own_state M s"
  shows "own_state M (snd (each_try (remove_owned n) (filter p (x_sinks s)) s))"
proof -
  let ?N = "M \<union> (\<lambda>e. ow_module (snd e)) ` set (x_sinks s)"
  have "keeps (own_state ?N) (remove_owned n (name, h))" if "(name, h) \<in> set (x_sinks s)" for name h
  proof -
    have "ow_module h \<in> ?N" using that by force
    then show ?thesis unfolding remove_owned_def prod.case by (intro keeps_attempt own_fresh own_unload)
  qed
  then have "keeps (own_state ?N) (each_try (remove_owned n) (filter p (x_sinks s)))"
    by (intro keeps_each_try) auto
  moreover have "own_state ?N s" using assms by (auto simp: own_state_def)
  ultimately have "own_state ?N (snd (each_try (remove_owned n) (filter p (x_sinks s)) s))" by (rule keepsD)
  then show ?thesis by (simp add: own_state_def)
qed

lemma own_cleanup: "keeps (own_state M) (cleanup_sinks ws n)"
proof -
  have owned: "keeps (own_state M) (ask (\<lambda>s. each_try (remove_owned n) (filter p (x_sinks s))))" for p
    by (simp add: keeps_def own_removed)
  show ?thesis
    unfolding cleanup_sinks_def
    by (rule keeps_ask, rule keeps_attempt) (simp_all add: keeps_each_try own_persistent owned)
qed

lemma own_adjust:
  assumes "own_state M s" "\<And>r. rt_child (f r) = rt_child r"
  shows "own_state M (s\<lparr>x_routes := im_adjust (x_routes s) key f\<rparr>)"
  using assms by (fastforce simp: own_state_def dest!: im_adjust_mem)

lemma own_set_route: "(\<And>r. rt_child (f r) = rt_child r) \<Longrightarrow> keeps (own_state M) (set_route key f)"
  by (simp add: keeps_def set_route_def own_adjust)

interpretation own: mixer_invariant "own_state M" for M
proof
  show "own_state M (s\<lparr>x_calls := c # x_calls s\<rparr>)" if "harmless_call c" "own_state M s" for c s
    using that by (rule own_plain)
  show "own_state M t" if "quiet s t" "own_state M s" for s t
    using that by (rule own_quiet)
  show "keeps (own_state M) (set_route key f)" if "tame f" for f key
    using that by (intro own_set_route) (simp add: tame_def)
  show "keeps (own_state M) (upd (\<lambda>s. s\<lparr>x_sinks := im_adjust (x_sinks s) name (\<lambda>h. h\<lparr>ow_missing := n\<rparr>)\<rparr>))" for name n
    by (fastforce simp: keeps_def own_state_def dest!: im_adjust_mem)
  show "keeps (own_state M) (upd (\<lambda>s. s\<lparr>x_sinks := im_shift_remove (x_sinks s) name\<rparr>))" for name
    by (auto simp: keeps_def own_state_def im_shift_remove_def)
qed (simp_all add: own_create own_cleanup own_drop_route own_drop_effect keepsD [OF own_start_effect], simp_all add: own_state_def)

lemma own_reroute: "keeps (own_state M) (reroute key spec name level muted)"
  unfolding reroute_def route_replaced_def apply_route_def route_missing_def Let_def
  by (intro keeps_intros own_called own_start_route own_set_route own_drop_route own.keeps_link_nodes)
     (simp_all add: harmless_call_def)

interpretation own: mixer_life "own_state M" "\<lambda>_ _. True" for M
proof
  show "keeps (own_state M) (write_level fine w)" for fine w
    unfolding write_level_def by (intro keeps_intros own_called own_set_route) (simp_all add: harmless_call_def)
qed (auto simp: own_reroute own_state_def)

text \<open>
  C5. However the sound server, the child processes and the clients behave: the mixer unloads only modules
  that it has loaded itself, and terminates only processes that it has started itself.
\<close>

theorem mixer_destroys_only_its_own:
  "own_calls w (x_calls (snd (mixer_run interval n owed (mixer_new w))))"
proof -
  have "own_state {} (snd (mixer_run interval n owed (mixer_new w)))"
    by (rule keepsD [OF own.keeps_run]) (simp add: own_state_def mixer_new_def)
  moreover have "x_world (snd (mixer_run interval n owed (mixer_new w))) = w"
    by (rule keepsD [OF world.keeps_run]) (simp add: mixer_new_def)
  ultimately show ?thesis by (simp add: own_state_def)
qed

end
