(* ===== verification/Mixer_Trace.thy ===== *)
theory Mixer_Trace
  imports Mixer_Own
begin

text \<open>
  What the mixer has really done, read off the calls it has made and the answers they got, not off its own
  records: which calls have succeeded, what the server has shown, and which child processes are alive. The
  records are then shown to agree: no child that was started and not successfully terminated is ever
  forgotten.
\<close>

subsection \<open>Calls that have succeeded\<close>

text \<open>The calls are listed with the newest first; \<open>n\<close> is the number of calls before the ones that are looked at.\<close>

fun done_since :: "graph_world \<Rightarrow> nat \<Rightarrow> (graph_call \<Rightarrow> bool) \<Rightarrow> graph_call list \<Rightarrow> bool" where
  "done_since w n p [] = False"
| "done_since w n p (c # cs) = (n \<le> length cs \<and>
     (p c \<and> (case gw_unit w (c # cs) of Inr _ \<Rightarrow> True | Inl _ \<Rightarrow> False) \<or> done_since w n p cs))"

text \<open>An observation of the server that shows no node of that name.\<close>

fun absent_since :: "graph_world \<Rightarrow> nat \<Rightarrow> string \<Rightarrow> graph_call list \<Rightarrow> bool" where
  "absent_since w n name [] = False"
| "absent_since w n name (c # cs) = (n \<le> length cs \<and>
     (c = GSnapshot \<and> (case gw_snapshot w (c # cs) of Inr g \<Rightarrow> \<not> im_contains (mg_names g) name | Inl _ \<Rightarrow> False) \<or>
      absent_since w n name cs))"

lemma done_since_length: "done_since w n p cs \<Longrightarrow> n < length cs"
  by (induction cs) auto

lemma absent_since_length: "absent_since w n name cs \<Longrightarrow> n < length cs"
  by (induction cs) auto

lemma done_since_more: "done_since w n p cs \<Longrightarrow> done_since w n p (ds @ cs)"
  using done_since_length [of w n p cs] by (induction ds) auto

lemma absent_since_more: "absent_since w n name cs \<Longrightarrow> absent_since w n name (ds @ cs)"
  using absent_since_length [of w n name cs] by (induction ds) auto

lemma done_since_earlier: "done_since w n p cs \<Longrightarrow> m \<le> n \<Longrightarrow> done_since w m p cs"
  by (induction cs) auto

lemma absent_since_earlier: "absent_since w n name cs \<Longrightarrow> m \<le> n \<Longrightarrow> absent_since w m name cs"
  by (induction cs) auto

lemma done_since_mono: "done_since w n p cs \<Longrightarrow> (\<And>c. p c \<Longrightarrow> q c) \<Longrightarrow> done_since w n q cs"
  by (induction cs) auto

text \<open>The calls only grow, and the world stays.\<close>

definition after_calls :: "graph_world \<Rightarrow> graph_call list \<Rightarrow> mixer \<Rightarrow> bool" where
  "after_calls w cs t \<longleftrightarrow> x_world t = w \<and> (\<exists>ds. x_calls t = ds @ cs)"

interpretation after: mixer_free "after_calls w cs" for w cs
proof
  show "after_calls w cs (s\<lparr>x_calls := c # x_calls s\<rparr>)" if "after_calls w cs s" for c s
    using that by (auto simp: after_calls_def intro: exI [of _ "c # _"])
qed (simp_all add: after_calls_def quiet_def)

lemma after_refl [simp]: "after_calls (x_world s) (x_calls s) s"
  by (simp add: after_calls_def)

lemma after_length: "after_calls w cs t \<Longrightarrow> length cs \<le> length (x_calls t)"
  by (auto simp: after_calls_def)

lemma done_after: "after_calls w cs t \<Longrightarrow> done_since w n p cs \<Longrightarrow> done_since w n p (x_calls t)"
  by (auto simp: after_calls_def done_since_more)

lemma absent_after: "after_calls w cs t \<Longrightarrow> absent_since w n name cs \<Longrightarrow> absent_since w n name (x_calls t)"
  by (auto simp: after_calls_def absent_since_more)

lemma called_done:
  assumes "fst (called c gw_unit s) = Inr u" "p c" "n \<le> length (x_calls s)"
  shows "done_since (x_world s) n p (x_calls (snd (called c gw_unit s)))"
  using assms by (auto simp: called_def bnd_app)

subsection \<open>The children that are alive\<close>

fun children :: "graph_world \<Rightarrow> graph_call list \<Rightarrow> nat list" where
  "children w [] = []"
| "children w (c # cs) = (case c of
     GSpawnLoopback _ _ _ \<Rightarrow> (case gw_child w (c # cs) of Inr p \<Rightarrow> List.insert p (children w cs) | Inl _ \<Rightarrow> children w cs)
   | GSpawnFilter _ \<Rightarrow> (case gw_child w (c # cs) of Inr p \<Rightarrow> List.insert p (children w cs) | Inl _ \<Rightarrow> children w cs)
   | GTerminate p \<Rightarrow> (case gw_unit w (c # cs) of Inr _ \<Rightarrow> removeAll p (children w cs) | Inl _ \<Rightarrow> children w cs)
   | _ \<Rightarrow> children w cs)"

definition holds :: "mixer \<Rightarrow> nat \<Rightarrow> bool" where
  "holds s p \<longleftrightarrow> (\<exists>key r. im_get (x_routes s) key = Some r \<and> rt_child r = p) \<or>
     (\<exists>i e. im_get (x_effects s) i = Some e \<and> ef_child e = p)"

text \<open>Every child that is alive is that of a route or of a filter that the mixer knows of.\<close>

definition no_child_lost :: "mixer \<Rightarrow> bool" where
  "no_child_lost s \<longleftrightarrow> (\<forall>p\<in>set (children (x_world s) (x_calls s)). holds s p)"

definition childless_call :: "graph_call \<Rightarrow> bool" where
  "childless_call c \<longleftrightarrow> (case c of GSpawnLoopback _ _ _ \<Rightarrow> False | GSpawnFilter _ \<Rightarrow> False | GTerminate _ \<Rightarrow> False | _ \<Rightarrow> True)"

lemma children_plain: "childless_call c \<Longrightarrow> children w (c # cs) = children w cs"
  by (cases c) (simp_all add: childless_call_def)

lemma kept_cong:
  "x_world t = x_world s \<Longrightarrow> x_calls t = x_calls s \<Longrightarrow> x_routes t = x_routes s \<Longrightarrow> x_effects t = x_effects s \<Longrightarrow> no_child_lost t = no_child_lost s"
  by (simp add: no_child_lost_def holds_def)

lemma kept_plain: "childless_call c \<Longrightarrow> no_child_lost s \<Longrightarrow> no_child_lost (s\<lparr>x_calls := c # x_calls s\<rparr>)"
  by (simp add: no_child_lost_def holds_def children_plain del: children.simps)

lemma kept_called: "childless_call c \<Longrightarrow> keeps no_child_lost (called c answer)"
  by (simp add: keeps_def called_def bnd_app kept_plain)

lemma kept_upd:
  assumes "\<And>s. x_world (f s) = x_world s \<and> x_calls (f s) = x_calls s \<and> x_routes (f s) = x_routes s \<and> x_effects (f s) = x_effects s"
  shows "keeps no_child_lost (upd f)"
proof (rule keepsI)
  fix s
  assume "no_child_lost s"
  then show "no_child_lost (snd (upd f s))" using kept_cong [of "f s" s] assms [of s] by simp
qed

lemma kept_small: "keeps no_child_lost (push_issue i)" "keeps no_child_lost (complain i)" "keeps no_child_lost (observe_again_failed e)"
  "keeps no_child_lost clock" "keeps no_child_lost fresh_owner"
  unfolding complain_def push_issue_def observe_again_failed_def clock_def fresh_owner_def
  by (intro keeps_intros kept_upd; simp)+

lemma kept_observe: "keeps no_child_lost (observe_again n)"
  by (induction n) (simp_all add: keeps_intros kept_small kept_called childless_call_def split: sum.split)

lemma kept_fresh: "keeps no_child_lost (fresh_cleanup_graph n)"
  unfolding fresh_cleanup_graph_def by (intro keeps_intros kept_observe kept_small)

lemma kept_cleanup: "keeps no_child_lost (cleanup_sinks ws n)"
  unfolding cleanup_sinks_def remove_persistent_def destroy_persistent_def removal_done_def remove_owned_def unload_owned_def
    forget_sink_def forget_removed_def
  by (intro keeps_intros kept_fresh kept_small kept_called kept_upd) (simp_all add: childless_call_def)

lemma kept_create: "keeps no_child_lost (create_owned_sink name description)"
  unfolding create_owned_sink_def by (intro keeps_intros kept_small kept_called kept_upd) (simp_all add: childless_call_def)

text \<open>A process is forgotten only once its termination has succeeded.\<close>

lemma kept_drop_route: "keeps no_child_lost (drop_route key)"
proof (rule keepsI)
  fix s
  assume before: "no_child_lost s"
  show "no_child_lost (snd (drop_route key s))"
  proof (cases "im_get (x_routes s) key")
    case (Some r)
    have held: "holds (s\<lparr>x_calls := cs, x_routes := im_shift_remove (x_routes s) key\<rparr>) p"
      if "holds s p" "p \<noteq> rt_child r" for p cs
      using that Some by (simp add: holds_def) (metis option.inject)
    have "holds (s\<lparr>x_calls := cs\<rparr>) p = holds s p" for p cs by (simp add: holds_def)
    then show ?thesis
      using before Some held by (auto simp: drop_route_def act_apps called_def no_child_lost_def split: sum.split)
  qed (simp add: drop_route_def before)
qed

lemma kept_drop_effect: "keeps no_child_lost (drop_effect i)"
proof (rule keepsI)
  fix s
  assume before: "no_child_lost s"
  show "no_child_lost (snd (drop_effect i s))"
  proof (cases "im_get (x_effects s) i")
    case (Some e)
    have held: "holds (s\<lparr>x_calls := cs, x_effects := im_shift_remove (x_effects s) i\<rparr>) p"
      if "holds s p" "p \<noteq> ef_child e" for p cs
      using that Some by (simp add: holds_def) (metis option.inject)
    have "holds (s\<lparr>x_calls := cs\<rparr>) p = holds s p" for p cs by (simp add: holds_def)
    then show ?thesis
      using before Some held by (auto simp: drop_effect_def act_apps called_def no_child_lost_def split: sum.split)
  qed (simp add: drop_effect_def before)
qed

text \<open>A child that is started is one the mixer knows of: it starts none where it has one.\<close>

lemma kept_start_route:
  assumes "im_get (x_routes s) key = None" "no_child_lost s"
  shows "no_child_lost (snd (start_route key spec name s))"
proof -
  have spawn: "no_child_lost (snd (attempt (called (GSpawnLoopback name own (rs_description spec)) gw_child) (\<lambda>child.
        bnd (upd (\<lambda>s. s\<lparr>x_routes := im_insert (x_routes s) key \<lparr>rt_child = child, rt_spec = spec, rt_name = name,
            rt_owner = own, rt_applied = None, rt_node = None, rt_missing = 0\<rparr>\<rparr>)) (\<lambda>_.
        ret (Inr False))) t))" if "no_child_lost t" "im_get (x_routes t) key = None" for t own
  proof -
    have "holds (t\<lparr>x_calls := cs, x_routes := im_insert (x_routes t) key r\<rparr>) p" if "holds t p \<or> p = rt_child r" for p cs r
      using that \<open>im_get (x_routes t) key = None\<close> by (simp add: holds_def) (metis option.distinct(1))
    moreover have "holds (t\<lparr>x_calls := cs\<rparr>) p = holds t p" for p cs by (simp add: holds_def)
    ultimately show ?thesis
      using that(1) by (auto simp: attempt_app called_def bnd_app no_child_lost_def split: sum.split)
  qed
  have "no_child_lost (snd (fresh_owner s)) \<and> im_get (x_routes (snd (fresh_owner s))) key = None"
    using keepsD [OF kept_small(5) assms(2)] assms(1) by (simp add: fresh_owner_def bnd_app)
  then show ?thesis
    using assms(2) spawn by (simp add: start_route_def guard_ok_def bnd_app)
qed

lemma kept_start_effect:
  assumes "im_get (x_effects s) i = None" "no_child_lost s"
  shows "no_child_lost (snd (start_effect i src spec own name s))"
proof (cases "effect_config (x_world s) src spec own")
  case (Inr config)
  define t where "t = snd (called (GWriteFile config) gw_unit s)"
  have t: "no_child_lost t" "im_get (x_effects t) i = None"
    using keepsD [OF kept_called assms(2)] assms(1) by (simp_all add: t_def childless_call_def called_def bnd_app)
  have held: "holds (t\<lparr>x_calls := cs, x_clock := k, x_effects := im_insert (x_effects t) i e\<rparr>) p"
    if "holds t p \<or> p = ef_child e" for p cs k e
    using that t(2) by (simp add: holds_def) (metis option.distinct(1))
  have "holds (t\<lparr>x_calls := cs\<rparr>) p = holds t p" for p cs by (simp add: holds_def)
  then have "no_child_lost (snd (attempt (called (GSpawnFilter config) gw_child) (\<lambda>child. bnd clock (\<lambda>now.
     done_ok [upd (\<lambda>s. s\<lparr>x_effects := im_insert (x_effects s) i \<lparr>ef_child = child, ef_file = config,
       ef_spec = spec, ef_owner = own, ef_name = name, ef_started = now\<rparr>\<rparr>)])) t))"
    using t(1) held by (auto simp: act_apps called_def clock_def no_child_lost_def split: sum.split)
  then show ?thesis
    using t(1) Inr by (simp add: start_effect_def attempt_app t_def split: sum.split)
qed (simp add: start_effect_def assms(2))

lemma holds_routes:
  assumes "\<And>k r. im_get (x_routes s) k = Some r \<Longrightarrow> \<exists>r'. im_get m k = Some r' \<and> rt_child r' = rt_child r" "holds s p"
  shows "holds (s\<lparr>x_routes := m\<rparr>) p"
  using assms by (fastforce simp: holds_def)

lemma kept_set_route:
  assumes "\<And>r. rt_child (f r) = rt_child r"
  shows "keeps no_child_lost (set_route key f)"
proof (rule keepsI)
  fix s
  assume "no_child_lost s"
  moreover have "holds (s\<lparr>x_routes := im_adjust (x_routes s) key f\<rparr>) p" if "holds s p" for p
  proof (rule holds_routes [OF _ that])
    show "\<exists>r'. im_get (im_adjust (x_routes s) key f) k = Some r' \<and> rt_child r' = rt_child r"
      if "im_get (x_routes s) k = Some r" for k r
      using that assms [of r] by (cases "k = key") simp_all
  qed
  ultimately show "no_child_lost (snd (set_route key f s))"
    by (simp add: set_route_def no_child_lost_def)
qed

lemma kept_tame: "tame f \<Longrightarrow> keeps no_child_lost (set_route key f)"
  by (rule kept_set_route) (simp add: tame_def)

interpretation no_child_lost: mixer_invariant no_child_lost
proof
  show "no_child_lost (s\<lparr>x_calls := c # x_calls s\<rparr>)" if "harmless_call c" "no_child_lost s" for c s
    using that by (intro kept_plain) (cases c; simp add: harmless_call_def childless_call_def)
  show "no_child_lost t" if "quiet s t" "no_child_lost s" for s t
    using that kept_cong [of t s] by (simp add: quiet_def)
qed (simp_all add: kept_create kept_cleanup kept_drop_route kept_drop_effect kept_start_effect kept_tame kept_upd,
     simp_all add: no_child_lost_def holds_def)

lemma kept_reroute: "keeps no_child_lost (reroute key spec name level muted)"
proof -
  have applied: "keeps no_child_lost (apply_route key level muted r)" for r
    unfolding apply_route_def route_missing_def Let_def
    by (intro keeps_intros kept_called kept_set_route kept_drop_route no_child_lost.keeps_link_nodes) (simp_all add: childless_call_def)
  have last: "keeps no_child_lost (ask (\<lambda>s. case im_get (x_routes s) key of
       None \<Rightarrow> start_route key spec name | Some r \<Rightarrow> apply_route key level muted r))"
    using kept_start_route keepsD [OF applied] by (auto simp: keeps_def split: option.split)
  have replaced: "keeps no_child_lost (route_replaced key spec)"
    unfolding route_replaced_def by (intro keeps_intros kept_called) (simp_all add: childless_call_def)
  show ?thesis
    unfolding reroute_def by (rule keeps_attempt [OF replaced], rule keeps_attempt [OF _ last]) (intro keeps_intros kept_drop_route)
qed

interpretation no_child_lost: mixer_life no_child_lost "\<lambda>_ _. True"
proof
  show "keeps no_child_lost (write_level fine w)" for fine w
    unfolding write_level_def by (intro keeps_intros kept_called kept_set_route) (simp_all add: childless_call_def)
qed (auto simp: kept_reroute no_child_lost_def holds_def)

lemma run_kept: "no_child_lost (snd (mixer_run interval n owed (mixer_new w)))"
  by (rule keepsD [OF no_child_lost.keeps_run]) (simp add: no_child_lost_def mixer_new_def)

end
