(* ===== verification/Mixer_Safe.thy ===== *)
theory Mixer_Safe
  imports Mixer_Trace
begin

text \<open>
  What the barrier and the pass achieve, on every path: which cells are open when a pass ends, by the records of
  the mixer, and what the calls of the pass show to have been silenced before anything is opened.
\<close>

subsection \<open>The barrier\<close>

lemma drop_route_Inr: "fst (drop_route key s) = Inr () \<Longrightarrow> im_get (x_routes (snd (drop_route key s))) key = None"
  by (auto simp: drop_route_def act_apps called_def split: option.splits sum.splits)

lemma drop_route_closes: "fst (drop_route (CellRoute i m) s) = Inr () \<Longrightarrow> \<not> cell_open (snd (drop_route (CellRoute i m) s)) i m"
  using drop_route_Inr [of "CellRoute i m" s] by (simp add: cell_open_def)

lemma applied_same_silent: "applied_same a (Some (ident, level, True)) \<Longrightarrow> rt_applied r = a \<Longrightarrow> \<not> route_open r"
  by (auto simp: applied_same_def option_same_def route_open_def split: option.splits)

lemma silence_node_closes:
  assumes "fst (silence_node (CellRoute i m) i level r node s) = Inr ()" "im_get (x_routes s) (CellRoute i m) = Some r"
  shows "\<not> cell_open (snd (silence_node (CellRoute i m) i level r node s)) i m"
  using assms applied_same_silent [of _ "nd_identity node" level]
  by (auto simp: silence_node_def act_apps called_def set_route_def cell_open_def route_open_def split: sum.splits if_splits)

lemma silence_route_closes:
  assumes "fst (silence_route (CellRoute i m) i level r s) = Inr ()" "im_get (x_routes s) (CellRoute i m) = Some r"
  shows "\<not> cell_open (snd (silence_route (CellRoute i m) i level r s)) i m"
proof -
  define t where "t = s\<lparr>x_calls := GRunning (rt_child r) # x_calls s\<rparr>"
  have "im_get (x_routes t) (CellRoute i m) = Some r" using assms(2) by (simp add: t_def)
  then show ?thesis
    using assms(1) drop_route_closes [of i m t] silence_node_closes [of i m level r _ t]
    unfolding silence_route_def attempt_app called_def
    by (auto simp: bnd_app t_def [symmetric] split: sum.splits option.splits if_splits)
qed

lemma silence_cell_closes:
  assumes "fst (silence_cell ready effective (CellRoute i m) s) = Inr ()"
    and "cell_open (snd (silence_cell ready effective (CellRoute i m) s)) i m"
  shows "wanted_open (snd (x_desired s)) i m"
proof -
  let ?d = "snd (x_desired s)"
  have "\<not> cell_gone ?d (x_graph s) ready effective i m"
    using assms drop_route_closes [of i m s] by (auto simp: silence_cell_def Let_def)
  moreover have "\<not> must_be_silent ?d i m"
  proof
    assume "must_be_silent ?d i m"
    then show False
      using assms calculation silence_route_closes [of i m "silent_level ?d i m" "the (im_get (x_routes s) (CellRoute i m))" s]
      by (cases "im_get (x_routes s) (CellRoute i m)") (simp_all add: silence_cell_def Let_def cell_open_def)
  qed
  ultimately obtain src where "im_get (de_sources ?d) i = Some src" "\<not> wanted_mute ?d i src m"
    by (auto simp: cell_gone_def must_be_silent_def wanted_mute_def split: option.splits)
  then show ?thesis by (auto simp: wanted_open_def list_ex_iff dest: map_of_SomeD)
qed

lemma silence_each_closes:
  assumes "fst (each_try (silence_cell ready effective) keys s) = Inr ()" "opens_within A d s"
  shows "opens_within (\<lambda>i m. A i m \<and> (CellRoute i m \<in> set keys \<longrightarrow> wanted_open d i m)) d
    (snd (each_try (silence_cell ready effective) keys s))"
  using assms
proof (induction keys arbitrary: s A)
  case Nil
  then show ?case by simp
next
  case (Cons key keys)
  let ?t = "snd (silence_cell ready effective key s)"
  have ok: "fst (silence_cell ready effective key s) = Inr ()"
    "fst (each_try (silence_cell ready effective) keys ?t) = Inr ()"
    using Cons.prems(1) by (auto simp: attempt_app split: sum.splits)
  have "keeps (opens_within A d) (silence_cell ready effective key)"
    using opens.keeps_silence_cell by blast
  then have t: "opens_within A d ?t" using Cons.prems(2) by (rule keepsD)
  have "opens_within (\<lambda>i m. A i m \<and> (key = CellRoute i m \<longrightarrow> wanted_open d i m)) d ?t"
    using t ok(1) Cons.prems(2) silence_cell_closes [of ready effective _ _ s] by (auto simp: opens_within_def)
  from Cons.IH [OF ok(2) this] show ?case
    by (auto simp: attempt_app ok(1) opens_within_def)
qed

lemma opens_within_all: "opens_within (cell_open s) (snd (x_desired s)) s"
  by (simp add: opens_within_def)

lemma silence_cells_close:
  assumes "fst (silence_cells ready effective s) = Inr ()"
  shows "opens_within (wanted_open (snd (x_desired s))) (snd (x_desired s)) (snd (silence_cells ready effective s))"
proof -
  let ?keys = "filter is_cell (im_keys (x_routes s))"
  have all: "CellRoute i m \<in> set ?keys" if "cell_open s i m" for i m
    using that by (auto simp: cell_open_def is_cell_def im_keys_def rev_image_eqI split: option.splits dest!: map_of_SomeD)
  show ?thesis
    using silence_each_closes [of ready effective ?keys s, OF _ opens_within_all] assms all
    by (auto simp: silence_cells_def opens_within_def)
qed

subsection \<open>What the calls show of the barrier\<close>

text \<open>
  The calls that open a route: an unmuting write to a node that is not the sink of a mix. A cell is silenced
  once its process has been terminated or its node muted with success, or if its node was observed to be muted.
\<close>

definition master_nodes :: "mixer \<Rightarrow> u32 list" where
  "master_nodes s = List.map_filter (\<lambda>(i, mx). map_option nd_id (graph_named (x_graph s) (mix_sink mx))) (de_mixes (snd (x_desired s)))"

definition unmutes :: "u32 list \<Rightarrow> graph_call \<Rightarrow> bool" where
  "unmutes sinks c = (case c of GSetLevel node level muted \<Rightarrow> \<not> muted \<and> node \<notin> set sinks | _ \<Rightarrow> False)"

definition mutes_node :: "u32 \<Rightarrow> graph_call \<Rightarrow> bool" where
  "mutes_node node c = (case c of GSetLevel n level muted \<Rightarrow> n = node \<and> muted | _ \<Rightarrow> False)"

definition silenced_since :: "mixer \<Rightarrow> mixer_route \<Rightarrow> graph_call list \<Rightarrow> bool" where
  "silenced_since s r cs \<longleftrightarrow> done_since (x_world s) (length (x_calls s)) (\<lambda>c. c = GTerminate (rt_child r)) cs \<or>
     (case graph_owned (x_graph s) (rt_name r) (rt_owner r) of
        None \<Rightarrow> False
      | Some node \<Rightarrow> nd_muted node = Some True \<or> done_since (x_world s) (length (x_calls s)) (mutes_node (nd_id node)) cs)"

text \<open>Every cell that is not to be open has been silenced by the calls that a pass from \<open>s\<close> has made.\<close>

definition barrier_done :: "mixer \<Rightarrow> graph_call list \<Rightarrow> bool" where
  "barrier_done s cs \<longleftrightarrow> list_all (\<lambda>key. case (key, im_get (x_routes s) key) of
       (CellRoute i m, Some r) \<Rightarrow> if wanted_open (snd (x_desired s)) i m then True else silenced_since s r cs
     | _ \<Rightarrow> True) (im_keys (x_routes s))"

text \<open>Each call after the first \<open>n\<close> that opens something is made when all is ready for it.\<close>

fun guarded :: "(graph_call \<Rightarrow> bool) \<Rightarrow> (graph_call list \<Rightarrow> bool) \<Rightarrow> nat \<Rightarrow> graph_call list \<Rightarrow> bool" where
  "guarded opening ready n [] = True"
| "guarded opening ready n (c # cs) =
     (if n \<le> length cs then (if opening c then ready cs else True) \<and> guarded opening ready n cs else True)"

lemma guarded_short: "length cs \<le> n \<Longrightarrow> guarded opening ready n cs"
  by (cases cs) simp_all

lemma silenced_more: "silenced_since s r cs \<Longrightarrow> silenced_since s r (ds @ cs)"
  by (auto simp: silenced_since_def done_since_more split: option.splits)

lemma barrier_more: "barrier_done s cs \<Longrightarrow> barrier_done s (c # cs)"
  using silenced_more [of s _ cs "[c]"]
  by (auto simp: barrier_done_def list_all_iff split: option.splits route_key.splits if_splits)

text \<open>Once all is silenced, nothing that the pass does can break the rule.\<close>

definition barred :: "mixer \<Rightarrow> mixer \<Rightarrow> bool" where
  "barred s t \<longleftrightarrow> barrier_done s (x_calls t) \<and>
     guarded (unmutes (master_nodes s)) (barrier_done s) (length (x_calls s)) (x_calls t)"

interpretation barred: mixer_free "barred s" for s
  by unfold_locales (auto simp: barred_def barrier_more quiet_def)

subsection \<open>The calls before the barrier\<close>

text \<open>
  Until the barrier is done nothing is opened: the routes are those of the start of the pass, save that cells
  are silenced or gone.
\<close>

definition same_nodes :: "mixer_graph \<Rightarrow> mixer_graph \<Rightarrow> bool" where
  "same_nodes g h \<longleftrightarrow> mg_names g = mg_names h \<and> mg_nodes g = mg_nodes h"

lemma same_nodes_named: "same_nodes g h \<Longrightarrow> graph_named g name = graph_named h name"
proof -
  assume "same_nodes g h"
  moreover from this have "nth_node g = nth_node h" by (simp add: same_nodes_def nth_node_def fun_eq_iff)
  ultimately show ?thesis by (simp add: same_nodes_def graph_named_def cong: if_cong)
qed

lemma same_nodes_owned: "same_nodes g h \<Longrightarrow> graph_owned g name own = graph_owned h name own"
  using same_nodes_named [of g h name] by (simp add: graph_owned_def)

definition route_at :: "mixer \<Rightarrow> mixer \<Rightarrow> route_key \<Rightarrow> bool" where
  "route_at s t key = (case im_get (x_routes s) key of None \<Rightarrow> True
     | Some r \<Rightarrow> silenced_since s r (x_calls t) \<or> (case im_get (x_routes t) key of None \<Rightarrow> False
       | Some r' \<Rightarrow> rt_child r' = rt_child r \<and> rt_name r' = rt_name r \<and> rt_owner r' = rt_owner r))"

definition waiting :: "mixer \<Rightarrow> mixer \<Rightarrow> bool" where
  "waiting s t \<longleftrightarrow> x_world t = x_world s \<and> x_desired t = x_desired s \<and> same_nodes (x_graph t) (x_graph s) \<and>
     length (x_calls s) \<le> length (x_calls t) \<and>
     guarded (unmutes (master_nodes s)) (barrier_done s) (length (x_calls s)) (x_calls t)"

definition preparing :: "mixer \<Rightarrow> mixer \<Rightarrow> bool" where
  "preparing s t \<longleftrightarrow> waiting s t \<and> x_routes t = x_routes s"

lemma preparing_refl: "preparing s s"
  by (simp add: preparing_def waiting_def same_nodes_def guarded_short)

lemma preparing_called: "\<not> unmutes (master_nodes s) c \<Longrightarrow> keeps (preparing s) (called c answer)"
  by (auto simp: keeps_def called_def bnd_app preparing_def waiting_def)

lemma preparing_upd:
  assumes "\<And>t. x_world (f t) = x_world t \<and> x_desired (f t) = x_desired t \<and> x_routes (f t) = x_routes t \<and>
    x_calls (f t) = x_calls t \<and> same_nodes (x_graph (f t)) (x_graph t)"
  shows "keeps (preparing s) (upd f)"
  using assms by (auto simp: keeps_def preparing_def waiting_def same_nodes_def)

lemma preparing_locked: "keeps (preparing s) (locked f)"
  by (auto simp: keeps_def locked_def bnd_app preparing_def waiting_def same_nodes_def split: prod.split)

lemma preparing_small: "keeps (preparing s) (push_issue i)" "keeps (preparing s) clock" "keeps (preparing s) fresh_owner"
  "keeps (preparing s) (put_master k m)" "keeps (preparing s) (report_master k ident observed)"
  unfolding push_issue_def clock_def fresh_owner_def put_master_def report_master_def
  by (intro keeps_intros preparing_upd; simp add: same_nodes_def)+

lemma preparing_write_master: "nd_id node \<in> set (master_nodes s) \<Longrightarrow> keeps (preparing s) (write_master ready i node desired)"
  unfolding write_master_def Let_def
  by (intro keeps_intros preparing_called preparing_small preparing_upd) (simp_all add: unmutes_def same_nodes_def)

lemma preparing_settled_master:
  "nd_id node \<in> set (master_nodes s) \<Longrightarrow> keeps (preparing s) (settled_master ready i node observed desired m)"
  unfolding settled_master_def by (intro keeps_intros preparing_write_master preparing_small)

lemma preparing_sync_master:
  assumes "(i, mx) \<in> set (de_mixes (snd (x_desired s)))"
  shows "keeps (preparing s) (sync_master available ready (i, mx))"
proof -
  have master: "nd_id node \<in> set (master_nodes s)" if "preparing s t" "graph_named (x_graph t) (mix_sink mx) = Some node" for t node
    using that assms same_nodes_named [of "x_graph t" "x_graph s"]
    by (force simp: preparing_def waiting_def master_nodes_def List.map_filter_def)
  have gone: "keeps (preparing s) (bnd (upd (\<lambda>s. s\<lparr>x_masters := im_shift_remove (x_masters s) i\<rparr>)) (\<lambda>_. ret ready))"
    by (intro keeps_intros preparing_upd) (simp add: same_nodes_def)
  show ?thesis
    unfolding sync_master_def prod.case
    by (rule keeps_ask) (auto simp: Let_def gone intro!: keeps_ret keeps_bnd preparing_small preparing_write_master
        preparing_settled_master intro: master split: option.split)
qed

lemma preparing_masters: "keeps (preparing s) (sync_masters available)"
  unfolding sync_masters_def
proof (rule keeps_ask)
  fix t
  assume "preparing s t"
  then have "x_desired t = x_desired s" by (simp add: preparing_def waiting_def)
  then have "keeps (preparing s) (sync_master available ready e)" if "e \<in> set (de_mixes (snd (x_desired t)))" for ready e
    using that preparing_sync_master [of "fst e" "snd e" s] by simp
  then show "keeps (preparing s) (bnd (sweep (sync_master available) [] (de_mixes (snd (x_desired t)))) (\<lambda>ready.
     bnd (upd (\<lambda>s. s\<lparr>x_masters := im_retain (\<lambda>i _. im_contains (de_mixes (snd (x_desired s))) i) (x_masters s)\<rparr>)) (\<lambda>_.
     ret ready)))"
    by (intro keeps_intros preparing_upd) (simp_all add: same_nodes_def)
qed

lemma preparing_links: "keeps (preparing s) (link_nodes a b)"
  unfolding link_nodes_def link_port_def Let_def
  by (intro keeps_intros preparing_called preparing_upd) (simp_all add: unmutes_def same_nodes_def)

lemma preparing_drop_effect: "keeps (preparing s) (drop_effect i)"
  unfolding drop_effect_def by (intro keeps_intros preparing_called preparing_upd) (simp_all add: unmutes_def same_nodes_def)

lemma preparing_launch: "keeps (preparing s) (launch_effect i src spec)"
  unfolding launch_effect_def effect_waiting_def start_effect_def Let_def
  by (intro keeps_intros preparing_called preparing_small preparing_upd) (simp_all add: unmutes_def same_nodes_def)

lemma preparing_effects: "keeps (preparing s) sync_effects"
  unfolding sync_effects_def sync_effect_def keep_effect_def effect_replaced_def check_effect_def effect_health_def Let_def
  by (intro keeps_intros preparing_called preparing_small preparing_upd preparing_links preparing_drop_effect preparing_launch)
    (simp_all add: unmutes_def same_nodes_def)

lemma preparing_sinks: "keeps (preparing s) (ensure_mix available e)"
  unfolding ensure_mix_def ensure_sink_def sink_present_def sink_absent_def owned_sink_present_def persistent_sink_present_def
    create_owned_sink_def Let_def
  by (intro keeps_intros preparing_called preparing_small preparing_upd) (simp_all add: unmutes_def same_nodes_def)

lemma preparing_captures: "keeps (preparing s) sync_capture_mutes"
  unfolding sync_capture_mutes_def sync_capture_mute_def meet_capture_mute_def write_capture_mute_def
  by (intro keeps_intros preparing_locked preparing_called preparing_small preparing_upd)
    (simp_all add: unmutes_def same_nodes_def hide_capture_def)

lemma preparing_refresh: "keeps (preparing s) refresh_definitions" "keeps (preparing s) refresh_normalized"
  unfolding refresh_definitions_def refresh_normalized_def Let_def
  by (intro keeps_intros preparing_called preparing_upd; simp add: unmutes_def same_nodes_def)+

lemma preparing_prepare: "keeps (preparing s) prepare_pass"
  unfolding prepare_pass_def Let_def
  by (intro keeps_intros preparing_refresh preparing_captures preparing_sinks preparing_masters preparing_effects)

subsection \<open>The calls of the barrier\<close>

definition silencing :: "mixer \<Rightarrow> mixer \<Rightarrow> bool" where
  "silencing s t \<longleftrightarrow> waiting s t \<and> (\<forall>key. route_at s t key)"

lemma preparing_silencing: "preparing s t \<Longrightarrow> silencing s t"
  by (simp add: preparing_def silencing_def route_at_def split: option.split)

lemma route_at_more:
  assumes "route_at s t key" "x_calls u = ds @ x_calls t" "im_get (x_routes u) key = im_get (x_routes t) key"
  shows "route_at s u key"
  using assms by (auto simp: route_at_def silenced_more split: option.splits)

lemma silencing_add:
  assumes "\<not> unmutes (master_nodes s) c" "silencing s t"
  shows "silencing s (t\<lparr>x_calls := c # x_calls t\<rparr>)"
proof -
  have "route_at s (t\<lparr>x_calls := c # x_calls t\<rparr>) key" if "route_at s t key" for key
    by (rule route_at_more [OF that, where ds = "[c]"]) simp_all
  then show ?thesis using assms by (simp add: silencing_def waiting_def)
qed

lemma silencing_called: "\<not> unmutes (master_nodes s) c \<Longrightarrow> keeps (silencing s) (called c answer)"
  by (simp add: keeps_def called_def bnd_app silencing_add)

lemma silencing_set_route:
  assumes "\<And>r. rt_child (f r) = rt_child r \<and> rt_name (f r) = rt_name r \<and> rt_owner (f r) = rt_owner r"
  shows "keeps (silencing s) (set_route key f)"
proof (rule keepsI)
  fix t
  assume t: "silencing s t"
  have "route_at s (t\<lparr>x_routes := im_adjust (x_routes t) key f\<rparr>) k" if "route_at s t k" for k
    using that assms by (auto simp: route_at_def split: option.splits if_splits)
  then show "silencing s (snd (set_route key f t))" using t by (simp add: silencing_def waiting_def set_route_def)
qed

lemma drop_route_done:
  assumes "silencing s t" "fst (drop_route key t) = Inr ()" "im_get (x_routes s) key = Some r"
  shows "silenced_since s r (x_calls (snd (drop_route key t)))"
proof (cases "silenced_since s r (x_calls t)")
  case True
  then have "silenced_since s r (c # x_calls t)" for c using silenced_more [of s r "x_calls t" "[c]"] by simp
  then show ?thesis using True by (auto simp: drop_route_def act_apps called_def split: option.split sum.split)
next
  case False
  then obtain r' where r': "im_get (x_routes t) key = Some r'" "rt_child r' = rt_child r"
    using assms(1,3) by (auto simp: silencing_def route_at_def split: option.splits)
  then show ?thesis
    using assms(1,2)
    by (auto simp: drop_route_def act_apps called_def silenced_since_def silencing_def waiting_def split: sum.splits)
qed

lemma silencing_drop: "keeps (silencing s) (drop_route key)"
proof (rule keepsI)
  fix t
  assume t: "silencing s t"
  show "silencing s (snd (drop_route key t))"
  proof (cases "im_get (x_routes t) key")
    case None
    then show ?thesis using t by (simp add: drop_route_def)
  next
    case (Some r')
    define u where "u = t\<lparr>x_calls := GTerminate (rt_child r') # x_calls t\<rparr>"
    have called: "silencing s u"
      unfolding u_def by (rule silencing_add [OF _ t]) (simp add: unmutes_def)
    show ?thesis
    proof (cases "gw_unit (x_world t) (GTerminate (rt_child r') # x_calls t)")
      case (Inl e)
      then show ?thesis using called Some by (simp add: drop_route_def act_apps called_def u_def)
    next
      case (Inr v)
      let ?v = "u\<lparr>x_routes := im_shift_remove (x_routes u) key\<rparr>"
      have run: "drop_route key t = (Inr (), ?v)"
        using Inr Some by (simp add: drop_route_def act_apps called_def u_def)
      have "route_at s ?v k" for k
      proof (cases "k = key")
        case True
        then show ?thesis using drop_route_done [OF t, of key] by (simp add: run route_at_def split: option.split)
      next
        case False
        have "route_at s u k" using called by (simp add: silencing_def)
        then show ?thesis by (rule route_at_more [where ds = "[]"]) (simp_all add: False)
      qed
      then show ?thesis using called by (simp add: run silencing_def waiting_def)
    qed
  qed
qed

lemma silencing_cell: "keeps (silencing s) (silence_cell ready effective key)"
  unfolding silence_cell_def silence_route_def silence_node_def Let_def
  by (intro keeps_intros silencing_called silencing_drop silencing_set_route) (simp_all add: unmutes_def)

lemma silence_node_done:
  assumes "silencing s t" "fst (silence_node key i level r' node t) = Inr ()"
    and "rt_child r' = rt_child r" "graph_owned (x_graph s) (rt_name r) (rt_owner r) = Some node"
  shows "silenced_since s r (x_calls (snd (silence_node key i level r' node t)))"
  using assms
  by (auto simp: silence_node_def act_apps called_def set_route_def silenced_since_def silencing_def waiting_def mutes_node_def
      split: sum.splits if_splits)

lemma silence_route_done:
  assumes t: "silencing s t" and ok: "fst (silence_route key i level r' t) = Inr ()"
    and r: "im_get (x_routes s) key = Some r" "im_get (x_routes t) key = Some r'"
    and same: "rt_child r' = rt_child r" "rt_name r' = rt_name r" "rt_owner r' = rt_owner r"
  shows "silenced_since s r (x_calls (snd (silence_route key i level r' t)))"
proof -
  let ?u = "snd (called (GRunning (rt_child r')) gw_running t)"
  have u: "silencing s ?u" by (rule keepsD [OF silencing_called t]) (simp add: unmutes_def)
  then have owned: "graph_owned (x_graph ?u) (rt_name r') (rt_owner r') = graph_owned (x_graph s) (rt_name r) (rt_owner r)"
    using same by (simp add: silencing_def waiting_def same_nodes_owned)
  obtain running where running: "fst (called (GRunning (rt_child r')) gw_running t) = Inr running"
    using ok by (auto simp: silence_route_def attempt_app split: sum.splits)
  have run: "silence_route key i level r' t = (if \<not> running then drop_route key ?u
      else case graph_owned (x_graph s) (rt_name r) (rt_owner r) of
        Some node \<Rightarrow> silence_node key i level r' node ?u | None \<Rightarrow> drop_route key ?u)"
    using running by (simp add: silence_route_def attempt_app owned split: option.split)
  show ?thesis
    using ok drop_route_done [OF u _ r(1)] silence_node_done [OF u _ same(1)]
    by (auto simp: run split: option.split if_splits)
qed

lemma not_wanted_silent:
  assumes "\<not> wanted_open d i m" "\<not> cell_gone d g ready effective i m"
  shows "must_be_silent d i m"
  using assms by (auto simp: cell_gone_def must_be_silent_def wanted_open_def wanted_mute_def list_ex_iff
      split: option.splits dest: map_of_SomeD)

lemma silence_cell_done:
  assumes t: "silencing s t" and ok: "fst (silence_cell ready effective (CellRoute i m) t) = Inr ()"
    and r: "im_get (x_routes s) (CellRoute i m) = Some r" and not: "\<not> wanted_open (snd (x_desired s)) i m"
  shows "silenced_since s r (x_calls (snd (silence_cell ready effective (CellRoute i m) t)))"
proof -
  let ?d = "snd (x_desired s)"
  have d: "x_desired t = x_desired s" using t by (simp add: silencing_def waiting_def)
  have run: "silence_cell ready effective (CellRoute i m) t =
      (if cell_gone ?d (x_graph t) ready effective i m then drop_route (CellRoute i m) t
       else case im_get (x_routes t) (CellRoute i m) of None \<Rightarrow> (Inr (), t)
         | Some r \<Rightarrow> silence_route (CellRoute i m) i (silent_level ?d i m) r t)"
    using not_wanted_silent [OF not] by (auto simp: silence_cell_def d split: option.split)
  show ?thesis
  proof (cases "silenced_since s r (x_calls t)")
    case True
    have "after_calls (x_world t) (x_calls t) (snd (silence_cell ready effective (CellRoute i m) t))"
      by (rule keepsD [OF after.keeps_silence_cell after_refl])
    then show ?thesis using True by (auto simp: after_calls_def silenced_more)
  next
    case False
    then obtain r' where r': "im_get (x_routes t) (CellRoute i m) = Some r'"
      "rt_child r' = rt_child r" "rt_name r' = rt_name r" "rt_owner r' = rt_owner r"
      using t r by (auto simp: silencing_def route_at_def split: option.splits)
    then show ?thesis
      using ok drop_route_done [OF t _ r] silence_route_done [OF t _ r r'] by (auto simp: run split: if_splits)
  qed
qed

lemma silence_each_done:
  assumes "silencing s t" "fst (each_try (silence_cell ready effective) keys t) = Inr ()"
    and "CellRoute i m \<in> set keys" "im_get (x_routes s) (CellRoute i m) = Some r" "\<not> wanted_open (snd (x_desired s)) i m"
  shows "silenced_since s r (x_calls (snd (each_try (silence_cell ready effective) keys t)))"
  using assms
proof (induction keys arbitrary: t)
  case Nil
  then show ?case by simp
next
  case (Cons key keys)
  let ?u = "snd (silence_cell ready effective key t)"
  have ok: "fst (silence_cell ready effective key t) = Inr ()" "fst (each_try (silence_cell ready effective) keys ?u) = Inr ()"
    using Cons.prems(2) by (auto simp: attempt_app split: sum.splits)
  have u: "silencing s ?u" by (rule keepsD [OF silencing_cell Cons.prems(1)])
  have "after_calls (x_world ?u) (x_calls ?u) (snd (each_try (silence_cell ready effective) keys ?u))"
    by (rule keepsD [OF keeps_each_try [OF after.keeps_silence_cell] after_refl])
  then show ?case
    using Cons.IH [OF u ok(2)] Cons.prems(3-5) silence_cell_done [OF Cons.prems(1) _ Cons.prems(4,5)] ok(1)
    by (auto simp: attempt_app after_calls_def silenced_more)
qed

lemma silence_cells_done:
  assumes "preparing s t" "fst (silence_cells ready effective t) = Inr ()"
  shows "barrier_done s (x_calls (snd (silence_cells ready effective t)))"
  using assms silence_each_done [OF preparing_silencing [OF assms(1)], of ready effective "filter is_cell (im_keys (x_routes s))"]
  by (auto simp: barrier_done_def list_all_iff silence_cells_def preparing_def is_cell_def split: option.split route_key.split)

text \<open>The whole pass: whatever it opens, it opens behind the barrier.\<close>

lemma reconcile_guarded:
  "guarded (unmutes (master_nodes s)) (barrier_done s) (length (x_calls s)) (x_calls (snd (reconcile s)))"
proof -
  let ?p = "prepare_pass s"
  have prepared: "preparing s (snd ?p)" by (rule keepsD [OF preparing_prepare preparing_refl])
  show ?thesis
  proof (cases "fst ?p")
    case (Inl e)
    then show ?thesis using prepared by (simp add: reconcile_def attempt_app preparing_def waiting_def)
  next
    case (Inr x)
    obtain ready claims effective where x: "x = (ready, claims, effective)" by (cases x)
    let ?q = "silence_cells ready effective (snd ?p)"
    have "keeps (silencing s) (silence_cells ready effective)"
      unfolding silence_cells_def by (intro keeps_intros silencing_cell)
    then have silenced: "silencing s (snd ?q)" using preparing_silencing [OF prepared] by (rule keepsD)
    show ?thesis
    proof (cases "fst ?q")
      case (Inl e)
      then show ?thesis using silenced Inr x by (simp add: reconcile_def attempt_app silencing_def waiting_def)
    next
      case (Inr u)
      then have "barred s (snd ?q)"
        using silence_cells_done [OF prepared, of ready effective] silenced by (simp add: barred_def silencing_def waiting_def)
      then have "barred s (snd (open_routes ready effective claims (snd ?q)))" by (rule keepsD [OF barred.keeps_open_routes])
      then show ?thesis using Inr \<open>fst ?p = Inr x\<close> x by (simp add: reconcile_def attempt_app barred_def)
    qed
  qed
qed

subsection \<open>A pass\<close>

definition open_cell_keys :: "mixer \<Rightarrow> route_key list" where
  "open_cell_keys s = filter (\<lambda>key. case key of CellRoute i m \<Rightarrow> cell_open s i m | _ \<Rightarrow> False) (im_keys (x_routes s))"

lemma open_cells_set: "key \<in> set (open_cell_keys s) \<longleftrightarrow> (\<exists>i m. key = CellRoute i m \<and> cell_open s i m)"
proof -
  have "CellRoute i m \<in> fst ` set (x_routes s)" if "cell_open s i m" for i m
    using that by (auto simp: cell_open_def rev_image_eqI split: option.splits dest!: map_of_SomeD)
  then show ?thesis
    by (cases key) (auto simp: open_cell_keys_def im_keys_def)
qed

definition wanted_key :: "desired_state \<Rightarrow> route_key \<Rightarrow> bool" where
  "wanted_key d key = (case key of CellRoute i m \<Rightarrow> wanted_open d i m | _ \<Rightarrow> False)"

lemma pass_records_wanted:
  "case reconcile s of (_, t) \<Rightarrow>
     list_all (wanted_key (snd (x_desired s))) (open_cell_keys t) \<or> set (open_cell_keys t) \<subseteq> set (open_cell_keys s)"
proof -
  let ?d = "snd (x_desired s)"
  let ?p = "prepare_pass s"
  have prepared: "opens_within (cell_open s) ?d (snd ?p)"
    by (rule keepsD [OF opens.keeps_prepare opens_within_all])
  have early: ?thesis if "opens_within (cell_open s) ?d (snd (reconcile s))"
    using that by (auto simp: open_cells_set opens_within_def split: prod.splits)
  show ?thesis
  proof (cases "fst ?p")
    case (Inl e)
    then show ?thesis using early prepared by (simp add: reconcile_def attempt_app)
  next
    case (Inr x)
    obtain ready claims effective where x: "x = (ready, claims, effective)" by (cases x)
    let ?q = "silence_cells ready effective (snd ?p)"
    have silenced: "opens_within (cell_open s) ?d (snd ?q)"
      by (rule keepsD [OF opens.keeps_silence prepared])
    show ?thesis
    proof (cases "fst ?q")
      case (Inl e)
      then show ?thesis using early silenced Inr x by (simp add: reconcile_def attempt_app)
    next
      case (Inr u)
      have "opens_within (wanted_open ?d) ?d (snd ?q)"
        using silence_cells_close [of ready effective "snd ?p"] Inr prepared by (simp add: opens_within_def)
      then have "opens_within (wanted_open ?d) ?d (snd (open_routes ready effective claims (snd ?q)))"
        by (rule keepsD [OF opened.keeps_open_routes])
      then show ?thesis using Inr \<open>fst ?p = Inr x\<close> x
        by (auto simp: reconcile_def attempt_app open_cells_set opens_within_def list_all_iff wanted_key_def split: prod.splits)
    qed
  qed
qed

text \<open>
  C4. Whatever the sound server and the processes answer, and wherever a pass ends: the pass makes no call that
  unmutes a node other than the sink of a mix before it has silenced every cell that the routing does not want
  open (its source, its send or its level is silenced) - each such cell has by then been muted or had its
  process terminated by a call of this pass that succeeded, or its node was observed to be muted when the pass
  began. So a member of an exclusive group is never opened before the others are silent. And by the records of
  the mixer, either every cell that is open afterwards is one that the routing wants open, or the pass has opened
  no cell at all.
\<close>

theorem pass_opens_only_wanted:
  "case reconcile s of (_, t) \<Rightarrow>
     (list_all (wanted_key (snd (x_desired s))) (open_cell_keys t) \<or> set (open_cell_keys t) \<subseteq> set (open_cell_keys s)) \<and>
     guarded (unmutes (master_nodes s)) (barrier_done s) (length (x_calls s)) (x_calls t)"
  using pass_records_wanted [of s] reconcile_guarded [of s] by (auto split: prod.splits)

end
