(* ===== verification/Mixer_End.thy ===== *)
theory Mixer_End
  imports Mixer_Safe
begin

text \<open>
  What clients can rely on: requests for a mute that follow the bindings, observations that show no mute
  that is still to be confirmed, meters that are proven, and an end of the mixer that is complete and
  bounded.
\<close>

subsection \<open>Requests follow the bindings\<close>

definition control_bound :: "control \<Rightarrow> bool" where
  "control_bound k \<longleftrightarrow>
     list_all (\<lambda>(name, r). bound (k_bindings k) name (mq_binding r)) (k_requests k) \<and>
     (case k_desired k of None \<Rightarrow> k_bindings k = []
      | Some d \<Rightarrow> list_all (exact_binding (de_sources (snd d))) (k_bindings k)) \<and>
     (if k_stopped k then k_requests k = [] else True)"

lemma control_bound_serve: "control_bound k \<Longrightarrow> control_bound (serve k r)"
  by (cases r)
    (auto simp: serve_def set_desired_def set_capture_mute_def stop_control_def control_bound_def im_retain_def list_all_iff
      dest!: im_insert_mem split: option.splits)

lemma im_adjust_list_all:
  "list_all Q m \<Longrightarrow> (\<And>k v. Q (k, v) \<Longrightarrow> Q (k, f v)) \<Longrightarrow> list_all Q (im_adjust m n f)"
  by (induction m n f rule: im_adjust.induct) auto

lemma control_bound_step:
  assumes "control_step k k'" "control_bound k"
  shows "control_bound k'"
proof -
  have written: "list_all (\<lambda>(name, r). bound (k_bindings k) name (mq_binding r))
      (im_adjust (k_requests k) name (\<lambda>c. c\<lparr>mq_written := i\<rparr>))" for name i
    using assms(2) by (intro im_adjust_list_all) (simp_all add: control_bound_def)
  have removed: "list_all (\<lambda>(name, r). bound (k_bindings k) name (mq_binding r)) (im_shift_remove (k_requests k) name)" for name
    using assms(2) by (auto simp: control_bound_def im_shift_remove_def list_all_iff)
  show ?thesis
    using assms written removed unfolding control_step_def
    by (elim disjE exE) (simp_all add: control_bound_def im_shift_remove_def split: if_splits cong: option.case_cong)
qed

lemma control_bound_serves: "control_bound k \<Longrightarrow> control_bound (foldl serve k rs)"
  by (induction rs arbitrary: k) (simp_all add: control_bound_serve)

interpretation ctl: mixer_free "\<lambda>s. control_bound (x_control s)"
proof
  show "control_bound (x_control (s\<lparr>x_control := k, x_locks := n\<rparr>))"
    if "control_step (foldl serve (x_control s) rs) k" "control_bound (x_control s)" for s rs k n
    using control_bound_step [OF that(1)] control_bound_serves [OF that(2)] by simp
qed (auto simp: quiet_def)

text \<open>
  C17. At any time of any run, however clients and worker interleave: every outstanding request to mute a
  capture was made for the binding that is current now, the current bindings name exactly the device
  sources of the current routing, and a stopped mixer has no requests.
\<close>

theorem mixer_requests_bound: "control_bound (x_control (snd (mixer_run interval n owed (mixer_new w))))"
  by (rule keepsD [OF ctl.keeps_run]) (simp add: mixer_new_def control_default_def control_bound_def)

subsection \<open>Mutes that are not confirmed are not shown\<close>

text \<open>
  C19. An observation that is published shows the mute of a capture only if no request of a client for that
  capture is outstanding at that moment, those included that arrived while the pass was under way.
\<close>

theorem published_mutes_confirmed:
  "case publish_observation targets silent s of (_, t) \<Rightarrow>
     list_all (\<lambda>c. if cap_node_name c \<in> set (im_keys (k_requests (x_control t))) then known (cap_muted c) = None else True)
       (mo_captures (x_last t)) \<and>
     map cap_identity (mo_captures (x_last t)) = map cap_identity (mg_captures (x_graph s)) \<and>
     x_events t = (if gw_listening (x_world s) (x_sends s) then x_events s @ [Observed (x_last t)] else x_events s)"
proof -
  have "map cap_identity (map (\<lambda>c. if p c then c\<lparr>cap_muted := m\<rparr> else c) cs) = map cap_identity cs"
    for p m and cs :: "capture_snapshot list"
    by (induction cs) auto
  then show ?thesis
    by (auto simp: publish_observation_def locked_def bnd_app send_def observation_of_def hide_requested_def Let_def
      list_all_iff mute_awaited_def)
qed

subsection \<open>Meters\<close>

lemma retain_meters:
  "list_all (meter_proven (gw_float (x_world s)) (x_graph s)) kept \<Longrightarrow>
   list_all (meter_proven (gw_float (x_world s)) (x_graph s)) (fst (sweep retain_meter kept ts s))"
proof (induction ts arbitrary: kept s)
  case Nil
  then show ?case by simp
next
  case (Cons t ts)
  show ?case
    using Cons.IH [of s "kept @ [t]"] Cons.IH [of "s\<lparr>x_issues := x_issues s @ [issue_text (tg_key t)
       ''Meter unavailable: actual node object.serial missing; node ID cannot authorize a pw-cat target'']\<rparr>" kept] Cons.prems
    by (simp add: bnd_app retain_meter_def push_issue_def)
qed

lemma meters_read_only:
  "keeps (\<lambda>t. x_graph t = g \<and> x_world t = w) (sweep source_meter targets es)"
  "keeps (\<lambda>t. x_graph t = g \<and> x_world t = w) (sweep (wave_meter raw) targets cs)"
  unfolding source_meter_def wave_meter_def push_issue_def Let_def
  by (intro keeps_intros; simp add: keeps_def)+

text \<open>
  A stream of samples is only asked for from a node that was observed: the identity of every meter is that of
  a node of the observed graph, and that node itself carries the serial number the identity names.
\<close>

lemma meters_proven:
  "case meter_targets s of (targets, t) \<Rightarrow> list_all (meter_proven (gw_float (x_world s)) (x_graph s)) targets"
proof -
  let ?a = "sweep source_meter [] (de_sources (snd (x_desired s))) s"
  let ?b = "sweep (wave_meter (map tg_identity (filter tg_raw (fst ?a)))) (fst ?a) (mg_captures (x_graph s)) (snd ?a)"
  have "x_graph (snd ?a) = x_graph s \<and> x_world (snd ?a) = x_world s"
    by (rule keepsD [OF meters_read_only(1)]) simp
  then have "x_graph (snd ?b) = x_graph s \<and> x_world (snd ?b) = x_world s"
    by (rule keepsD [OF meters_read_only(2)])
  then show ?thesis
    using retain_meters [of "snd ?b" "[]"] by (simp add: meter_targets_def bnd_app case_prod_beta)
qed

subsection \<open>Nothing is left behind\<close>

interpretation ended: mixer_frame "\<lambda>s. x_routes s = [] \<and> x_effects s = []"
  by unfold_locales (simp_all add: quiet_def)

interpretation same_sinks: mixer_still "\<lambda>s. x_sinks s = m" for m
  by unfold_locales (simp_all add: quiet_def)

lemma fresh_issues: "x_issues (snd (fresh_cleanup_graph n s)) = x_issues s"
proof -
  have "x_issues (snd (observe_again k s)) = x_issues s" for k s
    by (induction k arbitrary: s) (simp_all add: bnd_app called_def observe_again_failed_def split: sum.split)
  then show ?thesis
    by (simp add: fresh_cleanup_graph_def attempt_app bnd_app observe_again_failed_def split: sum.split)
qed

lemma fresh_sinks: "x_sinks (snd (fresh_cleanup_graph n s)) = x_sinks s"
  using keepsD [OF same_sinks.view_fresh [of "x_sinks s"], of s n] by simp

text \<open>A fresh observation is the answer to a call that was made for it.\<close>

lemma observed_absent:
  assumes "fst (observe_again k s) = Inr g" "\<not> im_contains (mg_names g) name" "m \<le> length (x_calls s)"
  shows "absent_since (x_world s) m name (x_calls (snd (observe_again k s)))"
  using assms
proof (induction k arbitrary: s)
  case 0
  then show ?case by (auto simp: bnd_app called_def split: sum.splits)
next
  case (Suc k)
  show ?case
  proof (cases "gw_snapshot (x_world s) (GSnapshot # x_calls s)")
    case (Inl e)
    let ?t = "snd (observe_again_failed e (s\<lparr>x_calls := GSnapshot # x_calls s\<rparr>))"
    have "observe_again (Suc k) s = observe_again k ?t" using Inl by (simp add: bnd_app called_def)
    moreover have "x_world ?t = x_world s" "x_calls ?t = GSnapshot # x_calls s" by (simp_all add: observe_again_failed_def)
    ultimately show ?thesis using Suc.IH [of ?t] Suc.prems by simp
  next
    case (Inr g')
    then show ?thesis using Suc.prems by (auto simp: bnd_app called_def)
  qed
qed

lemma fresh_absent:
  assumes "fst (fresh_cleanup_graph n s) = Inr g" "\<not> im_contains (mg_names g) name" "m \<le> length (x_calls s)"
  shows "absent_since (x_world s) m name (x_calls (snd (fresh_cleanup_graph n s)))"
proof -
  have "fst (observe_again (n - 1) s) = Inr g" "snd (fresh_cleanup_graph n s) = snd (observe_again (n - 1) s)"
    using assms(1) by (auto simp: fresh_cleanup_graph_def attempt_app bnd_app split: sum.splits if_splits)
  then show ?thesis using observed_absent [of "n - 1" s g name m] assms(2,3) by simp
qed

text \<open>
  An owned sink is really gone: the server has unloaded its module, or it was observed to have no node of
  that name any more.
\<close>

definition sink_gone :: "graph_world \<Rightarrow> nat \<Rightarrow> graph_call list \<Rightarrow> string \<times> owned_sink \<Rightarrow> bool" where
  "sink_gone w m cs e \<longleftrightarrow> done_since w m (\<lambda>c. c = GUnloadModule (ow_module (snd e))) cs \<or> absent_since w m (fst e) cs"

lemma sink_gone_after: "after_calls w cs t \<Longrightarrow> sink_gone w m cs e \<Longrightarrow> sink_gone w m (x_calls t) e"
  by (auto simp: sink_gone_def done_after absent_after)

lemma sink_gone_earlier: "sink_gone w m cs e \<Longrightarrow> k \<le> m \<Longrightarrow> sink_gone w k cs e"
  by (auto simp: sink_gone_def done_since_earlier absent_since_earlier)

lemma after_remove: "keeps (after_calls w cs) (remove_owned n e)"
  unfolding remove_owned_def unload_owned_def forget_sink_def
  by (intro keeps_intros after.view_fresh after.view_small after.any_called) (simp_all add: keeps_def after_calls_def)

text \<open>An owned sink is forgotten when it is gone, or there is an issue.\<close>

lemma unload_owned_end:
  assumes "x_issues (snd (unload_owned name h g s)) = []" "m \<le> length (x_calls s)"
  shows "x_issues s = [] \<and> x_sinks (snd (unload_owned name h g s)) = im_shift_remove (x_sinks s) name \<and>
    (done_since (x_world s) m (\<lambda>c. c = GUnloadModule (ow_module h)) (x_calls (snd (unload_owned name h g s))) \<or>
     \<not> im_contains (mg_names g) name)"
  using assms
  by (auto simp: unload_owned_def complain_def push_issue_def forget_sink_def act_apps called_def split: option.splits sum.splits if_splits)

lemma remove_owned_end:
  assumes "fst (remove_owned n (name, h) s) = Inr ()" "x_issues (snd (remove_owned n (name, h) s)) = []"
    and "m \<le> length (x_calls s)"
  shows "x_issues s = [] \<and> x_sinks (snd (remove_owned n (name, h) s)) = im_shift_remove (x_sinks s) name \<and>
    sink_gone (x_world s) m (x_calls (snd (remove_owned n (name, h) s))) (name, h)"
proof -
  let ?t = "snd (fresh_cleanup_graph n s)"
  obtain g where g: "fst (fresh_cleanup_graph n s) = Inr g"
    using assms(1) by (auto simp: remove_owned_def attempt_app split: sum.splits)
  let ?u = "snd (unload_owned name h g ?t)"
  have u: "snd (remove_owned n (name, h) s) = ?u" using g by (simp add: remove_owned_def attempt_app)
  have t: "after_calls (x_world s) (x_calls s) ?t" by (rule keepsD [OF after.view_fresh after_refl])
  have more: "after_calls (x_world s) (x_calls ?t) ?u"
  proof -
    have "keeps (after_calls (x_world s) (x_calls ?t)) (unload_owned name h g)"
      unfolding unload_owned_def forget_sink_def
      by (intro keeps_intros after.view_small after.any_called) (simp_all add: keeps_def after_calls_def)
    from keepsD [OF this] show ?thesis using t by (simp add: after_calls_def)
  qed
  have m: "m \<le> length (x_calls ?t)" using assms(3) after_length [OF t] by simp
  have world: "x_world ?t = x_world s" using t by (simp add: after_calls_def)
  have e: "x_issues ?t = [] \<and> x_sinks ?u = im_shift_remove (x_sinks ?t) name \<and>
    (done_since (x_world s) m (\<lambda>c. c = GUnloadModule (ow_module h)) (x_calls ?u) \<or> \<not> im_contains (mg_names g) name)"
    using unload_owned_end [OF _ m, of name h g] assms(2) by (simp add: u world)
  then have "sink_gone (x_world s) m (x_calls ?u) (name, h)"
    using fresh_absent [OF g _ assms(3), of name] absent_after [OF more] by (auto simp: sink_gone_def)
  then show ?thesis using e by (simp add: u fresh_issues fresh_sinks)
qed

lemma remove_each_end:
  assumes "fst (each_try (remove_owned n) es s) = Inr ()" "x_issues (snd (each_try (remove_owned n) es s)) = []"
    and "m \<le> length (x_calls s)"
  shows "x_issues s = [] \<and> x_sinks (snd (each_try (remove_owned n) es s)) = filter (\<lambda>e. fst e \<notin> fst ` set es) (x_sinks s) \<and>
    list_all (sink_gone (x_world s) m (x_calls (snd (each_try (remove_owned n) es s)))) es"
  using assms
proof (induction es arbitrary: s)
  case Nil
  then show ?case by simp
next
  case (Cons e es)
  obtain name h where e: "e = (name, h)" by (cases e)
  let ?t = "snd (remove_owned n e s)"
  let ?u = "snd (each_try (remove_owned n) es ?t)"
  have ok: "fst (remove_owned n e s) = Inr ()" using Cons.prems(1) by (auto simp: attempt_app split: sum.splits)
  have t: "after_calls (x_world s) (x_calls s) ?t" by (rule keepsD [OF after_remove after_refl])
  then have world: "x_world ?t = x_world s" by (simp add: after_calls_def)
  have rest: "x_issues ?t = [] \<and> x_sinks ?u = filter (\<lambda>e. fst e \<notin> fst ` set es) (x_sinks ?t) \<and>
      list_all (sink_gone (x_world s) m (x_calls ?u)) es"
    using Cons.IH [of ?t] Cons.prems ok after_length [OF t] by (simp add: attempt_app world)
  then have first: "x_issues s = [] \<and> x_sinks ?t = im_shift_remove (x_sinks s) name \<and> sink_gone (x_world s) m (x_calls ?t) e"
    using remove_owned_end [of n name h s m] ok Cons.prems(3) by (simp add: e)
  have "after_calls (x_world s) (x_calls ?t) ?u"
    by (rule keepsD [OF keeps_each_try [OF after_remove]]) (simp add: after_calls_def world)
  then have "sink_gone (x_world s) m (x_calls ?u) e" using first by (auto intro: sink_gone_after)
  then show ?case
    using ok rest first by (auto simp: attempt_app e im_shift_remove_def intro: filter_cong)
qed

lemma cleanup_end:
  assumes "x_removed s = []" "fst (cleanup_sinks [] n s) = Inr ()" "x_issues (snd (cleanup_sinks [] n s)) = []"
    and "m \<le> length (x_calls s)"
  shows "x_issues s = [] \<and> x_sinks (snd (cleanup_sinks [] n s)) = [] \<and>
    list_all (sink_gone (x_world s) m (x_calls (snd (cleanup_sinks [] n s)))) (x_sinks s)"
proof -
  have "cleanup_sinks [] n s = each_try (remove_owned n) (x_sinks s) s"
    using assms(1) by (simp add: cleanup_sinks_def attempt_app)
  then show ?thesis
    using remove_each_end [of n "x_sinks s" s m] assms(2-4) by simp
qed

lemma cleanup_issues:
  assumes "x_removed s = []" "fst (cleanup_sinks wanted n s) = Inr ()" "x_issues (snd (cleanup_sinks wanted n s)) = []"
  shows "x_issues s = []"
proof -
  have "cleanup_sinks wanted n s = each_try (remove_owned n) (filter (\<lambda>(name, h). name \<notin> set wanted) (x_sinks s)) s"
    using assms(1) by (simp add: cleanup_sinks_def attempt_app)
  then show ?thesis
    using remove_each_end [of n "filter (\<lambda>(name, h). name \<notin> set wanted) (x_sinks s)" s 0] assms(2,3) by simp
qed

text \<open>An intake is only retained with an issue.\<close>

lemma move_back_issues: "x_issues (snd (move_back g st original s)) = x_issues s"
  by (cases "restore_target g original") (simp_all add: move_back_def called_def bnd_app)

lemma restore_stream_retained:
  assumes "retained = [] \<or> x_issues s \<noteq> []"
  shows "fst (restore_stream g wanted kept retained e s) = [] \<or> x_issues (snd (restore_stream g wanted kept retained e s)) \<noteq> []"
  using assms
  by (auto simp: restore_stream_def act_apps move_back_issues forget_moved_def push_issue_def
      split: prod.splits option.splits sum.splits if_splits)

lemma restore_streams_retained:
  assumes "fst (restore_streams g wanted kept s) \<noteq> []"
  shows "x_issues (snd (restore_streams g wanted kept s)) \<noteq> []"
proof -
  have "fst (sweep (restore_stream g wanted kept) retained es s) = [] \<or>
      x_issues (snd (sweep (restore_stream g wanted kept) retained es s)) \<noteq> []"
    if "retained = [] \<or> x_issues s \<noteq> []" for retained es s
    using that
  proof (induction es arbitrary: retained s)
    case Nil
    then show ?case by simp
  next
    case (Cons e es)
    show ?case
      using Cons.IH [OF restore_stream_retained [OF Cons.prems]] by (simp add: bnd_app)
  qed
  from this [of "[]" s "x_moved s @ strays s g kept"] show ?thesis using assms by (simp add: restore_streams_def)
qed

lemma restore_rounds_retained:
  assumes "fst (restore_rounds (Suc n) retained s) = Inr kept" "kept \<noteq> []"
  shows "x_issues (snd (restore_rounds (Suc n) retained s)) \<noteq> []"
  using assms
proof (induction n arbitrary: retained s)
  case 0
  then show ?case
    using restore_streams_retained [of _ "[]" "[]"]
    by (auto simp: attempt_app bnd_app split: sum.splits if_splits)
next
  case (Suc n)
  show ?case
    using Suc.prems Suc.IH
    by (subst restore_rounds.simps, subst (asm) (1) restore_rounds.simps)
      (auto simp: attempt_app bnd_app simp del: restore_rounds.simps split: sum.splits if_splits)
qed

lemma teardown_sinks_end:
  assumes "fst (teardown_sinks issues s) = Inr ()" "m \<le> length (x_calls s)"
  shows "x_sinks (snd (teardown_sinks issues s)) = [] \<and> issues = [] \<and>
    list_all (sink_gone (x_world s) m (x_calls (snd (teardown_sinks issues s)))) (x_sinks s)"
proof -
  let ?r = "restore_rounds 3 [] (s\<lparr>x_issues := []\<rparr>)"
  obtain kept where kept: "fst ?r = Inr kept"
    using assms by (auto simp: teardown_sinks_def bnd_app split: sum.splits)
  define t where "t = (snd ?r)\<lparr>x_issues := issues @ x_issues (snd ?r), x_removed := []\<rparr>"
  let ?c = "cleanup_sinks kept CLEANUP_ATTEMPTS t"
  have c: "fst ?c = Inr ()" "x_issues (snd ?c) = []" "snd (teardown_sinks issues s) = snd ?c"
    unfolding t_def
    using assms(1) kept by (auto simp: teardown_sinks_def bnd_app push_issue_def guard_ok_def split: sum.splits if_splits)
  have "x_issues t = []" by (rule cleanup_issues [OF _ c(1,2)]) (simp add: t_def)
  then have none: "kept = []" "issues = []"
    using restore_rounds_retained [of 2 "[]" "s\<lparr>x_issues := []\<rparr>" kept] kept by (auto simp: t_def numeral_3_eq_3 numeral_2_eq_2)
  have "after_calls (x_world s) (x_calls s) (snd ?r)"
    by (rule keepsD [OF after.view_restore_rounds]) (simp add: after_calls_def)
  then have r: "x_world (snd ?r) = x_world s" "m \<le> length (x_calls (snd ?r))"
    using assms(2) after_length by (auto simp: after_calls_def)
  have "x_sinks (snd ?r) = x_sinks s"
    using keepsD [OF same_sinks.view_restore_rounds [of "x_sinks s"], of "s\<lparr>x_issues := []\<rparr>" 3 "[]"] by simp
  then have t: "x_removed t = []" "x_sinks t = x_sinks s" "x_world t = x_world s" "m \<le> length (x_calls t)"
    using r by (simp_all add: t_def)
  show ?thesis
    using cleanup_end [OF t(1) _ _ t(4), of CLEANUP_ATTEMPTS] c(1,2) none(1) by (simp add: c(3) [unfolded none] none t(2,3))
qed

lemma stop_sinks: "x_sinks (snd (stop_effects (snd (stop_routes s)))) = x_sinks s"
proof -
  have "keeps (\<lambda>t. x_sinks t = x_sinks s) (drop_route key)" for key
    unfolding drop_route_def by (intro keeps_intros same_sinks.any_called) (simp add: keeps_def)
  moreover have "keeps (\<lambda>t. x_sinks t = x_sinks s) (drop_effect i)" for i
    unfolding drop_effect_def by (intro keeps_intros same_sinks.any_called) (simp add: keeps_def)
  ultimately have "keeps (\<lambda>t. x_sinks t = x_sinks s) stop_routes" "keeps (\<lambda>t. x_sinks t = x_sinks s) stop_effects"
    unfolding stop_routes_def stop_effects_def drop_each_def by (auto intro!: keeps_intros)
  then show ?thesis by (simp add: keeps_def)
qed

text \<open>The end of a run is a shutdown.\<close>

lemma run_ends_in_teardown: "fst (mixer_run interval n owed s) = Some r \<Longrightarrow> \<exists>t. mixer_run interval n owed s = (Some (fst (teardown t)), snd (teardown t))"
proof (induction n arbitrary: owed s)
  case 0
  then show ?case by simp
next
  case (Suc n)
  show ?case
  proof (cases "fst (mixer_turn interval owed s)")
    case None
    then show ?thesis by (auto simp: bnd_app)
  next
    case (Some owed')
    then show ?thesis using Suc by (simp add: bnd_app)
  qed
qed

text \<open>
  C15. When the shutdown of the mixer reports success, nothing of it is left: of all the child processes that were
  ever started in the run, each has been terminated with success; each sink that the mixer owned when the
  shutdown began has been unloaded with success or was observed to be absent since; and no route, filter or
  sink is still on record. When it does not, it reports that something is unavailable.
\<close>

theorem teardown_complete:
  "(case teardown s of
      (Inr _, t) \<Rightarrow> x_routes t = [] \<and> x_effects t = [] \<and> x_sinks t = [] \<and>
        list_all (sink_gone (x_world s) (length (x_calls s)) (x_calls t)) (x_sinks s)
    | (Inl e, t) \<Rightarrow> err_code e = Unavailable) \<and>
   (case mixer_run interval n owed (mixer_new w) of
      (Some (Inr _), t) \<Rightarrow> children w (x_calls t) = []
    | _ \<Rightarrow> True)"
proof
  have ended: "x_routes (snd (teardown_sinks issues s)) = [] \<and> x_effects (snd (teardown_sinks issues s)) = []"
    if "x_routes s = [] \<and> x_effects s = []" for issues s
    using that by (rule keepsD [OF ended.view_teardown_sinks])
  have failed: "err_code e = Unavailable" if "fst (teardown_sinks issues s) = Inl e" for issues s e
    using that by (auto simp: teardown_sinks_def bnd_app issues_error_def push_issue_def guard_ok_def split: sum.splits if_splits)
  have complete: "case teardown s of
      (Inr _, t) \<Rightarrow> x_routes t = [] \<and> x_effects t = [] \<and> x_sinks t = [] \<and>
        list_all (sink_gone (x_world s) (length (x_calls s)) (x_calls t)) (x_sinks s)
    | (Inl e, t) \<Rightarrow> err_code e = Unavailable" for s
  proof -
    define t where "t = snd (stop_effects (snd (stop_routes s)))"
    define issues where "issues = stop_issue ''routes'' (fst (stop_routes s)) @ stop_issue ''effects'' (fst (stop_effects (snd (stop_routes s))))"
    have run: "teardown s = (if x_cookie s = None \<and> x_sinks s = [] \<and> x_routes s = [] \<and> x_effects s = [] then (Inr (), s)
        else if x_routes t = [] \<and> x_effects t = [] then teardown_sinks issues t else (Inl (issues_error issues), t))"
      by (simp add: teardown_def bnd_app t_def issues_def Let_def guard_ok_def)
    have "after_calls (x_world s) (x_calls s) t"
      unfolding t_def by (intro keepsD [OF after.keeps_stop_effects] keepsD [OF after.keeps_stop_routes] after_refl)
    then have t: "x_world t = x_world s" "length (x_calls s) \<le> length (x_calls t)" "x_sinks t = x_sinks s"
      using after_length by (auto simp: after_calls_def t_def stop_sinks)
    show ?thesis
      using ended [of t issues] teardown_sinks_end [of issues t "length (x_calls s)"] failed [of issues t] t
      by (cases "teardown_sinks issues t") (auto simp: run issues_error_def split: sum.split)
  qed
  then show "case teardown s of
      (Inr _, t) \<Rightarrow> x_routes t = [] \<and> x_effects t = [] \<and> x_sinks t = [] \<and>
        list_all (sink_gone (x_world s) (length (x_calls s)) (x_calls t)) (x_sinks s)
    | (Inl e, t) \<Rightarrow> err_code e = Unavailable" .
  show "case mixer_run interval n owed (mixer_new w) of (Some (Inr _), t) \<Rightarrow> children w (x_calls t) = [] | _ \<Rightarrow> True"
  proof (cases "fst (mixer_run interval n owed (mixer_new w))")
    case None
    then show ?thesis by (cases "mixer_run interval n owed (mixer_new w)") simp
  next
    case (Some r)
    from run_ends_in_teardown [OF this] obtain t
      where t: "mixer_run interval n owed (mixer_new w) = (Some (fst (teardown t)), snd (teardown t))" by blast
    have "x_world (snd (mixer_run interval n owed (mixer_new w))) = w"
      by (rule keepsD [OF world.keeps_run]) (simp add: mixer_new_def)
    then have "no_child_lost (snd (teardown t))" "x_world (snd (teardown t)) = w"
      using run_kept [of interval n owed w] by (simp_all add: t)
    then have "children w (x_calls (snd (teardown t))) = []" if "fst (teardown t) = Inr u" for u
      using complete [of t] that by (cases "teardown t") (auto simp: no_child_lost_def holds_def)
    then show ?thesis by (simp add: t split: sum.split)
  qed
qed

subsection \<open>The end is bounded\<close>

definition snapshots :: "graph_call list \<Rightarrow> nat" where
  "snapshots calls = length (filter (\<lambda>c. c = GSnapshot) calls)"

definition costs :: "nat \<Rightarrow> 'a mact \<Rightarrow> bool" where
  "costs k m \<longleftrightarrow> (\<forall>s. snapshots (x_calls (snd (m s))) \<le> snapshots (x_calls s) + k)"

lemma costs_free: "costs 0 (ret x)" "costs 0 skip" "costs 0 (fail_with e)" "costs 0 (push_issue i)" "costs 0 (observe_again_failed e)"
  by (simp_all add: costs_def push_issue_def observe_again_failed_def)

lemma costs_upd: "(\<And>s. x_calls (f s) = x_calls s) \<Longrightarrow> costs 0 (upd f)"
  by (simp add: costs_def)

lemma costs_called: "c \<noteq> GSnapshot \<Longrightarrow> costs 0 (called c answer)" "costs (Suc 0) (called GSnapshot answer)"
  by (simp_all add: costs_def called_def bnd_app snapshots_def)

lemma costs_bnd: "costs j m \<Longrightarrow> (\<And>x. costs k (f x)) \<Longrightarrow> costs (j + k) (bnd m f)"
  by (fastforce simp: costs_def bnd_app intro: order_trans)

lemma costs_more: "costs j m \<Longrightarrow> j \<le> k \<Longrightarrow> costs k m"
  unfolding costs_def by (meson add_left_mono order_trans)

lemma costs_ask: "(\<And>s. costs k (f s)) \<Longrightarrow> costs k (ask f)"
  by (simp add: costs_def)

lemma costs_attempt: "costs j m \<Longrightarrow> (\<And>x. costs k (f x)) \<Longrightarrow> costs (j + k) (attempt m f)"
  unfolding attempt_def by (rule costs_bnd) (auto intro: costs_more [OF costs_free(1)] split: sum.split)

lemma costs_each_try: "(\<And>x. costs k (f x)) \<Longrightarrow> costs (length xs * k) (each_try f xs)"
proof (induction xs)
  case Nil
  then show ?case by (simp add: costs_def)
next
  case (Cons x xs)
  then show ?case using costs_attempt [of k "f x" "length xs * k" "\<lambda>_. each_try f xs"] by simp
qed

lemma costs_sweep: "(\<And>b x. costs 0 (f b x)) \<Longrightarrow> costs 0 (sweep f b xs)"
proof (induction xs arbitrary: b)
  case Nil
  then show ?case by (simp add: costs_def)
next
  case (Cons x xs)
  then show ?case using costs_bnd [of 0 "f b x" 0 "\<lambda>c. sweep f c xs"] by simp
qed

lemma costs_observe: "costs (Suc n) (observe_again n)"
proof (induction n)
  case 0
  have "costs (Suc 0 + 0) (observe_again 0)"
    unfolding observe_again.simps
    by (rule costs_bnd [OF costs_called(2)])
      (auto intro!: costs_bnd [of 0 _ 0, simplified] costs_free split: sum.split)
  then show ?case by simp
next
  case (Suc n)
  have "costs (Suc 0 + Suc n) (observe_again (Suc n))"
    unfolding observe_again.simps
    by (rule costs_bnd [OF costs_called(2)])
      (auto intro!: costs_bnd [of 0 _ "Suc n", simplified] costs_free Suc intro: costs_more [OF costs_free(1)] split: sum.split)
  then show ?case by simp
qed

lemma costs_fresh:
  assumes "0 < n"
  shows "costs n (fresh_cleanup_graph n)"
proof -
  have "costs 0 (ask (\<lambda>s. if x_cookie s = Some (mg_cookie g) then ret (Inr g)
     else bnd (observe_again_failed cleanup_identity_error) (\<lambda>_. fail_with cleanup_identity_error)))" for g
    by (auto intro!: costs_ask costs_bnd [of 0 _ 0, simplified] costs_free)
  from costs_attempt [OF costs_observe this, of "n - 1"] assms show ?thesis
    by (simp add: fresh_cleanup_graph_def)
qed

lemma costs_move_back: "costs 0 (move_back g st original)"
  unfolding move_back_def by (cases "restore_target g original") (simp_all add: costs_called costs_free)

lemma costs_restore: "costs 0 (restore_streams g wanted kept)"
proof -
  have "costs 0 (forget_moved ident)" for ident
    unfolding forget_moved_def by (rule costs_upd) simp
  then have "costs 0 (restore_stream g wanted kept retained e)" for retained e
    unfolding restore_stream_def
    by (auto intro!: costs_ask costs_bnd [of 0 _ 0, simplified] costs_free costs_move_back split: prod.split option.split sum.split)
  then show ?thesis
    unfolding restore_streams_def by (intro costs_ask costs_sweep)
qed

lemma costs_rounds: "costs (n * CLEANUP_ATTEMPTS) (restore_rounds n retained)"
proof (induction n arbitrary: retained)
  case 0
  then show ?case by (simp add: costs_def)
next
  case (Suc n)
  have "costs (CLEANUP_ATTEMPTS + (0 + (0 + n * CLEANUP_ATTEMPTS))) (restore_rounds (Suc n) retained)"
    unfolding restore_rounds.simps
    by (intro costs_attempt costs_fresh costs_bnd costs_restore costs_upd)
      (auto simp: CLEANUP_ATTEMPTS_def intro: Suc [unfolded CLEANUP_ATTEMPTS_def] costs_more [OF costs_free(1)])
  then show ?case by (simp add: add.commute)
qed

lemma costs_remove_owned: "0 < n \<Longrightarrow> costs n (remove_owned n e)"
proof -
  assume "0 < n"
  have "costs 0 (unload_owned name h g)" for name h g
    unfolding unload_owned_def complain_def forget_sink_def done_ok_def seq_simps
    by (auto intro!: costs_bnd [of 0 _ 0, simplified] costs_free costs_called costs_upd split: option.split sum.split)
  then have "costs (n + 0) (remove_owned n e)"
    unfolding remove_owned_def case_prod_beta using costs_fresh [OF \<open>0 < n\<close>] by (intro costs_attempt)
  then show ?thesis by simp
qed

lemma costs_cleanup:
  assumes "0 < n" "x_removed s = []"
  shows "snapshots (x_calls (snd (cleanup_sinks wanted n s))) \<le> snapshots (x_calls s) + length (x_sinks s) * n"
proof -
  let ?es = "filter (\<lambda>(name, h). name \<notin> set wanted) (x_sinks s)"
  have eq: "cleanup_sinks wanted n s = each_try (remove_owned n) ?es s"
    using assms(2) by (simp add: cleanup_sinks_def attempt_app)
  have "costs (length ?es * n) (each_try (remove_owned n) ?es)"
    by (intro costs_each_try costs_remove_owned assms(1))
  then have "snapshots (x_calls (snd (cleanup_sinks wanted n s))) \<le> snapshots (x_calls s) + length ?es * n"
    unfolding costs_def eq by (rule spec)
  also have "\<dots> \<le> snapshots (x_calls s) + length (x_sinks s) * n" by simp
  finally show ?thesis .
qed

lemma costs_stop: "costs 0 stop_routes" "costs 0 stop_effects"
proof -
  have drop: "costs 0 (drop_each f keys)" if "\<And>k. costs 0 (f k)" for f :: "'k \<Rightarrow> unit res mact" and keys
  proof -
    have "costs (0 + 0) (bnd (f key) (\<lambda>r. ret (g r)))" for key and g :: "unit res \<Rightarrow> string list"
      by (rule costs_bnd [OF that costs_free(1)])
    then have "costs 0 (sweep (\<lambda>errors key. bnd (f key) (\<lambda>r. ret (g errors r))) [] keys)"
      for g :: "string list \<Rightarrow> unit res \<Rightarrow> string list"
      by (intro costs_sweep) simp
    then have "costs (0 + 0) (drop_each f keys)"
      unfolding drop_each_def by (rule costs_bnd) (simp add: costs_free)
    then show ?thesis by simp
  qed
  have "costs 0 (drop_route key)" for key
    unfolding drop_route_def done_ok_def seq_simps
    by (auto intro!: costs_ask costs_attempt [of 0 _ 0, simplified] costs_bnd [of 0 _ 0, simplified] costs_called costs_upd
        costs_free split: option.split)
  then show "costs 0 stop_routes" unfolding stop_routes_def by (intro costs_ask drop)
  have "costs 0 (drop_effect i)" for i
    unfolding drop_effect_def done_ok_def seq_simps
    by (auto intro!: costs_ask costs_attempt [of 0 _ 0, simplified] costs_bnd [of 0 _ 0, simplified] costs_called costs_upd
        costs_free split: option.split)
  then show "costs 0 stop_effects" unfolding stop_effects_def by (intro costs_ask drop)
qed

lemma teardown_sinks_cost:
  "snapshots (x_calls (snd (teardown_sinks issues s))) \<le> snapshots (x_calls s) + 3 * CLEANUP_ATTEMPTS + length (x_sinks s) * CLEANUP_ATTEMPTS"
proof -
  let ?s = "s\<lparr>x_issues := []\<rparr>"
  let ?r = "restore_rounds 3 [] ?s"
  let ?t = "(snd ?r)\<lparr>x_issues := issues @ x_issues (snd ?r), x_removed := []\<rparr>"
  have rounds: "snapshots (x_calls (snd ?r)) \<le> snapshots (x_calls s) + 3 * CLEANUP_ATTEMPTS"
    using costs_rounds [of 3 "[]"] unfolding costs_def by (metis (no_types, lifting) mixer.select_convs(2) mixer.surjective mixer.update_convs(10))
  have "x_sinks (snd ?r) = x_sinks s"
    using keepsD [OF same_sinks.view_restore_rounds [of "x_sinks s"], of ?s 3 "[]"] by simp
  then have "snapshots (x_calls (snd (cleanup_sinks kept CLEANUP_ATTEMPTS ?t))) \<le>
      snapshots (x_calls (snd ?r)) + length (x_sinks s) * CLEANUP_ATTEMPTS" for kept
    using costs_cleanup [of CLEANUP_ATTEMPTS ?t kept] by (simp add: CLEANUP_ATTEMPTS_def)
  with rounds show ?thesis
    by (auto simp: teardown_sinks_def bnd_app push_issue_def guard_ok_def intro: order_trans add_right_mono split: sum.split)
qed

text \<open>
  C18. Shutting the mixer down ends however the sound server answers, and after a bounded number of
  observations: three for each of at most three rounds of restoring streams, and three for each
  sink the mixer owns.
\<close>

theorem teardown_bounded:
  "snapshots (x_calls (snd (teardown s))) \<le>
     snapshots (x_calls s) + 3 * CLEANUP_ATTEMPTS + length (x_sinks s) * CLEANUP_ATTEMPTS"
proof -
  let ?t = "snd (stop_effects (snd (stop_routes s)))"
  have "snapshots (x_calls ?t) \<le> snapshots (x_calls s)"
    using costs_stop unfolding costs_def by (metis add_0_right order_trans)
  then have "snapshots (x_calls (snd (teardown_sinks issues ?t))) \<le>
      snapshots (x_calls s) + 3 * CLEANUP_ATTEMPTS + length (x_sinks s) * CLEANUP_ATTEMPTS"
    and "snapshots (x_calls ?t) \<le> snapshots (x_calls s) + 3 * CLEANUP_ATTEMPTS + length (x_sinks s) * CLEANUP_ATTEMPTS" for issues
    using teardown_sinks_cost [of issues ?t] unfolding stop_sinks by linarith+
  then show ?thesis by (simp add: teardown_def bnd_app Let_def guard_ok_def)
qed

end
