(* ===== verification/Mixer_Quick.thy ===== *)
theory Mixer_Quick
  imports Mixer_Trace
begin

text \<open>
  Two routines of the mixer on their own: linking two nodes, and the quick path for edits that only move
  levels, which must leave the routes as a full pass would. Both are stated on the calls that have succeeded,
  and the quick path against what the configuration asks of a cell, which is what a full pass applies.
\<close>

subsection \<open>Links\<close>

text \<open>A link that the graph showed at the start, or that a call since has made with success.\<close>

definition linked_since :: "mixer \<Rightarrow> mixer \<Rightarrow> u32 \<times> u32 \<Rightarrow> bool" where
  "linked_since s t edge \<longleftrightarrow> edge \<in> set (mg_links (x_graph s)) \<or>
     done_since (x_world s) (length (x_calls s)) (\<lambda>c. c = GLink (fst edge) (snd edge)) (x_calls t)"

definition linked_from :: "(u32 \<times> u32 \<Rightarrow> bool) \<Rightarrow> mixer_port list \<Rightarrow> mixer_port \<Rightarrow> bool" where
  "linked_from linked outputs dest \<longleftrightarrow> list_ex (\<lambda>p. linked (po_id p, po_id dest) \<and>
     (if list_ex (\<lambda>q. po_channel q \<noteq> [] \<and> po_channel q = po_channel dest) outputs then po_channel p = po_channel dest else True)) outputs"

lemma find_Some_iff': "List.find P xs = Some x \<Longrightarrow> P x \<and> x \<in> set xs"
  by (auto simp: find_Some_iff)

lemma link_origin_linked:
  assumes "outputs \<noteq> []" "linked (po_id (link_origin outputs index dest), po_id dest)"
  shows "linked_from linked outputs dest"
proof -
  let ?P = "\<lambda>p. po_channel p \<noteq> [] \<and> po_channel p = po_channel dest"
  have "link_origin outputs index dest \<in> set outputs \<and>
      (list_ex ?P outputs \<longrightarrow> po_channel (link_origin outputs index dest) = po_channel dest)"
  proof (cases "List.find ?P outputs")
    case None
    then have "\<not> list_ex ?P outputs" by (auto simp: find_None_iff list_ex_iff)
    then show ?thesis using assms(1) None by (simp add: link_origin_def)
  next
    case (Some p)
    then show ?thesis using find_Some_iff' [OF Some] by (simp add: link_origin_def)
  qed
  then show ?thesis using assms(2) by (auto simp: linked_from_def list_ex_iff)
qed

text \<open>The links on record are links that were shown or made.\<close>

definition true_links :: "mixer \<Rightarrow> mixer \<Rightarrow> bool" where
  "true_links s t \<longleftrightarrow> after_calls (x_world s) (x_calls s) t \<and> list_all (linked_since s t) (mg_links (x_graph t))"

lemma linked_more: "x_calls u = c # x_calls t \<Longrightarrow> linked_since s t edge \<Longrightarrow> linked_since s u edge"
  using done_since_more [of "x_world s" "length (x_calls s)" _ "x_calls t" "[c]"] by (auto simp: linked_since_def)

lemma link_port_true:
  assumes "true_links s t"
  shows "true_links s (snd (link_port outputs e t))"
    and "fst (link_port outputs (index, dest) t) = Inr () \<Longrightarrow>
      (po_id (link_origin outputs index dest), po_id dest) \<in> set (mg_links (x_graph (snd (link_port outputs (index, dest) t))))"
    and "set (mg_links (x_graph t)) \<subseteq> set (mg_links (x_graph (snd (link_port outputs e t))))"
proof -
  obtain j port where e: "e = (j, port)" by (cases e)
  define edge where "edge = (po_id (link_origin outputs j port), po_id port)"
  define u where "u = t\<lparr>x_calls := GLink (fst edge) (snd edge) # x_calls t\<rparr>"
  have made: "linked_since s u edge" if "gw_unit (x_world t) (x_calls u) = Inr ()"
    using that assms after_length [of "x_world s" "x_calls s" t]
    by (simp add: linked_since_def u_def true_links_def after_calls_def)
  have shown: "list_all (linked_since s u) (mg_links (x_graph t))"
    using assms linked_more [of u _ t s] by (auto simp: true_links_def list_all_iff u_def)
  have calls: "after_calls (x_world s) (x_calls s) u"
    using assms after.calls [of "x_world s" "x_calls s" t] by (simp add: true_links_def u_def)
  have run: "link_port outputs e t = (if edge \<in> set (mg_links (x_graph t)) then (Inr (), t)
      else case gw_unit (x_world t) (x_calls u) of Inl err \<Rightarrow> (Inl err, u)
        | Inr _ \<Rightarrow> (Inr (), u\<lparr>x_graph := (x_graph u)\<lparr>mg_links := List.insert edge (mg_links (x_graph u))\<rparr>\<rparr>))"
    by (simp add: e link_port_def edge_def u_def act_apps called_def Let_def split: sum.split)
  have "linked_since s (u\<lparr>x_graph := g\<rparr>) = linked_since s u" "after_calls w cs (u\<lparr>x_graph := g\<rparr>) = after_calls w cs u" for g w cs
    by (simp_all add: linked_since_def fun_eq_iff after_calls_def)
  then show "true_links s (snd (link_port outputs e t))"
    using assms made shown calls
    by (auto simp: run true_links_def list_all_iff u_def [symmetric] split: sum.split) (simp_all add: u_def)
  show "set (mg_links (x_graph t)) \<subseteq> set (mg_links (x_graph (snd (link_port outputs e t))))"
    by (auto simp: run u_def split: sum.split)
qed (auto simp: link_port_def Let_def act_apps called_def split: sum.splits if_splits)

lemma link_ports_true:
  assumes "fst (each_try (link_port outputs) es t) = Inr ()" "true_links s t"
  shows "true_links s (snd (each_try (link_port outputs) es t)) \<and>
    set (mg_links (x_graph t)) \<subseteq> set (mg_links (x_graph (snd (each_try (link_port outputs) es t)))) \<and>
    list_all (\<lambda>(index, dest). (po_id (link_origin outputs index dest), po_id dest) \<in>
      set (mg_links (x_graph (snd (each_try (link_port outputs) es t))))) es"
  using assms
proof (induction es arbitrary: t)
  case Nil
  then show ?case by simp
next
  case (Cons e es)
  obtain index dest where e: "e = (index, dest)" by (cases e)
  let ?t = "snd (link_port outputs e t)"
  have ok: "fst (link_port outputs e t) = Inr ()" "fst (each_try (link_port outputs) es ?t) = Inr ()"
    using Cons.prems by (auto simp: attempt_app split: sum.splits)
  show ?case
    using Cons.IH [OF ok(2) link_port_true(1) [OF Cons.prems(2)]] link_port_true(2) [OF Cons.prems(2), of outputs index dest]
      link_port_true(3) [OF Cons.prems(2), of outputs e] ok(1)
    by (auto simp: attempt_app e)
qed

text \<open>
  C21. If two nodes are reported as linked, every input port of the target really is linked from an output port of
  the source: the graph showed the link, or a call that makes it has succeeded. The port is one of its own channel
  wherever the source has that channel.
\<close>

theorem link_nodes_connects:
  "case link_nodes source target s of
     (Inr True, t) \<Rightarrow>
       (case (graph_identity (x_graph s) source, graph_identity (x_graph s) target) of
          (Some a, Some b) \<Rightarrow> node_ports (x_graph s) False b \<noteq> [] \<and>
            list_all (linked_from (linked_since s t) (node_ports (x_graph s) True a)) (node_ports (x_graph s) False b)
        | _ \<Rightarrow> False)
   | _ \<Rightarrow> True"
proof (cases "fst (link_nodes source target s) = Inr True")
  case True
  then obtain a b where ab: "graph_identity (x_graph s) source = Some a" "graph_identity (x_graph s) target = Some b"
    by (auto simp: link_nodes_def split: option.splits)
  let ?outs = "node_ports (x_graph s) True a" and ?ins = "node_ports (x_graph s) False b"
  let ?r = "each_try (link_port ?outs) (enumerate 0 ?ins) s"
  have some: "?outs \<noteq> []" "?ins \<noteq> []" and ok: "fst ?r = Inr ()" "snd (link_nodes source target s) = snd ?r"
    using True ab by (auto simp: link_nodes_def Let_def attempt_app split: sum.splits if_splits)
  have "true_links s s" by (auto simp: true_links_def linked_since_def list_all_iff)
  note made = link_ports_true [OF ok(1) this]
  have "linked_from (linked_since s (snd ?r)) ?outs dest" if dest: "dest \<in> set ?ins" for dest
  proof -
    have "dest \<in> snd ` set (enumerate 0 ?ins)"
      using dest unfolding set_map [symmetric] map_snd_enumerate .
    then obtain index where "(index, dest) \<in> set (enumerate 0 ?ins)" by auto
    then have "linked_since s (snd ?r) (po_id (link_origin ?outs index dest), po_id dest)"
      using made by (auto simp: list_all_iff true_links_def)
    with some(1) show ?thesis by (rule link_origin_linked)
  qed
  then show ?thesis
    using True ab some ok(2) by (auto simp: list_all_iff split: prod.splits sum.splits bool.splits)
qed (auto split: prod.splits sum.splits bool.splits)

subsection \<open>Retuning\<close>

text \<open>What the mixer last wrote to the node of a route.\<close>

definition applied_at :: "mixer \<Rightarrow> route_key \<Rightarrow> (node_identity \<times> f64 \<times> bool) option" where
  "applied_at s key = Option.bind (im_get (x_routes s) key) rt_applied"

definition mute_now :: "mixer \<Rightarrow> route_key \<Rightarrow> bool option" where
  "mute_now s key = map_option (\<lambda>(ident, level, muted). muted) (applied_at s key)"

text \<open>
  What a configuration asks of a cell: the product of the send and the trim of the source, silenced by the
  source, by the send or by a trim of nothing. This is what a full pass applies.
\<close>

definition asked_level :: "desired_state \<Rightarrow> source_id \<Rightarrow> source \<Rightarrow> mix_id \<Rightarrow> f64" where
  "asked_level d i src m = f64_mul (fst (cell_state d i m)) (src_level src)"

lemma open_cell_applies:
  "open_cell ready i src capture plan (m, mx) = ask (\<lambda>s.
     if m \<notin> set ready \<or> nonpositive (fst (cell_state (snd (x_desired s)) i m)) then ret plan
     else case graph_named (x_graph s) (mix_sink mx) of
       None \<Rightarrow> ret plan
     | Some node \<Rightarrow> bnd (reroute (CellRoute i m)
           \<lparr>rs_source = capture, rs_target = Some (nd_identity node), rs_description = None\<rparr> (cell_route_name i m)
           (asked_level (snd (x_desired s)) i src m) (wanted_mute (snd (x_desired s)) i src m)) (\<lambda>r.
         let plan = plan\<lparr>pl_routes := List.insert (CellRoute i m) (pl_routes plan)\<rparr> in case r of
           Inr _ \<Rightarrow> ret plan
         | Inl e \<Rightarrow> bnd (push_issue (mixer_issue (''cell:'' @ i @ ''.'' @ m) e)) (\<lambda>_.
             ret (plan\<lparr>pl_blocked := List.insert i (pl_blocked plan)\<rparr>))))"
  unfolding open_cell_def asked_level_def wanted_mute_def Let_def prod.case by (rule refl)

text \<open>
  A cell that is as a full pass would set it: silent by its send, or at the level and the mute that are asked -
  a level that was there before, or one that a call since \<open>s\<close> has written to its node with success.
\<close>

definition written_since :: "mixer \<Rightarrow> mixer \<Rightarrow> route_key \<Rightarrow> f64 \<Rightarrow> bool" where
  "written_since s t key level \<longleftrightarrow> (case Option.bind (im_get (x_routes s) key) rt_node of
       None \<Rightarrow> False
     | Some node \<Rightarrow> done_since (x_world s) (length (x_calls s)) (\<lambda>c. c = GSetVolume node level) (x_calls t))"

definition settled :: "desired_state \<Rightarrow> mixer \<Rightarrow> mixer \<Rightarrow> source_id \<times> mix_id \<Rightarrow> bool" where
  "settled d s t c = (case c of (i, m) \<Rightarrow> (case im_get (de_sources d) i of None \<Rightarrow> False
     | Some src \<Rightarrow>
         if nonpositive (fst (cell_state d i m)) then True
         else case applied_at t (CellRoute i m) of None \<Rightarrow> False
         | Some (ident, level, muted) \<Rightarrow> muted = wanted_mute d i src m \<and>
             (applied_at s (CellRoute i m) = Some (ident, level, muted) \<and> f64_eq level (asked_level d i src m) \<or>
              level = asked_level d i src m \<and> written_since s t (CellRoute i m) level)))"

text \<open>A cell of which nothing new is asked.\<close>

definition same_asked :: "desired_state \<Rightarrow> desired_state \<Rightarrow> source_id \<times> mix_id \<Rightarrow> bool" where
  "same_asked old d c = (case c of (i, m) \<Rightarrow> (case (im_get (de_sources old) i, im_get (de_sources d) i) of
       (Some before, Some src) \<Rightarrow> f64_eq (src_level before) (src_level src) \<and>
         f64_eq (fst (cell_state old i m)) (fst (cell_state d i m)) \<and> wanted_mute old i before m = wanted_mute d i src m
     | _ \<Rightarrow> False))"

definition all_cells :: "desired_state \<Rightarrow> (source_id \<times> mix_id) list" where
  "all_cells d = List.product (im_keys (de_sources d)) (im_keys (de_mixes d))"

subsection \<open>The cells that an edit touches\<close>

lemma collect_all_mem: "collect_all f xs = Some ys \<Longrightarrow> x \<in> set xs \<Longrightarrow> \<exists>zs. f x = Some zs \<and> set zs \<subseteq> set ys"
  by (induction xs arbitrary: ys) (fastforce simp: bind_eq_Some_conv)+

lemma find_map_unique:
  assumes "x \<in> set xs" "f x = Some v" "\<And>y w. y \<in> set xs \<Longrightarrow> f y = Some w \<Longrightarrow> w = v"
  shows "find_map f xs = Some v"
  using assms
proof (induction xs)
  case Nil
  then show ?case by simp
next
  case (Cons y ys)
  show ?case
  proof (cases "f y")
    case None
    have "find_map f ys = Some v"
    proof (rule Cons.IH)
      show "x \<in> set ys" using Cons.prems(1,2) None by auto
      show "w = v" if "z \<in> set ys" "f z = Some w" for z w using Cons.prems(3) [of z w] that by simp
    qed (fact Cons.prems(2))
    then show ?thesis using None by simp
  next
    case (Some w)
    then show ?thesis using Cons.prems(3) [of y w] by simp
  qed
qed

text \<open>A key names its cell: identifiers have no dots.\<close>

lemma cell_of_key_cell:
  assumes "list_all id_ok (im_keys (de_sources d))" "i \<in> set (im_keys (de_sources d))" "m \<in> set (im_keys (de_mixes d))"
  shows "cell_of_key d (cell_key i m) = Some (i, m)"
  unfolding cell_of_key_def
proof (rule find_map_unique [OF assms(2)])
  show "Option.bind (strip_prefix i (cell_key i m)) (\<lambda>rest. Option.bind (strip_prefix ''.'' rest) (\<lambda>m.
       if m \<in> set (im_keys (de_mixes d)) then Some (i, m) else None)) = Some (i, m)"
    using assms(3) by (simp add: bind_eq_Some_conv strip_prefix_Some_iff cell_key_def)
  show "w = (i, m)" if "j \<in> set (im_keys (de_sources d))" "Option.bind (strip_prefix j (cell_key i m)) (\<lambda>rest.
       Option.bind (strip_prefix ''.'' rest) (\<lambda>m. if m \<in> set (im_keys (de_mixes d)) then Some (j, m) else None)) = Some w" for j w
  proof -
    from that(2) obtain n where n: "cell_key i m = cell_key j n" "w = (j, n)"
      by (auto simp: bind_eq_Some_conv strip_prefix_Some_iff cell_key_def split: if_splits)
    have "id_ok i" "id_ok j" using assms(1,2) that(1) by (auto simp: list_all_iff)
    then show ?thesis using cell_key_inj [OF _ _ n(1)] n(2) by simp
  qed
qed

lemma nonpositive_eq: "f64_eq x y \<Longrightarrow> nonpositive x = nonpositive y"
  by (cases x; cases y) (auto simp: nonpositive_def f64_le_def)

lemma untouched_source:
  assumes "source_touches ms before (i, src) = Some zs" "(i, m) \<notin> set zs" "m \<in> set (im_keys ms)"
  shows "f64_eq (src_level before) (src_level src) \<and> src_muted before = src_muted src"
  using assms by (auto simp: source_touches_def source_same_def split: if_splits)

lemma untouched_cell:
  assumes "cell_touches d before (cell_key i m, cell) = Some zs" "(i, m) \<notin> set zs" "cell_of_key d (cell_key i m) = Some (i, m)"
  shows "f64_eq (lv_volume before) (lv_volume cell) \<and> lv_muted before = lv_muted cell"
  using assms by (auto simp: cell_touches_def level_same_def split: if_splits)

lemma untouched_same_asked:
  assumes ids: "list_all id_ok (im_keys (de_sources d))" and touched: "touched_cells old d = Some cells"
    and c: "c \<in> set (all_cells d)" "c \<notin> set cells"
  shows "same_asked old d c"
proof -
  obtain i m where im: "c = (i, m)" "i \<in> set (im_keys (de_sources d))" "m \<in> set (im_keys (de_mixes d))"
    using c(1) by (auto simp: all_cells_def)
  obtain a b where shape: "same_shape old d" and cells: "set cells = set a \<union> set b"
    and a: "collect_all (\<lambda>e. Option.bind (im_get (de_sources old) (fst e)) (\<lambda>before. source_touches (de_mixes d) before e))
      (de_sources d) = Some a"
    and b: "collect_all (\<lambda>e. Option.bind (im_get (ms_cells (de_matrix old)) (fst e)) (\<lambda>before. cell_touches d before e))
      (ms_cells (de_matrix d)) = Some b"
    using touched by (auto simp: touched_cells_def bind_eq_Some_conv split: if_splits)
  obtain src where src: "im_get (de_sources d) i = Some src"
    using im(2) by (cases "im_get (de_sources d) i") (auto simp: im_keys_def map_of_eq_None_iff)
  obtain before zs where before: "im_get (de_sources old) i = Some before"
    and zs: "source_touches (de_mixes d) before (i, src) = Some zs" "set zs \<subseteq> set a"
    using collect_all_mem [OF a map_of_SomeD [OF src]] by (auto simp: bind_eq_Some_conv)
  have source: "f64_eq (src_level before) (src_level src)" "src_muted before = src_muted src"
    using untouched_source [OF zs(1) _ im(3)] zs(2) c(2) cells by (auto simp: im(1))
  have cell: "f64_eq (fst (cell_state old i m)) (fst (cell_state d i m)) \<and> snd (cell_state old i m) = snd (cell_state d i m)"
  proof (cases "im_get (ms_cells (de_matrix d)) (cell_key i m)")
    case None
    then have "cell_key i m \<notin> set (im_keys (ms_cells (de_matrix old)))"
      using shape by (auto simp: same_shape_def im_keys_def map_of_eq_None_iff)
    then have "im_get (ms_cells (de_matrix old)) (cell_key i m) = None" by (simp add: im_keys_def map_of_eq_None_iff)
    then show ?thesis using None by (simp add: cell_state_def)
  next
    case (Some v)
    obtain u ys where "im_get (ms_cells (de_matrix old)) (cell_key i m) = Some u"
      and "cell_touches d u (cell_key i m, v) = Some ys" "set ys \<subseteq> set b"
      using collect_all_mem [OF b map_of_SomeD [OF Some]] by (auto simp: bind_eq_Some_conv)
    then show ?thesis
      using untouched_cell [of d u i m v ys] cell_of_key_cell [OF ids im(2,3)] c(2) cells Some by (auto simp: cell_state_def im(1))
  qed
  show ?thesis
    using source cell src before nonpositive_eq [OF source(1)] by (simp add: same_asked_def im(1) wanted_mute_def)
qed

subsection \<open>The writes\<close>

text \<open>
  A write that is due: for a cell, with the level and the mute that are asked of it, to the node of its route,
  which has that mute already.
\<close>

definition due_write :: "desired_state \<Rightarrow> mixer \<Rightarrow> level_write \<Rightarrow> bool" where
  "due_write d s w = (case w of (CellRoute i m, node, ident, level, muted) \<Rightarrow>
       Option.bind (im_get (x_routes s) (CellRoute i m)) rt_node = Some node \<and> mute_now s (CellRoute i m) = Some muted \<and>
       (case im_get (de_sources d) i of None \<Rightarrow> False
        | Some src \<Rightarrow> level = asked_level d i src m \<and> muted = wanted_mute d i src m)
     | _ \<Rightarrow> False)"

lemma write_level_applied:
  "applied_at (snd (write_level fine (key, node, ident, level, muted) s)) k =
     (if fst (write_level fine (key, node, ident, level, muted) s) \<and> k = key \<and> im_get (x_routes s) key \<noteq> None
      then Some (ident, level, muted) else applied_at s k)"
  by (cases "im_get (x_routes s) key")
    (auto simp: write_level_def applied_at_def bnd_app called_def set_route_def split: sum.splits)

lemma applied_route: "applied_at s key \<noteq> None \<Longrightarrow> im_get (x_routes s) key \<noteq> None"
  by (cases "im_get (x_routes s) key") (simp_all add: applied_at_def)

lemma write_level_mutes:
  assumes "mute_now s (fst w) = Some (snd (snd (snd (snd w))))"
  shows "mute_now (snd (write_level fine w s)) key = mute_now s key"
  using assms by (cases w) (auto simp: mute_now_def write_level_applied dest: applied_route)

lemma write_level_made:
  assumes "fst (write_level fine (key, node, ident, level, muted) t)" "n \<le> length (x_calls t)"
  shows "done_since (x_world t) n (\<lambda>c. c = GSetVolume node level) (x_calls (snd (write_level fine (key, node, ident, level, muted) t)))"
  using assms by (auto simp: write_level_def bnd_app called_def set_route_def split: sum.splits if_splits)

lemma written_after: "after_calls (x_world s) (x_calls t) u \<Longrightarrow> written_since s t key level \<Longrightarrow> written_since s u key level"
  by (auto simp: written_since_def done_after split: option.splits)

lemma settled_same:
  assumes "applied_at u (CellRoute i m) = applied_at t (CellRoute i m)" "after_calls (x_world s) (x_calls t) u" "settled d s t (i, m)"
  shows "settled d s u (i, m)"
  using assms written_after [OF assms(2)] by (auto simp: settled_def split: option.splits if_splits)

lemma write_level_done:
  assumes "due_write d s w" "fst w = CellRoute i m" "fst (write_level fine w t)" "applied_at t (fst w) \<noteq> None"
    and "after_calls (x_world s) (x_calls s) t"
  shows "settled d s (snd (write_level fine w t)) (i, m)"
proof -
  obtain key node ident level muted where w: "w = (key, node, ident, level, muted)" by (cases w) auto
  have now: "applied_at (snd (write_level fine w t)) (CellRoute i m) = Some (ident, level, muted)"
    using assms(2-4) applied_route [of t key] by (simp add: w write_level_applied)
  have "done_since (x_world s) (length (x_calls s)) (\<lambda>c. c = GSetVolume node level) (x_calls (snd (write_level fine w t)))"
    using write_level_made [of fine key node ident level muted t "length (x_calls s)"] assms(3,5) after_length [OF assms(5)]
    by (simp add: w after_calls_def)
  then show ?thesis
    using assms(1,2) now by (auto simp: settled_def due_write_def w written_since_def split: option.splits)
qed

lemma write_level_settled:
  assumes "due_write d s w" "mute_now t (fst w) \<noteq> None" "settled d s t c" "after_calls (x_world s) (x_calls s) t"
  shows "settled d s (snd (write_level fine w t)) c"
proof -
  obtain i m where c: "c = (i, m)" by (cases c)
  obtain key node ident level muted where w: "w = (key, node, ident, level, muted)" by (cases w) auto
  have "keeps (after_calls (x_world s) (x_calls t)) (write_level fine w)" by (rule after.free_write)
  then have more: "after_calls (x_world s) (x_calls t) (snd (write_level fine w t))"
    by (rule keepsD) (use assms(4) in \<open>simp add: after_calls_def\<close>)
  show ?thesis
  proof (cases "key = CellRoute i m \<and> fst (write_level fine w t)")
    case True
    then show ?thesis
      using write_level_done [OF assms(1) _ _ _ assms(4), of i m fine] assms(2) by (auto simp: c w mute_now_def)
  next
    case False
    then have "applied_at (snd (write_level fine w t)) (CellRoute i m) = applied_at t (CellRoute i m)"
      by (auto simp: w write_level_applied)
    from settled_same [OF this more] assms(3) show ?thesis by (simp add: c)
  qed
qed

lemma write_levels_stuck: "\<not> fst (sweep write_level False ws s)"
  by (induction ws arbitrary: s) (simp_all add: bnd_app write_level_def split: prod.split)

lemma due_mute: "due_write d s w \<Longrightarrow> mute_now s (fst w) = Some (snd (snd (snd (snd w))))"
  by (auto simp: due_write_def split: prod.splits route_key.splits)

lemma write_levels:
  assumes "list_all (due_write d s) ws" "mute_now t = mute_now s" "after_calls (x_world s) (x_calls s) t"
  shows "mute_now (snd (sweep write_level fine ws t)) = mute_now s"
    and "key \<notin> fst ` set ws \<Longrightarrow> applied_at (snd (sweep write_level fine ws t)) key = applied_at t key"
    and "fst (sweep write_level fine ws t) \<Longrightarrow> settled d s t c \<or> CellRoute (fst c) (snd c) \<in> fst ` set ws \<Longrightarrow>
      settled d s (snd (sweep write_level fine ws t)) c"
  using assms
proof (induction ws arbitrary: fine t)
  case Nil
  { case 1 then show ?case by simp }
  { case 2 then show ?case by simp }
  { case 3 then show ?case by simp }
next
  case (Cons w ws)
  have step: "mute_now (snd (write_level fine w t)) = mute_now s \<and> after_calls (x_world s) (x_calls s) (snd (write_level fine w t)) \<and>
      list_all (due_write d s) ws" if "list_all (due_write d s) (w # ws)" "mute_now t = mute_now s" "after_calls (x_world s) (x_calls s) t"
    for t fine
    using that due_mute [of d s w] write_level_mutes [of t w fine] keepsD [OF after.free_write that(3)] by (auto simp: fun_eq_iff)
  { case 1
    then show ?case using step [OF 1] Cons.IH(1) [of "snd (write_level fine w t)"] by (simp add: bnd_app)
  }
  { case 2
    then show ?case
      using step [OF 2(2-4)] Cons.IH(2) [of "snd (write_level fine w t)" "fst (write_level fine w t)"]
      by (cases w) (auto simp: bnd_app write_level_applied)
  }
  { case 3
    let ?f = "fst (write_level fine w t)" and ?t = "snd (write_level fine w t)"
    have w: "due_write d s w" "mute_now t (fst w) \<noteq> None" using 3(3,4) due_mute [of d s w] by simp_all
    have run: "fst (sweep write_level ?f ws ?t)" using 3(1) by (simp add: bnd_app)
    then have fine: "?f" using write_levels_stuck [of ws ?t] by (cases ?f) auto
    have here: "applied_at t (fst w) \<noteq> None" using w(2) by (auto simp: mute_now_def)
    have "settled d s ?t c \<or> CellRoute (fst c) (snd c) \<in> fst ` set ws"
    proof (cases "CellRoute (fst c) (snd c) = fst w")
      case True
      then show ?thesis using write_level_done [OF w(1) True [symmetric] fine here 3(5)] by simp
    next
      case False
      then show ?thesis using 3(2) write_level_settled [OF w _ 3(5), of c fine] by auto
    qed
    then show ?case using Cons.IH(3) [OF run _] step [OF 3(3-5)] by (simp add: bnd_app)
  }
qed

subsection \<open>The probe\<close>

text \<open>The probe itself asks only whether the routes run.\<close>

lemma retune_cell_still: "x_routes (snd (retune_cell d acc c s)) = x_routes s"
  by (auto simp: retune_cell_def bnd_app called_def Let_def act_apps split: option.splits prod.splits sum.splits bool.splits)

lemma retune_cells_still: "x_routes (snd (sweep (retune_cell d) acc cs s)) = x_routes s"
  by (induction cs arbitrary: acc s) (simp_all add: bnd_app retune_cell_still)

lemma cell_asked:
  "lv_volume (matrix_cell (de_matrix d) i m) = fst (cell_state d i m)"
  "cell_level src (matrix_cell (de_matrix d) i m) = asked_level d i src m"
  "cell_muted src (matrix_cell (de_matrix d) i m) = wanted_mute d i src m"
  by (simp_all add: cell_level_def cell_muted_def matrix_cell_def cell_state_def asked_level_def wanted_mute_def level_default_def
      split: option.split)

lemma retune_cell_cases:
  assumes "fst (retune_cell d (Some ws) c t) = Some vs" "x_routes t = x_routes s"
  shows "vs = ws \<and> settled d s s c \<or> (\<exists>w. vs = ws @ [w] \<and> fst w = CellRoute (fst c) (snd c) \<and> due_write d s w)"
proof -
  obtain i m where c: "c = (i, m)" by (cases c)
  show ?thesis
    using assms
    by (auto simp: c retune_cell_def settled_def due_write_def mute_now_def applied_at_def bnd_app called_def Let_def cell_asked
        split: option.splits prod.splits sum.splits bool.splits if_splits)
qed

lemma retune_cells_None: "fst (sweep (retune_cell d) None cs s) = None"
  by (induction cs arbitrary: s) (simp_all add: bnd_app retune_cell_def)

lemma retune_cells_found:
  assumes "fst (sweep (retune_cell d) (Some ws) cs t) = Some vs" "x_routes t = x_routes s" "list_all (due_write d s) ws"
  shows "list_all (due_write d s) vs \<and> set ws \<subseteq> set vs \<and>
    fst ` set vs \<subseteq> fst ` set ws \<union> (\<lambda>c. CellRoute (fst c) (snd c)) ` set cs \<and>
    list_all (\<lambda>c. settled d s s c \<or> CellRoute (fst c) (snd c) \<in> fst ` set vs) cs"
  using assms
proof (induction cs arbitrary: ws t)
  case Nil
  then show ?case by simp
next
  case (Cons c cs)
  let ?t = "snd (retune_cell d (Some ws) c t)"
  have run: "fst (sweep (retune_cell d) (fst (retune_cell d (Some ws) c t)) cs ?t) = Some vs"
    using Cons.prems(1) by (simp add: bnd_app)
  then obtain us where us: "fst (retune_cell d (Some ws) c t) = Some us"
    by (cases "fst (retune_cell d (Some ws) c t)") (auto simp: retune_cells_None)
  have first: "list_all (due_write d s) us \<and> set ws \<subseteq> set us \<and>
      fst ` set us \<subseteq> insert (CellRoute (fst c) (snd c)) (fst ` set ws) \<and>
      (settled d s s c \<or> CellRoute (fst c) (snd c) \<in> fst ` set us)"
    using retune_cell_cases [OF us Cons.prems(2)] Cons.prems(3) by auto
  have rest: "list_all (due_write d s) vs \<and> set us \<subseteq> set vs \<and>
    fst ` set vs \<subseteq> fst ` set us \<union> (\<lambda>c. CellRoute (fst c) (snd c)) ` set cs \<and>
    list_all (\<lambda>c. settled d s s c \<or> CellRoute (fst c) (snd c) \<in> fst ` set vs) cs"
    using Cons.IH [of us ?t] run us first Cons.prems(2) by (simp add: retune_cell_still)
  then have "fst ` set us \<subseteq> fst ` set vs" by (intro image_mono) simp
  then show ?case using first rest by (simp only: list.pred_inject list.set image_insert) blast
qed


text \<open>One cell, whose source is turned down to a half: the route of the cell is written to and nothing else.\<close>

definition obliging_world :: graph_world where
  "obliging_world = \<lparr>gw_snapshot = (\<lambda>_. Inr (empty_graph 0 None)), gw_unit = (\<lambda>_. Inr ()), gw_module = (\<lambda>_. Inr 0), gw_child = (\<lambda>_. Inr 0),
     gw_running = (\<lambda>_. Inr True), gw_ready = (\<lambda>_ _. True), gw_requests = (\<lambda>_. []), gw_now = (\<lambda>n. n), gw_uuid = (\<lambda>_. []),
     gw_listening = (\<lambda>_. True), gw_fold = (\<lambda>x. x), gw_digest = (\<lambda>x. x), gw_compact = (\<lambda>_. []), gw_pretty = (\<lambda>_. []),
     gw_parse = (\<lambda>_. Inr JNull), gw_float = (\<lambda>_. [])\<rparr>"

definition one_cell :: "f64 \<Rightarrow> desired_state" where
  "one_cell level = \<lparr>de_sources = [(''mic'', (sample_source ''mic'' False)\<lparr>src_level := level, src_extra := []\<rparr>)],
     de_mixes = [(''chat'', \<lparr>mix_id = ''chat'', mix_name = [], mix_description = [], mix_subtitle = [], mix_icon_name = [],
       mix_sink = ''openwave_chat'', mix_extra = []\<rparr>)],
     de_matrix = sample_matrix\<lparr>ms_extra := []\<rparr>, de_scenes = []\<rparr>"

definition one_route :: mixer where
  "one_route = (mixer_new obliging_world)\<lparr>x_desired := (0, one_cell (FFin False 1)),
     x_routes := [(CellRoute ''mic'' ''chat'', \<lparr>rt_child = 1, rt_spec = \<lparr>rs_source = \<lparr>server_cookie = 0, object_serial = ''1''\<rparr>,
       rs_target = None, rs_description = None\<rparr>, rt_name = ''r'', rt_owner = ''o'',
       rt_applied = Some (\<lparr>server_cookie = 0, object_serial = ''2''\<rparr>, FFin False 1, False), rt_node = Some 7, rt_missing = 0\<rparr>)]\<rparr>"

lemma half_rep: "f64_rep (1 / 2)"
  using f64_rep_scaled_int [of 1 1] by simp

lemma touched_one: "touched_cells (one_cell (FFin False 1)) (one_cell (FFin False (1 / 2))) = Some [(''mic'', ''chat'')]"
  by (simp add: touched_cells_def same_shape_def one_cell_def sample_source_def source_new_def sample_matrix_def level_default_def
      mixes_same_def scenes_same_def map_same_def mix_same_def extra_same_def level_same_def source_touches_def source_same_def
      nonpositive_def f64_le_def cell_touches_def im_keys_def option_same_def)

lemma quick_path_taken: "fst (retune (one_cell (FFin False (1 / 2))) one_route)"
  by (simp add: retune_def one_route_def touched_one) (simp add: bnd_app retune_cell_def one_cell_def sample_matrix_def matrix_cell_def
     cell_level_def cell_muted_def called_def obliging_world_def mixer_new_def sample_source_def source_new_def nonpositive_def f64_le_def
     write_level_def level_default_def half_rep)


end
