(* ===== verification/Usb_Device.thy ===== *)
theory Usb_Device
  imports Alsa Step Snapshot
begin

text \<open>
  One open device, \<^verbatim>\<open>VendorDevice\<close>, \<^verbatim>\<open>CardControls\<close>, \<^verbatim>\<open>Mirror\<close> and \<^verbatim>\<open>SyncedDevice\<close> of
  \<^verbatim>\<open>crates/openwave-runtime/src/device.rs\<close>: reading and writing its registers over USB, and keeping the controls of
  its sound card in step with them. The USB library, the files under \<^verbatim>\<open>/proc/asound\<close>, the program \<^verbatim>\<open>amixer\<close>
  and the clock are an oracle: an answer may depend on all calls so far, the newest first, the call
  itself included.
\<close>

subsection \<open>The outside\<close>

datatype usb_failure = UsbIo | UsbPipe | UsbTimeout | UsbFailure string

text \<open>A transfer has the type and number of the request, the value, the index, and the length or the bytes.\<close>

datatype device_call =
    UsbContext
  | UsbDevices
  | UsbOpen u8 u8
  | UsbClaim u8
  | UsbSerial
  | UsbRead u8 u8 u16 u16 nat
  | UsbWrite u8 u8 u16 u16 "u8 list"
  | ReadCards
  | RunAmixer "string list"

record usb_descriptor =
  ud_vid :: u16
  ud_pid :: u16
  ud_has_serial :: bool

record usb_listed =
  ul_bus :: u8
  ul_address :: u8
  ul_descriptor :: "usb_failure + usb_descriptor"

text \<open>
  An entry of the directory: its name if that is Unicode, and what reading its two files yields; a file that does not
  exist is \<open>Inr None\<close>.
\<close>

record card_entry =
  ce_name :: "string option"
  ce_usbid :: "string option res"
  ce_usbbus :: "string res"

text \<open>The output of a program is \<open>None\<close> where it is not Unicode.\<close>

record device_world =
  dw_unit :: "device_call list \<Rightarrow> usb_failure + unit"
  dw_devices :: "device_call list \<Rightarrow> usb_failure + usb_listed list"
  dw_serial :: "device_call list \<Rightarrow> usb_failure + string"
  dw_read :: "device_call list \<Rightarrow> usb_failure + u8 list"
  dw_write :: "device_call list \<Rightarrow> usb_failure + nat"
  dw_cards :: "device_call list \<Rightarrow> card_entry res list res"
  dw_output :: "device_call list \<Rightarrow> string option res"
  dw_now :: "nat \<Rightarrow> nat"
  dw_text :: "usb_failure \<Rightarrow> string"

subsection \<open>The state of a device\<close>

record card_controls =
  cc_card :: u32
  cc_controls :: alsa_controls
  cc_last :: nat

datatype alsa_field = FieldMute | FieldHeadphone | FieldGain

record mirror =
  mr_last :: "device_state option"
  mr_pending :: "alsa_field \<Rightarrow> int option"
  mr_last_read :: "nat option"

record usb_device =
  dv_world :: device_world
  dv_calls :: "device_call list"
  dv_clock :: nat
  dv_unit :: unit_id
  dv_windex :: u16
  dv_timed_out :: bool
  dv_info :: "device_info option"
  dv_alsa :: "card_controls option"
  dv_mirror :: mirror

type_synonym 'a dact = "(usb_device, 'a) act"

definition mirror_default :: mirror where
  "mirror_default = \<lparr>mr_last = None, mr_pending = (\<lambda>_. None), mr_last_read = None\<rparr>"

definition asked :: "device_call \<Rightarrow> (device_world \<Rightarrow> device_call list \<Rightarrow> 'a) \<Rightarrow> 'a dact" where
  "asked c answer = ask (\<lambda>s. bnd (upd (\<lambda>s. s\<lparr>dv_calls := c # dv_calls s\<rparr>)) (\<lambda>_.
     ret (answer (dv_world s) (c # dv_calls s))))"

definition usb_clock :: "nat dact" where
  "usb_clock = ask (\<lambda>s. bnd (upd (\<lambda>s. s\<lparr>dv_clock := Suc (dv_clock s)\<rparr>)) (\<lambda>_. ret (dw_now (dv_world s) (dv_clock s))))"

subsection \<open>Transfers\<close>

definition DOCK_BLOCKS :: "(string \<times> u16 \<times> nat) list" where
  "DOCK_BLOCKS = [(''settings'', 4, 38), (''headphones'', 5, 2), (''monitor'', 1, 6)]"

definition is_dock :: "usb_device \<Rightarrow> bool" where
  "is_dock s \<longleftrightarrow> uid_profile (dv_unit s) = XlrDockMk2"

text \<open>A failed read is tried again once if it was a transient one.\<close>

definition dock_read :: "(usb_failure + u8 list) dact \<Rightarrow> (usb_failure + u8 list) dact" where
  "dock_read read = bnd read (\<lambda>r. if r = Inl UsbIo then read else ret r)"

definition transfer_failed :: "usb_failure \<Rightarrow> 'a res dact" where
  "transfer_failed e = ask (\<lambda>s. bnd (upd (\<lambda>s. s\<lparr>dv_timed_out := (e = UsbTimeout)\<rparr>)) (\<lambda>_.
     fail_with (error_unavailable (''USB control transfer: '' @ dw_text (dv_world s) e))))"

definition transfer_done :: "'a \<Rightarrow> 'a res dact" where
  "transfer_done x = bnd (upd (\<lambda>s. s\<lparr>dv_timed_out := False\<rparr>)) (\<lambda>_. ret (Inr x))"

definition transport_read :: "u16 \<Rightarrow> nat \<Rightarrow> u8 list res dact" where
  "transport_read selector len = ask (\<lambda>s.
     let read = asked (UsbRead (if is_dock s then 0xC1 else 0xA1) (if is_dock s then 1 else 0x85) selector (dv_windex s) len) dw_read in
     bnd (if is_dock s then dock_read read else read) (\<lambda>r. case r of
       Inl e \<Rightarrow> transfer_failed e
     | Inr bytes \<Rightarrow> transfer_done bytes))"

definition transport_write :: "u16 \<Rightarrow> u8 list \<Rightarrow> nat res dact" where
  "transport_write selector bytes = ask (\<lambda>s.
     bnd (asked (UsbWrite (if is_dock s then 0x41 else 0x21) (if is_dock s then 1 else 5) selector (dv_windex s) bytes) dw_write) (\<lambda>r.
     case r of
       Inl e \<Rightarrow> transfer_failed e
     | Inr n \<Rightarrow> transfer_done n))"

definition short_transfer :: "nat \<Rightarrow> nat \<Rightarrow> operation_error" where
  "short_transfer actual expected = error_unavailable (''Incomplete USB write ('' @ show_nat actual @ ''/'' @ show_nat expected @ '' bytes)'')"

definition write_block :: "u16 \<Rightarrow> u8 list \<Rightarrow> unit res dact" where
  "write_block selector bytes = attempt (transport_write selector bytes) (\<lambda>n.
     guard_ok (n = length bytes) (short_transfer n (length bytes)) (ret (Inr ())))"

text \<open>The part of the buffer that was filled.\<close>

definition read_length :: "usb_device \<Rightarrow> u16 \<Rightarrow> nat \<Rightarrow> nat res" where
  "read_length s selector len =
     (if is_dock s
      then (case List.find (\<lambda>(_, block, _). block = selector) DOCK_BLOCKS of
          None \<Rightarrow> Inl (error_new Unsupported ''Unknown Dock block; only settings, headphones and monitor reads are enabled'')
        | Some (_, _, limit) \<Rightarrow> Inr (min len limit))
      else Inr len)"

definition read_raw :: "u16 \<Rightarrow> nat \<Rightarrow> u8 list res dact" where
  "read_raw selector len = ask (\<lambda>s.
     guard_ok (0 < len \<and> len \<le> 65535) (error_invalid ''USB read length must be in 1..65535'')
       (try_pure (read_length s selector len) (\<lambda>limit.
        attempt (transport_read selector limit) (\<lambda>bytes.
        guard_ok (length bytes \<le> limit) (error_invalid ''USB transfer exceeded buffer'') (ret (Inr bytes))))))"

definition unit_legacy :: "usb_device \<Rightarrow> legacy_profile option" where
  "unit_legacy s = dp_legacy (profile (uid_profile (dv_unit s)))"

definition write_config_raw :: "u8 list \<Rightarrow> unit res dact" where
  "write_config_raw bytes = ask (\<lambda>s.
     let (selector, len) = (case unit_legacy s of None \<Rightarrow> (4, 38) | Some l \<Rightarrow> (wvalue_config l, config_len l)) in
     guard_ok (length bytes = len) (error_invalid ''Invalid primary config block length'') (write_block selector bytes))"

text \<open>Every profile but that of the dock has a legacy part, which the code expects.\<close>

definition read_config :: "config_buffer res dact" where
  "read_config = ask (\<lambda>s.
     if is_dock s then
       attempt (read_raw 4 38) (\<lambda>settings.
       attempt (read_raw 5 2) (\<lambda>headphones.
       attempt (read_raw 1 6) (\<lambda>monitor.
       ret (config_decode_dock settings headphones monitor))))
     else case unit_legacy s of
       None \<Rightarrow> fail_with (error_new Unsupported ''legacy profile'')
     | Some l \<Rightarrow> attempt (read_raw (wvalue_config l) (config_len l)) (\<lambda>bytes.
         ret (config_decode (uid_profile (dv_unit s)) bytes)))"

definition read_info :: "device_info res dact" where
  "read_info = ask (\<lambda>s. case dv_info s of
       Some i \<Rightarrow> ret (Inr i)
     | None \<Rightarrow> (case unit_legacy s of
         None \<Rightarrow> fail_with (error_new Unsupported ''Dock metadata requires USB descriptors'')
       | Some l \<Rightarrow> attempt (read_raw (wvalue_devinfo l) (devinfo_len l)) (\<lambda>bytes.
           ret (decode_device_info (uid_profile (dv_unit s)) bytes))))"

definition read_meters :: "meter_levels res dact" where
  "read_meters = ask (\<lambda>s. case unit_legacy s of
       None \<Rightarrow> fail_with (error_new Unsupported ''Dock vendor meters are not mapped; use PCM meters'')
     | Some l \<Rightarrow> attempt (read_raw (wvalue_meter l) (meter_len l)) (\<lambda>bytes.
         ret (decode_meters (uid_profile (dv_unit s)) bytes)))"

definition changed_blocks :: "config_buffer \<Rightarrow> config_buffer \<Rightarrow> (u16 \<times> u8 list) list" where
  "changed_blocks before after = map snd (filter (\<lambda>(b, a). snd b \<noteq> snd a) (zip (config_blocks before) (config_blocks after)))"

definition write_changes :: "config_buffer \<Rightarrow> config_buffer \<Rightarrow> unit res dact" where
  "write_changes before after = ask (\<lambda>s.
     guard_ok (cb_profile before = uid_profile (dv_unit s) \<and> cb_profile after = uid_profile (dv_unit s))
       (error_new Identity ''Config belongs to another profile'')
       (each_try (\<lambda>(selector, bytes). write_block selector bytes) (changed_blocks before after)))"

subsection \<open>Opening\<close>

definition usb_error :: "device_world \<Rightarrow> usb_failure \<Rightarrow> operation_error" where
  "usb_error w e = error_unavailable (''USB discovery/open: '' @ dw_text w e)"

definition usb_try :: "device_call \<Rightarrow> (device_world \<Rightarrow> device_call list \<Rightarrow> usb_failure + 'a) \<Rightarrow> 'a res dact" where
  "usb_try c answer = ask (\<lambda>s. bnd (asked c answer) (\<lambda>r. case r of
       Inl e \<Rightarrow> fail_with (usb_error (dv_world s) e) | Inr x \<Rightarrow> ret (Inr x)))"

definition usb_devices :: "usb_listed list res dact" where
  "usb_devices = attempt (usb_try UsbContext dw_unit) (\<lambda>_. usb_try UsbDevices dw_devices)"

definition listed_identity :: "device_world \<Rightarrow> usb_listed \<Rightarrow> usb_identity res" where
  "listed_identity w d = (case ul_descriptor d of
       Inl e \<Rightarrow> Inl (usb_error w e)
     | Inr u \<Rightarrow> Inr \<lparr>usb_vid = ud_vid u, usb_pid = ud_pid u, usb_bus = ul_bus d, usb_address = ul_address d\<rparr>)"

definition vendor_scan :: "(profile_id \<times> u8 \<times> u8) list res dact" where
  "vendor_scan = ask (\<lambda>s. attempt usb_devices (\<lambda>devices.
     try_pure (res_mapM (listed_identity (dv_world s)) devices) (\<lambda>identities. ret (Inr (supported_devices identities)))))"

definition hex_char :: "nat \<Rightarrow> char" where
  "hex_char n = char_of (if n < 10 then 48 + n else 87 + n)"

definition hex4 :: "u16 \<Rightarrow> string" where
  "hex4 w = ''0x'' @ map (\<lambda>k. hex_char (unat (drop_bit k w) mod 16)) [12, 8, 4, 0]"

fun bank_complete :: "u16 \<Rightarrow> (string \<times> u16 \<times> nat) list \<Rightarrow> bool res dact" where
  "bank_complete bank [] = ret (Inr True)"
| "bank_complete bank ((_, selector, len) # blocks) =
     ask (\<lambda>s. bnd (dock_read (asked (UsbRead 0xC1 1 selector bank len) dw_read)) (\<lambda>r. case r of
       Inr bytes \<Rightarrow>
         if length bytes = len then bank_complete bank blocks
         else if length bytes < len then ret (Inr False)
         else fail_with (error_invalid ''Dock bank read exceeded buffer'')
     | Inl e \<Rightarrow> if e = UsbPipe then ret (Inr False)
         else fail_with (error_unavailable (''Dock bank '' @ hex4 bank @ '', block '' @ hex4 selector @ '': '' @ dw_text (dv_world s) e))))"

fun detect_bank :: "u16 list \<Rightarrow> u16 res dact" where
  "detect_bank [] = fail_with (error_unavailable
     ''Dock control banks 0x0103 and 0x0203 did not return the complete settings, headphone and monitor blocks; no writes enabled'')"
| "detect_bank (bank # banks) = attempt (bank_complete bank DOCK_BLOCKS) (\<lambda>complete.
     if complete then ret (Inr bank) else detect_bank banks)"

definition detect_dock_bank :: "u16 res dact" where
  "detect_dock_bank = detect_bank [0x0103, 0x0203]"

definition open_control :: "usb_descriptor \<Rightarrow> (u16 \<times> device_info option) res dact" where
  "open_control u = ask (\<lambda>s. case unit_legacy s of
       Some l \<Rightarrow> ret (Inr (windex l, None))
     | None \<Rightarrow>
         attempt (usb_try (UsbClaim 3) dw_unit) (\<lambda>_.
         attempt detect_dock_bank (\<lambda>bank.
         attempt (if ud_has_serial u then usb_try UsbSerial dw_serial else ret (Inr [])) (\<lambda>serial.
         ret (Inr (bank, Some \<lparr>di_api = ''Unavailable'', di_firmware = ''Unavailable'', di_serial = serial\<rparr>))))))"

definition vendor_open :: "unit res dact" where
  "vendor_open = ask (\<lambda>s. attempt usb_devices (\<lambda>devices.
     case List.find (\<lambda>d. ul_bus d = uid_bus (dv_unit s) \<and> ul_address d = uid_address (dv_unit s)) devices of
       None \<Rightarrow> fail_with (error_unavailable ''Captured USB device is absent'')
     | Some d \<Rightarrow> (case ul_descriptor d of
         Inl e \<Rightarrow> fail_with (usb_error (dv_world s) e)
       | Inr u \<Rightarrow> (let p = profile (uid_profile (dv_unit s)) in
           guard_ok (ud_vid u = dp_vid p \<and> ud_pid u = dp_pid p)
             (error_new Identity ''USB address now belongs to another device'')
             (attempt (usb_try (UsbOpen (ul_bus d) (ul_address d)) dw_unit) (\<lambda>_.
              attempt (open_control u) (\<lambda>(bank, i).
              done_ok [upd (\<lambda>s. s\<lparr>dv_windex := bank, dv_info := i, dv_timed_out := False\<rparr>)])))))))"

subsection \<open>The controls of the sound card\<close>

text \<open>Half a second, in nanoseconds.\<close>

definition ALSA_POLL :: nat where "ALSA_POLL = 500000000"

text \<open>\<open>None\<close> for an entry that is not a card, or a card of another product.\<close>

definition card_entry_identity :: "unit_id \<Rightarrow> card_entry res \<Rightarrow> alsa_card_identity option res" where
  "card_entry_identity unit entry = rbind entry (\<lambda>e.
     case Option.bind (ce_name e) (\<lambda>n. Option.bind (strip_prefix ''card'' n) parse_u32) of
       None \<Rightarrow> Inr None
     | Some number \<Rightarrow> rbind (ce_usbid e) (\<lambda>i. case i of
         None \<Rightarrow> Inr None
       | Some i \<Rightarrow> rbind (parse_usb_id i) (\<lambda>ids. let p = profile (uid_profile unit) in
           if ids \<noteq> (dp_vid p, dp_pid p) then Inr None
           else rbind (ce_usbbus e) (\<lambda>bus. rbind (alsa_card_parse number i bus) (\<lambda>c. Inr (Some c))))))"

definition card_identities :: "unit_id \<Rightarrow> card_entry res list \<Rightarrow> alsa_card_identity list res" where
  "card_identities unit entries = rbind (res_mapM (card_entry_identity unit) entries) (\<lambda>cards.
     Inr (List.map_filter (\<lambda>c. c) cards))"

definition unit_card :: "u32 option res dact" where
  "unit_card = ask (\<lambda>s. attempt (asked ReadCards dw_cards) (\<lambda>entries.
     try_pure (card_identities (dv_unit s) entries) (\<lambda>cards. ret (Inr (card_for_unit (dv_unit s) cards)))))"

text \<open>The card number is no authority: the identity is looked up again before every command.\<close>

definition validate_identity :: "card_controls \<Rightarrow> unit res dact" where
  "validate_identity k = attempt unit_card (\<lambda>found.
     guard_ok (found = Some (cc_card k)) (error_new Identity ''ALSA card identity changed'') (ret (Inr ())))"

definition amixer :: "card_controls \<Rightarrow> string list \<Rightarrow> string res dact" where
  "amixer k args = attempt (validate_identity k) (\<lambda>_.
     attempt (asked (RunAmixer ([''-c'', show_nat (unat (cc_card k))] @ args)) dw_output) (\<lambda>out. case out of
       None \<Rightarrow> fail_with (error_invalid ''Invalid ALSA control output'')
     | Some text \<Rightarrow> ret (Inr text)))"

definition set_alsa :: "(card_controls \<Rightarrow> card_controls) \<Rightarrow> unit dact" where
  "set_alsa f = upd (\<lambda>s. s\<lparr>dv_alsa := map_option f (dv_alsa s)\<rparr>)"

definition discover :: "card_controls \<Rightarrow> bool res dact" where
  "discover k = attempt (amixer k [''contents'']) (\<lambda>contents.
     attempt (validate_identity k) (\<lambda>_. let controls = parse_alsa_controls contents in
     bnd (set_alsa (\<lambda>k. k\<lparr>cc_controls := controls\<rparr>)) (\<lambda>_. ret (Inr (controls \<noteq> cc_controls k)))))"

definition alsa_open :: "unit res dact" where
  "alsa_open = attempt unit_card (\<lambda>found. case found of
       None \<Rightarrow> fail_with (error_unavailable ''Exact USB ALSA interface is not ready or is ambiguous'')
     | Some c \<Rightarrow> bnd usb_clock (\<lambda>now. let k = \<lparr>cc_card = c, cc_controls = no_controls, cc_last = now\<rparr> in
         bnd (upd (\<lambda>s. s\<lparr>dv_alsa := Some k\<rparr>)) (\<lambda>_. attempt (discover k) (\<lambda>_. ret (Inr ())))))"

definition field_name :: "alsa_field \<Rightarrow> string" where
  "field_name f = (case f of FieldMute \<Rightarrow> ''Mute'' | FieldHeadphone \<Rightarrow> ''Headphone'' | FieldGain \<Rightarrow> ''Gain'')"

definition field_control :: "card_controls \<Rightarrow> alsa_field \<Rightarrow> alsa_control option" where
  "field_control k f = (case f of
     FieldMute \<Rightarrow> alsa_mute (cc_controls k) | FieldHeadphone \<Rightarrow> alsa_hp_volume (cc_controls k) | FieldGain \<Rightarrow> alsa_gain (cc_controls k))"

definition alsa_control_of :: "card_controls \<Rightarrow> alsa_field \<Rightarrow> alsa_control res" where
  "alsa_control_of k f = ok_or (error_unavailable (''ALSA '' @ field_name f @ '' control is unavailable'')) (field_control k f)"

definition ALL_FIELDS :: "alsa_field list" where
  "ALL_FIELDS = [FieldMute, FieldHeadphone, FieldGain]"

definition field_enabled :: "profile_id \<Rightarrow> alsa_field \<Rightarrow> bool" where
  "field_enabled p f = (case f of FieldMute \<Rightarrow> sync_alsa_mute (profile p)
     | FieldHeadphone \<Rightarrow> sync_alsa_hp (profile p) | FieldGain \<Rightarrow> sync_alsa_gain (profile p))"

definition controls_complete :: "profile_id \<Rightarrow> card_controls \<Rightarrow> bool" where
  "controls_complete p k = list_all (\<lambda>f. if \<not> field_enabled p f then True else case field_control k f of
       None \<Rightarrow> False
     | Some c \<Rightarrow> f = FieldMute \<or> (case ctl_range c of None \<Rightarrow> False | Some r \<Rightarrow> range_min r \<le> range_max r)) ALL_FIELDS"

definition field_value :: "alsa_field \<Rightarrow> string \<Rightarrow> int res" where
  "field_value f out = ok_or (error_unavailable ''ALSA control value is unknown'')
     (case f of FieldMute \<Rightarrow> map_option (\<lambda>b. if b then 1 else 0) (parse_alsa_mute out) | _ \<Rightarrow> parse_alsa_volume out)"

definition alsa_refresh :: "card_controls \<Rightarrow> nat \<Rightarrow> bool res dact" where
  "alsa_refresh k now = ask (\<lambda>s.
     if controls_complete (uid_profile (dv_unit s)) k \<or> now - cc_last k < ALSA_POLL then ret (Inr False)
     else bnd (set_alsa (\<lambda>k. k\<lparr>cc_last := now\<rparr>)) (\<lambda>_. discover k))"

definition alsa_expected :: "card_controls \<Rightarrow> alsa_field \<Rightarrow> int \<Rightarrow> int res" where
  "alsa_expected k f v = rbind (alsa_control_of k f) (\<lambda>c. if f = FieldMute then Inr v else alsa_clamp c v)"

definition numid :: "alsa_control \<Rightarrow> string" where
  "numid c = ''numid='' @ show_nat (unat (ctl_numid c))"

definition alsa_read :: "card_controls \<Rightarrow> alsa_field \<Rightarrow> int res dact" where
  "alsa_read k f = try_pure (alsa_control_of k f) (\<lambda>c.
     attempt (amixer k [''cget'', numid c]) (\<lambda>out. ret (field_value f out)))"

definition show_int :: "int \<Rightarrow> string" where
  "show_int v = (if v < 0 then ''-'' @ show_nat (nat (- v)) else show_nat (nat v))"

definition alsa_write :: "card_controls \<Rightarrow> alsa_field \<Rightarrow> int \<Rightarrow> unit res dact" where
  "alsa_write k f v = try_pure (alsa_control_of k f) (\<lambda>c.
     try_pure (alsa_expected k f v) (\<lambda>v.
     attempt (amixer k [''cset'', numid c, if f = FieldMute then (if v \<noteq> 0 then ''off'' else ''on'') else show_int v]) (\<lambda>out.
     try_pure (field_value f out) (\<lambda>u.
     guard_ok (u = v) (error_unavailable ''ALSA mirror write was not confirmed'') (ret (Inr ()))))))"

subsection \<open>The mirror\<close>

definition field_firmware :: "alsa_field \<Rightarrow> device_state \<Rightarrow> profile_id \<Rightarrow> int" where
  "field_firmware f st p = (case f of
       FieldMute \<Rightarrow> if ds_muted st then 1 else 0
     | FieldHeadphone \<Rightarrow> f64_to_i32 (f64_mul (hp_volume_db st) (f64_of_u16 (hp_scale (profile p))))
     | FieldGain \<Rightarrow> uint (gain_raw st))"

definition field_alsa :: "alsa_field \<Rightarrow> int \<Rightarrow> profile_id \<Rightarrow> int" where
  "field_alsa f v p = (case f of
       FieldMute \<Rightarrow> v | FieldHeadphone \<Rightarrow> fw_hp_to_alsa p (word_of_int v) | FieldGain \<Rightarrow> fw_gain_to_alsa p (word_of_int v))"

definition field_setting :: "alsa_field \<Rightarrow> int \<Rightarrow> profile_id \<Rightarrow> device_setting" where
  "field_setting f v p = (case f of
       FieldMute \<Rightarrow> Mute (v \<noteq> 0)
     | FieldHeadphone \<Rightarrow> HeadphoneDb (f64_div (f64_of_i16 (alsa_hp_to_fw p v)) (f64_of_u16 (hp_scale (profile p))))
     | FieldGain \<Rightarrow> GainRaw (f64_to_u16 (f64_mul (f64_mul (f64_of_int v) (FFin False (1 / 2))) (f64_of_u16 (gain_scale (profile p))))))"

definition on_mirror :: "(mirror \<Rightarrow> mirror) \<Rightarrow> unit dact" where
  "on_mirror f = upd (\<lambda>s. s\<lparr>dv_mirror := f (dv_mirror s)\<rparr>)"

definition set_pending :: "alsa_field \<Rightarrow> int option \<Rightarrow> mirror \<Rightarrow> mirror" where
  "set_pending f v m = m\<lparr>mr_pending := (mr_pending m)(f := v)\<rparr>"

text \<open>What the firmware says of every enabled field is still to be written to the card.\<close>

definition owe :: "device_state \<Rightarrow> profile_id \<Rightarrow> alsa_field \<Rightarrow> unit dact" where
  "owe st p f = only_if (field_enabled p f) (on_mirror (set_pending f (Some (field_alsa f (field_firmware f st p) p))))"

type_synonym mirror_scan = "config_buffer \<times> bool \<times> operation_issue list"

text \<open>A value read of the card that differs goes into the configuration.\<close>

definition adopt_alsa :: "card_controls \<Rightarrow> alsa_field \<Rightarrow> int \<Rightarrow> mirror_scan \<Rightarrow> int \<Rightarrow> unit res \<times> mirror_scan" where
  "adopt_alsa k f v scan observed = (case scan of (config, dirty, errors) \<Rightarrow>
     (case alsa_expected k f (field_alsa f v (cb_profile config)) of
        Inl e \<Rightarrow> (Inl e, scan)
      | Inr expected \<Rightarrow>
          if observed = expected then (Inr (), scan)
          else (case config_apply config (field_setting f observed (cb_profile config)) of
              (config, Inl e) \<Rightarrow> (Inl e, config, dirty, errors)
            | (config, Inr _) \<Rightarrow> (Inr (), config, True, errors))))"

definition field_result :: "alsa_field \<Rightarrow> unit res \<Rightarrow> mirror_scan \<Rightarrow> mirror_scan" where
  "field_result f r scan = (case (r, scan) of
       (Inl e, config, dirty, errors) \<Rightarrow> (config, dirty, errors @ [\<lparr>oi_target = ''ALSA '' @ field_name f, oi_message = err_message e\<rparr>])
     | (Inr _, scan) \<Rightarrow> scan)"

text \<open>In the poll that settles what is owed, nothing that was read is used.\<close>

definition mirror_field :: "device_state \<Rightarrow> bool \<Rightarrow> bool \<Rightarrow> mirror_scan \<Rightarrow> alsa_field \<Rightarrow> mirror_scan dact" where
  "mirror_field st read_due rediscovered scan f = ask (\<lambda>s.
     let p = cb_profile (fst scan); v = field_firmware f st p in
     case dv_alsa s of None \<Rightarrow> ret scan | Some k \<Rightarrow>
     if \<not> field_enabled p f then ret scan
     else bnd (only_if ((case mr_last (dv_mirror s) of None \<Rightarrow> True | Some old \<Rightarrow> field_firmware f old p \<noteq> v) \<or> rediscovered)
         (on_mirror (set_pending f (Some (field_alsa f v p))))) (\<lambda>_. ask (\<lambda>s.
       case mr_pending (dv_mirror s) f of
         Some owed \<Rightarrow> bnd (alsa_write k f owed) (\<lambda>r. case r of
             Inl e \<Rightarrow> ret (field_result f (Inl e) scan)
           | Inr _ \<Rightarrow> bnd (on_mirror (set_pending f None)) (\<lambda>_. ret scan))
       | None \<Rightarrow>
           if read_due \<and> f \<noteq> FieldGain
           then bnd (alsa_read k f) (\<lambda>r. case r of
               Inl e \<Rightarrow> ret (field_result f (Inl e) scan)
             | Inr observed \<Rightarrow> (case adopt_alsa k f v scan observed of (r, scan) \<Rightarrow> ret (field_result f r scan)))
           else ret scan)))"

definition mirror_observe :: "card_controls \<Rightarrow> config_buffer \<Rightarrow> nat \<Rightarrow> mirror_scan dact" where
  "mirror_observe k config now = ask (\<lambda>s.
     let p = cb_profile config; st = config_state config;
         read_due = (case mr_last_read (dv_mirror s) of None \<Rightarrow> True | Some old \<Rightarrow> ALSA_POLL \<le> now - old) in
     bnd (only_if read_due (on_mirror (\<lambda>m. m\<lparr>mr_last_read := Some now\<rparr>))) (\<lambda>_.
     bnd (alsa_refresh k now) (\<lambda>r. case r of
       Inl e \<Rightarrow> bnd (each (owe st p) ALL_FIELDS) (\<lambda>_.
         ret (config, False, [\<lparr>oi_target = ''ALSA controls'', oi_message = err_message e\<rparr>]))
     | Inr rediscovered \<Rightarrow> sweep (mirror_field st read_due rediscovered) (config, False, []) ALL_FIELDS)))"

definition mirror_committed :: "device_state \<Rightarrow> unit dact" where
  "mirror_committed st = on_mirror (\<lambda>m. m\<lparr>mr_last := Some st\<rparr>)"

definition setting_alsa_field :: "device_setting \<Rightarrow> alsa_field option" where
  "setting_alsa_field x = (case x of
     Mute _ \<Rightarrow> Some FieldMute | HeadphoneDb _ \<Rightarrow> Some FieldHeadphone | GainRaw _ \<Rightarrow> Some FieldGain | _ \<Rightarrow> None)"

definition mirror_requested :: "device_state \<Rightarrow> profile_id \<Rightarrow> device_setting list \<Rightarrow> unit dact" where
  "mirror_requested st p settings = each (\<lambda>x. case setting_alsa_field x of None \<Rightarrow> skip | Some f \<Rightarrow> owe st p f) settings"

subsection \<open>The device with its mirror\<close>

definition device_poll :: "(device_state \<times> operation_issue list) res dact" where
  "device_poll = attempt read_config (\<lambda>config. ask (\<lambda>s.
     bnd (case dv_alsa s of
         None \<Rightarrow> ret (config, False, [])
       | Some k \<Rightarrow> bnd usb_clock (mirror_observe k config)) (\<lambda>(config, dirty, errors).
     attempt (if dirty then write_config_raw (as_bytes config) else ret (Inr ())) (\<lambda>_. let st = config_state config in
     bnd (mirror_committed st) (\<lambda>_. ret (Inr (st, errors)))))))"

definition config_apply_res :: "config_buffer \<Rightarrow> device_setting \<Rightarrow> config_buffer res" where
  "config_apply_res c x = (case config_apply c x of (c, Inl e) \<Rightarrow> Inl e | (c, Inr _) \<Rightarrow> Inr c)"

definition device_apply :: "device_setting list \<Rightarrow> device_state res dact" where
  "device_apply settings = ask (\<lambda>s. let p = uid_profile (dv_unit s) in
     try_pure (res_mapM (validate_setting p) settings) (\<lambda>_.
     attempt read_config (\<lambda>before.
     try_pure (res_foldM config_apply_res before settings) (\<lambda>after.
     attempt (if p = XlrDockMk2 then write_changes before after else write_config_raw (as_bytes after)) (\<lambda>_.
     let st = config_state after in
     bnd (mirror_requested st p settings) (\<lambda>_.
     bnd (mirror_committed st) (\<lambda>_. ret (Inr st))))))))"

text \<open>\<^verbatim>\<open>NativeFactory::open\<close>\<close>

definition open_device :: "unit res dact" where
  "open_device = attempt vendor_open (\<lambda>_. ask (\<lambda>s.
     attempt (if unit_legacy s \<noteq> None then alsa_open else done_ok [upd (\<lambda>s. s\<lparr>dv_alsa := None\<rparr>)]) (\<lambda>_.
     done_ok [on_mirror (\<lambda>_. mirror_default)])))"

subsection \<open>One read, one patch, one write\<close>

text \<open>The writes among the calls.\<close>

definition usb_writes :: "device_call list \<Rightarrow> (u16 \<times> u8 list) list" where
  "usb_writes calls = List.map_filter (\<lambda>c. case c of UsbWrite _ _ selector _ bytes \<Rightarrow> Some (selector, bytes) | _ \<Rightarrow> None) calls"

definition config_after :: "config_buffer \<Rightarrow> device_setting list \<Rightarrow> config_buffer" where
  "config_after c settings = foldl (\<lambda>c x. fst (config_apply c x)) c settings"

definition state_after :: "profile_id \<Rightarrow> device_state \<Rightarrow> device_setting list \<Rightarrow> device_state" where
  "state_after p st settings = foldl (\<lambda>st x. put_setting p x st) st settings"

lemma config_apply_res_Inr: "config_apply_res c x = Inr c' \<longleftrightarrow> config_apply c x = (c', Inr ())"
  by (auto simp: config_apply_res_def split: sum.splits prod.splits)

lemma config_applies:
  assumes "res_foldM config_apply_res c settings = Inr after" "config_wf c"
    and "res_mapM (validate_setting (cb_profile c)) settings = Inr valid"
  shows "after = config_after c settings \<and> config_wf after \<and> cb_profile after = cb_profile c \<and>
    config_state after = state_after (cb_profile c) (config_state c) valid"
  using assms
proof (induction settings arbitrary: c valid)
  case Nil
  then show ?case by (simp add: config_after_def state_after_def)
next
  case (Cons x xs)
  obtain c' where c': "config_apply c x = (c', Inr ())" "res_foldM config_apply_res c' xs = Inr after"
    using Cons.prems(1) by (auto simp: res_simps config_apply_res_Inr)
  obtain y where y: "validate_setting (cb_profile c) x = Inr y" "config_wf c'" "cb_profile c' = cb_profile c"
      "config_state c' = put_setting (cb_profile c) y (config_state c)"
    by (rule config_apply_state [OF Cons.prems(2) c'(1)])
  obtain ys where ys: "res_mapM (validate_setting (cb_profile c)) xs = Inr ys" "valid = y # ys"
    using Cons.prems(3) y(1) by (auto simp: res_simps)
  show ?case
    using Cons.IH [OF c'(2) y(2), of ys] y(3,4) ys c'(1) by (auto simp: config_after_def state_after_def)
qed

lemma config_after_reserved:
  assumes "config_wf c" "(k, i) \<notin> set (concat (map (setting_bytes (cb_profile c)) settings))" "i < length (block_bytes c k)"
  shows "block_bytes (config_after c settings) k ! i = block_bytes c k ! i"
  using assms
proof (induction settings arbitrary: c)
  case Nil
  then show ?case by (simp add: config_after_def)
next
  case (Cons x xs)
  obtain c' r where c': "config_apply c x = (c', r)" by (cases "config_apply c x")
  have one: "block_bytes c' k ! i = block_bytes c k ! i \<and> length (block_bytes c' k) = length (block_bytes c k)"
    by (rule config_apply_reserved [OF Cons.prems(1) c']) (use Cons.prems in auto)
  have "config_wf c'" using config_apply_wf [OF Cons.prems(1), of x] c' by simp
  moreover have "cb_profile c' = cb_profile c"
  proof (cases r)
    case (Inl e)
    then show ?thesis using config_apply_cases [OF c'] by auto
  next
    case (Inr u)
    then have "config_apply c x = (c', Inr ())" using c' by simp
    then show ?thesis by (rule config_apply_state [OF Cons.prems(1)])
  qed
  ultimately have "block_bytes (config_after c' xs) k ! i = block_bytes c' k ! i"
    using Cons.IH [of c'] Cons.prems one by simp
  then show ?case using one c' by (simp add: config_after_def)
qed

text \<open>Reading changes nothing but the record of the calls and the note of a time-out.\<close>

interpretation reading: evolution "\<lambda>s t. usb_writes (dv_calls t) = usb_writes (dv_calls s) \<and> dv_unit t = dv_unit s \<and>
    dv_mirror t = dv_mirror s \<and> dv_alsa t = dv_alsa s"
  by unfold_locales auto

lemma reading_asked:
  assumes "usb_writes [c] = []"
  shows "along (\<lambda>s t. usb_writes (dv_calls t) = usb_writes (dv_calls s) \<and> dv_unit t = dv_unit s \<and>
    dv_mirror t = dv_mirror s \<and> dv_alsa t = dv_alsa s) (asked c answer)"
  using assms by (auto simp: along_def asked_def bnd_app usb_writes_def List.map_filter_def split: device_call.splits if_splits)

lemma reading_read: "along (\<lambda>s t. usb_writes (dv_calls t) = usb_writes (dv_calls s) \<and> dv_unit t = dv_unit s \<and>
    dv_mirror t = dv_mirror s \<and> dv_alsa t = dv_alsa s) (read_raw selector len)"
  unfolding read_raw_def transport_read_def transfer_failed_def transfer_done_def dock_read_def Let_def
  by (intro reading.along_intros reading_asked; simp add: along_def usb_writes_def List.map_filter_def)+

lemma reading_config: "along (\<lambda>s t. usb_writes (dv_calls t) = usb_writes (dv_calls s) \<and> dv_unit t = dv_unit s \<and>
    dv_mirror t = dv_mirror s \<and> dv_alsa t = dv_alsa s) read_config"
  unfolding read_config_def by (intro reading.along_intros reading_read)

lemma read_config_wf:
  assumes "fst (read_config s) = Inr c"
  shows "config_wf c \<and> cb_profile c = uid_profile (dv_unit s)"
proof (cases "is_dock s")
  case True
  then show ?thesis
    using assms config_decode_dock_wf
    by (auto simp: read_config_def attempt_app is_dock_def config_decode_dock_def res_simps split: sum.splits)
next
  case False
  then show ?thesis
    using assms config_decode_wf
    by (auto simp: read_config_def attempt_app config_decode_def res_simps split: sum.splits option.splits)
qed

lemma write_block_writes:
  "usb_writes (dv_calls (snd (write_block selector bytes s))) = (selector, bytes) # usb_writes (dv_calls s)"
  by (auto simp: write_block_def transport_write_def transfer_failed_def transfer_done_def asked_def act_apps Let_def
      usb_writes_def List.map_filter_def guard_ok_def split: sum.splits)

text \<open>A run of block writes makes them in order, up to the first that fails.\<close>

definition wrote :: "(u16 \<times> u8 list) list \<Rightarrow> usb_device \<Rightarrow> unit res \<times> usb_device \<Rightarrow> bool" where
  "wrote blocks s r \<longleftrightarrow> (\<exists>n. usb_writes (dv_calls (snd r)) = rev (take n blocks) @ usb_writes (dv_calls s) \<and>
     (is_ok (fst r) \<longrightarrow> length blocks \<le> n))"

lemma wrote_blocks: "wrote blocks s (each_try (\<lambda>(selector, bytes). write_block selector bytes) blocks s)"
proof (induction blocks arbitrary: s)
  case Nil
  then show ?case by (simp add: wrote_def)
next
  case (Cons b blocks)
  obtain selector bytes where b: "b = (selector, bytes)" by (cases b)
  let ?t = "snd (write_block selector bytes s)"
  show ?case
  proof (cases "fst (write_block selector bytes s)")
    case (Inl e)
    then have "usb_writes (dv_calls ?t) = rev (take 1 (b # blocks)) @ usb_writes (dv_calls s)"
      by (simp add: write_block_writes b)
    then show ?thesis using Inl unfolding wrote_def by (intro exI [of _ 1]) (simp add: attempt_app b is_ok_def)
  next
    case (Inr u)
    obtain n where n: "usb_writes (dv_calls (snd (each_try (\<lambda>(selector, bytes). write_block selector bytes) blocks ?t))) =
        rev (take n blocks) @ usb_writes (dv_calls ?t)"
      "is_ok (fst (each_try (\<lambda>(selector, bytes). write_block selector bytes) blocks ?t)) \<longrightarrow> length blocks \<le> n"
      using Cons.IH [of ?t] by (auto simp: wrote_def)
    then have "usb_writes (dv_calls (snd (each_try (\<lambda>(selector, bytes). write_block selector bytes) blocks ?t))) =
        rev (take (Suc n) (b # blocks)) @ usb_writes (dv_calls s)"
      by (simp add: write_block_writes b)
    then show ?thesis using Inr n(2) unfolding wrote_def by (intro exI [of _ "Suc n"]) (simp add: attempt_app b)
  qed
qed

lemma wrote_one: "wrote [(selector, bytes)] s (write_block selector bytes s)"
  by (auto simp: wrote_def write_block_writes intro: exI [of _ 1])

lemma wrote_none: "wrote blocks s (fail_with e s)"
  by (auto simp: wrote_def is_ok_def intro: exI [of _ 0])

text \<open>What the settings make of the configuration that was read, as blocks to write.\<close>

definition due_blocks :: "config_buffer \<Rightarrow> config_buffer \<Rightarrow> (u16 \<times> u8 list) list" where
  "due_blocks before after = (if cb_profile before = XlrDockMk2 then changed_blocks before after else config_blocks after)"

text \<open>The mirror is memory only.\<close>

interpretation silent: evolution "\<lambda>s t. dv_calls t = dv_calls s"
  by unfold_locales auto

lemma silent_mirror: "along (\<lambda>s t. dv_calls t = dv_calls s) (mirror_requested st p settings)"
    "along (\<lambda>s t. dv_calls t = dv_calls s) (mirror_committed st)"
proof -
  have upd: "along (\<lambda>s t. dv_calls t = dv_calls s) (on_mirror f)" for f
    by (simp add: on_mirror_def along_def)
  show "along (\<lambda>s t. dv_calls t = dv_calls s) (mirror_requested st p settings)"
    unfolding mirror_requested_def owe_def by (intro silent.along_intros upd)
  show "along (\<lambda>s t. dv_calls t = dv_calls s) (mirror_committed st)"
    unfolding mirror_committed_def by (rule upd)
qed

lemma device_write:
  assumes "config_wf after" "cb_profile after = cb_profile before" "cb_profile before = uid_profile (dv_unit s)"
  shows "wrote (due_blocks before after) s ((if uid_profile (dv_unit s) = XlrDockMk2 then write_changes before after
     else write_config_raw (as_bytes after)) s)"
  using assms wrote_blocks [of "changed_blocks before after" s] wrote_one wrote_none
  by (cases "uid_profile (dv_unit s)") (auto simp: due_blocks_def write_changes_def guard_ok_def write_config_raw_def Let_def unit_legacy_def config_blocks_def
      profile_legacy split: option.splits)

text \<open>
  C7. Settings are written in one transaction: settings that do not suit the device are refused before anything is
  sent to it; a configuration that cannot be read is not written; otherwise the writes are, in order and up to
  the first that fails, the blocks of the configuration that was read with the settings applied - on the dock
  only those that change - and if they succeed the state reported is that of the register after them. No byte the settings do
  not own is changed.
\<close>

theorem device_apply_transaction:
  "case device_apply settings s of (r, t) \<Rightarrow>
     (case (res_mapM (validate_setting (uid_profile (dv_unit s))) settings, fst (read_config s)) of
        (Inl e, _) \<Rightarrow> r = Inl e \<and> t = s
      | (Inr valid, Inl e) \<Rightarrow> r = Inl e \<and> usb_writes (dv_calls t) = usb_writes (dv_calls s)
      | (Inr valid, Inr before) \<Rightarrow> let after = config_after before settings; blocks = due_blocks before after in
          (\<exists>n. usb_writes (dv_calls t) = rev (take n blocks) @ usb_writes (dv_calls s)) \<and>
          (case r of Inl e \<Rightarrow> True
           | Inr st \<Rightarrow> usb_writes (dv_calls t) = rev blocks @ usb_writes (dv_calls s) \<and>
               st = config_state after \<and> st = state_after (uid_profile (dv_unit s)) (config_state before) valid) \<and>
          (if (k, i) \<notin> set (concat (map (setting_bytes (uid_profile (dv_unit s))) settings)) \<and> i < length (block_bytes before k)
           then block_bytes after k ! i = block_bytes before k ! i else True))"
proof -
  let ?p = "uid_profile (dv_unit s)" and ?t = "snd (read_config s)"
  show ?thesis
  proof (cases "res_mapM (validate_setting ?p) settings")
    case (Inl e)
    then show ?thesis by (simp add: device_apply_def Let_def)
  next
    case (Inr valid)
    note valid = Inr
    show ?thesis
    proof (cases "fst (read_config s)")
      case (Inl e)
      then show ?thesis using alongD [OF reading_config, of s] valid by (simp add: device_apply_def Let_def attempt_app)
    next
      case (Inr before)
      note wf = read_config_wf [OF Inr] and same = alongD [OF reading_config, of s]
      have reserved: "if (k, i) \<notin> set (concat (map (setting_bytes ?p) settings)) \<and> i < length (block_bytes before k)
          then block_bytes (config_after before settings) k ! i = block_bytes before k ! i else True"
        using config_after_reserved [of before k i settings] wf by simp
      show ?thesis
      proof (cases "res_foldM config_apply_res before settings")
        case (Inl e)
        then show ?thesis
          using valid Inr same reserved by (auto simp: device_apply_def Let_def attempt_app intro: exI [of _ 0])
      next
        case (Inr after)
        note after = config_applies [OF Inr conjunct1 [OF wf], unfolded conjunct2 [OF wf], OF valid]
        then have a: "after = config_after before settings" "config_wf after" "cb_profile after = cb_profile before"
            "config_state after = state_after ?p (config_state before) valid"
          using after wf by simp_all
        have unit: "dv_unit ?t = dv_unit s" using same by simp
        let ?w = "(if ?p = XlrDockMk2 then write_changes before after else write_config_raw (as_bytes after)) ?t"
        have w: "wrote (due_blocks before after) ?t ?w"
          using device_write [OF a(2,3) conjunct2 [OF wf, folded unit]] unfolding unit .
        have t: "dv_calls (snd (device_apply settings s)) = dv_calls (snd ?w) \<and>
            fst (device_apply settings s) = (case fst ?w of Inl e \<Rightarrow> Inl e | Inr _ \<Rightarrow> Inr (config_state after))"
          using valid Inr \<open>fst (read_config s) = Inr before\<close> alongD [OF silent_mirror(1)] alongD [OF silent_mirror(2)]
          by (simp add: device_apply_def Let_def attempt_app bnd_app split: sum.split)
        obtain n where n: "usb_writes (dv_calls (snd ?w)) = rev (take n (due_blocks before after)) @ usb_writes (dv_calls s)"
          "is_ok (fst ?w) \<longrightarrow> length (due_blocks before after) \<le> n"
          using w same by (auto simp: wrote_def)
        define r u where "r = fst (device_apply settings s)" and "u = snd (device_apply settings s)"
        have writes: "usb_writes (dv_calls u) = rev (take n (due_blocks before after)) @ usb_writes (dv_calls s)"
          using t n(1) by (simp add: u_def)
        have finished: "usb_writes (dv_calls u) = rev (due_blocks before after) @ usb_writes (dv_calls s) \<and> st = config_state after"
          if "r = Inr st" for st
          using that t n(2) writes by (auto simp: r_def is_ok_def split: sum.splits)
        have some: "\<exists>n. usb_writes (dv_calls u) = rev (take n (due_blocks before after)) @ usb_writes (dv_calls s)"
          using writes by (rule exI)
        have "device_apply settings s = (r, u)" by (simp add: r_def u_def)
        then show ?thesis
          using some finished a(4) valid reserved [folded a(1)] \<open>fst (read_config s) = Inr before\<close>
          by (simp add: Let_def a(1) [symmetric] del: set_concat split: sum.split)
      qed
    qed
  qed
qed

subsection \<open>The firmware wins\<close>

interpretation card: evolution "\<lambda>s t. dv_mirror t = dv_mirror s"
  by unfold_locales auto

lemma card_asked: "along (\<lambda>s t. dv_mirror t = dv_mirror s) (asked c answer)"
  by (simp add: asked_def along_def bnd_app)

lemma card_amixer: "along (\<lambda>s t. dv_mirror t = dv_mirror s) (amixer k args)"
  unfolding amixer_def validate_identity_def unit_card_def by (intro card.along_intros card_asked)

lemma card_write: "along (\<lambda>s t. dv_mirror t = dv_mirror s) (alsa_write k f v)"
  unfolding alsa_write_def by (intro card.along_intros card_amixer)

lemma card_read: "along (\<lambda>s t. dv_mirror t = dv_mirror s) (alsa_read k f)"
  unfolding alsa_read_def by (intro card.along_intros card_amixer)

lemma card_refresh: "along (\<lambda>s t. dv_mirror t = dv_mirror s) (alsa_refresh k now)"
proof -
  have "along (\<lambda>s t. dv_mirror t = dv_mirror s) (set_alsa f)" for f by (simp add: set_alsa_def along_def)
  then show ?thesis
    unfolding alsa_refresh_def discover_def validate_identity_def unit_card_def Let_def
    by (intro card.along_intros card_asked card_amixer)
qed

lemma validate_setting_field: "validate_setting p x = Inr y \<Longrightarrow> setting_alsa_field y = setting_alsa_field x"
  by (auto simp: validate_setting_def Let_def setting_alsa_field_def split: device_setting.splits if_splits option.splits)

lemma put_setting_field: "setting_alsa_field y \<noteq> Some f \<Longrightarrow> field_firmware f (put_setting p y st) p = field_firmware f st p"
  by (cases y; cases f) (simp_all add: setting_alsa_field_def field_firmware_def)

definition holds_firmware :: "alsa_field \<Rightarrow> profile_id \<Rightarrow> int \<Rightarrow> config_buffer \<Rightarrow> bool" where
  "holds_firmware f p v c \<longleftrightarrow> config_wf c \<and> cb_profile c = p \<and> field_firmware f (config_state c) p = v"

lemma config_apply_holds:
  assumes "config_apply c x = (c', r)" "holds_firmware f p v c" "setting_alsa_field x \<noteq> Some f"
  shows "holds_firmware f p v c'"
proof (cases r)
  case (Inl e)
  then show ?thesis using config_apply_cases [OF assms(1)] assms(2) by auto
next
  case (Inr u)
  then have ap: "config_apply c x = (c', Inr ())" using assms(1) by simp
  obtain y where y: "validate_setting (cb_profile c) x = Inr y" "config_wf c'" "cb_profile c' = cb_profile c"
      "config_state c' = put_setting (cb_profile c) y (config_state c)"
    using assms(2) by (auto simp: holds_firmware_def intro: config_apply_state [OF _ ap])
  show ?thesis
    using y assms(2,3) validate_setting_field [OF y(1)] put_setting_field [of y f p] by (auto simp: holds_firmware_def)
qed

lemma adopt_alsa_holds:
  assumes "adopt_alsa k g w scan x = (r, scan')" "holds_firmware f p v (fst scan)" "g \<noteq> f"
  shows "holds_firmware f p v (fst (field_result g r scan'))"
proof -
  have "setting_alsa_field (field_setting g x q) \<noteq> Some f" for q
    using assms(3) by (cases g) (simp_all add: field_setting_def setting_alsa_field_def)
  then show ?thesis
    using assms(1,2) config_apply_holds
    by (auto simp: adopt_alsa_def field_result_def split: sum.splits prod.splits if_splits)
qed

text \<open>A field the card may not overrule: a change of the firmware, or a debt to the card.\<close>

definition firmware_rules :: "alsa_field \<Rightarrow> device_state \<Rightarrow> profile_id \<Rightarrow> mirror \<Rightarrow> bool" where
  "firmware_rules f st p m \<longleftrightarrow> f = FieldGain \<or> mr_pending m f \<noteq> None \<or>
     (case mr_last m of None \<Rightarrow> True | Some old \<Rightarrow> field_firmware f old p \<noteq> field_firmware f st p)"

lemma mirror_field_holds:
  assumes "holds_firmware f p v (fst scan)" "g = f \<Longrightarrow> firmware_rules f st p (dv_mirror s)"
  shows "holds_firmware f p v (fst (fst (mirror_field st read_due rediscovered scan g s)))"
proof -
  have errors: "fst (field_result h (Inl e) scan) = fst scan" for h e
    by (cases scan) (simp add: field_result_def)
  have p: "cb_profile (fst scan) = p" using assms(1) by (simp add: holds_firmware_def)
  show ?thesis
  proof (cases "g = f")
    case True
    then have "fst (fst (mirror_field st read_due rediscovered scan g s)) = fst scan"
      using assms(2) p
      by (auto simp: mirror_field_def Let_def act_apps on_mirror_def set_pending_def only_if_def errors
          firmware_rules_def split: option.splits sum.splits prod.splits)
    then show ?thesis using assms(1) by simp
  next
    case False
    then show ?thesis
      using assms(1) adopt_alsa_holds [OF _ assms(1) False]
      by (auto simp: mirror_field_def Let_def act_apps on_mirror_def only_if_def errors split: option.splits sum.splits prod.splits)
  qed
qed

text \<open>Mirroring one field leaves the debts of the others alone.\<close>

lemma mirror_field_frame:
  assumes "g \<noteq> f"
  shows "mr_pending (dv_mirror (snd (mirror_field st read_due rediscovered scan g s))) f = mr_pending (dv_mirror s) f \<and>
    mr_last (dv_mirror (snd (mirror_field st read_due rediscovered scan g s))) = mr_last (dv_mirror s)"
proof -
  have mirror: "dv_mirror (snd (alsa_write k g x t)) = dv_mirror t" "dv_mirror (snd (alsa_read k g t)) = dv_mirror t" for k x t
    using alongD [OF card_write] alongD [OF card_read] by blast+
  show ?thesis
    using assms
    by (auto simp: mirror_field_def Let_def act_apps on_mirror_def set_pending_def only_if_def mirror
        split: option.splits sum.splits prod.splits)
qed

lemma mirror_fields_hold:
  assumes "distinct fs" "holds_firmware f p v (fst scan)" "f \<in> set fs \<Longrightarrow> firmware_rules f st p (dv_mirror s)"
  shows "holds_firmware f p v (fst (fst (sweep (mirror_field st read_due rediscovered) scan fs s)))"
  using assms
proof (induction fs arbitrary: scan s)
  case Nil
  then show ?case by simp
next
  case (Cons g gs)
  let ?r = "mirror_field st read_due rediscovered scan g s"
  have held: "holds_firmware f p v (fst (fst ?r))"
    using Cons.prems by (intro mirror_field_holds) auto
  have "firmware_rules f st p (dv_mirror (snd ?r))" if "f \<in> set gs"
  proof -
    have "g \<noteq> f" using that Cons.prems(1) by auto
    then show ?thesis using mirror_field_frame Cons.prems(3) that by (simp add: firmware_rules_def)
  qed
  then show ?case using Cons.IH [OF _ held] Cons.prems(1) by (simp add: bnd_app)
qed

lemma mirror_observe_holds:
  assumes "config_wf c" "firmware_rules f (config_state c) (cb_profile c) (dv_mirror s)"
  shows "holds_firmware f (cb_profile c) (field_firmware f (config_state c) (cb_profile c)) (fst (fst (mirror_observe k c now s)))"
proof -
  have same: "holds_firmware f (cb_profile c) (field_firmware f (config_state c) (cb_profile c)) c"
    using assms(1) by (simp add: holds_firmware_def)
  have "dv_mirror (snd (alsa_refresh k now t)) = dv_mirror t" for t
    using alongD [OF card_refresh] by blast
  then show ?thesis
    using assms(2) mirror_fields_hold [of ALL_FIELDS f "cb_profile c" _ "(c, False, [])"] same
    by (auto simp: mirror_observe_def Let_def bnd_app on_mirror_def only_if_def ALL_FIELDS_def firmware_rules_def split: sum.splits)
qed

text \<open>The last state is replaced only when a transaction is complete.\<close>

interpretation remembered: evolution "\<lambda>s t. mr_last (dv_mirror t) = mr_last (dv_mirror s)"
  by unfold_locales auto

lemma remembered_from:
  "along (\<lambda>s t. dv_mirror t = dv_mirror s) m \<Longrightarrow> along (\<lambda>s t. mr_last (dv_mirror t) = mr_last (dv_mirror s)) m"
  by (simp add: along_def)

lemma remembered_mirror:
  "(\<And>m. mr_last (f m) = mr_last m) \<Longrightarrow> along (\<lambda>s t. mr_last (dv_mirror t) = mr_last (dv_mirror s)) (on_mirror f)"
  by (simp add: on_mirror_def along_def)

lemma remembered_observe: "along (\<lambda>s t. mr_last (dv_mirror t) = mr_last (dv_mirror s)) (mirror_observe k c now)"
  unfolding mirror_observe_def mirror_field_def owe_def Let_def
  by (intro remembered.along_intros remembered_mirror remembered_from [OF card_refresh] remembered_from [OF card_write]
      remembered_from [OF card_read]) (simp_all add: set_pending_def)

lemma remembered_write: "along (\<lambda>s t. mr_last (dv_mirror t) = mr_last (dv_mirror s)) (write_config_raw bytes)"
  unfolding write_config_raw_def write_block_def transport_write_def transfer_failed_def transfer_done_def Let_def
  by (intro remembered.along_intros remembered_from [OF card_asked]) (simp_all add: along_def split: option.split)

text \<open>
  C9. A poll reports the configuration of the device, corrected by what the sound card says; but the card never overrules the
  device where the firmware has changed the value since the last poll, where a value is still owed to the card, or in
  the gain. The state reported is the one that is remembered, and a poll of a dock, which has no card, writes nothing.
\<close>

theorem poll_firmware_wins:
  "case device_poll s of
     (Inl e, t) \<Rightarrow> mr_last (dv_mirror t) = mr_last (dv_mirror s)
   | (Inr (st, errors), t) \<Rightarrow> mr_last (dv_mirror t) = Some st \<and>
       (case fst (read_config s) of Inl e \<Rightarrow> False
        | Inr c \<Rightarrow> (if firmware_rules f (config_state c) (uid_profile (dv_unit s)) (dv_mirror s)
            then field_firmware f st (uid_profile (dv_unit s)) = field_firmware f (config_state c) (uid_profile (dv_unit s)) else True) \<and>
           (if dv_alsa s = None then st = config_state c \<and> usb_writes (dv_calls t) = usb_writes (dv_calls s) else True))"
proof (cases "fst (read_config s)")
  case (Inl e)
  then show ?thesis using alongD [OF reading_config, of s] by (simp add: device_poll_def attempt_app)
next
  case (Inr c)
  let ?p = "uid_profile (dv_unit s)" and ?t = "snd (read_config s)"
  note same = alongD [OF reading_config, of s] and wf = read_config_wf [OF Inr]
  have last: "mr_last (dv_mirror (snd (usb_clock t))) = mr_last (dv_mirror t)" "dv_mirror (snd (usb_clock t)) = dv_mirror t" for t
    by (simp_all add: usb_clock_def bnd_app)
  define scan where "scan = (case dv_alsa s of None \<Rightarrow> ret (c, False, []) | Some k \<Rightarrow> bnd usb_clock (mirror_observe k c)) ?t"
  obtain d dirty errors u where scan': "scan = ((d, dirty, errors), u)" by (cases scan) auto
  have kept: "mr_last (dv_mirror u) = mr_last (dv_mirror s)"
    using scan' same last(1) alongD [OF remembered_observe]
    by (auto simp: scan_def bnd_app split: option.splits) (metis fst_conv snd_conv)+
  have held: "field_firmware f (config_state d) ?p = field_firmware f (config_state c) ?p"
    if "firmware_rules f (config_state c) ?p (dv_mirror s)"
  proof (cases "dv_alsa s")
    case None
    then show ?thesis using scan' by (simp add: scan_def)
  next
    case (Some k)
    let ?c = "usb_clock ?t"
    have "firmware_rules f (config_state c) (cb_profile c) (dv_mirror (snd ?c))"
      using that wf same by (simp add: last(2))
    from mirror_observe_holds [OF conjunct1 [OF wf] this, of k "fst ?c"]
    show ?thesis using scan' Some wf by (simp add: scan_def bnd_app holds_firmware_def)
  qed
  have plain: "d = c \<and> \<not> dirty \<and> u = ?t" if "dv_alsa s = None"
    using scan' that by (auto simp: scan_def)
  have poll: "device_poll s = (case (if dirty then write_config_raw (as_bytes d) else ret (Inr ())) u of
       (Inl e, t) \<Rightarrow> (Inl e, t)
     | (Inr _, t) \<Rightarrow> (Inr (config_state d, errors), snd (mirror_committed (config_state d) t)))"
    using Inr same scan' by (simp add: device_poll_def attempt_app bnd_app scan_def Let_def split: prod.split sum.split)
  show ?thesis
    using Inr kept held plain same alongD [OF remembered_write [of "as_bytes d"], of u]
    by (auto simp: poll mirror_committed_def on_mirror_def split: prod.splits sum.splits if_splits)
qed

end
