(* ===== verification/Usb_Owner.thy ===== *)
theory Usb_Owner
  imports Usb_Device "HOL-Library.Multiset"
begin

text \<open>
  The owners of the devices, \<^verbatim>\<open>DeviceManager\<close>, \<^verbatim>\<open>unit_worker\<close> and \<^verbatim>\<open>discovery\<close> of
  \<^verbatim>\<open>crates/openwave-runtime/src/device.rs\<close>: a thread that looks for devices, one thread for each device it
  finds, and the clients' jobs. Every thread is a machine of atomic steps - what it does while it holds a lock, or
  one call to a device, or one event sent - and a run interleaves the steps of all of them, and the calls of the
  clients, in any order. What the devices answer, which clocks are due and which threads can be started are part of the
  inputs. A unit's queue and its worker are one entry of the registry, as both are entered and removed together.
  Poisoned locks, and the panics that poison them, are not modelled.
\<close>

subsection \<open>Queues and events\<close>

record usb_job =
  jb_id :: u64
  jb_settings :: "device_setting list"

record usb_queue =
  qu_ready :: bool
  qu_retiring :: bool
  qu_unplugged :: bool
  qu_jobs :: "usb_job list"

definition queue_default :: usb_queue where
  "queue_default = \<lparr>qu_ready = False, qu_retiring = False, qu_unplugged = False, qu_jobs = []\<rparr>"

definition queue_retire :: "usb_queue \<Rightarrow> usb_queue" where
  "queue_retire q = q\<lparr>qu_ready := False, qu_retiring := True\<rparr>"

datatype usb_event =
    UsbConnected unit_snapshot
  | UsbObserved unit_snapshot
  | UsbRetired unit_id
  | UsbCompleted u64 unit_id "device_state res"
  | UsbError "unit_id option" operation_error

definition usb_cancelled :: operation_error where
  "usb_cancelled = error_new Cancelled ''Device job cancelled during retirement''"

definition polled_snapshot :: "unit_id \<Rightarrow> device_info \<Rightarrow> device_state \<Rightarrow> operation_issue list \<Rightarrow> unit_snapshot" where
  "polled_snapshot u i st errors = \<lparr>us_id = u, us_info = i, us_state = Known st, us_desired_mute = None,
     us_input_peak = FFin False 0, us_output_peak = FFin False 0, us_errors = errors\<rparr>"

subsection \<open>The worker of a unit\<close>

text \<open>
  Where the worker is: before the queue is looked at, before the device is opened, between the first poll and the
  announcement, at the head of the loop with the number of failed polls, in a transaction, and on the way out with the error and whether the
  device did not answer.
\<close>

datatype worker_phase =
    Starting
  | Opening
  | Greeting device_info device_state "operation_issue list"
  | Announcing device_info device_state "operation_issue list"
  | Waiting device_info nat
  | Applying device_info nat usb_job
  | Polling device_info nat
  | Ending "operation_error option" bool
  | Draining "operation_error option" bool
  | Cancelling "usb_job list" "operation_error option" bool
  | Finished bool

record usb_worker =
  wk_queue :: usb_queue
  wk_phase :: worker_phase

text \<open>
  What the device says in a step: the result of opening it, of the first reading, of a job (nothing for a panic, which is
  caught) and of a poll; whether the next poll is due, whether the device has stopped answering, and whether the call panics.
\<close>

record worker_answer =
  wa_open :: "unit res"
  wa_first :: "(device_info \<times> device_state \<times> operation_issue list) res"
  wa_apply :: "device_state res option"
  wa_poll :: "(device_state \<times> operation_issue list) res"
  wa_due :: bool
  wa_unresponsive :: bool
  wa_panics :: bool

definition owner_panicked :: operation_error where
  "owner_panicked = error_unavailable ''USB owner panicked; unit retired''"

definition job_result :: "device_state res option \<Rightarrow> device_state res" where
  "job_result r = (case r of None \<Rightarrow> Inl (error_unavailable ''USB transaction panicked; unit retired'') | Some r \<Rightarrow> r)"

definition open_result :: "worker_answer \<Rightarrow> worker_phase" where
  "open_result a = (if wa_panics a then Ending (Some owner_panicked) False
     else case wa_open a of Inl e \<Rightarrow> Ending (Some e) False
     | Inr _ \<Rightarrow> (case wa_first a of Inl e \<Rightarrow> Ending (Some e) (wa_unresponsive a)
         | Inr (i, st, errors) \<Rightarrow> Greeting i st errors))"

definition poll_step :: "unit_id \<Rightarrow> worker_answer \<Rightarrow> device_info \<Rightarrow> nat \<Rightarrow> worker_phase \<times> usb_event list" where
  "poll_step u a i failures = (if wa_panics a then (Ending (Some owner_panicked) False, [])
     else case wa_poll a of
       Inr (st, errors) \<Rightarrow> (Waiting i 0, [UsbObserved (polled_snapshot u i st errors)])
     | Inl e \<Rightarrow> if 3 \<le> Suc failures then (Ending (Some e) (wa_unresponsive a), [])
         else (Waiting i (Suc failures), [UsbError (Some u) e]))"

text \<open>A due poll cannot starve behind a stream of jobs.\<close>

definition take_step :: "worker_answer \<Rightarrow> device_info \<Rightarrow> nat \<Rightarrow> usb_worker \<Rightarrow> usb_worker" where
  "take_step a i failures w = (let q = wk_queue w in
     if qu_retiring q then w\<lparr>wk_phase := Ending None (wa_unresponsive a)\<rparr>
     else if wa_due a then w\<lparr>wk_phase := Polling i failures\<rparr>
     else case qu_jobs q of
       [] \<Rightarrow> w
     | j # js \<Rightarrow> w\<lparr>wk_queue := q\<lparr>qu_jobs := js\<rparr>, wk_phase := Applying i failures j\<rparr>)"

definition cancel_step :: "unit_id \<Rightarrow> usb_job list \<Rightarrow> operation_error option \<Rightarrow> bool \<Rightarrow> worker_phase \<times> usb_event list" where
  "cancel_step u jobs e unresponsive = (case jobs of
       j # js \<Rightarrow> (Cancelling js e unresponsive, [UsbCompleted (jb_id j) u (Inl usb_cancelled)])
     | [] \<Rightarrow> (case e of
         Some e \<Rightarrow> (Cancelling [] None unresponsive, [UsbError (Some u) e])
       | None \<Rightarrow> (Finished unresponsive, [UsbRetired u])))"

definition worker_step :: "unit_id \<Rightarrow> worker_answer \<Rightarrow> usb_worker \<Rightarrow> usb_worker \<times> usb_event list" where
  "worker_step u a w = (case wk_phase w of
       Starting \<Rightarrow> (w\<lparr>wk_phase := if qu_retiring (wk_queue w) then Ending None False else Opening\<rparr>, [])
     | Opening \<Rightarrow> (w\<lparr>wk_phase := open_result a\<rparr>, [])
     | Greeting i st errors \<Rightarrow>
         (if qu_retiring (wk_queue w) then w\<lparr>wk_phase := Ending None (wa_unresponsive a)\<rparr>
          else w\<lparr>wk_queue := (wk_queue w)\<lparr>qu_ready := True\<rparr>, wk_phase := Announcing i st errors\<rparr>, [])
     | Announcing i st errors \<Rightarrow> (w\<lparr>wk_phase := Waiting i 0\<rparr>, [UsbConnected (polled_snapshot u i st errors)])
     | Waiting i failures \<Rightarrow> (take_step a i failures w, [])
     | Applying i failures j \<Rightarrow> (let r = job_result (wa_apply a) in
         (w\<lparr>wk_phase := case r of Inl e \<Rightarrow> Ending (Some e) (wa_unresponsive a) | Inr _ \<Rightarrow> Waiting i failures\<rparr>,
          [UsbCompleted (jb_id j) u r]))
     | Polling i failures \<Rightarrow> (case poll_step u a i failures of (p, events) \<Rightarrow> (w\<lparr>wk_phase := p\<rparr>, events))
     | Ending e unresponsive \<Rightarrow> (w\<lparr>wk_queue := queue_retire (wk_queue w), wk_phase := Draining e unresponsive\<rparr>, [])
     | Draining e unresponsive \<Rightarrow>
         (w\<lparr>wk_queue := (wk_queue w)\<lparr>qu_jobs := []\<rparr>, wk_phase := Cancelling (qu_jobs (wk_queue w)) e unresponsive\<rparr>, [])
     | Cancelling jobs e unresponsive \<Rightarrow> (case cancel_step u jobs e unresponsive of (p, events) \<Rightarrow> (w\<lparr>wk_phase := p\<rparr>, events))
     | Finished unresponsive \<Rightarrow> (w, []))"

subsection \<open>The registry\<close>

type_synonym usb_place = "profile_id \<times> u8 \<times> u8"

definition place_of :: "unit_id \<Rightarrow> usb_place" where
  "place_of u = (uid_profile u, uid_bus u, uid_address u)"

text \<open>Where the thread of the discovery is in its loop, and after it.\<close>

datatype discovery_phase = Reaping | Scanning | Listening | Closing | Joining | Closed

record usb_manager =
  um_stopped :: bool
  um_units :: "(unit_id, usb_worker) imap"
  um_suppressed :: "usb_place list"
  um_incarnation :: u64
  um_errors :: "string list"
  um_events :: "usb_event list"
  um_phase :: discovery_phase
  um_admitted :: "(unit_id \<times> u64) list"

definition manager_start :: usb_manager where
  "manager_start = \<lparr>um_stopped = False, um_units = [], um_suppressed = [], um_incarnation = 1, um_errors = [],
     um_events = [], um_phase = Reaping, um_admitted = []\<rparr>"

definition on_queue :: "(usb_queue \<Rightarrow> usb_queue) \<Rightarrow> usb_worker \<Rightarrow> usb_worker" where
  "on_queue f w = w\<lparr>wk_queue := f (wk_queue w)\<rparr>"

definition submit_job :: "unit_id \<Rightarrow> u64 \<Rightarrow> device_setting list \<Rightarrow> usb_manager \<Rightarrow> unit res \<times> usb_manager" where
  "submit_job u job settings m =
     (if settings = [] then (Inl (error_invalid ''Device job has no settings''), m)
      else case res_mapM (validate_setting (uid_profile u)) settings of
        Inl e \<Rightarrow> (Inl e, m)
      | Inr settings \<Rightarrow>
         if um_stopped m then (Inl usb_cancelled, m)
         else case im_get (um_units m) u of
           None \<Rightarrow> (Inl (error_unavailable ''Captured device incarnation is absent''), m)
         | Some w \<Rightarrow>
            if qu_retiring (wk_queue w) \<or> \<not> qu_ready (wk_queue w)
            then (Inl (error_unavailable ''Captured device is not accepting work''), m)
            else (Inr (), m\<lparr>um_units := im_adjust (um_units m) u
                (on_queue (\<lambda>q. q\<lparr>qu_jobs := qu_jobs q @ [\<lparr>jb_id = job, jb_settings = settings\<rparr>]\<rparr>)),
              um_admitted := um_admitted m @ [(u, job)]\<rparr>))"

definition retire_all :: "usb_manager \<Rightarrow> usb_manager" where
  "retire_all m = m\<lparr>um_units := map (\<lambda>(u, w). (u, on_queue queue_retire w)) (um_units m)\<rparr>"

definition manager_stop :: "usb_manager \<Rightarrow> usb_manager" where
  "manager_stop m = retire_all (m\<lparr>um_stopped := True\<rparr>)"

subsection \<open>Discovery\<close>

definition is_finished :: "usb_worker \<Rightarrow> bool" where
  "is_finished w = (case wk_phase w of Finished _ \<Rightarrow> True | _ \<Rightarrow> False)"

definition reap_unit :: "usb_manager \<Rightarrow> unit_id \<times> usb_worker \<Rightarrow> usb_manager" where
  "reap_unit m e = (case e of (u, w) \<Rightarrow>
     m\<lparr>um_units := im_shift_remove (um_units m) u,
       um_suppressed := (if wk_phase w = Finished True \<and> \<not> qu_unplugged (wk_queue w)
         then List.insert (place_of u) (um_suppressed m) else um_suppressed m)\<rparr>)"

definition reap :: "usb_manager \<Rightarrow> usb_manager" where
  "reap m = foldl reap_unit m (filter (\<lambda>(u, w). is_finished w) (um_units m))"

definition unplug :: "usb_place list \<Rightarrow> unit_id \<times> usb_worker \<Rightarrow> unit_id \<times> usb_worker" where
  "unplug wanted e = (case e of (u, w) \<Rightarrow>
     (u, if place_of u \<in> set wanted then w else on_queue (\<lambda>q. queue_retire (q\<lparr>qu_unplugged := True\<rparr>)) w))"

text \<open>The thread of a new unit may fail to start.\<close>

definition start_unit :: "(unit_id \<Rightarrow> operation_error option) \<Rightarrow> unit_id \<Rightarrow> usb_manager \<Rightarrow> usb_manager" where
  "start_unit spawn u m = (case spawn u of
       None \<Rightarrow> m\<lparr>um_units := im_insert (um_units m) u \<lparr>wk_queue = queue_default, wk_phase = Starting\<rparr>\<rparr>
     | Some e \<Rightarrow> m\<lparr>um_events := um_events m @ [UsbError (Some u) e]\<rparr>)"

fun start_units :: "(unit_id \<Rightarrow> operation_error option) \<Rightarrow> usb_place list \<Rightarrow> usb_manager \<Rightarrow> usb_manager" where
  "start_units spawn [] m = m"
| "start_units spawn ((p, bus, address) # found) m =
     (if (p, bus, address) \<in> set (um_suppressed m) \<or> list_ex (\<lambda>u. place_of u = (p, bus, address)) (im_keys (um_units m))
      then start_units spawn found m
      else case checked_add (um_incarnation m) 1 of
        None \<Rightarrow> m\<lparr>um_errors := um_errors m @ [''USB incarnation space exhausted''], um_stopped := True\<rparr>
      | Some next_one \<Rightarrow> start_units spawn found (start_unit spawn
          \<lparr>uid_profile = p, uid_bus = bus, uid_address = address, uid_incarnation = um_incarnation m\<rparr>
          (m\<lparr>um_incarnation := next_one\<rparr>)))"

definition admit_found :: "(unit_id \<Rightarrow> operation_error option) \<Rightarrow> usb_place list \<Rightarrow> usb_manager \<Rightarrow> usb_manager" where
  "admit_found spawn found m =
     (let found = remdups_adj (sort_key (\<lambda>(_, bus, address). (bus, address)) found);
          m = m\<lparr>um_suppressed := filter (\<lambda>k. k \<in> set found) (um_suppressed m), um_units := map (unplug found) (um_units m)\<rparr>
      in if um_stopped m then m else start_units spawn found m)"

definition scan_step :: "usb_place list res option \<Rightarrow> (unit_id \<Rightarrow> operation_error option) \<Rightarrow> usb_manager \<Rightarrow> usb_manager" where
  "scan_step result spawn m = (case result of
       None \<Rightarrow> m
     | Some (Inl e) \<Rightarrow> m\<lparr>um_events := um_events m @ [UsbError None e]\<rparr>
     | Some (Inr found) \<Rightarrow> admit_found spawn found m)"

text \<open>
  One step of the discovery: the result of a scan, if one is due, and whether the command that was received ends
  the loop.
\<close>

definition discovery_step ::
  "usb_place list res option \<Rightarrow> (unit_id \<Rightarrow> operation_error option) \<Rightarrow> bool \<Rightarrow> usb_manager \<Rightarrow> usb_manager" where
  "discovery_step result spawn stop m = (case um_phase m of
       Reaping \<Rightarrow> (let m = reap m in m\<lparr>um_phase := if um_stopped m then Closing else Scanning\<rparr>)
     | Scanning \<Rightarrow> (scan_step result spawn m)\<lparr>um_phase := Listening\<rparr>
     | Listening \<Rightarrow> m\<lparr>um_phase := if stop then Closing else Reaping\<rparr>
     | Closing \<Rightarrow> (manager_stop m)\<lparr>um_phase := Joining\<rparr>
     | Joining \<Rightarrow> if list_all (\<lambda>(u, w). is_finished w) (um_units m) then m\<lparr>um_units := [], um_phase := Closed\<rparr> else m
     | Closed \<Rightarrow> m)"

datatype manager_input =
    SubmitJob unit_id u64 "device_setting list"
  | StopManager
  | WorkerStep unit_id worker_answer
  | DiscoveryStep "usb_place list res option" "unit_id \<Rightarrow> operation_error option" bool

definition run_worker :: "unit_id \<Rightarrow> worker_answer \<Rightarrow> usb_manager \<Rightarrow> usb_manager" where
  "run_worker u a m = (case im_get (um_units m) u of
       None \<Rightarrow> m
     | Some w \<Rightarrow> (case worker_step u a w of (w, events) \<Rightarrow>
         m\<lparr>um_units := im_adjust (um_units m) u (\<lambda>_. w), um_events := um_events m @ events\<rparr>))"

definition manager_step :: "manager_input \<Rightarrow> usb_manager \<Rightarrow> usb_manager" where
  "manager_step i m = (case i of
       SubmitJob u job settings \<Rightarrow> snd (submit_job u job settings m)
     | StopManager \<Rightarrow> manager_stop m
     | WorkerStep u a \<Rightarrow> run_worker u a m
     | DiscoveryStep result spawn stop \<Rightarrow> discovery_step result spawn stop m)"

definition manager_run :: "manager_input list \<Rightarrow> usb_manager" where
  "manager_run inputs = foldl (\<lambda>m i. manager_step i m) manager_start inputs"

subsection \<open>Every job is answered once\<close>

text \<open>The answers among the events, and the jobs a worker still holds.\<close>

definition jobs_answered :: "usb_event list \<Rightarrow> (unit_id \<times> u64) list" where
  "jobs_answered events = List.map_filter (\<lambda>e. case e of UsbCompleted j u r \<Rightarrow> Some (u, j) | _ \<Rightarrow> None) events"

definition phase_jobs :: "worker_phase \<Rightarrow> usb_job list" where
  "phase_jobs p = (case p of Applying _ _ j \<Rightarrow> [j] | Cancelling js _ _ \<Rightarrow> js | _ \<Rightarrow> [])"

definition held_jobs :: "unit_id \<times> usb_worker \<Rightarrow> (unit_id \<times> u64) list" where
  "held_jobs e = (case e of (u, w) \<Rightarrow> map (\<lambda>j. (u, jb_id j)) (phase_jobs (wk_phase w) @ qu_jobs (wk_queue w)))"

definition held_bag :: "(unit_id, usb_worker) imap \<Rightarrow> (unit_id \<times> u64) multiset" where
  "held_bag units = mset (concat (map held_jobs units))"

definition outstanding :: "usb_manager \<Rightarrow> (unit_id \<times> u64) list" where
  "outstanding m = concat (map held_jobs (um_units m))"

lemma jobs_answered_simps [simp]:
  "jobs_answered [] = []"
  "jobs_answered (e # es) = (case e of UsbCompleted j u r \<Rightarrow> (u, j) # jobs_answered es | _ \<Rightarrow> jobs_answered es)"
  "jobs_answered (es @ fs) = jobs_answered es @ jobs_answered fs"
  by (simp_all add: jobs_answered_def List.map_filter_def split: usb_event.split)

text \<open>A worker that is on its way out takes no more jobs, and one that has not greeted yet has none.\<close>

definition worker_ok :: "usb_worker \<Rightarrow> bool" where
  "worker_ok w \<longleftrightarrow> (let q = wk_queue w in
     \<not> (qu_ready q \<and> qu_retiring q) \<and>
     (case wk_phase w of
        Starting \<Rightarrow> qu_jobs q = [] \<and> \<not> qu_ready q
      | Opening \<Rightarrow> qu_jobs q = [] \<and> \<not> qu_ready q
      | Greeting _ _ _ \<Rightarrow> qu_jobs q = [] \<and> \<not> qu_ready q
      | Draining _ _ \<Rightarrow> qu_retiring q
      | Cancelling _ _ _ \<Rightarrow> qu_retiring q \<and> qu_jobs q = []
      | Finished _ \<Rightarrow> qu_retiring q \<and> qu_jobs q = []
      | _ \<Rightarrow> True))"

lemma worker_step_jobs:
  assumes "worker_step u a w = (w', events)" "worker_ok w"
  shows "mset (held_jobs (u, w)) = mset (held_jobs (u, w')) + mset (jobs_answered events) \<and> worker_ok w'"
  using assms
  by (cases "wk_phase w")
    (auto simp: worker_step_def worker_ok_def held_jobs_def phase_jobs_def open_result_def take_step_def poll_step_def
      cancel_step_def queue_retire_def Let_def split: if_splits sum.splits list.splits option.splits prod.splits)

subsection \<open>The protocol of a unit\<close>

text \<open>A unit is silent until it is connected, then live, and gone once it is retired; only errors come before, and nothing after.\<close>

datatype unit_stage = Silent_Unit | Live_Unit | Gone_Unit

definition event_unit :: "usb_event \<Rightarrow> unit_id option" where
  "event_unit e = (case e of UsbConnected s \<Rightarrow> Some (us_id s) | UsbObserved s \<Rightarrow> Some (us_id s) | UsbRetired u \<Rightarrow> Some u
     | UsbCompleted _ u _ \<Rightarrow> Some u | UsbError u _ \<Rightarrow> u)"

definition stage_step :: "unit_id \<Rightarrow> unit_stage option \<Rightarrow> usb_event \<Rightarrow> unit_stage option" where
  "stage_step u st e = (if event_unit e \<noteq> Some u then st
     else case (st, e) of
       (Some Silent_Unit, UsbConnected _) \<Rightarrow> Some Live_Unit
     | (Some Silent_Unit, UsbError _ _) \<Rightarrow> Some Silent_Unit
     | (Some Silent_Unit, UsbRetired _) \<Rightarrow> Some Gone_Unit
     | (Some Live_Unit, UsbObserved _) \<Rightarrow> Some Live_Unit
     | (Some Live_Unit, UsbCompleted _ _ _) \<Rightarrow> Some Live_Unit
     | (Some Live_Unit, UsbError _ _) \<Rightarrow> Some Live_Unit
     | (Some Live_Unit, UsbRetired _) \<Rightarrow> Some Gone_Unit
     | _ \<Rightarrow> None)"

definition stages :: "unit_id \<Rightarrow> unit_stage option \<Rightarrow> usb_event list \<Rightarrow> unit_stage option" where
  "stages u st events = foldl (stage_step u) st events"

lemma stages_simps [simp]:
  "stages u st [] = st"
  "stages u st (e # es) = stages u (stage_step u st e) es"
  "stages u st (es @ fs) = stages u (stages u st es) fs"
  by (simp_all add: stages_def)

lemma stages_other: "list_all (\<lambda>e. event_unit e \<noteq> Some u) es \<Longrightarrow> stages u st es = st"
  by (induction es) (simp_all add: stage_step_def)

definition worker_at :: "usb_worker \<Rightarrow> unit_stage option \<Rightarrow> bool" where
  "worker_at w st = (let idle = (st = Some Silent_Unit \<and> qu_jobs (wk_queue w) = [] \<and> \<not> qu_ready (wk_queue w)) in
     case wk_phase w of
       Starting \<Rightarrow> idle | Opening \<Rightarrow> idle | Greeting _ _ _ \<Rightarrow> idle
     | Announcing _ _ _ \<Rightarrow> st = Some Silent_Unit
     | Waiting _ _ \<Rightarrow> st = Some Live_Unit | Applying _ _ _ \<Rightarrow> st = Some Live_Unit | Polling _ _ \<Rightarrow> st = Some Live_Unit
     | Ending _ _ \<Rightarrow> idle \<or> st = Some Live_Unit | Draining _ _ \<Rightarrow> idle \<or> st = Some Live_Unit
     | Cancelling js _ _ \<Rightarrow> st = Some Silent_Unit \<and> js = [] \<or> st = Some Live_Unit
     | Finished _ \<Rightarrow> st = Some Gone_Unit)"

lemma worker_step_stage:
  assumes "worker_step u a w = (w', events)" "worker_ok w" "worker_at w st"
  shows "worker_at w' (stages u st events) \<and> list_all (\<lambda>e. event_unit e = Some u) events"
  using assms
  by (cases "wk_phase w")
    (auto simp: worker_step_def worker_ok_def worker_at_def stage_step_def event_unit_def polled_snapshot_def open_result_def
      take_step_def poll_step_def cancel_step_def queue_retire_def Let_def
      split: if_splits sum.splits list.splits option.splits prod.splits)

lemma worker_at_some: "worker_at w st \<Longrightarrow> st \<noteq> None"
  by (cases "wk_phase w") (auto simp: worker_at_def Let_def)

subsection \<open>The invariant\<close>

text \<open>The units of the registry are at distinct places, with numbers already given out.\<close>

definition units_ok :: "usb_manager \<Rightarrow> bool" where
  "units_ok m \<longleftrightarrow> distinct (map (\<lambda>e. place_of (fst e)) (um_units m)) \<and>
     list_all (\<lambda>e. unat (uid_incarnation (fst e)) < unat (um_incarnation m)) (um_units m)"

definition stages_ok :: "usb_manager \<Rightarrow> bool" where
  "stages_ok m \<longleftrightarrow> (\<forall>u. (let st = stages u (Some Silent_Unit) (um_events m) in st \<noteq> None \<and>
     (unat (um_incarnation m) \<le> unat (uid_incarnation u) \<longrightarrow> st = Some Silent_Unit) \<and>
     (case im_get (um_units m) u of None \<Rightarrow> True | Some w \<Rightarrow> worker_at w st)))"

definition jobs_kept :: "usb_manager \<Rightarrow> bool" where
  "jobs_kept m \<longleftrightarrow> list_all (\<lambda>e. worker_ok (snd e)) (um_units m) \<and>
     mset (um_admitted m) = mset (jobs_answered (um_events m)) + held_bag (um_units m) \<and>
     (if um_phase m = Closed then um_units m = [] else True)"

definition manager_ok :: "usb_manager \<Rightarrow> bool" where
  "manager_ok m \<longleftrightarrow> units_ok m \<and> jobs_kept m \<and> stages_ok m"

lemma units_distinct: "units_ok m \<Longrightarrow> distinct (map fst (um_units m))"
proof -
  assume "units_ok m"
  then have "distinct (map place_of (map fst (um_units m)))" by (simp add: units_ok_def comp_def)
  then show ?thesis by (simp only: distinct_map)
qed

text \<open>A worker may be replaced by one that holds the same jobs, less those answered, and is at the place its events lead to.\<close>

lemma held_adjust:
  "im_get units u = Some w \<Longrightarrow>
   held_bag (im_adjust units u (\<lambda>_. w')) + mset (held_jobs (u, w)) = held_bag units + mset (held_jobs (u, w'))"
  by (induction units) (auto simp: held_bag_def split: if_splits)

lemma im_adjust_const: "im_get units u = Some w \<Longrightarrow> im_adjust units u f = im_adjust units u (\<lambda>_. f w)"
  by (induction units) auto

lemma adjust_keys_map: "map (\<lambda>e. f (fst e)) (im_adjust units u g) = map (\<lambda>e. f (fst e)) units"
  by (induction units u g rule: im_adjust.induct) auto

lemma adjust_keys_all: "list_all (\<lambda>e. P (fst e)) (im_adjust units u g) = list_all (\<lambda>e. P (fst e)) units"
  by (induction units u g rule: im_adjust.induct) auto

lemma adjust_get: "im_get (im_adjust units u f) v = (if v = u then map_option f (im_get units u) else im_get units v)"
  by (induction units u f rule: im_adjust.induct) auto

lemma adjust_all: "list_all P units \<Longrightarrow> P (u, w') \<Longrightarrow> list_all P (im_adjust units u (\<lambda>_. w'))"
  by (induction units) auto

lemma units_get: "list_all (\<lambda>e. P (snd e)) units \<Longrightarrow> im_get units u = Some w \<Longrightarrow> P w"
  by (induction units) (auto split: if_splits)

lemma manager_ok_adjust:
  assumes ok: "manager_ok m" and get: "im_get (um_units m) u = Some w"
    and jobs: "mset (held_jobs (u, w)) + mset new = mset (held_jobs (u, w')) + mset (jobs_answered events)"
    and w': "worker_ok w'" "worker_at w' (stages u (stages u (Some Silent_Unit) (um_events m)) events)"
    and events: "list_all (\<lambda>e. event_unit e = Some u) events"
  shows "manager_ok (m\<lparr>um_units := im_adjust (um_units m) u (\<lambda>_. w'), um_events := um_events m @ events,
    um_admitted := um_admitted m @ new\<rparr>)" (is "manager_ok ?m")
proof -
  let ?adj = "im_adjust (um_units m) u (\<lambda>_. w')"
  have "units_ok ?m"
    using ok by (simp add: manager_ok_def units_ok_def adjust_keys_map
      adjust_keys_all [of "\<lambda>v. unat (uid_incarnation v) < unat (um_incarnation m)"])
  moreover have "jobs_kept ?m"
  proof -
    have bag: "mset (um_admitted m) = mset (jobs_answered (um_events m)) + held_bag (um_units m)"
      using ok by (simp add: manager_ok_def jobs_kept_def)
    have "held_bag ?adj + (mset (held_jobs (u, w')) + mset (jobs_answered events)) = (held_bag ?adj + mset (held_jobs (u, w))) + mset new"
      unfolding jobs [symmetric] by (simp add: ac_simps)
    also have "\<dots> = held_bag (um_units m) + mset (held_jobs (u, w')) + mset new"
      unfolding held_adjust [OF get, of w'] ..
    finally have "held_bag ?adj + mset (jobs_answered events) = held_bag (um_units m) + mset new"
      by (simp add: ac_simps)
    then have "mset (um_admitted m @ new) = mset (jobs_answered (um_events m @ events)) + held_bag ?adj"
      using bag by (simp add: ac_simps)
    then show ?thesis
      using ok get adjust_all [of "\<lambda>e. worker_ok (snd e)", OF _ , of _ u w'] w'(1) by (auto simp: manager_ok_def jobs_kept_def)
  qed
  moreover have "stages_ok ?m"
  proof -
    have old: "unat (uid_incarnation u) < unat (um_incarnation m)"
      using ok map_of_SomeD [OF get] by (fastforce simp: manager_ok_def units_ok_def list_all_iff)
    have "(let st = stages v (Some Silent_Unit) (um_events m @ events) in st \<noteq> None \<and>
       (unat (um_incarnation m) \<le> unat (uid_incarnation v) \<longrightarrow> st = Some Silent_Unit) \<and>
       (case im_get ?adj v of None \<Rightarrow> True | Some w \<Rightarrow> worker_at w st))" for v
    proof (cases "v = u")
      case True
      then show ?thesis using w'(2) worker_at_some [OF w'(2)] old get by (auto simp: Let_def adjust_get)
    next
      case False
      then have "stages v st events = st" for st
        using events by (intro stages_other) (auto simp: list_all_iff)
      then show ?thesis using ok False by (simp add: manager_ok_def stages_ok_def Let_def adjust_get)
    qed
    then show ?thesis by (simp add: stages_ok_def)
  qed
  ultimately show ?thesis by (simp add: manager_ok_def)
qed

lemma manager_get:
  assumes "manager_ok m" "im_get (um_units m) u = Some w"
  shows "worker_ok w" "worker_at w (stages u (Some Silent_Unit) (um_events m))"
  using assms units_get [of worker_ok "um_units m" u w]
  by (auto simp: manager_ok_def jobs_kept_def stages_ok_def Let_def split: option.splits dest: spec [of _ u])

lemma run_worker_ok: "manager_ok m \<Longrightarrow> manager_ok (run_worker u a m)"
proof (cases "im_get (um_units m) u")
  case (Some w)
  assume ok: "manager_ok m"
  obtain w' events where step: "worker_step u a w = (w', events)" by (cases "worker_step u a w")
  note w = manager_get [OF ok Some]
  have "manager_ok (m\<lparr>um_units := im_adjust (um_units m) u (\<lambda>_. w'), um_events := um_events m @ events,
      um_admitted := um_admitted m @ []\<rparr>)"
    using worker_step_jobs [OF step w(1)] worker_step_stage [OF step w] by (intro manager_ok_adjust [OF ok Some]) auto
  then show ?thesis using Some step by (simp add: run_worker_def)
qed (simp add: run_worker_def)

lemma submit_job_ok: "manager_ok m \<Longrightarrow> manager_ok (snd (submit_job u job settings m))"
proof -
  assume ok: "manager_ok m"
  show ?thesis
  proof (cases "im_get (um_units m) u")
    case (Some w)
    note w = manager_get [OF ok Some]
    have "manager_ok (m\<lparr>um_units := im_adjust (um_units m) u (\<lambda>_. on_queue (\<lambda>q. q\<lparr>qu_jobs := qu_jobs q @ [\<lparr>jb_id = job, jb_settings = valid\<rparr>]\<rparr>) w),
        um_events := um_events m @ [], um_admitted := um_admitted m @ [(u, job)]\<rparr>)"
      if "qu_ready (wk_queue w)" "\<not> qu_retiring (wk_queue w)" for valid
      using w that
      by (intro manager_ok_adjust [OF ok Some]; cases "wk_phase w")
        (auto simp: held_jobs_def on_queue_def worker_ok_def worker_at_def Let_def)
    then show ?thesis
      using ok Some im_adjust_const [OF Some, of "on_queue f" for f] by (auto simp: submit_job_def split: sum.split)
  qed (use ok in \<open>auto simp: submit_job_def split: sum.split\<close>)
qed

text \<open>What only closes queues changes nothing that is owed.\<close>

lemma held_map: "(\<And>e. e \<in> set units \<Longrightarrow> held_jobs (f e) = held_jobs e) \<Longrightarrow> held_bag (map f units) = held_bag units"
  unfolding held_bag_def by (metis (no_types, lifting) list.map_comp comp_apply map_cong)

definition closes :: "usb_worker \<Rightarrow> usb_worker \<Rightarrow> bool" where
  "closes w w' \<longleftrightarrow> wk_phase w' = wk_phase w \<and> qu_jobs (wk_queue w') = qu_jobs (wk_queue w) \<and>
     (wk_queue w' = wk_queue w \<or> \<not> qu_ready (wk_queue w') \<and> qu_retiring (wk_queue w'))"

lemma closes_keeps:
  assumes "closes w w'"
  shows "held_jobs (u, w') = held_jobs (u, w)" "worker_ok w \<Longrightarrow> worker_ok w'" "worker_at w st \<Longrightarrow> worker_at w' st"
proof -
  show "held_jobs (u, w') = held_jobs (u, w)" using assms by (simp add: closes_def held_jobs_def)
  show "worker_ok w'" if "worker_ok w"
    using assms that unfolding closes_def worker_ok_def Let_def by (cases "wk_phase w") auto
  show "worker_at w' st" if "worker_at w st"
    using assms that unfolding closes_def worker_at_def Let_def by (cases "wk_phase w") auto
qed

lemma closes_retire: "closes w (on_queue queue_retire w)" "closes w w"
    "closes w (on_queue (\<lambda>q. queue_retire (q\<lparr>qu_unplugged := b\<rparr>)) w)"
  by (simp_all add: closes_def on_queue_def queue_retire_def)

definition each_unit :: "(unit_id \<Rightarrow> usb_worker \<Rightarrow> usb_worker) \<Rightarrow> (unit_id, usb_worker) imap \<Rightarrow> (unit_id, usb_worker) imap" where
  "each_unit f units = map (\<lambda>(u, w). (u, f u w)) units"

lemma each_unit_get: "im_get (each_unit f units) u = map_option (f u) (im_get units u)"
  by (induction units) (auto simp: each_unit_def)

lemma each_unit_keys: "map (\<lambda>e. g (fst e)) (each_unit f units) = map (\<lambda>e. g (fst e)) units"
  by (induction units) (auto simp: each_unit_def)

lemma each_unit_all: "list_all (\<lambda>e. P (fst e)) (each_unit f units) = list_all (\<lambda>e. P (fst e)) units"
  by (induction units) (auto simp: each_unit_def)

lemma manager_ok_closed:
  assumes ok: "manager_ok m" and f: "\<And>u w. closes w (f u w)"
  shows "manager_ok (m\<lparr>um_units := each_unit f (um_units m)\<rparr>)"
proof -
  have "units_ok (m\<lparr>um_units := each_unit f (um_units m)\<rparr>)"
    using ok by (simp add: manager_ok_def units_ok_def each_unit_keys
      each_unit_all [of "\<lambda>v. unat (uid_incarnation v) < unat (um_incarnation m)"])
  moreover have "jobs_kept (m\<lparr>um_units := each_unit f (um_units m)\<rparr>)"
  proof -
    have "held_bag (each_unit f (um_units m)) = held_bag (um_units m)"
      unfolding each_unit_def by (rule held_map) (auto simp: closes_keeps(1) [OF f])
    moreover have "list_all (\<lambda>e. worker_ok (snd e)) (each_unit f units)" if "list_all (\<lambda>e. worker_ok (snd e)) units" for units
      using that closes_keeps(2) [OF f] by (induction units) (auto simp: each_unit_def)
    ultimately show ?thesis using ok by (auto simp: manager_ok_def jobs_kept_def each_unit_def)
  qed
  moreover have "stages_ok (m\<lparr>um_units := each_unit f (um_units m)\<rparr>)"
    using ok closes_keeps(3) [OF f] unfolding manager_ok_def stages_ok_def Let_def
    by (simp add: each_unit_get split: option.splits)
  ultimately show ?thesis by (simp add: manager_ok_def)
qed

lemma manager_ok_fields:
  "manager_ok (m\<lparr>um_stopped := b\<rparr>) = manager_ok m"
  "manager_ok (m\<lparr>um_suppressed := ks\<rparr>) = manager_ok m"
  "manager_ok (m\<lparr>um_errors := es\<rparr>) = manager_ok m"
  by (simp_all add: manager_ok_def units_ok_def jobs_kept_def stages_ok_def outstanding_def)

lemma manager_stop_ok: "manager_ok m \<Longrightarrow> manager_ok (manager_stop m)"
proof -
  assume ok: "manager_ok m"
  have "manager_ok ((m\<lparr>um_stopped := True\<rparr>)\<lparr>um_units := each_unit (\<lambda>_. on_queue queue_retire) (um_units (m\<lparr>um_stopped := True\<rparr>))\<rparr>)"
    by (rule manager_ok_closed) (simp_all add: ok manager_ok_fields closes_retire)
  then show ?thesis by (simp add: manager_stop_def retire_all_def each_unit_def)
qed

lemma held_removed:
  "\<forall>e\<in>set units. fst e = u \<longrightarrow> held_jobs e = [] \<Longrightarrow> held_bag (im_shift_remove units u) = held_bag units"
  by (induction units) (auto simp: held_bag_def im_shift_remove_def)

lemma removed_get: "im_get (im_shift_remove units u) v = (if v = u then None else im_get units v)"
  by (induction units) (auto simp: im_shift_remove_def)

lemma finished_idle: "worker_ok w \<Longrightarrow> is_finished w \<Longrightarrow> held_jobs (u, w) = []"
  by (auto simp: worker_ok_def is_finished_def held_jobs_def phase_jobs_def Let_def split: worker_phase.splits)

lemma distinct_entry: "distinct (map fst units) \<Longrightarrow> (u, w) \<in> set units \<Longrightarrow> im_get units u = Some w"
  by (induction units) (auto simp: rev_image_eqI)

lemma reap_unit_ok:
  assumes ok: "manager_ok m" and e: "im_get (um_units m) u = Some w" "is_finished w"
  shows "manager_ok (reap_unit m (u, w))"
proof -
  have keys: "distinct (map fst (um_units m))" using ok units_distinct by (simp add: manager_ok_def)
  have idle: "\<forall>e\<in>set (um_units m). fst e = u \<longrightarrow> held_jobs e = []"
    using finished_idle [OF manager_get(1) [OF ok e(1)] e(2)] e(1) distinct_entry [OF keys] by fastforce
  let ?m = "m\<lparr>um_units := im_shift_remove (um_units m) u\<rparr>"
  have "units_ok ?m"
    using ok by (auto simp: manager_ok_def units_ok_def im_shift_remove_def list_all_iff distinct_map_filter)
  moreover have "jobs_kept ?m"
    using ok held_removed [OF idle] by (auto simp: manager_ok_def jobs_kept_def im_shift_remove_def list_all_iff)
  moreover have "stages_ok ?m"
    using ok by (auto simp: manager_ok_def stages_ok_def Let_def removed_get)
  ultimately have "manager_ok ?m" by (simp add: manager_ok_def)
  then show ?thesis by (simp add: reap_unit_def manager_ok_fields)
qed

lemma reap_ok:
  assumes "manager_ok m"
  shows "manager_ok (reap m)"
proof -
  have "manager_ok (foldl reap_unit m es)"
    if "manager_ok m" "distinct (map fst es)" "\<forall>(u, w)\<in>set es. im_get (um_units m) u = Some w \<and> is_finished w" for es m
    using that
  proof (induction es arbitrary: m)
    case (Cons e es)
    obtain u w where e: "e = (u, w)" by (cases e)
    have "manager_ok (reap_unit m e)" unfolding e by (rule reap_unit_ok) (use Cons.prems e in auto)
    moreover have "\<forall>(v, x)\<in>set es. im_get (um_units (reap_unit m e)) v = Some x \<and> is_finished x"
      using Cons.prems(2,3) e by (auto simp: reap_unit_def removed_get rev_image_eqI)
    ultimately show ?case using Cons.IH Cons.prems(2) by simp
  qed simp
  moreover have keys: "distinct (map fst (um_units m))" using assms units_distinct by (simp add: manager_ok_def)
  ultimately show ?thesis
    unfolding reap_def using assms distinct_entry [OF keys] by (auto simp: distinct_map_filter)
qed

lemma unplug_each: "map (unplug found) units =
    each_unit (\<lambda>u w. if place_of u \<in> set found then w else on_queue (\<lambda>q. queue_retire (q\<lparr>qu_unplugged := True\<rparr>)) w) units"
  by (simp add: each_unit_def unplug_def cong: map_cong)

lemma inserted_fresh: "u \<notin> fst ` set units \<Longrightarrow> im_insert units u w = units @ [(u, w)]"
  by (induction units) auto

text \<open>A new unit has the number the registry gives out next.\<close>

lemma appended_get: "u \<notin> fst ` set units \<Longrightarrow> im_get (units @ [(u, w)]) v = (if v = u then Some w else im_get units v)"
  by (induction units) auto

lemma start_unit_ok:
  assumes ok: "manager_ok m" and place: "\<not> list_ex (\<lambda>v. place_of v = place_of u) (im_keys (um_units m))"
    and num: "uid_incarnation u = um_incarnation m" "checked_add (um_incarnation m) 1 = Some next"
    and open_phase: "um_phase m \<noteq> Closed"
  shows "manager_ok (start_unit spawn u (m\<lparr>um_incarnation := next\<rparr>))"
proof -
  have later: "unat (um_incarnation m) < unat next" using unat_checked_add [OF num(2)] by simp
  have older: "\<forall>e\<in>set (um_units m). unat (uid_incarnation (fst e)) < unat (um_incarnation m)"
    using ok by (auto simp: manager_ok_def units_ok_def list_all_iff)
  then have fresh: "u \<notin> fst ` set (um_units m)" using num(1) by fastforce
  have silent: "stages u (Some Silent_Unit) (um_events m) = Some Silent_Unit"
    using ok num(1) by (auto simp: manager_ok_def stages_ok_def Let_def)
  have stage: "stages v (Some Silent_Unit) (um_events m) \<noteq> None \<and>
      (unat next \<le> unat (uid_incarnation v) \<longrightarrow> stages v (Some Silent_Unit) (um_events m) = Some Silent_Unit) \<and>
      (case im_get (um_units m) v of None \<Rightarrow> True | Some w \<Rightarrow> worker_at w (stages v (Some Silent_Unit) (um_events m)))" for v
    using ok later by (auto simp: manager_ok_def stages_ok_def Let_def)
  show ?thesis
  proof (cases "spawn u")
    case None
    let ?m = "m\<lparr>um_incarnation := next, um_units := um_units m @ [(u, \<lparr>wk_queue = queue_default, wk_phase = Starting\<rparr>)]\<rparr>"
    have "units_ok ?m"
      using ok place older later num(1)
      by (fastforce simp: manager_ok_def units_ok_def list_all_iff list_ex_iff im_keys_def)
    moreover have "jobs_kept ?m"
      using ok open_phase
      by (auto simp: manager_ok_def jobs_kept_def held_bag_def held_jobs_def phase_jobs_def worker_ok_def queue_default_def)
    moreover have "stages_ok ?m"
      using stage silent appended_get [OF fresh]
      by (simp add: stages_ok_def Let_def worker_at_def queue_default_def del: map_of_append)
    ultimately show ?thesis using None fresh by (simp add: start_unit_def inserted_fresh manager_ok_def)
  next
    case (Some e)
    let ?m = "m\<lparr>um_incarnation := next, um_events := um_events m @ [UsbError (Some u) e]\<rparr>"
    have "stage_step v (stages v (Some Silent_Unit) (um_events m)) (UsbError (Some u) e) = stages v (Some Silent_Unit) (um_events m)" for v
      using silent by (cases "v = u") (simp_all add: stage_step_def event_unit_def)
    then have "stages_ok ?m" using stage by (simp add: stages_ok_def Let_def)
    moreover have "units_ok ?m" using ok older later by (fastforce simp: manager_ok_def units_ok_def list_all_iff)
    moreover have "jobs_kept ?m" using ok by (auto simp: manager_ok_def jobs_kept_def)
    ultimately show ?thesis using Some by (simp add: start_unit_def manager_ok_def)
  qed
qed

lemma start_units_ok: "manager_ok m \<Longrightarrow> um_phase m \<noteq> Closed \<Longrightarrow> manager_ok (start_units spawn found m)"
proof (induction spawn found m rule: start_units.induct)
  case (1 spawn m)
  then show ?case by simp
next
  case (2 spawn p bus address found m)
  let ?u = "\<lparr>uid_profile = p, uid_bus = bus, uid_address = address, uid_incarnation = um_incarnation m\<rparr>"
  show ?case
  proof (cases "(p, bus, address) \<in> set (um_suppressed m) \<or> list_ex (\<lambda>u. place_of u = (p, bus, address)) (im_keys (um_units m))")
    case True
    then show ?thesis using 2 by simp
  next
    case False
    show ?thesis
    proof (cases "checked_add (um_incarnation m) 1")
      case None
      then show ?thesis using 2(3) False by (simp add: manager_ok_fields)
    next
      case (Some nx)
      have "manager_ok (start_unit spawn ?u (m\<lparr>um_incarnation := nx\<rparr>))"
        by (rule start_unit_ok) (use 2(3,4) False Some in \<open>simp_all add: place_of_def\<close>)
      then show ?thesis
        using 2(2) [OF False Some] 2(4) False Some by (simp add: start_unit_def split: option.splits)
    qed
  qed
qed

lemma scan_step_ok:
  assumes "manager_ok m" "um_phase m \<noteq> Closed"
  shows "manager_ok (scan_step result spawn m)"
proof -
  have event: "manager_ok (m\<lparr>um_events := um_events m @ [UsbError None e]\<rparr>)" for e
    using assms(1) by (auto simp: manager_ok_def units_ok_def jobs_kept_def stages_ok_def Let_def stage_step_def event_unit_def)
  have "manager_ok (m\<lparr>um_suppressed := ks, um_units := map (unplug found) (um_units m)\<rparr>)" for ks found
    using manager_ok_closed [of "m\<lparr>um_suppressed := ks\<rparr>"] assms(1) unfolding unplug_each
    by (simp add: manager_ok_fields closes_retire)
  then show ?thesis
    using event assms by (auto simp: scan_step_def admit_found_def Let_def intro!: start_units_ok split: option.split sum.split)
qed

lemma phase_ok: "manager_ok m \<Longrightarrow> p \<noteq> Closed \<or> um_units m = [] \<Longrightarrow> manager_ok (m\<lparr>um_phase := p\<rparr>)"
  by (auto simp: manager_ok_def units_ok_def jobs_kept_def stages_ok_def)

lemma joined_ok:
  assumes "manager_ok m" "list_all (\<lambda>(u, w). is_finished w) (um_units m)"
  shows "manager_ok (m\<lparr>um_units := [], um_phase := Closed\<rparr>)"
proof -
  have "held_jobs e = []" if "e \<in> set (um_units m)" for e
    using assms that finished_idle [of "snd e" "fst e"] by (force simp: manager_ok_def jobs_kept_def list_all_iff)
  then have "held_bag (um_units m) = {#}" by (auto simp: held_bag_def)
  then show ?thesis
    using assms(1) by (auto simp: manager_ok_def units_ok_def jobs_kept_def stages_ok_def Let_def held_bag_def)
qed

lemma manager_step_ok: "manager_ok m \<Longrightarrow> manager_ok (manager_step i m)"
proof (cases i)
  case (DiscoveryStep result spawn stop)
  assume ok: "manager_ok m"
  show ?thesis
    using ok reap_ok [OF ok] manager_stop_ok [OF ok] scan_step_ok [OF ok] joined_ok [OF ok]
    by (cases "um_phase m") (auto simp: DiscoveryStep manager_step_def discovery_step_def Let_def intro: phase_ok)
qed (auto simp: manager_step_def submit_job_ok manager_stop_ok run_worker_ok)

lemma manager_run_ok: "manager_ok (manager_run inputs)"
proof -
  have start: "manager_ok manager_start"
    by (simp add: manager_ok_def units_ok_def jobs_kept_def stages_ok_def manager_start_def held_bag_def)
  have "manager_ok (foldl (\<lambda>m i. manager_step i m) m inputs)" if "manager_ok m" for m
    using that by (induction inputs arbitrary: m) (simp_all add: manager_step_ok)
  then show ?thesis using start by (simp add: manager_run_def)
qed

text \<open>
  C6. However clients, devices, workers and discovery interleave: the jobs that were accepted are, counted with
  repetitions, those answered by an event and those a worker still holds, so that none is lost and none is answered
  twice; and when the discovery has closed every job has been answered.
\<close>

theorem usb_jobs_answered_once:
  "case manager_run inputs of m \<Rightarrow> mset (um_admitted m) = mset (jobs_answered (um_events m) @ outstanding m) \<and>
     (if um_phase m = Closed then outstanding m = [] else True)"
  using manager_run_ok [of inputs]
  by (auto simp: manager_ok_def jobs_kept_def outstanding_def held_bag_def)

text \<open>
  C8. The events of every unit follow its protocol: errors at most before it is connected; then polls, answers and errors; then
  one retirement, and after it nothing.
\<close>

theorem usb_events_in_order: "stages u (Some Silent_Unit) (um_events (manager_run inputs)) \<noteq> None"
  using manager_run_ok [of inputs] by (auto simp: manager_ok_def stages_ok_def Let_def)

text \<open>
  No two units of the registry are at the same place of the bus, and every unit has a number below the one given out next: a
  device that is plugged in again is another unit, whose jobs and events are never taken for those of the old one.
\<close>

lemma usb_units_distinct:
  "case manager_run inputs of m \<Rightarrow> distinct (map (\<lambda>e. place_of (fst e)) (um_units m)) \<and>
     list_all (\<lambda>e. unat (uid_incarnation (fst e)) < unat (um_incarnation m)) (um_units m)"
  using manager_run_ok [of inputs] by (simp add: manager_ok_def units_ok_def)

end
