(* ===== verification/Recovery.thy ===== *)
theory Recovery
  imports Health_Parse Step
begin

text \<open>
  The remedies of \<^verbatim>\<open>crates/openwave-runtime/src/recovery.rs\<close>: a sound card is switched off and on again, a sink is
  suspended and resumed, and what has been disturbed is owed until it has been put back. The host is an
  oracle: programs and files answer depending on all calls made so far, the newest first, the call itself
  included, and the flag that cancels may be set at any time. An answer of a program is given by its text, if it is
  Unicode, and by what serde\_json makes of it. The length of a wait is not modelled.
\<close>

subsection \<open>The host\<close>

datatype host_call =
    RunProgram string "string list" duration bool
  | AskCancelled
  | WaitFor duration
  | ReadClock
  | ReadAges
  | ReadStatus string

record program_output =
  po_text :: "string option"
  po_json :: "string + json"

record host =
  host_output :: "host_call list \<Rightarrow> program_output res"
  host_cancelled :: "host_call list \<Rightarrow> bool"
  host_time :: "host_call list \<Rightarrow> duration"
  host_ages :: "host_call list \<Rightarrow> (node_identity, duration) imap"
  host_status :: "host_call list \<Rightarrow> string res"

text \<open>What is owed: the card with the profile it had, or the sink.\<close>

record card_target =
  ct_name :: string
  ct_index :: string
  ct_identity :: node_identity
  ct_profile :: string

datatype obligation = OwesCard card_target | OwesSink string node_identity

record monitor =
  mn_host :: host
  mn_calls :: "host_call list"
  mn_owed :: "obligation option"
  mn_watch :: health_watch

type_synonym 'a hact = "(monitor, 'a) act"

definition host_ask :: "host_call \<Rightarrow> (host \<Rightarrow> host_call list \<Rightarrow> 'a) \<Rightarrow> 'a hact" where
  "host_ask c answer = ask (\<lambda>s. bnd (upd (\<lambda>s. s\<lparr>mn_calls := c # mn_calls s\<rparr>)) (\<lambda>_.
     ret (answer (mn_host s) (c # mn_calls s))))"

definition run_program :: "string \<Rightarrow> string list \<Rightarrow> duration \<Rightarrow> bool \<Rightarrow> program_output res hact" where
  "run_program program args timeout restoration = host_ask (RunProgram program args timeout restoration) host_output"

definition cancelled :: "bool hact" where
  "cancelled = host_ask AskCancelled host_cancelled"

definition wait_for :: "duration \<Rightarrow> unit hact" where
  "wait_for d = host_ask (WaitFor d) (\<lambda>_ _. ())"

definition COMMAND_TIMEOUT :: duration where "COMMAND_TIMEOUT = from_secs 5"

definition check_cancel :: "unit res hact" where
  "check_cancel = bnd cancelled (\<lambda>c.
     if c then fail_with (error_new Cancelled ''Health collection cancelled'') else ret (Inr ()))"

definition json_command :: "string \<Rightarrow> string list \<Rightarrow> bool \<Rightarrow> json res hact" where
  "json_command program args restoration =
     attempt (run_program program args COMMAND_TIMEOUT restoration) (\<lambda>out.
       case po_json out of
         Inl e \<Rightarrow> fail_with (error_unavailable (''Invalid '' @ program @ '' JSON: '' @ e))
       | Inr v \<Rightarrow> ret (Inr v))"

subsection \<open>Reading the sound servers\<close>

definition card_listing :: "string \<Rightarrow> bool \<Rightarrow> json list res hact" where
  "card_listing kind restoration =
     attempt (json_command ''pactl'' [''--format=json'', ''list'', kind] restoration) (\<lambda>v.
     case as_array v of
       None \<Rightarrow> fail_with (error_unavailable ''Invalid Pulse listing'')
     | Some entries \<Rightarrow>
         guard_ok (list_all (\<lambda>e. as_object e \<noteq> None) entries) (error_unavailable ''Invalid Pulse listing entry'')
           (ret (Inr entries)))"

definition target_error :: operation_error where
  "target_error = error_new Identity ''Recovery target is absent, ambiguous or has changed identity''"

definition scalar_text :: "json \<Rightarrow> string option" where
  "scalar_text v = (case Option.bind (as_str v) (\<lambda>s. if s = [] then None else Some s) of
       Some s \<Rightarrow> Some s
     | None \<Rightarrow> map_option (\<lambda>n. show_nat (unat n)) (as_u64 v))"

text \<open>\<^verbatim>\<open>value.pointer(path)\<close> for a path of names\<close>

definition json_pointer :: "json \<Rightarrow> string list \<Rightarrow> json option" where
  "json_pointer v path = foldl (\<lambda>found key. Option.bind found (\<lambda>x. jget x key)) (Some v) path"

definition the_only :: "'a list \<Rightarrow> 'a res" where
  "the_only xs = (case xs of [x] \<Rightarrow> Inr x | _ \<Rightarrow> Inl target_error)"

definition unique_entry :: "json list \<Rightarrow> string \<Rightarrow> string \<Rightarrow> json res" where
  "unique_entry entries key value =
     the_only (filter (\<lambda>e. Option.bind (jget e key) scalar_text = Some value) entries)"

definition read_graph :: "bool \<Rightarrow> json res hact" where
  "read_graph restoration = attempt (json_command ''pw-dump'' [] restoration) (\<lambda>v.
     try_pure (parse_health_graph v) (\<lambda>_. ret (Inr v)))"

definition target_identity :: "json \<Rightarrow> string \<Rightarrow> string \<Rightarrow> string \<Rightarrow> node_identity res" where
  "target_identity graph kind name_key name =
     rbind (ok_or target_error (as_array graph)) (\<lambda>entries.
     rbind (ok_or target_error (find (\<lambda>e. Option.bind (jget e ''type'') as_str = Some ''PipeWire:Interface:Core'') entries)) (\<lambda>core.
     rbind (ok_or target_error
         (Option.bind (Option.bind (json_pointer core [''info'', ''cookie'']) scalar_text) parse_u32)) (\<lambda>cookie.
     rbind (the_only (filter (\<lambda>e. Option.bind (jget e ''type'') as_str = Some kind \<and>
         Option.bind (Option.bind (json_pointer e [''info'', ''props'']) (\<lambda>p. jget p name_key)) as_str = Some name) entries)) (\<lambda>e.
     rbind (ok_or target_error (Option.bind (json_pointer e [''info'', ''props'']) as_object)) (\<lambda>props.
     rbind (ok_or target_error (case im_get props ''object.serial'' of
         Some v \<Rightarrow> scalar_text v
       | None \<Rightarrow> Option.bind (jget e ''id'') scalar_text)) (\<lambda>serial.
       Inr \<lparr>server_cookie = cookie, object_serial = serial\<rparr>))))))"

definition validate_node :: "string \<Rightarrow> node_identity \<Rightarrow> bool \<Rightarrow> json res hact" where
  "validate_node name ident restoration = attempt (read_graph restoration) (\<lambda>graph.
     try_pure (target_identity graph ''PipeWire:Interface:Node'' ''node.name'' name) (\<lambda>found.
       guard_ok (found = ident) target_error (ret (Inr graph))))"

definition serial_of :: "json \<Rightarrow> string option" where
  "serial_of e = Option.bind (json_pointer e [''properties'', ''object.serial'']) scalar_text"

definition validate_sink :: "string \<Rightarrow> node_identity \<Rightarrow> bool \<Rightarrow> unit res hact" where
  "validate_sink name ident restoration =
     attempt (validate_node name ident restoration) (\<lambda>_.
     attempt (card_listing ''sinks'' restoration) (\<lambda>sinks.
     try_pure (unique_entry sinks ''name'' name) (\<lambda>sink.
       guard_ok (serial_of sink = Some (object_serial ident)) target_error (ret (Inr ())))))"

definition node_listing :: "string \<Rightarrow> string option" where
  "node_listing name = (if starts_with ''alsa_input.'' name then Some ''sources''
     else if starts_with ''alsa_output.'' name then Some ''sinks'' else None)"

definition active_profile :: "json \<Rightarrow> string option" where
  "active_profile entry =
     Option.bind (Option.bind (jget entry ''active_profile'') (\<lambda>v. case as_str v of
         Some s \<Rightarrow> Some s
       | None \<Rightarrow> Option.bind (jget v ''name'') as_str))
       (\<lambda>s. if s \<noteq> [] \<and> s \<noteq> ''off'' then Some s else None)"

definition resolve_card :: "string \<Rightarrow> node_identity \<Rightarrow> card_target res hact" where
  "resolve_card name ident =
     try_pure (ok_or target_error (node_listing name)) (\<lambda>kind.
     attempt (validate_node name ident False) (\<lambda>graph.
     attempt (card_listing kind False) (\<lambda>nodes.
     try_pure (unique_entry nodes ''name'' name) (\<lambda>node.
     guard_ok (serial_of node = Some (object_serial ident)) target_error (
     try_pure (ok_or target_error (Option.bind (jget node ''card'') scalar_text)) (\<lambda>index.
     attempt (card_listing ''cards'' False) (\<lambda>cards.
     try_pure (unique_entry cards ''index'' index) (\<lambda>card.
     try_pure (ok_or target_error (Option.bind (Option.bind (jget card ''name'') as_str)
         (\<lambda>s. if s = [] then None else Some s))) (\<lambda>card_name.
     try_pure (unique_entry cards ''name'' card_name) (\<lambda>_.
     try_pure (ok_or (error_unavailable ''Card has no active profile to restore'') (active_profile card)) (\<lambda>profile.
     try_pure (target_identity graph ''PipeWire:Interface:Device'' ''device.name'' card_name) (\<lambda>card_ident.
       ret (Inr \<lparr>ct_name = card_name, ct_index = index, ct_identity = card_ident, ct_profile = profile\<rparr>)))))))))))))"

subsection \<open>Restoring\<close>

definition pactl :: "string list \<Rightarrow> bool \<Rightarrow> unit res hact" where
  "pactl args restoration = attempt (run_program ''pactl'' args COMMAND_TIMEOUT restoration) (\<lambda>_. ret (Inr ()))"

definition restore_card :: "card_target \<Rightarrow> unit res hact" where
  "restore_card target = attempt (read_graph True) (\<lambda>graph.
     try_pure (target_identity graph ''PipeWire:Interface:Device'' ''device.name'' (ct_name target)) (\<lambda>found.
     guard_ok (found = ct_identity target) target_error (
     attempt (card_listing ''cards'' True) (\<lambda>cards.
     try_pure (unique_entry cards ''name'' (ct_name target)) (\<lambda>card.
     guard_ok (Option.bind (jget card ''index'') scalar_text = Some (ct_index target)) target_error
       (pactl [''set-card-profile'', ct_name target, ct_profile target] True))))))"

definition resume_sink :: "string \<Rightarrow> node_identity \<Rightarrow> unit res hact" where
  "resume_sink name ident = attempt (validate_sink name ident True) (\<lambda>_. pactl [''suspend-sink'', name, ''0''] True)"

definition finish_recovery :: "unit res \<Rightarrow> unit res \<Rightarrow> unit res" where
  "finish_recovery changed restored = (case (changed, restored) of
       (Inr _, Inr _) \<Rightarrow> Inr ()
     | (Inl e, Inr _) \<Rightarrow> Inl e
     | (Inr _, Inl e) \<Rightarrow> Inl (error_unavailable (''Audio restoration failed: '' @ err_message e))
     | (Inl e, Inl r) \<Rightarrow> Inl (error_unavailable (err_message e @ ''; audio restoration failed: '' @ err_message r)))"

definition restore_owed :: "unit res hact" where
  "restore_owed = ask (\<lambda>s. case mn_owed s of
       None \<Rightarrow> ret (Inr ())
     | Some owed \<Rightarrow>
         bnd (case owed of OwesCard target \<Rightarrow> restore_card target | OwesSink name ident \<Rightarrow> resume_sink name ident) (\<lambda>r.
         case r of
           Inl e \<Rightarrow> fail_with (error_unavailable (''Audio restoration remains owed: '' @ err_message e))
         | Inr _ \<Rightarrow> bnd (upd (\<lambda>s. s\<lparr>mn_owed := None\<rparr>)) (\<lambda>_. ret (Inr ()))))"

definition require_clear :: "unit res hact" where
  "require_clear = ask (\<lambda>s. guard_ok (mn_owed s = None)
     (error_unavailable ''Cannot begin recovery while audio restoration remains owed'') (ret (Inr ())))"

subsection \<open>The remedies\<close>

definition cycle_card :: "string \<Rightarrow> node_identity \<Rightarrow> unit res hact" where
  "cycle_card name ident =
     attempt require_clear (\<lambda>_.
     attempt check_cancel (\<lambda>_.
     attempt (resolve_card name ident) (\<lambda>target.
     attempt (resolve_card name ident) (\<lambda>again.
     guard_ok (again = target) target_error (
     attempt check_cancel (\<lambda>_.
     bnd (upd (\<lambda>s. s\<lparr>mn_owed := Some (OwesCard target)\<rparr>)) (\<lambda>_.
     bnd (pactl [''set-card-profile'', ct_name target, ''off''] False) (\<lambda>changed.
     bnd restore_owed (\<lambda>restored.
       ret (finish_recovery changed restored))))))))))"

definition recycle_sink :: "string \<Rightarrow> node_identity \<Rightarrow> unit res hact" where
  "recycle_sink name ident =
     attempt require_clear (\<lambda>_.
     guard_ok (starts_with ''alsa_output.'' name) target_error (
     attempt check_cancel (\<lambda>_.
     attempt (validate_sink name ident False) (\<lambda>_.
     attempt check_cancel (\<lambda>_.
     bnd (upd (\<lambda>s. s\<lparr>mn_owed := Some (OwesSink name ident)\<rparr>)) (\<lambda>_.
     bnd (pactl [''suspend-sink'', name, ''1''] False) (\<lambda>changed.
     bnd (only_if (is_ok changed) (wait_for (from_secs 1))) (\<lambda>_.
     bnd restore_owed (\<lambda>restored.
       ret (finish_recovery changed restored))))))))))"

subsection \<open>What is disturbed\<close>

datatype disturbance = CardOff string | SinkSuspended string

text \<open>The effect of a call: whether it disturbs or puts back, and what.\<close>

definition effect_of :: "host_call \<Rightarrow> (bool \<times> disturbance) option" where
  "effect_of c = (case c of
       RunProgram program [verb, name, arg] t restoration \<Rightarrow>
         if program \<noteq> ''pactl'' then None
         else if verb = ''set-card-profile'' then Some (arg = ''off'', CardOff name)
         else if verb = ''suspend-sink'' then Some (arg \<noteq> ''0'', SinkSuspended name)
         else None
     | _ \<Rightarrow> None)"

definition effects :: "host_call list \<Rightarrow> host_call list" where
  "effects calls = filter (\<lambda>c. effect_of c \<noteq> None) calls"

text \<open>
  What is disturbed after some calls. A call that disturbs may have done so even if it failed; only one
  that succeeded has put back.
\<close>

fun disturbed :: "host \<Rightarrow> host_call list \<Rightarrow> disturbance list" where
  "disturbed h [] = []"
| "disturbed h (c # calls) = (case effect_of c of
       Some (True, d) \<Rightarrow> d # disturbed h calls
     | Some (False, d) \<Rightarrow> if is_ok (host_output h (c # calls)) then removeAll d (disturbed h calls) else disturbed h calls
     | None \<Rightarrow> disturbed h calls)"

definition owed_disturbance :: "obligation option \<Rightarrow> disturbance list" where
  "owed_disturbance owed = (case owed of
       None \<Rightarrow> []
     | Some (OwesCard target) \<Rightarrow> [CardOff (ct_name target)]
     | Some (OwesSink name ident) \<Rightarrow> [SinkSuspended name])"

text \<open>Exactly what is disturbed is owed, and a card is not owed the profile that disturbs it.\<close>

definition accounted :: "monitor \<Rightarrow> bool" where
  "accounted s \<longleftrightarrow> disturbed (mn_host s) (mn_calls s) = owed_disturbance (mn_owed s) \<and>
     (case mn_owed s of Some (OwesCard target) \<Rightarrow> ct_profile target \<noteq> ''off'' | _ \<Rightarrow> True)"

text \<open>Calls that only read.\<close>

definition plain :: "host_call \<Rightarrow> bool" where
  "plain c \<longleftrightarrow> effect_of c = None \<and> c \<noteq> ReadClock"

definition only_reads :: "monitor \<Rightarrow> monitor \<Rightarrow> bool" where
  "only_reads s t \<longleftrightarrow> mn_host t = mn_host s \<and> mn_owed t = mn_owed s \<and> mn_watch t = mn_watch s \<and>
     (\<exists>cs. mn_calls t = cs @ mn_calls s \<and> list_all plain cs)"

lemma effect_simps [simp]:
  "effect_of (RunProgram ''pactl'' [''set-card-profile'', name, p] t u) = Some (p = ''off'', CardOff name)"
  "effect_of (RunProgram ''pactl'' [''suspend-sink'', name, p] t u) = Some (p \<noteq> ''0'', SinkSuspended name)"
  "effect_of AskCancelled = None" "effect_of (WaitFor d) = None" "effect_of ReadClock = None"
  "effect_of ReadAges = None" "effect_of (ReadStatus p) = None"
  by (simp_all add: effect_of_def)

lemma disturbed_plain: "list_all plain cs \<Longrightarrow> disturbed h (cs @ calls) = disturbed h calls"
  by (induction cs) (auto simp: plain_def)

interpretation quietly: evolution only_reads
proof unfold_locales
  show "only_reads s t \<Longrightarrow> only_reads t u \<Longrightarrow> only_reads s u" for s t u
    unfolding only_reads_def by (metis (no_types, lifting) append.assoc list_all_append)
qed (simp add: only_reads_def)

lemma quiet_ask: "plain c \<Longrightarrow> along only_reads (host_ask c answer)"
  by (auto simp: along_def only_reads_def host_ask_def bnd_app)

lemma plain_simps [simp]:
  "plain AskCancelled" "plain (WaitFor d)" "plain ReadAges" "plain (ReadStatus p)"
  "plain (RunProgram ''pw-dump'' args t u)" "plain (RunProgram ''pw-top'' args t u)"
  "plain (RunProgram ''pactl'' [''--format=json'', verb, kind] t u)"
  by (auto simp: plain_def effect_of_def split: list.splits)

lemmas quiet_basic = quietly.along_intros quiet_ask [OF plain_simps(1)] quiet_ask [OF plain_simps(2)]
  quiet_ask [OF plain_simps(3)] quiet_ask [OF plain_simps(4)]

lemma quiet_read:
  "along only_reads (read_graph u)" "along only_reads (card_listing kind u)" "along only_reads check_cancel"
  "along only_reads (json_command ''pw-dump'' args u)" "along only_reads (json_command ''pactl'' [''--format=json'', verb, kind] u)"
  unfolding read_graph_def card_listing_def json_command_def run_program_def check_cancel_def cancelled_def
  by (auto intro!: quiet_basic quiet_ask split: option.splits)

lemma quiet_validate:
  "along only_reads (validate_node name ident u)" "along only_reads (validate_sink name ident u)"
  unfolding validate_sink_def validate_node_def by (intro quiet_basic quiet_read)+

lemma quiet_resolve: "along only_reads (resolve_card name ident)"
  unfolding resolve_card_def by (intro quiet_basic quiet_read quiet_validate)

lemma quiet_settled: "only_reads s t \<Longrightarrow> accounted s \<Longrightarrow> accounted t"
  by (auto simp: only_reads_def accounted_def disturbed_plain)

subsection \<open>What restoring does\<close>

definition issues :: "string list \<Rightarrow> bool \<Rightarrow> monitor \<Rightarrow> unit res \<times> monitor \<Rightarrow> bool" where
  "issues args restoration s result \<longleftrightarrow> (case result of (r, t) \<Rightarrow>
     (\<not> is_ok r \<and> only_reads s t) \<or>
     (\<exists>u. only_reads s u \<and> t = u\<lparr>mn_calls := RunProgram ''pactl'' args COMMAND_TIMEOUT restoration # mn_calls u\<rparr> \<and>
        is_ok r = is_ok (host_output (mn_host t) (mn_calls t))))"

lemma quiet_refl: "only_reads s s"
  by (rule quietly.same)

lemma quiet_trans: "only_reads s t \<Longrightarrow> only_reads t u \<Longrightarrow> only_reads s u"
  by (rule quietly.step_trans)

lemma issues_pactl: "issues args b s (pactl args b s)"
  by (auto simp: issues_def pactl_def run_program_def host_ask_def act_apps is_ok_def split: sum.splits intro: exI [of _ s] quiet_refl)

lemma issues_later: "only_reads s t \<Longrightarrow> issues args b t result \<Longrightarrow> issues args b s result"
  by (auto simp: issues_def intro: quiet_trans)

lemma issues_attempt:
  "along only_reads m \<Longrightarrow> (\<And>x t. issues args b t (k x t)) \<Longrightarrow> issues args b s (attempt m k s)"
proof (cases "fst (m s)")
  case (Inl e)
  assume "along only_reads m"
  then have "only_reads s (snd (m s))" by (rule alongD)
  then show ?thesis using Inl by (simp add: attempt_app issues_def is_ok_def)
next
  case (Inr x)
  assume "along only_reads m" and k: "\<And>x t. issues args b t (k x t)"
  from alongD [OF this(1)] k have "issues args b s (k x (snd (m s)))" by (rule issues_later)
  then show ?thesis using Inr by (simp add: attempt_app)
qed

lemma issues_try: "(\<And>x. issues args b s (k x s)) \<Longrightarrow> issues args b s (try_pure r k s)"
  by (cases r) (auto simp: issues_def is_ok_def quiet_refl)

lemma issues_guard: "issues args b s (m s) \<Longrightarrow> issues args b s (guard_ok p e m s)"
  by (cases p) (auto simp: issues_def is_ok_def quiet_refl)

lemmas issues_intros = issues_attempt issues_try issues_guard issues_pactl quiet_read quiet_validate

text \<open>The call that restores what is owed.\<close>

fun undo_args :: "obligation \<Rightarrow> string list" where
  "undo_args (OwesCard target) = [''set-card-profile'', ct_name target, ct_profile target]"
| "undo_args (OwesSink name ident) = [''suspend-sink'', name, ''0'']"

lemma issues_restore:
  "issues (undo_args owed) True s ((case owed of OwesCard target \<Rightarrow> restore_card target | OwesSink name ident \<Rightarrow> resume_sink name ident) s)"
proof (cases owed)
  case (OwesCard target)
  have "issues (undo_args owed) True s (restore_card target s)"
    unfolding OwesCard restore_card_def undo_args.simps by (intro issues_intros)
  then show ?thesis using OwesCard by simp
next
  case (OwesSink name ident)
  have "issues (undo_args owed) True s (resume_sink name ident s)"
    unfolding OwesSink resume_sink_def undo_args.simps by (intro issues_intros)
  then show ?thesis using OwesSink by simp
qed

text \<open>Restoring fails, then everything stays owed; or the restoring call has succeeded, then nothing is.\<close>

lemma restore_owed_cases:
  assumes "restore_owed s = (r, t)"
  obtains (clear) "mn_owed s = None" "is_ok r" "t = s"
  | (kept) owed where "mn_owed s = Some owed" "\<not> is_ok r" "only_reads s t"
  | (failed) owed u where "mn_owed s = Some owed" "\<not> is_ok r" "only_reads s u"
      "t = u\<lparr>mn_calls := RunProgram ''pactl'' (undo_args owed) COMMAND_TIMEOUT True # mn_calls u\<rparr>"
      "\<not> is_ok (host_output (mn_host t) (mn_calls t))"
  | (restored) owed u where "mn_owed s = Some owed" "is_ok r" "only_reads s u"
      "t = u\<lparr>mn_calls := RunProgram ''pactl'' (undo_args owed) COMMAND_TIMEOUT True # mn_calls u, mn_owed := None\<rparr>"
      "is_ok (host_output (mn_host t) (mn_calls t))"
proof (cases "mn_owed s")
  case None
  then have "r = Inr () \<and> t = s" using assms by (simp add: restore_owed_def)
  then show ?thesis using clear [OF None] by (simp add: is_ok_def)
next
  case (Some owed)
  let ?m = "case owed of OwesCard target \<Rightarrow> restore_card target | OwesSink name ident \<Rightarrow> resume_sink name ident"
  obtain q v where m: "?m s = (q, v)" by fastforce
  have i: "issues (undo_args owed) True s (q, v)" using issues_restore [of owed s] m by simp
  have t: "is_ok r = is_ok q \<and> t = (if is_ok q then v\<lparr>mn_owed := None\<rparr> else v)"
    using assms Some m by (auto simp: restore_owed_def bnd_app is_ok_def split: sum.splits)
  consider "\<not> is_ok q" "only_reads s v"
    | u where "only_reads s u" "v = u\<lparr>mn_calls := RunProgram ''pactl'' (undo_args owed) COMMAND_TIMEOUT True # mn_calls u\<rparr>"
        "is_ok q = is_ok (host_output (mn_host v) (mn_calls v))"
    using i unfolding issues_def prod.case by blast
  then show ?thesis
  proof cases
    case 1
    show ?thesis by (rule kept [OF Some]) (use t 1 in simp_all)
  next
    case 2
    show ?thesis
    proof (cases "is_ok q")
      case True
      show ?thesis by (rule restored [OF Some _ 2(1)]) (use t 2 True in simp_all)
    next
      case False
      show ?thesis by (rule failed [OF Some _ 2(1)]) (use t 2 False in simp_all)
    qed
  qed
qed

lemma restore_owed_settled:
  assumes "accounted s" and "restore_owed s = (r, t)"
  shows "accounted t \<and> (is_ok r \<longleftrightarrow> mn_owed t = None) \<and> mn_watch t = mn_watch s"
  using assms(2)
proof (cases rule: restore_owed_cases)
  case clear
  then show ?thesis using assms(1) by simp
next
  case (kept owed)
  then show ?thesis using quiet_settled [OF _ assms(1)] by (auto simp: only_reads_def)
next
  case (failed owed u)
  then have "accounted u" using quiet_settled assms(1) by blast
  then show ?thesis using failed
    by (cases owed) (auto simp: accounted_def only_reads_def)
next
  case (restored owed u)
  then have "accounted u" using quiet_settled assms(1) by blast
  then show ?thesis using restored
    by (cases owed) (auto simp: accounted_def only_reads_def owed_disturbance_def)
qed

subsection \<open>What a remedy does\<close>

text \<open>A remedy that is carried out: the obligation is taken on, the call is made, and then it is restored.\<close>

definition carried_out :: "obligation \<Rightarrow> string list \<Rightarrow> monitor \<Rightarrow> unit res \<times> monitor \<Rightarrow> bool" where
  "carried_out owed args s result \<longleftrightarrow> (case result of (r, t) \<Rightarrow>
     (let call = RunProgram ''pactl'' args COMMAND_TIMEOUT False;
          s1 = s\<lparr>mn_owed := Some owed, mn_calls := call # mn_calls s\<rparr>
      in \<exists>u q. only_reads s1 u \<and> restore_owed u = (q, t) \<and> is_ok r = (is_ok (host_output (mn_host s) (call # mn_calls s)) \<and> is_ok q)))"

lemma finish_ok [simp]: "is_ok (finish_recovery a b) \<longleftrightarrow> is_ok a \<and> is_ok b"
  by (simp add: finish_recovery_def is_ok_def split: sum.splits)

lemma pactl_app:
  "pactl args b s = (let call = RunProgram ''pactl'' args COMMAND_TIMEOUT b;
     t = s\<lparr>mn_calls := call # mn_calls s\<rparr>
   in (case host_output (mn_host s) (call # mn_calls s) of Inl e \<Rightarrow> Inl e | Inr x \<Rightarrow> Inr (), t))"
  by (simp add: pactl_def run_program_def host_ask_def act_apps Let_def split: sum.splits)

lemma is_ok_case: "is_ok (case r of Inl e \<Rightarrow> Inl e | Inr x \<Rightarrow> Inr ()) = is_ok r"
  by (simp add: is_ok_def split: sum.splits)

lemma quiet_pause: "only_reads s (snd (only_if b (wait_for d) s))"
  by (cases b) (auto simp: wait_for_def quiet_refl intro: alongD [OF quiet_ask])

lemma carried_cycle:
  "carried_out (OwesCard target) [''set-card-profile'', ct_name target, ''off''] s
     ((bnd (upd (\<lambda>s. s\<lparr>mn_owed := Some (OwesCard target)\<rparr>)) (\<lambda>_.
       bnd (pactl [''set-card-profile'', ct_name target, ''off''] False) (\<lambda>changed.
       bnd restore_owed (\<lambda>restored. ret (finish_recovery changed restored))))) s)"
  by (auto simp: carried_out_def bnd_app pactl_app Let_def is_ok_case case_prod_unfold intro!: exI quiet_refl prod.collapse [symmetric])

lemma carried_recycle:
  "carried_out (OwesSink name ident) [''suspend-sink'', name, ''1''] s
     ((bnd (upd (\<lambda>s. s\<lparr>mn_owed := Some (OwesSink name ident)\<rparr>)) (\<lambda>_.
       bnd (pactl [''suspend-sink'', name, ''1''] False) (\<lambda>changed.
       bnd (only_if (is_ok changed) (wait_for (from_secs 1))) (\<lambda>_.
       bnd restore_owed (\<lambda>restored. ret (finish_recovery changed restored)))))) s)"
  by (auto simp: carried_out_def bnd_app pactl_app Let_def is_ok_case case_prod_unfold intro!: exI quiet_pause prod.collapse [symmetric])

text \<open>An action that ends early has only read.\<close>

definition only_then :: "(monitor \<Rightarrow> unit res \<times> monitor \<Rightarrow> bool) \<Rightarrow> monitor \<Rightarrow> unit res \<times> monitor \<Rightarrow> bool" where
  "only_then Q s result \<longleftrightarrow> (\<not> is_ok (fst result) \<and> only_reads s (snd result)) \<or> (\<exists>v. only_reads s v \<and> Q v result)"

lemma only_attempt:
  assumes "along only_reads m" and "\<And>x. fst (m s) = Inr x \<Longrightarrow> only_then Q (snd (m s)) (k x (snd (m s)))"
  shows "only_then Q s (attempt m k s)"
proof (cases "fst (m s)")
  case (Inl e)
  then show ?thesis using alongD [OF assms(1), of s] by (simp add: attempt_app only_then_def is_ok_def)
next
  case (Inr x)
  then show ?thesis using alongD [OF assms(1), of s] assms(2) [OF Inr]
    by (auto simp: attempt_app only_then_def intro: quiet_trans)
qed

lemma only_guard: "(p \<Longrightarrow> only_then Q s (m s)) \<Longrightarrow> only_then Q s (guard_ok p e m s)"
  by (cases p) (auto simp: only_then_def is_ok_def quiet_refl)

lemma only_last: "Q s result \<Longrightarrow> only_then Q s result"
  by (auto simp: only_then_def intro: quiet_refl)

lemma quiet_clear: "along only_reads require_clear"
  unfolding require_clear_def by (intro quiet_basic)

lemma require_clear_ok: "fst (require_clear s) = Inr x \<Longrightarrow> mn_owed s = None"
  by (auto simp: require_clear_def guard_ok_def split: if_splits)

lemma cycle_card_does:
  "only_then (\<lambda>v result. \<exists>target. mn_owed s = None \<and> fst (resolve_card name ident (snd (check_cancel s))) = Inr target \<and>
     carried_out (OwesCard target) [''set-card-profile'', ct_name target, ''off''] v result) s (cycle_card name ident s)"
proof -
  have "snd (require_clear s) = s" by (auto simp: require_clear_def guard_ok_def)
  then show ?thesis unfolding cycle_card_def
    by (intro only_attempt quiet_clear quiet_read quiet_resolve only_guard only_last)
      (auto intro!: carried_cycle dest: require_clear_ok)
qed

lemma recycle_sink_does:
  "only_then (\<lambda>v result. mn_owed s = None \<and> starts_with ''alsa_output.'' name \<and>
     carried_out (OwesSink name ident) [''suspend-sink'', name, ''1''] v result) s (recycle_sink name ident s)"
  unfolding recycle_sink_def
  by (intro only_attempt quiet_clear quiet_read quiet_validate only_guard only_last)
    (rule conjI, erule require_clear_ok, rule conjI, assumption, rule carried_recycle)

subsection \<open>What is disturbed is owed\<close>

definition sound_obligation :: "obligation \<Rightarrow> bool" where
  "sound_obligation owed = (case owed of OwesCard target \<Rightarrow> ct_profile target \<noteq> ''off'' | _ \<Rightarrow> True)"

lemma carried_out_settled:
  assumes "accounted s" and "mn_owed s = None" and "sound_obligation owed"
    and "effect_of (RunProgram ''pactl'' args COMMAND_TIMEOUT False) = Some (True, d)" "owed_disturbance (Some owed) = [d]"
    and "carried_out owed args s (r, t)"
  shows "accounted t \<and> (is_ok r \<longrightarrow> mn_owed t = None) \<and> mn_watch t = mn_watch s"
proof -
  let ?s = "s\<lparr>mn_owed := Some owed, mn_calls := RunProgram ''pactl'' args COMMAND_TIMEOUT False # mn_calls s\<rparr>"
  obtain u q where u: "only_reads ?s u" "restore_owed u = (q, t)" "is_ok r \<longrightarrow> is_ok q"
    using assms(6) by (auto simp: carried_out_def Let_def)
  have "accounted ?s"
    using assms(1-5) by (auto simp: accounted_def owed_disturbance_def sound_obligation_def split: obligation.splits)
  then have "accounted u" using u(1) quiet_settled by blast
  from restore_owed_settled [OF this u(2)] u show ?thesis by (auto simp: only_reads_def)
qed

lemma resolve_card_profile: "fst (resolve_card name ident s) = Inr target \<Longrightarrow> ct_profile target \<noteq> ''off''"
  by (auto simp: resolve_card_def attempt_app try_pure_def guard_ok_def active_profile_def ok_or_def
      split: sum.splits if_splits option.splits bind_splits)

lemma only_then_settled:
  assumes "accounted s" and "only_then Q s (r, t)"
    and "\<And>v. accounted v \<Longrightarrow> mn_owed v = mn_owed s \<Longrightarrow> mn_watch v = mn_watch s \<Longrightarrow> Q v (r, t) \<Longrightarrow>
      accounted t \<and> (is_ok r \<longrightarrow> mn_owed t = None) \<and> mn_watch t = mn_watch v"
  shows "accounted t \<and> (is_ok r \<longrightarrow> mn_owed t = None) \<and> mn_watch t = mn_watch s"
  using assms quiet_settled unfolding only_then_def by (auto simp: only_reads_def)

lemma carried_card_settled:
  assumes "accounted s" "mn_owed s = None" "ct_profile target \<noteq> ''off''"
    and "carried_out (OwesCard target) [''set-card-profile'', ct_name target, ''off''] s (r, t)"
  shows "accounted t \<and> (is_ok r \<longrightarrow> mn_owed t = None) \<and> mn_watch t = mn_watch s"
  by (rule carried_out_settled [OF assms(1,2) _ _ _ assms(4)])
    (use assms(3) in \<open>simp_all add: sound_obligation_def owed_disturbance_def\<close>)

lemma carried_sink_settled:
  assumes "accounted s" "mn_owed s = None"
    and "carried_out (OwesSink name ident) [''suspend-sink'', name, ''1''] s (r, t)"
  shows "accounted t \<and> (is_ok r \<longrightarrow> mn_owed t = None) \<and> mn_watch t = mn_watch s"
  by (rule carried_out_settled [OF assms(1,2) _ _ _ assms(3)])
    (simp_all add: sound_obligation_def owed_disturbance_def)

lemma cycle_card_settled:
  assumes "accounted s" and "cycle_card name ident s = (r, t)"
  shows "accounted t \<and> (is_ok r \<longrightarrow> mn_owed t = None) \<and> mn_watch t = mn_watch s"
proof (rule only_then_settled [OF assms(1)])
  show "only_then (\<lambda>v result. \<exists>target. mn_owed s = None \<and> fst (resolve_card name ident (snd (check_cancel s))) = Inr target \<and>
     carried_out (OwesCard target) [''set-card-profile'', ct_name target, ''off''] v result) s (r, t)"
    using cycle_card_does [of s name ident] assms(2) by simp
qed (metis carried_card_settled resolve_card_profile)

lemma recycle_sink_settled:
  assumes "accounted s" and "recycle_sink name ident s = (r, t)"
  shows "accounted t \<and> (is_ok r \<longrightarrow> mn_owed t = None) \<and> mn_watch t = mn_watch s"
proof (rule only_then_settled [OF assms(1)])
  show "only_then (\<lambda>v result. mn_owed s = None \<and> starts_with ''alsa_output.'' name \<and>
     carried_out (OwesSink name ident) [''suspend-sink'', name, ''1''] v result) s (r, t)"
    using recycle_sink_does [of s name ident] assms(2) by simp
qed (metis carried_sink_settled)

subsection \<open>The card gets its profile back\<close>

lemma effects_simps [simp]:
  "effects [] = []" "effects (c # cs) = (if effect_of c \<noteq> None then c # effects cs else effects cs)"
  "effects (cs @ ds) = effects cs @ effects ds"
  by (simp_all add: effects_def)

lemma effects_plain: "list_all plain cs \<Longrightarrow> effects cs = []"
  by (induction cs) (auto simp: plain_def)

lemma quiet_effects: "only_reads s t \<Longrightarrow> effects (mn_calls t) = effects (mn_calls s)"
  by (auto simp: only_reads_def effects_plain)

text \<open>
  C11. Cycling a card is all or nothing: either nothing is touched, or the card that belongs to the node is switched off and
  the profile it had is set again. If that is reported as done, it is done; if the profile could not be set again,
  it stays owed, with the card, its identity and its profile.
\<close>

theorem cycle_card_restores:
  "case cycle_card name ident s of (r, t) \<Rightarrow>
     if effects (mn_calls t) = effects (mn_calls s) then \<not> is_ok r \<and> mn_owed t = mn_owed s
     else (\<exists>target. mn_owed s = None \<and> fst (resolve_card name ident (snd (check_cancel s))) = Inr target \<and>
        (let off = RunProgram ''pactl'' [''set-card-profile'', ct_name target, ''off''] COMMAND_TIMEOUT False;
             back = RunProgram ''pactl'' [''set-card-profile'', ct_name target, ct_profile target] COMMAND_TIMEOUT True
         in (effects (mn_calls t) = back # off # effects (mn_calls s) \<or> effects (mn_calls t) = off # effects (mn_calls s)) \<and>
            (if mn_owed t = None
             then hd (mn_calls t) = back \<and> is_ok (host_output (mn_host s) (mn_calls t))
             else mn_owed t = Some (OwesCard target) \<and> \<not> is_ok r)))"
proof -
  obtain r t where rt: "cycle_card name ident s = (r, t)" by fastforce
  have o: "only_then (\<lambda>v result. \<exists>target. mn_owed s = None \<and> fst (resolve_card name ident (snd (check_cancel s))) = Inr target \<and>
     carried_out (OwesCard target) [''set-card-profile'', ct_name target, ''off''] v result) s (r, t)"
    using cycle_card_does [of s name ident] rt by simp
  consider "\<not> is_ok r" "only_reads s t"
    | target v u q where "only_reads s v" "mn_owed s = None" "fst (resolve_card name ident (snd (check_cancel s))) = Inr target"
        "only_reads (v\<lparr>mn_owed := Some (OwesCard target),
           mn_calls := RunProgram ''pactl'' [''set-card-profile'', ct_name target, ''off''] COMMAND_TIMEOUT False # mn_calls v\<rparr>) u"
        "restore_owed u = (q, t)" "is_ok r \<longrightarrow> is_ok q"
    using o unfolding only_then_def carried_out_def Let_def by auto
  then show ?thesis
  proof cases
    case 1
    then show ?thesis using quiet_effects [OF 1(2)] rt by (simp add: only_reads_def)
  next
    case 2
    have e: "effects (mn_calls u) =
        RunProgram ''pactl'' [''set-card-profile'', ct_name target, ''off''] COMMAND_TIMEOUT False # effects (mn_calls s)"
      using quiet_effects [OF 2(4)] quiet_effects [OF 2(1)] by simp
    have w: "mn_owed u = Some (OwesCard target)" "mn_host u = mn_host s" using 2(1,4) by (simp_all add: only_reads_def)
    from 2(5) show ?thesis
    proof (cases rule: restore_owed_cases)
      case clear
      then show ?thesis using w by simp
    next
      case (kept owed)
      then show ?thesis using e w 2(2,3,6) quiet_effects [OF kept(3)] rt by (auto simp: only_reads_def Let_def)
    next
      case (failed owed x)
      then show ?thesis using e w 2(2,3,6) quiet_effects [OF failed(3)] rt by (auto simp: only_reads_def Let_def)
    next
      case (restored owed x)
      then show ?thesis using e w 2(2,3) quiet_effects [OF restored(3)] rt by (auto simp: only_reads_def Let_def)
    qed
  qed
qed

subsection \<open>The sinks that are suspended\<close>

definition suspends :: "host_call \<Rightarrow> string list" where
  "suspends c = (case effect_of c of Some (True, SinkSuspended name) \<Rightarrow> [name] | _ \<Rightarrow> [])"

text \<open>\<open>adds names s t\<close>: from \<open>s\<close> to \<open>t\<close> the sinks \<open>names\<close> have been suspended, and the clock has not been read.\<close>

definition adds :: "string list \<Rightarrow> monitor \<Rightarrow> monitor \<Rightarrow> bool" where
  "adds names s t \<longleftrightarrow> mn_host t = mn_host s \<and> mn_watch t = mn_watch s \<and>
     (\<exists>cs. mn_calls t = cs @ mn_calls s \<and> ReadClock \<notin> set cs \<and> concat (map suspends cs) = names)"

lemma adds_quiet: "only_reads s t \<Longrightarrow> adds [] s t"
proof -
  have "list_all plain cs \<Longrightarrow> ReadClock \<notin> set cs \<and> concat (map suspends cs) = []" for cs
    by (induction cs) (auto simp: plain_def suspends_def)
  then show "only_reads s t \<Longrightarrow> adds [] s t" by (auto simp: only_reads_def adds_def)
qed

lemma adds_trans:
  assumes "adds as s t" and "adds bs t u"
  shows "adds (bs @ as) s u"
proof -
  obtain cs ds where "mn_calls t = cs @ mn_calls s" "ReadClock \<notin> set cs" "concat (map suspends cs) = as"
      "mn_calls u = ds @ mn_calls t" "ReadClock \<notin> set ds" "concat (map suspends ds) = bs"
    using assms by (auto simp: adds_def)
  then have "mn_calls u = (ds @ cs) @ mn_calls s \<and> ReadClock \<notin> set (ds @ cs) \<and> concat (map suspends (ds @ cs)) = bs @ as"
    by simp
  then show ?thesis using assms by (auto simp: adds_def)
qed

lemma adds_call:
  "c \<noteq> ReadClock \<Longrightarrow> adds (suspends c) s (s\<lparr>mn_owed := x, mn_calls := c # mn_calls s\<rparr>)"
  "c \<noteq> ReadClock \<Longrightarrow> adds (suspends c) s (s\<lparr>mn_calls := c # mn_calls s\<rparr>)"
  by (auto simp: adds_def intro!: exI [of _ "[c]"])

lemma suspends_simps [simp]:
  "suspends (RunProgram ''pactl'' [''set-card-profile'', name, p] t u) = []"
  "suspends (RunProgram ''pactl'' [''suspend-sink'', name, ''1''] t u) = [name]"
  "suspends (RunProgram ''pactl'' [''suspend-sink'', name, ''0''] t u) = []"
  by (simp_all add: suspends_def split: bool.splits)

lemma restore_owed_adds: "adds [] s (snd (restore_owed s))"
proof -
  obtain r t where rt: "restore_owed s = (r, t)" by fastforce
  have call: "adds [] u (u\<lparr>mn_calls := RunProgram ''pactl'' (undo_args owed) COMMAND_TIMEOUT True # mn_calls u\<rparr>)" for u owed
    using adds_call(2) [of "RunProgram ''pactl'' (undo_args owed) COMMAND_TIMEOUT True" u] by (cases owed) simp_all
  from rt have "adds [] s t"
  proof (cases rule: restore_owed_cases)
    case clear
    then show ?thesis using adds_quiet quiet_refl by simp
  next
    case (kept owed)
    then show ?thesis using adds_quiet by simp
  next
    case (failed owed u)
    then show ?thesis using adds_trans [OF adds_quiet call] by simp
  next
    case (restored owed u)
    have "adds [] s (u\<lparr>mn_calls := RunProgram ''pactl'' (undo_args owed) COMMAND_TIMEOUT True # mn_calls u\<rparr>)"
      using adds_trans [OF adds_quiet [OF restored(3)] call] by simp
    then show ?thesis using restored(4) by (simp add: adds_def)
  qed
  then show ?thesis using rt by simp
qed

lemma carried_out_adds:
  "carried_out owed args s result \<Longrightarrow> adds (suspends (RunProgram ''pactl'' args COMMAND_TIMEOUT False)) s (snd result)"
proof -
  assume "carried_out owed args s result"
  then obtain u q t where u: "only_reads (s\<lparr>mn_owed := Some owed, mn_calls := RunProgram ''pactl'' args COMMAND_TIMEOUT False # mn_calls s\<rparr>) u"
      "restore_owed u = (q, t)" "snd result = t"
    unfolding carried_out_def Let_def by fastforce
  have "adds [] u t" using restore_owed_adds [of u] u(2) by simp
  from adds_trans [OF adds_trans [OF adds_call(1) adds_quiet [OF u(1)]] this]
  show ?thesis using u(3) by simp
qed

lemma cycle_card_adds: "adds [] s (snd (cycle_card name ident s))"
  using cycle_card_does [of s name ident] adds_quiet adds_trans [OF adds_quiet carried_out_adds, of s]
  unfolding only_then_def by fastforce

lemma recycle_sink_adds:
  "\<exists>names. adds names s (snd (recycle_sink name ident s)) \<and> set names \<subseteq> {name} \<and> length names \<le> 1"
  using recycle_sink_does [of s name ident] adds_quiet [of s] adds_trans [OF adds_quiet carried_out_adds, of s]
  unfolding only_then_def by fastforce

end
