(* ===== verification/Monitor.thy ===== *)
theory Monitor
  imports Recovery
begin

text \<open>
  The health thread of \<^verbatim>\<open>crates/openwave-runtime/src/health.rs\<close>: in every turn it collects samples from the sound
  server and the files of ALSA, lets the watches of the core judge them, and applies the remedies that are due;
  what a remedy still owes is restored in later turns and when the thread is stopped. Panics of the collector, the
  log and the joining of the thread are not modelled. A run is a number of turns and of attempts to stop.
\<close>

subsection \<open>Collecting samples\<close>

definition CHECK_INTERVAL :: duration where "CHECK_INTERVAL = from_secs 10"

definition unknown_because :: "string \<Rightarrow> 'a observation" where
  "unknown_because message = Unknown (error_unavailable message)"

definition observed_res :: "'a res \<Rightarrow> 'a observation" where
  "observed_res r = (case r of Inl e \<Rightarrow> Unknown e | Inr v \<Rightarrow> Known v)"

definition health_dump :: "health_graph res hact" where
  "health_dump = attempt (json_command ''pw-dump'' [] False) (\<lambda>v. ret (parse_health_graph v))"

definition mute_listing :: "string \<Rightarrow> json res hact" where
  "mute_listing kind = attempt (json_command ''pactl'' [''--format=json'', ''list'', kind] False) (\<lambda>v.
     try_pure (parse_mutes v) (\<lambda>_. ret (Inr v)))"

definition mute_for :: "json res \<Rightarrow> string \<Rightarrow> watched_node \<Rightarrow> bool observation" where
  "mute_for listed name node = (case listed of
       Inl e \<Rightarrow> Unknown e
     | Inr v \<Rightarrow>
         (case Option.bind (as_array v) (find (\<lambda>e. Option.bind (jget e ''name'') as_str = Some name)) of
            None \<Rightarrow> unknown_because ''Mute target is absent''
          | Some entry \<Rightarrow>
              (let serial = Option.bind (json_pointer entry [''properties'', ''object.serial'']) (\<lambda>v. case as_str v of
                     Some s \<Rightarrow> Some s
                   | None \<Rightarrow> map_option (\<lambda>n. show_nat (unat n)) (as_u64 v))
               in if serial \<noteq> Some (object_serial (wn_identity node))
                  then unknown_because ''Mute target generation is unknown or changed''
                  else (case Option.bind (jget entry ''mute'') as_bool of
                      None \<Rightarrow> unknown_because ''Mute is unavailable''
                    | Some b \<Rightarrow> Known b))))"

definition status_path :: "alsa_playback \<Rightarrow> string" where
  "status_path p = ''/proc/asound/card'' @ show_nat (unat (ap_card p)) @ ''/pcm'' @ show_nat (unat (ap_device p)) @
     ''p/sub'' @ show_nat (unat (ap_subdevice p)) @ ''/status''"

text \<open>The answer is what the first \<open>65537\<close> bytes of the file are as a string.\<close>

definition read_playback_status :: "alsa_playback \<Rightarrow> playback_status res hact" where
  "read_playback_status p = attempt (host_ask (ReadStatus (status_path p)) host_status) (\<lambda>tx.
     guard_ok (length tx \<le> 65536) (error_unavailable ''ALSA playback status exceeds bound'')
       (ret (parse_playback_status tx)))"

definition xrun_counts :: "health_graph \<Rightarrow> (u32, xrun_count) imap res hact" where
  "xrun_counts g =
     (if hg_captures g = [] then ret (Inr [])
      else attempt (run_program ''pw-top'' [''--batch-mode'', ''--iterations'', ''3''] (from_secs 15) False) (\<lambda>out.
        try_pure (ok_or (error_unavailable ''pw-top output is not UTF-8'') (po_text out)) (\<lambda>tx.
          ret (Inr (parse_pw_top tx)))))"

definition sample_sink ::
  "json res \<Rightarrow> (string, sink_sample observation) imap \<Rightarrow> string \<times> watched_sink \<Rightarrow> (string, sink_sample observation) imap hact" where
  "sample_sink mutes sinks e = (case e of (name, sink) \<Rightarrow>
     bnd (read_playback_status (ws_playback sink)) (\<lambda>playback.
       ret (im_insert sinks name (Known
         \<lparr>ss_identity = wn_identity (ws_node sink), ss_running = wn_running (ws_node sink),
          ss_muted = mute_for mutes name (ws_node sink), ss_playback = observed_res playback\<rparr>))))"

definition xruns_of :: "(u32, xrun_count) imap res \<Rightarrow> string \<Rightarrow> watched_node \<Rightarrow> u64 observation" where
  "xruns_of counts name node = (case counts of
       Inl e \<Rightarrow> Unknown e
     | Inr m \<Rightarrow> (case im_get m (wn_node_id node) of
           None \<Rightarrow> unknown_because ''No coherent xrun observation''
         | Some x \<Rightarrow> if xc_node_name x = name then Known (xc_count x)
                     else unknown_because ''No coherent xrun observation''))"

definition capture_sample_of ::
  "(u32, xrun_count) imap res \<Rightarrow> json res \<Rightarrow> (node_identity, duration) imap \<Rightarrow> string \<Rightarrow> watched_node \<Rightarrow> capture_sample" where
  "capture_sample_of counts mutes ages name node =
     \<lparr>cs_identity = wn_identity node, cs_running = wn_running node, cs_muted = mute_for mutes name node,
      cs_xruns = xruns_of counts name node,
      cs_byte_age = (case im_get ages (wn_identity node) of
          None \<Rightarrow> unknown_because ''No byte age for this capture generation''
        | Some age \<Rightarrow> Known age)\<rparr>"

definition collect_samples :: "health_samples res hact" where
  "collect_samples =
     attempt check_cancel (\<lambda>_.
     attempt health_dump (\<lambda>first.
     bnd (xrun_counts first) (\<lambda>counts.
     bnd (if hg_captures first = [] then ret (Inr (JArray [])) else mute_listing ''sources'') (\<lambda>source_mutes.
     bnd (if hg_sinks first = [] then ret (Inr (JArray [])) else mute_listing ''sinks'') (\<lambda>sink_mutes.
     bnd (sweep (sample_sink sink_mutes) [] (hg_sinks first)) (\<lambda>sinks.
     attempt health_dump (\<lambda>second.
     guard_ok (im_eq (hg_captures first) (hg_captures second) \<and> im_eq (hg_sinks first) (hg_sinks second))
       (error_unavailable ''Health graph changed during collection'') (
     attempt check_cancel (\<lambda>_.
     bnd (host_ask ReadAges host_ages) (\<lambda>ages.
       ret (Inr \<lparr>hs_captures = foldl (\<lambda>m (name, node). im_insert m name
                   (Known (capture_sample_of counts source_mutes ages name node))) [] (hg_captures second),
                 hs_sinks = sinks\<rparr>)))))))))))"

subsection \<open>Remedies that are due\<close>

definition record_error :: "operation_error option \<Rightarrow> operation_error \<Rightarrow> operation_error option" where
  "record_error slot e = (if err_code e = Cancelled then slot
     else Some (case slot of None \<Rightarrow> e | Some p \<Rightarrow> error_unavailable (err_message p @ ''; '' @ err_message e)))"

definition noting :: "operation_error option \<Rightarrow> unit res \<Rightarrow> operation_error option" where
  "noting slot r = (case r of Inl e \<Rightarrow> record_error slot e | Inr _ \<Rightarrow> slot)"

text \<open>A remedy is charged to the budget before it is tried.\<close>

definition remedy ::
  "bool \<Rightarrow> bool \<Rightarrow> 'a option \<Rightarrow> ('a \<Rightarrow> unit hact) \<Rightarrow> ('a \<Rightarrow> unit res hact) \<Rightarrow> operation_error option \<Rightarrow> operation_error option hact" where
  "remedy auto due sample charge apply err =
     (if auto \<and> due
      then bnd cancelled (\<lambda>c. ask (\<lambda>s.
        if \<not> c \<and> mn_owed s = None
        then (case sample of
            None \<Rightarrow> ret err
          | Some x \<Rightarrow> bnd (charge x) (\<lambda>_. bnd (apply x) (\<lambda>r. ret (noting err r))))
        else ret err))
      else ret err)"

definition charge_capture :: "string \<Rightarrow> duration \<Rightarrow> unit hact" where
  "charge_capture name now =
     upd (\<lambda>s. s\<lparr>mn_watch := (mn_watch s)\<lparr>hw_capture := capture_record_attempt (hw_capture (mn_watch s)) name now\<rparr>\<rparr>)"

definition charge_sink :: "string \<Rightarrow> duration \<Rightarrow> unit hact" where
  "charge_sink name now =
     upd (\<lambda>s. s\<lparr>mn_watch := (mn_watch s)\<lparr>hw_sink := sink_record_attempt (hw_sink (mn_watch s)) name now\<rparr>\<rparr>)"

definition remedy_capture ::
  "bool \<Rightarrow> health_samples \<Rightarrow> duration \<Rightarrow> operation_error option \<Rightarrow> string \<times> capture_decision \<Rightarrow> operation_error option hact" where
  "remedy_capture auto samples now err e = (case e of (name, d) \<Rightarrow>
     remedy auto (cd_recovery_due d) (Option.bind (im_get (hs_captures samples) name) known)
       (\<lambda>x. charge_capture name now) (\<lambda>x. cycle_card name (cs_identity x)) err)"

definition remedy_sink ::
  "bool \<Rightarrow> health_samples \<Rightarrow> duration \<Rightarrow> operation_error option \<Rightarrow> string \<times> sink_decision \<Rightarrow> operation_error option hact" where
  "remedy_sink auto samples now err e = (case e of (name, d) \<Rightarrow>
     remedy auto (sd_recovery_due d) (Option.bind (im_get (hs_sinks samples) name) known)
       (\<lambda>x. charge_sink name now) (\<lambda>x. recycle_sink name (ss_identity x)) err)"

definition check_once :: "bool \<Rightarrow> health_samples observation \<Rightarrow> duration \<Rightarrow> health_report hact" where
  "check_once auto obs now = ask (\<lambda>s. case health_observe (mn_watch s) obs now of (report, w) \<Rightarrow>
     bnd (upd (\<lambda>s. s\<lparr>mn_watch := w\<rparr>)) (\<lambda>_.
     if mn_owed s \<noteq> None
     then bnd restore_owed (\<lambda>r. ret (report\<lparr>rep_error := noting (rep_error report) r\<rparr>))
     else (case obs of
         Unknown e \<Rightarrow> ret report
       | Known samples \<Rightarrow>
           bnd (sweep (remedy_capture auto samples now) (rep_error report) (rep_captures report)) (\<lambda>err.
           bnd (sweep (remedy_sink auto samples now) err (rep_sinks report)) (\<lambda>err.
             ret (report\<lparr>rep_error := err\<rparr>))))))"

subsection \<open>The thread\<close>

definition monitor_turn :: "bool \<Rightarrow> health_report hact" where
  "monitor_turn auto = bnd collect_samples (\<lambda>samples.
     bnd (host_ask ReadClock host_time) (\<lambda>now. check_once auto (observed_res samples) now))"

fun monitor_loop :: "bool \<Rightarrow> nat \<Rightarrow> unit hact" where
  "monitor_loop auto 0 = skip"
| "monitor_loop auto (Suc n) = bnd cancelled (\<lambda>stopped.
     if stopped then skip
     else bnd (monitor_turn auto) (\<lambda>_. bnd cancelled (\<lambda>stopped.
       bnd (only_if (\<not> stopped) (wait_for CHECK_INTERVAL)) (\<lambda>_. monitor_loop auto n))))"

text \<open>Stopping waits until nothing is owed: \<open>None\<close> after that many attempts that failed.\<close>

fun stop_until_restored :: "nat \<Rightarrow> unit option hact" where
  "stop_until_restored 0 = ret None"
| "stop_until_restored (Suc n) = bnd restore_owed (\<lambda>r. case r of
       Inl e \<Rightarrow> bnd (wait_for (from_secs 1)) (\<lambda>_. stop_until_restored n)
     | Inr _ \<Rightarrow> ret (Some ()))"

definition monitor_new :: "host \<Rightarrow> monitor" where
  "monitor_new h = \<lparr>mn_host = h, mn_calls = [], mn_owed = None, mn_watch = health_default\<rparr>"

definition monitor_run :: "bool \<Rightarrow> nat \<Rightarrow> nat \<Rightarrow> unit option hact" where
  "monitor_run auto turns tries = bnd (monitor_loop auto turns) (\<lambda>_. stop_until_restored tries)"

subsection \<open>Everything disturbed is put back\<close>

lemma quiet_programs:
  "along only_reads health_dump" "along only_reads (mute_listing kind)" "along only_reads (read_playback_status p)" "along only_reads (xrun_counts g)"
  unfolding health_dump_def mute_listing_def read_playback_status_def xrun_counts_def run_program_def
  by (intro quiet_basic quiet_read quiet_ask plain_simps)+

lemma quiet_collect: "along only_reads collect_samples"
  unfolding collect_samples_def sample_sink_def
  by (intro quiet_basic quiet_read quiet_programs)

lemma quiet_cancelled: "along only_reads cancelled"
  unfolding cancelled_def by (intro quiet_basic)

interpretation settling: evolution "\<lambda>s t. mn_host t = mn_host s \<and> (accounted s \<longrightarrow> accounted t)"
  by unfold_locales auto

lemma settling_quiet: "along only_reads m \<Longrightarrow> along (\<lambda>s t. mn_host t = mn_host s \<and> (accounted s \<longrightarrow> accounted t)) m"
  using quiet_settled by (auto simp: along_def only_reads_def)

lemma host_same:
  "mn_host (snd (restore_owed s)) = mn_host s"
  "mn_host (snd (cycle_card name ident s)) = mn_host s"
  "mn_host (snd (recycle_sink name ident s)) = mn_host s"
  using restore_owed_adds [of s] cycle_card_adds [of s name ident] recycle_sink_adds [of s name ident] by (auto simp: adds_def)

lemma settled_after:
  assumes "accounted s"
  shows "accounted (snd (restore_owed s))" "accounted (snd (cycle_card name ident s))" "accounted (snd (recycle_sink name ident s))"
  using restore_owed_settled [OF assms surjective_pairing] cycle_card_settled [OF assms surjective_pairing]
    recycle_sink_settled [OF assms surjective_pairing] by simp_all

lemma settling_remedies:
  "along (\<lambda>s t. mn_host t = mn_host s \<and> (accounted s \<longrightarrow> accounted t)) restore_owed"
  "along (\<lambda>s t. mn_host t = mn_host s \<and> (accounted s \<longrightarrow> accounted t)) (cycle_card name ident)"
  "along (\<lambda>s t. mn_host t = mn_host s \<and> (accounted s \<longrightarrow> accounted t)) (recycle_sink name ident)"
  by (auto simp: along_def host_same intro: settled_after)

lemma settling_watch: "along (\<lambda>s t. mn_host t = mn_host s \<and> (accounted s \<longrightarrow> accounted t)) (upd (\<lambda>s. s\<lparr>mn_watch := f s\<rparr>))"
  by (simp add: along_def accounted_def)

lemmas settling_basic = settling.along_intros settling_remedies settling_watch settling_quiet [OF quiet_cancelled]

lemma settling_check: "along (\<lambda>s t. mn_host t = mn_host s \<and> (accounted s \<longrightarrow> accounted t)) (check_once auto obs now)"
  unfolding check_once_def remedy_capture_def remedy_sink_def remedy_def charge_capture_def charge_sink_def
  by (auto intro!: settling_basic split: prod.splits observation.splits)

lemma settling_turn: "along (\<lambda>s t. mn_host t = mn_host s \<and> (accounted s \<longrightarrow> accounted t)) (monitor_turn auto)"
proof -
  have "along (\<lambda>s t. mn_host t = mn_host s \<and> (accounted s \<longrightarrow> accounted t)) (host_ask ReadClock host_time)"
    by (auto simp: along_def host_ask_def bnd_app accounted_def)
  then show ?thesis unfolding monitor_turn_def
    by (intro settling_basic settling_check settling_quiet [OF quiet_collect])
qed

lemma settling_wait: "along (\<lambda>s t. mn_host t = mn_host s \<and> (accounted s \<longrightarrow> accounted t)) (wait_for d)"
  unfolding wait_for_def by (intro settling_quiet quiet_basic)

lemma settling_loop: "along (\<lambda>s t. mn_host t = mn_host s \<and> (accounted s \<longrightarrow> accounted t)) (monitor_loop auto n)"
proof (induction n)
  case 0
  show ?case unfolding monitor_loop.simps by (intro settling_basic)
next
  case (Suc n)
  show ?case unfolding monitor_loop.simps by (intro settling_basic settling_turn settling_wait Suc.IH)
qed

lemma settling_run: "along (\<lambda>s t. mn_host t = mn_host s \<and> (accounted s \<longrightarrow> accounted t)) (monitor_run auto turns tries)"
proof -
  have "along (\<lambda>s t. mn_host t = mn_host s \<and> (accounted s \<longrightarrow> accounted t)) (stop_until_restored tries)"
  proof (induction tries)
    case 0
    show ?case unfolding stop_until_restored.simps by (intro settling_basic)
  next
    case (Suc n)
    show ?case unfolding stop_until_restored.simps by (intro settling_basic settling_wait Suc.IH)
  qed
  then show ?thesis unfolding monitor_run_def by (intro settling_basic settling_loop)
qed

lemma stopped_settled:
  "accounted s \<Longrightarrow> case stop_until_restored n s of (done, t) \<Rightarrow>
     mn_host t = mn_host s \<and> accounted t \<and> (done \<noteq> None \<longrightarrow> mn_owed t = None)"
proof (induction n arbitrary: s)
  case 0
  then show ?case by simp
next
  case (Suc n)
  obtain r t where rt: "restore_owed s = (r, t)" by fastforce
  have t: "accounted t \<and> (is_ok r \<longleftrightarrow> mn_owed t = None)" "mn_host t = mn_host s"
    using restore_owed_settled [OF Suc.prems rt] host_same(1) [of s] rt by auto
  show ?case
  proof (cases r)
    case (Inl e)
    have "mn_host (snd (wait_for (from_secs 1) t)) = mn_host t \<and> accounted (snd (wait_for (from_secs 1) t))"
      using alongD [OF settling_wait [of "from_secs 1"], of t] t by auto
    then show ?thesis using Suc.IH [of "snd (wait_for (from_secs 1) t)"] Inl rt t by (auto simp: bnd_app)
  next
    case (Inr x)
    then show ?thesis using rt t by (simp add: bnd_app is_ok_def)
  qed
qed

text \<open>
  C10. Nothing stays disturbed unnoticed. At any time in a run of the health thread, however the sound server
  answers: at most one card is switched off or one sink suspended, and it is just the one whose restoration is owed; and when
  the thread has been stopped, everything has been put back.
\<close>

theorem monitor_puts_back:
  "case monitor_run auto turns tries (monitor_new h) of (done, t) \<Rightarrow>
     disturbed h (mn_calls t) = owed_disturbance (mn_owed t) \<and>
     (if done = None then True else disturbed h (mn_calls t) = [])"
proof -
  let ?s = "monitor_new h"
  define u where "u = snd (monitor_loop auto turns ?s)"
  have "accounted ?s" by (simp add: accounted_def monitor_new_def owed_disturbance_def)
  then have u: "accounted u" "mn_host u = h"
    using alongD [OF settling_loop [of auto turns], of ?s] by (auto simp: u_def monitor_new_def)
  show ?thesis
    using stopped_settled [OF u(1), of tries] u(2)
    by (auto simp: monitor_run_def bnd_app u_def accounted_def owed_disturbance_def split: prod.splits)
qed

subsection \<open>Recovery only with consent\<close>

interpretation idle: evolution "\<lambda>s t. mn_owed s = None \<longrightarrow> mn_owed t = None \<and> effects (mn_calls t) = effects (mn_calls s)"
  by unfold_locales auto

lemma idle_quiet:
  "along only_reads m \<Longrightarrow> along (\<lambda>s t. mn_owed s = None \<longrightarrow> mn_owed t = None \<and> effects (mn_calls t) = effects (mn_calls s)) m"
  using quiet_effects by (auto simp: along_def only_reads_def)

lemma idle_rest:
  "along (\<lambda>s t. mn_owed s = None \<longrightarrow> mn_owed t = None \<and> effects (mn_calls t) = effects (mn_calls s)) restore_owed"
  "along (\<lambda>s t. mn_owed s = None \<longrightarrow> mn_owed t = None \<and> effects (mn_calls t) = effects (mn_calls s)) (upd (\<lambda>s. s\<lparr>mn_watch := f s\<rparr>))"
  "along (\<lambda>s t. mn_owed s = None \<longrightarrow> mn_owed t = None \<and> effects (mn_calls t) = effects (mn_calls s)) (host_ask ReadClock host_time)"
  by (auto simp: along_def restore_owed_def host_ask_def bnd_app)

lemmas idle_basic = idle.along_intros idle_rest idle_quiet [OF quiet_cancelled] idle_quiet [OF quiet_collect]

lemma idle_turn:
  "along (\<lambda>s t. mn_owed s = None \<longrightarrow> mn_owed t = None \<and> effects (mn_calls t) = effects (mn_calls s)) (monitor_turn False)"
  unfolding monitor_turn_def check_once_def remedy_capture_def remedy_sink_def remedy_def
  by (auto intro!: idle_basic split: prod.splits observation.splits)

lemma idle_loop:
  "along (\<lambda>s t. mn_owed s = None \<longrightarrow> mn_owed t = None \<and> effects (mn_calls t) = effects (mn_calls s)) (monitor_loop False n)"
proof (induction n)
  case 0
  show ?case unfolding monitor_loop.simps by (intro idle_basic)
next
  case (Suc n)
  show ?case unfolding monitor_loop.simps wait_for_def
    by (intro idle_basic idle_turn idle_quiet [OF quiet_ask] plain_simps Suc.IH)
qed

lemma idle_stop:
  "along (\<lambda>s t. mn_owed s = None \<longrightarrow> mn_owed t = None \<and> effects (mn_calls t) = effects (mn_calls s)) (stop_until_restored n)"
proof (induction n)
  case 0
  show ?case unfolding stop_until_restored.simps by (intro idle_basic)
next
  case (Suc n)
  show ?case unfolding stop_until_restored.simps wait_for_def
    by (intro idle_basic idle_quiet [OF quiet_ask] plain_simps Suc.IH)
qed

text \<open>
  C14. A monitor that may only observe never touches anything: without the user's consent no call that changes a card or a
  sink is made, in no run.
\<close>

theorem observer_changes_nothing: "effects (mn_calls (snd (monitor_run False turns tries (monitor_new h)))) = []"
proof -
  have "along (\<lambda>s t. mn_owed s = None \<longrightarrow> mn_owed t = None \<and> effects (mn_calls t) = effects (mn_calls s)) (monitor_run False turns tries)"
    unfolding monitor_run_def by (intro idle.along_bnd idle_loop idle_stop)
  from alongD [OF this, of "monitor_new h"] show ?thesis by (simp add: monitor_new_def)
qed

subsection \<open>Remedies are bounded\<close>

text \<open>The time of the turn in which a call was made, and the times at which a sink was suspended, the last first.\<close>

definition check_time :: "host \<Rightarrow> host_call list \<Rightarrow> duration" where
  "check_time h calls = (case dropWhile (\<lambda>c. c \<noteq> ReadClock) calls of [] \<Rightarrow> 0 | cs \<Rightarrow> host_time h cs)"

fun suspension_times :: "host \<Rightarrow> string \<Rightarrow> host_call list \<Rightarrow> duration list" where
  "suspension_times h name [] = []"
| "suspension_times h name (c # calls) =
     (if suspends c = [name] then check_time h calls # suspension_times h name calls else suspension_times h name calls)"

lemma suspends_cases: "suspends c = [] \<or> (\<exists>name. suspends c = [name])"
  by (auto simp: suspends_def split: option.splits prod.splits bool.splits disturbance.splits)

lemma check_time_append: "ReadClock \<notin> set cs \<Longrightarrow> check_time h (cs @ calls) = check_time h calls"
  by (induction cs) (auto simp: check_time_def)

lemma suspension_times_append:
  "ReadClock \<notin> set cs \<Longrightarrow> suspension_times h name (cs @ calls) =
     map (\<lambda>_. check_time h calls) (filter (\<lambda>n. n = name) (concat (map suspends cs))) @ suspension_times h name calls"
proof (induction cs)
  case (Cons c cs)
  then show ?case using suspends_cases [of c] by (auto simp: check_time_append)
qed simp

lemma adds_times:
  assumes "adds names s t"
  shows "check_time h (mn_calls t) = check_time h (mn_calls s)"
    and "suspension_times h name (mn_calls t) =
      map (\<lambda>_. check_time h (mn_calls s)) (filter (\<lambda>n. n = name) names) @ suspension_times h name (mn_calls s)"
  using assms by (auto simp: adds_def check_time_append suspension_times_append)

text \<open>The report of the watch calls a remedy due only when its budget allows it.\<close>

definition due_captures :: "(string \<times> capture_decision) list \<Rightarrow> health_watch \<Rightarrow> duration \<Rightarrow> bool" where
  "due_captures ds w now \<longleftrightarrow> (\<forall>(k, d) \<in> set ds. cd_recovery_due d \<longrightarrow> can_recover (cw_budget (hw_capture w)) k now)"

definition due_sinks :: "(string \<times> sink_decision) list \<Rightarrow> health_watch \<Rightarrow> duration \<Rightarrow> bool" where
  "due_sinks ds w now \<longleftrightarrow> (\<forall>(k, d) \<in> set ds. sd_recovery_due d \<longrightarrow> sink_should_recover (hw_sink w) k now)"

lemma same_due:
  "same_capture k v w \<Longrightarrow> can_recover (cw_budget v) k now = can_recover (cw_budget w) k now"
  "same_sink k a b \<Longrightarrow> sink_should_recover a k now = sink_should_recover b k now"
  by (auto simp: same_capture_def same_sink_def can_recover_def stall_spent_def stall_last_def sink_should_recover_def split: option.splits)

lemma reported_captures:
  assumes "im_wf rep" and "\<And>k d. im_get rep k = Some d \<Longrightarrow> cd_recovery_due d \<Longrightarrow> can_recover (cw_budget w) k now"
    and "foldl (report_capture now) (w, rep) es = (w', rep')"
  shows "im_wf rep' \<and> (\<forall>k d. im_get rep' k = Some d \<longrightarrow> cd_recovery_due d \<longrightarrow> can_recover (cw_budget w') k now)"
  using assms
proof (induction es arbitrary: w rep)
  case Nil
  then show ?case by simp
next
  case (Cons e es)
  obtain name sample where e: "e = (name, sample)" by (cases e)
  obtain d v where o': "capture_observe w name sample now = (d, v)" by fastforce
  have d: "cd_recovery_due d \<Longrightarrow> can_recover (cw_budget v) name now"
    using o' by (auto simp: capture_observe_def Let_def capture_decision_default_def split: option.splits)
  have "can_recover (cw_budget v) k now = can_recover (cw_budget w) k now" if "k \<noteq> name" for k
    using same_due(1) [OF capture_observe_other(1) [of name k w sample now]] that o' by simp
  then have "\<And>k x. im_get (im_insert rep name d) k = Some x \<Longrightarrow> cd_recovery_due x \<Longrightarrow> can_recover (cw_budget v) k now"
    using Cons.prems(2) d by (auto split: if_splits)
  moreover have "report_capture now (w, rep) e = (v, im_insert rep name d)"
    using e o' by (simp add: report_capture_def)
  then have "foldl (report_capture now) (v, im_insert rep name d) es = (w', rep')"
    using Cons.prems(3) by simp
  ultimately show ?case using Cons.IH [OF im_wf_insert [OF Cons.prems(1)]] by blast
qed

lemma reported_sinks:
  assumes "im_wf rep" and "\<And>k d. im_get rep k = Some d \<Longrightarrow> sd_recovery_due d \<Longrightarrow> sink_should_recover w k now"
    and "foldl (report_sink now) (w, rep) es = (w', rep')"
  shows "im_wf rep' \<and> (\<forall>k d. im_get rep' k = Some d \<longrightarrow> sd_recovery_due d \<longrightarrow> sink_should_recover w' k now)"
  using assms
proof (induction es arbitrary: w rep)
  case Nil
  then show ?case by simp
next
  case (Cons e es)
  obtain name sample where e: "e = (name, sample)" by (cases e)
  obtain b v where o': "sink_observe w name sample = (b, v)" by fastforce
  let ?d = "\<lparr>sd_stalled = b, sd_just_stalled = just_stalled v name, sd_recovery_due = sink_should_recover v name now\<rparr>"
  have "sink_should_recover v k now = sink_should_recover w k now" if "k \<noteq> name" for k
    using same_due(2) [OF sink_observe_other(1) [of name k w sample]] that o' by simp
  then have "\<And>k x. im_get (im_insert rep name ?d) k = Some x \<Longrightarrow> sd_recovery_due x \<Longrightarrow> sink_should_recover v k now"
    using Cons.prems(2) by (auto split: if_splits)
  moreover have "report_sink now (w, rep) e = (v, im_insert rep name ?d)"
    using e o' by (simp add: report_sink_def)
  then have "foldl (report_sink now) (v, im_insert rep name ?d) es = (w', rep')"
    using Cons.prems(3) by simp
  ultimately show ?case using Cons.IH [OF im_wf_insert [OF Cons.prems(1)]] by blast
qed

subsection \<open>Observing keeps within the budgets\<close>

context recovery_budget
begin

lemma watches: "limit (foldl watch s es) = limit s \<and> gap (foldl watch s es) = gap s \<and>
    (spent (foldl watch s es) k = spent s k \<or> spent (foldl watch s es) k = 0)"
proof (induction es arbitrary: s)
  case (Cons e es)
  have "limit (watch s e) = limit s \<and> gap (watch s e) = gap s" by (simp add: watch_config)
  then show ?case using Cons.IH [of "watch s e"] watch_spent [of s e k] unfolding foldl_Cons by metis
qed simp

end

context spaced_budget
begin

lemma watches_tried: "tried (foldl watch s es) k = tried s k"
  by (induction es arbitrary: s) (simp_all add: watch_tried)

end

lemma paused_watch:
  "foldl capture_pause v names = foldl capture_watching v (map CapturePause names)"
  "foldl sink_pause w names = foldl sink_watch w (map SinkPause names)"
  by (induction names arbitrary: v w) simp_all

lemma reported_watch:
  "fst (foldl (report_capture now) (v, rc) es) = foldl capture_watching v (map (\<lambda>(k, x). CaptureObserve k x now) es)"
  "fst (foldl (report_sink now) (w, rs) ds) = foldl sink_watch w (map (\<lambda>(k, x). SinkObserve k x) ds)"
proof -
  show "fst (foldl (report_capture now) (v, rc) es) = foldl capture_watching v (map (\<lambda>(k, x). CaptureObserve k x now) es)"
  proof (induction es arbitrary: v rc)
    case (Cons e es)
    then show ?case by (cases e; cases "report_capture now (v, rc) e") (auto simp: report_capture_def case_prod_unfold Let_def)
  qed simp
  show "fst (foldl (report_sink now) (w, rs) ds) = foldl sink_watch w (map (\<lambda>(k, x). SinkObserve k x) ds)"
  proof (induction ds arbitrary: w rs)
    case (Cons e ds)
    then show ?case by (cases e; cases "report_sink now (w, rs) e") (auto simp: report_sink_def case_prod_unfold Let_def)
  qed simp
qed

lemma observed_watches:
  "\<exists>es ds. hw_capture (snd (health_observe w obs now)) = foldl capture_watching (hw_capture w) es \<and>
     hw_sink (snd (health_observe w obs now)) = foldl sink_watch (hw_sink w) ds"
proof (cases obs)
  case (Unknown e)
  then show ?thesis by (auto simp: health_observe_def paused_watch)
next
  case (Known x)
  have "hw_capture (snd (health_observe w obs now)) = foldl capture_watching (hw_capture w)
        (map CapturePause (filter (\<lambda>n. \<not> im_contains (hs_captures x) n) (hw_captures w)) @
         map (\<lambda>(k, x). CaptureObserve k x now) (hs_captures x))"
    and "hw_sink (snd (health_observe w obs now)) = foldl sink_watch (hw_sink w)
        (map SinkPause (filter (\<lambda>n. \<not> im_contains (hs_sinks x) n) (hw_sinks w)) @
         map (\<lambda>(k, x). SinkObserve k x) (hs_sinks x))"
    using Known by (simp_all add: health_observe_def Let_def case_prod_unfold reported_watch paused_watch)
  then show ?thesis by blast
qed

lemma observed_due:
  assumes "health_observe w obs now = (report, w')"
  shows "im_wf (rep_captures report) \<and> im_wf (rep_sinks report) \<and>
    due_captures (rep_captures report) w' now \<and> due_sinks (rep_sinks report) w' now"
proof (cases obs)
  case (Unknown e)
  then show ?thesis using assms
    by (auto simp: health_observe_def health_report_default_def due_captures_def due_sinks_def)
next
  case (Known x)
  define c where "c = foldl capture_pause (hw_capture w) (filter (\<lambda>n. \<not> im_contains (hs_captures x) n) (hw_captures w))"
  define k where "k = foldl sink_pause (hw_sink w) (filter (\<lambda>n. \<not> im_contains (hs_sinks x) n) (hw_sinks w))"
  obtain vc rc where c': "foldl (report_capture now) (c, []) (hs_captures x) = (vc, rc)" by fastforce
  obtain vs rs where k': "foldl (report_sink now) (k, []) (hs_sinks x) = (vs, rs)" by fastforce
  have r: "rep_captures report = rc" "rep_sinks report = rs" "hw_capture w' = vc" "hw_sink w' = vs"
    using assms Known c' k' by (auto simp: health_observe_def Let_def c_def k_def)
  show ?thesis
    using reported_captures [OF _ _ c'] reported_sinks [OF _ _ k']
    unfolding r due_captures_def due_sinks_def by (auto simp: im_get_iff_mem)
qed

subsection \<open>The budgets in a run\<close>

definition spaced :: "duration list \<Rightarrow> duration option \<Rightarrow> bool" where
  "spaced ts tried \<longleftrightarrow> sorted_wrt (\<lambda>t t'. t' + COOLDOWN \<le> t) ts \<and>
     (case ts of [] \<Rightarrow> True | t # _ \<Rightarrow> (case tried of None \<Rightarrow> False | Some l \<Rightarrow> t \<le> l))"

definition within_budgets :: "health_watch \<Rightarrow> bool" where
  "within_budgets w \<longleftrightarrow>
     sw_max_attempts (cw_budget (hw_capture w)) = MAX_ATTEMPTS \<and>
     kw_max_attempts (hw_sink w) = MAX_ATTEMPTS \<and> kw_cooldown (hw_sink w) = COOLDOWN \<and>
     (\<forall>k. stall_spent (cw_budget (hw_capture w)) k \<le> MAX_ATTEMPTS \<and> sink_spent (hw_sink w) k \<le> MAX_ATTEMPTS)"

definition bounded_run :: "monitor \<Rightarrow> bool" where
  "bounded_run s \<longleftrightarrow> within_budgets (mn_watch s) \<and>
     (\<forall>k. spaced (suspension_times (mn_host s) k (mn_calls s)) (sink_tried (hw_sink (mn_watch s)) k))"

lemma within_default: "within_budgets health_default"
  by (simp add: within_budgets_def health_default_def capture_default_def stall_default_def stall_new_def sink_default_def
      sink_new_def stall_spent_def sink_spent_def)

lemma within_observe:
  assumes "within_budgets w"
  shows "within_budgets (snd (health_observe w obs now))"
    and "sink_tried (hw_sink (snd (health_observe w obs now))) k = sink_tried (hw_sink w) k"
proof -
  obtain es ds where e: "hw_capture (snd (health_observe w obs now)) = foldl capture_watching (hw_capture w) es"
      "hw_sink (snd (health_observe w obs now)) = foldl sink_watch (hw_sink w) ds"
    using observed_watches by blast
  have "stall_spent (cw_budget (foldl capture_watching (hw_capture w) es)) k \<le> MAX_ATTEMPTS \<and>
      sink_spent (foldl sink_watch (hw_sink w) ds) k \<le> MAX_ATTEMPTS" for k
    using captures.watches [of "hw_capture w" es k] sinks.watches [of "hw_sink w" ds k] assms by (auto simp: within_budgets_def)
  then show "within_budgets (snd (health_observe w obs now))"
    using captures.watches [of "hw_capture w" es] sinks.watches [of "hw_sink w" ds] assms e by (auto simp: within_budgets_def)
  show "sink_tried (hw_sink (snd (health_observe w obs now))) k = sink_tried (hw_sink w) k"
    by (simp add: e sinks.watches_tried)
qed

lemma within_charge_capture:
  assumes "within_budgets w" and "can_recover (cw_budget (hw_capture w)) name now"
  shows "within_budgets (w\<lparr>hw_capture := capture_record_attempt (hw_capture w) name now\<rparr>)"
  using assms captures.act_spent_le [of "hw_capture w" _ "Try name now"] captures.attempt_config [of "hw_capture w" name now]
  by (simp add: within_budgets_def)

lemma within_charge_sink:
  assumes "within_budgets w" and "sink_should_recover (hw_sink w) name now"
  shows "within_budgets (w\<lparr>hw_sink := sink_record_attempt (hw_sink w) name now\<rparr>)"
  using assms sinks.act_spent_le [of "hw_sink w" _ "Try name now"] sinks.attempt_config [of "hw_sink w" name now]
  by (simp add: within_budgets_def)

lemma bounded_adds: "adds [] s t \<Longrightarrow> bounded_run s \<Longrightarrow> bounded_run t"
  by (auto simp: bounded_run_def adds_times) (auto simp: adds_def)

text \<open>A turn: what is due is within the budgets, and the clock has been read for this turn.\<close>

definition turn_ok ::
  "duration \<Rightarrow> (string \<times> capture_decision) list \<Rightarrow> (string \<times> sink_decision) list \<Rightarrow> monitor \<Rightarrow> bool" where
  "turn_ok now cs ds s \<longleftrightarrow> bounded_run s \<and> check_time (mn_host s) (mn_calls s) = now \<and>
     due_captures cs (mn_watch s) now \<and> due_sinks ds (mn_watch s) now"

lemma turn_adds: "adds [] s t \<Longrightarrow> turn_ok now cs ds s \<Longrightarrow> turn_ok now cs ds t"
  by (auto simp: turn_ok_def bounded_adds adds_times) (auto simp: adds_def)

lemma turn_later: "turn_ok now (c # cs) ds s \<Longrightarrow> turn_ok now cs ds s" "turn_ok now cs (d # ds) s \<Longrightarrow> turn_ok now cs ds s"
  by (auto simp: turn_ok_def due_captures_def due_sinks_def)

text \<open>A remedy: nothing is done, or it is charged and tried.\<close>

lemma remedy_cases:
  assumes "turn_ok now cs ds s"
    and charged: "\<And>t x. turn_ok now cs ds t \<Longrightarrow> due \<Longrightarrow> Q (snd (apply x (snd (charge x t))))"
    and still: "\<And>t. turn_ok now cs ds t \<Longrightarrow> Q t"
  shows "Q (snd (remedy auto due sample charge apply err s))"
proof -
  have "adds [] s (snd (cancelled s))" by (rule adds_quiet [OF alongD [OF quiet_cancelled]])
  then have t: "turn_ok now cs ds (snd (cancelled s))" using assms(1) by (rule turn_adds)
  show ?thesis using charged [OF t] still [OF t] still [OF assms(1)]
    by (auto simp: remedy_def bnd_app split: option.splits)
qed

lemma turn_capture:
  assumes "turn_ok now ((name, d) # cs) ds s" and "name \<notin> set (map fst cs)"
  shows "turn_ok now cs ds (snd (remedy_capture auto samples now err (name, d) s))"
  unfolding remedy_capture_def prod.case
proof (rule remedy_cases [OF assms(1)])
  fix t x
  assume t: "turn_ok now ((name, d) # cs) ds t" and due: "cd_recovery_due d"
  let ?u = "snd (charge_capture name now t)"
  have c: "can_recover (cw_budget (hw_capture (mn_watch t))) name now"
    using t due by (simp add: turn_ok_def due_captures_def)
  have other: "same_capture k (capture_record_attempt w name now) w" if "k \<noteq> name" for k w
    using that by (simp add: same_capture_def capture_record_attempt_def stall_record_attempt_def glitch_pause_def Let_def)
  have "due_captures cs (mn_watch ?u) now"
    unfolding due_captures_def
  proof clarify
    fix k e
    assume e: "(k, e) \<in> set cs" "cd_recovery_due e"
    then have "k \<noteq> name" using assms(2) by force
    moreover have "can_recover (cw_budget (hw_capture (mn_watch t))) k now"
      using t e by (auto simp: turn_ok_def due_captures_def)
    ultimately show "can_recover (cw_budget (hw_capture (mn_watch ?u))) k now"
      using same_due(1) [OF other] by (simp add: charge_capture_def)
  qed
  moreover have "within_budgets (mn_watch ?u)"
    using t within_charge_capture [OF _ c] by (simp add: turn_ok_def bounded_run_def charge_capture_def)
  ultimately have "turn_ok now cs ds ?u"
    using t by (simp add: turn_ok_def bounded_run_def due_sinks_def charge_capture_def)
  then show "turn_ok now cs ds (snd (cycle_card name (cs_identity x) ?u))"
    by (rule turn_adds [OF cycle_card_adds])
qed (rule turn_later)

lemma spaced_now:
  assumes "spaced ts tried" and "cooled COOLDOWN tried now" and "n \<le> 1"
  shows "spaced (replicate n now @ ts) (Some now)"
proof -
  have c: "case ts of [] \<Rightarrow> True | t # _ \<Rightarrow> t + COOLDOWN \<le> now"
    using assms(1,2) by (auto simp: spaced_def cooled_def split: list.splits option.splits)
  then have "list_all (\<lambda>t. t + COOLDOWN \<le> now) ts"
    using assms(1) by (cases ts) (auto simp: spaced_def list_all_iff)
  then show ?thesis
    using assms(1,3) by (cases n; cases ts) (auto simp: spaced_def list_all_iff)
qed

lemma turn_sink:
  assumes "turn_ok now cs ((name, d) # ds) s" and "name \<notin> set (map fst ds)"
  shows "turn_ok now cs ds (snd (remedy_sink auto samples now err (name, d) s))"
  unfolding remedy_sink_def prod.case
proof (rule remedy_cases [OF assms(1)])
  fix t x
  assume t: "turn_ok now cs ((name, d) # ds) t" and due: "sd_recovery_due d"
  let ?u = "snd (charge_sink name now t)" and ?v = "snd (recycle_sink name (ss_identity x) (snd (charge_sink name now t)))"
  have r: "sink_should_recover (hw_sink (mn_watch t)) name now"
    using t due by (simp add: turn_ok_def due_sinks_def)
  have other: "same_sink k (sink_record_attempt w name now) w" if "k \<noteq> name" for k w
    using that by (simp add: same_sink_def sink_record_attempt_def Let_def)
  obtain names where n: "adds names ?u ?v" "set names \<subseteq> {name}" "length names \<le> 1"
    using recycle_sink_adds [of ?u name "ss_identity x"] by auto
  have watch: "mn_watch ?v = mn_watch ?u" "mn_host ?v = mn_host ?u" using n(1) by (auto simp: adds_def)
  have u: "mn_watch ?u = (mn_watch t)\<lparr>hw_sink := sink_record_attempt (hw_sink (mn_watch t)) name now\<rparr>"
      "mn_calls ?u = mn_calls t" "mn_host ?u = mn_host t" by (simp_all add: charge_sink_def)
  have "due_sinks ds (mn_watch ?u) now"
    unfolding due_sinks_def
  proof clarify
    fix k e
    assume e: "(k, e) \<in> set ds" "sd_recovery_due e"
    then have "k \<noteq> name" using assms(2) by force
    moreover have "sink_should_recover (hw_sink (mn_watch t)) k now"
      using t e by (auto simp: turn_ok_def due_sinks_def)
    ultimately show "sink_should_recover (hw_sink (mn_watch ?u)) k now"
      using same_due(2) [OF other] u by simp
  qed
  moreover have "within_budgets (mn_watch ?u)"
    using t within_charge_sink [OF _ r] unfolding u by (simp add: turn_ok_def bounded_run_def)
  moreover have "spaced (suspension_times (mn_host t) k (mn_calls ?v)) (sink_tried (hw_sink (mn_watch ?u)) k)" for k
  proof -
    have s: "spaced (suspension_times (mn_host t) k (mn_calls t)) (sink_tried (hw_sink (mn_watch t)) k)"
      using t by (simp add: turn_ok_def bounded_run_def)
    have now: "check_time (mn_host t) (mn_calls t) = now" using t by (simp add: turn_ok_def)
    show ?thesis
    proof (cases "k = name")
      case True
      have c: "cooled COOLDOWN (sink_tried (hw_sink (mn_watch t)) name) now"
        using sinks.due_cooled [OF r] t by (simp add: turn_ok_def bounded_run_def within_budgets_def)
      have "filter (\<lambda>m. m = name) names = names" using n(2) by (auto simp: filter_id_conv)
      then have "suspension_times (mn_host t) k (mn_calls ?v) =
          replicate (length names) now @ suspension_times (mn_host t) k (mn_calls t)"
        using adds_times(2) [OF n(1), of "mn_host t" k] True now u by (simp add: map_replicate_const)
      then show ?thesis
        using spaced_now [OF s [unfolded True] c n(3)] True u sinks.attempt_tried by simp
    next
      case False
      have "filter (\<lambda>m. m = k) names = []" using n(2) False by (auto simp: filter_empty_conv)
      then show ?thesis
        using s adds_times(2) [OF n(1), of "mn_host t" k] False u sinks.attempt_tried by simp
    qed
  qed
  ultimately show "turn_ok now cs ds ?v"
    using t adds_times(1) [OF n(1), of "mn_host t"] unfolding turn_ok_def bounded_run_def watch u
    by (simp add: due_captures_def)
qed (rule turn_later)

lemma sweep_rest:
  assumes "\<And>b e es s. I (e # es) s \<Longrightarrow> I es (snd (f b e s))" and "I es s"
  shows "I [] (snd (sweep f b es s))"
  using assms(2) by (induction es arbitrary: b s) (auto simp: bnd_app dest: assms(1))

lemma turn_captures:
  assumes "turn_ok now cs ds s" and "im_wf cs"
  shows "turn_ok now [] ds (snd (sweep (remedy_capture auto samples now) err cs s))"
proof -
  have "turn_ok now [] ds (snd (sweep (remedy_capture auto samples now) err cs s)) \<and> im_wf ([] :: (string \<times> capture_decision) list)"
    by (rule sweep_rest [where I = "\<lambda>es s. turn_ok now es ds s \<and> im_wf es"]) (use assms in \<open>auto simp: im_wf_def intro: turn_capture\<close>)
  then show ?thesis by simp
qed

lemma turn_sinks:
  assumes "turn_ok now cs ds s" and "im_wf ds"
  shows "turn_ok now cs [] (snd (sweep (remedy_sink auto samples now) err ds s))"
proof -
  have "turn_ok now cs [] (snd (sweep (remedy_sink auto samples now) err ds s)) \<and> im_wf ([] :: (string \<times> sink_decision) list)"
    by (rule sweep_rest [where I = "\<lambda>es s. turn_ok now cs es s \<and> im_wf es"]) (use assms in \<open>auto simp: im_wf_def intro: turn_sink\<close>)
  then show ?thesis by simp
qed

lemma check_bounded:
  assumes "bounded_run s" and "check_time (mn_host s) (mn_calls s) = now"
  shows "bounded_run (snd (check_once auto obs now s))"
proof -
  obtain report w where o': "health_observe (mn_watch s) obs now = (report, w)" by fastforce
  let ?s = "s\<lparr>mn_watch := w\<rparr>"
  have "within_budgets w" "sink_tried (hw_sink w) k = sink_tried (hw_sink (mn_watch s)) k" for k
    using within_observe(1) [of "mn_watch s" obs now] within_observe(2) [of "mn_watch s" obs now k] assms(1) o'
    by (simp_all add: bounded_run_def)
  then have b: "bounded_run ?s" using assms(1) by (simp add: bounded_run_def)
  have t: "turn_ok now (rep_captures report) (rep_sinks report) ?s" and wf: "im_wf (rep_captures report)" "im_wf (rep_sinks report)"
    using b assms(2) observed_due [OF o'] by (simp_all add: turn_ok_def)
  show ?thesis
    using b bounded_adds [OF restore_owed_adds b] turn_sinks [OF turn_captures [OF t wf(1)] wf(2)]
    by (auto simp: check_once_def o' bnd_app turn_ok_def split: observation.splits)
qed

lemma turn_bounded: "bounded_run s \<Longrightarrow> bounded_run (snd (monitor_turn auto s))"
proof -
  assume s: "bounded_run s"
  let ?t = "snd (collect_samples s)"
  let ?u = "snd (host_ask ReadClock host_time ?t)"
  have t: "bounded_run ?t" by (rule bounded_adds [OF adds_quiet [OF alongD [OF quiet_collect]] s])
  have u: "?u = ?t\<lparr>mn_calls := ReadClock # mn_calls ?t\<rparr>" "fst (host_ask ReadClock host_time ?t) = check_time (mn_host ?u) (mn_calls ?u)"
    by (simp_all add: host_ask_def bnd_app check_time_def)
  have "bounded_run ?u" using t by (simp add: u(1) bounded_run_def suspends_def)
  then show ?thesis using check_bounded [of ?u "check_time (mn_host ?u) (mn_calls ?u)"] u(2)
    by (simp add: monitor_turn_def bnd_app)
qed

interpretation bounding: evolution "\<lambda>s t. bounded_run s \<longrightarrow> bounded_run t"
  by unfold_locales auto

lemma bounding_basic:
  "along (\<lambda>s t. bounded_run s \<longrightarrow> bounded_run t) (monitor_turn auto)"
  "along (\<lambda>s t. bounded_run s \<longrightarrow> bounded_run t) restore_owed"
  "along (\<lambda>s t. bounded_run s \<longrightarrow> bounded_run t) cancelled"
  "along (\<lambda>s t. bounded_run s \<longrightarrow> bounded_run t) (wait_for d)"
  using turn_bounded bounded_adds [OF restore_owed_adds] bounded_adds [OF adds_quiet [OF alongD [OF quiet_cancelled]]]
    bounded_adds [OF adds_quiet [OF alongD [OF quiet_ask [OF plain_simps(2)]]]]
  by (auto simp: along_def wait_for_def)

lemma run_bounded: "along (\<lambda>s t. bounded_run s \<longrightarrow> bounded_run t) (monitor_run auto turns tries)"
proof -
  have "along (\<lambda>s t. bounded_run s \<longrightarrow> bounded_run t) (monitor_loop auto turns)"
  proof (induction turns)
    case 0
    show ?case unfolding monitor_loop.simps by (intro bounding.along_intros)
  next
    case (Suc n)
    show ?case unfolding monitor_loop.simps by (intro bounding.along_intros bounding_basic Suc.IH)
  qed
  moreover have "along (\<lambda>s t. bounded_run s \<longrightarrow> bounded_run t) (stop_until_restored tries)"
  proof (induction tries)
    case 0
    show ?case unfolding stop_until_restored.simps by (intro bounding.along_intros)
  next
    case (Suc n)
    show ?case unfolding stop_until_restored.simps by (intro bounding.along_intros bounding_basic Suc.IH)
  qed
  ultimately show ?thesis unfolding monitor_run_def by (intro bounding.along_intros)
qed

text \<open>
  C12. Recovery is bounded in every run of the health thread, whatever the sound server does: the attempts
  counted for a capture and for a sink never exceed the maximum, and the same sink is never suspended twice within the
  cool-down, counted by the clock of the turns.
\<close>

theorem monitor_recovery_bounded:
  "case monitor_run auto turns tries (monitor_new h) of (done, t) \<Rightarrow>
     stall_spent (cw_budget (hw_capture (mn_watch t))) name \<le> MAX_ATTEMPTS \<and>
     sink_spent (hw_sink (mn_watch t)) name \<le> MAX_ATTEMPTS \<and>
     sorted_wrt (\<lambda>later earlier. earlier + COOLDOWN \<le> later) (suspension_times h name (mn_calls t))"
proof -
  let ?t = "snd (monitor_run auto turns tries (monitor_new h))"
  have "bounded_run (monitor_new h)"
    using within_default by (simp add: bounded_run_def monitor_new_def spaced_def)
  with alongD [OF run_bounded [of auto turns tries], of "monitor_new h"] have "bounded_run ?t" by blast
  moreover have "mn_host ?t = h"
    using alongD [OF settling_run [of auto turns tries], of "monitor_new h"] by (simp add: monitor_new_def)
  ultimately show ?thesis
    by (auto simp: bounded_run_def within_budgets_def spaced_def split: prod.splits)
qed

end
