(* ===== verification/Pins.thy ===== *)
theory Pins
  imports Health_Parse
begin

text \<open>
  The keep-alive of captures in \<^verbatim>\<open>crates/openwave-runtime/src/audio.rs\<close>: every capture is read all the time by a
  process of its own, the pin, and \<^verbatim>\<open>PinWatch\<close> decides when the process is replaced. What the readers have
  received, whether they can be started and stopped, the graph and the clock are inputs of each turn of
  the loop. The processes, the registration of the readers at the meters and the waiting between two turns are not modelled;
  a hash map is a list of its entries.
\<close>

subsection \<open>When a pin is replaced\<close>

definition STARTUP :: duration where "STARTUP = from_secs 1"
definition WEDGE :: duration where "WEDGE = from_secs 3"
definition SILENCE :: duration where "SILENCE = from_secs 30"
definition MUTE_RECHECK :: duration where "MUTE_RECHECK = from_secs 5"

datatype pin_status = PinAbsent | PinStarting | PinUnknown | PinHealthy | PinWedged | PinSilent
datatype pin_action = KeepPin | RestartPin

record pin_watch =
  pw_started :: nat
  pw_last_data :: nat
  pw_silence_since :: nat
  pw_received :: bool
  pw_silence_spent :: bool
  pw_status :: pin_status

definition pin_watch_new :: "nat \<Rightarrow> pin_watch" where
  "pin_watch_new now = \<lparr>pw_started = now, pw_last_data = now, pw_silence_since = now, pw_received = False,
     pw_silence_spent = False, pw_status = PinStarting\<rparr>"

definition pin_restarted :: "nat \<Rightarrow> pin_watch \<Rightarrow> pin_watch" where
  "pin_restarted now w = w\<lparr>pw_started := now, pw_last_data := now, pw_silence_since := now, pw_received := False,
     pw_status := PinStarting\<rparr>"

definition pin_bytes :: "nat \<Rightarrow> bool \<Rightarrow> pin_watch \<Rightarrow> pin_watch" where
  "pin_bytes moment nonzero w =
     (let w = w\<lparr>pw_last_data := max (pw_last_data w) moment, pw_received := True\<rparr>
      in if nonzero then w\<lparr>pw_silence_since := moment, pw_silence_spent := False\<rparr> else w)"

text \<open>Durations since an instant saturate at zero, as subtraction on naturals does.\<close>

definition pin_step :: "nat \<Rightarrow> bool \<Rightarrow> bool \<Rightarrow> bool option \<Rightarrow> pin_watch \<Rightarrow> pin_action \<times> pin_watch" where
  "pin_step now alive graph_known muted w =
     (if \<not> graph_known \<or> muted = None then (KeepPin, w\<lparr>pw_silence_since := now, pw_status := PinUnknown\<rparr>)
      else if \<not> alive then (RestartPin, w\<lparr>pw_status := PinStarting\<rparr>)
      else if now - pw_started w < STARTUP then (KeepPin, w\<lparr>pw_status := PinStarting\<rparr>)
      else if WEDGE \<le> now - pw_last_data w then (RestartPin, w\<lparr>pw_status := PinWedged\<rparr>)
      else if \<not> pw_received w then (KeepPin, w\<lparr>pw_status := PinStarting\<rparr>)
      else if muted = Some True then (KeepPin, w\<lparr>pw_silence_since := now, pw_status := PinHealthy\<rparr>)
      else if SILENCE \<le> now - pw_silence_since w
      then (if pw_silence_spent w then (KeepPin, w\<lparr>pw_status := PinSilent\<rparr>)
            else (RestartPin, w\<lparr>pw_status := PinSilent, pw_silence_spent := True\<rparr>))
      else (KeepPin, w\<lparr>pw_status := PinHealthy\<rparr>))"

fun pin_rank :: "pin_status \<Rightarrow> nat" where
  "pin_rank PinAbsent = 0"
| "pin_rank PinHealthy = 1"
| "pin_rank PinStarting = 2"
| "pin_rank PinUnknown = 3"
| "pin_rank PinSilent = 4"
| "pin_rank PinWedged = 5"

text \<open>\<^verbatim>\<open>max_by_key\<close> returns the last of several maxima.\<close>

definition aggregate_status :: "pin_status list \<Rightarrow> pin_status" where
  "aggregate_status states = (case states of
       [] \<Rightarrow> PinAbsent
     | x # xs \<Rightarrow> foldl (\<lambda>best y. if pin_rank best \<le> pin_rank y then y else best) x xs)"

subsection \<open>The captures of the graph\<close>

record capture_node =
  cn_name :: string
  cn_identity :: node_identity
  cn_muted :: "bool option"

definition json_at :: "json \<Rightarrow> string \<Rightarrow> json" where
  "json_at v k = (case jget v k of None \<Rightarrow> JNull | Some x \<Rightarrow> x)"

text \<open>The mutes of all routes, if they are known and agree.\<close>

fun routes_mute :: "bool option \<Rightarrow> json list \<Rightarrow> bool option" where
  "routes_mute found [] = found"
| "routes_mute found (r # rs) = (case as_bool (json_at (json_at r ''props'') ''mute'') of
       None \<Rightarrow> None
     | Some mute \<Rightarrow> if found = Some (\<not> mute) then None else routes_mute (Some mute) rs)"

definition object_with_id :: "json list \<Rightarrow> u32 \<Rightarrow> json option" where
  "object_with_id objects n = find (\<lambda>v. json_uint (json_at v ''id'') = Some n) objects"

definition capture_mute :: "json list \<Rightarrow> json \<Rightarrow> bool option" where
  "capture_mute objects object =
     Option.bind (json_uint (json_at (json_at (json_at object ''info'') ''props'') ''device.id'')) (\<lambda>device.
     Option.bind (object_with_id objects device) (\<lambda>v.
     Option.bind (as_array (json_at (json_at (json_at v ''info'') ''params'') ''Route'')) (\<lambda>routes.
       routes_mute None (filter (\<lambda>r. as_str (json_at r ''direction'') = Some ''Input'') routes))))"

definition capture_node_of :: "json list \<Rightarrow> string \<times> watched_node \<Rightarrow> capture_node res" where
  "capture_node_of objects e = (case e of (name, node) \<Rightarrow>
     rbind (ok_or (error_unavailable ''capture node disappeared from graph'') (object_with_id objects (wn_node_id node))) (\<lambda>object.
       if jget (json_at (json_at object ''info'') ''props'') ''object.serial'' = None
       then Inl (error_unavailable (''Capture '' @ name @ '' has no targetable object.serial''))
       else Inr \<lparr>cn_name = name, cn_identity = wn_identity node, cn_muted = capture_mute objects object\<rparr>))"

definition capture_nodes :: "json \<Rightarrow> capture_node list res" where
  "capture_nodes v =
     rbind (parse_health_graph v) (\<lambda>graph.
     rbind (ok_or (error_unavailable ''invalid capture graph'') (as_array v)) (\<lambda>objects.
       res_mapM (capture_node_of objects) (hg_captures graph)))"

subsection \<open>One pin\<close>

text \<open>What a reader has received; \<open>None\<close> where its lock is poisoned.\<close>

record reader_samples =
  rs_last_data :: "nat option"
  rs_last_nonzero :: "nat option"
  rs_exited :: bool

text \<open>How starting a reader goes: the old one cannot be stopped, the new one cannot be registered or started.\<close>

record start_outcome =
  so_stopped :: bool
  so_now :: nat
  so_registered :: bool
  so_spawned :: bool

record pin =
  pn_node :: capture_node
  pn_watch :: pin_watch
  pn_reader :: bool
  pn_last_sample :: "nat option"
  pn_last_signal :: "nat option"
  pn_last_flow :: "nat option"
  pn_checked :: nat

definition pin_start :: "start_outcome \<Rightarrow> pin \<Rightarrow> pin" where
  "pin_start so p =
     (if pn_reader p \<and> \<not> so_stopped so then p\<lparr>pn_reader := False\<rparr>
      else let p = p\<lparr>pn_reader := False, pn_watch := pin_restarted (so_now so) (pn_watch p), pn_last_sample := None,
             pn_last_signal := None\<rparr>
           in if \<not> so_registered so then p
              else p\<lparr>pn_last_flow := (case pn_last_flow p of None \<Rightarrow> Some (so_now so) | Some moment \<Rightarrow> Some moment),
                     pn_reader := so_spawned so\<rparr>)"

text \<open>Whether the reader lives, whether a new signal was heard, and the pin with what was received.\<close>

definition pin_observe :: "reader_samples option \<Rightarrow> pin \<Rightarrow> bool \<times> bool \<times> pin" where
  "pin_observe samples p =
     (if \<not> pn_reader p then (False, False, p)
      else (case samples of
          None \<Rightarrow> (False, False, p\<lparr>pn_node := (pn_node p)\<lparr>cn_muted := None\<rparr>\<rparr>)
        | Some x \<Rightarrow>
            (let p = (case rs_last_data x of
                   None \<Rightarrow> p
                 | Some moment \<Rightarrow> if Some moment = pn_last_sample p then p
                     else p\<lparr>pn_watch := pin_bytes moment False (pn_watch p), pn_last_sample := Some moment, pn_last_flow := Some moment\<rparr>)
             in (case rs_last_nonzero x of
                   None \<Rightarrow> (\<not> rs_exited x, False, p)
                 | Some moment \<Rightarrow> if Some moment = pn_last_signal p then (\<not> rs_exited x, False, p)
                     else (\<not> rs_exited x, True,
                           p\<lparr>pn_watch := pin_bytes moment True (pn_watch p), pn_last_signal := Some moment\<rparr>)))))"

subsection \<open>The loop\<close>

datatype pin_event = HeardSignal string | Recycled string pin_status

record pins =
  ps_pins :: "(string, pin) imap"
  ps_dormant :: "(string, pin_watch) imap"
  ps_status :: "pin_status option"
  ps_retry :: duration
  ps_errors :: "string list"
  ps_trace :: "pin_event list"

text \<open>
  The inputs of a turn. The samples and the outcomes are by the name of the capture; a pin that is retired is
  observed and stopped, a new one is created, and one that stays is observed and restarted.
  \<open>ai_seen\<close> is how many nodes are handled before the loop is cancelled.
\<close>

record audio_input =
  ai_graph :: "json res"
  ai_now :: nat
  ai_seen :: nat
  ai_last_samples :: "string \<Rightarrow> reader_samples option"
  ai_stop :: "string \<Rightarrow> unit res"
  ai_create :: "string \<Rightarrow> start_outcome"
  ai_samples :: "string \<Rightarrow> reader_samples option"
  ai_restart :: "string \<Rightarrow> start_outcome"

definition heard :: "string \<Rightarrow> bool \<Rightarrow> pin_event list \<Rightarrow> pin_event list" where
  "heard name signal trace = (if signal then HeardSignal name # trace else trace)"

definition put_pin :: "string \<Rightarrow> pin \<Rightarrow> bool \<Rightarrow> pins \<Rightarrow> pins" where
  "put_pin name p signal s = s\<lparr>ps_pins := im_insert (ps_pins s) name p, ps_trace := heard name signal (ps_trace s)\<rparr>"

text \<open>The graph is unknown: nothing is recovered.\<close>

definition audio_unknown :: "audio_input \<Rightarrow> pins \<Rightarrow> string \<Rightarrow> pins" where
  "audio_unknown i s name = (case im_get (ps_pins s) name of
       None \<Rightarrow> s
     | Some p \<Rightarrow>
         (case pin_observe (ai_samples i name) p of (alive, signal, p) \<Rightarrow>
            put_pin name (p\<lparr>pn_watch := snd (pin_step (ai_now i) alive False None (pn_watch p))\<rparr>) signal s))"

definition gone :: "capture_node list \<Rightarrow> string \<times> pin \<Rightarrow> bool" where
  "gone nodes e = (case e of (name, p) \<Rightarrow>
     \<not> list_ex (\<lambda>n. cn_name n = name \<and> cn_identity n = cn_identity (pn_node p)) nodes)"

definition audio_retire :: "audio_input \<Rightarrow> pins \<Rightarrow> string \<Rightarrow> pins" where
  "audio_retire i s name = (case im_get (ps_pins s) name of
       None \<Rightarrow> s
     | Some p \<Rightarrow>
         (case pin_observe (ai_last_samples i name) p of (alive, signal, p) \<Rightarrow>
            s\<lparr>ps_pins := im_shift_remove (ps_pins s) name, ps_dormant := im_insert (ps_dormant s) name (pn_watch p),
              ps_errors := (case (if pn_reader p then ai_stop i name else Inr ()) of
                  Inl e \<Rightarrow> ps_errors s @ [err_message e] | Inr _ \<Rightarrow> ps_errors s),
              ps_trace := heard name signal (ps_trace s)\<rparr>))"

definition audio_admit :: "audio_input \<Rightarrow> pins \<Rightarrow> capture_node \<Rightarrow> pins" where
  "audio_admit i s node = (case im_get (ps_pins s) (cn_name node) of
       Some p \<Rightarrow>
         if MUTE_RECHECK \<le> ai_now i - pn_checked p
         then s\<lparr>ps_pins := im_insert (ps_pins s) (cn_name node)
                (p\<lparr>pn_node := (pn_node p)\<lparr>cn_muted := cn_muted node\<rparr>, pn_checked := ai_now i\<rparr>)\<rparr>
         else s
     | None \<Rightarrow>
         (let w = (case im_get (ps_dormant s) (cn_name node) of None \<Rightarrow> pin_watch_new (ai_now i) | Some w \<Rightarrow> w);
              p = \<lparr>pn_node = node, pn_watch = w, pn_reader = False, pn_last_sample = None, pn_last_signal = None,
                   pn_last_flow = None, pn_checked = ai_now i\<rparr>
          in s\<lparr>ps_pins := im_insert (ps_pins s) (cn_name node) (pin_start (ai_create i (cn_name node)) p),
               ps_dormant := im_shift_remove (ps_dormant s) (cn_name node)\<rparr>))"

definition audio_check :: "audio_input \<Rightarrow> pins \<Rightarrow> string \<Rightarrow> pins" where
  "audio_check i s name = (case im_get (ps_pins s) name of
       None \<Rightarrow> s
     | Some p \<Rightarrow>
         (case pin_observe (ai_samples i name) p of (alive, signal, p) \<Rightarrow>
          (case pin_step (ai_now i) alive True (cn_muted (pn_node p)) (pn_watch p) of (act, w) \<Rightarrow>
             (let p = p\<lparr>pn_watch := w\<rparr> in
              if act = RestartPin
              then (let s = put_pin name (pin_start (ai_restart i name) p) signal s
                    in s\<lparr>ps_trace := Recycled name (pw_status w) # ps_trace s\<rparr>)
              else put_pin name p signal s))))"

definition audio_turn :: "audio_input \<Rightarrow> pins \<Rightarrow> pins" where
  "audio_turn i s = (case rbind (ai_graph i) capture_nodes of
       Inl e \<Rightarrow>
         (let s = foldl (audio_unknown i) s (im_keys (ps_pins s)) in s\<lparr>ps_status := Some PinUnknown\<rparr>)
     | Inr nodes \<Rightarrow>
         (let s = foldl (audio_retire i) s (map fst (filter (gone nodes) (ps_pins s)));
              s = foldl (audio_admit i) s (take (ai_seen i) nodes);
              s = foldl (audio_check i) s (im_keys (ps_pins s))
          in s\<lparr>ps_status := Some (aggregate_status (map (\<lambda>p. pw_status (pn_watch p)) (im_values (ps_pins s)))),
               ps_retry := (if ps_pins s = [] then min (2 * ps_retry s) MUTE_RECHECK else 100000000)\<rparr>))"

definition pins_new :: pins where
  "pins_new = \<lparr>ps_pins = [], ps_dormant = [], ps_status = None, ps_retry = 100000000, ps_errors = [], ps_trace = []\<rparr>"

definition audio_run :: "audio_input list \<Rightarrow> pins" where
  "audio_run inputs = foldl (\<lambda>s i. audio_turn i s) pins_new inputs"

fun join_errors :: "string list \<Rightarrow> string" where
  "join_errors [] = []"
| "join_errors [e] = e"
| "join_errors (e # es) = e @ ''; '' @ join_errors es"

text \<open>The end: the pins that are left are stopped, and every failure is reported.\<close>

definition audio_end :: "(string \<Rightarrow> unit res) \<Rightarrow> pins \<Rightarrow> unit res" where
  "audio_end stop s =
     (let errors = ps_errors s @ concat (map (\<lambda>(name, p). case (if pn_reader p then stop name else Inr ()) of
            Inl e \<Rightarrow> [err_message e] | Inr _ \<Rightarrow> []) (ps_pins s))
      in if errors = [] then Inr () else Inl (error_unavailable (join_errors errors)))"

subsection \<open>Silence is answered once\<close>

text \<open>What the trace says of the silence of a capture, the last first.\<close>

definition marks :: "string \<Rightarrow> pin_event list \<Rightarrow> pin_event list" where
  "marks name trace = filter (\<lambda>e. e = HeardSignal name \<or> e = Recycled name PinSilent) trace"

definition spent_in :: "(string, pin) imap \<Rightarrow> (string, pin_watch) imap \<Rightarrow> string \<Rightarrow> bool" where
  "spent_in pins dormant name = (case im_get pins name of
       Some p \<Rightarrow> pw_silence_spent (pn_watch p)
     | None \<Rightarrow> (case im_get dormant name of Some w \<Rightarrow> pw_silence_spent w | None \<Rightarrow> False))"

abbreviation spent_of :: "pins \<Rightarrow> string \<Rightarrow> bool" where
  "spent_of s name \<equiv> spent_in (ps_pins s) (ps_dormant s) name"

text \<open>A restart for silence uses up the allowance, and only a signal gives it back.\<close>

definition allowance :: "string \<Rightarrow> pin_event list \<Rightarrow> bool \<Rightarrow> bool" where
  "allowance name trace spent \<longleftrightarrow>
     successively (\<lambda>a b. a = HeardSignal name \<or> b = HeardSignal name) (marks name trace) \<and>
     (case marks name trace of Recycled k st # _ \<Rightarrow> spent | _ \<Rightarrow> True)"

lemma marks_simps [simp]:
  "marks name [] = []"
  "marks name (HeardSignal k # tr) = (if k = name then HeardSignal k # marks name tr else marks name tr)"
  "marks name (Recycled k st # tr) = (if k = name \<and> st = PinSilent then Recycled k st # marks name tr else marks name tr)"
  by (simp_all add: marks_def)

lemma marks_heard: "marks name (heard k signal tr) = (if k = name \<and> signal then HeardSignal k # marks name tr else marks name tr)"
  by (simp add: heard_def)

lemma allowance_heard:
  assumes "allowance name trace spent" and "spent' = (spent \<and> \<not> signal)"
  shows "allowance name (heard name signal trace) spent'"
  using assms by (cases "marks name trace") (auto simp: allowance_def marks_heard split: pin_event.splits)

lemma allowance_silence:
  assumes "allowance name trace spent" and "st = PinSilent \<Longrightarrow> \<not> spent \<and> spent'" and "st \<noteq> PinSilent \<Longrightarrow> spent' = spent"
  shows "allowance name (Recycled name st # trace) spent'"
proof (cases "marks name trace")
  case Nil
  then show ?thesis using assms by (simp add: allowance_def)
next
  case (Cons e es)
  have "e = HeardSignal name \<or> e = Recycled name PinSilent"
    using arg_cong [OF Cons, of set] by (auto simp: marks_def)
  then show ?thesis using assms Cons by (auto simp: allowance_def)
qed

lemma observe_spent:
  "pin_observe samples p = (alive, signal, p') \<Longrightarrow>
     pw_silence_spent (pn_watch p') = (pw_silence_spent (pn_watch p) \<and> \<not> signal)"
  by (auto simp: pin_observe_def pin_bytes_def Let_def split: if_splits option.splits)

lemma start_spent: "pw_silence_spent (pn_watch (pin_start so p)) = pw_silence_spent (pn_watch p)"
  by (simp add: pin_start_def pin_restarted_def Let_def)

text \<open>A step recycles for silence only if that is still allowed, and else it leaves the allowance alone.\<close>

lemma step_spent:
  assumes "pin_step now alive seen muted w = (action, w')"
  shows "(if action = RestartPin \<and> pw_status w' = PinSilent then \<not> pw_silence_spent w \<and> pw_silence_spent w'
      else pw_silence_spent w' = pw_silence_spent w)"
  using assms by (auto simp: pin_step_def split: if_splits)

definition pins_ok :: "pins \<Rightarrow> bool" where
  "pins_ok s \<longleftrightarrow> im_wf (ps_pins s) \<and> im_wf (ps_dormant s) \<and> (\<forall>name. allowance name (ps_trace s) (spent_of s name))"

lemma allowance_other: "k \<noteq> name \<Longrightarrow> allowance name (heard k signal tr) b = allowance name tr b"
  "k \<noteq> name \<Longrightarrow> allowance name (Recycled k st # tr) b = allowance name tr b"
  by (simp_all add: allowance_def marks_heard)

lemma pins_step:
  assumes "pins_ok s" and "im_wf (ps_pins t)" "im_wf (ps_dormant t)"
    and "\<And>k. k \<noteq> name \<Longrightarrow> spent_of t k = spent_of s k"
    and "ps_trace t = heard name signal (ps_trace s)" "spent_of t name = (spent_of s name \<and> \<not> signal)"
  shows "pins_ok t"
  unfolding pins_ok_def
proof (intro conjI allI assms(2,3))
  fix k
  show "allowance k (ps_trace t) (spent_of t k)"
    using assms(1,4) allowance_heard [of k "ps_trace s" "spent_of s k" "spent_of t k" signal] assms(5,6)
    by (cases "k = name") (auto simp: pins_ok_def allowance_other)
qed

lemma spent_in_simps:
  "spent_in (im_insert pins name p) dormant k = (if k = name then pw_silence_spent (pn_watch p) else spent_in pins dormant k)"
  "spent_in (im_shift_remove pins name) (im_insert dormant name w) k =
     (if k = name then pw_silence_spent w else spent_in pins dormant k)"
  "im_get pins name = Some p \<Longrightarrow> spent_in pins dormant name = pw_silence_spent (pn_watch p)"
  by (auto simp: spent_in_def split: option.splits)

lemma put_pin_spent:
  "spent_of (put_pin name p signal s) k = (if k = name then pw_silence_spent (pn_watch p) else spent_of s k)"
  by (simp add: spent_in_def put_pin_def)

lemma put_pin_ok:
  assumes "pins_ok s" and "im_get (ps_pins s) name = Some p" and "pin_observe samples p = (alive, signal, p')"
    and "pw_silence_spent (pn_watch q) = pw_silence_spent (pn_watch p')"
  shows "pins_ok (put_pin name q signal s)"
  by (rule pins_step [OF assms(1), of _ name signal])
    (use assms(1,2,4) observe_spent [OF assms(3)] in \<open>simp_all add: pins_ok_def put_pin_def spent_in_simps\<close>)

lemma audio_unknown_ok:
  assumes "pins_ok s"
  shows "pins_ok (audio_unknown i s name)"
proof (cases "im_get (ps_pins s) name")
  case (Some p)
  obtain alive signal q where o': "pin_observe (ai_samples i name) p = (alive, signal, q)" by (cases "pin_observe (ai_samples i name) p")
  show ?thesis
    using put_pin_ok [OF assms Some o', of "q\<lparr>pn_watch := snd (pin_step (ai_now i) alive False None (pn_watch q))\<rparr>"] Some o'
    by (simp add: audio_unknown_def pin_step_def)
qed (simp add: audio_unknown_def assms)

lemma audio_retire_ok:
  assumes "pins_ok s"
  shows "pins_ok (audio_retire i s name)"
proof (cases "im_get (ps_pins s) name")
  case (Some p)
  obtain alive signal q where o': "pin_observe (ai_last_samples i name) p = (alive, signal, q)" by (cases "pin_observe (ai_last_samples i name) p")
  show ?thesis
    by (rule pins_step [OF assms, of _ name signal])
      (use assms Some o' observe_spent [OF o'] in \<open>simp_all add: pins_ok_def audio_retire_def spent_in_simps\<close>)
qed (simp add: audio_retire_def assms)

lemma audio_admit_ok:
  assumes "pins_ok s"
  shows "pins_ok (audio_admit i s node)"
proof -
  let ?k = "cn_name node"
  have same: "spent_of (audio_admit i s node) k = spent_of s k" for k
    using assms
    by (auto simp: pins_ok_def audio_admit_def spent_in_def Let_def start_spent pin_watch_new_def split: option.splits)
  have "ps_trace (audio_admit i s node) = ps_trace s"
    "im_wf (ps_pins (audio_admit i s node))" "im_wf (ps_dormant (audio_admit i s node))"
    using assms by (auto simp: pins_ok_def audio_admit_def Let_def split: option.splits)
  then show ?thesis using assms same by (simp add: pins_ok_def)
qed

lemma recycled_ok:
  assumes "pins_ok s" and "spent_of t name = spent'" and "\<And>k. k \<noteq> name \<Longrightarrow> spent_of t k = spent_of s k"
    and "im_wf (ps_pins t)" "im_wf (ps_dormant t)" "ps_trace t = Recycled name st # ps_trace s"
    and "st = PinSilent \<Longrightarrow> \<not> spent_of s name \<and> spent'" "st \<noteq> PinSilent \<Longrightarrow> spent' = spent_of s name"
  shows "pins_ok t"
  unfolding pins_ok_def
proof (intro conjI allI assms(4,5))
  fix k
  show "allowance k (ps_trace t) (spent_of t k)"
    using assms(1-3) allowance_silence [of name "ps_trace s" "spent_of s name" st spent'] assms(6-8)
    by (cases "k = name") (auto simp: pins_ok_def allowance_other)
qed

lemma audio_check_ok:
  assumes "pins_ok s"
  shows "pins_ok (audio_check i s name)"
proof (cases "im_get (ps_pins s) name")
  case (Some p)
  obtain alive signal q where o': "pin_observe (ai_samples i name) p = (alive, signal, q)" by (cases "pin_observe (ai_samples i name) p")
  obtain action w where st: "pin_step (ai_now i) alive True (cn_muted (pn_node q)) (pn_watch q) = (action, w)" by fastforce
  let ?q = "q\<lparr>pn_watch := w\<rparr>"
  show ?thesis
  proof (cases "action = RestartPin")
    case False
    then have "pins_ok (put_pin name ?q signal s)"
      using put_pin_ok [OF assms Some o', of ?q] step_spent [OF st] by simp
    then show ?thesis using False Some o' st by (simp add: audio_check_def Let_def)
  next
    case True
    let ?t = "put_pin name (pin_start (ai_restart i name) ?q) signal s"
    have u: "pins_ok (put_pin name q signal s)" by (rule put_pin_ok [OF assms Some o']) simp
    have "pins_ok (?t\<lparr>ps_trace := Recycled name (pw_status w) # ps_trace ?t\<rparr>)"
      by (rule recycled_ok [OF u, where spent' = "pw_silence_spent w"])
        (use assms step_spent [OF st] True in
          \<open>auto simp: start_spent pins_ok_def put_pin_def spent_in_simps split: if_splits\<close>)
    then show ?thesis using True Some o' st by (simp add: audio_check_def Let_def)
  qed
qed (simp add: audio_check_def assms)

lemma foldl_ok: "(\<And>s x. pins_ok s \<Longrightarrow> pins_ok (f s x)) \<Longrightarrow> pins_ok s \<Longrightarrow> pins_ok (foldl f s xs)"
  by (induction xs arbitrary: s) auto

lemma audio_turn_ok:
  assumes "pins_ok s"
  shows "pins_ok (audio_turn i s)"
proof -
  have show_ok: "pins_ok s \<Longrightarrow> pins_ok (s\<lparr>ps_status := x, ps_retry := d\<rparr>)" "pins_ok s \<Longrightarrow> pins_ok (s\<lparr>ps_status := x\<rparr>)" for s x d
    by (simp_all add: pins_ok_def spent_in_def)
  show ?thesis
    unfolding audio_turn_def Let_def
    by (auto intro!: show_ok foldl_ok audio_unknown_ok audio_check_ok audio_admit_ok audio_retire_ok assms split: sum.splits)
qed

lemma audio_run_ok: "pins_ok (audio_run inputs)"
proof -
  have "pins_ok (foldl (\<lambda>s i. audio_turn i s) pins_new inputs)"
  proof (rule foldl_ok)
    show "pins_ok pins_new" by (simp add: pins_ok_def pins_new_def allowance_def)
  qed (rule audio_turn_ok)
  then show ?thesis by (simp add: audio_run_def)
qed

text \<open>
  C13. A silent capture is recycled once: in every run of the loop, between two restarts of the reader of the same
  capture that are made because it is silent, a signal of that capture has been heard - also if the capture was
  unplugged in between, its reader was restarted for other reasons, or the graph was unknown.
\<close>

theorem silence_recycled_once:
  "successively (\<lambda>a b. a = HeardSignal name \<or> b = HeardSignal name) (marks name (ps_trace (audio_run inputs)))"
  using audio_run_ok [of inputs] by (simp add: pins_ok_def allowance_def)

end
