(* ===== verification/Spec2Isabelle.thy ===== *)
theory Spec2Isabelle
  imports Protocol Fx_Graph Health_Parse Answers Revisions Mixer_End Mixer_Quick Usb_Owner Monitor Pins
begin

text \<open>
  OpenWave: a control program for Elgato microphones and a software mixer on PipeWire.

  The program has three crates. \<^verbatim>\<open>openwave-core\<close> holds the data model and everything that is computed
  without a device, a process or a file; \<^verbatim>\<open>openwave-runtime\<close> drives devices, the sound server and the
  files with it; \<^verbatim>\<open>openwave-desktop\<close> is the graphical interface. This development models the core, and of
  the runtime the controller with its stores, the mixer with its observation of the sound server, the
  owners of the devices, and the watch over the health of the hardware:
  pure functions of the code are functions here, \<^verbatim>\<open>&mut self\<close> methods take and return the state
  record, \<^verbatim>\<open>Result\<close> is a sum with the errors of \<^verbatim>\<open>model.rs\<close> on the left, machine integers are words,
  and doubles are exact rationals with the rounding of IEEE 754 written out.

  Foundations.
  \<^item> \<open>Prelude\<close>: errors, \<^verbatim>\<open>?\<close> as \<open>rbind\<close>, fallible loops as \<open>res_foldM\<close>, saturating arithmetic, and the
    named collections the other theories use.
  \<^item> \<open>F64\<close>: binary64: infinities, NaN, signed zeros, rounding to nearest even with subnormals and overflow,
    comparison, \<^verbatim>\<open>total_cmp\<close>, \<^verbatim>\<open>clamp\<close>, \<^verbatim>\<open>as\<close> casts; lemmas that each operation is near the exact one.
  \<^item> \<open>Rust_Str\<close>: the string and integer-parsing functions of the standard library that the core uses.
  \<^item> \<open>Index_Map\<close>: \<^verbatim>\<open>IndexMap\<close> as a list of distinct keys: insertion keeps the place of a present key,
    removal is \<^verbatim>\<open>shift_remove\<close> or, for the maps of JSON objects, \<^verbatim>\<open>swap_remove\<close>.
  \<^item> \<open>Json\<close>: the \<^verbatim>\<open>Value\<close>s of serde\_json and their accessors.

  Components of the core (file under \<^verbatim>\<open>crates/openwave-core/src\<close>, and what is proved).
  \<^item> \<open>Profiles\<close>, \<open>Protocol\<close> (\<^verbatim>\<open>profiles.rs\<close>, \<^verbatim>\<open>protocol.rs\<close>): the table of devices; the image of the device's registers,
    byte for byte, with every setting. Applying a setting refines the abstract device state, touches no
    byte it does not own, and decoding inverts encoding.
  \<^item> \<open>Alsa\<close> (\<^verbatim>\<open>protocol.rs\<close>): identities of cards and units, the parser of \<^verbatim>\<open>amixer\<close>, the scales of the two interfaces.
  \<^item> \<open>Effects\<close>, \<open>Fx_Graph\<close> (\<^verbatim>\<open>effects.rs\<close>): settings, their validation and serialization; the filter chain that is rendered for
    them, which is proved to be one connected graph.
  \<^item> \<open>Model\<close> (\<^verbatim>\<open>model.rs\<close>): sources, mixes, routing matrix, preferences: decoding with every legacy form, encoding,
    round trips, and the invariants of what loads.
  \<^item> \<open>Routing\<close> (\<^verbatim>\<open>routing.rs\<close>): who owns a stream, which output is monitored, exclusive groups as a sequence of
    changes that is safe at every step, and the quoting of properties.
  \<^item> \<open>Scenes\<close> (\<^verbatim>\<open>scenes.rs\<close>): identifiers, patches, the store document, the choice of hardware for a recalled scene.
  \<^item> \<open>Health\<close>, \<open>Health_Parse\<close> (\<^verbatim>\<open>health.rs\<close>): the watches that decide when a stalled node is repaired, with a budget of attempts.
    Two locales state the contract of a budget; the sink watch and the capture watch interpret them.
    The parsers of \<^verbatim>\<open>pw-top\<close>, of \<^verbatim>\<open>/proc/asound\<close>, of mutes and of the dump of the graph.
  \<^item> \<open>Calibration\<close> (\<^verbatim>\<open>calibration.rs\<close>): measuring a recording and proposing effects from it, with all roundings.

  The controller (files under \<^verbatim>\<open>crates/openwave-runtime/src\<close>). One thread owns the configuration; clients
  send it commands through a channel, the back end sends it events, and it answers every command.
  \<^item> \<open>Step\<close>: operations that read and change a state and may fail, and the facts that follow along them.
  \<^item> \<open>Store\<close> (\<^verbatim>\<open>store.rs\<close>): the five documents. The file system is a state with an oracle that may fail any
    operation. Replacing a document is atomic.
  \<^item> \<open>Snapshot\<close>, \<open>Controller\<close>, \<open>Commit\<close>, \<open>Mutes\<close> (\<^verbatim>\<open>controller.rs\<close>, \<^verbatim>\<open>state.rs\<close>, \<^verbatim>\<open>mutes.rs\<close>): the messages, the state, requests
    and their answers, pending edits, committing a change and everything that follows it, writes to
    devices, and the handover of an exclusive group from one member to the next.
  \<^item> \<open>Sessions\<close>, \<open>Recall\<close> (\<^verbatim>\<open>calibration.rs\<close>, \<^verbatim>\<open>scene.rs\<close>): the calibration session; saving and applying scenes.
  \<^item> \<open>Observe\<close>, \<open>Commands\<close> (\<^verbatim>\<open>state.rs\<close>, \<^verbatim>\<open>mutations.rs\<close>): every event of the back end and every command of the clients,
    freezing, shutdown and removal, the turn of the loop, and the admission of commands.
  \<^item> \<open>Runs\<close>, \<open>Lifecycle\<close>: what one has to know of a relation between states for it to hold between the
    beginning and the end of every operation. The locales \<open>quiet_run\<close>, \<open>busy_run\<close>, \<open>recorder_run\<close>, \<open>store_run\<close>, \<open>active_run\<close>,
    \<open>freezing_run\<close>, \<open>session_run\<close>, \<open>stepwise_run\<close> and \<open>full_run\<close> add one kind of step after another, and prove the
    operations once for all relations. \<open>Runs\<close> also states the protocol of a calibration session, \<open>session_step\<close>: the number
    of the next session, the open session and the orders given to the recorder.
  \<^item> \<open>System\<close>: clients, channel and loop, interleaved in any order. Interpretations of the locales give the
    invariants of all runs: device jobs are written once, all routings are exclusive, the calibration
    follows the protocol of the session at every step. \<open>Frozen\<close>: nothing changes after the freeze. \<open>Answers\<close>: every
    command is answered exactly once. \<open>Revisions\<close>: the published snapshot shows the configuration of the stores, and its
    number identifies it.

  The back end of the controller is an oracle: it may refuse any call, depending on all calls before,
  and send any events. The clock advances by any amount in each turn, and fresh identifiers come from
  a parameter. A hash map is a list of entries in an unknown order. Left out are the fields of the
  installation that are only shown, the generation of a meter, \<^verbatim>\<open>needs_replug\<close>, the end of the loop when all
  clients have gone, and the factory that fails.

  The mixer (\<^verbatim>\<open>mixer.rs\<close>). One worker observes the sound server again and again and changes it until it is what
  the controller asked for. Its clients share a record with it, \<^verbatim>\<open>Control\<close>, behind a lock.
  \<^item> \<open>Graph\<close>: \<^verbatim>\<open>GraphSnapshot\<close>: the dumps of the two servers, read from their JSON with every refusal; which node is
    a capture, which stream belongs to which source, which links are missing or wrong.
  \<^item> \<open>Equality\<close>: the derived comparisons by which the worker decides whether a configuration has changed.
  \<^item> \<open>Mixer_State\<close>: \<^verbatim>\<open>Control\<close>, \<^verbatim>\<open>Reconciler\<close> and the calls to the trait \<^verbatim>\<open>GraphBackend\<close>. The sound server is an oracle that
    sees all calls made so far and may refuse each of them; every call is recorded.
  \<^item> \<open>Mixer_Ops\<close>, \<^verbatim>\<open>ensure_sink\<close>, \<^verbatim>\<open>sync_capture_mutes\<close>, \<^verbatim>\<open>sync_masters\<close>, effects and routes: the operations on single
    objects. \<open>Mixer_Pass\<close>: the quick path \<^verbatim>\<open>retune\<close>, the full pass \<^verbatim>\<open>reconcile\<close> with its barrier of silence, the requests
    of the clients, the loop \<^verbatim>\<open>run\<close> and \<^verbatim>\<open>teardown\<close>.
  \<^item> \<open>Mixer_Inv\<close>, \<open>Mixer_Frame\<close>: what an invariant has to know of the single calls in order to be kept by every
    operation and every run; the locales \<open>mixer_invariant\<close> and those that extend it are interpreted for every
    invariant of the theories that follow.
  \<^item> \<open>Mixer_Own\<close>: only what the mixer made is ever destroyed.
  \<^item> \<open>Mixer_Trace\<close>: what has really been done, read off the calls and their answers and not off the records of the
    mixer: which calls have succeeded (\<open>done_since\<close>), what was seen to be absent (\<open>absent_since\<close>) and which child
    processes are alive (\<open>children\<close>). The records are shown to forget no child that is alive. The three theories below state
    what they promise in these terms.
  \<^item> \<open>Mixer_Safe\<close>: a pass unmutes no route before each cell that must be silent has been silenced by a call that
    succeeded, on every path, errors included. \<open>Mixer_End\<close>: requests for a mute never outlive their binding, what clients
    read is proven, and the end leaves no child and no sink behind or reports that it could not, after a bounded number of
    rounds. \<open>Mixer_Quick\<close>: linking two nodes, and the quick path, which brings every cell to the level and the mute that
    are asked of it and never opens or closes a route.

  The devices (\<^verbatim>\<open>device.rs\<close>). One thread discovers what is plugged in, and one worker for each unit owns it.
  \<^item> \<open>Usb_Device\<close>: \<^verbatim>\<open>VendorDevice\<close>, \<^verbatim>\<open>CardControls\<close>, \<^verbatim>\<open>Mirror\<close>, \<^verbatim>\<open>SyncedDevice\<close>: transfers over USB, the controls of the sound
    card through \<^verbatim>\<open>amixer\<close>, polling and applying. USB, \<^verbatim>\<open>amixer\<close> and the files of \<^verbatim>\<open>/proc/asound\<close> are an oracle
    that may answer each request with anything or fail it. Applying settings is a transaction: all are
    checked before the device is touched, and what is reported afterwards is the register as it was written.
    Polling lets the firmware win over the sound card.
  \<^item> \<open>Usb_Owner\<close>: \<^verbatim>\<open>DeviceManager\<close>, \<^verbatim>\<open>discovery\<close>, \<^verbatim>\<open>unit_worker\<close>, as steps that are interleaved in any order. Every job is
    answered exactly once, also when a unit is pulled or its worker fails to open it; the events of a
    unit come in the order of its life.

  Health (\<^verbatim>\<open>health.rs\<close>, \<^verbatim>\<open>recovery.rs\<close>, \<^verbatim>\<open>audio.rs\<close> of the runtime). A thread watches over the hardware with the watches of the
  core, and repairs it if the user has agreed to that; another keeps every capture flowing.
  \<^item> \<open>Recovery\<close>: the two remedies, \<^verbatim>\<open>cycle_card\<close> and \<^verbatim>\<open>recycle_sink\<close>, with all that is validated before, and \<^verbatim>\<open>Restoration\<close>, which
    owes what they disturb. The programs \<^verbatim>\<open>pactl\<close>, \<^verbatim>\<open>pw-dump\<close> and \<^verbatim>\<open>pw-top\<close> are an oracle that sees all calls made so far.
  \<^item> \<open>Monitor\<close>: \<^verbatim>\<open>collect_samples\<close>, \<^verbatim>\<open>check_once\<close>, the loop of \<^verbatim>\<open>HealthMonitor\<close> and its end. Exactly what is disturbed is
    owed; attempts stay within the budgets, for which the contracts of \<open>Health\<close> are used; an observer changes nothing.
  \<^item> \<open>Pins\<close>: \<^verbatim>\<open>PinWatch\<close> and \<^verbatim>\<open>audio_loop\<close>: when the reader of a capture is replaced. Silence is answered once.

  The controller, the mixer and the devices meet only through messages: the oracle of the controller's
  back end covers every order of answers and refusals that the other two may give. What the clients of
  the mixer do between two turns of the worker, and what the server does between two calls, is arbitrary.

  Parameters of the model: the printers of serde\_json (with the law that parsing inverts them where a
  statement needs it), Unicode case folding of non-ASCII text, and the functions \<^verbatim>\<open>exp\<close> and \<^verbatim>\<open>log10\<close> of
  the mathematical library. Every loop is structural or has a bound that the code itself gives (the rounds of
  the teardown); nothing needs fuel. A thread that may run for ever is a number of turns, or a list of its inputs,
  and statements hold for all of them.

  Not modelled. Of what is modelled: locks that are poisoned and the panics that poison them, the length of
  sleeps, joining threads (\<^verbatim>\<open>Mixer::stop\<close>) and the command lines by which \<^verbatim>\<open>SubprocessPipeWire\<close> carries out a call.
  Of the runtime: the native back end (\<^verbatim>\<open>native.rs\<close>), which hands the calls of the controller to the other
  threads; \<^verbatim>\<open>meter.rs\<close> and \<^verbatim>\<open>calibration.rs\<close>, threads around the functions of the core; \<^verbatim>\<open>process.rs\<close>, \<^verbatim>\<open>paths.rs\<close>;
  the installer, its inventory, its recovery and the removal, which are work on files and processes; probing,
  diagnostics, the service and the tray. The graphical interface only shows a snapshot and sends commands.
\<close>

end
